(* ===== verification/Minix_Prelude.thy ===== *)
theory Minix_Prelude
  imports Main "HOL-Library.Word"
begin

unbundle bit_operations_syntax

text \<open>
  Shared vocabulary of the development: how C integers wrap, bit flags held in machine
  words, faults (the ways a C function fails to return normally) as values of a sum type,
  and singly linked chains of table slots, which the kernel, the timer library, the process
  manager and the file system all build by hand with pointers to pointers.
\<close>

section \<open>Collections of rewrite rules\<close>

named_theorems cwrap \<open>values in range are unchanged by a C conversion\<close>
named_theorems flagbits \<open>setting, clearing and testing flag bits\<close>
named_theorems chainI \<open>introduction rules for linked chains\<close>

section \<open>Signed C integers\<close>

type_synonym u8 = "8 word"
type_synonym u16 = "16 word"
type_synonym u32 = "32 word"

text \<open>
  The models use \<open>int\<close> for signed C integers and write the conversion to the width of
  the variable out where the source stores an arithmetic result.
\<close>

definition schar :: "int \<Rightarrow> int" where
  "schar x = (x + 128) mod 256 - 128"

definition sshort :: "int \<Rightarrow> int" where
  "sshort x = (x + 32768) mod 65536 - 32768"

definition slong :: "int \<Rightarrow> int" where
  "slong x = (x + 2147483648) mod 4294967296 - 2147483648"

lemma schar_id [cwrap]: "- 128 \<le> x \<Longrightarrow> x < 128 \<Longrightarrow> schar x = x"
  by (simp add: schar_def)

lemma schar_range: "- 128 \<le> schar x" "schar x < 128"
  unfolding schar_def by (simp_all add: pos_mod_sign pos_mod_bound)

lemma sshort_id [cwrap]: "- 32768 \<le> x \<Longrightarrow> x < 32768 \<Longrightarrow> sshort x = x"
  by (simp add: sshort_def)

lemma slong_id [cwrap]: "- 2147483648 \<le> x \<Longrightarrow> x < 2147483648 \<Longrightarrow> slong x = x"
  by (simp add: slong_def)

lemma slong_range: "- 2147483648 \<le> slong x" "slong x < 2147483648"
  unfolding slong_def by (simp_all add: pos_mod_sign pos_mod_bound)

text \<open>C division truncates towards zero.\<close>

definition cdiv :: "int \<Rightarrow> int \<Rightarrow> int" where
  "cdiv a b = sgn a * sgn b * (\<bar>a\<bar> div \<bar>b\<bar>)"

lemma cdiv_pos [cwrap]: "0 \<le> a \<Longrightarrow> 0 < b \<Longrightarrow> cdiv a b = a div b"
  by (cases "a = 0") (simp_all add: cdiv_def sgn_if)

section \<open>Flag words\<close>

lemma flag_clear_same [simp, flagbits]:
  fixes x m :: "'a::len word"
  shows "(x AND NOT m) AND m = 0"
  by (rule bit_word_eqI) (auto simp: bit_simps)

lemma flag_clear_other [simp, flagbits]:
  fixes x m :: "'a::len word"
  assumes "m AND k = 0"
  shows "(x AND NOT m) AND k = x AND k"
proof (rule bit_word_eqI)
  fix n
  assume "n < LENGTH('a)"
  have "\<not> (bit m n \<and> bit k n)"
    using assms by (metis bit_and_iff bit_0_eq bot_apply bot_bool_def)
  then show "bit ((x AND NOT m) AND k) n = bit (x AND k) n"
    using \<open>n < LENGTH('a)\<close> by (auto simp: bit_simps)
qed

lemma flag_set_same [simp, flagbits]:
  fixes x m :: "'a::len word"
  shows "(x OR m) AND m = m"
  by (rule bit_word_eqI) (auto simp: bit_simps)

lemma flag_set_other [simp, flagbits]:
  fixes x m :: "'a::len word"
  assumes "m AND k = 0"
  shows "(x OR m) AND k = x AND k"
proof (rule bit_word_eqI)
  fix n
  assume "n < LENGTH('a)"
  have "\<not> (bit m n \<and> bit k n)"
    using assms by (metis bit_and_iff bit_0_eq bot_apply bot_bool_def)
  then show "bit ((x OR m) AND k) n = bit (x AND k) n"
    by (auto simp: bit_simps)
qed

lemma flag_set_nonzero [flagbits]:
  fixes x m :: "'a::len word"
  assumes "m \<noteq> 0"
  shows "x OR m \<noteq> 0"
  using assms by (metis and_zero_eq flag_set_same word_bw_comms(1))

lemma flag_set_mono:
  fixes x m k :: "'a::len word"
  assumes "x AND k \<noteq> 0"
  shows "(x OR m) AND k \<noteq> 0"
proof -
  have "(x OR m) AND k = (x AND k) OR (m AND k)" by (rule bit_word_eqI) (auto simp: bit_simps)
  with assms show ?thesis by (simp add: or_eq_0_iff)
qed

lemma flag_set_superset:
  fixes x m k :: "'a::len word"
  assumes "m AND k = k"
  shows "(x OR m) AND k = k"
proof (rule bit_word_eqI)
  fix n
  assume "n < LENGTH('a)"
  have "bit k n \<Longrightarrow> bit m n"
    using assms by (metis bit_and_iff)
  then show "bit ((x OR m) AND k) n = bit k n"
    by (auto simp: bit_simps)
qed

lemma flag_test_or:
  fixes x m k :: "'a::len word"
  shows "x AND (m OR k) = 0 \<longleftrightarrow> x AND m = 0 \<and> x AND k = 0"
proof -
  have "x AND (m OR k) = (x AND m) OR (x AND k)" by (rule bit_word_eqI) (auto simp: bit_simps)
  then show ?thesis by (simp add: or_eq_0_iff)
qed

section \<open>Faults\<close>

text \<open>
  What can stop a C function from returning: a loop that never ends, an array access
  outside its table, a null pointer dereference, and a call of \<open>panic\<close>.
\<close>

datatype fault = Hang | BadIndex int | NullDeref | Panic string

type_synonym 'a res = "fault + 'a"

definition bindr :: "'a res \<Rightarrow> ('a \<Rightarrow> 'b res) \<Rightarrow> 'b res" where
  "bindr r f = (case r of Inl e \<Rightarrow> Inl e | Inr x \<Rightarrow> f x)"

definition deref :: "'a option \<Rightarrow> 'a res" where
  "deref p = (case p of None \<Rightarrow> Inl NullDeref | Some x \<Rightarrow> Inr x)"

text \<open>A loop modelled in the option type: not returning is the fault \<open>Hang\<close>.\<close>

definition ran :: "'a res option \<Rightarrow> 'a res" where
  "ran r = (case r of None \<Rightarrow> Inl Hang | Some x \<Rightarrow> x)"

lemma bindr_simps [simp]: "bindr (Inl e) f = Inl e" "bindr (Inr x) f = f x"
  by (simp_all add: bindr_def)

lemma bindr_Inr_iff: "bindr r f = Inr y \<longleftrightarrow> (\<exists>x. r = Inr x \<and> f x = Inr y)"
  by (cases r) simp_all

lemma bindr_assoc: "bindr (bindr r f) g = bindr r (\<lambda>x. bindr (f x) g)"
  by (cases r) simp_all

lemma bindr_ok:
  "\<exists>x. r = Inr x \<and> P x \<Longrightarrow> (\<And>x. P x \<Longrightarrow> \<exists>y. f x = Inr y \<and> Q y) \<Longrightarrow> \<exists>y. bindr r f = Inr y \<and> Q y"
  by auto

lemma deref_simps [simp]: "deref None = Inl NullDeref" "deref (Some x) = Inr x"
  by (simp_all add: deref_def)

lemma ran_simps [simp]: "ran None = Inl Hang" "ran (Some r) = r"
  by (simp_all add: ran_def)

section \<open>Linked chains\<close>

text \<open>
  \<open>lseg nxt p xs q\<close>: following the links \<open>nxt\<close> from the pointer \<open>p\<close> visits exactly
  the slots \<open>xs\<close> and arrives at the pointer \<open>q\<close>. A chain ends at the null pointer.
\<close>

primrec lseg :: "('a \<Rightarrow> 'a option) \<Rightarrow> 'a option \<Rightarrow> 'a list \<Rightarrow> 'a option \<Rightarrow> bool" where
  "lseg nxt p [] q = (p = q)"
| "lseg nxt p (x # xs) q = (p = Some x \<and> lseg nxt (nxt x) xs q)"

abbreviation chain :: "('a \<Rightarrow> 'a option) \<Rightarrow> 'a option \<Rightarrow> 'a list \<Rightarrow> bool" where
  "chain nxt p xs \<equiv> lseg nxt p xs None"

definition last_opt :: "'a list \<Rightarrow> 'a option" where
  "last_opt xs = (if xs = [] then None else Some (last xs))"

definition head_opt :: "'a list \<Rightarrow> 'a option" where
  "head_opt xs = (case xs of [] \<Rightarrow> None | x # _ \<Rightarrow> Some x)"

lemma last_opt_simps [simp]:
  "last_opt [] = None" "last_opt (xs @ [x]) = Some x" "last_opt [x] = Some x"
  by (simp_all add: last_opt_def)

lemma head_opt_simps [simp]: "head_opt [] = None" "head_opt (x # xs) = Some x"
  by (simp_all add: head_opt_def)

lemma head_opt_None [simp]: "head_opt xs = None \<longleftrightarrow> xs = []"
  by (cases xs) simp_all

lemma chain_None [simp]: "chain nxt None xs \<longleftrightarrow> xs = []"
  by (cases xs) auto

lemma chain_head: "chain nxt p xs \<Longrightarrow> head_opt xs = p"
  by (cases xs) auto

lemma lseg_append [simp]:
  "lseg nxt p (xs @ ys) q \<longleftrightarrow> (\<exists>r. lseg nxt p xs r \<and> lseg nxt r ys q)"
  by (induction xs arbitrary: p) auto

lemma lseg_frame [simp]:
  "u \<notin> set xs \<Longrightarrow> lseg (nxt(u := v)) p xs q = lseg nxt p xs q"
  by (induction xs arbitrary: p) auto

lemma lseg_cong:
  "(\<And>x. x \<in> set xs \<Longrightarrow> nxt x = nxt' x) \<Longrightarrow> lseg nxt p xs q = lseg nxt' p xs q"
  by (induction xs arbitrary: p) auto

lemma chain_unique: "chain nxt p xs \<Longrightarrow> chain nxt p ys \<Longrightarrow> xs = ys"
proof (induction xs arbitrary: p ys)
  case Nil
  then show ?case by simp
next
  case (Cons x xs)
  then show ?case by (cases ys) auto
qed

lemma chain_suffix_head: "chain nxt p (xs @ x # ys) \<Longrightarrow> chain nxt (Some x) (x # ys)"
  by auto

lemma chain_distinct: "chain nxt p xs \<Longrightarrow> distinct xs"
proof (induction xs arbitrary: p)
  case Nil
  then show ?case by simp
next
  case (Cons x xs)
  have "x \<notin> set xs"
  proof
    assume "x \<in> set xs"
    then obtain us vs where xs: "xs = us @ x # vs"
      by (auto simp: in_set_conv_decomp)
    with Cons.prems have "chain nxt (Some x) (x # vs)" and "chain nxt (Some x) (x # xs)"
      by auto
    then have "x # vs = x # xs" by (rule chain_unique)
    with xs show False by simp
  qed
  with Cons show ?case by auto
qed

text \<open>Linking a slot after the last one, and unlinking a slot behind its predecessor.\<close>

lemma chain_snoc [chainI]:
  assumes "chain nxt p (xs @ [t])" and "x \<notin> set (xs @ [t])"
  shows "chain (nxt(t := Some x, x := None)) p (xs @ [t, x])"
proof -
  from assms(1) have "distinct (xs @ [t])" by (rule chain_distinct)
  with assms show ?thesis by auto
qed

lemma chain_unlink [chainI]:
  assumes "chain nxt p (xs @ [t] @ x # ys)"
  shows "chain (nxt(t := nxt x)) p (xs @ [t] @ ys)"
proof -
  from assms have "distinct (xs @ [t] @ x # ys)" by (rule chain_distinct)
  with assms show ?thesis by auto
qed

lemma chain_insert_after [chainI]:
  assumes "chain nxt p (xs @ [t] @ ys)" and "x \<notin> set (xs @ [t] @ ys)"
  shows "chain (nxt(x := nxt t, t := Some x)) p (xs @ [t] @ x # ys)"
proof -
  from assms(1) have "distinct (xs @ [t] @ ys)" by (rule chain_distinct)
  with assms show ?thesis by auto
qed

lemma chain_last_next: "chain nxt p (xs @ [t]) \<Longrightarrow> nxt t = None"
  by auto

lemma remove1_middle: "x \<notin> set xs \<Longrightarrow> remove1 x (xs @ x # ys) = xs @ ys"
  by (simp add: remove1_append)

lemma last_opt_remove1_last:
  assumes "distinct (xs @ [x])"
  shows "remove1 x (xs @ [x]) = xs"
  using assms by (simp add: remove1_append)

section \<open>Pointers to pointers\<close>

text \<open>
  The sources walk a chain with a pointer to the link under examination,
  \<^verbatim>\<open>for (xpp = &head; *xpp != NULL; xpp = &(*xpp)->next) if (c(*xpp)) break;\<close>, and then
  assign through it. \<open>loc\<close> is such a pointer: to the head variable or to the link of a
  slot. \<open>walk g stop l\<close> is the loop, from the link \<open>l\<close>, where \<open>g\<close> reads a link; it gives the
  link at which the loop stops, and \<open>None\<close> when it never stops.
\<close>

datatype 'a loc = Head | Next 'a

partial_function (option) walk ::
  "('a loc \<Rightarrow> 'a option) \<Rightarrow> ('a \<Rightarrow> bool) \<Rightarrow> 'a loc \<Rightarrow> 'a loc option" where
  "walk g stop l =
     (case g l of
        None \<Rightarrow> Some l
      | Some x \<Rightarrow> if stop x then Some l else walk g stop (Next x))"

text \<open>The slot whose link it is (\<open>prev_xp\<close> in \<open>dequeue\<close>): null at the head.\<close>

fun loc_owner :: "'a loc \<Rightarrow> 'a option" where
  "loc_owner Head = None"
| "loc_owner (Next x) = Some x"

definition loc_after :: "'a list \<Rightarrow> 'a loc" where
  "loc_after us = (if us = [] then Head else Next (last us))"

lemma loc_after_simps [simp]:
  "loc_after [] = Head" "loc_after (us @ [u]) = Next u" "loc_after [u] = Next u"
  by (simp_all add: loc_after_def)

lemma loc_owner_after: "loc_owner (loc_after us) = last_opt us"
  by (simp add: loc_after_def last_opt_def)

lemma loc_after_eq_Next: "loc_after us = Next x \<Longrightarrow> x \<in> set us"
  by (auto simp: loc_after_def split: if_splits)

text \<open>
  The interface of a linked list in memory: reading and assigning links. Timers, ready
  queues, caller queues, interrupt hooks and memory holes provide it.
\<close>

locale linked_list =
  fixes get :: "'a loc \<Rightarrow> 's \<Rightarrow> 'a option"
    and put :: "'a loc \<Rightarrow> 'a option \<Rightarrow> 's \<Rightarrow> 's"
  assumes get_put: "get l (put l' p s) = (if l = l' then p else get l s)"
begin

abbreviation links :: "'s \<Rightarrow> 'a list \<Rightarrow> 'a option \<Rightarrow> bool" where
  "links s xs p \<equiv> lseg (\<lambda>x. get (Next x) s) (get Head s) xs p"

lemma get_loc_after: "links s us p \<Longrightarrow> get (loc_after us) s = p"
  by (cases us rule: rev_cases) auto

lemma walk_stops:
  assumes "links s (us @ xs) None"
  shows "walk (\<lambda>l. get l s) stop (loc_after us) =
    Some (loc_after (us @ takeWhile (\<lambda>y. \<not> stop y) xs))"
  using assms
proof (induction xs arbitrary: us)
  case Nil
  then have "get (loc_after us) s = None" by (intro get_loc_after) simp
  then show ?case by (subst walk.simps) simp
next
  case (Cons x xs)
  from Cons.prems have g: "get (loc_after us) s = Some x"
    by (intro get_loc_after) auto
  from Cons.prems have "links s ((us @ [x]) @ xs) None" by simp
  from Cons.IH [OF this] g show ?case by (subst walk.simps) auto
qed

lemma walk_whole:
  "links s xs None \<Longrightarrow>
    walk (\<lambda>l. get l s) stop Head = Some (loc_after (takeWhile (\<lambda>y. \<not> stop y) xs))"
  using walk_stops [of s "[]" xs stop] by simp

lemma links_put_Next: "(\<lambda>x. get (Next x) (put (Next t) p s)) = (\<lambda>x. get (Next x) s)(t := p)"
  by (auto simp: get_put)

lemma links_put_Head: "(\<lambda>x. get (Next x) (put Head p s)) = (\<lambda>x. get (Next x) s)"
  by (auto simp: get_put)

lemma head_put: "get Head (put (Next t) p s) = get Head s" "get Head (put Head p s) = p"
  by (simp_all add: get_put)

lemmas put_simps = links_put_Next links_put_Head head_put

lemma unlink:
  assumes "links s (us @ x # vs) None"
  shows "links (put (loc_after us) (get (Next x) s) s) (us @ vs) None"
proof (cases us rule: rev_cases)
  case Nil
  with assms show ?thesis by (simp add: put_simps)
next
  case (snoc ts t)
  with assms have "chain ((\<lambda>x. get (Next x) s)(t := get (Next x) s)) (get Head s) (ts @ [t] @ vs)"
    by (intro chain_unlink) simp
  then show ?thesis by (simp add: snoc put_simps)
qed

lemma link_in:
  assumes "links s (us @ vs) None" and "x \<notin> set (us @ vs)"
  shows "links (put (loc_after us) (Some x) (put (Next x) (get (loc_after us) s) s)) (us @ x # vs) None"
proof (cases us rule: rev_cases)
  case Nil
  then show ?thesis using assms by (simp add: put_simps)
next
  case (snoc ts t)
  then have "t \<noteq> x" using assms(2) by auto
  have "chain ((\<lambda>x. get (Next x) s)(x := get (Next t) s, t := Some x)) (get Head s) (ts @ [t] @ x # vs)"
    using assms snoc by (intro chain_insert_after) simp_all
  with snoc show ?thesis by (simp add: put_simps del: lseg_append)
qed

lemma append_last:
  assumes "links s us None" and "x \<notin> set us"
  shows "links (put (Next x) None (put (loc_after us) (Some x) s)) (us @ [x]) None"
proof (cases us rule: rev_cases)
  case Nil
  then show ?thesis by (simp add: put_simps)
next
  case (snoc ts t)
  have "chain ((\<lambda>x. get (Next x) s)(t := Some x, x := None)) (get Head s) (ts @ [t, x])"
    using assms snoc by (intro chain_snoc) simp_all
  with snoc show ?thesis by (simp add: put_simps del: lseg_append)
qed

end

lemma takeWhile_neq_notin: "x \<notin> set xs \<Longrightarrow> takeWhile (\<lambda>y. \<not> y = x) xs = xs"
  by (auto simp: takeWhile_eq_all_conv)

lemma split_at_first:
  assumes "x \<in> set xs"
  shows "\<exists>vs. xs = takeWhile (\<lambda>y. y \<noteq> x) xs @ x # vs \<and>
              remove1 x xs = takeWhile (\<lambda>y. y \<noteq> x) xs @ vs"
  using assms by (induction xs) auto

end
