(* ===== verification/Timers.thy ===== *)
theory Timers
  imports Minix_Prelude
begin

text \<open>
  The watchdog timer library (\<open>src/src/lib/timers\<close>, \<open>include/timers.h\<close>). A queue of
  timers is a chain of \<open>timer_t\<close> structures linked by \<open>tmr_next\<close>, walked with a pointer
  to the link that is examined. The chain keeps the timer that expires first in front.
  The interface \<open>timer_queue\<close> states what the clock task and the servers rely on.
\<close>

section \<open>Data\<close>

record ('a, 'f) timer =
  tmr_next :: "'a option"
  tmr_exp_time :: int
  tmr_func :: 'f
  tmr_arg :: int

abbreviation (input) TMR_NEVER :: int where
  "TMR_NEVER \<equiv> 2147483647"

text \<open>The timer structures by address, and the caller's head pointer \<open>*tmrs\<close>.\<close>

record ('a, 'f) tqueue =
  theap :: "'a \<Rightarrow> ('a, 'f) timer"
  thead :: "'a option"

text \<open>Reading and assigning through the loop variable \<open>timer_t **atp\<close>.\<close>

fun tget :: "'a loc \<Rightarrow> ('a, 'f) tqueue \<Rightarrow> 'a option" where
  "tget Head q = thead q"
| "tget (Next x) q = tmr_next (theap q x)"

fun tput :: "'a loc \<Rightarrow> 'a option \<Rightarrow> ('a, 'f) tqueue \<Rightarrow> ('a, 'f) tqueue" where
  "tput Head p q = q\<lparr>thead := p\<rparr>"
| "tput (Next x) p q = q\<lparr>theap := (theap q)(x := (theap q x)\<lparr>tmr_next := p\<rparr>)\<rparr>"

interpretation tlist: linked_list tget tput
proof
  fix l l' :: "'a loc" and p and q :: "('a, 'f) tqueue"
  show "tget l (tput l' p q) = (if l = l' then p else tget l q)"
    by (cases l; cases l') auto
qed

section \<open>Operations\<close>

definition tmr_inittimer :: "'a \<Rightarrow> ('a, 'f) tqueue \<Rightarrow> ('a, 'f) tqueue" where
  "tmr_inittimer tp q =
     q\<lparr>theap := (theap q)(tp := (theap q tp)\<lparr>tmr_exp_time := TMR_NEVER, tmr_next := None\<rparr>)\<rparr>"

definition head_time :: "('a, 'f) tqueue \<Rightarrow> int" where
  "head_time q = (case thead q of None \<Rightarrow> 0 | Some x \<Rightarrow> tmr_exp_time (theap q x))"

text \<open>
  \<open>tmrs_clrtimer\<close> returns the expiry time of the old head, the time stored through
  \<open>next_time\<close> (when that pointer is not null), and the new queue.
\<close>

definition tmrs_clrtimer ::
  "'a \<Rightarrow> ('a, 'f) tqueue \<Rightarrow> (int \<times> int \<times> ('a, 'f) tqueue) option" where
  "tmrs_clrtimer tp q =
     (let prev_time = head_time q;
          q1 = q\<lparr>theap := (theap q)(tp := (theap q tp)\<lparr>tmr_exp_time := TMR_NEVER\<rparr>)\<rparr>
      in case walk (\<lambda>l. tget l q1) (\<lambda>x. x = tp) Head of
           None \<Rightarrow> None
         | Some atp \<Rightarrow>
             let q2 = (if tget atp q1 = Some tp then tput atp (tmr_next (theap q1 tp)) q1 else q1)
             in Some (prev_time, head_time q2, q2))"

definition tmrs_settimer ::
  "'a \<Rightarrow> int \<Rightarrow> 'f \<Rightarrow> ('a, 'f) tqueue \<Rightarrow> (int \<times> int \<times> ('a, 'f) tqueue) option" where
  "tmrs_settimer tp exp_time watchdog q =
     (let old_head = head_time q in
      case tmrs_clrtimer tp q of
        None \<Rightarrow> None
      | Some (_, _, q1) \<Rightarrow>
          let q2 = q1\<lparr>theap := (theap q1)(tp := (theap q1 tp)
                       \<lparr>tmr_exp_time := exp_time, tmr_func := watchdog\<rparr>)\<rparr>
          in case walk (\<lambda>l. tget l q2) (\<lambda>x. exp_time < tmr_exp_time (theap q2 x)) Head of
               None \<Rightarrow> None
             | Some atp \<Rightarrow>
                 let q3 = tput (Next tp) (tget atp q2) q2;
                     q4 = tput atp (Some tp) q3
                 in Some (old_head, head_time q4, q4))"

text \<open>
  \<open>tmrs_exptimers\<close> runs the watchdog of every expired timer. The watchdog is the
  caller's code, so it is a parameter \<open>run\<close>; it may change the queue and the caller's
  own state.
\<close>

partial_function (option) tmrs_exptimers ::
  "('a \<Rightarrow> 'f \<Rightarrow> ('a, 'f) tqueue \<times> 's \<Rightarrow> ('a, 'f) tqueue \<times> 's) \<Rightarrow> int \<Rightarrow>
   ('a, 'f) tqueue \<times> 's \<Rightarrow> (int \<times> ('a, 'f) tqueue \<times> 's) option" where
  "tmrs_exptimers run now qs =
     (let q = fst qs in
      case thead q of
        None \<Rightarrow> Some (head_time q, qs)
      | Some tp \<Rightarrow>
          if tmr_exp_time (theap q tp) \<le> now then
            let q1 = q\<lparr>thead := tmr_next (theap q tp)\<rparr>;
                q2 = q1\<lparr>theap := (theap q1)(tp := (theap q1 tp)\<lparr>tmr_exp_time := TMR_NEVER\<rparr>)\<rparr>
            in tmrs_exptimers run now (run tp (tmr_func (theap q2 tp)) (q2, snd qs))
          else Some (head_time q, qs))"

section \<open>The queue as a sorted list\<close>

abbreviation texp :: "('a, 'f) tqueue \<Rightarrow> 'a \<Rightarrow> int" where
  "texp q x \<equiv> tmr_exp_time (theap q x)"

abbreviation tnext :: "('a, 'f) tqueue \<Rightarrow> 'a \<Rightarrow> 'a option" where
  "tnext q \<equiv> (\<lambda>x. tmr_next (theap q x))"

definition tq_rep :: "('a, 'f) tqueue \<Rightarrow> 'a list \<Rightarrow> bool" where
  "tq_rep q xs \<longleftrightarrow> chain (tnext q) (thead q) xs \<and> sorted (map (texp q) xs)"

definition insert_timer :: "('a \<Rightarrow> int) \<Rightarrow> int \<Rightarrow> 'a \<Rightarrow> 'a list \<Rightarrow> 'a list" where
  "insert_timer e t x xs = takeWhile (\<lambda>y. e y \<le> t) xs @ x # dropWhile (\<lambda>y. e y \<le> t) xs"

lemma tq_rep_distinct: "tq_rep q xs \<Longrightarrow> distinct xs"
  by (auto simp: tq_rep_def dest: chain_distinct)

lemma set_insert_timer [simp]: "set (insert_timer e t x xs) = insert x (set xs)"
  unfolding insert_timer_def by (metis (no_types, lifting) Un_insert_right list.simps(15)
      set_append takeWhile_dropWhile_id)

lemma head_time_rep: "tq_rep q xs \<Longrightarrow> head_time q = (if xs = [] then 0 else texp q (hd xs))"
  by (cases xs) (auto simp: tq_rep_def head_time_def)

lemma tput_exp [simp]: "texp (tput l p q) = texp q"
  by (cases l) (auto simp: fun_eq_iff)

lemma tput_func [simp]: "tmr_func (theap (tput l p q) x) = tmr_func (theap q x)"
  "tmr_arg (theap (tput l p q) x) = tmr_arg (theap q x)"
  by (cases l; auto)+

lemma sorted_map_remove1: "sorted (map f xs) \<Longrightarrow> sorted (map f (remove1 x xs))"
proof (induction xs)
  case Nil
  then show ?case by simp
next
  case (Cons a xs)
  then show ?case by (auto dest: notin_set_remove1 set_remove1_subset [THEN subsetD])
qed

text \<open>\<open>tmrs_clrtimer\<close> always returns, deactivates the timer and removes it from the list.\<close>

lemma tq_rep_links: "tq_rep q xs \<longleftrightarrow> tlist.links q xs None \<and> sorted (map (texp q) xs)"
  by (simp add: tq_rep_def)

text \<open>A queue that is sorted but for the timer \<open>tp\<close>, whose time the caller may have changed.\<close>

definition tq_but :: "'a \<Rightarrow> ('a, 'f) tqueue \<Rightarrow> 'a list \<Rightarrow> bool" where
  "tq_but tp q xs \<longleftrightarrow> chain (tnext q) (thead q) xs \<and> sorted (map (texp q) (remove1 tp xs))"

lemma tq_rep_but: "tq_rep q xs \<Longrightarrow> tq_but tp q xs"
  by (simp add: tq_rep_def tq_but_def sorted_map_remove1)

lemma tq_but_distinct: "tq_but tp q xs \<Longrightarrow> distinct xs"
  by (auto simp: tq_but_def dest: chain_distinct)

lemma tmrs_clrtimer_spec:
  assumes "tq_but tp q xs"
  shows "\<exists>q'. tmrs_clrtimer tp q = Some (head_time q, head_time q', q') \<and>
     tq_rep q' (remove1 tp xs) \<and> texp q' = (texp q)(tp := TMR_NEVER) \<and>
     (\<forall>x. tmr_func (theap q' x) = tmr_func (theap q x) \<and> tmr_arg (theap q' x) = tmr_arg (theap q x))"
proof -
  define q1 where "q1 = q\<lparr>theap := (theap q)(tp := (theap q tp)\<lparr>tmr_exp_time := TMR_NEVER\<rparr>)\<rparr>"
  have next1: "tnext q1 = tnext q" and head1: "thead q1 = thead q"
    and exp1: "texp q1 = (texp q)(tp := TMR_NEVER)"
    and fun1: "\<And>x. tmr_func (theap q1 x) = tmr_func (theap q x)" "\<And>x. tmr_arg (theap q1 x) = tmr_arg (theap q x)"
    by (auto simp: q1_def)
  let ?us = "takeWhile (\<lambda>y. y \<noteq> tp) xs"
  from assms have ch: "tlist.links q1 xs None" and srt: "sorted (map (texp q) (remove1 tp xs))"
    by (simp_all add: tq_but_def next1 head1)
  define q2 where "q2 = (if tget (loc_after ?us) q1 = Some tp
      then tput (loc_after ?us) (tmr_next (theap q1 tp)) q1 else q1)"
  have un: "walk (\<lambda>l. tget l q1) (\<lambda>x. x = tp) Head = Some (loc_after ?us)"
    using tlist.walk_whole [OF ch] .
  have ch2: "tlist.links q2 (remove1 tp xs) None"
  proof (cases "tp \<in> set xs")
    case True
    from split_at_first [OF True] obtain vs where
      vs: "xs = ?us @ tp # vs" "remove1 tp xs = ?us @ vs" by blast
    with ch have split: "tlist.links q1 (?us @ tp # vs) None" by metis
    then have "tlist.links q1 ?us (Some tp)" by auto
    then have "tget (loc_after ?us) q1 = Some tp" by (rule tlist.get_loc_after)
    with tlist.unlink [OF split] vs(2) show ?thesis by (simp add: q2_def)
  next
    case False
    then have us: "?us = xs" by (simp add: takeWhile_neq_notin)
    have "q2 = q1" unfolding q2_def us using tlist.get_loc_after [OF ch] by simp
    with ch False show ?thesis by (simp add: remove1_idem)
  qed
  have exp2: "texp q2 = (texp q)(tp := TMR_NEVER)"
    using exp1 by (simp add: q2_def del: fun_upd_apply)
  have fun2: "\<And>x. tmr_func (theap q2 x) = tmr_func (theap q x)" "\<And>x. tmr_arg (theap q2 x) = tmr_arg (theap q x)"
    by (simp_all add: q2_def fun1)
  have "tp \<notin> set (remove1 tp xs)" using tq_but_distinct [OF assms] by simp
  then have "map (texp q2) (remove1 tp xs) = map (texp q) (remove1 tp xs)"
    using fun_cong [OF exp2] by auto
  with srt have "sorted (map (texp q2) (remove1 tp xs))" by metis
  with ch2 have "tq_rep q2 (remove1 tp xs)" by (simp add: tq_rep_links)
  moreover have "tmrs_clrtimer tp q = Some (head_time q, head_time q2, q2)"
    unfolding tmrs_clrtimer_def Let_def q1_def [symmetric] un by (simp add: q2_def)
  ultimately show ?thesis using exp2 fun2 by blast
qed

lemma sorted_insert_timer:
  assumes "sorted (map e xs)" and "x \<notin> set xs"
  shows "sorted (map (e(x := t)) (insert_timer e t x xs))"
  using assms
  by (induction xs) (auto simp: insert_timer_def dest: set_takeWhileD set_dropWhileD)

text \<open>
  \<open>tmrs_settimer\<close> always returns and puts the timer behind every timer that expires no
  later, wherever it was queued before.
\<close>

lemma tmrs_settimer_spec:
  assumes "tq_but tp q xs"
  shows "\<exists>q'. tmrs_settimer tp t f q = Some (head_time q, head_time q', q') \<and>
     tq_rep q' (insert_timer (texp q) t tp (remove1 tp xs)) \<and>
     texp q' = (texp q)(tp := t) \<and>
     (\<lambda>x. tmr_func (theap q' x)) = (\<lambda>x. tmr_func (theap q x))(tp := f) \<and>
     (\<forall>x. tmr_arg (theap q' x) = tmr_arg (theap q x))"
proof -
  from tmrs_clrtimer_spec [OF assms] obtain q1 where
    q1: "tmrs_clrtimer tp q = Some (head_time q, head_time q1, q1)"
    "tq_rep q1 (remove1 tp xs)" "texp q1 = (texp q)(tp := TMR_NEVER)"
    "\<And>x. tmr_func (theap q1 x) = tmr_func (theap q x)" "\<And>x. tmr_arg (theap q1 x) = tmr_arg (theap q x)"
    by blast
  let ?ys = "remove1 tp xs"
  let ?us = "takeWhile (\<lambda>y. texp q y \<le> t) ?ys" and ?vs = "dropWhile (\<lambda>y. texp q y \<le> t) ?ys"
  define q2 where "q2 = q1\<lparr>theap := (theap q1)(tp := (theap q1 tp)
                       \<lparr>tmr_exp_time := t, tmr_func := f\<rparr>)\<rparr>"
  have notin: "tp \<notin> set ?ys" using tq_but_distinct [OF assms] by simp
  have next2: "tnext q2 = tnext q1" "thead q2 = thead q1" and exp2: "texp q2 = (texp q)(tp := t)"
    and fun2: "(\<lambda>x. tmr_func (theap q2 x)) = (\<lambda>x. tmr_func (theap q x))(tp := f)"
    using q1(3,4) by (auto simp: q2_def fun_eq_iff)
  have ch2: "tlist.links q2 ?ys None"
    using q1(2) next2 by (simp add: tq_rep_def)
  have tw: "takeWhile (\<lambda>y. \<not> t < texp q2 y) ?ys = ?us"
    using notin fun_cong [OF exp2] by (intro takeWhile_cong) auto
  have pos: "walk (\<lambda>l. tget l q2) (\<lambda>x. t < texp q2 x) Head = Some (loc_after ?us)"
    using tlist.walk_whole [OF ch2, of "\<lambda>x. t < texp q2 x"] by (simp only: tw)
  define q3 where "q3 = tput (loc_after ?us) (Some tp) (tput (Next tp) (tget (loc_after ?us) q2) q2)"
  have "tlist.links q2 (?us @ ?vs) None" using ch2 by simp
  then have "tlist.links q3 (?us @ tp # ?vs) None"
    unfolding q3_def using notin
    by (intro tlist.link_in) (auto dest: set_takeWhileD set_dropWhileD)
  moreover have exp3: "texp q3 = (texp q)(tp := t)"
    unfolding q3_def using exp2 by (simp only: tput_exp)
  moreover have "sorted (map ((texp q)(tp := t)) (insert_timer (texp q) t tp ?ys))"
    using assms notin by (intro sorted_insert_timer) (auto simp: tq_but_def)
  ultimately have "tq_rep q3 (insert_timer (texp q) t tp ?ys)"
    by (simp only: tq_rep_links insert_timer_def simp_thms)
  moreover have "(\<lambda>x. tmr_func (theap q3 x)) = (\<lambda>x. tmr_func (theap q x))(tp := f)"
    unfolding q3_def using fun2 by (simp only: tput_func)
  moreover have "tmr_arg (theap q3 x) = tmr_arg (theap q x)" for x
    by (simp add: q3_def q2_def q1(5))
  moreover have "tmrs_settimer tp t f q = Some (head_time q, head_time q3, q3)"
    unfolding tmrs_settimer_def Let_def q1(1) prod.case option.case q2_def [symmetric] pos
    by (simp add: q3_def)
  ultimately show ?thesis using exp3 by blast
qed

text \<open>
  \<open>tmrs_exptimers\<close> with watchdogs that leave the queue alone: it returns, it has run the
  watchdogs of exactly the expired timers in expiry order, and the others stay queued.
\<close>

lemma tmrs_exptimers_spec:
  assumes "tq_rep q xs"
    and run: "\<And>tp f q s. run tp f (q, s) = (q, g tp f (tmr_arg (theap q tp)) s)"
  shows "\<exists>q'. tmrs_exptimers run now (q, s) = Some (head_time q', q',
      fold (\<lambda>x. g x (tmr_func (theap q x)) (tmr_arg (theap q x)))
           (takeWhile (\<lambda>x. texp q x \<le> now) xs) s) \<and>
    tq_rep q' (dropWhile (\<lambda>x. texp q x \<le> now) xs) \<and>
    texp q' = (\<lambda>x. if x \<in> set (takeWhile (\<lambda>x. texp q x \<le> now) xs) then TMR_NEVER else texp q x)"
  using assms(1)
proof (induction xs arbitrary: q s)
  case Nil
  then have "tmrs_exptimers run now (q, s) = Some (head_time q, q, s)"
    by (subst tmrs_exptimers.simps) (simp add: tq_rep_def)
  with Nil show ?case by auto
next
  case (Cons x xs)
  then have hd: "thead q = Some x" and x: "x \<notin> set xs"
    using tq_rep_distinct [OF Cons.prems] by (auto simp: tq_rep_def)
  show ?case
  proof (cases "texp q x \<le> now")
    case False
    with hd have "tmrs_exptimers run now (q, s) = Some (head_time q, q, s)"
      by (subst tmrs_exptimers.simps) simp
    with False Cons.prems show ?thesis by auto
  next
    case True
    define q2 where "q2 = q\<lparr>thead := tmr_next (theap q x),
        theap := (theap q)(x := (theap q x)\<lparr>tmr_exp_time := TMR_NEVER\<rparr>)\<rparr>"
    have q2: "tnext q2 = tnext q" "thead q2 = tnext q x" "texp q2 = (texp q)(x := TMR_NEVER)"
      "\<And>y. tmr_func (theap q2 y) = tmr_func (theap q y)" "\<And>y. tmr_arg (theap q2 y) = tmr_arg (theap q y)"
      by (auto simp: q2_def)
    have same: "map (texp q2) xs = map (texp q) xs" "takeWhile (\<lambda>x. texp q2 x \<le> now) xs = takeWhile (\<lambda>x. texp q x \<le> now) xs"
      "dropWhile (\<lambda>x. texp q2 x \<le> now) xs = dropWhile (\<lambda>x. texp q x \<le> now) xs"
      using x fun_cong [OF q2(3)] by (auto intro!: takeWhile_cong dropWhile_cong)
    have "tq_rep q2 xs"
      using Cons.prems unfolding tq_rep_def same(1) q2(1,2) by simp
    from Cons.IH [OF this, of "g x (tmr_func (theap q x)) (tmr_arg (theap q x)) s"] obtain q' where
      q': "tmrs_exptimers run now (q2, g x (tmr_func (theap q x)) (tmr_arg (theap q x)) s) =
        Some (head_time q', q', fold (\<lambda>x. g x (tmr_func (theap q x)) (tmr_arg (theap q x)))
           (takeWhile (\<lambda>x. texp q x \<le> now) xs) (g x (tmr_func (theap q x)) (tmr_arg (theap q x)) s))"
      "tq_rep q' (dropWhile (\<lambda>x. texp q x \<le> now) xs)"
      "texp q' = (\<lambda>x. if x \<in> set (takeWhile (\<lambda>x. texp q x \<le> now) xs) then TMR_NEVER else texp q2 x)"
      unfolding same q2(4,5) by blast
    have "tmrs_exptimers run now (q, s) =
      tmrs_exptimers run now (q2, g x (tmr_func (theap q x)) (tmr_arg (theap q x)) s)"
      using hd True by (subst tmrs_exptimers.simps) (simp add: run q2_def)
    with q' True q2(3) show ?thesis by (auto simp: fun_eq_iff)
  qed
qed

section \<open>The interface the clients rely on\<close>

text \<open>
  \<open>rep q xs\<close>: the queue \<open>q\<close> holds the timers \<open>xs\<close>, first to expire first. The clients
  (\<open>set_timer\<close> and \<open>reset_timer\<close> of the kernel clock, \<open>pm_set_timer\<close> of the process
  manager, \<open>fs_set_timer\<close> of the file system) use only these laws.
\<close>

locale timer_queue =
  fixes rep :: "'q \<Rightarrow> 'a list \<Rightarrow> bool"
    and expiry :: "'q \<Rightarrow> 'a \<Rightarrow> int"
    and first :: "'q \<Rightarrow> 'a option"
    and setT :: "'a \<Rightarrow> int \<Rightarrow> 'f \<Rightarrow> 'q \<Rightarrow> (int \<times> int \<times> 'q) option"
    and clrT :: "'a \<Rightarrow> 'q \<Rightarrow> (int \<times> int \<times> 'q) option"
    and headt :: "'q \<Rightarrow> int"
  assumes rep_sorted: "rep q xs \<Longrightarrow> sorted (map (expiry q) xs)"
    and rep_distinct: "rep q xs \<Longrightarrow> distinct xs"
    and rep_first: "rep q xs \<Longrightarrow> first q = head_opt xs"
    and rep_headt: "rep q xs \<Longrightarrow> headt q = (if xs = [] then 0 else expiry q (hd xs))"
    and set_law: "rep q xs \<Longrightarrow> \<exists>q'. setT x t f q = Some (headt q, headt q', q') \<and>
      rep q' (insert_timer (expiry q) t x (remove1 x xs)) \<and> expiry q' = (expiry q)(x := t)"
    and clr_law: "rep q xs \<Longrightarrow> \<exists>q'. clrT x q = Some (headt q, headt q', q') \<and>
      rep q' (remove1 x xs) \<and> expiry q' = (expiry q)(x := TMR_NEVER)"
begin

lemma first_is_earliest:
  assumes "rep q xs" and "y \<in> set xs"
  shows "\<exists>x. first q = Some x \<and> x \<in> set xs \<and> expiry q x \<le> expiry q y"
proof -
  obtain x ys where xs: "xs = x # ys" using assms(2) by (cases xs) auto
  then have "expiry q x \<le> expiry q y" using assms rep_sorted [OF assms(1)] by auto
  with xs rep_first [OF assms(1)] show ?thesis by simp
qed

lemma set_members:
  assumes "rep q xs"
  shows "\<exists>a b q' ys. setT x t f q = Some (a, b, q') \<and> rep q' ys \<and>
    set ys = insert x (set xs) \<and> expiry q' x = t \<and> (\<forall>y. y \<noteq> x \<longrightarrow> expiry q' y = expiry q y)"
proof -
  from set_law [OF assms, of x t f] obtain q' where
    q': "setT x t f q = Some (headt q, headt q', q')"
    "rep q' (insert_timer (expiry q) t x (remove1 x xs))" "expiry q' = (expiry q)(x := t)" by blast
  have "set (insert_timer (expiry q) t x (remove1 x xs)) = insert x (set xs)"
    using rep_distinct [OF assms] by auto
  with q' show ?thesis by auto
qed

lemma set_nonempty:
  assumes "rep q xs" and "setT x t f q = Some (a, b, q')"
  shows "\<exists>y. first q' = Some y \<and> b = expiry q' y \<and> b \<le> t"
proof -
  from set_law [OF assms(1), of x t f] assms(2) have
    q': "b = headt q'" "rep q' (insert_timer (expiry q) t x (remove1 x xs))" "expiry q' = (expiry q)(x := t)"
    by auto
  from first_is_earliest [OF q'(2), of x] obtain y where y: "first q' = Some y" "expiry q' y \<le> t"
    using q'(3) by auto
  with rep_first [OF q'(2)] have "headt q' = expiry q' y"
    using rep_headt [OF q'(2)] by (cases "insert_timer (expiry q) t x (remove1 x xs)") auto
  with y q'(1) show ?thesis by auto
qed

text \<open>Cancelling a timer undoes setting it.\<close>

lemma clr_after_set:
  assumes "rep q xs" and "x \<notin> set xs" and "setT x t f q = Some (a, b, q')"
  shows "\<exists>a b q''. clrT x q' = Some (a, b, q'') \<and> rep q'' xs"
proof -
  from set_law [OF assms(1), of x t f] assms(3) have
    q': "rep q' (insert_timer (expiry q) t x (remove1 x xs))" by auto
  have "x \<notin> set (takeWhile (\<lambda>y. expiry q y \<le> t) xs)"
    using assms(2) by (auto dest: set_takeWhileD)
  then have "remove1 x (insert_timer (expiry q) t x (remove1 x xs)) = xs"
    using assms(2) by (simp add: insert_timer_def remove1_idem remove1_middle)
  with clr_law [OF q', of x] show ?thesis by auto
qed

end

interpretation tmrs: timer_queue tq_rep texp thead tmrs_settimer tmrs_clrtimer head_time
proof
  fix q :: "('a, 'f) tqueue" and xs :: "'a list" and x :: 'a and t :: int and f :: 'f
  assume rep: "tq_rep q xs"
  show "sorted (map (texp q) xs)" using rep by (simp add: tq_rep_def)
  show "distinct xs" using rep by (rule tq_rep_distinct)
  show "thead q = head_opt xs" using rep chain_head unfolding tq_rep_def by metis
  show "head_time q = (if xs = [] then 0 else texp q (hd xs))" using rep by (rule head_time_rep)
  show "\<exists>q'. tmrs_settimer x t f q = Some (head_time q, head_time q', q') \<and>
      tq_rep q' (insert_timer (texp q) t x (remove1 x xs)) \<and> texp q' = (texp q)(x := t)"
    using tmrs_settimer_spec [OF tq_rep_but [OF rep]] by blast
  show "\<exists>q'. tmrs_clrtimer x q = Some (head_time q, head_time q', q') \<and>
      tq_rep q' (remove1 x xs) \<and> texp q' = (texp q)(x := TMR_NEVER)"
    using tmrs_clrtimer_spec [OF tq_rep_but [OF rep]] by blast
qed

section \<open>Properties\<close>

text \<open>
  C11: \<open>tmrs_settimer\<close> always returns, with the expiry times of the old and the new head; the
  queue remains a chain sorted by expiry time, in which the timer stands once, behind the
  timers that expire no later.
\<close>

theorem tmrs_settimer_sorted:
  assumes "tq_rep q xs"
  shows "\<exists>q'. tmrs_settimer tp t f q = Some (head_time q, head_time q', q') \<and>
    tq_rep q' (insert_timer (texp q) t tp (remove1 tp xs)) \<and> texp q' = (texp q)(tp := t) \<and>
    head_time q' = Min (texp q' ` insert tp (set xs))"
proof -
  from tmrs_settimer_spec [OF tq_rep_but [OF assms]] obtain q' where
    q': "tmrs_settimer tp t f q = Some (head_time q, head_time q', q')"
    "tq_rep q' (insert_timer (texp q) t tp (remove1 tp xs))" "texp q' = (texp q)(tp := t)" by blast
  let ?ys = "insert_timer (texp q) t tp (remove1 tp xs)"
  have set: "set ?ys = insert tp (set xs)" using tq_rep_distinct [OF assms] by auto
  then obtain y ys where ys: "?ys = y # ys" by (cases ?ys) auto
  with q'(2) have "sorted (map (texp q') (y # ys))" by (simp add: tq_rep_def)
  then have "\<forall>z \<in> set (y # ys). texp q' y \<le> texp q' z" by simp
  then have "Min (texp q' ` insert tp (set xs)) = texp q' y"
    unfolding set [symmetric] ys by (intro Min_eqI) auto
  moreover have "head_time q' = texp q' y" using head_time_rep [OF q'(2)] ys by simp
  ultimately show ?thesis using q' by metis
qed

definition sample_timers :: "(int, int) tqueue" where
  "sample_timers =
     \<lparr>theap = (\<lambda>x. \<lparr>tmr_next = (if x = 1 then Some 2 else None), tmr_exp_time = 10 * x,
                     tmr_func = 0, tmr_arg = x\<rparr>),
      thead = Some 1\<rparr>"

lemma tq_rep_sample: "tq_rep sample_timers [1, 2]"
  by (simp add: tq_rep_def sample_timers_def)

theorem tmrs_settimer_sorted_witness:
  "tq_rep sample_timers [1, 2] \<and>
   (\<exists>q'. tmrs_settimer 3 15 0 sample_timers = Some (10, 10, q') \<and> tq_rep q' [1, 3, 2])"
proof -
  from tmrs_settimer_sorted [OF tq_rep_sample, of 3 15 0] obtain q' where
    q': "tmrs_settimer 3 15 0 sample_timers = Some (head_time sample_timers, head_time q', q')"
    "tq_rep q' (insert_timer (texp sample_timers) 15 3 (remove1 3 [1, 2]))"
    "texp q' = (texp sample_timers)(3 := 15)" by blast
  from q'(2) have "tq_rep q' [1, 3, 2]" by (simp add: insert_timer_def sample_timers_def)
  with q' tq_rep_sample head_time_rep [OF this] fun_cong [OF q'(3), of 1] show ?thesis
    by (simp add: head_time_def sample_timers_def)
qed

text \<open>
  C12: \<open>tmrs_exptimers\<close> ends; it runs the watchdogs of exactly the timers whose time has
  come, in the order of their expiry, each once and with its own argument, and leaves the others
  queued (for watchdogs that do not set timers themselves).
\<close>

theorem tmrs_exptimers_runs_expired:
  assumes "tq_rep q xs"
    and "\<And>tp f q s. run tp f (q, s) = (q, g tp f (tmr_arg (theap q tp)) s)"
  shows "\<exists>q'. tmrs_exptimers run now (q, s) = Some (head_time q', q',
      fold (\<lambda>x. g x (tmr_func (theap q x)) (tmr_arg (theap q x)))
           (takeWhile (\<lambda>x. texp q x \<le> now) xs) s) \<and>
    tq_rep q' (dropWhile (\<lambda>x. texp q x \<le> now) xs)"
  using tmrs_exptimers_spec [of q xs run g now s] assms by blast

theorem tmrs_exptimers_runs_expired_witness:
  "\<exists>q'. tmrs_exptimers (\<lambda>tp f (q, s). (q, s @ [tmr_arg (theap q tp)])) 12 (sample_timers, []) =
     Some (head_time q', q', [1]) \<and> tq_rep q' [2]"
  using tmrs_exptimers_runs_expired [OF tq_rep_sample,
      of "\<lambda>tp f (q, s). (q, s @ [tmr_arg (theap q tp)])" "\<lambda>x f a s. s @ [a]" 12 "[]"]
  by (simp add: sample_timers_def)

end
