(* ===== verification/Phys_Mem.thy ===== *)
theory Phys_Mem
  imports Minix_Prelude
begin

unbundle bit_operations_syntax

text \<open>
  Physical memory by bytes, and the copy routines of \<open>kernel/klib386.s\<close>: \<open>cp_mess\<close>, which
  moves a message, \<open>phys_copy\<close> and \<open>phys_memset\<close>. A string instruction with a \<open>rep\<close> prefix
  moves one unit after the other in ascending order; addresses wrap at 32 bits. For a source
  and a destination that do not overlap, the lemmas reduce all of them to writing the bytes of
  the source at the destination.
\<close>

type_synonym mem = "u32 \<Rightarrow> u8"

section \<open>Reading and writing bytes\<close>

definition read_bytes :: "mem \<Rightarrow> u32 \<Rightarrow> nat \<Rightarrow> u8 list" where
  "read_bytes m a n = map (\<lambda>i. m (a + of_nat i)) [0..<n]"

primrec write_bytes :: "u32 \<Rightarrow> u8 list \<Rightarrow> mem \<Rightarrow> mem" where
  "write_bytes a [] m = m"
| "write_bytes a (b # bs) m = write_bytes (a + 1) bs (m(a := b))"

definition span :: "u32 \<Rightarrow> nat \<Rightarrow> u32 set" where
  "span a n = {x. unat (x - a) < n}"

definition bytes32 :: "u32 \<Rightarrow> u8 list" where
  "bytes32 v = [ucast v, ucast (drop_bit 8 v), ucast (drop_bit 16 v), ucast (drop_bit 24 v)]"

definition get32 :: "mem \<Rightarrow> u32 \<Rightarrow> u32" where
  "get32 m a = ucast (m a) OR push_bit 8 (ucast (m (a + 1))) OR push_bit 16 (ucast (m (a + 2)))
     OR push_bit 24 (ucast (m (a + 3)))"

definition put32 :: "u32 \<Rightarrow> u32 \<Rightarrow> mem \<Rightarrow> mem" where
  "put32 a v m = write_bytes a (bytes32 v) m"

section \<open>The copy routines\<close>

text \<open>\<open>rep movs\<close>: \<open>n\<close> units of \<open>k\<close> bytes.\<close>

primrec rep_movs :: "nat \<Rightarrow> nat \<Rightarrow> u32 \<Rightarrow> u32 \<Rightarrow> mem \<Rightarrow> mem" where
  "rep_movs k 0 esi edi m = m"
| "rep_movs k (Suc n) esi edi m =
     rep_movs k n (esi + of_nat k) (edi + of_nat k) (write_bytes edi (read_bytes m esi k) m)"

definition cp_mess :: "int \<Rightarrow> u32 \<Rightarrow> u32 \<Rightarrow> u32 \<Rightarrow> u32 \<Rightarrow> mem \<Rightarrow> mem" where
  "cp_mess src src_clicks src_offset dst_clicks dst_offset m =
     (let esi = push_bit 10 src_clicks + src_offset;
          edi = push_bit 10 dst_clicks + dst_offset
      in rep_movs 4 8 (esi + 4) (edi + 4) (put32 edi (word_of_int src) m))"

definition phys_copy :: "u32 \<Rightarrow> u32 \<Rightarrow> u32 \<Rightarrow> mem \<Rightarrow> mem" where
  "phys_copy source destination bytecount m =
     (if bytecount < 10 then rep_movs 1 (unat bytecount) source destination m
      else let ecx = (- source) AND 3;
               eax = bytecount - ecx;
               dwords = drop_bit 2 eax;
               m1 = rep_movs 1 (unat ecx) source destination m;
               m2 = rep_movs 4 (unat dwords) (source + ecx) (destination + ecx) m1
           in rep_movs 1 (unat (eax AND 3)) (source + ecx + 4 * dwords)
                (destination + ecx + 4 * dwords) m2)"

text \<open>
  \<open>phys_memset\<close> decrements its counter before it tests it, so a count below four fills
  \<open>2 ^ 32\<close> words.
\<close>

primrec fill_dwords :: "nat \<Rightarrow> u32 \<Rightarrow> u32 \<Rightarrow> mem \<Rightarrow> mem" where
  "fill_dwords 0 esi pat m = m"
| "fill_dwords (Suc n) esi pat m = fill_dwords n (esi + 4) pat (put32 esi pat m)"

definition fill_count :: "u32 \<Rightarrow> nat" where
  "fill_count bytecount =
     (if drop_bit 2 bytecount = 0 then 2 ^ 32 else unat (drop_bit 2 bytecount))"

definition phys_memset :: "u32 \<Rightarrow> u32 \<Rightarrow> u32 \<Rightarrow> mem \<Rightarrow> mem" where
  "phys_memset source pat bytecount m =
     write_bytes (source + 4 * of_nat (fill_count bytecount))
       (take (unat (bytecount AND 3)) (bytes32 pat))
       (fill_dwords (fill_count bytecount) source pat m)"

section \<open>Writing and reading back\<close>

lemma length_read_bytes [simp]: "length (read_bytes m a n) = n"
  by (simp add: read_bytes_def)

lemma nth_read_bytes [simp]: "i < n \<Longrightarrow> read_bytes m a n ! i = m (a + of_nat i)"
  by (simp add: read_bytes_def)

lemma unat_diff_Suc:
  assumes "x \<noteq> (a::u32)"
  shows "unat (x - a) = Suc (unat (x - (a + 1)))"
proof -
  have "x - a \<noteq> 0" using assms by simp
  then have "unat (x - a - 1) = unat (x - a) - 1" and "0 < unat (x - a)"
    by (rule unat_minus_one, simp add: unat_gt_0)
  then show ?thesis by (simp add: diff_diff_eq)
qed

lemma write_bytes_lookup:
  "length bs \<le> 2 ^ 32 \<Longrightarrow>
    write_bytes a bs m x = (if unat (x - a) < length bs then bs ! unat (x - a) else m x)"
proof (induction bs arbitrary: a m)
  case Nil
  then show ?case by simp
next
  case (Cons b bs)
  show ?case
  proof (cases "x = a")
    case True
    have "unat (x - (a + 1)) = 2 ^ 32 - 1"
      using True by (simp add: unsigned_minus_1_eq_mask mask_eq_exp_minus_1)
    with Cons True show ?thesis by simp
  next
    case False
    with Cons show ?thesis by (simp add: unat_diff_Suc [OF False])
  qed
qed

lemma write_bytes_append:
  "write_bytes a (bs @ cs) m = write_bytes (a + of_nat (length bs)) cs (write_bytes a bs m)"
  by (induction bs arbitrary: a m) (simp_all add: algebra_simps)

lemma read_bytes_append: "read_bytes m a (k + n) = read_bytes m a k @ read_bytes m (a + of_nat k) n"
  by (rule nth_equalityI) (auto simp: nth_append read_bytes_def algebra_simps of_nat_diff)

lemma write_bytes_outside:
  "length bs \<le> 2 ^ 32 \<Longrightarrow> x \<notin> span a (length bs) \<Longrightarrow> write_bytes a bs m x = m x"
  by (simp add: write_bytes_lookup span_def)

lemma span_mono: "k \<le> n \<Longrightarrow> span a k \<subseteq> span a n"
  by (auto simp: span_def)

lemma mem_span: "i < n \<Longrightarrow> n \<le> 2 ^ 32 \<Longrightarrow> a + of_nat i \<in> span a n"
  by (simp add: span_def unat_of_nat)

lemma span_shift: "k + n \<le> 2 ^ 32 \<Longrightarrow> span (a + of_nat k) n \<subseteq> span a (k + n)"
proof
  fix x
  assume k: "k + n \<le> 2 ^ 32" and x: "x \<in> span (a + of_nat k) n"
  define j where "j = unat (x - (a + of_nat k))"
  have "j < n" using x by (simp add: span_def j_def)
  have "x = a + of_nat (k + j)" by (simp add: j_def)
  with mem_span [of "k + j" "k + n" a] k \<open>j < n\<close> show "x \<in> span a (k + n)" by simp
qed

lemma span_no_wrap:
  assumes "unat a + n \<le> 2 ^ 32"
  shows "x \<in> span a n \<longleftrightarrow> unat a \<le> unat x \<and> unat x < unat a + n"
  using assms by (auto simp: span_def unat_sub_if')

lemma span_disjoint:
  assumes "unat a + n \<le> unat b" and "unat b + k \<le> 2 ^ 32"
  shows "span a n \<inter> span b k = {}"
  using assms by (auto simp: span_no_wrap)

lemma read_bytes_disjoint:
  assumes "span src n \<inter> span dst (length bs) = {}" and "length bs \<le> 2 ^ 32" and "n \<le> 2 ^ 32"
  shows "read_bytes (write_bytes dst bs m) src n = read_bytes m src n"
proof (rule nth_equalityI)
  fix i
  assume "i < length (read_bytes (write_bytes dst bs m) src n)"
  then have "i < n" by simp
  with assms mem_span [of i n src] have "src + of_nat i \<notin> span dst (length bs)" by blast
  with assms(2) \<open>i < n\<close> show "read_bytes (write_bytes dst bs m) src n ! i = read_bytes m src n ! i"
    by (simp add: write_bytes_outside)
qed simp

text \<open>A \<open>rep movs\<close> between disjoint areas writes the bytes of the source.\<close>

lemma rep_movs_disjoint:
  assumes "span src (k * n) \<inter> span dst (k * n) = {}" and "k * n \<le> 2 ^ 32"
  shows "rep_movs k n src dst m = write_bytes dst (read_bytes m src (k * n)) m"
  using assms
proof (induction n arbitrary: src dst m)
  case 0
  then show ?case by (simp add: read_bytes_def)
next
  case (Suc n)
  let ?m = "write_bytes dst (read_bytes m src k) m"
  have le: "k + k * n \<le> 2 ^ 32" using Suc.prems(2) by simp
  have sub: "span (a + of_nat k) (k * n) \<subseteq> span a (k * Suc n)" "span a k \<subseteq> span a (k * Suc n)" for a
    using span_shift [OF le, of a] span_mono [of k "k * Suc n" a] by simp_all
  from sub Suc.prems(1)
  have "span (src + of_nat k) (k * n) \<inter> span (dst + of_nat k) (k * n) = {}" by blast
  with le have "rep_movs k (Suc n) src dst m =
      write_bytes (dst + of_nat k) (read_bytes ?m (src + of_nat k) (k * n)) ?m"
    using Suc.IH by simp
  moreover have "span (src + of_nat k) (k * n) \<inter> span dst (length (read_bytes m src k)) = {}"
    using sub Suc.prems(1) by (simp only: length_read_bytes) blast
  then have "read_bytes ?m (src + of_nat k) (k * n) = read_bytes m (src + of_nat k) (k * n)"
    by (rule read_bytes_disjoint) (use le in simp_all)
  ultimately show ?case by (simp add: read_bytes_append write_bytes_append)
qed

text \<open>Consecutive moves add up to one.\<close>

lemma rep_movs_continue:
  assumes dis: "span src (a + k * n) \<inter> span dst (a + k * n) = {}" and le: "a + k * n \<le> 2 ^ 32"
  shows "rep_movs k n (src + of_nat a) (dst + of_nat a) (write_bytes dst (read_bytes m src a) m) =
    write_bytes dst (read_bytes m src (a + k * n)) m"
proof -
  let ?m = "write_bytes dst (read_bytes m src a) m"
  have sub: "span (b + of_nat a) (k * n) \<subseteq> span b (a + k * n)" "span b a \<subseteq> span b (a + k * n)" for b
    using span_shift [OF le, of b] span_mono [of a "a + k * n" b] by simp_all
  then have "span (src + of_nat a) (k * n) \<inter> span (dst + of_nat a) (k * n) = {}" using dis by blast
  then have "rep_movs k n (src + of_nat a) (dst + of_nat a) ?m =
      write_bytes (dst + of_nat a) (read_bytes ?m (src + of_nat a) (k * n)) ?m"
    using le by (intro rep_movs_disjoint) simp_all
  moreover have "span (src + of_nat a) (k * n) \<inter> span dst (length (read_bytes m src a)) = {}"
    using sub dis by (simp only: length_read_bytes) blast
  then have "read_bytes ?m (src + of_nat a) (k * n) = read_bytes m (src + of_nat a) (k * n)"
    by (rule read_bytes_disjoint) (use le in simp_all)
  ultimately show ?thesis by (simp add: read_bytes_append write_bytes_append)
qed

lemma unat_and_3: "unat ((x::u32) AND 3) = unat x mod 4"
  using take_bit_eq_mod [of 2 "unat x"] take_bit_eq_mask [of 2 "unat x"]
  by (simp add: unsigned_and_eq mask_eq_exp_minus_1)

lemma unat_le_u32: "unat (n::u32) \<le> 2 ^ 32"
proof -
  have "unat n < 2 ^ LENGTH(32)" by (rule unsigned_less)
  then show ?thesis by simp
qed

text \<open>\<open>phys_copy\<close> is three consecutive moves that add up to the byte count.\<close>

lemma phys_copy_split:
  "\<exists>c d r. c + 4 * d + r = unat n \<and>
    phys_copy src dst n m =
      rep_movs 1 r (src + of_nat (c + 4 * d)) (dst + of_nat (c + 4 * d))
       (rep_movs 4 d (src + of_nat c) (dst + of_nat c) (rep_movs 1 c src dst m))"
proof (cases "n < 10")
  case True
  then show ?thesis by (intro exI [of _ "unat n"] exI [of _ 0]) (simp add: phys_copy_def)
next
  case False
  define ecx where "ecx = (- src) AND 3"
  define eax where "eax = n - ecx"
  define dw where "dw = drop_bit 2 eax"
  have "unat ecx < 4" by (simp add: ecx_def unat_and_3)
  moreover have "10 \<le> unat n" using False by (simp add: word_less_nat_alt)
  ultimately have eax: "unat eax = unat n - unat ecx"
    unfolding eax_def by (intro unat_sub) (simp add: word_le_nat_alt)
  have dw: "unat dw = unat eax div 4"
    by (simp add: dw_def drop_bit_eq_div unat_div)
  have r: "unat (eax AND 3) = unat eax mod 4" by (rule unat_and_3)
  have "unat ecx + 4 * unat dw + unat (eax AND 3) = unat n"
    using eax dw r \<open>unat ecx < 4\<close> \<open>10 \<le> unat n\<close> by simp
  with False show ?thesis
    by (intro exI [of _ "unat ecx"] exI [of _ "unat dw"] exI [of _ "unat (eax AND 3)"])
      (simp add: phys_copy_def Let_def ecx_def [symmetric] eax_def [symmetric] dw_def [symmetric] add.assoc)
qed

lemma phys_copy_disjoint:
  assumes dis: "span src (unat n) \<inter> span dst (unat n) = {}"
  shows "phys_copy src dst n m = write_bytes dst (read_bytes m src (unat n)) m"
proof -
  obtain c d r where total: "c + 4 * d + r = unat n"
    and copy: "phys_copy src dst n m =
      rep_movs 1 r (src + of_nat (c + 4 * d)) (dst + of_nat (c + 4 * d))
       (rep_movs 4 d (src + of_nat c) (dst + of_nat c) (rep_movs 1 c src dst m))"
    using phys_copy_split [of n src dst m] by blast
  have lim: "unat n \<le> 2 ^ 32" by (rule unat_le_u32)
  have dis': "span src k \<inter> span dst k = {}" if "k \<le> unat n" for k
    using dis span_mono [OF that] by blast
  let ?w = "\<lambda>k. write_bytes dst (read_bytes m src k) m"
  have 1: "rep_movs 1 c src dst m = ?w c"
    using rep_movs_disjoint [of src 1 c dst m] dis' [of c] total lim by simp
  have 2: "rep_movs 4 d (src + of_nat c) (dst + of_nat c) (?w c) = ?w (c + 4 * d)"
    using rep_movs_continue [of src c 4 d dst m] dis' [of "c + 4 * d"] total lim by simp
  have "rep_movs 1 r (src + of_nat (c + 4 * d)) (dst + of_nat (c + 4 * d)) (?w (c + 4 * d)) = ?w (unat n)"
    using rep_movs_continue [of src "c + 4 * d" 1 r dst m] dis total lim by simp
  with 1 2 copy show ?thesis by simp
qed

lemma rep_movs_outside:
  assumes "k * n \<le> 2 ^ 32" and "x \<notin> span dst (k * n)"
  shows "rep_movs k n src dst m x = m x"
  using assms
proof (induction n arbitrary: src dst m)
  case (Suc n)
  have "x \<notin> span (dst + of_nat k) (k * n)" "x \<notin> span dst k"
    using Suc.prems span_shift [of k "k * n" dst] span_mono [of k "k * Suc n" dst] by auto
  moreover from this(2) have "write_bytes dst (read_bytes m src k) m x = m x"
    using Suc.prems(1) by (intro write_bytes_outside) simp_all
  ultimately show ?case using Suc.prems(1) Suc.IH by simp
qed simp

text \<open>Whether or not the areas overlap, nothing outside the destination is written.\<close>

lemma phys_copy_outside:
  assumes x: "x \<notin> span dst (unat n)"
  shows "phys_copy src dst n m x = m x"
proof -
  obtain c d r where total: "c + 4 * d + r = unat n"
    and copy: "phys_copy src dst n m =
      rep_movs 1 r (src + of_nat (c + 4 * d)) (dst + of_nat (c + 4 * d))
       (rep_movs 4 d (src + of_nat c) (dst + of_nat c) (rep_movs 1 c src dst m))"
    using phys_copy_split [of n src dst m] by blast
  have lim: "unat n \<le> 2 ^ 32" by (rule unat_le_u32)
  have "x \<notin> span (dst + of_nat a) k" if "a + k \<le> unat n" for a k
    using x span_shift [of a k dst] span_mono [OF that, of dst] lim that by auto
  from this [of "c + 4 * d" r] this [of c "4 * d"] this [of 0 c] total lim show ?thesis
    unfolding copy by (simp add: rep_movs_outside del: of_nat_add)
qed

section \<open>Words in memory\<close>

lemma length_bytes32 [simp]: "length (bytes32 v) = 4"
  by (simp add: bytes32_def)

definition le32 :: "u8 list \<Rightarrow> u32" where
  "le32 bs = ucast (bs ! 0) OR push_bit 8 (ucast (bs ! 1)) OR push_bit 16 (ucast (bs ! 2))
     OR push_bit 24 (ucast (bs ! 3))"

lemma get32_le32: "get32 m a = le32 (read_bytes m a 4)"
  by (simp add: get32_def le32_def)

lemma le32_bytes32: "le32 (bytes32 v) = v"
proof (rule bit_word_eqI)
  fix n
  assume "n < LENGTH(32)"
  then consider "n < 8" | "8 \<le> n" "n < 16" | "16 \<le> n" "n < 24" | "24 \<le> n" "n < 32"
    by fastforce
  then show "bit (le32 (bytes32 v)) n = bit v n"
    unfolding le32_def bytes32_def by cases (auto simp: bit_simps)
qed

lemma read_write_same:
  "length bs \<le> 2 ^ 32 \<Longrightarrow> read_bytes (write_bytes a bs m) a (length bs) = bs"
  by (rule nth_equalityI) (simp_all add: write_bytes_lookup unat_of_nat)

lemma get32_put32 [simp]: "get32 (put32 a v m) a = v"
  using read_write_same [of "bytes32 v" a m] by (simp add: get32_le32 put32_def le32_bytes32)

text \<open>\<open>cp_mess\<close> between disjoint buffers: the sender's number, then the words of the message.\<close>

lemma cp_mess_disjoint:
  assumes "esi = push_bit 10 src_clicks + src_offset" and "edi = push_bit 10 dst_clicks + dst_offset"
    and dis: "span esi 36 \<inter> span edi 36 = {}"
  shows "cp_mess src src_clicks src_offset dst_clicks dst_offset m =
    write_bytes edi (bytes32 (word_of_int src) @ read_bytes m (esi + 4) 32) m"
proof -
  let ?b = "bytes32 (word_of_int src)"
  let ?m = "write_bytes edi ?b m"
  have sub: "span (a + 4) 32 \<subseteq> span a 36" "span a 4 \<subseteq> span a 36" for a
    using span_shift [of 4 32 a] span_mono [of 4 36 a] by simp_all
  have "span (esi + 4) (4 * 8) \<inter> span (edi + 4) (4 * 8) = {}" using sub dis by (simp, blast)
  then have "rep_movs 4 8 (esi + 4) (edi + 4) ?m =
      write_bytes (edi + 4) (read_bytes ?m (esi + 4) (4 * 8)) ?m" by (rule rep_movs_disjoint) simp
  moreover have "span (esi + 4) 32 \<inter> span edi (length ?b) = {}"
    using sub dis unfolding length_bytes32 by blast
  then have "read_bytes ?m (esi + 4) 32 = read_bytes m (esi + 4) 32"
    by (rule read_bytes_disjoint) simp_all
  ultimately show ?thesis using assms(1,2)
    by (simp add: cp_mess_def Let_def put32_def write_bytes_append)
qed

lemma read_bytes_write_sub:
  assumes "i + n \<le> length bs" and "length bs \<le> 2 ^ 32"
  shows "read_bytes (write_bytes a bs m) (a + of_nat i) n = take n (drop i bs)"
proof (rule nth_equalityI)
  fix j
  assume "j < length (read_bytes (write_bytes a bs m) (a + of_nat i) n)"
  then have "j < n" by simp
  moreover have "unat (of_nat i + of_nat j :: u32) = i + j"
    using assms \<open>j < n\<close> unat_of_nat [of "i + j", where 'a = 32] by simp
  ultimately show "read_bytes (write_bytes a bs m) (a + of_nat i) n ! j = take n (drop i bs) ! j"
    using assms by (simp add: write_bytes_lookup algebra_simps)
qed (use assms in simp)

lemma cp_mess_words:
  fixes m :: mem and src :: int
  assumes "esi = push_bit 10 src_clicks + src_offset" and "edi = push_bit 10 dst_clicks + dst_offset"
    and "span esi 36 \<inter> span edi 36 = {}"
  defines "m' \<equiv> cp_mess src src_clicks src_offset dst_clicks dst_offset m"
  shows "get32 m' edi = word_of_int src"
    and "1 \<le> i \<Longrightarrow> i < 9 \<Longrightarrow> get32 m' (edi + of_nat (4 * i)) = get32 m (esi + of_nat (4 * i))"
    and "x \<notin> span edi 36 \<Longrightarrow> m' x = m x"
proof -
  let ?bs = "bytes32 (word_of_int src) @ read_bytes m (esi + 4) 32"
  have m': "m' = write_bytes edi ?bs m"
    unfolding m'_def using assms(1-3) by (rule cp_mess_disjoint)
  have r: "read_bytes m' (edi + of_nat k) 4 = take 4 (drop k ?bs)" if "k \<le> 32" for k
    unfolding m' by (rule read_bytes_write_sub) (use that in simp_all)
  from r [of 0] show "get32 m' edi = word_of_int src"
    by (simp add: get32_le32 le32_bytes32)
  show "x \<notin> span edi 36 \<Longrightarrow> m' x = m x"
    unfolding m' by (rule write_bytes_outside) simp_all
  assume i: "1 \<le> i" "i < 9"
  have "take 4 (drop (4 * i) ?bs) = read_bytes m (esi + of_nat (4 * i)) 4"
  proof (rule nth_equalityI)
    fix j
    assume "j < length (take 4 (drop (4 * i) ?bs))"
    moreover have "4 + of_nat (4 * i + j - 4) = (of_nat (4 * i + j) :: u32)"
      using i by (simp add: of_nat_diff)
    ultimately show "take 4 (drop (4 * i) ?bs) ! j = read_bytes m (esi + of_nat (4 * i)) 4 ! j"
      using i by (simp add: nth_append add.assoc)
  qed (use i in simp)
  with r [of "4 * i"] i show "get32 m' (edi + of_nat (4 * i)) = get32 m (esi + of_nat (4 * i))"
    by (simp add: get32_le32)
qed

section \<open>Properties\<close>

text \<open>
  \<open>phys_copy\<close> aligns, moves double words and then the rest; for areas that do not
  overlap, exactly the bytes of the source appear at the destination and no other byte of
  memory changes.
\<close>

theorem phys_copy_exact:
  assumes "span src (unat n) \<inter> span dst (unat n) = {}"
  shows "phys_copy src dst n m x =
    (if unat (x - dst) < unat n then m (src + (x - dst)) else m x)"
  unfolding phys_copy_disjoint [OF assms]
  using unat_le_u32 [of n] by (simp add: write_bytes_lookup)

theorem phys_copy_exact_witness:
  "phys_copy 1001 3000 23 ((\<lambda>_. 0)(1011 := 7)) 3010 = 7 \<and>
   phys_copy 1001 3000 23 ((\<lambda>_. 0)(1011 := 7)) 1011 = 7"
proof -
  have "span 1001 (unat (23::u32)) \<inter> span 3000 (unat (23::u32)) = {}"
    by (rule span_disjoint) simp_all
  from phys_copy_exact [OF this, of "(\<lambda>_. 0)(1011 := 7)"] show ?thesis by simp
qed

end
