(* ===== verification/Kernel_State.thy ===== *)
theory Kernel_State
  imports Timers Phys_Mem
begin

unbundle bit_operations_syntax

text \<open>
  The data of the MINIX kernel: the process table (\<open>kernel/proc.h\<close>), the privilege
  table (\<open>kernel/priv.h\<close>), the scheduling queues and global pointers (\<open>kernel/glo.h\<close>),
  the clock's variables (\<open>kernel/clock.c\<close>), the interrupt hooks (\<open>kernel/type.h\<close>) and
  messages (\<open>include/minix/ipc.h\<close>). A pointer to a process slot is its process number, a
  pointer to a privilege structure its index; the null pointer is \<open>None\<close>.
\<close>

section \<open>Constants\<close>

abbreviation (input) NR_TASKS :: int where "NR_TASKS \<equiv> 4"
abbreviation (input) NR_PROCS :: int where "NR_PROCS \<equiv> 64"
abbreviation (input) NR_SYS_PROCS :: nat where "NR_SYS_PROCS \<equiv> 32"
abbreviation (input) NR_IRQ_HOOKS :: nat where "NR_IRQ_HOOKS \<equiv> 16"
abbreviation (input) NR_IRQ_VECTORS :: int where "NR_IRQ_VECTORS \<equiv> 16"
abbreviation (input) NR_REMOTE_SEGS :: int where "NR_REMOTE_SEGS \<equiv> 3"
abbreviation (input) CLICK_SHIFT :: nat where "CLICK_SHIFT \<equiv> 10"

abbreviation (input) ANY :: int where "ANY \<equiv> 31438"        \<comment> \<open>0x7ace\<close>
abbreviation (input) NONE :: int where "NONE \<equiv> 27342"       \<comment> \<open>0x6ace\<close>
abbreviation (input) SELF :: int where "SELF \<equiv> 35534"       \<comment> \<open>0x8ace\<close>
abbreviation (input) IDLE :: int where "IDLE \<equiv> - 4"
abbreviation (input) CLOCK :: int where "CLOCK \<equiv> - 3"
abbreviation (input) SYSTEM :: int where "SYSTEM \<equiv> - 2"
abbreviation (input) HARDWARE :: int where "HARDWARE \<equiv> - 1"
abbreviation (input) PM_PROC_NR :: int where "PM_PROC_NR \<equiv> 0"
abbreviation (input) LOG_PROC_NR :: int where "LOG_PROC_NR \<equiv> 4"
abbreviation (input) INIT_PROC_NR :: int where "INIT_PROC_NR \<equiv> 7"
abbreviation (input) USER_PRIV_ID :: nat where "USER_PRIV_ID \<equiv> 0"

abbreviation (input) OK :: int where "OK \<equiv> 0"
abbreviation (input) EPERM :: int where "EPERM \<equiv> - 1"
abbreviation (input) EIO :: int where "EIO \<equiv> - 5"
abbreviation (input) E2BIG :: int where "E2BIG \<equiv> - 7"
abbreviation (input) ENOMEM :: int where "ENOMEM \<equiv> - 12"
abbreviation (input) EFAULT :: int where "EFAULT \<equiv> - 14"
abbreviation (input) EINVAL :: int where "EINVAL \<equiv> - 22"
abbreviation (input) ENOSPC :: int where "ENOSPC \<equiv> - 28"
abbreviation (input) EDOM :: int where "EDOM \<equiv> - 33"
abbreviation (input) ELOCKED :: int where "ELOCKED \<equiv> - 101"
abbreviation (input) EBADCALL :: int where "EBADCALL \<equiv> - 102"
abbreviation (input) EBADSRCDST :: int where "EBADSRCDST \<equiv> - 103"
abbreviation (input) ECALLDENIED :: int where "ECALLDENIED \<equiv> - 104"
abbreviation (input) EDEADDST :: int where "EDEADDST \<equiv> - 105"
abbreviation (input) ENOTREADY :: int where "ENOTREADY \<equiv> - 106"
abbreviation (input) EBADREQUEST :: int where "EBADREQUEST \<equiv> - 107"
abbreviation (input) EDONTREPLY :: int where "EDONTREPLY \<equiv> - 201"

text \<open>The run-time flags of a process: it is runnable iff none is set.\<close>

abbreviation (input) SLOT_FREE :: u8 where "SLOT_FREE \<equiv> 1"
abbreviation (input) NO_MAP :: u8 where "NO_MAP \<equiv> 2"
abbreviation (input) SENDING :: u8 where "SENDING \<equiv> 4"
abbreviation (input) RECEIVING :: u8 where "RECEIVING \<equiv> 8"
abbreviation (input) SIGNALED :: u8 where "SIGNALED \<equiv> 16"
abbreviation (input) SIG_PENDING :: u8 where "SIG_PENDING \<equiv> 32"
abbreviation (input) P_STOP :: u8 where "P_STOP \<equiv> 64"
abbreviation (input) NO_PRIV :: u8 where "NO_PRIV \<equiv> 128"

abbreviation (input) PREEMPTIBLE :: u16 where "PREEMPTIBLE \<equiv> 1"
abbreviation (input) BILLABLE :: u16 where "BILLABLE \<equiv> 4"
abbreviation (input) SYS_PROC :: u16 where "SYS_PROC \<equiv> 16"
abbreviation (input) SENDREC_BUSY :: u16 where "SENDREC_BUSY \<equiv> 32"

abbreviation (input) NR_SCHED_QUEUES :: int where "NR_SCHED_QUEUES \<equiv> 16"
abbreviation (input) MAX_USER_Q :: int where "MAX_USER_Q \<equiv> 0"
abbreviation (input) MIN_USER_Q :: int where "MIN_USER_Q \<equiv> 14"
abbreviation (input) IDLE_Q :: int where "IDLE_Q \<equiv> 15"

abbreviation (input) SIGKMESS :: int where "SIGKMESS \<equiv> 18"
abbreviation (input) SIGKSIG :: int where "SIGKSIG \<equiv> 19"
abbreviation (input) SIGKSTOP :: int where "SIGKSTOP \<equiv> 20"
abbreviation (input) NSIG :: int where "NSIG \<equiv> 20"

section \<open>Structures\<close>

record mem_map =
  mem_vir :: u32
  mem_phys :: u32
  mem_len :: u32

datatype seg = T_seg | D_seg | S_seg

record far_mem =
  in_use :: bool
  fm_phys :: u32
  fm_len :: u32

record segdesc =
  limit_low :: u16
  base_low :: u16
  base_middle :: u8
  access :: u8
  granularity :: u8
  base_high :: u8

record stackframe =
  reg_gs :: u16
  reg_fs :: u16
  reg_es :: u16
  reg_ds :: u16
  reg_di :: u32
  reg_si :: u32
  reg_fp :: u32
  reg_st :: u32
  reg_bx :: u32
  reg_dx :: u32
  reg_cx :: u32
  reg_retreg :: u32
  reg_retadr :: u32
  reg_pc :: u32
  reg_cs :: u32
  reg_psw :: u32
  reg_sp :: u32
  reg_ss :: u32

text \<open>
  A message: the sender, the type and the 28 bytes of the union \<open>m_u\<close> as seven 32-bit
  words. The members of the union are accessors of these words.
\<close>

record message =
  m_source :: int
  m_type :: int
  m_w :: "nat \<Rightarrow> u32"

abbreviation mset_w :: "nat \<Rightarrow> u32 \<Rightarrow> message \<Rightarrow> message" where
  "mset_w i v m \<equiv> m\<lparr>m_w := (m_w m)(i := v)\<rparr>"

text \<open>An \<open>int\<close> or \<open>long\<close> member of the union is one of its words.\<close>

definition int_field :: "message \<Rightarrow> nat \<Rightarrow> int" where
  "int_field m k = sint (m_w m k)"

record kproc =
  p_reg :: stackframe
  p_ldt_sel :: u32
  p_ldt :: "nat \<Rightarrow> segdesc"
  p_nr :: int
  p_priv :: "nat option"
  p_rts_flags :: u8
  p_priority :: int
  p_max_priority :: int
  p_ticks_left :: int
  p_quantum_size :: int
  p_memmap :: "seg \<Rightarrow> mem_map"
  p_user_time :: int
  p_sys_time :: int
  p_nextready :: "int option"
  p_caller_q :: "int option"
  p_q_link :: "int option"
  p_messbuf :: u32
  p_getfrom :: int
  p_sendto :: int
  p_pending :: u32
  p_name :: "u8 list"

text \<open>A bit map over privilege ids: chunks of 16 bits (\<open>sys_map_t\<close>).\<close>

type_synonym sys_map = "nat \<Rightarrow> u16"

text \<open>
  The alarm timer \<open>s_alarm_timer\<close> of a privilege structure lives in the clock's timer
  heap. \<open>s_guard_ok\<close> is the test \<open>*s_stack_guard == STACK_GUARD\<close>.
\<close>

record priv =
  s_proc_nr :: int
  s_id :: nat
  s_flags :: u16
  s_trap_mask :: u16
  s_ipc_from :: sys_map
  s_ipc_to :: sys_map
  s_call_mask :: u32
  s_notify_pending :: sys_map
  s_int_pending :: u32
  s_sig_pending :: u32
  s_farmem :: "nat \<Rightarrow> far_mem"
  s_guard_ok :: bool

datatype tmr_id = AlarmTmr nat | ShutdownTmr

datatype watchdog = CauseAlarm | Shutdown | NoWatchdog

datatype hook_id = ClockHook | IrqHook nat

datatype irq_handler = ClockHandler | GenericHandler

record irq_hook =
  hk_next :: "hook_id option"
  hk_handler :: irq_handler
  hk_irq :: int
  hk_id :: u32
  hk_proc_nr :: int
  hk_notify_id :: u32
  hk_policy :: u32

record gatedesc =
  offset_low :: u16
  selector :: u16
  gd_pad :: u8
  p_dpl_type :: u8
  offset_high :: u16

text \<open>The members of \<open>struct kinfo\<close> that the kernel itself reads.\<close>

record kinfo =
  code_base :: u32
  code_size :: u32
  data_base :: u32
  data_size :: u32
  params_base :: u32
  params_size :: u32

record rand_bin =
  r_next :: nat
  r_size :: nat
  r_buf :: "nat \<Rightarrow> u16"

record kmessages =
  km_next :: nat
  km_size :: nat
  km_buf :: "nat \<Rightarrow> char"

text \<open>
  The kernel's state. \<open>io_in\<close> is what each I/O port reads at the moment and \<open>io_out\<close> the
  sequence of port writes. \<open>sched_prev\<close> is the static \<open>prev_ptr\<close> of \<open>sched\<close>, \<open>prev_ptr\<close> the
  global one of the clock. \<open>memory\<close> is physical memory by bytes; \<open>stk_mess\<close> is what the
  stack slot of a local \<open>message m\<close> holds before it is assigned.
\<close>

record kstate =
  proc_tab :: "int \<Rightarrow> kproc"
  priv_tab :: "nat \<Rightarrow> priv"
  rdy_head :: "int \<Rightarrow> int option"
  rdy_tail :: "int \<Rightarrow> int option"
  proc_ptr :: "int option"
  next_ptr :: "int option"
  bill_ptr :: "int option"
  prev_ptr :: "int option"
  sched_prev :: "int option"
  lost_ticks :: u32
  realtime :: int
  next_timeout :: int
  clock_timers :: "(tmr_id, watchdog) tqueue"
  irq_hooks :: "hook_id \<Rightarrow> irq_hook"
  irq_handlers :: "int \<Rightarrow> hook_id option"
  irq_actids :: "int \<Rightarrow> u32"
  irq_use :: u32
  kmess :: kmessages
  shutdown_started :: bool
  machine_protected :: bool
  machine_ps_mca :: bool
  machine_processor :: int
  kinfo_v :: kinfo
  krandom :: "nat \<Rightarrow> rand_bin"
  gdt :: "nat \<Rightarrow> segdesc"
  idt :: "nat \<Rightarrow> gatedesc"
  tss_ss0 :: u32
  tss_iobase :: u16
  io_in :: "u32 \<Rightarrow> u32"
  io_out :: "(u32 \<times> u32) list"
  memory :: "u32 \<Rightarrow> u8"
  stk_mess :: message

section \<open>Table access\<close>

text \<open>
  \<open>isokprocn\<close> compares \<open>(unsigned) (n + NR_TASKS)\<close>, so it is a test of both bounds.
\<close>

definition isokprocn :: "int \<Rightarrow> bool" where
  "isokprocn n \<longleftrightarrow> 0 \<le> n + NR_TASKS \<and> n + NR_TASKS < NR_PROCS + NR_TASKS"

definition proc_addr :: "int \<Rightarrow> int res" where
  "proc_addr n = (if isokprocn n then Inr n else Inl (BadIndex n))"

definition iskerneln :: "int \<Rightarrow> bool" where
  "iskerneln n \<longleftrightarrow> n < 0"

abbreviation flags_of :: "kstate \<Rightarrow> int \<Rightarrow> u8" where
  "flags_of s n \<equiv> p_rts_flags (proc_tab s n)"

definition isemptyp :: "kstate \<Rightarrow> int \<Rightarrow> bool" where
  "isemptyp s n \<longleftrightarrow> flags_of s n = SLOT_FREE"

abbreviation set_proc :: "int \<Rightarrow> kproc \<Rightarrow> kstate \<Rightarrow> kstate" where
  "set_proc n p s \<equiv> s\<lparr>proc_tab := (proc_tab s)(n := p)\<rparr>"

abbreviation set_flags :: "int \<Rightarrow> u8 \<Rightarrow> kstate \<Rightarrow> kstate" where
  "set_flags n f s \<equiv> set_proc n ((proc_tab s n)\<lparr>p_rts_flags := f\<rparr>) s"

abbreviation set_priv :: "nat \<Rightarrow> priv \<Rightarrow> kstate \<Rightarrow> kstate" where
  "set_priv i v s \<equiv> s\<lparr>priv_tab := (priv_tab s)(i := v)\<rparr>"

text \<open>\<open>priv(rp)\<close>: the pointer of a slot that was never assigned a structure is null.\<close>

definition priv_of :: "kstate \<Rightarrow> int \<Rightarrow> nat res" where
  "priv_of s n = deref (p_priv (proc_tab s n))"

lemma isokprocn_bounds: "isokprocn n \<longleftrightarrow> - 4 \<le> n \<and> n < 64"
  by (auto simp: isokprocn_def)

lemma isokprocn_special [simp]:
  "isokprocn CLOCK" "isokprocn SYSTEM" "isokprocn HARDWARE" "isokprocn IDLE" "isokprocn 0"
  "isokprocn 4" "\<not> isokprocn ANY" "\<not> isokprocn NONE" "\<not> isokprocn SELF"
  by (simp_all add: isokprocn_def)

lemma proc_addr_ok [simp]: "isokprocn n \<Longrightarrow> proc_addr n = Inr n"
  by (simp add: proc_addr_def)

section \<open>Bit maps over privilege ids\<close>

definition get_sys_bit :: "sys_map \<Rightarrow> nat \<Rightarrow> bool" where
  "get_sys_bit mp b \<longleftrightarrow> mp (b div 16) AND push_bit (b mod 16) 1 \<noteq> 0"

definition set_sys_bit :: "sys_map \<Rightarrow> nat \<Rightarrow> sys_map" where
  "set_sys_bit mp b = mp(b div 16 := mp (b div 16) OR push_bit (b mod 16) 1)"

definition unset_sys_bit :: "sys_map \<Rightarrow> nat \<Rightarrow> sys_map" where
  "unset_sys_bit mp b = mp(b div 16 := mp (b div 16) AND NOT (push_bit (b mod 16) 1))"

lemma and_push_bit_1:
  fixes x :: "'a::len word"
  shows "(x AND push_bit n 1 \<noteq> 0) = bit x n"
proof -
  have "x AND push_bit n 1 = (if bit x n then push_bit n 1 else 0)"
    by (rule bit_word_eqI) (auto simp: bit_simps)
  then show ?thesis
    by (cases "n < LENGTH('a)") (auto simp: push_bit_eq_mult impossible_bit)
qed

lemma get_sys_bit_iff: "get_sys_bit mp b \<longleftrightarrow> bit (mp (b div 16)) (b mod 16)"
  unfolding get_sys_bit_def by (rule and_push_bit_1)

lemma div_mod_16_eq: "(a::nat) div 16 = b div 16 \<Longrightarrow> a mod 16 = b mod 16 \<Longrightarrow> a = b"
  by (metis div_mult_mod_eq)

lemma get_set_sys_bit: "get_sys_bit (set_sys_bit mp b) c \<longleftrightarrow> b = c \<or> get_sys_bit mp c"
proof (cases "b div 16 = c div 16")
  case True
  then show ?thesis
    unfolding get_sys_bit_iff set_sys_bit_def
    by (auto simp: bit_simps dest: div_mod_16_eq)
next
  case False
  then show ?thesis by (auto simp: get_sys_bit_iff set_sys_bit_def)
qed

lemma get_unset_sys_bit: "get_sys_bit (unset_sys_bit mp b) c \<longleftrightarrow> b \<noteq> c \<and> get_sys_bit mp c"
proof (cases "b div 16 = c div 16")
  case True
  then show ?thesis
    unfolding get_sys_bit_iff unset_sys_bit_def
    by (auto simp: bit_simps dest: div_mod_16_eq)
next
  case False
  then show ?thesis by (auto simp: get_sys_bit_iff unset_sys_bit_def)
qed

text \<open>
  The interface of a bit map: a set of ids that can be queried, extended and reduced.
  Both the privilege bit maps of the kernel and the signal sets of \<open>_sigset.c\<close> provide it.
\<close>

locale bit_set =
  fixes get :: "'m \<Rightarrow> 'i \<Rightarrow> bool" and add :: "'m \<Rightarrow> 'i \<Rightarrow> 'm" and del :: "'m \<Rightarrow> 'i \<Rightarrow> 'm"
    and valid :: "'i \<Rightarrow> bool"
  assumes get_add: "valid b \<Longrightarrow> valid c \<Longrightarrow> get (add m b) c \<longleftrightarrow> b = c \<or> get m c"
    and get_del: "valid b \<Longrightarrow> valid c \<Longrightarrow> get (del m b) c \<longleftrightarrow> b \<noteq> c \<and> get m c"
begin

lemma add_all:
  "list_all valid bs \<Longrightarrow> valid c \<Longrightarrow> get (foldl add m bs) c \<longleftrightarrow> c \<in> set bs \<or> get m c"
  by (induction bs arbitrary: m) (auto simp: get_add)

lemma del_add_cancel: "valid b \<Longrightarrow> valid c \<Longrightarrow> get (del (add m b) b) c \<longleftrightarrow> b \<noteq> c \<and> get m c"
  by (auto simp: get_add get_del)

end

interpretation sysmap: bit_set get_sys_bit set_sys_bit unset_sys_bit "\<lambda>_. True"
  by unfold_locales (auto simp: get_set_sys_bit get_unset_sys_bit)

section \<open>Signal sets\<close>

text \<open>\<open>sigisvalid\<close> compares unsigned, so negative numbers are invalid as well.\<close>

definition sigisvalid :: "int \<Rightarrow> bool" where
  "sigisvalid signo \<longleftrightarrow> 0 \<le> signo \<and> signo \<le> NSIG"

definition sigaddset :: "u32 \<Rightarrow> int \<Rightarrow> int \<times> u32" where
  "sigaddset st signo =
     (if \<not> sigisvalid signo then (- 1, st) else (0, st OR push_bit (nat signo) 1))"

definition sigdelset :: "u32 \<Rightarrow> int \<Rightarrow> int \<times> u32" where
  "sigdelset st signo =
     (if \<not> sigisvalid signo then (- 1, st) else (0, st AND NOT (push_bit (nat signo) 1)))"

definition sigemptyset :: u32 where
  "sigemptyset = 0"

definition sigfillset :: u32 where
  "sigfillset = push_bit 1 (push_bit (nat NSIG) 1) - 1"

definition sigismember :: "u32 \<Rightarrow> int \<Rightarrow> int" where
  "sigismember st signo =
     (if \<not> sigisvalid signo then - 1
      else if st AND push_bit (nat signo) 1 \<noteq> 0 then 1 else 0)"

lemma sigismember_iff:
  "sigisvalid n \<Longrightarrow> sigismember st n = 1 \<longleftrightarrow> bit st (nat n)"
  using and_push_bit_1 [of st "nat n"] by (simp add: sigismember_def)

interpretation sigset: bit_set "\<lambda>st n. sigismember st n = 1"
  "\<lambda>st n. snd (sigaddset st n)" "\<lambda>st n. snd (sigdelset st n)" sigisvalid
  by unfold_locales
    (auto simp: sigismember_iff sigaddset_def sigdelset_def bit_simps sigisvalid_def nat_eq_iff)

section \<open>A sample state\<close>

text \<open>
  A small system that the theorems are applied to: the slots \<open>- 4\<close> to \<open>4\<close> are in use,
  process 1 is ready to run, the others (but \<open>HARDWARE\<close>) wait for a message from anyone; each has its own
  privilege structure with every permission, and its own data segment of sixteen clicks.
\<close>

definition sample_proc :: "int \<Rightarrow> kproc" where
  "sample_proc x =
     \<lparr>p_reg = \<lparr>reg_gs = 0, reg_fs = 0, reg_es = 0, reg_ds = 0, reg_di = 0, reg_si = 0, reg_fp = 0,
        reg_st = 0, reg_bx = 0, reg_dx = 0, reg_cx = 0, reg_retreg = 0, reg_retadr = 0, reg_pc = 0,
        reg_cs = 0, reg_psw = 0, reg_sp = 0, reg_ss = 0\<rparr>,
      p_ldt_sel = 0,
      p_ldt = (\<lambda>_. \<lparr>limit_low = 0, base_low = 0, base_middle = 0, access = 0, granularity = 0, base_high = 0\<rparr>),
      p_nr = x,
      p_priv = (if - 4 \<le> x \<and> x \<le> 4 then Some (nat (x + 5)) else None),
      p_rts_flags = (if x = 1 then 0 else if x = HARDWARE then NO_MAP else if - 4 \<le> x \<and> x \<le> 4 then RECEIVING else SLOT_FREE),
      p_priority = 3, p_max_priority = 3, p_ticks_left = 4, p_quantum_size = 8,
      p_memmap = (\<lambda>sg. case sg of
         T_seg \<Rightarrow> \<lparr>mem_vir = 0, mem_phys = 0, mem_len = 0\<rparr>
       | D_seg \<Rightarrow> \<lparr>mem_vir = 0, mem_phys = word_of_int (16 * (x + 5)), mem_len = 8\<rparr>
       | S_seg \<Rightarrow> \<lparr>mem_vir = 8, mem_phys = word_of_int (16 * (x + 5) + 8), mem_len = 8\<rparr>),
      p_user_time = 0, p_sys_time = 0, p_nextready = None, p_caller_q = None, p_q_link = None,
      p_messbuf = 512, p_getfrom = ANY, p_sendto = 0, p_pending = 0, p_name = []\<rparr>"

definition sample_priv :: "nat \<Rightarrow> priv" where
  "sample_priv i =
     \<lparr>s_proc_nr = (if 1 \<le> i \<and> i \<le> 9 then int i - 5 else NONE), s_id = i, s_flags = SYS_PROC OR BILLABLE,
      s_trap_mask = - 1, s_ipc_from = (\<lambda>_. - 1), s_ipc_to = (\<lambda>_. - 1), s_call_mask = - 1,
      s_notify_pending = (\<lambda>_. 0), s_int_pending = 0, s_sig_pending = 0,
      s_farmem = (\<lambda>_. \<lparr>in_use = False, fm_phys = 0, fm_len = 0\<rparr>), s_guard_ok = True\<rparr>"

definition sample :: kstate where
  "sample =
     \<lparr>proc_tab = sample_proc, priv_tab = sample_priv,
      rdy_head = (\<lambda>q. if q = 3 then Some 1 else None), rdy_tail = (\<lambda>q. if q = 3 then Some 1 else None),
      proc_ptr = Some 1, next_ptr = Some 1, bill_ptr = Some 1, prev_ptr = Some 1, sched_prev = None,
      lost_ticks = 0, realtime = 100, next_timeout = TMR_NEVER,
      clock_timers = \<lparr>theap = (\<lambda>_. \<lparr>tmr_next = None, tmr_exp_time = TMR_NEVER,
                                     tmr_func = NoWatchdog, tmr_arg = 0\<rparr>), thead = None\<rparr>,
      irq_hooks = (\<lambda>_. \<lparr>hk_next = None, hk_handler = GenericHandler, hk_irq = 0, hk_id = 0,
                         hk_proc_nr = NONE, hk_notify_id = 0, hk_policy = 0\<rparr>),
      irq_handlers = (\<lambda>_. None), irq_actids = (\<lambda>_. 0), irq_use = 0,
      kmess = \<lparr>km_next = 0, km_size = 0, km_buf = (\<lambda>_. CHR '' '')\<rparr>,
      shutdown_started = False, machine_protected = True, machine_ps_mca = False, machine_processor = 586,
      kinfo_v = \<lparr>code_base = 0, code_size = 0, data_base = 0, data_size = 0, params_base = 0, params_size = 0\<rparr>,
      krandom = (\<lambda>_. \<lparr>r_next = 0, r_size = 0, r_buf = (\<lambda>_. 0)\<rparr>),
      gdt = (\<lambda>_. \<lparr>limit_low = 0, base_low = 0, base_middle = 0, access = 0, granularity = 0, base_high = 0\<rparr>),
      idt = (\<lambda>_. \<lparr>offset_low = 0, selector = 0, gd_pad = 0, p_dpl_type = 0, offset_high = 0\<rparr>),
      tss_ss0 = 0, tss_iobase = 0, io_in = (\<lambda>_. 0), io_out = [], memory = (\<lambda>_. 0),
      stk_mess = \<lparr>m_source = 0, m_type = 0, m_w = (\<lambda>_. 0)\<rparr>\<rparr>"

end
