(* ===== verification/Sched.thy ===== *)
theory Sched
  imports Kernel_State
begin

unbundle bit_operations_syntax

text \<open>
  The scheduler of \<open>kernel/proc.c\<close>: \<open>sched\<close>, \<open>pick_proc\<close>, \<open>enqueue\<close>, \<open>dequeue\<close>. The
  sixteen ready queues are chains through \<open>p_nextready\<close> with a head and a tail pointer
  each; the model keeps them that way, and the lemmas show that they implement sixteen
  lists. The interface \<open>ready_queues\<close> is what message passing and the kernel calls use.
\<close>

section \<open>Policy and selection\<close>

definition sched :: "int \<Rightarrow> kstate \<Rightarrow> kstate \<times> int \<times> bool" where
  "sched rp s =
     (let p = proc_tab s rp;
          time_left = p_ticks_left p > 0;
          p1 = (if \<not> time_left then p\<lparr>p_ticks_left := p_quantum_size p\<rparr> else p);
          penalty = (if \<not> time_left then (if sched_prev s = Some rp then 1 else - 1) else 0);
          prev = (if \<not> time_left then Some rp else sched_prev s);
          p2 = (if penalty \<noteq> 0 \<and> \<not> iskerneln (p_nr p1)
                then let pr = schar (p_priority p1 + penalty)
                     in p1\<lparr>p_priority :=
                          (if pr < p_max_priority p1 then p_max_priority p1
                           else if pr > IDLE_Q - 1 then IDLE_Q - 1 else pr)\<rparr>
                else p1)
      in ((set_proc rp p2 s)\<lparr>sched_prev := prev\<rparr>, p_priority p2, time_left))"

function pick_proc_from :: "int \<Rightarrow> kstate \<Rightarrow> kstate res" where
  "pick_proc_from q s =
     (if q < NR_SCHED_QUEUES
      then case rdy_head s q of
             None \<Rightarrow> pick_proc_from (q + 1) s
           | Some rp \<Rightarrow>
               (let s1 = s\<lparr>next_ptr := Some rp\<rparr>
                in bindr (priv_of s1 rp) (\<lambda>i.
                     if s_flags (priv_tab s1 i) AND BILLABLE \<noteq> 0
                     then Inr (s1\<lparr>bill_ptr := Some rp\<rparr>) else Inr s1))
      else Inr s)"
  by pat_completeness auto
termination
  by (relation "measure (\<lambda>(q, s). nat (NR_SCHED_QUEUES - q))") auto

declare pick_proc_from.simps [simp del]

definition pick_proc :: "kstate \<Rightarrow> kstate res" where
  "pick_proc s = pick_proc_from 0 s"

section \<open>The ready queues\<close>

text \<open>Links of the queue \<open>q\<close>: its head variable and the \<open>p_nextready\<close> fields.\<close>

fun rq_get :: "int \<Rightarrow> int loc \<Rightarrow> kstate \<Rightarrow> int option" where
  "rq_get q Head s = rdy_head s q"
| "rq_get q (Next x) s = p_nextready (proc_tab s x)"

fun rq_put :: "int \<Rightarrow> int loc \<Rightarrow> int option \<Rightarrow> kstate \<Rightarrow> kstate" where
  "rq_put q Head p s = s\<lparr>rdy_head := (rdy_head s)(q := p)\<rparr>"
| "rq_put q (Next x) p s = set_proc x ((proc_tab s x)\<lparr>p_nextready := p\<rparr>) s"

abbreviation set_tail :: "int \<Rightarrow> int option \<Rightarrow> kstate \<Rightarrow> kstate" where
  "set_tail q p s \<equiv> s\<lparr>rdy_tail := (rdy_tail s)(q := p)\<rparr>"

definition enqueue :: "int \<Rightarrow> kstate \<Rightarrow> kstate res" where
  "enqueue rp s0 =
     (let (s, q, front) = sched rp s0 in
      if \<not> (0 \<le> q \<and> q < NR_SCHED_QUEUES) then Inl (BadIndex q)
      else if rdy_head s q = None
      then pick_proc (rq_put q (Next rp) None (set_tail q (Some rp) (rq_put q Head (Some rp) s)))
      else if front
      then pick_proc (rq_put q Head (Some rp) (rq_put q (Next rp) (rdy_head s q) s))
      else bindr (deref (rdy_tail s q)) (\<lambda>t.
             pick_proc (rq_put q (Next rp) None
               (set_tail q (Some rp) (rq_put q (Next t) (Some rp) s)))))"

definition dequeue :: "int \<Rightarrow> kstate \<Rightarrow> kstate res" where
  "dequeue rp s =
     (let q = p_priority (proc_tab s rp) in
      bindr (if iskerneln (p_nr (proc_tab s rp))
             then bindr (priv_of s rp) (\<lambda>i.
                    if \<not> s_guard_ok (priv_tab s i)
                    then Inl (Panic ''stack overrun by task'') else Inr ())
             else Inr ()) (\<lambda>_.
      if \<not> (0 \<le> q \<and> q < NR_SCHED_QUEUES) then Inl (BadIndex q)
      else case walk (\<lambda>l. rq_get q l s) (\<lambda>x. x = rp) Head of
             None \<Rightarrow> Inl Hang
           | Some xpp \<Rightarrow>
               if rq_get q xpp s = Some rp
               then (let s1 = rq_put q xpp (p_nextready (proc_tab s rp)) s;
                         s2 = (if rdy_tail s1 q = Some rp then set_tail q (loc_owner xpp) s1 else s1)
                     in if proc_ptr s2 = Some rp \<or> next_ptr s2 = Some rp then pick_proc s2
                        else Inr s2)
               else Inr s))"

text \<open>The entry points for tasks: \<open>lock\<close> and \<open>unlock\<close> only mask interrupts.\<close>

definition lock_enqueue :: "int \<Rightarrow> kstate \<Rightarrow> kstate res" where
  "lock_enqueue rp s = enqueue rp s"

definition lock_dequeue :: "int \<Rightarrow> kstate \<Rightarrow> kstate res" where
  "lock_dequeue rp s = dequeue rp s"

section \<open>What the queues represent\<close>

interpretation rq: linked_list "rq_get q" "rq_put q" for q
proof
  fix l l' p s
  show "rq_get q l (rq_put q l' p s) = (if l = l' then p else rq_get q l s)"
    by (cases l; cases l') auto
qed

abbreviation nextr :: "kstate \<Rightarrow> int \<Rightarrow> int option" where
  "nextr s \<equiv> (\<lambda>x. p_nextready (proc_tab s x))"

abbreviation prio :: "kstate \<Rightarrow> int \<Rightarrow> int" where
  "prio s x \<equiv> p_priority (proc_tab s x)"

abbreviation is_q :: "int \<Rightarrow> bool" where
  "is_q q \<equiv> 0 \<le> q \<and> q < NR_SCHED_QUEUES"

text \<open>
  \<open>rq_rep s Q\<close>: for every priority \<open>q\<close> the chain from \<open>rdy_head[q]\<close> is the list \<open>Q q\<close>,
  \<open>rdy_tail[q]\<close> is its last element, and its members have that priority.
\<close>

definition queue_rep :: "kstate \<Rightarrow> int \<Rightarrow> int list \<Rightarrow> bool" where
  "queue_rep s q xs \<longleftrightarrow> chain (nextr s) (rdy_head s q) xs \<and> rdy_tail s q = last_opt xs \<and>
     (\<forall>x \<in> set xs. isokprocn x \<and> prio s x = q \<and> p_priv (proc_tab s x) \<noteq> None)"

definition rq_rep :: "kstate \<Rightarrow> (int \<Rightarrow> int list) \<Rightarrow> bool" where
  "rq_rep s Q \<longleftrightarrow> (\<forall>q. is_q q \<longrightarrow> queue_rep s q (Q q))"

definition queued :: "(int \<Rightarrow> int list) \<Rightarrow> int set" where
  "queued Q = {x. \<exists>q. is_q q \<and> x \<in> set (Q q)}"

text \<open>The process at the head of the best queue that is not empty.\<close>

definition first_ready :: "(int \<Rightarrow> int list) \<Rightarrow> int option" where
  "first_ready Q = (case find (\<lambda>q. Q q \<noteq> []) [0..IDLE_Q] of
     None \<Rightarrow> None | Some q \<Rightarrow> head_opt (Q q))"

definition next_ok :: "kstate \<Rightarrow> (int \<Rightarrow> int list) \<Rightarrow> bool" where
  "next_ok s Q \<longleftrightarrow> (\<forall>x. first_ready Q = Some x \<longrightarrow> next_ptr s = Some x)"

text \<open>
  What the scheduler may change: the scheduling fields of the process slots, the queue
  heads and tails, and the pointers \<open>next_ptr\<close>, \<open>bill_ptr\<close>, \<open>sched_prev\<close>.
\<close>

definition erase_proc :: "kproc \<Rightarrow> kproc" where
  "erase_proc p = p\<lparr>p_priority := 0, p_ticks_left := 0, p_nextready := None\<rparr>"

definition sched_erase :: "kstate \<Rightarrow> kstate" where
  "sched_erase s = s\<lparr>proc_tab := (\<lambda>x. erase_proc (proc_tab s x)), rdy_head := (\<lambda>_. None),
     rdy_tail := (\<lambda>_. None), next_ptr := None, bill_ptr := None, sched_prev := None\<rparr>"

abbreviation sched_frame :: "kstate \<Rightarrow> kstate \<Rightarrow> bool" where
  "sched_frame s s' \<equiv> sched_erase s' = sched_erase s"

lemma erase_procD:
  assumes "erase_proc p = erase_proc p'"
  shows "p_reg p = p_reg p'" "p_ldt_sel p = p_ldt_sel p'" "p_ldt p = p_ldt p'" "p_nr p = p_nr p'"
    "p_priv p = p_priv p'" "p_rts_flags p = p_rts_flags p'" "p_max_priority p = p_max_priority p'"
    "p_quantum_size p = p_quantum_size p'" "p_memmap p = p_memmap p'" "p_user_time p = p_user_time p'"
    "p_sys_time p = p_sys_time p'" "p_caller_q p = p_caller_q p'" "p_q_link p = p_q_link p'"
    "p_messbuf p = p_messbuf p'" "p_getfrom p = p_getfrom p'" "p_sendto p = p_sendto p'"
    "p_pending p = p_pending p'" "p_name p = p_name p'"
  using assms by (cases p; cases p'; simp add: erase_proc_def)+

lemma sched_erase_proc: "sched_frame s s' \<Longrightarrow> erase_proc (proc_tab s' x) = erase_proc (proc_tab s x)"
  by (drule arg_cong [where f = "\<lambda>s. proc_tab s x"]) (simp add: sched_erase_def)

lemmas sched_frame_proc = erase_procD [OF sched_erase_proc]

lemma sched_frameD:
  assumes "sched_frame s s'"
  shows "priv_tab s' = priv_tab s" "proc_ptr s' = proc_ptr s" "prev_ptr s' = prev_ptr s"
    "lost_ticks s' = lost_ticks s" "realtime s' = realtime s" "next_timeout s' = next_timeout s"
    "clock_timers s' = clock_timers s" "irq_hooks s' = irq_hooks s" "irq_handlers s' = irq_handlers s"
    "irq_actids s' = irq_actids s" "irq_use s' = irq_use s" "kmess s' = kmess s"
    "shutdown_started s' = shutdown_started s" "machine_protected s' = machine_protected s"
    "memory s' = memory s" "stk_mess s' = stk_mess s" "io_in s' = io_in s" "io_out s' = io_out s"
    "gdt s' = gdt s" "kinfo_v s' = kinfo_v s" "krandom s' = krandom s"
  using assms by (cases s; cases s'; simp add: sched_erase_def)+

section \<open>Selection\<close>

lemma queue_rep_head: "queue_rep s q xs \<Longrightarrow> rdy_head s q = head_opt xs"
  by (auto simp: queue_rep_def dest: chain_head)

lemma bill_ptr_same: "\<exists>b. s\<lparr>next_ptr := x\<rparr> = s\<lparr>next_ptr := x, bill_ptr := b\<rparr>"
  by (rule exI [of _ "bill_ptr s"]) (cases s, simp)

lemma pick_proc_from_spec:
  assumes "rq_rep s Q" and "0 \<le> q"
  shows "\<exists>b. pick_proc_from q s = Inr (s\<lparr>next_ptr :=
      (case find (\<lambda>k. Q k \<noteq> []) [q..IDLE_Q] of
         None \<Rightarrow> next_ptr s | Some k \<Rightarrow> head_opt (Q k)), bill_ptr := b\<rparr>)"
  using assms
proof (induction q s rule: pick_proc_from.induct)
  case (1 q s)
  show ?case
  proof (cases "q < NR_SCHED_QUEUES")
    case False
    then show ?thesis by (subst pick_proc_from.simps) (auto intro: exI [of _ "bill_ptr s"])
  next
    case True
    then have upto: "[q..IDLE_Q] = q # [q + 1..IDLE_Q]"
      by (simp add: upto_rec1)
    from "1.prems" True have rep: "queue_rep s q (Q q)" by (simp add: rq_rep_def)
    show ?thesis
    proof (cases "Q q")
      case Nil
      with rep have "rdy_head s q = None" by (simp add: queue_rep_head)
      with "1.IH" True "1.prems" show ?thesis
        by (subst pick_proc_from.simps) (simp add: upto Nil)
    next
      case (Cons x xs)
      with rep have "rdy_head s q = Some x" and "p_priv (proc_tab s x) \<noteq> None"
        by (simp_all add: queue_rep_head) (simp add: queue_rep_def)
      then show ?thesis using True
        by (subst pick_proc_from.simps)
          (auto simp: upto Cons priv_of_def Let_def bill_ptr_same)
    qed
  qed
qed

lemma pick_proc_spec:
  assumes "rq_rep s Q"
  shows "\<exists>b. pick_proc s = Inr (s\<lparr>next_ptr :=
      (case first_ready Q of None \<Rightarrow> next_ptr s | Some x \<Rightarrow> Some x), bill_ptr := b\<rparr>)"
proof -
  from pick_proc_from_spec [OF assms, of 0] obtain b where
    b: "pick_proc s = Inr (s\<lparr>next_ptr :=
      (case find (\<lambda>k. Q k \<noteq> []) [0..IDLE_Q] of
         None \<Rightarrow> next_ptr s | Some k \<Rightarrow> head_opt (Q k)), bill_ptr := b\<rparr>)"
    by (auto simp: pick_proc_def)
  have "find (\<lambda>k. Q k \<noteq> []) [0..IDLE_Q] = Some k \<Longrightarrow> Q k \<noteq> []" for k
    by (auto simp: find_Some_iff)
  then have "(case find (\<lambda>k. Q k \<noteq> []) [0..IDLE_Q] of
         None \<Rightarrow> next_ptr s | Some k \<Rightarrow> head_opt (Q k)) =
    (case first_ready Q of None \<Rightarrow> next_ptr s | Some x \<Rightarrow> Some x)"
    unfolding first_ready_def
    by (cases "find (\<lambda>k. Q k \<noteq> []) [0..IDLE_Q]") (auto split: option.splits)
  with b show ?thesis by auto
qed

lemma pick_proc_ok:
  assumes "rq_rep s Q"
  shows "\<exists>s'. pick_proc s = Inr s' \<and> rq_rep s' Q \<and> next_ok s' Q \<and> sched_frame s s' \<and>
    proc_tab s' = proc_tab s"
proof -
  from pick_proc_spec [OF assms] obtain b where
    "pick_proc s = Inr (s\<lparr>next_ptr :=
      (case first_ready Q of None \<Rightarrow> next_ptr s | Some x \<Rightarrow> Some x), bill_ptr := b\<rparr>)" by blast
  then show ?thesis
    using assms by (simp add: rq_rep_def queue_rep_def next_ok_def sched_erase_def)
qed

text \<open>\<open>first_ready\<close> is a ready process of the best priority.\<close>

lemma first_ready_best:
  assumes "first_ready Q = Some x" and "y \<in> queued Q"
  shows "\<exists>q q'. is_q q \<and> x \<in> set (Q q) \<and> is_q q' \<and> y \<in> set (Q q') \<and> q \<le> q'"
proof -
  from assms(1) obtain q where f: "find (\<lambda>k. Q k \<noteq> []) [0..IDLE_Q] = Some q"
    and x: "head_opt (Q q) = Some x" by (auto simp: first_ready_def split: option.splits)
  from f obtain i where i: "i < length [0..IDLE_Q]" "q = [0..IDLE_Q] ! i"
    "\<forall>j<i. Q ([0..IDLE_Q] ! j) = []"
    by (auto simp: find_Some_iff)
  have nth: "j < 16 \<Longrightarrow> [0..IDLE_Q] ! j = int j" for j
    using nth_upto [of 0 j IDLE_Q] by simp
  from i(1) have "i < 16" by simp
  with i(2) nth have q: "q = int i" by simp
  from assms(2) obtain q' where q': "is_q q'" "y \<in> set (Q q')" by (auto simp: queued_def)
  have "q \<le> q'"
  proof (rule ccontr)
    assume "\<not> q \<le> q'"
    then have "nat q' < i" using q q'(1) by (simp add: nat_less_iff)
    with i(3) nth [of "nat q'"] \<open>i < 16\<close> q'(1) have "Q q' = []" by auto
    with q'(2) show False by simp
  qed
  moreover have "x \<in> set (Q q)" using x by (cases "Q q") auto
  ultimately show ?thesis using q \<open>i < 16\<close> q'
    by (intro exI [of _ q] exI [of _ q']) auto
qed

lemma first_ready_None: "first_ready Q = None \<longleftrightarrow> queued Q = {}"
proof
  assume "first_ready Q = None"
  then have "find (\<lambda>k. Q k \<noteq> []) [0..IDLE_Q] = None"
    by (auto simp: first_ready_def find_Some_iff split: option.splits)
  then have "\<forall>q. is_q q \<longrightarrow> Q q = []" by (auto simp: find_None_iff)
  then show "queued Q = {}" by (auto simp: queued_def)
next
  assume "queued Q = {}"
  then have "\<forall>q. is_q q \<longrightarrow> Q q = []"
    by (auto simp: queued_def) (metis list.set_sel(1))
  then have "find (\<lambda>k. Q k \<noteq> []) [0..IDLE_Q] = None"
    by (auto simp: find_None_iff)
  then show "first_ready Q = None" by (simp add: first_ready_def)
qed

section \<open>The policy keeps priorities in range\<close>

definition prio_ok :: "kproc \<Rightarrow> bool" where
  "prio_ok p \<longleftrightarrow> is_q (p_priority p) \<and> is_q (p_max_priority p)"

lemma sched_cases:
  assumes "sched rp s = (s', q, front)"
  shows "s' = (set_proc rp (proc_tab s' rp) s)\<lparr>sched_prev := sched_prev s'\<rparr>"
    and "q = prio s' rp" and "front \<longleftrightarrow> p_ticks_left (proc_tab s rp) > 0"
    and "erase_proc (proc_tab s' rp) = erase_proc (proc_tab s rp)" and "nextr s' = nextr s"
  using assms by (auto simp: sched_def Let_def erase_proc_def)

lemma sched_time_left:
  "p_ticks_left (proc_tab s rp) > 0 \<Longrightarrow> sched rp s = (s, prio s rp, True)"
  by (cases s) (simp add: sched_def Let_def)

lemma sched_prio_ok:
  assumes "sched rp s = (s', q, front)" and "prio_ok (proc_tab s rp)"
  shows "prio_ok (proc_tab s' rp)"
  using assms by (auto simp: sched_def Let_def prio_ok_def cwrap)

lemma sched_frame_sched:
  assumes "sched rp s = (s', q, front)"
  shows "sched_frame s s'"
proof -
  have "(\<lambda>x. erase_proc (((proc_tab s)(rp := proc_tab s' rp)) x)) = (\<lambda>x. erase_proc (proc_tab s x))"
    using sched_cases(4) [OF assms] by auto
  then show ?thesis
    by (subst sched_cases(1) [OF assms]) (simp add: sched_erase_def)
qed

text \<open>
  A user process never rises above its maximum priority nor falls into the queue of \<open>IDLE\<close>.
\<close>

lemma sched_user_bounds:
  assumes "sched rp s = (s', q, front)" and "p_nr (proc_tab s rp) \<ge> 0"
    and "0 \<le> p_max_priority (proc_tab s rp)" and "p_max_priority (proc_tab s rp) \<le> prio s rp"
    and "prio s rp \<le> MIN_USER_Q"
  shows "p_max_priority (proc_tab s rp) \<le> q \<and> q \<le> MIN_USER_Q"
  using assms by (auto simp: sched_def Let_def iskerneln_def cwrap)

section \<open>Insertion and removal\<close>

lemma queue_rep_links:
  "queue_rep s q xs \<longleftrightarrow> rq.links q s xs None \<and> rdy_tail s q = last_opt xs \<and>
     (\<forall>x \<in> set xs. isokprocn x \<and> prio s x = q \<and> p_priv (proc_tab s x) \<noteq> None)"
  by (simp add: queue_rep_def)

lemma rq_put_fields [simp]:
  "p_priority (proc_tab (rq_put q l p s) x) = prio s x" "p_priv (proc_tab (rq_put q l p s) x) = p_priv (proc_tab s x)"
  "rdy_tail (rq_put q l p s) = rdy_tail s" "next_ptr (rq_put q l p s) = next_ptr s"
  "proc_ptr (rq_put q l p s) = proc_ptr s"
  "p_ticks_left (proc_tab (rq_put q l p s) x) = p_ticks_left (proc_tab s x)"
  by (cases l; simp)+

lemma rq_put_frame [simp]: "sched_erase (rq_put q l p s) = sched_erase s"
  by (cases l) (auto simp: sched_erase_def erase_proc_def fun_eq_iff)

lemma set_tail_frame [simp]: "sched_erase (s\<lparr>rdy_tail := f\<rparr>) = sched_erase s"
  by (simp add: sched_erase_def)

text \<open>A change of the links of one queue leaves the other queues alone.\<close>

lemma queue_rep_other:
  assumes "queue_rep s k ys" and "rdy_head s' k = rdy_head s k" and "rdy_tail s' k = rdy_tail s k"
    and "\<And>x. x \<in> set ys \<Longrightarrow> nextr s' x = nextr s x \<and> prio s' x = prio s x \<and>
           p_priv (proc_tab s' x) = p_priv (proc_tab s x)"
  shows "queue_rep s' k ys"
  using assms lseg_cong [of ys "nextr s'" "nextr s" "rdy_head s k" None]
  by (auto simp: queue_rep_def)

lemma rq_rep_member:
  assumes "rq_rep s Q" and "is_q q" and "x \<in> set (Q q)"
  shows "prio s x = q" "isokprocn x" "p_priv (proc_tab s x) \<noteq> None"
  using assms by (simp_all add: rq_rep_def queue_rep_def)

lemma rq_rep_disjoint:
  assumes "rq_rep s Q" and "is_q q" and "is_q k" and "q \<noteq> k"
  shows "set (Q q) \<inter> set (Q k) = {}"
  using assms rq_rep_member(1) by blast

lemma rq_rep_update:
  assumes rep: "rq_rep s Q" and q: "is_q q" and new: "queue_rep s' q zs"
    and heads: "\<And>k. k \<noteq> q \<Longrightarrow> rdy_head s' k = rdy_head s k \<and> rdy_tail s' k = rdy_tail s k"
    and others: "\<And>x. x \<notin> set (Q q) \<Longrightarrow> x \<in> queued Q \<Longrightarrow> proc_tab s' x = proc_tab s x"
  shows "rq_rep s' (Q(q := zs))"
  unfolding rq_rep_def
proof (intro allI impI)
  fix k
  assume k: "is_q k"
  show "queue_rep s' k ((Q(q := zs)) k)"
  proof (cases "k = q")
    case True
    with new show ?thesis by simp
  next
    case False
    have "proc_tab s' x = proc_tab s x" if "x \<in> set (Q k)" for x
      using that others [of x] rq_rep_disjoint [OF rep k q False] k by (auto simp: queued_def)
    with rep k heads [OF False] False show ?thesis
      by (auto simp: rq_rep_def intro: queue_rep_other)
  qed
qed

lemma rq_put_proc_other: "l \<noteq> Next x \<Longrightarrow> proc_tab (rq_put q l p s) x = proc_tab s x"
  by (cases l) auto

lemma rq_put_head_other: "k \<noteq> q \<Longrightarrow> rdy_head (rq_put q l p s) k = rdy_head s k"
  by (cases l) auto

definition put_ready :: "bool \<Rightarrow> int \<Rightarrow> int list \<Rightarrow> int list" where
  "put_ready front x xs = (if front then x # xs else xs @ [x])"

lemma set_put_ready [simp]: "set (put_ready front x xs) = insert x (set xs)"
  by (auto simp: put_ready_def)

text \<open>The three assignments of \<open>enqueue\<close> link the process in at the front or at the back.\<close>

definition rq_link :: "int \<Rightarrow> int \<Rightarrow> bool \<Rightarrow> kstate \<Rightarrow> kstate res" where
  "rq_link rp q front s =
     (if rdy_head s q = None
      then Inr (rq_put q (Next rp) None (set_tail q (Some rp) (rq_put q Head (Some rp) s)))
      else if front
      then Inr (rq_put q Head (Some rp) (rq_put q (Next rp) (rdy_head s q) s))
      else bindr (deref (rdy_tail s q)) (\<lambda>t.
             Inr (rq_put q (Next rp) None
               (set_tail q (Some rp) (rq_put q (Next t) (Some rp) s)))))"

lemma enqueue_rq_link:
  "enqueue rp s0 = (case sched rp s0 of (s, q, front) \<Rightarrow>
     if is_q q then bindr (rq_link rp q front s) pick_proc else Inl (BadIndex q))"
  by (auto simp: enqueue_def rq_link_def bindr_assoc split: prod.splits)

lemma rq_link_spec:
  assumes rep: "queue_rep s q xs" and fresh: "rp \<notin> set xs"
    and mem: "isokprocn rp" "prio s rp = q" "p_priv (proc_tab s rp) \<noteq> None"
  shows "\<exists>s'. rq_link rp q front s = Inr s' \<and> queue_rep s' q (put_ready front rp xs) \<and>
    sched_frame s s' \<and> prio s' = prio s \<and>
    (\<forall>k. k \<noteq> q \<longrightarrow> rdy_head s' k = rdy_head s k \<and> rdy_tail s' k = rdy_tail s k) \<and>
    (\<forall>x. x \<noteq> rp \<longrightarrow> x \<notin> set xs \<longrightarrow> proc_tab s' x = proc_tab s x) \<and>
    (\<forall>x. p_ticks_left (proc_tab s' x) = p_ticks_left (proc_tab s x))"
proof (cases xs rule: rev_cases)
  case Nil
  with rep have "rdy_head s q = None" by (simp add: queue_rep_head)
  let ?s = "rq_put q (Next rp) None (set_tail q (Some rp) (rq_put q Head (Some rp) s))"
  have "sched_frame s ?s" by (simp only: rq_put_frame set_tail_frame)
  moreover have "rq_link rp q front s = Inr ?s"
    using \<open>rdy_head s q = None\<close> by (simp add: rq_link_def)
  moreover have "queue_rep ?s q [rp]" using mem by (simp add: queue_rep_def)
  ultimately show ?thesis using Nil
    by (intro exI [of _ ?s]) (auto simp: put_ready_def)
next
  case (snoc ys t)
  from rep have links: "rq.links q s xs None" by (simp add: queue_rep_links)
  have head: "rdy_head s q \<noteq> None" using rep snoc by (cases ys) (auto simp: queue_rep_def)
  have tail: "rdy_tail s q = Some t" using rep snoc by (simp add: queue_rep_def)
  have last: "last_opt (rp # xs) = last_opt xs" using snoc by (simp add: last_opt_def)
  show ?thesis
  proof (cases front)
    case True
    let ?s = "rq_put q Head (Some rp) (rq_put q (Next rp) (rdy_head s q) s)"
    have l: "rq.links q ?s (rp # xs) None"
      using rq.link_in [of q s "[]" xs rp] links fresh by (simp only: loc_after_simps append.simps rq_get.simps simp_thms)
    have fields: "rdy_tail ?s = rdy_tail s" "prio ?s = prio s" "\<And>x. p_priv (proc_tab ?s x) = p_priv (proc_tab s x)"
      by auto
    have "queue_rep ?s q (rp # xs)"
      using l rep mem unfolding queue_rep_links fields last by simp
    moreover have "rq_link rp q front s = Inr ?s" using True head by (auto simp: rq_link_def)
    ultimately show ?thesis using True
      by (auto simp: put_ready_def sched_erase_def erase_proc_def fun_eq_iff)
  next
    case False
    let ?t = "rq_put q (Next rp) None (rq_put q (Next t) (Some rp) s)"
    let ?s = "rq_put q (Next rp) None (set_tail q (Some rp) (rq_put q (Next t) (Some rp) s))"
    have "rq.links q ?t (xs @ [rp]) None"
      using rq.append_last [OF links fresh] by (simp only: snoc loc_after_simps)
    moreover have eq: "rq_get q l ?s = rq_get q l ?t" for l by (cases l) auto
    ultimately have l: "rq.links q ?s (xs @ [rp]) None" unfolding eq by blast
    have fields: "rdy_tail ?s q = Some rp" "prio ?s = prio s" "\<And>x. p_priv (proc_tab ?s x) = p_priv (proc_tab s x)"
      by auto
    have "queue_rep ?s q (xs @ [rp])"
      using l rep mem unfolding queue_rep_links fields by auto
    moreover have "rq_link rp q front s = Inr ?s" using False head tail by (auto simp: rq_link_def)
    ultimately show ?thesis using False snoc
      by (auto simp: put_ready_def sched_erase_def erase_proc_def fun_eq_iff)
  qed
qed

text \<open>
  \<open>enqueue\<close>: from a state whose queues are the lists \<open>Q\<close>, a process that is in none of
  them is added to the list of its (possibly adjusted) priority, in front when it has time
  left and at the back otherwise, and the next process to run is selected.
\<close>

lemma enqueue_spec:
  assumes rep: "rq_rep s Q" and fresh: "rp \<notin> queued Q" and ok: "isokprocn rp"
    and priv: "p_priv (proc_tab s rp) \<noteq> None" and prio: "prio_ok (proc_tab s rp)"
  shows "\<exists>s'. enqueue rp s = Inr s' \<and> is_q (prio s' rp) \<and>
    rq_rep s' (Q(prio s' rp := put_ready (p_ticks_left (proc_tab s rp) > 0) rp (Q (prio s' rp)))) \<and>
    next_ok s' (Q(prio s' rp := put_ready (p_ticks_left (proc_tab s rp) > 0) rp (Q (prio s' rp)))) \<and>
    sched_frame s s' \<and> (\<forall>x. x \<noteq> rp \<longrightarrow> prio s' x = prio s x) \<and> prio_ok (proc_tab s' rp)"
proof -
  obtain s1 q front where sc: "sched rp s = (s1, q, front)" by (cases "sched rp s") auto
  note sched_cases = sched_cases [OF sc]
  have prio1: "prio_ok (proc_tab s1 rp)" using sc prio by (rule sched_prio_ok)
  then have q: "is_q q" using sched_cases(2) by (simp add: prio_ok_def)
  have fr1: "sched_frame s s1" using sc by (rule sched_frame_sched)
  have same: "x \<noteq> rp \<Longrightarrow> proc_tab s1 x = proc_tab s x" for x
    by (subst sched_cases(1)) simp
  have heads: "rdy_head s1 = rdy_head s" "rdy_tail s1 = rdy_tail s"
    by (subst sched_cases(1), simp)+
  have rep1: "rq_rep s1 Q"
    unfolding rq_rep_def
  proof (intro allI impI)
    fix k
    assume "is_q k"
    with rep fresh have "queue_rep s k (Q k)" "rp \<notin> set (Q k)" by (auto simp: rq_rep_def queued_def)
    then have "proc_tab s1 x = proc_tab s x" if "x \<in> set (Q k)" for x
      using same [of x] that by metis
    with \<open>queue_rep s k (Q k)\<close> heads show "queue_rep s1 k (Q k)"
      by (auto intro: queue_rep_other)
  qed
  from rep1 q have repq: "queue_rep s1 q (Q q)" by (simp add: rq_rep_def)
  have freshq: "rp \<notin> set (Q q)" using fresh q by (auto simp: queued_def)
  have priv1: "p_priv (proc_tab s1 rp) \<noteq> None" using priv sched_frame_proc(5) [OF fr1] by simp
  from rq_link_spec [OF repq freshq ok sched_cases(2) [symmetric] priv1, of front] obtain s2 where
    s2: "rq_link rp q front s1 = Inr s2" "queue_rep s2 q (put_ready front rp (Q q))"
    "sched_frame s1 s2" "Sched.prio s2 = Sched.prio s1"
    "\<And>k. k \<noteq> q \<Longrightarrow> rdy_head s2 k = rdy_head s1 k \<and> rdy_tail s2 k = rdy_tail s1 k"
    "\<And>x. x \<noteq> rp \<Longrightarrow> x \<notin> set (Q q) \<Longrightarrow> proc_tab s2 x = proc_tab s1 x" by blast
  have rep2: "rq_rep s2 (Q(q := put_ready front rp (Q q)))"
    using rep1 q s2(2)
  proof (rule rq_rep_update)
    fix k
    assume "k \<noteq> q"
    then show "rdy_head s2 k = rdy_head s1 k \<and> rdy_tail s2 k = rdy_tail s1 k" by (rule s2(5))
  next
    fix x
    assume "x \<notin> set (Q q)" and "x \<in> queued Q"
    then show "proc_tab s2 x = proc_tab s1 x" using fresh by (intro s2(6)) auto
  qed
  from pick_proc_ok [OF rep2] obtain s3 where
    s3: "pick_proc s2 = Inr s3" "rq_rep s3 (Q(q := put_ready front rp (Q q)))"
    "next_ok s3 (Q(q := put_ready front rp (Q q)))" "sched_frame s2 s3" "proc_tab s3 = proc_tab s2"
    by blast
  have "enqueue rp s = Inr s3"
    by (simp add: enqueue_rq_link sc q s2(1) s3(1))
  moreover have prio3: "prio s3 x = prio s1 x" for x
    using s3(5) fun_cong [OF s2(4)] by simp
  moreover have "prio s3 x = prio s x" if "x \<noteq> rp" for x
    using same [OF that] prio3 by simp
  moreover have "prio_ok (proc_tab s3 rp)"
    using prio1 prio3 sched_frame_proc(7) [OF s2(3)] s3(5) by (simp add: prio_ok_def)
  ultimately show ?thesis
    using s3 s2(3) fr1 q sched_cases(2,3) by simp
qed

text \<open>Removing a process that is not at the front of everything keeps the selection.\<close>

lemma find_cong_upto:
  "(\<And>k. 0 \<le> k \<Longrightarrow> k \<le> IDLE_Q \<Longrightarrow> P k = P' k) \<Longrightarrow> find P [0..IDLE_Q] = find P' [0..IDLE_Q]"
  by (rule find_cong) auto

lemma first_ready_remove:
  assumes "first_ready (Q(q := remove1 rp (Q q))) = Some x" and "is_q q"
    and "\<And>y. first_ready Q = Some y \<Longrightarrow> y \<noteq> rp"
  shows "first_ready Q = Some x"
proof -
  let ?Q = "Q(q := remove1 rp (Q q))"
  have "queued ?Q \<subseteq> queued Q"
    by (auto simp: queued_def dest: set_remove1_subset [THEN subsetD] split: if_splits)
  moreover have "queued ?Q \<noteq> {}" using assms(1) first_ready_None [of ?Q] by auto
  ultimately have "first_ready Q \<noteq> None" using first_ready_None [of Q] by auto
  then obtain k where k: "find (\<lambda>k. Q k \<noteq> []) [0..IDLE_Q] = Some k"
    by (auto simp: first_ready_def split: option.splits)
  then have ne: "Q k \<noteq> []" and kq: "is_q k" by (auto simp: find_Some_iff)
  then obtain y ys where Qk: "Q k = y # ys" by (cases "Q k") auto
  with k have "first_ready Q = Some y" by (simp add: first_ready_def)
  with assms(3) have y: "y \<noteq> rp" .
  have hd: "?Q k = y # (if k = q then remove1 rp ys else ys)" using Qk y by auto
  from k obtain i where i: "i < length [0..IDLE_Q]" "k = [0..IDLE_Q] ! i" "Q k \<noteq> []"
    "\<forall>j<i. \<not> Q ([0..IDLE_Q] ! j) \<noteq> []" by (auto simp: find_Some_iff)
  have "find (\<lambda>k. ?Q k \<noteq> []) [0..IDLE_Q] = Some k"
    unfolding find_Some_iff using i hd by (intro exI [of _ i]) auto
  then have "first_ready ?Q = Some y" using hd by (simp add: first_ready_def)
  with assms(1) \<open>first_ready Q = Some y\<close> show ?thesis by simp
qed

text \<open>The search loop and the unlinking of \<open>dequeue\<close> remove the process from its list.\<close>

definition rq_unlink :: "int \<Rightarrow> int \<Rightarrow> int loc \<Rightarrow> kstate \<Rightarrow> kstate" where
  "rq_unlink rp q xpp s =
     (let s1 = rq_put q xpp (p_nextready (proc_tab s rp)) s
      in if rdy_tail s1 q = Some rp then set_tail q (loc_owner xpp) s1 else s1)"

lemma rq_unlink_spec:
  assumes rep: "queue_rep s q (us @ rp # vs)"
  shows "queue_rep (rq_unlink rp q (loc_after us) s) q (us @ vs)"
    and "sched_frame s (rq_unlink rp q (loc_after us) s)"
    and "k \<noteq> q \<Longrightarrow> rdy_head (rq_unlink rp q (loc_after us) s) k = rdy_head s k \<and>
           rdy_tail (rq_unlink rp q (loc_after us) s) k = rdy_tail s k"
    and "x \<notin> set us \<Longrightarrow> proc_tab (rq_unlink rp q (loc_after us) s) x = proc_tab s x"
    and "p_priority (proc_tab (rq_unlink rp q (loc_after us) s) x) = prio s x"
    and "p_ticks_left (proc_tab (rq_unlink rp q (loc_after us) s) x) = p_ticks_left (proc_tab s x)"
    and "next_ptr (rq_unlink rp q (loc_after us) s) = next_ptr s"
proof -
  let ?s1 = "rq_put q (loc_after us) (p_nextready (proc_tab s rp)) s"
  let ?s = "rq_unlink rp q (loc_after us) s"
  from rep have links: "rq.links q s (us @ rp # vs) None" by (simp only: queue_rep_links)
  then have dist: "distinct (us @ rp # vs)" by (rule chain_distinct)
  have unl: "rq.links q ?s1 (us @ vs) None"
    using rq.unlink [OF links] by (simp only: rq_get.simps)
  have s: "?s = (if rdy_tail s q = Some rp then set_tail q (last_opt us) ?s1 else ?s1)"
    by (simp add: rq_unlink_def Let_def loc_owner_after)
  have l: "rq.links q ?s (us @ vs) None" using unl unfolding s
    by (auto simp del: lseg_append)
  have tail: "rdy_tail s q = last_opt (us @ rp # vs)" using rep by (simp only: queue_rep_links)
  have tail': "rdy_tail ?s q = last_opt (us @ vs)"
  proof (cases vs rule: rev_cases)
    case Nil
    then show ?thesis using tail by (simp add: s last_opt_def)
  next
    case (snoc ws w)
    then show ?thesis using tail dist by (auto simp: s last_opt_def)
  qed
  show "queue_rep ?s q (us @ vs)"
    using l tail' rep unfolding queue_rep_links by (auto simp: s simp del: lseg_append)
  show "sched_frame s ?s" by (simp add: s)
  show "k \<noteq> q \<Longrightarrow> rdy_head ?s k = rdy_head s k \<and> rdy_tail ?s k = rdy_tail s k"
    by (simp add: s rq_put_head_other)
  have "x \<notin> set us \<Longrightarrow> loc_after us \<noteq> Next x" using loc_after_eq_Next [of us x] by blast
  then show "x \<notin> set us \<Longrightarrow> proc_tab ?s x = proc_tab s x" by (simp add: s rq_put_proc_other)
  show "p_priority (proc_tab ?s x) = prio s x"
    by (simp add: s)
  show "p_ticks_left (proc_tab ?s x) = p_ticks_left (proc_tab s x)"
    by (simp add: s)
  show "next_ptr ?s = next_ptr s" by (simp add: s)
qed

lemma rq_search:
  assumes "queue_rep s q xs"
  shows "walk (\<lambda>l. rq_get q l s) (\<lambda>x. x = rp) Head = Some (loc_after (takeWhile (\<lambda>y. y \<noteq> rp) xs))"
    and "rp \<in> set xs \<longleftrightarrow> rq_get q (loc_after (takeWhile (\<lambda>y. y \<noteq> rp) xs)) s = Some rp"
proof -
  from assms have links: "rq.links q s xs None" by (simp only: queue_rep_links)
  then show "walk (\<lambda>l. rq_get q l s) (\<lambda>x. x = rp) Head = Some (loc_after (takeWhile (\<lambda>y. y \<noteq> rp) xs))"
    by (rule rq.walk_whole)
  show "rp \<in> set xs \<longleftrightarrow> rq_get q (loc_after (takeWhile (\<lambda>y. y \<noteq> rp) xs)) s = Some rp"
  proof (cases "rp \<in> set xs")
    case True
    then obtain vs where "xs = takeWhile (\<lambda>y. y \<noteq> rp) xs @ rp # vs" using split_at_first by fast
    with links have "rq.links q s (takeWhile (\<lambda>y. y \<noteq> rp) xs @ rp # vs) None" by argo
    then have "rq.links q s (takeWhile (\<lambda>y. y \<noteq> rp) xs) (Some rp)" unfolding lseg_append by auto
    with True show ?thesis by (simp add: rq.get_loc_after)
  next
    case False
    with links have "rq.links q s (takeWhile (\<lambda>y. y \<noteq> rp) xs) None" by (simp add: takeWhile_neq_notin)
    with False show ?thesis by (simp add: rq.get_loc_after)
  qed
qed

definition guard_intact :: "kstate \<Rightarrow> int \<Rightarrow> bool" where
  "guard_intact s rp \<longleftrightarrow> (iskerneln (p_nr (proc_tab s rp)) \<longrightarrow>
     (\<exists>i. p_priv (proc_tab s rp) = Some i \<and> s_guard_ok (priv_tab s i)))"

lemma dequeue_search:
  assumes "guard_intact s rp" and "is_q (prio s rp)" and "queue_rep s (prio s rp) xs"
  shows "dequeue rp s =
    (if rp \<in> set xs
     then let s2 = rq_unlink rp (prio s rp) (loc_after (takeWhile (\<lambda>y. y \<noteq> rp) xs)) s
          in if proc_ptr s2 = Some rp \<or> next_ptr s2 = Some rp then pick_proc s2 else Inr s2
     else Inr s)"
proof -
  have "bindr (if iskerneln (p_nr (proc_tab s rp))
             then bindr (priv_of s rp) (\<lambda>i.
                    if \<not> s_guard_ok (priv_tab s i)
                    then Inl (Panic ''stack overrun by task'') else Inr ())
             else Inr ()) f = f ()" for f :: "unit \<Rightarrow> kstate res"
    using assms(1) by (auto simp: guard_intact_def priv_of_def)
  then show ?thesis
    using assms(2) rq_search [OF assms(3), of rp]
    by (simp add: dequeue_def Let_def rq_unlink_def)
qed

text \<open>
  \<open>dequeue\<close> removes the process from the list of its priority, whether or not it is there,
  and selects anew when it took away the process that runs or was to run next.
\<close>

lemma dequeue_spec:
  assumes rep: "rq_rep s Q" and guard: "guard_intact s rp" and prio: "is_q (prio s rp)"
    and sel: "next_ok s Q"
  shows "\<exists>s'. dequeue rp s = Inr s' \<and>
    rq_rep s' (Q(prio s rp := remove1 rp (Q (prio s rp)))) \<and>
    next_ok s' (Q(prio s rp := remove1 rp (Q (prio s rp)))) \<and>
    sched_frame s s' \<and> Sched.prio s' = Sched.prio s"
proof (cases "rp \<in> set (Q (prio s rp))")
  case False
  with rep prio have "dequeue rp s = Inr s"
    using dequeue_search [OF guard prio, of "Q (Sched.prio s rp)"] by (simp add: rq_rep_def)
  with False rep sel show ?thesis by (simp add: remove1_idem)
next
  case True
  let ?q = "prio s rp"
  let ?us = "takeWhile (\<lambda>y. y \<noteq> rp) (Q ?q)"
  from True obtain vs where Qq: "Q ?q = ?us @ rp # vs" and rem: "remove1 rp (Q ?q) = ?us @ vs"
    using split_at_first by fast
  define s2 where "s2 = rq_unlink rp ?q (loc_after ?us) s"
  have repq: "queue_rep s ?q (Q ?q)" using rep prio by (simp add: rq_rep_def)
  then have "queue_rep s ?q (?us @ rp # vs)" using Qq by simp
  note u = rq_unlink_spec [OF this, folded s2_def]
  have rep2: "rq_rep s2 (Q(?q := remove1 rp (Q ?q)))"
    unfolding rem using rep prio u(1)
  proof (rule rq_rep_update)
    show "k \<noteq> ?q \<Longrightarrow> rdy_head s2 k = rdy_head s k \<and> rdy_tail s2 k = rdy_tail s k" for k by (rule u(3))
    show "x \<notin> set (Q ?q) \<Longrightarrow> proc_tab s2 x = proc_tab s x" for x
      using u(4) [of x] set_takeWhileD by metis
  qed
  have prio2: "Sched.prio s2 = Sched.prio s" using u(5) by auto
  have dq: "dequeue rp s = (if proc_ptr s2 = Some rp \<or> next_ptr s2 = Some rp then pick_proc s2 else Inr s2)"
    using dequeue_search [OF guard prio repq] True by (simp add: s2_def Let_def)
  show ?thesis
  proof (cases "proc_ptr s2 = Some rp \<or> next_ptr s2 = Some rp")
    case True
    then show ?thesis using pick_proc_ok [OF rep2] dq u(2) prio2 by auto
  next
    case False
    have "next_ok s2 (Q(?q := remove1 rp (Q ?q)))"
      unfolding next_ok_def
    proof (intro allI impI)
      fix x
      assume "first_ready (Q(?q := remove1 rp (Q ?q))) = Some x"
      moreover have "y \<noteq> rp" if "first_ready Q = Some y" for y
        using that sel False u(7) by (auto simp: next_ok_def)
      ultimately have "first_ready Q = Some x" using prio by (intro first_ready_remove [of Q ?q rp])
      then show "next_ptr s2 = Some x" using sel u(7) by (simp add: next_ok_def)
    qed
    then show ?thesis using dq False rep2 u(2) prio2 by auto
  qed
qed

section \<open>The interface of the ready queues\<close>

text \<open>
  What message passing and the kernel calls rely on: the queues hold a set of processes;
  \<open>enqueue\<close> adds one to it, \<open>dequeue\<close> takes one away, both leave the flags and whatever else
  the client observes alone, and the set does not depend on the flags themselves. The client
  keeps the set equal to the runnable processes, the ones without a run-time flag, by the two
  idioms of the sources: clear a flag and enqueue when none is left; dequeue when runnable and
  set a flag.
\<close>

locale ready_queues =
  fixes holds :: "'s \<Rightarrow> int set \<Rightarrow> bool"
    and can :: "'s \<Rightarrow> int \<Rightarrow> bool"
    and enq :: "int \<Rightarrow> 's \<Rightarrow> 's res"
    and deq :: "int \<Rightarrow> 's \<Rightarrow> 's res"
    and fl :: "'s \<Rightarrow> int \<Rightarrow> u8"
    and put_fl :: "int \<Rightarrow> u8 \<Rightarrow> 's \<Rightarrow> 's"
    and same :: "'s \<Rightarrow> 's \<Rightarrow> bool"
  assumes enq_holds: "holds s R \<Longrightarrow> x \<notin> R \<Longrightarrow> can s x \<Longrightarrow>
      \<exists>s'. enq x s = Inr s' \<and> holds s' (insert x R) \<and> same s s' \<and> (\<forall>y. can s y \<longrightarrow> can s' y)"
    and deq_holds: "holds s R \<Longrightarrow> can s x \<Longrightarrow>
      \<exists>s'. deq x s = Inr s' \<and> holds s' (R - {x}) \<and> same s s' \<and> (\<forall>y. can s y \<longrightarrow> can s' y)"
    and same_fl: "same s s' \<Longrightarrow> fl s' = fl s"
    and holds_put_fl: "holds (put_fl x f s) R = holds s R"
    and can_put_fl: "can (put_fl x f s) y = can s y"
    and fl_put_fl: "fl (put_fl x f s) = (fl s)(x := f)"
begin

definition runnable_held :: "int set \<Rightarrow> 's \<Rightarrow> bool" where
  "runnable_held A s \<longleftrightarrow> holds s {x \<in> A. fl s x = 0}"

lemma held_put_fl:
  "runnable_held A (put_fl x f s) = holds s {y \<in> A. ((fl s)(x := f)) y = 0}"
  unfolding runnable_held_def holds_put_fl fl_put_fl ..

lemma unblock:
  assumes "runnable_held A s" and "x \<in> A" and "can s x" and "fl s x \<noteq> 0"
  shows "\<exists>s'. (if f = 0 then enq x (put_fl x f s) else Inr (put_fl x f s)) = Inr s' \<and>
    runnable_held A s' \<and> fl s' = (fl s)(x := f) \<and> (\<forall>y. can s y \<longrightarrow> can s' y) \<and>
    (s' = put_fl x f s \<or> same (put_fl x f s) s')"
proof (cases "f = 0")
  case True
  let ?R = "{x \<in> A. fl s x = 0}"
  have "holds (put_fl x f s) ?R" "x \<notin> ?R" "can (put_fl x f s) x"
    using assms by (simp_all add: runnable_held_def holds_put_fl can_put_fl)
  from enq_holds [OF this] obtain s' where s': "enq x (put_fl x f s) = Inr s'"
    "holds s' (insert x ?R)" "same (put_fl x f s) s'" "\<forall>y. can (put_fl x f s) y \<longrightarrow> can s' y" by blast
  have fl: "fl s' = (fl s)(x := f)" using same_fl [OF s'(3)] by (simp add: fl_put_fl)
  have "insert x ?R = {y \<in> A. fl s' y = 0}" using fl True assms(2) by auto
  with s' fl True show ?thesis by (simp add: runnable_held_def can_put_fl)
next
  case False
  have "{y \<in> A. ((fl s)(x := f)) y = 0} = {y \<in> A. fl s y = 0}" using False assms(4) by auto
  with assms(1) False show ?thesis
    by (simp add: runnable_held_def holds_put_fl fl_put_fl can_put_fl)
qed

lemma block:
  assumes "runnable_held A s" and "can s x" and "f \<noteq> 0"
  shows "\<exists>s1. (if fl s x = 0 then deq x s else Inr s) = Inr s1 \<and>
    runnable_held A (put_fl x f s1) \<and> fl s1 = fl s \<and> (\<forall>y. can s y \<longrightarrow> can s1 y) \<and>
    (s1 = s \<or> same s s1)"
proof (cases "fl s x = 0")
  case True
  let ?R = "{x \<in> A. fl s x = 0}"
  from deq_holds [of s ?R x] assms obtain s1 where s1: "deq x s = Inr s1" "holds s1 (?R - {x})"
    "same s s1" "\<forall>y. can s y \<longrightarrow> can s1 y" by (auto simp: runnable_held_def)
  have "?R - {x} = {y \<in> A. ((fl s)(x := f)) y = 0}" using assms(3) by auto
  with s1(2) have "runnable_held A (put_fl x f s1)"
    unfolding held_put_fl same_fl [OF s1(3)] by simp
  with s1 True same_fl [OF s1(3)] show ?thesis by simp
next
  case False
  have "{y \<in> A. ((fl s)(x := f)) y = 0} = {y \<in> A. fl s y = 0}" using False assms(3) by auto
  with assms(1) have "runnable_held A (put_fl x f s)"
    unfolding held_put_fl by (simp add: runnable_held_def)
  with False show ?thesis by simp
qed

end

definition ready_set :: "kstate \<Rightarrow> int set \<Rightarrow> bool" where
  "ready_set s R \<longleftrightarrow> (\<exists>Q. rq_rep s Q \<and> next_ok s Q \<and> queued Q = R)"

definition can_sched :: "kstate \<Rightarrow> int \<Rightarrow> bool" where
  "can_sched s x \<longleftrightarrow> isokprocn x \<and> prio_ok (proc_tab s x) \<and>
     p_priv (proc_tab s x) \<noteq> None \<and> guard_intact s x"

text \<open>The part of a slot that matters to the queues.\<close>

lemma ready_set_cong:
  assumes "ready_set s R" and "rdy_head s' = rdy_head s" and "rdy_tail s' = rdy_tail s"
    and "next_ptr s' = next_ptr s"
    and "\<And>x. x \<in> R \<Longrightarrow> nextr s' x = nextr s x \<and> prio s' x = prio s x \<and>
           p_priv (proc_tab s' x) = p_priv (proc_tab s x)"
  shows "ready_set s' R"
proof -
  from assms(1) obtain Q where Q: "rq_rep s Q" "next_ok s Q" "queued Q = R"
    by (auto simp: ready_set_def)
  have "queue_rep s' q (Q q)" if "is_q q" for q
  proof (rule queue_rep_other)
    show "queue_rep s q (Q q)" using Q(1) that by (simp add: rq_rep_def)
    show "rdy_head s' q = rdy_head s q" "rdy_tail s' q = rdy_tail s q" using assms(2,3) by simp_all
    show "\<And>x. x \<in> set (Q q) \<Longrightarrow> nextr s' x = nextr s x \<and> prio s' x = prio s x \<and>
           p_priv (proc_tab s' x) = p_priv (proc_tab s x)"
      using assms(5) Q(3) that by (auto simp: queued_def)
  qed
  then have "rq_rep s' Q" by (simp add: rq_rep_def)
  moreover have "next_ok s' Q" using Q(2) assms(4) by (simp add: next_ok_def)
  ultimately show ?thesis using Q(3) by (auto simp: ready_set_def)
qed

lemma ready_set_update:
  "rdy_head s' = rdy_head s \<Longrightarrow> rdy_tail s' = rdy_tail s \<Longrightarrow> next_ptr s' = next_ptr s \<Longrightarrow>
   (\<And>x. nextr s' x = nextr s x \<and> prio s' x = prio s x \<and>
        p_priv (proc_tab s' x) = p_priv (proc_tab s x)) \<Longrightarrow> ready_set s' R = ready_set s R"
  by (auto intro: ready_set_cong)

lemma can_sched_frame:
  assumes "sched_frame s s'" and "can_sched s y" and "prio s' y = prio s y \<or> prio_ok (proc_tab s' y)"
  shows "can_sched s' y"
  using assms sched_frame_proc [OF assms(1), of y] sched_frameD(1) [OF assms(1)]
  by (auto simp: can_sched_def prio_ok_def guard_intact_def)

lemma enqueue_ready:
  assumes "ready_set s R" and "x \<notin> R" and "can_sched s x"
  shows "\<exists>s'. enqueue x s = Inr s' \<and> ready_set s' (insert x R) \<and> sched_frame s s' \<and>
    (\<forall>y. can_sched s y \<longrightarrow> can_sched s' y)"
proof -
  from assms(1) obtain Q where Q: "rq_rep s Q" "next_ok s Q" "queued Q = R"
    by (auto simp: ready_set_def)
  with assms(2,3) have "x \<notin> queued Q" "isokprocn x" "p_priv (proc_tab s x) \<noteq> None"
    "prio_ok (proc_tab s x)" by (auto simp: can_sched_def)
  from enqueue_spec [OF Q(1) this] obtain s' q front where
    s': "enqueue x s = Inr s'" "is_q q" "rq_rep s' (Q(q := put_ready front x (Q q)))"
    "next_ok s' (Q(q := put_ready front x (Q q)))" "sched_frame s s'"
    "\<And>y. y \<noteq> x \<Longrightarrow> prio s' y = prio s y" "prio_ok (proc_tab s' x)"
    by blast
  have "queued (Q(q := put_ready front x (Q q))) = insert x R"
    using s'(2) Q(3) by (auto simp: queued_def split: if_splits)
  then have "ready_set s' (insert x R)" using s' by (auto simp: ready_set_def)
  moreover have "can_sched s' y" if "can_sched s y" for y
    using s'(5) that by (rule can_sched_frame) (use s'(6,7) in \<open>cases "y = x"; simp\<close>)
  ultimately show ?thesis using s' by blast
qed

lemma queued_remove:
  assumes "distinct (Q (pr x))" and "\<And>q y. is_q q \<Longrightarrow> y \<in> set (Q q) \<Longrightarrow> pr y = q"
  shows "queued (Q(pr x := remove1 x (Q (pr x)))) = queued Q - {x}"
proof (rule set_eqI)
  fix y
  have "is_q q \<and> y \<in> set ((Q(pr x := remove1 x (Q (pr x)))) q) \<longleftrightarrow>
      is_q q \<and> y \<in> set (Q q) \<and> y \<noteq> x" for q
    using assms(1) assms(2) [of q y] by (cases "q = pr x") auto
  then show "y \<in> queued (Q(pr x := remove1 x (Q (pr x)))) \<longleftrightarrow> y \<in> queued Q - {x}"
    unfolding queued_def by auto
qed

lemma dequeue_ready:
  assumes "ready_set s R" and "can_sched s x"
  shows "\<exists>s'. dequeue x s = Inr s' \<and> ready_set s' (R - {x}) \<and> sched_frame s s' \<and>
    (\<forall>y. can_sched s y \<longrightarrow> can_sched s' y)"
proof -
  from assms(1) obtain Q where Q: "rq_rep s Q" "next_ok s Q" "queued Q = R"
    by (auto simp: ready_set_def)
  let ?q = "prio s x"
  have g: "guard_intact s x" "is_q ?q" using assms(2) by (auto simp: can_sched_def prio_ok_def)
  from dequeue_spec [OF Q(1) g Q(2)] obtain s' where
    s': "dequeue x s = Inr s'" "rq_rep s' (Q(?q := remove1 x (Q ?q)))"
    "next_ok s' (Q(?q := remove1 x (Q ?q)))" "sched_frame s s'" "prio s' = prio s"
    by blast
  have "distinct (Q ?q)"
    using Q(1) g(2) by (auto simp: rq_rep_def queue_rep_def dest: chain_distinct)
  then have "queued (Q(?q := remove1 x (Q ?q))) = R - {x}"
    using queued_remove [of Q "Sched.prio s" x] Q(3) rq_rep_member(1) [OF Q(1)] by blast
  then have "ready_set s' (R - {x})" using s' by (auto simp: ready_set_def)
  moreover have "can_sched s' y" if "can_sched s y" for y
    using s'(4) that by (rule can_sched_frame) (use fun_cong [OF s'(5)] in simp)
  ultimately show ?thesis using s' by blast
qed

interpretation ready: ready_queues ready_set can_sched enqueue dequeue flags_of set_flags
  "\<lambda>s s'. sched_frame s s'"
proof unfold_locales
  fix s s' :: kstate and R x y f
  show "ready_set s R \<Longrightarrow> x \<notin> R \<Longrightarrow> can_sched s x \<Longrightarrow>
      \<exists>s'. enqueue x s = Inr s' \<and> ready_set s' (insert x R) \<and> sched_frame s s' \<and>
        (\<forall>y. can_sched s y \<longrightarrow> can_sched s' y)" by (rule enqueue_ready)
  show "ready_set s R \<Longrightarrow> can_sched s x \<Longrightarrow>
      \<exists>s'. dequeue x s = Inr s' \<and> ready_set s' (R - {x}) \<and> sched_frame s s' \<and>
        (\<forall>y. can_sched s y \<longrightarrow> can_sched s' y)" by (rule dequeue_ready)
  show "sched_frame s s' \<Longrightarrow> flags_of s' = flags_of s" by (rule ext) (rule sched_frame_proc(6))
  show "ready_set (set_flags x f s) R = ready_set s R" by (rule ready_set_update) auto
  show "can_sched (set_flags x f s) y = can_sched s y"
    by (auto simp: can_sched_def prio_ok_def guard_intact_def)
  show "flags_of (set_flags x f s) = (flags_of s)(x := f)" by auto
qed

section \<open>The sample state\<close>

definition sample_queues :: "int \<Rightarrow> int list" where
  "sample_queues = (\<lambda>q. if q = 3 then [1] else [])"

lemma queued_sample: "queued sample_queues = {1}"
  by (auto simp: queued_def sample_queues_def intro: exI [of _ 3])

lemma first_ready_sample: "first_ready sample_queues = Some 1"
  by (simp add: first_ready_def sample_queues_def upto_rec1)

lemma rq_rep_sample: "rq_rep sample sample_queues" "next_ok sample sample_queues"
  by (simp_all add: rq_rep_def queue_rep_def next_ok_def first_ready_sample)
    (auto simp: sample_queues_def sample_def sample_proc_def isokprocn_def last_opt_def)

lemma can_sched_sample: "- 4 \<le> x \<Longrightarrow> x \<le> 4 \<Longrightarrow> can_sched sample x"
  by (simp add: can_sched_def sample_def sample_proc_def sample_priv_def prio_ok_def guard_intact_def
      isokprocn_def)

section \<open>Properties\<close>

text \<open>
  C3: \<open>enqueue\<close> adds a process that is in no ready queue to the queue of its (possibly
  adjusted) priority: in front when it has time left in its quantum, at the back otherwise. No
  other queue changes, and the process selected to run next is the best one.
\<close>

theorem enqueue_refines_lists:
  assumes "rq_rep s Q" and "rp \<notin> queued Q" and "isokprocn rp"
    and "p_priv (proc_tab s rp) \<noteq> None" and "prio_ok (proc_tab s rp)"
  shows "\<exists>s' q. enqueue rp s = Inr s' \<and> q = prio s' rp \<and> 0 \<le> q \<and> q < NR_SCHED_QUEUES \<and>
    rq_rep s' (Q(q := (if p_ticks_left (proc_tab s rp) > 0 then rp # Q q else Q q @ [rp]))) \<and>
    next_ok s' (Q(q := (if p_ticks_left (proc_tab s rp) > 0 then rp # Q q else Q q @ [rp]))) \<and>
    sched_frame s s'"
  using enqueue_spec [OF assms] by (auto simp: put_ready_def)

theorem enqueue_refines_lists_witness:
  "rq_rep sample sample_queues \<and>
   (\<exists>s'. enqueue 2 sample = Inr s' \<and> rq_rep s' (sample_queues(prio s' 2 := 2 # sample_queues (prio s' 2))))"
proof -
  have "(2::int) \<notin> queued sample_queues" "isokprocn 2" by (simp_all add: queued_sample isokprocn_def)
  moreover have "p_priv (proc_tab sample 2) \<noteq> None" "prio_ok (proc_tab sample 2)"
    "p_ticks_left (proc_tab sample 2) > 0"
    by (simp_all add: sample_def sample_proc_def prio_ok_def)
  ultimately show ?thesis
    using enqueue_refines_lists [OF rq_rep_sample(1), of 2] rq_rep_sample(1) by auto
qed

text \<open>
  C4: \<open>dequeue\<close> ends and removes the process from the queue of its priority, keeping the
  order of the others and the tail pointer; when the removed process was running or selected,
  the best remaining process is selected.
\<close>

theorem dequeue_refines_lists:
  assumes "rq_rep s Q" and "next_ok s Q" and "guard_intact s rp" and "prio_ok (proc_tab s rp)"
  shows "\<exists>s'. dequeue rp s = Inr s' \<and>
    rq_rep s' (Q(prio s rp := remove1 rp (Q (prio s rp)))) \<and>
    next_ok s' (Q(prio s rp := remove1 rp (Q (prio s rp)))) \<and> sched_frame s s'"
  using dequeue_spec [OF assms(1,3) _ assms(2)] assms(4) by (auto simp: prio_ok_def)

theorem dequeue_refines_lists_witness:
  "\<exists>s'. dequeue 1 sample = Inr s' \<and> rq_rep s' (\<lambda>_. [])"
proof -
  have "guard_intact sample 1" "prio_ok (proc_tab sample 1)" "prio sample 1 = 3"
    by (simp_all add: guard_intact_def sample_def sample_proc_def iskerneln_def prio_ok_def)
  moreover have "sample_queues(3 := remove1 1 (sample_queues 3)) = (\<lambda>_. [])"
    by (auto simp: sample_queues_def)
  ultimately show ?thesis using dequeue_refines_lists [OF rq_rep_sample, of 1] by auto
qed

text \<open>
  \<open>pick_proc\<close> selects a ready process whose priority no other ready process beats.
\<close>

theorem pick_proc_best:
  assumes "rq_rep s Q" and "y \<in> queued Q"
  shows "\<exists>s' x. pick_proc s = Inr s' \<and> next_ptr s' = Some x \<and> x \<in> queued Q \<and> prio s x \<le> prio s y"
proof -
  from assms(2) have "first_ready Q \<noteq> None" using first_ready_None [of Q] by auto
  then obtain x where x: "first_ready Q = Some x" by auto
  from first_ready_best [OF this assms(2)] obtain q q' where
    q: "is_q q" "x \<in> set (Q q)" "is_q q'" "y \<in> set (Q q')" "q \<le> q'" by blast
  have "prio s x = q" "prio s y = q'"
    using rq_rep_member(1) [OF assms(1)] q by blast+
  moreover have "x \<in> queued Q" using q by (auto simp: queued_def)
  ultimately show ?thesis using pick_proc_ok [OF assms(1)] x q(5) by (auto simp: next_ok_def)
qed

theorem pick_proc_best_witness:
  "\<exists>s' x. pick_proc sample = Inr s' \<and> next_ptr s' = Some x \<and> x \<in> queued sample_queues \<and>
     prio sample x \<le> prio sample 1"
  using pick_proc_best [OF rq_rep_sample(1), of 1] by (simp add: queued_sample)

text \<open>
  C10: the policy of \<open>sched\<close> never lifts a user process above its maximum priority nor lowers
  it into the queue of the idle task, and refills an exhausted quantum.
\<close>

theorem sched_bounds:
  assumes "sched rp s = (s', q, front)" and "p_nr (proc_tab s rp) \<ge> 0"
    and "0 \<le> p_max_priority (proc_tab s rp)" and "p_max_priority (proc_tab s rp) \<le> prio s rp"
    and "prio s rp \<le> MIN_USER_Q"
  shows "p_max_priority (proc_tab s rp) \<le> q \<and> q \<le> MIN_USER_Q \<and>
    (p_ticks_left (proc_tab s rp) \<le> 0 \<longrightarrow>
       p_ticks_left (proc_tab s' rp) = p_quantum_size (proc_tab s rp))"
  using sched_user_bounds [OF assms] assms(1) by (auto simp: sched_def Let_def split: if_splits)

theorem sched_bounds_witness:
  "sched 1 sample = (sample, 3, True) \<and> 3 \<le> (3::int) \<and> (3::int) \<le> MIN_USER_Q"
proof -
  have s: "sched 1 sample = (sample, 3, True)"
    using sched_time_left [of sample 1] by (simp add: sample_def sample_proc_def)
  from sched_bounds [OF this] show ?thesis using s by (simp add: sample_def sample_proc_def)
qed

end
