(* ===== verification/Ipc.thy ===== *)
theory Ipc
  imports Sched
begin

unbundle bit_operations_syntax

text \<open>
  Message passing (\<open>kernel/proc.c\<close>): \<open>mini_send\<close>, \<open>mini_receive\<close>, \<open>mini_notify\<close> and the
  entry points for tasks. The senders waiting for a process are a chain through \<open>p_q_link\<close>
  from its \<open>p_caller_q\<close>. A call gives its result code and the new state, or the fault that
  stops it. The invariant \<open>kwf\<close> of this theory is kept by every operation of the kernel
  that is modelled: the ready queues hold exactly the runnable processes, the caller queues
  hold exactly the blocked senders, and nobody waits in a circle.
\<close>

section \<open>Messages\<close>

text \<open>\<open>CopyMess\<close>: the offsets are relative to the data segments of both processes.\<close>

definition CopyMess :: "int \<Rightarrow> int \<Rightarrow> u32 \<Rightarrow> int \<Rightarrow> u32 \<Rightarrow> kstate \<Rightarrow> kstate" where
  "CopyMess n sp sm dp dm s =
     s\<lparr>memory := cp_mess n (mem_phys (p_memmap (proc_tab s sp) D_seg)) sm
                          (mem_phys (p_memmap (proc_tab s dp) D_seg)) dm (memory s)\<rparr>"

text \<open>
  A \<open>message\<close> that is a variable of the kernel: its nine words. The pseudo-source
  \<open>HARDWARE\<close> stands for the kernel's own address space, so a copy from it writes these words.
\<close>

definition message_words :: "message \<Rightarrow> u32 list" where
  "message_words m = [word_of_int (m_source m), word_of_int (m_type m),
     m_w m 0, m_w m 1, m_w m 2, m_w m 3, m_w m 4, m_w m 5, m_w m 6]"

definition CopyKMess :: "int \<Rightarrow> message \<Rightarrow> int \<Rightarrow> u32 \<Rightarrow> kstate \<Rightarrow> kstate" where
  "CopyKMess n m dp dm s =
     s\<lparr>memory := write_bytes (push_bit 10 (mem_phys (p_memmap (proc_tab s dp) D_seg)) + dm)
        (concat (map bytes32 (message_words (m\<lparr>m_source := n\<rparr>)))) (memory s)\<rparr>"

text \<open>\<open>get_uptime\<close> (\<open>clock.c\<close>) reads the clock with interrupts disabled.\<close>

definition get_uptime :: "kstate \<Rightarrow> int" where
  "get_uptime s = realtime s"

definition NOTIFY_FROM :: "int \<Rightarrow> int" where
  "NOTIFY_FROM n = 4096 OR (n + NR_TASKS)"

text \<open>\<open>BuildMess\<close> assembles a notification: \<open>m2_l1\<close> is word 3 and \<open>m2_l2\<close> word 4.\<close>

definition BuildMess :: "message \<Rightarrow> int \<Rightarrow> nat \<Rightarrow> kstate \<Rightarrow> message \<times> kstate" where
  "BuildMess m src dst_priv s =
     (let m1 = mset_w 4 (word_of_int (get_uptime s))
                 (m\<lparr>m_source := src, m_type := NOTIFY_FROM src\<rparr>);
          dp = priv_tab s dst_priv
      in if src = HARDWARE
         then (mset_w 3 (s_int_pending dp) m1, set_priv dst_priv (dp\<lparr>s_int_pending := 0\<rparr>) s)
         else if src = SYSTEM
         then (mset_w 3 (s_sig_pending dp) m1, set_priv dst_priv (dp\<lparr>s_sig_pending := 0\<rparr>) s)
         else (m1, s))"

section \<open>Caller queues\<close>

fun cq_get :: "int \<Rightarrow> int loc \<Rightarrow> kstate \<Rightarrow> int option" where
  "cq_get d Head s = p_caller_q (proc_tab s d)"
| "cq_get d (Next x) s = p_q_link (proc_tab s x)"

fun cq_put :: "int \<Rightarrow> int loc \<Rightarrow> int option \<Rightarrow> kstate \<Rightarrow> kstate" where
  "cq_put d Head p s = set_proc d ((proc_tab s d)\<lparr>p_caller_q := p\<rparr>) s"
| "cq_put d (Next x) p s = set_proc x ((proc_tab s x)\<lparr>p_q_link := p\<rparr>) s"

interpretation cq: linked_list "cq_get d" "cq_put d" for d
proof
  fix l l' p s
  show "cq_get d l (cq_put d l' p s) = (if l = l' then p else cq_get d l s)"
    by (cases l; cases l') auto
qed

section \<open>Operations\<close>

text \<open>
  The two idioms by which the kernel changes run-time flags:
  \<^verbatim>\<open>if ((rp->p_rts_flags &= ~m) == 0) enqueue(rp)\<close> and
  \<^verbatim>\<open>if (rp->p_rts_flags == 0) dequeue(rp); rp->p_rts_flags |= m\<close>.
\<close>

definition rts_unset :: "u8 \<Rightarrow> int \<Rightarrow> kstate \<Rightarrow> kstate res" where
  "rts_unset m rp s =
     (let f = flags_of s rp AND NOT m
      in if f = 0 then enqueue rp (set_flags rp f s) else Inr (set_flags rp f s))"

definition rts_set :: "u8 \<Rightarrow> int \<Rightarrow> kstate \<Rightarrow> kstate res" where
  "rts_set m rp s =
     bindr (if flags_of s rp = 0 then dequeue rp s else Inr s) (\<lambda>s1.
     Inr (set_flags rp (flags_of s1 rp OR m) s1))"

abbreviation (input) NON_BLOCKING :: u32 where "NON_BLOCKING \<equiv> 16"

text \<open>The deadlock check: does the chain of destinations from \<open>xp\<close> lead to the caller?\<close>

partial_function (option) send_locked :: "kstate \<Rightarrow> int \<Rightarrow> int \<Rightarrow> bool res option" where
  "send_locked s caller xp =
     (if flags_of s xp AND SENDING \<noteq> 0
      then case proc_addr (p_sendto (proc_tab s xp)) of
             Inl e \<Rightarrow> Some (Inl e)
           | Inr y \<Rightarrow> if y = caller then Some (Inr True) else send_locked s caller y
      else Some (Inr False))"

definition waits_for :: "kstate \<Rightarrow> int \<Rightarrow> int \<Rightarrow> bool" where
  "waits_for s d n \<longleftrightarrow> flags_of s d AND (RECEIVING OR SENDING) = RECEIVING \<and>
     (p_getfrom (proc_tab s d) = ANY \<or> p_getfrom (proc_tab s d) = n)"

definition mini_send :: "int \<Rightarrow> int \<Rightarrow> u32 \<Rightarrow> u32 \<Rightarrow> kstate \<Rightarrow> (int \<times> kstate) res" where
  "mini_send caller dst m_ptr flags s =
     bindr (proc_addr dst) (\<lambda>dst_ptr.
     bindr (ran (send_locked s caller dst_ptr)) (\<lambda>locked.
     if locked then Inr (ELOCKED, s)
     else if waits_for s dst_ptr (p_nr (proc_tab s caller))
     then (let s1 = CopyMess (p_nr (proc_tab s caller)) caller m_ptr dst_ptr
                      (p_messbuf (proc_tab s dst_ptr)) s
           in bindr (rts_unset RECEIVING dst_ptr s1) (\<lambda>s2. Inr (OK, s2)))
     else if flags AND NON_BLOCKING = 0
     then (let s1 = set_proc caller ((proc_tab s caller)\<lparr>p_messbuf := m_ptr\<rparr>) s
           in bindr (rts_set SENDING caller s1) (\<lambda>s3.
              let s4 = set_proc caller ((proc_tab s3 caller)\<lparr>p_sendto := dst\<rparr>) s3
              in case walk (\<lambda>l. cq_get dst_ptr l s4) (\<lambda>_. False) Head of
                   None \<Rightarrow> Inl Hang
                 | Some xpp \<Rightarrow>
                     Inr (OK, cq_put dst_ptr (Next caller) None
                                (cq_put dst_ptr xpp (Some caller) s4))))
     else Inr (ENOTREADY, s)))"

text \<open>\<open>for (i=0; ! (*chunk & (1<<i)); ++i) {}\<close> on a chunk that is not zero.\<close>

function low_bit :: "u16 \<Rightarrow> nat \<Rightarrow> nat" where
  "low_bit chunk i =
     (if i \<ge> 16 \<or> chunk AND push_bit i 1 \<noteq> 0 then i else low_bit chunk (i + 1))"
  by pat_completeness auto
termination
  by (relation "measure (\<lambda>(chunk, i). 16 - i)") auto

declare low_bit.simps [simp del]

text \<open>
  The search for a pending notification: one candidate per chunk of the map, the lowest bit.
  The result is the id of the source found.
\<close>

fun notif_search :: "(nat \<Rightarrow> int) \<Rightarrow> int \<Rightarrow> sys_map \<Rightarrow> nat list \<Rightarrow> nat option" where
  "notif_search id_to_nr src mp [] = None"
| "notif_search id_to_nr src mp (c # cs) =
     (if mp c = 0 then notif_search id_to_nr src mp cs
      else let src_id = c * 16 + low_bit (mp c) 0
           in if src_id \<ge> NR_SYS_PROCS then None
              else if src \<noteq> ANY \<and> src \<noteq> id_to_nr src_id then notif_search id_to_nr src mp cs
              else Some src_id)"

definition mini_receive :: "int \<Rightarrow> int \<Rightarrow> u32 \<Rightarrow> u32 \<Rightarrow> kstate \<Rightarrow> (int \<times> kstate) res" where
  "mini_receive caller src m_ptr flags s =
     (let id_to_nr = (\<lambda>i. s_proc_nr (priv_tab s i));
          block = (if flags AND NON_BLOCKING = 0
                   then let s1 = set_proc caller ((proc_tab s caller)
                                   \<lparr>p_getfrom := src, p_messbuf := m_ptr\<rparr>) s
                        in bindr (rts_set RECEIVING caller s1) (\<lambda>s2. Inr (OK, s2))
                   else Inr (ENOTREADY, s));
          callers = (case walk (\<lambda>l. cq_get caller l s) (\<lambda>x. src = ANY \<or> src = p_nr (proc_tab s x)) Head of
              None \<Rightarrow> Inl Hang
            | Some xpp \<Rightarrow> (case cq_get caller xpp s of
                None \<Rightarrow> block
              | Some x \<Rightarrow>
                  (let s1 = CopyMess (p_nr (proc_tab s x)) x (p_messbuf (proc_tab s x)) caller m_ptr s
                   in bindr (rts_unset SENDING x s1) (\<lambda>s3.
                      Inr (OK, cq_put caller xpp (p_q_link (proc_tab s3 x)) s3)))))
      in if flags_of s caller AND SENDING \<noteq> 0 then block
         else bindr (priv_of s caller) (\<lambda>cp.
              if s_flags (priv_tab s cp) AND SENDREC_BUSY \<noteq> 0 then callers
              else case notif_search id_to_nr src (s_notify_pending (priv_tab s cp)) [0, 1] of
                     None \<Rightarrow> callers
                   | Some src_id \<Rightarrow>
                       (let s1 = set_priv cp ((priv_tab s cp)\<lparr>s_notify_pending :=
                                   unset_sys_bit (s_notify_pending (priv_tab s cp)) src_id\<rparr>) s;
                            (m, s2) = BuildMess (stk_mess s1) (id_to_nr src_id) cp s1
                        in Inr (OK, CopyKMess (id_to_nr src_id) m caller m_ptr s2))))"

definition mini_notify :: "int \<Rightarrow> int \<Rightarrow> kstate \<Rightarrow> (int \<times> kstate) res" where
  "mini_notify caller dst s =
     bindr (proc_addr dst) (\<lambda>dst_ptr.
     bindr (priv_of s dst_ptr) (\<lambda>dp.
     let n = p_nr (proc_tab s caller) in
     if waits_for s dst_ptr n \<and> s_flags (priv_tab s dp) AND SENDREC_BUSY = 0
     then (let (m, s1) = BuildMess (stk_mess s) n dp s;
               s2 = CopyKMess n m dst_ptr (p_messbuf (proc_tab s1 dst_ptr)) s1
           in bindr (rts_unset RECEIVING dst_ptr s2) (\<lambda>s3. Inr (OK, s3)))
     else bindr (priv_of s caller) (\<lambda>cp.
          Inr (OK, set_priv dp ((priv_tab s dp)\<lparr>s_notify_pending :=
                     set_sys_bit (s_notify_pending (priv_tab s dp)) (s_id (priv_tab s cp))\<rparr>) s))))"

text \<open>Gateways: both branches of \<open>lock_notify\<close> differ only in the interrupt mask.\<close>

definition lock_notify :: "int \<Rightarrow> int \<Rightarrow> kstate \<Rightarrow> (int \<times> kstate) res" where
  "lock_notify src dst s = bindr (proc_addr src) (\<lambda>src_ptr. mini_notify src_ptr dst s)"

definition lock_send :: "int \<Rightarrow> u32 \<Rightarrow> kstate \<Rightarrow> (int \<times> kstate) res" where
  "lock_send dst m_ptr s =
     bindr (deref (proc_ptr s)) (\<lambda>caller. mini_send caller dst m_ptr NON_BLOCKING s)"

section \<open>The invariant\<close>

abbreviation sending :: "kstate \<Rightarrow> int \<Rightarrow> bool" where
  "sending s x \<equiv> flags_of s x AND SENDING \<noteq> 0"

abbreviation receiving :: "kstate \<Rightarrow> int \<Rightarrow> bool" where
  "receiving s x \<equiv> flags_of s x AND RECEIVING \<noteq> 0"

abbreviation alive :: "kstate \<Rightarrow> int \<Rightarrow> bool" where
  "alive s x \<equiv> flags_of s x AND SLOT_FREE = 0"

abbreviation sendto :: "kstate \<Rightarrow> int \<Rightarrow> int" where
  "sendto s x \<equiv> p_sendto (proc_tab s x)"

abbreviation qlink :: "kstate \<Rightarrow> int \<Rightarrow> int option" where
  "qlink s \<equiv> (\<lambda>x. p_q_link (proc_tab s x))"

definition procs :: "int set" where
  "procs = {x. isokprocn x}"

text \<open>
  The pseudo process \<open>HARDWARE\<close> has no stack, hence no stack guard, and is never scheduled; it
  keeps the flag \<open>NO_MAP\<close> that \<open>main\<close> gave it.
\<close>

definition slot_ok :: "kstate \<Rightarrow> int \<Rightarrow> bool" where
  "slot_ok s x \<longleftrightarrow> p_nr (proc_tab s x) = x \<and>
     (alive s x \<longrightarrow> p_priv (proc_tab s x) \<noteq> None \<and> (x \<noteq> HARDWARE \<longrightarrow> can_sched s x))"

definition sched_wf :: "kstate \<Rightarrow> bool" where
  "sched_wf s \<longleftrightarrow> ready_set s {x \<in> procs. flags_of s x = 0} \<and>
     flags_of s HARDWARE AND NO_MAP \<noteq> 0 \<and> (\<forall>x \<in> procs. slot_ok s x)"

definition callers_rep :: "kstate \<Rightarrow> (int \<Rightarrow> int list) \<Rightarrow> bool" where
  "callers_rep s C \<longleftrightarrow> (\<forall>d \<in> procs. chain (qlink s) (p_caller_q (proc_tab s d)) (C d) \<and>
     set (C d) = {x \<in> procs. sending s x \<and> sendto s x = d})"

definition send_edges :: "kstate \<Rightarrow> (int \<times> int) set" where
  "send_edges s = {(x, y). x \<in> procs \<and> sending s x \<and> y = sendto s x}"

definition ipc_wf :: "kstate \<Rightarrow> bool" where
  "ipc_wf s \<longleftrightarrow> (\<exists>C. callers_rep s C) \<and> acyclic (send_edges s) \<and>
     (\<forall>x \<in> procs. (sending s x \<longrightarrow> sendto s x \<in> procs) \<and>
        (sending s x \<or> receiving s x \<longrightarrow> alive s x))"

definition kwf :: "kstate \<Rightarrow> bool" where
  "kwf s \<longleftrightarrow> sched_wf s \<and> ipc_wf s"

lemma finite_procs: "finite procs"
  by (rule finite_subset [of _ "{- 4..<64}"]) (auto simp: procs_def isokprocn_bounds)

text \<open>What the two halves of the invariant look at.\<close>

definition sched_view :: "kproc \<Rightarrow> int option \<times> int \<times> int \<times> nat option \<times> int \<times> u8" where
  "sched_view p = (p_nextready p, p_priority p, p_max_priority p, p_priv p, p_nr p, p_rts_flags p)"

definition ipc_view :: "kproc \<Rightarrow> int option \<times> int option \<times> int \<times> u8" where
  "ipc_view p = (p_caller_q p, p_q_link p, p_sendto p, p_rts_flags p)"

lemma sched_wf_cong:
  assumes "sched_wf s" and "rdy_head s' = rdy_head s" and "rdy_tail s' = rdy_tail s"
    and "next_ptr s' = next_ptr s"
    and view: "\<And>x. sched_view (proc_tab s' x) = sched_view (proc_tab s x)"
    and guard: "\<And>i. s_guard_ok (priv_tab s' i) = s_guard_ok (priv_tab s i)"
  shows "sched_wf s'"
proof -
  have v: "nextr s' x = nextr s x" "prio s' x = prio s x" "flags_of s' x = flags_of s x"
    "p_max_priority (proc_tab s' x) = p_max_priority (proc_tab s x)"
    "p_priv (proc_tab s' x) = p_priv (proc_tab s x)" "p_nr (proc_tab s' x) = p_nr (proc_tab s x)" for x
    using view [of x] by (simp_all add: sched_view_def)
  have "ready_set s' R = ready_set s R" for R
    using assms(2-4) by (rule ready_set_update) (simp add: v)
  moreover have "can_sched s' x = can_sched s x" for x
    by (simp add: can_sched_def prio_ok_def guard_intact_def v guard)
  ultimately show ?thesis using assms(1) by (simp add: sched_wf_def slot_ok_def v)
qed

lemma ipc_wf_flags:
  assumes wf: "ipc_wf s"
    and links: "\<And>x. p_caller_q (proc_tab s' x) = p_caller_q (proc_tab s x)"
      "\<And>x. qlink s' x = qlink s x" "\<And>x. sendto s' x = sendto s x"
    and send: "\<And>x. flags_of s' x AND SENDING = flags_of s x AND SENDING"
    and live: "\<And>x. x \<in> procs \<Longrightarrow> sending s x \<or> receiving s' x \<Longrightarrow> alive s' x"
  shows "ipc_wf s'"
proof -
  from wf obtain C where "callers_rep s C" by (auto simp: ipc_wf_def)
  then have "callers_rep s' C" by (simp add: callers_rep_def links send)
  moreover have "send_edges s' = send_edges s" by (simp add: send_edges_def links send)
  ultimately show ?thesis using wf live by (auto simp: ipc_wf_def links send)
qed

lemma ipc_wf_set_flags:
  assumes wf: "ipc_wf s" and f: "f AND SENDING = flags_of s x AND SENDING" "f AND SLOT_FREE = 0"
  shows "ipc_wf (set_flags x f s)"
proof (rule ipc_wf_flags [OF wf])
  fix y
  show "flags_of (set_flags x f s) y AND SENDING = flags_of s y AND SENDING" using f by simp
  have "sending s z \<or> receiving s z \<longrightarrow> alive s z" if "z \<in> procs" for z
    using wf that by (simp add: ipc_wf_def)
  then show "y \<in> procs \<Longrightarrow> sending s y \<or> receiving (set_flags x f s) y \<Longrightarrow> alive (set_flags x f s) y"
    using f by (cases "y = x") simp_all
qed simp_all

lemma ipc_wf_cong:
  assumes "ipc_wf s" and view: "\<And>x. ipc_view (proc_tab s' x) = ipc_view (proc_tab s x)"
  shows "ipc_wf s'"
proof (rule ipc_wf_flags [OF assms(1)])
  fix x
  show "p_caller_q (proc_tab s' x) = p_caller_q (proc_tab s x)" "qlink s' x = qlink s x"
    "sendto s' x = sendto s x" "flags_of s' x AND SENDING = flags_of s x AND SENDING"
    using view [of x] by (simp_all add: ipc_view_def)
  show "x \<in> procs \<Longrightarrow> sending s x \<or> receiving s' x \<Longrightarrow> alive s' x"
    using view [of x] assms(1) by (simp add: ipc_view_def ipc_wf_def)
qed

lemma kwf_cong:
  assumes "kwf s" and "rdy_head s' = rdy_head s" and "rdy_tail s' = rdy_tail s"
    and "next_ptr s' = next_ptr s"
    and "\<And>x. sched_view (proc_tab s' x) = sched_view (proc_tab s x) \<and>
             ipc_view (proc_tab s' x) = ipc_view (proc_tab s x)"
    and "\<And>i. s_guard_ok (priv_tab s' i) = s_guard_ok (priv_tab s i)"
  shows "kwf s'"
  using assms sched_wf_cong [of s s'] ipc_wf_cong [of s s'] by (simp add: kwf_def)

lemma ipc_view_frame: "sched_frame s s' \<Longrightarrow> ipc_view (proc_tab s' x) = ipc_view (proc_tab s x)"
  by (simp only: ipc_view_def sched_frame_proc [of s s'])

lemma ipc_wf_frame: "sched_frame s s' \<Longrightarrow> ipc_wf s \<Longrightarrow> ipc_wf s'"
  by (erule ipc_wf_cong) (rule ipc_view_frame)

lemma sched_frame_set_flags: "sched_frame s s1 \<Longrightarrow> sched_frame (set_flags x f s) (set_flags x f s1)"
proof -
  assume fr: "sched_frame s s1"
  have "erase_proc ((proc_tab s1 x)\<lparr>p_rts_flags := f\<rparr>) = erase_proc ((proc_tab s x)\<lparr>p_rts_flags := f\<rparr>)"
    using sched_erase_proc [OF fr, of x] by (cases "proc_tab s1 x"; cases "proc_tab s x") (simp add: erase_proc_def)
  then have "(\<lambda>y. erase_proc (proc_tab (set_flags x f s1) y)) = (\<lambda>y. erase_proc (proc_tab (set_flags x f s) y))"
    using sched_erase_proc [OF fr] by auto
  moreover have "s1\<lparr>proc_tab := pt, rdy_head := a, rdy_tail := b, next_ptr := c, bill_ptr := d, sched_prev := e\<rparr> =
    s\<lparr>proc_tab := pt, rdy_head := a, rdy_tail := b, next_ptr := c, bill_ptr := d, sched_prev := e\<rparr>" for pt a b c d e
    using fr by (cases s; cases s1) (simp add: sched_erase_def)
  ultimately show ?thesis by (simp add: sched_erase_def)
qed

text \<open>The two idioms of the sources keep the scheduler's half.\<close>

lemma sched_wf_step:
  assumes wf: "sched_wf s" and held: "ready.runnable_held procs s'"
    and fl: "flags_of s' = (flags_of s)(x := f)" and live: "alive s x"
    and hw: "x = HARDWARE \<Longrightarrow> f AND NO_MAP \<noteq> 0"
    and can: "\<And>y. can_sched s y \<Longrightarrow> can_sched s' y"
    and pr: "\<And>y. p_nr (proc_tab s' y) = p_nr (proc_tab s y) \<and> p_priv (proc_tab s' y) = p_priv (proc_tab s y)"
  shows "sched_wf s'"
proof -
  have fl': "flags_of s' y = (if y = x then f else flags_of s y)" for y using fun_cong [OF fl, of y] by simp
  have "slot_ok s' y" if "y \<in> procs" for y
    using wf that live can pr fl' [of y] by (cases "y = x") (simp_all add: sched_wf_def slot_ok_def)
  moreover have "flags_of s' HARDWARE AND NO_MAP \<noteq> 0"
    using wf hw fl' [of HARDWARE] by (cases "x = HARDWARE") (simp_all add: sched_wf_def)
  ultimately show ?thesis using held by (simp add: sched_wf_def ready.runnable_held_def)
qed

lemma sched_wf_blocked:
  assumes wf: "sched_wf s" and x: "alive s x" "flags_of s x \<noteq> 0" and f: "f \<noteq> 0"
    and hw: "x = HARDWARE \<Longrightarrow> f AND NO_MAP \<noteq> 0"
  shows "sched_wf (set_flags x f s)"
proof (rule sched_wf_step [OF wf _ _ x(1) hw])
  have "{y \<in> procs. flags_of (set_flags x f s) y = 0} = {y \<in> procs. flags_of s y = 0}" using x f by auto
  then show "ready.runnable_held procs (set_flags x f s)"
    using wf by (simp only: ready.runnable_held_def ready.holds_put_fl sched_wf_def)
  show "flags_of (set_flags x f s) = (flags_of s)(x := f)" by auto
  show "\<And>y. can_sched s y \<Longrightarrow> can_sched (set_flags x f s) y" by (simp only: ready.can_put_fl)
  show "\<And>y. p_nr (proc_tab (set_flags x f s) y) = p_nr (proc_tab s y) \<and>
       p_priv (proc_tab (set_flags x f s) y) = p_priv (proc_tab s y)" by simp
qed

lemma sched_can:
  assumes "sched_wf s" and "x \<in> procs" and "alive s x" and "x \<noteq> HARDWARE"
  shows "can_sched s x"
  using assms by (simp add: sched_wf_def slot_ok_def)

lemma hardware_flags:
  assumes "sched_wf s"
  shows "flags_of s HARDWARE \<noteq> 0" "flags_of s HARDWARE AND NO_MAP \<noteq> 0"
  using assms by (auto simp: sched_wf_def)

lemma rts_unset_sched:
  fixes m :: u8
  assumes wf: "sched_wf s" and x: "x \<in> procs" "alive s x" "flags_of s x \<noteq> 0"
    and hw: "x = HARDWARE \<Longrightarrow> m AND NO_MAP = 0"
  defines "f \<equiv> flags_of s x AND NOT m"
  shows "\<exists>s'. rts_unset m x s = Inr s' \<and> sched_wf s' \<and> sched_frame (set_flags x f s) s'"
proof (cases "x = HARDWARE")
  case True
  have nm: "f AND NO_MAP \<noteq> 0"
    using flag_clear_other [OF hw [OF True], of "flags_of s x"] hardware_flags(2) [OF wf] True by (simp add: f_def)
  then have "f \<noteq> 0" by auto
  then have "sched_wf (set_flags x f s)" using wf x nm by (intro sched_wf_blocked)
  with \<open>f \<noteq> 0\<close> show ?thesis by (simp add: rts_unset_def f_def Let_def)
next
  case False
  have "ready.runnable_held procs s" using wf by (simp add: sched_wf_def ready.runnable_held_def)
  moreover have "can_sched s x" using wf x(1,2) False by (rule sched_can)
  ultimately obtain s' where
    s': "(if f = 0 then enqueue x (set_flags x f s) else Inr (set_flags x f s)) = Inr s'"
    "ready.runnable_held procs s'" "flags_of s' = (flags_of s)(x := f)"
    "\<And>y. can_sched s y \<Longrightarrow> can_sched s' y" "sched_frame (set_flags x f s) s'"
    using ready.unblock [of procs s x f] x by auto
  have "p_nr (proc_tab s' y) = p_nr (proc_tab s y) \<and> p_priv (proc_tab s' y) = p_priv (proc_tab s y)" for y
    using sched_frame_proc(4,5) [OF s'(5)] by simp
  with wf s'(2,3) x(2) _ s'(4) have "sched_wf s'" by (rule sched_wf_step) (use False in simp)
  with s'(1,5) show ?thesis unfolding rts_unset_def f_def Let_def by blast
qed

lemma rts_set_sched:
  assumes wf: "sched_wf s" and x: "x \<in> procs" "alive s x" and m: "m \<noteq> 0"
  defines "f \<equiv> flags_of s x OR m"
  shows "\<exists>s'. rts_set m x s = Inr s' \<and> sched_wf s' \<and> sched_frame (set_flags x f s) s'"
proof (cases "x = HARDWARE")
  case True
  note hf = hardware_flags [OF wf]
  have nm: "f AND NO_MAP \<noteq> 0"
    unfolding f_def using hf(2) True by (intro flag_set_mono) simp
  then have "f \<noteq> 0" by auto
  then have "sched_wf (set_flags x f s)" using wf x hf(1) nm True by (intro sched_wf_blocked) auto
  with hf(1) True show ?thesis by (simp add: rts_set_def f_def)
next
  case False
  have f: "f \<noteq> 0" unfolding f_def using m by (rule flag_set_nonzero)
  have held: "ready.runnable_held procs s" using wf by (simp add: sched_wf_def ready.runnable_held_def)
  have "can_sched s x" using wf x False by (rule sched_can)
  from ready.block [OF held this f] obtain s1 where
    s1: "(if flags_of s x = 0 then dequeue x s else Inr s) = Inr s1"
    "ready.runnable_held procs (set_flags x f s1)" "flags_of s1 = flags_of s"
    "\<And>y. can_sched s y \<Longrightarrow> can_sched s1 y" "sched_frame s s1"
    by auto
  have pr: "p_nr (proc_tab (set_flags x f s1) y) = p_nr (proc_tab s y) \<and>
      p_priv (proc_tab (set_flags x f s1) y) = p_priv (proc_tab s y)" for y
    using sched_frame_proc(4,5) [OF s1(5)] by simp
  have fl: "flags_of (set_flags x f s1) = (flags_of s)(x := f)" using fun_cong [OF s1(3)] by auto
  have can: "can_sched (set_flags x f s1) y" if "can_sched s y" for y
    using s1(4) [OF that] by (simp only: ready.can_put_fl)
  have "sched_wf (set_flags x f s1)"
    using wf s1(2) fl x(2) _ can pr by (rule sched_wf_step) (use False in simp)
  moreover have "rts_set m x s = Inr (set_flags x f s1)"
    using s1(1) fun_cong [OF s1(3), of x] by (simp add: rts_set_def f_def)
  moreover have "sched_frame (set_flags x f s) (set_flags x f s1)"
    using s1(5) by (rule sched_frame_set_flags)
  ultimately show ?thesis by blast
qed

text \<open>
  What message passing never changes: whether a slot is in use, its privilege structure and
  its memory map; the variables of the clock and the interrupt hooks.
\<close>

definition devices :: "kstate \<Rightarrow> (int \<times> int \<times> (tmr_id, watchdog) tqueue) \<times>
    (hook_id \<Rightarrow> irq_hook) \<times> (int \<Rightarrow> hook_id option) \<times> int option \<times> int option \<times> u32" where
  "devices s = ((realtime s, next_timeout s, clock_timers s), irq_hooks s, irq_handlers s,
     proc_ptr s, prev_ptr s, lost_ticks s)"

definition keeps :: "kstate \<Rightarrow> kstate \<Rightarrow> bool" where
  "keeps s s' \<longleftrightarrow> devices s' = devices s \<and> (\<forall>x. p_priv (proc_tab s' x) = p_priv (proc_tab s x) \<and>
     p_memmap (proc_tab s' x) = p_memmap (proc_tab s x) \<and> alive s' x = alive s x)"

lemma keeps_refl [simp]: "keeps s s"
  by (simp add: keeps_def)

lemma keeps_trans: "keeps s s1 \<Longrightarrow> keeps s1 s2 \<Longrightarrow> keeps s s2"
  by (simp add: keeps_def)

lemma devices_frame: "sched_frame s s' \<Longrightarrow> devices s' = devices s"
  by (simp only: devices_def sched_frameD [of s s'])

lemma keeps_frame: "sched_frame s s' \<Longrightarrow> keeps s s'"
  by (simp only: keeps_def devices_frame [of s s'] sched_frame_proc [of s s'] simp_thms)

lemma keeps_set_flags: "f AND SLOT_FREE = flags_of s x AND SLOT_FREE \<Longrightarrow> keeps s (set_flags x f s)"
  by (simp add: keeps_def devices_def)

lemma keeps_proc_tab: "proc_tab s' = proc_tab s \<Longrightarrow> devices s' = devices s \<Longrightarrow> keeps s s'"
  by (simp add: keeps_def)

lemma devices_set [simp]:
  "devices (s\<lparr>proc_tab := pt\<rparr>) = devices s" "devices (s\<lparr>priv_tab := pv\<rparr>) = devices s"
  by (simp_all add: devices_def)

lemma devices_CopyMess [simp]: "devices (CopyMess n sp sm dp dm s) = devices s"
  by (simp add: devices_def CopyMess_def)

lemma devices_CopyKMess [simp]: "devices (CopyKMess n m dp dm s) = devices s"
  by (simp add: devices_def CopyKMess_def)

lemma devices_cq_put [simp]: "devices (cq_put d l p s) = devices s"
  by (cases l) (simp_all add: devices_def)

lemma devices_BuildMess: "BuildMess m src dp s = (m', s') \<Longrightarrow> devices s' = devices s"
  by (auto simp: BuildMess_def Let_def devices_def split: if_splits)

section \<open>Notification and delivery keep the invariant\<close>

lemma waits_for_flags:
  assumes "waits_for s d n"
  shows "receiving s d" "flags_of s d AND SENDING = 0" "flags_of s d \<noteq> 0"
proof -
  have f: "flags_of s d AND 12 = 8" using assms by (simp add: waits_for_def)
  have "flags_of s d AND 8 = (flags_of s d AND 12) AND 8"
    "flags_of s d AND 4 = (flags_of s d AND 12) AND 4" by (simp_all add: and.assoc)
  then show "receiving s d" "flags_of s d AND SENDING = 0" unfolding f by simp_all
  show "flags_of s d \<noteq> 0" using f by auto
qed

lemma BuildMess_kwf: "kwf s \<Longrightarrow> BuildMess m src dp s = (m', s') \<Longrightarrow> kwf s'"
  by (erule kwf_cong) (auto simp: BuildMess_def Let_def split: if_splits)

lemma BuildMess_proc [simp]: "BuildMess m src dp s = (m', s') \<Longrightarrow> proc_tab s' = proc_tab s"
  by (auto simp: BuildMess_def Let_def split: if_splits)

lemma kwf_memory [simp]: "kwf (s\<lparr>memory := mm\<rparr>) = kwf s"
  by (auto intro: kwf_cong [of "s\<lparr>memory := mm\<rparr>" s] kwf_cong [of s "s\<lparr>memory := mm\<rparr>"])

lemma kwf_CopyMess [simp]: "kwf (CopyMess n sp sm dp dm s) = kwf s"
  by (simp add: CopyMess_def)

lemma kwf_CopyKMess [simp]: "kwf (CopyKMess n m dp dm s) = kwf s"
  by (simp add: CopyKMess_def)

lemma proc_tab_copy [simp]:
  "proc_tab (CopyMess n sp sm dp dm s) = proc_tab s" "proc_tab (CopyKMess n m dp dm' s) = proc_tab s"
  by (simp_all add: CopyMess_def CopyKMess_def)

lemma kwf_procD:
  assumes "kwf s" and "x \<in> procs"
  shows "p_nr (proc_tab s x) = x" "alive s x \<Longrightarrow> x \<noteq> HARDWARE \<Longrightarrow> can_sched s x" "receiving s x \<Longrightarrow> alive s x"
    "sending s x \<Longrightarrow> alive s x" "sending s x \<Longrightarrow> sendto s x \<in> procs"
    "alive s x \<Longrightarrow> p_priv (proc_tab s x) \<noteq> None" "isokprocn x"
  using assms by (auto simp: kwf_def sched_wf_def slot_ok_def ipc_wf_def can_sched_def procs_def)

text \<open>
  Setting and clearing flags that do not concern the caller queues, of a slot in use.
\<close>

lemma rts_unset_kwf:
  assumes wf: "kwf s" and x: "x \<in> procs" "alive s x" "flags_of s x AND m \<noteq> 0"
    and m: "m AND SENDING = 0" "m AND SLOT_FREE = 0" and hw: "x = HARDWARE \<Longrightarrow> m AND NO_MAP = 0"
  defines "f \<equiv> flags_of s x AND NOT m"
  shows "\<exists>s'. rts_unset m x s = Inr s' \<and> kwf s' \<and> sched_frame (set_flags x f s) s' \<and> keeps s s'"
proof -
  from x(3) have ne: "flags_of s x \<noteq> 0" by auto
  from wf have "sched_wf s" by (simp add: kwf_def)
  from rts_unset_sched [OF this x(1,2) ne hw] obtain s' where
    s': "rts_unset m x s = Inr s'" "sched_wf s'" "sched_frame (set_flags x f s) s'"
    unfolding f_def by blast
  have f: "f AND SENDING = flags_of s x AND SENDING" "f AND SLOT_FREE = flags_of s x AND SLOT_FREE"
    unfolding f_def by (simp_all only: flag_clear_other [OF m(1)] flag_clear_other [OF m(2)])
  then have "ipc_wf (set_flags x f s)"
    using wf x(2) by (intro ipc_wf_set_flags) (simp_all add: kwf_def)
  moreover have "keeps s s'"
    using keeps_set_flags [OF f(2)] keeps_frame [OF s'(3)] by (rule keeps_trans)
  ultimately show ?thesis using s' ipc_wf_frame [OF s'(3)] unfolding kwf_def by blast
qed

lemma rts_set_kwf:
  assumes wf: "kwf s" and x: "x \<in> procs" "alive s x" and m: "m AND SENDING = 0" "m AND SLOT_FREE = 0" "m \<noteq> 0"
  defines "f \<equiv> flags_of s x OR m"
  shows "\<exists>s'. rts_set m x s = Inr s' \<and> kwf s' \<and> sched_frame (set_flags x f s) s' \<and> keeps s s'"
proof -
  from wf have "sched_wf s" by (simp add: kwf_def)
  from rts_set_sched [OF this x(1,2) m(3)] obtain s' where
    s': "rts_set m x s = Inr s'" "sched_wf s'" "sched_frame (set_flags x f s) s'"
    unfolding f_def by blast
  have f: "f AND SENDING = flags_of s x AND SENDING" "f AND SLOT_FREE = flags_of s x AND SLOT_FREE"
    unfolding f_def by (simp_all only: flag_set_other [OF m(1)] flag_set_other [OF m(2)])
  then have "ipc_wf (set_flags x f s)"
    using wf x(2) by (intro ipc_wf_set_flags) (simp_all add: kwf_def)
  moreover have "keeps s s'"
    using keeps_set_flags [OF f(2)] keeps_frame [OF s'(3)] by (rule keeps_trans)
  ultimately show ?thesis using s' ipc_wf_frame [OF s'(3)] unfolding kwf_def by blast
qed

lemma mini_notify_ok:
  assumes wf: "kwf s" and d: "dst \<in> procs" "p_priv (proc_tab s dst) \<noteq> None"
    and c: "p_priv (proc_tab s caller) \<noteq> None"
  shows "\<exists>s'. mini_notify caller dst s = Inr (OK, s') \<and> kwf s' \<and> keeps s s'"
proof -
  from d obtain dp where dp: "p_priv (proc_tab s dst) = Some dp" by auto
  from c obtain cp where cp: "p_priv (proc_tab s caller) = Some cp" by auto
  let ?n = "p_nr (proc_tab s caller)"
  have ok: "proc_addr dst = Inr dst" using d by (simp add: procs_def)
  show ?thesis
  proof (cases "waits_for s dst ?n \<and> s_flags (priv_tab s dp) AND SENDREC_BUSY = 0")
    case True
    obtain m s1 where b: "BuildMess (stk_mess s) ?n dp s = (m, s1)" by fastforce
    define s2 where "s2 = CopyKMess ?n m dst (p_messbuf (proc_tab s1 dst)) s1"
    have wf2: "kwf s2" using BuildMess_kwf [OF wf b] by (simp add: s2_def)
    have pt: "proc_tab s2 = proc_tab s" "devices s2 = devices s"
      using b devices_BuildMess [OF b] by (simp_all add: s2_def)
    have r: "receiving s2 dst" using waits_for_flags(1) True pt by auto
    from rts_unset_kwf [OF wf2 d(1) kwf_procD(3) [OF wf2 d(1) r] r] obtain s3 where
      "rts_unset RECEIVING dst s2 = Inr s3" "kwf s3" "keeps s2 s3" by auto
    moreover from this(3) have "keeps s s3" using keeps_proc_tab [OF pt] keeps_trans by blast
    ultimately show ?thesis using True b
      by (auto simp: mini_notify_def ok priv_of_def dp Let_def s2_def)
  next
    case False
    let ?s = "set_priv dp ((priv_tab s dp)\<lparr>s_notify_pending :=
       set_sys_bit (s_notify_pending (priv_tab s dp)) (s_id (priv_tab s cp))\<rparr>) s"
    have "kwf ?s" using wf by (rule kwf_cong) auto
    moreover have "keeps s ?s" by (simp add: keeps_def devices_def)
    moreover have "mini_notify caller dst s = Inr (OK, ?s)"
      using False by (auto simp: mini_notify_def ok priv_of_def dp cp)
    ultimately show ?thesis by blast
  qed
qed

text \<open>The effect of a notification: delivery, or a pending bit.\<close>

lemma mini_notify_effect:
  assumes "kwf s" and "dst \<in> procs" and "p_priv (proc_tab s dst) = Some dp"
    and "caller \<in> procs" and "p_priv (proc_tab s caller) = Some cp"
  shows "\<exists>s'. mini_notify caller dst s = Inr (OK, s') \<and> kwf s' \<and> keeps s s' \<and>
    (if waits_for s dst caller \<and> s_flags (priv_tab s dp) AND SENDREC_BUSY = 0
     then \<not> receiving s' dst
     else (\<forall>i. get_sys_bit (s_notify_pending (priv_tab s' dp)) i \<longleftrightarrow>
              i = s_id (priv_tab s cp) \<or> get_sys_bit (s_notify_pending (priv_tab s dp)) i) \<and>
          proc_tab s' = proc_tab s)"
proof -
  have nr: "p_nr (proc_tab s caller) = caller" using assms(1,4) by (rule kwf_procD)
  from mini_notify_ok [of s dst caller] assms obtain s' where
    s': "mini_notify caller dst s = Inr (OK, s')" "kwf s'" "keeps s s'" by auto
  have "proc_addr dst = Inr dst" using assms(2) by (simp add: procs_def)
  note unf = mini_notify_def this priv_of_def assms(3,5) nr
  show ?thesis
  proof (cases "waits_for s dst caller \<and> s_flags (priv_tab s dp) AND SENDREC_BUSY = 0")
    case True
    obtain m s1 where b: "BuildMess (stk_mess s) caller dp s = (m, s1)" by fastforce
    have wf1: "kwf (CopyKMess caller m dst (p_messbuf (proc_tab s1 dst)) s1)" (is "kwf ?s2")
      using BuildMess_kwf [OF assms(1) b] by simp
    have r: "receiving ?s2 dst" using waits_for_flags(1) True b by auto
    from rts_unset_kwf [OF wf1 assms(2) kwf_procD(3) [OF wf1 assms(2) r] r] obtain s3 where
      s3: "rts_unset RECEIVING dst ?s2 = Inr s3"
      "sched_frame (set_flags dst (flags_of ?s2 dst AND NOT RECEIVING) ?s2) s3" by auto
    have "s' = s3" using s'(1) True b s3(1) by (simp add: unf Let_def)
    moreover have "flags_of s3 dst = flags_of ?s2 dst AND NOT RECEIVING"
      using sched_frame_proc(6) [OF s3(2), of dst] by simp
    then have "flags_of s3 dst AND RECEIVING = 0" by (simp only: flag_clear_same)
    ultimately show ?thesis using s' True by simp
  next
    case False
    then have "s' = set_priv dp ((priv_tab s dp)\<lparr>s_notify_pending :=
        set_sys_bit (s_notify_pending (priv_tab s dp)) (s_id (priv_tab s cp))\<rparr>) s"
      using s'(1) by (auto simp: unf Let_def)
    with s' False show ?thesis by (auto simp: get_set_sys_bit)
  qed
qed

text \<open>What a delivered notification says, and what it leaves alone.\<close>

lemma bytes_of_words_nth:
  "i < length ws \<Longrightarrow> take 4 (drop (4 * i) (concat (map bytes32 ws))) = bytes32 (ws ! i)"
proof (induction ws arbitrary: i)
  case (Cons w ws)
  then show ?case by (cases i) simp_all
qed simp

lemma length_bytes_of_words: "length (concat (map bytes32 ws)) = 4 * length ws"
  by (induction ws) simp_all

text \<open>The words of a message that was written from the kernel.\<close>

lemma get32_message:
  assumes "i < 9"
  shows "get32 (write_bytes a (concat (map bytes32 (message_words m))) mm) (a + of_nat (4 * i)) = message_words m ! i"
proof -
  have l: "length (message_words m) = 9" by (simp add: message_words_def)
  have "length (concat (map bytes32 (message_words m))) = 36" by (simp only: length_bytes_of_words l)
  then show ?thesis
    using assms l read_bytes_write_sub [of "4 * i" 4 "concat (map bytes32 (message_words m))" a mm]
    by (simp add: get32_le32 bytes_of_words_nth le32_bytes32)
qed

lemma BuildMess_effect:
  assumes "BuildMess m n dp s = (m', s')"
  shows "m_source m' = n" "m_type m' = NOTIFY_FROM n" "m_w m' 4 = word_of_int (realtime s)"
    "n = HARDWARE \<Longrightarrow> m_w m' 3 = s_int_pending (priv_tab s dp)"
    "n = SYSTEM \<Longrightarrow> m_w m' 3 = s_sig_pending (priv_tab s dp)"
    "priv_tab s' dp = (priv_tab s dp)\<lparr>s_int_pending := if n = HARDWARE then 0 else s_int_pending (priv_tab s dp),
       s_sig_pending := if n = SYSTEM then 0 else s_sig_pending (priv_tab s dp)\<rparr>"
    "i \<noteq> dp \<Longrightarrow> priv_tab s' i = priv_tab s i"
    "memory s' = memory s"
proof -
  have e: "m' = fst (BuildMess m n dp s)" "s' = snd (BuildMess m n dp s)" using assms by simp_all
  show "m_source m' = n" "m_type m' = NOTIFY_FROM n" "m_w m' 4 = word_of_int (realtime s)"
    unfolding e by (simp_all add: BuildMess_def Let_def get_uptime_def)
  show "m_w m' 3 = s_int_pending (priv_tab s dp)" if "n = HARDWARE"
    unfolding e using that by (simp add: BuildMess_def Let_def)
  show "m_w m' 3 = s_sig_pending (priv_tab s dp)" if "n = SYSTEM"
    unfolding e using that by (simp add: BuildMess_def Let_def)
  show "priv_tab s' dp = (priv_tab s dp)\<lparr>s_int_pending := if n = HARDWARE then 0 else s_int_pending (priv_tab s dp),
       s_sig_pending := if n = SYSTEM then 0 else s_sig_pending (priv_tab s dp)\<rparr>"
    unfolding e by (simp add: BuildMess_def Let_def)
  show "priv_tab s' i = priv_tab s i" if "i \<noteq> dp"
    unfolding e using that by (simp add: BuildMess_def Let_def)
  show "memory s' = memory s"
    unfolding e by (simp add: BuildMess_def Let_def)
qed

lemma mini_notify_delivery:
  assumes wf: "kwf s" and d: "dst \<in> procs" and dp: "p_priv (proc_tab s dst) = Some dp"
    and c: "caller \<in> procs" and w: "waits_for s dst caller" "s_flags (priv_tab s dp) AND SENDREC_BUSY = 0"
    and run: "mini_notify caller dst s = Inr (r, s')"
    and buf: "buf = push_bit 10 (mem_phys (p_memmap (proc_tab s dst) D_seg)) + p_messbuf (proc_tab s dst)"
  shows "flags_of s' = (flags_of s)(dst := flags_of s dst AND NOT RECEIVING)"
    "get32 (memory s') buf = word_of_int caller"
    "get32 (memory s') (buf + 4) = word_of_int (NOTIFY_FROM caller)"
    "get32 (memory s') (buf + 24) = word_of_int (realtime s)"
    "caller = HARDWARE \<Longrightarrow> get32 (memory s') (buf + 20) = s_int_pending (priv_tab s dp)"
    "caller = SYSTEM \<Longrightarrow> get32 (memory s') (buf + 20) = s_sig_pending (priv_tab s dp)"
    "x \<notin> span buf 36 \<Longrightarrow> memory s' x = memory s x"
    "priv_tab s' = (priv_tab s)(dp := (priv_tab s dp)
       \<lparr>s_int_pending := if caller = HARDWARE then 0 else s_int_pending (priv_tab s dp),
        s_sig_pending := if caller = SYSTEM then 0 else s_sig_pending (priv_tab s dp)\<rparr>)"
proof -
  have nr: "p_nr (proc_tab s caller) = caller" using wf c by (rule kwf_procD)
  have pa: "proc_addr dst = Inr dst" using d by (simp add: procs_def)
  obtain m s1 where b: "BuildMess (stk_mess s) caller dp s = (m, s1)" by fastforce
  note be = BuildMess_effect [OF b]
  let ?s2 = "CopyKMess caller m dst (p_messbuf (proc_tab s1 dst)) s1"
  have wf2: "kwf ?s2" using BuildMess_kwf [OF wf b] by simp
  have pt: "proc_tab s1 = proc_tab s" using b by simp
  have r: "receiving ?s2 dst" using waits_for_flags(1) [OF w(1)] pt by simp
  from rts_unset_kwf [OF wf2 d kwf_procD(3) [OF wf2 d r] r] obtain s3 where
    s3: "rts_unset RECEIVING dst ?s2 = Inr s3"
    "sched_frame (set_flags dst (flags_of ?s2 dst AND NOT RECEIVING) ?s2) s3" by auto
  have s': "s' = s3" using run w b s3(1) by (simp add: mini_notify_def pa priv_of_def dp nr Let_def)
  have mem: "memory s' = write_bytes buf (concat (map bytes32 (message_words (m\<lparr>m_source := caller\<rparr>)))) (memory s)"
    using sched_frameD(15) [OF s3(2)] be(8) by (simp add: s' CopyKMess_def pt buf)
  have len: "length (concat (map bytes32 (message_words (m\<lparr>m_source := caller\<rparr>)))) = 36"
    by (simp add: length_bytes_of_words message_words_def)
  have word: "get32 (memory s') (buf + of_nat (4 * i)) = message_words (m\<lparr>m_source := caller\<rparr>) ! i" if "i < 9" for i
    unfolding mem using that by (rule get32_message)
  show "get32 (memory s') buf = word_of_int caller" using word [of 0] by (simp add: message_words_def)
  show "get32 (memory s') (buf + 4) = word_of_int (NOTIFY_FROM caller)"
    using word [of 1] be(2) by (simp add: message_words_def)
  show "get32 (memory s') (buf + 24) = word_of_int (realtime s)"
    using word [of 6] be(3) by (simp add: message_words_def numeral_eq_Suc)
  show "get32 (memory s') (buf + 20) = s_int_pending (priv_tab s dp)" if "caller = HARDWARE"
    using word [of 5] be(4) [OF that] by (simp add: message_words_def)
  show "get32 (memory s') (buf + 20) = s_sig_pending (priv_tab s dp)" if "caller = SYSTEM"
    using word [of 5] be(5) [OF that] by (simp add: message_words_def)
  show "memory s' x = memory s x" if "x \<notin> span buf 36"
    unfolding mem using that len by (intro write_bytes_outside) simp_all
  have "priv_tab s' = priv_tab s1" using sched_frameD(1) [OF s3(2)] by (simp add: s' CopyKMess_def)
  then show "priv_tab s' = (priv_tab s)(dp := (priv_tab s dp)
       \<lparr>s_int_pending := if caller = HARDWARE then 0 else s_int_pending (priv_tab s dp),
        s_sig_pending := if caller = SYSTEM then 0 else s_sig_pending (priv_tab s dp)\<rparr>)"
    using be(6,7) by (intro ext) simp
  show "flags_of s' = (flags_of s)(dst := flags_of s dst AND NOT RECEIVING)"
  proof
    fix x
    show "flags_of s' x = ((flags_of s)(dst := flags_of s dst AND NOT RECEIVING)) x"
      using sched_frame_proc(6) [OF s3(2), of x] by (cases "x = dst") (simp_all only: s' pt, simp_all add: pt)
  qed
qed

lemma mini_notify_memory:
  assumes "kwf s" and "dst \<in> procs" and "p_priv (proc_tab s dst) = Some dp" and "caller \<in> procs"
    and "\<not> (waits_for s dst caller \<and> s_flags (priv_tab s dp) AND SENDREC_BUSY = 0)"
    and "mini_notify caller dst s = Inr (r, s')"
  shows "memory s' = memory s"
proof -
  have "p_nr (proc_tab s caller) = caller" using assms(1,4) by (rule kwf_procD)
  moreover have "proc_addr dst = Inr dst" using assms(2) by (simp add: procs_def)
  ultimately show ?thesis using assms(3,5,6)
    by (auto simp: mini_notify_def priv_of_def Let_def bindr_Inr_iff split: option.splits)
qed

section \<open>The deadlock check\<close>

lemma send_edges_wf: "ipc_wf s \<Longrightarrow> wf ((send_edges s)\<inverse>)"
proof (rule finite_acyclic_wf_converse)
  have "send_edges s \<subseteq> (\<lambda>x. (x, sendto s x)) ` procs" by (auto simp: send_edges_def)
  then show "finite (send_edges s)" using finite_procs by (auto dest: finite_subset)
qed (simp add: ipc_wf_def)

lemma send_edge_iff: "(x, y) \<in> send_edges s \<longleftrightarrow> x \<in> procs \<and> sending s x \<and> y = sendto s x"
  by (simp add: send_edges_def)

text \<open>The loop ends, and tells whether the caller can be reached from \<open>x\<close>.\<close>

lemma send_locked_spec:
  assumes "ipc_wf s" and "x \<in> procs"
  shows "send_locked s caller x = Some (Inr ((x, caller) \<in> (send_edges s)\<^sup>+))"
  using send_edges_wf [OF assms(1)] assms(2)
proof (induction x)
  case (less x)
  show ?case
  proof (cases "sending s x")
    case False
    then have "(x, caller) \<notin> (send_edges s)\<^sup>+" by (auto simp: send_edge_iff dest: tranclD)
    with False show ?thesis by (subst send_locked.simps) simp
  next
    case True
    let ?y = "sendto s x"
    have e: "(x, ?y) \<in> send_edges s" using True less.prems by (simp add: send_edge_iff)
    have y: "?y \<in> procs" using True less.prems assms(1) by (auto simp: ipc_wf_def)
    then have pa: "proc_addr ?y = Inr ?y" by (simp add: procs_def)
    have "(x, caller) \<in> (send_edges s)\<^sup>+ \<longleftrightarrow> ?y = caller \<or> (?y, caller) \<in> (send_edges s)\<^sup>+"
      using e by (auto simp: send_edge_iff dest: tranclD elim: converse_tranclE intro: trancl_into_trancl2)
    with True pa less.IH [of ?y] e y show ?thesis by (subst send_locked.simps) auto
  qed
qed

section \<open>Sending\<close>

lemma callers_member:
  "callers_rep s C \<Longrightarrow> d \<in> procs \<Longrightarrow> x \<in> set (C d) \<Longrightarrow> x \<in> procs \<and> sending s x \<and> sendto s x = d"
  by (auto simp: callers_rep_def)

lemma cq_put_fields [simp]:
  "flags_of (cq_put d l p s) x = flags_of s x" "sendto (cq_put d l p s) x = sendto s x"
  "sched_view (proc_tab (cq_put d l p s) x) = sched_view (proc_tab s x)"
  "rdy_head (cq_put d l p s) = rdy_head s" "rdy_tail (cq_put d l p s) = rdy_tail s"
  "next_ptr (cq_put d l p s) = next_ptr s" "priv_tab (cq_put d l p s) = priv_tab s"
  by (cases l; simp add: sched_view_def)+

lemma cq_put_other:
  "d' \<noteq> d \<Longrightarrow> p_caller_q (proc_tab (cq_put d l p s) d') = p_caller_q (proc_tab s d')"
  "l \<noteq> Next x \<Longrightarrow> qlink (cq_put d l p s) x = qlink s x"
  by (cases l; auto)+

lemma cq_put_priv [simp]:
  "p_priv (proc_tab (cq_put d l p s) x) = p_priv (proc_tab s x)"
  "p_memmap (proc_tab (cq_put d l p s) x) = p_memmap (proc_tab s x)"
  "p_nr (proc_tab (cq_put d l p s) x) = p_nr (proc_tab s x)"
  by (cases l; simp)+

lemma sched_wf_cq_put: "sched_wf s \<Longrightarrow> sched_wf (cq_put d l p s)"
  by (erule sched_wf_cong) simp_all

text \<open>
  The caller blocks: it is flagged as sending to \<open>dst\<close> and linked in behind the senders that
  wait already. \<open>s4\<close> is the state after the assignment of \<open>p_sendto\<close>.
\<close>

lemma queue_sender:
  assumes wf: "ipc_wf s" and C: "callers_rep s C" and c: "caller \<in> procs" "\<not> sending s caller" and d: "dst \<in> procs"
    and nolock: "(dst, caller) \<notin> (send_edges s)\<^sup>*"
    and q4: "\<And>x. p_caller_q (proc_tab s4 x) = p_caller_q (proc_tab s x)" "\<And>x. qlink s4 x = qlink s x"
    and f4: "\<And>x. flags_of s4 x = (if x = caller then f else flags_of s x)"
      "f AND SENDING \<noteq> 0" "f AND SLOT_FREE = 0"
    and t4: "\<And>x. sendto s4 x = (if x = caller then dst else sendto s x)"
  shows "\<exists>xpp. walk (\<lambda>l. cq_get dst l s4) (\<lambda>_. False) Head = Some xpp \<and>
    ipc_wf (cq_put dst (Next caller) None (cq_put dst xpp (Some caller) s4)) \<and>
    callers_rep (cq_put dst (Next caller) None (cq_put dst xpp (Some caller) s4)) (C(dst := C dst @ [caller]))"
proof -
  have out: "caller \<notin> set (C k)" if "k \<in> procs" for k
    using callers_member [OF C that] c(2) by blast
  have links4: "cq.links k s4 (C k) None" if "k \<in> procs" for k
    using C that by (simp add: callers_rep_def q4)
  let ?xpp = "loc_after (C dst)"
  have w: "walk (\<lambda>l. cq_get dst l s4) (\<lambda>_. False) Head = Some ?xpp"
    using cq.walk_whole [OF links4 [OF d], of "\<lambda>_. False"] by (simp add: takeWhile_eq_all_conv [THEN iffD2] del: cq_get.simps)
  let ?s = "cq_put dst (Next caller) None (cq_put dst ?xpp (Some caller) s4)"
  let ?C = "C(dst := C dst @ [caller])"
  have new: "cq.links dst ?s (C dst @ [caller]) None"
    using links4 [OF d] out [OF d] by (rule cq.append_last)
  have old: "chain (qlink ?s) (p_caller_q (proc_tab ?s k)) (C k)" if k: "k \<in> procs" "k \<noteq> dst" for k
  proof -
    have "qlink ?s x = qlink s4 x" if "x \<in> set (C k)" for x
    proof -
      have "x \<noteq> caller" using out k that by blast
      moreover have "?xpp \<noteq> Next x"
        using that callers_member [OF C k(1) that] callers_member [OF C d] k(2) loc_after_eq_Next by metis
      ultimately show ?thesis by (simp add: cq_put_other)
    qed
    then have "chain (qlink ?s) p (C k) = chain (qlink s4) p (C k)" for p by (rule lseg_cong)
    with links4 [OF k(1)] k(2) show ?thesis by (auto simp: cq_put_other)
  qed
  have rep: "callers_rep ?s ?C"
    unfolding callers_rep_def
  proof
    fix k
    assume k: "k \<in> procs"
    have "set (C k) = {x \<in> procs. sending s x \<and> sendto s x = k}" using C k by (simp add: callers_rep_def)
    moreover have "{x \<in> procs. sending ?s x \<and> sendto ?s x = k} =
      {x \<in> procs. sending s x \<and> sendto s x = k} \<union> (if k = dst then {caller} else {})"
      using c f4(2) by (auto simp: f4(1) t4 split: if_splits)
    ultimately have "set (?C k) = {x \<in> procs. sending ?s x \<and> sendto ?s x = k}"
      by (cases "k = dst") simp_all
    moreover have "chain (qlink ?s) (p_caller_q (proc_tab ?s k)) (?C k)"
      using new old [OF k] by (cases "k = dst") (simp_all only: cq_get.simps fun_upd_same fun_upd_other simp_thms)
    ultimately show "chain (qlink ?s) (p_caller_q (proc_tab ?s k)) (?C k) \<and>
      set (?C k) = {x \<in> procs. sending ?s x \<and> sendto ?s x = k}" by blast
  qed
  have "send_edges ?s = insert (caller, dst) (send_edges s)"
    using c f4(2) by (auto simp: send_edges_def f4(1) t4 split: if_splits)
  then have "acyclic (send_edges ?s)" using wf nolock by (simp add: ipc_wf_def)
  moreover have "\<forall>x \<in> procs. (sending ?s x \<longrightarrow> sendto ?s x \<in> procs) \<and>
      (sending ?s x \<or> receiving ?s x \<longrightarrow> alive ?s x)"
    using wf d f4(3) by (simp add: f4(1) t4 ipc_wf_def)
  ultimately have "ipc_wf ?s" using rep unfolding ipc_wf_def by blast
  with w rep show ?thesis by blast
qed

lemma kwf_messbuf: "kwf s \<Longrightarrow> kwf (set_proc x ((proc_tab s x)\<lparr>p_messbuf := a\<rparr>) s)"
  by (erule kwf_cong) (auto simp: sched_view_def ipc_view_def)

lemma mini_send_locked:
  assumes "kwf s" and "dst \<in> procs"
  shows "ran (send_locked s caller dst) = Inr ((dst, caller) \<in> (send_edges s)\<^sup>+)"
  using send_locked_spec [of s dst caller] assms by (simp add: kwf_def)

text \<open>\<open>dst\<close> waits for the caller: the message is copied and \<open>dst\<close> made ready.\<close>

lemma mini_send_deliver:
  assumes wf: "kwf s" and c: "caller \<in> procs" and d: "dst \<in> procs"
    and w: "waits_for s dst caller"
  shows "\<exists>s'. mini_send caller dst m_ptr flags s = Inr (OK, s') \<and> kwf s' \<and> keeps s s' \<and>
    sched_frame (set_flags dst (flags_of s dst AND NOT RECEIVING)
      (CopyMess caller caller m_ptr dst (p_messbuf (proc_tab s dst)) s)) s'"
proof -
  let ?s1 = "CopyMess caller caller m_ptr dst (p_messbuf (proc_tab s dst)) s"
  have nr: "p_nr (proc_tab s caller) = caller" using wf c by (rule kwf_procD)
  have "(dst, caller) \<notin> (send_edges s)\<^sup>+"
    using waits_for_flags(2) [OF w] by (auto simp: send_edge_iff dest: tranclD)
  then have lk: "ran (send_locked s caller dst) = Inr False" using mini_send_locked [OF wf d] by simp
  have wf1: "kwf ?s1" using wf by simp
  have r: "receiving ?s1 dst" using waits_for_flags(1) [OF w] by simp
  from rts_unset_kwf [OF wf1 d kwf_procD(3) [OF wf1 d r] r] obtain s' where
    "rts_unset RECEIVING dst ?s1 = Inr s'" "kwf s'" "keeps ?s1 s'"
    "sched_frame (set_flags dst (flags_of ?s1 dst AND NOT RECEIVING) ?s1) s'" by auto
  moreover from this(3) have "keeps s s'"
    using keeps_proc_tab [of ?s1 s] keeps_trans by simp
  moreover have "proc_addr dst = Inr dst" using d by (simp add: procs_def)
  ultimately show ?thesis using w lk by (simp add: mini_send_def nr)
qed

text \<open>Otherwise the caller blocks behind the senders that wait for \<open>dst\<close> already.\<close>

lemma mini_send_block:
  assumes wf: "kwf s" and C: "callers_rep s C" and c: "caller \<in> procs" "alive s caller" "\<not> sending s caller"
    and d: "dst \<in> procs" "dst \<noteq> caller" and nolock: "(dst, caller) \<notin> (send_edges s)\<^sup>+"
    and w: "\<not> waits_for s dst caller" and fl: "flags AND NON_BLOCKING = 0"
  shows "\<exists>s'. mini_send caller dst m_ptr flags s = Inr (OK, s') \<and> kwf s' \<and> keeps s s' \<and>
    flags_of s' = (flags_of s)(caller := flags_of s caller OR SENDING) \<and> sendto s' caller = dst \<and>
    callers_rep s' (C(dst := C dst @ [caller])) \<and> priv_tab s' = priv_tab s"
proof -
  let ?s1 = "set_proc caller ((proc_tab s caller)\<lparr>p_messbuf := m_ptr\<rparr>) s"
  let ?f = "flags_of s caller OR SENDING"
  have nr: "p_nr (proc_tab s caller) = caller" using wf c(1) by (rule kwf_procD)
  have pa: "proc_addr dst = Inr dst" using d by (simp add: procs_def)
  have "sched_wf ?s1" using kwf_messbuf [OF wf] by (simp add: kwf_def)
  moreover have "alive ?s1 caller" "flags_of ?s1 caller = flags_of s caller" using c by simp_all
  ultimately obtain s3 where s3: "rts_set SENDING caller ?s1 = Inr s3" "sched_wf s3"
    "sched_frame (set_flags caller ?f ?s1) s3"
    using rts_set_sched [of ?s1 caller SENDING] c(1) by auto
  define s4 where "s4 = set_proc caller ((proc_tab s3 caller)\<lparr>p_sendto := dst\<rparr>) s3"
  have "ipc_wf s" using wf by (simp add: kwf_def)
  moreover have "(dst, caller) \<notin> (send_edges s)\<^sup>*" using nolock d(2) by (auto simp: rtrancl_eq_or_trancl)
  moreover have "?f AND SENDING \<noteq> 0" "?f AND SLOT_FREE = 0"
    using c(2) flag_set_other [of SENDING SLOT_FREE "flags_of s caller"] by simp_all
  moreover have fields: "p_caller_q (proc_tab s4 x) = p_caller_q (proc_tab s x)" "qlink s4 x = qlink s x"
    "flags_of s4 x = (if x = caller then ?f else flags_of s x)"
    "sendto s4 x = (if x = caller then dst else sendto s x)"
    "p_priv (proc_tab s4 x) = p_priv (proc_tab s x)" "p_memmap (proc_tab s4 x) = p_memmap (proc_tab s x)" for x
    using sched_frame_proc(12,13,6,16,5,9) [OF s3(3), of x] by (auto simp: s4_def)
  ultimately obtain xpp where xpp: "walk (\<lambda>l. cq_get dst l s4) (\<lambda>_. False) Head = Some xpp"
    "ipc_wf (cq_put dst (Next caller) None (cq_put dst xpp (Some caller) s4))"
    "callers_rep (cq_put dst (Next caller) None (cq_put dst xpp (Some caller) s4)) (C(dst := C dst @ [caller]))"
    using queue_sender [of s C caller dst s4 ?f] C c d(1) by blast
  have dev: "devices s4 = devices s"
    using devices_frame [OF s3(3)] by (simp add: s4_def devices_def)
  have "sched_wf s4" unfolding s4_def using s3(2) by (rule sched_wf_cong) (simp_all add: sched_view_def)
  then have "kwf (cq_put dst (Next caller) None (cq_put dst xpp (Some caller) s4))"
    using xpp(2) by (simp only: kwf_def sched_wf_cq_put)
  moreover have "keeps s (cq_put dst (Next caller) None (cq_put dst xpp (Some caller) s4))"
    using fields c(2) flag_set_other [of SENDING SLOT_FREE "flags_of s caller"]
    by (auto simp: keeps_def cq_put_priv dev)
  moreover have "mini_send caller dst m_ptr flags s =
      Inr (OK, cq_put dst (Next caller) None (cq_put dst xpp (Some caller) s4))"
    using mini_send_locked [OF wf d(1), of caller] nolock w fl s3(1) xpp(1)
    by (simp add: mini_send_def nr pa Let_def s4_def)
  moreover have "flags_of (cq_put dst (Next caller) None (cq_put dst xpp (Some caller) s4)) =
      (flags_of s)(caller := ?f)" using fields(3) by (auto simp only: cq_put_fields fun_upd_apply)
  moreover have "sendto (cq_put dst (Next caller) None (cq_put dst xpp (Some caller) s4)) caller = dst"
    using fields(4) by (simp only: cq_put_fields simp_thms if_True)
  moreover have "priv_tab (cq_put dst (Next caller) None (cq_put dst xpp (Some caller) s4)) = priv_tab s"
    using sched_frameD(1) [OF s3(3)] by (simp add: s4_def)
  ultimately show ?thesis using xpp(3) by blast
qed

lemma mini_send_ok:
  assumes wf: "kwf s" and c: "caller \<in> procs" "alive s caller" "\<not> sending s caller"
    and d: "dst \<in> procs" "dst \<noteq> caller"
  shows "\<exists>r s'. mini_send caller dst m_ptr flags s = Inr (r, s') \<and> kwf s' \<and> keeps s s' \<and>
    r = (if (dst, caller) \<in> (send_edges s)\<^sup>+ then ELOCKED
         else if waits_for s dst caller \<or> flags AND NON_BLOCKING = 0 then OK else ENOTREADY)"
proof -
  have nr: "p_nr (proc_tab s caller) = caller" using wf c(1) by (rule kwf_procD)
  have pa: "proc_addr dst = Inr dst" using d by (simp add: procs_def)
  note lk = mini_send_locked [OF wf d(1), of caller]
  consider "(dst, caller) \<in> (send_edges s)\<^sup>+"
    | "(dst, caller) \<notin> (send_edges s)\<^sup>+" "waits_for s dst caller"
    | "(dst, caller) \<notin> (send_edges s)\<^sup>+" "\<not> waits_for s dst caller" "flags AND NON_BLOCKING = 0"
    | "(dst, caller) \<notin> (send_edges s)\<^sup>+" "\<not> waits_for s dst caller" "flags AND NON_BLOCKING \<noteq> 0"
    by blast
  then show ?thesis
  proof cases
    case 1
    then show ?thesis using lk wf by (simp add: mini_send_def pa)
  next
    case 2
    then show ?thesis using mini_send_deliver [OF wf c(1) d(1), of m_ptr flags] by auto
  next
    case 3
    from wf obtain C where "callers_rep s C" by (auto simp: kwf_def ipc_wf_def)
    with 3 show ?thesis using mini_send_block [OF wf _ c d 3, of C] by auto
  next
    case 4
    then show ?thesis using lk wf by (simp add: mini_send_def pa nr)
  qed
qed

section \<open>Receiving\<close>

text \<open>
  A sender is served: its flag is cleared and it is unlinked from the receiver's queue. \<open>s3\<close>
  is the state after the flag was cleared.
\<close>

lemma unqueue_sender:
  assumes wf: "ipc_wf s" and C: "callers_rep s C" and d: "d \<in> procs" and x: "C d = us @ x # vs"
    and q3: "\<And>y. p_caller_q (proc_tab s3 y) = p_caller_q (proc_tab s y)" "\<And>y. qlink s3 y = qlink s y"
    and f3: "\<And>y. flags_of s3 y = (if y = x then f else flags_of s y)"
      "f AND SENDING = 0" "f AND RECEIVING \<noteq> 0 \<longrightarrow> f AND SLOT_FREE = 0"
    and t3: "\<And>y. sendto s3 y = sendto s y"
  shows "ipc_wf (cq_put d (loc_after us) (qlink s3 x) s3) \<and>
    callers_rep (cq_put d (loc_after us) (qlink s3 x) s3) (C(d := us @ vs))"
proof -
  let ?s = "cq_put d (loc_after us) (qlink s3 x) s3"
  let ?C = "C(d := us @ vs)"
  have xs: "x \<in> procs" "sending s x" "sendto s x = d" using callers_member [OF C d, of x] x by simp_all
  have links3: "cq.links k s3 (C k) None" if "k \<in> procs" for k
    using C that by (simp add: callers_rep_def q3)
  have new: "cq.links d ?s (us @ vs) None"
    using cq.unlink [of d s3 us x vs] links3 [OF d] x by (simp only: cq_get.simps)
  have dist: "distinct (us @ x # vs)" using links3 [OF d] x chain_distinct by metis
  have old: "chain (qlink ?s) (p_caller_q (proc_tab ?s k)) (C k)" if k: "k \<in> procs" "k \<noteq> d" for k
  proof -
    have "qlink ?s y = qlink s3 y" if "y \<in> set (C k)" for y
    proof -
      have "y \<notin> set us" using callers_member [OF C k(1) that] callers_member [OF C d, of y] k(2) x by auto
      then have "loc_after us \<noteq> Next y" using loc_after_eq_Next by metis
      then show ?thesis by (simp add: cq_put_other)
    qed
    then have "chain (qlink ?s) p (C k) = chain (qlink s3) p (C k)" for p by (rule lseg_cong)
    with links3 [OF k(1)] k(2) show ?thesis by (auto simp: cq_put_other)
  qed
  have rep: "callers_rep ?s ?C"
    unfolding callers_rep_def
  proof
    fix k
    assume k: "k \<in> procs"
    have "set (C k) = {y \<in> procs. sending s y \<and> sendto s y = k}" using C k by (simp add: callers_rep_def)
    moreover have "{y \<in> procs. sending ?s y \<and> sendto ?s y = k} =
      {y \<in> procs. sending s y \<and> sendto s y = k} - {x}"
      using f3(2) by (auto simp: f3(1) t3 split: if_splits)
    moreover have "set (?C k) = set (C k) - {x}"
      using dist x callers_member [OF C k, of x] xs(3) by (cases "k = d") auto
    ultimately have "set (?C k) = {y \<in> procs. sending ?s y \<and> sendto ?s y = k}" by simp
    moreover have "chain (qlink ?s) (p_caller_q (proc_tab ?s k)) (?C k)"
      using new old [OF k] by (cases "k = d") (simp_all only: cq_get.simps fun_upd_same fun_upd_other simp_thms)
    ultimately show "chain (qlink ?s) (p_caller_q (proc_tab ?s k)) (?C k) \<and>
      set (?C k) = {y \<in> procs. sending ?s y \<and> sendto ?s y = k}" by blast
  qed
  have "(y, z) \<in> send_edges s" if "(y, z) \<in> send_edges ?s" for y z
    using that f3(2) by (cases "y = x") (simp_all add: send_edge_iff f3(1) t3)
  then have "send_edges ?s \<subseteq> send_edges s" by auto
  then have "acyclic (send_edges ?s)" using wf unfolding ipc_wf_def by (metis acyclic_subset)
  moreover have "\<forall>y \<in> procs. (sending ?s y \<longrightarrow> sendto ?s y \<in> procs) \<and>
      (sending ?s y \<or> receiving ?s y \<longrightarrow> alive ?s y)"
    using wf f3(2,3) by (simp add: f3(1) t3 ipc_wf_def)
  ultimately have "ipc_wf ?s" using rep unfolding ipc_wf_def by blast
  with rep show ?thesis by blast
qed

text \<open>The body of \<open>mini_receive\<close> in three parts, as the source comments divide it.\<close>

definition recv_block :: "int \<Rightarrow> int \<Rightarrow> u32 \<Rightarrow> u32 \<Rightarrow> kstate \<Rightarrow> (int \<times> kstate) res" where
  "recv_block caller src m_ptr flags s =
     (if flags AND NON_BLOCKING = 0
      then bindr (rts_set RECEIVING caller
                   (set_proc caller ((proc_tab s caller)\<lparr>p_getfrom := src, p_messbuf := m_ptr\<rparr>) s))
             (\<lambda>s2. Inr (OK, s2))
      else Inr (ENOTREADY, s))"

definition recv_callers :: "int \<Rightarrow> int \<Rightarrow> u32 \<Rightarrow> u32 \<Rightarrow> kstate \<Rightarrow> (int \<times> kstate) res" where
  "recv_callers caller src m_ptr flags s =
     (case walk (\<lambda>l. cq_get caller l s) (\<lambda>x. src = ANY \<or> src = p_nr (proc_tab s x)) Head of
        None \<Rightarrow> Inl Hang
      | Some xpp \<Rightarrow> (case cq_get caller xpp s of
          None \<Rightarrow> recv_block caller src m_ptr flags s
        | Some x \<Rightarrow>
            bindr (rts_unset SENDING x
                     (CopyMess (p_nr (proc_tab s x)) x (p_messbuf (proc_tab s x)) caller m_ptr s)) (\<lambda>s3.
            Inr (OK, cq_put caller xpp (p_q_link (proc_tab s3 x)) s3))))"

definition recv_notify :: "int \<Rightarrow> nat \<Rightarrow> nat \<Rightarrow> u32 \<Rightarrow> kstate \<Rightarrow> kstate" where
  "recv_notify caller cp src_id m_ptr s =
     (let nr = s_proc_nr (priv_tab s src_id);
          s1 = set_priv cp ((priv_tab s cp)\<lparr>s_notify_pending :=
                 unset_sys_bit (s_notify_pending (priv_tab s cp)) src_id\<rparr>) s;
          (m, s2) = BuildMess (stk_mess s1) nr cp s1
      in CopyKMess nr m caller m_ptr s2)"

definition pending_source :: "kstate \<Rightarrow> nat \<Rightarrow> int \<Rightarrow> nat option" where
  "pending_source s cp src =
     notif_search (\<lambda>i. s_proc_nr (priv_tab s i)) src (s_notify_pending (priv_tab s cp)) [0, 1]"

lemma mini_receive_parts:
  "mini_receive caller src m_ptr flags s =
     (if sending s caller then recv_block caller src m_ptr flags s
      else bindr (priv_of s caller) (\<lambda>cp.
           if s_flags (priv_tab s cp) AND SENDREC_BUSY \<noteq> 0 then recv_callers caller src m_ptr flags s
           else case pending_source s cp src of
                  None \<Rightarrow> recv_callers caller src m_ptr flags s
                | Some src_id \<Rightarrow> Inr (OK, recv_notify caller cp src_id m_ptr s)))"
  unfolding mini_receive_def Let_def recv_callers_def recv_block_def recv_notify_def pending_source_def
  by (auto split: option.splits prod.splits intro!: arg_cong [where f = "bindr _"] ext)

lemma recv_block_ok:
  assumes wf: "kwf s" and c: "caller \<in> procs" "alive s caller"
  shows "\<exists>s'. recv_block caller src m_ptr flags s =
    Inr (if flags AND NON_BLOCKING = 0 then OK else ENOTREADY, s') \<and> kwf s' \<and> keeps s s'"
proof (cases "flags AND NON_BLOCKING = 0")
  case True
  let ?s1 = "set_proc caller ((proc_tab s caller)\<lparr>p_getfrom := src, p_messbuf := m_ptr\<rparr>) s"
  have "kwf ?s1" using wf by (rule kwf_cong) (auto simp: sched_view_def ipc_view_def)
  from rts_set_kwf [OF this c(1), of RECEIVING] c(2) obtain s2 where
    s2: "rts_set RECEIVING caller ?s1 = Inr s2" "kwf s2" "keeps ?s1 s2" by auto
  have "keeps s ?s1" by (simp add: keeps_def devices_def)
  from this s2(3) have "keeps s s2" by (rule keeps_trans)
  with s2 True show ?thesis by (auto simp: recv_block_def)
qed (use wf in \<open>simp add: recv_block_def\<close>)

text \<open>
  The search in the caller queue: the first acceptable sender is served, its message copied,
  its flag cleared, and it leaves the queue.
\<close>

lemma recv_search:
  assumes C: "callers_rep s C" and c: "caller \<in> procs" and x: "C caller = us @ xs"
    and us: "\<forall>y \<in> set us. \<not> P y" and xs: "xs \<noteq> [] \<longrightarrow> P (hd xs)"
  shows "walk (\<lambda>l. cq_get caller l s) P Head = Some (loc_after us)"
    and "cq_get caller (loc_after us) s = head_opt xs"
proof -
  have links: "cq.links caller s (us @ xs) None" using C c x by (auto simp: callers_rep_def)
  have "takeWhile (\<lambda>y. \<not> P y) (us @ xs) = us"
    using us xs by (cases xs) (simp_all add: takeWhile_append2 takeWhile_eq_all_conv)
  with cq.walk_whole [OF links, of P] show "walk (\<lambda>l. cq_get caller l s) P Head = Some (loc_after us)"
    by (simp only:)
  from links obtain r where r: "cq.links caller s us r" "chain (\<lambda>x. cq_get caller (Next x) s) r xs"
    unfolding lseg_append by blast
  have "cq_get caller (loc_after us) s = r" using r(1) by (rule cq.get_loc_after)
  with r(2) show "cq_get caller (loc_after us) s = head_opt xs"
    by (simp only: chain_head)
qed

lemma recv_take:
  assumes wf: "kwf s" and C: "callers_rep s C" and c: "caller \<in> procs"
    and x: "C caller = us @ x # vs" and P: "src = ANY \<or> src = x"
    and us: "\<forall>y \<in> set us. src \<noteq> ANY \<and> src \<noteq> y"
  shows "\<exists>s'. recv_callers caller src m_ptr flags s = Inr (OK, s') \<and> kwf s' \<and> keeps s s' \<and>
    callers_rep s' (C(caller := us @ vs)) \<and>
    flags_of s' = (flags_of s)(x := flags_of s x AND NOT SENDING) \<and>
    memory s' = memory (CopyMess x x (p_messbuf (proc_tab s x)) caller m_ptr s)"
proof -
  from wf have iwf: "ipc_wf s" by (simp add: kwf_def)
  have nr: "p_nr (proc_tab s y) = y" if "y \<in> set (C caller)" for y
    using callers_member [OF C c that] kwf_procD(1) [OF wf] by blast
  have in_C: "x \<in> set (C caller)" "set us \<subseteq> set (C caller)" using x by auto
  let ?P = "\<lambda>y. src = ANY \<or> src = p_nr (proc_tab s y)"
  have us': "\<forall>y \<in> set us. \<not> ?P y"
  proof
    fix y
    assume "y \<in> set us"
    with us in_C(2) nr [of y] show "\<not> ?P y" by auto
  qed
  have "?P x" using nr [OF in_C(1)] P by simp
  then have "x # vs \<noteq> [] \<longrightarrow> ?P (hd (x # vs))" by simp
  note w = recv_search [OF C c x us' this]
  from in_C(1) have xp: "x \<in> procs" "sending s x" using callers_member [OF C c] by auto
  have live: "alive s x" using wf xp by (rule kwf_procD(4))
  let ?s1 = "CopyMess x x (p_messbuf (proc_tab s x)) caller m_ptr s"
  let ?f = "flags_of s x AND NOT SENDING"
  have "kwf ?s1" using wf by simp
  then have "sched_wf ?s1" by (simp add: kwf_def)
  moreover have "alive ?s1 x" "flags_of ?s1 x \<noteq> 0" using live xp(2) by auto
  ultimately obtain s3 where s3: "rts_unset SENDING x ?s1 = Inr s3" "sched_wf s3"
    "sched_frame (set_flags x ?f ?s1) s3"
    using rts_unset_sched [of ?s1 x SENDING] xp(1) by auto
  let ?s = "cq_put caller (loc_after us) (qlink s3 x) s3"
  have "?f AND SENDING = 0" by (rule flag_clear_same)
  moreover have free: "?f AND SLOT_FREE = 0"
    using live flag_clear_other [of SENDING SLOT_FREE "flags_of s x"] by simp
  moreover have fields: "p_caller_q (proc_tab s3 y) = p_caller_q (proc_tab s y)" "qlink s3 y = qlink s y"
    "flags_of s3 y = (if y = x then ?f else flags_of s y)" "sendto s3 y = sendto s y"
    "p_priv (proc_tab s3 y) = p_priv (proc_tab s y)" "p_memmap (proc_tab s3 y) = p_memmap (proc_tab s y)" for y
    using sched_frame_proc(12,13,6,16,5,9) [OF s3(3), of y] by auto
  ultimately have "ipc_wf ?s \<and> callers_rep ?s (C(caller := us @ vs))"
    by (intro unqueue_sender [OF iwf C c x]) (auto intro: free)
  moreover have "sched_wf ?s" using s3(2) by (rule sched_wf_cq_put)
  moreover have "devices s3 = devices s" using devices_frame [OF s3(3)] by (simp add: devices_def CopyMess_def)
  then have "keeps s ?s"
    unfolding keeps_def cq_put_fields cq_put_priv fields using free live by simp
  moreover have "recv_callers caller src m_ptr flags s = Inr (OK, ?s)"
    unfolding recv_callers_def w(1) using w(2) s3(1) nr [OF in_C(1)] by simp
  moreover have "flags_of ?s = (flags_of s)(x := ?f)"
    by (rule ext) (simp only: cq_put_fields fields fun_upd_apply)
  moreover have "memory ?s = memory ?s1"
    using sched_frameD(15) [OF s3(3)] by (cases "loc_after us") simp_all
  ultimately show ?thesis unfolding kwf_def by blast
qed

lemma recv_none:
  assumes wf: "kwf s" and C: "callers_rep s C" and c: "caller \<in> procs"
    and none: "\<forall>y \<in> set (C caller). src \<noteq> ANY \<and> src \<noteq> y"
  shows "recv_callers caller src m_ptr flags s = recv_block caller src m_ptr flags s"
proof -
  have "\<forall>y \<in> set (C caller). \<not> (src = ANY \<or> src = p_nr (proc_tab s y))"
    using none callers_member [OF C c] kwf_procD(1) [OF wf] by metis
  note w = recv_search [OF C c _ this, of "[]"]
  show ?thesis unfolding recv_callers_def using w by simp
qed

lemma recv_callers_ok:
  assumes wf: "kwf s" and c: "caller \<in> procs" "alive s caller"
  shows "\<exists>r s'. recv_callers caller src m_ptr flags s = Inr (r, s') \<and> kwf s' \<and> keeps s s' \<and>
    r \<in> {OK, ENOTREADY}"
proof -
  from wf obtain C where C: "callers_rep s C" by (auto simp: kwf_def ipc_wf_def)
  show ?thesis
  proof (cases "\<exists>y \<in> set (C caller). src = ANY \<or> src = y")
    case True
    then obtain us x vs where "C caller = us @ x # vs" "src = ANY \<or> src = x"
      "\<forall>y \<in> set us. \<not> (src = ANY \<or> src = y)"
      using split_list_first_prop [of "C caller" "\<lambda>y. src = ANY \<or> src = y"] by blast
    with recv_take [OF wf C c(1), of us x vs src m_ptr flags] show ?thesis by auto
  next
    case False
    with recv_none [OF wf C c(1), of src m_ptr flags] recv_block_ok [OF wf c, of src m_ptr flags]
    show ?thesis by auto
  qed
qed

lemma recv_notify_proc: "proc_tab (recv_notify caller cp src_id m_ptr s) = proc_tab s"
  unfolding recv_notify_def Let_def by (auto split: prod.splits dest: BuildMess_proc)

lemma recv_notify_devices: "devices (recv_notify caller cp src_id m_ptr s) = devices s"
  unfolding recv_notify_def Let_def
  by (auto split: prod.splits dest!: devices_BuildMess)

lemma recv_notify_kwf:
  assumes "kwf s"
  shows "kwf (recv_notify caller cp src_id m_ptr s)"
proof -
  let ?s1 = "set_priv cp ((priv_tab s cp)\<lparr>s_notify_pending :=
     unset_sys_bit (s_notify_pending (priv_tab s cp)) src_id\<rparr>) s"
  have "kwf ?s1" using assms by (rule kwf_cong) auto
  then show ?thesis
    unfolding recv_notify_def Let_def
    by (auto split: prod.splits dest: BuildMess_kwf simp del: fun_upd_apply)
qed

lemma mini_receive_ok:
  assumes wf: "kwf s" and c: "caller \<in> procs" "alive s caller"
  shows "\<exists>r s'. mini_receive caller src m_ptr flags s = Inr (r, s') \<and> kwf s' \<and> keeps s s' \<and>
    r \<in> {OK, ENOTREADY}"
proof -
  from kwf_procD(6) [OF wf c] obtain cp where cp: "priv_of s caller = Inr cp"
    by (auto simp: priv_of_def)
  show ?thesis
    using recv_block_ok [OF wf c, of src m_ptr flags] recv_callers_ok [OF wf c, of src m_ptr flags]
      recv_notify_kwf [OF wf] keeps_proc_tab [OF recv_notify_proc recv_notify_devices]
    by (auto simp: mini_receive_parts cp split: option.splits)
qed

section \<open>The sample state satisfies the invariant\<close>

lemma flags_sample:
  "flags_of sample x = (if x = 1 then 0 else if x = HARDWARE then NO_MAP
     else if - 4 \<le> x \<and> x \<le> 4 then RECEIVING else SLOT_FREE)"
  by (simp add: sample_def sample_proc_def)

lemma kwf_sample: "kwf sample"
proof -
  have "{x \<in> procs. flags_of sample x = 0} = {1}"
    by (auto simp: flags_sample procs_def isokprocn_def)
  moreover have "ready_set sample {1}"
    unfolding ready_set_def using rq_rep_sample queued_sample by blast
  moreover have "can_sched sample x" if "alive sample x" for x
    using that can_sched_sample [of x] by (auto simp: flags_sample split: if_splits)
  moreover have "p_nr (proc_tab sample x) = x" for x by (simp add: sample_def sample_proc_def)
  moreover have "flags_of sample HARDWARE = NO_MAP" by (simp add: flags_sample)
  moreover have "can_sched sample x \<Longrightarrow> p_priv (proc_tab sample x) \<noteq> None" for x by (simp add: can_sched_def)
  ultimately have "sched_wf sample" by (simp add: sched_wf_def slot_ok_def)
  moreover have "\<not> sending sample x" for x by (simp add: flags_sample)
  then have "send_edges sample = {}" "callers_rep sample (\<lambda>_. [])"
    by (simp_all add: send_edges_def callers_rep_def) (simp add: sample_def sample_proc_def)
  then have "ipc_wf sample" unfolding ipc_wf_def
    by (auto simp: flags_sample acyclic_def)
  ultimately show ?thesis by (simp add: kwf_def)
qed

section \<open>Properties\<close>

text \<open>
  C1: a send of a live process that is not itself blocked in a send, to another process, always
  returns (a process that sends to itself is excluded: it breaks the invariant). It gives
  \<open>ELOCKED\<close> exactly when the destination already waits, directly or through others, for the
  caller; otherwise it succeeds when the destination
  waits for the caller or blocking is allowed. The invariant of the process table holds again:
  ready queues, caller queues, and no circular waiting.
\<close>

theorem mini_send_total:
  assumes "kwf s" and "caller \<in> procs" and "alive s caller" and "\<not> sending s caller"
    and "dst \<in> procs" and "dst \<noteq> caller"
  shows "\<exists>r s'. mini_send caller dst m_ptr flags s = Inr (r, s') \<and> kwf s' \<and> keeps s s' \<and>
    r = (if (dst, caller) \<in> (send_edges s)\<^sup>+ then ELOCKED
         else if waits_for s dst caller \<or> flags AND NON_BLOCKING = 0 then OK else ENOTREADY)"
  using assms by (rule mini_send_ok)

theorem mini_send_total_witness:
  "kwf sample \<and> (\<exists>s'. mini_send 1 0 512 0 sample = Inr (OK, s') \<and> kwf s')"
proof -
  have "(1::int) \<in> procs" "(0::int) \<in> procs" "alive sample 1" "\<not> sending sample 1" "(0::int) \<noteq> 1"
    by (simp_all add: procs_def isokprocn_def flags_sample)
  note hyps = this
  have "(0, 1) \<notin> (send_edges sample)\<^sup>+"
    by (auto simp: send_edge_iff flags_sample dest!: tranclD)
  moreover from mini_send_total [OF kwf_sample hyps(1,3,4,2,5), of 512 0] obtain r s' where
    "mini_send 1 0 512 0 sample = Inr (r, s')" "kwf s'"
    "r = (if (0, 1) \<in> (send_edges sample)\<^sup>+ then ELOCKED
         else if waits_for sample 0 1 \<or> (0::u32) AND NON_BLOCKING = 0 then OK else ENOTREADY)" by blast
  ultimately show ?thesis using kwf_sample by auto
qed

text \<open>
  C5: a message sent to a process that waits for it arrives: the receiver's buffer holds the
  sender's number and the eight other words of the sender's buffer, no other memory changes,
  and the receiver no longer waits (it is on a ready queue unless another flag holds it).
\<close>

theorem mini_send_delivers:
  assumes "kwf s" and "caller \<in> procs" and "dst \<in> procs" and "waits_for s dst caller"
    and "src_buf = push_bit 10 (mem_phys (p_memmap (proc_tab s caller) D_seg)) + m_ptr"
    and "dst_buf = push_bit 10 (mem_phys (p_memmap (proc_tab s dst) D_seg)) + p_messbuf (proc_tab s dst)"
    and "span src_buf 36 \<inter> span dst_buf 36 = {}"
  shows "\<exists>s'. mini_send caller dst m_ptr flags s = Inr (OK, s') \<and> kwf s' \<and>
    flags_of s' dst = flags_of s dst AND NOT RECEIVING \<and>
    get32 (memory s') dst_buf = word_of_int caller \<and>
    (\<forall>i. 1 \<le> i \<and> i < 9 \<longrightarrow>
       get32 (memory s') (dst_buf + of_nat (4 * i)) = get32 (memory s) (src_buf + of_nat (4 * i))) \<and>
    (\<forall>x. x \<notin> span dst_buf 36 \<longrightarrow> memory s' x = memory s x)"
proof -
  from mini_send_deliver [OF assms(1-4), of m_ptr flags] obtain s' where
    s': "mini_send caller dst m_ptr flags s = Inr (OK, s')" "kwf s'"
    "sched_frame (set_flags dst (flags_of s dst AND NOT RECEIVING)
      (CopyMess caller caller m_ptr dst (p_messbuf (proc_tab s dst)) s)) s'" by blast
  have "flags_of s' dst = flags_of s dst AND NOT RECEIVING"
    using sched_frame_proc(6) [OF s'(3), of dst] by simp
  moreover have "memory s' = cp_mess caller (mem_phys (p_memmap (proc_tab s caller) D_seg)) m_ptr
      (mem_phys (p_memmap (proc_tab s dst) D_seg)) (p_messbuf (proc_tab s dst)) (memory s)"
    using sched_frameD(15) [OF s'(3)] by (simp add: CopyMess_def)
  ultimately show ?thesis
    using s'(1,2) cp_mess_words [OF assms(5-7), where src = caller and m = "memory s"] by simp
qed

theorem mini_send_delivers_witness:
  "\<exists>s'. mini_send 1 0 512 0 sample = Inr (OK, s') \<and> get32 (memory s') 82432 = 1"
proof -
  have "(1::int) \<in> procs" "(0::int) \<in> procs" "waits_for sample 0 1"
    by (simp_all add: procs_def isokprocn_def waits_for_def sample_def sample_proc_def)
  moreover have "(98816::u32) = push_bit 10 (mem_phys (p_memmap (proc_tab sample 1) D_seg)) + 512"
    "(82432::u32) = push_bit 10 (mem_phys (p_memmap (proc_tab sample 0) D_seg)) +
       p_messbuf (proc_tab sample 0)"
    by (simp_all add: sample_def sample_proc_def)
  moreover have "span (98816::u32) 36 \<inter> span 82432 36 = {}"
    using span_disjoint [of 82432 36 98816 36] by (simp add: Int_commute)
  ultimately show ?thesis using mini_send_delivers [OF kwf_sample, of 1 0 98816 512 82432 0] by auto
qed

text \<open>
  A sender that blocks is linked in behind all senders that already wait for the same
  destination, and its slot records the destination.
\<close>

theorem mini_send_appends:
  assumes "kwf s" and "callers_rep s C" and "caller \<in> procs" and "alive s caller"
    and "\<not> sending s caller" and "dst \<in> procs" and "dst \<noteq> caller"
    and "(dst, caller) \<notin> (send_edges s)\<^sup>+" and "\<not> waits_for s dst caller"
    and "flags AND NON_BLOCKING = 0"
  shows "\<exists>s'. mini_send caller dst m_ptr flags s = Inr (OK, s') \<and>
    callers_rep s' (C(dst := C dst @ [caller])) \<and> sendto s' caller = dst \<and>
    flags_of s' = (flags_of s)(caller := flags_of s caller OR SENDING)"
  using mini_send_block [OF assms] by blast

definition sample_blocked :: kstate where
  "sample_blocked = set_flags 3 P_STOP sample"

lemma sample_blocked_wf: "kwf sample_blocked" "callers_rep sample_blocked (\<lambda>_. [])"
proof -
  have "sample_blocked = set_flags 3 P_STOP sample" by (rule sample_blocked_def)
  moreover have "sched_wf (set_flags 3 P_STOP sample)"
    using kwf_sample by (intro sched_wf_blocked) (simp_all add: kwf_def flags_sample)
  moreover have "ipc_wf (set_flags 3 P_STOP sample)"
    using kwf_sample by (intro ipc_wf_set_flags) (simp_all add: kwf_def flags_sample)
  ultimately show "kwf sample_blocked" by (simp only: kwf_def simp_thms)
  have "\<not> sending sample_blocked x" for x by (simp add: sample_blocked_def flags_sample)
  then show "callers_rep sample_blocked (\<lambda>_. [])"
    by (simp add: callers_rep_def) (simp add: sample_blocked_def sample_def sample_proc_def)
qed

theorem mini_send_appends_witness:
  "\<exists>s'. mini_send 1 3 512 0 sample_blocked = Inr (OK, s') \<and> callers_rep s' ((\<lambda>_. [])(3 := [1]))"
proof -
  have f: "flags_of sample_blocked 3 = P_STOP" "flags_of sample_blocked 1 = 0"
    by (simp_all add: sample_blocked_def flags_sample)
  have "(1::int) \<in> procs" "(3::int) \<in> procs" by (simp_all add: procs_def isokprocn_def)
  moreover have "(3, 1) \<notin> (send_edges sample_blocked)\<^sup>+"
    using f by (auto simp: send_edge_iff dest!: tranclD)
  moreover have "\<not> waits_for sample_blocked 3 1" using f by (simp add: waits_for_def)
  ultimately show ?thesis
    using mini_send_appends [OF sample_blocked_wf, of 1 3 0 512] f by auto
qed

text \<open>
  C6: \<open>mini_receive\<close> serves the sender that has waited longest among the acceptable ones:
  its message is copied, its \<open>SENDING\<close> flag is cleared, and the other senders keep their order.
\<close>

theorem mini_receive_fifo:
  assumes "kwf s" and "callers_rep s C" and "caller \<in> procs" and "alive s caller"
    and "\<not> sending s caller" and "p_priv (proc_tab s caller) = Some cp"
    and "s_flags (priv_tab s cp) AND SENDREC_BUSY \<noteq> 0 \<or> pending_source s cp src = None"
    and "C caller = us @ x # vs" and "src = ANY \<or> src = x"
    and "\<forall>y \<in> set us. src \<noteq> ANY \<and> src \<noteq> y"
  shows "\<exists>s'. mini_receive caller src m_ptr flags s = Inr (OK, s') \<and> kwf s' \<and>
    callers_rep s' (C(caller := us @ vs)) \<and>
    flags_of s' = (flags_of s)(x := flags_of s x AND NOT SENDING) \<and>
    memory s' = memory (CopyMess x x (p_messbuf (proc_tab s x)) caller m_ptr s)"
proof -
  have "mini_receive caller src m_ptr flags s = recv_callers caller src m_ptr flags s"
    using assms(5-7) by (auto simp: mini_receive_parts priv_of_def)
  with recv_take [OF assms(1-3,8-10), of m_ptr flags] show ?thesis by auto
qed

theorem mini_receive_fifo_witness:
  "\<exists>s s'. mini_send 1 3 512 0 sample_blocked = Inr (OK, s) \<and>
     mini_receive 3 ANY 512 0 s = Inr (OK, s') \<and> kwf s' \<and> flags_of s' 1 = 0"
proof -
  have f: "flags_of sample_blocked 3 = P_STOP" "flags_of sample_blocked 1 = 0"
    by (simp_all add: sample_blocked_def flags_sample)
  have p: "(1::int) \<in> procs" "(3::int) \<in> procs" by (simp_all add: procs_def isokprocn_def)
  have "(3, 1) \<notin> (send_edges sample_blocked)\<^sup>+"
    using f by (auto simp: send_edge_iff dest!: tranclD)
  moreover have "\<not> waits_for sample_blocked 3 1" using f by (simp add: waits_for_def)
  ultimately obtain s where s: "mini_send 1 3 512 0 sample_blocked = Inr (OK, s)" "kwf s" "keeps sample_blocked s"
    "flags_of s = (flags_of sample_blocked)(1 := flags_of sample_blocked 1 OR SENDING)"
    "callers_rep s ((\<lambda>_. [])(3 := (\<lambda>_. []) 3 @ [1]))" "priv_tab s = priv_tab sample_blocked"
    using mini_send_block [OF sample_blocked_wf, of 1 3 0 512] p f by auto
  have pr: "p_priv (proc_tab s 3) = Some 8"
    using s(3) by (simp add: keeps_def sample_blocked_def sample_def sample_proc_def)
  have pt: "priv_tab s = sample_priv" using s(6) by (simp add: sample_blocked_def sample_def)
  have ps: "pending_source s 8 ANY = None"
    by (simp add: pending_source_def pt sample_priv_def)
  have "\<exists>s'. mini_receive 3 ANY 512 0 s = Inr (OK, s') \<and> kwf s' \<and>
    callers_rep s' (((\<lambda>_. [])(3 := (\<lambda>_. []) 3 @ [1]))(3 := [] @ [])) \<and>
    flags_of s' = (flags_of s)(1 := flags_of s 1 AND NOT SENDING) \<and>
    memory s' = memory (CopyMess 1 1 (p_messbuf (proc_tab s 1)) 3 512 s)"
    by (rule mini_receive_fifo [OF s(2,5) p(2) _ _ pr disjI2 [OF ps], of "[]" 1 "[]"])
      (simp_all add: fun_cong [OF s(4)] f)
  then obtain s' where s': "mini_receive 3 ANY 512 0 s = Inr (OK, s')" "kwf s'"
    "flags_of s' = (flags_of s)(1 := flags_of s 1 AND NOT SENDING)" by blast
  have "flags_of s' 1 = 0" using fun_cong [OF s'(3), of 1] fun_cong [OF s(4), of 1] f by simp
  with s' s(1) show ?thesis by blast
qed

text \<open>
  C7: \<open>mini_receive\<close> always returns and keeps the invariant; with blocking allowed it never
  fails (the caller then either has its message or is blocked as a receiver).
\<close>

theorem mini_receive_total:
  assumes "kwf s" and "caller \<in> procs" and "alive s caller"
  shows "\<exists>r s'. mini_receive caller src m_ptr flags s = Inr (r, s') \<and> kwf s' \<and> keeps s s' \<and>
    r \<in> {OK, ENOTREADY}"
  using assms by (rule mini_receive_ok)

theorem mini_receive_total_witness:
  "\<exists>r s'. mini_receive 1 ANY 512 0 sample = Inr (r, s') \<and> kwf s'"
  using mini_receive_total [OF kwf_sample, of 1 ANY 512 0]
  by (auto simp: procs_def isokprocn_def flags_sample)

lemma locked_on_self:
  assumes "sending s x" and "sendto s x = x" and "isokprocn x" and "caller \<noteq> x"
  shows "mini_send caller x m_ptr flags s = Inl Hang"
proof -
  have "\<not> (s' = s \<and> c = caller \<and> y = x)" if "send_locked s' c y = Some r" for s' c y r
    by (rule send_locked.raw_induct [where P = "\<lambda>s' c y r. \<not> (s' = s \<and> c = caller \<and> y = x)", OF _ that])
      (use assms in \<open>auto split: if_splits; blast\<close>)
  then have "send_locked s caller x = None" by (cases "send_locked s caller x") auto
  then show ?thesis using assms(3) by (simp add: mini_send_def)
qed

text \<open>A running process that sends to itself is queued behind its own senders.\<close>

lemma mini_send_self:
  assumes wf: "kwf s" and x: "x \<in> procs" "flags_of s x = 0" and fl: "flags AND NON_BLOCKING = 0"
  shows "\<exists>s'. mini_send x x m_ptr flags s = Inr (OK, s') \<and> flags_of s' x = SENDING \<and> sendto s' x = x"
proof -
  let ?s1 = "set_proc x ((proc_tab s x)\<lparr>p_messbuf := m_ptr\<rparr>) s"
  have pa: "proc_addr x = Inr x" using x(1) by (simp add: procs_def)
  have lk: "ran (send_locked s x x) = Inr False" using x(2) by (subst send_locked.simps) simp
  have w: "\<not> waits_for s x n" for n using x(2) by (simp add: waits_for_def)
  have "sched_wf ?s1" using kwf_messbuf [OF wf] by (simp add: kwf_def)
  then obtain s3 where s3: "rts_set SENDING x ?s1 = Inr s3" "sched_frame (set_flags x SENDING ?s1) s3"
    using rts_set_sched [of ?s1 x SENDING] x by auto
  define s4 where "s4 = set_proc x ((proc_tab s3 x)\<lparr>p_sendto := x\<rparr>) s3"
  have fields: "p_caller_q (proc_tab s4 y) = p_caller_q (proc_tab s y)" "qlink s4 y = qlink s y"
    "flags_of s4 x = SENDING" "sendto s4 x = x" for y
    using sched_frame_proc(12,13,6,16) [OF s3(2), of y] sched_frame_proc(6) [OF s3(2), of x] by (auto simp: s4_def)
  from wf obtain C where C: "callers_rep s C" by (auto simp: kwf_def ipc_wf_def)
  have "cq.links x s4 (C x) None" using C x(1) by (simp add: callers_rep_def fields)
  then have "walk (\<lambda>l. cq_get x l s4) (\<lambda>_. False) Head = Some (loc_after (C x))"
    using cq.walk_whole [of x s4 "C x" "\<lambda>_. False"] by (simp add: takeWhile_eq_all_conv [THEN iffD2] del: cq_get.simps)
  then have "mini_send x x m_ptr flags s =
      Inr (OK, cq_put x (Next x) None (cq_put x (loc_after (C x)) (Some x) s4))"
    using lk w fl s3(1) by (simp add: mini_send_def pa Let_def s4_def)
  then show ?thesis
    by (intro exI [of _ "cq_put x (Next x) None (cq_put x (loc_after (C x)) (Some x) s4)"]) 
      (simp only: cq_put_fields fields simp_thms)
qed

text \<open>
  C8: a notification between two processes with privilege structures always returns and never
  blocks the sender. A destination that waits for it and is not inside a \<open>SENDREC\<close> has it at once:
  its buffer holds the sender's number, the notification type of that sender and the time, with
  the pending interrupts or signals when the sender is \<open>HARDWARE\<close> or \<open>SYSTEM\<close> (which are then
  cleared), and only its \<open>RECEIVING\<close> flag and its buffer change. Otherwise the notification is
  recorded as pending under the sender's id, without losing others that are pending.
\<close>

theorem mini_notify_total:
  assumes "kwf s" and "dst \<in> procs" and "p_priv (proc_tab s dst) = Some dp"
    and "caller \<in> procs" and "p_priv (proc_tab s caller) = Some cp"
    and "buf = push_bit 10 (mem_phys (p_memmap (proc_tab s dst) D_seg)) + p_messbuf (proc_tab s dst)"
  shows "\<exists>s'. mini_notify caller dst s = Inr (OK, s') \<and> kwf s' \<and>
    (if waits_for s dst caller \<and> s_flags (priv_tab s dp) AND SENDREC_BUSY = 0
     then flags_of s' = (flags_of s)(dst := flags_of s dst AND NOT RECEIVING) \<and>
          get32 (memory s') buf = word_of_int caller \<and>
          get32 (memory s') (buf + 4) = word_of_int (NOTIFY_FROM caller) \<and>
          get32 (memory s') (buf + 24) = word_of_int (realtime s) \<and>
          (caller = HARDWARE \<longrightarrow> get32 (memory s') (buf + 20) = s_int_pending (priv_tab s dp)) \<and>
          (caller = SYSTEM \<longrightarrow> get32 (memory s') (buf + 20) = s_sig_pending (priv_tab s dp)) \<and>
          (\<forall>x. x \<notin> span buf 36 \<longrightarrow> memory s' x = memory s x) \<and>
          priv_tab s' = (priv_tab s)(dp := (priv_tab s dp)
            \<lparr>s_int_pending := if caller = HARDWARE then 0 else s_int_pending (priv_tab s dp),
             s_sig_pending := if caller = SYSTEM then 0 else s_sig_pending (priv_tab s dp)\<rparr>)
     else (\<forall>i. get_sys_bit (s_notify_pending (priv_tab s' dp)) i \<longleftrightarrow>
              i = s_id (priv_tab s cp) \<or> get_sys_bit (s_notify_pending (priv_tab s dp)) i) \<and>
          proc_tab s' = proc_tab s \<and> memory s' = memory s)"
proof -
  from mini_notify_effect [OF assms(1-5)] obtain s' where s': "mini_notify caller dst s = Inr (OK, s')" "kwf s'"
    "\<not> (waits_for s dst caller \<and> s_flags (priv_tab s dp) AND SENDREC_BUSY = 0) \<Longrightarrow>
       (\<forall>i. get_sys_bit (s_notify_pending (priv_tab s' dp)) i \<longleftrightarrow>
          i = s_id (priv_tab s cp) \<or> get_sys_bit (s_notify_pending (priv_tab s dp)) i) \<and>
       proc_tab s' = proc_tab s" by auto
  show ?thesis
  proof (cases "waits_for s dst caller \<and> s_flags (priv_tab s dp) AND SENDREC_BUSY = 0")
    case True
    then have "waits_for s dst caller" "s_flags (priv_tab s dp) AND SENDREC_BUSY = 0" by simp_all
    from mini_notify_delivery [OF assms(1-4) this s'(1) assms(6)] show ?thesis
      by (intro exI [of _ s'] conjI s'(1,2)) (simp only: if_P [OF True] simp_thms, blast)
  next
    case False
    from s'(1,2) s'(3) [OF False] mini_notify_memory [OF assms(1-4) False s'(1)] show ?thesis
      by (intro exI [of _ s'] conjI s'(1,2)) (simp only: if_not_P [OF False] simp_thms)
  qed
qed

theorem mini_notify_total_witness:
  "\<exists>s'. mini_notify (- 2) 0 sample = Inr (OK, s') \<and> flags_of s' 0 = 0 \<and> get32 (memory s') 82436 = 4098"
proof -
  have "(- 2::int) \<in> procs" "(0::int) \<in> procs" "p_priv (proc_tab sample 0) = Some 5"
    "p_priv (proc_tab sample (- 2)) = Some 3" "waits_for sample 0 (- 2)"
    "s_flags (priv_tab sample 5) AND SENDREC_BUSY = 0"
    by (simp_all add: procs_def isokprocn_def waits_for_def sample_def sample_proc_def sample_priv_def)
  moreover have "(82432::u32) = push_bit 10 (mem_phys (p_memmap (proc_tab sample 0) D_seg)) + p_messbuf (proc_tab sample 0)"
    "NOTIFY_FROM (- 2) = 4098" "flags_of sample 0 = RECEIVING"
    by (simp_all add: sample_def sample_proc_def NOTIFY_FROM_def)
  ultimately obtain s' where s': "mini_notify (- 2) 0 sample = Inr (OK, s')"
    "flags_of s' = (flags_of sample)(0 := 0)" "get32 (memory s') 82436 = 4098"
    using mini_notify_total [OF kwf_sample, of 0 5 "- 2" 3 82432] by auto
  with fun_cong [OF s'(2), of 0] show ?thesis by auto
qed

text \<open>
  C13: the deadlock check of \<open>mini_send\<close> does not see a process that sends to itself. A blocking
  send of a running process to itself is accepted and leaves the process waiting for itself;
  from then on the check never ends for any other process that sends to it.
\<close>

theorem self_send_hangs:
  assumes "kwf s" and "x \<in> procs" and "flags_of s x = 0" and "flags AND NON_BLOCKING = 0"
  shows "\<exists>s'. mini_send x x m_ptr flags s = Inr (OK, s') \<and> flags_of s' x = SENDING \<and> sendto s' x = x \<and>
    (\<forall>caller m_ptr' flags'. caller \<noteq> x \<longrightarrow> mini_send caller x m_ptr' flags' s' = Inl Hang)"
proof -
  from mini_send_self [OF assms] obtain s' where s': "mini_send x x m_ptr flags s = Inr (OK, s')"
    "flags_of s' x = SENDING" "sendto s' x = x" by blast
  moreover have "sending s' x" by (simp add: s'(2))
  ultimately show ?thesis using locked_on_self [of s' x] assms(1,2) by (auto simp: procs_def)
qed

theorem self_send_hangs_witness:
  "\<exists>s'. mini_send 1 1 512 0 sample = Inr (OK, s') \<and> mini_send 3 1 512 0 s' = Inl Hang"
  using self_send_hangs [OF kwf_sample, of 1 0 512] by (auto simp: procs_def isokprocn_def flags_sample)

text \<open>
  only the lowest pending bit of a chunk is a candidate, so that a receive from one
  source can overlook a notification of that source while another one is pending.
\<close>

theorem receive_overlooks_notification:
  "\<exists>mp. get_sys_bit mp 5 \<and> notif_search (\<lambda>i. int i) 5 mp [0, 1] = None"
proof (intro exI conjI)
  let ?mp = "(\<lambda>c. if c = 0 then 48 else 0) :: sys_map"
  show "get_sys_bit ?mp 5" by (simp add: get_sys_bit_def)
  have "low_bit 48 0 = 4" by (simp add: low_bit.simps)
  then show "notif_search (\<lambda>i. int i) 5 ?mp [0, 1] = None" by simp
qed

end
