(* ===== verification/Kmess.thy ===== *)
theory Kmess
  imports Ipc
begin

unbundle bit_operations_syntax

text \<open>
  Kernel signals to system processes (\<open>send_sig\<close> of \<open>kernel/system.c\<close>) and kernel
  diagnostics (\<open>kputc\<close> and \<open>kprintf\<close> of \<open>kernel/utility.c\<close>). A kernel message is appended to
  a circular buffer and its end is a signal to the output driver, so that even an error
  message changes the state of processes.
\<close>

section \<open>Signals to system processes\<close>

definition send_sig :: "int \<Rightarrow> int \<Rightarrow> kstate \<Rightarrow> kstate res" where
  "send_sig n sig_nr s =
     bindr (proc_addr n) (\<lambda>rp.
     bindr (priv_of s rp) (\<lambda>i.
     let s1 = set_priv i ((priv_tab s i)\<lparr>s_sig_pending :=
                snd (sigaddset (s_sig_pending (priv_tab s i)) sig_nr)\<rparr>) s
     in bindr (lock_notify SYSTEM n s1) (\<lambda>(_, s2). Inr s2)))"

section \<open>The circular buffer\<close>

abbreviation (input) KMESS_BUF_SIZE :: nat where "KMESS_BUF_SIZE \<equiv> 256"

definition kputc :: "char \<Rightarrow> kmessages \<Rightarrow> kmessages" where
  "kputc c km =
     km\<lparr>km_buf := (km_buf km)(km_next km := c),
        km_size := (if km_size km < KMESS_BUF_SIZE then km_size km + 1 else km_size km),
        km_next := (km_next km + 1) mod KMESS_BUF_SIZE\<rparr>"

section \<open>Formatting\<close>

datatype karg = KInt int | KLong u32 | KStr "string option"

definition x2c :: string where
  "x2c = ''0123456789ABCDEF''"

text \<open>\<open>do \<dots> while ((u /= base) > 0)\<close>, working backwards from the last digit.\<close>

function num_digits :: "nat \<Rightarrow> nat \<Rightarrow> string \<Rightarrow> string" where
  "num_digits base u acc =
     (let acc' = x2c ! (u mod base) # acc
      in if base \<le> 1 \<or> u div base = 0 then acc' else num_digits base (u div base) acc')"
  by pat_completeness auto
termination
proof (relation "measure (\<lambda>(base, u, acc). u)", goal_cases)
  case (2 base u acc x)
  then have "1 < base" and "0 < u" by (auto intro: Nat.gr0I)
  then show ?case by simp
qed simp

declare num_digits.simps [simp del]

text \<open>
  The characters that \<open>kprintf\<close> emits: \<open>negative\<close> is set by a negative \<open>%d\<close> and never
  reset, so that every later conversion of the same call prints a sign too. Formats that end
  in a single percent sign or lack an argument are undefined in C; no call has one.
\<close>

fun kformat :: "string \<Rightarrow> karg list \<Rightarrow> bool \<Rightarrow> string" where
  "kformat [] args neg = []"
| "kformat [CHR ''%''] args neg = []"
| "kformat (c # k # fmt) args neg =
     (if c \<noteq> CHR ''%'' then c # kformat (k # fmt) args neg
      else let sign = (\<lambda>n. if n then ''-'' else '''') in
      if k = CHR ''d'' then
        (case args of
           KInt d # args' \<Rightarrow>
             sign (neg \<or> d < 0) @ num_digits 10 (unat (word_of_int \<bar>d\<bar> :: u32)) [] @
             kformat fmt args' (neg \<or> d < 0)
         | _ \<Rightarrow> [])
      else if k = CHR ''u'' \<or> k = CHR ''x'' then
        (case args of
           KLong u # args' \<Rightarrow>
             sign neg @ num_digits (if k = CHR ''u'' then 10 else 16) (unat u) [] @ kformat fmt args' neg
         | _ \<Rightarrow> [])
      else if k = CHR ''s'' then
        (case args of
           KStr p # args' \<Rightarrow>
             sign neg @ (case p of None \<Rightarrow> ''(null)'' | Some str \<Rightarrow> str) @ kformat fmt args' neg
         | _ \<Rightarrow> [])
      else if k = CHR ''%'' then sign neg @ ''%'' @ kformat fmt args neg
      else sign neg @ [CHR ''%'', k] @ kformat fmt args neg)"
| "kformat (c # fmt) args neg = c # kformat fmt args neg"

definition kprintf :: "string \<Rightarrow> karg list \<Rightarrow> kstate \<Rightarrow> kstate res" where
  "kprintf fmt args s =
     send_sig LOG_PROC_NR SIGKMESS (s\<lparr>kmess := fold kputc (kformat fmt args False) (kmess s)\<rparr>)"

section \<open>The buffer holds the last characters printed\<close>

definition km_wf :: "kmessages \<Rightarrow> bool" where
  "km_wf km \<longleftrightarrow> km_next km < KMESS_BUF_SIZE \<and> km_size km \<le> KMESS_BUF_SIZE"

text \<open>The contents in the order of printing: they end before \<open>km_next\<close>.\<close>

definition km_text :: "kmessages \<Rightarrow> string" where
  "km_text km = map (\<lambda>i. km_buf km ((km_next km + KMESS_BUF_SIZE - km_size km + i) mod KMESS_BUF_SIZE))
     [0..<km_size km]"

definition last_n :: "nat \<Rightarrow> 'a list \<Rightarrow> 'a list" where
  "last_n n xs = drop (length xs - n) xs"

lemma kputc_wf: "km_wf km \<Longrightarrow> km_wf (kputc c km)"
  by (auto simp: km_wf_def kputc_def)

lemma length_km_text [simp]: "length (km_text km) = km_size km"
  by (simp add: km_text_def)

lemma ring_back: "n < N \<Longrightarrow> 0 < e \<Longrightarrow> e \<le> N \<Longrightarrow> (n + e) mod N = n \<longleftrightarrow> e = (N::nat)"
  by (cases "n + e < N") (auto simp: le_mod_geq)

lemma ring_next:
  assumes "n < 256" "z < 256"
  shows "((n + 1) mod 256 + 256 - (z + 1) + i) mod 256 = (n + 256 - z + i) mod (256::nat)"
proof -
  have e: "(n + 1) mod 256 + 256 - (z + 1) + i = (n + 1) mod 256 + (255 - z + i)"
    "n + 256 - z + i = n + 1 + (255 - z + i)" using assms by auto
  show ?thesis unfolding e by (rule mod_add_left_eq)
qed

lemma kputc_text:
  assumes wf: "km_wf km"
  shows "km_text (kputc c km) = last_n KMESS_BUF_SIZE (km_text km @ [c])"
proof (rule nth_equalityI)
  show "length (km_text (kputc c km)) = length (last_n KMESS_BUF_SIZE (km_text km @ [c]))"
    using wf by (simp add: last_n_def kputc_def km_wf_def)
  fix i
  assume "i < length (km_text (kputc c km))"
  then have i: "i < km_size (kputc c km)" by simp
  obtain n z where nz: "km_next km = n" "km_size km = z" "n < 256" "z \<le> 256"
    using wf by (simp add: km_wf_def)
  show "km_text (kputc c km) ! i = last_n KMESS_BUF_SIZE (km_text km @ [c]) ! i"
  proof (cases "z < 256")
    case True
    have "i \<le> z" using i nz True by (simp add: kputc_def)
    have "((n + 1) mod 256 + 256 - (z + 1) + i) mod 256 = (n + 256 - z + i) mod 256"
      using nz(3) True by (rule ring_next)
    moreover have e: "n + 256 - z + i = n + (256 - z + i)" "256 - z + i = 256 \<longleftrightarrow> i = z" "0 < 256 - z + i"
      "256 - z + i \<le> 256" using True \<open>i \<le> z\<close> by auto
    moreover have "(n + 256 - z + i) mod 256 = n \<longleftrightarrow> i = z"
      unfolding e(1) ring_back [OF nz(3) e(3,4)] by (rule e(2))
    ultimately show ?thesis
      using nz True i by (auto simp: km_text_def kputc_def last_n_def nth_append)
  next
    case False
    with nz have z: "z = 256" by simp
    have "((n + 1) mod 256 + 256 - 256 + i) mod 256 = (n + 256 - 256 + (i + 1)) mod 256"
      using nz by (simp add: mod_simps)
    moreover have "(n + (i + 1)) mod 256 = n \<longleftrightarrow> i = 255"
      using ring_back [of n 256 "i + 1"] nz z i by (auto simp: kputc_def)
    ultimately show ?thesis
      using nz z i by (auto simp: km_text_def kputc_def last_n_def nth_append)
  qed
qed

lemma last_n_append: "last_n n (last_n n xs @ ys) = last_n n (xs @ ys)"
  by (cases "length xs \<le> n") (simp_all add: last_n_def add.commute)

lemma kputs_text:
  assumes "km_wf km"
  shows "km_wf (fold kputc cs km) \<and>
    km_text (fold kputc cs km) = last_n KMESS_BUF_SIZE (km_text km @ cs)"
  using assms
proof (induction cs arbitrary: km)
  case Nil
  then show ?case by (simp add: last_n_def km_wf_def)
next
  case (Cons c cs)
  from Cons.IH [OF kputc_wf [OF Cons.prems, of c]]
  show ?case by (simp add: kputc_text [OF Cons.prems] last_n_append)
qed

section \<open>Diagnostics keep the invariant\<close>

definition has_priv :: "kstate \<Rightarrow> int \<Rightarrow> bool" where
  "has_priv s x \<longleftrightarrow> x \<in> procs \<and> p_priv (proc_tab s x) \<noteq> None"

lemma special_procs [simp]:
  "SYSTEM \<in> procs" "CLOCK \<in> procs" "HARDWARE \<in> procs" "LOG_PROC_NR \<in> procs" "PM_PROC_NR \<in> procs"
  by (simp_all add: procs_def isokprocn_bounds)

lemma has_priv_keeps: "keeps s s' \<Longrightarrow> has_priv s' x = has_priv s x"
  by (simp add: has_priv_def keeps_def)

lemma lock_notify_ok:
  assumes "kwf s" and "has_priv s src" and "has_priv s dst"
  shows "\<exists>s'. lock_notify src dst s = Inr (OK, s') \<and> kwf s' \<and> keeps s s'"
  using assms mini_notify_ok [of s dst src] by (auto simp: lock_notify_def has_priv_def procs_def)

lemma send_sig_ok:
  assumes wf: "kwf s" and n: "has_priv s n" and sys: "has_priv s SYSTEM"
  shows "\<exists>s'. send_sig n sig_nr s = Inr s' \<and> kwf s' \<and> keeps s s'"
proof -
  from n obtain i where i: "p_priv (proc_tab s n) = Some i" "isokprocn n"
    by (auto simp: has_priv_def procs_def)
  let ?s1 = "set_priv i ((priv_tab s i)\<lparr>s_sig_pending :=
     snd (sigaddset (s_sig_pending (priv_tab s i)) sig_nr)\<rparr>) s"
  have "kwf ?s1" using wf by (rule kwf_cong) auto
  moreover have "has_priv ?s1 SYSTEM" "has_priv ?s1 n" using n sys by (simp_all add: has_priv_def)
  ultimately obtain s' where s': "lock_notify SYSTEM n ?s1 = Inr (OK, s')" "kwf s'" "keeps ?s1 s'"
    using lock_notify_ok [of ?s1 SYSTEM n] by blast
  from s'(3) have "keeps s s'" using keeps_trans [OF keeps_proc_tab [of ?s1 s]] by (simp add: devices_def)
  with s' show ?thesis using i by (simp add: send_sig_def priv_of_def)
qed

lemma kprintf_ok:
  assumes "kwf s" and "has_priv s LOG_PROC_NR" and "has_priv s SYSTEM"
  shows "\<exists>s'. kprintf fmt args s = Inr s' \<and> kwf s' \<and> keeps s s'"
proof -
  let ?s = "s\<lparr>kmess := fold kputc (kformat fmt args False) (kmess s)\<rparr>"
  have "kwf ?s" using assms(1) by (rule kwf_cong) auto
  moreover have "has_priv ?s LOG_PROC_NR" "has_priv ?s SYSTEM" using assms(2,3) by (simp_all add: has_priv_def)
  ultimately obtain s' where s': "send_sig LOG_PROC_NR SIGKMESS ?s = Inr s'" "kwf s'" "keeps ?s s'"
    using send_sig_ok by blast
  from s'(3) have "keeps s s'" using keeps_trans [OF keeps_proc_tab [of ?s s]] by (simp add: devices_def)
  with s' show ?thesis by (simp add: kprintf_def)
qed

section \<open>Properties\<close>

text \<open>
  the message buffer of the kernel is a ring: after printing, it holds the last 256
  characters of everything printed so far, in order.
\<close>

theorem kmess_ring:
  assumes "km_wf km"
  shows "km_wf (fold kputc cs km) \<and>
    km_text (fold kputc cs km) = drop (length (km_text km @ cs) - KMESS_BUF_SIZE) (km_text km @ cs)"
  using kputs_text [OF assms, of cs] by (simp add: last_n_def)

theorem kmess_ring_witness: "km_text (fold kputc ''ok'' (kmess sample)) = ''ok''"
proof -
  have "km_wf (kmess sample)" by (simp add: sample_def km_wf_def)
  from kmess_ring [OF this, of "''ok''"] show ?thesis by (simp add: sample_def km_text_def)
qed

end
