(* ===== verification/Irq.thy ===== *)
theory Irq
  imports Kernel_State
begin

unbundle bit_operations_syntax

text \<open>
  Interrupt hooks (\<open>kernel/i8259.c\<close>, and \<open>enable_irq\<close> and \<open>disable_irq\<close> of \<open>klib386.s\<close>):
  the chains of handlers per interrupt line, the bits of the active handlers, and the masks of
  the two interrupt controllers, which read back what was written to them last.
\<close>

section \<open>Ports\<close>

abbreviation (input) INT_CTL :: u32 where "INT_CTL \<equiv> 32"
abbreviation (input) INT_CTLMASK :: u32 where "INT_CTLMASK \<equiv> 33"
abbreviation (input) INT2_CTL :: u32 where "INT2_CTL \<equiv> 160"
abbreviation (input) INT2_CTLMASK :: u32 where "INT2_CTLMASK \<equiv> 161"

definition outb :: "u32 \<Rightarrow> u32 \<Rightarrow> kstate \<Rightarrow> kstate" where
  "outb port v s =
     s\<lparr>io_out := io_out s @ [(port, take_bit 8 v)],
       io_in := (if port = INT_CTLMASK \<or> port = INT2_CTLMASK then (io_in s)(port := take_bit 8 v)
                 else io_in s)\<rparr>"

definition inb :: "u32 \<Rightarrow> kstate \<Rightarrow> u32" where
  "inb port s = take_bit 8 (io_in s port)"

lemma inb_actids [simp]: "inb port (s\<lparr>irq_actids := f\<rparr>) = inb port s"
  by (simp add: inb_def)

lemma inb_outb_mask: "port = INT_CTLMASK \<or> port = INT2_CTLMASK \<Longrightarrow> inb port (outb port v s) = take_bit 8 v"
  by (auto simp: inb_def outb_def)

lemma outb_fields [simp]:
  "irq_hooks (outb port v s) = irq_hooks s" "irq_actids (outb port v s) = irq_actids s"
  "proc_tab (outb port v s) = proc_tab s" "priv_tab (outb port v s) = priv_tab s"
  by (simp_all add: outb_def)

section \<open>The controllers\<close>

text \<open>\<open>intr_init\<close> in protected mode; \<open>set_vec\<close> is void on a 32-bit machine.\<close>

definition intr_init :: "bool \<Rightarrow> kstate \<Rightarrow> kstate" where
  "intr_init mine s =
     (if machine_protected s
      then let icw1 = (if machine_ps_mca s then 25 else 17);
               s1 = outb INT_CTL icw1 s;
               s2 = outb INT_CTLMASK (if mine then 80 else 8) s1;
               s3 = outb INT_CTLMASK (push_bit 2 1) s2;
               s4 = outb INT_CTLMASK 5 s3;
               s5 = outb INT_CTLMASK (NOT (push_bit 2 1)) s4;
               s6 = outb INT2_CTL icw1 s5;
               s7 = outb INT2_CTLMASK 112 s6;
               s8 = outb INT2_CTLMASK 2 s7;
               s9 = outb INT2_CTLMASK 1 s8;
               s10 = outb INT2_CTLMASK (NOT 0) s9
           in s10\<lparr>memory := phys_copy (8 * 4) (80 * 4) (8 * 4) (memory s10)\<rparr>
      else s)"

text \<open>The mask register and the bit of an interrupt line.\<close>

definition irq_port :: "int \<Rightarrow> u32" where
  "irq_port irq = (if irq < 8 then INT_CTLMASK else INT2_CTLMASK)"

definition irq_bit :: "int \<Rightarrow> u32" where
  "irq_bit irq = push_bit (nat (irq mod 8)) 1"

definition enable_irq :: "hook_id \<Rightarrow> kstate \<Rightarrow> kstate" where
  "enable_irq hook s =
     (let irq = hk_irq (irq_hooks s hook);
          act = irq_actids s irq AND NOT (hk_id (irq_hooks s hook));
          s1 = s\<lparr>irq_actids := (irq_actids s)(irq := act)\<rparr>
      in if act \<noteq> 0 then s1
         else outb (irq_port irq) (inb (irq_port irq) s1 AND NOT (irq_bit irq)) s1)"

definition disable_irq :: "hook_id \<Rightarrow> kstate \<Rightarrow> bool \<times> kstate" where
  "disable_irq hook s =
     (let irq = hk_irq (irq_hooks s hook);
          s1 = s\<lparr>irq_actids := (irq_actids s)(irq := irq_actids s irq OR hk_id (irq_hooks s hook))\<rparr>
      in if inb (irq_port irq) s1 AND irq_bit irq \<noteq> 0 then (False, s1)
         else (True, outb (irq_port irq) (inb (irq_port irq) s1 OR irq_bit irq) s1))"

section \<open>Hook chains\<close>

fun hk_get :: "int \<Rightarrow> hook_id loc \<Rightarrow> kstate \<Rightarrow> hook_id option" where
  "hk_get irq Head s = irq_handlers s irq"
| "hk_get irq (Next h) s = hk_next (irq_hooks s h)"

fun hk_put :: "int \<Rightarrow> hook_id loc \<Rightarrow> hook_id option \<Rightarrow> kstate \<Rightarrow> kstate" where
  "hk_put irq Head p s = s\<lparr>irq_handlers := (irq_handlers s)(irq := p)\<rparr>"
| "hk_put irq (Next h) p s = s\<lparr>irq_hooks := (irq_hooks s)(h := (irq_hooks s h)\<lparr>hk_next := p\<rparr>)\<rparr>"

interpretation hk: linked_list "hk_get irq" "hk_put irq" for irq
proof
  fix l l' p s
  show "hk_get irq l (hk_put irq l' p s) = (if l = l' then p else hk_get irq l s)"
    by (cases l; cases l') auto
qed

text \<open>
  The loop of \<open>put_irq_handler\<close>: it returns early (\<open>None\<close>) when the hook is found, and else
  gives the end of the chain and the identification bit.
\<close>

partial_function (option) put_walk ::
  "(hook_id loc \<Rightarrow> hook_id option) \<Rightarrow> hook_id \<Rightarrow> hook_id loc \<Rightarrow> u32 \<Rightarrow> (hook_id loc \<times> u32) option option" where
  "put_walk g hook line hid =
     (case g line of
        None \<Rightarrow> Some (Some (line, hid))
      | Some h \<Rightarrow> if h = hook then Some None else put_walk g hook (Next h) (push_bit 1 hid))"

definition put_irq_handler :: "hook_id \<Rightarrow> int \<Rightarrow> irq_handler \<Rightarrow> kstate \<Rightarrow> kstate res" where
  "put_irq_handler hook irq handler s =
     (if irq < 0 \<or> irq \<ge> NR_IRQ_VECTORS then Inl (Panic ''invalid call to put_irq_handler'')
      else case put_walk (\<lambda>l. hk_get irq l s) hook Head 1 of
             None \<Rightarrow> Inl Hang
           | Some None \<Rightarrow> Inr s
           | Some (Some (line, hid)) \<Rightarrow>
               if hid = 0 then Inl (Panic ''Too many handlers for irq'')
               else let s1 = s\<lparr>irq_hooks := (irq_hooks s)(hook := (irq_hooks s hook)
                               \<lparr>hk_next := None, hk_handler := handler, hk_irq := irq, hk_id := hid\<rparr>)\<rparr>;
                        s2 = hk_put irq line (Some hook) s1
                    in Inr (s2\<lparr>irq_use := irq_use s2 OR push_bit (nat irq) 1\<rparr>))"

definition rm_irq_handler :: "hook_id \<Rightarrow> kstate \<Rightarrow> kstate res" where
  "rm_irq_handler hook s =
     (let irq = hk_irq (irq_hooks s hook); hid = hk_id (irq_hooks s hook) in
      if irq < 0 \<or> irq \<ge> NR_IRQ_VECTORS then Inl (Panic ''invalid call to rm_irq_handler'')
      else case walk (\<lambda>l. hk_get irq l s) (\<lambda>h. hk_id (irq_hooks s h) = hid) Head of
             None \<Rightarrow> Inl Hang
           | Some line \<Rightarrow>
               (case hk_get irq line s of
                  None \<Rightarrow> Inr s
                | Some h \<Rightarrow>
                    let s1 = hk_put irq line (hk_next (irq_hooks s h)) s
                    in Inr (if irq_handlers s1 irq = None
                            then s1\<lparr>irq_use := irq_use s1 AND NOT (push_bit (nat irq) 1)\<rparr> else s1)))"

text \<open>
  \<open>intr_handle\<close> runs the handlers of a line; the handlers themselves are the argument
  \<open>run\<close>, which tells whether the line may be enabled again.
\<close>

partial_function (option) intr_handle ::
  "(hook_id \<Rightarrow> kstate \<Rightarrow> (bool \<times> kstate) res) \<Rightarrow> hook_id option \<Rightarrow> kstate \<Rightarrow> kstate res option" where
  "intr_handle run hook s =
     (case hook of
        None \<Rightarrow> Some (Inr s)
      | Some h \<Rightarrow>
          (let irq = hk_irq (irq_hooks s h);
               s1 = s\<lparr>irq_actids := (irq_actids s)(irq := irq_actids s irq OR hk_id (irq_hooks s h))\<rparr>
           in case run h s1 of
                Inl e \<Rightarrow> Some (Inl e)
              | Inr (reenable, s2) \<Rightarrow>
                  let irq2 = hk_irq (irq_hooks s2 h);
                      s3 = (if reenable
                            then s2\<lparr>irq_actids := (irq_actids s2)
                                   (irq2 := irq_actids s2 irq2 AND NOT (hk_id (irq_hooks s2 h)))\<rparr>
                            else s2)
                  in intr_handle run (hk_next (irq_hooks s3 h)) s3))"

section \<open>The chains as lists\<close>

definition hooks_rep :: "kstate \<Rightarrow> int \<Rightarrow> hook_id list \<Rightarrow> bool" where
  "hooks_rep s irq hs \<longleftrightarrow> hk.links irq s hs None"

lemma put_walk_end:
  assumes "hk.links irq s (us @ xs) None" and "hook \<notin> set xs"
  shows "put_walk (\<lambda>l. hk_get irq l s) hook (loc_after us) hid =
    Some (Some (loc_after (us @ xs), push_bit (length xs) hid))"
  using assms
proof (induction xs arbitrary: us hid)
  case Nil
  then have "hk_get irq (loc_after us) s = None" by (intro hk.get_loc_after) simp
  then show ?case by (subst put_walk.simps) simp
next
  case (Cons x xs)
  from Cons.prems have g: "hk_get irq (loc_after us) s = Some x"
    by (intro hk.get_loc_after) auto
  from Cons.prems have "hk.links irq s ((us @ [x]) @ xs) None" "hook \<notin> set xs" by auto
  from Cons.IH [OF this, of "push_bit 1 hid"] g Cons.prems(2) show ?case
    by (subst put_walk.simps) (auto simp: push_bit_push_bit)
qed

lemma put_walk_found:
  assumes "hk.links irq s (us @ xs) None" and "hook \<in> set xs"
  shows "put_walk (\<lambda>l. hk_get irq l s) hook (loc_after us) hid = Some None"
  using assms
proof (induction xs arbitrary: us hid)
  case Nil
  then show ?case by simp
next
  case (Cons x xs)
  from Cons.prems have g: "hk_get irq (loc_after us) s = Some x"
    by (intro hk.get_loc_after) auto
  from Cons.prems have "hk.links irq s ((us @ [x]) @ xs) None" by auto
  from Cons.IH [OF this, of "push_bit 1 hid"] g Cons.prems(2) show ?case
    by (subst put_walk.simps) auto
qed

lemma push_bit_nonzero: "n < 32 \<Longrightarrow> push_bit n (1::u32) \<noteq> 0"
  using and_push_bit_1 [of "- 1 :: u32" n] by auto

lemma put_irq_handler_spec:
  assumes rep: "hooks_rep s irq hs" and new: "hook \<notin> set hs" and irq: "0 \<le> irq" "irq < NR_IRQ_VECTORS"
    and len: "length hs < 32"
  shows "\<exists>s'. put_irq_handler hook irq handler s = Inr s' \<and> hooks_rep s' irq (hs @ [hook]) \<and>
    hk_id (irq_hooks s' hook) = push_bit (length hs) 1 \<and> hk_irq (irq_hooks s' hook) = irq \<and>
    hk_handler (irq_hooks s' hook) = handler \<and>
    (\<forall>h. h \<noteq> hook \<longrightarrow> hk_id (irq_hooks s' h) = hk_id (irq_hooks s h) \<and>
       hk_irq (irq_hooks s' h) = hk_irq (irq_hooks s h))"
proof -
  have links: "hk.links irq s hs None" using rep by (simp add: hooks_rep_def)
  let ?s1 = "s\<lparr>irq_hooks := (irq_hooks s)(hook := (irq_hooks s hook)
       \<lparr>hk_next := None, hk_handler := handler, hk_irq := irq, hk_id := push_bit (length hs) 1\<rparr>)\<rparr>"
  let ?s2 = "hk_put irq (loc_after hs) (Some hook) ?s1"
  let ?t = "hk_put irq (Next hook) None (hk_put irq (loc_after hs) (Some hook) s)"
  have w: "put_walk (\<lambda>l. hk_get irq l s) hook Head 1 = Some (Some (loc_after hs, push_bit (length hs) 1))"
    using put_walk_end [of irq s "[]" hs hook 1] links new by simp
  have ne: "loc_after hs \<noteq> Next hook" using new loc_after_eq_Next by metis
  have "hk.links irq ?t (hs @ [hook]) None" using links new by (rule hk.append_last)
  moreover have "hk_get irq l ?s2 = hk_get irq l ?t" for l
    using ne by (cases l; cases "loc_after hs") auto
  ultimately have l2: "hk.links irq ?s2 (hs @ [hook]) None" by (simp only:)
  let ?s3 = "?s2\<lparr>irq_use := irq_use ?s2 OR push_bit (nat irq) 1\<rparr>"
  have "hk_get irq l ?s3 = hk_get irq l ?s2" for l by (cases l) simp_all
  with l2 have "hooks_rep ?s3 irq (hs @ [hook])" by (simp only: hooks_rep_def)
  moreover have "put_irq_handler hook irq handler s = Inr ?s3"
    using irq push_bit_nonzero [OF len] by (simp add: put_irq_handler_def w Let_def)
  moreover have "hk_id (irq_hooks ?s3 hook) = push_bit (length hs) 1" "hk_irq (irq_hooks ?s3 hook) = irq"
    "hk_handler (irq_hooks ?s3 hook) = handler"
    "\<forall>h. h \<noteq> hook \<longrightarrow> hk_id (irq_hooks ?s3 h) = hk_id (irq_hooks s h) \<and>
       hk_irq (irq_hooks ?s3 h) = hk_irq (irq_hooks s h)"
    using ne by (cases "loc_after hs"; auto)+
  ultimately show ?thesis by blast
qed

text \<open>\<open>rm_irq_handler\<close> removes the first hook with the identification bit of the given one.\<close>

lemma rm_irq_handler_spec:
  assumes rep: "hooks_rep s irq (us @ x # vs)" and irq: "hk_irq (irq_hooks s hook) = irq"
      "0 \<le> irq" "irq < NR_IRQ_VECTORS"
    and ids: "\<forall>h \<in> set us. hk_id (irq_hooks s h) \<noteq> hk_id (irq_hooks s hook)"
      "hk_id (irq_hooks s x) = hk_id (irq_hooks s hook)"
  shows "\<exists>s'. rm_irq_handler hook s = Inr s' \<and> hooks_rep s' irq (us @ vs) \<and>
    (\<forall>h. hk_id (irq_hooks s' h) = hk_id (irq_hooks s h) \<and> hk_irq (irq_hooks s' h) = hk_irq (irq_hooks s h))"
proof -
  have links: "hk.links irq s (us @ x # vs) None" using rep by (simp add: hooks_rep_def)
  let ?P = "\<lambda>h. hk_id (irq_hooks s h) = hk_id (irq_hooks s hook)"
  have "takeWhile (\<lambda>h. \<not> ?P h) (us @ x # vs) = us"
    using ids by (simp add: takeWhile_append2)
  with hk.walk_whole [OF links, of ?P]
  have w: "walk (\<lambda>l. hk_get irq l s) ?P Head = Some (loc_after us)" by (simp only:)
  have "hk.links irq s us (Some x)" using links unfolding lseg_append by auto
  then have g: "hk_get irq (loc_after us) s = Some x" by (rule hk.get_loc_after)
  let ?s1 = "hk_put irq (loc_after us) (hk_next (irq_hooks s x)) s"
  let ?s2 = "if irq_handlers ?s1 irq = None
     then ?s1\<lparr>irq_use := irq_use ?s1 AND NOT (push_bit (nat irq) 1)\<rparr> else ?s1"
  have "hk.links irq ?s1 (us @ vs) None" using hk.unlink [OF links] by (simp only: hk_get.simps)
  moreover have "hk_get irq l ?s2 = hk_get irq l ?s1" for l by (cases l) auto
  ultimately have "hooks_rep ?s2 irq (us @ vs)" by (simp only: hooks_rep_def)
  moreover have "rm_irq_handler hook s = Inr ?s2"
    using irq w g by (simp add: rm_irq_handler_def Let_def)
  moreover have "hk_id (irq_hooks ?s2 h) = hk_id (irq_hooks s h) \<and>
      hk_irq (irq_hooks ?s2 h) = hk_irq (irq_hooks s h)" for h
    by (cases "loc_after us") auto
  ultimately show ?thesis by blast
qed

text \<open>
  The hooks of all lines: every chain ends, and a hook is in the chain of its own line only.
\<close>

definition irq_rep :: "kstate \<Rightarrow> (int \<Rightarrow> hook_id list) \<Rightarrow> bool" where
  "irq_rep s H \<longleftrightarrow> (\<forall>irq. 0 \<le> irq \<and> irq < NR_IRQ_VECTORS \<longrightarrow>
     hooks_rep s irq (H irq) \<and> (\<forall>h \<in> set (H irq). hk_irq (irq_hooks s h) = irq))"

definition irq_erase :: "kstate \<Rightarrow> kstate" where
  "irq_erase s = s\<lparr>irq_hooks := irq_hooks sample, irq_handlers := (\<lambda>_. None), irq_use := 0\<rparr>"

abbreviation irq_frame :: "kstate \<Rightarrow> kstate \<Rightarrow> bool" where
  "irq_frame s s' \<equiv> irq_erase s' = irq_erase s"

lemma irq_erase_hk_put [simp]: "irq_erase (hk_put irq l p s) = irq_erase s"
  by (cases l) (simp_all add: irq_erase_def)

lemma irq_erase_upd [simp]:
  "irq_erase (s\<lparr>irq_use := u\<rparr>) = irq_erase s" "irq_erase (s\<lparr>irq_hooks := f\<rparr>) = irq_erase s"
  by (simp_all add: irq_erase_def)

lemma irq_frameD:
  assumes "irq_frame s s'"
  shows "proc_tab s' = proc_tab s" "priv_tab s' = priv_tab s" "rdy_head s' = rdy_head s" "rdy_tail s' = rdy_tail s"
    "next_ptr s' = next_ptr s" "clock_timers s' = clock_timers s" "next_timeout s' = next_timeout s"
  using assms by (cases s; cases s'; simp add: irq_erase_def)+

lemma hooks_rep_frame:
  assumes "hooks_rep s irq hs" and "irq_handlers s' irq = irq_handlers s irq"
    and "\<And>h. h \<in> set hs \<Longrightarrow> hk_next (irq_hooks s' h) = hk_next (irq_hooks s h)"
  shows "hooks_rep s' irq hs"
proof -
  have "chain (\<lambda>h. hk_next (irq_hooks s' h)) p hs = chain (\<lambda>h. hk_next (irq_hooks s h)) p hs" for p
    using assms(3) by (rule lseg_cong)
  with assms(1,2) show ?thesis by (simp add: hooks_rep_def)
qed

text \<open>Removing a hook always returns, and leaves the other fields and the other lines alone.\<close>

lemma rm_irq_handler_total:
  fixes s :: kstate and hook :: hook_id
  defines "i \<equiv> hk_irq (irq_hooks s hook)" and "P \<equiv> \<lambda>h. hk_id (irq_hooks s h) = hk_id (irq_hooks s hook)"
  assumes rep: "irq_rep s H" and irq: "0 \<le> i" "i < NR_IRQ_VECTORS"
  shows "\<exists>s'. rm_irq_handler hook s = Inr s' \<and> irq_frame s s' \<and>
    irq_rep s' (H(i := takeWhile (\<lambda>h. \<not> P h) (H i) @ tl (dropWhile (\<lambda>h. \<not> P h) (H i)))) \<and>
    (\<forall>h. hk_irq (irq_hooks s' h) = hk_irq (irq_hooks s h) \<and> hk_proc_nr (irq_hooks s' h) = hk_proc_nr (irq_hooks s h) \<and>
       hk_id (irq_hooks s' h) = hk_id (irq_hooks s h))"
proof -
  have links: "hk.links i s (H i) None" using rep irq by (auto simp: irq_rep_def hooks_rep_def)
  define us where "us = takeWhile (\<lambda>h. \<not> P h) (H i)"
  define xs where "xs = dropWhile (\<lambda>h. \<not> P h) (H i)"
  have w: "walk (\<lambda>l. hk_get i l s) P Head = Some (loc_after us)"
    using hk.walk_whole [OF links, of P] by (simp only: us_def)
  have xs: "H i = us @ xs" unfolding us_def xs_def by simp
  show ?thesis
  proof (cases xs)
    case Nil
    then have "hk_get i (loc_after us) s = None" using links xs by (intro hk.get_loc_after) simp
    then have "rm_irq_handler hook s = Inr s" using irq w by (simp add: rm_irq_handler_def Let_def i_def P_def)
    moreover have "H(i := us @ tl xs) = H" using xs Nil by (simp add: fun_upd_idem)
    ultimately show ?thesis using rep by (simp add: us_def xs_def)
  next
    case (Cons x vs)
    then have l: "hk.links i s (us @ x # vs) None" using links xs by simp
    then have "hk.links i s us (Some x)" unfolding lseg_append by auto
    then have g: "hk_get i (loc_after us) s = Some x" by (rule hk.get_loc_after)
    let ?s1 = "hk_put i (loc_after us) (hk_next (irq_hooks s x)) s"
    define s2 where "s2 = (if irq_handlers ?s1 i = None
       then ?s1\<lparr>irq_use := irq_use ?s1 AND NOT (push_bit (nat i) 1)\<rparr> else ?s1)"
    have run: "rm_irq_handler hook s = Inr s2"
      using irq w g by (simp add: rm_irq_handler_def Let_def s2_def i_def P_def)
    have same: "irq_hooks s2 = irq_hooks ?s1" "irq_handlers s2 = irq_handlers ?s1" by (simp_all add: s2_def)
    have hooks: "hk_irq (irq_hooks s2 h) = hk_irq (irq_hooks s h)" "hk_proc_nr (irq_hooks s2 h) = hk_proc_nr (irq_hooks s h)"
      "hk_id (irq_hooks s2 h) = hk_id (irq_hooks s h)"
      "h \<notin> set us \<Longrightarrow> hk_next (irq_hooks s2 h) = hk_next (irq_hooks s h)"
      "k \<noteq> i \<Longrightarrow> irq_handlers s2 k = irq_handlers s k" for h k
      unfolding same using loc_after_eq_Next [of us] by (cases "loc_after us"; auto)+
    have "hk.links i ?s1 (us @ vs) None" using hk.unlink [OF l] by (simp only: hk_get.simps)
    then have own: "hooks_rep s2 i (us @ vs)" by (simp add: hooks_rep_def same)
    have other: "hooks_rep s2 k (H k)" if "0 \<le> k" "k < 16" "k \<noteq> i" for k
    proof (rule hooks_rep_frame [of s])
      fix h
      assume "h \<in> set (H k)"
      then have "hk_irq (irq_hooks s h) = k" using rep that by (auto simp: irq_rep_def)
      then have "h \<notin> set us" using rep irq xs that(3) unfolding irq_rep_def by auto
      then show "hk_next (irq_hooks s2 h) = hk_next (irq_hooks s h)" by (rule hooks)
    qed (use rep that hooks(5) in \<open>auto simp: irq_rep_def\<close>)
    have "irq_rep s2 (H(i := us @ vs))"
      using own other rep irq xs Cons unfolding irq_rep_def by (auto simp: hooks)
    moreover have "irq_frame s s2" by (simp add: s2_def)
    moreover have "us @ vs = takeWhile (\<lambda>h. \<not> P h) (H i) @ tl (dropWhile (\<lambda>h. \<not> P h) (H i))"
      using Cons unfolding us_def xs_def by simp
    ultimately show ?thesis using run hooks(1-3) by auto
  qed
qed

text \<open>Where the bits of a line are unique, exactly the hook itself is taken out.\<close>

lemma unlink_only_self:
  assumes "distinct (map f xs)" and "x \<in> set xs"
  shows "takeWhile (\<lambda>y. \<not> f y = f x) xs @ tl (dropWhile (\<lambda>y. \<not> f y = f x) xs) = filter (\<lambda>y. y \<noteq> x) xs"
  using assms
proof (induction xs)
  case (Cons z zs)
  show ?case
  proof (cases "f z = f x")
    case True
    have "z = x"
    proof (rule ccontr)
      assume "z \<noteq> x"
      then have "f x \<in> set (map f zs)" using Cons.prems(2) by auto
      then show False using Cons.prems(1) True by simp
    qed
    moreover have "filter (\<lambda>y. y \<noteq> x) zs = zs"
      using Cons.prems(1) True by (intro filter_True) (auto intro: rev_image_eqI)
    ultimately show ?thesis by simp
  next
    case False
    then show ?thesis using Cons by auto
  qed
qed simp

section \<open>Properties\<close>

text \<open>
  Registering a handler for an interrupt line appends its hook to the chain of the line,
  with the identification bit of its position, and keeps the other hooks; registering a hook
  again changes nothing.
\<close>

theorem put_irq_handler_appends:
  assumes "hooks_rep s irq hs" and "0 \<le> irq" and "irq < NR_IRQ_VECTORS" and "length hs < 32"
  shows "\<exists>s'. put_irq_handler hook irq handler s = Inr s' \<and>
    (if hook \<in> set hs then s' = s
     else hooks_rep s' irq (hs @ [hook]) \<and> hk_id (irq_hooks s' hook) = push_bit (length hs) 1 \<and>
          hk_irq (irq_hooks s' hook) = irq \<and> hk_handler (irq_hooks s' hook) = handler)"
proof (cases "hook \<in> set hs")
  case True
  then have "put_irq_handler hook irq handler s = Inr s"
    using put_walk_found [of irq s "[]" hs hook 1] assms by (simp add: put_irq_handler_def hooks_rep_def)
  with True show ?thesis by simp
next
  case False
  with put_irq_handler_spec [OF assms(1) False assms(2-4), of handler] show ?thesis by auto
qed

lemma hooks_rep_sample: "hooks_rep sample irq []"
  by (simp add: hooks_rep_def sample_def)

theorem put_irq_handler_appends_witness:
  "\<exists>s'. put_irq_handler ClockHook 0 ClockHandler sample = Inr s' \<and> hooks_rep s' 0 [ClockHook]"
  using put_irq_handler_appends [OF hooks_rep_sample, of 0 ClockHook ClockHandler] by auto

text \<open>
  A handler is removed from its chain, and no other one is, provided that no hook before
  it in the chain has the same identification bit.
\<close>

theorem rm_irq_handler_removes:
  assumes "hooks_rep s irq (us @ hook # vs)" and "hk_irq (irq_hooks s hook) = irq"
    and "0 \<le> irq" and "irq < NR_IRQ_VECTORS"
    and "\<forall>h \<in> set us. hk_id (irq_hooks s h) \<noteq> hk_id (irq_hooks s hook)"
  shows "\<exists>s'. rm_irq_handler hook s = Inr s' \<and> hooks_rep s' irq (us @ vs)"
  using rm_irq_handler_spec [OF assms] by blast

theorem rm_irq_handler_removes_witness:
  "\<exists>s s'. put_irq_handler ClockHook 0 ClockHandler sample = Inr s \<and>
     rm_irq_handler ClockHook s = Inr s' \<and> hooks_rep s' 0 []"
proof -
  from put_irq_handler_spec [OF hooks_rep_sample, of ClockHook 0 ClockHandler] obtain s where
    s: "put_irq_handler ClockHook 0 ClockHandler sample = Inr s" "hooks_rep s 0 ([] @ ClockHook # [])"
    "hk_irq (irq_hooks s ClockHook) = 0" by auto
  from rm_irq_handler_removes [OF s(2,3)] s(1) show ?thesis by auto
qed

definition irq_demo :: "kstate res" where
  "irq_demo =
     bindr (put_irq_handler (IrqHook 0) 5 GenericHandler sample) (\<lambda>s1.
     bindr (put_irq_handler (IrqHook 1) 5 GenericHandler s1) (\<lambda>s2.
     bindr (rm_irq_handler (IrqHook 0) s2) (\<lambda>s3.
     bindr (put_irq_handler (IrqHook 2) 5 GenericHandler s3) (\<lambda>s4.
     rm_irq_handler (IrqHook 2) s4))))"

text \<open>
  identification bits are not unique. Registering three handlers after the first of two
  has been removed gives two hooks of the same line the same bit, and removing the later hook
  takes away the earlier one.
\<close>

theorem rm_irq_handler_wrong_hook: "\<exists>s. irq_demo = Inr s \<and> hooks_rep s 5 [IrqHook 2]"
proof -
  have i: "(0::int) \<le> 5" "(5::int) < NR_IRQ_VECTORS" by simp_all
  from put_irq_handler_spec [OF hooks_rep_sample _ i, of "IrqHook 0" GenericHandler] obtain s1 where
    s1: "put_irq_handler (IrqHook 0) 5 GenericHandler sample = Inr s1" "hooks_rep s1 5 [IrqHook 0]"
    "hk_id (irq_hooks s1 (IrqHook 0)) = 1" "hk_irq (irq_hooks s1 (IrqHook 0)) = 5" by auto
  from put_irq_handler_spec [OF s1(2) _ i, of "IrqHook 1" GenericHandler] s1(3,4) obtain s2 where
    s2: "put_irq_handler (IrqHook 1) 5 GenericHandler s1 = Inr s2"
    "hooks_rep s2 5 ([] @ IrqHook 0 # [IrqHook 1])"
    "hk_id (irq_hooks s2 (IrqHook 1)) = 2" "hk_id (irq_hooks s2 (IrqHook 0)) = 1"
    "hk_irq (irq_hooks s2 (IrqHook 0)) = 5" by auto
  from rm_irq_handler_spec [OF s2(2,5) i] s2(3) obtain s3 where
    s3: "rm_irq_handler (IrqHook 0) s2 = Inr s3" "hooks_rep s3 5 [IrqHook 1]"
    "hk_id (irq_hooks s3 (IrqHook 1)) = 2" by auto
  from put_irq_handler_spec [OF s3(2) _ i, of "IrqHook 2" GenericHandler] s3(3) obtain s4 where
    s4: "put_irq_handler (IrqHook 2) 5 GenericHandler s3 = Inr s4"
    "hooks_rep s4 5 ([] @ IrqHook 1 # [IrqHook 2])"
    "hk_id (irq_hooks s4 (IrqHook 1)) = 2" "hk_id (irq_hooks s4 (IrqHook 2)) = 2"
    "hk_irq (irq_hooks s4 (IrqHook 2)) = 5" by auto
  from rm_irq_handler_spec [OF s4(2,5) i] s4(3,4) obtain s5 where
    "rm_irq_handler (IrqHook 2) s4 = Inr s5" "hooks_rep s5 5 [IrqHook 2]" by auto
  with s1(1) s2(1) s3(1) s4(1) show ?thesis by (simp add: irq_demo_def)
qed

text \<open>
  Disabling a line whose mask bit was clear sets it, and enabling it again with the same
  hook restores the mask, as long as no other handler of the line is active.
\<close>

theorem enable_after_disable:
  assumes "hk_irq (irq_hooks s hook) = irq" and "irq_actids s irq = 0"
    and "inb (irq_port irq) s AND irq_bit irq = 0"
  shows "inb (irq_port irq) (snd (disable_irq hook s)) AND irq_bit irq \<noteq> 0 \<and>
    inb (irq_port irq) (enable_irq hook (snd (disable_irq hook s))) = inb (irq_port irq) s"
proof -
  have port: "irq_port irq = INT_CTLMASK \<or> irq_port irq = INT2_CTLMASK" by (simp add: irq_port_def)
  have b8: "take_bit 8 (irq_bit irq) = irq_bit irq"
    by (rule bit_word_eqI) (auto simp: irq_bit_def bit_simps)
  have ne: "irq_bit irq \<noteq> 0" unfolding irq_bit_def by (rule push_bit_nonzero) simp
  let ?m = "inb (irq_port irq) s"
  have m8: "take_bit 8 ?m = ?m" by (simp add: inb_def)
  have clr: "(?m OR irq_bit irq) AND NOT (irq_bit irq) = ?m"
  proof (rule bit_word_eqI)
    fix n
    have "\<not> (bit ?m n \<and> bit (irq_bit irq) n)"
      using assms(3) by (metis bit_and_iff bit_0_eq bot_apply bot_bool_def)
    then show "n < LENGTH(32) \<Longrightarrow> bit ((?m OR irq_bit irq) AND NOT (irq_bit irq)) n = bit ?m n"
      by (auto simp: bit_simps)
  qed
  have set8: "take_bit 8 (?m OR irq_bit irq) = ?m OR irq_bit irq" by (simp add: take_bit_or m8 b8)
  have d: "snd (disable_irq hook s) = outb (irq_port irq) (?m OR irq_bit irq)
      (s\<lparr>irq_actids := (irq_actids s)(irq := hk_id (irq_hooks s hook))\<rparr>)"
    using assms by (simp add: disable_irq_def Let_def)
  have "inb (irq_port irq) (snd (disable_irq hook s)) = ?m OR irq_bit irq"
    unfolding d inb_outb_mask [OF port] by (rule set8)
  moreover from this have "inb (irq_port irq) (enable_irq hook (snd (disable_irq hook s))) = ?m"
    using assms(1) by (simp add: enable_irq_def Let_def d inb_outb_mask [OF port] clr m8)
  ultimately show ?thesis using ne by simp
qed

theorem enable_after_disable_witness:
  "inb INT_CTLMASK (enable_irq ClockHook (snd (disable_irq ClockHook sample))) = inb INT_CTLMASK sample"
  using enable_after_disable [of sample ClockHook 0]
  by (simp add: sample_def irq_port_def inb_def)

end
