(* ===== verification/Clock.thy ===== *)
theory Clock
  imports Kmess Irq
begin

unbundle bit_operations_syntax

text \<open>
  The clock task (\<open>kernel/clock.c\<close>): the interrupt handler that counts ticks and charges
  processes, the work it leaves to the task (a new quantum, expired timers), and the timers of
  the kernel, which are a queue of the timer library. The watchdogs of the kernel are
  \<open>cause_alarm\<close> (\<open>system/do_setalarm.c\<close>) and \<open>shutdown\<close> (\<open>main.c\<close>), which does not return.
\<close>

section \<open>Timers\<close>

definition set_timer :: "tmr_id \<Rightarrow> int \<Rightarrow> watchdog \<Rightarrow> kstate \<Rightarrow> kstate res" where
  "set_timer tp exp_time wd s =
     (case tmrs_settimer tp exp_time wd (clock_timers s) of
        None \<Rightarrow> Inl Hang
      | Some (_, _, q) \<Rightarrow>
          bindr (deref (thead q)) (\<lambda>h.
          Inr (s\<lparr>clock_timers := q, next_timeout := tmr_exp_time (theap q h)\<rparr>)))"

definition first_timeout :: "(tmr_id, watchdog) tqueue \<Rightarrow> int" where
  "first_timeout q = (case thead q of None \<Rightarrow> TMR_NEVER | Some h \<Rightarrow> tmr_exp_time (theap q h))"

definition reset_timer :: "tmr_id \<Rightarrow> kstate \<Rightarrow> kstate res" where
  "reset_timer tp s =
     (case tmrs_clrtimer tp (clock_timers s) of
        None \<Rightarrow> Inl Hang
      | Some (_, _, q) \<Rightarrow> Inr (s\<lparr>clock_timers := q, next_timeout := first_timeout q\<rparr>))"

definition cause_alarm :: "int \<Rightarrow> kstate \<Rightarrow> kstate res" where
  "cause_alarm n s = bindr (lock_notify CLOCK n s) (\<lambda>(_, s1). Inr s1)"

definition run_watchdog :: "watchdog \<Rightarrow> int \<Rightarrow> kstate \<Rightarrow> kstate res" where
  "run_watchdog wd arg s =
     (case wd of
        CauseAlarm \<Rightarrow> cause_alarm arg s
      | Shutdown \<Rightarrow> Inl (Panic ''shutdown'')
      | NoWatchdog \<Rightarrow> Inl NullDeref)"

section \<open>The task\<close>

text \<open>
  The queue and the rest of the state are passed to the timer library side by side; the
  watchdogs of the kernel do not look at the queue.
\<close>

definition call_watchdog :: "tmr_id \<Rightarrow> watchdog \<Rightarrow> (tmr_id, watchdog) tqueue \<times> kstate res \<Rightarrow>
    (tmr_id, watchdog) tqueue \<times> kstate res" where
  "call_watchdog tp wd qr =
     (fst qr, bindr (snd qr) (run_watchdog wd (tmr_arg (theap (fst qr) tp))))"

definition new_quantum :: "int \<Rightarrow> kstate \<Rightarrow> kstate res" where
  "new_quantum pp s =
     (if p_ticks_left (proc_tab s pp) \<le> 0
      then bindr (priv_of s pp) (\<lambda>i.
           if s_flags (priv_tab s i) AND PREEMPTIBLE \<noteq> 0
           then bindr (lock_dequeue pp s) (lock_enqueue pp) else Inr s)
      else Inr s)"

definition run_timers :: "kstate \<Rightarrow> kstate res" where
  "run_timers s =
     (if next_timeout s \<le> realtime s
      then case tmrs_exptimers call_watchdog (realtime s) (clock_timers s, Inr s) of
             None \<Rightarrow> Inl Hang
           | Some (_, q, r) \<Rightarrow> bindr r (\<lambda>s1.
               Inr (s1\<lparr>clock_timers := q, next_timeout := first_timeout q\<rparr>))
      else Inr s)"

definition do_clocktick :: "kstate \<Rightarrow> (int \<times> kstate) res" where
  "do_clocktick s =
     bindr (deref (prev_ptr s)) (\<lambda>pp.
     bindr (new_quantum pp s) (\<lambda>s1.
     bindr (run_timers s1) (\<lambda>s2. Inr (EDONTREPLY, s2))))"

definition clock_task_step :: "message \<Rightarrow> kstate \<Rightarrow> kstate res" where
  "clock_task_step m s =
     (if m_type m = NOTIFY_FROM HARDWARE
      then bindr (do_clocktick s) (\<lambda>(_, s1). Inr s1)
      else kprintf (''CLOCK: illegal request %d from %d.'' @ [CHR 0x0A])
             [KInt (m_type m), KInt (m_source m)] s)"

section \<open>The interrupt handler\<close>

definition charge :: "int \<Rightarrow> (kproc \<Rightarrow> kproc) \<Rightarrow> kstate \<Rightarrow> kstate" where
  "charge rp f s = set_proc rp (f (proc_tab s rp)) s"

definition clock_account :: "kstate \<Rightarrow> (int \<times> kstate) res" where
  "clock_account s =
     (let ticks = lost_ticks s + 1;
          s1 = s\<lparr>lost_ticks := 0, realtime := slong (realtime s + uint ticks)\<rparr>
      in bindr (deref (proc_ptr s1)) (\<lambda>pp.
         bindr (priv_of s1 pp) (\<lambda>i.
         let fl = s_flags (priv_tab s1 i);
             s2 = charge pp (\<lambda>p. p\<lparr>p_user_time := slong (p_user_time p + uint ticks)\<rparr>) s1;
             s3 = (if fl AND PREEMPTIBLE \<noteq> 0
                   then charge pp (\<lambda>p. p\<lparr>p_ticks_left := schar (p_ticks_left p - uint ticks)\<rparr>) s2
                   else s2)
         in if fl AND BILLABLE = 0
            then bindr (deref (bill_ptr s3)) (\<lambda>b.
                 Inr (pp, charge b (\<lambda>p. p\<lparr>p_sys_time := slong (p_sys_time p + uint ticks),
                        p_ticks_left := schar (p_ticks_left p - uint ticks)\<rparr>) s3))
            else Inr (pp, s3))))"

definition clock_handler :: "kstate \<Rightarrow> (bool \<times> kstate) res" where
  "clock_handler s =
     bindr (clock_account (if machine_ps_mca s then outb 97 (inb 97 s OR 128) s else s)) (\<lambda>(pp, s1).
     if next_timeout s1 \<le> realtime s1 \<or> p_ticks_left (proc_tab s1 pp) \<le> 0
     then bindr (lock_notify HARDWARE CLOCK (s1\<lparr>prev_ptr := proc_ptr s1\<rparr>)) (\<lambda>(_, s2).
          Inr (True, s2))
     else Inr (True, s1))"

abbreviation (input) TIMER0 :: u32 where "TIMER0 \<equiv> 64"
abbreviation (input) TIMER_MODE :: u32 where "TIMER_MODE \<equiv> 67"
abbreviation (input) TIMER_COUNT :: u32 where "TIMER_COUNT \<equiv> 19886"

definition init_clock :: "kstate \<Rightarrow> kstate res" where
  "init_clock s =
     (let s1 = s\<lparr>irq_hooks := (irq_hooks s)(ClockHook := (irq_hooks s ClockHook)\<lparr>hk_proc_nr := CLOCK\<rparr>)\<rparr>;
          s2 = outb TIMER0 (drop_bit 8 TIMER_COUNT) (outb TIMER0 TIMER_COUNT (outb TIMER_MODE 54 s1))
      in bindr (put_irq_handler ClockHook 0 ClockHandler s2) (\<lambda>s3. Inr (enable_irq ClockHook s3)))"

definition clock_stop :: "kstate \<Rightarrow> kstate" where
  "clock_stop s = outb TIMER0 0 (outb TIMER0 0 (outb TIMER_MODE 54 s))"

text \<open>The counter of the timer chip is read in two bytes, which the device supplies.\<close>

definition read_clock :: "u8 \<Rightarrow> u8 \<Rightarrow> kstate \<Rightarrow> u32 \<times> kstate" where
  "read_clock lo hi s = (ucast lo OR push_bit 8 (ucast hi), outb TIMER_MODE 0 s)"

section \<open>The timer queue of the kernel\<close>

text \<open>
  \<open>clock_rep s xs\<close>: the active timers are \<open>xs\<close>, the earliest first, and none of them expires
  before \<open>next_timeout\<close>, so that the handler calls the task in time.
\<close>

definition clock_rep :: "kstate \<Rightarrow> tmr_id list \<Rightarrow> bool" where
  "clock_rep s xs \<longleftrightarrow> tq_rep (clock_timers s) xs \<and>
     (\<forall>x \<in> set xs. next_timeout s \<le> texp (clock_timers s) x)"

lemma first_timeout_rep:
  assumes "tq_rep q xs"
  shows "first_timeout q = (if xs = [] then TMR_NEVER else texp q (hd xs))"
    and "x \<in> set xs \<Longrightarrow> first_timeout q \<le> texp q x"
proof -
  show e: "first_timeout q = (if xs = [] then TMR_NEVER else texp q (hd xs))"
    using assms by (cases xs) (auto simp: tq_rep_def first_timeout_def)
  show "first_timeout q \<le> texp q x" if "x \<in> set xs"
    using that assms e by (cases xs) (auto simp: tq_rep_def)
qed

lemma set_timer_spec:
  assumes "tq_but tp (clock_timers s) xs"
  shows "\<exists>q. set_timer tp t wd s = Inr (s\<lparr>clock_timers := q, next_timeout := first_timeout q\<rparr>) \<and>
    tq_rep q (insert_timer (texp (clock_timers s)) t tp (remove1 tp xs)) \<and>
    texp q = (texp (clock_timers s))(tp := t) \<and>
    tmr_func (theap q tp) = wd \<and> (\<forall>x. tmr_arg (theap q x) = tmr_arg (theap (clock_timers s) x))"
proof -
  from tmrs_settimer_spec [OF assms, of t wd] obtain q where
    q: "tmrs_settimer tp t wd (clock_timers s) = Some (head_time (clock_timers s), head_time q, q)"
    "tq_rep q (insert_timer (texp (clock_timers s)) t tp (remove1 tp xs))"
    "texp q = (texp (clock_timers s))(tp := t)"
    "(\<lambda>x. tmr_func (theap q x)) = (\<lambda>x. tmr_func (theap (clock_timers s) x))(tp := wd)"
    "\<forall>x. tmr_arg (theap q x) = tmr_arg (theap (clock_timers s) x)" by blast
  let ?ys = "insert_timer (texp (clock_timers s)) t tp (remove1 tp xs)"
  have "set ?ys \<noteq> {}" by simp
  then obtain y ys where "?ys = y # ys" by (cases ?ys) auto
  with q(2) have "thead q = Some y" by (simp add: tq_rep_def)
  with q(1) have "set_timer tp t wd s = Inr (s\<lparr>clock_timers := q, next_timeout := first_timeout q\<rparr>)"
    by (simp add: set_timer_def first_timeout_def)
  with q fun_cong [OF q(4), of tp] show ?thesis by auto
qed

lemma reset_timer_spec:
  assumes "tq_but tp (clock_timers s) xs"
  shows "\<exists>q. reset_timer tp s = Inr (s\<lparr>clock_timers := q, next_timeout := first_timeout q\<rparr>) \<and>
    tq_rep q (remove1 tp xs) \<and> texp q = (texp (clock_timers s))(tp := TMR_NEVER)"
  using tmrs_clrtimer_spec [OF assms] by (auto simp: reset_timer_def)

section \<open>Keeping the invariant\<close>

lemma requeue_kwf:
  assumes wf: "kwf s" and x: "x \<in> procs" "flags_of s x = 0"
  shows "\<exists>s'. bindr (lock_dequeue x s) (lock_enqueue x) = Inr s' \<and> kwf s' \<and> sched_frame s s'"
proof -
  let ?R = "{y \<in> procs. flags_of s y = 0}"
  have R: "ready_set s ?R" "can_sched s x"
    using wf x kwf_procD(2) [OF wf x(1)] hardware_flags(1) [of s] by (auto simp: kwf_def sched_wf_def)
  from dequeue_ready [OF R] obtain s1 where
    s1: "dequeue x s = Inr s1" "ready_set s1 (?R - {x})" "sched_frame s s1" "\<And>y. can_sched s y \<Longrightarrow> can_sched s1 y"
    by auto
  from enqueue_ready [OF s1(2) _ s1(4) [OF R(2)]] obtain s2 where
    s2: "enqueue x s1 = Inr s2" "ready_set s2 (insert x (?R - {x}))" "sched_frame s1 s2"
    "\<And>y. can_sched s1 y \<Longrightarrow> can_sched s2 y" by auto
  have fr: "sched_frame s s2" using s1(3) s2(3) by simp
  have "insert x (?R - {x}) = ?R" using x by auto
  moreover have "flags_of s2 y = flags_of s y" "p_nr (proc_tab s2 y) = p_nr (proc_tab s y)"
    "p_priv (proc_tab s2 y) = p_priv (proc_tab s y)" for y
    using sched_frame_proc [OF fr, of y] by simp_all
  ultimately have "sched_wf s2"
    using wf s1(4) s2(2,4) by (simp add: kwf_def sched_wf_def slot_ok_def)
  moreover have "ipc_wf s2" using fr wf by (auto simp: kwf_def intro: ipc_wf_frame)
  ultimately show ?thesis using s1(1) s2(1) fr by (simp add: lock_dequeue_def lock_enqueue_def kwf_def)
qed

lemma new_quantum_ok:
  assumes wf: "kwf s" and p: "pp \<in> procs" "flags_of s pp = 0"
  shows "\<exists>s'. new_quantum pp s = Inr s' \<and> kwf s' \<and> keeps s s'"
proof -
  have "alive s pp" using p(2) by simp
  then obtain i where "priv_of s pp = Inr i"
    using kwf_procD(6) [OF wf p(1)] by (auto simp: priv_of_def)
  moreover from requeue_kwf [OF wf p] obtain s' where
    "bindr (lock_dequeue pp s) (lock_enqueue pp) = Inr s'" "kwf s'" "keeps s s'"
    using keeps_frame by blast
  ultimately show ?thesis using wf by (simp add: new_quantum_def)
qed

lemma alarms_kwf:
  assumes "kwf s" and "has_priv s CLOCK" and "\<forall>x \<in> set xs. wd x = CauseAlarm \<and> has_priv s (arg x)"
  shows "\<exists>s'. fold (\<lambda>x r. bindr r (run_watchdog (wd x) (arg x))) xs (Inr s) = Inr s' \<and> kwf s' \<and> keeps s s'"
  using assms
proof (induction xs arbitrary: s)
  case (Cons x xs)
  then obtain s1 where s1: "lock_notify CLOCK (arg x) s = Inr (OK, s1)" "kwf s1" "keeps s s1"
    using lock_notify_ok [of s CLOCK "arg x"] by auto
  with Cons.prems have "has_priv s1 CLOCK" "\<forall>x \<in> set xs. wd x = CauseAlarm \<and> has_priv s1 (arg x)"
    using has_priv_keeps [OF s1(3)] by auto
  from Cons.IH [OF s1(2) this] obtain s' where
    "fold (\<lambda>x r. bindr r (run_watchdog (wd x) (arg x))) xs (Inr s1) = Inr s'" "kwf s'" "keeps s1 s'" by blast
  moreover have "run_watchdog (wd x) (arg x) s = Inr s1"
    using s1(1) Cons.prems(3) by (simp add: run_watchdog_def cause_alarm_def)
  ultimately show ?case using keeps_trans [OF s1(3)] by auto
qed simp

lemma watchdog_call:
  "call_watchdog tp wd (q, r) = (q, (\<lambda>_ wd a r. bindr r (run_watchdog wd a)) tp wd (tmr_arg (theap q tp)) r)"
  by (simp add: call_watchdog_def)

text \<open>The timers of the queue are alarms of processes with a privilege structure.\<close>

definition alarms_ok :: "kstate \<Rightarrow> tmr_id list \<Rightarrow> bool" where
  "alarms_ok s xs \<longleftrightarrow> (\<forall>x \<in> set xs. tmr_func (theap (clock_timers s) x) = CauseAlarm \<and>
     has_priv s (tmr_arg (theap (clock_timers s) x)))"

lemma expire_ok:
  assumes wf: "kwf s" and c: "clock_rep s xs" "alarms_ok s xs" "has_priv s CLOCK"
  shows "\<exists>q r s'. tmrs_exptimers call_watchdog
      (realtime s) (clock_timers s, Inr s) = Some (r, q, Inr s') \<and> kwf s' \<and> keeps s s' \<and>
    tq_rep q (dropWhile (\<lambda>x. texp (clock_timers s) x \<le> realtime s) xs) \<and>
    (\<forall>x \<in> set (dropWhile (\<lambda>x. texp (clock_timers s) x \<le> realtime s) xs). texp q x = texp (clock_timers s) x)"
proof -
  let ?q = "clock_timers s" and ?g = "\<lambda>x wd a r. bindr r (run_watchdog wd a)"
  let ?t = "takeWhile (\<lambda>x. texp ?q x \<le> realtime s) xs" and ?d = "dropWhile (\<lambda>x. texp ?q x \<le> realtime s) xs"
  have rep: "tq_rep ?q xs" using c(1) by (simp add: clock_rep_def)
  from tmrs_exptimers_spec [where run = call_watchdog and g = ?g and now = "realtime s" and s = "Inr s",
      OF rep watchdog_call] obtain q where
    q: "tmrs_exptimers call_watchdog
         (realtime s) (?q, Inr s) = Some (head_time q, q,
           fold (\<lambda>x. ?g x (tmr_func (theap ?q x)) (tmr_arg (theap ?q x))) ?t (Inr s))"
    "tq_rep q ?d" "texp q = (\<lambda>x. if x \<in> set ?t then TMR_NEVER else texp ?q x)" by blast
  have "\<forall>x \<in> set ?t. tmr_func (theap ?q x) = CauseAlarm \<and> has_priv s (tmr_arg (theap ?q x))"
    using c(2) by (auto simp: alarms_ok_def dest: set_takeWhileD)
  from alarms_kwf [OF wf c(3) this] obtain s' where
    "fold (\<lambda>x. ?g x (tmr_func (theap ?q x)) (tmr_arg (theap ?q x))) ?t (Inr s) = Inr s'" "kwf s'" "keeps s s'"
    by auto
  moreover have "distinct (?t @ ?d)" using tq_rep_distinct [OF rep] by simp
  then have "\<forall>x \<in> set ?d. texp q x = texp ?q x" using fun_cong [OF q(3)] by (auto simp del: takeWhile_dropWhile_id)
  ultimately show ?thesis using q(1,2) by auto
qed

lemma expire_none:
  assumes "clock_rep s xs" and "realtime s < next_timeout s"
  shows "dropWhile (\<lambda>x. texp (clock_timers s) x \<le> realtime s) xs = xs"
proof (cases xs)
  case (Cons x ys)
  with assms have "realtime s < texp (clock_timers s) x" by (auto simp: clock_rep_def)
  with Cons show ?thesis by simp
qed simp

lemma after_expiry:
  assumes "tq_rep q ys" and "\<forall>x \<in> set ys. now < texp q x" and "now < TMR_NEVER"
  shows "now < first_timeout q"
  using assms first_timeout_rep(1) [OF assms(1)] by (cases ys) auto

lemma dropWhile_sorted:
  fixes e :: "'a \<Rightarrow> int"
  assumes "sorted (map e xs)" and "x \<in> set (dropWhile (\<lambda>x. e x \<le> now) xs)"
  shows "now < e x"
  using assms by (induction xs) (auto split: if_splits)

lemma dropWhile_filter:
  fixes e :: "'a \<Rightarrow> int"
  assumes "sorted (map e xs)"
  shows "dropWhile (\<lambda>x. e x \<le> now) xs = filter (\<lambda>x. now < e x) xs"
  using assms
proof (induction xs)
  case (Cons x xs)
  then have "now < e x \<Longrightarrow> \<forall>y \<in> set xs. now < e y" by auto
  with Cons show ?case by auto
qed simp

lemma run_timers_ok:
  assumes wf: "kwf s" and c: "clock_rep s xs" "alarms_ok s xs" "has_priv s CLOCK"
    and now: "realtime s < TMR_NEVER"
  shows "\<exists>s'. run_timers s = Inr s' \<and> kwf s' \<and> realtime s' = realtime s \<and>
    clock_rep s' (dropWhile (\<lambda>x. texp (clock_timers s) x \<le> realtime s) xs) \<and> realtime s' < next_timeout s'"
proof (cases "next_timeout s \<le> realtime s")
  case True
  let ?d = "dropWhile (\<lambda>x. texp (clock_timers s) x \<le> realtime s) xs"
  from expire_ok [OF wf c] obtain q r s2 where
    x: "tmrs_exptimers call_watchdog
      (realtime s) (clock_timers s, Inr s) = Some (r, q, Inr s2)" "kwf s2" "keeps s s2"
    "tq_rep q ?d" "\<forall>x \<in> set ?d. texp q x = texp (clock_timers s) x" by blast
  let ?s = "s2\<lparr>clock_timers := q, next_timeout := first_timeout q\<rparr>"
  have "kwf ?s" using x(2) by (rule kwf_cong) auto
  moreover have "realtime ?s = realtime s" using x(3) by (simp add: keeps_def devices_def)
  moreover have "clock_rep ?s ?d" using x(4) first_timeout_rep(2) [OF x(4)] by (simp add: clock_rep_def)
  moreover have "sorted (map (texp (clock_timers s)) xs)" using c(1) by (simp add: clock_rep_def tq_rep_def)
  then have "\<forall>x \<in> set ?d. realtime s < texp q x" using dropWhile_sorted x(5) by fastforce
  then have "realtime s < first_timeout q" using after_expiry [OF x(4)] now by blast
  ultimately show ?thesis using True x(1) by (auto simp: run_timers_def)
next
  case False
  then show ?thesis using wf c expire_none [OF c(1)] by (auto simp: run_timers_def)
qed

text \<open>
  C15: the clock task's work. When it is called because a quantum or a timer has expired, it
  returns and keeps the kernel invariant; exactly the timers that are not due stay in the
  queue, in order, and the next time-out lies in the future again.
\<close>

theorem do_clocktick_ok:
  assumes wf: "kwf s" and p: "prev_ptr s = Some pp" "pp \<in> procs" "flags_of s pp = 0"
    and c: "clock_rep s xs" "alarms_ok s xs" "has_priv s CLOCK" and now: "realtime s < TMR_NEVER"
  shows "\<exists>s'. do_clocktick s = Inr (EDONTREPLY, s') \<and> kwf s' \<and>
    clock_rep s' (filter (\<lambda>x. realtime s < texp (clock_timers s) x) xs) \<and> realtime s < next_timeout s'"
proof -
  from new_quantum_ok [OF wf p(2,3)] obtain s1 where
    s1: "new_quantum pp s = Inr s1" "kwf s1" "keeps s s1" by blast
  then have k: "realtime s1 = realtime s" "clock_timers s1 = clock_timers s" "next_timeout s1 = next_timeout s"
    by (simp_all add: keeps_def devices_def)
  have "clock_rep s1 xs" "alarms_ok s1 xs" "has_priv s1 CLOCK"
    using c has_priv_keeps [OF s1(3)] by (simp_all add: clock_rep_def alarms_ok_def k)
  from run_timers_ok [OF s1(2) this] now obtain s' where
    "do_clocktick s = Inr (EDONTREPLY, s')" "kwf s'" "realtime s < next_timeout s'"
    "clock_rep s' (dropWhile (\<lambda>x. texp (clock_timers s) x \<le> realtime s) xs)"
    using s1(1) p(1) by (auto simp: do_clocktick_def k)
  moreover have "sorted (map (texp (clock_timers s)) xs)" using c(1) by (simp add: clock_rep_def tq_rep_def)
  note dropWhile_filter [OF this, of "realtime s"]
  ultimately show ?thesis by auto
qed

definition sample_clock :: kstate where
  "sample_clock = sample\<lparr>next_timeout := 90, clock_timers := \<lparr>theap = (\<lambda>t.
     if t = AlarmTmr 7 then \<lparr>tmr_next = None, tmr_exp_time = 90, tmr_func = CauseAlarm, tmr_arg = 2\<rparr>
     else \<lparr>tmr_next = None, tmr_exp_time = TMR_NEVER, tmr_func = NoWatchdog, tmr_arg = 0\<rparr>),
     thead = Some (AlarmTmr 7)\<rparr>\<rparr>"

lemma sample_clock_simps [simp]:
  "kwf sample_clock" "proc_tab sample_clock = sample_proc" "priv_tab sample_clock = sample_priv"
  "prev_ptr sample_clock = Some 1" "proc_ptr sample_clock = Some 1" "realtime sample_clock = 100"
  "clock_rep sample_clock [AlarmTmr 7]" "alarms_ok sample_clock [AlarmTmr 7]"
  "texp (clock_timers sample_clock) (AlarmTmr 7) = 90" "lost_ticks sample_clock = 0"
  "next_timeout sample_clock = 90" "machine_ps_mca sample_clock = False"
proof -
  show "kwf sample_clock" unfolding sample_clock_def using kwf_sample by (rule kwf_cong) auto
qed (auto simp: sample_clock_def sample_def clock_rep_def tq_rep_def alarms_ok_def has_priv_def
      procs_def isokprocn_bounds sample_proc_def)

lemma sample_clock_priv [simp]: "has_priv sample_clock x \<longleftrightarrow> - 4 \<le> x \<and> x \<le> 4"
  by (auto simp: has_priv_def procs_def isokprocn_bounds sample_proc_def)

theorem do_clocktick_ok_witness:
  "\<exists>s'. do_clocktick sample_clock = Inr (EDONTREPLY, s') \<and> kwf s' \<and> clock_rep s' [] \<and> 100 < next_timeout s'"
  using do_clocktick_ok [of sample_clock 1 "[AlarmTmr 7]"]
  by (auto simp: procs_def isokprocn_bounds sample_proc_def)

section \<open>The handler\<close>

text \<open>Accounting changes the times and the quantum of processes and nothing else.\<close>

definition charged :: "kstate \<Rightarrow> kstate \<Rightarrow> bool" where
  "charged s s' \<longleftrightarrow> (\<exists>pt. s' = s\<lparr>proc_tab := pt\<rparr>) \<and>
     (\<forall>x. sched_view (proc_tab s' x) = sched_view (proc_tab s x) \<and>
          ipc_view (proc_tab s' x) = ipc_view (proc_tab s x) \<and>
          p_getfrom (proc_tab s' x) = p_getfrom (proc_tab s x))"

lemma charged_trans: "charged s s1 \<Longrightarrow> charged s1 s2 \<Longrightarrow> charged s s2"
  unfolding charged_def by (metis kstate.surjective kstate.update_convs(1))

lemma charged_refl [simp]: "charged s s"
  unfolding charged_def by (metis kstate.surjective kstate.update_convs(1))

lemma charged_charge:
  assumes "\<And>p. sched_view (f p) = sched_view p \<and> ipc_view (f p) = ipc_view p \<and> p_getfrom (f p) = p_getfrom p"
  shows "charged s (charge x f s)"
  using assms by (auto simp: charged_def charge_def)

lemma charged_user_time: "charged s (charge x (\<lambda>p. p\<lparr>p_user_time := g p\<rparr>) s)"
  and charged_ticks_left: "charged s (charge x (\<lambda>p. p\<lparr>p_ticks_left := g p\<rparr>) s)"
  and charged_sys_time: "charged s (charge x (\<lambda>p. p\<lparr>p_sys_time := h p, p_ticks_left := g p\<rparr>) s)"
  by (rule charged_charge, simp add: sched_view_def ipc_view_def)+

lemma charged_kwf:
  assumes "charged s s'" and "kwf s"
  shows "kwf s'"
  using assms(2) by (rule kwf_cong) (use assms(1) in \<open>auto simp: charged_def\<close>)

lemma clock_account_ok:
  assumes p: "proc_ptr s = Some pp" "has_priv s pp" and b: "bill_ptr s \<noteq> None"
  shows "\<exists>s'. clock_account s = Inr (pp, s') \<and>
    charged (s\<lparr>lost_ticks := 0, realtime := slong (realtime s + uint (lost_ticks s + 1))\<rparr>) s'"
proof -
  let ?s1 = "s\<lparr>lost_ticks := 0, realtime := slong (realtime s + uint (lost_ticks s + 1))\<rparr>"
  from p obtain i where i: "priv_of ?s1 pp = Inr i" by (auto simp: has_priv_def priv_of_def)
  define s3 where "s3 = (let s2 = charge pp (\<lambda>p. p\<lparr>p_user_time := slong (p_user_time p + uint (lost_ticks s + 1))\<rparr>) ?s1
     in if s_flags (priv_tab s i) AND PREEMPTIBLE \<noteq> 0
        then charge pp (\<lambda>p. p\<lparr>p_ticks_left := schar (p_ticks_left p - uint (lost_ticks s + 1))\<rparr>) s2 else s2)"
  have c3: "charged ?s1 s3"
    unfolding s3_def Let_def
    using charged_user_time charged_trans [OF charged_user_time charged_ticks_left] by simp
  then have "bill_ptr s3 = bill_ptr s" by (auto simp: charged_def)
  with b obtain c where "bill_ptr s3 = Some c" by auto
  then have "clock_account s = Inr (pp, if s_flags (priv_tab s i) AND BILLABLE = 0
     then charge c (\<lambda>p. p\<lparr>p_sys_time := slong (p_sys_time p + uint (lost_ticks s + 1)),
       p_ticks_left := schar (p_ticks_left p - uint (lost_ticks s + 1))\<rparr>) s3 else s3)"
    using p(1) i by (simp add: clock_account_def s3_def Let_def)
  moreover have "charged ?s1 (charge c (\<lambda>p. p\<lparr>p_sys_time := slong (p_sys_time p + uint (lost_ticks s + 1)),
       p_ticks_left := schar (p_ticks_left p - uint (lost_ticks s + 1))\<rparr>) s3)"
    using c3 charged_sys_time by (rule charged_trans)
  ultimately show ?thesis using c3 by auto
qed

text \<open>A notification of \<open>src\<close> for \<open>dst\<close> has arrived, or it is pending under the id of \<open>src\<close>.\<close>

definition notified :: "kstate \<Rightarrow> int \<Rightarrow> int \<Rightarrow> kstate \<Rightarrow> bool" where
  "notified s src dst s' \<longleftrightarrow> (\<exists>dp sp. p_priv (proc_tab s dst) = Some dp \<and> p_priv (proc_tab s src) = Some sp \<and>
     (if waits_for s dst src \<and> s_flags (priv_tab s dp) AND SENDREC_BUSY = 0
      then \<not> receiving s' dst
      else get_sys_bit (s_notify_pending (priv_tab s' dp)) (s_id (priv_tab s sp))))"

lemma lock_notify_notified:
  assumes "kwf s" and "has_priv s src" and "has_priv s dst"
  shows "\<exists>s'. lock_notify src dst s = Inr (OK, s') \<and> kwf s' \<and> keeps s s' \<and> notified s src dst s'"
proof -
  from assms(2,3) obtain sp dp where "p_priv (proc_tab s src) = Some sp" "p_priv (proc_tab s dst) = Some dp"
    "src \<in> procs" "dst \<in> procs" by (auto simp: has_priv_def)
  with mini_notify_effect [OF assms(1), of dst dp src sp] show ?thesis
    by (auto simp: notified_def lock_notify_def procs_def split: if_splits)
qed

text \<open>
  C16: the clock interrupt. Every tick, lost ones included, advances the real time; the kernel
  invariant is kept; and when a timer is due the clock task is notified, at once or by a
  pending bit, with the interrupted process remembered for the new quantum.
\<close>

theorem clock_handler_ok:
  assumes wf: "kwf s" and p: "proc_ptr s = Some pp" "has_priv s pp" "bill_ptr s \<noteq> None"
    and c: "has_priv s CLOCK" "has_priv s HARDWARE"
  shows "\<exists>s'. clock_handler s = Inr (True, s') \<and> kwf s' \<and> lost_ticks s' = 0 \<and>
    realtime s' = slong (realtime s + uint (lost_ticks s + 1)) \<and>
    (next_timeout s \<le> realtime s' \<longrightarrow> prev_ptr s' = Some pp \<and> notified s HARDWARE CLOCK s')"
proof -
  let ?a = "if machine_ps_mca s then outb 97 (inb 97 s OR 128) s else s"
  let ?b = "?a\<lparr>lost_ticks := 0, realtime := slong (realtime s + uint (lost_ticks s + 1))\<rparr>"
  have a: "proc_tab ?a = proc_tab s" "priv_tab ?a = priv_tab s" "proc_ptr ?a = proc_ptr s"
    "bill_ptr ?a = bill_ptr s" "lost_ticks ?a = lost_ticks s" "realtime ?a = realtime s"
    "next_timeout ?a = next_timeout s" "has_priv ?a x = has_priv s x" for x
    by (simp_all add: outb_def has_priv_def)
  from clock_account_ok [of ?a pp] p a obtain s1 where
    s1: "clock_account ?a = Inr (pp, s1)" "charged ?b s1" by metis
  have "kwf ?b" using wf by (rule kwf_cong) (simp_all add: outb_def)
  with s1(2) have wf1: "kwf s1" by (rule charged_kwf)
  from s1(2) obtain pt where pt: "s1 = ?b\<lparr>proc_tab := pt\<rparr>" by (auto simp: charged_def)
  have f: "priv_tab s1 = priv_tab s" "proc_ptr s1 = Some pp" "lost_ticks s1 = 0" "next_timeout s1 = next_timeout s"
    "realtime s1 = slong (realtime s + uint (lost_ticks s + 1))"
    unfolding pt using p(1) by (simp_all add: outb_def)
  have v: "p_priv (proc_tab s1 x) = p_priv (proc_tab s x)" "flags_of s1 x = flags_of s x"
    "p_getfrom (proc_tab s1 x) = p_getfrom (proc_tab s x)" for x
    using s1(2) a(1) by (simp_all add: charged_def sched_view_def)
  let ?s2 = "s1\<lparr>prev_ptr := proc_ptr s1\<rparr>"
  have "kwf ?s2" using wf1 by (rule kwf_cong) auto
  moreover have "has_priv ?s2 x = has_priv s x" for x by (simp add: has_priv_def v)
  ultimately obtain s' where s': "lock_notify HARDWARE CLOCK ?s2 = Inr (OK, s')" "kwf s'" "keeps ?s2 s'"
    "notified ?s2 HARDWARE CLOCK s'"
    using lock_notify_notified [of ?s2 HARDWARE CLOCK] c by auto
  have eq: "priv_tab ?s2 = priv_tab s" "waits_for ?s2 = waits_for s" "p_priv (proc_tab ?s2 x) = p_priv (proc_tab s x)" for x
    by (simp_all add: fun_eq_iff waits_for_def v f)
  have "notified s HARDWARE CLOCK s'" using s'(4) unfolding notified_def by (simp only: eq)
  moreover have "prev_ptr s' = Some pp" "lost_ticks s' = 0" "realtime s' = realtime s1"
    using s'(3) f by (simp_all add: keeps_def devices_def)
  ultimately show ?thesis using s1(1) s'(1,2) wf1 f by (auto simp: clock_handler_def)
qed

lemma sample_clock_bill [simp]: "bill_ptr sample_clock = Some 1"
  by (simp add: sample_clock_def sample_def)

theorem clock_handler_ok_witness:
  "\<exists>s'. clock_handler sample_clock = Inr (True, s') \<and> kwf s' \<and> realtime s' = 101 \<and>
     notified sample_clock HARDWARE CLOCK s'"
  using clock_handler_ok [of sample_clock 1] by (auto simp: slong_def)

text \<open>
  Setting a kernel timer. Whether or not the timer was active before, it is now queued at
  its place by expiry time, no other timer is lost, and the clock knows the earliest of them.
\<close>

theorem set_timer_ok:
  assumes "tq_but tp (clock_timers s) xs"
  shows "\<exists>s'. set_timer tp t wd s = Inr s' \<and>
    clock_rep s' (insert_timer (texp (clock_timers s)) t tp (remove1 tp xs)) \<and>
    texp (clock_timers s') = (texp (clock_timers s))(tp := t) \<and>
    next_timeout s' = Min (texp (clock_timers s') ` insert tp (set xs))"
proof -
  from set_timer_spec [OF assms, of t wd] obtain q where
    q: "set_timer tp t wd s = Inr (s\<lparr>clock_timers := q, next_timeout := first_timeout q\<rparr>)"
    "tq_rep q (insert_timer (texp (clock_timers s)) t tp (remove1 tp xs))"
    "texp q = (texp (clock_timers s))(tp := t)" by blast
  let ?ys = "insert_timer (texp (clock_timers s)) t tp (remove1 tp xs)"
  have "distinct xs" using assms by (auto simp: tq_but_def dest: chain_distinct)
  then have ys: "set ?ys = insert tp (set xs)" by auto
  have ne: "?ys \<noteq> []" by (simp add: insert_timer_def)
  have "first_timeout q = Min (texp q ` set ?ys)"
    using first_timeout_rep [OF q(2)] ne hd_in_set [OF ne]
    by (intro Min_eqI [symmetric]) (auto simp del: set_insert_timer)
  then have "first_timeout q = Min (texp q ` insert tp (set xs))" unfolding ys .
  then show ?thesis using q first_timeout_rep(2) [OF q(2)] by (auto simp: clock_rep_def)
qed

lemma tq_rep_but_sample: "tq_but (AlarmTmr 3) (clock_timers sample_clock) [AlarmTmr 7]"
  by (simp add: tq_but_def sample_clock_def)

theorem set_timer_ok_witness:
  "\<exists>s'. set_timer (AlarmTmr 3) 80 CauseAlarm sample_clock = Inr s' \<and>
     clock_rep s' [AlarmTmr 3, AlarmTmr 7] \<and> next_timeout s' = 80"
proof -
  from set_timer_ok [OF tq_rep_but_sample, of 80 CauseAlarm] obtain s' where
    s: "set_timer (AlarmTmr 3) 80 CauseAlarm sample_clock = Inr s'" "clock_rep s' [AlarmTmr 3, AlarmTmr 7]"
    "texp (clock_timers s') = (texp (clock_timers sample_clock))(AlarmTmr 3 := 80)"
    "next_timeout s' = Min (texp (clock_timers s') ` {AlarmTmr 3, AlarmTmr 7})"
    by (auto simp: insert_timer_def)
  have "next_timeout s' = 80" using s(4) fun_cong [OF s(3)] by simp
  with s show ?thesis by blast
qed

end
