(* ===== verification/Protect.thy ===== *)
theory Protect
  imports Kernel_State
begin

unbundle bit_operations_syntax

text \<open>
  Segment descriptors of the 386 (\<open>kernel/protect.c\<close>): the tables built at boot time by
  \<open>prot_init\<close>, and the local descriptors of a process that \<open>alloc_segments\<close> derives from its
  memory map. \<open>desc_base\<close> and \<open>desc_limit\<close> say how the processor reads a descriptor; the
  lemmas show that it sees the base and the size that were asked for.
\<close>

section \<open>Descriptors\<close>

abbreviation (input) INTR_PRIVILEGE :: u32 where "INTR_PRIVILEGE \<equiv> 0"
abbreviation (input) TASK_PRIVILEGE :: u32 where "TASK_PRIVILEGE \<equiv> 1"
abbreviation (input) USER_PRIVILEGE :: u32 where "USER_PRIVILEGE \<equiv> 3"
abbreviation (input) DPL_SHIFT :: nat where "DPL_SHIFT \<equiv> 5"
abbreviation (input) PRESENT :: u32 where "PRESENT \<equiv> 128"
abbreviation (input) SEGMENT :: u32 where "SEGMENT \<equiv> 16"
abbreviation (input) EXECUTABLE :: u32 where "EXECUTABLE \<equiv> 8"
abbreviation (input) READABLE :: u32 where "READABLE \<equiv> 2"
abbreviation (input) WRITEABLE :: u32 where "WRITEABLE \<equiv> 2"
abbreviation (input) BYTE_GRAN_MAX :: u32 where "BYTE_GRAN_MAX \<equiv> 1048575"
abbreviation (input) DESC_SIZE :: nat where "DESC_SIZE \<equiv> 8"
abbreviation (input) FIRST_LDT_INDEX :: nat where "FIRST_LDT_INDEX \<equiv> 15"

definition sdesc :: "segdesc \<Rightarrow> u32 \<Rightarrow> u32 \<Rightarrow> segdesc" where
  "sdesc d base sz =
     (let lim = sz - 1;
          d1 = d\<lparr>base_low := ucast base, base_middle := ucast (drop_bit 16 base),
                 base_high := ucast (drop_bit 24 base)\<rparr>;
          d2 = (if lim > BYTE_GRAN_MAX
                then d1\<lparr>limit_low := ucast (drop_bit 12 lim),
                        granularity := 128 OR ucast (drop_bit (12 + 16) lim)\<rparr>
                else d1\<lparr>limit_low := ucast lim, granularity := ucast (drop_bit 16 lim)\<rparr>)
      in d2\<lparr>granularity := granularity d2 OR 64\<rparr>)"

definition init_codeseg :: "segdesc \<Rightarrow> u32 \<Rightarrow> u32 \<Rightarrow> u32 \<Rightarrow> segdesc" where
  "init_codeseg d base sz privilege =
     (sdesc d base sz)\<lparr>access := ucast (push_bit DPL_SHIFT privilege OR
        (PRESENT OR SEGMENT OR EXECUTABLE OR READABLE))\<rparr>"

definition init_dataseg :: "segdesc \<Rightarrow> u32 \<Rightarrow> u32 \<Rightarrow> u32 \<Rightarrow> segdesc" where
  "init_dataseg d base sz privilege =
     (sdesc d base sz)\<lparr>access := ucast (push_bit DPL_SHIFT privilege OR
        (PRESENT OR SEGMENT OR WRITEABLE))\<rparr>"

definition seg2phys :: "u16 \<Rightarrow> kstate \<Rightarrow> u32" where
  "seg2phys sg s =
     (if \<not> machine_protected s then push_bit 4 (ucast sg)
      else let d = gdt s (unat (drop_bit 3 sg))
           in ucast (base_low d) OR push_bit 16 (ucast (base_middle d)) OR push_bit 24 (ucast (base_high d)))"

definition phys2seg :: "u32 \<Rightarrow> u16 \<times> u32" where
  "phys2seg phys = (33, phys)"

definition int_gate :: "nat \<Rightarrow> u32 \<Rightarrow> u32 \<Rightarrow> kstate \<Rightarrow> kstate" where
  "int_gate vec_nr offset dpl_type s =
     s\<lparr>idt := (idt s)(vec_nr := (idt s vec_nr)
        \<lparr>offset_low := ucast offset, selector := 48, p_dpl_type := ucast dpl_type,
         offset_high := ucast (drop_bit 16 offset)\<rparr>)\<rparr>"

definition enable_iop :: "int \<Rightarrow> kstate \<Rightarrow> kstate" where
  "enable_iop pp s =
     (let p = proc_tab s pp in
      set_proc pp (p\<lparr>p_reg := (p_reg p)\<lparr>reg_psw := reg_psw (p_reg p) OR 12288\<rparr>\<rparr>) s)"

definition alloc_segments :: "int \<Rightarrow> kstate \<Rightarrow> kstate" where
  "alloc_segments rp s =
     (let p = proc_tab s rp; mm = p_memmap p; r = p_reg p in
      if machine_protected s
      then let data_bytes = push_bit CLICK_SHIFT (mem_vir (mm S_seg) + mem_len (mm S_seg));
               code_bytes = (if mem_len (mm T_seg) = 0 then data_bytes
                             else push_bit CLICK_SHIFT (mem_len (mm T_seg)));
               privilege = (if iskerneln (p_nr p) then TASK_PRIVILEGE else USER_PRIVILEGE);
               ldt = (p_ldt p)(0 := init_codeseg (p_ldt p 0)
                                      (push_bit CLICK_SHIFT (mem_phys (mm T_seg))) code_bytes privilege,
                               1 := init_dataseg (p_ldt p 1)
                                      (push_bit CLICK_SHIFT (mem_phys (mm D_seg))) data_bytes privilege);
               ds = 8 OR 4 OR privilege
           in set_proc rp (p\<lparr>p_ldt := ldt,
                p_reg := r\<lparr>reg_cs := 0 OR 4 OR privilege, reg_gs := ucast ds, reg_fs := ucast ds,
                           reg_ss := ds, reg_es := ucast ds, reg_ds := ucast ds\<rparr>\<rparr>) s
      else let ds = push_bit 6 (mem_phys (mm D_seg))
           in set_proc rp (p\<lparr>p_reg := r\<lparr>reg_cs := push_bit 6 (mem_phys (mm T_seg)),
                reg_ss := ds, reg_es := ucast ds, reg_ds := ucast ds\<rparr>\<rparr>) s)"

section \<open>Initialisation\<close>

text \<open>The gates: vector number and privilege of each entry of \<open>gate_table\<close>.\<close>

definition gate_table :: "(nat \<times> u32) list" where
  "gate_table =
     [(0, INTR_PRIVILEGE), (1, INTR_PRIVILEGE), (2, INTR_PRIVILEGE), (3, USER_PRIVILEGE),
      (4, USER_PRIVILEGE), (5, INTR_PRIVILEGE), (6, INTR_PRIVILEGE), (7, INTR_PRIVILEGE),
      (8, INTR_PRIVILEGE), (9, INTR_PRIVILEGE), (10, INTR_PRIVILEGE), (11, INTR_PRIVILEGE),
      (12, INTR_PRIVILEGE), (13, INTR_PRIVILEGE), (14, INTR_PRIVILEGE), (16, INTR_PRIVILEGE)] @
     map (\<lambda>i. (80 + i, INTR_PRIVILEGE)) [0..<8] @ map (\<lambda>i. (112 + i, INTR_PRIVILEGE)) [0..<8] @
     [(33, USER_PRIVILEGE), (34, TASK_PRIVILEGE)]"

text \<open>
  The two pseudo descriptors hold a limit of two bytes and a base of four bytes.
\<close>

definition desctableptr :: "u16 \<Rightarrow> u32 \<Rightarrow> segdesc \<Rightarrow> segdesc" where
  "desctableptr limit base d =
     d\<lparr>limit_low := limit, base_low := ucast base, base_middle := ucast (drop_bit 16 base),
       access := ucast (drop_bit 24 base)\<rparr>"

definition ldt_descriptor :: "(int \<Rightarrow> u32) \<Rightarrow> nat \<Rightarrow> kstate \<Rightarrow> kstate" where
  "ldt_descriptor ldt_at i s =
     (let rp = int i - NR_TASKS; ldt_index = FIRST_LDT_INDEX + i;
          d = init_dataseg (gdt s ldt_index) (ldt_at rp) (5 * 8) INTR_PRIVILEGE
      in (set_proc rp ((proc_tab s rp)\<lparr>p_ldt_sel := of_nat (ldt_index * DESC_SIZE)\<rparr>) s)
           \<lparr>gdt := (gdt s)(ldt_index := d\<lparr>access := ucast (PRESENT OR 2)\<rparr>)\<rparr>)"

text \<open>
  \<open>prot_init\<close>; the arguments are where the linker put the tables (as physical addresses) and
  the entry points of the gates.
\<close>

definition prot_init ::
  "u32 \<Rightarrow> u32 \<Rightarrow> u32 \<Rightarrow> (int \<Rightarrow> u32) \<Rightarrow> (nat \<Rightarrow> u32) \<Rightarrow> kstate \<Rightarrow> kstate" where
  "prot_init gdt_at idt_at tss_at ldt_at gate s =
     (let k = kinfo_v s; g = gdt s;
          g1 = g(1 := desctableptr (83 * 8 - 1) gdt_at (g 1), 2 := desctableptr (120 * 8 - 1) idt_at (g 2));
          g2 = g1(6 := init_codeseg (g1 6) (code_base k) (code_size k) INTR_PRIVILEGE,
                  3 := init_dataseg (g1 3) (data_base k) (data_size k) INTR_PRIVILEGE,
                  4 := init_dataseg (g1 4) 0 0 TASK_PRIVILEGE,
                  9 := init_dataseg (g1 9) 0 0 TASK_PRIVILEGE,
                  10 := init_dataseg (g1 10) 0 0 TASK_PRIVILEGE);
          s1 = fold (ldt_descriptor ldt_at) [0..<68] (s\<lparr>gdt := g2\<rparr>);
          tss_d = (init_dataseg (gdt s1 8) tss_at 104 INTR_PRIVILEGE)
                    \<lparr>access := ucast (PRESENT OR push_bit DPL_SHIFT INTR_PRIVILEGE OR (1 OR 8))\<rparr>;
          s2 = s1\<lparr>tss_ss0 := 24, gdt := (gdt s1)(8 := tss_d)\<rparr>;
          s3 = fold (\<lambda>(vec, priv). int_gate vec (gate vec)
                       (PRESENT OR (6 OR 8) OR push_bit DPL_SHIFT priv)) gate_table s2
      in s3\<lparr>tss_iobase := 104\<rparr>)"

section \<open>How the processor reads a descriptor\<close>

definition desc_base :: "segdesc \<Rightarrow> u32" where
  "desc_base d =
     ucast (base_low d) OR push_bit 16 (ucast (base_middle d)) OR push_bit 24 (ucast (base_high d))"

definition desc_limit :: "segdesc \<Rightarrow> u32" where
  "desc_limit d =
     (let l = ucast (limit_low d) OR push_bit 16 (ucast (granularity d AND 15))
      in if granularity d AND 128 \<noteq> 0 then push_bit 12 l OR 4095 else l)"

lemma ucast_split32:
  "(ucast (ucast b :: u16) OR push_bit 16 (ucast (ucast (drop_bit 16 b) :: u8))
     OR push_bit 24 (ucast (ucast (drop_bit 24 b) :: u8)) :: u32) = b"
proof (rule bit_word_eqI)
  fix n
  assume "n < LENGTH(32)"
  then consider "n < 16" | "16 \<le> n" "n < 24" | "24 \<le> n" "n < 32" by fastforce
  then show "bit (ucast (ucast b :: u16) OR push_bit 16 (ucast (ucast (drop_bit 16 b) :: u8))
     OR push_bit 24 (ucast (ucast (drop_bit 24 b) :: u8)) :: u32) n = bit b n"
    by cases (auto simp: bit_simps)
qed

lemma desc_base_sdesc: "desc_base (sdesc d base sz) = base"
  unfolding desc_base_def sdesc_def Let_def by (simp add: ucast_split32)

lemma u32_bits_below:
  assumes "(w::u32) \<le> 1048575" and "20 \<le> n"
  shows "\<not> bit w n"
proof -
  have "unat w < 2 ^ 20" using assms(1) by (simp add: word_le_nat_alt)
  also have "(2::nat) ^ 20 \<le> 2 ^ n" using assms(2) by (rule power_increasing) simp
  finally have "unat w div 2 ^ n = 0" by (rule div_less)
  then have "\<not> bit (unat w) n" by (simp add: bit_iff_odd)
  then show ?thesis by (simp add: bit_unsigned_iff)
qed

lemma bit_masks:
  "bit (128::int) n \<longleftrightarrow> n = 7" "bit (4095::int) n \<longleftrightarrow> n < 12" "bit (15::int) n \<longleftrightarrow> n < 4"
proof -
  have "(128::int) = push_bit 7 1" "(4095::int) = mask 12" "(15::int) = mask 4"
    by (simp_all add: push_bit_eq_mult mask_eq_exp_minus_1)
  then show "bit (128::int) n \<longleftrightarrow> n = 7" "bit (4095::int) n \<longleftrightarrow> n < 12" "bit (15::int) n \<longleftrightarrow> n < 4"
    by (simp_all only: bit_push_bit_iff bit_mask_iff) (auto simp: bit_1_iff)
qed

text \<open>The limit that the processor sees: byte granular up to one megabyte, else in pages.\<close>

lemma desc_limit_byte:
  assumes "sz - 1 \<le> BYTE_GRAN_MAX"
  shows "desc_limit (sdesc d base sz) = sz - 1"
proof -
  let ?l = "sz - 1"
  let ?g = "ucast (drop_bit 16 ?l) OR 64 :: u8"
  have g: "granularity (sdesc d base sz) = ?g" "limit_low (sdesc d base sz) = ucast ?l"
    using assms by (auto simp: sdesc_def Let_def)
  have "?g AND 128 = 0"
    by (rule bit_word_eqI) (use u32_bits_below [OF assms] in \<open>auto simp: bit_simps bit_masks\<close>)
  moreover have "(ucast (ucast ?l :: u16) OR push_bit 16 (ucast (?g AND 15)) :: u32) = ?l"
  proof (rule bit_word_eqI)
    fix n
    assume "n < LENGTH(32)"
    then consider "n < 16" | "16 \<le> n" "n < 20" | "20 \<le> n" "n < 32" by fastforce
    then show "bit (ucast (ucast ?l :: u16) OR push_bit 16 (ucast (?g AND 15)) :: u32) n = bit ?l n"
      by cases (use u32_bits_below [OF assms] in \<open>auto simp: bit_simps bit_masks\<close>)
  qed
  ultimately show ?thesis by (simp add: desc_limit_def g)
qed

lemma desc_limit_page:
  assumes "sz - 1 > BYTE_GRAN_MAX"
  shows "desc_limit (sdesc d base sz) = (sz - 1) OR 4095"
proof -
  let ?l = "sz - 1"
  let ?g = "(128 OR ucast (drop_bit 28 ?l)) OR 64 :: u8"
  have g: "granularity (sdesc d base sz) = ?g" "limit_low (sdesc d base sz) = ucast (drop_bit 12 ?l)"
    using assms by (auto simp: sdesc_def Let_def)
  have "bit (?g AND 128) 7" by (simp add: bit_simps)
  then have "?g AND 128 \<noteq> 0" by (metis bit_0_eq bot_apply bot_bool_def)
  moreover have "push_bit 12 (ucast (ucast (drop_bit 12 ?l) :: u16) OR push_bit 16 (ucast (?g AND 15)) :: u32) OR 4095 =
      ?l OR 4095"
  proof (rule bit_word_eqI)
    fix n
    assume "n < LENGTH(32)"
    then consider "n < 12" | "12 \<le> n" "n < 28" | "28 \<le> n" "n < 32" by fastforce
    then show "bit (push_bit 12 (ucast (ucast (drop_bit 12 ?l) :: u16) OR
        push_bit 16 (ucast (?g AND 15)) :: u32) OR 4095) n = bit (?l OR 4095) n"
      by cases (auto simp: bit_simps bit_masks)
  qed
  ultimately show ?thesis by (simp add: desc_limit_def g)
qed

text \<open>Rounding a limit up to the end of its page adds less than a page.\<close>

lemma or_4095: "(w::u32) OR 4095 = 4096 * (w div 4096) + 4095"
proof -
  have "w OR 4095 = push_bit 12 (drop_bit 12 w) OR mask 12"
    by (rule bit_word_eqI) (auto simp: bit_simps bit_masks mask_eq_exp_minus_1)
  also have "\<dots> = push_bit 12 (drop_bit 12 w) + mask 12"
    by (rule disjunctive_add [symmetric]) (auto simp: bit_simps)
  finally show ?thesis by (simp add: push_bit_eq_mult drop_bit_eq_div mask_eq_exp_minus_1 mult.commute)
qed

lemma or_4095_bounds: "w \<le> (w::u32) OR 4095" "unat (w OR 4095) < unat w + 4096"
proof -
  have "unat w < 2 ^ LENGTH(32)" by (rule unsigned_less)
  then have lt: "unat w < 2 ^ 32" by simp
  have "unat w div 4096 < 1048576" using lt by (intro less_mult_imp_div_less) simp
  then have "unat (4096 * (w div 4096) + 4095) = 4096 * (unat w div 4096) + 4095"
    by (simp add: unat_word_ariths unat_div)
  then show "w \<le> w OR 4095" "unat (w OR 4095) < unat w + 4096"
    unfolding or_4095 by (simp_all add: word_le_nat_alt)
qed

section \<open>Properties\<close>

text \<open>
  a descriptor built by \<open>sdesc\<close> reads back as the base that was asked for, and its limit
  admits every offset below the size; beyond it, only the rest of the last page of a segment of
  more than a megabyte is admitted.
\<close>

theorem sdesc_covers:
  "desc_base (sdesc d base sz) = base \<and> sz - 1 \<le> desc_limit (sdesc d base sz) \<and>
   unat (desc_limit (sdesc d base sz)) <
     (if unat (sz - 1) \<le> unat BYTE_GRAN_MAX then unat (sz - 1) + 1 else unat (sz - 1) + 4096)"
proof (cases "sz - 1 \<le> BYTE_GRAN_MAX")
  case True
  then show ?thesis using desc_limit_byte [OF True, of d base]
    by (simp add: desc_base_sdesc word_le_nat_alt)
next
  case False
  then have gt: "sz - 1 > BYTE_GRAN_MAX" by simp
  from False have "\<not> unat (sz - 1) \<le> unat BYTE_GRAN_MAX" unfolding word_le_nat_alt .
  with or_4095_bounds [of "sz - 1"] show ?thesis
    by (simp add: desc_base_sdesc desc_limit_page [OF gt])
qed

text \<open>
  After \<open>alloc_segments\<close> in protected mode, the data segment of a process starts at its
  data area and ends with its stack, at user privilege for every process that is not a task;
  the selectors in its registers refer to these descriptors.
\<close>

theorem alloc_segments_data:
  assumes "machine_protected s" and "p_nr (proc_tab s rp) \<ge> 0"
    and "unat (mem_vir (p_memmap (proc_tab s rp) S_seg) + mem_len (p_memmap (proc_tab s rp) S_seg)) < 1024"
    and "mem_vir (p_memmap (proc_tab s rp) S_seg) + mem_len (p_memmap (proc_tab s rp) S_seg) \<noteq> 0"
  shows "let p = proc_tab (alloc_segments rp s) rp; mm = p_memmap (proc_tab s rp) in
    desc_base (p_ldt p 1) = push_bit CLICK_SHIFT (mem_phys (mm D_seg)) \<and>
    unat (desc_limit (p_ldt p 1)) + 1 = 1024 * unat (mem_vir (mm S_seg) + mem_len (mm S_seg)) \<and>
    desc_base (p_ldt p 0) = push_bit CLICK_SHIFT (mem_phys (mm T_seg)) \<and>
    access (p_ldt p 1) AND 96 = 96 \<and> reg_ds (p_reg p) = 15 \<and> reg_ss (p_reg p) = 15"
proof -
  define e where "e = mem_vir (p_memmap (proc_tab s rp) S_seg) + mem_len (p_memmap (proc_tab s rp) S_seg)"
  have e: "unat e < 1024" "e \<noteq> 0" using assms(3,4) by (simp_all add: e_def)
  let ?sz = "push_bit CLICK_SHIFT e"
  have sz: "unat ?sz = 1024 * unat e" using e(1) by (simp add: push_bit_eq_mult unat_word_ariths mult.commute)
  have "unat e \<noteq> 0" using e(2) by (simp add: unat_eq_0)
  with sz have "?sz \<noteq> 0" by (metis mult_eq_0_iff unat_0 zero_neq_numeral)
  then have m1: "unat (?sz - 1) = 1024 * unat e - 1" using sz unat_minus_one by metis
  then have "?sz - 1 \<le> BYTE_GRAN_MAX" using e(1) by (simp add: word_le_nat_alt)
  then have lim: "desc_limit (sdesc d base ?sz) = ?sz - 1" for d base by (rule desc_limit_byte)
  have upd: "desc_limit (x\<lparr>access := a\<rparr>) = desc_limit x" "desc_base (x\<lparr>access := a\<rparr>) = desc_base x" for x a
    by (simp_all add: desc_limit_def desc_base_def)
  have "unat (?sz - 1) + 1 = 1024 * unat e" using m1 \<open>unat e \<noteq> 0\<close> by simp
  with assms(1,2) show ?thesis
    by (simp add: alloc_segments_def Let_def e_def [symmetric] init_dataseg_def init_codeseg_def upd lim
        desc_base_sdesc iskerneln_def)
qed

theorem alloc_segments_data_witness:
  "let p = proc_tab (alloc_segments 1 sample) 1 in
     desc_base (p_ldt p 1) = 98304 \<and> unat (desc_limit (p_ldt p 1)) + 1 = 16384 \<and> reg_ds (p_reg p) = 15"
proof -
  have "machine_protected sample" "p_nr (proc_tab sample 1) \<ge> 0"
    "mem_vir (p_memmap (proc_tab sample 1) S_seg) + mem_len (p_memmap (proc_tab sample 1) S_seg) = 16"
    "mem_phys (p_memmap (proc_tab sample 1) D_seg) = 96"
    by (simp_all add: sample_def sample_proc_def)
  with alloc_segments_data [of sample 1] show ?thesis by (simp add: Let_def)
qed

end
