(* ===== verification/Sys_Copy.thy ===== *)
theory Sys_Copy
  imports Clock Protect
begin

unbundle bit_operations_syntax

text \<open>
  The system task's view of memory: the mapping of virtual addresses to physical ones and
  \<open>virtual_copy\<close> (\<open>kernel/system.c\<close>), and the kernel calls that copy, fill and map memory
  (\<open>do_umap.c\<close>, \<open>do_copy.c\<close>, \<open>do_vcopy.c\<close>, \<open>do_memset.c\<close>, \<open>do_newmap.c\<close>, \<open>do_segctl.c\<close> in
  \<open>kernel/system/\<close>). A handler gives the result code, the request message with its reply
  fields, and the new state. The lemmas show that a mapped address stays inside the memory of
  the process and that the copies move exactly the bytes that were asked for.
\<close>

section \<open>Fields of a request\<close>

text \<open>
  \<open>m5_c1\<close> and \<open>m5_c2\<close> are the two halves of the first word of the union.
\<close>

definition m5_c1 :: "message \<Rightarrow> int" where
  "m5_c1 m = sint (ucast (m_w m 0) :: u16)"

definition m5_c2 :: "message \<Rightarrow> int" where
  "m5_c2 m = sint (ucast (drop_bit 16 (m_w m 0)) :: u16)"

type_synonym reply = "int \<times> message \<times> kstate"

abbreviation (input) T :: int where "T \<equiv> 0"
abbreviation (input) D :: int where "D \<equiv> 1"
abbreviation (input) SEGMENT_TYPE :: int where "SEGMENT_TYPE \<equiv> 65280"
abbreviation (input) SEGMENT_INDEX :: int where "SEGMENT_INDEX \<equiv> 255"
abbreviation (input) LOCAL_SEG :: int where "LOCAL_SEG \<equiv> 0"
abbreviation (input) REMOTE_SEG :: int where "REMOTE_SEG \<equiv> 256"
abbreviation (input) BIOS_SEG :: int where "BIOS_SEG \<equiv> 512"
abbreviation (input) PHYS_SEG :: int where "PHYS_SEG \<equiv> 1024"

section \<open>Address mapping\<close>

definition umap_seg :: "mem_map \<Rightarrow> int \<Rightarrow> u32 \<Rightarrow> seg" where
  "umap_seg dmap sg vc =
     (if sg \<noteq> T then (if vc < mem_vir dmap + mem_len dmap then D_seg else S_seg) else T_seg)"

definition umap_local :: "int \<Rightarrow> int \<Rightarrow> u32 \<Rightarrow> u32 \<Rightarrow> kstate \<Rightarrow> u32" where
  "umap_local rp sg vir_addr bytes s =
     (if bytes \<le> 0 then 0
      else if vir_addr + bytes \<le> vir_addr then 0
      else let vc = drop_bit CLICK_SHIFT (vir_addr + bytes - 1);
               mm = p_memmap (proc_tab s rp);
               mp = mm (umap_seg (mm D_seg) sg vc)
           in if drop_bit CLICK_SHIFT vir_addr \<ge> mem_vir mp + mem_len mp then 0
              else if vc \<ge> mem_vir mp + mem_len mp then 0
              else push_bit CLICK_SHIFT (mem_phys mp) + (vir_addr - push_bit CLICK_SHIFT (mem_vir mp)))"

definition numap_local :: "int \<Rightarrow> u32 \<Rightarrow> u32 \<Rightarrow> kstate \<Rightarrow> u32 res" where
  "numap_local nr vir_addr bytes s =
     bindr (proc_addr nr) (\<lambda>rp. Inr (umap_local rp D vir_addr bytes s))"

definition umap_remote :: "int \<Rightarrow> int \<Rightarrow> u32 \<Rightarrow> u32 \<Rightarrow> kstate \<Rightarrow> u32 res" where
  "umap_remote rp sg vir_addr bytes s =
     (if bytes \<le> 0 then Inr 0
      else if sg < 0 \<or> sg \<ge> NR_REMOTE_SEGS then Inr 0
      else bindr (priv_of s rp) (\<lambda>i.
           let fm = s_farmem (priv_tab s i) (nat sg)
           in if \<not> in_use fm then Inr 0
              else if vir_addr + bytes > fm_len fm then Inr 0
              else Inr (fm_phys fm + vir_addr)))"

abbreviation (input) BIOS_MEM_BEGIN :: u32 where "BIOS_MEM_BEGIN \<equiv> 0"
abbreviation (input) BIOS_MEM_END :: u32 where "BIOS_MEM_END \<equiv> 1279"
abbreviation (input) BASE_MEM_TOP :: u32 where "BASE_MEM_TOP \<equiv> 589824"
abbreviation (input) UPPER_MEM_END :: u32 where "UPPER_MEM_END \<equiv> 1048575"

definition umap_bios :: "u32 \<Rightarrow> u32 \<Rightarrow> kstate \<Rightarrow> (u32 \<times> kstate) res" where
  "umap_bios vir_addr bytes s =
     (if vir_addr \<ge> BIOS_MEM_BEGIN \<and> vir_addr + bytes \<le> BIOS_MEM_END then Inr (vir_addr, s)
      else if vir_addr \<ge> BASE_MEM_TOP \<and> vir_addr + bytes \<le> UPPER_MEM_END then Inr (vir_addr, s)
      else bindr (kprintf (''Warning, error in umap_bios, virtual address 0x%x'' @ [CHR 0x0A])
                   [KLong vir_addr] s) (\<lambda>s1. Inr (0, s1)))"

section \<open>Copying\<close>

record vir_addr =
  va_proc_nr :: int
  va_segment :: int
  va_offset :: u32

text \<open>The body of the loop over source and destination: a result code and an address.\<close>

definition va_map :: "vir_addr \<Rightarrow> u32 \<Rightarrow> kstate \<Rightarrow> (int \<times> u32 \<times> kstate) res" where
  "va_map va bytes s =
     (let ty = va_segment va AND SEGMENT_TYPE; seg_index = va_segment va AND SEGMENT_INDEX
      in bindr
          (if ty = LOCAL_SEG
           then bindr (proc_addr (va_proc_nr va)) (\<lambda>rp.
                Inr (OK, umap_local rp seg_index (va_offset va) bytes s, s))
           else if ty = REMOTE_SEG
           then bindr (proc_addr (va_proc_nr va)) (\<lambda>rp.
                bindr (umap_remote rp seg_index (va_offset va) bytes s) (\<lambda>a. Inr (OK, a, s)))
           else if ty = BIOS_SEG
           then bindr (proc_addr (va_proc_nr va)) (\<lambda>rp.
                bindr (umap_bios (va_offset va) bytes s) (\<lambda>(a, s1). Inr (OK, a, s1)))
           else if ty = PHYS_SEG then Inr (OK, va_offset va, s)
           else Inr (EINVAL, 0, s))
          (\<lambda>(r, a, s1). if r = OK \<and> a \<le> 0 \<and> va_segment va \<noteq> PHYS_SEG then Inr (EFAULT, a, s1)
                        else Inr (r, a, s1)))"

definition virtual_copy :: "vir_addr \<Rightarrow> vir_addr \<Rightarrow> u32 \<Rightarrow> kstate \<Rightarrow> (int \<times> kstate) res" where
  "virtual_copy src dst bytes s =
     (if bytes \<le> 0 then Inr (EDOM, s)
      else bindr (va_map src bytes s) (\<lambda>(r1, a1, s1).
           if r1 \<noteq> OK then Inr (r1, s1)
           else bindr (va_map dst bytes s1) (\<lambda>(r2, a2, s2).
                if r2 \<noteq> OK then Inr (r2, s2)
                else Inr (OK, s2\<lparr>memory := phys_copy a1 a2 bytes (memory s2)\<rparr>))))"

abbreviation (input) SYS_PHYSCOPY :: int where "SYS_PHYSCOPY \<equiv> 1552"
abbreviation (input) SYS_PHYSVCOPY :: int where "SYS_PHYSVCOPY \<equiv> 1554"

definition do_umap :: "message \<Rightarrow> kstate \<Rightarrow> reply res" where
  "do_umap m s =
     (let seg_type = m5_c1 m AND SEGMENT_TYPE; seg_index = m5_c1 m AND SEGMENT_INDEX;
          offset = m_w m 3; count = m_w m 5;
          nr = (if int_field m 1 = SELF then m_source m else int_field m 1);
          done = (\<lambda>(a, s1). Inr (if a = 0 then EFAULT else OK, mset_w 4 a m, s1))
      in if \<not> isokprocn nr then Inr (EINVAL, m, s)
         else bindr (proc_addr nr) (\<lambda>rp.
              if seg_type = LOCAL_SEG then done (umap_local rp seg_index offset count s, s)
              else if seg_type = REMOTE_SEG
              then bindr (umap_remote rp seg_index offset count s) (\<lambda>a. done (a, s))
              else if seg_type = BIOS_SEG then bindr (umap_bios offset count s) done
              else Inr (EINVAL, m, s)))"

text \<open>The checks of \<open>do_copy\<close> for one of the two addresses: an error code, or the address.\<close>

definition copy_check :: "message \<Rightarrow> vir_addr \<Rightarrow> int + vir_addr" where
  "copy_check m va0 =
     (let va = (if va_proc_nr va0 = SELF then va0\<lparr>va_proc_nr := m_source m\<rparr> else va0)
      in if \<not> isokprocn (va_proc_nr va) \<and> va_segment va \<noteq> PHYS_SEG then Inl EINVAL
         else if va_segment va AND PHYS_SEG \<noteq> 0 \<and> m_type m \<noteq> SYS_PHYSCOPY then Inl EPERM
         else Inr va)"

text \<open>The test for overflow compares two 32-bit numbers of the same value.\<close>

definition do_copy :: "message \<Rightarrow> kstate \<Rightarrow> reply res" where
  "do_copy m s =
     (let src0 = \<lparr>va_proc_nr = int_field m 1, va_segment = m5_c1 m, va_offset = m_w m 3\<rparr>;
          dst0 = \<lparr>va_proc_nr = int_field m 2, va_segment = m5_c2 m, va_offset = m_w m 4\<rparr>;
          bytes = m_w m 5
      in case copy_check m src0 of
           Inl e \<Rightarrow> Inr (e, m, s)
         | Inr src \<Rightarrow> (case copy_check m dst0 of
             Inl e \<Rightarrow> Inr (e, m, s)
           | Inr dst \<Rightarrow> if bytes \<noteq> ucast bytes then Inr (E2BIG, m, s)
               else bindr (virtual_copy src dst bytes s) (\<lambda>(r, s1). Inr (r, m, s1))))"

record vir_cp_req =
  cp_src :: vir_addr
  cp_dst :: vir_addr
  cp_count :: u32

abbreviation (input) VCOPY_VEC_SIZE :: int where "VCOPY_VEC_SIZE \<equiv> 16"

definition get_vir_addr :: "mem \<Rightarrow> u32 \<Rightarrow> vir_addr" where
  "get_vir_addr mm a =
     \<lparr>va_proc_nr = sint (get32 mm a), va_segment = sint (get32 mm (a + 4)), va_offset = get32 mm (a + 8)\<rparr>"

definition get_cp_req :: "mem \<Rightarrow> u32 \<Rightarrow> vir_cp_req" where
  "get_cp_req mm a =
     \<lparr>cp_src = get_vir_addr mm a, cp_dst = get_vir_addr mm (a + 12), cp_count = get32 mm (a + 24)\<rparr>"

fun vcopy_loop :: "bool \<Rightarrow> vir_cp_req list \<Rightarrow> int \<Rightarrow> kstate \<Rightarrow> (int \<times> int \<times> kstate) res" where
  "vcopy_loop phys [] nr_ok s = Inr (OK, nr_ok, s)"
| "vcopy_loop phys (rq # rqs) nr_ok s =
     (if (va_segment (cp_src rq) OR va_segment (cp_dst rq)) AND PHYS_SEG \<noteq> 0 \<and> \<not> phys
      then Inr (EPERM, nr_ok, s)
      else bindr (virtual_copy (cp_src rq) (cp_dst rq) (cp_count rq) s) (\<lambda>(r, s1).
           if r \<noteq> OK then Inr (r, nr_ok, s1) else vcopy_loop phys rqs (nr_ok + 1) s1))"

text \<open>
  The request vector is copied to a buffer of the kernel that has room for sixteen requests;
  a copy past it is a fault. The size is an \<open>int\<close> that is compared signed.
\<close>

definition do_vcopy :: "message \<Rightarrow> kstate \<Rightarrow> reply res" where
  "do_vcopy m s =
     (let nr_req = int_field m 2; bytes = word_of_int (nr_req * 28) :: u32
      in if nr_req > VCOPY_VEC_SIZE then Inr (EINVAL, m, s)
         else bindr (proc_addr (m_source m)) (\<lambda>caller.
              let caller_phys = umap_local caller D (m_w m 3) bytes s
              in if caller_phys = 0 then Inr (EFAULT, m, s)
                 else if bytes > 448 then Inl (BadIndex (uint bytes))
                 else bindr (vcopy_loop (m_type m = SYS_PHYSVCOPY)
                              (map (\<lambda>i. get_cp_req (memory s) (caller_phys + 28 * of_nat i)) [0..<nat nr_req]) 0 s)
                        (\<lambda>(r, nr_ok, s1). Inr (r, mset_w 1 (word_of_int nr_ok) m, s1))))"

section \<open>Filling and mapping\<close>

definition do_memset :: "message \<Rightarrow> kstate \<Rightarrow> reply res" where
  "do_memset m s =
     (let c = ucast (ucast (m_w m 4) :: u8) :: u32;
          p = c OR push_bit 8 c OR push_bit 16 c OR push_bit 24 c
      in Inr (OK, m, s\<lparr>memory := phys_memset (m_w m 5) p (m_w m 3) (memory s)\<rparr>))"

definition get_mem_map :: "mem \<Rightarrow> u32 \<Rightarrow> mem_map" where
  "get_mem_map mm a = \<lparr>mem_vir = get32 mm a, mem_phys = get32 mm (a + 4), mem_len = get32 mm (a + 8)\<rparr>"

definition get_maps :: "mem \<Rightarrow> u32 \<Rightarrow> seg \<Rightarrow> mem_map" where
  "get_maps mm a sg =
     (case sg of T_seg \<Rightarrow> get_mem_map mm a | D_seg \<Rightarrow> get_mem_map mm (a + 12) | S_seg \<Rightarrow> get_mem_map mm (a + 24))"

text \<open>
  \<open>old_flags != 0 && flags == 0\<close>: the idiom of \<open>do_newmap\<close> and \<open>do_privctl\<close>, which never
  enqueues a process that was ready already.
\<close>

definition rts_unset_checked :: "u8 \<Rightarrow> int \<Rightarrow> kstate \<Rightarrow> kstate res" where
  "rts_unset_checked msk rp s =
     (let old_flags = flags_of s rp; s1 = set_flags rp (old_flags AND NOT msk) s
      in if old_flags \<noteq> 0 \<and> flags_of s1 rp = 0 then lock_enqueue rp s1 else Inr s1)"

definition do_newmap :: "message \<Rightarrow> kstate \<Rightarrow> reply res" where
  "do_newmap m s =
     (let nr = int_field m 0 in
      if \<not> isokprocn nr then Inr (EINVAL, m, s)
      else if iskerneln nr then Inr (EPERM, m, s)
      else bindr (proc_addr nr) (\<lambda>rp.
           bindr (proc_addr (m_source m)) (\<lambda>caller.
           let src_phys = umap_local caller D (m_w m 3) 36 s
           in if src_phys = 0 then Inr (EFAULT, m, s)
              else let s1 = set_proc rp ((proc_tab s rp)\<lparr>p_memmap := get_maps (memory s) src_phys\<rparr>) s;
                       s2 = alloc_segments rp s1
                   in bindr (rts_unset_checked NO_MAP rp s2) (\<lambda>s3. Inr (OK, m, s3)))))"

abbreviation (input) EXTRA_LDT_INDEX :: nat where "EXTRA_LDT_INDEX \<equiv> 2"

definition segctl_slot :: "priv \<Rightarrow> nat option" where
  "segctl_slot v = find (\<lambda>i. \<not> in_use (s_farmem v i)) [0..<nat NR_REMOTE_SEGS]"

definition do_segctl :: "message \<Rightarrow> kstate \<Rightarrow> reply res" where
  "do_segctl m s =
     (let phys = m_w m 2; size = m_w m 3
      in bindr (proc_addr (m_source m)) (\<lambda>rp.
         bindr (priv_of s rp) (\<lambda>pi.
         case segctl_slot (priv_tab s pi) of
           None \<Rightarrow> Inr (ENOSPC, m, s)
         | Some i \<Rightarrow>
             (let v = priv_tab s pi;
                  s1 = set_priv pi (v\<lparr>s_farmem := (s_farmem v)(i := \<lparr>in_use = True, fm_phys = phys, fm_len = size\<rparr>)\<rparr>) s;
                  p = proc_tab s1 rp; k = EXTRA_LDT_INDEX + i;
                  ldt_selector = of_nat (k * 8) OR 4 OR USER_PRIVILEGE;
                  (selector, offset, s2) =
                    (if \<not> machine_protected s1 then (phys div 16, phys mod 16, s1)
                     else if size < BYTE_GRAN_MAX
                     then (ldt_selector, 0,
                           set_proc rp (p\<lparr>p_ldt := (p_ldt p)(k := init_dataseg (p_ldt p k) phys size USER_PRIVILEGE)\<rparr>) s1)
                     else (ldt_selector, phys AND 65535,
                           set_proc rp (p\<lparr>p_ldt := (p_ldt p)(k := init_dataseg (p_ldt p k)
                             (phys AND NOT 65535) 0 USER_PRIVILEGE)\<rparr>) s1))
              in Inr (OK, mset_w 1 offset (mset_w 0 (take_bit 16 selector)
                        (mset_w 4 (of_nat i OR 256) m)), s2)))))"

section \<open>The memory of a process\<close>

text \<open>
  \<open>data_layout\<close>: data, gap and stack of a process are one block of physical memory that begins
  at virtual address zero, as the process manager allocates it.
\<close>

definition data_layout :: "(seg \<Rightarrow> mem_map) \<Rightarrow> bool" where
  "data_layout mm \<longleftrightarrow> mem_vir (mm D_seg) = 0 \<and> mem_phys (mm S_seg) = mem_phys (mm D_seg) + mem_vir (mm S_seg) \<and>
     unat (mem_len (mm D_seg)) \<le> unat (mem_vir (mm S_seg)) + unat (mem_len (mm S_seg)) \<and>
     unat (mem_phys (mm D_seg)) + unat (mem_vir (mm S_seg)) + unat (mem_len (mm S_seg)) < 2 ^ 22"

definition data_end :: "(seg \<Rightarrow> mem_map) \<Rightarrow> nat" where
  "data_end mm = 1024 * (unat (mem_vir (mm S_seg)) + unat (mem_len (mm S_seg)))"

lemma unat_plus_small: "unat (a::u32) + unat b < 2 ^ 32 \<Longrightarrow> unat (a + b) = unat a + unat b"
  by (simp add: unat_word_ariths)

lemma unat_shift10: "unat (a::u32) < 2 ^ 22 \<Longrightarrow> unat (push_bit 10 a) = 1024 * unat a"
  by (simp add: push_bit_eq_mult unat_word_ariths)

lemma unat_click: "unat (drop_bit 10 (w::u32)) = unat w div 1024"
  by (simp add: drop_bit_eq_div unat_div)

lemma umap_last_click:
  assumes "bytes \<noteq> 0" and "vir < vir + (bytes::u32)"
  shows "unat (drop_bit 10 (vir + bytes - 1)) = (unat vir + unat bytes - 1) div 1024"
    and "unat vir + unat bytes < 2 ^ 32"
proof -
  show lt: "unat vir + unat bytes < 2 ^ 32"
  proof (rule ccontr)
    assume "\<not> unat vir + unat bytes < 2 ^ 32"
    moreover have "unat vir < 2 ^ 32" "unat bytes < 2 ^ 32" using unsigned_less [of vir] unsigned_less [of bytes] by simp_all
    ultimately have "unat (vir + bytes) = unat vir + unat bytes - 2 ^ 32"
      by (simp add: unat_word_ariths mod_if)
    with assms(2) \<open>unat bytes < 2 ^ 32\<close> show False by (simp add: word_less_nat_alt)
  qed
  have b: "0 < unat bytes" using assms(1) by (simp add: unat_gt_0)
  have e: "unat (vir + bytes) = unat vir + unat bytes" using lt by (rule unat_plus_small)
  with b have "1 \<le> vir + bytes" by (simp add: word_le_nat_alt)
  then have "unat (vir + bytes - 1) = unat vir + unat bytes - 1" using e by (simp add: unat_sub)
  then show "unat (drop_bit 10 (vir + bytes - 1)) = (unat vir + unat bytes - 1) div 1024"
    by (simp add: unat_click)
qed

lemma click_bound: "0 < n \<Longrightarrow> (a + n - 1) div 1024 < c \<longleftrightarrow> a + n \<le> 1024 * (c::nat)"
  by (simp add: div_less_iff_less_mult less_eq_Suc_le) linarith

text \<open>
  Under this layout \<open>umap_local\<close> is exact: an area is mapped iff it lies below the end of the
  stack, by adding the physical base. The gap between data and stack is mapped as well.
\<close>

lemma umap_local_spec:
  assumes lay: "data_layout (p_memmap (proc_tab s rp))" and sg: "sg \<noteq> T"
  defines "mm \<equiv> p_memmap (proc_tab s rp)"
  shows "umap_local rp sg vir bytes s =
    (if bytes = 0 \<or> data_end mm < unat vir + unat bytes then 0 else push_bit 10 (mem_phys (mm D_seg)) + vir)"
proof (cases "bytes = 0 \<or> vir + bytes \<le> vir")
  case True
  then show ?thesis
  proof (cases "bytes = 0")
    case False
    have "2 ^ 32 \<le> unat vir + unat bytes"
    proof (rule ccontr)
      assume "\<not> 2 ^ 32 \<le> unat vir + unat bytes"
      then have "unat (vir + bytes) = unat vir + unat bytes" by (intro unat_plus_small) simp
      moreover have "0 < unat bytes" using False by (simp add: unat_gt_0)
      ultimately show False using True by (simp add: word_le_nat_alt)
    qed
    moreover have "data_end mm < 2 ^ 32" using lay by (simp add: data_end_def data_layout_def mm_def)
    ultimately show ?thesis using False True by (simp add: umap_local_def)
  qed (simp add: umap_local_def)
next
  case False
  then have nz: "bytes \<noteq> 0" and lt: "vir < vir + bytes" by auto
  let ?vc = "drop_bit 10 (vir + bytes - 1)"
  note vc = umap_last_click [OF nz lt]
  have b: "0 < unat bytes" using nz by (simp add: unat_gt_0)
  have L: "mem_vir (mm D_seg) = 0" "mem_phys (mm S_seg) = mem_phys (mm D_seg) + mem_vir (mm S_seg)"
    "unat (mem_len (mm D_seg)) \<le> unat (mem_vir (mm S_seg)) + unat (mem_len (mm S_seg))"
    "unat (mem_phys (mm D_seg)) + unat (mem_vir (mm S_seg)) + unat (mem_len (mm S_seg)) < 2 ^ 22"
    using lay by (auto simp: data_layout_def mm_def)
  have ends: "unat (mem_vir (mm S_seg) + mem_len (mm S_seg)) = unat (mem_vir (mm S_seg)) + unat (mem_len (mm S_seg))"
    using L(4) by (intro unat_plus_small) simp
  have first: "unat (drop_bit 10 vir) \<le> unat ?vc"
    unfolding vc(1) unfolding unat_click using b by (simp add: div_le_mono)
  have inD: "?vc < mem_len (mm D_seg) \<longleftrightarrow> unat vir + unat bytes \<le> 1024 * unat (mem_len (mm D_seg))"
    unfolding word_less_nat_alt vc(1) by (rule click_bound [OF b])
  have inS: "?vc < mem_vir (mm S_seg) + mem_len (mm S_seg) \<longleftrightarrow> unat vir + unat bytes \<le> data_end mm"
    unfolding word_less_nat_alt vc(1) ends data_end_def by (rule click_bound [OF b])
  have base: "push_bit 10 (mem_phys (mm S_seg)) + (vir - push_bit 10 (mem_vir (mm S_seg))) =
      push_bit 10 (mem_phys (mm D_seg)) + vir"
    by (simp add: L(2) push_bit_eq_mult algebra_simps)
  have sub: "unat vir + unat bytes \<le> 1024 * unat (mem_len (mm D_seg)) \<Longrightarrow> unat vir + unat bytes \<le> data_end mm"
    using L(3) by (simp add: data_end_def)
  show ?thesis
  proof (cases "?vc < mem_len (mm D_seg)")
    case True
    have "drop_bit 10 vir < mem_len (mm D_seg)" using True first by (simp add: word_less_nat_alt)
    then show ?thesis
      using True False sg inD sub L(1)
      by (auto simp: umap_local_def umap_seg_def Let_def mm_def [symmetric] not_le)
  next
    case no: False
    show ?thesis
    proof (cases "?vc < mem_vir (mm S_seg) + mem_len (mm S_seg)")
      case True
      then have "drop_bit 10 vir < mem_vir (mm S_seg) + mem_len (mm S_seg)"
        using first by (simp add: word_less_nat_alt)
      then show ?thesis
        using True no False sg inS L(1) base
        by (auto simp: umap_local_def umap_seg_def Let_def mm_def [symmetric] not_le)
    next
      case no2: False
      then show ?thesis using no False sg inS L(1)
        by (auto simp: umap_local_def umap_seg_def Let_def mm_def [symmetric] not_le)
    qed
  qed
qed

abbreviation phys_base :: "kstate \<Rightarrow> int \<Rightarrow> u32" where
  "phys_base s rp \<equiv> push_bit 10 (mem_phys (p_memmap (proc_tab s rp) D_seg))"

definition data_area :: "kstate \<Rightarrow> int \<Rightarrow> u32 set" where
  "data_area s rp = span (phys_base s rp) (data_end (p_memmap (proc_tab s rp)))"

lemma data_end_bound: "data_layout mm \<Longrightarrow> data_end mm \<le> 2 ^ 32"
  by (simp add: data_layout_def data_end_def)

lemma mapped_in_area:
  assumes "data_layout (p_memmap (proc_tab s rp))"
    and "unat vir + n \<le> data_end (p_memmap (proc_tab s rp))"
  shows "span (phys_base s rp + vir) n \<subseteq> data_area s rp"
proof -
  have le: "unat vir + n \<le> 2 ^ 32" using assms(2) data_end_bound [OF assms(1)] by simp
  have "span (phys_base s rp + of_nat (unat vir)) n \<subseteq> span (phys_base s rp) (unat vir + n)"
    using le by (rule span_shift)
  also have "\<dots> \<subseteq> data_area s rp" unfolding data_area_def using assms(2) by (rule span_mono)
  finally show ?thesis by simp
qed

section \<open>Copies between data segments\<close>

definition in_data :: "kstate \<Rightarrow> int \<Rightarrow> u32 \<Rightarrow> u32 \<Rightarrow> bool" where
  "in_data s rp vir bytes \<longleftrightarrow> unat vir + unat bytes \<le> data_end (p_memmap (proc_tab s rp)) \<and>
     phys_base s rp + vir \<noteq> 0"

lemma va_map_data:
  assumes "isokprocn n" and "data_layout (p_memmap (proc_tab s n))" and "bytes \<noteq> 0"
  shows "va_map \<lparr>va_proc_nr = n, va_segment = D, va_offset = vir\<rparr> bytes s =
    Inr (if in_data s n vir bytes then (OK, phys_base s n + vir, s) else (EFAULT, 0, s))"
  using assms(3) umap_local_spec [OF assms(2), of D vir bytes]
  by (auto simp: va_map_def assms(1) in_data_def Let_def not_le)

definition copy_proc :: "message \<Rightarrow> nat \<Rightarrow> int" where
  "copy_proc m k = (if int_field m k = SELF then m_source m else int_field m k)"

lemma do_copy_data:
  assumes seg: "m5_c1 m = D" "m5_c2 m = D"
    and ok: "isokprocn (copy_proc m 1)" "isokprocn (copy_proc m 2)"
    and lay: "data_layout (p_memmap (proc_tab s (copy_proc m 1)))"
      "data_layout (p_memmap (proc_tab s (copy_proc m 2)))"
  shows "do_copy m s = Inr (
    if m_w m 5 = 0 then (EDOM, m, s)
    else if in_data s (copy_proc m 1) (m_w m 3) (m_w m 5) \<and> in_data s (copy_proc m 2) (m_w m 4) (m_w m 5)
    then (OK, m, s\<lparr>memory := phys_copy (phys_base s (copy_proc m 1) + m_w m 3)
                               (phys_base s (copy_proc m 2) + m_w m 4) (m_w m 5) (memory s)\<rparr>)
    else (EFAULT, m, s))"
proof -
  have chk: "copy_check m \<lparr>va_proc_nr = int_field m k, va_segment = D, va_offset = v\<rparr> =
      Inr \<lparr>va_proc_nr = copy_proc m k, va_segment = D, va_offset = v\<rparr>" if "isokprocn (copy_proc m k)" for k v
    using that by (cases "int_field m k = SELF") (auto simp: copy_check_def copy_proc_def Let_def)
  have "do_copy m s = bindr (virtual_copy \<lparr>va_proc_nr = copy_proc m 1, va_segment = D, va_offset = m_w m 3\<rparr>
      \<lparr>va_proc_nr = copy_proc m 2, va_segment = D, va_offset = m_w m 4\<rparr> (m_w m 5) s) (\<lambda>(r, s1). Inr (r, m, s1))"
    unfolding do_copy_def Let_def seg chk [OF ok(1)] chk [OF ok(2)] by simp
  then show ?thesis
    unfolding virtual_copy_def
    using va_map_data [OF ok(1) lay(1), of "m_w m 5" "m_w m 3"] va_map_data [OF ok(2) lay(2), of "m_w m 5" "m_w m 4"]
    by (cases "m_w m 5 = 0"; cases "in_data s (copy_proc m 1) (m_w m 3) (m_w m 5)";
        cases "in_data s (copy_proc m 2) (m_w m 4) (m_w m 5)") (simp_all only: if_True if_False, simp_all)
qed

text \<open>Neither half of the invariant looks at what \<open>alloc_segments\<close> changes.\<close>

lemma alloc_segments_view:
  "rdy_head (alloc_segments rp s) = rdy_head s" "rdy_tail (alloc_segments rp s) = rdy_tail s"
  "next_ptr (alloc_segments rp s) = next_ptr s" "priv_tab (alloc_segments rp s) = priv_tab s"
  "sched_view (proc_tab (alloc_segments rp s) x) = sched_view (proc_tab s x)"
  "ipc_view (proc_tab (alloc_segments rp s) x) = ipc_view (proc_tab s x)"
  by (auto simp: alloc_segments_def Let_def sched_view_def ipc_view_def)

section \<open>Properties\<close>

text \<open>
  C28: a kernel call that copies between the data segments of two processes. With valid areas
  that do not overlap, exactly the bytes of the source arrive at the destination and nothing
  else of the machine's state changes.
\<close>

theorem do_copy_exact:
  assumes "m5_c1 m = D" and "m5_c2 m = D"
    and "isokprocn (copy_proc m 1)" and "isokprocn (copy_proc m 2)"
    and "data_layout (p_memmap (proc_tab s (copy_proc m 1)))"
    and "data_layout (p_memmap (proc_tab s (copy_proc m 2)))"
    and "m_w m 5 \<noteq> 0" and "in_data s (copy_proc m 1) (m_w m 3) (m_w m 5)"
    and "in_data s (copy_proc m 2) (m_w m 4) (m_w m 5)"
  defines "a \<equiv> phys_base s (copy_proc m 1) + m_w m 3" and "b \<equiv> phys_base s (copy_proc m 2) + m_w m 4"
  assumes "span a (unat (m_w m 5)) \<inter> span b (unat (m_w m 5)) = {}"
  shows "\<exists>mm. do_copy m s = Inr (OK, m, s\<lparr>memory := mm\<rparr>) \<and>
    (\<forall>i < unat (m_w m 5). mm (b + of_nat i) = memory s (a + of_nat i)) \<and>
    (\<forall>x. x \<notin> span b (unat (m_w m 5)) \<longrightarrow> mm x = memory s x)"
proof -
  let ?n = "unat (m_w m 5)"
  have "do_copy m s = Inr (OK, m, s\<lparr>memory := phys_copy a b (m_w m 5) (memory s)\<rparr>)"
    using do_copy_data [OF assms(1-6)] assms(7-9) by (simp add: a_def b_def)
  moreover have "phys_copy a b (m_w m 5) (memory s) (b + of_nat i) = memory s (a + of_nat i)" if "i < ?n" for i
    unfolding phys_copy_disjoint [OF assms(12)]
    using that unat_le_u32 [of "m_w m 5"] by (simp add: write_bytes_lookup unat_of_nat)
  ultimately show ?thesis using phys_copy_outside by blast
qed

text \<open>
  C29: isolation. Whatever the addresses and the length, a copy whose source and destination
  are both data segments (\<open>D\<close>) of processes never writes outside the memory of the destination
  process and leaves every other part of the kernel's state alone, if the memory maps of both have the
  layout that the process manager sets up (\<open>data_layout\<close>). Copies from or to remote and
  BIOS segments are not covered.
\<close>

theorem do_copy_confined:
  assumes "m5_c1 m = D" and "m5_c2 m = D"
    and "isokprocn (copy_proc m 1)" and "isokprocn (copy_proc m 2)"
    and "data_layout (p_memmap (proc_tab s (copy_proc m 1)))"
    and "data_layout (p_memmap (proc_tab s (copy_proc m 2)))"
  shows "\<exists>r mm. do_copy m s = Inr (r, m, s\<lparr>memory := mm\<rparr>) \<and>
    (\<forall>x. x \<notin> data_area s (copy_proc m 2) \<longrightarrow> mm x = memory s x) \<and> (r \<noteq> OK \<longrightarrow> mm = memory s)"
proof (cases "m_w m 5 \<noteq> 0 \<and> in_data s (copy_proc m 1) (m_w m 3) (m_w m 5) \<and>
    in_data s (copy_proc m 2) (m_w m 4) (m_w m 5)")
  case True
  let ?b = "phys_base s (copy_proc m 2) + m_w m 4"
  have "span ?b (unat (m_w m 5)) \<subseteq> data_area s (copy_proc m 2)"
    using True by (intro mapped_in_area assms(6)) (simp add: in_data_def)
  moreover have "do_copy m s = Inr (OK, m, s\<lparr>memory := phys_copy (phys_base s (copy_proc m 1) + m_w m 3)
                               ?b (m_w m 5) (memory s)\<rparr>)"
    using do_copy_data [OF assms] True by simp
  ultimately show ?thesis using phys_copy_outside by blast
next
  case False
  then have "\<exists>r. do_copy m s = Inr (r, m, s\<lparr>memory := memory s\<rparr>)" using do_copy_data [OF assms] by auto
  then show ?thesis by blast
qed

definition sample_copy :: message where
  "sample_copy = \<lparr>m_source = 1, m_type = 1551, m_w = (\<lambda>_. 0)(0 := 65537, 1 := 35534, 2 := 2, 3 := 512, 4 := 1024, 5 := 16)\<rparr>"

lemma sample_copy_simps [simp]:
  "m5_c1 sample_copy = D" "m5_c2 sample_copy = D" "copy_proc sample_copy (Suc 0) = 1" "copy_proc sample_copy 2 = 2"
  "m_w sample_copy 3 = 512" "m_w sample_copy 4 = 1024" "m_w sample_copy 5 = 16"
  by (simp_all add: m5_c1_def m5_c2_def copy_proc_def int_field_def sample_copy_def)

lemma sample_layout:
  "data_layout (p_memmap (proc_tab sample 1))" "data_layout (p_memmap (proc_tab sample 2))"
  "phys_base sample 1 = 98304" "phys_base sample 2 = 114688"
  "data_end (p_memmap (proc_tab sample 1)) = 16384" "data_end (p_memmap (proc_tab sample 2)) = 16384"
  by (simp_all add: data_layout_def data_end_def sample_def sample_proc_def)

theorem do_copy_exact_witness:
  "\<exists>mm. do_copy sample_copy sample = Inr (OK, sample_copy, sample\<lparr>memory := mm\<rparr>) \<and> mm 115712 = memory sample 98816"
proof -
  have "span (98304 + 512) (unat (16::u32)) \<inter> span (114688 + 1024) (unat (16::u32)) = {}"
    by (rule span_disjoint) simp_all
  then obtain mm where
    "do_copy sample_copy sample = Inr (OK, sample_copy, sample\<lparr>memory := mm\<rparr>)"
    "\<forall>i < 16. mm (115712 + of_nat i) = memory sample (98816 + of_nat i)"
    using do_copy_exact [of sample_copy sample] sample_layout
    by (auto simp: isokprocn_bounds in_data_def)
  then show ?thesis by fastforce
qed

theorem do_copy_confined_witness:
  "\<exists>r mm. do_copy sample_copy sample = Inr (r, sample_copy, sample\<lparr>memory := mm\<rparr>) \<and> mm 0 = memory sample 0"
proof -
  have "(0::u32) \<notin> data_area sample 2"
    unfolding data_area_def sample_layout by (simp add: span_no_wrap)
  then show ?thesis using do_copy_confined [of sample_copy sample] sample_layout
    by (auto simp: isokprocn_bounds)
qed

text \<open>
  The mapping of virtual addresses is exact. For a process whose data, gap and stack are
  one block, an area of its data or stack segment is mapped iff it lies below the end of the
  stack, and then to the physical base plus the address.
\<close>

theorem umap_local_exact:
  assumes "data_layout (p_memmap (proc_tab s rp))" and "sg \<noteq> T"
  shows "umap_local rp sg vir bytes s =
    (if bytes = 0 \<or> data_end (p_memmap (proc_tab s rp)) < unat vir + unat bytes then 0
     else phys_base s rp + vir)"
  using umap_local_spec [OF assms] .

theorem umap_local_exact_witness:
  "umap_local 1 D 1000 24 sample = 99304 \<and> umap_local 1 D 16380 5 sample = 0"
  using umap_local_exact [OF sample_layout(1), of D 1000 24]
    umap_local_exact [OF sample_layout(1), of D 16380 5] sample_layout by simp

text \<open>
  the check of a remote segment adds offset and size with wrap-around, so an area that
  begins outside the segment can pass: here the byte in front of the segment is mapped.
\<close>

theorem umap_remote_wraps:
  assumes "priv_of s rp = Inr i" and "in_use (s_farmem (priv_tab s i) 0)"
    and "1 \<le> fm_len (s_farmem (priv_tab s i) 0)"
  shows "umap_remote rp 0 (- 1) 2 s = Inr (fm_phys (s_farmem (priv_tab s i) 0) - 1)"
  using assms by (auto simp: umap_remote_def Let_def not_less)

definition sample_far :: kstate where
  "sample_far = set_priv 6 ((priv_tab sample 6)\<lparr>s_farmem :=
     (\<lambda>_. \<lparr>in_use = True, fm_phys = 753664, fm_len = 4096\<rparr>)\<rparr>) sample"

theorem umap_remote_wraps_witness: "umap_remote 1 0 (- 1) 2 sample_far = Inr 753663"
proof -
  have "priv_of sample_far 1 = Inr 6"
    by (simp add: sample_far_def priv_of_def sample_def sample_proc_def)
  from umap_remote_wraps [OF this] show ?thesis by (simp add: sample_far_def)
qed

end
