(* ===== verification/Sys_Proc.thy ===== *)
theory Sys_Proc
  imports Sys_Copy
begin

unbundle bit_operations_syntax

text \<open>
  The kernel calls of the system task that manage processes and signals: \<open>get_priv\<close> and
  \<open>cause_sig\<close> of \<open>kernel/system.c\<close>, and \<open>do_fork.c\<close>, \<open>do_exec.c\<close>, \<open>do_exit.c\<close>, \<open>do_nice.c\<close>,
  \<open>do_privctl.c\<close>, \<open>do_trace.c\<close>, \<open>do_kill.c\<close>, \<open>do_getksig.c\<close>, \<open>do_endksig.c\<close>, \<open>do_setalarm.c\<close> and
  \<open>do_times.c\<close> of \<open>kernel/system/\<close>. The lemmas show which of them keep the invariant of the
  kernel, and under which conditions on the request.
\<close>

section \<open>Privilege structures\<close>

text \<open>
  The loop stops at the first free structure that is not the shared one. When there is none,
  the test after the loop reads the word behind the table, which is the argument \<open>behind\<close>.
\<close>

definition free_priv :: "kstate \<Rightarrow> nat option" where
  "free_priv s = find (\<lambda>i. s_proc_nr (priv_tab s i) = NONE \<and> s_id (priv_tab s i) \<noteq> USER_PRIV_ID) [0..<NR_SYS_PROCS]"

definition get_priv :: "int \<Rightarrow> int \<Rightarrow> bool \<Rightarrow> kstate \<Rightarrow> (int \<times> kstate) res" where
  "get_priv behind rc sys_proc s =
     (if sys_proc
      then case free_priv s of
             None \<Rightarrow> if behind \<noteq> NONE then Inr (ENOSPC, s) else Inl (BadIndex (int NR_SYS_PROCS))
           | Some i \<Rightarrow>
               Inr (OK, set_priv i ((priv_tab s i)\<lparr>s_proc_nr := p_nr (proc_tab s rc), s_flags := SYS_PROC\<rparr>)
                          (set_proc rc ((proc_tab s rc)\<lparr>p_priv := Some i\<rparr>) s))
      else Inr (OK, set_priv USER_PRIV_ID ((priv_tab s USER_PRIV_ID)\<lparr>s_proc_nr := INIT_PROC_NR, s_flags := 0\<rparr>)
                      (set_proc rc ((proc_tab s rc)\<lparr>p_priv := Some USER_PRIV_ID\<rparr>) s)))"

abbreviation (input) FILLED_MASK :: u16 where "FILLED_MASK \<equiv> - 1"

definition allow_reply :: "nat \<Rightarrow> nat \<Rightarrow> nat \<Rightarrow> kstate \<Rightarrow> kstate" where
  "allow_reply pi own i s =
     (if get_sys_bit (s_ipc_to (priv_tab s pi)) i
      then set_priv i ((priv_tab s i)\<lparr>s_ipc_to := set_sys_bit (s_ipc_to (priv_tab s i)) own\<rparr>) s
      else s)"

definition do_privctl :: "int \<Rightarrow> message \<Rightarrow> kstate \<Rightarrow> reply res" where
  "do_privctl behind m s =
     bindr (proc_addr (m_source m)) (\<lambda>caller.
     bindr (priv_of s caller) (\<lambda>cp.
     let nr = int_field m 0 in
     if s_flags (priv_tab s cp) AND SYS_PROC = 0 then Inr (EPERM, m, s)
     else if \<not> isokprocn nr then Inr (EINVAL, m, s)
     else bindr (proc_addr nr) (\<lambda>rp.
     if flags_of s rp AND NO_PRIV = 0 then Inr (EPERM, m, s)
     else bindr (get_priv behind rp True s) (\<lambda>(i, s1).
     if i \<noteq> OK then Inr (i, m, s1)
     else bindr (priv_of s1 rp) (\<lambda>pi.
     bindr (priv_of s1 caller) (\<lambda>cp1.
     let priv_id = s_id (priv_tab s1 pi);
         v = (priv_tab s1 cp1)
               \<lparr>s_id := priv_id, s_proc_nr := nr, s_notify_pending := (\<lambda>_. 0), s_int_pending := 0,
                s_sig_pending := sigemptyset, s_trap_mask := FILLED_MASK,
                s_ipc_to := unset_sys_bit (\<lambda>_. FILLED_MASK) USER_PRIV_ID\<rparr>;
         s2 = set_priv pi v s1;
         s3 = fold (allow_reply pi priv_id) [0..<NR_SYS_PROCS] s2
     in bindr (rts_unset_checked NO_PRIV rp s3) (\<lambda>s4. Inr (OK, m, s4))))))))"

section \<open>Creating and removing processes\<close>

definition fork_child :: "kproc \<Rightarrow> kproc \<Rightarrow> int \<Rightarrow> kproc" where
  "fork_child rpc rpp nr =
     (let f = (p_rts_flags rpp OR NO_MAP) AND NOT (SIGNALED OR SIG_PENDING OR P_STOP)
      in rpp\<lparr>p_ldt_sel := p_ldt_sel rpc, p_nr := nr, p_rts_flags := f, p_pending := sigemptyset,
             p_reg := (p_reg rpp)\<lparr>reg_retreg := 0\<rparr>, p_user_time := 0, p_sys_time := 0,
             p_ticks_left := schar (cdiv (p_ticks_left rpp + 1) 2)\<rparr>)"

definition do_fork :: "message \<Rightarrow> kstate \<Rightarrow> reply res" where
  "do_fork m s =
     bindr (proc_addr (int_field m 1)) (\<lambda>rpp.
     bindr (proc_addr (int_field m 0)) (\<lambda>rpc.
     if isemptyp s rpp \<or> \<not> isemptyp s rpc then Inr (EINVAL, m, s)
     else let s1 = set_proc rpc (fork_child (proc_tab s rpc) (proc_tab s rpp) (int_field m 0)) s;
              pp = proc_tab s1 rpp;
              s2 = set_proc rpp (pp\<lparr>p_ticks_left := schar (cdiv (p_ticks_left pp) 2)\<rparr>) s1
          in bindr (priv_of s2 rpp) (\<lambda>i.
             if s_flags (priv_tab s2 i) AND SYS_PROC \<noteq> 0
             then let cp = proc_tab s2 rpc in
                  Inr (OK, m, set_proc rpc (cp\<lparr>p_priv := Some USER_PRIV_ID,
                                               p_rts_flags := p_rts_flags cp OR NO_PRIV\<rparr>) s2)
             else Inr (OK, m, s2))))"

text \<open>
  The command name: seven bytes are copied, then the name ends at the first byte below a
  space. Without one, the scan goes on into the eighth byte and beyond the array; the eighth
  byte is what the slot held before.
\<close>

definition set_name :: "u8 list \<Rightarrow> u8 list \<Rightarrow> u8 list res" where
  "set_name old bs =
     (let nm = bs @ drop 7 old; np = length (takeWhile (\<lambda>b. b \<ge> 32) nm)
      in if np < length nm then Inr (nm[np := 0]) else Inl (BadIndex (int np)))"

definition unset_name :: "u8 list" where
  "unset_name = [60, 117, 110, 115, 101, 116, 62, 0]"

definition no_segdesc :: segdesc where
  "no_segdesc = \<lparr>limit_low = 0, base_low = 0, base_middle = 0, access = 0, granularity = 0, base_high = 0\<rparr>"

text \<open>The state changes of \<open>do_exec\<close> up to the name: registers, extra descriptors, flags.\<close>

definition exec_regs :: "message \<Rightarrow> kproc \<Rightarrow> kproc" where
  "exec_regs m p =
     p\<lparr>p_reg := (p_reg p)\<lparr>reg_sp := m_w m 3, reg_pc := m_w m 5\<rparr>,
       p_ldt := (p_ldt p)(2 := no_segdesc, 3 := no_segdesc, 4 := no_segdesc),
       p_rts_flags := p_rts_flags p AND NOT RECEIVING\<rparr>"

definition do_exec :: "message \<Rightarrow> kstate \<Rightarrow> reply res" where
  "do_exec m s =
     bindr (proc_addr (int_field m 0)) (\<lambda>rp.
     let s1 = set_proc rp (exec_regs m (proc_tab s rp)) s in
     bindr (if flags_of s1 rp = 0 then lock_enqueue rp s1 else Inr s1) (\<lambda>s2.
     bindr (numap_local (m_source m) (m_w m 4) 7 s2) (\<lambda>phys_name.
     bindr (if phys_name \<noteq> 0
            then set_name (p_name (proc_tab s2 rp)) (read_bytes (memory s2) phys_name 7)
            else Inr unset_name) (\<lambda>nm.
     Inr (OK, m, set_proc rp ((proc_tab s2 rp)\<lparr>p_name := nm\<rparr>) s2)))))"

text \<open>One round of the loop over the slots: \<open>rc\<close> is taken out of the queue of \<open>rp\<close>.\<close>

definition unqueue_from :: "int \<Rightarrow> int \<Rightarrow> kstate \<Rightarrow> kstate res" where
  "unqueue_from rc rp s =
     (if p_caller_q (proc_tab s rp) = None then Inr s
      else case walk (\<lambda>l. cq_get rp l s) (\<lambda>x. x = rc) Head of
             None \<Rightarrow> Inl Hang
           | Some xpp \<Rightarrow> (case cq_get rp xpp s of
               None \<Rightarrow> Inr s
             | Some x \<Rightarrow> Inr (cq_put rp xpp (p_q_link (proc_tab s x)) s)))"

fun for_each :: "('a \<Rightarrow> 's \<Rightarrow> 's res) \<Rightarrow> 'a list \<Rightarrow> 's \<Rightarrow> 's res" where
  "for_each f [] s = Inr s"
| "for_each f (x # xs) s = bindr (f x s) (for_each f xs)"

definition release_hook :: "int \<Rightarrow> nat \<Rightarrow> kstate \<Rightarrow> kstate res" where
  "release_hook nr i s =
     (if hk_proc_nr (irq_hooks s (IrqHook i)) = nr
      then bindr (rm_irq_handler (IrqHook i) s) (\<lambda>s1.
           Inr (s1\<lparr>irq_hooks := (irq_hooks s1)(IrqHook i := (irq_hooks s1 (IrqHook i))\<lparr>hk_proc_nr := NONE\<rparr>)\<rparr>))
      else Inr s)"

definition clear_proc :: "int \<Rightarrow> kstate \<Rightarrow> kstate res" where
  "clear_proc rc s =
     bindr (priv_of s rc) (\<lambda>pi.
     bindr (reset_timer (AlarmTmr pi) s) (\<lambda>s1.
     bindr (if flags_of s1 rc = 0 then lock_dequeue rc s1 else Inr s1) (\<lambda>s2.
     bindr (if flags_of s2 rc AND SENDING \<noteq> 0 then for_each (unqueue_from rc) [- 4..63] s2 else Inr s2) (\<lambda>s3.
     bindr (for_each (release_hook (p_nr (proc_tab s3 rc))) [0..<NR_IRQ_HOOKS] s3) (\<lambda>s4.
     let s5 = set_flags rc SLOT_FREE s4
     in bindr (priv_of s5 rc) (\<lambda>pi5.
        Inr (if s_flags (priv_tab s5 pi5) AND SYS_PROC \<noteq> 0
             then set_priv pi5 ((priv_tab s5 pi5)\<lparr>s_proc_nr := NONE\<rparr>) s5 else s5)))))))"

definition do_exit :: "message \<Rightarrow> kstate \<Rightarrow> reply res" where
  "do_exit m s =
     (let self = bindr (proc_addr (m_source m)) (\<lambda>rc.
                 bindr (clear_proc rc s) (\<lambda>s1. Inr (EDONTREPLY, m, s1)))
      in if m_source m = PM_PROC_NR \<and> int_field m 0 \<noteq> SELF
         then if \<not> isokprocn (int_field m 0) then Inr (EINVAL, m, s)
              else bindr (proc_addr (int_field m 0)) (\<lambda>rc.
                   bindr (clear_proc rc s) (\<lambda>s1. Inr (OK, m, s1)))
         else self)"

section \<open>Priorities\<close>

abbreviation (input) PRIO_MIN :: int where "PRIO_MIN \<equiv> - 20"
abbreviation (input) PRIO_MAX :: int where "PRIO_MAX \<equiv> 20"

definition nice_queue :: "int \<Rightarrow> int" where
  "nice_queue pri =
     (let q0 = MAX_USER_Q + cdiv ((pri - PRIO_MIN) * (MIN_USER_Q - MAX_USER_Q + 1)) (PRIO_MAX - PRIO_MIN + 1);
          q1 = (if q0 < MAX_USER_Q then MAX_USER_Q else q0)
      in if q1 > MIN_USER_Q then MIN_USER_Q else q1)"

definition do_nice :: "message \<Rightarrow> kstate \<Rightarrow> reply res" where
  "do_nice m s =
     (let nr = int_field m 0; pri = int_field m 1 in
      if \<not> isokprocn nr then Inr (EINVAL, m, s)
      else if iskerneln nr then Inr (EPERM, m, s)
      else if pri < PRIO_MIN \<or> pri > PRIO_MAX then Inr (EINVAL, m, s)
      else bindr (proc_addr nr) (\<lambda>rp.
           bindr (lock_dequeue rp s) (\<lambda>s1.
           let s2 = set_proc rp ((proc_tab s1 rp)\<lparr>p_priority := nice_queue pri, p_max_priority := nice_queue pri\<rparr>) s1
           in bindr (if flags_of s2 rp = 0 then lock_enqueue rp s2 else Inr s2) (\<lambda>s3. Inr (OK, m, s3)))))"

section \<open>Signals\<close>

definition cause_sig :: "int \<Rightarrow> int \<Rightarrow> kstate \<Rightarrow> kstate res" where
  "cause_sig nr sig_nr s =
     bindr (proc_addr nr) (\<lambda>rp.
     if sigismember (p_pending (proc_tab s rp)) sig_nr \<noteq> 0 then Inr s
     else let s1 = set_proc rp ((proc_tab s rp)\<lparr>p_pending := snd (sigaddset (p_pending (proc_tab s rp)) sig_nr)\<rparr>) s
          in if flags_of s1 rp AND SIGNALED \<noteq> 0 then Inr s1
             else bindr (rts_set (SIGNALED OR SIG_PENDING) rp s1) (\<lambda>s2.
                  send_sig PM_PROC_NR SIGKSIG s2))"

definition do_kill :: "message \<Rightarrow> kstate \<Rightarrow> reply res" where
  "do_kill m s =
     (let nr = int_field m 0; sig_nr = int_field m 1 in
      if \<not> isokprocn nr \<or> sig_nr > NSIG then Inr (EINVAL, m, s)
      else if iskerneln nr then Inr (EPERM, m, s)
      else if m_source m = PM_PROC_NR
      then bindr (proc_addr nr) (\<lambda>rp.
           bindr (priv_of s rp) (\<lambda>i.
           if s_flags (priv_tab s i) AND SYS_PROC = 0 then Inr (EPERM, m, s)
           else bindr (send_sig nr sig_nr s) (\<lambda>s1. Inr (OK, m, s1))))
      else bindr (cause_sig nr sig_nr s) (\<lambda>s1. Inr (OK, m, s1)))"

definition do_getksig :: "message \<Rightarrow> kstate \<Rightarrow> reply res" where
  "do_getksig m s =
     Inr (case find (\<lambda>rp. flags_of s rp AND SIGNALED \<noteq> 0) [0..63] of
            None \<Rightarrow> (OK, mset_w 0 (word_of_int NONE) m, s)
          | Some rp \<Rightarrow>
              (let p = proc_tab s rp
               in (OK, mset_w 3 (p_pending p) (mset_w 0 (word_of_int (p_nr p)) m),
                   set_proc rp (p\<lparr>p_pending := sigemptyset, p_rts_flags := p_rts_flags p AND NOT SIGNALED\<rparr>) s)))"

definition do_endksig :: "message \<Rightarrow> kstate \<Rightarrow> reply res" where
  "do_endksig m s =
     bindr (proc_addr (int_field m 0)) (\<lambda>rp.
     if flags_of s rp AND SIG_PENDING = 0 then Inr (EINVAL, m, s)
     else if flags_of s rp AND SIGNALED = 0
     then bindr (rts_unset SIG_PENDING rp s) (\<lambda>s1. Inr (OK, m, s1))
     else Inr (OK, m, s))"

section \<open>Alarms and times\<close>

abbreviation set_tmr :: "tmr_id \<Rightarrow> (tmr_id, watchdog) timer \<Rightarrow> kstate \<Rightarrow> kstate" where
  "set_tmr tp t s \<equiv> s\<lparr>clock_timers := (clock_timers s)\<lparr>theap := (theap (clock_timers s))(tp := t)\<rparr>\<rparr>"

definition do_setalarm :: "message \<Rightarrow> kstate \<Rightarrow> reply res" where
  "do_setalarm m s =
     (let exp_time = int_field m 3; use_abs_time = int_field m 1; nr = m_source m in
      bindr (proc_addr nr) (\<lambda>rp.
      bindr (priv_of s rp) (\<lambda>i.
      if s_flags (priv_tab s i) AND SYS_PROC = 0 then Inr (EPERM, m, s)
      else let tp = AlarmTmr i;
               t = (theap (clock_timers s) tp)\<lparr>tmr_arg := nr, tmr_func := CauseAlarm\<rparr>;
               s1 = set_tmr tp t s;
               uptime = get_uptime s1;
               left = (if tmr_exp_time t \<noteq> TMR_NEVER \<and> uptime < tmr_exp_time t
                       then slong (tmr_exp_time t - uptime) else 0);
               m1 = mset_w 3 (word_of_int left) m
           in if exp_time = 0 then bindr (reset_timer tp s1) (\<lambda>s2. Inr (OK, m1, s2))
              else let e = (if use_abs_time \<noteq> 0 then exp_time else slong (exp_time + uptime));
                       s2 = set_tmr tp (t\<lparr>tmr_exp_time := e\<rparr>) s1
                   in bindr (set_timer tp e CauseAlarm s2) (\<lambda>s3. Inr (OK, m1, s3)))))"

definition do_times :: "message \<Rightarrow> kstate \<Rightarrow> reply res" where
  "do_times m s =
     (let t_proc = int_field m 0; nr = (if t_proc = SELF then m_source m else t_proc);
          uptime = word_of_int (get_uptime s)
      in if isokprocn nr
         then bindr (proc_addr t_proc) (\<lambda>rp.
              Inr (OK, mset_w 4 uptime (mset_w 1 (word_of_int (p_sys_time (proc_tab s rp)))
                         (mset_w 0 (word_of_int (p_user_time (proc_tab s rp))) m)), s))
         else Inr (OK, mset_w 4 uptime m, s))"

section \<open>Tracing\<close>

abbreviation (input) TRACEBIT :: u32 where "TRACEBIT \<equiv> 256"
abbreviation (input) TR_VLSIZE :: u32 where "TR_VLSIZE \<equiv> 4"
abbreviation (input) SIZEOF_PROC :: u32 where "SIZEOF_PROC \<equiv> 204"
abbreviation (input) SIZEOF_STACKFRAME :: u32 where "SIZEOF_STACKFRAME \<equiv> 64"

text \<open>
  The registers by their offset in \<open>struct stackframe_s\<close>; the segment registers are refused
  before, so the function covers the others.
\<close>

definition set_reg :: "nat \<Rightarrow> u32 \<Rightarrow> stackframe \<Rightarrow> stackframe" where
  "set_reg i v r =
     (if i = 8 then r\<lparr>reg_di := v\<rparr> else if i = 12 then r\<lparr>reg_si := v\<rparr> else if i = 16 then r\<lparr>reg_fp := v\<rparr>
      else if i = 20 then r\<lparr>reg_st := v\<rparr> else if i = 24 then r\<lparr>reg_bx := v\<rparr> else if i = 28 then r\<lparr>reg_dx := v\<rparr>
      else if i = 32 then r\<lparr>reg_cx := v\<rparr> else if i = 36 then r\<lparr>reg_retreg := v\<rparr>
      else if i = 40 then r\<lparr>reg_retadr := v\<rparr> else if i = 44 then r\<lparr>reg_pc := v\<rparr>
      else if i = 52 then r\<lparr>reg_psw := (reg_psw r AND NOT 3285) OR (v AND 3285)\<rparr>
      else if i = 56 then r\<lparr>reg_sp := v\<rparr> else r)"

definition psw_trace :: "bool \<Rightarrow> int \<Rightarrow> kstate \<Rightarrow> kstate" where
  "psw_trace on rp s =
     (let p = proc_tab s rp; r = p_reg p
      in set_proc rp (p\<lparr>p_reg := r\<lparr>reg_psw := (if on then reg_psw r OR TRACEBIT else reg_psw r AND NOT TRACEBIT)\<rparr>\<rparr>) s)"

definition trace_get :: "message \<Rightarrow> int \<Rightarrow> int \<Rightarrow> kstate \<Rightarrow> reply" where
  "trace_get m rp sg s =
     (let src = umap_local rp sg (m_w m 3) TR_VLSIZE s
      in if src = 0 then (EIO, m, s) else (OK, mset_w 4 (get32 (memory s) src) m, s))"

definition trace_set :: "message \<Rightarrow> int \<Rightarrow> int \<Rightarrow> kstate \<Rightarrow> reply" where
  "trace_set m rp sg s =
     (let dst = umap_local rp sg (m_w m 3) TR_VLSIZE s
      in if dst = 0 then (EIO, m, s)
         else (OK, mset_w 4 0 m, s\<lparr>memory := put32 dst (m_w m 4) (memory s)\<rparr>))"

text \<open>
  \<open>proc_word\<close> is the argument that gives a word of the memory of a process structure, which
  depends on the addresses the linker chose for the tables.
\<close>

definition do_trace :: "(kproc \<Rightarrow> u32 \<Rightarrow> u32) \<Rightarrow> message \<Rightarrow> kstate \<Rightarrow> reply res" where
  "do_trace proc_word m s =
     (let tr_addr = m_w m 3; tr_data = m_w m 4; rq = int_field m 1; nr = int_field m 0 in
      if \<not> isokprocn nr then Inr (EINVAL, m, s)
      else if iskerneln nr then Inr (EPERM, m, s)
      else bindr (proc_addr nr) (\<lambda>rp.
      let isd = (if mem_len (p_memmap (proc_tab s rp) T_seg) \<noteq> 0 then T else D) in
      if isemptyp s rp then Inr (EIO, m, s)
      else if rq = - 1
      then bindr (rts_set P_STOP rp s) (\<lambda>s1. Inr (OK, m, psw_trace False rp s1))
      else if rq = 1 then Inr (trace_get m rp isd s)
      else if rq = 2 then Inr (trace_get m rp D s)
      else if rq = 3
      then Inr (if tr_addr AND 3 \<noteq> 0 \<or> tr_addr > SIZEOF_PROC - 4 then (EIO, m, s)
                else (OK, mset_w 4 (proc_word (proc_tab s rp) tr_addr) m, s))
      else if rq = 4 then Inr (trace_set m rp isd s)
      else if rq = 5 then Inr (trace_set m rp D s)
      else if rq = 6
      then Inr (if tr_addr AND 3 \<noteq> 0 \<or> tr_addr > SIZEOF_STACKFRAME - 4 then (EIO, m, s)
                else if tr_addr \<in> {48, 6, 4, 0, 2, 60} then (EIO, m, s)
                else (OK, mset_w 4 0 m, set_proc rp ((proc_tab s rp)
                        \<lparr>p_reg := set_reg (unat tr_addr) tr_data (p_reg (proc_tab s rp))\<rparr>) s))
      else if rq = 7
      then bindr (rts_unset P_STOP rp s) (\<lambda>s1. Inr (OK, mset_w 4 0 m, s1))
      else if rq = 9
      then bindr (rts_unset P_STOP rp (psw_trace True rp s)) (\<lambda>s1. Inr (OK, mset_w 4 0 m, s1))
      else Inr (EIO, m, s)))"

end
