(* ===== verification/Syscall.thy ===== *)
theory Syscall
  imports Kmess
begin

unbundle bit_operations_syntax

text \<open>
  The trap entry \<open>sys_call\<close> of \<open>kernel/proc.c\<close>: every message passing primitive of a process
  goes through its checks of the trap mask, the source or destination, the message buffer,
  the send mask and the liveness of the destination.
\<close>

section \<open>The trap\<close>

abbreviation (input) SEND :: u32 where "SEND \<equiv> 1"
abbreviation (input) RECEIVE :: u32 where "RECEIVE \<equiv> 2"
abbreviation (input) SENDREC :: u32 where "SENDREC \<equiv> 3"
abbreviation (input) NOTIFY :: u32 where "NOTIFY \<equiv> 4"
abbreviation (input) ECHO :: u32 where "ECHO \<equiv> 8"
abbreviation (input) SYSCALL_FUNC :: u32 where "SYSCALL_FUNC \<equiv> 15"
abbreviation (input) SYSCALL_FLAGS :: u32 where "SYSCALL_FLAGS \<equiv> 240"
abbreviation (input) CHECK_PTR :: u32 where "CHECK_PTR \<equiv> 11"
abbreviation (input) CHECK_DST :: u32 where "CHECK_DST \<equiv> 5"
abbreviation (input) MESS_SIZE :: u32 where "MESS_SIZE \<equiv> 36"

definition nr_to_id :: "kstate \<Rightarrow> int \<Rightarrow> nat res" where
  "nr_to_id s n = bindr (proc_addr n) (\<lambda>p. bindr (priv_of s p) (\<lambda>i. Inr (s_id (priv_tab s i))))"

definition mess_ptr_ok :: "kproc \<Rightarrow> u32 \<Rightarrow> bool" where
  "mess_ptr_ok c m_ptr \<longleftrightarrow>
     (let vlo = drop_bit CLICK_SHIFT m_ptr;
          vhi = drop_bit CLICK_SHIFT (m_ptr + MESS_SIZE - 1)
      in \<not> (vlo < mem_vir (p_memmap c D_seg) \<or> vlo > vhi \<or>
            vhi \<ge> mem_vir (p_memmap c S_seg) + mem_len (p_memmap c S_seg)))"

abbreviation complain :: "int \<Rightarrow> string \<Rightarrow> karg list \<Rightarrow> kstate \<Rightarrow> (int \<times> kstate) res" where
  "complain r fmt args s \<equiv> bindr (kprintf (fmt @ [CHR 0x0A]) args s) (\<lambda>s1. Inr (r, s1))"

text \<open>The final switch, after the checks.\<close>

definition sys_call_do ::
  "int \<Rightarrow> nat \<Rightarrow> u32 \<Rightarrow> u32 \<Rightarrow> int \<Rightarrow> u32 \<Rightarrow> kstate \<Rightarrow> (int \<times> kstate) res" where
  "sys_call_do caller cp func flags src_dst m_ptr s =
     (if func = SENDREC then
        bindr (mini_send caller src_dst m_ptr flags
                 (set_priv cp ((priv_tab s cp)\<lparr>s_flags := s_flags (priv_tab s cp) OR SENDREC_BUSY\<rparr>) s))
          (\<lambda>(result, s1). if result \<noteq> OK then Inr (result, s1)
                         else mini_receive caller src_dst m_ptr flags s1)
      else if func = SEND then mini_send caller src_dst m_ptr flags s
      else if func = RECEIVE then
        mini_receive caller src_dst m_ptr flags
          (set_priv cp ((priv_tab s cp)\<lparr>s_flags := s_flags (priv_tab s cp) AND NOT SENDREC_BUSY\<rparr>) s)
      else if func = NOTIFY then mini_notify caller src_dst s
      else if func = ECHO then
        Inr (OK, CopyMess (p_nr (proc_tab s caller)) caller m_ptr caller m_ptr s)
      else Inr (EBADCALL, s))"

definition sys_call :: "u32 \<Rightarrow> int \<Rightarrow> u32 \<Rightarrow> kstate \<Rightarrow> (int \<times> kstate) res" where
  "sys_call call_nr src_dst m_ptr s =
     bindr (deref (proc_ptr s)) (\<lambda>caller.
     bindr (priv_of s caller) (\<lambda>cp.
     let func = call_nr AND SYSCALL_FUNC;
         flags = call_nr AND SYSCALL_FLAGS;
         c = proc_tab s caller;
         fn = KInt (uint func)
     in if s_trap_mask (priv_tab s cp) AND push_bit (unat func) 1 = 0 \<or>
           iskerneln src_dst \<and> func \<noteq> SENDREC \<and> func \<noteq> RECEIVE
        then complain ECALLDENIED ''sys_call: trap %d not allowed, caller %d, src_dst %d''
               [fn, KInt (p_nr c), KInt src_dst] s
        else if \<not> (isokprocn src_dst \<or> src_dst = ANY \<or> func = ECHO)
        then complain EBADSRCDST ''sys_call: invalid src_dst, src_dst %d, caller %d''
               [KInt src_dst, KInt (p_nr c)] s
        else if func AND CHECK_PTR \<noteq> 0 \<and> \<not> mess_ptr_ok c m_ptr
        then complain EFAULT ''sys_call: invalid message pointer, trap %d, caller %d''
               [fn, KInt (p_nr c)] s
        else if func AND CHECK_DST \<noteq> 0
        then bindr (nr_to_id s src_dst) (\<lambda>dst_id.
             if \<not> get_sys_bit (s_ipc_to (priv_tab s cp)) dst_id
             then complain ECALLDENIED ''sys_call: ipc mask denied %d sending to %d''
                    [KInt (p_nr c), KInt src_dst] s
             else if isemptyp s src_dst
             then if shutdown_started s then Inr (EDEADDST, s)
                  else complain EDEADDST ''sys_call: dead dst; %d->%d''
                         [KInt (p_nr c), KInt src_dst] s
             else sys_call_do caller cp func flags src_dst m_ptr s)
        else sys_call_do caller cp func flags src_dst m_ptr s))"

section \<open>The invariant\<close>

text \<open>A call answers when it returns a result and leaves the invariant intact.\<close>

definition answers :: "(int \<times> kstate) res \<Rightarrow> bool" where
  "answers x \<longleftrightarrow> (\<exists>r s'. x = Inr (r, s') \<and> kwf s')"

lemma answers_if: "(b \<Longrightarrow> answers x) \<Longrightarrow> (\<not> b \<Longrightarrow> answers y) \<Longrightarrow> answers (if b then x else y)"
  by simp

lemma answers_Inr [simp]: "answers (Inr (r, s)) = kwf s"
  by (auto simp: answers_def)

lemma complain_ok:
  assumes "kwf s" and "has_priv s LOG_PROC_NR" and "has_priv s SYSTEM"
  shows "answers (complain r fmt args s)"
  using kprintf_ok [OF assms, of "fmt @ [CHR 0x0A]" args] by auto

lemma kwf_set_s_flags: "kwf s \<Longrightarrow> kwf (set_priv i ((priv_tab s i)\<lparr>s_flags := f\<rparr>) s)"
  by (erule kwf_cong) auto

lemma sys_call_do_ok:
  assumes wf: "kwf s" and c: "caller \<in> procs" "alive s caller" "\<not> sending s caller"
    and dst: "func \<in> {SEND, SENDREC, NOTIFY} \<Longrightarrow> has_priv s src_dst"
      "func \<in> {SEND, SENDREC} \<Longrightarrow> src_dst \<noteq> caller"
  shows "\<exists>r s'. sys_call_do caller cp func flags src_dst m_ptr s = Inr (r, s') \<and> kwf s'"
proof -
  let ?b = "set_priv cp ((priv_tab s cp)\<lparr>s_flags := s_flags (priv_tab s cp) OR SENDREC_BUSY\<rparr>) s"
  let ?n = "set_priv cp ((priv_tab s cp)\<lparr>s_flags := s_flags (priv_tab s cp) AND NOT SENDREC_BUSY\<rparr>) s"
  have b: "kwf ?b" "alive ?b caller" "\<not> sending ?b caller" using kwf_set_s_flags [OF wf] c by simp_all
  have n: "kwf ?n" "alive ?n caller" using kwf_set_s_flags [OF wf] c by simp_all
  consider "func = SENDREC" | "func = SEND" | "func = RECEIVE" | "func = NOTIFY"
    | "func \<notin> {SENDREC, SEND, RECEIVE, NOTIFY}" by auto
  then show ?thesis
  proof cases
    case 1
    with dst have d: "src_dst \<in> procs" "src_dst \<noteq> caller" by (auto simp: has_priv_def)
    from mini_send_ok [OF b(1) c(1) b(2,3) d, of m_ptr flags] obtain r s1 where
      s1: "mini_send caller src_dst m_ptr flags ?b = Inr (r, s1)" "kwf s1" "keeps ?b s1" by blast
    have "alive s1 caller" using s1(3) b(2) by (simp add: keeps_def)
    from mini_receive_ok [OF s1(2) c(1) this, of src_dst m_ptr flags] 1 s1 show ?thesis
      by (auto simp: sys_call_do_def)
  next
    case 2
    with dst have d: "src_dst \<in> procs" "src_dst \<noteq> caller" by (auto simp: has_priv_def)
    from mini_send_ok [OF wf c d, of m_ptr flags] 2 show ?thesis by (auto simp: sys_call_do_def)
  next
    case 3
    from mini_receive_ok [OF n(1) c(1) n(2), of src_dst m_ptr flags] 3 show ?thesis
      by (auto simp: sys_call_do_def)
  next
    case 4
    have "p_priv (proc_tab s caller) \<noteq> None" using wf c(1,2) by (rule kwf_procD)
    with 4 dst(1) mini_notify_ok [OF wf, of src_dst caller] show ?thesis
      by (auto simp: sys_call_do_def has_priv_def)
  next
    case 5
    then show ?thesis using wf by (auto simp: sys_call_do_def)
  qed
qed

lemma func_values: "(func::u32) AND CHECK_DST \<noteq> 0" if "func \<in> {SEND, SENDREC, NOTIFY}"
  using that by auto

text \<open>
  A running process traps: the kernel answers, and its invariant holds again. The caller
  must not send to itself, and the destination's slot must have a privilege structure.
\<close>

lemma sys_call_ok:
  assumes wf: "kwf s" and p: "proc_ptr s = Some caller" "caller \<in> procs" "flags_of s caller = 0"
    and diag: "has_priv s LOG_PROC_NR" "has_priv s SYSTEM"
    and dst: "call_nr AND CHECK_DST \<noteq> 0 \<Longrightarrow> src_dst \<noteq> ANY \<and> src_dst \<noteq> caller \<and>
      (isokprocn src_dst \<longrightarrow> has_priv s src_dst)"
  shows "\<exists>r s'. sys_call call_nr src_dst m_ptr s = Inr (r, s') \<and> kwf s'"
proof -
  have c: "alive s caller" "\<not> sending s caller" using p(3) by simp_all
  from kwf_procD(6) [OF wf p(2) c(1)] obtain cp where cp: "priv_of s caller = Inr cp"
    by (auto simp: priv_of_def)
  let ?f = "call_nr AND SYSCALL_FUNC"
  have cd: "?f AND CHECK_DST = call_nr AND CHECK_DST" by (simp add: and.assoc)
  note comp = complain_ok [OF wf diag]
  have "answers (sys_call call_nr src_dst m_ptr s)"
  proof (cases "isokprocn src_dst \<or> src_dst = ANY \<or> ?f = ECHO")
    case False
    then show ?thesis unfolding sys_call_def p(1) cp deref_simps bindr_simps Let_def
      by (intro answers_if comp) blast+
  next
    case True
    show ?thesis
    proof (cases "?f AND CHECK_DST \<noteq> 0")
      case dstc: True
      with cd dst True have d: "has_priv s src_dst" "src_dst \<noteq> caller" "src_dst \<noteq> ANY" by auto
      then obtain i where i: "nr_to_id s src_dst = Inr (s_id (priv_tab s i))"
        by (auto simp: has_priv_def nr_to_id_def priv_of_def procs_def)
      from sys_call_do_ok [OF wf p(2) c, of ?f src_dst cp "call_nr AND SYSCALL_FLAGS" m_ptr] d
      obtain r s' where do: "sys_call_do caller cp ?f (call_nr AND SYSCALL_FLAGS) src_dst m_ptr s = Inr (r, s')"
        "kwf s'" by auto
      show ?thesis
        unfolding sys_call_def p(1) cp i do deref_simps bindr_simps Let_def
        by (intro answers_if comp) (use wf do(2) dstc in simp_all)
    next
      case False
      then have "?f \<notin> {SEND, SENDREC, NOTIFY}" using func_values by blast
      then have "answers (sys_call_do caller cp ?f (call_nr AND SYSCALL_FLAGS) src_dst m_ptr s)"
        unfolding answers_def by (intro sys_call_do_ok [OF wf p(2) c]) auto
      then show ?thesis
        unfolding sys_call_def p(1) cp deref_simps bindr_simps Let_def
        by (intro answers_if comp) (use False in simp_all)
    qed
  qed
  then show ?thesis by (simp add: answers_def)
qed

section \<open>Properties\<close>

lemma sample_diag: "has_priv sample LOG_PROC_NR" "has_priv sample SYSTEM"
  by (simp_all add: has_priv_def) (simp_all add: sample_def sample_proc_def)

text \<open>
  C2: a trap of a running process returns with a result code and the invariant of the kernel
  holds, for every call number and buffer address, when the log driver and the system task have
  privilege structures, as after the boot (the kernel's complaints go to them). Three traps are excluded where the call number
  asks for a destination: the pseudo-source \<open>ANY\<close> (which faults), the caller itself (which breaks
  the invariant), and a process slot without a privilege structure (whose mask bit cannot be read).
\<close>

theorem sys_call_keeps_invariant:
  assumes "kwf s" and "proc_ptr s = Some caller" and "caller \<in> procs" and "flags_of s caller = 0"
    and "has_priv s LOG_PROC_NR" and "has_priv s SYSTEM"
    and "call_nr AND CHECK_DST \<noteq> 0 \<Longrightarrow> src_dst \<noteq> ANY \<and> src_dst \<noteq> caller \<and>
      (isokprocn src_dst \<longrightarrow> has_priv s src_dst)"
  shows "\<exists>r s'. sys_call call_nr src_dst m_ptr s = Inr (r, s') \<and> kwf s'"
  using assms by (rule sys_call_ok)

theorem sys_call_keeps_invariant_witness:
  "\<exists>r s'. sys_call SENDREC 0 512 sample = Inr (r, s') \<and> kwf s'"
proof -
  have "proc_ptr sample = Some 1" "(1::int) \<in> procs" "flags_of sample 1 = 0" "has_priv sample 0"
    by (simp_all add: has_priv_def procs_def isokprocn_def flags_sample) (simp_all add: sample_def sample_proc_def)
  with sys_call_keeps_invariant [OF kwf_sample _ _ _ sample_diag, of 1 SENDREC 0 512] show ?thesis by simp
qed

text \<open>
  C9: a process sends or notifies only where its privileges allow: when the bit of the
  destination is not set in its send mask, the call is denied, and no process, no memory and no
  message other than the diagnostic one is touched (the state is that after the kernel message).
\<close>

theorem sys_call_send_mask:
  assumes "proc_ptr s = Some caller" and "p_priv (proc_tab s caller) = Some cp"
    and "call_nr AND SYSCALL_FUNC \<in> {SEND, SENDREC, NOTIFY}"
    and "isokprocn dst" and "nr_to_id s dst = Inr dst_id"
    and "\<not> get_sys_bit (s_ipc_to (priv_tab s cp)) dst_id"
    and "sys_call call_nr dst m_ptr s = Inr (r, s')"
  shows "r \<in> {ECALLDENIED, EFAULT} \<and> (\<exists>fmt args. kprintf fmt args s = Inr s')"
proof -
  have "(call_nr AND SYSCALL_FUNC) AND CHECK_DST \<noteq> 0" using assms(3) by auto
  with assms show ?thesis
    unfolding sys_call_def Let_def
    by (auto simp: priv_of_def bindr_Inr_iff split: if_splits)
qed

definition sample_masked :: kstate where
  "sample_masked = set_priv 6 ((sample_priv 6)\<lparr>s_ipc_to := (\<lambda>_. 0)\<rparr>) sample"

theorem sys_call_send_mask_witness:
  "\<exists>r s'. sys_call SEND 0 512 sample_masked = Inr (r, s') \<and> r \<in> {ECALLDENIED, EFAULT}"
proof -
  have wf: "kwf sample_masked"
    unfolding sample_masked_def using kwf_sample by (rule kwf_cong) (simp_all add: sample_def)
  have pt: "proc_tab sample_masked = sample_proc" by (simp add: sample_masked_def sample_def)
  have d: "has_priv sample_masked LOG_PROC_NR" "has_priv sample_masked SYSTEM" "has_priv sample_masked 0"
    by (simp_all add: has_priv_def pt) (simp_all add: sample_proc_def)
  have "proc_ptr sample_masked = Some 1" "flags_of sample_masked 1 = 0" "(1::int) \<in> procs"
    "p_priv (proc_tab sample_masked 1) = Some 6"
    by (simp_all add: sample_masked_def sample_def sample_proc_def procs_def isokprocn_def)
  note h = this
  from sys_call_ok [OF wf h(1,3,2) d(1,2), of SEND 0 512] d(3) obtain r s' where
    c: "sys_call SEND 0 512 sample_masked = Inr (r, s')" by auto
  have "nr_to_id sample_masked 0 = Inr 5" "isokprocn 0"
    by (simp_all add: nr_to_id_def priv_of_def sample_masked_def sample_def sample_proc_def sample_priv_def)
  moreover have "\<not> get_sys_bit (s_ipc_to (priv_tab sample_masked 6)) 5"
    by (simp add: sample_masked_def get_sys_bit_def)
  ultimately show ?thesis
    using sys_call_send_mask [OF h(1,4) _ _ _ _ c, of 5] c by auto
qed

text \<open>
  C14: the check of the source or destination lets \<open>ANY\<close> pass for every call, and a send to
  \<open>ANY\<close> then indexes the process table out of bounds.
\<close>

theorem sys_call_send_any:
  assumes "proc_ptr s = Some caller" and "p_priv (proc_tab s caller) = Some cp"
    and "func \<in> {SEND, SENDREC, NOTIFY}"
    and "bit (s_trap_mask (priv_tab s cp)) (unat func)"
    and "mess_ptr_ok (proc_tab s caller) m_ptr"
  shows "sys_call func ANY m_ptr s = Inl (BadIndex ANY)"
proof -
  have "func AND SYSCALL_FUNC = func" "func AND CHECK_DST \<noteq> 0" using assms(3) by auto
  moreover have "s_trap_mask (priv_tab s cp) AND push_bit (unat func) 1 \<noteq> 0"
    using and_push_bit_1 assms(4) by blast
  ultimately show ?thesis
    unfolding sys_call_def
    by (simp add: assms(1,2,5) priv_of_def iskerneln_def nr_to_id_def proc_addr_def Let_def)
qed

theorem sys_call_send_any_witness: "sys_call SEND ANY 512 sample = Inl (BadIndex ANY)"
  by (rule sys_call_send_any [where caller = 1 and cp = 6])
    (simp_all add: sample_def sample_proc_def sample_priv_def mess_ptr_ok_def)

end
