(* ===== verification/Sys_Dev.thy ===== *)
theory Sys_Dev
  imports Sys_Proc Syscall
begin

unbundle bit_operations_syntax

text \<open>
  The kernel calls of the system task that deal with devices, signal frames and the system as a
  whole: \<open>do_irqctl.c\<close>, \<open>do_devio.c\<close>, \<open>do_sdevio.c\<close>, \<open>do_vdevio.c\<close>, \<open>do_int86.c\<close>,
  \<open>do_sigsend.c\<close>, \<open>do_sigreturn.c\<close>, \<open>do_getinfo.c\<close>, \<open>do_abort.c\<close> and \<open>do_unused.c\<close> of
  \<open>kernel/system/\<close>, \<open>get_randomness\<close> of \<open>kernel/system.c\<close> and \<open>prepare_shutdown\<close> of
  \<open>kernel/main.c\<close>. What the hardware answers is the argument \<open>hw\<close>.
\<close>

section \<open>The hardware\<close>

text \<open>
  \<open>hw_in k port\<close>: what the \<open>k\<close>-th read of a port in the course of a call gives; \<open>hw_tsc\<close>: the low
  word of the time stamp counter; \<open>hw_count\<close>: the counter of the timer chip; \<open>hw_bios\<close>: the
  effect of a real-mode BIOS call on its register block and on memory; \<open>hw_image\<close>: the bytes
  of a kernel structure as it lies in the kernel's memory; \<open>hw_proc_word\<close>: a word of a process
  structure; \<open>hw_behind\<close>: the word that lies behind the privilege table; \<open>hw_mess\<close>: where the
  message variable of the running kernel function lies in the kernel's data segment.
\<close>

record hardware =
  hw_in :: "nat \<Rightarrow> u32 \<Rightarrow> u32"
  hw_tsc :: u32
  hw_count :: u32
  hw_bios :: "u8 list \<Rightarrow> mem \<Rightarrow> u8 list \<times> mem"
  hw_image :: "int \<Rightarrow> kstate \<Rightarrow> u8 list"
  hw_proc_word :: "kproc \<Rightarrow> u32 \<Rightarrow> u32"
  hw_behind :: int
  hw_mess :: u32

abbreviation (input) RANDOM_SOURCES :: int where "RANDOM_SOURCES \<equiv> 16"
abbreviation (input) RANDOM_ELEMENTS :: nat where "RANDOM_ELEMENTS \<equiv> 32"

definition get_randomness :: "hardware \<Rightarrow> int \<Rightarrow> kstate \<Rightarrow> kstate res" where
  "get_randomness hw source s =
     (let src = source - RANDOM_SOURCES * cdiv source RANDOM_SOURCES in
      if src < 0 then Inl (BadIndex src)
      else let b = krandom s (nat src); n = r_next b;
               v = ucast (if machine_processor s > 486 then hw_tsc hw else hw_count hw) :: u16;
               s1 = (if machine_processor s > 486 then s else outb TIMER_MODE 0 s);
               b1 = b\<lparr>r_buf := (r_buf b)(n := v),
                      r_size := (if r_size b < RANDOM_ELEMENTS then r_size b + 1 else r_size b),
                      r_next := (n + 1) mod RANDOM_ELEMENTS\<rparr>
           in Inr (s1\<lparr>krandom := (krandom s1)(nat src := b1)\<rparr>))"

section \<open>Interrupt hooks\<close>

abbreviation (input) IRQ_SETPOLICY :: int where "IRQ_SETPOLICY \<equiv> 1"
abbreviation (input) IRQ_RMPOLICY :: int where "IRQ_RMPOLICY \<equiv> 2"
abbreviation (input) IRQ_ENABLE :: int where "IRQ_ENABLE \<equiv> 3"
abbreviation (input) IRQ_DISABLE :: int where "IRQ_DISABLE \<equiv> 4"

text \<open>
  The check of a hook number: it is one less than the number in the message, computed in an
  \<open>int\<close>, and only the upper bound is tested, so the number 0 indexes before the table.
\<close>

definition check_hook :: "message \<Rightarrow> int \<Rightarrow> kstate \<Rightarrow> int res" where
  "check_hook m hook_id s =
     (if hook_id \<ge> int NR_IRQ_HOOKS then Inr EINVAL
      else if hook_id < 0 then Inl (BadIndex hook_id)
      else let n = hk_proc_nr (irq_hooks s (IrqHook (nat hook_id)))
           in Inr (if n = NONE then EINVAL else if n \<noteq> m_source m then EPERM else OK))"

definition do_irqctl :: "message \<Rightarrow> kstate \<Rightarrow> reply res" where
  "do_irqctl m s =
     (let hook_id = sint (m_w m 5 - 1); irq_vec = m5_c2 m; rq = m5_c1 m in
      if rq = IRQ_ENABLE \<or> rq = IRQ_DISABLE
      then bindr (check_hook m hook_id s) (\<lambda>r.
           if r \<noteq> OK then Inr (r, m, s)
           else if rq = IRQ_ENABLE then Inr (OK, m, enable_irq (IrqHook (nat hook_id)) s)
           else Inr (OK, m, snd (disable_irq (IrqHook (nat hook_id)) s)))
      else if rq = IRQ_SETPOLICY
      then (if irq_vec < 0 \<or> irq_vec \<ge> NR_IRQ_VECTORS then Inr (EINVAL, m, s)
            else case find (\<lambda>i. hk_proc_nr (irq_hooks s (IrqHook i)) = NONE) [0..<NR_IRQ_HOOKS] of
                   None \<Rightarrow> Inr (ENOSPC, m, s)
                 | Some i \<Rightarrow>
                     if m_w m 5 > 31 then Inr (EINVAL, m, s)
                     else let h = irq_hooks s (IrqHook i);
                              s1 = s\<lparr>irq_hooks := (irq_hooks s)(IrqHook i := h
                                     \<lparr>hk_proc_nr := m_source m, hk_notify_id := m_w m 5, hk_policy := m_w m 1\<rparr>)\<rparr>
                          in bindr (put_irq_handler (IrqHook i) irq_vec GenericHandler s1) (\<lambda>s2.
                             Inr (OK, mset_w 5 (of_nat i + 1) m, s2)))
      else if rq = IRQ_RMPOLICY
      then bindr (check_hook m hook_id s) (\<lambda>r.
           if r \<noteq> OK then Inr (r, m, s)
           else bindr (rm_irq_handler (IrqHook (nat hook_id)) s) (\<lambda>s1. Inr (OK, m, s1)))
      else Inr (EINVAL, m, s))"

definition generic_handler :: "hardware \<Rightarrow> hook_id \<Rightarrow> kstate \<Rightarrow> (bool \<times> kstate) res" where
  "generic_handler hw hook s =
     (let h = irq_hooks s hook in
      bindr (get_randomness hw (hk_irq h) s) (\<lambda>s1.
      bindr (proc_addr (hk_proc_nr h)) (\<lambda>rp.
      bindr (priv_of s1 rp) (\<lambda>i.
      let v = priv_tab s1 i;
          s2 = set_priv i (v\<lparr>s_int_pending := s_int_pending v OR push_bit (unat (hk_notify_id h)) 1\<rparr>) s1
      in bindr (lock_notify HARDWARE (hk_proc_nr h) s2) (\<lambda>(_, s3).
         Inr (hk_policy (irq_hooks s3 hook) AND 1 \<noteq> 0, s3))))))"

text \<open>The interrupt line \<open>irq\<close>: every registered handler runs, the clock's or the generic one.\<close>

definition run_handler :: "hardware \<Rightarrow> hook_id \<Rightarrow> kstate \<Rightarrow> (bool \<times> kstate) res" where
  "run_handler hw hook s =
     (case hk_handler (irq_hooks s hook) of
        ClockHandler \<Rightarrow> clock_handler s
      | GenericHandler \<Rightarrow> generic_handler hw hook s)"

section \<open>Device input and output\<close>

abbreviation (input) DIO_INPUT :: int where "DIO_INPUT \<equiv> 0"
abbreviation (input) DIO_OUTPUT :: int where "DIO_OUTPUT \<equiv> 1"
abbreviation (input) DIO_BYTE :: int where "DIO_BYTE \<equiv> 98"
abbreviation (input) DIO_WORD :: int where "DIO_WORD \<equiv> 119"
abbreviation (input) DIO_LONG :: int where "DIO_LONG \<equiv> 108"

text \<open>The width in bits of an I/O type; \<open>None\<close> is the \<open>default\<close> branch of the switches.\<close>

definition dio_width :: "int \<Rightarrow> nat option" where
  "dio_width ty = (if ty = DIO_BYTE then Some 8 else if ty = DIO_WORD then Some 16
                   else if ty = DIO_LONG then Some 32 else None)"

definition out_port :: "nat \<Rightarrow> u32 \<Rightarrow> u32 \<Rightarrow> kstate \<Rightarrow> kstate" where
  "out_port w port v s =
     (if w = 8 then outb (take_bit 16 port) v s
      else s\<lparr>io_out := io_out s @ [(take_bit 16 port, take_bit w v)]\<rparr>)"

definition in_port :: "hardware \<Rightarrow> nat \<Rightarrow> nat \<Rightarrow> u32 \<Rightarrow> u32" where
  "in_port hw w k port = take_bit w (hw_in hw k (take_bit 16 port))"

definition do_devio :: "hardware \<Rightarrow> message \<Rightarrow> kstate \<Rightarrow> reply res" where
  "do_devio hw m s =
     Inr (case dio_width (int_field m 0) of
            None \<Rightarrow> (EINVAL, m, s)
          | Some w \<Rightarrow>
              if int_field m 2 = DIO_INPUT then (OK, mset_w 4 (in_port hw w 0 (m_w m 3)) m, s)
              else (OK, m, out_port w (m_w m 3) (m_w m 4) s))"

text \<open>
  \<open>phys_insb\<close>, \<open>phys_insw\<close>, \<open>phys_outsb\<close> and \<open>phys_outsw\<close> (\<open>klib386.s\<close>) move \<open>count\<close> bytes
  in units of one or two bytes.
\<close>

primrec phys_ins :: "hardware \<Rightarrow> nat \<Rightarrow> nat \<Rightarrow> u32 \<Rightarrow> u32 \<Rightarrow> nat \<Rightarrow> mem \<Rightarrow> mem" where
  "phys_ins hw k w port buf 0 mm = mm"
| "phys_ins hw k w port buf (Suc n) mm =
     phys_ins hw (k + 1) w port (buf + of_nat (w div 8)) n
       (write_bytes buf (take (w div 8) (bytes32 (in_port hw w k port))) mm)"

primrec phys_outs :: "nat \<Rightarrow> u32 \<Rightarrow> u32 \<Rightarrow> nat \<Rightarrow> kstate \<Rightarrow> kstate" where
  "phys_outs w port buf 0 s = s"
| "phys_outs w port buf (Suc n) s =
     phys_outs w port (buf + of_nat (w div 8)) n (out_port w port (get32 (memory s) buf) s)"

definition do_sdevio :: "hardware \<Rightarrow> message \<Rightarrow> kstate \<Rightarrow> reply res" where
  "do_sdevio hw m s =
     (let nr = (if int_field m 1 = SELF then m_source m else int_field m 1);
          count = m_w m 4; port = m_w m 3; ty = int_field m 0; rq = int_field m 2 in
      if \<not> isokprocn nr then Inr (EINVAL, m, s)
      else if iskerneln nr then Inr (EPERM, m, s)
      else bindr (numap_local nr (m_w m 5) count s) (\<lambda>phys_buf.
      if phys_buf = 0 then Inr (EFAULT, m, s)
      else let w = (if ty = DIO_BYTE then 8 else 16); n = unat count div (w div 8) in
           if rq \<noteq> DIO_INPUT \<and> rq \<noteq> DIO_OUTPUT \<or> ty \<noteq> DIO_BYTE \<and> ty \<noteq> DIO_WORD then Inr (EINVAL, m, s)
           else if rq = DIO_INPUT
           then Inr (OK, m, s\<lparr>memory := phys_ins hw 0 w port phys_buf n (memory s)\<rparr>)
           else Inr (OK, m, phys_outs w port phys_buf n s)))"

text \<open>
  The vector of port and value pairs. A \<open>pvb_pair_t\<close> and a \<open>pvw_pair_t\<close> take four bytes with
  the value at offset two, a \<open>pvl_pair_t\<close> eight bytes with the value at offset four. In the
  output of longs the port is taken from the array of byte pairs, at half the distance.
\<close>

abbreviation (input) VDEVIO_BUF_SIZE :: u32 where "VDEVIO_BUF_SIZE \<equiv> 64"

definition pair_size :: "nat \<Rightarrow> nat" where
  "pair_size w = (if w = 32 then 8 else 4)"

definition put_value :: "nat \<Rightarrow> u32 \<Rightarrow> u32 \<Rightarrow> mem \<Rightarrow> mem" where
  "put_value w a v mm = write_bytes (a + (if w = 32 then 4 else 2)) (take (w div 8) (bytes32 v)) mm"

primrec vdevio_in :: "hardware \<Rightarrow> nat \<Rightarrow> u32 \<Rightarrow> nat \<Rightarrow> mem \<Rightarrow> mem" where
  "vdevio_in hw w base 0 mm = mm"
| "vdevio_in hw w base (Suc i) mm =
     (let m1 = vdevio_in hw w base i mm; a = base + of_nat (pair_size w * i)
      in put_value w a (in_port hw w i (get32 m1 a)) m1)"

primrec vdevio_out :: "nat \<Rightarrow> u32 \<Rightarrow> nat \<Rightarrow> kstate \<Rightarrow> kstate" where
  "vdevio_out w base 0 s = s"
| "vdevio_out w base (Suc i) s =
     (let s1 = vdevio_out w base i s; a = base + of_nat (pair_size w * i);
          v = get32 (memory s) (a + (if w = 32 then 4 else 2))
      in out_port w (get32 (memory s) (base + of_nat (4 * i))) v s1)"

definition do_vdevio :: "hardware \<Rightarrow> message \<Rightarrow> kstate \<Rightarrow> reply res" where
  "do_vdevio hw m s =
     (let rq = int_field m 2; vec_size = int_field m 4 in
      if rq \<noteq> DIO_INPUT \<and> rq \<noteq> DIO_OUTPUT then Inr (EINVAL, m, s)
      else if vec_size \<le> 0 then Inr (EINVAL, m, s)
      else case dio_width (int_field m 0) of
             None \<Rightarrow> Inr (EINVAL, m, s)
           | Some w \<Rightarrow>
               (let bytes = word_of_int (vec_size * int (pair_size w)) :: u32 in
                if bytes > VDEVIO_BUF_SIZE then Inr (E2BIG, m, s)
                else bindr (proc_addr (m_source m)) (\<lambda>caller.
                let caller_phys = umap_local caller D (m_w m 5) bytes s in
                if caller_phys = 0 then Inr (EFAULT, m, s)
                else if vec_size * int (pair_size w) > uint VDEVIO_BUF_SIZE then Inl (BadIndex vec_size)
                else if rq = DIO_INPUT
                then Inr (OK, m, s\<lparr>memory := vdevio_in hw w caller_phys (nat vec_size) (memory s)\<rparr>)
                else Inr (OK, m, vdevio_out w caller_phys (nat vec_size) s))))"

abbreviation (input) SIZEOF_REG86 :: u32 where "SIZEOF_REG86 \<equiv> 40"

definition do_int86 :: "hardware \<Rightarrow> message \<Rightarrow> kstate \<Rightarrow> reply res" where
  "do_int86 hw m s =
     bindr (proc_addr (m_source m)) (\<lambda>caller.
     let caller_phys = umap_local caller D (m_w m 3) SIZEOF_REG86 s in
     if caller_phys = 0 then Inr (EFAULT, m, s)
     else let (regs, mm) = hw_bios hw (read_bytes (memory s) caller_phys (unat SIZEOF_REG86)) (memory s);
              s1 = s\<lparr>memory := write_bytes caller_phys (take (unat SIZEOF_REG86) regs) mm\<rparr>
          in bindr (get_randomness hw 0 s1) (\<lambda>s2. Inr (OK, m, s2)))"

section \<open>Signal frames\<close>

text \<open>The registers as \<open>struct sigregs\<close> lays them out: 64 bytes, the same as the stack frame.\<close>

definition regs_words :: "stackframe \<Rightarrow> u32 list" where
  "regs_words r =
     [ucast (reg_gs r) OR push_bit 16 (ucast (reg_fs r)), ucast (reg_es r) OR push_bit 16 (ucast (reg_ds r)),
      reg_di r, reg_si r, reg_fp r, reg_st r, reg_bx r, reg_dx r, reg_cx r, reg_retreg r, reg_retadr r,
      reg_pc r, reg_cs r, reg_psw r, reg_sp r, reg_ss r]"

definition get_regs :: "mem \<Rightarrow> u32 \<Rightarrow> stackframe" where
  "get_regs mm a =
     (let w = (\<lambda>i. get32 mm (a + 4 * of_nat i))
      in \<lparr>reg_gs = ucast (w 0), reg_fs = ucast (drop_bit 16 (w 0)), reg_es = ucast (w 1),
          reg_ds = ucast (drop_bit 16 (w 1)), reg_di = w 2, reg_si = w 3, reg_fp = w 4, reg_st = w 5,
          reg_bx = w 6, reg_dx = w 7, reg_cx = w 8, reg_retreg = w 9, reg_retadr = w 10, reg_pc = w 11,
          reg_cs = w 12, reg_psw = w 13, reg_sp = w 14, reg_ss = w 15\<rparr>)"

abbreviation (input) SC_SIGCONTEXT :: u32 where "SC_SIGCONTEXT \<equiv> 2"
abbreviation (input) SC_NOREGLOCALS :: u32 where "SC_NOREGLOCALS \<equiv> 4"
abbreviation (input) SIZEOF_SIGMSG :: u32 where "SIZEOF_SIGMSG \<equiv> 20"
abbreviation (input) SIZEOF_SIGCONTEXT :: u32 where "SIZEOF_SIGCONTEXT \<equiv> 72"
abbreviation (input) SIZEOF_SIGFRAME :: u32 where "SIZEOF_SIGFRAME \<equiv> 28"

definition words_bytes :: "u32 list \<Rightarrow> u8 list" where
  "words_bytes ws = concat (map bytes32 ws)"

definition do_sigsend :: "message \<Rightarrow> kstate \<Rightarrow> reply res" where
  "do_sigsend m s =
     (let nr = int_field m 0 in
      if \<not> isokprocn nr then Inr (EINVAL, m, s)
      else if iskerneln nr then Inr (EPERM, m, s)
      else bindr (proc_addr nr) (\<lambda>rp.
      bindr (numap_local PM_PROC_NR (m_w m 5) SIZEOF_SIGMSG s) (\<lambda>src_phys.
      if src_phys = 0 then Inr (EFAULT, m, s)
      else let sm = (\<lambda>i. get32 (memory s) (src_phys + 4 * of_nat i));
               scp = sm 4 - SIZEOF_SIGCONTEXT;
               r = p_reg (proc_tab s rp);
               dst1 = umap_local rp D scp SIZEOF_SIGCONTEXT s
           in if dst1 = 0 then Inr (EFAULT, m, s)
              else let s1 = s\<lparr>memory := write_bytes dst1
                              (words_bytes (SC_SIGCONTEXT # sm 1 # regs_words r)) (memory s)\<rparr>;
                       frp = scp - SIZEOF_SIGFRAME;
                       fr = [sm 3, sm 0, 0, scp, reg_fp r, reg_pc r, scp];
                       s2 = set_proc rp ((proc_tab s1 rp)\<lparr>p_reg := r\<lparr>reg_fp := frp + 16\<rparr>\<rparr>) s1;
                       dst2 = umap_local rp D frp SIZEOF_SIGFRAME s2
                   in if dst2 = 0 then Inr (EFAULT, m, s2)
                      else let s3 = s2\<lparr>memory := write_bytes dst2 (words_bytes fr) (memory s2)\<rparr>
                           in Inr (OK, m, set_proc rp ((proc_tab s3 rp)\<lparr>p_reg :=
                                (p_reg (proc_tab s3 rp))\<lparr>reg_sp := frp, reg_pc := sm 2\<rparr>\<rparr>) s3))))"

definition do_sigreturn :: "message \<Rightarrow> kstate \<Rightarrow> reply res" where
  "do_sigreturn m s =
     (let nr = int_field m 0 in
      if \<not> isokprocn nr then Inr (EINVAL, m, s)
      else if iskerneln nr then Inr (EPERM, m, s)
      else bindr (proc_addr nr) (\<lambda>rp.
      let src_phys = umap_local rp D (m_w m 5) SIZEOF_SIGCONTEXT s in
      if src_phys = 0 then Inr (EFAULT, m, s)
      else let flags = get32 (memory s) src_phys; sc = get_regs (memory s) (src_phys + 8);
               r = p_reg (proc_tab s rp)
           in if flags AND SC_SIGCONTEXT = 0 then Inr (EINVAL, m, s)
              else let r1 = (if flags AND SC_NOREGLOCALS \<noteq> 0
                             then r\<lparr>reg_retreg := reg_retreg sc, reg_fp := reg_fp sc, reg_pc := reg_pc sc,
                                    reg_sp := reg_sp sc\<rparr>
                             else sc\<lparr>reg_psw := reg_psw r, reg_cs := reg_cs r, reg_ds := reg_ds r,
                                     reg_es := reg_es r, reg_fs := reg_fs r, reg_gs := reg_gs r\<rparr>)
                   in Inr (OK, m, set_proc rp ((proc_tab s rp)\<lparr>p_reg := r1\<rparr>) s)))"

section \<open>Information and shutdown\<close>

abbreviation (input) RBT_PANIC :: int where "RBT_PANIC \<equiv> 2"
abbreviation (input) RBT_MONITOR :: int where "RBT_MONITOR \<equiv> 3"
abbreviation (input) TTY_PROC_NR :: int where "TTY_PROC_NR \<equiv> 5"
abbreviation (input) HZ :: int where "HZ \<equiv> 60"

text \<open>
  \<open>prepare_shutdown\<close>: on a panic the terminal driver is asked for dumps with \<open>nb_send\<close>, a trap
  of the running process; otherwise every system process gets a signal and a timer is set
  that shuts the machine down.
\<close>

abbreviation (input) NB_SEND :: u32 where "NB_SEND \<equiv> 17"
abbreviation (input) PANIC_DUMPS :: u32 where "PANIC_DUMPS \<equiv> 97"

definition stop_signal :: "int \<Rightarrow> kstate \<Rightarrow> kstate res" where
  "stop_signal rp s =
     (if isemptyp s rp then Inr s
      else bindr (priv_of s rp) (\<lambda>i.
           if s_flags (priv_tab s i) AND SYS_PROC \<noteq> 0 \<and> \<not> iskerneln (p_nr (proc_tab s rp))
           then send_sig (p_nr (proc_tab s rp)) SIGKSTOP s else Inr s))"

definition stop_sequence :: "int \<Rightarrow> kstate \<Rightarrow> kstate res" where
  "stop_sequence how s =
     bindr (kprintf (''Sending SIGKSTOP to system processes ...'' @ [CHR 0x0A]) [] s) (\<lambda>s1.
     bindr (for_each stop_signal [- 4..63] s1) (\<lambda>s2.
     bindr (kprintf (''MINIX will now be shut down ...'' @ [CHR 0x0A]) [] (s2\<lparr>shutdown_started := True\<rparr>)) (\<lambda>s3.
     let s4 = set_tmr ShutdownTmr ((theap (clock_timers s3) ShutdownTmr)\<lparr>tmr_arg := how\<rparr>) s3
     in set_timer ShutdownTmr (slong (get_uptime s4 + HZ)) Shutdown s4)))"

definition prepare_shutdown :: "hardware \<Rightarrow> int \<Rightarrow> kstate \<Rightarrow> kstate res" where
  "prepare_shutdown hw how s =
     (if how = RBT_PANIC
      then bindr (deref (proc_ptr s)) (\<lambda>pp.
           let s0 = s\<lparr>memory := put32 (phys_base s pp + hw_mess hw + 4) PANIC_DUMPS (memory s)\<rparr>
           in bindr (sys_call NB_SEND TTY_PROC_NR (hw_mess hw) s0) (\<lambda>(r, s1).
              if r = OK then Inr s1 else stop_sequence how s1))
      else stop_sequence how s)"

definition do_abort :: "hardware \<Rightarrow> message \<Rightarrow> kstate \<Rightarrow> reply res" where
  "do_abort hw m s =
     (let how = int_field m 0; nr = int_field m 1; len = m_w m 2 + 1;
          finish = (\<lambda>s1. bindr (prepare_shutdown hw how s1) (\<lambda>s2. Inr (OK, m, s2)))
      in if how = RBT_MONITOR
         then if \<not> isokprocn nr then Inr (EINVAL, m, s)
              else if len > params_size (kinfo_v s) then Inr (E2BIG, m, s)
              else bindr (numap_local nr (m_w m 3) len s) (\<lambda>src_phys.
                   if src_phys = 0 then Inr (EFAULT, m, s)
                   else finish (s\<lparr>memory := phys_copy src_phys (params_base (kinfo_v s)) len (memory s)\<rparr>))
         else finish s)"

definition do_unused :: "message \<Rightarrow> kstate \<Rightarrow> reply res" where
  "do_unused m s =
     bindr (kprintf ''SYSTEM: got unused request %d from %d'' [KInt (m_type m), KInt (m_source m)] s)
       (\<lambda>s1. Inr (EBADREQUEST, m, s1))"

abbreviation (input) GET_RANDOMNESS :: int where "GET_RANDOMNESS \<equiv> 3"
abbreviation (input) GET_MONPARAMS :: int where "GET_MONPARAMS \<equiv> 4"
abbreviation (input) GET_SCHEDINFO :: int where "GET_SCHEDINFO \<equiv> 10"
abbreviation (input) GET_PROC :: int where "GET_PROC \<equiv> 11"
abbreviation (input) GET_BIOSBUFFER :: int where "GET_BIOSBUFFER \<equiv> 14"

text \<open>
  \<open>do_getinfo\<close>: each request copies a structure of the kernel, whose bytes are given by
  \<open>hw_image\<close> under the number of the request (for \<open>GET_PROC\<close>, under 100 plus the process
  number; for the queue heads of \<open>GET_SCHEDINFO\<close> and the buffer length of \<open>GET_BIOSBUFFER\<close>,
  under the negative number).
\<close>

definition put_info :: "message \<Rightarrow> u32 \<Rightarrow> u8 list \<Rightarrow> kstate \<Rightarrow> (int \<times> kstate) res" where
  "put_info m ptr bs s =
     bindr (numap_local (m_source m) ptr (of_nat (length bs)) s) (\<lambda>dst_phys.
     if dst_phys = 0 then Inr (EFAULT, s) else Inr (OK, s\<lparr>memory := write_bytes dst_phys bs (memory s)\<rparr>))"

definition getinfo_first :: "hardware \<Rightarrow> message \<Rightarrow> kstate \<Rightarrow> (int \<times> kstate) res" where
  "getinfo_first hw m s =
     (let rq = int_field m 2 in
      if rq = GET_SCHEDINFO then put_info m (m_w m 5) (hw_image hw (- rq) s) s
      else if rq = GET_BIOSBUFFER
      then if int (length (hw_image hw (- rq) s)) \<noteq> int_field m 1 then Inr (EINVAL, s)
           else put_info m (m_w m 5) (hw_image hw (- rq) s) s
      else if rq = GET_PROC
      then let nr = (if int_field m 1 = SELF then m_source m else int_field m 1)
           in Inr (if isokprocn nr then OK else EINVAL, s)
      else Inr (if rq \<in> {0, 1, 2, 3, 4, 6, 7, 8, 12} then OK else EINVAL, s))"

definition getinfo_bytes :: "hardware \<Rightarrow> message \<Rightarrow> kstate \<Rightarrow> u8 list \<times> kstate" where
  "getinfo_bytes hw m s =
     (let rq = int_field m 2 in
      if rq = GET_RANDOMNESS
      then (hw_image hw rq s, s\<lparr>krandom := (\<lambda>i. if i < nat RANDOM_SOURCES
                               then (krandom s i)\<lparr>r_size := 0, r_next := 0\<rparr> else krandom s i)\<rparr>)
      else if rq = GET_MONPARAMS
      then (read_bytes (memory s) (params_base (kinfo_v s)) (unat (params_size (kinfo_v s))), s)
      else if rq = GET_PROC
      then (hw_image hw (100 + (if int_field m 1 = SELF then m_source m else int_field m 1)) s, s)
      else (hw_image hw rq s, s))"

definition do_getinfo :: "hardware \<Rightarrow> message \<Rightarrow> kstate \<Rightarrow> reply res" where
  "do_getinfo hw m s =
     bindr (getinfo_first hw m s) (\<lambda>(r, s1).
     if r \<noteq> OK then Inr (r, m, s1)
     else let (bs, s2) = getinfo_bytes hw m s1 in
          if int_field m 0 > 0 \<and> int (length bs) > int_field m 0 then Inr (E2BIG, m, s2)
          else if int_field m 2 = GET_MONPARAMS \<and> params_base (kinfo_v s2) = 0 then Inr (EFAULT, m, s2)
          else bindr (put_info m (m_w m 4) bs s2) (\<lambda>(r2, s3). Inr (r2, m, s3)))"

section \<open>A sample of the hardware\<close>

definition sample_hw :: hardware where
  "sample_hw = \<lparr>hw_in = (\<lambda>_ _. 0), hw_tsc = 0, hw_count = 0, hw_bios = (\<lambda>bs m. (bs, m)),
     hw_image = (\<lambda>_ _. []), hw_proc_word = (\<lambda>_ _. 0), hw_behind = 0, hw_mess = 0\<rparr>"

end
