(* ===== verification/System.thy ===== *)
theory System
  imports Sys_Dev
begin

unbundle bit_operations_syntax

text \<open>
  The main loop of the system task and its call vector (\<open>sys_task\<close> and \<open>initialize\<close> of
  \<open>kernel/system.c\<close>), and the handler of processor exceptions (\<open>kernel/exception.c\<close>).
\<close>

section \<open>Initialisation\<close>

text \<open>
  \<open>initialize\<close> frees the interrupt hooks and clears the alarm timers; the call vector is the
  function \<open>call_vec\<close> below.
\<close>

definition initialize :: "kstate \<Rightarrow> kstate" where
  "initialize s =
     s\<lparr>irq_hooks := (\<lambda>h. case h of IrqHook i \<Rightarrow>
          if i < NR_IRQ_HOOKS then (irq_hooks s h)\<lparr>hk_proc_nr := NONE\<rparr> else irq_hooks s h
        | ClockHook \<Rightarrow> irq_hooks s h),
       clock_timers := fold (\<lambda>i q. tmr_inittimer (AlarmTmr i) q) [0..<NR_SYS_PROCS] (clock_timers s)\<rparr>"

section \<open>The call vector\<close>

abbreviation (input) KERNEL_CALL :: int where "KERNEL_CALL \<equiv> 1536"
abbreviation (input) NR_SYS_CALLS :: u32 where "NR_SYS_CALLS \<equiv> 28"

definition call_vec :: "hardware \<Rightarrow> nat \<Rightarrow> message \<Rightarrow> kstate \<Rightarrow> reply res" where
  "call_vec hw n =
     [do_fork, do_exec, do_exit, do_nice, do_privctl (hw_behind hw), do_trace (hw_proc_word hw), do_kill,
      do_getksig, do_endksig, do_sigsend, do_sigreturn, do_newmap, do_segctl, do_memset,
      do_umap, do_copy, do_copy, do_vcopy, do_vcopy, do_irqctl, do_int86 hw, do_devio hw, do_sdevio hw,
      do_vdevio hw, do_setalarm, do_times, do_getinfo hw, do_abort hw] ! n"

section \<open>The main loop\<close>

definition get_message :: "mem \<Rightarrow> u32 \<Rightarrow> message" where
  "get_message mm a =
     \<lparr>m_source = sint (get32 mm a), m_type = sint (get32 mm (a + 4)),
      m_w = (\<lambda>i. if i < 7 then get32 mm (a + 8 + 4 * of_nat i) else 0)\<rparr>"

definition put_message :: "u32 \<Rightarrow> message \<Rightarrow> mem \<Rightarrow> mem" where
  "put_message a m mm = write_bytes a (words_bytes (message_words m)) mm"

text \<open>
  What happens to one request: the checks of the call mask and of the call number, and the
  call. The shift count of the mask test is taken modulo the word size by the processor.
\<close>

definition sys_request :: "hardware \<Rightarrow> message \<Rightarrow> kstate \<Rightarrow> reply res" where
  "sys_request hw m s =
     (let call_nr = word_of_int (m_type m - KERNEL_CALL) :: u32
      in bindr (proc_addr (m_source m)) (\<lambda>caller.
         bindr (priv_of s caller) (\<lambda>i.
         if s_call_mask (priv_tab s i) AND push_bit (unat call_nr mod 32) 1 = 0
         then bindr (kprintf (''SYSTEM: request %d from %d denied.'' @ [CHR 0x0A])
                       [KInt (sint call_nr), KInt (m_source m)] s) (\<lambda>s1. Inr (ECALLDENIED, m, s1))
         else if call_nr \<ge> NR_SYS_CALLS
         then bindr (kprintf (''SYSTEM: illegal request %d from %d.'' @ [CHR 0x0A])
                       [KInt (sint call_nr), KInt (m_source m)] s) (\<lambda>s1. Inr (EBADREQUEST, m, s1))
         else call_vec hw (unat call_nr) m s)))"

text \<open>
  One round of the loop after \<open>receive\<close> has put a request into the static variable \<open>m\<close>; the
  reply is sent by \<open>lock_send\<close> from the same variable.
\<close>

definition sys_task_step :: "hardware \<Rightarrow> kstate \<Rightarrow> kstate res" where
  "sys_task_step hw s =
     (let a = phys_base s SYSTEM + hw_mess hw; m = get_message (memory s) a
      in bindr (sys_request hw m s) (\<lambda>(result, m1, s1).
         if result = EDONTREPLY then Inr s1
         else let s2 = s1\<lparr>memory := put_message a (m1\<lparr>m_type := result\<rparr>) (memory s1)\<rparr>
              in bindr (lock_send (m_source m1) (hw_mess hw) s2) (\<lambda>(r, s3).
                 if r = OK then Inr s3
                 else kprintf (''SYSTEM, reply to %d failed: %d'' @ [CHR 0x0A]) [KInt (m_source m1), KInt r] s3)))"

section \<open>Exceptions\<close>

abbreviation (input) SIGILL :: int where "SIGILL \<equiv> 4"
abbreviation (input) SIGTRAP :: int where "SIGTRAP \<equiv> 5"
abbreviation (input) SIGBUS :: int where "SIGBUS \<equiv> 10"
abbreviation (input) SIGEMT :: int where "SIGEMT \<equiv> 7"
abbreviation (input) SIGFPE :: int where "SIGFPE \<equiv> 8"
abbreviation (input) SIGSEGV :: int where "SIGSEGV \<equiv> 11"

definition ex_data :: "(string option \<times> int \<times> int) list" where
  "ex_data =
     [(Some ''Divide error'', SIGFPE, 86), (Some ''Debug exception'', SIGTRAP, 86),
      (Some ''Nonmaskable interrupt'', SIGBUS, 86), (Some ''Breakpoint'', SIGEMT, 86),
      (Some ''Overflow'', SIGFPE, 86), (Some ''Bounds check'', SIGFPE, 186),
      (Some ''Invalid opcode'', SIGILL, 186), (Some ''Coprocessor not available'', SIGFPE, 186),
      (Some ''Double fault'', SIGBUS, 286), (Some ''Copressor segment overrun'', SIGSEGV, 286),
      (Some ''Invalid TSS'', SIGSEGV, 286), (Some ''Segment not present'', SIGSEGV, 286),
      (Some ''Stack exception'', SIGSEGV, 286), (Some ''General protection'', SIGSEGV, 286),
      (Some ''Page fault'', SIGSEGV, 386), (None, SIGILL, 0), (Some ''Coprocessor error'', SIGFPE, 386)]"

text \<open>
  \<open>exception\<close>: a fault in a user process becomes a signal; a fault in the kernel is printed
  and ends in a panic. The nesting level \<open>k_reenter\<close> is an argument.
\<close>

definition exception :: "int \<Rightarrow> nat \<Rightarrow> kstate \<Rightarrow> kstate res" where
  "exception k_reenter vec_nr s =
     bindr (deref (proc_ptr s)) (\<lambda>saved.
     if vec_nr \<ge> length ex_data then Inl (BadIndex (int vec_nr))
     else let (msg, signum, minproc) = ex_data ! vec_nr; p = proc_tab s saved in
     if vec_nr = 2 then kprintf (''got spurious NMI'' @ [CHR 0x0A]) [] s
     else if k_reenter = 0 \<and> \<not> iskerneln (p_nr p) then cause_sig (p_nr p) signum s
     else bindr (if msg = None \<or> machine_processor s < minproc
                 then kprintf ([CHR 0x0A] @ ''Intel-reserved exception %d'' @ [CHR 0x0A]) [KInt (int vec_nr)] s
                 else kprintf ([CHR 0x0A] @ ''%s'' @ [CHR 0x0A]) [KStr msg] s) (\<lambda>s1.
          bindr (kprintf ''k_reenter = %d '' [KInt k_reenter] s1) (\<lambda>s2.
          bindr (kprintf ''process %d (%s), '' [KInt (p_nr p),
                   KStr (Some (map (\<lambda>b. char_of (unat b)) (takeWhile (\<lambda>b. b \<noteq> 0) (p_name p))))] s2) (\<lambda>s3.
          bindr (kprintf ''pc = %u:0x%x'' [KLong (reg_cs (p_reg p)), KLong (reg_pc (p_reg p))] s3) (\<lambda>s4.
          Inl (Panic ''exception in a kernel task''))))))"

end
