(* ===== verification/Proc_Life.thy ===== *)
theory Proc_Life
  imports Sys_Proc
begin

unbundle bit_operations_syntax

text \<open>
  The life of a process in the kernel: what \<open>do_fork\<close>, \<open>do_exit\<close> and \<open>do_nice\<close> (defined in
  \<open>Sys_Proc\<close>) do to the invariant \<open>kwf\<close> and to the queues. The first part is about replacing a
  slot that is on no queue, which is what a fork does; the second takes a process off every
  queue it can be on and releases its interrupt hooks, which is what an exit does.
\<close>

section \<open>Creating a process\<close>

text \<open>
  A slot that is neither ready nor queued at a destination can be replaced: by another slot
  that is neither, with the same queue of callers.
\<close>

lemma kwf_replace:
  assumes wf: "kwf s" and x: "x \<in> procs" "0 \<le> x" "flags_of s x \<noteq> 0" "\<not> sending s x"
    and p: "p_rts_flags p \<noteq> 0" "p_rts_flags p AND SENDING = 0" "p_nr p = x"
      "p_caller_q p = p_caller_q (proc_tab s x)"
      "p_rts_flags p AND RECEIVING \<noteq> 0 \<longrightarrow> p_rts_flags p AND SLOT_FREE = 0"
      "p_rts_flags p AND SLOT_FREE = 0 \<longrightarrow> prio_ok p \<and> p_priv p \<noteq> None"
  shows "kwf (set_proc x p s)"
proof -
  let ?s = "set_proc x p s"
  from wf have sw: "sched_wf s" and iw: "ipc_wf s" by (simp_all add: kwf_def)
  have R: "{y \<in> procs. flags_of ?s y = 0} = {y \<in> procs. flags_of s y = 0}" using x p by auto
  have "ready_set ?s {y \<in> procs. flags_of s y = 0}"
    by (rule ready_set_cong [of s]) (use sw x in \<open>auto simp: sched_wf_def\<close>)
  moreover have "slot_ok ?s y" if "y \<in> procs" for y
  proof (cases "y = x")
    case True
    then show ?thesis using p x by (auto simp: slot_ok_def can_sched_def guard_intact_def iskerneln_def procs_def)
  next
    case False
    then show ?thesis using sw that by (simp add: sched_wf_def slot_ok_def can_sched_def guard_intact_def)
  qed
  ultimately have "sched_wf ?s" using sw R x by (auto simp: sched_wf_def)
  moreover obtain C where C: "callers_rep s C" using iw by (auto simp: ipc_wf_def)
  have "callers_rep ?s C"
    unfolding callers_rep_def
  proof
    fix d
    assume d: "d \<in> procs"
    have "x \<notin> set (C d)" using callers_member [OF C d] x(4) by blast
    then have "chain (qlink ?s) q (C d) = chain (qlink s) q (C d)" for q by (intro lseg_cong) auto
    moreover have "{y \<in> procs. sending ?s y \<and> sendto ?s y = d} = {y \<in> procs. sending s y \<and> sendto s y = d}"
      using x(4) p(2) by auto
    ultimately show "chain (qlink ?s) (p_caller_q (proc_tab ?s d)) (C d) \<and>
        set (C d) = {y \<in> procs. sending ?s y \<and> sendto ?s y = d}"
      using C d p(4) by (auto simp: callers_rep_def)
  qed
  moreover have "(y, z) \<in> send_edges ?s \<longleftrightarrow> (y, z) \<in> send_edges s" for y z
    using x(4) p(2) by (cases "y = x") (simp_all add: send_edge_iff)
  then have "send_edges ?s = send_edges s" by auto
  ultimately show ?thesis using iw p(2,5) by (auto simp: kwf_def ipc_wf_def)
qed

lemma schar_half_sum:
  assumes "0 \<le> t" "t < 128"
  shows "schar (cdiv (t + 1) 2) + schar (cdiv t 2) = t"
proof -
  have "(t + 1) div 2 + t div 2 = t" by presburger
  then show ?thesis using assms by (simp add: cwrap)
qed

lemma fork_child_flags:
  fixes c p :: "kproc" and nr :: int
  defines "f \<equiv> p_rts_flags (fork_child c p nr)"
  assumes "p_rts_flags p AND SENDING = 0" "p_rts_flags p AND SLOT_FREE = 0"
  shows "f AND NO_MAP \<noteq> 0" "f \<noteq> 0" "f AND SENDING = 0" "f AND SLOT_FREE = 0" "f AND SIG_PENDING = 0"
    "(f OR NO_PRIV) AND NO_MAP \<noteq> 0" "f OR NO_PRIV \<noteq> 0" "(f OR NO_PRIV) AND SENDING = 0"
    "(f OR NO_PRIV) AND SLOT_FREE = 0" "(f OR NO_PRIV) AND SIG_PENDING = 0" "(f OR NO_PRIV) AND NO_PRIV \<noteq> 0"
proof -
  have f: "f = (p_rts_flags p OR NO_MAP) AND NOT (SIGNALED OR SIG_PENDING OR P_STOP)"
    by (simp only: f_def fork_child_def Let_def) simp
  have o: "f AND b = p_rts_flags p AND b" if "NO_MAP AND b = 0" "(SIGNALED OR SIG_PENDING OR P_STOP) AND b = 0" for b
    unfolding f flag_clear_other [OF that(2)] by (rule flag_set_other [OF that(1)])
  show a: "f AND NO_MAP \<noteq> 0" unfolding f
    by (subst flag_clear_other) (simp_all add: flag_set_same)
  show "f AND SENDING = 0" "f AND SLOT_FREE = 0" using o [of SENDING] o [of SLOT_FREE] assms by simp_all
  show z: "f AND SIG_PENDING = 0"
  proof -
    have "f AND 112 = 0" using flag_clear_same [of "p_rts_flags p OR NO_MAP" 112] by (simp add: f)
    moreover have "f AND SIG_PENDING = (f AND 112) AND SIG_PENDING" by (simp add: and.assoc)
    ultimately show ?thesis by simp
  qed
  show "f \<noteq> 0" using a by auto
  show "(f OR NO_PRIV) AND NO_MAP \<noteq> 0" "(f OR NO_PRIV) AND SENDING = 0"
    "(f OR NO_PRIV) AND SLOT_FREE = 0" "(f OR NO_PRIV) AND SIG_PENDING = 0"
    using a z \<open>f AND SENDING = 0\<close> \<open>f AND SLOT_FREE = 0\<close> by (simp_all add: flag_set_other)
  show "(f OR NO_PRIV) AND NO_PRIV \<noteq> 0" by (simp add: flag_set_same)
  show "f OR NO_PRIV \<noteq> 0" by (rule flag_set_nonzero) simp
qed

text \<open>
  C18: \<open>fork\<close>. For a living user process that is not sending and has no callers (the slot is copied
  with its \<open>p_caller_q\<close>, which no code resets) and whose remaining ticks fit the type \<open>char\<close>, and a free slot
  without callers: the call succeeds
  and the invariant holds again; the child cannot run before it has a memory map, sees 0 as its
  return value, has no pending signals and has used no time; parent and child share the ticks
  that the parent had left; a child of a system process loses the privileges and cannot run
  before it is given new ones.
\<close>

theorem do_fork_ok:
  fixes m :: message
  defines "pa \<equiv> int_field m 1" and "ch \<equiv> int_field m 0"
  assumes wf: "kwf s" and pa: "pa \<in> procs" "0 \<le> pa" "alive s pa" "\<not> sending s pa" "p_caller_q (proc_tab s pa) = None"
    and ch: "ch \<in> procs" "0 \<le> ch" "isemptyp s ch" "p_caller_q (proc_tab s ch) = None"
    and ticks: "0 \<le> p_ticks_left (proc_tab s pa)" "p_ticks_left (proc_tab s pa) < 128"
  shows "\<exists>s'. do_fork m s = Inr (OK, m, s') \<and> kwf s' \<and>
    p_ticks_left (proc_tab s' pa) + p_ticks_left (proc_tab s' ch) = p_ticks_left (proc_tab s pa) \<and>
    flags_of s' ch AND NO_MAP \<noteq> 0 \<and> flags_of s' ch AND SIG_PENDING = 0 \<and> p_pending (proc_tab s' ch) = 0 \<and>
    reg_retreg (p_reg (proc_tab s' ch)) = 0 \<and> p_memmap (proc_tab s' ch) = p_memmap (proc_tab s pa) \<and>
    p_user_time (proc_tab s' ch) = 0 \<and> p_sys_time (proc_tab s' ch) = 0 \<and>
    (\<forall>i. p_priv (proc_tab s pa) = Some i \<and> s_flags (priv_tab s i) AND SYS_PROC \<noteq> 0 \<longrightarrow>
       p_priv (proc_tab s' ch) = Some USER_PRIV_ID \<and> flags_of s' ch AND NO_PRIV \<noteq> 0)"
proof -
  have ne: "pa \<noteq> ch" using pa(3) ch(3) by (auto simp: isemptyp_def)
  have fe: "flags_of s ch = 1" using ch(3) by (simp add: isemptyp_def)
  have can: "can_sched s pa" using kwf_procD(2) [OF wf pa(1,3)] pa(2) by simp
  then obtain i where i: "p_priv (proc_tab s pa) = Some i" and pr: "prio_ok (proc_tab s pa)" by (auto simp: can_sched_def)
  let ?c = "fork_child (proc_tab s ch) (proc_tab s pa) ch"
  let ?q = "(proc_tab s pa)\<lparr>p_ticks_left := schar (cdiv (p_ticks_left (proc_tab s pa)) 2)\<rparr>"
  let ?sys = "s_flags (priv_tab s i) AND SYS_PROC \<noteq> 0"
  let ?d = "if ?sys then ?c\<lparr>p_priv := Some USER_PRIV_ID, p_rts_flags := p_rts_flags ?c OR NO_PRIV\<rparr> else ?c"
  let ?s = "set_proc pa ?q (set_proc ch ?d s)"
  note fl = fork_child_flags [of "proc_tab s pa" "proc_tab s ch" ch]
  have d: "p_nr ?d = ch" "p_caller_q ?d = None" "prio_ok ?d" "p_priv ?d \<noteq> None"
    using pa(5) pr i by (simp_all add: fork_child_def Let_def prio_ok_def)
  have "kwf (set_proc ch ?d s)"
    by (rule kwf_replace [OF wf ch(1,2)]) (use d ch(4) fe fl pa(3,4) in simp_all)
  then have "kwf ?s" by (rule kwf_cong) (use ne in \<open>auto simp: sched_view_def ipc_view_def\<close>)
  moreover have "do_fork m s = Inr (OK, m, ?s)"
    using pa(1,3) ch(1,3) ne i fe unfolding do_fork_def pa_def [symmetric] ch_def [symmetric]
    by (auto simp: procs_def isemptyp_def priv_of_def Let_def fun_upd_twist)
  moreover have "p_ticks_left ?d = schar (cdiv (p_ticks_left (proc_tab s pa) + 1) 2)"
    "p_pending ?d = 0" "reg_retreg (p_reg ?d) = 0" "p_memmap ?d = p_memmap (proc_tab s pa)"
    "p_user_time ?d = 0" "p_sys_time ?d = 0"
    by (simp_all add: fork_child_def Let_def sigemptyset_def)
  ultimately show ?thesis
    using schar_half_sum [OF ticks] ne i fl pa(3,4) by (intro exI [of _ ?s]) (simp add: add.commute)
qed

definition sample_fork :: message where
  "sample_fork = \<lparr>m_source = PM_PROC_NR, m_type = 1536, m_w = (\<lambda>_. 0)(0 := 10, 1 := 2)\<rparr>"

theorem do_fork_ok_witness:
  "\<exists>s'. do_fork sample_fork sample = Inr (OK, sample_fork, s') \<and> kwf s' \<and>
    p_ticks_left (proc_tab s' 2) + p_ticks_left (proc_tab s' 10) = 4 \<and> p_priv (proc_tab s' 10) = Some USER_PRIV_ID"
proof -
  have m: "int_field sample_fork 1 = 2" "int_field sample_fork 0 = 10"
    by (simp_all add: int_field_def sample_fork_def)
  have t: "proc_tab sample = sample_proc" "priv_tab sample = sample_priv" by (simp_all add: sample_def)
  have p: "2 \<in> procs" "10 \<in> procs" by (simp_all add: procs_def isokprocn_bounds)
  from do_fork_ok [of sample sample_fork, unfolded m t, OF kwf_sample p(1) _ _ _ _ p(2)] obtain s' where
    "do_fork sample_fork sample = Inr (OK, sample_fork, s')" "kwf s'"
    "p_ticks_left (proc_tab s' 2) + p_ticks_left (proc_tab s' 10) = p_ticks_left (sample_proc 2)"
    "\<forall>i. p_priv (sample_proc 2) = Some i \<and> s_flags (sample_priv i) AND SYS_PROC \<noteq> 0 \<longrightarrow>
       p_priv (proc_tab s' 10) = Some USER_PRIV_ID"
    by (auto simp: sample_proc_def isemptyp_def t)
  then show ?thesis by (auto simp: sample_proc_def sample_priv_def)
qed

section \<open>Removing a process\<close>

lemma for_each_append: "for_each f (xs @ ys) s = bindr (for_each f xs s) (for_each f ys)"
proof (induction xs arbitrary: s)
  case (Cons x xs)
  then show ?case by (cases "f x s") simp_all
qed simp

lemma for_each_id: "(\<And>x. x \<in> set xs \<Longrightarrow> f x s = Inr s) \<Longrightarrow> for_each f xs s = Inr s"
  by (induction xs) simp_all

lemma for_each_inv:
  assumes "I s" and "\<And>x s. x \<in> set xs \<Longrightarrow> I s \<Longrightarrow> \<exists>s'. f x s = Inr s' \<and> I s'"
  shows "\<exists>s'. for_each f xs s = Inr s' \<and> I s'"
  using assms
proof (induction xs arbitrary: s)
  case (Cons x xs)
  from Cons.prems(2) [of x s] Cons.prems(1) obtain s1 where "f x s = Inr s1" "I s1" by auto
  then show ?case using Cons.IH [of s1] Cons.prems(2) by auto
qed simp

text \<open>One round over the slots: nothing happens unless the process is in that queue.\<close>

lemma unqueue_from_spec:
  assumes "cq.links d s xs None"
  shows "rc \<notin> set xs \<Longrightarrow> unqueue_from rc d s = Inr s"
    and "xs = us @ rc # vs \<Longrightarrow> unqueue_from rc d s = Inr (cq_put d (loc_after us) (qlink s rc) s)"
proof -
  note w = cq.walk_whole [OF assms, of "\<lambda>x. x = rc"]
  show "unqueue_from rc d s = Inr s" if "rc \<notin> set xs"
  proof -
    have "takeWhile (\<lambda>y. \<not> y = rc) xs = xs" using that by (rule takeWhile_neq_notin)
    then have "walk (\<lambda>l. cq_get d l s) (\<lambda>x. x = rc) Head = Some (loc_after xs)" using w by (simp only:)
    moreover have "cq_get d (loc_after xs) s = None" using assms by (rule cq.get_loc_after)
    ultimately show ?thesis by (simp add: unqueue_from_def)
  qed
  show "unqueue_from rc d s = Inr (cq_put d (loc_after us) (qlink s rc) s)" if x: "xs = us @ rc # vs"
  proof -
    have "rc \<notin> set us" using chain_distinct [OF assms] x by auto
    then have "takeWhile (\<lambda>y. \<not> y = rc) xs = us" using x by (induction us arbitrary: xs) auto
    then have "walk (\<lambda>l. cq_get d l s) (\<lambda>x. x = rc) Head = Some (loc_after us)" using w by (simp only:)
    moreover have l: "cq.links d s us (Some rc)" using assms x unfolding lseg_append by auto
    then have "cq_get d (loc_after us) s = Some rc" by (rule cq.get_loc_after)
    moreover have "p_caller_q (proc_tab s d) \<noteq> None" using assms x by (cases us) auto
    ultimately show ?thesis by (auto simp: unqueue_from_def)
  qed
qed

lemma slots_list: "set [- 4..63] = procs"
  by (auto simp: procs_def isokprocn_bounds)

text \<open>The whole loop takes the process out of the one queue it is in.\<close>

lemma unqueue_everywhere:
  assumes C: "callers_rep s C" and d: "d \<in> procs" and x: "C d = us @ rc # vs"
  shows "for_each (unqueue_from rc) [- 4..63] s = Inr (cq_put d (loc_after us) (qlink s rc) s)"
proof -
  have links: "cq.links k s (C k) None" if "k \<in> procs" for k using C that by (simp add: callers_rep_def)
  have rc: "rc \<in> procs" "sendto s rc = d" using callers_member [OF C d, of rc] x by simp_all
  have out: "rc \<notin> set (C k)" if "k \<in> procs" "k \<noteq> d" for k using callers_member [OF C that(1), of rc] rc(2) that(2) by auto
  let ?s = "cq_put d (loc_after us) (qlink s rc) s"
  have links': "cq.links k ?s (C k) None" if k: "k \<in> procs" "k \<noteq> d" for k
  proof -
    have "qlink ?s y = qlink s y" if "y \<in> set (C k)" for y
    proof -
      have "y \<notin> set us" using callers_member [OF C k(1) that] callers_member [OF C d, of y] k(2) x by auto
      then have "loc_after us \<noteq> Next y" using loc_after_eq_Next by metis
      then show ?thesis by (simp add: cq_put_other)
    qed
    then have "chain (qlink ?s) p (C k) = chain (qlink s) p (C k)" for p by (rule lseg_cong)
    with links [OF k(1)] k(2) show ?thesis by (auto simp: cq_put_other)
  qed
  have dd: "- 4 \<le> d" "d \<le> 63" using d by (simp_all add: procs_def isokprocn_bounds)
  have split: "[- 4..63] = [- 4..d - 1] @ d # [d + 1..63]"
    using dd upto_split1 [of "- 4" d 63] upto_split2 [of "- 4" d 63] upto_rec1 [of d 63]
    by (simp add: upto_split3)
  have "for_each (unqueue_from rc) [- 4..d - 1] s = Inr s"
  proof (rule for_each_id)
    fix k
    assume "k \<in> set [- 4..d - 1]"
    then have k: "k \<in> procs" "k \<noteq> d" using dd by (auto simp: procs_def isokprocn_bounds)
    show "unqueue_from rc k s = Inr s" using links [OF k(1)] out [OF k] by (rule unqueue_from_spec(1))
  qed
  moreover have "unqueue_from rc d s = Inr ?s" using unqueue_from_spec(2) [OF links [OF d] x] .
  moreover have "for_each (unqueue_from rc) [d + 1..63] ?s = Inr ?s"
  proof (rule for_each_id)
    fix k
    assume "k \<in> set [d + 1..63]"
    then have k: "k \<in> procs" "k \<noteq> d" using dd by (auto simp: procs_def isokprocn_bounds)
    show "unqueue_from rc k ?s = Inr ?s" using links' [OF k] out [OF k] by (rule unqueue_from_spec(1))
  qed
  ultimately show ?thesis unfolding split for_each_append by simp
qed

definition irq_wf :: "kstate \<Rightarrow> bool" where
  "irq_wf s \<longleftrightarrow> (\<exists>H. irq_rep s H) \<and> (\<forall>i < NR_IRQ_HOOKS. hk_proc_nr (irq_hooks s (IrqHook i)) \<noteq> NONE \<longrightarrow>
     0 \<le> hk_irq (irq_hooks s (IrqHook i)) \<and> hk_irq (irq_hooks s (IrqHook i)) < NR_IRQ_VECTORS)"

lemma irq_rep_owner:
  "irq_rep s H \<Longrightarrow> irq_rep (s\<lparr>irq_hooks := (irq_hooks s)(h := (irq_hooks s h)\<lparr>hk_proc_nr := n\<rparr>)\<rparr>) H"
proof -
  assume rep: "irq_rep s H"
  let ?s = "s\<lparr>irq_hooks := (irq_hooks s)(h := (irq_hooks s h)\<lparr>hk_proc_nr := n\<rparr>)\<rparr>"
  have "hooks_rep ?s irq hs" if "hooks_rep s irq hs" for irq hs
    using that by (rule hooks_rep_frame) auto
  then show ?thesis using rep by (auto simp: irq_rep_def)
qed

lemma release_hook_ok:
  assumes "irq_wf s" and "i < NR_IRQ_HOOKS" and "nr \<noteq> NONE"
  shows "\<exists>s'. release_hook nr i s = Inr s' \<and> irq_wf s' \<and> irq_frame s s' \<and>
    (\<forall>j. hk_proc_nr (irq_hooks s' (IrqHook j)) =
       (if j = i \<and> hk_proc_nr (irq_hooks s (IrqHook i)) = nr then NONE else hk_proc_nr (irq_hooks s (IrqHook j))))"
proof (cases "hk_proc_nr (irq_hooks s (IrqHook i)) = nr")
  case True
  from assms obtain H where H: "irq_rep s H" by (auto simp: irq_wf_def)
  have irq: "0 \<le> hk_irq (irq_hooks s (IrqHook i))" "hk_irq (irq_hooks s (IrqHook i)) < NR_IRQ_VECTORS"
    using assms True by (auto simp: irq_wf_def)
  from rm_irq_handler_total [OF H irq] obtain s1 H1 where
    s1: "rm_irq_handler (IrqHook i) s = Inr s1" "irq_rep s1 H1" "irq_frame s s1" and
    h: "\<And>h. hk_irq (irq_hooks s1 h) = hk_irq (irq_hooks s h)" "\<And>h. hk_proc_nr (irq_hooks s1 h) = hk_proc_nr (irq_hooks s h)"
    by blast
  let ?s = "s1\<lparr>irq_hooks := (irq_hooks s1)(IrqHook i := (irq_hooks s1 (IrqHook i))\<lparr>hk_proc_nr := NONE\<rparr>)\<rparr>"
  have "irq_rep ?s H1" using s1(2) by (rule irq_rep_owner)
  then have "irq_wf ?s" using assms(1) h unfolding irq_wf_def by auto
  moreover have "release_hook nr i s = Inr ?s" using True s1(1) by (simp add: release_hook_def)
  ultimately show ?thesis using s1(3) True h(2) by auto
next
  case False
  then show ?thesis using assms by (auto simp: release_hook_def)
qed

lemma release_hooks_ok:
  assumes "irq_wf s" and "nr \<noteq> NONE"
  shows "\<exists>s'. for_each (release_hook nr) [0..<NR_IRQ_HOOKS] s = Inr s' \<and> irq_wf s' \<and> irq_frame s s' \<and>
    (\<forall>j < NR_IRQ_HOOKS. hk_proc_nr (irq_hooks s' (IrqHook j)) \<noteq> nr)"
proof -
  have "\<exists>s'. for_each (release_hook nr) js s = Inr s' \<and> irq_wf s' \<and> irq_frame s s' \<and>
      (\<forall>j. hk_proc_nr (irq_hooks s' (IrqHook j)) = nr \<longrightarrow> j \<notin> set js \<and> hk_proc_nr (irq_hooks s (IrqHook j)) = nr)"
    if "set js \<subseteq> {..<NR_IRQ_HOOKS}" for js
    using that assms(1)
  proof (induction js arbitrary: s)
    case (Cons i js)
    then have i: "i < NR_IRQ_HOOKS" by simp
    from release_hook_ok [OF Cons.prems(2) i assms(2)] obtain s1 where
      s1: "release_hook nr i s = Inr s1" "irq_wf s1" "irq_frame s s1" and
      o: "\<And>j. hk_proc_nr (irq_hooks s1 (IrqHook j)) =
       (if j = i \<and> hk_proc_nr (irq_hooks s (IrqHook i)) = nr then NONE else hk_proc_nr (irq_hooks s (IrqHook j)))" by blast
    from Cons.IH [OF _ s1(2)] Cons.prems(1) obtain s2 where
      s2: "for_each (release_hook nr) js s1 = Inr s2" "irq_wf s2" "irq_frame s1 s2"
      "\<And>j. hk_proc_nr (irq_hooks s2 (IrqHook j)) = nr \<Longrightarrow> j \<notin> set js \<and> hk_proc_nr (irq_hooks s1 (IrqHook j)) = nr" by auto
    have "j \<notin> set (i # js) \<and> hk_proc_nr (irq_hooks s (IrqHook j)) = nr" if "hk_proc_nr (irq_hooks s2 (IrqHook j)) = nr" for j
      using s2(4) [OF that] o [of j] assms(2) by (auto split: if_splits)
    with s1 s2 show ?case by auto
  qed simp
  note all = this
  have "set [0..<NR_IRQ_HOOKS] \<subseteq> {..<NR_IRQ_HOOKS}" by auto
  from all [OF this] obtain s' where "for_each (release_hook nr) [0..<NR_IRQ_HOOKS] s = Inr s'" "irq_wf s'" "irq_frame s s'"
    "\<forall>j. hk_proc_nr (irq_hooks s' (IrqHook j)) = nr \<longrightarrow> j \<notin> set [0..<NR_IRQ_HOOKS]" by blast
  then show ?thesis by (intro exI [of _ s']) auto
qed

text \<open>
  Which hooks a process owns, and the condition under which \<open>rm_irq_handler\<close>, which looks for the
  identification bit only, takes out the right hook: on every line the bits are unique, and the
  hooks that the process owns are on their chains.
\<close>

definition owned_by :: "int \<Rightarrow> kstate \<Rightarrow> hook_id \<Rightarrow> bool" where
  "owned_by nr s h \<longleftrightarrow> (\<exists>j < NR_IRQ_HOOKS. h = IrqHook j \<and> hk_proc_nr (irq_hooks s h) = nr)"

definition irq_exact :: "int \<Rightarrow> kstate \<Rightarrow> (int \<Rightarrow> hook_id list) \<Rightarrow> bool" where
  "irq_exact nr s H \<longleftrightarrow> irq_rep s H \<and>
     (\<forall>irq. 0 \<le> irq \<and> irq < NR_IRQ_VECTORS \<longrightarrow> distinct (map (\<lambda>h. hk_id (irq_hooks s h)) (H irq))) \<and>
     (\<forall>h. owned_by nr s h \<longrightarrow> 0 \<le> hk_irq (irq_hooks s h) \<and> hk_irq (irq_hooks s h) < NR_IRQ_VECTORS \<and>
        h \<in> set (H (hk_irq (irq_hooks s h))))"

lemma irq_rep_eq: "irq_rep s H \<Longrightarrow> (\<And>q. 0 \<le> q \<Longrightarrow> q < NR_IRQ_VECTORS \<Longrightarrow> H' q = H q) \<Longrightarrow> irq_rep s H'"
  by (simp add: irq_rep_def)

lemma release_hook_exact:
  assumes ex: "irq_exact nr s H" and i: "i < NR_IRQ_HOOKS" and nr: "nr \<noteq> NONE"
    and run: "release_hook nr i s = Inr s'"
  defines "H' \<equiv> \<lambda>q. filter (\<lambda>h. \<not> (h = IrqHook i \<and> owned_by nr s h)) (H q)"
  shows "irq_exact nr s' H' \<and> (\<forall>h. owned_by nr s' h \<longleftrightarrow> owned_by nr s h \<and> h \<noteq> IrqHook i)"
proof (cases "hk_proc_nr (irq_hooks s (IrqHook i)) = nr")
  case False
  then have "s' = s" "\<not> owned_by nr s (IrqHook i)" using run by (auto simp: release_hook_def owned_by_def)
  moreover from this(2) have "H' = H" by (auto simp: H'_def intro!: ext filter_True)
  ultimately show ?thesis using ex by auto
next
  case True
  let ?h = "IrqHook i"
  let ?q = "hk_irq (irq_hooks s ?h)"
  have own: "owned_by nr s ?h" using True i by (simp add: owned_by_def)
  have rep: "irq_rep s H" and dist: "0 \<le> q \<Longrightarrow> q < NR_IRQ_VECTORS \<Longrightarrow> distinct (map (\<lambda>h. hk_id (irq_hooks s h)) (H q))" for q
    using ex by (auto simp: irq_exact_def)
  have q: "0 \<le> ?q" "?q < NR_IRQ_VECTORS" "?h \<in> set (H ?q)" using ex own by (auto simp: irq_exact_def)
  from rm_irq_handler_total [OF rep q(1,2)] obtain s1 where
    s1: "rm_irq_handler ?h s = Inr s1"
    "irq_rep s1 (H(?q := takeWhile (\<lambda>h. \<not> hk_id (irq_hooks s h) = hk_id (irq_hooks s ?h)) (H ?q) @
        tl (dropWhile (\<lambda>h. \<not> hk_id (irq_hooks s h) = hk_id (irq_hooks s ?h)) (H ?q))))" and
    same: "\<And>h. hk_irq (irq_hooks s1 h) = hk_irq (irq_hooks s h)"
    "\<And>h. hk_proc_nr (irq_hooks s1 h) = hk_proc_nr (irq_hooks s h)" "\<And>h. hk_id (irq_hooks s1 h) = hk_id (irq_hooks s h)"
    by blast
  have s': "s' = s1\<lparr>irq_hooks := (irq_hooks s1)(?h := (irq_hooks s1 ?h)\<lparr>hk_proc_nr := NONE\<rparr>)\<rparr>"
    using run True s1(1) by (simp add: release_hook_def)
  have fields: "hk_irq (irq_hooks s' h) = hk_irq (irq_hooks s h)" "hk_id (irq_hooks s' h) = hk_id (irq_hooks s h)"
    "hk_proc_nr (irq_hooks s' h) = (if h = ?h then NONE else hk_proc_nr (irq_hooks s h))" for h
    by (simp_all add: s' same)
  have H': "H' k = filter (\<lambda>h. h \<noteq> ?h) (H k)" for k using own by (auto simp: H'_def intro!: filter_cong)
  have "irq_rep s1 H'"
  proof (rule irq_rep_eq [OF s1(2)])
    fix k
    assume k: "0 \<le> k" "k < NR_IRQ_VECTORS"
    have "?h \<notin> set (H k)" if "k \<noteq> ?q" using rep k that by (auto simp: irq_rep_def)
    then have "k \<noteq> ?q \<Longrightarrow> filter (\<lambda>h. h \<noteq> ?h) (H k) = H k" by (intro filter_True) auto
    then show "H' k = (H(?q := takeWhile (\<lambda>h. \<not> hk_id (irq_hooks s h) = hk_id (irq_hooks s ?h)) (H ?q) @
        tl (dropWhile (\<lambda>h. \<not> hk_id (irq_hooks s h) = hk_id (irq_hooks s ?h)) (H ?q)))) k"
      using unlink_only_self [OF dist [OF q(1,2)] q(3)] by (cases "k = ?q") (simp_all add: H')
  qed
  then have "irq_rep s' H'" unfolding s' by (rule irq_rep_owner)
  moreover have o: "owned_by nr s' h \<longleftrightarrow> owned_by nr s h \<and> h \<noteq> ?h" for h
    using nr by (auto simp: owned_by_def fields)
  moreover have "distinct (map (\<lambda>h. hk_id (irq_hooks s' h)) (H' k))" if "0 \<le> k" "k < NR_IRQ_VECTORS" for k
    using dist [OF that] by (simp add: fields H' distinct_map_filter)
  moreover have "h \<in> set (H' (hk_irq (irq_hooks s' h)))" "0 \<le> hk_irq (irq_hooks s' h)"
    "hk_irq (irq_hooks s' h) < NR_IRQ_VECTORS" if "owned_by nr s' h" for h
    using ex that unfolding o by (auto simp: irq_exact_def H' fields)
  ultimately show ?thesis by (simp add: irq_exact_def)
qed

lemma release_hooks_exact:
  assumes "irq_exact nr s H" and "nr \<noteq> NONE" and "set js \<subseteq> {..<NR_IRQ_HOOKS}"
    and "for_each (release_hook nr) js s = Inr s'"
  shows "irq_rep s' (\<lambda>q. filter (\<lambda>h. \<not> (owned_by nr s h \<and> h \<in> IrqHook ` set js)) (H q))"
  using assms(1,3,4)
proof (induction js arbitrary: s H)
  case Nil
  then show ?case by (simp add: irq_exact_def)
next
  case (Cons i js)
  from Cons.prems obtain s1 where s1: "release_hook nr i s = Inr s1" "for_each (release_hook nr) js s1 = Inr s'"
    by (auto simp: bindr_Inr_iff)
  have "i < NR_IRQ_HOOKS" using Cons.prems(2) by simp
  note r = release_hook_exact [OF Cons.prems(1) this assms(2) s1(1)]
  have "(\<lambda>q. filter (\<lambda>h. \<not> (owned_by nr s1 h \<and> h \<in> IrqHook ` set js))
      (filter (\<lambda>h. \<not> (h = IrqHook i \<and> owned_by nr s h)) (H q))) =
    (\<lambda>q. filter (\<lambda>h. \<not> (owned_by nr s h \<and> h \<in> IrqHook ` set (i # js))) (H q))"
    using r by (auto intro!: ext filter_cong)
  with Cons.IH [OF conjunct1 [OF r] _ s1(2)] Cons.prems(2) show ?case by simp
qed

lemma cq_put_set_flags: "set_flags x f (cq_put d l p s) = cq_put d l p (set_flags x f s)"
  by (cases l) (auto intro!: arg_cong [where f = "\<lambda>t. s\<lparr>proc_tab := t\<rparr>"])

text \<open>Taking a process off the ready queue or off the queue of its destination.\<close>

lemma detach_ok:
  assumes wf: "kwf s" and rc: "rc \<in> procs" "0 \<le> rc" "alive s rc"
  shows "\<exists>s'. bindr (if flags_of s rc = 0 then lock_dequeue rc s else Inr s)
      (\<lambda>s2. if flags_of s2 rc AND SENDING \<noteq> 0 then for_each (unqueue_from rc) [- 4..63] s2 else Inr s2) = Inr s' \<and>
    kwf (set_flags rc SLOT_FREE s') \<and> keeps s s' \<and> flags_of s' = flags_of s \<and> priv_tab s' = priv_tab s \<and>
    (\<forall>x. p_nr (proc_tab s' x) = p_nr (proc_tab s x))"
proof -
  consider (ready) "flags_of s rc = 0" | (sends) "sending s rc" | (waits) "flags_of s rc \<noteq> 0" "\<not> sending s rc" by blast
  then show ?thesis
  proof cases
    case ready
    from rts_set_kwf [OF wf rc(1,3), of P_STOP] obtain s1 where
      s1: "rts_set P_STOP rc s = Inr s1" "kwf s1" by auto
    then obtain s2 where s2: "dequeue rc s = Inr s2" "s1 = set_flags rc (flags_of s2 rc OR P_STOP) s2"
      using ready by (auto simp: rts_set_def bindr_Inr_iff lock_dequeue_def)
    have "can_sched s rc" using kwf_procD(2) [OF wf rc(1,3)] rc(2) by simp
    moreover have "ready_set s {x \<in> procs. flags_of s x = 0}" using wf by (simp add: kwf_def sched_wf_def)
    ultimately have fr: "sched_frame s s2" using dequeue_ready s2(1) by fastforce
    have fl: "flags_of s2 = flags_of s" using sched_frame_proc(6) [OF fr] by auto
    then have f: "flags_of s2 rc = 0" using ready by (metis)
    have "kwf (set_proc rc ((proc_tab s1 rc)\<lparr>p_rts_flags := SLOT_FREE\<rparr>) s1)"
      by (rule kwf_replace [OF s1(2) rc(1,2)]) (use kwf_procD(1) [OF s1(2) rc(1)] s2(2) f in simp_all)
    then have "kwf (set_flags rc SLOT_FREE s2)" by (simp add: s2(2))
    then show ?thesis
      using s2(1) f fl ready keeps_frame [OF fr] sched_frameD(1) [OF fr] sched_frame_proc(4) [OF fr] by (simp add: lock_dequeue_def)
  next
    case sends
    then have fl: "flags_of s rc \<noteq> 0" by auto
    from wf have iwf: "ipc_wf s" and sw: "sched_wf s" by (simp_all add: kwf_def)
    then obtain C where C: "callers_rep s C" by (auto simp: ipc_wf_def)
    let ?d = "sendto s rc"
    have d: "?d \<in> procs" using kwf_procD(5) [OF wf rc(1) sends] .
    then have "rc \<in> set (C ?d)" using C rc(1) sends by (auto simp: callers_rep_def)
    then obtain us vs where x: "C ?d = us @ rc # vs" by (meson split_list)
    let ?s = "cq_put ?d (loc_after us) (qlink s rc) s"
    have "ipc_wf (cq_put ?d (loc_after us) (qlink (set_flags rc SLOT_FREE s) rc) (set_flags rc SLOT_FREE s))"
      using unqueue_sender [OF iwf C d x, of "set_flags rc SLOT_FREE s" SLOT_FREE] by simp
    moreover have "sched_wf (set_flags rc SLOT_FREE s)" using sw rc(3) fl by (rule sched_wf_blocked) (use rc(2) in simp_all)
    then have "sched_wf (cq_put ?d (loc_after us) (qlink s rc) (set_flags rc SLOT_FREE s))" by (rule sched_wf_cq_put)
    ultimately have "kwf (set_flags rc SLOT_FREE ?s)" by (simp add: kwf_def cq_put_set_flags)
    moreover have "keeps s ?s" unfolding keeps_def by (simp add: cq_put_priv)
    moreover have "priv_tab ?s = priv_tab s" by (cases "loc_after us") simp_all
    ultimately show ?thesis using unqueue_everywhere [OF C d x] sends fl by (auto simp: cq_put_priv)
  next
    case waits
    have "kwf (set_flags rc SLOT_FREE s)"
      by (rule kwf_replace [OF wf rc(1,2) waits]) (use kwf_procD(1) [OF wf rc(1)] in simp_all)
    then show ?thesis using waits by auto
  qed
qed

lemma clear_proc_ok:
  assumes wf: "kwf s" and irq: "irq_wf s" and tq: "tq_rep (clock_timers s) xs"
    and rc: "rc \<in> procs" "0 \<le> rc" "alive s rc" and pi: "p_priv (proc_tab s rc) = Some pi"
  shows "\<exists>s'. clear_proc rc s = Inr s' \<and> kwf s' \<and> irq_wf s' \<and> tq_rep (clock_timers s') (remove1 (AlarmTmr pi) xs) \<and>
    flags_of s' = (flags_of s)(rc := SLOT_FREE) \<and> (\<forall>j < NR_IRQ_HOOKS. hk_proc_nr (irq_hooks s' (IrqHook j)) \<noteq> rc) \<and>
    (\<forall>H. irq_exact rc s H \<longrightarrow> irq_rep s' (\<lambda>q. filter (\<lambda>h. \<not> owned_by rc s h) (H q)))"
proof -
  from reset_timer_spec [OF tq_rep_but [OF tq]] obtain q where
    q: "reset_timer (AlarmTmr pi) s = Inr (s\<lparr>clock_timers := q, next_timeout := first_timeout q\<rparr>)"
    "tq_rep q (remove1 (AlarmTmr pi) xs)" by blast
  let ?s1 = "s\<lparr>clock_timers := q, next_timeout := first_timeout q\<rparr>"
  have wf1: "kwf ?s1" using wf by (rule kwf_cong) auto
  from detach_ok [OF wf1 rc(1,2)] rc(3) obtain s3 where
    s3: "bindr (if flags_of ?s1 rc = 0 then lock_dequeue rc ?s1 else Inr ?s1)
      (\<lambda>s2. if flags_of s2 rc AND SENDING \<noteq> 0 then for_each (unqueue_from rc) [- 4..63] s2 else Inr s2) = Inr s3"
    "kwf (set_flags rc SLOT_FREE s3)" "keeps ?s1 s3" "flags_of s3 = flags_of s" "priv_tab s3 = priv_tab s"
    "\<And>x. p_nr (proc_tab s3 x) = p_nr (proc_tab s x)" by auto
  have dev: "clock_timers s3 = q" "irq_hooks s3 = irq_hooks s" "irq_handlers s3 = irq_handlers s"
    "p_priv (proc_tab s3 rc) = Some pi" using s3(3) pi by (simp_all add: keeps_def devices_def)
  have nr: "p_nr (proc_tab s3 rc) = rc" using s3(6) kwf_procD(1) [OF wf rc(1)] by simp
  have "hooks_rep s3 k hs = hooks_rep s k hs" for k hs by (simp add: hooks_rep_def dev)
  then have "irq_wf s3" using irq by (simp add: irq_wf_def irq_rep_def dev)
  moreover have nn: "rc \<noteq> NONE" using rc(1) by (auto simp: procs_def isokprocn_bounds)
  ultimately obtain s4 where
    s4: "for_each (release_hook rc) [0..<NR_IRQ_HOOKS] s3 = Inr s4" "irq_wf s4" "irq_frame s3 s4"
    "\<forall>j < NR_IRQ_HOOKS. hk_proc_nr (irq_hooks s4 (IrqHook j)) \<noteq> rc" using release_hooks_ok by blast
  have chains: "irq_rep s4 (\<lambda>q. filter (\<lambda>h. \<not> owned_by rc s h) (H q))" if "irq_exact rc s H" for H
  proof -
    have "owned_by rc s3 = owned_by rc s" by (intro ext) (simp add: owned_by_def dev)
    moreover have "irq_exact rc s3 H"
      using that by (simp add: irq_exact_def irq_rep_def hooks_rep_def owned_by_def dev)
    from release_hooks_exact [OF this nn _ s4(1)]
    have "irq_rep s4 (\<lambda>q. filter (\<lambda>h. \<not> (owned_by rc s3 h \<and> h \<in> IrqHook ` set [0..<NR_IRQ_HOOKS])) (H q))"
      by (simp add: subset_eq del: upt_rec_numeral)
    moreover have "owned_by rc s3 h \<Longrightarrow> h \<in> IrqHook ` set [0..<NR_IRQ_HOOKS]" for h
      by (auto simp: owned_by_def simp del: upt_rec_numeral)
    then have "owned_by rc s3 h \<and> h \<in> IrqHook ` set [0..<NR_IRQ_HOOKS] \<longleftrightarrow> owned_by rc s3 h" for h by blast
    ultimately show ?thesis by (simp only:)
  qed
  note fr = irq_frameD [OF s4(3)]
  let ?s5 = "set_flags rc SLOT_FREE s4"
  let ?s6 = "if s_flags (priv_tab s pi) AND SYS_PROC \<noteq> 0
     then set_priv pi ((priv_tab ?s5 pi)\<lparr>s_proc_nr := NONE\<rparr>) ?s5 else ?s5"
  have wf5: "kwf ?s5" using s3(2) by (rule kwf_cong) (simp_all add: fr)
  then have "kwf ?s6" by (cases "s_flags (priv_tab s pi) AND SYS_PROC \<noteq> 0") (auto elim!: kwf_cong split: if_splits)
  moreover have "clear_proc rc s = Inr ?s6"
    using s3(1,5) s4(1) q(1) pi dev(4) nr fr(1,2)
    unfolding clear_proc_def by (simp add: priv_of_def bindr_assoc [symmetric] Let_def)
  moreover have "irq_wf ?s6" using s4(2) by (simp add: irq_wf_def irq_rep_def hooks_rep_def)
  moreover have "flags_of ?s6 = (flags_of s)(rc := SLOT_FREE)"
    using fun_cong [OF s3(4)] by (auto simp: fr)
  moreover have "tq_rep (clock_timers ?s6) (remove1 (AlarmTmr pi) xs)" using q(2) dev(1) fr(6) by simp
  moreover have "irq_rep ?s6 H' = irq_rep s4 H'" for H' by (simp add: irq_rep_def hooks_rep_def)
  ultimately show ?thesis using s4(4) chains by (intro exI [of _ ?s6]) simp
qed

text \<open>
  C19: \<open>exit\<close>. When the process manager reports that a living process ended, the call succeeds
  and the invariant holds again: the slot is free, hence on no ready queue and on no caller
  queue, its alarm is off and no interrupt hook belongs to it; the other slots keep their flags.
  The chains of interrupt handlers keep exactly the hooks that did not belong to the process,
  provided that the identification bits on each chain are unique and the hooks of the process
  were on their chains (\<open>rm_irq_handler\<close> compares nothing but these bits).
\<close>

theorem do_exit_ok:
  assumes "kwf s" and "irq_wf s" and "tq_rep (clock_timers s) xs" and "m_source m = PM_PROC_NR"
    and "int_field m 0 = rc" and "rc \<in> procs" and "0 \<le> rc" and "alive s rc"
    and "p_priv (proc_tab s rc) = Some pi"
  shows "\<exists>s'. do_exit m s = Inr (OK, m, s') \<and> kwf s' \<and> irq_wf s' \<and> isemptyp s' rc \<and>
    (\<forall>y. y \<noteq> rc \<longrightarrow> flags_of s' y = flags_of s y) \<and> tq_rep (clock_timers s') (remove1 (AlarmTmr pi) xs) \<and>
    (\<forall>j < NR_IRQ_HOOKS. hk_proc_nr (irq_hooks s' (IrqHook j)) \<noteq> rc) \<and>
    (\<forall>H. irq_exact rc s H \<longrightarrow> irq_rep s' (\<lambda>irq. filter (\<lambda>h. \<not> owned_by rc s h) (H irq)))"
proof -
  from clear_proc_ok [OF assms(1-3,6-9)] obtain s' where
    s': "clear_proc rc s = Inr s'" "kwf s'" "irq_wf s'" "tq_rep (clock_timers s') (remove1 (AlarmTmr pi) xs)"
    "flags_of s' = (flags_of s)(rc := SLOT_FREE)" "\<forall>j < NR_IRQ_HOOKS. hk_proc_nr (irq_hooks s' (IrqHook j)) \<noteq> rc"
    "\<forall>H. irq_exact rc s H \<longrightarrow> irq_rep s' (\<lambda>irq. filter (\<lambda>h. \<not> owned_by rc s h) (H irq))" by blast
  have "isokprocn rc" "rc \<noteq> SELF" using assms(6) by (auto simp: procs_def isokprocn_bounds)
  then have "do_exit m s = Inr (OK, m, s')" using assms(4,5) s'(1) by (simp add: do_exit_def)
  moreover have "flags_of s' y = (if y = rc then SLOT_FREE else flags_of s y)" for y
    using fun_cong [OF s'(5), of y] by simp
  ultimately show ?thesis using s' by (simp add: isemptyp_def)
qed

definition sample_exit :: message where
  "sample_exit = \<lparr>m_source = PM_PROC_NR, m_type = 1538, m_w = (\<lambda>_. 0)(0 := 1)\<rparr>"

lemma irq_wf_sample: "irq_wf sample"
  unfolding irq_wf_def irq_rep_def using hooks_rep_sample by (auto simp: sample_def intro: exI [of _ "\<lambda>_. []"])

text \<open>Process 1 has put a handler on line 5 before it ends.\<close>

definition sample_hooked :: kstate where
  "sample_hooked = sample\<lparr>irq_handlers := (irq_handlers sample)(5 := Some (IrqHook 0)),
     irq_hooks := (irq_hooks sample)(IrqHook 0 := (irq_hooks sample (IrqHook 0))
       \<lparr>hk_next := None, hk_irq := 5, hk_id := 1, hk_proc_nr := 1\<rparr>)\<rparr>"

lemma sample_hooked_ok:
  "kwf sample_hooked" "irq_exact 1 sample_hooked ((\<lambda>_. [])(5 := [IrqHook 0]))" "irq_wf sample_hooked"
proof -
  show "kwf sample_hooked" using kwf_sample unfolding sample_hooked_def by (rule kwf_cong) auto
  have own: "owned_by 1 sample_hooked h \<longleftrightarrow> h = IrqHook 0" for h
    by (auto simp: owned_by_def sample_hooked_def sample_def split: if_splits)
  have rep: "irq_rep sample_hooked ((\<lambda>_. [])(5 := [IrqHook 0]))"
    by (simp add: irq_rep_def hooks_rep_def) (simp add: sample_hooked_def sample_def)
  then show "irq_exact 1 sample_hooked ((\<lambda>_. [])(5 := [IrqHook 0]))"
    by (simp add: irq_exact_def own) (simp add: sample_hooked_def)
  show "irq_wf sample_hooked" unfolding irq_wf_def
    using rep by (auto simp: sample_hooked_def sample_def)
qed

theorem do_exit_ok_witness:
  "\<exists>s'. do_exit sample_exit sample_hooked = Inr (OK, sample_exit, s') \<and> kwf s' \<and> isemptyp s' 1 \<and> irq_rep s' (\<lambda>_. [])"
proof -
  have "tq_rep (clock_timers sample_hooked) []" by (simp add: sample_hooked_def sample_def tq_rep_def)
  moreover have "int_field sample_exit 0 = 1" "m_source sample_exit = PM_PROC_NR" "1 \<in> procs"
    by (simp_all add: int_field_def sample_exit_def procs_def isokprocn_bounds)
  moreover have "alive sample_hooked 1" "p_priv (proc_tab sample_hooked 1) = Some 6"
    by (simp_all add: sample_hooked_def sample_def sample_proc_def)
  ultimately obtain s' where s': "do_exit sample_exit sample_hooked = Inr (OK, sample_exit, s')" "kwf s'" "isemptyp s' 1"
    "irq_rep s' (\<lambda>irq. filter (\<lambda>h. \<not> owned_by 1 sample_hooked h) (((\<lambda>_. [])(5 := [IrqHook 0])) irq))"
    using do_exit_ok [OF sample_hooked_ok(1,3), of "[]" sample_exit 1 6] sample_hooked_ok(2) by auto
  moreover have "(\<lambda>irq::int. filter (\<lambda>h. \<not> owned_by 1 sample_hooked h) (((\<lambda>_. [])(5 := [IrqHook 0])) irq)) = (\<lambda>_. [])"
    by (auto simp: owned_by_def sample_hooked_def)
  ultimately show ?thesis by auto
qed

section \<open>Changing the priority\<close>

lemma nice_queue_bounds:
  "0 \<le> nice_queue pri" "nice_queue pri \<le> 14"
  by (simp_all add: nice_queue_def Let_def)

lemma nice_queue_mono:
  assumes "PRIO_MIN \<le> p" "p \<le> q"
  shows "nice_queue p \<le> nice_queue q"
proof -
  have "(p + 20) * 15 div 41 \<le> (q + 20) * 15 div 41" using assms by (intro zdiv_mono1) auto
  then show ?thesis using assms by (simp add: nice_queue_def Let_def cwrap)
qed

text \<open>
  \<open>nice\<close> for a living user process: the call keeps the invariant and no process becomes
  ready or blocked by it; the process gets the user queue that its nice value stands for as its
  base priority, and a smaller nice value never stands for a worse queue.
\<close>

theorem do_nice_ok:
  assumes "kwf s" and "int_field m 0 = rp" and "rp \<in> procs" and "0 \<le> rp" and "alive s rp"
    and "int_field m 1 = pri" and "PRIO_MIN \<le> pri" and "pri \<le> PRIO_MAX"
  shows "\<exists>s'. do_nice m s = Inr (OK, m, s') \<and> kwf s' \<and> flags_of s' = flags_of s \<and>
    p_max_priority (proc_tab s' rp) = nice_queue pri \<and>
    0 \<le> nice_queue pri \<and> nice_queue pri \<le> MIN_USER_Q \<and>
    (\<forall>p. PRIO_MIN \<le> p \<and> p \<le> pri \<longrightarrow> nice_queue p \<le> nice_queue pri)"
proof -
  let ?q = "nice_queue pri"
  let ?R = "{x \<in> procs. flags_of s x = 0}"
  from assms(1) have sw: "sched_wf s" and iw: "ipc_wf s" by (simp_all add: kwf_def)
  have can: "can_sched s rp" using kwf_procD(2) [OF assms(1,3,5)] assms(4) by simp
  have "ready_set s ?R" using sw by (simp add: sched_wf_def)
  from dequeue_ready [OF this can] obtain s1 where
    s1: "dequeue rp s = Inr s1" "ready_set s1 (?R - {rp})" "sched_frame s s1" "\<And>y. can_sched s y \<Longrightarrow> can_sched s1 y" by blast
  note fr1 = sched_frame_proc [OF s1(3)]
  let ?s2 = "set_proc rp ((proc_tab s1 rp)\<lparr>p_priority := ?q, p_max_priority := ?q\<rparr>) s1"
  have r2: "ready_set ?s2 (?R - {rp})" using s1(2) by (rule ready_set_cong) auto
  have can2: "can_sched ?s2 y" if "can_sched s y" for y
    using s1(4) [OF that] nice_queue_bounds [of pri]
    by (auto simp: can_sched_def prio_ok_def guard_intact_def)
  have iw2: "ipc_wf ?s2" using iw by (rule ipc_wf_cong) (auto simp: ipc_view_def fr1)
  have fl2: "flags_of ?s2 y = flags_of s y" "p_nr (proc_tab ?s2 y) = p_nr (proc_tab s y)"
    "p_priv (proc_tab ?s2 y) = p_priv (proc_tab s y)" for y by (simp_all add: fr1)
  have "\<exists>s3. (if flags_of ?s2 rp = 0 then lock_enqueue rp ?s2 else Inr ?s2) = Inr s3 \<and> ready_set s3 ?R \<and>
      sched_frame ?s2 s3 \<and> (\<forall>y. can_sched ?s2 y \<longrightarrow> can_sched s3 y)"
  proof (cases "flags_of s rp = 0")
    case True
    have "insert rp (?R - {rp}) = ?R" using True assms(3) by auto
    then show ?thesis using enqueue_ready [OF r2 _ can2 [OF can]] True fl2(1) [of rp] by (auto simp: lock_enqueue_def)
  next
    case False
    then have "?R - {rp} = ?R" by auto
    then show ?thesis using False fl2(1) [of rp] r2 by simp
  qed
  then obtain s3 where s3: "(if flags_of ?s2 rp = 0 then lock_enqueue rp ?s2 else Inr ?s2) = Inr s3" "ready_set s3 ?R"
    "sched_frame ?s2 s3" "\<And>y. can_sched ?s2 y \<Longrightarrow> can_sched s3 y" by blast
  note fr3 = sched_frame_proc [OF s3(3)]
  have fl: "flags_of s3 y = flags_of s y" for y using fl2(1) [of y] fr3(6) [of y] by simp
  have "slot_ok s3 y" if "y \<in> procs" for y
    using sw that s3(4) can2 fr3(4,5) [of y] fl2 [of y] by (simp add: sched_wf_def slot_ok_def fl)
  then have "sched_wf s3" using sw s3(2) by (simp add: sched_wf_def fl)
  then have "kwf s3" using ipc_wf_frame [OF s3(3) iw2] by (simp add: kwf_def)
  moreover have "isokprocn rp" "\<not> iskerneln rp" using assms(3,4) by (simp_all add: procs_def iskerneln_def)
  then have "do_nice m s = Inr (OK, m, s3)"
    using assms(2,6,7,8) s1(1) s3(1) by (auto simp: do_nice_def lock_dequeue_def Let_def not_less split: if_splits)
  moreover have "p_max_priority (proc_tab s3 rp) = ?q" using fr3(7) [of rp] by simp
  ultimately show ?thesis using fl nice_queue_bounds nice_queue_mono by (intro exI [of _ s3]) auto
qed

definition sample_nice :: message where
  "sample_nice = \<lparr>m_source = PM_PROC_NR, m_type = 1539, m_w = (\<lambda>_. 0)(0 := 1, 1 := 20)\<rparr>"

theorem do_nice_ok_witness:
  "\<exists>s'. do_nice sample_nice sample = Inr (OK, sample_nice, s') \<and> kwf s' \<and> p_max_priority (proc_tab s' 1) = 14"
proof -
  have "int_field sample_nice 0 = 1" "int_field sample_nice 1 = 20" "1 \<in> procs" "alive sample 1"
    by (simp_all add: int_field_def sample_nice_def procs_def isokprocn_bounds sample_def sample_proc_def)
  moreover have "nice_queue 20 = 14" by (simp add: nice_queue_def Let_def cwrap)
  ultimately show ?thesis using do_nice_ok [OF kwf_sample, of sample_nice 1 20] by auto
qed

end
