(* ===== verification/Kernel_Signals.thy ===== *)
theory Kernel_Signals
  imports Proc_Life Sys_Dev
begin

unbundle bit_operations_syntax

text \<open>
  Signals that the kernel raises, from \<open>cause_sig\<close> over \<open>do_getksig\<close> to \<open>do_endksig\<close>, and the
  stack frames with which \<open>do_sigsend\<close> and \<open>do_sigreturn\<close> call a handler and come back from it.
\<close>

section \<open>From the fault to the process manager and back\<close>

text \<open>A notification changes no flag but \<open>RECEIVING\<close>, and no pending signal of a process.\<close>

lemma mini_notify_frame:
  assumes wf: "kwf s" and d: "has_priv s dst" and c: "has_priv s caller"
    and run: "mini_notify caller dst s = Inr (r, s')" and k: "RECEIVING AND k = 0"
  shows "flags_of s' x AND k = flags_of s x AND k" "p_pending (proc_tab s' x) = p_pending (proc_tab s x)"
    "x \<noteq> dst \<Longrightarrow> flags_of s' x = flags_of s x"
proof -
  from d c obtain dp cp where p: "p_priv (proc_tab s dst) = Some dp" "p_priv (proc_tab s caller) = Some cp"
    "dst \<in> procs" "caller \<in> procs" by (auto simp: has_priv_def)
  have nr: "p_nr (proc_tab s caller) = caller" using wf p(4) by (rule kwf_procD)
  have "proc_addr dst = Inr dst" using p(3) by (simp add: procs_def)
  note unf = mini_notify_def this priv_of_def p(1,2) nr
  have "(flags_of s' x = flags_of s x \<or> x = dst \<and> flags_of s' x = flags_of s x AND NOT RECEIVING) \<and>
      p_pending (proc_tab s' x) = p_pending (proc_tab s x)"
  proof (cases "waits_for s dst caller \<and> s_flags (priv_tab s dp) AND SENDREC_BUSY = 0")
    case True
    obtain m s1 where b: "BuildMess (stk_mess s) caller dp s = (m, s1)" by fastforce
    let ?s2 = "CopyKMess caller m dst (p_messbuf (proc_tab s1 dst)) s1"
    have wf1: "kwf ?s2" using BuildMess_kwf [OF wf b] by simp
    have pt: "proc_tab ?s2 = proc_tab s" using b by simp
    have r: "receiving ?s2 dst" using waits_for_flags(1) True pt by auto
    from rts_unset_kwf [OF wf1 p(3) kwf_procD(3) [OF wf1 p(3) r] r] obtain s3 where
      s3: "rts_unset RECEIVING dst ?s2 = Inr s3"
      "sched_frame (set_flags dst (flags_of ?s2 dst AND NOT RECEIVING) ?s2) s3" by auto
    have "s' = s3" using run True b s3(1) by (simp add: unf Let_def)
    then show ?thesis
      using sched_frame_proc(6,17) [OF s3(2), of x] by (cases "x = dst") (simp_all only: pt, simp_all add: pt)
  next
    case False
    then have "proc_tab s' = proc_tab s" using run by (auto simp: unf Let_def)
    then show ?thesis by simp
  qed
  then show "flags_of s' x AND k = flags_of s x AND k" "p_pending (proc_tab s' x) = p_pending (proc_tab s x)"
    "x \<noteq> dst \<Longrightarrow> flags_of s' x = flags_of s x"
    using flag_clear_other [OF k, of "flags_of s x"] by auto
qed

lemma send_sig_frame:
  assumes wf: "kwf s" and n: "has_priv s n" and sys: "has_priv s SYSTEM" and run: "send_sig n sg s = Inr s'"
  shows "RECEIVING AND k = 0 \<Longrightarrow> flags_of s' x AND k = flags_of s x AND k"
    "p_pending (proc_tab s' x) = p_pending (proc_tab s x)" "x \<noteq> n \<Longrightarrow> flags_of s' x = flags_of s x"
proof -
  from n obtain i where i: "p_priv (proc_tab s n) = Some i" "isokprocn n" by (auto simp: has_priv_def procs_def)
  let ?s1 = "set_priv i ((priv_tab s i)\<lparr>s_sig_pending := snd (sigaddset (s_sig_pending (priv_tab s i)) sg)\<rparr>) s"
  have wf1: "kwf ?s1" using wf by (rule kwf_cong) auto
  have hp: "has_priv ?s1 n" "has_priv ?s1 SYSTEM" using n sys by (simp_all add: has_priv_def)
  from run i obtain r where "mini_notify SYSTEM n ?s1 = Inr (r, s')"
    by (auto simp: send_sig_def priv_of_def lock_notify_def bindr_Inr_iff)
  note f = mini_notify_frame [OF wf1 hp this]
  show "RECEIVING AND k = 0 \<Longrightarrow> flags_of s' x AND k = flags_of s x AND k" using f(1) [of k x] by simp
  show "p_pending (proc_tab s' x) = p_pending (proc_tab s x)" "x \<noteq> n \<Longrightarrow> flags_of s' x = flags_of s x"
    using f(2,3) [of 0 x] by simp_all
qed

lemma cause_sig_ok:
  assumes wf: "kwf s" and pm: "has_priv s PM_PROC_NR" and sys: "has_priv s SYSTEM"
    and rp: "rp \<in> procs" "alive s rp" "rp \<noteq> PM_PROC_NR" and sg: "sigisvalid sg"
    and new: "p_pending (proc_tab s rp) = 0" "flags_of s rp AND SIGNALED = 0"
  shows "\<exists>s'. cause_sig rp sg s = Inr s' \<and> kwf s' \<and> keeps s s' \<and> p_pending (proc_tab s' rp) = push_bit (nat sg) 1 \<and>
    flags_of s' rp = flags_of s rp OR (SIGNALED OR SIG_PENDING) \<and>
    (\<forall>x. x \<noteq> rp \<longrightarrow> flags_of s' x AND SIGNALED = flags_of s x AND SIGNALED)"
proof -
  let ?pend = "push_bit (nat sg) 1 :: u32"
  let ?s1 = "set_proc rp ((proc_tab s rp)\<lparr>p_pending := ?pend\<rparr>) s"
  have wf1: "kwf ?s1" using wf by (rule kwf_cong) (auto simp: sched_view_def ipc_view_def)
  have k1: "keeps s ?s1" by (simp add: keeps_def)
  have "alive ?s1 rp" "(SIGNALED OR SIG_PENDING) AND SENDING = (0::u8)" "(SIGNALED OR SIG_PENDING) AND SLOT_FREE = (0::u8)"
    using rp(2) by simp_all
  from rts_set_kwf [OF wf1 rp(1) this] obtain s2 where
    s2: "rts_set (SIGNALED OR SIG_PENDING) rp ?s1 = Inr s2" "kwf s2" "keeps ?s1 s2"
    "sched_frame (set_flags rp (flags_of ?s1 rp OR (SIGNALED OR SIG_PENDING)) ?s1) s2" by auto
  have k2: "keeps s s2" using k1 s2(3) by (rule keeps_trans)
  have hp: "has_priv s2 PM_PROC_NR" "has_priv s2 SYSTEM" using pm sys k2 by (simp_all add: has_priv_keeps)
  from send_sig_ok [OF s2(2) hp] obtain s3 where
    s3: "send_sig PM_PROC_NR SIGKSIG s2 = Inr s3" "kwf s3" "keeps s2 s3" by blast
  note fr = send_sig_frame [OF s2(2) hp s3(1)] sched_frame_proc(6,17) [OF s2(4)]
  have "sigismember 0 sg = 0" "snd (sigaddset 0 sg) = ?pend"
    using sg by (simp_all add: sigismember_def sigaddset_def)
  then have "cause_sig rp sg s = Inr s3"
    using s2(1) s3(1) rp(1) new by (simp add: cause_sig_def procs_def Let_def)
  moreover have "p_pending (proc_tab s3 rp) = ?pend" using fr(2) [of rp] fr(5) [of rp] by simp
  moreover have "flags_of s3 rp = flags_of s rp OR (SIGNALED OR SIG_PENDING)"
    using fr(3) [OF rp(3)] fr(4) [of rp] by simp
  moreover have "flags_of s3 x AND SIGNALED = flags_of s x AND SIGNALED" if "x \<noteq> rp" for x
    using fr(1) [of SIGNALED x] fr(4) [of x] that by simp
  ultimately show ?thesis using s3 keeps_trans [OF k2] by blast
qed

lemma sint_small: "0 \<le> x \<Longrightarrow> x < 64 \<Longrightarrow> sint (word_of_int x :: u32) = x"
  by (simp add: sint_sbintrunc' signed_take_bit_int_eq_self)

text \<open>The process manager gets the one process that has a signal; it stays blocked.\<close>

lemma do_getksig_ok:
  assumes wf: "kwf s" and rp: "rp \<in> procs" "0 \<le> rp" "alive s rp"
    and fl: "flags_of s rp = f OR (SIGNALED OR SIG_PENDING)" "f AND (SIGNALED OR SIG_PENDING) = 0"
    and others: "\<forall>x. 0 \<le> x \<and> x < 64 \<and> x \<noteq> rp \<longrightarrow> flags_of s x AND SIGNALED = 0"
  shows "\<exists>s' m'. do_getksig m s = Inr (OK, m', s') \<and> int_field m' 0 = rp \<and> m_w m' 3 = p_pending (proc_tab s rp) \<and>
    kwf s' \<and> keeps s s' \<and> p_pending (proc_tab s' rp) = 0 \<and> flags_of s' rp = f OR SIG_PENDING"
proof -
  have ff: "(f OR (SIGNALED OR SIG_PENDING)) AND SIGNALED = SIGNALED" "(f OR (SIGNALED OR SIG_PENDING)) AND NOT SIGNALED = f OR SIG_PENDING"
  proof -
    show "(f OR (SIGNALED OR SIG_PENDING)) AND SIGNALED = SIGNALED" by (rule flag_set_superset) simp
    show "(f OR (SIGNALED OR SIG_PENDING)) AND NOT SIGNALED = f OR SIG_PENDING"
    proof (rule bit_word_eqI)
      fix n
      assume n: "n < LENGTH(8)"
      have "bit (f AND (SIGNALED OR SIG_PENDING)) n = False" using fl(2) by simp
      then have "bit (48::u8) n \<Longrightarrow> \<not> bit f n" using n by (simp add: bit_simps)
      then show "bit ((f OR (SIGNALED OR SIG_PENDING)) AND NOT SIGNALED) n = bit (f OR SIG_PENDING) n"
        using n by (auto simp: bit_simps numeral_eq_Suc less_Suc_eq)
    qed
  qed
  have r: "rp < 64" "p_nr (proc_tab s rp) = rp" using rp(1) kwf_procD(1) [OF wf rp(1)] by (simp_all add: procs_def isokprocn_bounds)
  have find: "find (\<lambda>x. flags_of s x AND SIGNALED \<noteq> 0) [0..63] = Some rp"
    unfolding find_Some_iff
  proof (rule exI [of _ "nat rp"], intro conjI allI impI)
    show "flags_of s ([0..63] ! nat rp) AND SIGNALED \<noteq> 0" using r rp(2) fl(1) ff(1) by simp
    fix j
    assume j: "j < nat rp"
    then have "int j < 64" "int j \<noteq> rp" using r by auto
    then have "flags_of s (int j) AND SIGNALED = 0" using others by simp
    then show "\<not> flags_of s ([0..63] ! j) AND SIGNALED \<noteq> 0" using j r by simp
  qed (use r rp(2) in simp_all)
  let ?p = "(proc_tab s rp)\<lparr>p_pending := sigemptyset, p_rts_flags := flags_of s rp AND NOT SIGNALED\<rparr>"
  let ?m = "mset_w 3 (p_pending (proc_tab s rp)) (mset_w 0 (word_of_int rp) m)"
  let ?f = "f OR SIG_PENDING"
  have nz: "?f \<noteq> 0" by (rule flag_set_nonzero) simp
  have fb: "?f AND SENDING = flags_of s rp AND SENDING" "?f AND SLOT_FREE = flags_of s rp AND SLOT_FREE"
    "?f AND NO_MAP = flags_of s rp AND NO_MAP" unfolding fl(1) by simp_all
  have fz: "flags_of s rp \<noteq> 0" using fl(1) flag_set_nonzero [of "SIGNALED OR SIG_PENDING" f] by simp
  have "sched_wf (set_flags rp ?f s)"
    using wf rp(2,3) fz nz by (intro sched_wf_blocked) (simp_all add: kwf_def)
  moreover have "ipc_wf (set_flags rp ?f s)" using wf fb rp(3) by (intro ipc_wf_set_flags) (simp_all add: kwf_def)
  ultimately have "kwf (set_flags rp ?f s)" by (simp add: kwf_def)
  then have "kwf (set_proc rp ?p s)"
    by (rule kwf_cong) (use fl(1) ff(2) in \<open>auto simp: sched_view_def ipc_view_def\<close>)
  moreover have "do_getksig m s = Inr (OK, ?m, set_proc rp ?p s)" unfolding do_getksig_def find by (simp add: r(2) Let_def)
  moreover have "int_field ?m 0 = rp" using sint_small [OF rp(2) r(1)] by (simp add: int_field_def)
  moreover have "keeps s (set_proc rp ?p s)" using fb(2) fl(1) ff(2) by (simp add: keeps_def)
  ultimately show ?thesis using fl(1) ff(2) by (intro exI [of _ "set_proc rp ?p s"] exI [of _ ?m]) (simp add: sigemptyset_def)
qed

text \<open>
  C20: the life of a signal from the kernel. A process that gets a signal is stopped; the process
  manager learns of it with \<open>getksig\<close>, which hands over the set with just that signal while the
  process stays stopped; \<open>endksig\<close> then lets it go on exactly as it was, and the kernel
  invariant holds throughout.
\<close>

theorem signal_cycle:
  assumes "kwf s" and "has_priv s PM_PROC_NR" and "has_priv s SYSTEM"
    and "rp \<in> procs" and "0 < rp" and "alive s rp" and "sigisvalid sg"
    and "p_pending (proc_tab s rp) = 0" and "flags_of s rp AND (SIGNALED OR SIG_PENDING) = 0"
    and "\<forall>x. flags_of s x AND SIGNALED = 0"
  shows "\<exists>s1 s2 s3 m1. cause_sig rp sg s = Inr s1 \<and> kwf s1 \<and> flags_of s1 rp \<noteq> 0 \<and>
    do_getksig m s1 = Inr (OK, m1, s2) \<and> kwf s2 \<and> flags_of s2 rp \<noteq> 0 \<and>
    int_field m1 0 = rp \<and> m_w m1 3 = push_bit (nat sg) 1 \<and>
    do_endksig m1 s2 = Inr (OK, m1, s3) \<and> kwf s3 \<and> flags_of s3 rp = flags_of s rp \<and> p_pending (proc_tab s3 rp) = 0"
proof -
  let ?f = "flags_of s rp"
  have f: "?f AND SIGNALED = 0" using assms(10) by simp
  have "?f AND SIG_PENDING = (?f AND (SIGNALED OR SIG_PENDING)) AND SIG_PENDING" by (simp add: and.assoc)
  then have fp: "?f AND SIG_PENDING = 0" using assms(9) by simp
  from cause_sig_ok [OF assms(1-4,6) _ assms(7,8) f] assms(5) obtain s1 where
    s1: "cause_sig rp sg s = Inr s1" "kwf s1" "keeps s s1" "p_pending (proc_tab s1 rp) = push_bit (nat sg) 1"
    "flags_of s1 rp = ?f OR (SIGNALED OR SIG_PENDING)"
    "\<And>x. x \<noteq> rp \<Longrightarrow> flags_of s1 x AND SIGNALED = flags_of s x AND SIGNALED" by auto
  have a1: "alive s1 rp" using s1(3) assms(6) by (simp add: keeps_def)
  have rp0: "0 \<le> rp" using assms(5) by simp
  from do_getksig_ok [OF s1(2) assms(4) rp0 a1 s1(5) assms(9), of m] s1(4,6) assms(10) obtain s2 m1 where
    s2: "do_getksig m s1 = Inr (OK, m1, s2)" "int_field m1 0 = rp" "m_w m1 3 = push_bit (nat sg) 1"
    "kwf s2" "keeps s1 s2" "p_pending (proc_tab s2 rp) = 0" "flags_of s2 rp = ?f OR SIG_PENDING" by auto
  have a2: "alive s2 rp" using s2(5) a1 by (simp add: keeps_def)
  have p2: "flags_of s2 rp AND SIG_PENDING \<noteq> 0" "flags_of s2 rp AND SIGNALED = 0" unfolding s2(7) using f by simp_all
  from rts_unset_kwf [OF s2(4) assms(4) a2 p2(1)] assms(5) obtain s3 where
    s3: "rts_unset SIG_PENDING rp s2 = Inr s3" "kwf s3"
    "sched_frame (set_flags rp (flags_of s2 rp AND NOT SIG_PENDING) s2) s3" by auto
  have "(?f OR SIG_PENDING) AND NOT SIG_PENDING = ?f"
  proof (rule bit_word_eqI)
    fix n
    assume n: "n < LENGTH(8)"
    have "bit (?f AND SIG_PENDING) n = False" using fp by simp
    then show "bit ((?f OR SIG_PENDING) AND NOT SIG_PENDING) n = bit ?f n" using n by (auto simp: bit_simps)
  qed
  then have "flags_of s3 rp = ?f" using sched_frame_proc(6) [OF s3(3), of rp] s2(7) by simp
  moreover have "p_pending (proc_tab s3 rp) = 0" using sched_frame_proc(17) [OF s3(3), of rp] s2(6) by simp
  moreover have "do_endksig m1 s2 = Inr (OK, m1, s3)"
    using s2(2) assms(4) p2 s3(1) by (simp add: do_endksig_def procs_def)
  moreover have "flags_of s1 rp \<noteq> 0" "flags_of s2 rp \<noteq> 0"
    unfolding s1(5) s2(7) by (rule flag_set_nonzero, simp)+
  ultimately show ?thesis using s1(1,2) s2(1-4) s3(2) by blast
qed

theorem signal_cycle_witness:
  "\<exists>s1 s2 s3 m1. cause_sig 1 9 sample = Inr s1 \<and> flags_of s1 1 \<noteq> 0 \<and> do_getksig sample_exit s1 = Inr (OK, m1, s2) \<and>
     m_w m1 3 = 512 \<and> do_endksig m1 s2 = Inr (OK, m1, s3) \<and> flags_of s3 1 = 0"
proof -
  have t: "proc_tab sample = sample_proc" by (simp add: sample_def)
  have "has_priv sample PM_PROC_NR" "has_priv sample SYSTEM" "1 \<in> procs" "alive sample 1" "sigisvalid 9"
    "p_pending (proc_tab sample 1) = 0" "flags_of sample 1 = 0" "\<forall>x. flags_of sample x AND SIGNALED = 0"
    by (simp_all add: has_priv_def procs_def isokprocn_bounds t sample_proc_def sigisvalid_def)
  from signal_cycle [OF kwf_sample this(1-3) _ this(4-6) _ this(8), of sample_exit] this(7) show ?thesis
    by (simp add: push_bit_eq_mult) blast
qed

section \<open>Signal frames\<close>

lemma length_words_bytes [simp]: "length (words_bytes ws) = 4 * length ws"
  by (induction ws) (simp_all add: words_bytes_def)

lemma words_bytes_nth: "i < length ws \<Longrightarrow> take 4 (drop (4 * i) (words_bytes ws)) = bytes32 (ws ! i)"
proof (induction ws arbitrary: i)
  case (Cons w ws)
  then show ?case by (cases i) (simp_all add: words_bytes_def)
qed simp

lemma get32_words:
  assumes "i < length ws" and "4 * length ws \<le> 2 ^ 32"
  shows "get32 (write_bytes a (words_bytes ws) m) (a + of_nat (4 * i)) = ws ! i"
  using assms read_bytes_write_sub [of "4 * i" 4 "words_bytes ws" a m]
  by (simp add: get32_le32 words_bytes_nth le32_bytes32)

lemma get32_elsewhere:
  assumes "span a n \<inter> span b (length bs) = {}" and "k + 4 \<le> n" and "n \<le> 2 ^ 32" and "length bs \<le> 2 ^ 32"
  shows "get32 (write_bytes b bs m) (a + of_nat k) = get32 m (a + of_nat k)"
proof -
  have "span (a + of_nat k) 4 \<subseteq> span a (k + 4)" using assms(2,3) by (intro span_shift) simp
  also have "\<dots> \<subseteq> span a n" using assms(2) by (rule span_mono)
  finally have "span (a + of_nat k) 4 \<inter> span b (length bs) = {}" using assms(1) by blast
  then show ?thesis unfolding get32_le32 using assms(4) by (simp add: read_bytes_disjoint)
qed

text \<open>The registers that come back from a frame of words, except those that a process cannot set.\<close>

lemma get_regs_words:
  assumes "\<And>i. i < 16 \<Longrightarrow> get32 mm (a + 4 * of_nat i) = regs_words r ! i"
  shows "(get_regs mm a)\<lparr>reg_psw := psw, reg_cs := cs, reg_ds := ds, reg_es := es, reg_fs := fs, reg_gs := gs\<rparr> =
    r\<lparr>reg_psw := psw, reg_cs := cs, reg_ds := ds, reg_es := es, reg_fs := fs, reg_gs := gs\<rparr>"
  using assms [of 2] assms [of 3] assms [of 4] assms [of 5] assms [of 6] assms [of 7] assms [of 8] assms [of 9]
    assms [of 10] assms [of 11] assms [of 14] assms [of 15]
  by (cases r) (simp add: get_regs_def Let_def regs_words_def)

lemma get32_same:
  assumes "\<And>x. x \<in> span a n \<Longrightarrow> mm x = mm' x" and "k + 4 \<le> n" and "n \<le> 2 ^ 32"
  shows "get32 mm (a + of_nat k) = get32 mm' (a + of_nat k)"
proof -
  have "span (a + of_nat k) 4 \<subseteq> span a (k + 4)" using assms(2,3) by (intro span_shift) simp
  also have "\<dots> \<subseteq> span a n" using assms(2) by (rule span_mono)
  finally have s: "span (a + of_nat k) 4 \<subseteq> span a n" .
  have "read_bytes mm (a + of_nat k) 4 = read_bytes mm' (a + of_nat k) 4"
    unfolding read_bytes_def by (rule map_cong [OF refl], rule assms(1), rule subsetD [OF s]) (auto simp: span_def unat_of_nat)
  then show ?thesis by (simp only: get32_le32)
qed

lemma sig_disjoint:
  assumes lay: "data_layout (p_memmap (proc_tab s rp))"
    and sc: "unat scp + 72 \<le> data_end (p_memmap (proc_tab s rp))"
    and fr: "unat (scp - 28) + 28 \<le> data_end (p_memmap (proc_tab s rp))"
  shows "span (phys_base s rp + scp) 72 \<inter> span (phys_base s rp + (scp - 28)) 28 = {}"
proof -
  let ?mm = "p_memmap (proc_tab s rp)"
  have ph: "unat (phys_base s rp) = 1024 * unat (mem_phys (?mm D_seg))"
    using lay by (intro unat_shift10) (simp add: data_layout_def)
  have bound: "unat (phys_base s rp) + data_end ?mm < 2 ^ 32"
    using lay unfolding ph by (simp add: data_layout_def data_end_def)
  have "28 \<le> scp"
  proof (rule ccontr)
    assume "\<not> 28 \<le> scp"
    then have "unat (scp - 28) + 28 = 2 ^ 32 + unat scp"
      by (simp add: unat_sub_if' word_le_nat_alt)
    with fr bound show False by simp
  qed
  then have s: "unat scp = unat (scp - 28) + 28" by (simp add: unat_sub word_le_nat_alt)
  have a: "unat (phys_base s rp + scp) = unat (phys_base s rp) + unat scp"
    "unat (phys_base s rp + (scp - 28)) = unat (phys_base s rp) + unat (scp - 28)"
    using sc fr bound by (intro unat_plus_small; simp)+
  have "span (phys_base s rp + (scp - 28)) 28 \<inter> span (phys_base s rp + scp) 72 = {}"
    using a s sc bound by (intro span_disjoint) simp_all
  then show ?thesis by blast
qed

lemma umap_local_mapped:
  assumes lay: "data_layout (p_memmap (proc_tab s rp))" and nz: "umap_local rp D vir bytes s \<noteq> 0"
  shows "umap_local rp D vir bytes s = phys_base s rp + vir"
    "unat vir + unat bytes \<le> data_end (p_memmap (proc_tab s rp))"
  using umap_local_spec [OF lay, of D vir bytes] nz by (auto split: if_splits)

text \<open>What \<open>do_sigsend\<close> leaves behind when it succeeds: the context, the frame below it, the registers.\<close>

lemma do_sigsend_effect:
  assumes rp: "int_field m 0 = rp" and lay: "data_layout (p_memmap (proc_tab s rp))"
    and run: "do_sigsend m s = Inr (OK, m', s1)"
  defines "r \<equiv> p_reg (proc_tab s rp)"
  shows "\<exists>scp mask fr pc. length fr = 7 \<and> isokprocn rp \<and> \<not> iskerneln rp \<and> phys_base s rp + scp \<noteq> 0 \<and>
    unat scp + 72 \<le> data_end (p_memmap (proc_tab s rp)) \<and>
    unat (scp - 28) + 28 \<le> data_end (p_memmap (proc_tab s rp)) \<and>
    memory s1 = write_bytes (phys_base s rp + (scp - 28)) (words_bytes fr)
      (write_bytes (phys_base s rp + scp) (words_bytes (SC_SIGCONTEXT # mask # regs_words r)) (memory s)) \<and>
    proc_tab s1 = (proc_tab s)(rp := (proc_tab s rp)\<lparr>p_reg := r\<lparr>reg_fp := scp - 28 + 16, reg_sp := scp - 28, reg_pc := pc\<rparr>\<rparr>)"
proof -
  have ok: "isokprocn rp" "\<not> iskerneln rp" using run rp by (auto simp: do_sigsend_def Let_def split: if_splits)
  from run ok rp obtain src where src: "numap_local PM_PROC_NR (m_w m 5) 20 s = Inr src" "src \<noteq> 0"
    by (auto simp: do_sigsend_def Let_def bindr_Inr_iff split: if_splits)
  define sm where "sm i = get32 (memory s) (src + 4 * of_nat i)" for i :: nat
  define scp where "scp = sm 4 - 72"
  have d1: "umap_local rp D scp 72 s \<noteq> 0"
    using run ok rp src by (auto simp: do_sigsend_def Let_def sm_def scp_def split: if_splits)
  note m1 = umap_local_mapped [OF lay d1]
  let ?s1 = "s\<lparr>memory := write_bytes (phys_base s rp + scp) (words_bytes (SC_SIGCONTEXT # sm 1 # regs_words r)) (memory s)\<rparr>"
  let ?s2 = "set_proc rp ((proc_tab s rp)\<lparr>p_reg := r\<lparr>reg_fp := scp - 28 + 16\<rparr>\<rparr>) ?s1"
  have same: "umap_local rp D v n ?s2 = umap_local rp D v n s" for v n by (simp add: umap_local_def Let_def)
  have d2: "umap_local rp D (scp - 28) 28 s \<noteq> 0"
    using run ok rp src d1 m1(1) same [of "scp - 28" 28]
    by (auto simp: do_sigsend_def Let_def sm_def scp_def r_def split: if_splits)
  note m2 = umap_local_mapped [OF lay d2]
  have "s1 = set_proc rp ((proc_tab s rp)\<lparr>p_reg := r\<lparr>reg_fp := scp - 28 + 16, reg_sp := scp - 28, reg_pc := sm 2\<rparr>\<rparr>)
     (?s2\<lparr>memory := write_bytes (phys_base s rp + (scp - 28))
        (words_bytes [sm 3, sm 0, 0, scp, reg_fp r, reg_pc r, scp]) (memory ?s2)\<rparr>)"
    using run ok rp src d1 d2 m1(1) m2(1) same [of "scp - 28" 28]
    by (auto simp: do_sigsend_def Let_def sm_def scp_def r_def)
  then show ?thesis using ok m1 m2 d1 d2
    by (intro exI [of _ scp] exI [of _ "sm 1"] exI [of _ "[sm 3, sm 0, 0, scp, reg_fp r, reg_pc r, scp]"] exI [of _ "sm 2"])
      simp
qed

text \<open>
  C21: returning from a signal handler. Let \<open>sigsend\<close> have succeeded for a process, and let
  \<open>t\<close> be any later state in which the process has the same memory map and the context on its
  stack, which lies behind the frame at the stack pointer, is as \<open>sigsend\<close> left it; the handler
  may have changed any register and any other memory. Then \<open>sigreturn\<close> with the pointer to the
  context succeeds and gives back the registers that the process had when the signal arrived,
  all but the status word and the segment registers, which stay as they are in \<open>t\<close>; no other
  process and no memory is touched.
\<close>

theorem sigreturn_restores:
  assumes "int_field m 0 = rp" and "data_layout (p_memmap (proc_tab s rp))"
    and "do_sigsend m s = Inr (OK, m', s1)"
    and "int_field m2 0 = rp" and "m_w m2 5 = reg_sp (p_reg (proc_tab s1 rp)) + 28"
    and "p_memmap (proc_tab t rp) = p_memmap (proc_tab s rp)"
    and "\<forall>x \<in> span (phys_base s rp + m_w m2 5) 72. memory t x = memory s1 x"
  shows "\<exists>t'. do_sigreturn m2 t = Inr (OK, m2, t') \<and>
    p_reg (proc_tab t' rp) = (p_reg (proc_tab s rp))
      \<lparr>reg_psw := reg_psw (p_reg (proc_tab t rp)), reg_cs := reg_cs (p_reg (proc_tab t rp)),
       reg_ds := reg_ds (p_reg (proc_tab t rp)), reg_es := reg_es (p_reg (proc_tab t rp)),
       reg_fs := reg_fs (p_reg (proc_tab t rp)), reg_gs := reg_gs (p_reg (proc_tab t rp))\<rparr> \<and>
    memory t' = memory t \<and> (\<forall>x. x \<noteq> rp \<longrightarrow> proc_tab t' x = proc_tab t x)"
proof -
  let ?r = "p_reg (proc_tab s rp)"
  from do_sigsend_effect [OF assms(1-3)] obtain scp mask fr pc where
    ok: "length fr = 7" "isokprocn rp" "\<not> iskerneln rp" "phys_base s rp + scp \<noteq> 0" and
    b: "unat scp + 72 \<le> data_end (p_memmap (proc_tab s rp))" "unat (scp - 28) + 28 \<le> data_end (p_memmap (proc_tab s rp))" and
    mem: "memory s1 = write_bytes (phys_base s rp + (scp - 28)) (words_bytes fr)
      (write_bytes (phys_base s rp + scp) (words_bytes (SC_SIGCONTEXT # mask # regs_words ?r)) (memory s))" and
    pt: "proc_tab s1 = (proc_tab s)(rp := (proc_tab s rp)\<lparr>p_reg := ?r\<lparr>reg_fp := scp - 28 + 16, reg_sp := scp - 28, reg_pc := pc\<rparr>\<rparr>)"
    by blast
  let ?a = "phys_base s rp + scp"
  let ?ws = "SC_SIGCONTEXT # mask # regs_words ?r"
  have p5: "m_w m2 5 = scp" using assms(5) by (simp add: pt)
  have len: "length ?ws = 18" by (simp add: regs_words_def)
  have dis: "span ?a 72 \<inter> span (phys_base s rp + (scp - 28)) (length (words_bytes fr)) = {}"
    using sig_disjoint [OF assms(2) b] ok(1) by simp
  have same: "memory t x = memory s1 x" if "x \<in> span ?a 72" for x using assms(7) that by (simp only: p5)
  have w: "get32 (memory t) (?a + of_nat (4 * i)) = ?ws ! i" if "i < 18" for i
  proof -
    have le: "4 * i + 4 \<le> 72" using that by simp
    have "get32 (memory t) (?a + of_nat (4 * i)) = get32 (memory s1) (?a + of_nat (4 * i))"
      using same le by (rule get32_same) simp_all
    also have "\<dots> = get32 (write_bytes ?a (words_bytes ?ws) (memory s)) (?a + of_nat (4 * i))"
      unfolding mem using dis le by (rule get32_elsewhere) (use ok(1) in simp_all)
    also have "\<dots> = ?ws ! i" by (rule get32_words) (use that len in simp_all)
    finally show ?thesis .
  qed
  have flags: "get32 (memory t) ?a = SC_SIGCONTEXT" using w [of 0] by simp
  have "get32 (memory t) (?a + 8 + 4 * of_nat i) = regs_words ?r ! i" if "i < 16" for i
    using w [of "i + 2"] that by (simp add: algebra_simps)
  note regs = get_regs_words [OF this]
  have "umap_local rp D scp 72 t = umap_local rp D scp 72 s" using assms(6) by (simp add: umap_local_def Let_def)
  then have "umap_local rp D scp 72 t = ?a" using umap_local_spec [OF assms(2), of D scp 72] b(1) by simp
  then show ?thesis
    using ok(2,3,4) assms(4) p5 flags regs by (simp add: do_sigreturn_def Let_def)
qed


text \<open>A signal for process 1, whose context lies below address 8192; the request lies in the data of PM.\<close>

definition sample_sigsend :: message where
  "sample_sigsend = \<lparr>m_source = PM_PROC_NR, m_type = 1545, m_w = (\<lambda>_. 0)(0 := 1, 5 := 1024)\<rparr>"

definition sample_sig :: kstate where
  "sample_sig = sample\<lparr>memory := put32 (phys_base sample PM_PROC_NR + 1024 + 16) 8192 (memory sample)\<rparr>"

definition sample_sigreturn :: message where
  "sample_sigreturn = \<lparr>m_source = PM_PROC_NR, m_type = 1546, m_w = (\<lambda>_. 0)(0 := 1, 5 := 8120)\<rparr>"

text \<open>
  The handler of the example overwrites two registers and the first byte of memory before it returns.
\<close>

definition sample_handled :: "kstate \<Rightarrow> kstate" where
  "sample_handled s = set_proc 1 ((proc_tab s 1)\<lparr>p_reg := (p_reg (proc_tab s 1))\<lparr>reg_bx := 77, reg_retreg := 99\<rparr>\<rparr>)
     (s\<lparr>memory := (memory s)(0 := 5)\<rparr>)"

theorem sigreturn_restores_witness:
  "\<exists>s1 t'. do_sigsend sample_sigsend sample_sig = Inr (OK, sample_sigsend, s1) \<and>
     reg_sp (p_reg (proc_tab s1 1)) = 8092 \<and> reg_bx (p_reg (proc_tab (sample_handled s1) 1)) = 77 \<and>
     do_sigreturn sample_sigreturn (sample_handled s1) = Inr (OK, sample_sigreturn, t') \<and>
     reg_bx (p_reg (proc_tab t' 1)) = reg_bx (p_reg (sample_proc 1)) \<and>
     reg_retreg (p_reg (proc_tab t' 1)) = reg_retreg (p_reg (sample_proc 1))"
proof -
  have m: "int_field sample_sigsend 0 = 1" "int_field sample_sigreturn 0 = 1" "m_w sample_sigreturn 5 = 8120"
    "m_w sample_sigsend 5 = 1024" by (simp_all add: int_field_def sample_sigsend_def sample_sigreturn_def)
  have t: "proc_tab sample_sig = sample_proc" by (simp add: sample_sig_def sample_def)
  have lay: "data_layout (p_memmap (proc_tab sample_sig 1))" by (simp add: t sample_proc_def data_layout_def)
  have u: "umap_local x D v n s =
      (if n = 0 \<or> 16384 < unat v + unat n then 0 else push_bit 10 (word_of_int (16 * (x + 5))) + v)"
    if "p_memmap (proc_tab s x) = p_memmap (sample_proc x)" "x = 0 \<or> x = 1" for x v n s
  proof -
    have "data_layout (p_memmap (proc_tab s x))" using that by (auto simp: sample_proc_def data_layout_def)
    from umap_local_spec [OF this, of D v n] that show ?thesis by (auto simp: sample_proc_def data_end_def)
  qed
  have src: "numap_local 0 1024 20 sample_sig = Inr 82944" using u [of sample_sig 0 1024 20] by (simp add: numap_local_def t)
  have sm: "get32 (memory sample_sig) (82944 + 16) = 8192"
    by (simp add: sample_sig_def sample_proc_def sample_def)
  have d: "umap_local 1 D 8120 72 sample_sig = 106424"
    "umap_local 1 D 8092 28 (set_proc 1 ((sample_proc 1)\<lparr>p_reg := r\<rparr>) (sample_sig\<lparr>memory := mm\<rparr>)) = 106396" for r mm
    using u [of sample_sig 1 8120 72] u [of "set_proc 1 ((sample_proc 1)\<lparr>p_reg := r\<rparr>) (sample_sig\<lparr>memory := mm\<rparr>)" 1 8092 28]
    by (simp_all add: t)
  have "\<exists>s1. do_sigsend sample_sigsend sample_sig = Inr (OK, sample_sigsend, s1) \<and>
      reg_sp (p_reg (proc_tab s1 1)) = 8092 \<and> p_memmap (proc_tab s1 1) = p_memmap (proc_tab sample_sig 1)"
    using src sm d by (simp add: do_sigsend_def m isokprocn_bounds iskerneln_def Let_def t)
  then obtain s1 where s1: "do_sigsend sample_sigsend sample_sig = Inr (OK, sample_sigsend, s1)"
    "reg_sp (p_reg (proc_tab s1 1)) = 8092" "p_memmap (proc_tab s1 1) = p_memmap (proc_tab sample_sig 1)" by blast
  have "0 \<notin> span (phys_base sample_sig 1 + m_w sample_sigreturn 5) 72"
    by (simp add: m t sample_proc_def span_def)
  then have "\<forall>x \<in> span (phys_base sample_sig 1 + m_w sample_sigreturn 5) 72. memory (sample_handled s1) x = memory s1 x"
    by (auto simp: sample_handled_def)
  moreover have "p_memmap (proc_tab (sample_handled s1) 1) = p_memmap (proc_tab sample_sig 1)"
    using s1(3) by (simp add: sample_handled_def)
  ultimately obtain t' where t': "do_sigreturn sample_sigreturn (sample_handled s1) = Inr (OK, sample_sigreturn, t')"
    "reg_bx (p_reg (proc_tab t' 1)) = reg_bx (p_reg (proc_tab sample_sig 1))"
    "reg_retreg (p_reg (proc_tab t' 1)) = reg_retreg (p_reg (proc_tab sample_sig 1))"
    using sigreturn_restores [OF m(1) lay s1(1) m(2), of "sample_handled s1"] s1(2) m(3) by auto
  have "reg_bx (p_reg (proc_tab (sample_handled s1) 1)) = 77" by (simp add: sample_handled_def)
  with s1 t' t show ?thesis by auto
qed

end
