(* ===== verification/Sys_Task.thy ===== *)
theory Sys_Task
  imports System Kernel_Signals
begin

unbundle bit_operations_syntax

text \<open>
  The system task as a whole: its reaction to a request, for the calls whose handlers check
  all their arguments, to a request that is not allowed, to an exception, and to a panic.
\<close>

section \<open>Handlers that keep the invariant\<close>

text \<open>A handler serves a request when it returns and leaves the invariant intact.\<close>

definition serves :: "reply res \<Rightarrow> bool" where
  "serves x \<longleftrightarrow> (\<exists>r m s. x = Inr (r, m, s) \<and> kwf s)"

lemma serves_Inr [simp]: "serves (Inr (r, m, s)) = kwf s"
  by (simp add: serves_def)

lemma serves_if: "(b \<Longrightarrow> serves x) \<Longrightarrow> (\<not> b \<Longrightarrow> serves y) \<Longrightarrow> serves (if b then x else y)"
  by simp

lemma serves_bindr: "r = Inr x \<Longrightarrow> serves (f x) \<Longrightarrow> serves (bindr r f)"
  by simp


lemma kwf_farmem: "kwf s \<Longrightarrow> kwf (set_priv i ((priv_tab s i)\<lparr>s_farmem := f\<rparr>) s)"
  by (erule kwf_cong) auto

lemma kwf_io [simp]: "kwf s \<Longrightarrow> kwf (s\<lparr>io_out := x\<rparr>)" "kwf s \<Longrightarrow> kwf (s\<lparr>krandom := k\<rparr>)"
  "kwf s \<Longrightarrow> kwf (outb port v s)"
  by (erule kwf_cong; simp add: outb_def)+






lemma numap_local_ok: "isokprocn n \<Longrightarrow> \<exists>a. numap_local n v b s = Inr a"
  by (simp add: numap_local_def)

















text \<open>
  an exception in a user process is that process's affair: for every vector but the
  spurious interrupt 2, the process is stopped with the signal of the table and the process
  manager is told; the invariant of the kernel is kept.
\<close>

theorem exception_signals:
  assumes "kwf s" and "has_priv s PM_PROC_NR" and "has_priv s SYSTEM"
    and "proc_ptr s = Some rp" and "rp \<in> procs" and "0 < rp" and "alive s rp"
    and "p_pending (proc_tab s rp) = 0" and "flags_of s rp AND SIGNALED = 0"
    and "vec_nr < 17" and "vec_nr \<noteq> 2"
  shows "\<exists>s'. exception 0 vec_nr s = Inr s' \<and> kwf s' \<and>
    p_pending (proc_tab s' rp) = push_bit (nat (fst (snd (ex_data ! vec_nr)))) 1 \<and>
    flags_of s' rp AND SIG_PENDING \<noteq> 0"
proof -
  obtain msg sg mp where e: "ex_data ! vec_nr = (msg, sg, mp)" by (cases "ex_data ! vec_nr") auto
  have l: "length ex_data = 17" by (simp add: ex_data_def)
  have "list_all (\<lambda>(msg, sg, mp). sigisvalid sg) ex_data" by (simp add: ex_data_def sigisvalid_def)
  then have sg: "sigisvalid sg" using e assms(10) l by (metis (mono_tags, lifting) case_prod_conv list_all_length)
  have nr: "p_nr (proc_tab s rp) = rp" using kwf_procD(1) [OF assms(1,5)] .
  have ne: "rp \<noteq> PM_PROC_NR" using assms(6) by simp
  from cause_sig_ok [OF assms(1-3,5,7) ne sg assms(8,9)] obtain s' where
    s': "cause_sig rp sg s = Inr s'" "kwf s'" "p_pending (proc_tab s' rp) = push_bit (nat sg) 1"
    "flags_of s' rp = flags_of s rp OR (SIGNALED OR SIG_PENDING)" by blast
  have "exception 0 vec_nr s = Inr s'"
    using assms(4,6,10,11) e l nr s'(1) by (simp add: exception_def iskerneln_def)
  moreover have "(flags_of s rp OR (SIGNALED OR SIG_PENDING)) AND SIG_PENDING = SIG_PENDING"
    by (rule flag_set_superset) simp
  ultimately show ?thesis using s' e by simp
qed

theorem exception_signals_witness:
  "\<exists>s'. exception 0 14 sample = Inr s' \<and> kwf s' \<and> p_pending (proc_tab s' 1) = 2048"
proof -
  have t: "proc_tab sample = sample_proc" by (simp add: sample_def)
  have "has_priv sample PM_PROC_NR" "has_priv sample SYSTEM" "proc_ptr sample = Some 1" "1 \<in> procs" "alive sample 1"
    "p_pending (proc_tab sample 1) = 0" "flags_of sample 1 AND SIGNALED = 0"
    by (simp_all add: has_priv_def procs_def isokprocn_bounds t sample_proc_def) (simp add: sample_def)
  from exception_signals [OF kwf_sample this(1-4) _ this(5-7), of 14] show ?thesis
    by (auto simp: ex_data_def push_bit_eq_mult)
qed

text \<open>
  the dumps of a panic are never asked for. \<open>prepare_shutdown\<close> runs in the system task,
  whose trap mask after the start of the kernel allows \<open>RECEIVE\<close> only; so its non-blocking send
  to the terminal driver is always denied and the shutdown goes on at once.
\<close>

theorem panic_dumps_denied:
  assumes "kwf s" and "has_priv s LOG_PROC_NR" and "has_priv s SYSTEM"
    and "proc_ptr s = Some SYSTEM" and "p_priv (proc_tab s SYSTEM) = Some i" and "s_trap_mask (priv_tab s i) = 4"
  shows "\<exists>s1. sys_call NB_SEND TTY_PROC_NR (hw_mess hw)
      (s\<lparr>memory := put32 (phys_base s SYSTEM + hw_mess hw + 4) PANIC_DUMPS (memory s)\<rparr>) = Inr (ECALLDENIED, s1) \<and> kwf s1 \<and>
    prepare_shutdown hw RBT_PANIC s = stop_sequence RBT_PANIC s1"
proof -
  let ?s = "s\<lparr>memory := put32 (phys_base s SYSTEM + hw_mess hw + 4) PANIC_DUMPS (memory s)\<rparr>"
  have "kwf ?s" "has_priv ?s LOG_PROC_NR" "has_priv ?s SYSTEM" using assms(1-3) by (simp_all add: has_priv_def)
  note pr = kprintf_ok [OF this]
  have "\<exists>s1. sys_call NB_SEND TTY_PROC_NR (hw_mess hw) ?s = Inr (ECALLDENIED, s1) \<and> kwf s1"
    using pr assms(4-6) by (simp add: sys_call_def priv_of_def Let_def bindr_Inr_iff) blast
  then obtain s1 where s1: "sys_call NB_SEND TTY_PROC_NR (hw_mess hw) ?s = Inr (ECALLDENIED, s1)" "kwf s1" by blast
  then have "prepare_shutdown hw RBT_PANIC s = stop_sequence RBT_PANIC s1"
    using assms(4) by (simp add: prepare_shutdown_def Let_def)
  with s1 show ?thesis by blast
qed

definition sample_panic :: kstate where
  "sample_panic = sample\<lparr>proc_ptr := Some SYSTEM, priv_tab := (\<lambda>i. (sample_priv i)\<lparr>s_trap_mask := 4\<rparr>)\<rparr>"

theorem panic_dumps_denied_witness:
  "\<exists>s1. prepare_shutdown sample_hw RBT_PANIC sample_panic = stop_sequence RBT_PANIC s1 \<and> kwf s1"
proof -
  have wf: "kwf sample_panic" unfolding sample_panic_def using kwf_sample by (rule kwf_cong) (auto simp: sample_def)
  have t: "proc_tab sample_panic = sample_proc" "proc_ptr sample_panic = Some SYSTEM"
    "s_trap_mask (priv_tab sample_panic i) = 4" for i by (simp_all add: sample_panic_def sample_def)
  have "has_priv sample_panic LOG_PROC_NR" "has_priv sample_panic SYSTEM" "p_priv (proc_tab sample_panic SYSTEM) = Some 3"
    by (simp_all add: has_priv_def t sample_proc_def)
  from panic_dumps_denied [OF wf this(1,2) t(2) this(3) t(3), of sample_hw] show ?thesis by blast
qed

end
