(* ===== verification/Pm_State.thy ===== *)
theory Pm_State
  imports Kernel_State
begin

unbundle bit_operations_syntax

text \<open>
  The data of the process manager: its process table (\<open>servers/pm/mproc.h\<close>), the hole table and
  the swap variables (\<open>alloc.c\<close>), its globals (\<open>glo.h\<close>) and its timers (\<open>timers.c\<close>). A pointer
  into \<open>mproc\<close> or \<open>hole\<close> is an index, the null pointer is \<open>None\<close>.

  The process manager is a process of its own: it reaches the kernel and the file system only by
  messages. \<open>pm_log\<close> is the sequence of the requests it has sent, and what the rest of the system
  answers is a parameter of the functions that ask, a function of that history and of the request.
\<close>

section \<open>Constants\<close>

abbreviation (input) NR_HOLES :: nat where "NR_HOLES \<equiv> 128"
abbreviation (input) NR_PIDS :: int where "NR_PIDS \<equiv> 30000"
abbreviation (input) INIT_PID :: int where "INIT_PID \<equiv> 1"
abbreviation (input) NO_MEM :: u32 where "NO_MEM \<equiv> 0"
abbreviation (input) CLICK_SIZE :: u32 where "CLICK_SIZE \<equiv> 1024"
abbreviation (input) SUPER_USER :: int where "SUPER_USER \<equiv> 0"
abbreviation (input) HZ :: int where "HZ \<equiv> 60"

abbreviation (input) ESRCH :: int where "ESRCH \<equiv> - 3"
abbreviation (input) EINTR :: int where "EINTR \<equiv> - 4"
abbreviation (input) ENOEXEC :: int where "ENOEXEC \<equiv> - 8"
abbreviation (input) ECHILD :: int where "ECHILD \<equiv> - 10"
abbreviation (input) EAGAIN :: int where "EAGAIN \<equiv> - 11"
abbreviation (input) EACCES :: int where "EACCES \<equiv> - 13"
abbreviation (input) EBUSY :: int where "EBUSY \<equiv> - 16"
abbreviation (input) ENOSYS :: int where "ENOSYS \<equiv> - 38"
abbreviation (input) SUSPEND :: int where "SUSPEND \<equiv> - 998"

text \<open>Flags of a slot of \<open>mproc\<close>.\<close>

abbreviation (input) IN_USE :: u32 where "IN_USE \<equiv> 0x001"
abbreviation (input) WAITING :: u32 where "WAITING \<equiv> 0x002"
abbreviation (input) ZOMBIE :: u32 where "ZOMBIE \<equiv> 0x004"
abbreviation (input) PAUSED :: u32 where "PAUSED \<equiv> 0x008"
abbreviation (input) ALARM_ON :: u32 where "ALARM_ON \<equiv> 0x010"
abbreviation (input) SEPARATE :: u32 where "SEPARATE \<equiv> 0x020"
abbreviation (input) TRACED :: u32 where "TRACED \<equiv> 0x040"
abbreviation (input) STOPPED :: u32 where "STOPPED \<equiv> 0x080"
abbreviation (input) SIGSUSPENDED :: u32 where "SIGSUSPENDED \<equiv> 0x100"
abbreviation (input) REPLY :: u32 where "REPLY \<equiv> 0x200"
abbreviation (input) ONSWAP :: u32 where "ONSWAP \<equiv> 0x400"
abbreviation (input) SWAPIN :: u32 where "SWAPIN \<equiv> 0x800"
abbreviation (input) DONT_SWAP :: u32 where "DONT_SWAP \<equiv> 0x1000"
abbreviation (input) PRIV_PROC :: u32 where "PRIV_PROC \<equiv> 0x2000"

section \<open>Structures\<close>

record sigaction =
  sa_handler :: u32
  sa_mask :: u32
  sa_flags :: u32

record mproc =
  mp_seg :: "seg \<Rightarrow> mem_map"
  mp_exitstatus :: int
  mp_sigstatus :: int
  mp_pid :: int
  mp_procgrp :: int
  mp_wpid :: int
  mp_parent :: int
  mp_child_utime :: int
  mp_child_stime :: int
  mp_realuid :: int
  mp_effuid :: int
  mp_realgid :: int
  mp_effgid :: int
  mp_ino :: u32
  mp_dev :: int
  mp_ctime :: int
  mp_ignore :: u32
  mp_catch :: u32
  mp_sig2mess :: u32
  mp_sigmask :: u32
  mp_sigmask2 :: u32
  mp_sigpending :: u32
  mp_sigact :: "int \<Rightarrow> sigaction"
  mp_sigreturn :: u32
  mp_flags :: u32
  mp_procargs :: u32
  mp_swapq :: "int option"
  mp_reply :: message
  mp_nice :: int
  mp_name :: "u8 list"

record hole =
  h_next :: "nat option"
  h_base :: u32
  h_len :: u32

record sigmsg =
  sm_signo :: int
  sm_mask :: u32
  sm_sighandler :: u32
  sm_sigreturn :: u32
  sm_stkptr :: u32

text \<open>
  Requests to the kernel (\<open>sys_...\<close>), to the file system, and copies between a user process and
  a buffer of the process manager.
\<close>

datatype pm_req =
    SysNewmap int mem_map mem_map mem_map
  | SysFork int int
  | SysExec int u32 u32 "u8 list"
  | SysExit int
  | SysTimes int
  | SysGetproc int
  | SysAbscopy u32 u32 u32
  | SysMemset u32 u32 u32
  | SysSigsend int sigmsg
  | SysKill int int
  | SysSigreturn int u32
  | SysTrace int int u32 u32
  | SysNice int int
  | SysAbort int "u8 list"
  | SysSetalarm int
  | SysGetksig
  | SysEndksig int
  | GetUptime
  | SysGetkinfo
  | CopyIn int u32 u32
  | CopyOut int u32 "u32 list"
  | CopyOutBytes int u32 "u8 list"
  | CopyObject int u32 int
  | TellFs int int int int
  | FsOpen "u8 list"
  | FsLseek int u32
  | FsSkip int u32
  | FsRw int int u32 u32
  | FsRead int u32
  | FsWrite int "u32 list"
  | FsAccess "u8 list"
  | FsStat int
  | FsClose int
  | SendTo int message
  | Errno

text \<open>
  The answer to a request: the result code and the words that came back. \<open>Errno\<close> is not a
  request; its answer is the value of the variable \<open>errno\<close>, which the calls of the library set.
\<close>

type_synonym pm_env = "pm_req list \<Rightarrow> pm_req \<Rightarrow> int \<times> u32 list"

datatype pm_watchdog = CauseSigalrm | NoPmWatchdog

record pmstate =
  hole_tab :: "nat \<Rightarrow> hole"
  hole_head :: "nat option"
  free_slots :: "nat option"
  swap_fd :: int
  swap_offset :: u32
  swap_base :: u32
  swap_maxsize :: u32
  in_queue :: "int option"
  outswap :: int
  mproc_tab :: "int \<Rightarrow> mproc"
  pm_mp :: int
  procs_in_use :: int
  pm_in :: message
  pm_who :: int
  pm_call_nr :: int
  core_sset :: u32
  ign_sset :: u32
  next_pid :: int
  pm_timers :: "(int, pm_watchdog) tqueue"
  boottime :: int
  exec_mbuf :: "u8 list"
  exec_name :: "u8 list"
  monitor_params :: "u8 list"
  local_params :: "(u8 list \<times> u8 list) list"
  pm_log :: "pm_req list"

section \<open>Access\<close>

definition ask :: "pm_env \<Rightarrow> pm_req \<Rightarrow> pmstate \<Rightarrow> (int \<times> u32 list) \<times> pmstate" where
  "ask env r s = (env (pm_log s) r, s\<lparr>pm_log := pm_log s @ [r]\<rparr>)"

text \<open>A request whose answer is not looked at.\<close>

definition tell :: "pm_req \<Rightarrow> pmstate \<Rightarrow> pmstate" where
  "tell r s = s\<lparr>pm_log := pm_log s @ [r]\<rparr>"

abbreviation mpr :: "pmstate \<Rightarrow> int \<Rightarrow> mproc" where
  "mpr s n \<equiv> mproc_tab s n"

abbreviation mfl :: "pmstate \<Rightarrow> int \<Rightarrow> u32" where
  "mfl s n \<equiv> mp_flags (mproc_tab s n)"

definition upd_mp :: "int \<Rightarrow> (mproc \<Rightarrow> mproc) \<Rightarrow> pmstate \<Rightarrow> pmstate" where
  "upd_mp n f s = s\<lparr>mproc_tab := (mproc_tab s)(n := f (mproc_tab s n))\<rparr>"

abbreviation set_mfl :: "int \<Rightarrow> u32 \<Rightarrow> pmstate \<Rightarrow> pmstate" where
  "set_mfl n v \<equiv> upd_mp n (\<lambda>p. p\<lparr>mp_flags := v\<rparr>)"

definition set_hole :: "nat \<Rightarrow> hole \<Rightarrow> pmstate \<Rightarrow> pmstate" where
  "set_hole i h s = s\<lparr>hole_tab := (hole_tab s)(i := h)\<rparr>"

text \<open>\<open>&mproc[n]\<close> for an index that the code did not compute by a loop over the table.\<close>

definition mproc_at :: "int \<Rightarrow> int res" where
  "mproc_at n = (if 0 \<le> n \<and> n < NR_PROCS then Inr n else Inl (BadIndex n))"

lemma mproc_at_ok [simp]: "0 \<le> n \<Longrightarrow> n < 64 \<Longrightarrow> mproc_at n = Inr n"
  by (simp add: mproc_at_def)

text \<open>The slots of the table in the order of the loops over it.\<close>

abbreviation slots :: "int list" where
  "slots \<equiv> [0..63]"

abbreviation newmap :: "int \<Rightarrow> pmstate \<Rightarrow> pmstate" where
  "newmap n s \<equiv> tell (SysNewmap n (mp_seg (mpr s n) T_seg) (mp_seg (mpr s n) D_seg) (mp_seg (mpr s n) S_seg)) s"

lemma tell_fields [simp]:
  "hole_tab (tell r s) = hole_tab s" "hole_head (tell r s) = hole_head s" "free_slots (tell r s) = free_slots s"
  "mproc_tab (tell r s) = mproc_tab s" "swap_base (tell r s) = swap_base s" "outswap (tell r s) = outswap s"
  "in_queue (tell r s) = in_queue s" "pm_timers (tell r s) = pm_timers s" "pm_mp (tell r s) = pm_mp s"
  "procs_in_use (tell r s) = procs_in_use s" "next_pid (tell r s) = next_pid s" "pm_who (tell r s) = pm_who s"
  "ign_sset (tell r s) = ign_sset s" "core_sset (tell r s) = core_sset s" "pm_in (tell r s) = pm_in s"
  "swap_fd (tell r s) = swap_fd s" "swap_offset (tell r s) = swap_offset s" "swap_maxsize (tell r s) = swap_maxsize s"
  "pm_call_nr (tell r s) = pm_call_nr s" "boottime (tell r s) = boottime s"
  by (simp_all add: tell_def)

lemma ask_tell: "ask env r s = (env (pm_log s) r, tell r s)"
  by (simp add: ask_def tell_def)

lemma upd_mp_fields [simp]:
  "hole_tab (upd_mp n f s) = hole_tab s" "hole_head (upd_mp n f s) = hole_head s" "free_slots (upd_mp n f s) = free_slots s"
  "swap_base (upd_mp n f s) = swap_base s" "outswap (upd_mp n f s) = outswap s" "in_queue (upd_mp n f s) = in_queue s"
  "pm_timers (upd_mp n f s) = pm_timers s" "pm_mp (upd_mp n f s) = pm_mp s" "procs_in_use (upd_mp n f s) = procs_in_use s"
  "next_pid (upd_mp n f s) = next_pid s" "pm_who (upd_mp n f s) = pm_who s" "ign_sset (upd_mp n f s) = ign_sset s"
  "core_sset (upd_mp n f s) = core_sset s" "pm_in (upd_mp n f s) = pm_in s" "swap_fd (upd_mp n f s) = swap_fd s"
  "swap_offset (upd_mp n f s) = swap_offset s" "swap_maxsize (upd_mp n f s) = swap_maxsize s" "pm_log (upd_mp n f s) = pm_log s"
  "pm_call_nr (upd_mp n f s) = pm_call_nr s" "boottime (upd_mp n f s) = boottime s"
  "mproc_tab (upd_mp n f s) = (mproc_tab s)(n := f (mproc_tab s n))"
  by (simp_all add: upd_mp_def)

lemma set_hole_fields [simp]:
  "hole_tab (set_hole i h s) = (hole_tab s)(i := h)" "hole_head (set_hole i h s) = hole_head s"
  "free_slots (set_hole i h s) = free_slots s" "mproc_tab (set_hole i h s) = mproc_tab s"
  "swap_base (set_hole i h s) = swap_base s" "pm_log (set_hole i h s) = pm_log s"
  by (simp_all add: set_hole_def)

lemma slots_set: "set slots = {n. 0 \<le> n \<and> n < 64}"
  by auto

end
