(* ===== verification/Pm_Alloc.thy ===== *)
theory Pm_Alloc
  imports Pm_State
begin

unbundle bit_operations_syntax

text \<open>
  The hole table of the process manager (\<open>servers/pm/alloc.c\<close>): a chain of holes sorted by
  address and a chain of unused table entries, which share the link \<open>h_next\<close>. The chain of holes
  is shown to implement a set of free clicks: allocation takes a block out of the set, by first
  fit, and freeing puts it back; neighbouring holes are always merged.
\<close>

section \<open>The two chains\<close>

fun hl_get :: "nat loc \<Rightarrow> pmstate \<Rightarrow> nat option" where
  "hl_get Head s = hole_head s"
| "hl_get (Next x) s = h_next (hole_tab s x)"

fun hl_put :: "nat loc \<Rightarrow> nat option \<Rightarrow> pmstate \<Rightarrow> pmstate" where
  "hl_put Head p s = s\<lparr>hole_head := p\<rparr>"
| "hl_put (Next x) p s = set_hole x ((hole_tab s x)\<lparr>h_next := p\<rparr>) s"

fun fs_get :: "nat loc \<Rightarrow> pmstate \<Rightarrow> nat option" where
  "fs_get Head s = free_slots s"
| "fs_get (Next x) s = h_next (hole_tab s x)"

fun fs_put :: "nat loc \<Rightarrow> nat option \<Rightarrow> pmstate \<Rightarrow> pmstate" where
  "fs_put Head p s = s\<lparr>free_slots := p\<rparr>"
| "fs_put (Next x) p s = set_hole x ((hole_tab s x)\<lparr>h_next := p\<rparr>) s"

interpretation hl: linked_list hl_get hl_put
proof
  fix l l' p s show "hl_get l (hl_put l' p s) = (if l = l' then p else hl_get l s)"
    by (cases l; cases l') auto
qed

interpretation fs: linked_list fs_get fs_put
proof
  fix l l' p s show "fs_get l (fs_put l' p s) = (if l = l' then p else fs_get l s)"
    by (cases l; cases l') auto
qed

section \<open>Operations\<close>

definition del_slot :: "nat option \<Rightarrow> nat \<Rightarrow> pmstate \<Rightarrow> pmstate res" where
  "del_slot prev hp s =
     bindr (if hole_head s = Some hp then Inr (s\<lparr>hole_head := h_next (hole_tab s hp)\<rparr>)
            else bindr (deref prev) (\<lambda>p.
                 Inr (set_hole p ((hole_tab s p)\<lparr>h_next := h_next (hole_tab s hp)\<rparr>) s))) (\<lambda>s1.
     let s2 = set_hole hp ((hole_tab s1 hp)\<lparr>h_next := free_slots s1\<rparr>) s1
     in Inr (s2\<lparr>free_slots := Some hp\<rparr>))"

text \<open>
  The inner loop of \<open>alloc_mem\<close>, which looks for a hole below \<open>swap_base\<close> that is large enough
  and bites a piece off. The result is the address, or \<open>None\<close> when no hole fits.
\<close>

definition bite_hole :: "nat option \<Rightarrow> nat \<Rightarrow> u32 \<Rightarrow> pmstate \<Rightarrow> (u32 \<times> pmstate) res" where
  "bite_hole prev hp clicks s =
     (let h = hole_tab s hp;
          s1 = set_hole hp (h\<lparr>h_base := h_base h + clicks, h_len := h_len h - clicks\<rparr>) s
      in bindr (if h_len (hole_tab s1 hp) = 0 then del_slot prev hp s1 else Inr s1) (\<lambda>s2.
         Inr (h_base h, s2)))"

definition first_fit :: "u32 \<Rightarrow> pmstate \<Rightarrow> (u32 option \<times> pmstate) res" where
  "first_fit clicks s =
     (case walk (\<lambda>l. hl_get l s)
             (\<lambda>x. \<not> h_base (hole_tab s x) < swap_base s \<or> clicks \<le> h_len (hole_tab s x)) Head of
        None \<Rightarrow> Inl Hang
      | Some l \<Rightarrow>
          (case hl_get l s of
             None \<Rightarrow> Inr (None, s)
           | Some hp \<Rightarrow>
               if \<not> h_base (hole_tab s hp) < swap_base s then Inr (None, s)
               else bindr (bite_hole (loc_owner l) hp clicks s) (\<lambda>(b, s1). Inr (Some b, s1))))"

definition merge :: "nat \<Rightarrow> pmstate \<Rightarrow> pmstate res" where
  "merge hp s =
     (case h_next (hole_tab s hp) of
        None \<Rightarrow> Inr s
      | Some nxt \<Rightarrow>
          bindr (if h_base (hole_tab s hp) + h_len (hole_tab s hp) = h_base (hole_tab s nxt)
                 then bindr (del_slot (Some hp) nxt
                              (set_hole hp ((hole_tab s hp)
                                 \<lparr>h_len := h_len (hole_tab s hp) + h_len (hole_tab s nxt)\<rparr>) s))
                        (\<lambda>s1. Inr (hp, s1))
                 else Inr (nxt, s)) (\<lambda>(hp2, s1).
          case h_next (hole_tab s1 hp2) of
            None \<Rightarrow> Inr s1
          | Some next2 \<Rightarrow>
              if h_base (hole_tab s1 hp2) + h_len (hole_tab s1 hp2) = h_base (hole_tab s1 next2)
              then del_slot (Some hp2) next2
                     (set_hole hp2 ((hole_tab s1 hp2)
                        \<lparr>h_len := h_len (hole_tab s1 hp2) + h_len (hole_tab s1 next2)\<rparr>) s1)
              else Inr s1))"

definition free_mem :: "u32 \<Rightarrow> u32 \<Rightarrow> pmstate \<Rightarrow> pmstate res" where
  "free_mem base clicks s =
     (if clicks = 0 then Inr s
      else case free_slots s of
        None \<Rightarrow> Inl (Panic ''hole table full'')
      | Some new_ptr \<Rightarrow>
          let s1 = set_hole new_ptr ((hole_tab s new_ptr)\<lparr>h_base := base, h_len := clicks\<rparr>) s;
              s2 = s1\<lparr>free_slots := h_next (hole_tab s1 new_ptr)\<rparr>;
              front = (case hole_head s2 of None \<Rightarrow> True | Some hp \<Rightarrow> base \<le> h_base (hole_tab s2 hp))
          in if front
             then let s3 = set_hole new_ptr ((hole_tab s2 new_ptr)\<lparr>h_next := hole_head s2\<rparr>) s2
                  in merge new_ptr (s3\<lparr>hole_head := Some new_ptr\<rparr>)
             else case walk (\<lambda>l. hl_get l s2) (\<lambda>x. \<not> base > h_base (hole_tab s2 x)) Head of
                    None \<Rightarrow> Inl Hang
                  | Some l \<Rightarrow> bindr (deref (loc_owner l)) (\<lambda>prev.
                      let s3 = set_hole new_ptr ((hole_tab s2 new_ptr)\<lparr>h_next := h_next (hole_tab s2 prev)\<rparr>) s2;
                          s4 = set_hole prev ((hole_tab s3 prev)\<lparr>h_next := Some new_ptr\<rparr>) s3
                      in merge prev s4))"

text \<open>
  \<open>mem_init\<close>: the chunks are freed from the last to the first; \<open>swap_base\<close> ends up one click
  above the highest of them.
\<close>

fun init_chunks :: "(u32 \<times> u32) list \<Rightarrow> u32 \<Rightarrow> pmstate \<Rightarrow> (u32 \<times> pmstate) res" where
  "init_chunks [] free s = Inr (free, s)"
| "init_chunks ((base, sz) # cs) free s =
     (if sz > 0
      then bindr (free_mem base sz s) (\<lambda>s1.
           init_chunks cs (free + sz)
             (if swap_base s1 < base + sz then s1\<lparr>swap_base := base + sz\<rparr> else s1))
      else init_chunks cs free s)"

definition mem_init :: "(u32 \<times> u32) list \<Rightarrow> pmstate \<Rightarrow> (u32 \<times> pmstate) res" where
  "mem_init chunks s =
     (let s1 = s\<lparr>hole_tab := (\<lambda>i. (hole_tab s i)\<lparr>h_next := (if i < NR_HOLES then Some (i + 1) else h_next (hole_tab s i))\<rparr>)\<rparr>;
          s2 = set_hole (NR_HOLES - 1) ((hole_tab s1 (NR_HOLES - 1))\<lparr>h_next := None\<rparr>) s1;
          s3 = s2\<lparr>hole_head := None, free_slots := Some 0\<rparr>
      in bindr (init_chunks (rev chunks) 0 s3) (\<lambda>(free, s4).
         let s5 = s4\<lparr>swap_base := swap_base s4 + 1\<rparr>
         in Inr (free, s5\<lparr>swap_maxsize := 0 - swap_base s5\<rparr>)))"

section \<open>Free memory as a list of separated intervals\<close>

type_synonym iv = "nat \<times> nat"

abbreviation iv_set :: "iv \<Rightarrow> nat set" where
  "iv_set v \<equiv> {fst v ..< fst v + snd v}"

definition ivs_set :: "iv list \<Rightarrow> nat set" where
  "ivs_set vs = (\<Union>v\<in>set vs. iv_set v)"

lemma ivs_set_simps [simp]:
  "ivs_set [] = {}" "ivs_set (v # vs) = iv_set v \<union> ivs_set vs" "ivs_set (us @ vs) = ivs_set us \<union> ivs_set vs"
  by (auto simp: ivs_set_def)

text \<open>\<open>apart lo vs\<close>: intervals at or above \<open>lo\<close>, in order, not empty, with gaps between them.\<close>

fun apart :: "nat \<Rightarrow> iv list \<Rightarrow> bool" where
  "apart lo [] = True"
| "apart lo ((b, l) # vs) = (lo \<le> b \<and> 0 < l \<and> b + l \<le> 2 ^ 32 \<and> apart (b + l + 1) vs)"

lemma apart_mono: "apart lo vs \<Longrightarrow> lo' \<le> lo \<Longrightarrow> apart lo' vs"
  by (cases vs) auto

lemma apart_bound: "apart lo vs \<Longrightarrow> x \<in> ivs_set vs \<Longrightarrow> lo \<le> x \<and> x < 2 ^ 32"
proof (induction lo vs rule: apart.induct)
  case (2 lo b l vs)
  then show ?case by fastforce
qed simp

lemma apart_append:
  "apart lo (us @ vs) \<longleftrightarrow> apart lo us \<and> apart (if us = [] then lo else fst (last us) + snd (last us) + 1) vs"
  by (induction lo us rule: apart.induct) auto

lemma apart_last: "apart lo us \<Longrightarrow> us \<noteq> [] \<Longrightarrow> lo < fst (last us) + snd (last us)"
proof (induction lo us rule: apart.induct)
  case (2 lo b l vs)
  then show ?case by (cases vs) auto
qed simp

lemma ivs_set_last: "apart lo us \<Longrightarrow> x \<in> ivs_set us \<Longrightarrow> x < fst (last us) + snd (last us)"
proof (induction lo us rule: apart.induct)
  case (2 lo b l vs)
  show ?case
  proof (cases vs)
    case (Cons v ws)
    then have "b + l + 1 < fst (last vs) + snd (last vs)" using 2(2) by (intro apart_last) auto
    then show ?thesis using 2 Cons by auto
  qed (use 2 in auto)
qed simp

lemma apart_mem: "apart lo us \<Longrightarrow> v \<in> set us \<Longrightarrow> lo \<le> fst v \<and> 0 < snd v \<and> fst v + snd v \<le> 2 ^ 32"
  by (induction lo us rule: apart.induct) auto

text \<open>Absorbing the neighbour of an interval, and what \<open>merge\<close> does with three of them.\<close>

fun join_iv :: "iv list \<Rightarrow> iv list" where
  "join_iv (x # y # vs) = (if fst x + snd x = fst y then (fst x, snd x + snd y) # vs else x # y # vs)"
| "join_iv vs = vs"

fun merge_iv :: "iv list \<Rightarrow> iv list" where
  "merge_iv (x # y # vs) =
     (if fst x + snd x = fst y then join_iv ((fst x, snd x + snd y) # vs) else x # join_iv (y # vs))"
| "merge_iv vs = vs"

lemma merge_iv_length: "length (merge_iv vs) \<le> length vs"
proof -
  have j: "length (join_iv ws) \<le> length ws" for ws by (cases ws rule: join_iv.cases) auto
  have "length (join_iv ((a, b) # ws)) \<le> Suc (length ws)" for a b ws using j [of "(a, b) # ws"] by simp
  then show ?thesis using j by (cases vs rule: merge_iv.cases) (auto intro: le_SucI)
qed

text \<open>\<open>loose\<close>: as \<open>apart\<close>, but neighbours may touch.\<close>

fun loose :: "nat \<Rightarrow> iv list \<Rightarrow> bool" where
  "loose lo [] = True"
| "loose lo ((b, l) # vs) = (lo \<le> b \<and> 0 < l \<and> b + l \<le> 2 ^ 32 \<and> loose (b + l) vs)"

lemma apart_loose: "apart lo vs \<Longrightarrow> lo' \<le> lo \<Longrightarrow> loose lo' vs"
  by (induction lo vs arbitrary: lo' rule: apart.induct) auto

lemma join_iv_set: "ivs_set (join_iv vs) = ivs_set vs"
  by (cases vs rule: join_iv.cases) auto

lemma merge_iv_set: "ivs_set (merge_iv vs) = ivs_set vs"
  by (cases vs rule: merge_iv.cases) (auto simp: join_iv_set)

lemma join_apart:
  assumes "lo \<le> b" and "0 < l" and "b + l \<le> 2 ^ 32" and "loose (b + l) vs" and "apart 0 vs"
  shows "apart lo (join_iv ((b, l) # vs))"
proof (cases vs)
  case Nil
  then show ?thesis using assms by simp
next
  case (Cons v ws)
  then show ?thesis using assms by (cases v) (auto simp: add.assoc)
qed

lemma insert_front:
  assumes "apart lo vs" and "lo \<le> b" and "0 < l" and "b + l \<le> 2 ^ 32"
    and "iv_set (b, l) \<inter> ivs_set vs = {}" and "\<And>v. v \<in> set vs \<Longrightarrow> b \<le> fst v"
  shows "apart lo (merge_iv ((b, l) # vs))" and "loose lo ((b, l) # vs)"
proof -
  have le: "b + l \<le> fst v" if "v \<in> set vs" for v
  proof (rule ccontr)
    assume "\<not> b + l \<le> fst v"
    then have "fst v \<in> iv_set (b, l)" using assms(6) [OF that] by simp
    moreover have "fst v \<in> ivs_set vs" using that apart_mem [OF assms(1) that] by (force simp: ivs_set_def)
    ultimately show False using assms(5) by blast
  qed
  have lo: "loose (b + l) vs"
  proof (cases vs)
    case (Cons v ws)
    then show ?thesis using assms(1) le [of v] by (cases v) (auto intro: apart_loose)
  qed simp
  then show "loose lo ((b, l) # vs)" using assms by simp
  show "apart lo (merge_iv ((b, l) # vs))"
  proof (cases vs)
    case Nil
    then show ?thesis using assms by simp
  next
    case (Cons v ws)
    obtain b' l' where v: "v = (b', l')" by (cases v)
    have v': "lo \<le> b'" "0 < l'" "b' + l' \<le> 2 ^ 32" "apart (b' + l' + 1) ws" "b + l \<le> b'"
      using assms(1) le [of v] by (simp_all add: Cons v)
    have ws: "loose (b' + l') ws" "apart 0 ws" using v'(4) by (auto intro: apart_loose apart_mono)
    have "join_iv ((b', l') # ws) = (b', l') # ws"
      using v'(4) by (cases ws) auto
    moreover have "apart lo (join_iv ((b, l + l') # ws))" if "b + l = b'"
      using that v' ws assms(2,3) by (intro join_apart) (auto simp: add.assoc [symmetric])
    ultimately show ?thesis using v' assms(2-4) by (auto simp: Cons v)
  qed
qed

lemma insert_after:
  assumes "apart lo ((p, k) # vs)" and "p < b" and "0 < l" and "b + l \<le> 2 ^ 32"
    and "iv_set (b, l) \<inter> ivs_set ((p, k) # vs) = {}" and "\<And>v. v \<in> set vs \<Longrightarrow> b \<le> fst v"
  shows "apart lo (merge_iv ((p, k) # (b, l) # vs))" and "loose lo ((p, k) # (b, l) # vs)"
proof -
  have pk: "lo \<le> p" "0 < k" "apart (p + k + 1) vs" "p + k \<le> 2 ^ 32" using assms(1) by simp_all
  have pb: "p + k \<le> b"
  proof (rule ccontr)
    assume "\<not> p + k \<le> b"
    then have "b \<in> iv_set (p, k)" "b \<in> iv_set (b, l)" using assms(2,3) by simp_all
    then have "b \<in> iv_set (b, l) \<inter> ivs_set ((p, k) # vs)" by simp
    then show False using assms(5) by blast
  qed
  have dis: "iv_set (b, l) \<inter> ivs_set vs = {}" using assms(5) by auto
  have av: "apart 0 vs" using pk(3) by (rule apart_mono) simp
  note front = insert_front [OF av _ assms(3,4) dis assms(6), simplified]
  then have lv: "loose (b + l) vs" by simp
  show "loose lo ((p, k) # (b, l) # vs)" using pk pb assms(3,4) lv by simp
  show "apart lo (merge_iv ((p, k) # (b, l) # vs))"
  proof (cases "p + k = b")
    case True
    have "apart lo (join_iv ((p, k + l) # vs))"
      using True pk assms(3,4) lv av by (intro join_apart) (auto simp: add.assoc [symmetric])
    then show ?thesis using True by simp
  next
    case False
    have "apart (p + k + 1) (join_iv ((b, l) # vs))"
      using False pb assms(3,4) lv av by (intro join_apart) auto
    then show ?thesis using False pk by simp
  qed
qed

section \<open>Representation\<close>

definition hole_iv :: "pmstate \<Rightarrow> nat \<Rightarrow> iv" where
  "hole_iv s i = (unat (h_base (hole_tab s i)), unat (h_len (hole_tab s i)))"

definition hnx :: "pmstate \<Rightarrow> nat \<Rightarrow> nat option" where
  "hnx s x = h_next (hole_tab s x)"

lemma hnx_upd [simp]:
  "hnx (set_hole i h s) = (hnx s)(i := h_next h)" "hnx (s\<lparr>hole_head := p\<rparr>) = hnx s" "hnx (s\<lparr>free_slots := p\<rparr>) = hnx s"
  "hnx (hl_put Head p s) = hnx s" "hnx (hl_put (Next i) p s) = (hnx s)(i := p)"
  by (auto simp: hnx_def fun_eq_iff)

definition hchains :: "pmstate \<Rightarrow> nat list \<Rightarrow> nat list \<Rightarrow> bool" where
  "hchains s hs ks \<longleftrightarrow> chain (hnx s) (hole_head s) hs \<and> chain (hnx s) (free_slots s) ks \<and> distinct (hs @ ks)"

lemma chains_links: "hchains s hs ks \<Longrightarrow> hl.links s hs None" "hchains s hs ks \<Longrightarrow> fs.links s ks None"
  by (simp_all add: hchains_def hnx_def [abs_def])

lemma hole_iv_upd [simp]:
  "hole_iv (set_hole i h s) = (hole_iv s)(i := (unat (h_base h), unat (h_len h)))"
  "hole_iv (s\<lparr>hole_head := p\<rparr>) = hole_iv s" "hole_iv (s\<lparr>free_slots := p\<rparr>) = hole_iv s"
  by (auto simp: hole_iv_def fun_eq_iff)

lemma hole_iv_same [simp]: "(hole_iv s)(i := (unat (h_base (hole_tab s i)), unat (h_len (hole_tab s i)))) = hole_iv s"
  by (auto simp: hole_iv_def fun_eq_iff)

text \<open>Only the hole table and its two heads differ.\<close>

definition hole_frame :: "pmstate \<Rightarrow> pmstate \<Rightarrow> bool" where
  "hole_frame s s' \<longleftrightarrow> s' = s\<lparr>hole_tab := hole_tab s', hole_head := hole_head s', free_slots := free_slots s'\<rparr>"

lemma hole_frame_refl [simp]: "hole_frame s s"
  by (simp add: hole_frame_def)

lemma hole_frame_trans: "hole_frame s s1 \<Longrightarrow> hole_frame s1 s2 \<Longrightarrow> hole_frame s s2"
  unfolding hole_frame_def by (metis (no_types, lifting) pmstate.surjective pmstate.update_convs(1-3))

lemma hole_frame_eqs:
  assumes "hole_frame s s'"
  shows "swap_base s' = swap_base s" "mproc_tab s' = mproc_tab s" "outswap s' = outswap s" "pm_log s' = pm_log s"
    "in_queue s' = in_queue s" "pm_timers s' = pm_timers s" "pm_mp s' = pm_mp s" "procs_in_use s' = procs_in_use s"
    "next_pid s' = next_pid s" "pm_who s' = pm_who s" "ign_sset s' = ign_sset s" "core_sset s' = core_sset s"
    "pm_in s' = pm_in s" "swap_fd s' = swap_fd s" "swap_offset s' = swap_offset s"
  using assms by (cases s; cases s'; simp add: hole_frame_def)+

lemma hole_frame_upd [simp]:
  "hole_frame s (set_hole i h s1) \<longleftrightarrow> hole_frame s s1"
  "hole_frame s (s1\<lparr>hole_head := p\<rparr>) \<longleftrightarrow> hole_frame s s1"
  "hole_frame s (s1\<lparr>free_slots := p\<rparr>) \<longleftrightarrow> hole_frame s s1"
  by (cases s; cases s1; simp add: hole_frame_def set_hole_def)+

lemma del_slot_ok:
  assumes "hchains s (us @ hp # vs) ks"
  shows "\<exists>s'. del_slot (last_opt us) hp s = Inr s' \<and> hchains s' (us @ vs) (hp # ks) \<and>
    hole_frame s s' \<and> hole_iv s' = hole_iv s"
proof (cases us rule: rev_cases)
  case Nil
  then have "hole_head s = Some hp" using assms by (simp add: hchains_def)
  then show ?thesis using assms Nil
    by (auto simp: del_slot_def hchains_def hnx_def [symmetric])
next
  case (snoc ts t)
  have "hole_head s \<noteq> Some hp"
    using assms snoc by (cases ts) (auto simp: hchains_def)
  then show ?thesis using assms snoc
    by (auto simp: del_slot_def hchains_def hnx_def [symmetric])
qed

lemma hole_iv_words:
  assumes "unat (h_base h) + unat (h_len h) \<le> 2 ^ 32" and "unat (h_base h) + unat (h_len h) \<le> unat (h_base h')"
  shows "unat (h_base h + h_len h) = unat (h_base h) + unat (h_len h)"
proof -
  have "unat (h_base h') < 2 ^ LENGTH(32)" by (rule unsigned_less)
  then show ?thesis using assms by (simp add: unat_word_ariths)
qed

text \<open>The step that \<open>merge\<close> takes twice: absorb the next hole if it touches.\<close>

lemma absorb_ok:
  assumes ch: "hchains s (us @ hp # nx # vs) ks" and ok: "loose 1 [hole_iv s hp, hole_iv s nx]"
    and touch: "h_base (hole_tab s hp) + h_len (hole_tab s hp) = h_base (hole_tab s nx)"
  shows "\<exists>s'. del_slot (Some hp) nx (set_hole hp ((hole_tab s hp)
        \<lparr>h_len := h_len (hole_tab s hp) + h_len (hole_tab s nx)\<rparr>) s) = Inr s' \<and>
    hchains s' (us @ hp # vs) (nx # ks) \<and> hole_frame s s' \<and>
    hole_iv s' = (hole_iv s)(hp := (fst (hole_iv s hp), snd (hole_iv s hp) + snd (hole_iv s nx)))"
proof -
  let ?h = "hole_tab s hp" and ?n = "hole_tab s nx"
  let ?s1 = "set_hole hp (?h\<lparr>h_len := h_len ?h + h_len ?n\<rparr>) s"
  have sum: "unat (h_len ?h + h_len ?n) = unat (h_len ?h) + unat (h_len ?n)"
    using ok by (simp add: hole_iv_def unat_word_ariths)
  have "hchains ?s1 ((us @ [hp]) @ nx # vs) ks"
    using ch by (simp add: hchains_def fun_upd_idem hnx_def)
  from del_slot_ok [OF this] obtain s' where
    "del_slot (Some hp) nx ?s1 = Inr s'" "hchains s' (us @ hp # vs) (nx # ks)" "hole_frame ?s1 s'" "hole_iv s' = hole_iv ?s1"
    by auto
  moreover have "hole_frame s ?s1" by simp
  ultimately show ?thesis
    using sum hole_frame_trans [of s ?s1] by (auto simp: hole_iv_def fun_eq_iff)
qed

lemma touch_iff:
  assumes "loose lo (hole_iv s hp # hole_iv s nx # vs)"
  shows "h_base (hole_tab s hp) + h_len (hole_tab s hp) = h_base (hole_tab s nx) \<longleftrightarrow>
    fst (hole_iv s hp) + snd (hole_iv s hp) = fst (hole_iv s nx)"
  using assms hole_iv_words [of "hole_tab s hp" "hole_tab s nx"]
  by (auto simp: hole_iv_def word_unat_eq_iff)

lemma map_iv_upd [simp]: "x \<notin> set xs \<Longrightarrow> map ((hole_iv s)(x := v)) xs = map (hole_iv s) xs"
  by (auto intro!: map_cong)

lemma merge_ok:
  assumes ch: "hchains s (us @ hp # vs) ks" and ok: "loose 1 (map (hole_iv s) (hp # vs))"
  shows "\<exists>s' ws ks'. merge hp s = Inr s' \<and> hchains s' (us @ ws) ks' \<and> hole_frame s s' \<and>
    map (hole_iv s') us = map (hole_iv s) us \<and> map (hole_iv s') ws = merge_iv (map (hole_iv s) (hp # vs)) \<and>
    length (us @ ws) + length ks' = length (us @ hp # vs) + length ks"
proof (cases vs)
  case Nil
  then have "h_next (hole_tab s hp) = None" using ch by (auto simp: hchains_def hnx_def)
  then show ?thesis using ch Nil
    by (intro exI [of _ s] exI [of _ "[hp]"] exI [of _ ks]) (simp add: merge_def)
next
  case (Cons nx ws)
  have nx: "h_next (hole_tab s hp) = Some nx" using ch by (auto simp: hchains_def Cons hnx_def)
  note tch = touch_iff [of 1 s hp nx "map (hole_iv s) ws"]
  obtain b l where hp: "hole_iv s hp = (b, l)" by (cases "hole_iv s hp")
  obtain b' l' where niv: "hole_iv s nx = (b', l')" by (cases "hole_iv s nx")
  have d: "distinct (us @ hp # nx # ws)" using ch by (auto simp: hchains_def Cons)
  have ok2: "loose 1 [hole_iv s hp, hole_iv s nx]" using ok by (simp add: Cons hp niv)
  define r where "r = (if h_base (hole_tab s hp) + h_len (hole_tab s hp) = h_base (hole_tab s nx)
     then bindr (del_slot (Some hp) nx (set_hole hp ((hole_tab s hp)
        \<lparr>h_len := h_len (hole_tab s hp) + h_len (hole_tab s nx)\<rparr>) s)) (\<lambda>s1. Inr (hp, s1))
     else Inr (nx, s))"
  have "\<exists>h2 us2 s1 ks1. r = Inr (h2, s1) \<and> hchains s1 (us2 @ h2 # ws) ks1 \<and> hole_frame s s1 \<and>
      loose 1 (map (hole_iv s1) (h2 # ws)) \<and>
      map (hole_iv s1) us2 @ join_iv (map (hole_iv s1) (h2 # ws)) = map (hole_iv s) us @ merge_iv (map (hole_iv s) (hp # vs)) \<and>
      (us2 = us \<or> us2 = us @ [hp]) \<and> map (hole_iv s1) us = map (hole_iv s) us \<and>
      length (us2 @ h2 # ws) + length ks1 = length (us @ hp # vs) + length ks"
  proof (cases "b + l = b'")
    case True
    with tch ok have t: "h_base (hole_tab s hp) + h_len (hole_tab s hp) = h_base (hole_tab s nx)"
      by (simp add: Cons hp niv)
    from absorb_ok [OF ch [unfolded Cons] ok2 t] obtain s1 where
      "r = Inr (hp, s1)" "hchains s1 (us @ hp # ws) (nx # ks)" "hole_frame s s1"
      "hole_iv s1 = (hole_iv s)(hp := (b, l + l'))" by (auto simp: r_def t hp niv)
    then show ?thesis using True [symmetric] d ok
      by - (rule exI [of _ hp], rule exI [of _ us], rule exI [of _ s1], rule exI [of _ "nx # ks"],
            simp add: Cons hp niv add.assoc)
  next
    case False
    with tch ok have t: "h_base (hole_tab s hp) + h_len (hole_tab s hp) \<noteq> h_base (hole_tab s nx)"
      by (simp add: Cons hp niv)
    then show ?thesis using False d ok ch
      by - (rule exI [of _ nx], rule exI [of _ "us @ [hp]"], rule exI [of _ s], rule exI [of _ ks],
            auto simp: r_def Cons hp niv)
  qed
  then obtain h2 us2 s1 ks1 where r: "r = Inr (h2, s1)" "hchains s1 (us2 @ h2 # ws) ks1" "hole_frame s s1"
    "loose 1 (map (hole_iv s1) (h2 # ws))"
    "map (hole_iv s1) us2 @ join_iv (map (hole_iv s1) (h2 # ws)) = map (hole_iv s) us @ merge_iv (map (hole_iv s) (hp # vs))"
    "us2 = us \<or> us2 = us @ [hp]" "map (hole_iv s1) us = map (hole_iv s) us"
    "length (us2 @ h2 # ws) + length ks1 = length (us @ hp # vs) + length ks" by blast
  define r2 where "r2 = (case h_next (hole_tab s1 h2) of None \<Rightarrow> Inr s1
     | Some n2 \<Rightarrow> if h_base (hole_tab s1 h2) + h_len (hole_tab s1 h2) = h_base (hole_tab s1 n2)
         then del_slot (Some h2) n2 (set_hole h2 ((hole_tab s1 h2)
           \<lparr>h_len := h_len (hole_tab s1 h2) + h_len (hole_tab s1 n2)\<rparr>) s1)
         else Inr s1)"
  have m: "merge hp s = r2" using r(1) by (simp add: merge_def nx r_def r2_def)
  have "\<exists>s2 zs ks2. r2 = Inr s2 \<and> hchains s2 (us2 @ zs) ks2 \<and> hole_frame s1 s2 \<and>
    map (hole_iv s2) us2 = map (hole_iv s1) us2 \<and> map (hole_iv s2) zs = join_iv (map (hole_iv s1) (h2 # ws)) \<and>
    length (us2 @ zs) + length ks2 = length (us2 @ h2 # ws) + length ks1"
  proof (cases ws)
    case Nil
    then have "h_next (hole_tab s1 h2) = None" using r(2) by (auto simp: hchains_def hnx_def)
    then show ?thesis using r(2) Nil
      by (intro exI [of _ s1] exI [of _ "[h2]"] exI [of _ ks1]) (simp add: r2_def)
  next
    case c: (Cons n2 zs)
    have n2: "h_next (hole_tab s1 h2) = Some n2" using r(2) by (auto simp: hchains_def c hnx_def)
    note tch2 = touch_iff [of 1 s1 h2 n2 "map (hole_iv s1) zs"]
    have d2: "distinct (us2 @ h2 # n2 # zs)" using r(2) by (auto simp: hchains_def c)
    have l2: "loose 1 [hole_iv s1 h2, hole_iv s1 n2]"
      using r(4) by (cases "hole_iv s1 h2"; cases "hole_iv s1 n2") (simp add: c)
    show ?thesis
    proof (cases "fst (hole_iv s1 h2) + snd (hole_iv s1 h2) = fst (hole_iv s1 n2)")
      case True
      with tch2 r(4) have t: "h_base (hole_tab s1 h2) + h_len (hole_tab s1 h2) = h_base (hole_tab s1 n2)" by (simp add: c)
      from absorb_ok [OF r(2) [unfolded c] l2 t] obtain s2 where
        "r2 = Inr s2" "hchains s2 (us2 @ h2 # zs) (n2 # ks1)" "hole_frame s1 s2"
        "hole_iv s2 = (hole_iv s1)(h2 := (fst (hole_iv s1 h2), snd (hole_iv s1 h2) + snd (hole_iv s1 n2)))"
        by (auto simp: r2_def n2 t)
      then show ?thesis using True d2
        by (intro exI [of _ s2] exI [of _ "h2 # zs"] exI [of _ "n2 # ks1"]) (simp add: c)
    next
      case False
      with tch2 r(4) have t: "h_base (hole_tab s1 h2) + h_len (hole_tab s1 h2) \<noteq> h_base (hole_tab s1 n2)" by (simp add: c)
      then show ?thesis using False r(2)
        by (intro exI [of _ s1] exI [of _ "h2 # n2 # zs"] exI [of _ ks1]) (simp add: r2_def n2 c)
    qed
  qed
  then obtain s2 zs ks2 where s2: "r2 = Inr s2" "hchains s2 (us2 @ zs) ks2" "hole_frame s1 s2"
    "map (hole_iv s2) us2 = map (hole_iv s1) us2" "map (hole_iv s2) zs = join_iv (map (hole_iv s1) (h2 # ws))"
    "length (us2 @ zs) + length ks2 = length (us2 @ h2 # ws) + length ks1" by blast
  have all: "map (hole_iv s2) (us2 @ zs) = map (hole_iv s) us @ merge_iv (map (hole_iv s) (hp # vs))"
    using s2(4,5) r(5) by (simp only: map_append)
  obtain xs where xs: "us2 @ zs = us @ xs" using r(6) by auto
  have "map (hole_iv s2) us = map (hole_iv s) us" using s2(4) r(6,7) by auto
  moreover from this have "map (hole_iv s2) xs = merge_iv (map (hole_iv s) (hp # vs))"
    using all by (simp only: xs map_append same_append_eq)
  moreover have "length (us @ xs) + length ks2 = length (us @ hp # vs) + length ks"
    using s2(6) r(8) by (simp only: xs)
  ultimately show ?thesis using s2(1,2) xs m hole_frame_trans [OF r(3) s2(3)] by auto
qed

text \<open>
  \<open>holes s vs\<close>: the holes of the table are the intervals \<open>vs\<close>, and every entry of the table is on
  one of the two chains.
\<close>

definition holes :: "pmstate \<Rightarrow> iv list \<Rightarrow> bool" where
  "holes s vs \<longleftrightarrow> (\<exists>hs ks. hchains s hs ks \<and> map (hole_iv s) hs = vs \<and> apart 1 vs \<and>
     length hs + length ks = NR_HOLES)"

lemma holes_free_slot: "holes s vs \<Longrightarrow> free_slots s = None \<longleftrightarrow> length vs = NR_HOLES"
  by (auto simp: holes_def hchains_def dest: chain_head)

lemma takeWhile_sorted_iv:
  assumes "apart lo (map f xs)" and "v \<in> set (dropWhile (\<lambda>x. fst (f x) < b) xs)"
  shows "b \<le> fst (f v)"
  using assms
proof (induction xs arbitrary: lo)
  case (Cons x xs)
  obtain c l where x: "f x = (c, l)" by (cases "f x")
  have tl: "apart (c + l + 1) (map f xs)" using Cons.prems(1) by (simp add: x)
  show ?case
  proof (cases "c < b")
    case True
    then show ?thesis using Cons.IH [OF tl] Cons.prems(2) by (simp add: x)
  next
    case False
    then show ?thesis using Cons.prems(2) apart_mem [OF tl, of "f v"] by (auto simp: x)
  qed
qed simp

text \<open>The new entry is linked in at its place, before \<open>merge\<close> is called.\<close>

lemma free_mem_links:
  assumes ch: "hchains s hs (k # ks)" and "hs = us @ vs" and "clicks \<noteq> 0"
    and us: "us = takeWhile (\<lambda>x. h_base (hole_tab s x) < base) hs"
  shows "\<exists>s'. hchains s' (us @ k # vs) ks \<and> hole_frame s s' \<and>
    hole_iv s' = (hole_iv s)(k := (unat base, unat clicks)) \<and>
    free_mem base clicks s = merge (if us = [] then k else last us) s'"
proof -
  let ?k = "(hole_tab s k)\<lparr>h_base := base, h_len := clicks\<rparr>"
  let ?t = "(set_hole k ?k s)\<lparr>free_slots := h_next (hole_tab s k)\<rparr>"
  have fsl: "free_slots s = Some k" using ch by (simp add: hchains_def)
  have t: "hchains ?t hs ks" using ch by (auto simp: hchains_def fun_upd_idem hnx_def [symmetric])
  have kh: "k \<notin> set hs" using ch by (auto simp: hchains_def)
  have w: "walk (\<lambda>l. hl_get l ?t) (\<lambda>x. \<not> base > h_base (hole_tab ?t x)) Head = Some (loc_after us)"
  proof -
    have "takeWhile (\<lambda>y. \<not> \<not> base > h_base (hole_tab ?t y)) hs = us"
      unfolding us using kh by (intro takeWhile_cong) auto
    then show ?thesis using hl.walk_whole [OF chains_links(1) [OF t]] by simp
  qed
  show ?thesis
  proof (cases us rule: rev_cases)
    case Nil
    have front: "hole_head s = None \<or> (\<exists>h. hole_head s = Some h \<and> h \<noteq> k \<and> base \<le> h_base (hole_tab s h))"
    proof (cases hs)
      case Nil
      then show ?thesis using ch by (simp add: hchains_def)
    next
      case (Cons h hs')
      then have "hole_head s = Some h" "h \<noteq> k" "\<not> h_base (hole_tab s h) < base"
        using ch us \<open>us = []\<close> by (auto simp: hchains_def split: if_splits)
      then show ?thesis by (simp add: not_less)
    qed
    let ?u = "(set_hole k (?k\<lparr>h_next := hole_head s\<rparr>) ?t)\<lparr>hole_head := Some k\<rparr>"
    have "hchains ?u (us @ k # vs) ks" using t ch kh assms(2) Nil
      by (auto simp: hchains_def)
    moreover have "free_mem base clicks s = merge k ?u"
      using assms(3) front by (auto simp: free_mem_def fsl Let_def)
    ultimately show ?thesis using Nil
      by (intro exI [of _ ?u]) (simp add: fun_eq_iff)
  next
    case (snoc ts p)
    then have "p \<in> set us" by simp
    then have p: "h_base (hole_tab s p) < base" "p \<in> set hs" by (auto simp: us dest: set_takeWhileD)
    then obtain h hs' where hs: "hs = h # hs'" by (cases hs) auto
    have hh: "hole_head s = Some h" "h \<noteq> k" using ch kh by (auto simp: hchains_def hs)
    have nf: "\<not> base \<le> h_base (hole_tab s h)" using us snoc by (auto simp: hs split: if_splits)
    have pk: "p \<noteq> k" using p(2) kh by auto
    let ?v = "set_hole k (?k\<lparr>h_next := h_next (hole_tab s p)\<rparr>) ?t"
    let ?u = "set_hole p ((hole_tab ?v p)\<lparr>h_next := Some k\<rparr>) ?v"
    have "hchains ?u (us @ k # vs) ks" using t ch kh assms(2) snoc pk
      by (auto simp: hchains_def hnx_def [symmetric])
    moreover have "free_mem base clicks s = merge p ?u"
      using assms(3) nf w snoc pk hh by (simp add: free_mem_def fsl Let_def)
    ultimately show ?thesis using snoc pk
      by (intro exI [of _ ?u]) (auto simp: fun_eq_iff hole_iv_def)
  qed
qed

theorem free_mem_holes:
  assumes h: "holes s vs" and "length vs < NR_HOLES" and "clicks \<noteq> 0" and "base \<noteq> 0"
    and top: "unat base + unat clicks \<le> 2 ^ 32"
    and dis: "iv_set (unat base, unat clicks) \<inter> ivs_set vs = {}"
  shows "\<exists>s' vs'. free_mem base clicks s = Inr s' \<and> holes s' vs' \<and> hole_frame s s' \<and>
    ivs_set vs' = ivs_set vs \<union> iv_set (unat base, unat clicks) \<and> length vs' \<le> length vs + 1"
proof -
  let ?n = "(unat base, unat clicks)"
  from h obtain hs ks' where hs: "hchains s hs ks'" "map (hole_iv s) hs = vs" "apart 1 vs" "length hs + length ks' = 128"
    by (auto simp: holes_def)
  then obtain k ks where ks: "ks' = k # ks" using assms(2) by (cases ks') auto
  define us where "us = takeWhile (\<lambda>x. h_base (hole_tab s x) < base) hs"
  define ws where "ws = dropWhile (\<lambda>x. h_base (hole_tab s x) < base) hs"
  have split: "hs = us @ ws" by (simp add: us_def ws_def)
  from free_mem_links [OF hs(1) [unfolded ks] split assms(3) us_def] obtain t where
    t: "hchains t (us @ k # ws) ks" "hole_frame s t" "hole_iv t = (hole_iv s)(k := ?n)"
    "free_mem base clicks s = merge (if us = [] then k else last us) t" by blast
  have kn: "k \<notin> set us" "k \<notin> set ws" using hs(1) by (auto simp: hchains_def ks split)
  have b: "1 \<le> unat base" "0 < unat clicks" using assms(3,4) by (simp_all add: unat_gt_0 Suc_le_eq)
  have less: "h_base (hole_tab s x) < base \<longleftrightarrow> fst (hole_iv s x) < unat base" for x
    by (simp add: hole_iv_def word_less_nat_alt)
  have wsb: "unat base \<le> fst v" if v: "v \<in> set (map (hole_iv s) ws)" for v
  proof -
    from v obtain w where w: "w \<in> set ws" "v = hole_iv s w" by auto
    then show ?thesis
      using takeWhile_sorted_iv [of 1 "hole_iv s" hs w "unat base"] hs(2,3) by (simp add: ws_def less)
  qed
  have vs: "vs = map (hole_iv s) us @ map (hole_iv s) ws" using hs(2) by (simp add: split)
  have len: "length us + length ws + length ks = 127" using hs(4) by (simp add: ks split)
  show ?thesis
  proof (cases us rule: rev_cases)
    case Nil
    have dw: "iv_set ?n \<inter> ivs_set (map (hole_iv s) ws) = {}" using dis vs Nil by simp
    have aw: "apart 1 (map (hole_iv s) ws)" using hs(3) vs Nil by simp
    note ins = insert_front [OF aw b top dw wsb]
    have iv: "map (hole_iv t) (k # ws) = ?n # map (hole_iv s) ws" using t(3) kn by simp
    have "loose 1 (map (hole_iv t) (k # ws))" unfolding iv by (rule ins(2))
    from merge_ok [of t "[]" k ws ks, OF _ this] t(1) Nil obtain s' zs ks2 where
      m: "merge k t = Inr s'" "hchains s' zs ks2" "hole_frame t s'" "map (hole_iv s') zs = merge_iv (map (hole_iv t) (k # ws))"
      "length zs + length ks2 = length (k # ws) + length ks" by auto
    let ?vs = "merge_iv (?n # map (hole_iv s) ws)"
    have "map (hole_iv s') zs = ?vs" using m(4) by (simp only: iv)
    then have "holes s' ?vs" using m(2,5) ins(1) len Nil by (auto simp: holes_def)
    moreover have "ivs_set ?vs = ivs_set vs \<union> iv_set ?n" using vs Nil by (auto simp: merge_iv_set)
    moreover have "length ?vs \<le> length vs + 1"
      using merge_iv_length [of "?n # map (hole_iv s) ws"] vs Nil by simp
    ultimately show ?thesis using m(1) t(4) Nil hole_frame_trans [OF t(2) m(3)] by auto
  next
    case (snoc ts p)
    obtain pb pl where p: "hole_iv s p = (pb, pl)" by (cases "hole_iv s p")
    have pk: "p \<noteq> k" "k \<notin> set ts" using kn snoc by auto
    have vs2: "vs = map (hole_iv s) ts @ (pb, pl) # map (hole_iv s) ws" using vs snoc p by simp
    let ?lo = "if map (hole_iv s) ts = [] then 1 else fst (last (map (hole_iv s) ts)) + snd (last (map (hole_iv s) ts)) + 1"
    have ap: "apart 1 (map (hole_iv s) ts)" "apart ?lo ((pb, pl) # map (hole_iv s) ws)"
      using hs(3) unfolding vs2 apart_append by simp_all
    have "p \<in> set us" by (simp add: snoc)
    then have "pb < unat base" using less [of p] p by (auto simp: us_def dest: set_takeWhileD)
    note ins = insert_after [OF ap(2) this b(2) top _ wsb]
    have di: "iv_set ?n \<inter> ivs_set ((pb, pl) # map (hole_iv s) ws) = {}" using dis vs2 by auto
    have iv: "map (hole_iv t) (p # k # ws) = (pb, pl) # ?n # map (hole_iv s) ws" "map (hole_iv t) ts = map (hole_iv s) ts"
      using t(3) kn pk p by simp_all
    have "loose 1 (map (hole_iv t) (p # k # ws))"
      unfolding iv using ins(2) [OF di] ap(2) by (auto split: if_splits)
    from merge_ok [of t ts p "k # ws" ks] t(1) snoc this obtain s' zs ks2 where
      m: "merge p t = Inr s'" "hchains s' (ts @ zs) ks2" "hole_frame t s'" "map (hole_iv s') ts = map (hole_iv t) ts"
      "map (hole_iv s') zs = merge_iv (map (hole_iv t) (p # k # ws))"
      "length (ts @ zs) + length ks2 = length (ts @ p # k # ws) + length ks" by auto
    let ?vs = "map (hole_iv s) ts @ merge_iv ((pb, pl) # ?n # map (hole_iv s) ws)"
    have "map (hole_iv s') (ts @ zs) = ?vs" using m(4,5) by (simp only: iv map_append)
    moreover have "apart 1 ?vs" unfolding apart_append using ap(1) ins(1) [OF di] by (simp split: if_splits)
    moreover have "length (ts @ zs) + length ks2 = 128" using m(6) len snoc by simp
    ultimately have "holes s' ?vs" using m(2) unfolding holes_def by blast
    moreover have "ivs_set ?vs = ivs_set vs \<union> iv_set ?n"
      unfolding vs2 ivs_set_simps merge_iv_set by auto
    moreover have "length ?vs \<le> length vs + 1"
      using merge_iv_length [of "(pb, pl) # ?n # map (hole_iv s) ws"] by (simp add: vs2)
    ultimately show ?thesis using m(1) t(4) snoc hole_frame_trans [OF t(2) m(3)] by auto
  qed
qed

text \<open>First fit: the lowest hole below the swap area that is large enough.\<close>

fun fit_iv :: "nat \<Rightarrow> nat \<Rightarrow> iv list \<Rightarrow> nat option" where
  "fit_iv sb n [] = None"
| "fit_iv sb n ((b, l) # vs) = (if \<not> b < sb then None else if n \<le> l then Some b else fit_iv sb n vs)"

lemma fit_iv_split:
  assumes "fit_iv sb n vs = Some b"
  shows "\<exists>us l ws. vs = us @ (b, l) # ws \<and> n \<le> l \<and> b < sb \<and>
    us = takeWhile (\<lambda>v. fst v < sb \<and> snd v < n) vs"
  using assms
proof (induction sb n vs rule: fit_iv.induct)
  case (2 sb n c l vs)
  show ?case
  proof (cases "c < sb \<and> \<not> n \<le> l")
    case True
    then obtain us l' ws where "vs = us @ (b, l') # ws" "n \<le> l'" "b < sb" "us = takeWhile (\<lambda>v. fst v < sb \<and> snd v < n) vs"
      using 2 by auto
    then show ?thesis using True by (intro exI [of _ "(c, l) # us"] exI [of _ l'] exI [of _ ws]) auto
  next
    case False
    then show ?thesis using 2(2) by (intro exI [of _ "[]"] exI [of _ l] exI [of _ vs]) (auto split: if_splits)
  qed
qed simp

lemma fit_iv_None:
  assumes "fit_iv sb n vs = None"
  shows "dropWhile (\<lambda>v. fst v < sb \<and> snd v < n) vs = [] \<or>
    \<not> fst (hd (dropWhile (\<lambda>v. fst v < sb \<and> snd v < n) vs)) < sb"
  using assms by (induction sb n vs rule: fit_iv.induct) (auto split: if_splits)

lemma fit_iv_mono: "fit_iv sb n vs = None \<Longrightarrow> n \<le> m \<Longrightarrow> fit_iv sb m vs = None"
  by (induction sb n vs rule: fit_iv.induct) (auto split: if_splits)

text \<open>Biting a block off a hole, which disappears when it is used up.\<close>

definition bite_iv :: "nat \<Rightarrow> iv \<Rightarrow> iv list" where
  "bite_iv n v = (if snd v = n then [] else [(fst v + n, snd v - n)])"

lemma bite_hole_ok:
  assumes ch: "hchains s (us @ hp # vs) ks" and n: "unat n \<le> unat (h_len (hole_tab s hp))"
    and fit: "fst (hole_iv s hp) + snd (hole_iv s hp) \<le> 2 ^ 32"
  shows "\<exists>s' xs ks'. bite_hole (last_opt us) hp n s = Inr (h_base (hole_tab s hp), s') \<and>
    hchains s' (us @ xs @ vs) ks' \<and> hole_frame s s' \<and> map (hole_iv s') xs = bite_iv (unat n) (hole_iv s hp) \<and>
    map (hole_iv s') (us @ vs) = map (hole_iv s) (us @ vs) \<and> length xs + length ks' = Suc (length ks)"
proof -
  let ?h = "hole_tab s hp"
  let ?t = "set_hole hp (?h\<lparr>h_base := h_base ?h + n, h_len := h_len ?h - n\<rparr>) s"
  have d: "hp \<notin> set us" "hp \<notin> set vs" using ch by (auto simp: hchains_def)
  have t: "hchains ?t (us @ hp # vs) ks" using ch by (simp add: hchains_def fun_upd_idem hnx_def)
  have len: "unat (h_len ?h - n) = unat (h_len ?h) - unat n" using n by (simp add: unat_sub_if_size)
  have same: "map (hole_iv ?t) (us @ vs) = map (hole_iv s) (us @ vs)" using d by simp
  show ?thesis
  proof (cases "h_len ?h = n")
    case True
    from del_slot_ok [OF t] obtain s' where
      s': "del_slot (last_opt us) hp ?t = Inr s'" "hchains s' (us @ vs) (hp # ks)" "hole_frame ?t s'" "hole_iv s' = hole_iv ?t"
      by blast
    have "hole_frame s s'" using hole_frame_trans [of s ?t s'] s'(3) by simp
    moreover have "bite_hole (last_opt us) hp n s = Inr (h_base ?h, s')" using s'(1) True by (simp add: bite_hole_def)
    moreover have "bite_iv (unat n) (hole_iv s hp) = []" using True by (simp add: bite_iv_def hole_iv_def)
    moreover have "map (hole_iv s') (us @ vs) = map (hole_iv s) (us @ vs)" using same by (simp only: s'(4))
    ultimately show ?thesis using s'(2)
      by - (rule exI [of _ s'], rule exI [of _ "[]"], rule exI [of _ "hp # ks"], simp)
  next
    case False
    then have ne: "unat (h_len ?h) \<noteq> unat n" by (simp add: word_unat_eq_iff)
    then have "unat (h_base ?h + n) = unat (h_base ?h) + unat n"
      using fit n by (simp add: hole_iv_def unat_word_ariths)
    then have "map (hole_iv ?t) [hp] = bite_iv (unat n) (hole_iv s hp)"
      using ne len by (simp add: bite_iv_def hole_iv_def)
    moreover have "bite_hole (last_opt us) hp n s = Inr (h_base ?h, ?t)"
      using False by (simp add: bite_hole_def Let_def)
    moreover have "hchains ?t (us @ [hp] @ vs) ks" "length [hp] + length ks = Suc (length ks)" "hole_frame s ?t"
      using t by simp_all
    ultimately show ?thesis using same by blast
  qed
qed

lemma apart_bite:
  assumes "apart lo (us @ v # ws)" and "0 < n" and "n \<le> snd v"
  shows "apart lo (us @ bite_iv n v @ ws)"
    and "ivs_set (us @ bite_iv n v @ ws) = ivs_set (us @ v # ws) - iv_set (fst v, n)"
    and "iv_set (fst v, n) \<subseteq> ivs_set (us @ v # ws)"
proof -
  obtain b l where v: "v = (b, l)" by (cases v)
  let ?m = "if us = [] then lo else fst (last us) + snd (last us) + 1"
  have a: "apart lo us" "?m \<le> b" "0 < l" "b + l \<le> 2 ^ 32" "apart (b + l + 1) ws"
    using assms(1) unfolding apart_append v by simp_all
  have ws: "apart ?m ws" using a(2,5) by (elim apart_mono) simp
  show "apart lo (us @ bite_iv n v @ ws)"
    unfolding apart_append [of lo us] using a ws assms(2,3) by (auto simp: bite_iv_def v split: if_splits)
  have "x \<notin> ivs_set us" if "b \<le> x" for x
  proof
    assume "x \<in> ivs_set us"
    then have "us \<noteq> []" by auto
    have "x < fst (last us) + snd (last us)"
      using a(1) \<open>x \<in> ivs_set us\<close> by (rule ivs_set_last)
    then show False using a(2) that \<open>us \<noteq> []\<close> by simp
  qed
  moreover have "x \<notin> ivs_set ws" if "x < b + l" for x
    using apart_bound [OF a(5), of x] that by auto
  ultimately show "ivs_set (us @ bite_iv n v @ ws) = ivs_set (us @ v # ws) - iv_set (fst v, n)"
    using assms(3) by (auto simp: v bite_iv_def)
  show "iv_set (fst v, n) \<subseteq> ivs_set (us @ v # ws)" using assms(3) by (auto simp: v)
qed

abbreviation blk :: "u32 \<Rightarrow> u32 \<Rightarrow> nat set" where
  "blk b n \<equiv> {unat b ..< unat b + unat n}"

lemma bite_at:
  assumes h: "holes s vs" and ch: "hchains s (us @ hp # ws) ks" and iv: "map (hole_iv s) (us @ hp # ws) = vs"
    and n: "n \<noteq> 0" "n \<le> h_len (hole_tab s hp)"
  shows "\<exists>s' vs'. bite_hole (last_opt us) hp n s = Inr (h_base (hole_tab s hp), s') \<and> holes s' vs' \<and> hole_frame s s' \<and>
    blk (h_base (hole_tab s hp)) n \<subseteq> ivs_set vs \<and> ivs_set vs' = ivs_set vs - blk (h_base (hole_tab s hp)) n \<and>
    length vs' \<le> length vs \<and> h_base (hole_tab s hp) \<noteq> 0 \<and> unat (h_base (hole_tab s hp)) + unat n \<le> 2 ^ 32"
proof -
  let ?b = "unat (h_base (hole_tab s hp))" and ?l = "unat (h_len (hole_tab s hp))" and ?n = "unat n"
  have ap: "apart 1 vs" using h by (auto simp: holes_def)
  from h obtain hs2 ks2 where hs2: "hchains s hs2 ks2" "length hs2 + length ks2 = 128" by (auto simp: holes_def)
  have "hs2 = us @ hp # ws" "ks2 = ks"
    using hs2(1) ch chain_unique unfolding hchains_def by metis+
  then have len: "length us + length ws + length ks = 127" using hs2(2) by simp
  have nl: "?n \<le> ?l" using n(2) by (simp add: word_le_nat_alt)
  have vs: "vs = map (hole_iv s) us @ (?b, ?l) # map (hole_iv s) ws" using iv by (simp add: hole_iv_def)
  have bl: "1 \<le> ?b" "?b + ?l \<le> 2 ^ 32" using apart_mem [OF ap, of "(?b, ?l)"] by (simp_all add: vs)
  from bite_hole_ok [OF ch nl] bl(2) obtain s' xs ks' where
    s': "bite_hole (last_opt us) hp n s = Inr (h_base (hole_tab s hp), s')" "hchains s' (us @ xs @ ws) ks'" "hole_frame s s'"
      "map (hole_iv s') xs = bite_iv ?n (?b, ?l)" "map (hole_iv s') (us @ ws) = map (hole_iv s) (us @ ws)"
      "length xs + length ks' = Suc (length ks)" by (auto simp: hole_iv_def)
  let ?vs = "map (hole_iv s) us @ bite_iv ?n (?b, ?l) @ map (hole_iv s) ws"
  have n0: "0 < ?n" using n(1) by (simp add: unat_gt_0)
  note bite = apart_bite [OF ap [unfolded vs] n0, simplified, OF nl]
  have "map (hole_iv s') us = map (hole_iv s) us" "map (hole_iv s') ws = map (hole_iv s) ws" using s'(5) by auto
  then have "map (hole_iv s') (us @ xs @ ws) = ?vs" using s'(4) by (simp only: map_append)
  moreover have "length (us @ xs @ ws) + length ks' = 128" using len s'(6) by simp
  moreover have "apart 1 ?vs" using bite(1) by simp
  ultimately have "holes s' ?vs" using s'(2) unfolding holes_def by blast
  moreover have "length ?vs \<le> length vs" by (simp add: vs bite_iv_def)
  moreover have "h_base (hole_tab s hp) \<noteq> 0" using bl(1) by (auto simp: unat_gt_0 Suc_le_eq)
  moreover have "ivs_set ?vs = ivs_set vs - blk (h_base (hole_tab s hp)) n" "blk (h_base (hole_tab s hp)) n \<subseteq> ivs_set vs"
    using bite(2,3) by (simp_all add: vs)
  ultimately show ?thesis using s'(1,3) bl(2) nl by (intro exI [of _ s'] exI [of _ ?vs]) simp
qed

lemma takeWhile_map_iv: "map f (takeWhile (\<lambda>x. P (f x)) xs) = takeWhile P (map f xs)"
  by (induction xs) auto

theorem first_fit_holes:
  assumes h: "holes s vs" and n: "n \<noteq> 0"
  shows "case fit_iv (unat (swap_base s)) (unat n) vs of
      None \<Rightarrow> first_fit n s = Inr (None, s)
    | Some b \<Rightarrow> \<exists>s' vs'. first_fit n s = Inr (Some (of_nat b), s') \<and> holes s' vs' \<and> hole_frame s s' \<and>
        iv_set (b, unat n) \<subseteq> ivs_set vs \<and> ivs_set vs' = ivs_set vs - iv_set (b, unat n) \<and>
        length vs' \<le> length vs \<and> 0 < b \<and> b < unat (swap_base s)"
proof -
  let ?sb = "unat (swap_base s)" and ?n = "unat n"
  from h obtain hs ks where hs: "hchains s hs ks" "map (hole_iv s) hs = vs" "apart 1 vs" "length hs + length ks = 128"
    by (auto simp: holes_def)
  let ?P = "\<lambda>v :: iv. fst v < ?sb \<and> snd v < ?n"
  let ?stop = "\<lambda>x. \<not> h_base (hole_tab s x) < swap_base s \<or> n \<le> h_len (hole_tab s x)"
  define us where "us = takeWhile (\<lambda>x. \<not> ?stop x) hs"
  define ws where "ws = dropWhile (\<lambda>x. \<not> ?stop x) hs"
  have split: "hs = us @ ws" by (simp add: us_def ws_def)
  have stop: "\<not> ?stop x \<longleftrightarrow> ?P (hole_iv s x)" for x
    by (simp add: hole_iv_def word_less_nat_alt word_le_nat_alt not_le)
  have us: "map (hole_iv s) us = takeWhile ?P vs" "map (hole_iv s) ws = dropWhile ?P vs"
    unfolding hs(2) [symmetric] us_def ws_def stop takeWhile_map dropWhile_map by (simp_all add: comp_def)
  have links: "hl.links s (us @ ws) None" using chains_links(1) [OF hs(1)] by (simp only: split)
  have w: "walk (\<lambda>l. hl_get l s) ?stop Head = Some (loc_after us)"
    using hl.walk_whole [OF chains_links(1) [OF hs(1)], of ?stop] by (simp add: us_def)
  show ?thesis
  proof (cases "fit_iv ?sb ?n vs")
    case None
    have "first_fit n s = Inr (None, s)"
    proof (cases ws)
      case Nil
      then have "hl_get (loc_after us) s = None" using links by (intro hl.get_loc_after) simp
      then show ?thesis unfolding first_fit_def w by simp
    next
      case (Cons hp ws')
      then have "hl_get (loc_after us) s = Some hp" using links by (intro hl.get_loc_after) auto
      moreover have "\<not> fst (hole_iv s hp) < ?sb"
        using fit_iv_None [OF None] Cons us(2) by (metis list.discI list.map(2) list.sel(1))
      then have "\<not> h_base (hole_tab s hp) < swap_base s" by (simp add: hole_iv_def word_less_nat_alt)
      ultimately show ?thesis unfolding first_fit_def w by simp
    qed
    then show ?thesis using None by simp
  next
    case (Some b)
    from fit_iv_split [OF Some] obtain l zs where
      z: "vs = takeWhile ?P vs @ (b, l) # zs" "?n \<le> l" "b < ?sb" by blast
    then have "dropWhile ?P vs = (b, l) # zs" by (metis same_append_eq takeWhile_dropWhile_id)
    then obtain hp ws' where c: "ws = hp # ws'" "hole_iv s hp = (b, l)" "map (hole_iv s) ws' = zs"
      using us(2) by (cases ws) auto
    have g: "hl_get (loc_after us) s = Some hp" using links c(1) by (intro hl.get_loc_after) auto
    have hb: "unat (h_base (hole_tab s hp)) = b" "unat (h_len (hole_tab s hp)) = l" using c(2) by (simp_all add: hole_iv_def)
    have vs: "vs = map (hole_iv s) us @ (b, l) # zs" using z(1) us(1) by simp
    have bl: "1 \<le> b" "b + l \<le> 2 ^ 32" using apart_mem [OF hs(3), of "(b, l)"] by (simp_all add: vs)
    have nl: "n \<le> h_len (hole_tab s hp)" using hb(2) z(2) by (simp add: word_le_nat_alt)
    from bite_at [OF h hs(1) [unfolded split c(1)] hs(2) [unfolded split c(1)] n nl] obtain s' vs' where
      s': "bite_hole (last_opt us) hp n s = Inr (h_base (hole_tab s hp), s')" "holes s' vs'" "hole_frame s s'"
        "blk (h_base (hole_tab s hp)) n \<subseteq> ivs_set vs" "ivs_set vs' = ivs_set vs - blk (h_base (hole_tab s hp)) n"
        "length vs' \<le> length vs" "h_base (hole_tab s hp) \<noteq> 0" by blast
    have "first_fit n s = Inr (Some (of_nat b), s')"
      unfolding first_fit_def w using g hb(1) z(3) s'(1) by (auto simp: loc_owner_after word_less_nat_alt)
    then show ?thesis using Some s' hb(1) z(3) by (auto simp: unat_gt_0 [symmetric])
  qed
qed

section \<open>The interface of the allocator\<close>

text \<open>Separated intervals are determined by the clicks they cover.\<close>

lemma apart_unique:
  assumes "apart lo us" and "apart lo vs" and "ivs_set us = ivs_set vs"
  shows "us = vs"
  using assms
proof (induction us arbitrary: lo vs)
  case Nil
  then show ?case by (cases vs) auto
next
  case (Cons u us)
  obtain b l where u: "u = (b, l)" by (cases u)
  have a: "lo \<le> b" "0 < l" "apart (b + l + 1) us" using Cons.prems(1) by (simp_all add: u)
  then have "b \<in> ivs_set (u # us)" by (simp add: u)
  then have "vs \<noteq> []" using Cons.prems(3) by auto
  then obtain c k ws where vs: "vs = (c, k) # ws" by (cases vs) auto
  have d: "lo \<le> c" "0 < k" "apart (c + k + 1) ws" using Cons.prems(2) by (simp_all add: vs)
  have U: "x \<in> ivs_set (u # us) \<longleftrightarrow> b \<le> x \<and> x < b + l \<or> b + l + 1 \<le> x \<and> x \<in> ivs_set us" for x
    using apart_bound [OF a(3), of x] by (auto simp: u)
  have V: "x \<in> ivs_set vs \<longleftrightarrow> c \<le> x \<and> x < c + k \<or> c + k + 1 \<le> x \<and> x \<in> ivs_set ws" for x
    using apart_bound [OF d(3), of x] by (auto simp: vs)
  have eq: "x \<in> ivs_set (u # us) \<longleftrightarrow> x \<in> ivs_set vs" for x using Cons.prems(3) by simp
  have bc: "b = c" using eq [of b] eq [of c] U [of b] U [of c] V [of b] V [of c] a(2) d(2) by linarith
  have lk: "l = k"
  proof (rule ccontr)
    assume "l \<noteq> k"
    then have "l < k \<or> k < l" by linarith
    then show False
      using eq [of "b + l"] eq [of "b + k"] U [of "b + l"] U [of "b + k"] V [of "b + l"] V [of "b + k"] bc by auto
  qed
  have "ivs_set us = ivs_set ws"
  proof (rule set_eqI)
    fix x
    show "x \<in> ivs_set us \<longleftrightarrow> x \<in> ivs_set ws"
      using eq [of x] U [of x] V [of x] bc lk apart_bound [OF a(3), of x] apart_bound [OF d(3), of x] by auto
  qed
  then show ?case using Cons.IH [OF a(3)] d(3) bc lk by (simp add: u vs)
qed

definition free_clicks :: "pmstate \<Rightarrow> nat set \<Rightarrow> nat \<Rightarrow> bool" where
  "free_clicks s F k \<longleftrightarrow> (\<exists>vs. holes s vs \<and> ivs_set vs = F \<and> length vs = k)"

text \<open>
  What fork, exec, exit and the swapper rely on. \<open>rep s F k\<close>: the clicks \<open>F\<close> are free, in \<open>k\<close> pieces;
  a block that is taken was free and is free no longer; a block given back is free again; the
  set of the free clicks determines the number of the pieces.
\<close>

locale block_store =
  fixes rep :: "'s \<Rightarrow> nat set \<Rightarrow> nat \<Rightarrow> bool"
    and take :: "u32 \<Rightarrow> 's \<Rightarrow> (u32 option \<times> 's) res"
    and give :: "u32 \<Rightarrow> u32 \<Rightarrow> 's \<Rightarrow> 's res"
    and frame :: "'s \<Rightarrow> 's \<Rightarrow> bool" and room :: nat
  assumes take_law: "rep s F k \<Longrightarrow> n \<noteq> 0 \<Longrightarrow> \<exists>r s'. take n s = Inr (r, s') \<and> frame s s' \<and>
      (case r of None \<Rightarrow> s' = s
       | Some b \<Rightarrow> b \<noteq> 0 \<and> unat b + unat n \<le> 2 ^ 32 \<and> blk b n \<subseteq> F \<and> (\<exists>k' \<le> k. rep s' (F - blk b n) k'))"
    and give_law: "rep s F k \<Longrightarrow> k < room \<Longrightarrow> n \<noteq> 0 \<Longrightarrow> b \<noteq> 0 \<Longrightarrow> unat b + unat n \<le> 2 ^ 32 \<Longrightarrow>
      blk b n \<inter> F = {} \<Longrightarrow> \<exists>s' k'. give b n s = Inr s' \<and> frame s s' \<and> rep s' (F \<union> blk b n) k' \<and> k' \<le> k + 1"
    and pieces: "rep s F k \<Longrightarrow> rep s' F k' \<Longrightarrow> k = k'"
begin

lemma give_after_take:
  assumes "rep s F k" and "k < room" and "n \<noteq> 0" and "take n s = Inr (Some b, s')"
  shows "\<exists>s''. give b n s' = Inr s'' \<and> rep s'' F k"
proof -
  from take_law [OF assms(1,3)] assms(4) obtain k' where
    t: "b \<noteq> 0" "unat b + unat n \<le> 2 ^ 32" "blk b n \<subseteq> F" "k' \<le> k" "rep s' (F - blk b n) k'" by auto
  from give_law [OF t(5) _ assms(3) t(1,2)] t(4) assms(2) obtain s'' k'' where
    g: "give b n s' = Inr s''" "rep s'' (F - blk b n \<union> blk b n) k''" by auto
  have "F - blk b n \<union> blk b n = F" using t(3) by auto
  then show ?thesis using g pieces [OF assms(1)] by metis
qed

lemma two_blocks_apart:
  assumes "rep s F k" and "n \<noteq> 0" and "m \<noteq> 0"
    and "take n s = Inr (Some b, s')" and "take m s' = Inr (Some c, s'')"
  shows "blk b n \<inter> blk c m = {}"
proof -
  from take_law [OF assms(1,2)] assms(4) obtain k' where r: "rep s' (F - blk b n) k'" by auto
  from take_law [OF r assms(3)] assms(5) have "blk c m \<subseteq> F - blk b n" by simp
  then show ?thesis by blast
qed

end

interpretation mem: block_store free_clicks first_fit free_mem hole_frame NR_HOLES
proof
  fix s F k n
  assume r: "free_clicks s F k" and n: "(n::u32) \<noteq> 0"
  then obtain vs where vs: "holes s vs" "ivs_set vs = F" "length vs = k" by (auto simp: free_clicks_def)
  have top: "x < 2 ^ 32" if "x \<in> F" for x using vs apart_bound [of 1 vs x] that by (auto simp: holes_def)
  show "\<exists>r s'. first_fit n s = Inr (r, s') \<and> hole_frame s s' \<and> (case r of None \<Rightarrow> s' = s
       | Some b \<Rightarrow> b \<noteq> 0 \<and> unat b + unat n \<le> 2 ^ 32 \<and> blk b n \<subseteq> F \<and> (\<exists>k' \<le> k. free_clicks s' (F - blk b n) k'))"
  proof (cases "fit_iv (unat (swap_base s)) (unat n) vs")
    case None
    then show ?thesis using first_fit_holes [OF vs(1) n] by auto
  next
    case (Some b)
    with first_fit_holes [OF vs(1) n] obtain s' vs' where
      s': "first_fit n s = Inr (Some (of_nat b), s')" "holes s' vs'" "iv_set (b, unat n) \<subseteq> F"
        "ivs_set vs' = F - iv_set (b, unat n)" "length vs' \<le> k" "0 < b" "hole_frame s s'" by (auto simp: vs)
    have n0: "0 < unat n" using n by (simp add: unat_gt_0)
    then have "b \<in> F" "b + unat n - 1 \<in> F" using s'(3) by auto
    then have b: "b < 2 ^ 32" "b + unat n \<le> 2 ^ 32" using top n0 by fastforce+
    then have ub: "unat (of_nat b :: u32) = b" by (simp add: unat_of_nat)
    then have "of_nat b \<noteq> (0::u32)" using s'(6) by (metis less_irrefl unat_0)
    then show ?thesis using s' b ub by (auto simp: free_clicks_def)
  qed
next
  fix s F k n b
  assume r: "free_clicks s F k" and k: "k < NR_HOLES" and a: "(n::u32) \<noteq> 0" "(b::u32) \<noteq> 0"
    "unat b + unat n \<le> 2 ^ 32" "blk b n \<inter> F = {}"
  then obtain vs where vs: "holes s vs" "ivs_set vs = F" "length vs = k" by (auto simp: free_clicks_def)
  have p: "length vs < NR_HOLES" "iv_set (unat b, unat n) \<inter> ivs_set vs = {}" using vs(2,3) k a(4) by simp_all
  from free_mem_holes [OF vs(1) p(1) a(1-3) p(2)] obtain s' vs' where
    s': "free_mem b n s = Inr s'" "holes s' vs'" "ivs_set vs' = F \<union> blk b n" "length vs' \<le> k + 1" "hole_frame s s'"
    unfolding vs(2,3) fst_conv snd_conv by blast
  then have "free_clicks s' (F \<union> blk b n) (length vs')" unfolding free_clicks_def by blast
  then show "\<exists>s' k'. free_mem b n s = Inr s' \<and> hole_frame s s' \<and> free_clicks s' (F \<union> blk b n) k' \<and> k' \<le> k + 1"
    using s'(1,4,5) by blast
next
  fix s s' F k k'
  assume "free_clicks s F k" "free_clicks s' F k'"
  then obtain us vs where "apart 1 us" "apart 1 vs" "ivs_set us = F" "ivs_set vs = F" "length us = k" "length vs = k'"
    unfolding free_clicks_def holes_def by metis
  then show "k = k'" using apart_unique [of 1 us vs] by simp
qed

section \<open>The initial table\<close>

lemma chain_upt:
  assumes "\<And>x. i \<le> x \<Longrightarrow> x < n \<Longrightarrow> nxt x = (if Suc x < n then Some (Suc x) else None)" and "i < n"
  shows "chain nxt (Some i) [i..<n]"
  using assms
proof (induction "n - i" arbitrary: i)
  case (Suc d)
  show ?case
  proof (cases "Suc i < n")
    case True
    then have "chain nxt (Some (Suc i)) [Suc i..<n]" using Suc by (intro Suc.hyps(1)) auto
    then show ?thesis using Suc.prems True by (simp add: upt_conv_Cons)
  next
    case False
    then have "n = Suc i" using Suc.prems(2) by simp
    then show ?thesis using Suc.prems(1) [of i] by simp
  qed
qed simp

text \<open>The chunks of memory that the boot monitor reports: not at address 0 and not overlapping.\<close>

fun chunks_ok :: "nat set \<Rightarrow> (u32 \<times> u32) list \<Rightarrow> bool" where
  "chunks_ok F [] = True"
| "chunks_ok F ((b, n) # cs) = ((n \<noteq> 0 \<longrightarrow> b \<noteq> 0 \<and> unat b + unat n + 1 < 2 ^ 32 \<and> blk b n \<inter> F = {}) \<and>
     chunks_ok (F \<union> blk b n) cs)"

definition chunk_set :: "(u32 \<times> u32) list \<Rightarrow> nat set" where
  "chunk_set cs = (\<Union>(b, n)\<in>set cs. blk b n)"

lemma free_clicks_swap [simp]:
  "free_clicks (s\<lparr>swap_base := x\<rparr>) F k = free_clicks s F k"
  "free_clicks (s\<lparr>swap_maxsize := x\<rparr>) F k = free_clicks s F k"
  by (simp_all add: free_clicks_def holes_def hchains_def hnx_def [abs_def] hole_iv_def [abs_def])

lemma init_chunks_ok:
  assumes "free_clicks s F k" and "chunks_ok F cs" and "k + length cs \<le> NR_HOLES"
    and "\<forall>x \<in> F. x < unat (swap_base s)"
  shows "\<exists>s' k'. init_chunks cs fr0 s = Inr (fr0 + sum_list (map snd cs), s') \<and> free_clicks s' (F \<union> chunk_set cs) k' \<and>
    (\<forall>x \<in> F \<union> chunk_set cs. x < unat (swap_base s')) \<and>
    (unat (swap_base s') = unat (swap_base s) \<or> (\<exists>x \<in> chunk_set cs. unat (swap_base s') = x + 1 \<and> x + 2 < 2 ^ 32))"
  using assms
proof (induction cs arbitrary: F k fr0 s)
  case Nil
  then show ?case by (auto simp: chunk_set_def)
next
  case (Cons c cs)
  obtain b n where c: "c = (b, n)" by (cases c)
  show ?case
  proof (cases "n = 0")
    case True
    then show ?thesis using Cons.IH [of s F k fr0] Cons.prems by (simp add: c chunk_set_def)
  next
    case False
    then have ok: "b \<noteq> 0" "unat b + unat n + 1 < 2 ^ 32" "blk b n \<inter> F = {}" "chunks_ok (F \<union> blk b n) cs"
      using Cons.prems(2) by (simp_all add: c)
    from mem.give_law [OF Cons.prems(1) _ False ok(1) _ ok(3)] ok(2) Cons.prems(3) obtain s1 k1 where
      s1: "free_mem b n s = Inr s1" "free_clicks s1 (F \<union> blk b n) k1" "k1 \<le> k + 1" "hole_frame s s1" by auto
    have sb: "swap_base s1 = swap_base s" using hole_frame_eqs [OF s1(4)] by simp
    let ?s2 = "if swap_base s1 < b + n then s1\<lparr>swap_base := b + n\<rparr> else s1"
    have bn: "unat (b + n) = unat b + unat n" using ok(2) by (simp add: unat_word_ariths)
    have n0: "0 < unat n" using False by (simp add: unat_gt_0)
    have f2: "free_clicks ?s2 (F \<union> blk b n) k1" using s1(2) by simp
    have t2: "\<forall>x \<in> F \<union> blk b n. x < unat (swap_base ?s2)"
      using Cons.prems(4) bn sb by (auto simp: word_less_nat_alt)
    from Cons.IH [OF f2 ok(4) _ t2, of "fr0 + n"] s1(3) Cons.prems(3) obtain s' k' where
      s': "init_chunks cs (fr0 + n) ?s2 = Inr (fr0 + n + sum_list (map snd cs), s')" "free_clicks s' (F \<union> blk b n \<union> chunk_set cs) k'"
        "\<forall>x \<in> F \<union> blk b n \<union> chunk_set cs. x < unat (swap_base s')"
        "unat (swap_base s') = unat (swap_base ?s2) \<or> (\<exists>x \<in> chunk_set cs. unat (swap_base s') = x + 1 \<and> x + 2 < 2 ^ 32)" by auto
    have cs: "chunk_set (c # cs) = blk b n \<union> chunk_set cs" by (simp add: chunk_set_def c)
    have "unat (swap_base ?s2) = unat (swap_base s) \<or> (\<exists>x \<in> blk b n. unat (swap_base ?s2) = x + 1 \<and> x + 2 < 2 ^ 32)"
      using bn sb n0 ok(2) by (auto intro!: bexI [of _ "unat b + unat n - 1"])
    then have last: "unat (swap_base s') = unat (swap_base s) \<or> (\<exists>x \<in> chunk_set (c # cs). unat (swap_base s') = x + 1 \<and> x + 2 < 2 ^ 32)"
      using s'(4) unfolding cs by fastforce
    have "init_chunks (c # cs) fr0 s = Inr (fr0 + sum_list (map snd (c # cs)), s')" using False s1(1) s'(1) by (simp add: c word_gt_0 add.assoc)
    then show ?thesis using s'(2,3) last unfolding cs Un_assoc by blast
  qed
qed

lemma chunk_set_rev [simp]: "chunk_set (rev cs) = chunk_set cs"
  by (simp add: chunk_set_def)

lemma mem_init_holes:
  assumes "chunks_ok {} (rev cs)" and "length cs \<le> NR_HOLES" and "swap_base s = 0"
  shows "\<exists>s' k. mem_init cs s = Inr (sum_list (map snd cs), s') \<and> free_clicks s' (chunk_set cs) k \<and>
    (\<forall>x \<in> chunk_set cs. x + 1 < unat (swap_base s'))"
proof -
  let ?s1 = "s\<lparr>hole_tab := (\<lambda>i. (hole_tab s i)\<lparr>h_next := (if i < NR_HOLES then Some (i + 1) else h_next (hole_tab s i))\<rparr>)\<rparr>"
  let ?s3 = "(set_hole 127 ((hole_tab ?s1 127)\<lparr>h_next := None\<rparr>) ?s1)\<lparr>hole_head := None, free_slots := Some 0\<rparr>"
  have "chain (hnx ?s3) (Some 0) [0..<128]"
    by (rule chain_upt) (auto simp: hnx_def set_hole_def)
  then have "hchains ?s3 [] [0..<128]" by (simp add: hchains_def)
  then have "holes ?s3 []" unfolding holes_def by (intro exI [of _ "[]"] exI [of _ "[0..<128]"]) simp
  then have f: "free_clicks ?s3 {} 0" unfolding free_clicks_def by (intro exI [of _ "[]"]) simp
  have "swap_base ?s3 = 0" using assms(3) by (simp add: set_hole_def)
  with init_chunks_ok [OF f assms(1), of 0] assms(2) obtain s4 k where
    s4: "init_chunks (rev cs) 0 ?s3 = Inr (sum_list (map snd cs), s4)" "free_clicks s4 (chunk_set cs) k"
      "\<forall>x \<in> chunk_set cs. x < unat (swap_base s4)"
      "swap_base s4 = 0 \<or> (\<exists>x \<in> chunk_set cs. unat (swap_base s4) = x + 1 \<and> x + 2 < 2 ^ 32)"
    by (auto simp: rev_map [symmetric] unat_eq_0)
  have "unat (swap_base s4) + 1 < 2 ^ 32" using s4(4) by auto
  then have "unat (swap_base s4 + 1) = unat (swap_base s4) + 1" by (simp add: unat_word_ariths)
  then show ?thesis using s4 by (auto simp: mem_init_def Let_def)
qed

section \<open>Properties\<close>

text \<open>A table with one hole of 1024 clicks at click 256 and the swap area from click 4096 on.\<close>

definition sample_hole :: "nat \<Rightarrow> hole" where
  "sample_hole i = \<lparr>h_next = (if i = 0 then None else if i < 127 then Some (i + 1) else None), h_base = 256, h_len = 1024\<rparr>"

definition sample_mproc :: mproc where
  "sample_mproc =
     \<lparr>mp_seg = (\<lambda>_. \<lparr>mem_vir = 0, mem_phys = 0, mem_len = 0\<rparr>), mp_exitstatus = 0, mp_sigstatus = 0, mp_pid = 0,
      mp_procgrp = 0, mp_wpid = 0, mp_parent = 0, mp_child_utime = 0, mp_child_stime = 0, mp_realuid = 0, mp_effuid = 0,
      mp_realgid = 0, mp_effgid = 0, mp_ino = 0, mp_dev = 0, mp_ctime = 0, mp_ignore = 0, mp_catch = 0, mp_sig2mess = 0,
      mp_sigmask = 0, mp_sigmask2 = 0, mp_sigpending = 0, mp_sigact = (\<lambda>_. \<lparr>sa_handler = 0, sa_mask = 0, sa_flags = 0\<rparr>),
      mp_sigreturn = 0, mp_flags = 0, mp_procargs = 0, mp_swapq = None,
      mp_reply = \<lparr>m_source = 0, m_type = 0, m_w = (\<lambda>_. 0)\<rparr>, mp_nice = 0, mp_name = []\<rparr>"

definition sample_pm :: pmstate where
  "sample_pm =
     \<lparr>hole_tab = sample_hole, hole_head = Some 0, free_slots = Some 1, swap_fd = - 1, swap_offset = 0, swap_base = 4096,
      swap_maxsize = 0, in_queue = None, outswap = 0, mproc_tab = (\<lambda>_. sample_mproc), pm_mp = 0, procs_in_use = 0,
      pm_in = \<lparr>m_source = 0, m_type = 0, m_w = (\<lambda>_. 0)\<rparr>, pm_who = 0, pm_call_nr = 0, core_sset = 0, ign_sset = 0, next_pid = 2,
      pm_timers = \<lparr>theap = (\<lambda>_. \<lparr>tmr_next = None, tmr_exp_time = TMR_NEVER, tmr_func = NoPmWatchdog, tmr_arg = 0\<rparr>), thead = None\<rparr>,
      boottime = 0, exec_mbuf = [], exec_name = [], monitor_params = [0], local_params = [], pm_log = []\<rparr>"

lemma holes_sample: "holes sample_pm [(256, 1024)]"
proof -
  have "chain (hnx sample_pm) (Some 1) [1..<128]"
    by (rule chain_upt) (auto simp: hnx_def sample_pm_def sample_hole_def)
  then have "hchains sample_pm [0] [1..<128]" by (simp add: hchains_def sample_pm_def hnx_def sample_hole_def)
  then show ?thesis unfolding holes_def
    by (intro exI [of _ "[0]"] exI [of _ "[1..<128]"]) (simp add: hole_iv_def sample_pm_def sample_hole_def)
qed

text \<open>
  C26: freeing memory. A block that was not free is put back by \<open>free_mem\<close>: the free clicks are those
  from before and those of the block, and the holes are again sorted, disjoint, not empty and
  merged wherever they touch; nothing else of the process manager changes.
\<close>

theorem free_mem_merges:
  assumes "holes s vs" and "length vs < NR_HOLES" and "clicks \<noteq> 0" and "base \<noteq> 0"
    and "unat base + unat clicks \<le> 2 ^ 32" and "blk base clicks \<inter> ivs_set vs = {}"
  shows "\<exists>s' vs'. free_mem base clicks s = Inr s' \<and> holes s' vs' \<and> hole_frame s s' \<and>
    ivs_set vs' = ivs_set vs \<union> blk base clicks"
  using free_mem_holes [OF assms(1-5)] assms(6) by auto

theorem free_mem_merges_witness:
  "\<exists>s' vs'. free_mem 1280 16 sample_pm = Inr s' \<and> holes s' vs' \<and> ivs_set vs' = {256..<1296}"
proof -
  have "blk 1280 16 \<inter> ivs_set [(256, 1024)] = {}" by simp
  moreover have "{256..<1280} \<union> {1280..<1296} = {256..<1296::nat}" by auto
  ultimately show ?thesis using free_mem_merges [OF holes_sample, of 16 1280] by auto
qed

text \<open>
  allocation and release are inverse. Whatever hole \<open>alloc_mem\<close> bit a block off, freeing the block
  gives back exactly the list of holes from before.
\<close>

theorem free_after_alloc:
  assumes "holes s vs" and "length vs < NR_HOLES" and "n \<noteq> 0" and "first_fit n s = Inr (Some b, s')"
  shows "\<exists>s''. free_mem b n s' = Inr s'' \<and> holes s'' vs"
proof -
  have "free_clicks s (ivs_set vs) (length vs)" using assms(1) unfolding free_clicks_def by blast
  from mem.give_after_take [OF this assms(2-4)] obtain s'' vs' where
    s'': "free_mem b n s' = Inr s''" "holes s'' vs'" "ivs_set vs' = ivs_set vs" unfolding free_clicks_def by blast
  have "vs' = vs" using assms(1) s''(2,3) apart_unique [of 1 vs' vs] by (auto simp: holes_def)
  then show ?thesis using s'' by blast
qed

theorem free_after_alloc_witness:
  "\<exists>s' s''. first_fit 24 sample_pm = Inr (Some 256, s') \<and> free_mem 256 24 s' = Inr s'' \<and> holes s'' [(256, 1024)]"
proof -
  have "fit_iv (unat (swap_base sample_pm)) (unat (24::u32)) [(256, 1024)] = Some 256"
    by (simp add: sample_pm_def)
  with first_fit_holes [OF holes_sample, of 24] obtain s' where s': "first_fit 24 sample_pm = Inr (Some 256, s')" by auto
  then show ?thesis using free_after_alloc [OF holes_sample, of 24 256 s'] by auto
qed

end
