(* ===== verification/Pm_Swap.thy ===== *)
theory Pm_Swap
  imports Pm_Alloc
begin

unbundle bit_operations_syntax

text \<open>
  Swapping and the allocation of memory with it (\<open>servers/pm/alloc.c\<close>, \<open>rw_seg\<close> of \<open>exec.c\<close>).
  \<open>pm_mem L X s\<close> is the memory invariant of the process manager: the processes \<open>L\<close> own
  disjoint blocks, none of which is free; \<open>X\<close> is memory in other hands. The swap area has click
  numbers above those of the memory, so that a process that is swapped out owns a block there.
\<close>

section \<open>Reading and writing segments\<close>

fun seg_nr :: "seg \<Rightarrow> int" where
  "seg_nr T_seg = 0" | "seg_nr D_seg = 1" | "seg_nr S_seg = 2"

function rw_loop :: "pm_env \<Rightarrow> int \<Rightarrow> int \<Rightarrow> u32 \<Rightarrow> u32 \<Rightarrow> pmstate \<Rightarrow> pmstate" where
  "rw_loop env rw new_fd ubuf_ptr seg_bytes s =
     (if seg_bytes = 0 then s
      else let bytes = min 2147475456 seg_bytes;
               ((r, _), s1) = ask env (FsRw rw new_fd ubuf_ptr bytes) s
           in if r \<noteq> uint bytes then s1
              else rw_loop env rw new_fd (ubuf_ptr + bytes) (seg_bytes - bytes) s1)"
  by pat_completeness auto

termination
proof (relation "measure (\<lambda>(env, rw, fd, p, b, s). unat b)", goal_cases)
  case 1
  show ?case by simp
next
  case (2 env rw fd p b s x xa y xb ya)
  have "0 < min 2147475456 b" using 2(1) by (auto simp: min_def word_gt_0)
  then have "unat (b - min 2147475456 b) < unat b"
    by (simp add: unat_sub_if_size min_def word_le_nat_alt word_less_nat_alt split: if_splits)
  then show ?case by (simp add: 2(2))
qed

declare rw_loop.simps [simp del]

definition rw_seg :: "pm_env \<Rightarrow> int \<Rightarrow> int \<Rightarrow> int \<Rightarrow> seg \<Rightarrow> u32 \<Rightarrow> pmstate \<Rightarrow> pmstate" where
  "rw_seg env rw fd nr sg seg_bytes0 s =
     rw_loop env rw (push_bit 7 nr OR push_bit 5 (seg_nr sg) OR fd)
       (push_bit CLICK_SHIFT (mem_vir (mp_seg (mpr s nr) sg))) seg_bytes0 s"

section \<open>Swapping\<close>

fun sq_get :: "int loc \<Rightarrow> pmstate \<Rightarrow> int option" where
  "sq_get Head s = in_queue s"
| "sq_get (Next x) s = mp_swapq (mpr s x)"

fun sq_put :: "int loc \<Rightarrow> int option \<Rightarrow> pmstate \<Rightarrow> pmstate" where
  "sq_put Head p s = s\<lparr>in_queue := p\<rparr>"
| "sq_put (Next x) p s = upd_mp x (\<lambda>m. m\<lparr>mp_swapq := p\<rparr>) s"

interpretation sq: linked_list sq_get sq_put
proof
  fix l l' p s show "sq_get l (sq_put l' p s) = (if l = l' then p else sq_get l s)"
    by (cases l; cases l') auto
qed

definition swap_inqueue :: "int \<Rightarrow> pmstate \<Rightarrow> pmstate res" where
  "swap_inqueue rmp s =
     (if mfl s rmp AND SWAPIN \<noteq> 0 then Inr s
      else case walk (\<lambda>l. sq_get l s) (\<lambda>_. False) Head of
             None \<Rightarrow> Inl Hang
           | Some pmp \<Rightarrow>
               let s1 = sq_put pmp (Some rmp) s;
                   s2 = sq_put (Next rmp) None s1
               in Inr (set_mfl rmp (mfl s2 rmp OR SWAPIN) s2))"

text \<open>The memory of a process from its data to the end of its stack, in clicks.\<close>

definition prog_size :: "mproc \<Rightarrow> u32" where
  "prog_size p = mem_vir (mp_seg p S_seg) + mem_len (mp_seg p S_seg) - mem_vir (mp_seg p D_seg)"

definition set_data_phys :: "u32 \<Rightarrow> mproc \<Rightarrow> mproc" where
  "set_data_phys b p =
     (let d = mp_seg p D_seg; st = mp_seg p S_seg
      in p\<lparr>mp_seg := (mp_seg p)(D_seg := d\<lparr>mem_phys := b\<rparr>,
                               S_seg := st\<lparr>mem_phys := b + (mem_vir st - mem_vir d)\<rparr>)\<rparr>)"

definition swap_one :: "pm_env \<Rightarrow> int \<Rightarrow> pmstate \<Rightarrow> pmstate option res" where
  "swap_one env rmp s =
     (let sz = prog_size (mpr s rmp) in
      case walk (\<lambda>l. hl_get l s) (\<lambda>x. swap_base s \<le> h_base (hole_tab s x) \<and> sz \<le> h_len (hole_tab s x)) Head of
        None \<Rightarrow> Inl Hang
      | Some l \<Rightarrow>
          (case hl_get l s of
             None \<Rightarrow> Inr None
           | Some hp \<Rightarrow>
               bindr (bite_hole (loc_owner l) hp sz s) (\<lambda>(new_base, s1).
               let off = swap_offset s1 + push_bit CLICK_SHIFT (new_base - swap_base s1);
                   s2 = tell (FsLseek (swap_fd s1) off) s1;
                   s3 = rw_seg env 1 (swap_fd s2) rmp D_seg (push_bit CLICK_SHIFT sz) s2;
                   old_base = mem_phys (mp_seg (mpr s3 rmp) D_seg);
                   s4 = newmap rmp (upd_mp rmp (set_data_phys new_base) s3)
               in bindr (free_mem old_base sz s4) (\<lambda>s5.
                  Inr (Some ((set_mfl rmp (mfl s5 rmp OR ONSWAP) s5)\<lparr>outswap := rmp\<rparr>))))))"

definition swap_cand :: "u32 \<Rightarrow> bool" where
  "swap_cand f \<longleftrightarrow> f AND (PAUSED OR WAITING OR SIGSUSPENDED) \<noteq> 0 \<and>
     f AND (DONT_SWAP OR TRACED OR REPLY OR ONSWAP) = 0"

fun swap_scan :: "pm_env \<Rightarrow> int list \<Rightarrow> pmstate \<Rightarrow> (bool \<times> pmstate) res" where
  "swap_scan env [] s = Inr (False, s)"
| "swap_scan env (rmp # rs) s =
     (if \<not> swap_cand (mfl s rmp) then swap_scan env rs s
      else bindr (swap_one env rmp s) (\<lambda>r.
           case r of None \<Rightarrow> swap_scan env rs s | Some s' \<Rightarrow> Inr (True, s')))"

text \<open>The search starts behind the process swapped out last and goes once around the table.\<close>

definition swap_out :: "pm_env \<Rightarrow> pmstate \<Rightarrow> (bool \<times> pmstate) res" where
  "swap_out env s = swap_scan env ([outswap s + 1..63] @ [0..outswap s]) s"

partial_function (option) alloc_mem :: "pm_env \<Rightarrow> u32 \<Rightarrow> pmstate \<Rightarrow> (u32 \<times> pmstate) res option" where
  "alloc_mem env clicks s =
     (case first_fit clicks s of
        Inl e \<Rightarrow> Some (Inl e)
      | Inr (Some old_base, s1) \<Rightarrow> Some (Inr (old_base, s1))
      | Inr (None, s1) \<Rightarrow>
          (case swap_out env s1 of
             Inl e \<Rightarrow> Some (Inl e)
           | Inr (again, s2) \<Rightarrow> if again then alloc_mem env clicks s2 else Some (Inr (NO_MEM, s2))))"

definition swap_on :: "pm_env \<Rightarrow> u8 list \<Rightarrow> u32 \<Rightarrow> u32 \<Rightarrow> pmstate \<Rightarrow> (int \<times> pmstate) res" where
  "swap_on env file offset sz0 s =
     (if swap_fd s \<noteq> - 1 then Inr (EBUSY, s)
      else let s1 = tell (TellFs 12 (pm_who s) 0 0) s;
               ((r, _), s2) = ask env (FsOpen file) s1;
               s3 = s2\<lparr>swap_fd := (if r < 0 then - 1 else r)\<rparr>
           in if r < 0 then Inr (r, s3)
              else let s4 = s3\<lparr>swap_offset := offset\<rparr>;
                       sz1 = drop_bit CLICK_SHIFT sz0;
                       sz = (if sz1 > swap_maxsize s4 then swap_maxsize s4 else sz1)
                   in if sz > 0 then bindr (free_mem (swap_base s4) sz s4) (\<lambda>s5. Inr (OK, s5))
                      else Inr (OK, s4))"

section \<open>Results with a panic\<close>

text \<open>
  \<open>safe Ms r P\<close>: the code returned with \<open>P\<close>, or it panicked with one of the messages \<open>Ms\<close>; it did
  not follow a null pointer, index a table out of bounds or hang.
\<close>

definition safe :: "string set \<Rightarrow> 'a res \<Rightarrow> ('a \<Rightarrow> bool) \<Rightarrow> bool" where
  "safe Ms r P \<longleftrightarrow> (case r of Inl e \<Rightarrow> (\<exists>m \<in> Ms. e = Panic m) | Inr x \<Rightarrow> P x)"

lemma safe_simps [simp]:
  "safe Ms (Inr x) P \<longleftrightarrow> P x" "safe Ms (Inl (Panic m)) P \<longleftrightarrow> m \<in> Ms"
  by (auto simp: safe_def)

lemma safe_bind: "safe Ms r P \<Longrightarrow> (\<And>x. P x \<Longrightarrow> safe Ms (f x) Q) \<Longrightarrow> safe Ms (bindr r f) Q"
  by (cases r) (auto simp: safe_def)

lemma safe_mono: "safe Ms r P \<Longrightarrow> (\<And>x. P x \<Longrightarrow> Q x) \<Longrightarrow> safe Ms r Q"
  by (cases r) (auto simp: safe_def)

lemma safe_weaken: "safe Ms r P \<Longrightarrow> Ms \<subseteq> Ns \<Longrightarrow> safe Ns r P"
  by (cases r) (auto simp: safe_def)

lemma safe_ifI: "(c \<Longrightarrow> safe Ms a P) \<Longrightarrow> (\<not> c \<Longrightarrow> safe Ms b P) \<Longrightarrow> safe Ms (if c then a else b) P"
  by simp

abbreviation (input) full_msg :: string where "full_msg \<equiv> ''hole table full''"

section \<open>The memory invariant\<close>

definition dblk :: "mproc \<Rightarrow> nat set" where
  "dblk p = blk (mem_phys (mp_seg p D_seg)) (prog_size p)"

definition tblk :: "mproc \<Rightarrow> nat set" where
  "tblk p = blk (mem_phys (mp_seg p T_seg)) (mem_len (mp_seg p T_seg))"

definition seg_ok :: "mproc \<Rightarrow> bool" where
  "seg_ok p \<longleftrightarrow> prog_size p \<noteq> 0 \<and> mem_phys (mp_seg p D_seg) \<noteq> 0 \<and>
     unat (mem_phys (mp_seg p D_seg)) + unat (prog_size p) \<le> 2 ^ 32 \<and>
     (mem_len (mp_seg p T_seg) \<noteq> 0 \<longrightarrow> mem_phys (mp_seg p T_seg) \<noteq> 0 \<and>
        unat (mem_phys (mp_seg p T_seg)) + unat (mem_len (mp_seg p T_seg)) \<le> 2 ^ 32)"

definition file_of :: "mproc \<Rightarrow> u32 \<times> int \<times> int" where
  "file_of p = (mp_ino p, mp_dev p, mp_ctime p)"

text \<open>Two processes may execute the same text only if \<open>find_share\<close> can see that they do.\<close>

definition shares :: "mproc \<Rightarrow> mproc \<Rightarrow> bool" where
  "shares p q \<longleftrightarrow> tblk p = tblk q \<and> file_of p = file_of q \<and> mp_flags p AND SEPARATE \<noteq> 0 \<and> mp_flags q AND SEPARATE \<noteq> 0"

definition own_ok :: "int set \<Rightarrow> nat set \<Rightarrow> nat set \<Rightarrow> (int \<Rightarrow> mproc) \<Rightarrow> bool" where
  "own_ok L X F tab \<longleftrightarrow> X \<inter> F = {} \<and>
     (\<forall>n \<in> L. seg_ok (tab n) \<and> dblk (tab n) \<inter> (F \<union> X) = {} \<and> tblk (tab n) \<inter> (F \<union> X) = {}) \<and>
     (\<forall>n \<in> L. \<forall>m \<in> L. dblk (tab n) \<inter> tblk (tab m) = {}) \<and>
     (\<forall>n \<in> L. \<forall>m \<in> L. n \<noteq> m \<longrightarrow> dblk (tab n) \<inter> dblk (tab m) = {} \<and>
        (tblk (tab n) \<inter> tblk (tab m) = {} \<or> shares (tab n) (tab m)))"

definition pm_mem :: "int set \<Rightarrow> nat set \<Rightarrow> pmstate \<Rightarrow> bool" where
  "pm_mem L X s \<longleftrightarrow> (\<exists>F k. free_clicks s F k \<and> own_ok L X F (mproc_tab s))"

definition own_view :: "mproc \<Rightarrow> mem_map \<times> mem_map \<times> mem_map \<times> (u32 \<times> int \<times> int) \<times> u32" where
  "own_view p = (mp_seg p T_seg, mp_seg p D_seg, mp_seg p S_seg, file_of p, mp_flags p AND SEPARATE)"

lemma own_view_eqs:
  assumes "own_view p = own_view q"
  shows "dblk p = dblk q" "tblk p = tblk q" "seg_ok p = seg_ok q" "prog_size p = prog_size q" "file_of p = file_of q"
    "mp_flags p AND SEPARATE = mp_flags q AND SEPARATE"
  using assms by (simp_all add: own_view_def dblk_def tblk_def seg_ok_def prog_size_def)

lemma own_okD:
  assumes "own_ok L X F tab"
  shows "X \<inter> F = {}" "\<And>n. n \<in> L \<Longrightarrow> seg_ok (tab n)" "\<And>n. n \<in> L \<Longrightarrow> dblk (tab n) \<inter> F = {}"
    "\<And>n. n \<in> L \<Longrightarrow> dblk (tab n) \<inter> X = {}" "\<And>n. n \<in> L \<Longrightarrow> tblk (tab n) \<inter> F = {}" "\<And>n. n \<in> L \<Longrightarrow> tblk (tab n) \<inter> X = {}"
    "\<And>n m. n \<in> L \<Longrightarrow> m \<in> L \<Longrightarrow> dblk (tab n) \<inter> tblk (tab m) = {}"
    "\<And>n m. n \<in> L \<Longrightarrow> m \<in> L \<Longrightarrow> n \<noteq> m \<Longrightarrow> dblk (tab n) \<inter> dblk (tab m) = {}"
    "\<And>n m. n \<in> L \<Longrightarrow> m \<in> L \<Longrightarrow> n \<noteq> m \<Longrightarrow> tblk (tab n) \<inter> tblk (tab m) = {} \<or> shares (tab n) (tab m)"
  using assms by (simp_all add: own_ok_def Int_Un_distrib)

lemma own_okI:
  assumes "X \<inter> F = {}" "\<And>n. n \<in> L \<Longrightarrow> seg_ok (tab n)" "\<And>n. n \<in> L \<Longrightarrow> dblk (tab n) \<inter> F = {}"
    "\<And>n. n \<in> L \<Longrightarrow> dblk (tab n) \<inter> X = {}" "\<And>n. n \<in> L \<Longrightarrow> tblk (tab n) \<inter> F = {}" "\<And>n. n \<in> L \<Longrightarrow> tblk (tab n) \<inter> X = {}"
    "\<And>n m. n \<in> L \<Longrightarrow> m \<in> L \<Longrightarrow> dblk (tab n) \<inter> tblk (tab m) = {}"
    "\<And>n m. n \<in> L \<Longrightarrow> m \<in> L \<Longrightarrow> n \<noteq> m \<Longrightarrow> dblk (tab n) \<inter> dblk (tab m) = {}"
    "\<And>n m. n \<in> L \<Longrightarrow> m \<in> L \<Longrightarrow> n \<noteq> m \<Longrightarrow> tblk (tab n) \<inter> tblk (tab m) = {} \<or> shares (tab n) (tab m)"
  shows "own_ok L X F tab"
  using assms by (simp add: own_ok_def Int_Un_distrib)

lemma own_ok_mono:
  assumes "own_ok L X F tab" and "L' \<subseteq> L" and "X' \<subseteq> X"
  shows "own_ok L' X' F tab"
proof (rule own_okI)
  note d = own_okD [OF assms(1)] and sub = subsetD [OF assms(2)]
  show "X' \<inter> F = {}" using d(1) assms(3) by blast
  show "dblk (tab n) \<inter> X' = {}" "tblk (tab n) \<inter> X' = {}" if "n \<in> L'" for n
    using d(4,6) [OF sub [OF that]] assms(3) by blast+
qed (use own_okD [OF assms(1)] assms(2) in \<open>simp_all add: subset_iff\<close>)

text \<open>A block of free memory changes hands.\<close>

lemma own_ok_take:
  assumes "own_ok L X F tab" and "B \<subseteq> F"
  shows "X \<inter> B = {}" and "own_ok L (X \<union> B) (F - B) tab"
proof -
  note d = own_okD [OF assms(1)]
  show "X \<inter> B = {}" using d(1) assms(2) by blast
  have b: "dblk (tab n) \<inter> B = {}" "tblk (tab n) \<inter> B = {}" "dblk (tab n) \<inter> (F - B) = {}" "tblk (tab n) \<inter> (F - B) = {}"
    if "n \<in> L" for n using d(3,5) [OF that] assms(2) by blast+
  show "own_ok L (X \<union> B) (F - B) tab"
  proof (rule own_okI)
    show "(X \<union> B) \<inter> (F - B) = {}" using d(1) by blast
  qed (simp_all add: b d Int_Un_distrib)
qed

lemma own_ok_give:
  assumes "own_ok L (X \<union> B) F tab" and "X \<inter> B = {}"
  shows "own_ok L X (F \<union> B) tab"
  using own_okD [OF assms(1)] assms(2) by (intro own_okI) (simp_all add: Int_Un_distrib Int_Un_distrib2)

lemma own_ok_cong:
  assumes "own_ok L X F tab" and "\<And>n. n \<in> L \<Longrightarrow> own_view (tab' n) = own_view (tab n)"
  shows "own_ok L X F tab'"
  using assms(1) own_view_eqs [OF assms(2)] by (simp add: own_ok_def shares_def)

lemma free_clicks_cong:
  "hole_tab s' = hole_tab s \<Longrightarrow> hole_head s' = hole_head s \<Longrightarrow> free_slots s' = free_slots s \<Longrightarrow>
    free_clicks s' F k = free_clicks s F k"
  by (simp add: free_clicks_def holes_def hchains_def hnx_def [abs_def] hole_iv_def [abs_def])

lemma pm_mem_cong:
  assumes "pm_mem L X s" and "hole_tab s' = hole_tab s" "hole_head s' = hole_head s" "free_slots s' = free_slots s"
    and "\<And>n. n \<in> L \<Longrightarrow> own_view (mpr s' n) = own_view (mpr s n)"
  shows "pm_mem L X s'"
  using assms(1,5) own_ok_cong unfolding pm_mem_def free_clicks_cong [OF assms(2-4)] by blast

lemma pm_mem_tell [simp]: "pm_mem L X (tell r s) = pm_mem L X s"
  by (simp add: pm_mem_def free_clicks_cong [of "tell r s" s])

lemma pm_mem_mono: "pm_mem L X s \<Longrightarrow> L' \<subseteq> L \<Longrightarrow> X' \<subseteq> X \<Longrightarrow> pm_mem L' X' s"
  unfolding pm_mem_def using own_ok_mono [of L X _ "mproc_tab s" L' X'] by blast

lemma hole_frame_mem:
  "hole_frame s s' \<Longrightarrow> free_clicks s' F k \<Longrightarrow> own_ok L X F (mproc_tab s) \<Longrightarrow> pm_mem L X s'"
  by (auto simp: pm_mem_def hole_frame_eqs)

lemma holes_full: "holes s vs \<Longrightarrow> length vs \<le> NR_HOLES"
  by (auto simp: holes_def)

lemma free_mem_store:
  assumes "free_clicks s F k" and "own_ok L (X \<union> blk b n) F (mproc_tab s)" and "X \<inter> blk b n = {}"
    and "n \<noteq> 0 \<Longrightarrow> b \<noteq> 0 \<and> unat b + unat n \<le> 2 ^ 32"
  shows "safe {full_msg} (free_mem b n s) (\<lambda>s'. hole_frame s s' \<and> (\<exists>k'. free_clicks s' (F \<union> blk b n) k') \<and>
    own_ok L X (F \<union> blk b n) (mproc_tab s))"
proof (cases "n = 0")
  case True
  then show ?thesis using assms(1,2) by (auto simp: free_mem_def)
next
  case False
  from assms(1) obtain vs where vs: "holes s vs" "length vs = k" by (auto simp: free_clicks_def)
  show ?thesis
  proof (cases "k < NR_HOLES")
    case True
    have "blk b n \<inter> F = {}" using assms(2) by (auto simp: own_ok_def)
    with mem.give_law [OF assms(1) True False] assms(4) False obtain s' k' where
      s': "free_mem b n s = Inr s'" "hole_frame s s'" "free_clicks s' (F \<union> blk b n) k'" by blast
    then show ?thesis using own_ok_give [OF assms(2,3)] by auto
  next
    case False
    then have "free_slots s = None" using vs holes_full [OF vs(1)] holes_free_slot [OF vs(1)] by simp
    then show ?thesis using \<open>n \<noteq> 0\<close> by (simp add: free_mem_def)
  qed
qed

lemma free_mem_safe:
  assumes "pm_mem L (X \<union> blk b n) s" and "X \<inter> blk b n = {}"
    and "n \<noteq> 0 \<Longrightarrow> b \<noteq> 0 \<and> unat b + unat n \<le> 2 ^ 32"
  shows "safe {full_msg} (free_mem b n s) (\<lambda>s'. pm_mem L X s' \<and> hole_frame s s')"
proof -
  from assms(1) obtain F k where "free_clicks s F k" "own_ok L (X \<union> blk b n) F (mproc_tab s)" by (auto simp: pm_mem_def)
  from free_mem_store [OF this assms(2,3)] show ?thesis
    by (rule safe_mono) (auto intro!: hole_frame_mem [of s])
qed

lemma first_fit_safe:
  assumes "pm_mem L X s" and "n \<noteq> 0"
  shows "\<exists>r s'. first_fit n s = Inr (r, s') \<and> hole_frame s s' \<and>
    (case r of None \<Rightarrow> s' = s | Some b \<Rightarrow> b \<noteq> 0 \<and> unat b + unat n \<le> 2 ^ 32 \<and> X \<inter> blk b n = {} \<and> pm_mem L (X \<union> blk b n) s')"
proof -
  from assms(1) obtain F k where F: "free_clicks s F k" "own_ok L X F (mproc_tab s)" by (auto simp: pm_mem_def)
  from mem.take_law [OF F(1) assms(2)] obtain r s' where
    r: "first_fit n s = Inr (r, s')" "hole_frame s s'" "case r of None \<Rightarrow> s' = s
       | Some b \<Rightarrow> b \<noteq> 0 \<and> unat b + unat n \<le> 2 ^ 32 \<and> blk b n \<subseteq> F \<and> (\<exists>k' \<le> k. free_clicks s' (F - blk b n) k')" by blast
  have "X \<inter> blk b n = {} \<and> own_ok L (X \<union> blk b n) (F - blk b n) (mproc_tab s)" if "blk b n \<subseteq> F" for b
    using own_ok_take [OF F(2) that] by simp
  then show ?thesis using r hole_frame_mem [OF r(2)] by (auto split: option.splits)
qed

text \<open>The block begins below the swap area; without a block no hole there is large enough.\<close>

definition no_fit :: "u32 \<Rightarrow> pmstate \<Rightarrow> bool" where
  "no_fit n s \<longleftrightarrow> (\<exists>vs. holes s vs \<and> fit_iv (unat (swap_base s)) (unat n) vs = None)"

lemma first_fit_low:
  assumes "pm_mem L X s" and "n \<noteq> 0" and "first_fit n s = Inr (r, s')"
  shows "case r of None \<Rightarrow> no_fit n s | Some b \<Rightarrow> b < swap_base s"
proof -
  from assms(1) obtain vs where vs: "holes s vs" by (auto simp: pm_mem_def free_clicks_def)
  show ?thesis
  proof (cases "fit_iv (unat (swap_base s)) (unat n) vs")
    case None
    then show ?thesis using first_fit_holes [OF vs assms(2)] assms(3) vs by (auto simp: no_fit_def)
  next
    case (Some b)
    then have "first_fit n s = Inr (Some (of_nat b), s')" "b < unat (swap_base s)"
      using first_fit_holes [OF vs assms(2)] assms(3) by auto
    moreover from this(2) have "of_nat b < swap_base s"
      using unsigned_less [where w = "swap_base s" and ?'a = nat] by (simp add: word_less_nat_alt unat_of_nat)
    ultimately show ?thesis using assms(3) by simp
  qed
qed

section \<open>Swapping keeps the invariant\<close>

lemma rw_loop_log: "\<exists>lg. rw_loop env rw fd p b s = s\<lparr>pm_log := lg\<rparr>"
proof (induction env rw fd p b s rule: rw_loop.induct)
  case (1 env rw fd p b s)
  let ?n = "min 2147475456 b"
  let ?r = "FsRw rw fd p ?n"
  obtain x ys where e: "env (pm_log s) ?r = (x, ys)" by (cases "env (pm_log s) ?r")
  consider "b = 0" | "b \<noteq> 0" "x \<noteq> uint ?n" | "b \<noteq> 0" "x = uint ?n" by blast
  then show ?case
  proof cases
    case 1
    then show ?thesis by (intro exI [of _ "pm_log s"]) (simp add: rw_loop.simps [of env rw fd p 0 s])
  next
    case 2
    then show ?thesis
      by (intro exI [of _ "pm_log s @ [?r]"]) (simp add: rw_loop.simps [of env rw fd p b s] ask_def Let_def e)
  next
    case 3
    then have "rw_loop env rw fd p b s = rw_loop env rw fd (p + ?n) (b - ?n) (tell ?r s)"
      by (simp add: rw_loop.simps [of env rw fd p b s] ask_tell Let_def e)
    moreover have "\<exists>lg. rw_loop env rw fd (p + ?n) (b - ?n) (tell ?r s) = (tell ?r s)\<lparr>pm_log := lg\<rparr>"
      using 3 by (intro 1) (simp_all add: ask_tell e)
    ultimately show ?thesis by (auto simp: tell_def)
  qed
qed

lemma rw_seg_log: "\<exists>lg. rw_seg env rw fd n sg b s = s\<lparr>pm_log := lg\<rparr>"
  unfolding rw_seg_def by (rule rw_loop_log)

lemma walk_holes:
  assumes "holes s vs"
  shows "\<exists>us ws ks. walk (\<lambda>l. hl_get l s) stop Head = Some (loc_after us) \<and> hchains s (us @ ws) ks \<and>
    map (hole_iv s) (us @ ws) = vs \<and> hl_get (loc_after us) s = head_opt ws \<and> (\<forall>hp ws'. ws = hp # ws' \<longrightarrow> stop hp)"
proof -
  from assms obtain hs ks where hs: "hchains s hs ks" "map (hole_iv s) hs = vs" by (auto simp: holes_def)
  define us where "us = takeWhile (\<lambda>x. \<not> stop x) hs"
  define ws where "ws = dropWhile (\<lambda>x. \<not> stop x) hs"
  have split: "hs = us @ ws" by (simp add: us_def ws_def)
  have links: "hl.links s (us @ ws) None" using chains_links(1) [OF hs(1)] by (simp only: split)
  then obtain p where "hl.links s us p" "chain (\<lambda>x. hl_get (Next x) s) p ws" by auto
  then have "hl_get (loc_after us) s = head_opt ws" using hl.get_loc_after chain_head by metis
  moreover have "stop hp" if "ws = hp # ws'" for hp ws'
    using that hd_dropWhile [of "\<lambda>x. \<not> stop x" hs] by (auto simp: ws_def)
  moreover have "walk (\<lambda>l. hl_get l s) stop Head = Some (loc_after us)"
    using hl.walk_whole [OF chains_links(1) [OF hs(1)], of stop] by (simp add: us_def)
  ultimately show ?thesis using hs unfolding split by blast
qed

lemma set_data_phys_views [simp]:
  "prog_size (set_data_phys b p) = prog_size p" "mp_seg (set_data_phys b p) T_seg = mp_seg p T_seg"
  "mem_phys (mp_seg (set_data_phys b p) D_seg) = b" "mp_flags (set_data_phys b p) = mp_flags p"
  "file_of (set_data_phys b p) = file_of p" "tblk (set_data_phys b p) = tblk p"
  "dblk (set_data_phys b p) = blk b (prog_size p)"
  by (simp_all add: set_data_phys_def prog_size_def Let_def file_of_def tblk_def dblk_def)

text \<open>A process moves to a block that was free; its old block is then in other hands.\<close>

lemma own_ok_move:
  assumes ok: "own_ok L X F tab" and r: "r \<in> L" and b: "b \<noteq> 0" "unat b + unat (prog_size (tab r)) \<le> 2 ^ 32"
    and B: "blk b (prog_size (tab r)) \<subseteq> F"
  shows "X \<inter> dblk (tab r) = {}"
    and "own_ok L (X \<union> dblk (tab r)) (F - blk b (prog_size (tab r))) (tab(r := set_data_phys b (tab r)))"
proof -
  note d = own_okD [OF ok]
  let ?B = "blk b (prog_size (tab r))" and ?t = "tab(r := set_data_phys b (tab r))"
  show "X \<inter> dblk (tab r) = {}" using d(4) [OF r] by blast
  have tb: "tblk (?t n) = tblk (tab n)" for n by simp
  have db: "dblk (?t n) = (if n = r then ?B else dblk (tab n))" for n by simp
  have dis: "?B \<inter> dblk (tab n) = {}" "?B \<inter> tblk (tab n) = {}" "dblk (tab n) \<inter> (F - ?B) = {}" "tblk (tab n) \<inter> (F - ?B) = {}"
    if "n \<in> L" for n using d(3,5) [OF that] B by blast+
  show "own_ok L (X \<union> dblk (tab r)) (F - ?B) ?t"
  proof (rule own_okI)
    show "(X \<union> dblk (tab r)) \<inter> (F - ?B) = {}" using d(1) dis(3) [OF r] by blast
    show "seg_ok (?t n)" if "n \<in> L" for n
      using d(2) [OF that] d(2) [OF r] b by (simp add: seg_ok_def)
    show "dblk (?t n) \<inter> (F - ?B) = {}" if "n \<in> L" for n using dis(3) [OF that] unfolding db by auto
    show "dblk (?t n) \<inter> (X \<union> dblk (tab r)) = {}" if "n \<in> L" for n
      using d(4) [OF that] d(8) [OF that r] dis(1) [OF r] d(1) B unfolding db by auto
    show "tblk (?t n) \<inter> (F - ?B) = {}" if "n \<in> L" for n using dis(4) [OF that] unfolding tb .
    show "tblk (?t n) \<inter> (X \<union> dblk (tab r)) = {}" if "n \<in> L" for n
      using d(6) [OF that] d(7) [OF r that] unfolding tb by blast
    show "dblk (?t n) \<inter> tblk (?t m) = {}" if "n \<in> L" "m \<in> L" for n m
      using d(7) [OF that] dis(2) [OF that(2)] unfolding db tb by auto
    show "dblk (?t n) \<inter> dblk (?t m) = {}" if "n \<in> L" "m \<in> L" "n \<noteq> m" for n m
      using d(8) [OF that] dis(1) [OF that(1)] dis(1) [OF that(2)] that(3) unfolding db by auto
    show "tblk (?t n) \<inter> tblk (?t m) = {} \<or> shares (?t n) (?t m)" if "n \<in> L" "m \<in> L" "n \<noteq> m" for n m
      using d(9) [OF that] by (auto simp: shares_def)
  qed
qed

text \<open>Allocation changes only the holes, the places of processes and the log.\<close>

definition alloc_frame :: "pmstate \<Rightarrow> pmstate \<Rightarrow> bool" where
  "alloc_frame s s' \<longleftrightarrow> s' = s\<lparr>hole_tab := hole_tab s', hole_head := hole_head s', free_slots := free_slots s',
     mproc_tab := mproc_tab s', outswap := outswap s', pm_log := pm_log s'\<rparr>"

lemma alloc_frame_refl [simp]: "alloc_frame s s"
  by (simp add: alloc_frame_def)

lemma alloc_frame_eqs:
  assumes "alloc_frame s s'"
  shows "swap_base s' = swap_base s" "in_queue s' = in_queue s" "pm_timers s' = pm_timers s" "pm_mp s' = pm_mp s"
    "procs_in_use s' = procs_in_use s" "next_pid s' = next_pid s" "pm_who s' = pm_who s" "ign_sset s' = ign_sset s"
    "core_sset s' = core_sset s" "pm_in s' = pm_in s" "swap_fd s' = swap_fd s" "swap_offset s' = swap_offset s"
    "swap_maxsize s' = swap_maxsize s" "pm_call_nr s' = pm_call_nr s" "boottime s' = boottime s"
  using assms by (cases s; cases s'; simp add: alloc_frame_def)+

lemma alloc_frame_trans:
  assumes "alloc_frame s s1" and "alloc_frame s1 s2"
  shows "alloc_frame s s2"
  using assms by (cases s; cases s1; cases s2; simp add: alloc_frame_def)

lemma hole_frame_alloc: "hole_frame s s' \<Longrightarrow> alloc_frame s s'"
  by (cases s; cases s'; simp add: alloc_frame_def hole_frame_def)

lemma alloc_frame_upd [simp]:
  "alloc_frame s (upd_mp n f s1) \<longleftrightarrow> alloc_frame s s1" "alloc_frame s (tell r s1) \<longleftrightarrow> alloc_frame s s1"
  "alloc_frame s (s1\<lparr>outswap := n\<rparr>) \<longleftrightarrow> alloc_frame s s1" "alloc_frame s (s1\<lparr>pm_log := lg\<rparr>) \<longleftrightarrow> alloc_frame s s1"
  by (cases s; cases s1; simp add: alloc_frame_def upd_mp_def tell_def)+

definition swapped :: "int \<Rightarrow> pmstate \<Rightarrow> pmstate \<Rightarrow> bool" where
  "swapped r s s' \<longleftrightarrow> (\<exists>b. mproc_tab s' = (mproc_tab s)(r := (set_data_phys b (mpr s r))\<lparr>mp_flags := mfl s r OR ONSWAP\<rparr>)) \<and>
     outswap s' = r \<and> alloc_frame s s'"

lemma free_clicks_log [simp]: "free_clicks (s\<lparr>pm_log := lg\<rparr>) F k = free_clicks s F k"
  by (rule free_clicks_cong) simp_all

lemma swap_one_safe:
  assumes mem: "pm_mem L X s" and r: "r \<in> L"
  shows "safe {full_msg} (swap_one env r s) (\<lambda>u. case u of None \<Rightarrow> True | Some s' \<Rightarrow> pm_mem L X s' \<and> swapped r s s')"
proof -
  let ?p = "mpr s r"
  let ?n = "prog_size ?p"
  let ?stop = "\<lambda>x. swap_base s \<le> h_base (hole_tab s x) \<and> ?n \<le> h_len (hole_tab s x)"
  from mem obtain F k where F: "free_clicks s F k" "own_ok L X F (mproc_tab s)" by (auto simp: pm_mem_def)
  from F(1) obtain vs where vs: "holes s vs" "ivs_set vs = F" "length vs = k" by (auto simp: free_clicks_def)
  have n0: "?n \<noteq> 0" using own_okD(2) [OF F(2) r] by (simp add: seg_ok_def)
  from walk_holes [OF vs(1), of ?stop] obtain us ws ks where
    w: "walk (\<lambda>l. hl_get l s) ?stop Head = Some (loc_after us)" "hchains s (us @ ws) ks" "map (hole_iv s) (us @ ws) = vs"
      "hl_get (loc_after us) s = head_opt ws" "\<And>hp ws'. ws = hp # ws' \<Longrightarrow> ?stop hp" by blast
  show ?thesis
  proof (cases ws)
    case Nil
    then show ?thesis using w(1,4) by (simp add: swap_one_def Let_def)
  next
    case (Cons hp ws')
    from bite_at [OF vs(1) w(2) [unfolded Cons] w(3) [unfolded Cons] n0] w(5) [OF Cons] obtain s1 vs1 where
      s1: "bite_hole (last_opt us) hp ?n s = Inr (h_base (hole_tab s hp), s1)" "holes s1 vs1" "hole_frame s s1"
        "blk (h_base (hole_tab s hp)) ?n \<subseteq> F" "ivs_set vs1 = F - blk (h_base (hole_tab s hp)) ?n"
        "h_base (hole_tab s hp) \<noteq> 0" "unat (h_base (hole_tab s hp)) + unat ?n \<le> 2 ^ 32" unfolding vs(2) by blast
    let ?b = "h_base (hole_tab s hp)"
    let ?s2 = "tell (FsLseek (swap_fd s1) (swap_offset s1 + push_bit CLICK_SHIFT (?b - swap_base s1))) s1"
    define s3 where "s3 = rw_seg env 1 (swap_fd s1) r D_seg (push_bit CLICK_SHIFT ?n) ?s2"
    from rw_seg_log [of env 1 "swap_fd s1" r D_seg "push_bit CLICK_SHIFT ?n" ?s2] obtain lg where
      lg: "s3 = s1\<lparr>pm_log := lg\<rparr>" unfolding s3_def by (auto simp: tell_def)
    have tab: "mproc_tab s3 = mproc_tab s" "swap_base s3 = swap_base s" using hole_frame_eqs [OF s1(3)] by (simp_all add: lg)
    define s4 where "s4 = newmap r (upd_mp r (set_data_phys ?b) s3)"
    have old: "mem_phys (mp_seg (mpr s3 r) D_seg) = mem_phys (mp_seg ?p D_seg)" by (simp add: tab)
    have "free_clicks s4 G j = free_clicks s1 G j" for G j by (rule free_clicks_cong) (simp_all add: s4_def lg)
    then have f4: "free_clicks s4 (F - blk ?b ?n) (length vs1)" using s1(2,5) by (auto simp: free_clicks_def)
    note mv = own_ok_move [OF F(2) r s1(6,7,4)]
    have "mproc_tab s4 = (mproc_tab s)(r := set_data_phys ?b ?p)" by (simp add: s4_def tab)
    then have m4: "pm_mem L (X \<union> dblk ?p) s4" using f4 mv(2) by (auto simp: pm_mem_def)
    have "seg_ok ?p" using own_okD(2) [OF F(2) r] .
    then have "safe {full_msg} (free_mem (mem_phys (mp_seg ?p D_seg)) ?n s4) (\<lambda>s5. pm_mem L X s5 \<and> hole_frame s4 s5)"
      using m4 mv(1) by (intro free_mem_safe) (simp_all add: dblk_def seg_ok_def)
    then have "safe {full_msg} (bindr (free_mem (mem_phys (mp_seg (mpr s3 r) D_seg)) ?n s4) (\<lambda>s5.
         Inr (Some ((set_mfl r (mfl s5 r OR ONSWAP) s5)\<lparr>outswap := r\<rparr>))))
       (\<lambda>u. case u of None \<Rightarrow> True | Some s' \<Rightarrow> pm_mem L X s' \<and> swapped r s s')"
      unfolding old
    proof (rule safe_bind)
      fix s5 assume s5: "pm_mem L X s5 \<and> hole_frame s4 s5"
      then have t5: "mproc_tab s5 = (mproc_tab s)(r := set_data_phys ?b ?p)"
        using hole_frame_eqs [of s4 s5] by (simp add: s4_def tab)
      have "alloc_frame s s4" using hole_frame_alloc [OF s1(3)] by (simp add: s4_def lg)
      then have "alloc_frame s s5" using s5 hole_frame_alloc alloc_frame_trans by blast
      then have "swapped r s ((set_mfl r (mfl s5 r OR ONSWAP) s5)\<lparr>outswap := r\<rparr>)"
        using t5 by (auto simp: swapped_def)
      moreover have "pm_mem L X ((set_mfl r (mfl s5 r OR ONSWAP) s5)\<lparr>outswap := r\<rparr>)"
        by (rule pm_mem_cong [of L X s5]) (use s5 in \<open>auto simp: own_view_def file_of_def\<close>)
      ultimately show "safe {full_msg} (Inr (Some ((set_mfl r (mfl s5 r OR ONSWAP) s5)\<lparr>outswap := r\<rparr>)))
        (\<lambda>u. case u of None \<Rightarrow> True | Some s' \<Rightarrow> pm_mem L X s' \<and> swapped r s s')" by simp
    qed
    then show ?thesis using w(1,4) Cons s1(1)
      by (simp add: swap_one_def Let_def loc_owner_after s3_def [symmetric] s4_def)
  qed
qed

lemma swap_scan_safe:
  assumes "pm_mem L X s" and "\<And>r. r \<in> set rs \<Longrightarrow> swap_cand (mfl s r) \<Longrightarrow> r \<in> L"
  shows "safe {full_msg} (swap_scan env rs s) (\<lambda>(again, s').
    if again then \<exists>r \<in> set rs. swap_cand (mfl s r) \<and> pm_mem L X s' \<and> swapped r s s' else s' = s)"
  using assms(2)
proof (induction rs)
  case (Cons r rs)
  have IH: "safe {full_msg} (swap_scan env rs s) (\<lambda>(again, s').
    if again then \<exists>r \<in> set (r # rs). swap_cand (mfl s r) \<and> pm_mem L X s' \<and> swapped r s s' else s' = s)"
    using Cons by (intro safe_mono [OF Cons.IH]) (auto split: if_splits)
  show ?case
  proof (cases "swap_cand (mfl s r)")
    case True
    then have "r \<in> L" using Cons.prems by simp
    have "safe {full_msg} (bindr (swap_one env r s) (\<lambda>x. case x of None \<Rightarrow> swap_scan env rs s | Some s' \<Rightarrow> Inr (True, s')))
      (\<lambda>(again, s'). if again then \<exists>r \<in> set (r # rs). swap_cand (mfl s r) \<and> pm_mem L X s' \<and> swapped r s s' else s' = s)"
    proof (rule safe_bind [OF swap_one_safe [OF assms(1) \<open>r \<in> L\<close>]])
      fix x :: "pmstate option"
      assume x: "case x of None \<Rightarrow> True | Some s' \<Rightarrow> pm_mem L X s' \<and> swapped r s s'"
      show "safe {full_msg} (case x of None \<Rightarrow> swap_scan env rs s | Some s' \<Rightarrow> Inr (True, s'))
        (\<lambda>(again, s'). if again then \<exists>r \<in> set (r # rs). swap_cand (mfl s r) \<and> pm_mem L X s' \<and> swapped r s s' else s' = s)"
      proof (cases x)
        case None
        then show ?thesis using IH by simp
      next
        case (Some s')
        then show ?thesis using x True by simp
      qed
    qed
    then show ?thesis using True by simp
  qed (use IH in simp)
qed simp

definition reloc :: "pmstate \<Rightarrow> pmstate \<Rightarrow> bool" where
  "reloc s s' \<longleftrightarrow> (\<forall>n. mpr s' n = mpr s n \<or>
     swap_cand (mfl s n) \<and> (\<exists>b. mpr s' n = (set_data_phys b (mpr s n))\<lparr>mp_flags := mfl s n OR ONSWAP\<rparr>))"

definition cand_in :: "int set \<Rightarrow> pmstate \<Rightarrow> bool" where
  "cand_in L s \<longleftrightarrow> (\<forall>n. 0 \<le> n \<and> n < 64 \<and> swap_cand (mfl s n) \<longrightarrow> n \<in> L) \<and> 0 \<le> outswap s \<and> outswap s < 64"

lemma not_cand_onswap [simp]: "\<not> swap_cand (f OR ONSWAP)"
  unfolding swap_cand_def flag_test_or flag_set_same by simp

lemma reloc_trans:
  assumes "reloc s s1" and "reloc s1 s2"
  shows "reloc s s2"
  unfolding reloc_def
proof (intro allI)
  fix n
  show "mpr s2 n = mpr s n \<or> swap_cand (mfl s n) \<and>
      (\<exists>b. mpr s2 n = (set_data_phys b (mpr s n))\<lparr>mp_flags := mfl s n OR ONSWAP\<rparr>)"
  proof (cases "mpr s1 n = mpr s n")
    case True
    then show ?thesis using assms(2) [unfolded reloc_def, rule_format, of n] by simp
  next
    case False
    then have s1: "swap_cand (mfl s n)" "\<exists>b. mpr s1 n = (set_data_phys b (mpr s n))\<lparr>mp_flags := mfl s n OR ONSWAP\<rparr>"
      using assms(1) by (auto simp: reloc_def)
    then have "\<not> swap_cand (mfl s1 n)" by auto
    then have "mpr s2 n = mpr s1 n" using assms(2) by (auto simp: reloc_def)
    then show ?thesis using s1 by simp
  qed
qed

lemma reloc_refl [simp]: "reloc s s"
  by (simp add: reloc_def)

lemma swapped_reloc: "swapped r s s' \<Longrightarrow> swap_cand (mfl s r) \<Longrightarrow> reloc s s'"
  unfolding reloc_def swapped_def by (metis fun_upd_apply)

text \<open>How many processes are in memory: it falls with every swap, so that \<open>alloc_mem\<close> ends.\<close>

definition in_memory :: "pmstate \<Rightarrow> nat" where
  "in_memory s = card {n. 0 \<le> n \<and> n < (64::int) \<and> mfl s n AND ONSWAP = 0}"

lemma onswap_set: "(f OR ONSWAP) AND ONSWAP \<noteq> (0::u32)"
  by simp

lemma swapped_in_memory:
  assumes "swapped r s s'" and "0 \<le> r" "r < 64" and "swap_cand (mfl s r)"
  shows "in_memory s' < in_memory s"
proof -
  let ?A = "\<lambda>s. {n. 0 \<le> n \<and> n < (64::int) \<and> mfl s n AND ONSWAP = 0}"
  have fl: "mfl s' n = (if n = r then mfl s r OR ONSWAP else mfl s n)" for n using assms(1) by (auto simp: swapped_def)
  have "mfl s r AND ONSWAP = 0" using assms(4) by (simp only: swap_cand_def flag_test_or)
  then have "r \<in> ?A s" "r \<notin> ?A s'" using assms(2,3) fl [of r] by simp_all
  moreover have "?A s' \<subseteq> ?A s"
  proof
    fix n assume "n \<in> ?A s'"
    then show "n \<in> ?A s" using fl [of n] calculation(2) by (cases "n = r") auto
  qed
  ultimately have "?A s' \<subset> ?A s" by blast
  moreover have "finite (?A s)" by (rule finite_subset [of _ "{0..<64}"]) auto
  ultimately show ?thesis unfolding in_memory_def by (rule psubset_card_mono [rotated])
qed

lemma swap_out_safe:
  assumes "pm_mem L X s" and "cand_in L s"
  shows "safe {full_msg} (swap_out env s) (\<lambda>(again, s'). pm_mem L X s' \<and> cand_in L s' \<and> reloc s s' \<and> alloc_frame s s' \<and>
    (if again then in_memory s' < in_memory s else s' = s))"
proof -
  let ?rs = "[outswap s + 1..63] @ [0..outswap s]"
  have rs: "0 \<le> r \<and> r < 64" if "r \<in> set ?rs" for r using that assms(2) by (auto simp: cand_in_def)
  show ?thesis unfolding swap_out_def
  proof (rule safe_mono [OF swap_scan_safe [OF assms(1)]])
    show "r \<in> L" if "r \<in> set ?rs" "swap_cand (mfl s r)" for r using rs [OF that(1)] that(2) assms(2) by (auto simp: cand_in_def)
  next
    fix x :: "bool \<times> pmstate"
    assume x: "case x of (again, s') \<Rightarrow> if again then \<exists>r \<in> set ?rs. swap_cand (mfl s r) \<and> pm_mem L X s' \<and> swapped r s s' else s' = s"
    obtain again s' where xs: "x = (again, s')" by (cases x)
    show "case x of (again, s') \<Rightarrow> pm_mem L X s' \<and> cand_in L s' \<and> reloc s s' \<and> alloc_frame s s' \<and>
      (if again then in_memory s' < in_memory s else s' = s)"
    proof (cases again)
      case True
      then obtain r where r: "r \<in> set ?rs" "swap_cand (mfl s r)" "pm_mem L X s'" "swapped r s s'"
        using x unfolding xs prod.case by (simp only: if_True) blast
      have fl: "mfl s' n = (if n = r then mfl s r OR ONSWAP else mfl s n)" for n using r(4) by (auto simp: swapped_def)
      have "cand_in L s'" unfolding cand_in_def
      proof (intro conjI allI impI)
        fix n assume n: "0 \<le> n \<and> n < 64 \<and> swap_cand (mfl s' n)"
        then have "n \<noteq> r" using fl [of n] by auto
        then show "n \<in> L" using n fl [of n] assms(2) by (simp add: cand_in_def)
      qed (use r(4) rs [OF r(1)] in \<open>auto simp: swapped_def\<close>)
      then show ?thesis using r rs [OF r(1)] swapped_in_memory [OF r(4)] swapped_reloc [OF r(4)] xs True
        by (auto simp: swapped_def)
    next
      case False
      then show ?thesis using x xs assms by simp
    qed
  qed
qed

definition alloc_post :: "int set \<Rightarrow> nat set \<Rightarrow> u32 \<Rightarrow> pmstate \<Rightarrow> u32 \<times> pmstate \<Rightarrow> bool" where
  "alloc_post L X n s = (\<lambda>(b, s'). cand_in L s' \<and> reloc s s' \<and> alloc_frame s s' \<and>
     (if b = NO_MEM then pm_mem L X s' \<and> no_fit n s'
      else b < swap_base s' \<and> unat b + unat n \<le> 2 ^ 32 \<and> X \<inter> blk b n = {} \<and> pm_mem L (X \<union> blk b n) s'))"

lemma alloc_mem_safe:
  assumes "pm_mem L X s" and "cand_in L s" and "n \<noteq> 0"
  shows "\<exists>r. alloc_mem env n s = Some r \<and> safe {full_msg} r (alloc_post L X n s)"
  using assms
proof (induction "in_memory s" arbitrary: s rule: less_induct)
  case less
  from first_fit_safe [OF less.prems(1,3)] obtain o1 s1 where
    f: "first_fit n s = Inr (o1, s1)" "hole_frame s s1" "case o1 of None \<Rightarrow> s1 = s
      | Some b \<Rightarrow> b \<noteq> 0 \<and> unat b + unat n \<le> 2 ^ 32 \<and> X \<inter> blk b n = {} \<and> pm_mem L (X \<union> blk b n) s1" by blast
  note low = first_fit_low [OF less.prems(1,3) f(1)]
  show ?case
  proof (cases o1)
    case (Some b)
    have "cand_in L s1" "reloc s s1" using less.prems(2) hole_frame_eqs [OF f(2)] by (simp_all add: cand_in_def reloc_def)
    then show ?thesis using Some f hole_frame_alloc [OF f(2)] low hole_frame_eqs(1) [OF f(2)]
      by (intro exI [of _ "Inr (b, s1)"]) (simp add: alloc_mem.simps [of env n s] alloc_post_def)
  next
    case None
    then have s1: "s1 = s" using f(3) by simp
    note so = swap_out_safe [OF less.prems(1,2), of env]
    show ?thesis
    proof (cases "swap_out env s")
      case (Inl e)
      then show ?thesis using so None f(1) s1
        by (intro exI [of _ "Inl e"]) (auto simp: alloc_mem.simps [of env n s] safe_def)
    next
      case (Inr x)
      obtain again s2 where x: "x = (again, s2)" by (cases x)
      have s2: "pm_mem L X s2" "cand_in L s2" "reloc s s2" "alloc_frame s s2" "again \<longrightarrow> in_memory s2 < in_memory s"
        "\<not> again \<longrightarrow> s2 = s" using so Inr x by auto
      show ?thesis
      proof (cases again)
        case True
        from less.hyps [OF _ s2(1,2) less.prems(3)] s2(5) True obtain r where
          r: "alloc_mem env n s2 = Some r" "safe {full_msg} r (alloc_post L X n s2)" by auto
        have "safe {full_msg} r (alloc_post L X n s)"
          by (rule safe_mono [OF r(2)])
             (use reloc_trans [OF s2(3)] alloc_frame_trans [OF s2(4)] in \<open>auto simp: alloc_post_def split: if_splits\<close>)
        then show ?thesis using r(1) True Inr x None f(1) s1 by (simp add: alloc_mem.simps [of env n s])
      next
        case False
        then show ?thesis using s2 Inr x None f(1) s1 low
          by (intro exI [of _ "Inr (NO_MEM, s2)"]) (simp add: alloc_mem.simps [of env n s] alloc_post_def)
      qed
    qed
  qed
qed

section \<open>Properties\<close>

text \<open>Process 7 waits for a child; it has 32 clicks of data and stack from click 2048 on.\<close>

definition sample_waiting :: mproc where
  "sample_waiting = sample_mproc\<lparr>mp_seg := (\<lambda>g. case g of
       T_seg \<Rightarrow> \<lparr>mem_vir = 0, mem_phys = 2048, mem_len = 0\<rparr>
     | D_seg \<Rightarrow> \<lparr>mem_vir = 0, mem_phys = 2048, mem_len = 8\<rparr>
     | S_seg \<Rightarrow> \<lparr>mem_vir = 24, mem_phys = 2072, mem_len = 8\<rparr>),
     mp_pid := 7, mp_flags := IN_USE OR WAITING\<rparr>"

definition sample_mem :: pmstate where
  "sample_mem = sample_pm\<lparr>mproc_tab := (\<lambda>_. sample_mproc)(7 := sample_waiting)\<rparr>"

lemma holes_sample_mem: "holes sample_mem [(256, 1024)]"
proof -
  have "hnx sample_mem = hnx sample_pm" "hole_iv sample_mem = hole_iv sample_pm"
    by (simp_all add: fun_eq_iff hnx_def hole_iv_def sample_mem_def)
  then show ?thesis using holes_sample by (simp add: holes_def hchains_def sample_mem_def)
qed

lemma sample_mem_ok: "pm_mem {7} {} sample_mem" "cand_in {7} sample_mem"
proof -
  have "free_clicks sample_mem {256..<1280} 1"
    using holes_sample_mem unfolding free_clicks_def by (intro exI [of _ "[(256, 1024)]"]) simp
  moreover have "own_ok {7} {} {256..<1280} (mproc_tab sample_mem)"
    by (auto simp: own_ok_def sample_mem_def sample_waiting_def seg_ok_def dblk_def tblk_def prog_size_def)
  ultimately show "pm_mem {7} {} sample_mem" unfolding pm_mem_def by blast
  show "cand_in {7} sample_mem" by (auto simp: cand_in_def sample_mem_def sample_pm_def sample_mproc_def swap_cand_def)
qed

text \<open>
  C25: allocation. \<open>alloc_mem\<close> ends whatever the file system answers. It panics when the hole table
  is full; or it returns \<open>NO_MEM\<close>, memory is in order and no hole below the swap area is large enough
  at that moment; or the block it returns begins below the swap area, does not wrap, and overlaps
  neither a hole, nor the text, data or stack of any process, nor a block handed out before. The
  processes it moved to the swap area are blocked in a call of the process manager, and their memory
  is disjoint again. When a hole fits at once the first such hole is used, nothing is swapped out
  and nobody is asked.
\<close>

theorem alloc_mem_ok:
  assumes "pm_mem L X s" and "cand_in L s" and "n \<noteq> 0"
  shows "(\<exists>r. alloc_mem env n s = Some r \<and> (r = Inl (Panic full_msg) \<or>
      (\<exists>b s'. r = Inr (b, s') \<and> cand_in L s' \<and> reloc s s' \<and>
        (if b = NO_MEM then pm_mem L X s' \<and> no_fit n s'
         else b < swap_base s' \<and> unat b + unat n \<le> 2 ^ 32 \<and> X \<inter> blk b n = {} \<and> pm_mem L (X \<union> blk b n) s')))) \<and>
    (\<forall>vs b. holes s vs \<and> fit_iv (unat (swap_base s)) (unat n) vs = Some b \<longrightarrow>
      (\<exists>s'. alloc_mem env n s = Some (Inr (of_nat b, s')) \<and> mproc_tab s' = mproc_tab s \<and> pm_log s' = pm_log s))"
proof (intro conjI allI impI)
  from alloc_mem_safe [OF assms] obtain r where "alloc_mem env n s = Some r" "safe {full_msg} r (alloc_post L X n s)" by blast
  then show "\<exists>r. alloc_mem env n s = Some r \<and> (r = Inl (Panic full_msg) \<or>
      (\<exists>b s'. r = Inr (b, s') \<and> cand_in L s' \<and> reloc s s' \<and>
        (if b = NO_MEM then pm_mem L X s' \<and> no_fit n s'
         else b < swap_base s' \<and> unat b + unat n \<le> 2 ^ 32 \<and> X \<inter> blk b n = {} \<and> pm_mem L (X \<union> blk b n) s')))"
    by (cases r) (force simp: safe_def alloc_post_def)+
next
  fix vs b
  assume "holes s vs \<and> fit_iv (unat (swap_base s)) (unat n) vs = Some b"
  with first_fit_holes [of s vs n] assms(3) obtain s' where "first_fit n s = Inr (Some (of_nat b), s')" "hole_frame s s'"
    by auto
  then show "\<exists>s'. alloc_mem env n s = Some (Inr (of_nat b, s')) \<and> mproc_tab s' = mproc_tab s \<and> pm_log s' = pm_log s"
    using hole_frame_eqs [of s s'] by (auto simp: alloc_mem.simps [of env n s])
qed

theorem alloc_mem_ok_witness:
  "\<exists>s'. alloc_mem (\<lambda>_ _. (0, [])) 16 sample_mem = Some (Inr (256, s')) \<and> pm_mem {7} (blk 256 16) s' \<and> pm_log s' = []"
proof -
  let ?env = "\<lambda>(_ :: pm_req list) (_ :: pm_req). (0 :: int, [] :: u32 list)"
  have "holes sample_mem [(256, 1024)] \<and> fit_iv (unat (swap_base sample_mem)) (unat (16::u32)) [(256, 1024)] = Some 256"
    using holes_sample_mem by (simp add: sample_mem_def sample_pm_def)
  moreover have "pm_log sample_mem = []" by (simp add: sample_mem_def sample_pm_def)
  ultimately show ?thesis using alloc_mem_ok [OF sample_mem_ok, of 16 ?env] by fastforce
qed

end
