(* ===== verification/Pm_Proc.thy ===== *)
theory Pm_Proc
  imports Pm_Swap
begin

unbundle bit_operations_syntax

text \<open>
  Services of the process manager that its system calls share: replies (\<open>main.c\<close>), the growth of
  data and stack (\<open>break.c\<close>), watchdog timers (\<open>timers.c\<close>), process ids and the search for shared
  text (\<open>utility.c\<close>, \<open>exec.c\<close>). Data and stack never overlap, new process ids are fresh.
\<close>

section \<open>Replies\<close>

definition setreply :: "int \<Rightarrow> int \<Rightarrow> pmstate \<Rightarrow> pmstate res" where
  "setreply nr result s =
     bindr (mproc_at nr) (\<lambda>rmp.
     let s1 = upd_mp rmp (\<lambda>p. p\<lparr>mp_reply := (mp_reply p)\<lparr>m_type := result\<rparr>, mp_flags := mp_flags p OR REPLY\<rparr>) s
     in if mfl s1 rmp AND ONSWAP \<noteq> 0 then swap_inqueue rmp s1 else Inr s1)"

text \<open>\<open>reply_res2\<close> is the first word of the union.\<close>

definition set_res2 :: "int \<Rightarrow> u32 \<Rightarrow> pmstate \<Rightarrow> pmstate" where
  "set_res2 n v = upd_mp n (\<lambda>p. p\<lparr>mp_reply := mset_w 0 v (mp_reply p)\<rparr>)"

section \<open>Asking the kernel\<close>

text \<open>The words of an answer; a word that did not come back is read as 0.\<close>

definition word_at :: "u32 list \<Rightarrow> nat \<Rightarrow> u32" where
  "word_at ws i = (if i < length ws then ws ! i else 0)"

definition first_word :: "u32 list \<Rightarrow> u32" where
  "first_word ws = word_at ws 0"

definition get_stack_ptr :: "pm_env \<Rightarrow> int \<Rightarrow> pmstate \<Rightarrow> int \<times> u32 \<times> pmstate" where
  "get_stack_ptr env nr s = (let ((r, ws), s1) = ask env (SysGetproc nr) s in (r, first_word ws, s1))"

abbreviation (input) tell_fs :: "int \<Rightarrow> int \<Rightarrow> int \<Rightarrow> int \<Rightarrow> pmstate \<Rightarrow> pmstate" where
  "tell_fs what p1 p2 p3 \<equiv> tell (TellFs what p1 p2 p3)"

section \<open>Growing data and stack\<close>

abbreviation (input) SAFETY_CLICKS :: u32 where "SAFETY_CLICKS \<equiv> 2"

definition adj_stack :: "u32 \<Rightarrow> mem_map \<Rightarrow> mem_map" where
  "adj_stack delta m = m\<lparr>mem_vir := mem_vir m - delta, mem_phys := mem_phys m - delta, mem_len := mem_len m + delta\<rparr>"

definition adjust :: "int \<Rightarrow> u32 \<Rightarrow> u32 \<Rightarrow> pmstate \<Rightarrow> int \<times> pmstate" where
  "adjust rmp data_clicks sp s =
     (let dp = mp_seg (mpr s rmp) D_seg; sg = mp_seg (mpr s rmp) S_seg;
          base_of_stack = mem_vir sg + mem_len sg;
          sp_click = drop_bit CLICK_SHIFT sp;
          delta = mem_vir sg - sp_click;
          grows = sint delta > 0;
          lower = (if grows then sp_click else mem_vir sg);
          gap_base = mem_vir dp + data_clicks + SAFETY_CLICKS
      in if mem_len sg = 0 then (OK, s)
         else if sp_click \<ge> base_of_stack then (ENOMEM, s)
         else if lower < gap_base then (ENOMEM, s)
         else let dp1 = dp\<lparr>mem_len := data_clicks\<rparr>;
                  sg1 = (if grows then adj_stack delta sg else sg);
                  changed = (data_clicks \<noteq> mem_len dp \<or> grows);
                  s1 = upd_mp rmp (\<lambda>p. p\<lparr>mp_seg := (mp_seg p)(D_seg := dp1, S_seg := sg1)\<rparr>) s
              in if mem_vir dp1 + mem_len dp1 > mem_vir sg1
                 then (ENOMEM, upd_mp rmp (\<lambda>p. p\<lparr>mp_seg := (mp_seg p)
                         (D_seg := dp1\<lparr>mem_len := mem_len dp\<rparr>,
                          S_seg := (if grows then adj_stack (- delta) sg1 else sg1))\<rparr>) s1)
                 else (OK, if changed then newmap rmp s1 else s1))"

definition do_brk :: "pm_env \<Rightarrow> pmstate \<Rightarrow> (int \<times> pmstate) res" where
  "do_brk env s =
     (let rmp = pm_mp s; v = m_w (pm_in s) 3; dvir = mem_vir (mp_seg (mpr s rmp) D_seg);
          set_ptr = (\<lambda>w. upd_mp rmp (\<lambda>p. p\<lparr>mp_reply := mset_w 5 w (mp_reply p)\<rparr>));
          new_clicks = signed_drop_bit CLICK_SHIFT (v + (CLICK_SIZE - 1))
      in if new_clicks < dvir then Inr (ENOMEM, set_ptr (- 1) s)
         else let (r, new_sp, s1) = get_stack_ptr env (pm_who s) s
              in if r \<noteq> OK then Inl (Panic ''couldn't get stack pointer'')
                 else let (r2, s2) = adjust rmp (new_clicks - dvir) new_sp s1
                      in Inr (r2, set_ptr (if r2 = OK then v else - 1) s2))"

section \<open>Timers\<close>

definition pm_set_timer :: "pm_env \<Rightarrow> int \<Rightarrow> int \<Rightarrow> pm_watchdog \<Rightarrow> int \<Rightarrow> pmstate \<Rightarrow> pmstate res" where
  "pm_set_timer env tp ticks watchdog arg s =
     (let ((r, ws), s1) = ask env GetUptime s; now = sint (first_word ws) in
      if r \<noteq> OK then Inl (Panic ''PM couldn't get uptime'')
      else let q = pm_timers s1;
               q1 = q\<lparr>theap := (theap q)(tp := (theap q tp)\<lparr>tmr_arg := arg\<rparr>)\<rparr>
           in case tmrs_settimer tp (slong (now + ticks)) watchdog q1 of
                None \<Rightarrow> Inl Hang
              | Some (prev_time, next_time, q2) \<Rightarrow>
                  let s2 = s1\<lparr>pm_timers := q2\<rparr> in
                  if prev_time = 0 \<or> prev_time > next_time
                  then let ((r2, _), s3) = ask env (SysSetalarm next_time) s2
                       in if r2 \<noteq> OK then Inl (Panic ''PM set timer couldn't set alarm.'') else Inr s3
                  else Inr s2)"

definition pm_cancel_timer :: "pm_env \<Rightarrow> int \<Rightarrow> pmstate \<Rightarrow> pmstate res" where
  "pm_cancel_timer env tp s =
     (case tmrs_clrtimer tp (pm_timers s) of
        None \<Rightarrow> Inl Hang
      | Some (prev_time, next_time, q) \<Rightarrow>
          let s1 = s\<lparr>pm_timers := q\<rparr> in
          if prev_time < next_time \<or> next_time = 0
          then let ((r, _), s2) = ask env (SysSetalarm next_time) s1
               in if r \<noteq> OK then Inl (Panic ''PM expire timer couldn't set alarm.'') else Inr s2
          else Inr s1)"

section \<open>Process ids\<close>

definition pid_used :: "int \<Rightarrow> pmstate \<Rightarrow> bool" where
  "pid_used pid s = list_ex (\<lambda>n. mp_pid (mpr s n) = pid \<or> mp_procgrp (mpr s n) = pid) slots"

partial_function (option) get_free_pid :: "pmstate \<Rightarrow> (int \<times> pmstate) option" where
  "get_free_pid s =
     (let np = (if next_pid s < NR_PIDS then next_pid s + 1 else INIT_PID + 1);
          s1 = s\<lparr>next_pid := np\<rparr>
      in if pid_used np s1 then get_free_pid s1 else Some (np, s1))"

definition proc_from_pid :: "int \<Rightarrow> pmstate \<Rightarrow> int" where
  "proc_from_pid pid s = (case find (\<lambda>n. mp_pid (mpr s n) = pid) slots of None \<Rightarrow> - 1 | Some n \<Rightarrow> n)"

definition find_share :: "int \<Rightarrow> u32 \<times> int \<times> int \<Rightarrow> pmstate \<Rightarrow> int option" where
  "find_share mp_ign fl s =
     find (\<lambda>n. mfl s n AND SEPARATE \<noteq> 0 \<and> n \<noteq> mp_ign \<and>
               mp_ino (mpr s n) = fst fl \<and> mp_dev (mpr s n) = fst (snd fl) \<and> mp_ctime (mpr s n) = snd (snd fl)) slots"

section \<open>Properties of process ids\<close>

lemma pid_used_next [simp]: "pid_used p (s\<lparr>next_pid := q\<rparr>) = pid_used p s"
  by (simp add: pid_used_def)

text \<open>At most 128 ids are in use, so that one of the 29999 is free.\<close>

lemma free_pid_exists: "\<exists>q. 2 \<le> q \<and> q \<le> NR_PIDS \<and> \<not> pid_used q s"
proof (rule ccontr)
  assume "\<nexists>q. 2 \<le> q \<and> q \<le> NR_PIDS \<and> \<not> pid_used q s"
  then have "{2..NR_PIDS} \<subseteq> (\<lambda>n. mp_pid (mpr s n)) ` set slots \<union> (\<lambda>n. mp_procgrp (mpr s n)) ` set slots"
    by (auto simp: pid_used_def list_ex_iff)
  then have "card {2..NR_PIDS} \<le> card ((\<lambda>n. mp_pid (mpr s n)) ` set slots \<union> (\<lambda>n. mp_procgrp (mpr s n)) ` set slots)"
    by (intro card_mono) simp_all
  also have "\<dots> \<le> card ((\<lambda>n. mp_pid (mpr s n)) ` set slots) + card ((\<lambda>n. mp_procgrp (mpr s n)) ` set slots)"
    by (rule card_Un_le)
  also have "\<dots> \<le> card (set slots) + card (set slots)" by (intro add_mono card_image_le) simp_all
  finally show False by (simp add: slots_set)
qed

lemma get_free_pid_from:
  assumes "1 \<le> next_pid s" and "next_pid s \<le> NR_PIDS" and "2 \<le> q" and "q \<le> NR_PIDS" and "\<not> pid_used q s"
  shows "\<exists>p. get_free_pid s = Some (p, s\<lparr>next_pid := p\<rparr>) \<and> 2 \<le> p \<and> p \<le> NR_PIDS \<and> \<not> pid_used p s"
  using assms
proof (induction "nat (if next_pid s < q then q - next_pid s else NR_PIDS + q - next_pid s)" arbitrary: s rule: less_induct)
  case less
  define np where "np = (if next_pid s < NR_PIDS then next_pid s + 1 else 2)"
  have np: "2 \<le> np" "np \<le> NR_PIDS" using less.prems by (auto simp: np_def)
  show ?case
  proof (cases "pid_used np s")
    case False
    then show ?thesis using np get_free_pid.simps [of s] by (auto simp: np_def Let_def)
  next
    case True
    then have neq: "np \<noteq> q" using less.prems by auto
    have eq: "get_free_pid s = get_free_pid (s\<lparr>next_pid := np\<rparr>)"
      using True get_free_pid.simps [of s] by (auto simp: np_def Let_def)
    show ?thesis unfolding eq using less.hyps [of "s\<lparr>next_pid := np\<rparr>"] less.prems np neq
      by (auto simp: np_def split: if_splits)
  qed
qed

text \<open>
  process ids. \<open>get_free_pid\<close> ends and returns an id from 2 to 30000 that no slot of the table
  has as its process id or as its process group, and that is remembered as the one given out last.
\<close>

theorem get_free_pid_fresh:
  assumes "1 \<le> next_pid s" and "next_pid s \<le> NR_PIDS"
  shows "\<exists>p. get_free_pid s = Some (p, s\<lparr>next_pid := p\<rparr>) \<and> 2 \<le> p \<and> p \<le> NR_PIDS \<and>
    (\<forall>n. 0 \<le> n \<longrightarrow> n < 64 \<longrightarrow> mp_pid (mpr s n) \<noteq> p \<and> mp_procgrp (mpr s n) \<noteq> p)"
proof -
  from free_pid_exists obtain q where "2 \<le> q" "q \<le> NR_PIDS" "\<not> pid_used q s" by blast
  from get_free_pid_from [OF assms this] show ?thesis by (auto simp: pid_used_def list_ex_iff)
qed

theorem get_free_pid_fresh_witness: "\<exists>p. get_free_pid sample_mem = Some (p, sample_mem\<lparr>next_pid := p\<rparr>) \<and> 2 \<le> p \<and> p \<noteq> 7"
proof -
  have "1 \<le> next_pid sample_mem" "next_pid sample_mem \<le> NR_PIDS" "mp_pid (mpr sample_mem 7) = 7"
    by (simp_all add: sample_mem_def sample_pm_def sample_waiting_def)
  then show ?thesis using get_free_pid_fresh [of sample_mem] by auto
qed

section \<open>Growth\<close>

text \<open>
  The layout of data and stack in the block of a process: the data first, then the gap, then the
  stack up to the end of the block.
\<close>

definition layout :: "mproc \<Rightarrow> bool" where
  "layout p \<longleftrightarrow> (let d = mp_seg p D_seg; g = mp_seg p S_seg in
     unat (mem_vir d) + unat (mem_len d) \<le> unat (mem_vir g) \<and> unat (mem_vir g) + unat (mem_len g) < 2 ^ 31 \<and>
     mem_phys g = mem_phys d + (mem_vir g - mem_vir d))"

lemma adj_stack_undo [simp]: "adj_stack (- d) (adj_stack d g) = g"
  by (simp add: adj_stack_def)

lemma mem_map_len_undo [simp]: "d\<lparr>mem_len := c, mem_len := mem_len d\<rparr> = (d :: mem_map)"
  by simp

lemma upd_mp_twice: "upd_mp n f (upd_mp n g s) = upd_mp n (\<lambda>p. f (g p)) s"
  by (simp add: upd_mp_def)

lemma upd_mp_same: "f (mpr s n) = mpr s n \<Longrightarrow> upd_mp n f s = s"
  by (simp add: upd_mp_def)

definition grown :: "u32 \<Rightarrow> u32 \<Rightarrow> mproc \<Rightarrow> mproc" where
  "grown dc sp p = p\<lparr>mp_seg := (mp_seg p)
     (D_seg := (mp_seg p D_seg)\<lparr>mem_len := dc\<rparr>,
      S_seg := (let d = mem_vir (mp_seg p S_seg) - drop_bit CLICK_SHIFT sp
                in if sint d > 0 then adj_stack d (mp_seg p S_seg) else mp_seg p S_seg))\<rparr>"

lemma mproc_restore:
  fixes p :: mproc
  shows "f D_seg = mp_seg p D_seg \<Longrightarrow> f S_seg = mp_seg p S_seg \<Longrightarrow> f T_seg = mp_seg p T_seg \<Longrightarrow> p\<lparr>mp_seg := f\<rparr> = p"
proof -
  assume a: "f D_seg = mp_seg p D_seg" "f S_seg = mp_seg p S_seg" "f T_seg = mp_seg p T_seg"
  have "f = mp_seg p" proof fix g show "f g = mp_seg p g" using a by (cases g) auto qed
  then show ?thesis by simp
qed

lemma adjust_outcome:
  "adjust n dc sp s = (ENOMEM, s) \<or> adjust n dc sp s = (OK, s) \<and> mem_len (mp_seg (mpr s n) S_seg) = 0 \<or>
   (\<exists>s'. adjust n dc sp s = (OK, s') \<and> (\<exists>lg. s' = (upd_mp n (grown dc sp) s)\<lparr>pm_log := lg\<rparr>) \<and>
     drop_bit CLICK_SHIFT sp < mem_vir (mp_seg (mpr s n) S_seg) + mem_len (mp_seg (mpr s n) S_seg) \<and>
     mem_vir (mp_seg (mpr s n) D_seg) + dc \<le> mem_vir (mp_seg (mpr s' n) S_seg))"
proof -
  define p where "p = mpr s n"
  define d where "d = mem_vir (mp_seg p S_seg) - drop_bit CLICK_SHIFT sp"
  have undo: "upd_mp n (\<lambda>q. q\<lparr>mp_seg := (mp_seg q)
      (D_seg := (mp_seg p D_seg)\<lparr>mem_len := dc, mem_len := mem_len (mp_seg p D_seg)\<rparr>,
       S_seg := (if sint d > 0 then adj_stack (- d) (if sint d > 0 then adj_stack d (mp_seg p S_seg) else mp_seg p S_seg)
                 else (if sint d > 0 then adj_stack d (mp_seg p S_seg) else mp_seg p S_seg)))\<rparr>)
      (upd_mp n (\<lambda>q. q\<lparr>mp_seg := (mp_seg q)(D_seg := (mp_seg p D_seg)\<lparr>mem_len := dc\<rparr>,
        S_seg := (if sint d > 0 then adj_stack d (mp_seg p S_seg) else mp_seg p S_seg))\<rparr>) s) = s"
    unfolding upd_mp_twice by (rule upd_mp_same) (simp add: p_def mproc_restore)
  have go: "upd_mp n (\<lambda>q. q\<lparr>mp_seg := (mp_seg q)(D_seg := (mp_seg p D_seg)\<lparr>mem_len := dc\<rparr>,
        S_seg := (if sint d > 0 then adj_stack d (mp_seg p S_seg) else mp_seg p S_seg))\<rparr>) s = upd_mp n (grown dc sp) s"
    by (simp add: upd_mp_def grown_def p_def d_def Let_def)
  show ?thesis unfolding adjust_def Let_def p_def [symmetric] d_def [symmetric] undo
    unfolding go
    by (auto simp: tell_def upd_mp_def grown_def p_def d_def Let_def not_less intro: exI [of _ "pm_log s"])
qed

lemma grown_size [simp]:
  "prog_size (grown dc sp p) = prog_size p" "mem_phys (mp_seg (grown dc sp p) D_seg) = mem_phys (mp_seg p D_seg)"
  "mp_seg (grown dc sp p) T_seg = mp_seg p T_seg" "mp_flags (grown dc sp p) = mp_flags p" "file_of (grown dc sp p) = file_of p"
  by (simp_all add: prog_size_def grown_def adj_stack_def file_of_def Let_def)

lemma click_small: "unat (drop_bit CLICK_SHIFT (w :: u32)) < 2 ^ 22"
  using unsigned_less [of w, where 'a = nat] by (simp add: drop_bit_eq_div unat_div less_mult_imp_div_less)

lemma sint_diff_pos:
  fixes a b :: u32
  assumes a: "unat a < 2147483648" and b: "unat b < 2147483648"
  shows "0 < sint (a - b) \<longleftrightarrow> unat b < unat a"
proof -
  define k where "k = int (unat a) - int (unat b)"
  have "a - b = word_of_int k" by (simp add: k_def)
  then have "sint (a - b) = signed_take_bit 31 k" by (simp only: sint_sbintrunc') simp
  also have "- 2147483648 \<le> k" "k < 2147483648" using a b unfolding k_def by linarith+
  then have "signed_take_bit 31 k = k" by (intro signed_take_bit_int_eq_self) simp_all
  finally have "sint (a - b) = k" .
  moreover have "0 < k \<longleftrightarrow> unat b < unat a" unfolding k_def by linarith
  ultimately show ?thesis by simp
qed

text \<open>
  C27: growth of data and stack. \<open>adjust\<close> either refuses and changes nothing, or sets the length
  of the data as requested and lets the stack reach down to the click of the stack pointer. Data
  and stack then do not overlap, the block of the process is the same, and no other process changes.
\<close>

theorem adjust_no_overlap:
  assumes "layout (mpr s n)" and "mem_len (mp_seg (mpr s n) S_seg) \<noteq> 0"
    and "unat (mem_vir (mp_seg (mpr s n) D_seg)) + unat dc < 2 ^ 32" and "adjust n dc sp s = (r, s')"
  shows "r = ENOMEM \<and> s' = s \<or>
    r = OK \<and> layout (mpr s' n) \<and> mem_len (mp_seg (mpr s' n) D_seg) = dc \<and>
    unat (mem_vir (mp_seg (mpr s' n) S_seg)) = min (unat (mem_vir (mp_seg (mpr s n) S_seg))) (unat (drop_bit CLICK_SHIFT sp)) \<and>
    dblk (mpr s' n) = dblk (mpr s n) \<and> (\<forall>m. m \<noteq> n \<longrightarrow> mpr s' m = mpr s m)"
proof -
  consider "r = ENOMEM" "s' = s" | lg where "r = OK" "s' = (upd_mp n (grown dc sp) s)\<lparr>pm_log := lg\<rparr>"
      "mem_vir (mp_seg (mpr s n) D_seg) + dc \<le> mem_vir (mp_seg (mpr s' n) S_seg)"
    using adjust_outcome [of n dc sp s] unfolding assms(4) by (elim disjE) (use assms(2) in \<open>simp, simp, blast\<close>)
  then show ?thesis
  proof cases
    case 2
    define g where "g = mp_seg (mpr s n) S_seg"
    define c where "c = drop_bit CLICK_SHIFT sp"
    have g: "unat (mem_vir g) + unat (mem_len g) < 2 ^ 31" using assms(1) by (simp add: layout_def g_def Let_def)
    have c: "unat c < 2 ^ 22" using click_small by (simp add: c_def)
    have sd: "0 < sint (mem_vir g - c) \<longleftrightarrow> unat c < unat (mem_vir g)"
      by (rule sint_diff_pos) (use g c in simp_all)
    have seg: "mp_seg (mpr s' n) S_seg = (if unat (mem_vir g) > unat c then adj_stack (mem_vir g - c) g else g)"
      using 2 sd by (simp add: grown_def Let_def g_def c_def)
    have other: "\<forall>m. m \<noteq> n \<longrightarrow> mpr s' m = mpr s m" "dblk (mpr s' n) = dblk (mpr s n)"
      using 2(2) by (simp_all add: dblk_def)
    define d where "d = mp_seg (mpr s n) D_seg"
    have d: "mp_seg (mpr s' n) D_seg = d\<lparr>mem_len := dc\<rparr>" using 2(2) by (simp add: grown_def d_def)
    have lay: "mem_phys g = mem_phys d + (mem_vir g - mem_vir d)" using assms(1) by (simp add: layout_def g_def d_def Let_def)
    have le: "unat (mem_vir d) + unat dc \<le> unat (mem_vir (mp_seg (mpr s' n) S_seg))"
      using 2(3) assms(3) by (simp add: d_def word_le_nat_alt unat_word_ariths)
    show ?thesis
    proof (cases "unat (mem_vir g) > unat c")
      case True
      have "unat (mem_len g + (mem_vir g - c)) = unat (mem_len g) + (unat (mem_vir g) - unat c)"
        using True g by (simp add: unat_word_ariths unat_sub_if_size word_size)
      then show ?thesis using 2(1) other d le seg True g lay
        by (simp add: layout_def Let_def adj_stack_def g_def [symmetric] c_def [symmetric] d_def [symmetric])
    next
      case False
      then show ?thesis using 2(1) other d le seg g lay
        by (simp add: layout_def Let_def g_def [symmetric] c_def [symmetric] d_def [symmetric])
    qed
  qed simp
qed

text \<open>The process of the sample wants two more clicks of data, with its stack pointer in click 26.\<close>

theorem adjust_no_overlap_witness:
  "\<exists>s'. adjust 7 10 (26 * 1024) sample_mem = (OK, s') \<and> layout (mpr s' 7) \<and> mem_len (mp_seg (mpr s' 7) D_seg) = 10"
proof -
  have l: "layout (mpr sample_mem 7)" by (simp add: layout_def sample_mem_def sample_waiting_def)
  have "fst (adjust 7 10 (26 * 1024) sample_mem) = OK"
    by (simp add: adjust_def Let_def sample_mem_def sample_waiting_def drop_bit_eq_div word_less_nat_alt word_le_nat_alt)
  then obtain s' where "adjust 7 10 (26 * 1024) sample_mem = (OK, s')" by (metis prod.collapse)
  with adjust_no_overlap [OF l _ _ this] show ?thesis by (auto simp: sample_mem_def sample_waiting_def)
qed

end
