(* ===== verification/Pm_Signal.thy ===== *)
theory Pm_Signal
  imports Pm_Proc
begin

unbundle bit_operations_syntax

text \<open>
  Signals and the end of processes in the process manager (\<open>servers/pm/signal.c\<close>, \<open>forkexit.c\<close>,
  \<open>stop_proc\<close> of \<open>trace.c\<close>). Sending a signal can end a process, and ending a session leader
  sends signals: \<open>sig_proc\<close>, \<open>check_sig\<close> and \<open>pm_exit\<close> call each other. The functions that end in
  \<open>_with\<close> take the call of \<open>pm_exit\<close> as a parameter, and \<open>pm_exit\<close> ties the knot, with a bound
  on the depth; every level of the recursion has ended one more process, so that \<open>PM_DEPTH\<close>,
  one more than there are slots, is enough.
\<close>

abbreviation (input) SIGHUP :: int where "SIGHUP \<equiv> 1"
abbreviation (input) SIGINT :: int where "SIGINT \<equiv> 2"
abbreviation (input) SIGQUIT :: int where "SIGQUIT \<equiv> 3"
abbreviation (input) SIGTRAP :: int where "SIGTRAP \<equiv> 5"
abbreviation (input) SIGKILL :: int where "SIGKILL \<equiv> 9"
abbreviation (input) SIGALRM :: int where "SIGALRM \<equiv> 14"
abbreviation (input) SIGCHLD :: int where "SIGCHLD \<equiv> 17"
abbreviation (input) SA_RESETHAND :: u32 where "SA_RESETHAND \<equiv> 2"
abbreviation (input) SA_NODEFER :: u32 where "SA_NODEFER \<equiv> 4"
abbreviation (input) T_GETUSER :: int where "T_GETUSER \<equiv> 3"
abbreviation (input) UNPAUSE_FS :: int where "UNPAUSE_FS \<equiv> 65"
abbreviation (input) CHDIR_FS :: int where "CHDIR_FS \<equiv> 12"
abbreviation (input) EXIT_FS :: int where "EXIT_FS \<equiv> 1"

text \<open>C tests the result of \<open>sigismember\<close> for being nonzero.\<close>

abbreviation sigin :: "u32 \<Rightarrow> int \<Rightarrow> bool" where
  "sigin st n \<equiv> sigismember st n \<noteq> 0"

abbreviation sig_add :: "u32 \<Rightarrow> int \<Rightarrow> u32" where "sig_add st n \<equiv> snd (sigaddset st n)"
abbreviation sig_del :: "u32 \<Rightarrow> int \<Rightarrow> u32" where "sig_del st n \<equiv> snd (sigdelset st n)"

section \<open>Stopping and waking\<close>

definition unpause :: "int \<Rightarrow> pmstate \<Rightarrow> pmstate res" where
  "unpause pro s =
     (if mfl s pro AND (PAUSED OR WAITING OR SIGSUSPENDED) \<noteq> 0
      then setreply pro EINTR (set_mfl pro (mfl s pro AND NOT (PAUSED OR WAITING OR SIGSUSPENDED)) s)
      else Inr (tell_fs UNPAUSE_FS pro 0 0 s))"

definition stop_proc :: "pm_env \<Rightarrow> int \<Rightarrow> int \<Rightarrow> pmstate \<Rightarrow> pmstate res" where
  "stop_proc env rmp signo s =
     (let ((r, _), s1) = ask env (SysTrace (- 1) rmp 0 0) s in
      if r \<noteq> OK then Inr s1
      else bindr (mproc_at (mp_parent (mpr s1 rmp))) (\<lambda>rpmp.
           let s2 = set_mfl rmp (mfl s1 rmp OR STOPPED) s1 in
           if mfl s2 rpmp AND WAITING \<noteq> 0
           then let s3 = set_mfl rpmp (mfl s2 rpmp AND NOT WAITING) s2;
                    s4 = set_res2 rpmp (0x7F OR word_of_int (signo * 256)) s3
                in setreply (mp_parent (mpr s4 rmp)) (mp_pid (mpr s4 rmp)) s4
           else Inr (upd_mp rmp (\<lambda>p. p\<lparr>mp_sigstatus := schar signo\<rparr>) s2)))"

section \<open>Core dumps\<close>

text \<open>
  The registers are written until the kernel refuses an offset, which is the result \<open>True\<close>; a
  write that fails ends the dump.
\<close>

partial_function (option) core_regs :: "pm_env \<Rightarrow> int \<Rightarrow> int \<Rightarrow> u32 \<Rightarrow> pmstate \<Rightarrow> (bool \<times> pmstate) option" where
  "core_regs env fd slot trace_off s =
     (let ((r, ws), s1) = ask env (SysTrace T_GETUSER slot trace_off 0) s in
      if r \<noteq> OK then Some (True, s1)
      else let ((w, _), s2) = ask env (FsWrite fd [first_word ws]) s1 in
           if w \<noteq> 4 then Some (False, s2)
           else core_regs env fd slot (trace_off + 4) s2)"

definition map_words :: "mproc \<Rightarrow> u32 list" where
  "map_words p = concat (map (\<lambda>sg. [mem_vir (mp_seg p sg), mem_phys (mp_seg p sg), mem_len (mp_seg p sg)]) [T_seg, D_seg, S_seg])"

definition core_name :: "u8 list" where
  "core_name = [99, 111, 114, 101]"

definition dump_core :: "pm_env \<Rightarrow> int \<Rightarrow> pmstate \<Rightarrow> pmstate res" where
  "dump_core env rmp s =
     (if mp_realuid (mpr s rmp) \<noteq> mp_effuid (mpr s rmp) then Inr s
      else let ((fd, _), s1) = ask env (FsOpen core_name) s in
      if fd < 0 then Inr s1
      else let s2 = upd_mp rmp (\<lambda>p. p\<lparr>mp_sigstatus := schar (mp_sigstatus p OR 128)\<rparr>) s1;
               (r, current_sp, s3) = get_stack_ptr env rmp s2
           in if r \<noteq> OK then Inl (Panic ''couldn't get new stack pointer'')
              else let (_, s4) = adjust rmp (mem_len (mp_seg (mpr s3 rmp) D_seg)) current_sp s3;
                       ((w, _), s5) = ask env (FsWrite fd (map_words (mpr s4 rmp))) s4
                   in if w \<noteq> 36 then Inr (tell (FsClose fd) s5)
                      else case core_regs env fd rmp 0 s5 of
                             None \<Rightarrow> Inl Hang
                           | Some (go, s6) \<Rightarrow>
                               if \<not> go then Inr (tell (FsClose fd) s6)
                               else let wr = (\<lambda>sg t. rw_seg env 1 fd rmp sg
                                          (push_bit CLICK_SHIFT (mem_len (mp_seg (mpr t rmp) sg))) t)
                                    in Inr (tell (FsClose fd) (wr S_seg (wr D_seg (wr T_seg s6)))))"

section \<open>Sending a signal\<close>

type_synonym exit_fun = "int \<Rightarrow> int \<Rightarrow> pmstate \<Rightarrow> pmstate res"

text \<open>The default action (the label \<open>doterminate\<close>).\<close>

definition sig_default :: "exit_fun \<Rightarrow> pm_env \<Rightarrow> int \<Rightarrow> int \<Rightarrow> pmstate \<Rightarrow> pmstate res" where
  "sig_default ex env rmp signo s =
     (if sigin (ign_sset s) signo then Inr s
      else let s1 = upd_mp rmp (\<lambda>p. p\<lparr>mp_sigstatus := schar signo\<rparr>) s in
      if sigin (core_sset s1) signo
      then if mfl s1 rmp AND ONSWAP \<noteq> 0
           then swap_inqueue rmp (upd_mp rmp (\<lambda>p. p\<lparr>mp_sigpending := sig_add (mp_sigpending p) signo\<rparr>) s1)
           else bindr (dump_core env rmp (tell_fs CHDIR_FS rmp 0 0 s1)) (\<lambda>s2. ex rmp 0 s2)
      else ex rmp 0 s1)"

definition sig_caught :: "exit_fun \<Rightarrow> pm_env \<Rightarrow> int \<Rightarrow> int \<Rightarrow> pmstate \<Rightarrow> pmstate res" where
  "sig_caught ex env rmp signo s =
     (let p = mpr s rmp; act = mp_sigact p signo;
          mask = (if mp_flags p AND SIGSUSPENDED \<noteq> 0 then mp_sigmask2 p else mp_sigmask p);
          (r, sp, s1) = get_stack_ptr env rmp s;
          sm = \<lparr>sm_signo = signo, sm_mask = mask, sm_sighandler = sa_handler act, sm_sigreturn = mp_sigreturn p, sm_stkptr = sp\<rparr>
      in if r \<noteq> OK then Inl (Panic ''couldn't get new stack pointer'')
         else let (a, s2) = adjust rmp (mem_len (mp_seg (mpr s1 rmp) D_seg)) (sp - (72 + 3 * 4 + 2 * 4)) s1
              in if a \<noteq> OK then sig_default ex env rmp signo s2
                 else let s3 = upd_mp rmp (\<lambda>p.
                            let m = mp_sigmask p OR sa_mask (mp_sigact p signo);
                                m1 = (if sa_flags act AND SA_NODEFER \<noteq> 0 then sig_del m signo else sig_add m signo);
                                p1 = p\<lparr>mp_sigmask := m1\<rparr>
                            in if sa_flags act AND SA_RESETHAND \<noteq> 0
                               then p1\<lparr>mp_catch := sig_del (mp_catch p1) signo,
                                       mp_sigact := (mp_sigact p1)(signo := (mp_sigact p1 signo)\<lparr>sa_handler := 0\<rparr>)\<rparr>
                               else p1) s2;
                          ((r2, _), s4) = ask env (SysSigsend rmp sm) s3
                      in if r2 = OK
                         then unpause rmp (upd_mp rmp (\<lambda>p. p\<lparr>mp_sigpending := sig_del (mp_sigpending p) signo\<rparr>) s4)
                         else Inl (Panic ''warning, sys_sigsend failed''))"

definition sig_proc_with :: "exit_fun \<Rightarrow> pm_env \<Rightarrow> int \<Rightarrow> int \<Rightarrow> pmstate \<Rightarrow> pmstate res" where
  "sig_proc_with ex env rmp signo s =
     (let p = mpr s rmp in
      if mp_flags p AND (IN_USE OR ZOMBIE) \<noteq> IN_USE then Inl (Panic [])
      else if mp_flags p AND TRACED \<noteq> 0 \<and> signo \<noteq> SIGKILL
      then bindr (unpause rmp s) (stop_proc env rmp signo)
      else if sigin (mp_ignore p) signo then Inr s
      else if sigin (mp_sigmask p) signo
      then Inr (upd_mp rmp (\<lambda>p. p\<lparr>mp_sigpending := sig_add (mp_sigpending p) signo\<rparr>) s)
      else if mp_flags p AND ONSWAP \<noteq> 0
      then swap_inqueue rmp (upd_mp rmp (\<lambda>p. p\<lparr>mp_sigpending := sig_add (mp_sigpending p) signo\<rparr>) s)
      else if sigin (mp_catch p) signo then sig_caught ex env rmp signo s
      else if sigin (mp_sig2mess p) signo
      then let ((r, _), s1) = ask env (SysKill rmp signo) s
           in if r \<noteq> OK then Inl (Panic ''warning, sys_kill failed'') else Inr s1
      else sig_default ex env rmp signo s)"

definition may_signal :: "mproc \<Rightarrow> mproc \<Rightarrow> bool" where
  "may_signal m p \<longleftrightarrow> mp_effuid m = SUPER_USER \<or> mp_realuid m = mp_realuid p \<or> mp_effuid m = mp_realuid p \<or>
     mp_realuid m = mp_effuid p \<or> mp_effuid m = mp_effuid p"

definition selected :: "int \<Rightarrow> int \<Rightarrow> mproc \<Rightarrow> mproc \<Rightarrow> bool" where
  "selected proc_id signo m p \<longleftrightarrow>
     mp_flags p AND IN_USE \<noteq> 0 \<and> (mp_flags p AND ZOMBIE = 0 \<or> signo = 0) \<and>
     (proc_id > 0 \<longrightarrow> proc_id = mp_pid p) \<and> (proc_id = 0 \<longrightarrow> mp_procgrp m = mp_procgrp p) \<and>
     (proc_id = - 1 \<longrightarrow> mp_pid p > INIT_PID) \<and> (proc_id < - 1 \<longrightarrow> mp_procgrp p = - proc_id)"

fun check_loop :: "exit_fun \<Rightarrow> pm_env \<Rightarrow> int \<Rightarrow> int \<Rightarrow> int list \<Rightarrow> int \<Rightarrow> int \<Rightarrow> pmstate \<Rightarrow> (int \<times> int \<times> pmstate) res" where
  "check_loop ex env proc_id signo [] count error_code s = Inr (count, error_code, s)"
| "check_loop ex env proc_id signo (rmp # rs) count error_code s =
     (let m = mpr s (pm_mp s); p = mpr s rmp in
      if \<not> selected proc_id signo m p then check_loop ex env proc_id signo rs count error_code s
      else if \<not> may_signal m p then check_loop ex env proc_id signo rs count EPERM s
      else if signo = 0 then check_loop ex env proc_id signo rs (count + 1) error_code s
      else bindr (sig_proc_with ex env rmp signo s) (\<lambda>s1.
           if proc_id > 0 then Inr (count + 1, error_code, s1)
           else check_loop ex env proc_id signo rs (count + 1) error_code s1))"

definition check_sig_with :: "exit_fun \<Rightarrow> pm_env \<Rightarrow> int \<Rightarrow> int \<Rightarrow> pmstate \<Rightarrow> (int \<times> pmstate) res" where
  "check_sig_with ex env proc_id signo s =
     (if signo < 0 \<or> signo > NSIG then Inr (EINVAL, s)
      else if proc_id = INIT_PID \<and> signo = SIGKILL then Inr (EINVAL, s)
      else bindr (check_loop ex env proc_id signo slots 0 ESRCH s) (\<lambda>(count, error_code, s1).
           if mfl s1 (pm_mp s1) AND (IN_USE OR ZOMBIE) \<noteq> IN_USE then Inr (SUSPEND, s1)
           else Inr (if count > 0 then OK else error_code, s1)))"

section \<open>The end of a process\<close>

definition set_alarm :: "pm_env \<Rightarrow> int \<Rightarrow> int \<Rightarrow> pmstate \<Rightarrow> (int \<times> pmstate) res" where
  "set_alarm env nr sec s =
     bindr (mproc_at nr) (\<lambda>n.
     bindr (if mfl s n AND ALARM_ON \<noteq> 0
            then let ((r, ws), s1) = ask env GetUptime s in
                 if r \<noteq> OK then Inl (Panic ''set_alarm couldn't get uptime'')
                 else let exptime = tmr_exp_time (theap (pm_timers s1) n);
                          remaining = cdiv (slong (slong (exptime - sint (first_word ws)) + (HZ - 1))) HZ
                      in Inr (if remaining < 0 then 0 else remaining, s1)
            else Inr (0, s)) (\<lambda>(remaining, s1).
     let uticks = 60 * (word_of_int sec :: u32);
         ticks = (if uticks div 60 \<noteq> word_of_int sec then TMR_NEVER else sint uticks)
     in if ticks \<noteq> 0
        then bindr (pm_set_timer env n ticks CauseSigalrm n s1) (\<lambda>s2.
             Inr (remaining, set_mfl n (mfl s2 n OR ALARM_ON) s2))
        else if mfl s1 n AND ALARM_ON \<noteq> 0
        then bindr (pm_cancel_timer env n s1) (\<lambda>s2.
             Inr (remaining, set_mfl n (mfl s2 n AND NOT ALARM_ON) s2))
        else Inr (remaining, s1)))"

definition cleanup :: "int \<Rightarrow> pmstate \<Rightarrow> pmstate res" where
  "cleanup child s =
     bindr (mproc_at (mp_parent (mpr s child))) (\<lambda>parent.
     let c = mpr s child;
         exitstatus = word_of_int (mp_exitstatus c * 256) OR (word_of_int (mp_sigstatus c) AND 0xFF)
     in bindr (setreply (mp_parent c) (mp_pid c) (set_res2 parent exitstatus s)) (\<lambda>s1.
        let s2 = set_mfl parent (mfl s1 parent AND NOT WAITING) s1;
            s3 = upd_mp child (\<lambda>p. p\<lparr>mp_pid := 0, mp_flags := 0, mp_child_utime := 0, mp_child_stime := 0\<rparr>) s2
        in Inr (s3\<lparr>procs_in_use := procs_in_use s3 - 1\<rparr>)))"

fun disinherit :: "int \<Rightarrow> int list \<Rightarrow> pmstate \<Rightarrow> pmstate res" where
  "disinherit nr [] s = Inr s"
| "disinherit nr (rmp # rs) s =
     (if mfl s rmp AND IN_USE \<noteq> 0 \<and> mp_parent (mpr s rmp) = nr
      then let s1 = upd_mp rmp (\<lambda>p. p\<lparr>mp_parent := INIT_PROC_NR\<rparr>) s in
           bindr (if mfl s1 INIT_PROC_NR AND WAITING \<noteq> 0 \<and> mfl s1 rmp AND ZOMBIE \<noteq> 0
                  then cleanup rmp s1 else Inr s1) (disinherit nr rs)
      else disinherit nr rs s)"

text \<open>Accounting and the release of everything but the slot.\<close>

definition exit_release :: "pm_env \<Rightarrow> int \<Rightarrow> pmstate \<Rightarrow> pmstate res" where
  "exit_release env rmp s =
     bindr (if mfl s rmp AND ALARM_ON \<noteq> 0 then bindr (set_alarm env rmp 0 s) (\<lambda>(_, s1). Inr s1) else Inr s) (\<lambda>s1.
     let ((_, ws), s2) = ask env (SysTimes rmp) s1;
         t0 = sint (word_at ws 0); t1 = sint (word_at ws 1)
     in bindr (mproc_at (mp_parent (mpr s2 rmp))) (\<lambda>p_mp.
        let q = mpr s2 rmp;
            s3 = upd_mp p_mp (\<lambda>p. p\<lparr>mp_child_utime := slong (mp_child_utime p + slong (t0 + mp_child_utime q)),
                                   mp_child_stime := slong (mp_child_stime p + slong (t1 + mp_child_stime q))\<rparr>) s2;
            s4 = tell (SysExit rmp) (tell_fs EXIT_FS rmp 0 0 s3);
            s5 = set_mfl rmp (mfl s4 rmp AND NOT REPLY) s4;
            q5 = mpr s5 rmp
        in bindr (if find_share rmp (file_of q5) s5 = None
                  then free_mem (mem_phys (mp_seg q5 T_seg)) (mem_len (mp_seg q5 T_seg)) s5 else Inr s5) (\<lambda>s6.
           free_mem (mem_phys (mp_seg (mpr s6 rmp) D_seg)) (prog_size (mpr s6 rmp)) s6)))"

definition pm_exit_with :: "exit_fun \<Rightarrow> pm_env \<Rightarrow> exit_fun" where
  "pm_exit_with ex env rmp exit_status s =
     (let m = mpr s (pm_mp s);
          procgrp = (if mp_pid (mpr s rmp) = mp_procgrp m then mp_procgrp m else 0)
      in bindr (exit_release env rmp s) (\<lambda>s1.
         bindr (mproc_at (mp_parent (mpr s1 rmp))) (\<lambda>p_mp.
         let s2 = upd_mp rmp (\<lambda>p. p\<lparr>mp_exitstatus := schar exit_status\<rparr>) s1;
             pidarg = mp_wpid (mpr s2 p_mp);
             right_child = (pidarg = - 1 \<or> pidarg = mp_pid (mpr s2 rmp) \<or> - pidarg = mp_procgrp (mpr s2 rmp))
         in bindr (if mfl s2 p_mp AND WAITING \<noteq> 0 \<and> right_child then cleanup rmp s2
                   else sig_proc_with ex env p_mp SIGCHLD (set_mfl rmp (IN_USE OR ZOMBIE) s2)) (\<lambda>s3.
            bindr (disinherit rmp slots s3) (\<lambda>s4.
            if procgrp \<noteq> 0 then bindr (check_sig_with ex env (- procgrp) SIGHUP s4) (\<lambda>(_, s5). Inr s5)
            else Inr s4)))))"

abbreviation (input) PM_DEPTH :: nat where "PM_DEPTH \<equiv> 65"

fun pm_exit_fuel :: "nat \<Rightarrow> pm_env \<Rightarrow> exit_fun" where
  "pm_exit_fuel 0 env = (\<lambda>_ _ _. Inl Hang)"
| "pm_exit_fuel (Suc k) env = pm_exit_with (pm_exit_fuel k env) env"

definition pm_exit :: "pm_env \<Rightarrow> exit_fun" where
  "pm_exit env = pm_exit_fuel PM_DEPTH env"

definition sig_proc :: "pm_env \<Rightarrow> int \<Rightarrow> int \<Rightarrow> pmstate \<Rightarrow> pmstate res" where
  "sig_proc env = sig_proc_with (pm_exit env) env"

definition check_sig :: "pm_env \<Rightarrow> int \<Rightarrow> int \<Rightarrow> pmstate \<Rightarrow> (int \<times> pmstate) res" where
  "check_sig env = check_sig_with (pm_exit env) env"

fun check_pending_from :: "pm_env \<Rightarrow> int list \<Rightarrow> int \<Rightarrow> pmstate \<Rightarrow> pmstate res" where
  "check_pending_from env [] rmp s = Inr s"
| "check_pending_from env (i # is) rmp s =
     (if sigin (mp_sigpending (mpr s rmp)) i \<and> \<not> sigin (mp_sigmask (mpr s rmp)) i
      then sig_proc env rmp i (upd_mp rmp (\<lambda>p. p\<lparr>mp_sigpending := sig_del (mp_sigpending p) i\<rparr>) s)
      else check_pending_from env is rmp s)"

definition check_pending :: "pm_env \<Rightarrow> int \<Rightarrow> pmstate \<Rightarrow> pmstate res" where
  "check_pending env = check_pending_from env [1..NSIG]"

end
