(* ===== verification/Pm_Calls.thy ===== *)
theory Pm_Calls
  imports Pm_Signal
begin

unbundle bit_operations_syntax

text \<open>
  The calls of the process manager that set and query the attributes of a process: signals
  (\<open>signal.c\<close>), the expiry of alarms (\<open>timers.c\<close>), ids (\<open>getset.c\<close>), time (\<open>time.c\<close>), and the
  miscellaneous calls of \<open>misc.c\<close> that do not swap. The number of a call and its parameters are in
  \<open>pm_in\<close>; the words of a message are numbered as in \<open>param.h\<close>.
\<close>

type_synonym pm_call = "pmstate \<Rightarrow> (int \<times> pmstate) res"

abbreviation (input) SIG_DFL :: u32 where "SIG_DFL \<equiv> 0"
abbreviation (input) SIG_IGN :: u32 where "SIG_IGN \<equiv> 1"
abbreviation (input) SIG_MESS :: u32 where "SIG_MESS \<equiv> 4"
abbreviation (input) SIG_BLOCK :: int where "SIG_BLOCK \<equiv> 0"
abbreviation (input) SIG_UNBLOCK :: int where "SIG_UNBLOCK \<equiv> 1"
abbreviation (input) SIG_SETMASK :: int where "SIG_SETMASK \<equiv> 2"
abbreviation (input) SIG_INQUIRE :: int where "SIG_INQUIRE \<equiv> 4"
abbreviation (input) SETUID_NR :: int where "SETUID_NR \<equiv> 23"
abbreviation (input) SETGID_NR :: int where "SETGID_NR \<equiv> 46"
abbreviation (input) SETSID_NR :: int where "SETSID_NR \<equiv> 62"
abbreviation (input) STIME_NR :: int where "STIME_NR \<equiv> 25"
abbreviation (input) REBOOT_NR :: int where "REBOOT_NR \<equiv> 76"

text \<open>A word of the message that is pending for process \<open>n\<close>.\<close>

abbreviation set_reply_w :: "int \<Rightarrow> nat \<Rightarrow> u32 \<Rightarrow> pmstate \<Rightarrow> pmstate" where
  "set_reply_w n i v \<equiv> upd_mp n (\<lambda>p. p\<lparr>mp_reply := mset_w i v (mp_reply p)\<rparr>)"

abbreviation (input) pm_arg :: "pmstate \<Rightarrow> nat \<Rightarrow> int" where
  "pm_arg s i \<equiv> int_field (pm_in s) i"

section \<open>Signal calls\<close>

definition set_disposition :: "int \<Rightarrow> sigaction \<Rightarrow> mproc \<Rightarrow> mproc" where
  "set_disposition nr svec p =
     (if sa_handler svec = SIG_IGN
      then p\<lparr>mp_ignore := sig_add (mp_ignore p) nr, mp_sigpending := sig_del (mp_sigpending p) nr,
             mp_catch := sig_del (mp_catch p) nr, mp_sig2mess := sig_del (mp_sig2mess p) nr\<rparr>
      else if sa_handler svec = SIG_DFL
      then p\<lparr>mp_ignore := sig_del (mp_ignore p) nr, mp_catch := sig_del (mp_catch p) nr,
             mp_sig2mess := sig_del (mp_sig2mess p) nr\<rparr>
      else if sa_handler svec = SIG_MESS
      then p\<lparr>mp_ignore := sig_del (mp_ignore p) nr, mp_sig2mess := sig_add (mp_sig2mess p) nr,
             mp_catch := sig_del (mp_catch p) nr\<rparr>
      else p\<lparr>mp_ignore := sig_del (mp_ignore p) nr, mp_catch := sig_add (mp_catch p) nr,
             mp_sig2mess := sig_del (mp_sig2mess p) nr\<rparr>)"

definition do_sigaction :: "pm_env \<Rightarrow> pm_call" where
  "do_sigaction env s =
     (let mp = pm_mp s; nr = pm_arg s 1; nsa = m_w (pm_in s) 3; osa = m_w (pm_in s) 4; ret = m_w (pm_in s) 5 in
      if nr = SIGKILL then Inr (OK, s)
      else if nr < 1 \<or> nr > NSIG then Inr (EINVAL, s)
      else let act = mp_sigact (mpr s mp) nr;
               ((r, _), s1) = (if osa \<noteq> 0
                 then ask env (CopyOut (pm_who s) osa [sa_handler act, sa_mask act, sa_flags act]) s else ((OK, []), s))
           in if r \<noteq> OK then Inr (r, s1)
              else if nsa = 0 then Inr (OK, s1)
              else let ((r2, ws), s2) = ask env (CopyIn (pm_who s) nsa 12) s1;
                       svec = \<lparr>sa_handler = word_at ws 0, sa_mask = word_at ws 1, sa_flags = word_at ws 2\<rparr>
                   in if r2 \<noteq> OK then Inr (r2, s2)
                      else if sa_handler svec = SIG_MESS \<and> mfl s2 mp AND PRIV_PROC = 0 then Inr (EPERM, s2)
                      else Inr (OK, upd_mp mp (\<lambda>p.
                             let p1 = set_disposition nr svec p
                             in p1\<lparr>mp_sigact := (mp_sigact p1)(nr := svec\<lparr>sa_mask := sig_del (sa_mask svec) SIGKILL\<rparr>),
                                   mp_sigreturn := ret\<rparr>) s2))"

definition do_sigpending :: pm_call where
  "do_sigpending s = Inr (OK, set_reply_w (pm_mp s) 3 (mp_sigpending (mpr s (pm_mp s))) s)"

definition mask_add :: "u32 \<Rightarrow> u32 \<Rightarrow> u32" where
  "mask_add st m = fold (\<lambda>i m. if sigin st i then sig_add m i else m) [1..NSIG] m"

definition mask_del :: "u32 \<Rightarrow> u32 \<Rightarrow> u32" where
  "mask_del st m = fold (\<lambda>i m. if sigin st i then sig_del m i else m) [1..NSIG] m"

definition do_sigprocmask :: "pm_env \<Rightarrow> pm_call" where
  "do_sigprocmask env s =
     (let mp = pm_mp s; how = pm_arg s 0; st = m_w (pm_in s) 3; nokill = sig_del st SIGKILL;
          s1 = set_reply_w mp 3 (mp_sigmask (mpr s mp)) s;
          s2 = s1\<lparr>pm_in := mset_w 3 nokill (pm_in s1)\<rparr>;
          done = (\<lambda>r. bindr r (\<lambda>t. Inr (OK, t)))
      in if how = SIG_BLOCK then Inr (OK, upd_mp mp (\<lambda>p. p\<lparr>mp_sigmask := mask_add nokill (mp_sigmask p)\<rparr>) s2)
         else if how = SIG_UNBLOCK
         then done (check_pending env mp (upd_mp mp (\<lambda>p. p\<lparr>mp_sigmask := mask_del st (mp_sigmask p)\<rparr>) s1))
         else if how = SIG_SETMASK
         then done (check_pending env mp (upd_mp mp (\<lambda>p. p\<lparr>mp_sigmask := nokill\<rparr>) s2))
         else if how = SIG_INQUIRE then Inr (OK, s1)
         else Inr (EINVAL, s1))"

definition do_sigsuspend :: "pm_env \<Rightarrow> pm_call" where
  "do_sigsuspend env s =
     (let mp = pm_mp s in
      bindr (check_pending env mp (upd_mp mp (\<lambda>p. p\<lparr>mp_sigmask2 := mp_sigmask p,
               mp_sigmask := sig_del (m_w (pm_in s) 3) SIGKILL, mp_flags := mp_flags p OR SIGSUSPENDED\<rparr>) s)) (\<lambda>s1.
      Inr (SUSPEND, s1)))"

definition do_sigreturn_pm :: "pm_env \<Rightarrow> pm_call" where
  "do_sigreturn_pm env s =
     (let mp = pm_mp s;
          s1 = upd_mp mp (\<lambda>p. p\<lparr>mp_sigmask := sig_del (m_w (pm_in s) 3) SIGKILL\<rparr>) s;
          ((r, _), s2) = ask env (SysSigreturn (pm_who s) (m_w (pm_in s) 5)) s1
      in bindr (check_pending env mp s2) (\<lambda>s3. Inr (r, s3)))"

definition do_kill_pm :: "pm_env \<Rightarrow> pm_call" where
  "do_kill_pm env s = check_sig env (pm_arg s 0) (pm_arg s 1) s"

text \<open>A signal from the kernel; it is sent as if by the process manager itself.\<close>

definition ksig_target :: "int \<Rightarrow> int \<Rightarrow> int" where
  "ksig_target proc_id i = (if i = SIGINT \<or> i = SIGQUIT then 0 else if i = SIGKILL then - 1 else proc_id)"

fun handle_bits :: "pm_env \<Rightarrow> u32 \<Rightarrow> int \<Rightarrow> int list \<Rightarrow> pmstate \<Rightarrow> pmstate res" where
  "handle_bits env sig_map proc_id [] s = Inr s"
| "handle_bits env sig_map proc_id (i # is) s =
     (if \<not> sigin sig_map i then handle_bits env sig_map proc_id is s
      else bindr (check_sig env (ksig_target proc_id i) i s) (\<lambda>(_, s1). handle_bits env sig_map proc_id is s1))"

definition handle_sig :: "pm_env \<Rightarrow> int \<Rightarrow> u32 \<Rightarrow> pmstate \<Rightarrow> pmstate res" where
  "handle_sig env nr sig_map s =
     bindr (mproc_at nr) (\<lambda>rmp.
     if mfl s rmp AND (IN_USE OR ZOMBIE) \<noteq> IN_USE then Inr s
     else let proc_id = mp_pid (mpr s rmp); grp = mp_procgrp (mpr s rmp);
              s1 = upd_mp 0 (\<lambda>p. p\<lparr>mp_procgrp := grp\<rparr>) (s\<lparr>pm_mp := 0\<rparr>)
          in handle_bits env sig_map proc_id [1..NSIG] s1)"

partial_function (option) ksig_loop :: "pm_env \<Rightarrow> pmstate \<Rightarrow> pmstate res option" where
  "ksig_loop env s =
     (let ((_, ws), s1) = ask env SysGetksig s; nr = sint (word_at ws 0) in
      if nr = NONE then Some (Inr s1)
      else case handle_sig env nr (word_at ws 1) s1 of
             Inl e \<Rightarrow> Some (Inl e)
           | Inr s2 \<Rightarrow> ksig_loop env (tell (SysEndksig nr) s2))"

definition ksig_pending :: "pm_env \<Rightarrow> pm_call" where
  "ksig_pending env s = (case ksig_loop env s of None \<Rightarrow> Inl Hang | Some r \<Rightarrow> bindr r (\<lambda>s1. Inr (SUSPEND, s1)))"

definition do_alarm :: "pm_env \<Rightarrow> pm_call" where
  "do_alarm env s = set_alarm env (pm_who s) (pm_arg s 0) s"

definition do_pause :: pm_call where
  "do_pause s = Inr (SUSPEND, set_mfl (pm_mp s) (mfl s (pm_mp s) OR PAUSED) s)"

section \<open>The expiry of alarms\<close>

definition cause_sigalrm :: "pm_env \<Rightarrow> int \<Rightarrow> pmstate \<Rightarrow> pmstate res" where
  "cause_sigalrm env arg s =
     bindr (mproc_at arg) (\<lambda>rmp.
     if mfl s rmp AND (IN_USE OR ZOMBIE) \<noteq> IN_USE then Inr s
     else if mfl s rmp AND ALARM_ON = 0 then Inr s
     else let s1 = set_mfl rmp (mfl s rmp AND NOT ALARM_ON) s
          in bindr (check_sig env (mp_pid (mpr s1 rmp)) SIGALRM s1) (\<lambda>(_, s2). Inr s2))"

text \<open>
  The watchdog runs on the state of the process manager and may cancel other timers; after an
  error the queue is not looked at again.
\<close>

fun pm_watch :: "pm_env \<Rightarrow> int \<Rightarrow> pm_watchdog \<Rightarrow> (int, pm_watchdog) tqueue \<times> pmstate res \<Rightarrow> (int, pm_watchdog) tqueue \<times> pmstate res" where
  "pm_watch env tp f (q, Inl e) = (q\<lparr>thead := None\<rparr>, Inl e)"
| "pm_watch env tp NoPmWatchdog (q, Inr s) = (q, Inr s)"
| "pm_watch env tp CauseSigalrm (q, Inr s) =
     (case cause_sigalrm env (tmr_arg (theap q tp)) (s\<lparr>pm_timers := q\<rparr>) of
        Inl e \<Rightarrow> (q\<lparr>thead := None\<rparr>, Inl e)
      | Inr s1 \<Rightarrow> (pm_timers s1, Inr s1))"

definition pm_expire_timers :: "pm_env \<Rightarrow> int \<Rightarrow> pmstate \<Rightarrow> pmstate res" where
  "pm_expire_timers env now s =
     (case tmrs_exptimers (pm_watch env) now (pm_timers s, Inr s) of
        None \<Rightarrow> Inl Hang
      | Some (next_time, q, r) \<Rightarrow> bindr r (\<lambda>s1.
          let s2 = s1\<lparr>pm_timers := q\<rparr> in
          if next_time > 0
          then let ((r2, _), s3) = ask env (SysSetalarm next_time) s2
               in if r2 \<noteq> OK then Inl (Panic ''PM expire timer couldn't set alarm.'') else Inr s3
          else Inr s2))"

section \<open>Ids\<close>

text \<open>\<open>uid_t\<close> is a short and \<open>gid_t\<close> a char.\<close>

definition do_getset :: pm_call where
  "do_getset s =
     (let rmp = pm_mp s; p = mpr s rmp; c = pm_call_nr s; u = sshort (pm_arg s 0); g = schar (pm_arg s 0) in
      if c = 24 then Inr (mp_realuid p, set_res2 rmp (word_of_int (mp_effuid p)) s)
      else if c = 47 then Inr (mp_realgid p, set_res2 rmp (word_of_int (mp_effgid p)) s)
      else if c = 20 then bindr (mproc_at (pm_who s)) (\<lambda>w. bindr (mproc_at (mp_parent p)) (\<lambda>par.
        Inr (mp_pid (mpr s w), set_res2 rmp (word_of_int (mp_pid (mpr s par))) s)))
      else if c = SETUID_NR then
        (if mp_realuid p \<noteq> u \<and> mp_effuid p \<noteq> SUPER_USER then Inr (EPERM, s)
         else Inr (OK, tell_fs SETUID_NR (pm_who s) u u (upd_mp rmp (\<lambda>p. p\<lparr>mp_realuid := u, mp_effuid := u\<rparr>) s)))
      else if c = SETGID_NR then
        (if mp_realgid p \<noteq> g \<and> mp_effuid p \<noteq> SUPER_USER then Inr (EPERM, s)
         else Inr (OK, tell_fs SETGID_NR (pm_who s) g g (upd_mp rmp (\<lambda>p. p\<lparr>mp_realgid := g, mp_effgid := g\<rparr>) s)))
      else if c = SETSID_NR then
        (if mp_procgrp p = mp_pid p then Inr (EPERM, s)
         else Inr (mp_pid p, tell_fs SETSID_NR (pm_who s) 0 0 (upd_mp rmp (\<lambda>p. p\<lparr>mp_procgrp := mp_pid p\<rparr>) s)))
      else if c = 63 then Inr (mp_procgrp p, s)
      else Inr (EINVAL, s))"

section \<open>Time\<close>

definition do_time :: "pm_env \<Rightarrow> pm_call" where
  "do_time env s =
     (let ((r, ws), s1) = ask env GetUptime s; up = sint (first_word ws);
          secs = cdiv up HZ; rest = up - HZ * secs
      in if r \<noteq> OK then Inl (Panic ''do_time couldn't get uptime'')
         else Inr (OK, set_reply_w (pm_mp s) 4 (word_of_int (cdiv (rest * 1000000) HZ))
                 (set_reply_w (pm_mp s) 3 (word_of_int (boottime s1 + secs)) s1)))"

definition do_stime :: "pm_env \<Rightarrow> pm_call" where
  "do_stime env s =
     (if mp_effuid (mpr s (pm_mp s)) \<noteq> SUPER_USER then Inr (EPERM, s)
      else let ((r, ws), s1) = ask env GetUptime s;
               b = slong (pm_arg s 3 - cdiv (sint (first_word ws)) HZ)
           in if r \<noteq> OK then Inl (Panic ''do_stime couldn't get uptime'')
              else Inr (OK, tell_fs STIME_NR b 0 0 (s1\<lparr>boottime := b\<rparr>)))"

definition do_times_pm :: "pm_env \<Rightarrow> pm_call" where
  "do_times_pm env s =
     (let rmp = pm_mp s; ((r, t), s1) = ask env (SysTimes (pm_who s)) s; p = mpr s1 rmp in
      if r \<noteq> OK then Inl (Panic ''do_times couldn't get times'')
      else Inr (OK, set_reply_w rmp 4 (word_at t 4) (set_reply_w rmp 3 (word_of_int (mp_child_stime p))
             (set_reply_w rmp 2 (word_of_int (mp_child_utime p)) (set_reply_w rmp 1 (word_at t 1)
             (set_reply_w rmp 0 (word_at t 0) s1))))))"

section \<open>Miscellaneous\<close>

definition to_clicks :: "u32 \<Rightarrow> u32" where
  "to_clicks b = drop_bit CLICK_SHIFT (b + CLICK_SIZE - 1)"

text \<open>
  \<open>memsize\<close> and \<open>membase\<close> are longs; the shift to clicks keeps the sign, as in \<open>do_brk\<close>.
\<close>

definition long_clicks :: "u32 \<Rightarrow> u32" where
  "long_clicks b = signed_drop_bit CLICK_SHIFT (b + CLICK_SIZE - 1)"

definition do_allocmem :: "pm_env \<Rightarrow> pm_call" where
  "do_allocmem env s =
     (case alloc_mem env (long_clicks (m_w (pm_in s) 0)) s of
        None \<Rightarrow> Inl Hang
      | Some r \<Rightarrow> bindr r (\<lambda>(mem_base, s1).
          if mem_base = NO_MEM then Inr (ENOMEM, s1)
          else Inr (OK, set_reply_w (pm_mp s1) 1 (push_bit CLICK_SHIFT mem_base) s1)))"

definition do_freemem :: pm_call where
  "do_freemem s =
     bindr (free_mem (long_clicks (m_w (pm_in s) 1)) (long_clicks (m_w (pm_in s) 0)) s) (\<lambda>s1. Inr (OK, s1))"

definition do_getsysinfo :: "pm_env \<Rightarrow> pm_call" where
  "do_getsysinfo env s =
     (let what = pm_arg s 0; s1 = (if what = 0 then tell SysGetkinfo s else s) in
      if what \<notin> {0, 1, 2} then Inr (EINVAL, s)
      else let ((r, _), s2) = ask env (CopyObject (pm_who s) (m_w (pm_in s) 3) what) s1 in Inr (r, s2))"

abbreviation (input) PROC_NAME_LEN :: nat where "PROC_NAME_LEN \<equiv> 16"

text \<open>The bytes of an answer, four to a word.\<close>

definition word_bytes :: "u32 \<Rightarrow> u8 list" where
  "word_bytes w = map (\<lambda>k. ucast (drop_bit (8 * k) w)) [0, 1, 2, 3]"

definition answer_bytes :: "nat \<Rightarrow> u32 list \<Rightarrow> u8 list" where
  "answer_bytes n ws = take n (concat (map word_bytes ws) @ replicate n 0)"

text \<open>\<open>strncmp\<close> finds no difference in the first \<open>n\<close> characters.\<close>

fun strneq :: "nat \<Rightarrow> u8 list \<Rightarrow> u8 list \<Rightarrow> bool" where
  "strneq 0 as bs = True"
| "strneq (Suc n) as bs =
     (let a = (case as of [] \<Rightarrow> 0 | x # _ \<Rightarrow> x); b = (case bs of [] \<Rightarrow> 0 | x # _ \<Rightarrow> x)
      in a = b \<and> (a = 0 \<or> strneq n (tl as) (tl bs)))"

definition do_getprocnr :: "pm_env \<Rightarrow> pm_call" where
  "do_getprocnr env s =
     (let pid = pm_arg s 0; namelen = pm_arg s 1; mp = pm_mp s;
          found = (\<lambda>r t. case r of None \<Rightarrow> Inr (ESRCH, t) | Some n \<Rightarrow> Inr (OK, set_reply_w mp 0 (word_of_int n) t))
      in if pid \<ge> 0 then found (find (\<lambda>n. mfl s n AND IN_USE \<noteq> 0 \<and> mp_pid (mpr s n) = pid) slots) s
         else if namelen > 0
         then let key_len = min (nat namelen) PROC_NAME_LEN;
                  ((r, ws), s1) = ask env (CopyIn (pm_who s) (m_w (pm_in s) 3) (of_nat key_len)) s;
                  key = answer_bytes key_len ws
              in if r \<noteq> OK then Inr (r, s1)
                 else found (find (\<lambda>n. mfl s1 n AND IN_USE \<noteq> 0 \<and> strneq key_len (mp_name (mpr s1 n)) key) slots) s1
         else Inr (OK, set_reply_w mp 0 (word_of_int (pm_who s)) s))"

abbreviation (input) RBT_HALT :: int where "RBT_HALT \<equiv> 0"
abbreviation (input) RBT_REBOOT :: int where "RBT_REBOOT \<equiv> 1"
abbreviation (input) RBT_PANIC :: int where "RBT_PANIC \<equiv> 2"
abbreviation (input) RBT_MONITOR :: int where "RBT_MONITOR \<equiv> 3"
abbreviation (input) RBT_RESET :: int where "RBT_RESET \<equiv> 4"
abbreviation (input) EFAULT :: int where "EFAULT \<equiv> - 14"

text \<open>
  The length of the command for the boot monitor is compared as an unsigned number; a length of 0
  makes the code read the byte before the buffer.
\<close>

definition reboot_code_ok :: "pm_env \<Rightarrow> pmstate \<Rightarrow> (int \<times> u8 list \<times> pmstate) res" where
  "reboot_code_ok env s =
     (let code_len = m_w (pm_in s) 1 + 1;
          ((r, ws), s1) = ask env (CopyIn (pm_who s) (m_w (pm_in s) 3) code_len) s;
          code = answer_bytes (unat code_len) ws
      in if code_len > 128 then Inr (EINVAL, [], s)
         else if r \<noteq> OK then Inr (EFAULT, [], s1)
         else if code_len = 0 then Inl (BadIndex (- 1))
         else if last code \<noteq> 0 then Inr (EINVAL, [], s1)
         else Inr (OK, code, s1))"

text \<open>The string \<open>delay; boot\<close>.\<close>

definition REBOOT_CODE :: "u8 list" where
  "REBOOT_CODE = [100, 101, 108, 97, 121, 59, 32, 98, 111, 111, 116, 0]"

text \<open>Only a reboot and a command for the monitor set the string that the kernel is given.\<close>

definition do_reboot :: "pm_env \<Rightarrow> pm_call" where
  "do_reboot env s =
     (let flag = pm_arg s 0;
          go = (\<lambda>abort_flag code t. bindr (check_sig env (- 1) SIGKILL t) (\<lambda>(_, t1).
                 Inr (SUSPEND, tell (SysAbort abort_flag code) (tell_fs REBOOT_NR 0 0 0 t1))))
      in if mp_effuid (mpr s (pm_mp s)) \<noteq> SUPER_USER then Inr (EPERM, s)
         else if flag = RBT_HALT \<or> flag = RBT_PANIC \<or> flag = RBT_RESET then go flag [] s
         else if flag = RBT_REBOOT then go RBT_MONITOR REBOOT_CODE s
         else if flag = RBT_MONITOR
         then bindr (reboot_code_ok env s) (\<lambda>(r, code, s1). if r \<noteq> OK then Inr (r, s1) else go RBT_MONITOR code s1)
         else Inr (EINVAL, s))"

definition do_getsetpriority :: "pm_env \<Rightarrow> pm_call" where
  "do_getsetpriority env s =
     (let arg_who = pm_arg s 1; arg_pri = pm_arg s 2; mp = mpr s (pm_mp s);
          rmp_nr = (if arg_who = 0 then pm_who s else proc_from_pid arg_who s)
      in if pm_arg s 0 \<noteq> 0 then Inr (EINVAL, s)
         else if arg_who \<noteq> 0 \<and> rmp_nr < 0 then Inr (ESRCH, s)
         else bindr (mproc_at rmp_nr) (\<lambda>n.
              let p = mpr s n in
              if mp_effuid mp \<noteq> SUPER_USER \<and> mp_effuid mp \<noteq> mp_effuid p \<and> mp_effuid mp \<noteq> mp_realuid p then Inr (EPERM, s)
              else if pm_call_nr s = 88 then Inr (mp_nice p - (- 20), s)
              else if mp_nice p > arg_pri \<and> mp_effuid mp \<noteq> SUPER_USER then Inr (EACCES, s)
              else let ((r, _), s1) = ask env (SysNice n arg_pri) (upd_mp n (\<lambda>p. p\<lparr>mp_nice := arg_pri\<rparr>) s) in Inr (r, s1)))"

end
