(* ===== verification/Pm_Fork.thy ===== *)
theory Pm_Fork
  imports Pm_Calls
begin

unbundle bit_operations_syntax

text \<open>
  Processes come and go: \<open>do_fork\<close>, \<open>do_pm_exit\<close> and \<open>do_waitpid\<close> of \<open>forkexit.c\<close>, and \<open>do_trace\<close>
  of \<open>trace.c\<close>, by which a debugger controls its child.
\<close>

abbreviation (input) LAST_FEW :: int where "LAST_FEW \<equiv> 2"
abbreviation (input) FORK_FS :: int where "FORK_FS \<equiv> 2"

section \<open>Fork\<close>

text \<open>The slot of the child, before it gets its process id.\<close>

definition fork_slot :: "int \<Rightarrow> u32 \<Rightarrow> mproc \<Rightarrow> mproc" where
  "fork_slot who child_base p =
     (let fl = mp_flags p AND (IN_USE OR SEPARATE OR PRIV_PROC OR DONT_SWAP);
          sg = mp_seg p;
          t = (if fl AND SEPARATE = 0 then (sg T_seg)\<lparr>mem_phys := child_base\<rparr> else sg T_seg)
      in p\<lparr>mp_parent := who, mp_flags := fl, mp_child_utime := 0, mp_child_stime := 0,
           mp_seg := sg(T_seg := t, D_seg := (sg D_seg)\<lparr>mem_phys := child_base\<rparr>,
                        S_seg := (sg S_seg)\<lparr>mem_phys := child_base + (mem_vir (sg S_seg) - mem_vir (sg D_seg))\<rparr>),
           mp_exitstatus := 0, mp_sigstatus := 0\<rparr>)"

text \<open>The alarm timer is part of the slot, and is copied with it.\<close>

definition fork_install :: "int \<Rightarrow> u32 \<Rightarrow> pmstate \<Rightarrow> pmstate" where
  "fork_install rmc child_base s =
     (let q = pm_timers s; rmp = pm_mp s
      in s\<lparr>procs_in_use := procs_in_use s + 1,
           mproc_tab := (mproc_tab s)(rmc := fork_slot (pm_who s) child_base (mpr s rmp)),
           pm_timers := q\<lparr>theap := (theap q)(rmc := theap q rmp)\<rparr>\<rparr>)"

definition fork_tell :: "int \<Rightarrow> int \<Rightarrow> pmstate \<Rightarrow> pmstate" where
  "fork_tell child_nr new_pid s =
     newmap child_nr (tell_fs FORK_FS (pm_who s) child_nr new_pid (tell (SysFork (pm_who s) child_nr)
       (upd_mp child_nr (\<lambda>p. p\<lparr>mp_pid := new_pid\<rparr>) s)))"

definition do_fork_pm :: "pm_env \<Rightarrow> pm_call" where
  "do_fork_pm env s =
     (let rmp = pm_mp s; p = mpr s rmp;
          prog_clicks = mem_len (mp_seg p S_seg) + (mem_vir (mp_seg p S_seg) - mem_vir (mp_seg p D_seg))
      in if procs_in_use s = NR_PROCS \<or> procs_in_use s \<ge> NR_PROCS - LAST_FEW \<and> mp_effuid p \<noteq> 0 then Inr (EAGAIN, s)
         else case alloc_mem env prog_clicks s of
                None \<Rightarrow> Inl Hang
              | Some ra \<Rightarrow> bindr ra (\<lambda>(child_base, s1).
                  if child_base = NO_MEM then Inr (ENOMEM, s1)
                  else let parent_abs = push_bit CLICK_SHIFT (mem_phys (mp_seg (mpr s1 rmp) D_seg));
                           ((r, _), s2) = ask env (SysAbscopy parent_abs (push_bit CLICK_SHIFT child_base) (push_bit CLICK_SHIFT prog_clicks)) s1
                       in if r < 0 then Inl (Panic ''do_fork can't copy'')
                          else case find (\<lambda>n. mfl s2 n AND IN_USE = 0) slots of
                                 None \<Rightarrow> Inl (BadIndex NR_PROCS)
                               | Some rmc \<Rightarrow>
                                   (case get_free_pid (fork_install rmc child_base s2) of
                                      None \<Rightarrow> Inl Hang
                                    | Some (new_pid, s3) \<Rightarrow>
                                        bindr (setreply rmc 0 (fork_tell rmc new_pid s3)) (\<lambda>s4.
                                        Inr (new_pid, set_reply_w rmp 0 (word_of_int rmc) s4)))))"

section \<open>Exit and wait\<close>

definition do_pm_exit :: "pm_env \<Rightarrow> pm_call" where
  "do_pm_exit env s = bindr (pm_exit env (pm_mp s) (pm_arg s 0) s) (\<lambda>s1. Inr (SUSPEND, s1))"

definition qualifies :: "int \<Rightarrow> int \<Rightarrow> mproc \<Rightarrow> bool" where
  "qualifies pidarg who p \<longleftrightarrow> mp_flags p AND IN_USE \<noteq> 0 \<and> mp_parent p = who \<and>
     (pidarg > 0 \<longrightarrow> pidarg = mp_pid p) \<and> (pidarg < - 1 \<longrightarrow> - pidarg = mp_procgrp p)"

text \<open>The loop ends with the reply to a child that exited or stopped, or with the number of children.\<close>

fun wait_scan :: "int \<Rightarrow> int list \<Rightarrow> int \<Rightarrow> pmstate \<Rightarrow> ((int, int) sum \<times> pmstate) res" where
  "wait_scan pidarg [] children s = Inr (Inr children, s)"
| "wait_scan pidarg (rp # rs) children s =
     (let p = mpr s rp in
      if \<not> qualifies pidarg (pm_who s) p then wait_scan pidarg rs children s
      else if mp_flags p AND ZOMBIE \<noteq> 0 then bindr (cleanup rp s) (\<lambda>s1. Inr (Inl SUSPEND, s1))
      else if mp_flags p AND STOPPED \<noteq> 0 \<and> mp_sigstatus p \<noteq> 0
      then Inr (Inl (mp_pid p), upd_mp rp (\<lambda>p. p\<lparr>mp_sigstatus := 0\<rparr>)
                  (set_res2 (pm_mp s) (0x7F OR word_of_int (mp_sigstatus p * 256)) s))
      else wait_scan pidarg rs (children + 1) s)"

definition do_waitpid :: pm_call where
  "do_waitpid s =
     (let mp = pm_mp s; is_wait = (pm_call_nr s = 7);
          arg = (if is_wait then - 1 else pm_arg s 0);
          options = (if is_wait then 0 else m_w (pm_in s) 1);
          pidarg = (if arg = 0 then - mp_procgrp (mpr s mp) else arg)
      in bindr (wait_scan pidarg slots 0 s) (\<lambda>(r, s1).
         case r of
           Inl v \<Rightarrow> Inr (v, s1)
         | Inr children \<Rightarrow>
             if children > 0
             then if options AND 1 \<noteq> 0 then Inr (0, s1)
                  else Inr (SUSPEND, upd_mp mp (\<lambda>p. p\<lparr>mp_flags := mp_flags p OR WAITING, mp_wpid := pidarg\<rparr>) s1)
             else Inr (ECHILD, s1)))"

section \<open>Tracing\<close>

abbreviation (input) EIO :: int where "EIO \<equiv> - 5"

definition find_proc_pm :: "int \<Rightarrow> pmstate \<Rightarrow> int option" where
  "find_proc_pm lpid s = find (\<lambda>n. mfl s n AND IN_USE \<noteq> 0 \<and> mp_pid (mpr s n) = lpid) slots"

text \<open>\<open>T_OK\<close> is 0, \<open>T_EXIT\<close> 8, \<open>T_RESUME\<close> 7 and \<open>T_STEP\<close> 9.\<close>

definition trace_resume :: "pm_env \<Rightarrow> int \<Rightarrow> int \<Rightarrow> pmstate \<Rightarrow> pmstate res" where
  "trace_resume env child signo s =
     bindr (if signo > 0
            then bindr (sig_proc env child signo (set_mfl child (mfl s child AND NOT TRACED) s)) (\<lambda>s1.
                 Inr (set_mfl child (mfl s1 child OR TRACED) s1))
            else Inr s) (\<lambda>s1.
     Inr (set_mfl child (mfl s1 child AND NOT STOPPED) s1))"

definition trace_kernel :: "pm_env \<Rightarrow> int \<Rightarrow> int \<Rightarrow> pmstate \<Rightarrow> (int \<times> pmstate) res" where
  "trace_kernel env req child s =
     (let ((r, ws), s1) = ask env (SysTrace req child (m_w (pm_in s) 3) (m_w (pm_in s) 4)) s;
          s2 = s1\<lparr>pm_in := mset_w 4 (first_word ws) (pm_in s1)\<rparr>
      in if r \<noteq> OK then Inr (- fst (env (pm_log s2) Errno), s2)
         else Inr (OK, set_reply_w (pm_mp s2) 4 (first_word ws) s2))"

definition do_trace_pm :: "pm_env \<Rightarrow> pm_call" where
  "do_trace_pm env s =
     (let mp = pm_mp s; req = pm_arg s 1; data = pm_arg s 4 in
      if req = 0
      then Inr (OK, set_reply_w mp 4 0 (set_mfl mp (mfl s mp OR TRACED) s))
      else case find_proc_pm (pm_arg s 0) s of
             None \<Rightarrow> Inr (ESRCH, s)
           | Some child \<Rightarrow>
               if mfl s child AND STOPPED = 0 then Inr (ESRCH, s)
               else if req = 8 then bindr (pm_exit env child data s) (\<lambda>s1. Inr (OK, set_reply_w mp 4 0 s1))
               else if req = 7 \<or> req = 9
               then if data < 0 \<or> data > NSIG then Inr (EIO, s)
                    else bindr (trace_resume env child data s) (trace_kernel env req child)
               else trace_kernel env req child s)"

end
