(* ===== verification/Pm_Exec.thy ===== *)
theory Pm_Exec
  imports Pm_Fork
begin

unbundle bit_operations_syntax

text \<open>
  The \<open>exec\<close> call (\<open>servers/pm/exec.c\<close>): the header of the file is checked, memory is allocated
  and the old image released, the stack image that the caller prepared is relocated, and for a
  script the arguments of its first line are inserted into it. The stack image is a buffer of
  \<open>ARG_MAX\<close> bytes that begins with an array of pointers, relative to the start of the buffer.
\<close>

abbreviation (input) STACK_MAX :: nat where "STACK_MAX \<equiv> 16384"
abbreviation (input) PATH_MAX :: nat where "PATH_MAX \<equiv> 255"
abbreviation (input) ESCRIPT :: int where "ESCRIPT \<equiv> - 2000"
abbreviation (input) EXEC_FS :: int where "EXEC_FS \<equiv> 59"

section \<open>The stack image\<close>

definition put_bytes :: "nat \<Rightarrow> u8 list \<Rightarrow> u8 list \<Rightarrow> u8 list" where
  "put_bytes i bs st = take i st @ bs @ drop (i + length bs) st"

definition get_ptr :: "u8 list \<Rightarrow> nat \<Rightarrow> u32" where
  "get_ptr st i = (\<Sum>k\<leftarrow>[0, 1, 2, 3]. push_bit (8 * k) (ucast (st ! (4 * i + k))))"

definition put_ptr :: "nat \<Rightarrow> u32 \<Rightarrow> u8 list \<Rightarrow> u8 list" where
  "put_ptr i w st = put_bytes (4 * i) (word_bytes w) st"

text \<open>The pointers of \<open>argv\<close> and \<open>envp\<close> are relocated up to the second null pointer.\<close>

function patch_from :: "nat \<Rightarrow> nat \<Rightarrow> u32 \<Rightarrow> u8 list \<Rightarrow> u8 list" where
  "patch_from ap flag base st =
     (if flag \<ge> 2 \<or> 4 * ap \<ge> STACK_MAX then st
      else if get_ptr st ap \<noteq> 0 then patch_from (ap + 1) flag base (put_ptr ap (get_ptr st ap + base) st)
      else patch_from (ap + 1) (flag + 1) base st)"
  by pat_completeness auto

termination by (relation "measure (\<lambda>(ap, _). STACK_MAX - ap)") auto

declare patch_from.simps [simp del]

definition patch_ptr :: "u8 list \<Rightarrow> u32 \<Rightarrow> u8 list" where
  "patch_ptr st base = patch_from 1 0 base st"

text \<open>The end of the string at \<open>a1\<close>, if it ends below \<open>n\<close>.\<close>

definition string_end :: "u8 list \<Rightarrow> nat \<Rightarrow> nat \<Rightarrow> nat option" where
  "string_end st a1 n =
     (let str = takeWhile (\<lambda>c. c \<noteq> 0) (drop a1 (take n st))
      in if a1 + length str < n then Some (a1 + length str + 1) else None)"

text \<open>
  \<open>insert_arg\<close> returns the buffer and the new size of the stack also when it fails. \<open>memmove\<close> is a
  copy of the source as it was before. The test of \<open>argv[0]\<close> against the lower bound compares with
  an unsigned \<open>sizeof\<close>, so that a negative offset passes both tests, and the code then runs
  on bytes before the buffer.
\<close>

definition insert_repl :: "u8 list \<Rightarrow> u32 \<Rightarrow> nat \<Rightarrow> u8 list \<Rightarrow> bool \<times> u32 \<times> u8 list" where
  "insert_repl st stk_bytes a0 arg =
     (let old_bytes = unat stk_bytes; room = length arg + 1 in
      case string_end st a0 old_bytes of
        None \<Rightarrow> (False, stk_bytes, st)
      | Some a1 \<Rightarrow>
          let off = (of_nat room :: u32) - of_nat (a1 - a0); new_bytes = stk_bytes + off in
          if new_bytes > of_nat STACK_MAX then (False, new_bytes, st)
          else let st1 = put_bytes (a0 + room) (drop a1 (take old_bytes st)) st;
                   st2 = put_bytes a0 (arg @ [0]) st1
               in (True, new_bytes, put_ptr 1 (of_nat a0) (patch_ptr st2 off)))"

definition insert_new :: "u8 list \<Rightarrow> u32 \<Rightarrow> nat \<Rightarrow> u8 list \<Rightarrow> bool \<times> u32 \<times> u8 list" where
  "insert_new st stk_bytes a0 arg =
     (let old_bytes = unat stk_bytes; room = length arg + 1;
          off = of_nat (room + 4); new_bytes = stk_bytes + off; b0 = a0 + 4
      in if new_bytes > of_nat STACK_MAX then (False, new_bytes, st)
         else let st1 = put_bytes (a0 + room + 4) (drop a0 (take old_bytes st)) st;
                  st2 = put_bytes b0 (arg @ [0]) st1;
                  st3 = put_bytes 8 (take (b0 - 8) (drop 4 st2)) st2;
                  st4 = put_ptr 0 (get_ptr st3 0 + 1) st3
              in (True, new_bytes, put_ptr 1 (of_nat b0) (patch_ptr st4 off)))"

definition insert_arg :: "u8 list \<Rightarrow> u32 \<Rightarrow> u8 list \<Rightarrow> bool \<Rightarrow> (bool \<times> u32 \<times> u8 list) res" where
  "insert_arg st stk_bytes arg repl =
     (let w = get_ptr st 1; a0 = sint w in
      if w < 16 \<or> a0 \<ge> int (unat stk_bytes) then Inr (False, stk_bytes, st)
      else if a0 < 0 then Inl (BadIndex a0)
      else Inr ((if repl then insert_repl else insert_new) st stk_bytes (nat a0) arg))"

section \<open>Scripts\<close>

abbreviation blank :: "u8 \<Rightarrow> bool" where
  "blank c \<equiv> c = 32 \<or> c = 9"

text \<open>The loops that move \<open>sp\<close> backwards over blanks, and to the start of an argument.\<close>

fun skip_blanks :: "u8 list \<Rightarrow> nat \<Rightarrow> nat" where
  "skip_blanks script 0 = 0"
| "skip_blanks script (Suc sp) = (if blank (script ! sp) then skip_blanks script sp else sp)"

fun arg_start :: "u8 list \<Rightarrow> nat \<Rightarrow> nat" where
  "arg_start script 0 = 0"
| "arg_start script (Suc sp) = (if blank (script ! sp) then Suc sp else arg_start script sp)"

lemma skip_blanks_less: "sp > 0 \<Longrightarrow> skip_blanks script sp < sp"
proof (induction sp)
  case (Suc sp)
  then show ?case by (cases "sp = 0") (auto intro: less_SucI)
qed simp

lemma arg_start_le: "arg_start script sp \<le> sp"
  by (induction sp) auto

definition cstring :: "u8 list \<Rightarrow> u8 list" where
  "cstring bs = takeWhile (\<lambda>c. c \<noteq> 0) bs"

function script_args :: "u8 list \<Rightarrow> nat \<Rightarrow> nat option \<Rightarrow> u32 \<Rightarrow> u8 list \<Rightarrow> (bool \<times> nat option \<times> u8 list \<times> u32 \<times> u8 list) res" where
  "script_args script sp interp stk_bytes st =
     (let sp1 = skip_blanks script sp in
      if sp1 = 0 then Inr (True, interp, script, stk_bytes, st)
      else let script1 = script[sp1 + 1 := 0]; sp2 = arg_start script1 sp1
           in case insert_arg st stk_bytes (cstring (drop sp2 script1)) False of
                Inl e \<Rightarrow> Inl e
              | Inr (ok, stk1, st1) \<Rightarrow>
                  if \<not> ok then Inr (False, None, script1, stk1, st1)
                  else script_args script1 sp2 (Some sp2) stk1 st1)"
  by pat_completeness auto

termination
proof (relation "measure (\<lambda>(_, sp, _). sp)", goal_cases)
  case (2 script sp interp stk st sp1 script1 sp2)
  have "skip_blanks script sp < sp" using 2(1,2) skip_blanks_less [of sp script] by (cases "sp = 0") auto
  then show ?case using 2 arg_start_le [of script1 sp1] by auto
qed simp

declare script_args.simps [simp del]

definition round_ptr :: "u32 \<Rightarrow> u32" where
  "round_ptr n = (n + 3) div 4 * 4"

text \<open>
  The result is the name of the interpreter. The line is read into the buffer that held the
  name of the script.
\<close>

definition patch_stack :: "pm_env \<Rightarrow> int \<Rightarrow> u32 \<Rightarrow> pmstate \<Rightarrow> (u8 list option \<times> u32 \<times> pmstate) res" where
  "patch_stack env fd stk_bytes s =
     bindr (insert_arg (exec_mbuf s) stk_bytes (cstring (exec_name s)) True) (\<lambda>(ok, stk1, st1).
     let s1 = s\<lparr>exec_mbuf := st1\<rparr> in
     if \<not> ok then Inr (None, stk1, s1)
     else let ((r, _), s2) = ask env (FsLseek fd 2) s1 in
     if r = - 1 then Inr (None, stk1, s2)
     else let ((n, ws), s3) = ask env (FsRead fd (of_nat PATH_MAX)) s2 in
     if n < 0 then Inr (None, stk1, s3)
     else let line = answer_bytes (nat n) ws; script = put_bytes 0 line (exec_name s3);
              s4 = s3\<lparr>exec_name := script\<rparr>
          in if 10 \<notin> set line then Inr (None, stk1, s4)
             else bindr (script_args script (length (takeWhile (\<lambda>c. c \<noteq> 10) line)) None stk1 (exec_mbuf s4))
                    (\<lambda>(ok2, interp, script1, stk2, st2).
                  let s5 = s4\<lparr>exec_name := script1, exec_mbuf := st2\<rparr> in
                  if \<not> ok2 then Inr (None, stk2, s5)
                  else Inr (map_option (\<lambda>i. cstring (drop i script1)) interp, round_ptr stk2, tell (FsClose fd) s5)))"

section \<open>The file\<close>

record stat_buf =
  st_dev :: int
  st_ino :: u32
  st_mode :: u32
  st_uid :: int
  st_gid :: int
  st_ctime :: int

definition get_stat :: "u32 list \<Rightarrow> stat_buf" where
  "get_stat ws = \<lparr>st_dev = sshort (sint (word_at ws 0)), st_ino = word_at ws 1, st_mode = word_at ws 2,
     st_uid = sshort (sint (word_at ws 3)), st_gid = sshort (sint (word_at ws 4)), st_ctime = sint (word_at ws 5)\<rparr>"

text \<open>The file types and mode bits are octal in the source.\<close>

abbreviation (input) I_TYPE :: u32 where "I_TYPE \<equiv> 0xF000"
abbreviation (input) I_REGULAR :: u32 where "I_REGULAR \<equiv> 0x8000"
abbreviation (input) I_SET_UID_BIT :: u32 where "I_SET_UID_BIT \<equiv> 0x800"
abbreviation (input) I_SET_GID_BIT :: u32 where "I_SET_GID_BIT \<equiv> 0x400"

text \<open>\<open>allowed\<close> with the mask \<open>X_BIT\<close>, the only one it is called with.\<close>

definition allowed :: "pm_env \<Rightarrow> u8 list \<Rightarrow> pmstate \<Rightarrow> (int \<times> stat_buf \<times> pmstate) res" where
  "allowed env name s =
     (let ((r, _), s1) = ask env (FsAccess name) s; eff = mp_effuid (mpr s (pm_mp s)) in
      if r < 0 then Inr (r, get_stat [], s1)
      else let s2 = tell_fs SETUID_NR PM_PROC_NR SUPER_USER SUPER_USER s1;
               ((fd, _), s3) = ask env (FsOpen name) s2;
               s4 = tell_fs SETUID_NR PM_PROC_NR eff eff s3
           in if fd < 0 then Inr (fd, get_stat [], s4)
              else let ((f, ws), s5) = ask env (FsStat fd) s4; sb = get_stat ws in
                   if f < 0 then Inl (Panic ''allowed: fstat failed'')
                   else if st_mode sb AND I_TYPE \<noteq> I_REGULAR then Inr (EACCES, sb, tell (FsClose fd) s5)
                   else Inr (fd, sb, s5))"

record exec_hdr =
  x_ft :: u32
  x_text :: u32
  x_data :: u32
  x_bss :: u32
  x_tot :: u32
  x_pc :: u32

definition no_hdr :: exec_hdr where
  "no_hdr = \<lparr>x_ft = 0, x_text = 0, x_data = 0, x_bss = 0, x_tot = 0, x_pc = 0\<rparr>"

text \<open>The header as it was read: 8 bytes and 6 longs. The sizes are those that \<open>read_header\<close> returns.\<close>

definition hdr_sizes :: "u32 list \<Rightarrow> exec_hdr" where
  "hdr_sizes ws =
     (let fl = word_bytes (word_at ws 0) ! 2; sep = (fl AND 0x20 \<noteq> 0); tx = word_at ws 2
      in \<lparr>x_ft = (if sep then SEPARATE else 0), x_text = (if sep then tx else 0),
          x_data = (if sep then word_at ws 3 else word_at ws 3 + tx), x_bss = word_at ws 4,
          x_tot = word_at ws 6, x_pc = word_at ws 5\<rparr>)"

definition hdr_check :: "u32 list \<Rightarrow> u32 \<Rightarrow> int" where
  "hdr_check ws sc =
     (let h = hdr_sizes ws; b = word_bytes (word_at ws 0);
          tc = to_clicks (x_text h); dc = to_clicks (x_data h + x_bss h); totc = to_clicks (x_tot h);
          dvir = (if x_ft h = SEPARATE then 0 else tc); s_vir = dvir + (totc - sc)
      in if b ! 0 \<noteq> 1 \<or> b ! 1 \<noteq> 3 then ENOEXEC
         else if b ! 3 \<noteq> 0x10 then ENOEXEC
         else if b ! 2 AND NOT (0x04 OR 0x10 OR 0x20) \<noteq> 0 then ENOEXEC
         else if x_tot h = 0 then ENOEXEC
         else if dc \<ge> totc then ENOEXEC
         else if dvir + dc > s_vir then ENOMEM else OK)"

text \<open>The file position is moved behind a long header only when the sizes have been looked at.\<close>

definition read_header :: "pm_env \<Rightarrow> int \<Rightarrow> u32 \<Rightarrow> pmstate \<Rightarrow> int \<times> exec_hdr \<times> pmstate" where
  "read_header env fd sc s =
     (let ((m, ws), s1) = ask env (FsRead fd 32) s; b = answer_bytes 32 ws;
          c = hdr_check ws sc; ct = b ! 4
      in if m < 2 then (ENOEXEC, no_hdr, s1)
         else if b ! 0 = 35 \<and> b ! 1 = 33 then (ESCRIPT, no_hdr, s1)
         else if m \<noteq> 32 then (ENOEXEC, no_hdr, s1)
         else if c = ENOEXEC then (ENOEXEC, no_hdr, s1)
         else (c, hdr_sizes ws, if ct > 32 then tell (FsLseek fd (ucast ct)) s1 else s1))"

section \<open>The new image\<close>

definition exec_map :: "u32 \<Rightarrow> u32 \<Rightarrow> u32 \<Rightarrow> u32 \<Rightarrow> u32 \<Rightarrow> mem_map option \<Rightarrow> (seg \<Rightarrow> mem_map) \<Rightarrow> seg \<Rightarrow> mem_map" where
  "exec_map new_base text_clicks data_clicks gap_clicks stack_clicks shared sg = sg
     (T_seg := (case shared of Some m \<Rightarrow> m | None \<Rightarrow> \<lparr>mem_vir = 0, mem_phys = new_base, mem_len = text_clicks\<rparr>),
      D_seg := \<lparr>mem_vir = 0, mem_phys = new_base + text_clicks, mem_len = data_clicks\<rparr>,
      S_seg := \<lparr>mem_vir = data_clicks + gap_clicks, mem_phys = new_base + text_clicks + data_clicks + gap_clicks,
                mem_len = stack_clicks\<rparr>)"

definition release_image :: "int \<Rightarrow> pmstate \<Rightarrow> pmstate res" where
  "release_image rmp s =
     (let p = mpr s rmp in
      bindr (if find_share rmp (file_of p) s = None
             then free_mem (mem_phys (mp_seg p T_seg)) (mem_len (mp_seg p T_seg)) s else Inr s) (\<lambda>s1.
      free_mem (mem_phys (mp_seg (mpr s1 rmp) D_seg)) (prog_size (mpr s1 rmp)) s1))"

definition new_mem :: "pm_env \<Rightarrow> int option \<Rightarrow> exec_hdr \<Rightarrow> u32 \<Rightarrow> pmstate \<Rightarrow> (int \<times> pmstate) res" where
  "new_mem env sh_mp h stk_bytes s =
     (let rmp = pm_mp s;
          text_clicks = to_clicks (if sh_mp \<noteq> None then 0 else x_text h);
          data_clicks = to_clicks (x_data h + x_bss h);
          stack_clicks = to_clicks stk_bytes;
          tot_clicks = to_clicks (x_tot h);
          gap_clicks = tot_clicks - data_clicks - stack_clicks;
          s1 = set_mfl rmp (mfl s rmp OR WAITING) s
      in if sint gap_clicks < 0 then Inr (ENOMEM, s1)
         else case alloc_mem env (text_clicks + tot_clicks) s1 of
                None \<Rightarrow> Inl Hang
              | Some ra \<Rightarrow> bindr ra (\<lambda>(new_base, s2).
                  if new_base = NO_MEM then Inr (ENOMEM, s2)
                  else bindr (release_image rmp s2) (\<lambda>s3.
                       let s4 = upd_mp rmp (\<lambda>p. p\<lparr>mp_seg := exec_map new_base text_clicks data_clicks gap_clicks stack_clicks
                                   (map_option (\<lambda>n. mp_seg (mpr s3 n) T_seg) sh_mp) (mp_seg p)\<rparr>) s3;
                           sg = mp_seg (mpr s4 rmp);
                           s5 = tell (SysNewmap (pm_who s4) (sg T_seg) (sg D_seg) (sg S_seg)) s4;
                           s6 = set_mfl rmp (mfl s5 rmp AND NOT (WAITING OR ONSWAP OR SWAPIN)) s5;
                           bss_offset = push_bit CLICK_SHIFT (drop_bit CLICK_SHIFT (x_data h));
                           bytes = push_bit CLICK_SHIFT (data_clicks + gap_clicks + stack_clicks) - bss_offset;
                           base = push_bit CLICK_SHIFT (mem_phys (sg D_seg)) + bss_offset;
                           ((r, _), s7) = ask env (SysMemset 0 base bytes) s6
                       in if r \<noteq> OK then Inl (Panic ''new_mem can't zero'') else Inr (OK, s7))))"

section \<open>The call\<close>

definition reset_catch :: "mproc \<Rightarrow> mproc" where
  "reset_catch = fold (\<lambda>sn p. if sigin (mp_catch p) sn
     then p\<lparr>mp_catch := sig_del (mp_catch p) sn,
            mp_sigact := (mp_sigact p)(sn := (mp_sigact p sn)\<lparr>sa_handler := SIG_DFL, sa_mask := 0\<rparr>)\<rparr>
     else p) [1..NSIG]"

definition exec_ids :: "int \<Rightarrow> stat_buf \<Rightarrow> pmstate \<Rightarrow> pmstate" where
  "exec_ids rmp sb s =
     (if mfl s rmp AND TRACED \<noteq> 0 then s
      else let s1 = (if st_mode sb AND I_SET_UID_BIT \<noteq> 0
                     then tell_fs SETUID_NR (pm_who s) (mp_realuid (mpr s rmp)) (st_uid sb)
                            (upd_mp rmp (\<lambda>p. p\<lparr>mp_effuid := st_uid sb\<rparr>) s) else s)
           in if st_mode sb AND I_SET_GID_BIT \<noteq> 0
              then tell_fs SETGID_NR (pm_who s1) (mp_realgid (mpr s1 rmp)) (schar (st_gid sb))
                     (upd_mp rmp (\<lambda>p. p\<lparr>mp_effgid := schar (st_gid sb)\<rparr>) s1) else s1)"

definition basename :: "u8 list \<Rightarrow> u8 list" where
  "basename name = rev (takeWhile (\<lambda>c. c \<noteq> 47) (rev name))"

text \<open>
  The name is copied and a zero is stored behind the end of the array: in the lowest byte of the
  slot that follows, which is the low byte of the origin of its text.
\<close>

definition set_mp_name :: "int \<Rightarrow> u8 list \<Rightarrow> pmstate \<Rightarrow> pmstate res" where
  "set_mp_name rmp name s =
     bindr (mproc_at (rmp + 1)) (\<lambda>nx.
     Inr (upd_mp nx (\<lambda>p. p\<lparr>mp_seg := (mp_seg p)(T_seg := (mp_seg p T_seg)\<lparr>mem_vir := mem_vir (mp_seg p T_seg) AND NOT 0xFF\<rparr>)\<rparr>)
       (upd_mp rmp (\<lambda>p. p\<lparr>mp_name := take 15 (name @ replicate 15 0) @ drop 15 (mp_name p)\<rparr>) s)))"

text \<open>The loop of \<open>do_exec\<close> tries the file, and for a script once more its interpreter.\<close>

definition exec_open :: "pm_env \<Rightarrow> u8 list \<Rightarrow> u32 \<Rightarrow> pmstate \<Rightarrow> (int \<times> stat_buf \<times> int \<times> exec_hdr \<times> pmstate) res" where
  "exec_open env name stk_bytes s =
     bindr (allowed env name (tell_fs CHDIR_FS (pm_who s) 0 0 s)) (\<lambda>(fd, sb, s1).
     if fd < 0 then Inr (fd, sb, ENOEXEC, no_hdr, s1)
     else let (m, h, s2) = read_header env fd (to_clicks stk_bytes) s1 in Inr (fd, sb, m, h, s2))"

record exec_file =
  f_fd :: int
  f_first :: stat_buf
  f_stat :: stat_buf
  f_m :: int
  f_hdr :: exec_hdr
  f_name :: "u8 list"
  f_stk :: u32

definition exec_find :: "pm_env \<Rightarrow> u32 \<Rightarrow> pmstate \<Rightarrow> (exec_file \<times> pmstate) res" where
  "exec_find env stk_bytes s =
     (let name = cstring (exec_name s) in
      bindr (exec_open env name stk_bytes s) (\<lambda>(fd, sb, m, h, s1).
      let x = \<lparr>f_fd = fd, f_first = sb, f_stat = sb, f_m = m, f_hdr = h, f_name = name, f_stk = stk_bytes\<rparr> in
      if fd < 0 \<or> m \<noteq> ESCRIPT then Inr (x, s1)
      else bindr (patch_stack env fd stk_bytes s1) (\<lambda>(r, stk1, s2).
           case r of
             None \<Rightarrow> Inr (x\<lparr>f_stk := stk1\<rparr>, s2)
           | Some interp \<Rightarrow>
               bindr (exec_open env interp stk1 s2) (\<lambda>(fd1, sb1, m1, h1, s3).
               Inr (x\<lparr>f_fd := fd1, f_stat := sb1, f_m := m1, f_hdr := h1, f_name := interp, f_stk := stk1\<rparr>, s3)))))"

text \<open>The second half: the image is loaded and the process started.\<close>

definition exec_load :: "pm_env \<Rightarrow> exec_file \<Rightarrow> int option \<Rightarrow> pmstate \<Rightarrow> (int \<times> pmstate) res" where
  "exec_load env x sh_mp s =
     (let rmp = pm_mp s; who = pm_who s; h = f_hdr x;
          s1 = upd_mp rmp (\<lambda>p. p\<lparr>mp_ino := st_ino (f_stat x), mp_dev := st_dev (f_stat x), mp_ctime := st_ctime (f_stat x)\<rparr>) s;
          sg = mp_seg (mpr s1 rmp) S_seg;
          vsp = push_bit CLICK_SHIFT (mem_vir sg) + push_bit CLICK_SHIFT (mem_len sg) - f_stk x;
          s2 = s1\<lparr>exec_mbuf := patch_ptr (exec_mbuf s1) vsp\<rparr>;
          ((r, _), s3) = ask env (CopyOutBytes who vsp (take (unat (f_stk x)) (exec_mbuf s2))) s2
      in if r \<noteq> OK then Inl (Panic ''do_exec stack copy err on'')
         else let s4 = (if sh_mp \<noteq> None then tell (FsSkip (f_fd x) (x_text h)) s3
                        else rw_seg env 0 (f_fd x) who T_seg (x_text h) s3);
                  s5 = tell (FsClose (f_fd x)) (rw_seg env 0 (f_fd x) who D_seg (x_data h) s4);
                  s6 = exec_ids rmp (f_first x) s5;
                  s7 = upd_mp rmp (\<lambda>p. (reset_catch p)\<lparr>mp_procargs := vsp, mp_flags := (mp_flags p AND NOT SEPARATE) OR x_ft h\<rparr>) s6;
                  s8 = tell_fs EXEC_FS who 0 0 s7
              in bindr (set_mp_name rmp (basename (f_name x)) s8) (\<lambda>s9.
                 let s10 = tell (SysExec who vsp (x_pc h) (basename (f_name x))) s9 in
                 if mfl s10 rmp AND TRACED \<noteq> 0
                 then bindr (check_sig env (mp_pid (mpr s10 rmp)) SIGTRAP s10) (\<lambda>(_, s11). Inr (SUSPEND, s11))
                 else Inr (SUSPEND, s10)))"

definition do_exec_pm :: "pm_env \<Rightarrow> pm_call" where
  "do_exec_pm env s =
     (let stk_bytes = m_w (pm_in s) 1; len = pm_arg s 0; who = pm_who s in
      if stk_bytes > of_nat STACK_MAX then Inr (ENOMEM, s)
      else if len \<le> 0 \<or> len > int PATH_MAX then Inr (EINVAL, s)
      else let ((r, ws), s1) = ask env (CopyIn who (m_w (pm_in s) 3) (m_w (pm_in s) 0)) s in
      if r \<noteq> OK then Inr (r, s1)
      else let s2 = s1\<lparr>exec_name := put_bytes 0 (answer_bytes (nat len) ws) (exec_name s1)\<rparr>;
               ((r2, st), s3) = ask env (CopyIn who (m_w (pm_in s) 4) stk_bytes) s2
           in if r2 \<noteq> OK then Inr (EACCES, s3)
              else let s4 = s3\<lparr>exec_mbuf := put_bytes 0 (answer_bytes (unat stk_bytes) st) (exec_mbuf s3)\<rparr> in
              bindr (exec_find env stk_bytes s4) (\<lambda>(x, s5).
              if f_fd x < 0 then Inr (f_fd x, s5)
              else if f_m x < 0
              then Inr (if f_stk x > of_nat STACK_MAX then ENOMEM else ENOEXEC, tell (FsClose (f_fd x)) s5)
              else let sh_mp = find_share (pm_mp s5) (st_ino (f_stat x), st_dev (f_stat x), st_ctime (f_stat x)) s5 in
                   bindr (new_mem env sh_mp (f_hdr x) (f_stk x) s5) (\<lambda>(r3, s6).
                   if r3 \<noteq> OK then Inr (r3, tell (FsClose (f_fd x)) s6)
                   else exec_load env x sh_mp s6)))"

end
