(* ===== verification/Strtol.thy ===== *)
theory Strtol
  imports Minix_Prelude
begin

unbundle bit_operations_syntax

text \<open>
  The conversion of numerals of the C library (\<open>lib/ansi/strtol.c\<close> and \<open>lib/ansi/atoi.c\<close>),
  which the kernel uses for its boot parameters. A string is the list of its bytes before the
  terminating zero; reading at the end gives that zero. The main theorem says that the 32-bit
  computation with its overflow flag gives the exact value of the numeral, cut off at the
  bounds of a \<open>long\<close>.
\<close>

section \<open>The routine\<close>

definition is_space :: "u8 \<Rightarrow> bool" where
  "is_space b \<longleftrightarrow> b = 32 \<or> 9 \<le> b \<and> b \<le> 13"

definition digit_val :: "u8 \<Rightarrow> nat option" where
  "digit_val c =
     (if 48 \<le> c \<and> c \<le> 57 then Some (unat c - 48)
      else if 97 \<le> c \<and> c \<le> 122 then Some (unat c - 97 + 10)
      else if 65 \<le> c \<and> c \<le> 90 then Some (unat c - 65 + 10) else None)"

text \<open>The loop over the digits: the value so far, the overflow flag, the rest of the string.\<close>

fun digit_loop :: "nat \<Rightarrow> u32 \<Rightarrow> bool \<Rightarrow> u8 list \<Rightarrow> u32 \<times> bool \<times> u8 list" where
  "digit_loop base val ovfl [] = (val, ovfl, [])"
| "digit_loop base val ovfl (c # cs) =
     (case digit_val c of
        None \<Rightarrow> (val, ovfl, c # cs)
      | Some v \<Rightarrow>
          if v \<ge> base then (val, ovfl, c # cs)
          else digit_loop base (val * of_nat base + of_nat v)
                 (ovfl \<or> val > (- 1 - of_nat v) div of_nat base) cs)"

definition strip_sign :: "u8 list \<Rightarrow> bool \<times> u8 list" where
  "strip_sign cs =
     (case cs of [] \<Rightarrow> (False, []) | c # ds \<Rightarrow> if c = 45 then (True, ds) else if c = 43 then (False, ds) else (False, cs))"

definition is_x :: "u8 list \<Rightarrow> bool" where
  "is_x cs \<longleftrightarrow> cs \<noteq> [] \<and> (hd cs = 120 \<or> hd cs = 88)"

text \<open>The base that the syntax determines, and what is left after the prefix.\<close>

definition strip_base :: "nat \<Rightarrow> u8 list \<Rightarrow> nat \<times> u8 list" where
  "strip_base base cs =
     (if base = 0
      then if cs \<noteq> [] \<and> hd cs = 48 then (if is_x (tl cs) then (16, tl (tl cs)) else (8, tl cs)) else (10, cs)
      else if base = 16 \<and> cs \<noteq> [] \<and> hd cs = 48 then (16, if is_x (tl cs) then tl (tl cs) else tl cs)
      else (base, cs))"

abbreviation (input) LONG_MAX :: u32 where "LONG_MAX \<equiv> 2147483647"
abbreviation (input) LONG_MIN :: u32 where "LONG_MIN \<equiv> 2147483648"
abbreviation (input) ULONG_MAX :: u32 where "ULONG_MAX \<equiv> - 1"

text \<open>The result, the end pointer as the rest of the string, and whether \<open>errno\<close> is set to \<open>ERANGE\<close>.\<close>

definition string2long :: "u8 list \<Rightarrow> nat \<Rightarrow> bool \<Rightarrow> u32 \<times> u8 list \<times> bool" where
  "string2long nptr base is_signed =
     (let (neg, nrstart) = strip_sign (dropWhile is_space nptr);
          (base1, cs) = strip_base base nrstart;
          (val, ovfl, rest) = digit_loop base1 0 False cs;
          endptr = (if nrstart = rest then nptr else rest);
          ovfl1 = (ovfl \<or> is_signed \<and> (neg \<and> val > LONG_MIN \<or> \<not> neg \<and> val > LONG_MAX))
      in if ovfl1 then (if is_signed then if neg then LONG_MIN else LONG_MAX else ULONG_MAX, endptr, True)
         else (if neg then - val else val, endptr, False))"

definition strtol :: "u8 list \<Rightarrow> nat \<Rightarrow> int" where
  "strtol nptr base = sint (fst (string2long nptr base True))"

definition strtoul :: "u8 list \<Rightarrow> nat \<Rightarrow> u32" where
  "strtoul nptr base = fst (string2long nptr base False)"

definition atoi :: "u8 list \<Rightarrow> int" where
  "atoi nptr = strtol nptr 10"

section \<open>The value of a numeral\<close>

text \<open>The digits at the front of the string, and the number they denote, without bounds.\<close>

fun numeral_of :: "nat \<Rightarrow> nat \<Rightarrow> u8 list \<Rightarrow> nat" where
  "numeral_of base acc [] = acc"
| "numeral_of base acc (c # cs) =
     (case digit_val c of Some v \<Rightarrow> if v < base then numeral_of base (acc * base + v) cs else acc | None \<Rightarrow> acc)"

lemma numeral_of_mono: "0 < base \<Longrightarrow> acc \<le> numeral_of base acc cs"
proof (induction cs arbitrary: acc)
  case (Cons c cs)
  have "acc \<le> acc * base + v" for v using Cons.prems by (simp add: trans_le_add1)
  then show ?case using Cons.IH Cons.prems by (auto split: option.split intro: order_trans)
qed simp

text \<open>The test for overflow is exact.\<close>

lemma ovfl_exact:
  assumes "0 < base" "base \<le> 36" "v < base"
  shows "val > (- 1 - of_nat v) div (of_nat base :: u32) \<longleftrightarrow> unat val * base + v \<ge> 2 ^ 32"
proof -
  have b: "unat (of_nat base :: u32) = base" "unat (of_nat v :: u32) = v"
    using assms by (simp_all add: unat_of_nat)
  have "unat (- 1 - of_nat v :: u32) = 4294967295 - v"
  proof -
    have "unat (- 1 - of_nat v :: u32) = unat (- 1 :: u32) - unat (of_nat v :: u32)"
      by (rule unat_sub) simp
    moreover have "unat (- 1 :: u32) = 4294967295" by (simp add: unsigned_minus_1_eq_mask mask_eq_exp_minus_1)
    ultimately show ?thesis using b by simp
  qed
  then have "val > (- 1 - of_nat v) div (of_nat base :: u32) \<longleftrightarrow> (4294967295 - v) div base < unat val"
    using b by (simp add: word_less_nat_alt unat_div)
  also have "\<dots> \<longleftrightarrow> 4294967295 - v < unat val * base"
    using assms(1) by (simp add: div_less_iff_less_mult)
  also have "\<dots> \<longleftrightarrow> unat val * base + v \<ge> 2 ^ 32" using assms by auto
  finally show ?thesis .
qed

lemma unat_u32: "unat (w::u32) < 4294967296"
proof -
  have "unat w < 2 ^ LENGTH(32)" by (rule unsigned_less)
  then show ?thesis by simp
qed

lemma digit_loop_spec:
  assumes "0 < base" "base \<le> 36" "\<not> ovfl \<longrightarrow> unat val = acc" "ovfl \<longrightarrow> acc \<ge> 2 ^ 32"
    and "digit_loop base val ovfl cs = (val', ovfl', rest)"
  shows "ovfl' = (numeral_of base acc cs \<ge> 2 ^ 32) \<and> (\<not> ovfl' \<longrightarrow> unat val' = numeral_of base acc cs)"
  using assms(3-)
proof (induction cs arbitrary: val ovfl acc)
  case Nil
  then show ?case using unat_u32 [of val] by (cases ovfl) auto
next
  case (Cons c cs)
  show ?case
  proof (cases "\<exists>v. digit_val c = Some v \<and> v < base")
    case True
    then obtain v where v: "digit_val c = Some v" "v < base" by blast
    let ?val = "val * of_nat base + of_nat v" and ?o = "ovfl \<or> val > (- 1 - of_nat v) div of_nat base"
    have run: "digit_loop base ?val ?o cs = (val', ovfl', rest)" using Cons.prems v by simp
    have o: "?o \<longleftrightarrow> acc * base + v \<ge> 2 ^ 32"
    proof (cases ovfl)
      case True
      then have "2 ^ 32 \<le> acc" using Cons.prems by simp
      also have "acc \<le> acc * base + v" using assms(1) by (simp add: trans_le_add1)
      finally show ?thesis using True by simp
    qed (use Cons.prems ovfl_exact [OF assms(1,2) v(2), of val] in simp)
    have "unat ?val = acc * base + v" if "\<not> ?o"
    proof -
      have "unat val = acc" "acc * base + v < 2 ^ 32" using that o Cons.prems by auto
      then show ?thesis using v(2) assms(1,2) by (simp add: unat_word_ariths unat_of_nat)
    qed
    with Cons.IH [OF _ _ run, of "acc * base + v"] o v show ?thesis by simp
  next
    case False
    then have "digit_loop base val ovfl (c # cs) = (val, ovfl, c # cs)" "numeral_of base acc (c # cs) = acc"
      by (auto split: option.split)
    with Cons.prems unat_u32 [of val] show ?thesis by (cases ovfl) auto
  qed
qed

definition clamp :: "int \<Rightarrow> int" where
  "clamp x = max (- 2147483648) (min 2147483647 x)"

definition value_of :: "u8 list \<Rightarrow> nat \<Rightarrow> int" where
  "value_of nptr base =
     (let (neg, cs) = strip_sign (dropWhile is_space nptr); (b, ds) = strip_base base cs;
          n = int (numeral_of b 0 ds)
      in if neg then - n else n)"

text \<open>
  \<open>strtol\<close> gives the exact value of the numeral, cut off at the bounds of a \<open>long\<close>, and
  reports \<open>ERANGE\<close> exactly when it was cut off, for base 0 and the bases from 2 to 36.
\<close>

theorem strtol_clamps:
  assumes "base = 0 \<or> 2 \<le> base \<and> base \<le> 36"
  shows "strtol nptr base = clamp (value_of nptr base) \<and>
    (snd (snd (string2long nptr base True)) \<longleftrightarrow> clamp (value_of nptr base) \<noteq> value_of nptr base)"
proof -
  obtain neg cs where s: "strip_sign (dropWhile is_space nptr) = (neg, cs)" by fastforce
  obtain b ds where b: "strip_base base cs = (b, ds)" by fastforce
  obtain val ov rest where l: "digit_loop b 0 False ds = (val, ov, rest)" by (cases "digit_loop b 0 False ds") auto
  have "0 < b" "b \<le> 36" using b assms by (auto simp: strip_base_def split: if_splits)
  from digit_loop_spec [OF this _ _ l, of 0]
  have v: "ov = (numeral_of b 0 ds \<ge> 2 ^ 32)" "\<not> ov \<Longrightarrow> unat val = numeral_of b 0 ds" by auto
  let ?n = "numeral_of b 0 ds"
  have vo: "value_of nptr base = (if neg then - int ?n else int ?n)" by (simp add: value_of_def s b)
  show ?thesis
  proof (cases "ov \<or> neg \<and> val > LONG_MIN \<or> \<not> neg \<and> val > LONG_MAX")
    case True
    then have "string2long nptr base True = (if neg then LONG_MIN else LONG_MAX, if cs = rest then nptr else rest, True)"
      by (auto simp: string2long_def s b l)
    moreover have "if neg then ?n > 2147483648 else ?n > 2147483647"
      using True v by (cases ov) (auto simp: word_less_nat_alt)
    ultimately show ?thesis unfolding vo strtol_def by (auto simp: clamp_def)
  next
    case False
    then have "string2long nptr base True = (if neg then - val else val, if cs = rest then nptr else rest, False)"
      by (auto simp: string2long_def s b l)
    moreover have n: "uint val = int ?n" using v False by (simp add: uint_nat)
    moreover have le: "if neg then ?n \<le> 2147483648 else ?n \<le> 2147483647"
      using False v by (auto simp: word_less_nat_alt not_less)
    moreover have "sint (if neg then - val else val) = (if neg then - int ?n else int ?n)"
    proof -
      have w: "val = word_of_int (int ?n)" using n by (metis word_of_int_uint)
      have "sint (word_of_int k :: u32) = k" if "- 2147483648 \<le> k" "k \<le> 2147483647" for k
        using that by (simp add: sint_sbintrunc' signed_take_bit_int_eq_self)
      from this [of "int ?n"] this [of "- int ?n"] show ?thesis
        unfolding w wi_hom_neg using le by (cases neg) simp_all
    qed
    ultimately show ?thesis unfolding vo strtol_def by (auto simp: clamp_def)
  qed
qed

theorem strtol_clamps_witness:
  "strtol [45, 52, 50] 10 = - 42 \<and> strtol [57, 57, 57, 57, 57, 57, 57, 57, 57, 57] 10 = 2147483647"
  using strtol_clamps [of 10 "[45, 52, 50]"]
    strtol_clamps [of 10 "[57, 57, 57, 57, 57, 57, 57, 57, 57, 57]"]
  by (simp add: value_of_def strip_sign_def strip_base_def is_space_def digit_val_def clamp_def)

end
