(* ===== verification/Boot.thy ===== *)
theory Boot
  imports System Strtol
begin

unbundle bit_operations_syntax

text \<open>
  How the kernel starts: \<open>cstart\<close> and \<open>get_value\<close> (\<open>kernel/start.c\<close>), the table of the boot
  image (\<open>kernel/table.c\<close>) and \<open>main\<close> (\<open>kernel/main.c\<close>), which fills the process and
  privilege tables and puts the processes of the image on the ready queues. The main theorem
  is that the invariant \<open>kwf\<close> holds when \<open>main\<close> starts the first process.
\<close>

section \<open>Boot parameters\<close>

text \<open>
  The parameters are strings \<^verbatim>\<open>name=value\<close>, each ended by a zero byte, and an empty string at
  the end. \<open>match_name\<close> is the inner loop that compares; \<open>skip_entry\<close> the loop to the end of
  an entry. Running off the buffer is a fault.
\<close>

fun match_name :: "u8 list \<Rightarrow> u8 list \<Rightarrow> u8 list \<times> u8 list" where
  "match_name (n # ns) (e # es) = (if n = e then match_name ns es else (n # ns, e # es))"
| "match_name ns es = (ns, es)"

fun skip_entry :: "u8 list \<Rightarrow> u8 list res" where
  "skip_entry [] = Inl (BadIndex 0)"
| "skip_entry (e # es) = (if e = 0 then Inr es else skip_entry es)"

lemma match_name_length: "match_name ns es = (ns', es') \<Longrightarrow> length es' \<le> length es"
  by (induction ns es arbitrary: ns' es' rule: match_name.induct) (fastforce split: if_splits)+

lemma skip_entry_length: "skip_entry es = Inr es' \<Longrightarrow> length es' < length es"
  by (induction es) (auto split: if_splits)

function get_value :: "u8 list \<Rightarrow> u8 list \<Rightarrow> u8 list option res" where
  "get_value nm env =
     (case env of
        [] \<Rightarrow> Inl (BadIndex 0)
      | b # _ \<Rightarrow>
          if b = 0 then Inr None
          else let (n1, e1) = match_name nm env in
               if n1 = [] \<and> e1 \<noteq> [] \<and> hd e1 = 61 then Inr (Some (tl e1))
               else case skip_entry e1 of Inl e \<Rightarrow> Inl e | Inr e2 \<Rightarrow> get_value nm e2)"
  by pat_completeness auto
termination
proof (relation "measure (\<lambda>(nm, env). length env)", goal_cases)
  case (2 nm env b es x n1 e1 e2)
  then show ?case using match_name_length [of nm env n1 e1] skip_entry_length [of e1 e2] by simp
qed simp

declare get_value.simps [simp del]

definition c_string :: "u8 list \<Rightarrow> u8 list" where
  "c_string bs = takeWhile (\<lambda>b. b \<noteq> 0) bs"

abbreviation (input) str_processor :: "u8 list" where
  "str_processor \<equiv> [112, 114, 111, 99, 101, 115, 115, 111, 114]"
abbreviation (input) str_bus :: "u8 list" where "str_bus \<equiv> [98, 117, 115]"
abbreviation (input) str_video :: "u8 list" where "str_video \<equiv> [118, 105, 100, 101, 111]"
abbreviation (input) str_mca :: "u8 list" where "str_mca \<equiv> [109, 99, 97]"

text \<open>
  \<open>cstart\<close>: where the linker put code, data and tables is given by the arguments. The types of
  the display are not part of the state; only the test of the pointer is.
\<close>

record layout =
  lay_etext :: u32
  lay_end :: u32
  lay_gdt :: u32
  lay_idt :: u32
  lay_tss :: u32
  lay_ldt :: "int \<Rightarrow> u32"
  lay_gate :: "nat \<Rightarrow> u32"
  lay_stack :: u32
  lay_pc :: "int \<Rightarrow> u32"
  lay_aout :: u32

definition cstart :: "layout \<Rightarrow> u16 \<Rightarrow> u16 \<Rightarrow> u16 \<Rightarrow> u16 \<Rightarrow> u16 \<Rightarrow> kstate \<Rightarrow> kstate res" where
  "cstart lay cs ds mds parmoff parmsize s =
     (let s0 = s\<lparr>machine_protected := True\<rparr>;
          k = (kinfo_v s0)\<lparr>code_base := seg2phys cs s0, code_size := lay_etext lay,
                           data_base := seg2phys ds s0, data_size := lay_end lay\<rparr>;
          s1 = prot_init (lay_gdt lay) (lay_idt lay) (lay_tss lay) (lay_ldt lay) (lay_gate lay) (s0\<lparr>kinfo_v := k\<rparr>);
          k1 = (kinfo_v s1)\<lparr>params_base := seg2phys mds s1 + ucast parmoff,
                            params_size := min (ucast parmsize) 510\<rparr>;
          params = read_bytes (memory s1) (params_base k1) (unat (params_size k1))
      in bindr (get_value str_processor params) (\<lambda>v1.
         bindr (deref v1) (\<lambda>processor.
         bindr (get_value str_bus params) (\<lambda>bus.
         bindr (get_value str_video params) (\<lambda>v3.
         bindr (deref v3) (\<lambda>_.
         Inr (s1\<lparr>kinfo_v := k1, machine_processor := atoi (c_string processor),
                 machine_ps_mca := (case bus of Some b \<Rightarrow> c_string b = str_mca \<or> machine_ps_mca s1
                                    | None \<Rightarrow> machine_ps_mca s1)\<rparr>)))))))"

section \<open>The boot image\<close>

record boot_image =
  bi_proc_nr :: int
  bi_flags :: u16
  bi_quantum :: int
  bi_priority :: int
  bi_stksize :: u32
  bi_trap_mask :: u16
  bi_ipc_to :: u16
  bi_call_mask :: u32
  bi_name :: "u8 list"

abbreviation (input) SMALL_STACK :: u32 where "SMALL_STACK \<equiv> 512"
abbreviation (input) IDL_F :: u16 where "IDL_F \<equiv> 21"       \<comment> \<open>SYS_PROC, PREEMPTIBLE, BILLABLE\<close>
abbreviation (input) TSK_F :: u16 where "TSK_F \<equiv> 16"       \<comment> \<open>SYS_PROC\<close>
abbreviation (input) SRV_F :: u16 where "SRV_F \<equiv> 17"       \<comment> \<open>SYS_PROC, PREEMPTIBLE\<close>
abbreviation (input) USR_F :: u16 where "USR_F \<equiv> 5"        \<comment> \<open>BILLABLE, PREEMPTIBLE\<close>
abbreviation (input) TSK_T :: u16 where "TSK_T \<equiv> 4"        \<comment> \<open>RECEIVE\<close>
abbreviation (input) SRV_T :: u16 where "SRV_T \<equiv> - 1"
abbreviation (input) USR_T :: u16 where "USR_T \<equiv> 264"      \<comment> \<open>SENDREC, ECHO\<close>
abbreviation (input) SRV_M :: u16 where "SRV_M \<equiv> - 1"

definition s_bit :: "int \<Rightarrow> u16" where
  "s_bit n = push_bit (nat (NR_TASKS + n + 1)) 1"

definition USR_M :: u16 where
  "USR_M = s_bit 0 OR s_bit 1 OR s_bit 2"

definition DRV_M :: u16 where
  "DRV_M = USR_M OR s_bit SYSTEM OR s_bit CLOCK OR s_bit LOG_PROC_NR OR s_bit TTY_PROC_NR"

definition c_bits :: "nat list \<Rightarrow> u32" where
  "c_bits ns = fold (\<lambda>n w. w OR push_bit n 1) ns 0"

definition PM_C :: u32 where
  "PM_C = NOT (c_bits [21, 22, 23, 19, 20])"

definition FS_C :: u32 where
  "FS_C = c_bits [6, 15, 17, 14, 26, 2, 25, 24]"

definition DRV_C :: u32 where
  "DRV_C = FS_C OR c_bits [12, 19, 20, 21, 23, 22]"

definition MEM_C :: u32 where
  "MEM_C = DRV_C OR c_bits [16, 18]"

definition ascii :: "string \<Rightarrow> u8 list" where
  "ascii cs = map (\<lambda>c. of_nat (of_char c)) cs"

text \<open>A row of the table: number, flags, quantum, queue, stack, traps, send mask, calls, name.\<close>

definition row :: "int \<Rightarrow> u16 \<Rightarrow> int \<Rightarrow> int \<Rightarrow> u32 \<Rightarrow> u16 \<Rightarrow> u16 \<Rightarrow> u32 \<Rightarrow> string \<Rightarrow> boot_image" where
  "row nr fl qs q stk traps ipcto calls nm =
     \<lparr>bi_proc_nr = nr, bi_flags = fl, bi_quantum = qs, bi_priority = q, bi_stksize = stk,
      bi_trap_mask = traps, bi_ipc_to = ipcto, bi_call_mask = calls, bi_name = ascii nm\<rparr>"

definition image :: "boot_image list" where
  "image =
     [row IDLE IDL_F 8 IDLE_Q SMALL_STACK 0 0 0 ''IDLE'',
      row CLOCK TSK_F 64 0 SMALL_STACK TSK_T 0 0 ''CLOCK'',
      row SYSTEM TSK_F 64 0 SMALL_STACK TSK_T 0 0 ''SYSTEM'',
      row HARDWARE TSK_F 64 0 0 0 0 0 ''KERNEL'',
      row PM_PROC_NR SRV_F 32 3 0 SRV_T SRV_M PM_C ''pm'',
      row 1 SRV_F 32 4 0 SRV_T SRV_M FS_C ''fs'',
      row 2 SRV_F 4 3 0 SRV_T SRV_M (- 1) ''rs'',
      row TTY_PROC_NR SRV_F 4 1 0 SRV_T SRV_M DRV_C ''tty'',
      row 3 SRV_F 4 2 0 SRV_T DRV_M MEM_C ''memory'',
      row LOG_PROC_NR SRV_F 4 2 0 SRV_T SRV_M DRV_C ''log'',
      row 6 SRV_F 4 2 0 SRV_T SRV_M DRV_C ''driver'',
      row INIT_PROC_NR USR_F 8 7 0 USR_T USR_M 0 ''init'']"

section \<open>Filling the tables\<close>

definition clear_tables :: "kstate \<Rightarrow> kstate" where
  "clear_tables s =
     s\<lparr>proc_tab := (\<lambda>i. if isokprocn i then (proc_tab s i)\<lparr>p_rts_flags := SLOT_FREE, p_nr := i\<rparr> else proc_tab s i),
       priv_tab := (\<lambda>i. if i < NR_SYS_PROCS then (priv_tab s i)\<lparr>s_proc_nr := NONE, s_id := i\<rparr> else priv_tab s i)\<rparr>"

abbreviation (input) A_MINHDR :: u32 where "A_MINHDR \<equiv> 32"
abbreviation (input) A_SEP :: u8 where "A_SEP \<equiv> 32"

definition to_clicks :: "u32 \<Rightarrow> u32" where
  "to_clicks n = drop_bit CLICK_SHIFT (n + 1023)"

text \<open>The memory map that \<open>main\<close> derives from the \<open>a.out\<close> header at address \<open>a\<close>.\<close>

definition boot_map :: "mem \<Rightarrow> u32 \<Rightarrow> (seg \<Rightarrow> mem_map) \<Rightarrow> seg \<Rightarrow> mem_map" where
  "boot_map mm a old =
     (let text_base = drop_bit CLICK_SHIFT (get32 mm (a + 28));
          text_clicks = (if mm (a + 2) AND A_SEP \<noteq> 0 then to_clicks (get32 mm (a + 8)) else 0);
          data_clicks = to_clicks (get32 mm (a + 24))
      in old(T_seg := (old T_seg)\<lparr>mem_phys := text_base, mem_len := text_clicks\<rparr>,
             D_seg := (old D_seg)\<lparr>mem_phys := text_base + text_clicks, mem_len := data_clicks\<rparr>,
             S_seg := (old S_seg)\<lparr>mem_phys := text_base + text_clicks + data_clicks, mem_vir := data_clicks\<rparr>))"

text \<open>The attributes of the process and of its privilege structure, from the table.\<close>

definition boot_attr :: "hardware \<Rightarrow> boot_image \<Rightarrow> kstate \<Rightarrow> kstate res" where
  "boot_attr hw ip s =
     bindr (proc_addr (bi_proc_nr ip)) (\<lambda>rp.
     let s1 = set_proc rp ((proc_tab s rp)\<lparr>p_max_priority := bi_priority ip, p_priority := bi_priority ip,
                p_quantum_size := bi_quantum ip, p_ticks_left := bi_quantum ip,
                p_name := take 8 (bi_name ip @ replicate 8 0)\<rparr>) s
     in bindr (get_priv (hw_behind hw) rp (bi_flags ip AND SYS_PROC \<noteq> 0) s1) (\<lambda>(_, s2).
        bindr (priv_of s2 rp) (\<lambda>i.
        let v = priv_tab s2 i
        in Inr (set_priv i (v\<lparr>s_flags := bi_flags ip, s_trap_mask := bi_trap_mask ip,
                  s_call_mask := bi_call_mask ip, s_ipc_to := (s_ipc_to v)(0 := bi_ipc_to ip),
                  s_guard_ok := (if iskerneln (p_nr (proc_tab s2 rp)) \<and> bi_stksize ip > 0 then True
                                 else s_guard_ok v)\<rparr>) s2))))"

text \<open>Stack, memory map and registers.\<close>

definition boot_regs :: "layout \<Rightarrow> nat \<Rightarrow> boot_image \<Rightarrow> u32 \<Rightarrow> kstate \<Rightarrow> u32 \<times> kstate" where
  "boot_regs lay k ip ktsb s =
     (let rp = bi_proc_nr ip; p = proc_tab s rp; kern = iskerneln (p_nr p);
          ktsb1 = (if kern then ktsb + bi_stksize ip else ktsb);
          hdrindex = (if kern then 0 else 1 + k - nat NR_TASKS);
          mm = boot_map (memory s) (lay_aout lay + of_nat hdrindex * A_MINHDR) (p_memmap p);
          sp = (if kern then ktsb1
                else push_bit CLICK_SHIFT (mem_vir (mm S_seg) + mem_len (mm S_seg)) - 4);
          r = (p_reg p)\<lparr>reg_sp := sp, reg_pc := lay_pc lay rp, reg_psw := (if kern then 4608 else 512)\<rparr>
      in (ktsb1, set_proc rp (p\<lparr>p_memmap := mm, p_reg := r\<rparr>) s))"

definition boot_proc :: "hardware \<Rightarrow> layout \<Rightarrow> nat \<Rightarrow> boot_image \<Rightarrow> u32 \<times> kstate \<Rightarrow> (u32 \<times> kstate) res" where
  "boot_proc hw lay k ip = (\<lambda>(ktsb, s).
     bindr (boot_attr hw ip s) (\<lambda>s1.
     let rp = bi_proc_nr ip; (ktsb1, s2) = boot_regs lay k ip ktsb s1
     in bindr (if p_nr (proc_tab s2 rp) \<noteq> HARDWARE then lock_enqueue rp (set_flags rp 0 s2)
               else Inr (set_flags rp NO_MAP s2)) (\<lambda>s3.
        Inr (ktsb1, alloc_segments rp s3))))"

text \<open>\<open>announce\<close> prints the banner; \<open>restart\<close> then runs the process that was selected.\<close>

definition main_boot :: "hardware \<Rightarrow> layout \<Rightarrow> kstate \<Rightarrow> kstate res" where
  "main_boot hw lay s =
     bindr (for_each (\<lambda>k. boot_proc hw lay k (image ! k)) [0..<length image]
              (lay_stack lay, clear_tables (intr_init True s))) (\<lambda>(_, s1).
     bindr (kprintf ([CHR 0x0A] @ ''MINIX %s.%s. Copyright 2006, Vrije Universiteit, Amsterdam, The Netherlands'' @ [CHR 0x0A])
              [KStr (Some ''3''), KStr (Some ''1.0'')] (s1\<lparr>shutdown_started := False, bill_ptr := Some IDLE\<rparr>)) (\<lambda>s2.
     kprintf (''Executing in %s mode.'' @ [CHR 0x0A, CHR 0x0A])
       [KStr (Some (if machine_protected s2 then ''32-bit protected'' else ''real''))] s2))"

section \<open>Boot parameters are found\<close>

text \<open>The strings that the boot monitor passes for a list of names and values.\<close>

definition env_bytes :: "(u8 list \<times> u8 list) list \<Rightarrow> u8 list" where
  "env_bytes env = concat (map (\<lambda>(k, v). k @ [61] @ v @ [0]) env) @ [0]"

definition env_ok :: "(u8 list \<times> u8 list) list \<Rightarrow> bool" where
  "env_ok env \<longleftrightarrow> list_all (\<lambda>(k, v). 0 \<notin> set k \<and> 61 \<notin> set k \<and> 0 \<notin> set v) env"

lemma match_name_key:
  assumes "61 \<notin> set ns" "61 \<notin> set k"
  shows "\<exists>n2 k2. match_name ns (k @ 61 # t) = (n2, k2 @ 61 # t) \<and> set k2 \<subseteq> set k \<and> (n2 = [] \<and> k2 = [] \<longleftrightarrow> ns = k)"
  using assms
proof (induction ns k rule: list_induct2')
  case (4 n ns c k)
  show ?case
  proof (cases "n = c")
    case True
    then show ?thesis using 4 by fastforce
  next
    case False
    then show ?thesis by (intro exI [of _ "n # ns"] exI [of _ "c # k"]) simp
  qed
qed auto

lemma skip_entry_end: "0 \<notin> set bs \<Longrightarrow> skip_entry (bs @ 0 # rest) = Inr rest"
  by (induction bs) auto

lemma get_value_entry:
  assumes "0 \<notin> set k" "61 \<notin> set k" "0 \<notin> set v" "61 \<notin> set nm"
  shows "get_value nm (k @ 61 # v @ 0 # rest) =
    (if nm = k then Inr (Some (v @ 0 # rest)) else get_value nm rest)"
proof -
  obtain n2 k2 where m: "match_name nm (k @ 61 # v @ 0 # rest) = (n2, k2 @ 61 # v @ 0 # rest)"
    and k2: "set k2 \<subseteq> set k" "n2 = [] \<and> k2 = [] \<longleftrightarrow> nm = k"
    using match_name_key [OF assms(4,2)] by blast
  have "hd (k2 @ 61 # v @ 0 # rest) = 61 \<longleftrightarrow> k2 = []" using k2(1) assms(2) by (cases k2) auto
  moreover have "skip_entry (k2 @ 61 # v @ 0 # rest) = Inr rest"
    using skip_entry_end [of "k2 @ 61 # v" rest] k2(1) assms(1,3) by auto
  moreover obtain b es where "k @ 61 # v @ 0 # rest = b # es" "b \<noteq> 0" using assms(1) by (cases k) auto
  ultimately show ?thesis using m k2 assms(1) by (subst get_value.simps) (auto simp: Let_def)
qed

text \<open>
  the kernel finds every boot parameter: looking a name up in the strings of the boot
  monitor gives the value that belongs to its first occurrence, or nothing when there is none.
\<close>

theorem get_value_lookup:
  assumes "env_ok env" "61 \<notin> set nm"
  shows "\<exists>r. get_value nm (env_bytes env) = Inr r \<and> map_option c_string r = map_of env nm"
  using assms(1)
proof (induction env)
  case Nil
  then show ?case by (simp add: env_bytes_def get_value.simps)
next
  case (Cons kv env)
  obtain k v where [simp]: "kv = (k, v)" by (cases kv)
  have kv: "0 \<notin> set k" "61 \<notin> set k" "0 \<notin> set v" and ok: "env_ok env" using Cons.prems by (auto simp: env_ok_def)
  have e: "env_bytes ((k, v) # env) = k @ 61 # v @ 0 # env_bytes env" by (simp add: env_bytes_def)
  have "c_string (v @ 0 # env_bytes env) = v"
    using kv(3) by (simp add: c_string_def takeWhile_tail) (metis takeWhile_eq_all_conv)
  then show ?case using get_value_entry [OF kv assms(2), of "env_bytes env"] Cons.IH [OF ok] by (auto simp: e)
qed

theorem get_value_lookup_witness:
  "env_ok [([98, 117, 115], [97, 116])] \<and>
   (\<exists>r. get_value str_bus (env_bytes [([98, 117, 115], [97, 116])]) = Inr r \<and> map_option c_string r = Some [97, 116])"
  using get_value_lookup [of "[([98, 117, 115], [97, 116])]" str_bus] by (simp add: env_ok_def)

section \<open>The kernel starts in a good state\<close>

text \<open>
  The invariant of the loop of \<open>main\<close>: the slots \<open>A\<close> are set up and, but for \<open>HARDWARE\<close>, on the
  ready queues; the others are free; the privilege structures up to \<open>n\<close> are assigned.
\<close>

definition boot_flags :: "int set \<Rightarrow> int \<Rightarrow> u8" where
  "boot_flags A x = (if x \<in> A then if x = HARDWARE then NO_MAP else 0 else SLOT_FREE)"

definition boot_slot :: "int set \<Rightarrow> kstate \<Rightarrow> int \<Rightarrow> bool" where
  "boot_slot A s x \<longleftrightarrow> p_nr (proc_tab s x) = x \<and> p_caller_q (proc_tab s x) = None \<and>
     flags_of s x = boot_flags A x \<and>
     (x \<in> A \<longrightarrow> p_priv (proc_tab s x) \<noteq> None \<and> (x \<noteq> HARDWARE \<longrightarrow> can_sched s x))"

definition boot_inv :: "int set \<Rightarrow> nat \<Rightarrow> kstate \<Rightarrow> bool" where
  "boot_inv A n s \<longleftrightarrow> ready_set s (A - {HARDWARE}) \<and> (\<forall>x \<in> procs. boot_slot A s x) \<and>
     (\<forall>i < NR_SYS_PROCS. s_id (priv_tab s i) = i \<and> (0 < i \<longrightarrow> (s_proc_nr (priv_tab s i) = NONE \<longleftrightarrow> n < i)))"

lemma free_priv_boot: "boot_inv A n s \<Longrightarrow> n < 31 \<Longrightarrow> free_priv s = Some (n + 1)"
  unfolding free_priv_def find_Some_iff
proof (rule exI [of _ "n + 1"], intro conjI allI impI)
  assume inv: "boot_inv A n s" and n: "n < 31"
  have id: "s_id (priv_tab s i) = i" "0 < i \<Longrightarrow> s_proc_nr (priv_tab s i) = NONE \<longleftrightarrow> n < i" if "i < 32" for i
    using inv that by (simp_all add: boot_inv_def)
  show "s_proc_nr (priv_tab s ([0..<32] ! (n + 1))) = NONE" "s_id (priv_tab s ([0..<32] ! (n + 1))) \<noteq> 0"
    using n id [of "n + 1"] by simp_all
  show "\<not> (s_proc_nr (priv_tab s ([0..<32] ! j)) = NONE \<and> s_id (priv_tab s ([0..<32] ! j)) \<noteq> 0)"
    if "j < n + 1" for j using n that id [of j] by (cases "j = 0") auto
qed simp_all

definition row_ok :: "boot_image \<Rightarrow> bool" where
  "row_ok ip \<longleftrightarrow> isokprocn (bi_proc_nr ip) \<and> is_q (bi_priority ip) \<and>
     (iskerneln (bi_proc_nr ip) \<and> bi_proc_nr ip \<noteq> HARDWARE \<longrightarrow> bi_stksize ip > 0)"

definition is_sys :: "boot_image \<Rightarrow> bool" where
  "is_sys ip \<longleftrightarrow> bi_flags ip AND SYS_PROC \<noteq> 0"

text \<open>The state after the attributes and the registers: one slot and one privilege structure changed.\<close>

lemma boot_attr_ok:
  assumes inv: "boot_inv A n s" and row: "row_ok ip" and n: "is_sys ip \<Longrightarrow> n < 31"
  defines "rp \<equiv> bi_proc_nr ip" and "i \<equiv> (if is_sys ip then n + 1 else 0)"
  shows "\<exists>p v. boot_attr hw ip s = Inr (set_priv i v (set_proc rp p s)) \<and>
    p_nr p = rp \<and> p_caller_q p = None \<and> p_priv p = Some i \<and> prio_ok p \<and>
    s_id v = i \<and> (s_proc_nr v = (if is_sys ip then rp else INIT_PROC_NR)) \<and>
    (s_guard_ok (priv_tab s i) \<longrightarrow> s_guard_ok v) \<and> (iskerneln rp \<and> rp \<noteq> HARDWARE \<longrightarrow> s_guard_ok v)"
proof -
  have rp: "isokprocn rp" "boot_slot A s rp" "prio_ok (p\<lparr>p_priority := bi_priority ip, p_max_priority := bi_priority ip\<rparr>)" for p
    using inv row by (auto simp: row_ok_def rp_def boot_inv_def procs_def prio_ok_def)
  let ?p = "(proc_tab s rp)\<lparr>p_max_priority := bi_priority ip, p_priority := bi_priority ip,
                p_quantum_size := bi_quantum ip, p_ticks_left := bi_quantum ip,
                p_name := take 8 (bi_name ip @ replicate 8 0)\<rparr>"
  have fp: "free_priv (set_proc rp ?p s) = (if is_sys ip then Some i else free_priv s)"
    using free_priv_boot [OF inv n] by (simp add: free_priv_def i_def)
  have id: "s_id (priv_tab s i) = i" using inv n by (auto simp: boot_inv_def i_def)
  let ?v = "(priv_tab s i)\<lparr>s_proc_nr := (if is_sys ip then rp else INIT_PROC_NR), s_flags := bi_flags ip,
      s_trap_mask := bi_trap_mask ip, s_call_mask := bi_call_mask ip,
      s_ipc_to := (s_ipc_to (priv_tab s i))(0 := bi_ipc_to ip),
      s_guard_ok := (if iskerneln rp \<and> bi_stksize ip > 0 then True else s_guard_ok (priv_tab s i))\<rparr>"
  have "boot_attr hw ip s = Inr (set_priv i ?v (set_proc rp (?p\<lparr>p_priv := Some i\<rparr>) s))"
    using rp(1,2) fp unfolding boot_attr_def rp_def [symmetric] is_sys_def [symmetric]
    by (cases "is_sys ip") (simp_all add: get_priv_def Let_def priv_of_def boot_slot_def i_def)
  then show ?thesis
    using rp row id by (intro exI conjI) (assumption, auto simp: boot_slot_def row_ok_def prio_ok_def rp_def)
qed

lemma boot_inv_cong:
  assumes inv: "boot_inv A n s" and "rdy_head s' = rdy_head s" "rdy_tail s' = rdy_tail s" "next_ptr s' = next_ptr s"
    and view: "\<And>x. sched_view (proc_tab s' x) = sched_view (proc_tab s x) \<and> p_caller_q (proc_tab s' x) = p_caller_q (proc_tab s x)"
    and priv: "priv_tab s' = priv_tab s"
  shows "boot_inv A n s'"
proof -
  have v: "nextr s' x = nextr s x" "prio s' x = prio s x" "flags_of s' x = flags_of s x"
    "p_max_priority (proc_tab s' x) = p_max_priority (proc_tab s x)"
    "p_priv (proc_tab s' x) = p_priv (proc_tab s x)" "p_nr (proc_tab s' x) = p_nr (proc_tab s x)"
    "p_caller_q (proc_tab s' x) = p_caller_q (proc_tab s x)" for x
    using view [of x] by (simp_all add: sched_view_def)
  have "ready_set s' R = ready_set s R" for R
    using assms(2-4) by (rule ready_set_update) (simp add: v)
  then show ?thesis using inv by (simp add: boot_inv_def boot_slot_def can_sched_def prio_ok_def guard_intact_def v priv)
qed

text \<open>A slot outside the queues is prepared: the queues and the other slots stay as they are.\<close>

lemma boot_prepare:
  assumes inv: "boot_inv A n s" and rp: "rp \<in> procs" "rp \<notin> A"
    and p: "p_nr p = rp" "p_caller_q p = None" "p_priv p = Some i" "prio_ok p"
    and v: "s_guard_ok (priv_tab s i) \<longrightarrow> s_guard_ok v" "iskerneln rp \<and> rp \<noteq> HARDWARE \<longrightarrow> s_guard_ok v"
  defines "s2 \<equiv> set_priv i v (set_proc rp p s)"
  shows "ready_set s2 (A - {HARDWARE})" "y \<in> A \<Longrightarrow> y \<in> procs \<Longrightarrow> y \<noteq> HARDWARE \<Longrightarrow> can_sched s2 y"
    "rp \<noteq> HARDWARE \<Longrightarrow> can_sched s2 rp"
proof -
  have "ready_set s (A - {HARDWARE})" using inv by (simp add: boot_inv_def)
  then show "ready_set s2 (A - {HARDWARE})" by (rule ready_set_cong) (use rp in \<open>auto simp: s2_def\<close>)
  show "can_sched s2 y" if "y \<in> A" "y \<in> procs" "y \<noteq> HARDWARE"
  proof -
    have "can_sched s y" "y \<noteq> rp" using inv that rp by (auto simp: boot_inv_def boot_slot_def)
    then show ?thesis using v(1) by (auto simp: can_sched_def guard_intact_def s2_def)
  qed
  show "can_sched s2 rp" if "rp \<noteq> HARDWARE"
    using that rp p v(2) by (simp add: can_sched_def guard_intact_def s2_def procs_def)
qed

lemma boot_enter:
  assumes inv: "boot_inv A n s" and rp: "rp \<in> procs" "rp \<notin> A"
    and p: "p_nr p = rp" "p_caller_q p = None" "p_priv p = Some i" "prio_ok p"
      "p_rts_flags p = boot_flags (insert rp A) rp"
    and v: "s_guard_ok (priv_tab s i) \<longrightarrow> s_guard_ok v" "iskerneln rp \<and> rp \<noteq> HARDWARE \<longrightarrow> s_guard_ok v"
      "s_id v = i" "s_proc_nr v \<noteq> NONE" and i: "i = n + 1 \<and> n' = n + 1 \<or> i = 0 \<and> n' = n"
  defines "s2 \<equiv> set_priv i v (set_proc rp p s)"
  shows "\<exists>s3. (if rp \<noteq> HARDWARE then enqueue rp s2 else Inr s2) = Inr s3 \<and> boot_inv (insert rp A) n' s3"
proof -
  note prep = boot_prepare [OF inv rp p(1-4) v(1,2), folded s2_def]
  have "rp \<notin> A - {HARDWARE}" using rp by simp
  then have "\<exists>s3. (if rp \<noteq> HARDWARE then enqueue rp s2 else Inr s2) = Inr s3 \<and> sched_frame s2 s3 \<and>
      ready_set s3 (insert rp A - {HARDWARE}) \<and> (\<forall>y. can_sched s2 y \<longrightarrow> can_sched s3 y)"
    using enqueue_ready [OF prep(1) _ prep(3)] prep(1) by (cases "rp = HARDWARE") (auto simp: insert_Diff_if)
  then obtain s3 where s3: "(if rp \<noteq> HARDWARE then enqueue rp s2 else Inr s2) = Inr s3" "sched_frame s2 s3"
    "ready_set s3 (insert rp A - {HARDWARE})" "\<And>y. can_sched s2 y \<Longrightarrow> can_sched s3 y" by blast
  note fr = sched_frame_proc [OF s3(2)]
  have "boot_slot (insert rp A) s3 x" if x: "x \<in> procs" for x
  proof (cases "x = rp")
    case True
    then show ?thesis using fr(4,5,6,12) [of x] p prep(3) s3(4) by (simp add: boot_slot_def s2_def)
  next
    case False
    then have "boot_slot A s x" "proc_tab s2 x = proc_tab s x" using inv x by (simp_all add: boot_inv_def s2_def)
    then show ?thesis using fr(4,5,6,12) [of x] False prep(2) [of x] s3(4) x
      by (simp add: boot_slot_def boot_flags_def)
  qed
  moreover have "s_id (priv_tab s3 j) = j \<and> (0 < j \<longrightarrow> (s_proc_nr (priv_tab s3 j) = NONE \<longleftrightarrow> n' < j))" if "j < 32" for j
    using inv that i v(3,4) sched_frameD(1) [OF s3(2)] by (auto simp: boot_inv_def s2_def)
  ultimately show ?thesis using s3(1,3) by (auto simp: boot_inv_def)
qed

lemma tab_comm: "s\<lparr>priv_tab := f, proc_tab := g\<rparr> = s\<lparr>proc_tab := g, priv_tab := f\<rparr>"
  by (cases s) simp

lemma boot_regs_slot:
  "\<exists>ktsb1 mm r. boot_regs lay k ip ktsb s = (ktsb1, set_proc (bi_proc_nr ip)
     ((proc_tab s (bi_proc_nr ip))\<lparr>p_memmap := mm, p_reg := r\<rparr>) s)"
  unfolding boot_regs_def Let_def by blast

lemma boot_proc_ok:
  assumes inv: "boot_inv A n s" and row: "row_ok ip" and n: "is_sys ip \<Longrightarrow> n < 31" and new: "bi_proc_nr ip \<notin> A"
  shows "\<exists>r. boot_proc hw lay k ip (ktsb, s) = Inr r \<and>
    boot_inv (insert (bi_proc_nr ip) A) (if is_sys ip then n + 1 else n) (snd r)"
proof -
  define rp where "rp = bi_proc_nr ip"
  define i where "i = (if is_sys ip then n + 1 else 0)"
  from boot_attr_ok [OF inv row n, of hw, folded rp_def i_def] obtain p v where
    s1: "boot_attr hw ip s = Inr (set_priv i v (set_proc rp p s))" and
    p: "p_nr p = rp" "p_caller_q p = None" "p_priv p = Some i" "prio_ok p" and
    v: "s_id v = i" "s_proc_nr v = (if is_sys ip then rp else INIT_PROC_NR)"
      "s_guard_ok (priv_tab s i) \<longrightarrow> s_guard_ok v" "iskerneln rp \<and> rp \<noteq> HARDWARE \<longrightarrow> s_guard_ok v" by blast
  obtain ktsb1 mm r where rg: "boot_regs lay k ip ktsb (set_priv i v (set_proc rp p s)) =
      (ktsb1, set_priv i v (set_proc rp (p\<lparr>p_memmap := mm, p_reg := r\<rparr>) s))"
    using boot_regs_slot [of lay k ip ktsb "set_priv i v (set_proc rp p s)"]
    by (auto simp: rp_def [symmetric] tab_comm)
  let ?p = "p\<lparr>p_memmap := mm, p_reg := r, p_rts_flags := boot_flags (insert rp A) rp\<rparr>"
  let ?s = "set_priv i v (set_proc rp ?p s)"
  have rp: "rp \<in> procs" "rp \<notin> A" "rp < 64"
    using row new by (simp_all add: row_ok_def procs_def rp_def isokprocn_bounds)
  have pq: "p_nr ?p = rp" "p_caller_q ?p = None" "p_priv ?p = Some i" "prio_ok ?p"
    "p_rts_flags ?p = boot_flags (insert rp A) rp" using p by (simp_all add: prio_ok_def)
  have nn: "s_proc_nr v \<noteq> NONE" "i = n + 1 \<and> (if is_sys ip then n + 1 else n) = n + 1 \<or>
      i = 0 \<and> (if is_sys ip then n + 1 else n) = n" using v(2) rp(3) by (simp_all add: i_def)
  from boot_enter [OF inv rp(1,2) pq v(3,4,1) nn] obtain s3 where
    s3: "(if rp \<noteq> HARDWARE then enqueue rp ?s else Inr ?s) = Inr s3"
    "boot_inv (insert rp A) (if is_sys ip then n + 1 else n) s3" by blast
  have "boot_inv (insert rp A) (if is_sys ip then n + 1 else n) (alloc_segments rp s3)"
    using s3(2) by (rule boot_inv_cong) (use alloc_segments_view [of rp s3] in \<open>simp_all add: ipc_view_def\<close>)
  moreover have "boot_proc hw lay k ip (ktsb, s) = Inr (ktsb1, alloc_segments rp s3)"
    using s1 rg s3(1) p(1) by (auto simp: boot_proc_def Let_def rp_def [symmetric] lock_enqueue_def boot_flags_def tab_comm split: if_splits)
  ultimately show ?thesis by (simp add: rp_def)
qed

lemma length_image [simp]: "length image = 12"
  by (simp add: image_def)

lemma image_rows:
  assumes "k < 12"
  shows "row_ok (image ! k)" "is_sys (image ! k) \<longleftrightarrow> k < 11"
    "bi_proc_nr (image ! k) \<notin> bi_proc_nr ` set (take k image)"
proof -
  have "k \<in> {0, 1, 2, 3, 4, 5, 6, 7, 8, 9, 10, 11}" using assms by (simp only: insert_iff empty_iff) arith
  then show "row_ok (image ! k)" "is_sys (image ! k) \<longleftrightarrow> k < 11"
    "bi_proc_nr (image ! k) \<notin> bi_proc_nr ` set (take k image)"
    by (auto simp: image_def row_def row_ok_def is_sys_def isokprocn_bounds iskerneln_def)
qed

lemma boot_all:
  assumes "j \<le> 12" "boot_inv (bi_proc_nr ` set (take j image)) (min j 11) s"
  shows "\<exists>r. for_each (\<lambda>k. boot_proc hw lay k (image ! k)) [j..<12] (ktsb, s) = Inr r \<and>
    boot_inv (bi_proc_nr ` set image) 11 (snd r)"
  using assms
proof (induction "12 - j" arbitrary: j s ktsb)
  case 0
  then show ?case by simp
next
  case (Suc m)
  then have j: "j < 12" by simp
  note row = image_rows [OF j]
  have n: "is_sys (image ! j) \<Longrightarrow> min j 11 < 31" by simp
  from boot_proc_ok [OF Suc.prems(2) row(1) n row(3)] obtain r where
    r: "boot_proc hw lay j (image ! j) (ktsb, s) = Inr r"
    "boot_inv (insert (bi_proc_nr (image ! j)) (bi_proc_nr ` set (take j image))) (if j < 11 then min j 11 + 1 else min j 11) (snd r)"
    unfolding row(2) by blast
  have "insert (bi_proc_nr (image ! j)) (bi_proc_nr ` set (take j image)) = bi_proc_nr ` set (take (Suc j) image)"
    using j by (simp add: take_Suc_conv_app_nth)
  moreover have "(if j < 11 then min j 11 + 1 else min j 11) = min (Suc j) 11" by auto
  ultimately have "boot_inv (bi_proc_nr ` set (take (Suc j) image)) (min (Suc j) 11) (snd r)" using r(2) by simp
  from Suc.hyps(1) [of "Suc j" "snd r" "fst r"] this Suc.hyps(2) j r(1) show ?case
    by (simp add: upt_rec [of j])
qed

definition blank_queues :: "kstate \<Rightarrow> bool" where
  "blank_queues s \<longleftrightarrow> rdy_head s = (\<lambda>_. None) \<and> rdy_tail s = (\<lambda>_. None) \<and> (\<forall>x. p_caller_q (proc_tab s x) = None)"

lemma boot_start: "blank_queues s \<Longrightarrow> boot_inv {} 0 (clear_tables s)"
proof -
  assume b: "blank_queues s"
  have q: "queued (\<lambda>_. []) = {}" by (simp add: queued_def)
  have "rq_rep (clear_tables s) (\<lambda>_. [])"
    using b by (simp add: rq_rep_def queue_rep_def clear_tables_def blank_queues_def)
  moreover have "next_ok (clear_tables s) (\<lambda>_. [])"
    using q by (simp add: next_ok_def first_ready_None [THEN iffD2])
  moreover note q
  ultimately have "ready_set (clear_tables s) {}" unfolding ready_set_def by blast
  with b show ?thesis
    by (simp add: boot_inv_def boot_slot_def boot_flags_def clear_tables_def procs_def blank_queues_def)
qed


lemma boot_inv_kwf:
  assumes inv: "boot_inv A n s" and hw: "HARDWARE \<in> A" and A: "A \<subseteq> procs"
  shows "kwf s" "x \<in> procs \<Longrightarrow> alive s x \<longleftrightarrow> x \<in> A" "x \<in> A \<Longrightarrow> has_priv s x"
proof -
  have slot: "boot_slot A s x" if "x \<in> procs" for x using inv that by (simp add: boot_inv_def)
  have fl: "flags_of s x = boot_flags A x" if "x \<in> procs" for x using slot [OF that] by (simp add: boot_slot_def)
  show alive: "x \<in> procs \<Longrightarrow> alive s x \<longleftrightarrow> x \<in> A" for x using fl by (simp add: boot_flags_def)
  show "x \<in> A \<Longrightarrow> has_priv s x" using slot A by (auto simp: has_priv_def boot_slot_def)
  have "{x \<in> procs. flags_of s x = 0} = A - {HARDWARE}" using fl A by (auto simp: boot_flags_def split: if_splits)
  moreover have "HARDWARE \<in> procs" by (simp add: procs_def)
  ultimately have "sched_wf s"
    using inv fl [of HARDWARE] hw slot alive by (auto simp: sched_wf_def boot_inv_def slot_ok_def boot_flags_def boot_slot_def)
  moreover have idle: "\<not> sending s x" "\<not> receiving s x" if "x \<in> procs" for x using fl [OF that] by (auto simp: boot_flags_def)
  then have "callers_rep s (\<lambda>_. [])" using slot by (auto simp: callers_rep_def boot_slot_def)
  moreover have "send_edges s = {}" using idle by (auto simp: send_edges_def)
  ultimately show "kwf s" using idle unfolding kwf_def ipc_wf_def by (simp only: acyclic_def) auto
qed

text \<open>
  C17: \<open>main\<close> always comes to the point where it starts the first process, and then the
  invariant of the kernel holds: the slots in use are the processes of the boot image, all
  but \<open>HARDWARE\<close> are on the ready queues, and all are able to communicate. The hypothesis is
  what the C runtime gives: the pointers of the queues are null when the kernel starts.
\<close>

theorem main_boot_establishes:
  assumes "blank_queues s"
  shows "\<exists>s'. main_boot hw lay s = Inr s' \<and> kwf s' \<and>
    (\<forall>x \<in> procs. alive s' x \<longleftrightarrow> x \<in> bi_proc_nr ` set image)"
proof -
  let ?A = "bi_proc_nr ` set image"
  have "blank_queues (intr_init True s)" using assms by (simp add: blank_queues_def intr_init_def Let_def outb_def)
  from boot_start [OF this] have "boot_inv (bi_proc_nr ` set (take 0 image)) (min 0 11) (clear_tables (intr_init True s))" by simp
  from boot_all [OF _ this, of hw lay "lay_stack lay"] obtain k s1 where
    s1: "for_each (\<lambda>k. boot_proc hw lay k (image ! k)) [0..<12] (lay_stack lay, clear_tables (intr_init True s)) = Inr (k, s1)"
    "boot_inv ?A 11 s1" by fastforce
  have A: "HARDWARE \<in> ?A" "?A \<subseteq> procs" "LOG_PROC_NR \<in> ?A" "SYSTEM \<in> ?A"
    by (auto simp: image_def row_def procs_def isokprocn_bounds)
  let ?s = "s1\<lparr>shutdown_started := False, bill_ptr := Some IDLE\<rparr>"
  have inv: "boot_inv ?A 11 ?s" using s1(2) by (rule boot_inv_cong) auto
  note b = boot_inv_kwf [OF inv A(1,2)]
  from kprintf_ok [OF b(1) b(3) [OF A(3)] b(3) [OF A(4)]]
  have first: "\<exists>s2. kprintf fmt args ?s = Inr s2 \<and> kwf s2 \<and> keeps ?s s2" for fmt args .
  have second: "\<exists>s3. kprintf fmt args s2 = Inr s3 \<and> kwf s3 \<and> keeps ?s s3" if "kwf s2" "keeps ?s s2" for fmt args s2
    using kprintf_ok [OF that(1), of fmt args] b(3) [OF A(3)] b(3) [OF A(4)] that(2) keeps_trans [OF that(2)]
    unfolding has_priv_keeps [OF that(2)] by blast
  have "\<exists>s'. main_boot hw lay s = Inr s' \<and> kwf s' \<and> keeps ?s s'"
    unfolding main_boot_def length_image s1(1) bindr_simps prod.case
    by (rule bindr_ok [where P = "\<lambda>s2. kwf s2 \<and> keeps ?s s2"]) (use first second in blast)+
  then obtain s' where "main_boot hw lay s = Inr s'" "kwf s'" "keeps ?s s'" by blast
  moreover have "alive s' x \<longleftrightarrow> x \<in> ?A" if "x \<in> procs" for x
    using \<open>keeps ?s s'\<close> b(2) [OF that] by (simp add: keeps_def)
  ultimately show ?thesis by blast
qed

definition sample_layout :: layout where
  "sample_layout = \<lparr>lay_etext = 0, lay_end = 0, lay_gdt = 0, lay_idt = 0, lay_tss = 0, lay_ldt = (\<lambda>_. 0),
     lay_gate = (\<lambda>_. 0), lay_stack = 0, lay_pc = (\<lambda>_. 0), lay_aout = 0\<rparr>"

theorem main_boot_establishes_witness:
  "\<exists>s'. main_boot sample_hw sample_layout (sample\<lparr>rdy_head := (\<lambda>_. None), rdy_tail := (\<lambda>_. None)\<rparr>) = Inr s' \<and>
    kwf s' \<and> alive s' INIT_PROC_NR \<and> \<not> alive s' 8"
proof -
  let ?s = "sample\<lparr>rdy_head := (\<lambda>_. None), rdy_tail := (\<lambda>_. None)\<rparr>"
  have "blank_queues ?s" by (simp add: blank_queues_def sample_def sample_proc_def)
  from main_boot_establishes [OF this, of sample_hw sample_layout] obtain s' where
    s': "main_boot sample_hw sample_layout ?s = Inr s'" "kwf s'"
    "\<forall>x \<in> procs. alive s' x \<longleftrightarrow> x \<in> bi_proc_nr ` set image" by blast
  have "alive s' 7" "\<not> alive s' 8"
    using s'(3) [rule_format, of 7] s'(3) [rule_format, of 8] by (simp_all add: procs_def isokprocn_bounds image_def row_def)
  with s' show ?thesis by blast
qed

end
