(* ===== verification/Pm_Main.thy ===== *)
theory Pm_Main
  imports Pm_Exec Boot
begin

unbundle bit_operations_syntax

text \<open>
  The main loop of the process manager and its initialization (\<open>main.c\<close>, \<open>table.c\<close>), and what
  runs in every round of it: swapping processes in (\<open>swap_in\<close>, \<open>swap_off\<close> of \<open>alloc.c\<close>) and the
  control calls (\<open>do_svrctl\<close> of \<open>misc.c\<close>).
\<close>

section \<open>Swapping in\<close>

definition swap_in_one :: "pm_env \<Rightarrow> int loc \<Rightarrow> int \<Rightarrow> u32 \<Rightarrow> u32 \<Rightarrow> pmstate \<Rightarrow> pmstate res" where
  "swap_in_one env pmp rmp sz new_base s =
     (let old_base = mem_phys (mp_seg (mpr s rmp) D_seg);
          s1 = newmap rmp (upd_mp rmp (set_data_phys new_base) s);
          off = swap_offset s1 + push_bit CLICK_SHIFT (old_base - swap_base s1);
          s2 = rw_seg env 0 (swap_fd s1) rmp D_seg (push_bit CLICK_SHIFT sz) (tell (FsLseek (swap_fd s1) off) s1)
      in bindr (free_mem old_base sz s2) (\<lambda>s3.
         let s4 = set_mfl rmp (mfl s3 rmp AND NOT (ONSWAP OR SWAPIN)) s3
         in check_pending env rmp (sq_put pmp (mp_swapq (mpr s4 rmp)) s4)))"

text \<open>The loop over the queue; \<open>pmp\<close> is the link that is looked at.\<close>

partial_function (option) swap_in_from :: "pm_env \<Rightarrow> int loc \<Rightarrow> pmstate \<Rightarrow> pmstate res option" where
  "swap_in_from env pmp s =
     (case sq_get pmp s of
        None \<Rightarrow> Some (Inr s)
      | Some rmp \<Rightarrow>
          if mfl s rmp AND SWAPIN = 0 then swap_in_from env pmp (sq_put pmp (mp_swapq (mpr s rmp)) s)
          else (case alloc_mem env (prog_size (mpr s rmp)) s of
                  None \<Rightarrow> Some (Inl Hang)
                | Some (Inl e) \<Rightarrow> Some (Inl e)
                | Some (Inr (new_base, s1)) \<Rightarrow>
                    if new_base = NO_MEM then swap_in_from env (Next rmp) s1
                    else (case swap_in_one env pmp rmp (prog_size (mpr s rmp)) new_base s1 of
                            Inl e \<Rightarrow> Some (Inl e)
                          | Inr s2 \<Rightarrow> swap_in_from env pmp s2)))"

definition swap_in :: "pm_env \<Rightarrow> pmstate \<Rightarrow> pmstate res" where
  "swap_in env s = (case swap_in_from env Head s of None \<Rightarrow> Inl Hang | Some r \<Rightarrow> r)"

text \<open>
  The loop of \<open>swap_off\<close> that removes the swap hole. After a removal it goes on behind the first
  hole, also when there is none; the pointer to the previous hole is not initialized.
\<close>

partial_function (option) del_swap_holes :: "nat option \<Rightarrow> nat option \<Rightarrow> pmstate \<Rightarrow> pmstate res option" where
  "del_swap_holes prev hp s =
     (case hp of
        None \<Rightarrow> Some (Inr s)
      | Some h \<Rightarrow>
          if h_base (hole_tab s h) \<ge> swap_base s
          then (case del_slot prev h s of
                  Inl e \<Rightarrow> Some (Inl e)
                | Inr s1 \<Rightarrow> (case hole_head s1 of
                    None \<Rightarrow> Some (Inl NullDeref)
                  | Some h1 \<Rightarrow> del_swap_holes (Some h1) (h_next (hole_tab s1 h1)) s1))
          else del_swap_holes (Some h) (h_next (hole_tab s h)) s)"

fun queue_swapped :: "int list \<Rightarrow> pmstate \<Rightarrow> pmstate res" where
  "queue_swapped [] s = Inr s"
| "queue_swapped (n # ns) s =
     bindr (if mfl s n AND ONSWAP \<noteq> 0 then swap_inqueue n s else Inr s) (queue_swapped ns)"

definition swap_off :: "pm_env \<Rightarrow> pm_call" where
  "swap_off env s =
     (if swap_fd s = - 1 then Inr (OK, s)
      else bindr (queue_swapped slots s) (\<lambda>s1.
           bindr (swap_in env s1) (\<lambda>s2.
           if list_ex (\<lambda>n. mfl s2 n AND ONSWAP \<noteq> 0) slots then Inr (ENOMEM, s2)
           else case del_swap_holes None (hole_head s2) s2 of
                  None \<Rightarrow> Inl Hang
                | Some r \<Rightarrow> bindr r (\<lambda>s3. Inr (OK, (tell (FsClose (swap_fd s3)) s3)\<lparr>swap_fd := - 1\<rparr>)))))"

section \<open>Control calls\<close>

abbreviation (input) MMGETPARAM :: u32 where "MMGETPARAM \<equiv> 0x40104D05"
abbreviation (input) MMSETPARAM :: u32 where "MMSETPARAM \<equiv> 0x80104D07"
abbreviation (input) MMSWAPON :: u32 where "MMSWAPON \<equiv> 0x40884D05"
abbreviation (input) MMSWAPOFF :: u32 where "MMSWAPOFF \<equiv> 0x20004D06"
abbreviation (input) MAX_LOCAL_PARAMS :: nat where "MAX_LOCAL_PARAMS \<equiv> 2"
abbreviation (input) ENOSPC :: int where "ENOSPC \<equiv> - 28"
abbreviation (input) E2BIG :: int where "E2BIG \<equiv> - 7"

text \<open>The code of \<open>find_param\<close> is that of \<open>get_value\<close> in the kernel.\<close>

definition find_param :: "u8 list \<Rightarrow> pmstate \<Rightarrow> u8 list option res" where
  "find_param name s = get_value name (monitor_params s)"

record sysgetenv =
  ge_key :: u32
  ge_keylen :: u32
  ge_val :: u32
  ge_vallen :: u32

text \<open>
  Overriding a parameter. Both copies take the length of the key; the buffers have 30 bytes and
  are zero at first.
\<close>

definition set_param :: "pm_env \<Rightarrow> sysgetenv \<Rightarrow> pm_call" where
  "set_param env g s =
     (let who = pm_who s; kl = unat (ge_keylen g); vl = unat (ge_vallen g) in
      if length (local_params s) \<ge> MAX_LOCAL_PARAMS then Inr (ENOSPC, s)
      else if kl = 0 \<or> kl \<ge> 30 \<or> vl = 0 \<or> vl \<ge> 30 then Inr (EINVAL, s)
      else let ((r, ks), s1) = ask env (CopyIn who (ge_key g) (ge_keylen g)) s in
      if r \<noteq> OK then Inr (r, s1)
      else let ((r2, vs), s2) = ask env (CopyIn who (ge_val g) (ge_keylen g)) s1 in
      if r2 \<noteq> OK then Inr (r2, s2)
      else let name = (put_bytes 0 (answer_bytes kl ks) (replicate 30 0))[kl := 0];
               val = (put_bytes 0 (answer_bytes kl vs) (replicate 30 0))[vl := 0]
           in Inr (OK, s2\<lparr>local_params := local_params s2 @ [(name, val)]\<rparr>))"

definition param_value :: "u8 list \<Rightarrow> pmstate \<Rightarrow> u8 list option res" where
  "param_value key s =
     (case find (\<lambda>(name, _). cstring name = key) (local_params s) of
        Some (_, v) \<Rightarrow> Inr (Some (cstring v))
      | None \<Rightarrow> bindr (find_param key s) (\<lambda>r. Inr (map_option cstring r)))"

definition copy_value :: "pm_env \<Rightarrow> sysgetenv \<Rightarrow> u8 list \<Rightarrow> pm_call" where
  "copy_value env g v s =
     (if length v > unat (ge_vallen g) then Inr (E2BIG, s)
      else let ((r, _), s1) = ask env (CopyOutBytes (pm_who s) (ge_val g) v) s in Inr (r, s1))"

definition get_param :: "pm_env \<Rightarrow> sysgetenv \<Rightarrow> pm_call" where
  "get_param env g s =
     (let kl = unat (ge_keylen g) in
      if kl = 0 then copy_value env g (take 512 (monitor_params s)) s
      else if kl > 64 then Inr (EINVAL, s)
      else let ((r, ks), s1) = ask env (CopyIn (pm_who s) (ge_key g) (ge_keylen g)) s in
      if r \<noteq> OK then Inr (r, s1)
      else bindr (param_value (cstring (take (kl - 1) (answer_bytes kl ks))) s1) (\<lambda>v.
           case v of None \<Rightarrow> Inr (ESRCH, s1) | Some w \<Rightarrow> copy_value env g (w @ [0]) s1))"

definition do_svrctl :: "pm_env \<Rightarrow> pm_call" where
  "do_svrctl env s =
     (let req = m_w (pm_in s) 0; ptr = m_w (pm_in s) 5; who = pm_who s;
          root = (mp_effuid (mpr s (pm_mp s)) = SUPER_USER)
      in if drop_bit 8 req AND 0xFF \<noteq> 77 then Inr (EINVAL, s)
         else if req = MMSETPARAM \<or> req = MMGETPARAM
         then let ((r, ws), s1) = ask env (CopyIn who ptr 16) s;
                  g = \<lparr>ge_key = word_at ws 0, ge_keylen = word_at ws 1, ge_val = word_at ws 2, ge_vallen = word_at ws 3\<rparr>
              in if r \<noteq> OK then Inr (EFAULT, s1)
                 else (if req = MMSETPARAM then set_param else get_param) env g s1
         else if req = MMSWAPON
         then if \<not> root then Inr (EPERM, s)
              else let ((r, ws), s1) = ask env (CopyIn who ptr 136) s
                   in if r \<noteq> OK then Inr (EFAULT, s1)
                      else swap_on env (cstring (answer_bytes 128 (drop 2 ws))) (word_at ws 0) (word_at ws 1) s1
         else if req = MMSWAPOFF
         then if \<not> root then Inr (EPERM, s) else swap_off env s
         else Inr (EINVAL, s))"

section \<open>The calls\<close>

definition no_sys :: pm_call where
  "no_sys s = Inr (ENOSYS, s)"

definition pm_call_vec :: "pm_env \<Rightarrow> int \<Rightarrow> pm_call" where
  "pm_call_vec env n =
     (if n = 1 then do_pm_exit env else if n = 2 then do_fork_pm env else if n = 7 \<or> n = 11 then do_waitpid
      else if n = 13 \<or> n = 90 then do_time env else if n = 17 then do_brk env
      else if n \<in> {20, 23, 24, 46, 47, 62, 63} then do_getset else if n = 25 then do_stime env
      else if n = 26 then do_trace_pm env else if n = 27 then do_alarm env else if n = 29 then do_pause
      else if n = 37 then do_kill_pm env else if n = 43 then do_times_pm env else if n = 59 then do_exec_pm env
      else if n = 71 then do_sigaction env else if n = 72 then do_sigsuspend env else if n = 73 then do_sigpending
      else if n = 74 then do_sigprocmask env else if n = 75 then do_sigreturn_pm env else if n = 76 then do_reboot env
      else if n = 77 then do_svrctl env else if n = 79 then do_getsysinfo env else if n = 80 then do_getprocnr env
      else if n = 83 then do_allocmem env else if n = 84 then do_freemem
      else if n = 88 \<or> n = 89 then do_getsetpriority env else no_sys)"

section \<open>The main loop\<close>

abbreviation (input) NCALLS :: int where "NCALLS \<equiv> 91"
abbreviation (input) SIGKSIG :: int where "SIGKSIG \<equiv> 19"

definition get_work :: "message \<Rightarrow> pmstate \<Rightarrow> pmstate res" where
  "get_work m s =
     bindr (mproc_at (if m_source m < 0 then PM_PROC_NR else m_source m)) (\<lambda>n.
     Inr (s\<lparr>pm_in := m, pm_who := m_source m, pm_call_nr := m_type m, pm_mp := n\<rparr>))"

definition pm_serve :: "pm_env \<Rightarrow> pm_call" where
  "pm_serve env s =
     (if pm_call_nr s = NOTIFY_FROM CLOCK
      then bindr (pm_expire_timers env (pm_arg s 4) s) (\<lambda>s1. Inr (SUSPEND, s1))
      else if pm_call_nr s = NOTIFY_FROM SYSTEM
      then bindr (if sigin (m_w (pm_in s) 3) SIGKSIG then ksig_pending env s else Inr (OK, s)) (\<lambda>(_, s1). Inr (SUSPEND, s1))
      else if pm_call_nr s < 0 \<or> pm_call_nr s \<ge> NCALLS then Inr (ENOSYS, s)
      else pm_call_vec env (pm_call_nr s) s)"

fun send_replies :: "pm_env \<Rightarrow> int list \<Rightarrow> pmstate \<Rightarrow> pmstate res" where
  "send_replies env [] s = Inr s"
| "send_replies env (n # ns) s =
     (if mfl s n AND (REPLY OR ONSWAP OR IN_USE OR ZOMBIE) = REPLY OR IN_USE
      then let ((r, _), s1) = ask env (SendTo n (mp_reply (mpr s n))) s
           in if r \<noteq> OK then Inl (Panic ''PM can't reply to'')
              else send_replies env ns (set_mfl n (mfl s1 n AND NOT REPLY) s1)
      else send_replies env ns s)"

text \<open>One round, for the message that \<open>receive\<close> returned.\<close>

definition pm_step :: "pm_env \<Rightarrow> message \<Rightarrow> pmstate \<Rightarrow> pmstate res" where
  "pm_step env m s =
     bindr (get_work m s) (\<lambda>s1.
     bindr (pm_serve env s1) (\<lambda>(result, s2).
     bindr (if result \<noteq> SUSPEND then setreply (pm_who s2) result s2 else Inr s2) (\<lambda>s3.
     bindr (swap_in env s3) (send_replies env slots))))"

section \<open>Initialization\<close>

definition get_nice_value :: "int \<Rightarrow> int" where
  "get_nice_value queue = (let v = cdiv ((queue - 7) * 41) 15 in if v > 20 then 20 else if v < - 20 then - 20 else v)"

text \<open>One pair of the boot variable, which reads \<open>base:size,base:size,...\<close> in hexadecimal.\<close>

definition parse_pair :: "u8 list \<Rightarrow> u32 \<times> u32 \<times> u8 list \<times> bool" where
  "parse_pair s =
     (let (base, e, _) = string2long s 16 False;
          s1 = (if e \<noteq> s \<and> e \<noteq> [] \<and> hd e = 58 then tl e else [0]);
          (sz, e1, _) = string2long s1 16 False
      in if e1 \<noteq> s1 \<and> e1 \<noteq> [] \<and> hd e1 = 44 then (base, sz, tl e1, False) else (base, sz, s1, True))"

definition chunk_clicks :: "u32 \<Rightarrow> u32 \<Rightarrow> u32 \<times> u32" where
  "chunk_clicks base sz =
     (let limit = (base + sz) AND NOT (CLICK_SIZE - 1); b = (base + CLICK_SIZE - 1) AND NOT (CLICK_SIZE - 1)
      in if sint limit \<le> sint b then (0, 0)
         else (signed_drop_bit CLICK_SHIFT b, signed_drop_bit CLICK_SHIFT (limit - b)))"

fun chunk_loop :: "nat \<Rightarrow> u8 list \<Rightarrow> (u32 \<times> u32) list" where
  "chunk_loop 0 s = []"
| "chunk_loop (Suc n) s =
     (if s = [] \<or> hd s = 0 then (0, 0) # chunk_loop n s
      else let (base, sz, s1, fin) = parse_pair s
           in chunk_clicks base sz # (if fin then replicate n (0, 0) else chunk_loop n s1))"

abbreviation (input) NR_MEMS :: nat where "NR_MEMS \<equiv> 8"

abbreviation (input) str_memory :: "u8 list" where
  "str_memory \<equiv> [109, 101, 109, 111, 114, 121]"

definition get_mem_chunks :: "pmstate \<Rightarrow> (u32 \<times> u32) list res" where
  "get_mem_chunks s = bindr (find_param str_memory s) (\<lambda>r.
     case r of None \<Rightarrow> Inl NullDeref | Some v \<Rightarrow> Inr (chunk_loop NR_MEMS v))"

definition patch_mem_chunks :: "(seg \<Rightarrow> mem_map) \<Rightarrow> (u32 \<times> u32) list \<Rightarrow> (u32 \<times> u32) list" where
  "patch_mem_chunks sg = map (\<lambda>(b, z).
     if b = mem_phys (sg T_seg)
     then (b + (mem_len (sg T_seg) + mem_len (sg D_seg)), z - (mem_len (sg T_seg) + mem_len (sg D_seg))) else (b, z))"

text \<open>The answer to \<open>sys_getproc\<close>: the stack pointer, then the nine words of the memory map.\<close>

definition get_mem_map_pm :: "pm_env \<Rightarrow> int \<Rightarrow> pmstate \<Rightarrow> int \<times> (seg \<Rightarrow> mem_map) \<times> pmstate" where
  "get_mem_map_pm env nr s =
     (let ((r, ws), s1) = ask env (SysGetproc nr) s;
          mm = (\<lambda>k. \<lparr>mem_vir = word_at ws (1 + 3 * k), mem_phys = word_at ws (2 + 3 * k), mem_len = word_at ws (3 + 3 * k)\<rparr>)
      in (r, case_seg (mm 0) (mm 1) (mm 2), s1))"

definition sig_set_of :: "int list \<Rightarrow> u32" where
  "sig_set_of sigs = fold (\<lambda>i st. sig_add st i) sigs sigemptyset"

definition boot_slot :: "boot_image \<Rightarrow> int \<Rightarrow> mproc \<Rightarrow> mproc" where
  "boot_slot ip pid p =
     (let p1 = p\<lparr>mp_name := take 16 (cstring (bi_name ip) @ replicate 16 0), mp_parent := 2,
                 mp_nice := get_nice_value (bi_priority ip), mp_pid := pid,
                 mp_sigmask := sigemptyset, mp_catch := sigemptyset, mp_sig2mess := sigemptyset\<rparr>
      in if bi_proc_nr ip = INIT_PROC_NR then p1\<lparr>mp_flags := mp_flags p1 OR IN_USE, mp_ignore := sigemptyset\<rparr>
         else p1\<lparr>mp_flags := mp_flags p1 OR (IN_USE OR DONT_SWAP OR PRIV_PROC), mp_ignore := sigfillset\<rparr>)"

fun init_procs :: "pm_env \<Rightarrow> boot_image list \<Rightarrow> (u32 \<times> u32) list \<Rightarrow> pmstate \<Rightarrow> ((u32 \<times> u32) list \<times> pmstate) res" where
  "init_procs env [] chunks s = Inr (chunks, s)"
| "init_procs env (ip # ips) chunks s =
     (if bi_proc_nr ip < 0 then init_procs env ips chunks s
      else bindr (mproc_at (bi_proc_nr ip)) (\<lambda>n.
           let s1 = s\<lparr>procs_in_use := procs_in_use s + 1\<rparr> in
           bindr (if n = INIT_PROC_NR then Inr (INIT_PID, s1)
                  else case get_free_pid s1 of None \<Rightarrow> Inl Hang | Some r \<Rightarrow> Inr r) (\<lambda>(pid, s2).
           let s3 = upd_mp n (boot_slot ip pid) s2; (r, sg, s4) = get_mem_map_pm env n s3 in
           if r \<noteq> OK then Inl (Panic ''couldn't get process entry'')
           else let s5 = upd_mp n (\<lambda>p. p\<lparr>mp_seg := sg,
                            mp_flags := (if mem_len (sg T_seg) \<noteq> 0 then mp_flags p OR SEPARATE else mp_flags p)\<rparr>) s4;
                    mess = \<lparr>m_source = 0, m_type = 0, m_w = (\<lambda>_. 0)(0 := word_of_int n, 2 := word_of_int pid)\<rparr>;
                    ((r2, _), s6) = ask env (SendTo 1 mess) s5
                in if r2 \<noteq> OK then Inl (Panic ''can't sync up with FS'')
                   else init_procs env ips (patch_mem_chunks sg chunks) s6)))"

text \<open>
  The boot device of the boot monitor, if any: its base and size in bytes (\<open>kinfo\<close>). The image
  table and the boot parameters are what the kernel copies out.
\<close>

definition bootdev_map :: "u32 \<Rightarrow> u32 \<Rightarrow> (seg \<Rightarrow> mem_map) \<Rightarrow> seg \<Rightarrow> mem_map" where
  "bootdev_map base sz sg = sg(T_seg := (sg T_seg)\<lparr>mem_phys := drop_bit CLICK_SHIFT base, mem_len := 0\<rparr>,
     D_seg := (sg D_seg)\<lparr>mem_len := to_clicks sz\<rparr>)"

definition pm_init :: "pm_env \<Rightarrow> u8 list \<Rightarrow> u32 \<times> u32 \<Rightarrow> boot_image list \<Rightarrow> pmstate \<Rightarrow> pmstate res" where
  "pm_init env params bootdev img s =
     (let s1 = s\<lparr>pm_timers := fold tmr_inittimer slots (pm_timers s),
                 core_sset := sig_set_of [3, 4, 5, 6, 7, 8, 10, 11, 12], ign_sset := sig_set_of [SIGCHLD],
                 monitor_params := params\<rparr>
      in bindr (get_mem_chunks s1) (\<lambda>chunks.
         let (r, sg, s2) = get_mem_map_pm env SYSTEM s1 in
         if r \<noteq> OK then Inl (Panic ''couldn't get memory map of SYSTASK'')
         else bindr (init_procs env img (patch_mem_chunks sg chunks) (s2\<lparr>procs_in_use := 0\<rparr>)) (\<lambda>(chunks2, s3).
              let s4 = upd_mp PM_PROC_NR (\<lambda>p. p\<lparr>mp_pid := 0, mp_parent := PM_PROC_NR\<rparr>) s3;
                  mess = \<lparr>m_source = 0, m_type = 0, m_w = (\<lambda>_. 0)(0 := word_of_int NONE)\<rparr>;
                  ((r2, _), s5) = ask env (SendTo 1 mess) s4
              in if r2 \<noteq> OK then Inl (Panic ''can't sync up with FS'')
                 else let chunks3 = (if snd bootdev > 0
                            then patch_mem_chunks (bootdev_map (fst bootdev) (snd bootdev) sg) chunks2 else chunks2)
                      in bindr (mem_init chunks3 s5) (\<lambda>(_, s6). Inr s6))))"

end
