(* ===== verification/Pm_Inv.thy ===== *)
theory Pm_Inv
  imports Pm_Fork
begin

unbundle bit_operations_syntax

text \<open>
  The invariant of the process manager (\<open>pm_ok\<close>): the holes, the memory of the living processes and
  the blocks handed out are disjoint, a blocked process is alive, every parent and \<open>outswap\<close> are
  slots of the table, the next process id is in range, and the queue of processes to be swapped in
  and the queue of timers are well formed. The theory shows that replies, core dumps and signals
  keep it, for any function that ends a process and keeps it; \<open>Pm_End\<close> closes the recursion.
\<close>

definition alive :: "u32 \<Rightarrow> bool" where
  "alive f \<longleftrightarrow> f AND (IN_USE OR ZOMBIE) = IN_USE"

definition live :: "pmstate \<Rightarrow> int set" where
  "live s = {n. 0 \<le> n \<and> n < 64 \<and> alive (mfl s n)}"

definition blocked :: "u32 \<Rightarrow> bool" where
  "blocked f \<longleftrightarrow> f AND (PAUSED OR WAITING OR SIGSUSPENDED) \<noteq> 0"

definition book :: "pmstate \<Rightarrow> bool" where
  "book s \<longleftrightarrow> (\<forall>n. 0 \<le> n \<longrightarrow> n < 64 \<longrightarrow> blocked (mfl s n) \<longrightarrow> alive (mfl s n)) \<and>
     (\<forall>n. 0 \<le> n \<longrightarrow> n < 64 \<longrightarrow> 0 \<le> mp_parent (mpr s n) \<and> mp_parent (mpr s n) < 64) \<and>
     0 \<le> outswap s \<and> outswap s < 64 \<and> 1 \<le> next_pid s \<and> next_pid s \<le> NR_PIDS \<and>
     (\<exists>qs. chain (\<lambda>n. mp_swapq (mpr s n)) (in_queue s) qs) \<and> (\<exists>xs. tq_rep (pm_timers s) xs)"

text \<open>
  Memory is in order with respect to \<open>X = (H, C)\<close>: the memory of the processes \<open>L\<close>, the blocks
  \<open>H\<close> handed out to somebody else and the holes are disjoint, and the clicks \<open>C\<close> are free.
\<close>

definition pm_store :: "int set \<Rightarrow> nat set \<times> nat set \<Rightarrow> pmstate \<Rightarrow> bool" where
  "pm_store L X s \<longleftrightarrow> (\<exists>F k. free_clicks s F k \<and> own_ok L (fst X) F (mproc_tab s) \<and> snd X \<subseteq> F)"

definition pm_ok :: "nat set \<times> nat set \<Rightarrow> pmstate \<Rightarrow> bool" where
  "pm_ok X s \<longleftrightarrow> pm_store (live s) X s \<and> book s"

definition mem_view :: "mproc \<Rightarrow> nat set \<times> nat set \<times> bool \<times> (u32 \<times> int \<times> int) \<times> u32" where
  "mem_view p = (dblk p, tblk p, seg_ok p, file_of p, mp_flags p AND SEPARATE)"

text \<open>
  A change is calm if it leaves memory, parents, queues and timers alone and neither revives nor
  blocks a process; it is quiet if only the queue and the timers may change.
\<close>

definition quietp :: "mproc \<Rightarrow> mproc \<Rightarrow> bool" where
  "quietp p p' \<longleftrightarrow> mem_view p' = mem_view p \<and> mp_parent p' = mp_parent p \<and>
     alive (mp_flags p') = alive (mp_flags p) \<and> (blocked (mp_flags p') \<longrightarrow> blocked (mp_flags p))"

definition quiet :: "pmstate \<Rightarrow> pmstate \<Rightarrow> bool" where
  "quiet s s' \<longleftrightarrow> hole_tab s' = hole_tab s \<and> hole_head s' = hole_head s \<and> free_slots s' = free_slots s \<and>
     outswap s' = outswap s \<and> next_pid s' = next_pid s \<and> (\<forall>n. quietp (mpr s n) (mpr s' n))"

definition calm :: "pmstate \<Rightarrow> pmstate \<Rightarrow> bool" where
  "calm s s' \<longleftrightarrow> quiet s s' \<and> in_queue s' = in_queue s \<and> pm_timers s' = pm_timers s \<and> (\<forall>n. mp_swapq (mpr s' n) = mp_swapq (mpr s n))"

definition pinv :: "int set \<Rightarrow> nat set \<times> nat set \<Rightarrow> pmstate \<Rightarrow> bool" where
  "pinv L X s \<longleftrightarrow> pm_store L X s \<and> book s"

lemma pm_ok_inv: "pm_ok X s = pinv (live s) X s" by (simp add: pm_ok_def pinv_def)

lemma quietp_refl [simp]: "quietp p p" by (simp add: quietp_def)

lemma calm_refl [simp]: "calm s s" by (simp add: calm_def quiet_def)

lemma calm_trans: "calm s s1 \<Longrightarrow> calm s1 s2 \<Longrightarrow> calm s s2"
  by (simp add: calm_def quiet_def quietp_def)

lemma calm_tell [simp]: "calm s (tell r s)" by (simp add: calm_def quiet_def)

lemma calm_log [simp]: "calm s (s\<lparr>pm_log := lg\<rparr>)" by (simp add: calm_def quiet_def)

lemma calm_upd: "quietp (mpr s n) (f (mpr s n)) \<Longrightarrow> mp_swapq (f (mpr s n)) = mp_swapq (mpr s n) \<Longrightarrow> calm s (upd_mp n f s)"
  by (simp add: calm_def quiet_def)

lemma own_ok_view:
  assumes "own_ok L X F tab" and "\<And>n. n \<in> L \<Longrightarrow> mem_view (tab' n) = mem_view (tab n)"
  shows "own_ok L X F tab'"
  using assms by (simp add: own_ok_def shares_def mem_view_def)

lemma pm_store_cong:
  assumes "pm_store L X s" and "hole_tab s' = hole_tab s" "hole_head s' = hole_head s" "free_slots s' = free_slots s"
    and "\<And>n. n \<in> L \<Longrightarrow> own_view (mpr s' n) = own_view (mpr s n)"
  shows "pm_store L X s'"
  using assms(1,5) own_ok_cong unfolding pm_store_def free_clicks_cong [OF assms(2-4)] by blast

lemma quiet_mem: "quiet s s' \<Longrightarrow> pm_store L X s \<Longrightarrow> pm_store L X s'"
  unfolding pm_store_def quiet_def quietp_def using free_clicks_cong [of s' s] own_ok_view [of L "fst X" _ "mproc_tab s" "mproc_tab s'"] by metis

lemma quiet_live: "quiet s s' \<Longrightarrow> live s' = live s"
  by (simp add: quiet_def quietp_def live_def)

lemma quiet_inv:
  assumes "quiet s s'" and "pinv L X s" and "\<exists>qs. chain (\<lambda>n. mp_swapq (mpr s' n)) (in_queue s') qs"
    and "\<exists>xs. tq_rep (pm_timers s') xs"
  shows "pinv L X s' \<and> live s' = live s"
  using assms quiet_mem [OF assms(1)] quiet_live [OF assms(1)]
  unfolding pinv_def book_def quiet_def quietp_def by auto

lemma calm_inv: "calm s s' \<Longrightarrow> pinv L X s \<Longrightarrow> pinv L X s' \<and> live s' = live s"
  by (rule quiet_inv) (auto simp: calm_def pinv_def book_def)

lemma flag_and_sub: "(x AND m) AND k \<noteq> (0 :: u32) \<Longrightarrow> x AND k \<noteq> 0"
  by (metis and.assoc and.commute and_zero_eq)

text \<open>Flags that say nothing of life, waiting and text.\<close>

lemma quietp_or: "m AND 0x12F = 0 \<Longrightarrow> quietp p (p\<lparr>mp_flags := mp_flags p OR m\<rparr>)"
proof -
  assume "m AND 0x12F = 0"
  then have z: "m AND (0x12F AND k) = 0" for k by (metis and.assoc and_zero_eq and.commute)
  from z [of "0x20"] z [of 5] z [of "0x10A"]
  have "m AND 0x20 = 0" "m AND 5 = 0" "m AND 0x10A = 0" by simp_all
  then show ?thesis
    by (simp add: quietp_def mem_view_def alive_def blocked_def word_ao_dist dblk_def tblk_def seg_ok_def prog_size_def file_of_def)
qed

lemma quietp_clear: "m AND 0x25 = 0 \<Longrightarrow> quietp p (p\<lparr>mp_flags := mp_flags p AND NOT m\<rparr>)"
proof -
  assume "m AND 0x25 = 0"
  then have z: "m AND (0x25 AND k) = 0" for k by (metis and.assoc and_zero_eq and.commute)
  from z [of "0x20"] z [of 5] have "m AND 0x20 = 0" "m AND 5 = 0" by simp_all
  then show ?thesis using flag_and_sub [of "mp_flags p" "NOT m"]
    by (simp add: quietp_def mem_view_def alive_def blocked_def flag_clear_other dblk_def tblk_def seg_ok_def prog_size_def file_of_def)
qed

lemma quietp_other [simp]:
  "quietp p (p\<lparr>mp_reply := r\<rparr>)" "quietp p (p\<lparr>mp_sigstatus := i\<rparr>)" "quietp p (p\<lparr>mp_exitstatus := i\<rparr>)" 
  "quietp p (p\<lparr>mp_sigpending := w\<rparr>)" "quietp p (p\<lparr>mp_sigmask := w\<rparr>)" "quietp p (p\<lparr>mp_child_utime := i, mp_child_stime := j\<rparr>)"
  "quietp p (p\<lparr>mp_sigmask := w, mp_catch := v, mp_sigact := a\<rparr>)"
  by (simp_all add: quietp_def mem_view_def alive_def blocked_def dblk_def tblk_def seg_ok_def prog_size_def file_of_def)

section \<open>Replies\<close>

lemma chain_requeue:
  assumes "chain nxt h qs"
  shows "\<exists>qs'. chain (if qs = [] then nxt(n := None) else nxt(last qs := Some n, n := None)) (if qs = [] then Some n else h) qs'"
proof (cases "n \<in> set qs")
  case False
  show ?thesis
  proof (cases qs rule: rev_cases)
    case Nil then show ?thesis by (intro exI [of _ "[n]"]) simp
  next
    case (snoc ts t)
    then show ?thesis using chain_snoc [of nxt h ts t n] assms False by (intro exI [of _ "ts @ [t, n]"]) (simp del: lseg_append)
  qed
next
  case True
  then obtain us vs where q: "qs = us @ n # vs" "n \<notin> set us" by (metis split_list_first)
  then have "last qs \<notin> set us" using chain_distinct [OF assms] by (cases vs rule: rev_cases) auto
  moreover have "lseg nxt h us (Some n)" using assms q(1) by auto
  ultimately have "chain (nxt(last qs := Some n, n := None)) h (us @ [n])" using q(2) by simp
  then show ?thesis using q(1) by (intro exI [of _ "us @ [n]"]) (simp del: lseg_append)
qed

lemma swap_inqueue_ok:
  assumes "pinv L X s"
  shows "\<exists>s'. swap_inqueue n s = Inr s' \<and> pinv L X s' \<and> live s' = live s"
proof (cases "mfl s n AND SWAPIN \<noteq> 0")
  case False
  from assms obtain qs where qs: "chain (\<lambda>n. mp_swapq (mpr s n)) (in_queue s) qs" by (auto simp: pinv_def book_def)
  have tw: "takeWhile (\<lambda>_. \<not> False) qs = qs" by (induction qs) auto
  have w: "walk (\<lambda>l. sq_get l s) (\<lambda>_. False) Head = Some (loc_after qs)"
    using sq.walk_whole [of s qs "\<lambda>_. False"] qs unfolding tw by simp
  let ?s2 = "sq_put (Next n) None (sq_put (loc_after qs) (Some n) s)"
  let ?s3 = "set_mfl n (mfl ?s2 n OR SWAPIN) ?s2"
  have eq: "swap_inqueue n s = Inr ?s3" using False w by (simp add: swap_inqueue_def Let_def)
  have q: "(\<lambda>m. mp_swapq (mpr ?s3 m)) = (if qs = [] then (\<lambda>n. mp_swapq (mpr s n))(n := None) else (\<lambda>n. mp_swapq (mpr s n))(last qs := Some n, n := None))"
    "in_queue ?s3 = (if qs = [] then Some n else in_queue s)"
    by (auto simp: loc_after_def)
  have ch: "\<exists>qs'. chain (\<lambda>m. mp_swapq (mpr ?s3 m)) (in_queue ?s3) qs'" unfolding q by (rule chain_requeue [OF qs])
  have "quiet s ?s3" using quietp_or [of SWAPIN] 
    by (cases "loc_after qs") (auto simp: quiet_def quietp_def mem_view_def dblk_def tblk_def seg_ok_def prog_size_def file_of_def)
  moreover have "\<exists>xs. tq_rep (pm_timers ?s3) xs" using assms by (cases "loc_after qs") (auto simp: pinv_def book_def)
  ultimately show ?thesis using quiet_inv [OF _ assms ch] eq by blast
qed (use assms in \<open>simp add: swap_inqueue_def\<close>)
abbreviation kept :: "int set \<Rightarrow> nat set \<times> nat set \<Rightarrow> pmstate \<Rightarrow> pmstate res \<Rightarrow> bool" where
  "kept L X s r \<equiv> safe UNIV r (\<lambda>s'. pinv L X s' \<and> live s' = live s)"

lemma calm_kept:
  assumes "calm s s1" and "pinv L X s" and "pinv L X s1 \<Longrightarrow> kept L X s1 r"
  shows "kept L X s r"
  using calm_inv [OF assms(1,2)] assms(3) by simp

lemma swap_inqueue_kept: "pinv L X s \<Longrightarrow> kept L X s (swap_inqueue n s)"
  using swap_inqueue_ok [of L X s n] by auto

lemma calm_flag_or: "m AND 0x12F = 0 \<Longrightarrow> calm s (set_mfl n (mfl s n OR m) s)"
  using quietp_or [of m "mpr s n"] by (intro calm_upd) simp_all

lemma calm_flag_clear: "m AND 0x25 = 0 \<Longrightarrow> calm s (set_mfl n (mfl s n AND NOT m) s)"
  using quietp_clear [of m "mpr s n"] by (intro calm_upd) simp_all

lemma calm_set_res2 [simp]: "calm s (set_res2 n v s)"
  by (simp add: set_res2_def calm_upd)

lemma setreply_kept:
  assumes "pinv L X s" and "0 \<le> n" and "n < 64"
  shows "kept L X s (setreply n r s)"
proof -
  let ?s1 = "upd_mp n (\<lambda>p. p\<lparr>mp_reply := (mp_reply p)\<lparr>m_type := r\<rparr>, mp_flags := mp_flags p OR REPLY\<rparr>) s"
  have c: "calm s ?s1"
    using quietp_or [of REPLY "mpr s n"] by (intro calm_upd) (simp_all add: quietp_def mem_view_def dblk_def tblk_def seg_ok_def prog_size_def file_of_def)
  show ?thesis
    by (rule calm_kept [OF c assms(1)]) (use assms(2,3) swap_inqueue_kept in \<open>simp add: setreply_def Let_def\<close>)
qed

lemma unpause_kept: "pinv L X s \<Longrightarrow> 0 \<le> n \<Longrightarrow> n < 64 \<Longrightarrow> kept L X s (unpause n s)"
  using calm_kept [OF calm_flag_clear [of "PAUSED OR WAITING OR SIGSUSPENDED" s n], of L X "setreply n EINTR (set_mfl n (mfl s n AND NOT (PAUSED OR WAITING OR SIGSUSPENDED)) s)"]
    setreply_kept calm_inv [OF calm_tell]
  by (simp add: unpause_def)

lemma parent_in: "pinv L X s \<Longrightarrow> 0 \<le> n \<Longrightarrow> n < 64 \<Longrightarrow> 0 \<le> mp_parent (mpr s n) \<and> mp_parent (mpr s n) < 64"
  by (auto simp: pinv_def book_def)

lemma stop_proc_kept:
  assumes "pinv L X s" and "0 \<le> n" and "n < 64"
  shows "kept L X s (stop_proc env n sg s)"
proof -
  let ?s1 = "tell (SysTrace (- 1) n 0 0) s"
  let ?s2 = "set_mfl n (mfl ?s1 n OR STOPPED) ?s1"
  let ?p = "mp_parent (mpr s n)"
  let ?s3 = "set_res2 ?p (0x7F OR word_of_int (sg * 256)) (set_mfl ?p (mfl ?s2 ?p AND NOT WAITING) ?s2)"
  note p = parent_in [OF assms]
  have c2: "calm s ?s2" using calm_trans [OF calm_tell calm_flag_or [of STOPPED ?s1 n]] by simp
  have c3: "calm s ?s3" using calm_trans [OF calm_trans [OF c2 calm_flag_clear [of WAITING ?s2 ?p]] calm_set_res2] by simp
  have k3: "kept L X s (setreply ?p r ?s3)" for r
    by (rule calm_kept [OF c3 assms(1)]) (rule setreply_kept, use p in simp_all)
  have k2: "kept L X s (Inr (upd_mp n (\<lambda>p. p\<lparr>mp_sigstatus := schar sg\<rparr>) ?s2))"
    using calm_inv [OF calm_trans [OF c2 calm_upd] assms(1)] by simp
  have "mp_parent (mpr ?s3 n) = ?p" "mp_parent (mpr ?s1 n) = ?p" by (simp_all add: set_res2_def)
  then show ?thesis using k3 k2 p calm_inv [OF calm_tell assms(1)]
    by (simp add: stop_proc_def ask_tell Let_def split: prod.split)
qed

section \<open>Core dumps\<close>

text \<open>The kernel refuses offsets beyond its process table entry (\<open>do_trace\<close>, \<open>T_GETUSER\<close>).\<close>

definition trace_bounded :: "pm_env \<Rightarrow> bool" where
  "trace_bounded env \<longleftrightarrow> (\<forall>lg n off. 4096 \<le> off \<longrightarrow> fst (env lg (SysTrace T_GETUSER n off 0)) \<noteq> OK)"

lemma tell_log: "tell r s = s\<lparr>pm_log := pm_log s @ [r]\<rparr>"
  by (simp add: tell_def)

lemma core_regs_ends:
  assumes "trace_bounded env"
  shows "\<exists>go lg. core_regs env fd n off s = Some (go, s\<lparr>pm_log := lg\<rparr>)"
proof (induction "4096 - unat off" arbitrary: off s rule: less_induct)
  case less
  obtain r ws where e: "env (pm_log s) (SysTrace T_GETUSER n off 0) = (r, ws)" by fastforce
  let ?s1 = "tell (SysTrace T_GETUSER n off 0) s"
  obtain w vs where f: "env (pm_log ?s1) (FsWrite fd [first_word ws]) = (w, vs)" by fastforce
  let ?s2 = "tell (FsWrite fd [first_word ws]) ?s1"
  have step: "core_regs env fd n off s = (if r \<noteq> OK then Some (True, ?s1) else if w \<noteq> 4 then Some (False, ?s2) else core_regs env fd n (off + 4) ?s2)"
    by (subst core_regs.simps) (simp add: ask_tell e f)
  show ?case
  proof (cases "r \<noteq> OK \<or> w \<noteq> 4")
    case True
    then show ?thesis unfolding step by (auto simp: tell_log)
  next
    case False
    then have "\<not> 4096 \<le> off" using assms e unfolding trace_bounded_def by (metis fst_conv)
    then have "unat off < 4096" by (simp add: word_le_nat_alt)
    then have "4096 - unat (off + 4) < 4096 - unat off" by (simp add: unat_word_ariths)
    from less.hyps [OF this, of ?s2] False show ?thesis unfolding step by (auto simp: tell_log)
  qed
qed

lemma grown_other [simp]: "mp_parent (grown dc sp p) = mp_parent p" "mp_swapq (grown dc sp p) = mp_swapq p"
  by (simp_all add: grown_def)

lemma calm_adjust: "adjust n dc sp s = (r, s') \<Longrightarrow> calm s s'"
proof -
  have "calm s (upd_mp n (grown dc sp) s)"
    by (rule calm_upd) (simp_all add: quietp_def mem_view_def dblk_def tblk_def seg_ok_def)
  then have "calm s ((upd_mp n (grown dc sp) s)\<lparr>pm_log := lg\<rparr>)" for lg by (rule calm_trans) simp
  then show "adjust n dc sp s = (r, s') \<Longrightarrow> calm s s'" using adjust_outcome [of n dc sp s] by auto
qed

lemma calm_rw_seg [simp]: "calm s (rw_seg env rw fd n sg b s)"
  using rw_seg_log [of env rw fd n sg b s] by auto

lemma calm_core_regs: "trace_bounded env \<Longrightarrow> core_regs env fd n off s = Some (go, s') \<Longrightarrow> calm s s'"
  using core_regs_ends [of env fd n off s] by auto

text \<open>The rules as introductions, for the chains of updates in the code.\<close>

lemma calm_steps:
  "calm s t \<Longrightarrow> calm s (tell r t)"
  "calm s t \<Longrightarrow> calm s (rw_seg env rw fd n sg b t)"
  "calm s t \<Longrightarrow> quietp (mpr t n) (f (mpr t n)) \<Longrightarrow> mp_swapq (f (mpr t n)) = mp_swapq (mpr t n) \<Longrightarrow> calm s (upd_mp n f t)"
  using calm_trans [OF _ calm_tell] calm_trans [OF _ calm_rw_seg] calm_trans [OF _ calm_upd] by blast+

lemmas calm_ends = calm_trans [OF _ calm_adjust] calm_trans [OF _ calm_core_regs]

lemma dump_core_calm:
  assumes "trace_bounded env"
  shows "safe UNIV (dump_core env n s) (calm s)"
proof -
  have nh: "core_regs env fd n off t \<noteq> None" for fd off t using core_regs_ends [OF assms, of fd n off t] by auto
  have a: "calm s t" if "adjust n dc sp (tell (SysGetproc n) (upd_mp n (\<lambda>p. p\<lparr>mp_sigstatus := f p\<rparr>) (tell q s))) = (r, t)" for dc sp f q r t
    by (rule calm_ends(1) [OF _ that]) (simp add: calm_steps)
  have c: "calm s b" if "core_regs env fd n 0 (tell q t) = Some (go, b)" "calm s t" for fd q t go b
    by (rule calm_ends(2) [OF calm_steps(1) [OF that(2)] assms that(1)])
  show ?thesis
    unfolding dump_core_def get_stack_ptr_def ask_tell Let_def
    by (auto simp: nh safe_def split: prod.splits if_splits option.splits intro!: calm_steps) ((erule c)?, erule a)+
qed

lemma calm_safe:
  assumes "pinv L X s" and "safe UNIV r (calm s)" and "\<And>s1. calm s s1 \<Longrightarrow> pinv L X s1 \<Longrightarrow> live s1 = live s \<Longrightarrow> safe UNIV (f s1) P"
  shows "safe UNIV (bindr r f) P"
  by (rule safe_bind [OF assms(2)]) (use assms(3) calm_inv [OF _ assms(1)] in blast)

section \<open>Signals\<close>

text \<open>
  What is needed of the function that ends a process, in states with at most \<open>k\<close> processes alive.
\<close>

definition mem_of :: "pmstate \<Rightarrow> int \<Rightarrow> nat set" where
  "mem_of s n = dblk (mpr s n) \<union> (if find_share n (file_of (mpr s n)) s = None then tblk (mpr s n) else {})"

abbreviation plus_free :: "nat set \<times> nat set \<Rightarrow> nat set \<Rightarrow> nat set \<times> nat set" where
  "plus_free X M \<equiv> (fst X, snd X \<union> M)"

definition ends :: "nat \<Rightarrow> exit_fun \<Rightarrow> bool" where
  "ends k ex \<longleftrightarrow> (\<forall>X n st s. pm_ok X s \<longrightarrow> n \<in> live s \<longrightarrow> card (live s) \<le> k \<longrightarrow>
     safe UNIV (ex n st s) (\<lambda>s'. pm_ok (plus_free X (mem_of s n)) s' \<and> live s' \<subseteq> live s - {n}))"

lemma pm_ok_plus: "pm_ok (plus_free X M) s \<Longrightarrow> pm_ok X s"
  by (auto simp: pm_ok_def pm_store_def)

abbreviation spared :: "nat set \<times> nat set \<Rightarrow> pmstate \<Rightarrow> pmstate res \<Rightarrow> bool" where
  "spared X s r \<equiv> safe UNIV r (\<lambda>s'. pm_ok X s' \<and> live s' \<subseteq> live s)"

lemma kept_spared:
  assumes "kept (live s) X s r"
  shows "spared X s r"
  by (rule safe_mono [OF assms]) (simp add: pm_ok_inv)

lemma calm_spared:
  assumes "calm s s1" and "pm_ok X s" and "pm_ok X s1 \<Longrightarrow> live s1 = live s \<Longrightarrow> spared X s1 r"
  shows "spared X s r"
  using calm_inv [OF assms(1), of "live s" X] assms(2,3) by (simp add: pm_ok_inv)

lemma calm_spared_Inr: "calm s s1 \<Longrightarrow> pm_ok X s \<Longrightarrow> spared X s (Inr s1)"
  using calm_inv [of s s1 "live s" X] by (simp add: pm_ok_inv)

lemma ends_spared: "ends k ex \<Longrightarrow> pm_ok X s \<Longrightarrow> n \<in> live s \<Longrightarrow> card (live s) \<le> k \<Longrightarrow> spared X s (ex n st s)"
  unfolding ends_def by (blast intro: safe_mono pm_ok_plus)

lemma live_range: "n \<in> live s \<Longrightarrow> 0 \<le> n \<and> n < 64" by (simp add: live_def)

lemma sig_default_spared:
  assumes "ends k ex" and "pm_ok X s" and "n \<in> live s" and "card (live s) \<le> k" and "trace_bounded env"
  shows "spared X s (sig_default ex env n sg s)"
proof -
  let ?s1 = "upd_mp n (\<lambda>p. p\<lparr>mp_sigstatus := schar sg\<rparr>) s"
  let ?s2 = "upd_mp n (\<lambda>p. p\<lparr>mp_sigpending := sig_add (mp_sigpending p) sg\<rparr>) ?s1"
  have c1: "calm s ?s1" and c2: "calm s ?s2" and c3: "calm s (tell_fs CHDIR_FS n 0 0 ?s1)" by (simp_all add: calm_steps)
  have q: "spared X s (swap_inqueue n ?s2)"
    by (rule calm_spared [OF c2 assms(2)], rule kept_spared, rule swap_inqueue_kept) (simp add: pm_ok_inv)
  have e: "spared X s (ex n 0 ?s1)"
    by (rule calm_spared [OF c1 assms(2)], rule ends_spared [OF assms(1)]) (use assms in simp_all)
  have d: "spared X s (bindr (dump_core env n (tell_fs CHDIR_FS n 0 0 ?s1)) (ex n 0))"
  proof (rule calm_spared [OF c3 assms(2)])
    let ?t = "tell_fs CHDIR_FS n 0 0 ?s1"
    assume t: "pm_ok X ?t" "live ?t = live s"
    show "spared X ?t (bindr (dump_core env n ?t) (ex n 0))"
    proof (rule calm_safe [OF t(1) [unfolded pm_ok_inv] dump_core_calm [OF assms(5)]])
      fix u assume u: "pinv (live ?t) X u" "live u = live ?t"
      then have "spared X u (ex n 0 u)" using t assms by (intro ends_spared [OF assms(1)]) (simp_all add: pm_ok_inv)
      then show "safe UNIV (ex n 0 u) (\<lambda>s'. pm_ok X s' \<and> live s' \<subseteq> live ?t)" using u by simp
    qed
  qed
  show ?thesis using q e d assms(2) by (simp add: sig_default_def Let_def)
qed

lemma sig_caught_spared:
  assumes "ends k ex" and "pm_ok X s" and "n \<in> live s" and "card (live s) \<le> k" and "trace_bounded env"
  shows "spared X s (sig_caught ex env n sg s)"
proof -
  let ?s1 = "tell (SysGetproc n) s"
  obtain a s2 where ad: "adjust n (mem_len (mp_seg (mpr s n) D_seg)) (first_word (snd (env (pm_log s) (SysGetproc n))) - (72 + 3 * 4 + 2 * 4)) ?s1 = (a, s2)"
    by fastforce
  have c2: "calm s s2" by (rule calm_ends(1) [OF _ ad]) simp
  have d: "spared X s (sig_default ex env n sg s2)"
    by (rule calm_spared [OF c2 assms(2)], rule sig_default_spared [OF assms(1)]) (use assms in simp_all)
  have u: "spared X s (unpause n s3)" if "calm s s3" for s3
    by (rule calm_spared [OF that assms(2)], rule kept_spared, rule unpause_kept)
       (use live_range [OF assms(3)] in \<open>simp_all add: pm_ok_inv\<close>)
  show ?thesis
    using d ad unfolding sig_caught_def get_stack_ptr_def ask_tell Let_def
    by (auto split: prod.splits intro!: u calm_steps c2)
qed

lemma sig_proc_spared:
  assumes "ends k ex" and "pm_ok X s" and "0 \<le> n" and "n < 64" and "card (live s) \<le> k" and "trace_bounded env"
  shows "spared X s (sig_proc_with ex env n sg s)"
proof (cases "n \<in> live s")
  case False
  then show ?thesis using assms(3,4) by (simp add: sig_proc_with_def Let_def live_def alive_def)
next
  case True
  let ?s1 = "upd_mp n (\<lambda>p. p\<lparr>mp_sigpending := sig_add (mp_sigpending p) sg\<rparr>) s"
  have fl: "mfl s n AND (IN_USE OR ZOMBIE) = IN_USE" using True by (simp add: live_def alive_def)
  have c1: "calm s ?s1" by (simp add: calm_upd)
  obtain r ws where e: "env (pm_log s) (SysKill n sg) = (r, ws)" by fastforce
  have inv: "pinv (live s) X s" using assms(2) by (simp add: pm_ok_inv)
  have t: "spared X s (bindr (unpause n s) (stop_proc env n sg))"
  proof (rule kept_spared, rule safe_bind [OF unpause_kept [OF inv assms(3,4)]])
    fix s1 assume "pinv (live s) X s1 \<and> live s1 = live s"
    then show "safe UNIV (stop_proc env n sg s1) (\<lambda>s'. pinv (live s) X s' \<and> live s' = live s)"
      using stop_proc_kept [of "live s" X s1 n] assms(3,4) by simp
  qed
  have q: "spared X s (swap_inqueue n ?s1)"
    by (rule calm_spared [OF c1 assms(2)], rule kept_spared, rule swap_inqueue_kept) (simp add: pm_ok_inv)
  show ?thesis
    using t q calm_spared_Inr [OF calm_tell assms(2)] calm_spared_Inr [OF c1 assms(2)] assms(2) fl e
      sig_default_spared [OF assms(1,2) True assms(5,6)] sig_caught_spared [OF assms(1,2) True assms(5,6)]
    unfolding sig_proc_with_def Let_def ask_tell by (intro safe_ifI) simp_all
qed

lemma check_loop_spared:
  assumes "ends k ex" and "pm_ok X s" and "\<forall>n \<in> set ns. 0 \<le> n \<and> n < 64" and "card (live s) \<le> k" and "trace_bounded env"
  shows "safe UNIV (check_loop ex env pid sg ns c e s) (\<lambda>(_, _, s'). pm_ok X s' \<and> live s' \<subseteq> live s)"
  using assms(2-4)
proof (induction ns arbitrary: c e s)
  case (Cons n ns)
  have sp: "spared X s (sig_proc_with ex env n sg s)" using Cons.prems assms(1,5) by (intro sig_proc_spared) simp_all
  have IH: "safe UNIV (check_loop ex env pid sg ns c e s) (\<lambda>(_, _, s'). pm_ok X s' \<and> live s' \<subseteq> live s)" for c e
    using Cons by simp
  have nx: "safe UNIV (check_loop ex env pid sg ns c e s1) (\<lambda>(_, _, s'). pm_ok X s' \<and> live s' \<subseteq> live s)"
    if "pm_ok X s1 \<and> live s1 \<subseteq> live s" for c e s1
  proof (rule safe_mono [OF Cons.IH])
    have "finite (live s)" by (rule finite_subset [of _ "{0..63}"]) (auto simp: live_def)
    then show "card (live s1) \<le> k" using that Cons.prems(3) card_mono by (metis le_trans)
  qed (use that Cons.prems in auto)
  have "safe UNIV (bindr (sig_proc_with ex env n sg s) (\<lambda>s1. if pid > 0 then Inr (c + 1, e, s1)
      else check_loop ex env pid sg ns (c + 1) e s1)) (\<lambda>(_, _, s'). pm_ok X s' \<and> live s' \<subseteq> live s)"
    by (rule safe_bind [OF sp]) (use nx in simp)
  with IH show ?case unfolding check_loop.simps Let_def by (intro safe_ifI)
qed simp

lemma check_sig_spared:
  assumes "ends k ex" and "pm_ok X s" and "card (live s) \<le> k" and "trace_bounded env"
  shows "safe UNIV (check_sig_with ex env pid sg s) (\<lambda>(_, s'). pm_ok X s' \<and> live s' \<subseteq> live s)"
proof -
  have "safe UNIV (check_loop ex env pid sg slots 0 ESRCH s) (\<lambda>(_, _, s'). pm_ok X s' \<and> live s' \<subseteq> live s)"
    by (rule check_loop_spared [OF assms(1,2) _ assms(3,4)]) auto
  then have "safe UNIV (bindr (check_loop ex env pid sg slots 0 ESRCH s) (\<lambda>(count, error_code, s1).
      if mfl s1 (pm_mp s1) AND (IN_USE OR ZOMBIE) \<noteq> IN_USE then Inr (SUSPEND, s1)
      else Inr (if count > 0 then OK else error_code, s1))) (\<lambda>(_, s'). pm_ok X s' \<and> live s' \<subseteq> live s)"
    by (rule safe_bind) auto
  then show ?thesis using assms(2) by (simp add: check_sig_with_def)
qed

end
