(* ===== verification/Pm_End.thy ===== *)
theory Pm_End
  imports Pm_Inv
begin

unbundle bit_operations_syntax

text \<open>
  The life of a process ends and begins: alarms, \<open>cleanup\<close>, the release of memory, and with them
  the recursion of \<open>pm_exit\<close> through the signals that it sends; and the child that \<open>do_fork\<close> makes.
\<close>

section \<open>Alarms\<close>








lemma tell_pinv [simp]: "pinv L X s \<Longrightarrow> pinv L X (tell r s)" "live (tell r s) = live s"
  using calm_inv [OF calm_tell] by (auto simp: live_def)





section \<open>The end of a process\<close>



lemma not_blocked_0 [simp]: "\<not> blocked 0" "\<not> alive 0" "\<not> blocked 5" "\<not> alive 5"
  by (simp_all add: blocked_def alive_def)










lemma live_finite [simp]: "finite (live s)"
  by (rule finite_subset [of _ "{0..63}"]) (auto simp: live_def)






section \<open>An exit that the parent waits for\<close>















section \<open>Exit\<close>

abbreviation (input) quiet_env :: pm_env where
  "quiet_env \<equiv> (\<lambda>_ r. case r of SysTrace _ _ _ _ \<Rightarrow> (- 1, []) | _ \<Rightarrow> (0, []))"






section \<open>Fork\<close>

text \<open>A process that got a block of its own and at most shares its text joins the others.\<close>

lemma own_ok_join:
  assumes "own_ok L (X \<union> dblk q) F tab" and "X \<inter> dblk q = {}" and "c \<notin> L" and "p \<in> L" and "seg_ok q"
    and "tblk q = {} \<or> shares q (tab p)"
  shows "own_ok (insert c L) X F (tab(c := q))"
proof -
  note d = own_okD [OF assms(1)]
  have o: "dblk (tab n) \<inter> dblk q = {}" "tblk (tab n) \<inter> dblk q = {}" "dblk (tab n) \<inter> X = {}" "tblk (tab n) \<inter> X = {}" if "n \<in> L" for n
    using d(4,6) [OF that] by blast+
  have q: "dblk q \<inter> F = {}" "X \<inter> F = {}" using d(1) by blast+
  have t: "tblk q = {} \<or> tblk q = tblk (tab p)" using assms(6) by (auto simp: shares_def)
  have tq: "tblk q \<inter> F = {}" "tblk q \<inter> X = {}" "tblk q \<inter> dblk q = {}" using t d(5) [OF assms(4)] o [OF assms(4)] by auto
  have tn: "dblk (tab n) \<inter> tblk q = {}" if "n \<in> L" for n using t d(7) [OF that assms(4)] by auto
  have ts: "tblk q \<inter> tblk (tab n) = {} \<or> shares q (tab n)" if "n \<in> L" for n
  proof (cases "tblk q = {} \<or> n = p")
    case False
    then show ?thesis using assms(6) d(9) [OF assms(4) that] by (auto simp: shares_def)
  qed (use assms(6) in auto)
  have sym: "shares a b = shares b a" for a b by (auto simp: shares_def)
  let ?tab = "tab(c := q)"
  have l: "n = c \<or> n \<noteq> c \<and> n \<in> L" if "n \<in> insert c L" for n using that assms(3) by auto
  show ?thesis
  proof (rule own_okI)
    fix n assume "n \<in> insert c L"
    note n = l [OF this]
    show "seg_ok (?tab n)" "dblk (?tab n) \<inter> F = {}" "dblk (?tab n) \<inter> X = {}" "tblk (?tab n) \<inter> F = {}" "tblk (?tab n) \<inter> X = {}"
      using n d(2,3,5) [of n] o(3,4) [of n] q tq assms(2,5) by (elim disjE; simp add: Int_commute)+
    fix m assume "m \<in> insert c L"
    note m = l [OF this]
    show "dblk (?tab n) \<inter> tblk (?tab m) = {}"
      using n m d(7) [of n m] o(2) [of m] tn [of n] tq(3) by (elim disjE; simp add: Int_commute)
    assume "n \<noteq> m"
    then show "dblk (?tab n) \<inter> dblk (?tab m) = {}"
      using n m d(8) [of n m] o(1) [of n] o(1) [of m] by (elim disjE; simp add: Int_commute)
    from \<open>n \<noteq> m\<close> show "tblk (?tab n) \<inter> tblk (?tab m) = {} \<or> shares (?tab n) (?tab m)"
      using n m d(9) [of n m] ts [of n] ts [of m] sym [of q "tab n"] by (auto simp: Int_commute)
  qed (rule q(2))
qed

lemma fork_slot_facts:
  assumes "mp_flags p AND SEPARATE = 0 \<longrightarrow> mem_len (mp_seg p T_seg) = 0"
  shows "dblk (fork_slot w b p) = blk b (prog_size p)"
    "tblk (fork_slot w b p) = {} \<or> shares (fork_slot w b p) p"
    "seg_ok p \<Longrightarrow> b \<noteq> 0 \<Longrightarrow> unat b + unat (prog_size p) \<le> 2 ^ 32 \<Longrightarrow> seg_ok (fork_slot w b p)"
    "mp_flags (fork_slot w b p) = mp_flags p AND (IN_USE OR SEPARATE OR PRIV_PROC OR DONT_SWAP)"
proof -
  have z: "(x AND 0x3021) AND 0x20 = x AND (0x20 :: u32)" for x by (simp add: and.assoc)
  have s: "prog_size (fork_slot w b p) = prog_size p" by (simp add: fork_slot_def prog_size_def Let_def)
  show "dblk (fork_slot w b p) = blk b (prog_size p)" unfolding dblk_def s by (simp add: fork_slot_def Let_def)
  show "tblk (fork_slot w b p) = {} \<or> shares (fork_slot w b p) p"
    using assms by (auto simp: shares_def tblk_def fork_slot_def file_of_def Let_def z)
  show "seg_ok p \<Longrightarrow> b \<noteq> 0 \<Longrightarrow> unat b + unat (prog_size p) \<le> 2 ^ 32 \<Longrightarrow> seg_ok (fork_slot w b p)"
    using assms unfolding seg_ok_def s by (auto simp: fork_slot_def Let_def z)
  show "mp_flags (fork_slot w b p) = mp_flags p AND (IN_USE OR SEPARATE OR PRIV_PROC OR DONT_SWAP)"
    by (simp add: fork_slot_def Let_def)
qed

lemma fork_install_mem:
  assumes "pm_mem L (X \<union> blk b (prog_size (mpr s (pm_mp s)))) s" and "X \<inter> blk b (prog_size (mpr s (pm_mp s))) = {}"
    and "c \<notin> L" and "pm_mp s \<in> L" and "b \<noteq> 0" and "unat b + unat (prog_size (mpr s (pm_mp s))) \<le> 2 ^ 32"
    and "mfl s (pm_mp s) AND SEPARATE = 0 \<longrightarrow> mem_len (mp_seg (mpr s (pm_mp s)) T_seg) = 0"
  shows "pm_mem (insert c L) X (fork_install c b s)"
proof -
  let ?q = "fork_slot (pm_who s) b (mpr s (pm_mp s))"
  note f = fork_slot_facts [OF assms(7), where w = "pm_who s" and b = b]
  from assms(1) obtain F k where F: "free_clicks s F k" "own_ok L (X \<union> dblk ?q) F (mproc_tab s)"
    by (auto simp: pm_mem_def f(1))
  have "own_ok (insert c L) X F ((mproc_tab s)(c := ?q))"
    using own_ok_join [OF F(2) _ assms(3,4) f(3) f(2)] own_okD(2) [OF F(2) assms(4)] assms(2,5,6) by (simp add: f(1))
  moreover have "free_clicks (fork_install c b s) F k"
    using F(1) free_clicks_cong [of "fork_install c b s" s] by (simp add: fork_install_def Let_def)
  ultimately show ?thesis unfolding pm_mem_def by (auto simp: fork_install_def Let_def)
qed

lemma reloc_flags:
  assumes "reloc s s'"
  shows "mfl s' n AND IN_USE = mfl s n AND IN_USE" "mp_pid (mpr s' n) = mp_pid (mpr s n)" "mp_procgrp (mpr s' n) = mp_procgrp (mpr s n)"
    "\<not> swap_cand (mfl s n) \<Longrightarrow> mpr s' n = mpr s n"
  using assms [unfolded reloc_def, THEN spec, of n] by (auto simp: set_data_phys_def Let_def word_ao_dist)

text \<open>The last steps: the child gets its id and a reply, the parent learns the slot of the child.\<close>

lemma fork_reply:
  assumes "pm_mem L X s" and "0 \<le> c" and "c < 64" and "mfl s c AND ONSWAP = 0"
  shows "\<exists>s4. setreply c 0 (fork_tell c pid s) = Inr s4 \<and> pm_mem L X (set_reply_w p i w s4) \<and>
    mp_pid (mpr (set_reply_w p i w s4) c) = pid \<and> mp_parent (mpr (set_reply_w p i w s4) c) = mp_parent (mpr s c) \<and>
    dblk (mpr (set_reply_w p i w s4) c) = dblk (mpr s c)"
proof -
  let ?s4 = "upd_mp c (\<lambda>p. p\<lparr>mp_reply := (mp_reply p)\<lparr>m_type := 0\<rparr>, mp_flags := mp_flags p OR REPLY\<rparr>) (fork_tell c pid s)"
  have "setreply c 0 (fork_tell c pid s) = Inr ?s4" using assms(2-4)
    by (simp add: setreply_def fork_tell_def Let_def word_ao_dist)
  moreover have "pm_mem L X (set_reply_w p i w ?s4)"
    by (rule pm_mem_cong [OF assms(1)])
       (auto simp: fork_tell_def own_view_def file_of_def word_ao_dist)
  moreover have "mp_pid (mpr (set_reply_w p i w ?s4) c) = pid" "mp_parent (mpr (set_reply_w p i w ?s4) c) = mp_parent (mpr s c)"
    "dblk (mpr (set_reply_w p i w ?s4) c) = dblk (mpr s c)"
    by (auto simp: fork_tell_def dblk_def prog_size_def)
  ultimately show ?thesis by blast
qed

definition used_slots :: "pmstate \<Rightarrow> int set" where
  "used_slots s = {n. 0 \<le> n \<and> n < 64 \<and> mfl s n AND IN_USE \<noteq> 0}"

lemma free_slot_exists:
  assumes "int (card (used_slots s)) \<noteq> 64"
  shows "\<exists>c. find (\<lambda>n. mfl s n AND IN_USE = 0) slots = Some c \<and> 0 \<le> c \<and> c < 64 \<and> mfl s c AND IN_USE = 0"
proof -
  have "find (\<lambda>n. mfl s n AND IN_USE = 0) slots \<noteq> None"
  proof
    assume "find (\<lambda>n. mfl s n AND IN_USE = 0) slots = None"
    then have "used_slots s = {0..63}" by (auto simp: find_None_iff used_slots_def)
    then show False using assms by simp
  qed
  then obtain c where c: "find (\<lambda>n. mfl s n AND IN_USE = 0) slots = Some c" by blast
  then have "c \<in> set slots \<and> mfl s c AND IN_USE = 0" unfolding find_Some_iff by auto
  then show ?thesis using c by auto
qed

definition fork_post :: "int set \<Rightarrow> nat set \<Rightarrow> pmstate \<Rightarrow> int \<times> pmstate \<Rightarrow> bool" where
  "fork_post L X s = (\<lambda>(r, s'). r = EAGAIN \<and> s' = s \<or> r = ENOMEM \<and> pm_mem L X s' \<or>
     (\<exists>c. 0 \<le> c \<and> c < 64 \<and> c \<notin> used_slots s \<and> pm_mem (insert c L) X s' \<and> mp_pid (mpr s' c) = r \<and> 2 \<le> r \<and> r \<le> NR_PIDS \<and>
        mp_parent (mpr s' c) = pm_who s \<and>
        (\<forall>n \<in> used_slots s. mp_pid (mpr s n) \<noteq> r \<and> mp_procgrp (mpr s n) \<noteq> r)))"

lemma fork_finish:
  assumes "pm_mem L (X \<union> blk b (prog_size (mpr s2 (pm_mp s2)))) s2" and "X \<inter> blk b (prog_size (mpr s2 (pm_mp s2))) = {}"
    and "c \<notin> L" and "pm_mp s2 \<in> L" and "b \<noteq> 0" and "unat b + unat (prog_size (mpr s2 (pm_mp s2))) \<le> 2 ^ 32"
    and "mfl s2 (pm_mp s2) AND SEPARATE = 0 \<longrightarrow> mem_len (mp_seg (mpr s2 (pm_mp s2)) T_seg) = 0"
    and "1 \<le> next_pid s2" and "next_pid s2 \<le> NR_PIDS" and "0 \<le> c" and "c < 64" and "reloc s s2" and "c \<notin> used_slots s" and "pm_who s2 = pm_who s"
  shows "safe UNIV (case get_free_pid (fork_install c b s2) of None \<Rightarrow> Inl Hang
    | Some (new_pid, s3) \<Rightarrow> bindr (setreply c 0 (fork_tell c new_pid s3)) (\<lambda>s4. Inr (new_pid, set_reply_w p 0 (word_of_int c) s4)))
    (fork_post L X s)"
proof -
  let ?t = "fork_install c b s2"
  have np: "next_pid ?t = next_pid s2" by (simp add: fork_install_def Let_def)
  from free_pid_exists obtain q where "2 \<le> q" "q \<le> NR_PIDS" "\<not> pid_used q ?t" by blast
  from get_free_pid_from [of ?t, unfolded np, OF assms(8,9) this] obtain r where
    r: "get_free_pid ?t = Some (r, ?t\<lparr>next_pid := r\<rparr>)" "2 \<le> r" "r \<le> NR_PIDS" "\<not> pid_used r ?t" by auto
  have m: "pm_mem (insert c L) X (?t\<lparr>next_pid := r\<rparr>)"
    by (rule pm_mem_cong [OF fork_install_mem [OF assms(1-7)]]) simp_all
  have fl: "mfl (?t\<lparr>next_pid := r\<rparr>) c AND ONSWAP = 0" "mp_parent (mpr (?t\<lparr>next_pid := r\<rparr>) c) = pm_who s"
    using assms(14) by (simp_all add: fork_install_def fork_slot_def Let_def and.assoc)
  from fork_reply [OF m assms(10,11) fl(1), of r p 0 "word_of_int c"] obtain s4 where
    s4: "setreply c 0 (fork_tell c r (?t\<lparr>next_pid := r\<rparr>)) = Inr s4" "pm_mem (insert c L) X (set_reply_w p 0 (word_of_int c) s4)"
    "mp_pid (mpr (set_reply_w p 0 (word_of_int c) s4) c) = r" "mp_parent (mpr (set_reply_w p 0 (word_of_int c) s4) c) = pm_who s"
    using fl(2) by (metis (no_types, lifting))
  have "mp_pid (mpr s n) \<noteq> r \<and> mp_procgrp (mpr s n) \<noteq> r" if "n \<in> used_slots s" for n
  proof -
    have "n \<noteq> c" "n \<in> set slots" using that assms(13) by (auto simp: used_slots_def)
    then have "mpr ?t n = mpr s2 n" by (simp add: fork_install_def Let_def)
    with r(4) \<open>n \<in> set slots\<close> show ?thesis unfolding pid_used_def list_ex_iff
      using reloc_flags(2,3) [OF assms(12), of n] by metis
  qed
  with s4(2-4) r(2,3) assms(10,11,13) have "fork_post L X s (r, set_reply_w p 0 (word_of_int c) s4)"
    unfolding fork_post_def prod.case by blast
  then show ?thesis by (simp add: r(1) s4(1))
qed

lemma fork_post_memory:
  assumes "pm_mem L X s" and "cand_in L s" and "pm_mp s \<in> L" and "L \<subseteq> used_slots s" and "\<not> swap_cand (mfl s (pm_mp s))"
    and "mfl s (pm_mp s) AND SEPARATE = 0 \<longrightarrow> mem_len (mp_seg (mpr s (pm_mp s)) T_seg) = 0"
    and "1 \<le> next_pid s" and "next_pid s \<le> NR_PIDS" and "procs_in_use s = int (card (used_slots s))"
  shows "safe UNIV (do_fork_pm env s) (fork_post L X s)"
proof (cases "procs_in_use s = NR_PROCS \<or> procs_in_use s \<ge> NR_PROCS - LAST_FEW \<and> mp_effuid (mpr s (pm_mp s)) \<noteq> 0")
  case True
  then show ?thesis by (simp add: do_fork_pm_def Let_def fork_post_def)
next
  case False
  let ?p = "mpr s (pm_mp s)"
  have pc: "mem_len (mp_seg ?p S_seg) + (mem_vir (mp_seg ?p S_seg) - mem_vir (mp_seg ?p D_seg)) = prog_size ?p"
    by (simp add: prog_size_def)
  have "prog_size ?p \<noteq> 0" using assms(1,3) by (auto simp: pm_mem_def own_ok_def seg_ok_def)
  from alloc_mem_safe [OF assms(1,2) this, of env] obtain ra where
    ra: "alloc_mem env (prog_size ?p) s = Some ra" "safe {full_msg} ra (alloc_post L X (prog_size ?p) s)" by blast
  from ra(2) have "safe UNIV ra (alloc_post L X (prog_size ?p) s)" by (rule safe_weaken) simp
  note b = safe_bind [OF this]
  show ?thesis
    unfolding do_fork_pm_def Let_def if_not_P [OF False] pc ra(1) option.case
  proof (rule b, clarify, goal_cases)
    case post: (1 cb s1)
    obtain r ws where e: "env (pm_log s1) (SysAbscopy (push_bit CLICK_SHIFT (mem_phys (mp_seg (mpr s1 (pm_mp s)) D_seg)))
        (push_bit CLICK_SHIFT cb) (push_bit CLICK_SHIFT (prog_size ?p))) = (r, ws)" by fastforce
    let ?s2 = "tell (SysAbscopy (push_bit CLICK_SHIFT (mem_phys (mp_seg (mpr s1 (pm_mp s)) D_seg)))
        (push_bit CLICK_SHIFT cb) (push_bit CLICK_SHIFT (prog_size ?p))) s1"
    from post have rl: "reloc s s1" and fr: "alloc_frame s s1" by (simp_all add: alloc_post_def)
    have rl2: "reloc s ?s2" using rl by (simp add: reloc_def)
    note eqs = alloc_frame_eqs [OF fr]
    have mp: "mpr s1 (pm_mp s) = ?p" using reloc_flags(4) [OF rl assms(5)] .
    have iu: "used_slots ?s2 = used_slots s" using reloc_flags(1) [OF rl] by (simp add: used_slots_def)
    from free_slot_exists [of ?s2] False assms(9) obtain c where
      c: "find (\<lambda>n. mfl ?s2 n AND IN_USE = 0) slots = Some c" "0 \<le> c" "c < 64" "mfl ?s2 c AND IN_USE = 0" unfolding iu by auto
    have ci: "c \<notin> used_slots s" using c(4) unfolding iu [symmetric] by (simp add: used_slots_def)
    have fin: "safe UNIV (case get_free_pid (fork_install c cb ?s2) of None \<Rightarrow> Inl Hang
      | Some (new_pid, s3) \<Rightarrow> bindr (setreply c 0 (fork_tell c new_pid s3)) (\<lambda>s4. Inr (new_pid, set_reply_w (pm_mp s) 0 (word_of_int c) s4)))
      (fork_post L X s)" if "cb \<noteq> NO_MEM"
      using post that assms(3,4,6-8) ci mp eqs c(2,3) rl2 by (intro fork_finish) (auto simp: alloc_post_def)
    show ?case
      using post fin unfolding ask_tell e prod.case c(1) option.case
      by (intro safe_ifI) (auto simp: alloc_post_def fork_post_def)
  qed
qed

definition sample_fork :: pmstate where
  "sample_fork = sample_mem\<lparr>mproc_tab := (\<lambda>_. sample_mproc)(7 := sample_waiting\<lparr>mp_flags := IN_USE\<rparr>),
     pm_mp := 7, pm_who := 7, procs_in_use := 1\<rparr>"

lemma sample_fork_ok:
  "pm_mem {7} {} sample_fork" "cand_in {7} sample_fork" "used_slots sample_fork = {7}" "pm_mp sample_fork = 7"
  "\<not> swap_cand (mfl sample_fork 7)" "mem_len (mp_seg (mpr sample_fork 7) T_seg) = 0" "next_pid sample_fork = 2"
  "procs_in_use sample_fork = 1"
proof -
  show "pm_mem {7} {} sample_fork"
    by (rule pm_mem_cong [OF sample_mem_ok(1)])
       (simp_all add: sample_fork_def sample_mem_def sample_waiting_def own_view_def file_of_def)
qed (auto simp: sample_fork_def sample_mem_def sample_pm_def sample_waiting_def sample_mproc_def swap_cand_def cand_in_def used_slots_def)

text \<open>
  C24: fork. When the processes \<open>L\<close> and the blocks \<open>X\<close> have disjoint memory, \<open>do_fork\<close> ends and
  does not index the table out of bounds. It panics, refuses because the table is full, reports
  that there is no memory, or the caller has a child in a slot that was not in use: the memory of
  the child is disjoint from that of every other process (but for a shared text), its process id is
  one that no process had as id or group, and its parent is the caller.
\<close>

theorem do_fork_child:
  assumes "pm_mem L X s" and "cand_in L s" and "pm_mp s \<in> L" and "L \<subseteq> used_slots s" and "\<not> swap_cand (mfl s (pm_mp s))"
    and "mfl s (pm_mp s) AND SEPARATE = 0 \<longrightarrow> mem_len (mp_seg (mpr s (pm_mp s)) T_seg) = 0"
    and "1 \<le> next_pid s" and "next_pid s \<le> NR_PIDS" and "procs_in_use s = int (card (used_slots s))"
  shows "(\<exists>m. do_fork_pm env s = Inl (Panic m)) \<or>
    (\<exists>r s'. do_fork_pm env s = Inr (r, s') \<and> (r = EAGAIN \<and> s' = s \<or> r = ENOMEM \<and> pm_mem L X s' \<or>
      (\<exists>c. 0 \<le> c \<and> c < 64 \<and> c \<notin> used_slots s \<and> pm_mem (insert c L) X s' \<and> mp_pid (mpr s' c) = r \<and> 2 \<le> r \<and> r \<le> NR_PIDS \<and>
         mp_parent (mpr s' c) = pm_who s \<and> (\<forall>n \<in> used_slots s. mp_pid (mpr s n) \<noteq> r \<and> mp_procgrp (mpr s n) \<noteq> r))))"
  using fork_post_memory [OF assms, of env] unfolding safe_def fork_post_def
  by (cases "do_fork_pm env s") (force split: prod.splits)+

theorem do_fork_child_witness:
  "(\<exists>m. do_fork_pm quiet_env sample_fork = Inl (Panic m)) \<or>
   (\<exists>r s'. do_fork_pm quiet_env sample_fork = Inr (r, s') \<and> (r = EAGAIN \<and> s' = sample_fork \<or> r = ENOMEM \<and> pm_mem {7} {} s' \<or>
      (\<exists>c. c \<noteq> 7 \<and> pm_mem {c, 7} {} s' \<and> mp_pid (mpr s' c) = r \<and> 2 \<le> r)))"
proof -
  note k = sample_fork_ok
  have "7 \<in> {7 :: int}" by simp
  from do_fork_child [OF k(1,2), of quiet_env] show ?thesis unfolding k by (simp add: k) blast
qed

end
