(* ===== verification/Fs_State.thy ===== *)
theory Fs_State
  imports Pm_State Phys_Mem
begin

unbundle bit_operations_syntax

text \<open>
  The data of the file system server (\<open>servers/fs\<close>): buffer cache (\<open>buf.h\<close>), inode table
  (\<open>inode.h\<close>), super blocks (\<open>super.h\<close>), open files (\<open>file.h\<close>), processes (\<open>fproc.h\<close>), locks
  (\<open>lock.h\<close>), drivers (\<open>dmap.h\<close>) and globals (\<open>glo.h\<close>). A pointer into a table is an index, the
  null pointer is \<open>None\<close>. The data of a block is a function from byte offsets to bytes, so that
  every member of the union \<open>b\<close> is a way to look at it.

  The file system reaches drivers, the kernel and user processes by messages. \<open>fs_log\<close> is the
  sequence of its requests, and what the rest of the system answers is a parameter, a function of
  that history and of the request. A driver that transfers data to or from a buffer of the file
  system does so before it answers: the bytes to be written are part of the request, the bytes
  read are part of the answer.
\<close>

section \<open>Constants\<close>

abbreviation (input) NR_BUFS :: nat where "NR_BUFS \<equiv> 1280"
abbreviation (input) NR_BUF_HASH :: nat where "NR_BUF_HASH \<equiv> 2048"
abbreviation (input) NR_IOREQS :: nat where "NR_IOREQS \<equiv> 64"
abbreviation (input) NR_FILPS :: nat where "NR_FILPS \<equiv> 128"
abbreviation (input) NR_INODES :: nat where "NR_INODES \<equiv> 64"
abbreviation (input) NR_SUPERS :: nat where "NR_SUPERS \<equiv> 8"
abbreviation (input) NR_LOCKS :: nat where "NR_LOCKS \<equiv> 8"
abbreviation (input) NR_DEVICES :: nat where "NR_DEVICES \<equiv> 32"
abbreviation (input) OPEN_MAX :: nat where "OPEN_MAX \<equiv> 20"
abbreviation (input) PATH_MAX :: int where "PATH_MAX \<equiv> 255"
abbreviation (input) MIN_BLOCK_SIZE :: nat where "MIN_BLOCK_SIZE \<equiv> 1024"
abbreviation (input) STATIC_BLOCK_SIZE :: nat where "STATIC_BLOCK_SIZE \<equiv> 1024"
abbreviation (input) MAX_BLOCK_SIZE :: nat where "MAX_BLOCK_SIZE \<equiv> 4096"
abbreviation (input) NO_DEV :: int where "NO_DEV \<equiv> 0"
abbreviation (input) NO_ZONE :: u32 where "NO_ZONE \<equiv> 0"
abbreviation (input) NO_BLOCK :: u32 where "NO_BLOCK \<equiv> 0"
abbreviation (input) NO_BIT :: u32 where "NO_BIT \<equiv> 0"
abbreviation (input) DEV_RAM :: int where "DEV_RAM \<equiv> 256"
abbreviation (input) ROOT_INODE :: u32 where "ROOT_INODE \<equiv> 1"
abbreviation (input) START_BLOCK :: u32 where "START_BLOCK \<equiv> 2"
abbreviation (input) FS_PROC_NR :: int where "FS_PROC_NR \<equiv> 1"
abbreviation (input) PM_PROC_NR :: int where "PM_PROC_NR \<equiv> 0"

abbreviation (input) V2_NR_TZONES :: nat where "V2_NR_TZONES \<equiv> 10"
abbreviation (input) V1_NR_TZONES :: nat where "V1_NR_TZONES \<equiv> 9"
abbreviation (input) V1_INDIRECTS :: nat where "V1_INDIRECTS \<equiv> 512"
abbreviation (input) V1_INODES_PER_BLOCK :: u32 where "V1_INODES_PER_BLOCK \<equiv> 32"

abbreviation (input) ENOENT :: int where "ENOENT \<equiv> - 2"
abbreviation (input) EIO :: int where "EIO \<equiv> - 5"
abbreviation (input) ENXIO :: int where "ENXIO \<equiv> - 6"
abbreviation (input) EBADF :: int where "EBADF \<equiv> - 9"
abbreviation (input) ENOTBLK :: int where "ENOTBLK \<equiv> - 15"
abbreviation (input) EEXIST :: int where "EEXIST \<equiv> - 17"
abbreviation (input) EXDEV :: int where "EXDEV \<equiv> - 18"
abbreviation (input) ENODEV :: int where "ENODEV \<equiv> - 19"
abbreviation (input) ENOTDIR :: int where "ENOTDIR \<equiv> - 20"
abbreviation (input) EISDIR :: int where "EISDIR \<equiv> - 21"
abbreviation (input) ENFILE :: int where "ENFILE \<equiv> - 23"
abbreviation (input) EMFILE :: int where "EMFILE \<equiv> - 24"
abbreviation (input) ENOTTY :: int where "ENOTTY \<equiv> - 25"
abbreviation (input) EFBIG :: int where "EFBIG \<equiv> - 27"
abbreviation (input) ENOSPC :: int where "ENOSPC \<equiv> - 28"
abbreviation (input) ESPIPE :: int where "ESPIPE \<equiv> - 29"
abbreviation (input) EROFS :: int where "EROFS \<equiv> - 30"
abbreviation (input) EMLINK :: int where "EMLINK \<equiv> - 31"
abbreviation (input) EPIPE :: int where "EPIPE \<equiv> - 32"
abbreviation (input) EDEADLK :: int where "EDEADLK \<equiv> - 35"
abbreviation (input) ENAMETOOLONG :: int where "ENAMETOOLONG \<equiv> - 36"
abbreviation (input) ENOLCK :: int where "ENOLCK \<equiv> - 37"
abbreviation (input) ENOTEMPTY :: int where "ENOTEMPTY \<equiv> - 39"
abbreviation (input) EGENERIC :: int where "EGENERIC \<equiv> - 99"
abbreviation (input) END_OF_FILE :: int where "END_OF_FILE \<equiv> - 104"
abbreviation (input) EDEADDST :: int where "EDEADDST \<equiv> - 105"

abbreviation (input) I_TYPE :: u16 where "I_TYPE \<equiv> 0xF000"
abbreviation (input) I_REGULAR :: u16 where "I_REGULAR \<equiv> 0x8000"
abbreviation (input) I_BLOCK_SPECIAL :: u16 where "I_BLOCK_SPECIAL \<equiv> 0x6000"
abbreviation (input) I_DIRECTORY :: u16 where "I_DIRECTORY \<equiv> 0x4000"
abbreviation (input) I_CHAR_SPECIAL :: u16 where "I_CHAR_SPECIAL \<equiv> 0x2000"
abbreviation (input) I_NAMED_PIPE :: u16 where "I_NAMED_PIPE \<equiv> 0x1000"
abbreviation (input) I_SET_UID_BIT :: u16 where "I_SET_UID_BIT \<equiv> 0x800"
abbreviation (input) I_SET_GID_BIT :: u16 where "I_SET_GID_BIT \<equiv> 0x400"
abbreviation (input) ALL_MODES :: u16 where "ALL_MODES \<equiv> 0xDFF"
abbreviation (input) RWX_MODES :: u16 where "RWX_MODES \<equiv> 0x1FF"
abbreviation (input) R_BIT :: u16 where "R_BIT \<equiv> 4"
abbreviation (input) W_BIT :: u16 where "W_BIT \<equiv> 2"
abbreviation (input) X_BIT :: u16 where "X_BIT \<equiv> 1"
abbreviation (input) I_NOT_ALLOC :: u16 where "I_NOT_ALLOC \<equiv> 0"

abbreviation (input) O_CREAT :: u32 where "O_CREAT \<equiv> 0x40"
abbreviation (input) O_EXCL :: u32 where "O_EXCL \<equiv> 0x80"
abbreviation (input) O_NOCTTY :: u32 where "O_NOCTTY \<equiv> 0x100"
abbreviation (input) O_TRUNC :: u32 where "O_TRUNC \<equiv> 0x200"
abbreviation (input) O_APPEND :: u32 where "O_APPEND \<equiv> 0x400"
abbreviation (input) O_NONBLOCK :: u32 where "O_NONBLOCK \<equiv> 0x800"

abbreviation (input) ATIME :: u8 where "ATIME \<equiv> 2"
abbreviation (input) CTIME :: u8 where "CTIME \<equiv> 4"
abbreviation (input) MTIME :: u8 where "MTIME \<equiv> 8"

abbreviation (input) XPIPE :: int where "XPIPE \<equiv> - 5"
abbreviation (input) XLOCK :: int where "XLOCK \<equiv> - 6"
abbreviation (input) XPOPEN :: int where "XPOPEN \<equiv> - 7"
abbreviation (input) XSELECT :: int where "XSELECT \<equiv> - 8"

abbreviation (input) READ_CALL :: int where "READ_CALL \<equiv> 3"
abbreviation (input) WRITE_CALL :: int where "WRITE_CALL \<equiv> 4"

abbreviation (input) CANCEL :: int where "CANCEL \<equiv> 0x400"
abbreviation (input) DEV_READ :: int where "DEV_READ \<equiv> 0x403"
abbreviation (input) DEV_WRITE :: int where "DEV_WRITE \<equiv> 0x404"
abbreviation (input) DEV_IOCTL :: int where "DEV_IOCTL \<equiv> 0x405"
abbreviation (input) DEV_OPEN :: int where "DEV_OPEN \<equiv> 0x406"
abbreviation (input) DEV_CLOSE :: int where "DEV_CLOSE \<equiv> 0x407"
abbreviation (input) DEV_SCATTER :: int where "DEV_SCATTER \<equiv> 0x408"
abbreviation (input) DEV_GATHER :: int where "DEV_GATHER \<equiv> 0x409"
abbreviation (input) DEV_SELECT :: int where "DEV_SELECT \<equiv> 0x40C"
abbreviation (input) DEV_STATUS :: int where "DEV_STATUS \<equiv> 0x40D"
abbreviation (input) DEV_REVIVE :: int where "DEV_REVIVE \<equiv> 0x502"
abbreviation (input) DEV_IO_READY :: int where "DEV_IO_READY \<equiv> 0x503"
abbreviation (input) REVIVE :: int where "REVIVE \<equiv> 67"

section \<open>Structures\<close>

datatype rw_flag = READING | WRITING

record buf =
  b_data :: mem
  b_next :: "nat option"
  b_prev :: "nat option"
  b_hash :: "nat option"
  b_blocknr :: u32
  b_dev :: int
  b_dirt :: bool
  b_count :: int

record inode =
  i_mode :: u16
  i_nlinks :: int
  i_uid :: int
  i_gid :: int
  i_size :: u32
  i_atime :: int
  i_mtime :: int
  i_ctime :: int
  i_zone :: "nat \<Rightarrow> u32"
  i_dev :: int
  i_num :: u32
  i_count :: int
  i_ndzones :: nat
  i_nindirs :: nat
  i_sp :: "nat option"
  i_dirt :: bool
  i_pipe :: bool
  i_mount :: bool
  i_seek :: bool
  i_update :: u8

record super_block =
  s_ninodes :: u32
  s_nzones :: u16
  s_imap_blocks :: int
  s_zmap_blocks :: int
  s_firstdatazone :: u16
  s_log_zone_size :: int
  s_max_size :: u32
  s_zones :: u32
  s_magic :: int
  s_block_size :: u16
  s_isup :: "nat option"
  s_imount :: "nat option"
  s_inodes_per_block :: u32
  s_dev :: int
  s_rd_only :: bool
  s_native :: bool
  s_version :: int
  s_ndzones :: nat
  s_nindirs :: nat
  s_isearch :: u32
  s_zsearch :: u32

record filp =
  filp_mode :: u16
  filp_flags :: u32
  filp_count :: int
  filp_ino :: "nat option"
  filp_pos :: u32
  filp_selectors :: int
  filp_select_ops :: u32
  filp_pipe_select_ops :: u32

record fproc =
  fp_umask :: u16
  fp_workdir :: "nat option"
  fp_rootdir :: "nat option"
  fp_filp :: "nat \<Rightarrow> nat option"
  fp_realuid :: int
  fp_effuid :: int
  fp_realgid :: int
  fp_effgid :: int
  fp_tty :: int
  fp_fd :: int
  fp_buffer :: u32
  fp_nbytes :: int
  fp_cum_io_partial :: int
  fp_suspended :: bool
  fp_revived :: bool
  fp_task :: int
  fp_sesldr :: bool
  fp_pid :: int
  fp_cloexec :: u32

record file_lock =
  lock_type :: int
  lock_pid :: int
  lock_inode :: "nat option"
  lock_first :: u32
  lock_last :: u32

text \<open>The functions that \<open>dmap\<close> points to.\<close>

datatype opcl_fun = NoOpcl | NoDev | GenOpcl | TtyOpcl | CttyOpcl | CloneOpcl
datatype io_fun = NoIo | GenIo | CttyIo

record dmap =
  dmap_opcl :: opcl_fun
  dmap_io :: io_fun
  dmap_driver :: int
  dmap_flags :: u32

record selectentry =
  requestor :: "int option"
  req_procnr :: int
  readfds :: u32
  writefds :: u32
  errorfds :: u32
  ready_readfds :: u32
  ready_writefds :: u32
  ready_errorfds :: u32
  vir_readfds :: u32
  vir_writefds :: u32
  vir_errorfds :: u32
  sel_filps :: "nat \<Rightarrow> nat option"
  sel_type :: "nat \<Rightarrow> nat"
  sel_nfds :: nat
  nreadyfds :: int
  sel_expiry :: int

text \<open>
  A request. The memory that a driver reads or writes is that of a process, or a list of buffers
  of the file system; the bytes that it will find there go with the request.
\<close>

datatype fs_addr = UserMem u32 | BufMem

datatype fs_req =
    RqSendrec int message fs_addr "u8 list list"
  | RqReceive int
  | RqReply int message
  | RqCopyIn int nat u32 nat
  | RqCopyOut int nat u32 "u8 list"
  | RqUptime
  | RqSetalarm int
  | RqKill int int
  | RqParam string
  | RqUmap int nat u32 int
  | RqCopyTab int int u32
  | RqExit int
  | RqSvrctl int int

record fs_ans =
  a_res :: int
  a_msg :: message
  a_words :: "u32 list"
  a_bytes :: "u8 list"

text \<open>What a driver transferred: the sizes it wrote back into an I/O vector, and bytes.\<close>

type_synonym xfer = "u32 list \<times> u8 list"

type_synonym fs_env = "fs_req list \<Rightarrow> fs_req \<Rightarrow> fs_ans"

datatype fs_watchdog = SelectTimeoutCheck | NoFsWatchdog

record fsstate =
  bufs :: "nat \<Rightarrow> buf"
  buf_hash :: "nat \<Rightarrow> nat option"
  front :: "nat option"
  rear :: "nat option"
  bufs_in_use :: int
  inodes :: "nat \<Rightarrow> inode"
  supers :: "nat \<Rightarrow> super_block"
  filps :: "nat \<Rightarrow> filp"
  fprocs :: "int \<Rightarrow> fproc"
  file_locks :: "nat \<Rightarrow> file_lock"
  dmaps :: "nat \<Rightarrow> dmap"
  selecttab :: "nat \<Rightarrow> selectentry"
  fs_timers :: "(nat, fs_watchdog) tqueue"
  fs_fp :: int
  super_user :: bool
  susp_count :: int
  nr_locks :: int
  reviving :: int
  rdahedpos :: u32
  rdahed_inode :: "nat option"
  root_dev :: int
  fs_boottime :: int
  fs_in :: message
  fs_out :: message
  fs_who :: int
  fs_call_nr :: int
  user_path :: "u8 list"
  err_code :: int
  rdwt_err :: int
  fs_log :: "fs_req list"

section \<open>Access\<close>

definition fs_ask :: "fs_env \<Rightarrow> fs_req \<Rightarrow> fsstate \<Rightarrow> fs_ans \<times> fsstate" where
  "fs_ask env r s = (env (fs_log s) r, s\<lparr>fs_log := fs_log s @ [r]\<rparr>)"

definition fs_tell :: "fs_req \<Rightarrow> fsstate \<Rightarrow> fsstate" where
  "fs_tell r s = s\<lparr>fs_log := fs_log s @ [r]\<rparr>"

lemma fs_ask_tell: "fs_ask env r s = (env (fs_log s) r, fs_tell r s)"
  by (simp add: fs_ask_def fs_tell_def)

definition upd_buf :: "nat \<Rightarrow> (buf \<Rightarrow> buf) \<Rightarrow> fsstate \<Rightarrow> fsstate" where
  "upd_buf n f s = s\<lparr>bufs := (bufs s)(n := f (bufs s n))\<rparr>"

definition upd_ino :: "nat \<Rightarrow> (inode \<Rightarrow> inode) \<Rightarrow> fsstate \<Rightarrow> fsstate" where
  "upd_ino n f s = s\<lparr>inodes := (inodes s)(n := f (inodes s n))\<rparr>"

definition upd_sup :: "nat \<Rightarrow> (super_block \<Rightarrow> super_block) \<Rightarrow> fsstate \<Rightarrow> fsstate" where
  "upd_sup n f s = s\<lparr>supers := (supers s)(n := f (supers s n))\<rparr>"

definition upd_filp :: "nat \<Rightarrow> (filp \<Rightarrow> filp) \<Rightarrow> fsstate \<Rightarrow> fsstate" where
  "upd_filp n f s = s\<lparr>filps := (filps s)(n := f (filps s n))\<rparr>"

definition upd_fp :: "int \<Rightarrow> (fproc \<Rightarrow> fproc) \<Rightarrow> fsstate \<Rightarrow> fsstate" where
  "upd_fp n f s = s\<lparr>fprocs := (fprocs s)(n := f (fprocs s n))\<rparr>"

abbreviation cur :: "fsstate \<Rightarrow> fproc" where
  "cur s \<equiv> fprocs s (fs_fp s)"

text \<open>Fields of the message that is served.\<close>

abbreviation fs_arg :: "fsstate \<Rightarrow> nat \<Rightarrow> int" where
  "fs_arg s i \<equiv> int_field (fs_in s) i"

abbreviation fs_word :: "fsstate \<Rightarrow> nat \<Rightarrow> u32" where
  "fs_word s i \<equiv> m_w (fs_in s) i"

text \<open>\<open>(dev >> MAJOR) & BYTE\<close> and \<open>(dev >> MINOR) & BYTE\<close>.\<close>

definition major :: "int \<Rightarrow> nat" where
  "major dev = nat (dev div 256 mod 256)"

definition minor :: "int \<Rightarrow> nat" where
  "minor dev = nat (dev mod 256)"

text \<open>16-bit fields of a block.\<close>

definition get16 :: "mem \<Rightarrow> u32 \<Rightarrow> u16" where
  "get16 m a = ucast (m a) OR push_bit 8 (ucast (m (a + 1)))"

definition put16 :: "u32 \<Rightarrow> u16 \<Rightarrow> mem \<Rightarrow> mem" where
  "put16 a v m = m(a := ucast v, a + 1 := ucast (drop_bit 8 v))"

section \<open>Byte order (\<open>utility.c\<close>)\<close>

definition conv2 :: "bool \<Rightarrow> u16 \<Rightarrow> u16" where
  "conv2 norm w = (if norm then w else push_bit 8 (w AND 0xFF) OR (drop_bit 8 w AND 0xFF))"

definition conv4 :: "bool \<Rightarrow> u32 \<Rightarrow> u32" where
  "conv4 norm x =
     (if norm then x
      else let lo = conv2 False (ucast x); hi = conv2 False (ucast (drop_bit 16 x))
           in push_bit 16 (ucast lo) OR ucast hi)"

text \<open>\<open>conv2\<close> gives an unsigned number, a field of type \<open>short\<close> is signed.\<close>

definition conv2i :: "bool \<Rightarrow> int \<Rightarrow> int" where
  "conv2i norm w = uint (conv2 norm (word_of_int w))"

section \<open>Updates\<close>

lemma upd_buf_fields [simp]:
  "bufs (upd_buf n f s) = (bufs s)(n := f (bufs s n))" "buf_hash (upd_buf n f s) = buf_hash s"
  "front (upd_buf n f s) = front s" "rear (upd_buf n f s) = rear s" "supers (upd_buf n f s) = supers s"
  "inodes (upd_buf n f s) = inodes s" "fs_log (upd_buf n f s) = fs_log s" "dmaps (upd_buf n f s) = dmaps s"
  "fs_fp (upd_buf n f s) = fs_fp s" "fprocs (upd_buf n f s) = fprocs s" "filps (upd_buf n f s) = filps s"
  "bufs_in_use (upd_buf n f s) = bufs_in_use s"
  by (simp_all add: upd_buf_def)

lemma fs_tell_fields [simp]:
  "bufs (fs_tell r s) = bufs s" "buf_hash (fs_tell r s) = buf_hash s"
  "front (fs_tell r s) = front s" "rear (fs_tell r s) = rear s" "supers (fs_tell r s) = supers s"
  "inodes (fs_tell r s) = inodes s" "fs_log (fs_tell r s) = fs_log s @ [r]" "dmaps (fs_tell r s) = dmaps s"
  "fs_fp (fs_tell r s) = fs_fp s" "fprocs (fs_tell r s) = fprocs s" "filps (fs_tell r s) = filps s"
  "bufs_in_use (fs_tell r s) = bufs_in_use s"
  by (simp_all add: fs_tell_def)

lemma conv2_conv2 [simp]: "conv2 norm (conv2 norm w) = w"
proof -
  have m: "(0xFF :: u16) = mask 8" by (simp add: mask_eq_exp_minus_1)
  have "bit (conv2 norm (conv2 norm w)) k = bit w k" if "k < 16" for k
    using that unfolding conv2_def m by (auto simp: bit_simps)
  then show ?thesis by (intro bit_word_eqI) simp
qed

end
