(* ===== verification/Fs_Dev.thy ===== *)
theory Fs_Dev
  imports Fs_State Strtol
begin

unbundle bit_operations_syntax

text \<open>
  Processes that wait, and the calls of drivers: \<open>reply\<close> (\<open>main.c\<close>), \<open>suspend\<close> and \<open>revive\<close>
  (\<open>pipe.c\<close>), \<open>device.c\<close> but for the cloned devices, and the table of drivers (\<open>dmap.c\<close>).
\<close>

section \<open>Waiting processes\<close>

definition reply :: "int \<Rightarrow> int \<Rightarrow> fsstate \<Rightarrow> fsstate" where
  "reply whom result s =
     (let s1 = s\<lparr>fs_out := (fs_out s)\<lparr>m_type := result\<rparr>\<rparr> in fs_tell (RqReply whom (fs_out s1)) s1)"

definition suspend :: "int \<Rightarrow> fsstate \<Rightarrow> fsstate" where
  "suspend task s =
     (let s1 = (if task = XPIPE \<or> task = XPOPEN then s\<lparr>susp_count := susp_count s + 1\<rparr> else s) in
      upd_fp (fs_fp s1) (\<lambda>p. p\<lparr>fp_suspended := True,
          fp_fd := sint (push_bit 8 (fs_word s1 0) OR word_of_int (fs_call_nr s1)),
          fp_task := schar (- task),
          fp_buffer := fs_word s1 3,
          fp_nbytes := fs_arg s1 1\<rparr>) s1)"

definition revive :: "int \<Rightarrow> int \<Rightarrow> fsstate \<Rightarrow> fsstate res" where
  "revive proc_nr returned s =
     (if proc_nr < 0 \<or> proc_nr \<ge> NR_PROCS then Inl (Panic ''revive err'')
      else let rfp = fprocs s proc_nr in
      if \<not> fp_suspended rfp \<or> fp_revived rfp then Inr s
      else let task = - fp_task rfp in
      if task = XPIPE \<or> task = XLOCK
      then Inr ((upd_fp proc_nr (\<lambda>p. p\<lparr>fp_revived := True\<rparr>) s)\<lparr>reviving := reviving s + 1\<rparr>)
      else let s1 = upd_fp proc_nr (\<lambda>p. p\<lparr>fp_suspended := False\<rparr>) s in
      if task = XPOPEN then Inr (reply proc_nr (fp_fd rfp div 256) s1)
      else if task = XSELECT then Inr (reply proc_nr returned s1)
      else Inr (reply proc_nr returned (upd_fp proc_nr (\<lambda>p. p\<lparr>fp_nbytes := returned\<rparr>) s1)))"

section \<open>Messages to drivers\<close>

abbreviation (input) REP_PROC_NR :: "message \<Rightarrow> int" where "REP_PROC_NR m \<equiv> int_field m 0"
abbreviation (input) REP_STATUS :: "message \<Rightarrow> int" where "REP_STATUS m \<equiv> int_field m 1"

definition isokprocnr :: "int \<Rightarrow> bool" where
  "isokprocnr n \<longleftrightarrow> - 4 \<le> n \<and> n < 64"

text \<open>
  The loop that sends: it ends with the result of the last \<open>sendrec\<close> or \<open>receive\<close>, the message and
  the bytes transferred, or \<open>None\<close> when a request to cancel was overtaken by the reply.
\<close>

partial_function (option) gen_send ::
  "fs_env \<Rightarrow> int \<Rightarrow> message \<Rightarrow> fs_addr \<Rightarrow> u8 list list \<Rightarrow> fsstate \<Rightarrow> ((int \<times> message \<times> xfer) option \<times> fsstate) res option" where
  "gen_send env task_nr m adr dat s =
     (let (a, s1) = fs_ask env (RqSendrec task_nr m adr dat) s in
      if a_res a \<noteq> ELOCKED then Some (Inr (Some (a_res a, if a_res a = OK then a_msg a else m, (a_words a, a_bytes a)), s1))
      else let (b, s2) = fs_ask env (RqReceive task_nr) s1 in
      if a_res b \<noteq> OK then Some (Inr (Some (a_res b, m, ([], [])), s2))
      else if m_type m = CANCEL \<and> REP_PROC_NR (a_msg b) = int_field m 1 then Some (Inr (None, s2))
      else if m_type (a_msg b) \<noteq> REVIVE then gen_send env task_nr m adr dat s2
      else (case revive (REP_PROC_NR (a_msg b)) (REP_STATUS (a_msg b)) s2 of
              Inl e \<Rightarrow> Some (Inl e)
            | Inr s3 \<Rightarrow> gen_send env task_nr m adr dat s3))"

text \<open>The loop that waits for the reply of the process on whose behalf the call was made.\<close>

partial_function (option) gen_wait ::
  "fs_env \<Rightarrow> int \<Rightarrow> int \<Rightarrow> int \<Rightarrow> message \<Rightarrow> xfer \<Rightarrow> fsstate \<Rightarrow> ((message \<times> xfer) \<times> fsstate) res option" where
  "gen_wait env task_nr proc_nr r m bs s =
     (if r \<noteq> OK then (if r = EDEADDST then Some (Inr ((m, bs), s)) else Some (Inl (Panic ''call_task: can't send/receive'')))
      else if REP_PROC_NR m = proc_nr then Some (Inr ((m, bs), s))
      else if m_type m = REVIVE
      then (case revive (REP_PROC_NR m) (REP_STATUS m) s of
              Inl e \<Rightarrow> Some (Inl e)
            | Inr s1 \<Rightarrow> let (a, s2) = fs_ask env (RqReceive task_nr) s1
                        in gen_wait env task_nr proc_nr (a_res a) (if a_res a = OK then a_msg a else m) (a_words a, a_bytes a) s2)
      else Some (Inr ((m, bs), s)))"

definition gen_io :: "fs_env \<Rightarrow> int \<Rightarrow> message \<Rightarrow> fs_addr \<Rightarrow> u8 list list \<Rightarrow> fsstate \<Rightarrow> ((message \<times> xfer) \<times> fsstate) res" where
  "gen_io env task_nr m adr dat s =
     (let proc_nr = int_field m 1 in
      if \<not> isokprocnr proc_nr then Inr ((m, ([], [])), s)
      else bindr (ran (gen_send env task_nr m adr dat s)) (\<lambda>(x, s1).
           case x of
             None \<Rightarrow> Inr ((m, ([], [])), s1)
           | Some (r, m1, bs) \<Rightarrow> ran (gen_wait env task_nr proc_nr r m1 bs s1)))"

definition dmap_at :: "int \<Rightarrow> nat res" where
  "dmap_at dev = (if major dev < NR_DEVICES then Inr (major dev) else Inl (BadIndex (int (major dev))))"

text \<open>\<open>/dev/tty\<close> stands for the controlling terminal; a terminal that is \<open>/dev/tty\<close> again never ends.\<close>

definition ctty_io :: "fs_env \<Rightarrow> message \<Rightarrow> fs_addr \<Rightarrow> u8 list list \<Rightarrow> fsstate \<Rightarrow> ((message \<times> xfer) \<times> fsstate) res" where
  "ctty_io env m adr dat s =
     (let tty = fp_tty (cur s) in
      if tty = 0 then Inr ((mset_w 1 (word_of_int EIO) m, ([], [])), s)
      else bindr (dmap_at tty) (\<lambda>j.
           let dp = dmaps s j; m1 = mset_w 0 (of_nat (minor tty)) m in
           case dmap_io dp of
             GenIo \<Rightarrow> gen_io env (dmap_driver dp) m1 adr dat s
           | CttyIo \<Rightarrow> Inl Hang
           | NoIo \<Rightarrow> Inl NullDeref))"

definition call_io :: "fs_env \<Rightarrow> io_fun \<Rightarrow> int \<Rightarrow> message \<Rightarrow> fs_addr \<Rightarrow> u8 list list \<Rightarrow> fsstate \<Rightarrow> ((message \<times> xfer) \<times> fsstate) res" where
  "call_io env io task_nr m adr dat s =
     (case io of
        GenIo \<Rightarrow> gen_io env task_nr m adr dat s
      | CttyIo \<Rightarrow> ctty_io env m adr dat s
      | NoIo \<Rightarrow> Inl NullDeref)"

abbreviation (input) no_mess :: message where
  "no_mess \<equiv> \<lparr>m_source = 0, m_type = 0, m_w = (\<lambda>_. 0)\<rparr>"

definition dev_mess :: "int \<Rightarrow> int \<Rightarrow> int \<Rightarrow> fs_addr \<Rightarrow> u32 \<Rightarrow> int \<Rightarrow> u32 \<Rightarrow> message" where
  "dev_mess op dev proc adr pos nbytes flags =
     \<lparr>m_source = 0, m_type = op,
      m_w = (\<lambda>_. 0)(0 := of_nat (minor dev), 1 := word_of_int proc, 2 := word_of_int nbytes, 3 := pos, 4 := flags,
        5 := (case adr of UserMem a \<Rightarrow> a | BufMem \<Rightarrow> 0))\<rparr>"

definition dev_io ::
  "fs_env \<Rightarrow> int \<Rightarrow> int \<Rightarrow> int \<Rightarrow> fs_addr \<Rightarrow> u8 list list \<Rightarrow> u32 \<Rightarrow> int \<Rightarrow> u32 \<Rightarrow> fsstate \<Rightarrow> ((int \<times> xfer) \<times> fsstate) res" where
  "dev_io env op dev proc adr dat pos nbytes flags s =
     bindr (dmap_at dev) (\<lambda>j.
     let dp = dmaps s j
     in bindr (call_io env (dmap_io dp) (dmap_driver dp) (dev_mess op dev proc adr pos nbytes flags) adr dat s) (\<lambda>((m, bs), s1).
        if REP_STATUS m = SUSPEND
        then if flags AND O_NONBLOCK \<noteq> 0
             then let m1 = (mset_w 0 (of_nat (minor dev)) (mset_w 1 (word_of_int proc) m))\<lparr>m_type := CANCEL\<rparr> in
                  bindr (call_io env (dmap_io dp) (dmap_driver dp) m1 adr [] s1) (\<lambda>((m2, bs2), s2).
                  Inr ((if REP_STATUS m2 = EINTR then EAGAIN else REP_STATUS m2, bs2), s2))
             else Inr ((SUSPEND, bs), suspend (dmap_driver dp) s1)
        else Inr ((REP_STATUS m, bs), s1)))"

section \<open>Opening and closing devices\<close>

definition gen_opcl :: "fs_env \<Rightarrow> int \<Rightarrow> int \<Rightarrow> int \<Rightarrow> u32 \<Rightarrow> fsstate \<Rightarrow> (int \<times> fsstate) res" where
  "gen_opcl env op dev proc flags s =
     bindr (dmap_at dev) (\<lambda>j.
     let dp = dmaps s j;
         m = \<lparr>m_source = 0, m_type = op, m_w = (\<lambda>_. 0)(0 := of_nat (minor dev), 1 := word_of_int proc, 2 := flags)\<rparr>
     in bindr (call_io env (dmap_io dp) (dmap_driver dp) m (UserMem 0) [] s) (\<lambda>((m1, _), s1).
        Inr (REP_STATUS m1, s1)))"

definition tty_opcl :: "fs_env \<Rightarrow> int \<Rightarrow> int \<Rightarrow> int \<Rightarrow> u32 \<Rightarrow> fsstate \<Rightarrow> (int \<times> fsstate) res" where
  "tty_opcl env op dev proc flags s =
     (let p = cur s;
          fl = (if \<not> fp_sesldr p \<or> fp_tty p \<noteq> 0 \<or> list_ex (\<lambda>n. fp_tty (fprocs s n) = dev) slots then flags OR O_NOCTTY else flags)
      in bindr (gen_opcl env op dev proc fl s) (\<lambda>(r, s1).
         if r = 1 then Inr (OK, upd_fp (fs_fp s1) (\<lambda>p. p\<lparr>fp_tty := dev\<rparr>) s1) else Inr (r, s1)))"

definition ctty_opcl :: "fsstate \<Rightarrow> (int \<times> fsstate) res" where
  "ctty_opcl s = Inr (if fp_tty (cur s) = 0 then ENXIO else OK, s)"

definition no_dev :: "fsstate \<Rightarrow> (int \<times> fsstate) res" where
  "no_dev s = Inr (ENODEV, s)"

definition fproc_at :: "int \<Rightarrow> int res" where
  "fproc_at n = (if 0 \<le> n \<and> n < NR_PROCS then Inr n else Inl (BadIndex n))"

definition do_setsid :: "fsstate \<Rightarrow> (int \<times> fsstate) res" where
  "do_setsid s =
     (if fs_who s \<noteq> PM_PROC_NR then Inr (ENOSYS, s)
      else bindr (fproc_at (fs_arg s 0)) (\<lambda>n. Inr (OK, upd_fp n (\<lambda>p. p\<lparr>fp_sesldr := True, fp_tty := 0\<rparr>) s)))"

section \<open>The table of drivers\<close>

abbreviation (input) DMAP_MUTABLE :: u32 where "DMAP_MUTABLE \<equiv> 1"
abbreviation (input) DMAP_BUSY :: u32 where "DMAP_BUSY \<equiv> 2"

definition map_driver :: "int \<Rightarrow> int \<Rightarrow> int \<Rightarrow> fsstate \<Rightarrow> (int \<times> fsstate) res" where
  "map_driver maj proc_nr style s =
     (if maj \<ge> int NR_DEVICES then Inr (ENODEV, s)
      else if maj < 0 then Inl (BadIndex maj)
      else let dp = dmaps s (nat maj) in
      if dmap_flags dp AND DMAP_MUTABLE = 0 then Inr (EPERM, s)
      else if dmap_flags dp AND DMAP_BUSY \<noteq> 0 then Inr (EBUSY, s)
      else if \<not> isokprocnr proc_nr then Inr (EINVAL, s)
      else let put = (\<lambda>f. s\<lparr>dmaps := (dmaps s)(nat maj := dp\<lparr>dmap_opcl := f, dmap_io := GenIo, dmap_driver := proc_nr\<rparr>)\<rparr>) in
      if style = 0 then Inr (OK, put GenOpcl)
      else if style = 2 then Inr (OK, put TtyOpcl)
      else if style = 3 then Inr (OK, put CloneOpcl)
      else Inr (EINVAL, s))"

definition do_devctl :: "fsstate \<Rightarrow> (int \<times> fsstate) res" where
  "do_devctl s =
     (if fs_arg s 0 = 1 then map_driver (fs_arg s 2) (fs_arg s 1) (fs_arg s 3) s
      else if fs_arg s 0 = 2 then Inr (ENOSYS, s)
      else Inr (EINVAL, s))"

abbreviation (input) no_dmap :: dmap where
  "no_dmap \<equiv> \<lparr>dmap_opcl = NoDev, dmap_io = NoIo, dmap_driver = 0, dmap_flags = DMAP_MUTABLE\<rparr>"

text \<open>The preset drivers; all other entries are those of \<open>build_dmap\<close> without a default.\<close>

definition init_dmap :: "nat \<Rightarrow> dmap option" where
  "init_dmap i =
     (if i = 1 then Some \<lparr>dmap_opcl = GenOpcl, dmap_io = GenIo, dmap_driver = 3, dmap_flags = 0\<rparr>
      else if i = 4 then Some \<lparr>dmap_opcl = TtyOpcl, dmap_io = GenIo, dmap_driver = 5, dmap_flags = 0\<rparr>
      else if i = 5 then Some \<lparr>dmap_opcl = CttyOpcl, dmap_io = CttyIo, dmap_driver = 5, dmap_flags = 0\<rparr>
      else if i = 15 then Some \<lparr>dmap_opcl = GenOpcl, dmap_io = GenIo, dmap_driver = 4, dmap_flags = 0\<rparr>
      else None)"

definition CTRLR :: "int \<Rightarrow> int" where
  "CTRLR n = (if n = 0 then 3 else 8 + 2 * (n - 1))"

definition controller_major :: "u8 list \<Rightarrow> int res" where
  "controller_major c =
     (if take 2 c = [102, 100] then Inr 2
      else if length c > 1 \<and> c ! 0 = 99 \<and> 48 \<le> c ! 1 \<and> c ! 1 \<le> 57
      then let nr = atoi (tl c) in if nr > 2 then Inl (Panic ''monitor controller maximum c# is'') else Inr (CTRLR nr)
      else Inl (Panic ''monitor controller syntax is c# of fd''))"

definition build_dmap :: "fs_env \<Rightarrow> fsstate \<Rightarrow> fsstate res" where
  "build_dmap env s =
     (let s1 = s\<lparr>dmaps := (\<lambda>i. if i < NR_DEVICES then case init_dmap i of Some d \<Rightarrow> d | None \<Rightarrow> no_dmap else dmaps s i)\<rparr>;
          (a, s2) = fs_ask env (RqParam ''label'') s1
      in if a_res a \<noteq> OK then Inl (Panic ''couldn't get boot monitor parameter driver'')
         else let (b, s3) = fs_ask env (RqParam ''controller'') s2
         in if a_res b \<noteq> OK then Inl (Panic ''couldn't get boot monitor parameter controller'')
            else bindr (controller_major (a_bytes b)) (\<lambda>maj.
                 bindr (map_driver maj 6 0 s3) (\<lambda>(r, s4).
                 if r \<noteq> OK then Inl (Panic ''map_driver failed'') else Inr s4)))"

end
