(* ===== verification/Fs_Cache.thy ===== *)
theory Fs_Cache
  imports Fs_Dev
begin

unbundle bit_operations_syntax

text \<open>
  The buffer cache (\<open>cache.c\<close>; \<open>get_block_size\<close> is in \<open>super.c\<close>, \<open>buf_pool\<close> in \<open>main.c\<close>). A buffer
  is on one of the 2048 hash chains, and also on the LRU chain, doubly linked from \<open>front\<close> to
  \<open>rear\<close>, when nobody uses it. The second level cache is not compiled in (\<open>ENABLE_CACHE2\<close> is 0).
\<close>

datatype search = NORMAL | NO_READ | PREFETCH

abbreviation (input) WRITE_IMMED :: u32 where "WRITE_IMMED \<equiv> 0x40"
abbreviation (input) ONE_SHOT :: u32 where "ONE_SHOT \<equiv> 0x80"
abbreviation (input) INODE_BLOCK :: u32 where "INODE_BLOCK \<equiv> 0"
abbreviation (input) DIRECTORY_BLOCK :: u32 where "DIRECTORY_BLOCK \<equiv> 1"
abbreviation (input) INDIRECT_BLOCK :: u32 where "INDIRECT_BLOCK \<equiv> 2"
abbreviation (input) MAP_BLOCK :: u32 where "MAP_BLOCK \<equiv> 3"
abbreviation (input) FULL_DATA_BLOCK :: u32 where "FULL_DATA_BLOCK \<equiv> 5"
abbreviation (input) PARTIAL_DATA_BLOCK :: u32 where "PARTIAL_DATA_BLOCK \<equiv> 6"

section \<open>Block sizes\<close>

definition find_super :: "int \<Rightarrow> fsstate \<Rightarrow> nat option" where
  "find_super dev s = find (\<lambda>i. s_dev (supers s i) = dev) [0..<NR_SUPERS]"

definition get_block_size :: "int \<Rightarrow> fsstate \<Rightarrow> nat res" where
  "get_block_size dev s =
     (if dev = NO_DEV then Inl (Panic ''request for block size of NO_DEV'')
      else Inr (case find_super dev s of Some i \<Rightarrow> unat (s_block_size (supers s i)) | None \<Rightarrow> MIN_BLOCK_SIZE))"

section \<open>The LRU chain\<close>

definition rm_lru :: "nat \<Rightarrow> fsstate \<Rightarrow> fsstate" where
  "rm_lru bp s =
     (let s0 = s\<lparr>bufs_in_use := bufs_in_use s + 1\<rparr>;
          nxt = b_next (bufs s bp); prv = b_prev (bufs s bp);
          s1 = (case prv of Some p \<Rightarrow> upd_buf p (\<lambda>b. b\<lparr>b_next := nxt\<rparr>) s0 | None \<Rightarrow> s0\<lparr>front := nxt\<rparr>)
      in case nxt of Some n \<Rightarrow> upd_buf n (\<lambda>b. b\<lparr>b_prev := prv\<rparr>) s1 | None \<Rightarrow> s1\<lparr>rear := prv\<rparr>)"

definition lru_front :: "nat \<Rightarrow> fsstate \<Rightarrow> fsstate" where
  "lru_front bp s =
     (let s1 = upd_buf bp (\<lambda>b. b\<lparr>b_prev := None, b_next := front s\<rparr>) s;
          s2 = (case front s of None \<Rightarrow> s1\<lparr>rear := Some bp\<rparr> | Some f \<Rightarrow> upd_buf f (\<lambda>b. b\<lparr>b_prev := Some bp\<rparr>) s1)
      in s2\<lparr>front := Some bp\<rparr>)"

definition lru_rear :: "nat \<Rightarrow> fsstate \<Rightarrow> fsstate" where
  "lru_rear bp s =
     (let s1 = upd_buf bp (\<lambda>b. b\<lparr>b_prev := rear s, b_next := None\<rparr>) s;
          s2 = (case rear s of None \<Rightarrow> s1\<lparr>front := Some bp\<rparr> | Some r \<Rightarrow> upd_buf r (\<lambda>b. b\<lparr>b_next := Some bp\<rparr>) s1)
      in s2\<lparr>rear := Some bp\<rparr>)"

section \<open>Disk transfers\<close>

definition block_bytes :: "nat \<Rightarrow> buf \<Rightarrow> u8 list" where
  "block_bytes n b = read_bytes (b_data b) 0 n"

definition rw_block :: "fs_env \<Rightarrow> nat \<Rightarrow> rw_flag \<Rightarrow> fsstate \<Rightarrow> fsstate res" where
  "rw_block env bp rw s =
     bindr (get_block_size (b_dev (bufs s bp)) s) (\<lambda>block_size.
     let b = bufs s bp; dev = b_dev b; pos = b_blocknr b * of_nat block_size;
         dat = (if rw = WRITING then [block_bytes block_size b] else []);
         op = (if rw = READING then DEV_READ else DEV_WRITE)
     in bindr (dev_io env op dev FS_PROC_NR BufMem dat pos (int block_size) 0 s) (\<lambda>((r, (_, bs)), s1).
        let s2 = (if rw = READING then upd_buf bp (\<lambda>b. b\<lparr>b_data := write_bytes 0 (take block_size bs) (b_data b)\<rparr>) s1 else s1);
            s3 = (if r \<noteq> int block_size
                  then let r1 = (if r \<ge> 0 then END_OF_FILE else r);
                           s4 = upd_buf bp (\<lambda>b. b\<lparr>b_dev := NO_DEV\<rparr>) s2
                       in if rw = READING then s4\<lparr>rdwt_err := r1\<rparr> else s4
                  else s2)
        in Inr (upd_buf bp (\<lambda>b. b\<lparr>b_dirt := False\<rparr>) s3)))"

text \<open>Shell sort of the buffers by block number.\<close>

function sift :: "(nat \<Rightarrow> u32) \<Rightarrow> nat \<Rightarrow> nat \<Rightarrow> nat list \<Rightarrow> nat list" where
  "sift nr gap k q =
     (if 0 < gap \<and> gap \<le> k \<and> nr (q ! (k - gap)) > nr (q ! k)
      then sift nr gap (k - gap) (q[k - gap := q ! k, k := q ! (k - gap)]) else q)"
  by pat_completeness auto
termination by (relation "measure (\<lambda>(nr, gap, k, q). k)") auto

definition shell_pass :: "(nat \<Rightarrow> u32) \<Rightarrow> nat \<Rightarrow> nat list \<Rightarrow> nat list" where
  "shell_pass nr gap q = fold (sift nr gap) [gap..<length q] q"

fun shell_passes :: "(nat \<Rightarrow> u32) \<Rightarrow> nat \<Rightarrow> nat list \<Rightarrow> nat list" where
  "shell_passes nr gap q = (if gap \<le> 1 then q else shell_passes nr (gap div 3) (shell_pass nr (gap div 3) q))"

function first_gap :: "nat \<Rightarrow> nat \<Rightarrow> nat" where
  "first_gap n gap = (if 3 * gap + 1 \<le> n then first_gap n (3 * gap + 1) else 3 * gap + 1)"
  by pat_completeness auto
termination by (relation "measure (\<lambda>(n, gap). n - gap)") auto

definition shell_sort :: "(nat \<Rightarrow> u32) \<Rightarrow> nat list \<Rightarrow> nat list" where
  "shell_sort nr q = shell_passes nr (first_gap (length q) 1) q"

text \<open>How many buffers at the start of the queue are consecutive blocks.\<close>

definition run_length :: "(nat \<Rightarrow> u32) \<Rightarrow> nat list \<Rightarrow> nat" where
  "run_length nr q = length (takeWhile (\<lambda>j. nr (q ! j) = nr (q ! 0) + of_nat j) [0..<min NR_IOREQS (length q)])"

text \<open>
  \<open>put_block\<close> writes the block only if it must be written at once; the two calls with
  \<open>PARTIAL_DATA_BLOCK\<close> in \<open>rw_scattered\<close> never do.
\<close>

definition put_lru :: "nat \<Rightarrow> u32 \<Rightarrow> fsstate \<Rightarrow> fsstate" where
  "put_lru bp block_type s =
     (let s1 = upd_buf bp (\<lambda>b. b\<lparr>b_count := schar (b_count b - 1)\<rparr>) s in
      if b_count (bufs s1 bp) \<noteq> 0 then s1
      else let s2 = s1\<lparr>bufs_in_use := bufs_in_use s1 - 1\<rparr>
           in if b_dev (bufs s2 bp) = DEV_RAM \<or> block_type AND ONE_SHOT \<noteq> 0 then lru_front bp s2 else lru_rear bp s2)"

definition put_block :: "fs_env \<Rightarrow> nat option \<Rightarrow> u32 \<Rightarrow> fsstate \<Rightarrow> fsstate res" where
  "put_block env bpo block_type s =
     (case bpo of
        None \<Rightarrow> Inr s
      | Some bp \<Rightarrow>
          let s1 = put_lru bp block_type s; b = bufs s1 bp in
          if b_count b \<noteq> 0 then Inr s1
          else if block_type AND WRITE_IMMED \<noteq> 0 \<and> b_dirt b \<and> b_dev b \<noteq> NO_DEV then rw_block env bp WRITING s1
          else Inr s1)"

text \<open>Harvesting the results of a transfer: the number of buffers done, and the new state.\<close>

fun harvest :: "rw_flag \<Rightarrow> int \<Rightarrow> int \<Rightarrow> nat \<Rightarrow> (nat \<times> u32) list \<Rightarrow> fsstate \<Rightarrow> nat \<times> fsstate" where
  "harvest rw dev r i [] s = (i, s)"
| "harvest rw dev r i ((bp, sz) # q) s =
     (if sz \<noteq> 0 then (i, if r \<noteq> OK \<and> i = 0 then upd_buf bp (\<lambda>b. b\<lparr>b_dev := NO_DEV\<rparr>) s else s)
      else harvest rw dev r (i + 1) q
        (if rw = READING then put_lru bp PARTIAL_DATA_BLOCK (upd_buf bp (\<lambda>b. b\<lparr>b_dev := dev\<rparr>) s)
         else upd_buf bp (\<lambda>b. b\<lparr>b_dirt := False\<rparr>) s))"

lemma harvest_bound: "fst (harvest rw dev r i q s) \<le> i + length q"
proof (induction rw dev r i q s rule: harvest.induct)
  case (2 rw dev r i bp sz q s)
  show ?case
  proof (cases "sz = 0")
    case True
    then have "fst (harvest rw dev r i ((bp, sz) # q) s) \<le> i + 1 + length q" using 2 by simp
    then show ?thesis by simp
  qed simp
qed simp

text \<open>The sizes that the driver wrote back; an entry that it did not write still has the block size.\<close>

definition iov_sizes :: "nat \<Rightarrow> nat \<Rightarrow> u32 list \<Rightarrow> u32 list" where
  "iov_sizes block_size j ws = map (\<lambda>i. if i < length ws then ws ! i else of_nat block_size) [0..<j]"

definition store_blocks :: "nat \<Rightarrow> nat list \<Rightarrow> u8 list \<Rightarrow> fsstate \<Rightarrow> fsstate" where
  "store_blocks block_size q bs s =
     fold (\<lambda>(i, bp). upd_buf bp (\<lambda>b. b\<lparr>b_data := write_bytes 0 (take block_size (drop (i * block_size) bs)) (b_data b)\<rparr>))
       (zip [0..<length q] q) s"

definition rw_run :: "fs_env \<Rightarrow> int \<Rightarrow> nat \<Rightarrow> rw_flag \<Rightarrow> nat list \<Rightarrow> fsstate \<Rightarrow> (nat \<times> fsstate) res" where
  "rw_run env dev block_size rw q s =
     (let nr = (\<lambda>b. b_blocknr (bufs s b)); j = run_length nr q; qs = take j q;
          dat = (if rw = WRITING then map (\<lambda>b. block_bytes block_size (bufs s b)) qs else [])
      in bindr (dev_io env (if rw = WRITING then DEV_SCATTER else DEV_GATHER) dev FS_PROC_NR BufMem dat
                  (nr (q ! 0) * of_nat block_size) (int j) 0 s) (\<lambda>((r, (ws, bs)), s1).
         let s2 = (if rw = READING then store_blocks block_size qs bs s1 else s1)
         in Inr (harvest rw dev r 0 (zip qs (iov_sizes block_size j ws)) s2)))"

function rw_loop_scat :: "fs_env \<Rightarrow> int \<Rightarrow> nat \<Rightarrow> rw_flag \<Rightarrow> nat list \<Rightarrow> fsstate \<Rightarrow> fsstate res" where
  "rw_loop_scat env dev block_size rw q s =
     (if q = [] then Inr s
      else (case rw_run env dev block_size rw q s of
              Inl e \<Rightarrow> Inl e
            | Inr (i, s1) \<Rightarrow>
                let q1 = drop i q in
                if rw = READING then Inr (fold (\<lambda>bp. put_lru bp PARTIAL_DATA_BLOCK) q1 s1)
                else if i = 0 then Inr s1
                else rw_loop_scat env dev block_size rw q1 s1))"
  by pat_completeness auto
termination by (relation "measure (\<lambda>(env, dev, n, rw, q, s). length q)") auto

definition rw_scattered :: "fs_env \<Rightarrow> int \<Rightarrow> nat list \<Rightarrow> rw_flag \<Rightarrow> fsstate \<Rightarrow> fsstate res" where
  "rw_scattered env dev bufq rw s =
     bindr (get_block_size dev s) (\<lambda>block_size.
     rw_loop_scat env dev block_size rw (shell_sort (\<lambda>b. b_blocknr (bufs s b)) bufq) s)"

definition flushall :: "fs_env \<Rightarrow> int \<Rightarrow> fsstate \<Rightarrow> fsstate res" where
  "flushall env dev s =
     rw_scattered env dev (filter (\<lambda>b. b_dirt (bufs s b) \<and> b_dev (bufs s b) = dev) [0..<NR_BUFS]) WRITING s"

definition invalidate :: "int \<Rightarrow> fsstate \<Rightarrow> fsstate" where
  "invalidate device s =
     s\<lparr>bufs := (\<lambda>n. if n < NR_BUFS \<and> b_dev (bufs s n) = device then (bufs s n)\<lparr>b_dev := NO_DEV\<rparr> else bufs s n)\<rparr>"

section \<open>Getting a block\<close>

definition hash_of :: "u32 \<Rightarrow> nat" where
  "hash_of block = unat (block AND 0x7FF)"

partial_function (option) hash_find :: "int \<Rightarrow> u32 \<Rightarrow> nat option \<Rightarrow> fsstate \<Rightarrow> nat option option" where
  "hash_find dev block bpo s =
     (case bpo of
        None \<Rightarrow> Some None
      | Some bp \<Rightarrow> if b_blocknr (bufs s bp) = block \<and> b_dev (bufs s bp) = dev then Some (Some bp)
                  else hash_find dev block (b_hash (bufs s bp)) s)"

text \<open>The buffer is taken off its hash chain; the search ends at the end of the chain.\<close>

partial_function (option) hash_unlink_from :: "nat option \<Rightarrow> nat \<Rightarrow> fsstate \<Rightarrow> fsstate res option" where
  "hash_unlink_from prev bp s =
     (case prev of
        None \<Rightarrow> Some (Inl NullDeref)
      | Some p \<Rightarrow>
          (case b_hash (bufs s p) of
             None \<Rightarrow> Some (Inr s)
           | Some q \<Rightarrow> if q = bp then Some (Inr (upd_buf p (\<lambda>b. b\<lparr>b_hash := b_hash (bufs s bp)\<rparr>) s))
                       else hash_unlink_from (Some q) bp s))"

definition hash_unlink :: "nat \<Rightarrow> fsstate \<Rightarrow> fsstate res" where
  "hash_unlink bp s =
     (let h = hash_of (b_blocknr (bufs s bp)) in
      if buf_hash s h = Some bp then Inr (s\<lparr>buf_hash := (buf_hash s)(h := b_hash (bufs s bp))\<rparr>)
      else ran (hash_unlink_from (buf_hash s h) bp s))"

definition hash_link :: "nat \<Rightarrow> fsstate \<Rightarrow> fsstate" where
  "hash_link bp s =
     (let h = hash_of (b_blocknr (bufs s bp)); s1 = upd_buf bp (\<lambda>b. b\<lparr>b_hash := buf_hash s h\<rparr>) s
      in s1\<lparr>buf_hash := (buf_hash s1)(h := Some bp)\<rparr>)"

definition use_buf :: "nat \<Rightarrow> fsstate \<Rightarrow> fsstate" where
  "use_buf bp = upd_buf bp (\<lambda>b. b\<lparr>b_count := schar (b_count b + 1)\<rparr>)"

text \<open>The block is not in the cache: the oldest free buffer is taken for it.\<close>

definition get_free_buf :: "fs_env \<Rightarrow> int \<Rightarrow> u32 \<Rightarrow> search \<Rightarrow> fsstate \<Rightarrow> (nat \<times> fsstate) res" where
  "get_free_buf env dev block only_search s =
     (case front s of
        None \<Rightarrow> Inl (Panic ''all buffers in use'')
      | Some bp \<Rightarrow>
          bindr (hash_unlink bp (rm_lru bp s)) (\<lambda>s1.
          bindr (if b_dev (bufs s1 bp) \<noteq> NO_DEV \<and> b_dirt (bufs s1 bp) then flushall env (b_dev (bufs s1 bp)) s1 else Inr s1) (\<lambda>s2.
          let s3 = hash_link bp (use_buf bp (upd_buf bp (\<lambda>b. b\<lparr>b_dev := dev, b_blocknr := block\<rparr>) s2))
          in if dev = NO_DEV then Inr (bp, s3)
             else (case only_search of
                     PREFETCH \<Rightarrow> Inr (bp, upd_buf bp (\<lambda>b. b\<lparr>b_dev := NO_DEV\<rparr>) s3)
                   | NORMAL \<Rightarrow> bindr (rw_block env bp READING s3) (\<lambda>s4. Inr (bp, s4))
                   | NO_READ \<Rightarrow> Inr (bp, s3)))))"

definition get_block :: "fs_env \<Rightarrow> int \<Rightarrow> u32 \<Rightarrow> search \<Rightarrow> fsstate \<Rightarrow> (nat \<times> fsstate) res" where
  "get_block env dev block only_search s =
     (if dev \<noteq> NO_DEV
      then (case hash_find dev block (buf_hash s (hash_of block)) s of
              None \<Rightarrow> Inl Hang
            | Some (Some bp) \<Rightarrow> Inr (bp, use_buf bp (if b_count (bufs s bp) = 0 then rm_lru bp s else s))
            | Some None \<Rightarrow> get_free_buf env dev block only_search s)
      else get_free_buf env dev block only_search s)"

section \<open>The empty pool\<close>

definition buf_pool :: "fsstate \<Rightarrow> fsstate" where
  "buf_pool s =
     s\<lparr>bufs_in_use := 0, front := Some 0, rear := Some (NR_BUFS - 1),
       bufs := (\<lambda>n. if n < NR_BUFS
         then let nx = (if n + 1 < NR_BUFS then Some (n + 1) else None)
              in (bufs s n)\<lparr>b_blocknr := NO_BLOCK, b_dev := NO_DEV, b_next := nx,
                   b_prev := (if n = 0 then None else Some (n - 1)), b_hash := nx\<rparr>
         else bufs s n),
       buf_hash := (buf_hash s)(0 := Some 0)\<rparr>"

end
