(* ===== verification/Fs_Super.thy ===== *)
theory Fs_Super
  imports Fs_Cache
begin

unbundle bit_operations_syntax

text \<open>
  Super blocks and the bit maps of inodes and zones (\<open>super.c\<close>), and the allocation of zones
  (\<open>alloc_zone\<close>, \<open>free_zone\<close> of \<open>cache.c\<close>).
\<close>

datatype bmap = IMAP | ZMAP

section \<open>The table of super blocks\<close>

definition get_super :: "int \<Rightarrow> fsstate \<Rightarrow> nat res" where
  "get_super dev s =
     (if dev = NO_DEV then Inl (Panic ''request for super_block of NO_DEV'')
      else case find_super dev s of Some i \<Rightarrow> Inr i | None \<Rightarrow> Inl (Panic ''can't find superblock for device''))"

definition mounted :: "nat \<Rightarrow> fsstate \<Rightarrow> bool" where
  "mounted rip s =
     (let dev = sint (ucast (i_zone (inodes s rip) 0) :: u16) in dev = root_dev s \<or> find_super dev s \<noteq> None)"

section \<open>Bit maps\<close>

definition bits_per_block :: "super_block \<Rightarrow> u32" where
  "bits_per_block sp = (ucast (s_block_size sp) div 2) * 16"

definition map_start :: "bmap \<Rightarrow> super_block \<Rightarrow> u32" where
  "map_start m sp = (case m of IMAP \<Rightarrow> START_BLOCK | ZMAP \<Rightarrow> START_BLOCK + word_of_int (s_imap_blocks sp))"

definition map_bits :: "bmap \<Rightarrow> super_block \<Rightarrow> u32" where
  "map_bits m sp = (case m of IMAP \<Rightarrow> s_ninodes sp + 1 | ZMAP \<Rightarrow> s_zones sp - (ucast (s_firstdatazone sp) - 1))"

definition bit_blocks :: "bmap \<Rightarrow> super_block \<Rightarrow> u32" where
  "bit_blocks m sp = (case m of IMAP \<Rightarrow> word_of_int (s_imap_blocks sp) | ZMAP \<Rightarrow> word_of_int (s_zmap_blocks sp))"

text \<open>The number of the lowest bit that is not set.\<close>

definition low_zero :: "u16 \<Rightarrow> nat" where
  "low_zero k = (case find (\<lambda>i. \<not> bit k i) [0..<16] of Some i \<Rightarrow> i | None \<Rightarrow> 16)"

text \<open>
  The words of one block: the word and the number of the bit to allocate. The loop leaves the block
  when the first free bit that it finds lies behind the end of the map.
\<close>

fun scan_words :: "bool \<Rightarrow> mem \<Rightarrow> u32 \<Rightarrow> u32 \<Rightarrow> u32 list \<Rightarrow> (u32 \<times> u16 \<times> u32) option" where
  "scan_words native d base limit [] = None"
| "scan_words native d base limit (w # ws) =
     (if get16 d (2 * w) = 0xFFFF then scan_words native d base limit ws
      else let k = conv2 native (get16 d (2 * w)); i = low_zero k; b = base + w * 16 + of_nat i in
           if b \<ge> limit then None else Some (w, conv2 native (k OR push_bit i 1), b))"

definition block_words :: "u32 \<Rightarrow> super_block \<Rightarrow> u32 list" where
  "block_words word sp = map of_nat [unat word..<unat (s_block_size sp) div 2]"

fun alloc_scan :: "nat \<Rightarrow> fs_env \<Rightarrow> nat \<Rightarrow> bmap \<Rightarrow> u32 \<Rightarrow> u32 \<Rightarrow> fsstate \<Rightarrow> (u32 \<times> fsstate) res" where
  "alloc_scan 0 env sp m block word s = Inr (NO_BIT, s)"
| "alloc_scan (Suc n) env sp m block word s =
     (let p = supers s sp in
      bindr (get_block env (s_dev p) (map_start m p + block) NORMAL s) (\<lambda>(bp, s1).
      case scan_words (s_native p) (b_data (bufs s1 bp)) (block * bits_per_block p) (map_bits m p) (block_words word p) of
        Some (w, v, b) \<Rightarrow>
          bindr (put_block env (Some bp) MAP_BLOCK (upd_buf bp (\<lambda>x. x\<lparr>b_data := put16 (2 * w) v (b_data x), b_dirt := True\<rparr>) s1)) (\<lambda>s2.
          Inr (b, s2))
      | None \<Rightarrow>
          bindr (put_block env (Some bp) MAP_BLOCK s1) (\<lambda>s2.
          alloc_scan n env sp m (if block + 1 \<ge> bit_blocks m p then 0 else block + 1) 0 s2)))"

definition alloc_bit :: "fs_env \<Rightarrow> nat \<Rightarrow> bmap \<Rightarrow> u32 \<Rightarrow> fsstate \<Rightarrow> (u32 \<times> fsstate) res" where
  "alloc_bit env sp m origin s =
     (let p = supers s sp in
      if s_rd_only p then Inl (Panic ''can't allocate bit on read-only filesys.'')
      else let org = (if origin \<ge> map_bits m p then 0 else origin);
               bpb = bits_per_block p
           in alloc_scan (Suc (unat (bit_blocks m p))) env sp m (org div bpb) ((org mod bpb) div 16) s)"

definition free_bit :: "fs_env \<Rightarrow> nat \<Rightarrow> bmap \<Rightarrow> u32 \<Rightarrow> fsstate \<Rightarrow> fsstate res" where
  "free_bit env sp m bit_returned s =
     (let p = supers s sp in
      if s_rd_only p then Inl (Panic ''can't free bit on read-only filesys.'')
      else let bpb = bits_per_block p; block = bit_returned div bpb; word = (bit_returned mod bpb) div 16;
               msk = push_bit (unat (bit_returned mod 16)) (1 :: u16)
           in bindr (get_block env (s_dev p) (map_start m p + block) NORMAL s) (\<lambda>(bp, s1).
              let k = conv2 (s_native p) (get16 (b_data (bufs s1 bp)) (2 * word)) in
              if k AND msk = 0
              then Inl (Panic (if m = IMAP then ''tried to free unused inode'' else ''tried to free unused block''))
              else put_block env (Some bp) MAP_BLOCK
                     (upd_buf bp (\<lambda>x. x\<lparr>b_data := put16 (2 * word) (conv2 (s_native p) (k AND NOT msk)) (b_data x), b_dirt := True\<rparr>) s1)))"

section \<open>Zones\<close>

definition alloc_zone :: "fs_env \<Rightarrow> int \<Rightarrow> u32 \<Rightarrow> fsstate \<Rightarrow> (u32 \<times> fsstate) res" where
  "alloc_zone env dev z s =
     bindr (get_super dev s) (\<lambda>sp.
     let p = supers s sp; fdz = ucast (s_firstdatazone p) :: u32;
         bt = (if z = fdz then s_zsearch p else z - (fdz - 1))
     in bindr (alloc_bit env sp ZMAP bt s) (\<lambda>(b, s1).
        if b = NO_BIT then Inr (NO_ZONE, s1\<lparr>err_code := ENOSPC\<rparr>)
        else let s2 = (if z = fdz then upd_sup sp (\<lambda>x. x\<lparr>s_zsearch := b\<rparr>) s1 else s1) in Inr (fdz - 1 + b, s2)))"

definition free_zone :: "fs_env \<Rightarrow> int \<Rightarrow> u32 \<Rightarrow> fsstate \<Rightarrow> fsstate res" where
  "free_zone env dev numb s =
     bindr (get_super dev s) (\<lambda>sp.
     let p = supers s sp; fdz = ucast (s_firstdatazone p) :: u32 in
     if numb < fdz \<or> numb \<ge> s_zones p then Inr s
     else let bt = numb - (fdz - 1)
          in bindr (free_bit env sp ZMAP bt s) (\<lambda>s1.
             Inr (if bt < s_zsearch (supers s1 sp) then upd_sup sp (\<lambda>x. x\<lparr>s_zsearch := bt\<rparr>) s1 else s1)))"

section \<open>Reading a super block\<close>

abbreviation (input) SUPER_MAGIC :: int where "SUPER_MAGIC \<equiv> 0x137F"
abbreviation (input) SUPER_V2 :: int where "SUPER_V2 \<equiv> 0x2468"
abbreviation (input) SUPER_V3 :: int where "SUPER_V3 \<equiv> 0x4D5A"
abbreviation (input) SUPER_SIZE :: nat where "SUPER_SIZE \<equiv> 76"

definition magic_version :: "int \<Rightarrow> (int \<times> bool) option" where
  "magic_version magic =
     (if magic = SUPER_MAGIC \<or> magic = conv2i False SUPER_MAGIC then Some (1, magic = SUPER_MAGIC)
      else if magic = SUPER_V2 \<or> magic = conv2i False SUPER_V2 then Some (2, magic = SUPER_V2)
      else if magic = SUPER_V3 then Some (3, True)
      else None)"

definition get16i :: "mem \<Rightarrow> u32 \<Rightarrow> int" where
  "get16i d a = sint (get16 d a)"

text \<open>
  The fields of the disk image. The fields that only exist in memory are overwritten with what
  follows on the disk, too; the callers set them before they are used.
\<close>

definition super_image :: "mem \<Rightarrow> super_block \<Rightarrow> super_block" where
  "super_image d sp = sp\<lparr>s_ninodes := get32 d 0, s_nzones := get16 d 4, s_imap_blocks := get16i d 6, s_zmap_blocks := get16i d 8,
     s_firstdatazone := get16 d 10, s_log_zone_size := get16i d 12, s_max_size := get32 d 16, s_zones := get32 d 20,
     s_magic := get16i d 24, s_block_size := get16 d 28\<rparr>"

definition super_swap :: "bool \<Rightarrow> super_block \<Rightarrow> super_block" where
  "super_swap native sp = sp\<lparr>s_ninodes := conv4 native (s_ninodes sp), s_nzones := conv2 native (s_nzones sp),
     s_imap_blocks := sshort (conv2i native (s_imap_blocks sp)), s_zmap_blocks := sshort (conv2i native (s_zmap_blocks sp)),
     s_firstdatazone := conv2 native (s_firstdatazone sp), s_log_zone_size := sshort (conv2i native (s_log_zone_size sp)),
     s_max_size := conv4 native (s_max_size sp), s_zones := conv4 native (s_zones sp)\<rparr>"

definition super_sizes :: "int \<Rightarrow> super_block \<Rightarrow> super_block" where
  "super_sizes version sp =
     (if version = 1
      then sp\<lparr>s_block_size := of_nat STATIC_BLOCK_SIZE, s_zones := ucast (s_nzones sp), s_inodes_per_block := V1_INODES_PER_BLOCK,
             s_ndzones := 7, s_nindirs := V1_INDIRECTS\<rparr>
      else let sp1 = (if version = 2 then sp\<lparr>s_block_size := of_nat STATIC_BLOCK_SIZE\<rparr> else sp); bs = unat (s_block_size sp1)
           in if bs < MIN_BLOCK_SIZE then sp1 else sp1\<lparr>s_inodes_per_block := of_nat (bs div 64), s_ndzones := 7, s_nindirs := bs div 4\<rparr>)"

definition super_size_ok :: "super_block \<Rightarrow> bool" where
  "super_size_ok sp =
     (let bs = unat (s_block_size sp) in
      MIN_BLOCK_SIZE \<le> bs \<and> bs \<le> MAX_BLOCK_SIZE \<and> bs mod 512 = 0 \<and> SUPER_SIZE \<le> bs \<and> bs mod 64 = 0 \<and> bs mod 32 = 0)"

definition super_sane :: "super_block \<Rightarrow> bool" where
  "super_sane sp \<longleftrightarrow> \<not> (s_imap_blocks sp < 1 \<or> s_zmap_blocks sp < 1 \<or> s_ninodes sp < 1 \<or> s_zones sp < 1 \<or>
     (word_of_int (s_log_zone_size sp) :: u32) > 4)"

definition read_super :: "fs_env \<Rightarrow> nat \<Rightarrow> fsstate \<Rightarrow> (int \<times> fsstate) res" where
  "read_super env spn s =
     (let dev = s_dev (supers s spn) in
      if dev = NO_DEV then Inl (Panic ''request for super_block of NO_DEV'')
      else bindr (dev_io env DEV_READ dev FS_PROC_NR BufMem [] 1024 (int MIN_BLOCK_SIZE) 0 s) (\<lambda>((r, (_, bs)), s1).
           if r \<noteq> int MIN_BLOCK_SIZE then Inr (EINVAL, s1)
           else let sp = (super_image (write_bytes 0 bs (\<lambda>_. 0)) (supers s1 spn))\<lparr>s_dev := NO_DEV\<rparr>;
                    put = (\<lambda>x. upd_sup spn (\<lambda>_. x) s1) in
                case magic_version (s_magic sp) of
                  None \<Rightarrow> Inr (EINVAL, put sp)
                | Some (version, native) \<Rightarrow>
                    let sp1 = super_sizes version (super_swap native sp) in
                    if \<not> super_size_ok sp1 then Inr (EINVAL, put sp1)
                    else let sp2 = sp1\<lparr>s_isearch := 0, s_zsearch := 0, s_version := version, s_native := native\<rparr> in
                    if \<not> super_sane sp2 then Inr (EINVAL, put sp2)
                    else Inr (OK, put (sp2\<lparr>s_dev := dev\<rparr>))))"

end
