(* ===== verification/Fs_Map.thy ===== *)
theory Fs_Map
  imports Fs_Super
begin

unbundle bit_operations_syntax

text \<open>
  From a position in a file to a block: the direct, indirect and double indirect zones of an inode
  (\<open>read_map\<close>, \<open>rd_indir\<close> of \<open>read.c\<close>), and how zones are added (\<open>write.c\<close>).
\<close>

section \<open>Reading the map\<close>

definition isp :: "nat \<Rightarrow> fsstate \<Rightarrow> super_block res" where
  "isp rip s = bindr (deref (i_sp (inodes s rip))) (\<lambda>sp. Inr (supers s sp))"

abbreviation scale_of :: "super_block \<Rightarrow> nat" where
  "scale_of sp \<equiv> nat (s_log_zone_size sp)"

text \<open>The block of a buffer as an array of zone numbers; the array ends with the buffer.\<close>

definition rd_indir :: "nat \<Rightarrow> nat \<Rightarrow> fsstate \<Rightarrow> u32 res" where
  "rd_indir bp index s =
     bindr (get_super (b_dev (bufs s bp)) s) (\<lambda>sp.
     let p = supers s sp; d = b_data (bufs s bp) in
     if index \<ge> (if s_version p = 1 then V1_INDIRECTS else MAX_BLOCK_SIZE div 4) then Inl (BadIndex (int index))
     else let zone = (if s_version p = 1 then ucast (conv2 (s_native p) (get16 d (2 * of_nat index)))
                      else conv4 (s_native p) (get32 d (4 * of_nat index)))
          in if zone \<noteq> NO_ZONE \<and> (zone < ucast (s_firstdatazone p) \<or> zone \<ge> s_zones p)
             then Inl (Panic ''check file system'') else Inr zone)"

definition read_indir :: "fs_env \<Rightarrow> int \<Rightarrow> u32 \<Rightarrow> nat \<Rightarrow> fsstate \<Rightarrow> (u32 \<times> fsstate) res" where
  "read_indir env dev b index s =
     bindr (get_block env dev b NORMAL s) (\<lambda>(bp, s1).
     bindr (rd_indir bp index s1) (\<lambda>z.
     bindr (put_block env (Some bp) INDIRECT_BLOCK s1) (\<lambda>s2. Inr (z, s2))))"

definition read_map :: "fs_env \<Rightarrow> nat \<Rightarrow> u32 \<Rightarrow> fsstate \<Rightarrow> (u32 \<times> fsstate) res" where
  "read_map env rip position s =
     bindr (isp rip s) (\<lambda>sp.
     let i = inodes s rip; scale = scale_of sp;
         block_pos = unat position div unat (s_block_size sp);
         zone = block_pos div 2 ^ scale; boff = block_pos mod 2 ^ scale;
         dzones = i_ndzones i; nr = i_nindirs i;
         fin = (\<lambda>z. if z = NO_ZONE then NO_BLOCK else push_bit scale z + of_nat boff)
     in if zone < dzones then Inr (fin (i_zone i zone), s)
        else let excess = zone - dzones in
        bindr (if excess < nr then Inr (i_zone i dzones, excess, s)
               else if i_zone i (dzones + 1) = NO_ZONE then Inr (NO_ZONE, 0, s)
               else bindr (read_indir env (i_dev i) (push_bit scale (i_zone i (dzones + 1))) ((excess - nr) div nr) s) (\<lambda>(z, s1).
                    Inr (z, (excess - nr) mod nr, s1))) (\<lambda>(z, ex, s1).
        if z = NO_ZONE then Inr (NO_BLOCK, s1)
        else bindr (read_indir env (i_dev i) (push_bit scale z) ex s1) (\<lambda>(z1, s2). Inr (fin z1, s2))))"

section \<open>Writing the map\<close>

definition zero_block :: "nat \<Rightarrow> fsstate \<Rightarrow> fsstate" where
  "zero_block bp = upd_buf bp (\<lambda>b. b\<lparr>b_data := (\<lambda>_. 0), b_dirt := True\<rparr>)"

definition wr_indir :: "nat \<Rightarrow> nat \<Rightarrow> u32 \<Rightarrow> fsstate \<Rightarrow> fsstate res" where
  "wr_indir bp index zone s =
     bindr (get_super (b_dev (bufs s bp)) s) (\<lambda>sp.
     let p = supers s sp in
     if index \<ge> (if s_version p = 1 then V1_INDIRECTS else MAX_BLOCK_SIZE div 4) then Inl (BadIndex (int index))
     else Inr (upd_buf bp (\<lambda>b. b\<lparr>b_data :=
            (if s_version p = 1 then put16 (2 * of_nat index) (conv2 (s_native p) (ucast zone)) (b_data b)
             else put32 (4 * of_nat index) (conv4 (s_native p) zone) (b_data b))\<rparr>) s))"

definition set_dirty :: "nat \<Rightarrow> fsstate \<Rightarrow> fsstate" where
  "set_dirty bp = upd_buf bp (\<lambda>b. b\<lparr>b_dirt := True\<rparr>)"

definition set_zone :: "nat \<Rightarrow> nat \<Rightarrow> u32 \<Rightarrow> fsstate \<Rightarrow> fsstate" where
  "set_zone rip k z = upd_ino rip (\<lambda>i. i\<lparr>i_zone := (i_zone i)(k := z)\<rparr>)"

text \<open>
  The double indirect block is made if it is missing: its buffer, the index in it and the zone found
  there; \<open>Inl\<close> is the error that is returned.
\<close>

definition dbl_indir :: "fs_env \<Rightarrow> nat \<Rightarrow> nat \<Rightarrow> nat \<Rightarrow> fsstate \<Rightarrow> ((int + nat \<times> u32) \<times> fsstate) res" where
  "dbl_indir env rip scale excess s =
     (let i = inodes s rip; zones = i_ndzones i; nr = i_nindirs i; new_dbl = (i_zone i (zones + 1) = NO_ZONE) in
      bindr (if new_dbl then alloc_zone env (i_dev i) (i_zone i 0) s else Inr (i_zone i (zones + 1), s)) (\<lambda>(z, s1).
      if z = NO_ZONE then Inr (Inl (err_code s1), s1)
      else let s2 = (if new_dbl then set_zone rip (zones + 1) z s1 else s1);
               ind_ex = (excess - nr) div nr
           in if ind_ex \<ge> nr then Inr (Inl EFBIG, s2)
              else bindr (get_block env (i_dev i) (push_bit scale z) (if new_dbl then NO_READ else NORMAL) s2) (\<lambda>(bp, s3).
                   let s4 = (if new_dbl then zero_block bp s3 else s3)
                   in bindr (rd_indir bp ind_ex s4) (\<lambda>z1. Inr (Inr (bp, z1), s4)))))"

definition write_map :: "fs_env \<Rightarrow> nat \<Rightarrow> u32 \<Rightarrow> u32 \<Rightarrow> fsstate \<Rightarrow> (int \<times> fsstate) res" where
  "write_map env rip position new_zone s =
     (let s0 = upd_ino rip (\<lambda>i. i\<lparr>i_dirt := True\<rparr>) s in
      bindr (isp rip s0) (\<lambda>sp.
      let i = inodes s0 rip; scale = scale_of sp;
          zone = (unat position div unat (s_block_size sp)) div 2 ^ scale;
          zones = i_ndzones i; nr = i_nindirs i
      in if zone < zones then Inr (OK, set_zone rip zone new_zone s0)
         else let excess = zone - zones; single = (excess < nr) in
         bindr (if single then Inr (Inr (None, i_zone i zones), s0)
                else bindr (dbl_indir env rip scale excess s0) (\<lambda>(x, s1).
                     Inr (case x of Inl e \<Rightarrow> Inl e | Inr (bp, z1) \<Rightarrow> Inr (Some bp, z1), s1))) (\<lambda>(x, s1).
         case x of
           Inl e \<Rightarrow> Inr (e, s1)
         | Inr (bpo, z1) \<Rightarrow>
             let ex = (if single then excess else (excess - nr) mod nr); ind_ex = (excess - nr) div nr; new_ind = (z1 = NO_ZONE) in
             bindr (if \<not> new_ind then Inr (z1, s1)
                    else bindr (alloc_zone env (i_dev i) (i_zone (inodes s1 rip) 0) s1) (\<lambda>(z2, s2).
                         case bpo of
                           None \<Rightarrow> Inr (z2, set_zone rip zones z2 s2)
                         | Some bp \<Rightarrow> bindr (wr_indir bp ind_ex z2 s2) (\<lambda>s3. Inr (z2, set_dirty bp s3)))) (\<lambda>(z2, s2).
             bindr (put_block env bpo INDIRECT_BLOCK s2) (\<lambda>s3.
             if z2 = NO_ZONE then Inr (err_code s3, s3)
             else bindr (get_block env (i_dev i) (push_bit scale z2) (if new_ind then NO_READ else NORMAL) s3) (\<lambda>(bp, s4).
                  let s5 = (if new_ind then zero_block bp s4 else s4) in
                  bindr (wr_indir bp ex new_zone s5) (\<lambda>s6.
                  bindr (put_block env (Some bp) INDIRECT_BLOCK (set_dirty bp s6)) (\<lambda>s7. Inr (OK, s7)))))))))"

fun clear_blocks :: "fs_env \<Rightarrow> int \<Rightarrow> u32 list \<Rightarrow> fsstate \<Rightarrow> fsstate res" where
  "clear_blocks env dev [] s = Inr s"
| "clear_blocks env dev (b # bs) s =
     bindr (get_block env dev b NO_READ s) (\<lambda>(bp, s1).
     bindr (put_block env (Some bp) FULL_DATA_BLOCK (zero_block bp s1)) (clear_blocks env dev bs))"

definition clear_zone :: "fs_env \<Rightarrow> nat \<Rightarrow> u32 \<Rightarrow> bool \<Rightarrow> fsstate \<Rightarrow> fsstate res" where
  "clear_zone env rip pos whole s =
     bindr (isp rip s) (\<lambda>sp.
     let scale = scale_of sp in
     if scale = 0 then Inr s
     else let zone_size = push_bit scale (ucast (s_block_size sp)) :: u32;
              pos1 = (if whole then (pos div zone_size) * zone_size else pos);
              nxt = pos1 + ucast (s_block_size sp) - 1
          in if nxt div zone_size \<noteq> pos1 div zone_size then Inr s
             else bindr (read_map env rip nxt s) (\<lambda>(blo, s1).
                  if blo = NO_BLOCK then Inr s1
                  else let bhi = push_bit scale (drop_bit scale blo + 1) - 1
                       in clear_blocks env (i_dev (inodes s1 rip))
                            (if blo \<le> bhi then map (\<lambda>k. blo + of_nat k) [0..<Suc (unat (bhi - blo))] else []) s1))"

definition new_zone_block :: "fs_env \<Rightarrow> nat \<Rightarrow> u32 \<Rightarrow> fsstate \<Rightarrow> (u32 option \<times> fsstate) res" where
  "new_zone_block env rip position s =
     bindr (isp rip s) (\<lambda>sp.
     let i = inodes s rip; scale = scale_of sp;
         z0 = (if i_zone i 0 = NO_ZONE then ucast (s_firstdatazone sp) else i_zone i 0)
     in bindr (alloc_zone env (i_dev i) z0 s) (\<lambda>(z, s1).
        if z = NO_ZONE then Inr (None, s1)
        else bindr (write_map env rip position z s1) (\<lambda>(r, s2).
             if r \<noteq> OK then bindr (free_zone env (i_dev i) z s2) (\<lambda>s3. Inr (None, s3\<lparr>err_code := r\<rparr>))
             else bindr (if position \<noteq> i_size (inodes s2 rip) then clear_zone env rip position True s2 else Inr s2) (\<lambda>s3.
                  let zone_size = push_bit scale (ucast (s_block_size sp)) :: u32
                  in Inr (Some (push_bit scale z + (position mod zone_size) div ucast (s_block_size sp)), s3)))))"

definition new_block :: "fs_env \<Rightarrow> nat \<Rightarrow> u32 \<Rightarrow> fsstate \<Rightarrow> (nat option \<times> fsstate) res" where
  "new_block env rip position s =
     bindr (read_map env rip position s) (\<lambda>(b, s1).
     bindr (if b = NO_BLOCK then new_zone_block env rip position s1 else Inr (Some b, s1)) (\<lambda>(bo, s2).
     case bo of
       None \<Rightarrow> Inr (None, s2)
     | Some b1 \<Rightarrow> bindr (get_block env (i_dev (inodes s2 rip)) b1 NO_READ s2) (\<lambda>(bp, s3). Inr (Some bp, zero_block bp s3))))"

end
