(* ===== verification/Fs_Inode.thy ===== *)
theory Fs_Inode
  imports Fs_Map
begin

unbundle bit_operations_syntax

text \<open>
  The inode table (\<open>inode.c\<close>), the time (\<open>clock_time\<close> of \<open>utility.c\<close>) and the release of the zones
  of a file (\<open>truncate\<close> of \<open>link.c\<close>).
\<close>

section \<open>Disk inodes\<close>

definition clock_time :: "fs_env \<Rightarrow> fsstate \<Rightarrow> (int \<times> fsstate) res" where
  "clock_time env s =
     (let (a, s1) = fs_ask env RqUptime s in
      if a_res a \<noteq> OK then Inl (Panic ''clock_time err'')
      else Inr (slong (fs_boottime s1 + cdiv (sint (hd (a_words a @ [0]))) HZ), s1))"

text \<open>The two layouts; \<open>off\<close> is the offset of the inode in its block.\<close>

definition old_read :: "bool \<Rightarrow> mem \<Rightarrow> u32 \<Rightarrow> inode \<Rightarrow> inode" where
  "old_read norm d off i =
     (let mt = sint (conv4 norm (get32 d (off + 8))) in
      i\<lparr>i_mode := conv2 norm (get16 d off), i_uid := sint (conv2 norm (get16 d (off + 2))), i_size := conv4 norm (get32 d (off + 4)),
        i_mtime := mt, i_atime := mt, i_ctime := mt, i_nlinks := uint (d (off + 13)), i_gid := sint (d (off + 12)),
        i_ndzones := 7, i_nindirs := V1_INDIRECTS,
        i_zone := (\<lambda>k. if k < V1_NR_TZONES then ucast (conv2 norm (get16 d (off + 14 + 2 * of_nat k))) else i_zone i k)\<rparr>)"

definition put_v1_zones :: "bool \<Rightarrow> u32 \<Rightarrow> inode \<Rightarrow> mem \<Rightarrow> mem" where
  "put_v1_zones norm off i d =
     fold (\<lambda>k. put16 (off + 14 + 2 * of_nat k) (conv2 norm (ucast (i_zone i k)))) [0..<V1_NR_TZONES] d"

definition old_write :: "bool \<Rightarrow> u32 \<Rightarrow> inode \<Rightarrow> mem \<Rightarrow> mem" where
  "old_write norm off i d =
     put_v1_zones norm off i
       ((put32 (off + 8) (conv4 norm (word_of_int (i_mtime i)))
         (put32 (off + 4) (conv4 norm (i_size i))
           (put16 (off + 2) (conv2 norm (word_of_int (i_uid i)))
             (put16 off (conv2 norm (i_mode i)) d))))
        (off + 13 := word_of_int (i_nlinks i), off + 12 := word_of_int (i_gid i)))"

definition new_read :: "bool \<Rightarrow> u16 \<Rightarrow> mem \<Rightarrow> u32 \<Rightarrow> inode \<Rightarrow> inode" where
  "new_read norm block_size d off i =
     i\<lparr>i_mode := conv2 norm (get16 d off), i_nlinks := sint (conv2 norm (get16 d (off + 2))), i_uid := sint (conv2 norm (get16 d (off + 4))),
       i_gid := schar (uint (conv2 norm (get16 d (off + 6)))), i_size := conv4 norm (get32 d (off + 8)),
       i_atime := sint (conv4 norm (get32 d (off + 12))), i_mtime := sint (conv4 norm (get32 d (off + 16))),
       i_ctime := sint (conv4 norm (get32 d (off + 20))), i_ndzones := 7, i_nindirs := unat block_size div 4,
       i_zone := (\<lambda>k. if k < V2_NR_TZONES then conv4 norm (get32 d (off + 24 + 4 * of_nat k)) else i_zone i k)\<rparr>"

definition put_v2_zones :: "bool \<Rightarrow> u32 \<Rightarrow> inode \<Rightarrow> mem \<Rightarrow> mem" where
  "put_v2_zones norm off i d = fold (\<lambda>k. put32 (off + 24 + 4 * of_nat k) (conv4 norm (i_zone i k))) [0..<V2_NR_TZONES] d"

definition new_write :: "bool \<Rightarrow> u32 \<Rightarrow> inode \<Rightarrow> mem \<Rightarrow> mem" where
  "new_write norm off i d =
     put_v2_zones norm off i
       (put32 (off + 20) (conv4 norm (word_of_int (i_ctime i)))
         (put32 (off + 16) (conv4 norm (word_of_int (i_mtime i)))
           (put32 (off + 12) (conv4 norm (word_of_int (i_atime i)))
             (put32 (off + 8) (conv4 norm (i_size i))
               (put16 (off + 6) (conv2 norm (word_of_int (i_gid i)))
                 (put16 (off + 4) (conv2 norm (word_of_int (i_uid i)))
                   (put16 (off + 2) (conv2 norm (word_of_int (i_nlinks i)))
                     (put16 off (conv2 norm (i_mode i)) d))))))))"

definition old_icopy :: "nat \<Rightarrow> nat \<Rightarrow> u32 \<Rightarrow> rw_flag \<Rightarrow> bool \<Rightarrow> fsstate \<Rightarrow> fsstate" where
  "old_icopy rip bp off direction norm s =
     (case direction of
        READING \<Rightarrow> upd_ino rip (old_read norm (b_data (bufs s bp)) off) s
      | WRITING \<Rightarrow> upd_buf bp (\<lambda>b. b\<lparr>b_data := old_write norm off (inodes s rip) (b_data b)\<rparr>) s)"

definition new_icopy :: "nat \<Rightarrow> nat \<Rightarrow> u32 \<Rightarrow> rw_flag \<Rightarrow> bool \<Rightarrow> u16 \<Rightarrow> fsstate \<Rightarrow> fsstate" where
  "new_icopy rip bp off direction norm block_size s =
     (case direction of
        READING \<Rightarrow> upd_ino rip (new_read norm block_size (b_data (bufs s bp)) off) s
      | WRITING \<Rightarrow> upd_buf bp (\<lambda>b. b\<lparr>b_data := new_write norm off (inodes s rip) (b_data b)\<rparr>) s)"

definition update_times :: "fs_env \<Rightarrow> nat \<Rightarrow> fsstate \<Rightarrow> fsstate res" where
  "update_times env rip s =
     bindr (isp rip s) (\<lambda>sp.
     if s_rd_only sp then Inr s
     else bindr (clock_time env s) (\<lambda>(t, s1).
          Inr (upd_ino rip (\<lambda>i. let u = i_update i in
            i\<lparr>i_atime := (if u AND ATIME \<noteq> 0 then t else i_atime i), i_ctime := (if u AND CTIME \<noteq> 0 then t else i_ctime i),
              i_mtime := (if u AND MTIME \<noteq> 0 then t else i_mtime i), i_update := 0\<rparr>) s1)))"

definition rw_inode :: "fs_env \<Rightarrow> nat \<Rightarrow> rw_flag \<Rightarrow> fsstate \<Rightarrow> fsstate res" where
  "rw_inode env rip rw s =
     bindr (get_super (i_dev (inodes s rip)) s) (\<lambda>spn.
     let s0 = upd_ino rip (\<lambda>i. i\<lparr>i_sp := Some spn\<rparr>) s; sp = supers s0 spn; i = inodes s0 rip;
         b = (i_num i - 1) div s_inodes_per_block sp + (word_of_int (s_imap_blocks sp + s_zmap_blocks sp + 2))
     in bindr (get_block env (i_dev i) b NORMAL s0) (\<lambda>(bp, s1).
        let off1 = 32 * ((i_num i - 1) mod V1_INODES_PER_BLOCK);
            off2 = 64 * ((i_num i - 1) mod of_nat (unat (s_block_size sp) div 64))
        in bindr (if rw = WRITING
                  then bindr (if i_update (inodes s1 rip) \<noteq> 0 then update_times env rip s1 else Inr s1) (\<lambda>s2.
                       Inr (if s_rd_only sp then s2 else set_dirty bp s2))
                  else Inr s1) (\<lambda>s2.
           let s3 = (if s_version sp = 1 then old_icopy rip bp off1 rw (s_native sp) s2
                     else new_icopy rip bp off2 rw (s_native sp) (s_block_size sp) s2)
           in bindr (put_block env (Some bp) INODE_BLOCK s3) (\<lambda>s4.
              Inr (upd_ino rip (\<lambda>i. i\<lparr>i_dirt := False\<rparr>) s4)))))"

section \<open>The table\<close>

definition dup_inode :: "nat \<Rightarrow> fsstate \<Rightarrow> fsstate" where
  "dup_inode rip = upd_ino rip (\<lambda>i. i\<lparr>i_count := i_count i + 1\<rparr>)"

definition last_free :: "fsstate \<Rightarrow> nat option" where
  "last_free s = find (\<lambda>n. \<not> i_count (inodes s n) > 0) (rev [0..<NR_INODES])"

definition get_inode :: "fs_env \<Rightarrow> int \<Rightarrow> u32 \<Rightarrow> fsstate \<Rightarrow> (nat option \<times> fsstate) res" where
  "get_inode env dev numb s =
     (case find (\<lambda>n. i_count (inodes s n) > 0 \<and> i_dev (inodes s n) = dev \<and> i_num (inodes s n) = numb) [0..<NR_INODES] of
        Some rip \<Rightarrow> Inr (Some rip, dup_inode rip s)
      | None \<Rightarrow>
          (case last_free s of
             None \<Rightarrow> Inr (None, s\<lparr>err_code := ENFILE\<rparr>)
           | Some xp \<Rightarrow>
               let s1 = upd_ino xp (\<lambda>i. i\<lparr>i_dev := dev, i_num := numb, i_count := 1\<rparr>) s in
               bindr (if dev \<noteq> NO_DEV then rw_inode env xp READING s1 else Inr s1) (\<lambda>s2.
               Inr (Some xp, upd_ino xp (\<lambda>i. i\<lparr>i_update := 0\<rparr>) s2))))"

definition wipe_inode :: "nat \<Rightarrow> fsstate \<Rightarrow> fsstate" where
  "wipe_inode rip = upd_ino rip (\<lambda>i. i\<lparr>i_size := 0, i_update := ATIME OR CTIME OR MTIME, i_dirt := True,
     i_zone := (\<lambda>k. if k < V2_NR_TZONES then NO_ZONE else i_zone i k)\<rparr>)"

definition free_inode :: "fs_env \<Rightarrow> int \<Rightarrow> u32 \<Rightarrow> fsstate \<Rightarrow> fsstate res" where
  "free_inode env dev inumb s =
     bindr (get_super dev s) (\<lambda>sp.
     if inumb = 0 \<or> inumb > s_ninodes (supers s sp) then Inr s
     else bindr (free_bit env sp IMAP inumb s) (\<lambda>s1.
          Inr (if inumb < s_isearch (supers s1 sp) then upd_sup sp (\<lambda>x. x\<lparr>s_isearch := inumb\<rparr>) s1 else s1)))"

definition alloc_inode :: "fs_env \<Rightarrow> int \<Rightarrow> u16 \<Rightarrow> fsstate \<Rightarrow> (nat option \<times> fsstate) res" where
  "alloc_inode env dev bits s =
     bindr (get_super dev s) (\<lambda>sp.
     if s_rd_only (supers s sp) then Inr (None, s\<lparr>err_code := EROFS\<rparr>)
     else bindr (alloc_bit env sp IMAP (s_isearch (supers s sp)) s) (\<lambda>(b, s1).
          if b = NO_BIT then Inr (None, s1\<lparr>err_code := ENFILE\<rparr>)
          else let s2 = upd_sup sp (\<lambda>x. x\<lparr>s_isearch := b\<rparr>) s1 in
          bindr (get_inode env NO_DEV b s2) (\<lambda>(ripo, s3).
          case ripo of
            None \<Rightarrow> bindr (free_bit env sp IMAP b s3) (\<lambda>s4. Inr (None, s4))
          | Some rip \<Rightarrow>
              Inr (Some rip, wipe_inode rip (upd_ino rip (\<lambda>i. i\<lparr>i_mode := bits, i_nlinks := 0, i_uid := fp_effuid (cur s3),
                i_gid := fp_effgid (cur s3), i_dev := dev, i_ndzones := s_ndzones (supers s3 sp), i_nindirs := s_nindirs (supers s3 sp),
                i_sp := Some sp\<rparr>) s3)))))"

section \<open>Truncation\<close>

partial_function (option) free_data :: "fs_env \<Rightarrow> nat \<Rightarrow> int \<Rightarrow> nat \<Rightarrow> u32 \<Rightarrow> u32 \<Rightarrow> fsstate \<Rightarrow> fsstate res option" where
  "free_data env rip dev scale zone_size position s =
     (if position < i_size (inodes s rip)
      then (case bindr (read_map env rip position s) (\<lambda>(b, s1).
                   if b \<noteq> NO_BLOCK then free_zone env dev (drop_bit scale b) s1 else Inr s1) of
              Inl e \<Rightarrow> Some (Inl e)
            | Inr s2 \<Rightarrow> free_data env rip dev scale zone_size (position + zone_size) s2)
      else Some (Inr s))"

fun free_indirs :: "fs_env \<Rightarrow> int \<Rightarrow> nat \<Rightarrow> nat list \<Rightarrow> fsstate \<Rightarrow> fsstate res" where
  "free_indirs env dev bp [] s = Inr s"
| "free_indirs env dev bp (i # is) s =
     bindr (rd_indir bp i s) (\<lambda>z1. bindr (free_zone env dev z1 s) (free_indirs env dev bp is))"

definition truncate_file :: "fs_env \<Rightarrow> nat \<Rightarrow> fsstate \<Rightarrow> fsstate res" where
  "truncate_file env rip s =
     (let file_type = i_mode (inodes s rip) AND I_TYPE in
      if file_type = I_CHAR_SPECIAL \<or> file_type = I_BLOCK_SPECIAL then Inr s
      else bindr (isp rip s) (\<lambda>sp.
      let dev = i_dev (inodes s rip); scale = scale_of sp; zone_size = push_bit scale (ucast (s_block_size sp)) :: u32;
          nr = i_nindirs (inodes s rip); waspipe = i_pipe (inodes s rip);
          s1 = (if waspipe then upd_ino rip (\<lambda>i. i\<lparr>i_size := 7 * ucast (s_block_size sp)\<rparr>) s else s)
      in bindr (ran (free_data env rip dev scale zone_size 0 s1)) (\<lambda>s2.
         let s3 = upd_ino rip (\<lambda>i. i\<lparr>i_dirt := True\<rparr>) s2 in
         if waspipe then Inr (wipe_inode rip s3)
         else let single = i_ndzones (inodes s3 rip) in
              bindr (free_zone env dev (i_zone (inodes s3 rip) single) s3) (\<lambda>s4.
              let z = i_zone (inodes s4 rip) (single + 1) in
              if z = NO_ZONE then Inr s4
              else bindr (get_block env dev (push_bit scale z) NORMAL s4) (\<lambda>(bp, s5).
                   bindr (free_indirs env dev bp [0..<nr] s5) (\<lambda>s6.
                   bindr (put_block env (Some bp) INDIRECT_BLOCK s6) (free_zone env dev z)))))))"

definition put_inode :: "fs_env \<Rightarrow> nat option \<Rightarrow> fsstate \<Rightarrow> fsstate res" where
  "put_inode env ripo s =
     (case ripo of
        None \<Rightarrow> Inr s
      | Some rip \<Rightarrow>
          let s1 = upd_ino rip (\<lambda>i. i\<lparr>i_count := i_count i - 1\<rparr>) s in
          if i_count (inodes s1 rip) \<noteq> 0 then Inr s1
          else bindr (if i_nlinks (inodes s1 rip) = 0
                      then bindr (truncate_file env rip s1) (\<lambda>s2.
                           let s3 = upd_ino rip (\<lambda>i. i\<lparr>i_mode := I_NOT_ALLOC, i_dirt := True\<rparr>) s2
                           in free_inode env (i_dev (inodes s3 rip)) (i_num (inodes s3 rip)) s3)
                      else if i_pipe (inodes s1 rip) then truncate_file env rip s1 else Inr s1) (\<lambda>s4.
               let s5 = upd_ino rip (\<lambda>i. i\<lparr>i_pipe := False\<rparr>) s4
               in if i_dirt (inodes s5 rip) then rw_inode env rip WRITING s5 else Inr s5))"

end
