(* ===== verification/Fs_Lock.thy ===== *)
theory Fs_Lock
  imports Fs_Inode
begin

unbundle bit_operations_syntax

text \<open>
  File descriptors (\<open>filedes.c\<close>) and advisory locks (\<open>lock.c\<close>).
\<close>

section \<open>File descriptors\<close>

definition get_fd :: "nat \<Rightarrow> u16 \<Rightarrow> fsstate \<Rightarrow> (int + nat \<times> nat) \<times> fsstate" where
  "get_fd start bits s =
     (case find (\<lambda>i. fp_filp (cur s) i = None) [start..<OPEN_MAX] of
        None \<Rightarrow> (Inl EMFILE, s)
      | Some k \<Rightarrow>
          (case find (\<lambda>f. filp_count (filps s f) = 0) [0..<NR_FILPS] of
             None \<Rightarrow> (Inl ENFILE, s)
           | Some f \<Rightarrow> (Inr (k, f), upd_filp f (\<lambda>x. x\<lparr>filp_mode := bits, filp_pos := 0, filp_selectors := 0, filp_select_ops := 0,
                          filp_pipe_select_ops := 0, filp_flags := 0\<rparr>) s)))"

definition get_filp :: "int \<Rightarrow> fsstate \<Rightarrow> nat option \<times> fsstate" where
  "get_filp fild s =
     (if fild < 0 \<or> fild \<ge> int OPEN_MAX then None else fp_filp (cur s) (nat fild), s\<lparr>err_code := EBADF\<rparr>)"

definition find_filp :: "nat \<Rightarrow> u16 \<Rightarrow> fsstate \<Rightarrow> nat option" where
  "find_filp rip bits s =
     find (\<lambda>f. filp_count (filps s f) \<noteq> 0 \<and> filp_ino (filps s f) = Some rip \<and> filp_mode (filps s f) AND bits \<noteq> 0) [0..<NR_FILPS]"

section \<open>Locks\<close>

abbreviation (input) F_RDLCK :: int where "F_RDLCK \<equiv> 1"
abbreviation (input) F_WRLCK :: int where "F_WRLCK \<equiv> 2"
abbreviation (input) F_UNLCK :: int where "F_UNLCK \<equiv> 3"
abbreviation (input) F_GETLK :: int where "F_GETLK \<equiv> 5"
abbreviation (input) F_SETLK :: int where "F_SETLK \<equiv> 6"
abbreviation (input) MAX_FILE_POS :: u32 where "MAX_FILE_POS \<equiv> 0xFFFFFFFF"

definition upd_lock :: "nat \<Rightarrow> (file_lock \<Rightarrow> file_lock) \<Rightarrow> fsstate \<Rightarrow> fsstate" where
  "upd_lock n f s = s\<lparr>file_locks := (file_locks s)(n := f (file_locks s n))\<rparr>"

fun revive_all :: "int list \<Rightarrow> fsstate \<Rightarrow> fsstate res" where
  "revive_all [] s = Inr s"
| "revive_all (n # ns) s =
     bindr (if fp_suspended (fprocs s n) \<and> - fp_task (fprocs s n) = XLOCK then revive n 0 s else Inr s) (revive_all ns)"

definition lock_revive :: "fsstate \<Rightarrow> fsstate res" where
  "lock_revive s = revive_all [8..63] s"

text \<open>A lock that the request must look at.\<close>

definition lock_hit :: "int \<Rightarrow> nat option \<Rightarrow> u32 \<Rightarrow> u32 \<Rightarrow> int \<Rightarrow> file_lock \<Rightarrow> bool" where
  "lock_hit ltype ino frst lst pid l \<longleftrightarrow>
     lock_type l \<noteq> 0 \<and> lock_inode l = ino \<and> \<not> lst < lock_first l \<and> \<not> frst > lock_last l \<and>
     \<not> (ltype = F_RDLCK \<and> lock_type l = F_RDLCK) \<and> \<not> (ltype \<noteq> F_UNLCK \<and> lock_pid l = pid)"

text \<open>A lock loses a region; \<open>Inl\<close> if that would need another entry of a full table.\<close>

definition unlock_one :: "nat \<Rightarrow> u32 \<Rightarrow> u32 \<Rightarrow> fsstate \<Rightarrow> (int + fsstate) res" where
  "unlock_one n frst lst s =
     (let l = file_locks s n in
      if frst \<le> lock_first l \<and> lst \<ge> lock_last l
      then Inr (Inr ((upd_lock n (\<lambda>l. l\<lparr>lock_type := 0\<rparr>) s)\<lparr>nr_locks := nr_locks s - 1\<rparr>))
      else if frst \<le> lock_first l then Inr (Inr (upd_lock n (\<lambda>l. l\<lparr>lock_first := lst + 1\<rparr>) s))
      else if lst \<ge> lock_last l then Inr (Inr (upd_lock n (\<lambda>l. l\<lparr>lock_last := frst - 1\<rparr>) s))
      else if nr_locks s = int NR_LOCKS then Inr (Inl ENOLCK)
      else case find (\<lambda>i. lock_type (file_locks s i) = 0) [0..<NR_LOCKS] of
             None \<Rightarrow> Inl (BadIndex (int NR_LOCKS))
           | Some i \<Rightarrow>
               Inr (Inr ((upd_lock n (\<lambda>l. l\<lparr>lock_last := frst - 1\<rparr>) (upd_lock i (\<lambda>_. l\<lparr>lock_first := lst + 1\<rparr>) s))
                 \<lparr>nr_locks := nr_locks s + 1\<rparr>)))"

text \<open>
  The loop over the table: it ends with an error, or with the lock that a question found, the first
  free entry, and whether something was unlocked.
\<close>

fun lock_scan :: "int \<Rightarrow> int \<Rightarrow> nat option \<Rightarrow> u32 \<Rightarrow> u32 \<Rightarrow> nat list \<Rightarrow> nat option \<Rightarrow> bool \<Rightarrow> fsstate \<Rightarrow>
    ((int + nat option \<times> nat option \<times> bool) \<times> fsstate) res" where
  "lock_scan req ltype ino frst lst [] emp unlocking s = Inr (Inr (None, emp, unlocking), s)"
| "lock_scan req ltype ino frst lst (n # ns) emp unlocking s =
     (let l = file_locks s n in
      if lock_type l = 0 then lock_scan req ltype ino frst lst ns (if emp = None then Some n else emp) unlocking s
      else if \<not> lock_hit ltype ino frst lst (fp_pid (cur s)) l then lock_scan req ltype ino frst lst ns emp unlocking s
      else if req = F_GETLK then Inr (Inr (Some n, emp, unlocking), s)
      else if ltype = F_RDLCK \<or> ltype = F_WRLCK
      then (if req = F_SETLK then Inr (Inl EAGAIN, s) else Inr (Inl SUSPEND, suspend XLOCK s))
      else bindr (unlock_one n frst lst s) (\<lambda>r.
           case r of Inl e \<Rightarrow> Inr (Inl e, s) | Inr s1 \<Rightarrow> lock_scan req ltype ino frst lst ns emp True s1))"

text \<open>The structure \<open>flock\<close> in user space.\<close>

record flock =
  l_type :: int
  l_whence :: int
  l_start :: u32
  l_len :: u32
  l_pid :: int

definition flock_of :: "u8 list \<Rightarrow> flock" where
  "flock_of bs = (let d = write_bytes 0 bs (\<lambda>_. 0) in
     \<lparr>l_type = sint (get16 d 0), l_whence = sint (get16 d 2), l_start = get32 d 4, l_len = get32 d 8, l_pid = sint (get32 d 12)\<rparr>)"

definition flock_bytes :: "flock \<Rightarrow> u8 list" where
  "flock_bytes k = read_bytes (put32 12 (word_of_int (l_pid k)) (put32 8 (l_len k) (put32 4 (l_start k)
     (put16 2 (word_of_int (l_whence k)) (put16 0 (word_of_int (l_type k)) (\<lambda>_. 0)))))) 0 16"

text \<open>The region that is asked for.\<close>

definition lock_region :: "flock \<Rightarrow> u32 \<Rightarrow> u32 \<Rightarrow> (u32 \<times> u32) option" where
  "lock_region k pos sz =
     (case (if l_whence k = 0 then Some 0 else if l_whence k = 1 then Some pos else if l_whence k = 2 then Some sz else None) of
        None \<Rightarrow> None
      | Some base \<Rightarrow>
          let st = l_start k; frst = base + st; lst = (if l_len k = 0 then MAX_FILE_POS else frst + l_len k - 1) in
          if sint st > 0 \<and> frst < base \<or> sint st < 0 \<and> frst > base \<or> lst < frst then None else Some (frst, lst))"

definition lock_args_ok :: "int \<Rightarrow> flock \<Rightarrow> u16 \<Rightarrow> u16 \<Rightarrow> int" where
  "lock_args_ok req k mode mo =
     (let lt = l_type k in
      if lt \<noteq> F_UNLCK \<and> lt \<noteq> F_RDLCK \<and> lt \<noteq> F_WRLCK then EINVAL
      else if req = F_GETLK \<and> lt = F_UNLCK then EINVAL
      else if mode AND I_TYPE \<noteq> I_REGULAR then EINVAL
      else if req \<noteq> F_GETLK \<and> lt = F_RDLCK \<and> mo AND R_BIT = 0 then EBADF
      else if req \<noteq> F_GETLK \<and> lt = F_WRLCK \<and> mo AND W_BIT = 0 then EBADF
      else OK)"

definition lock_enter :: "nat \<Rightarrow> int \<Rightarrow> nat option \<Rightarrow> u32 \<Rightarrow> u32 \<Rightarrow> fsstate \<Rightarrow> fsstate" where
  "lock_enter n ltype ino frst lst s =
     (upd_lock n (\<lambda>_. \<lparr>lock_type = ltype, lock_pid = fp_pid (cur s), lock_inode = ino, lock_first = frst, lock_last = lst\<rparr>) s)
       \<lparr>nr_locks := nr_locks s + 1\<rparr>"

text \<open>The part of \<open>lock_op\<close> that works on the table.\<close>

definition lock_table :: "int \<Rightarrow> int \<Rightarrow> nat option \<Rightarrow> u32 \<Rightarrow> u32 \<Rightarrow> fsstate \<Rightarrow> ((int + nat option) \<times> fsstate) res" where
  "lock_table req ltype ino frst lst s =
     bindr (lock_scan req ltype ino frst lst [0..<NR_LOCKS] None False s) (\<lambda>(x, s1).
     case x of
       Inl e \<Rightarrow> Inr (Inl e, s1)
     | Inr (conflict, emp, unlocking) \<Rightarrow>
         bindr (if unlocking then lock_revive s1 else Inr s1) (\<lambda>s2.
         if req = F_GETLK then Inr (Inr conflict, s2)
         else if ltype = F_UNLCK then Inr (Inl OK, s2)
         else case emp of None \<Rightarrow> Inr (Inl ENOLCK, s2) | Some n \<Rightarrow> Inr (Inl OK, lock_enter n ltype ino frst lst s2)))"

definition lock_op :: "fs_env \<Rightarrow> nat \<Rightarrow> int \<Rightarrow> fsstate \<Rightarrow> (int \<times> fsstate) res" where
  "lock_op env f req s =
     (let user_flock = fs_word s 3; (a, s1) = fs_ask env (RqCopyIn (fs_who s) 1 user_flock 16) s in
      if a_res a \<noteq> OK then Inr (EINVAL, s1)
      else bindr (deref (filp_ino (filps s1 f))) (\<lambda>rip.
           let k = flock_of (a_bytes a); fl = filps s1 f; e = lock_args_ok req k (i_mode (inodes s1 rip)) (filp_mode fl) in
           if e \<noteq> OK then Inr (e, s1)
           else case lock_region k (filp_pos fl) (i_size (inodes s1 rip)) of
             None \<Rightarrow> Inr (EINVAL, s1)
           | Some (frst, lst) \<Rightarrow>
               bindr (lock_table req (l_type k) (Some rip) frst lst s1) (\<lambda>(x, s2).
               case x of
                 Inl r \<Rightarrow> Inr (r, s2)
               | Inr c \<Rightarrow>
                   let k1 = (case c of
                         None \<Rightarrow> k\<lparr>l_type := F_UNLCK\<rparr>
                       | Some n \<Rightarrow> let l = file_locks s2 n in
                           k\<lparr>l_type := lock_type l, l_whence := 0, l_start := lock_first l,
                             l_len := lock_last l - lock_first l + 1, l_pid := lock_pid l\<rparr>);
                       (b, s3) = fs_ask env (RqCopyOut (fs_who s2) 1 user_flock (flock_bytes k1)) s2
                   in Inr (a_res b, s3))))"

end
