(* ===== verification/Fs_Path.thy ===== *)
theory Fs_Path
  imports Fs_Lock
begin

unbundle bit_operations_syntax

text \<open>
  Path names: \<open>fetch_name\<close> (\<open>utility.c\<close>), permissions (\<open>forbidden\<close>, \<open>read_only\<close> of \<open>protect.c\<close>) and
  \<open>path.c\<close>. A component is the list of its characters, at most 60, without the null character. The
  code compares the address of a component with those of \<open>dot1\<close> and \<open>dot2\<close>; the first part of an
  \<open>fname\<close> says that it is one of them.
\<close>

type_synonym fname = "bool \<times> u8 list"

abbreviation (input) dot1 :: fname where "dot1 \<equiv> (True, [46])"
abbreviation (input) dot2 :: fname where "dot2 \<equiv> (True, [46, 46])"
abbreviation (input) NAME_MAX :: nat where "NAME_MAX \<equiv> 60"

datatype search_flag = LOOK_UP | ENTER | DELETE | IS_EMPTY

section \<open>Names from user space\<close>

definition message_path :: "message \<Rightarrow> u8 list" where
  "message_path m = take 14 (concat (map (\<lambda>i. bytes32 (m_w m (3 + i))) [0..<4]))"

definition fetch_name :: "fs_env \<Rightarrow> u32 \<Rightarrow> int \<Rightarrow> bool \<Rightarrow> fsstate \<Rightarrow> int \<times> fsstate" where
  "fetch_name env path len m3 s =
     (if len \<le> 0 then (EGENERIC, s\<lparr>err_code := EINVAL\<rparr>)
      else if len > PATH_MAX then (EGENERIC, s\<lparr>err_code := ENAMETOOLONG\<rparr>)
      else if m3 \<and> len \<le> 14
      then (OK, s\<lparr>user_path := take (nat len) (message_path (fs_in s)) @ drop (nat len) (user_path s)\<rparr>)
      else let (a, s1) = fs_ask env (RqCopyIn (fs_who s) 1 path (nat len)) s;
               bs = take (nat len) (a_bytes a)
           in (a_res a, s1\<lparr>user_path := bs @ drop (length bs) (user_path s1)\<rparr>))"

text \<open>
  One component: its characters beyond the sixtieth are dropped. The scan stops at \<open>PATH_MAX\<close>
  characters from where it started; it reads past the buffer if that ends first.
\<close>

fun take_name :: "nat \<Rightarrow> u8 list \<Rightarrow> u8 list \<Rightarrow> (u8 list \<times> nat \<times> u8 list) option" where
  "take_name n acc [] = None"
| "take_name n acc (c # p) =
     (if n < nat PATH_MAX \<and> c \<noteq> 47 \<and> c \<noteq> 0 then take_name (n + 1) (if length acc < NAME_MAX then acc @ [c] else acc) p
      else Some (acc, n, c # p))"

fun skip_slashes :: "nat \<Rightarrow> u8 list \<Rightarrow> (nat \<times> u8 list) option" where
  "skip_slashes n [] = None"
| "skip_slashes n (c # p) = (if c = 47 \<and> n < nat PATH_MAX then skip_slashes (n + 1) p else Some (n, c # p))"

definition get_name :: "u8 list \<Rightarrow> (u8 list \<times> u8 list option) option" where
  "get_name old_name =
     (let lead = length (takeWhile (\<lambda>c. c = 47) old_name) in
      case take_name lead [] (drop lead old_name) of
        None \<Rightarrow> None
      | Some (str, n, p) \<Rightarrow>
          (case skip_slashes n p of
             None \<Rightarrow> None
           | Some (m, q) \<Rightarrow> Some (str, if m \<ge> nat PATH_MAX then None else Some q)))"

section \<open>Permissions\<close>

definition read_only :: "nat \<Rightarrow> fsstate \<Rightarrow> int res" where
  "read_only ip s = bindr (isp ip s) (\<lambda>sp. Inr (if s_rd_only sp then EROFS else OK))"

text \<open>The permission bits that the caller has on an inode.\<close>

definition perm_bits :: "u16 \<Rightarrow> int \<Rightarrow> int \<Rightarrow> int \<Rightarrow> int \<Rightarrow> u16" where
  "perm_bits bits uid gid test_uid test_gid =
     (if test_uid = 0
      then if bits AND I_TYPE = I_DIRECTORY \<or> bits AND 0x49 \<noteq> 0 then R_BIT OR W_BIT OR X_BIT else R_BIT OR W_BIT
      else drop_bit (if test_uid = uid then 6 else if test_gid = gid then 3 else 0) bits AND (R_BIT OR W_BIT OR X_BIT))"

definition mounted_root :: "fs_env \<Rightarrow> nat \<Rightarrow> fsstate \<Rightarrow> (nat option \<times> fsstate) res" where
  "mounted_root env rip s =
     (if \<not> i_mount (inodes s rip) then Inr (Some rip, s)
      else case find (\<lambda>n. s_imount (supers s n) = Some rip) [1..<NR_SUPERS] of
             None \<Rightarrow> Inr (Some rip, s)
           | Some n \<Rightarrow> get_inode env (s_dev (supers s n)) ROOT_INODE s)"

definition forbidden :: "fs_env \<Rightarrow> nat \<Rightarrow> u16 \<Rightarrow> fsstate \<Rightarrow> (int \<times> fsstate) res" where
  "forbidden env old_rip access_desired s =
     bindr (mounted_root env old_rip s) (\<lambda>(ripo, s1).
     bindr (deref ripo) (\<lambda>rip.
     let i = inodes s1 rip; acc = (fs_call_nr s1 = 33); p = cur s1;
         pb = perm_bits (i_mode i) (i_uid i) (i_gid i) (if acc then fp_realuid p else fp_effuid p) (if acc then fp_realgid p else fp_effgid p)
     in bindr (if pb OR access_desired \<noteq> pb then Inr EACCES
               else if access_desired AND W_BIT \<noteq> 0 then read_only rip s1 else Inr OK) (\<lambda>r.
        bindr (if rip \<noteq> old_rip then put_inode env (Some rip) s1 else Inr s1) (\<lambda>s2. Inr (r, s2)))))"

section \<open>Directories\<close>

definition d_ino :: "mem \<Rightarrow> nat \<Rightarrow> u32" where
  "d_ino d k = get32 d (64 * of_nat k)"

definition d_name :: "mem \<Rightarrow> nat \<Rightarrow> u8 list" where
  "d_name d k = takeWhile (\<lambda>c. c \<noteq> 0) (read_bytes d (64 * of_nat k + 4) NAME_MAX)"

definition erase_entry :: "nat \<Rightarrow> mem \<Rightarrow> mem" where
  "erase_entry k d = put32 (64 * of_nat k) 0 (put32 (64 * of_nat k + 60) (d_ino d k) d)"

definition enter_entry :: "nat \<Rightarrow> u8 list \<Rightarrow> u32 \<Rightarrow> mem \<Rightarrow> mem" where
  "enter_entry k str ino d =
     put32 (64 * of_nat k) ino (write_bytes (64 * of_nat k + 4) (take NAME_MAX str @ replicate (NAME_MAX - length str) 0) d)"

definition entry_match :: "search_flag \<Rightarrow> u8 list \<Rightarrow> mem \<Rightarrow> nat \<Rightarrow> bool" where
  "entry_match flag str d k \<longleftrightarrow> flag \<noteq> ENTER \<and> d_ino d k \<noteq> 0 \<and>
     (if flag = IS_EMPTY then d_name d k \<noteq> [46] \<and> d_name d k \<noteq> [46, 46] else d_name d k = str)"

text \<open>The search of one block, with the number of entries seen so far.\<close>

datatype entry_hit = Match nat | Slot nat | NoHit

fun scan_entries :: "search_flag \<Rightarrow> u8 list \<Rightarrow> mem \<Rightarrow> nat \<Rightarrow> nat list \<Rightarrow> nat \<Rightarrow> entry_hit \<times> nat" where
  "scan_entries flag str d old_slots [] new_slots = (NoHit, new_slots)"
| "scan_entries flag str d old_slots (k # ks) new_slots =
     (if new_slots + 1 > old_slots then (if flag = ENTER then Slot k else NoHit, new_slots + 1)
      else if entry_match flag str d k then (Match k, new_slots + 1)
      else if flag = ENTER \<and> d_ino d k = 0 then (Slot k, new_slots + 1)
      else scan_entries flag str d old_slots ks (new_slots + 1))"

definition touch :: "nat \<Rightarrow> u8 \<Rightarrow> fsstate \<Rightarrow> fsstate" where
  "touch rip u = upd_ino rip (\<lambda>i. i\<lparr>i_update := i_update i OR u, i_dirt := True\<rparr>)"

text \<open>What a match means: the result, the inode number found, and the state.\<close>

definition dir_match :: "fs_env \<Rightarrow> search_flag \<Rightarrow> nat \<Rightarrow> super_block \<Rightarrow> nat \<Rightarrow> nat \<Rightarrow> fsstate \<Rightarrow> ((int \<times> u32) \<times> fsstate) res" where
  "dir_match env flag ldir sp bp k s =
     (let d = b_data (bufs s bp);
          s1 = (if flag = DELETE
                then touch ldir (CTIME OR MTIME) (upd_buf bp (\<lambda>b. b\<lparr>b_data := erase_entry k (b_data b), b_dirt := True\<rparr>) s) else s)
      in bindr (put_block env (Some bp) DIRECTORY_BLOCK s1) (\<lambda>s2.
         Inr ((if flag = IS_EMPTY then ENOTEMPTY else OK, conv4 (s_native sp) (d_ino d k)), s2)))"

text \<open>The loop over the blocks: a result, or the slot to use and the number of entries seen.\<close>

partial_function (option) dir_loop ::
  "fs_env \<Rightarrow> search_flag \<Rightarrow> u8 list \<Rightarrow> nat \<Rightarrow> super_block \<Rightarrow> nat \<Rightarrow> u32 \<Rightarrow> nat \<Rightarrow> fsstate \<Rightarrow>
    (((int \<times> u32) + (nat \<times> nat) option \<times> nat) \<times> fsstate) res option" where
  "dir_loop env flag str ldir sp old_slots pos new_slots s =
     (if pos < i_size (inodes s ldir)
      then (case bindr (read_map env ldir pos s) (\<lambda>(b, s1). get_block env (i_dev (inodes s1 ldir)) b NORMAL s1) of
              Inl e \<Rightarrow> Some (Inl e)
            | Inr (bp, s2) \<Rightarrow>
                (case scan_entries flag str (b_data (bufs s2 bp)) old_slots [0..<unat (s_block_size sp) div 64] new_slots of
                   (Match k, n) \<Rightarrow> Some (bindr (dir_match env flag ldir sp bp k s2) (\<lambda>(x, s3). Inr (Inl x, s3)))
                 | (Slot k, n) \<Rightarrow> Some (Inr (Inr (Some (bp, k), n), s2))
                 | (NoHit, n) \<Rightarrow>
                     (case put_block env (Some bp) DIRECTORY_BLOCK s2 of
                        Inl e \<Rightarrow> Some (Inl e)
                      | Inr s3 \<Rightarrow> dir_loop env flag str ldir sp old_slots (pos + ucast (s_block_size sp)) n s3)))
      else Some (Inr (Inr (None, new_slots), s)))"

definition dir_enter :: "fs_env \<Rightarrow> u8 list \<Rightarrow> u32 \<Rightarrow> nat \<Rightarrow> super_block \<Rightarrow> nat \<Rightarrow> (nat \<times> nat) option \<Rightarrow> nat \<Rightarrow> fsstate \<Rightarrow> (int \<times> fsstate) res" where
  "dir_enter env str numb ldir sp old_slots slot new_slots s =
     (let n = (if slot = None then new_slots + 1 else new_slots) in
      bindr (case slot of Some bk \<Rightarrow> Inr (Some bk, s)
             | None \<Rightarrow> bindr (new_block env ldir (i_size (inodes s ldir)) s) (\<lambda>(bpo, s1). Inr (map_option (\<lambda>bp. (bp, 0)) bpo, s1))) (\<lambda>(bko, s1).
      case bko of
        None \<Rightarrow> Inr (err_code s1, s1)
      | Some (bp, k) \<Rightarrow>
          bindr (put_block env (Some bp) DIRECTORY_BLOCK
            (upd_buf bp (\<lambda>b. b\<lparr>b_data := enter_entry k str (conv4 (s_native sp) numb) (b_data b), b_dirt := True\<rparr>) s1)) (\<lambda>s2.
          let s3 = touch ldir (CTIME OR MTIME) s2 in
          if n > old_slots
          then let s4 = upd_ino ldir (\<lambda>i. i\<lparr>i_size := of_nat n * 64\<rparr>) s3
               in if slot = None then bindr (rw_inode env ldir WRITING s4) (\<lambda>s5. Inr (OK, s5)) else Inr (OK, s4)
          else Inr (OK, s3))))"

definition dir_access :: "fs_env \<Rightarrow> nat \<Rightarrow> fname \<Rightarrow> search_flag \<Rightarrow> fsstate \<Rightarrow> (int \<times> fsstate) res" where
  "dir_access env ldir str flag s =
     (if flag = IS_EMPTY then Inr (OK, s)
      else if fst str then (if flag \<noteq> LOOK_UP then bindr (read_only ldir s) (\<lambda>r. Inr (r, s)) else Inr (OK, s))
      else forbidden env ldir (if flag = LOOK_UP then X_BIT else W_BIT OR X_BIT) s)"

definition search_dir :: "fs_env \<Rightarrow> nat \<Rightarrow> fname \<Rightarrow> u32 \<Rightarrow> search_flag \<Rightarrow> fsstate \<Rightarrow> ((int \<times> u32) \<times> fsstate) res" where
  "search_dir env ldir str numb flag s =
     (if i_mode (inodes s ldir) AND I_TYPE \<noteq> I_DIRECTORY then Inr ((ENOTDIR, numb), s)
      else bindr (dir_access env ldir str flag s) (\<lambda>(r, s1).
      if r \<noteq> OK then Inr ((r, numb), s1)
      else bindr (isp ldir s1) (\<lambda>sp.
           let old_slots = unat (i_size (inodes s1 ldir)) div 64 in
           bindr (ran (dir_loop env flag (snd str) ldir sp old_slots 0 0 s1)) (\<lambda>(x, s2).
           case x of
             Inl res \<Rightarrow> Inr (res, s2)
           | Inr (slot, new_slots) \<Rightarrow>
               if flag \<noteq> ENTER then Inr ((if flag = IS_EMPTY then OK else ENOENT, numb), s2)
               else bindr (dir_enter env (snd str) numb ldir sp old_slots slot new_slots s2) (\<lambda>(r, s3). Inr ((r, numb), s3))))))"

section \<open>Walking a path\<close>

text \<open>An inode that is mounted on is replaced by the root of what is mounted there.\<close>

partial_function (option) mount_cross :: "fs_env \<Rightarrow> nat option \<Rightarrow> fsstate \<Rightarrow> (nat option \<times> fsstate) res option" where
  "mount_cross env ripo s =
     (case ripo of
        None \<Rightarrow> Some (Inr (None, s))
      | Some rip \<Rightarrow>
          if \<not> i_mount (inodes s rip) then Some (Inr (Some rip, s))
          else (case find (\<lambda>n. s_imount (supers s n) = Some rip) [0..<NR_SUPERS] of
                  None \<Rightarrow> mount_cross env (Some rip) s
                | Some n \<Rightarrow>
                    (case bindr (put_inode env (Some rip) s) (get_inode env (s_dev (supers s n)) ROOT_INODE) of
                       Inl e \<Rightarrow> Some (Inl e)
                     | Inr (r, s1) \<Rightarrow> mount_cross env r s1)))"

text \<open>
  One step of the walk. \<open>..\<close> in the root of a mounted file system leads to the directory it is
  mounted on, and from there again; the fuel bounds the number of file systems left in this way.
\<close>

definition advance_with ::
  "(nat option \<Rightarrow> fname \<Rightarrow> fsstate \<Rightarrow> (nat option \<times> fsstate) res) \<Rightarrow> fs_env \<Rightarrow> nat option \<Rightarrow> fname \<Rightarrow> fsstate \<Rightarrow> (nat option \<times> fsstate) res" where
  "advance_with adv env dirpo str s =
     (if snd str = []
      then bindr (deref dirpo) (\<lambda>dirp. get_inode env (i_dev (inodes s dirp)) (i_num (inodes s dirp)) s)
      else case dirpo of
        None \<Rightarrow> Inr (None, s)
      | Some dirp \<Rightarrow>
          bindr (search_dir env dirp str 0 LOOK_UP s) (\<lambda>((r, numb), s1).
          if r \<noteq> OK then Inr (None, s1\<lparr>err_code := r\<rparr>)
          else if fp_rootdir (cur s1) = Some dirp \<and> snd str = [46, 46] \<and> \<not> fst str
          then get_inode env (i_dev (inodes s1 dirp)) (i_num (inodes s1 dirp)) s1
          else bindr (get_inode env (i_dev (inodes s1 dirp)) numb s1) (\<lambda>(ripo, s2).
               case ripo of
                 None \<Rightarrow> Inr (None, s2)
               | Some rip \<Rightarrow>
                   bindr (if i_num (inodes s2 rip) = ROOT_INODE \<and> i_num (inodes s2 dirp) = ROOT_INODE \<and> take 1 (tl (snd str)) = [46]
                          then case find (\<lambda>n. s_dev (supers s2 n) = i_dev (inodes s2 rip)) [1..<NR_SUPERS] of
                                 None \<Rightarrow> Inr (Some rip, s2)
                               | Some n \<Rightarrow>
                                   bindr (put_inode env (Some rip) s2) (\<lambda>s3.
                                   bindr (deref (s_imount (supers s3 n))) (\<lambda>m.
                                   bindr (get_inode env (i_dev (inodes s3 m)) (i_num (inodes s3 m)) s3) (\<lambda>(rip2, s4).
                                   bindr (adv rip2 str s4) (\<lambda>(r3, s5).
                                   bindr (put_inode env rip2 s5) (\<lambda>s6. Inr (r3, s6))))))
                          else Inr (Some rip, s2)) (\<lambda>(r4, s7).
                   ran (mount_cross env r4 s7)))))"

primrec advance_fuel :: "nat \<Rightarrow> fs_env \<Rightarrow> nat option \<Rightarrow> fname \<Rightarrow> fsstate \<Rightarrow> (nat option \<times> fsstate) res" where
  "advance_fuel 0 env = (\<lambda>_ _ _. Inl Hang)"
| "advance_fuel (Suc fuel) env = advance_with (advance_fuel fuel env) env"

definition advance :: "fs_env \<Rightarrow> nat option \<Rightarrow> fname \<Rightarrow> fsstate \<Rightarrow> (nat option \<times> fsstate) res" where
  "advance env = advance_fuel (Suc NR_SUPERS) env"

text \<open>
  The walk over the components; every component is nonempty or the last, so that the path gets
  shorter, and the buffer bounds the number of steps.
\<close>

primrec walk_path :: "nat \<Rightarrow> fs_env \<Rightarrow> nat \<Rightarrow> u8 list \<Rightarrow> fsstate \<Rightarrow> ((nat option \<times> u8 list) \<times> fsstate) res" where
  "walk_path 0 env = (\<lambda>_ _ _. Inl Hang)"
| "walk_path (Suc fuel) env = (\<lambda>rip path s.
     case get_name path of
        None \<Rightarrow> Inl (BadIndex PATH_MAX)
      | Some (str, None) \<Rightarrow> bindr (put_inode env (Some rip) (s\<lparr>err_code := ENAMETOOLONG\<rparr>)) (\<lambda>s1. Inr ((None, str), s1))
      | Some (str, Some rest) \<Rightarrow>
          if take 1 rest = [0]
          then if i_mode (inodes s rip) AND I_TYPE = I_DIRECTORY then Inr ((Some rip, str), s)
               else bindr (put_inode env (Some rip) s) (\<lambda>s1. Inr ((None, str), s1\<lparr>err_code := ENOTDIR\<rparr>))
          else bindr (advance env (Some rip) (False, str) s) (\<lambda>(new_ip, s1).
               bindr (put_inode env (Some rip) s1) (\<lambda>s2.
               case new_ip of
                 None \<Rightarrow> Inr ((None, str), s2)
               | Some rip1 \<Rightarrow> walk_path fuel env rip1 rest s2)))"

definition last_dir :: "fs_env \<Rightarrow> fsstate \<Rightarrow> ((nat option \<times> u8 list) \<times> fsstate) res" where
  "last_dir env s =
     (let path = user_path s in
      bindr (deref (if take 1 path = [47] then fp_rootdir (cur s) else fp_workdir (cur s))) (\<lambda>rip.
      if i_nlinks (inodes s rip) = 0 \<or> take 1 path = [0] then Inr ((None, []), s\<lparr>err_code := ENOENT\<rparr>)
      else walk_path (Suc (length path)) env rip path (dup_inode rip s)))"

definition eat_path :: "fs_env \<Rightarrow> fsstate \<Rightarrow> (nat option \<times> fsstate) res" where
  "eat_path env s =
     bindr (last_dir env s) (\<lambda>((ldip, str), s1).
     case ldip of
       None \<Rightarrow> Inr (None, s1)
     | Some l \<Rightarrow>
         if str = [] then Inr (Some l, s1)
         else bindr (advance env (Some l) (False, str) s1) (\<lambda>(rip, s2).
              bindr (put_inode env (Some l) s2) (\<lambda>s3. Inr (rip, s3))))"

end
