(* ===== verification/Fs_Select.thy ===== *)
theory Fs_Select
  imports Fs_Path
begin

unbundle bit_operations_syntax

text \<open>
  Timers of the file system (\<open>timers.c\<close>), \<open>select\<close> (\<open>select.c\<close>), and the pipes (\<open>pipe.c\<close>), whose
  readers and writers may wait in \<open>select\<close>.
\<close>

abbreviation (input) MAXSELECTS :: nat where "MAXSELECTS \<equiv> 25"
abbreviation (input) SEL_RD :: u32 where "SEL_RD \<equiv> 1"
abbreviation (input) SEL_WR :: u32 where "SEL_WR \<equiv> 2"
abbreviation (input) SEL_ERR :: u32 where "SEL_ERR \<equiv> 4"
abbreviation (input) SEL_NOTIFY :: u32 where "SEL_NOTIFY \<equiv> 8"
abbreviation (input) SEL_OK :: int where "SEL_OK \<equiv> 0"

section \<open>Timers\<close>

definition fs_setalarm :: "fs_env \<Rightarrow> string \<Rightarrow> int \<Rightarrow> fsstate \<Rightarrow> fsstate res" where
  "fs_setalarm env msg t s = (let (a, s1) = fs_ask env (RqSetalarm t) s in if a_res a \<noteq> OK then Inl (Panic msg) else Inr s1)"

definition fs_set_timer :: "fs_env \<Rightarrow> nat \<Rightarrow> int \<Rightarrow> fs_watchdog \<Rightarrow> int \<Rightarrow> fsstate \<Rightarrow> fsstate res" where
  "fs_set_timer env tp ticks watchdog arg s =
     (let (a, s1) = fs_ask env RqUptime s; now = sint (hd (a_words a @ [0])) in
      if a_res a \<noteq> OK then Inl (Panic ''FS couldn't get uptime from system task.'')
      else let q = fs_timers s1; q1 = q\<lparr>theap := (theap q)(tp := (theap q tp)\<lparr>tmr_arg := arg\<rparr>)\<rparr>
           in case tmrs_settimer tp (slong (now + ticks)) watchdog q1 of
                None \<Rightarrow> Inl Hang
              | Some (old_head, new_head, q2) \<Rightarrow>
                  let s2 = s1\<lparr>fs_timers := q2\<rparr> in
                  if old_head = 0 \<or> old_head > new_head
                  then fs_setalarm env ''FS set timer couldn't set synchronous alarm.'' new_head s2 else Inr s2)"

definition fs_cancel_timer :: "fs_env \<Rightarrow> nat \<Rightarrow> fsstate \<Rightarrow> fsstate res" where
  "fs_cancel_timer env tp s =
     (case tmrs_clrtimer tp (fs_timers s) of
        None \<Rightarrow> Inl Hang
      | Some (old_head, new_head, q) \<Rightarrow>
          let s1 = s\<lparr>fs_timers := q\<rparr> in
          if old_head < new_head \<or> new_head = 0
          then fs_setalarm env ''FS expire timer couldn't set synchronous alarm.'' new_head s1 else Inr s1)"

definition init_select :: "fsstate \<Rightarrow> fsstate" where
  "init_select s = s\<lparr>fs_timers := fold tmr_inittimer [0..<MAXSELECTS] (fs_timers s)\<rparr>"

section \<open>The table of pending calls\<close>

definition upd_sel :: "nat \<Rightarrow> (selectentry \<Rightarrow> selectentry) \<Rightarrow> fsstate \<Rightarrow> fsstate" where
  "upd_sel n f s = s\<lparr>selecttab := (selecttab s)(n := f (selecttab s n))\<rparr>"

definition tab2ops :: "nat \<Rightarrow> selectentry \<Rightarrow> u32" where
  "tab2ops fd e = (if bit (readfds e) fd then SEL_RD else 0) OR (if bit (writefds e) fd then SEL_WR else 0) OR
     (if bit (errorfds e) fd then SEL_ERR else 0)"

definition ops2tab :: "u32 \<Rightarrow> nat \<Rightarrow> selectentry \<Rightarrow> selectentry" where
  "ops2tab ops fd e =
     (let e1 = (if ops AND SEL_RD \<noteq> 0 \<and> vir_readfds e \<noteq> 0 \<and> bit (readfds e) fd \<and> \<not> bit (ready_readfds e) fd
                then e\<lparr>ready_readfds := set_bit fd (ready_readfds e), nreadyfds := nreadyfds e + 1\<rparr> else e);
          e2 = (if ops AND SEL_WR \<noteq> 0 \<and> vir_writefds e1 \<noteq> 0 \<and> bit (writefds e1) fd \<and> \<not> bit (ready_writefds e1) fd
                then e1\<lparr>ready_writefds := set_bit fd (ready_writefds e1), nreadyfds := nreadyfds e1 + 1\<rparr> else e1)
      in if ops AND SEL_ERR \<noteq> 0 \<and> vir_errorfds e2 \<noteq> 0 \<and> bit (errorfds e2) fd \<and> \<not> bit (ready_errorfds e2) fd
         then e2\<lparr>ready_errorfds := set_bit fd (ready_errorfds e2), nreadyfds := nreadyfds e2 + 1\<rparr> else e2)"

definition copy_fdset :: "int \<Rightarrow> u32 \<Rightarrow> u32 \<Rightarrow> fsstate \<Rightarrow> fsstate" where
  "copy_fdset proc vir fds s = (if vir \<noteq> 0 then fs_tell (RqCopyOut proc 1 vir (bytes32 fds)) s else s)"

definition copy_fdsets :: "nat \<Rightarrow> fsstate \<Rightarrow> fsstate" where
  "copy_fdsets n s =
     (let e = selecttab s n; p = req_procnr e in
      copy_fdset p (vir_errorfds e) (ready_errorfds e)
        (copy_fdset p (vir_writefds e) (ready_writefds e) (copy_fdset p (vir_readfds e) (ready_readfds e) s)))"

definition select_reevaluate :: "nat \<Rightarrow> fsstate \<Rightarrow> fsstate" where
  "select_reevaluate f s =
     (let remain = fold (\<lambda>n r. if requestor (selecttab s n) = None then r
            else fold (\<lambda>fd r. if sel_filps (selecttab s n) fd = Some f then r OR tab2ops fd (selecttab s n) else r)
                   [0..<sel_nfds (selecttab s n)] r) [0..<MAXSELECTS] 0
      in upd_filp f (\<lambda>x. x\<lparr>filp_select_ops := remain\<rparr>) s)"

definition cancel_fd :: "nat \<Rightarrow> nat \<Rightarrow> fsstate \<Rightarrow> fsstate" where
  "cancel_fd n fd s =
     (case sel_filps (selecttab s n) fd of
        None \<Rightarrow> s
      | Some f \<Rightarrow>
          if filp_selectors (filps s f) < 1 then s
          else select_reevaluate f (upd_sel n (\<lambda>e. e\<lparr>sel_filps := (sel_filps e)(fd := None)\<rparr>)
                 (upd_filp f (\<lambda>x. x\<lparr>filp_selectors := filp_selectors x - 1\<rparr>) s)))"

definition select_cancel_all :: "fs_env \<Rightarrow> nat \<Rightarrow> fsstate \<Rightarrow> fsstate res" where
  "select_cancel_all env n s =
     (let s1 = fold (cancel_fd n) [0..<sel_nfds (selecttab s n)] s in
      if sel_expiry (selecttab s1 n) > 0
      then bindr (fs_cancel_timer env n s1) (\<lambda>s2. Inr (upd_sel n (\<lambda>e. e\<lparr>sel_expiry := 0\<rparr>) s2))
      else Inr s1)"

definition select_wakeup :: "nat \<Rightarrow> fsstate \<Rightarrow> fsstate res" where
  "select_wakeup n s = revive (req_procnr (selecttab s n)) (nreadyfds (selecttab s n)) s"

text \<open>The descriptors of one call that refer to the open file.\<close>

definition callback_fds :: "nat \<Rightarrow> u32 \<Rightarrow> nat \<Rightarrow> fsstate \<Rightarrow> bool \<times> fsstate" where
  "callback_fds f ops n s =
     fold (\<lambda>fd (wake, s1). if sel_filps (selecttab s1 n) fd = Some f \<and> tab2ops fd (selecttab s1 n) AND ops \<noteq> 0
              then (True, upd_sel n (ops2tab ops fd) s1) else (wake, s1)) [0..<sel_nfds (selecttab s n)] (False, s)"

fun callback_loop :: "fs_env \<Rightarrow> nat \<Rightarrow> u32 \<Rightarrow> nat list \<Rightarrow> fsstate \<Rightarrow> fsstate res" where
  "callback_loop env f ops [] s = Inr s"
| "callback_loop env f ops (n # ns) s =
     (if requestor (selecttab s n) = None then callback_loop env f ops ns s
      else let (wake, s1) = callback_fds f ops n s in
           if \<not> wake then callback_loop env f ops ns s1
           else bindr (select_cancel_all env n s1) (\<lambda>s2.
                bindr (select_wakeup n (upd_sel n (\<lambda>e. e\<lparr>requestor := None\<rparr>) (copy_fdsets n s2))) (callback_loop env f ops ns)))"

definition select_callback :: "fs_env \<Rightarrow> nat \<Rightarrow> u32 \<Rightarrow> fsstate \<Rightarrow> fsstate res" where
  "select_callback env f ops s = callback_loop env f ops [0..<MAXSELECTS] s"

definition select_forget :: "fs_env \<Rightarrow> int \<Rightarrow> fsstate \<Rightarrow> fsstate res" where
  "select_forget env proc s =
     (case find (\<lambda>n. requestor (selecttab s n) \<noteq> None \<and> req_procnr (selecttab s n) = proc) [0..<MAXSELECTS] of
        None \<Rightarrow> Inr s
      | Some n \<Rightarrow> bindr (select_cancel_all env n s) (\<lambda>s1. Inr (upd_sel n (\<lambda>e. e\<lparr>requestor := None\<rparr>) s1)))"

definition select_timeout_check :: "fs_env \<Rightarrow> int \<Rightarrow> fsstate \<Rightarrow> fsstate res" where
  "select_timeout_check env arg s =
     (if arg < 0 \<or> arg \<ge> int MAXSELECTS then Inr s
      else let n = nat arg; e = selecttab s n in
      if requestor e = None \<or> sel_expiry e \<le> 0 then Inr s
      else bindr (select_cancel_all env n (copy_fdsets n (upd_sel n (\<lambda>e. e\<lparr>sel_expiry := 0\<rparr>) s))) (\<lambda>s1.
           select_wakeup n (upd_sel n (\<lambda>e. e\<lparr>requestor := None\<rparr>) s1)))"

fun fs_watch :: "fs_env \<Rightarrow> nat \<Rightarrow> fs_watchdog \<Rightarrow> (nat, fs_watchdog) tqueue \<times> fsstate res \<Rightarrow> (nat, fs_watchdog) tqueue \<times> fsstate res" where
  "fs_watch env tp f (q, Inl e) = (q\<lparr>thead := None\<rparr>, Inl e)"
| "fs_watch env tp NoFsWatchdog (q, Inr s) = (q, Inr s)"
| "fs_watch env tp SelectTimeoutCheck (q, Inr s) =
     (case select_timeout_check env (tmr_arg (theap q tp)) (s\<lparr>fs_timers := q\<rparr>) of
        Inl e \<Rightarrow> (q\<lparr>thead := None\<rparr>, Inl e)
      | Inr s1 \<Rightarrow> (fs_timers s1, Inr s1))"

definition fs_expire_timers :: "fs_env \<Rightarrow> int \<Rightarrow> fsstate \<Rightarrow> fsstate res" where
  "fs_expire_timers env now s =
     (case tmrs_exptimers (fs_watch env) now (fs_timers s, Inr s) of
        None \<Rightarrow> Inl Hang
      | Some (new_head, q, r) \<Rightarrow> bindr r (\<lambda>s1.
          let s2 = s1\<lparr>fs_timers := q\<rparr> in
          if new_head > 0 then fs_setalarm env ''FS expire timer couldn't set synchronous alarm.'' new_head s2 else Inr s2))"

section \<open>Kinds of files\<close>

text \<open>
  The entries of \<open>fdtypes\<close>, in their order: files, terminals, network, pipes, log. A type with a
  matching function is found by it, the others by the major device number.
\<close>

definition select_major :: "nat \<Rightarrow> nat option" where
  "select_major t = (if t = 1 then Some 4 else if t = 2 then Some 7 else if t = 4 then Some 15 else None)"

definition select_major_match :: "nat \<Rightarrow> nat \<Rightarrow> fsstate \<Rightarrow> bool" where
  "select_major_match maj f s =
     (case filp_ino (filps s f) of
        None \<Rightarrow> False
      | Some i \<Rightarrow> i_mode (inodes s i) AND I_TYPE = I_CHAR_SPECIAL \<and> unat (drop_bit 8 (i_zone (inodes s i) 0) AND 0xFF) = maj)"

definition select_match :: "nat \<Rightarrow> nat \<Rightarrow> fsstate \<Rightarrow> bool" where
  "select_match t f s =
     (case select_major t of
        Some maj \<Rightarrow> select_major_match maj f s
      | None \<Rightarrow> (case filp_ino (filps s f) of
                   None \<Rightarrow> False
                 | Some i \<Rightarrow> i_mode (inodes s i) AND (if t = 0 then I_REGULAR else I_NAMED_PIPE) \<noteq> 0))"

definition select_type :: "nat \<Rightarrow> fsstate \<Rightarrow> nat option" where
  "select_type f s = find (\<lambda>t. select_match t f s) (rev [0..<5])"

fun notified_fds :: "fs_env \<Rightarrow> nat \<Rightarrow> int \<Rightarrow> u32 \<Rightarrow> nat \<Rightarrow> nat list \<Rightarrow> fsstate \<Rightarrow> fsstate res" where
  "notified_fds env maj mnr selected n [] s = Inr s"
| "notified_fds env maj mnr selected n (fd # fds) s =
     (if fd < sel_nfds (selecttab s n)
      then case sel_filps (selecttab s n) fd of
             None \<Rightarrow> notified_fds env maj mnr selected n fds s
           | Some f \<Rightarrow>
               if \<not> select_major_match maj f s then notified_fds env maj mnr selected n fds s
               else let ops = tab2ops fd (selecttab s n) in
                    bindr (deref (filp_ino (filps s f))) (\<lambda>i.
                    bindr (if uint (i_zone (inodes s i) 0 AND 0xFF) = mnr \<and> selected AND ops \<noteq> 0
                           then select_callback env f (selected AND ops) s else Inr s) (notified_fds env maj mnr selected n fds))
      else Inr s)"

fun notified_loop :: "fs_env \<Rightarrow> nat \<Rightarrow> int \<Rightarrow> u32 \<Rightarrow> nat list \<Rightarrow> fsstate \<Rightarrow> fsstate res" where
  "notified_loop env maj mnr selected [] s = Inr s"
| "notified_loop env maj mnr selected (n # ns) s =
     bindr (if requestor (selecttab s n) = None then Inr s else notified_fds env maj mnr selected n [0..<OPEN_MAX] s)
       (notified_loop env maj mnr selected ns)"

definition select_notified :: "fs_env \<Rightarrow> nat \<Rightarrow> int \<Rightarrow> u32 \<Rightarrow> fsstate \<Rightarrow> fsstate res" where
  "select_notified env maj mnr selected s =
     (if list_ex (\<lambda>t. select_major t = Some maj) [0..<5] then notified_loop env maj mnr selected [0..<MAXSELECTS] s else Inr s)"

section \<open>Pipes\<close>

fun release_select :: "fs_env \<Rightarrow> nat \<Rightarrow> u32 \<Rightarrow> nat list \<Rightarrow> fsstate \<Rightarrow> fsstate res" where
  "release_select env ip op [] s = Inr s"
| "release_select env ip op (f # fs) s =
     (if filp_count (filps s f) < 1 \<or> filp_pipe_select_ops (filps s f) AND op = 0 \<or> filp_ino (filps s f) \<noteq> Some ip
      then release_select env ip op fs s
      else bindr (select_callback env f op s) (\<lambda>s1.
           release_select env ip op fs (upd_filp f (\<lambda>x. x\<lparr>filp_pipe_select_ops := filp_pipe_select_ops x AND NOT op\<rparr>) s1)))"

fun release_procs :: "nat \<Rightarrow> int \<Rightarrow> int \<Rightarrow> int list \<Rightarrow> fsstate \<Rightarrow> fsstate res" where
  "release_procs ip callnr count [] s = Inr s"
| "release_procs ip callnr count (n # ns) s =
     (let rp = fprocs s n in
      if fp_suspended rp \<and> \<not> fp_revived rp \<and> fp_fd rp mod 256 = callnr
      then (if fp_fd rp div 256 < 0 \<or> fp_fd rp div 256 \<ge> int OPEN_MAX then Inl (BadIndex (fp_fd rp div 256))
            else case fp_filp rp (nat (fp_fd rp div 256)) of
              None \<Rightarrow> Inl NullDeref
            | Some f \<Rightarrow>
                if filp_ino (filps s f) = Some ip
                then bindr (revive n 0 s) (\<lambda>s1.
                     let s2 = s1\<lparr>susp_count := susp_count s1 - 1\<rparr> in
                     if count - 1 = 0 then Inr s2 else release_procs ip callnr (count - 1) ns s2)
                else release_procs ip callnr count ns s)
      else release_procs ip callnr count ns s)"

definition release :: "fs_env \<Rightarrow> nat \<Rightarrow> int \<Rightarrow> int \<Rightarrow> fsstate \<Rightarrow> fsstate res" where
  "release env ip callnr count s =
     bindr (if callnr = READ_CALL then release_select env ip SEL_RD [0..<NR_FILPS] s
            else if callnr = WRITE_CALL then release_select env ip SEL_WR [0..<NR_FILPS] s
            else Inr s) (release_procs ip callnr count slots)"

definition PIPE_SIZE :: "super_block \<Rightarrow> int" where
  "PIPE_SIZE sp = 7 * uint (s_block_size sp)"

text \<open>The result is positive if the transfer may go on, with the number of bytes that fit.\<close>

definition pipe_read_check :: "fs_env \<Rightarrow> nat \<Rightarrow> u32 \<Rightarrow> bool \<Rightarrow> fsstate \<Rightarrow> ((int \<times> int) \<times> fsstate) res" where
  "pipe_read_check env rip oflags notouch s =
     (if find_filp rip W_BIT s = None then Inr ((0, 0), s)
      else let r = (if oflags AND O_NONBLOCK \<noteq> 0 then EAGAIN else SUSPEND);
               s1 = (if r = SUSPEND \<and> \<not> notouch then suspend XPIPE s else s)
           in bindr (if susp_count s1 > 0 \<and> \<not> notouch then release env rip WRITE_CALL (susp_count s1) s1 else Inr s1) (\<lambda>s2.
              Inr ((r, 0), s2)))"

definition pipe_full :: "fs_env \<Rightarrow> nat \<Rightarrow> u32 \<Rightarrow> int \<Rightarrow> u32 \<Rightarrow> int \<Rightarrow> bool \<Rightarrow> fsstate \<Rightarrow> ((int \<times> int) \<times> fsstate) res" where
  "pipe_full env rip oflags nbytes position psize notouch s =
     (let nonblock = (oflags AND O_NONBLOCK \<noteq> 0);
          canwrite = sint (word_of_int psize - position);
          block = Inr ((SUSPEND, 0), if notouch then s else suspend XPIPE s)
      in if nonblock \<and> nbytes < psize then Inr ((EAGAIN, 0), s)
         else if nonblock \<and> nbytes > psize
         then (if canwrite > 0
               then bindr (if notouch then Inr s else release env rip READ_CALL (susp_count s) s) (\<lambda>s1. Inr ((1, canwrite), s1))
               else Inr ((EAGAIN, canwrite), s))
         else if nbytes > psize \<and> canwrite > 0
         then bindr (release env rip READ_CALL (susp_count s) s) (\<lambda>s1. Inr ((1, canwrite), s1))
         else block)"

definition pipe_check ::
  "fs_env \<Rightarrow> nat \<Rightarrow> rw_flag \<Rightarrow> u32 \<Rightarrow> int \<Rightarrow> u32 \<Rightarrow> bool \<Rightarrow> fsstate \<Rightarrow> ((int \<times> int) \<times> fsstate) res" where
  "pipe_check env rip rw oflags nbytes position notouch s =
     (case rw of
        READING \<Rightarrow> if position \<ge> i_size (inodes s rip) then pipe_read_check env rip oflags notouch s else Inr ((1, 0), s)
      | WRITING \<Rightarrow>
          if find_filp rip R_BIT s = None
          then Inr ((EPIPE, 0), if notouch then s else fs_tell (RqKill (fs_fp s) 13) s)
          else bindr (isp rip s) (\<lambda>sp.
               let psize = PIPE_SIZE sp in
               if uint (position + word_of_int nbytes) > psize then pipe_full env rip oflags nbytes position psize notouch s
               else bindr (if position = 0 \<and> \<not> notouch then release env rip READ_CALL (susp_count s) s else Inr s) (\<lambda>s1.
                    Inr ((1, 0), s1))))"

section \<open>The call\<close>

definition select_request_general :: "fs_env \<Rightarrow> nat \<Rightarrow> u32 \<Rightarrow> bool \<Rightarrow> fsstate \<Rightarrow> ((int \<times> u32) \<times> fsstate) res" where
  "select_request_general env f ops block s =
     bindr (deref (filp_ino (filps s f))) (\<lambda>i.
     let rops = (if block then ops OR SEL_NOTIFY else ops) in
     bindr (dev_io env DEV_SELECT (sint (ucast (i_zone (inodes s i) 0) :: u16)) (sint rops) (UserMem 0) [] 0 0 0 s) (\<lambda>((r, _), s1).
     Inr ((if r < 0 then 4 else SEL_OK, word_of_int r), s1)))"

definition pipe_ready :: "fs_env \<Rightarrow> nat \<Rightarrow> rw_flag \<Rightarrow> u32 \<Rightarrow> u32 \<Rightarrow> u32 \<Rightarrow> fsstate \<Rightarrow> (u32 \<times> fsstate) res" where
  "pipe_ready env rip rw op ops pos s =
     (if ops AND op = 0 then Inr (0, s)
      else bindr (pipe_check env rip rw 0 1 pos True s) (\<lambda>((err, _), s1).
           Inr ((if err \<noteq> SUSPEND then op else 0) OR (if err < 0 \<and> err \<noteq> SUSPEND \<and> ops AND SEL_ERR \<noteq> 0 then SEL_ERR else 0), s1)))"

definition select_request_pipe :: "fs_env \<Rightarrow> nat \<Rightarrow> u32 \<Rightarrow> bool \<Rightarrow> fsstate \<Rightarrow> ((int \<times> u32) \<times> fsstate) res" where
  "select_request_pipe env f ops block s =
     bindr (deref (filp_ino (filps s f))) (\<lambda>i.
     bindr (pipe_ready env i READING SEL_RD ops (filp_pos (filps s f)) s) (\<lambda>(r1, s1).
     bindr (pipe_ready env i WRITING SEL_WR ops (filp_pos (filps s1 f)) s1) (\<lambda>(r2, s2).
     let r = r1 OR r2 in
     Inr ((SEL_OK, r), if r = 0 \<and> block then upd_filp f (\<lambda>x. x\<lparr>filp_pipe_select_ops := filp_pipe_select_ops x OR ops\<rparr>) s2 else s2))))"

definition select_request :: "fs_env \<Rightarrow> nat \<Rightarrow> nat \<Rightarrow> u32 \<Rightarrow> bool \<Rightarrow> fsstate \<Rightarrow> ((int \<times> u32) \<times> fsstate) res" where
  "select_request env t f ops block s =
     (if t = 0 then Inr ((SEL_OK, ops), s)
      else if t = 3 then select_request_pipe env f ops block s
      else select_request_general env f ops block s)"

text \<open>The loop over the descriptors; \<open>Some r\<close> is the result of the call.\<close>

fun select_fds :: "fs_env \<Rightarrow> nat \<Rightarrow> bool \<Rightarrow> nat list \<Rightarrow> fsstate \<Rightarrow> (int option \<times> fsstate) res" where
  "select_fds env n block [] s = Inr (None, s)"
| "select_fds env n block (fd # fds) s =
     (let ops = tab2ops fd (selecttab s n) in
      if ops = 0 then select_fds env n block fds s
      else let (fo, s0) = get_filp (int fd) s; s1 = upd_sel n (\<lambda>e. e\<lparr>sel_filps := (sel_filps e)(fd := fo)\<rparr>) s0 in
      case fo of
        None \<Rightarrow> bindr (select_cancel_all env n s1) (\<lambda>s2. Inr (Some EBADF, s2))
      | Some f \<Rightarrow>
          (case select_type f s1 of
             None \<Rightarrow> Inr (Some EBADF, s1)
           | Some t \<Rightarrow>
               let s2 = upd_sel n (\<lambda>e. e\<lparr>sel_type := (sel_type e)(fd := t)\<rparr>) s1 in
               bindr (if filp_select_ops (filps s2 f) AND ops = ops then Inr (None, s2)
                      else let want = filp_select_ops (filps s2 f) OR ops;
                               s3 = upd_filp f (\<lambda>x. x\<lparr>filp_select_ops := want\<rparr>) s2
                           in bindr (select_request env t f want block s3) (\<lambda>((r, got), s4).
                              if r \<noteq> SEL_OK then bindr (select_cancel_all env n s4) (\<lambda>s5. Inr (Some EINVAL, s5))
                              else if got = 0 then Inr (None, s4)
                              else bindr (select_callback env f ops (if got AND ops \<noteq> 0 then upd_sel n (ops2tab got fd) s4 else s4)) (\<lambda>s5.
                                   Inr (None, s5)))) (\<lambda>(x, s6).
               if x \<noteq> None then Inr (x, s6)
               else select_fds env n block fds (upd_filp f (\<lambda>x. x\<lparr>filp_selectors := filp_selectors x + 1\<rparr>)
                      (upd_sel n (\<lambda>e. e\<lparr>sel_nfds := fd + 1\<rparr>) s6)))))"

definition fetch_fdset :: "fs_env \<Rightarrow> u32 \<Rightarrow> fsstate \<Rightarrow> (int \<times> u32) \<times> fsstate" where
  "fetch_fdset env vir s =
     (if vir = 0 then ((OK, 0), s)
      else let (a, s1) = fs_ask env (RqCopyIn (fs_who s) 1 vir 4) s in ((a_res a, le32 (a_bytes a)), s1))"

text \<open>The timeout in ticks, rounded up; microseconds beyond a second are carried first.\<close>

definition timeout_ticks :: "int \<Rightarrow> int \<Rightarrow> int" where
  "timeout_ticks sec usec =
     (let sec1 = sec + usec div 1000000; usec1 = usec mod 1000000
      in slong (sec1 * HZ + (usec1 * HZ + 1000000 - 1) div 1000000))"

definition select_wait :: "fs_env \<Rightarrow> nat \<Rightarrow> (int \<times> int) option \<Rightarrow> fsstate \<Rightarrow> (int \<times> fsstate) res" where
  "select_wait env n timeout s =
     bindr (case timeout of
              None \<Rightarrow> Inr s
            | Some (sec, usec) \<Rightarrow>
                let ticks = timeout_ticks sec usec in
                fs_set_timer env n ticks SelectTimeoutCheck (int n) (upd_sel n (\<lambda>e. e\<lparr>sel_expiry := ticks\<rparr>) s)) (\<lambda>s1.
     Inr (SUSPEND, suspend XSELECT (upd_sel n (\<lambda>e. e\<lparr>requestor := Some (fs_fp s1)\<rparr>) s1)))"

definition do_select :: "fs_env \<Rightarrow> fsstate \<Rightarrow> (int \<times> fsstate) res" where
  "do_select env s =
     (let nfds = fs_arg s 0 in
      if nfds < 0 \<or> nfds > int OPEN_MAX then Inr (EINVAL, s)
      else case find (\<lambda>n. requestor (selecttab s n) = None) [0..<MAXSELECTS] of
        None \<Rightarrow> Inr (ENOSPC, s)
      | Some n \<Rightarrow>
          let vr = fs_word s 2; vw = fs_word s 3; ve = fs_word s 4; vt = fs_word s 5;
              s1 = upd_sel n (\<lambda>e. e\<lparr>req_procnr := fs_who s, sel_nfds := 0, nreadyfds := 0, sel_filps := (\<lambda>_. None), readfds := 0,
                     writefds := 0, errorfds := 0, ready_readfds := 0, ready_writefds := 0, ready_errorfds := 0,
                     vir_readfds := vr, vir_writefds := vw, vir_errorfds := ve\<rparr>) s;
              ((r1, d1), s2) = fetch_fdset env vr s1
          in if r1 \<noteq> OK then Inr (r1, s2)
          else let ((r2, d2), s3) = fetch_fdset env vw (upd_sel n (\<lambda>e. e\<lparr>readfds := d1\<rparr>) s2) in if r2 \<noteq> OK then Inr (r2, s3)
          else let ((r3, d3), s4) = fetch_fdset env ve (upd_sel n (\<lambda>e. e\<lparr>writefds := d2\<rparr>) s3) in if r3 \<noteq> OK then Inr (r3, s4)
          else let (a, s5) = (if vt = 0 then (\<lparr>a_res = OK, a_msg = no_mess, a_words = [], a_bytes = []\<rparr>, upd_sel n (\<lambda>e. e\<lparr>errorfds := d3\<rparr>) s4)
                              else fs_ask env (RqCopyIn (fs_who s) 1 vt 8) (upd_sel n (\<lambda>e. e\<lparr>errorfds := d3\<rparr>) s4));
                   sec = sint (le32 (take 4 (a_bytes a))); usec = sint (le32 (drop 4 (a_bytes a)));
                   timeout = (if vt = 0 then None else Some (sec, usec))
          in if a_res a \<noteq> OK then Inr (a_res a, s5)
          else if vt \<noteq> 0 \<and> (sec < 0 \<or> usec < 0) then Inr (EINVAL, s5)
          else let block = (vt = 0 \<or> sec > 0 \<or> usec > 0); s6 = upd_sel n (\<lambda>e. e\<lparr>sel_expiry := 0\<rparr>) s5 in
          bindr (select_fds env n block [0..<nat nfds] s6) (\<lambda>(x, s7).
          case x of
            Some r \<Rightarrow> Inr (r, s7)
          | None \<Rightarrow>
              if nreadyfds (selecttab s7 n) > 0 \<or> \<not> block
              then bindr (select_cancel_all env n (copy_fdsets n s7)) (\<lambda>s8.
                   let s9 = upd_sel n (\<lambda>e. e\<lparr>requestor := None\<rparr>) s8 in Inr (nreadyfds (selecttab s9 n), s9))
              else select_wait env n timeout s7))"

end
