(* ===== verification/Fs_Rw.thy ===== *)
theory Fs_Rw
  imports Fs_Select
begin

unbundle bit_operations_syntax

text \<open>
  Reading and writing files (\<open>read.c\<close>, \<open>do_write\<close> of \<open>write.c\<close>). The loop over the chunks keeps the
  user address and the bytes still to transfer in the message, as the code does: a process that is
  suspended in the middle continues from there.
\<close>

text \<open>The device that a special file stands for.\<close>

abbreviation zdev :: "inode \<Rightarrow> int" where
  "zdev i \<equiv> sint (ucast (i_zone i 0) :: u16)"

section \<open>Reading ahead\<close>

text \<open>How many blocks to fetch.\<close>

definition blocks_wanted :: "inode \<Rightarrow> bool \<Rightarrow> nat \<Rightarrow> u32 \<Rightarrow> u32 \<Rightarrow> u32 \<Rightarrow> u32" where
  "blocks_wanted i block_spec scale bs position bytes_ahead =
     (let ahead = (bytes_ahead + bs - 1) div bs;
          left0 = (i_size i - position + bs - 1) div bs;
          ind1_pos = of_nat (i_ndzones i) * push_bit scale bs;
          near = (\<not> block_spec \<and> position \<le> ind1_pos \<and> i_size i > ind1_pos);
          (ahead1, left) = (if block_spec \<and> i_size i = 0 then (ahead, of_nat NR_IOREQS)
                            else if near then (ahead + 1, left0 + 1) else (ahead, left0));
          ahead2 = (if ahead1 > of_nat NR_IOREQS then of_nat NR_IOREQS else ahead1);
          ahead3 = (if ahead2 < 32 \<and> \<not> i_seek i then 32 else ahead2)
      in if ahead3 > left then left else ahead3)"

text \<open>The buffers for the read; the count is one less each time and wraps around if it was 0.\<close>

partial_function (option) ahead_loop :: "fs_env \<Rightarrow> int \<Rightarrow> u32 \<Rightarrow> u32 \<Rightarrow> nat \<Rightarrow> nat list \<Rightarrow> fsstate \<Rightarrow> (nat list \<times> fsstate) res option" where
  "ahead_loop env dev block cnt bp q s =
     (if cnt - 1 = 0 \<or> bufs_in_use s \<ge> int NR_BUFS - 4 then Some (Inr (q @ [bp], s))
      else (case get_block env dev (block + 1) PREFETCH s of
              Inl e \<Rightarrow> Some (Inl e)
            | Inr (bp1, s1) \<Rightarrow>
                if b_dev (bufs s1 bp1) \<noteq> NO_DEV
                then Some (bindr (put_block env (Some bp1) FULL_DATA_BLOCK s1) (\<lambda>s2. Inr (q @ [bp], s2)))
                else ahead_loop env dev (block + 1) (cnt - 1) bp1 (q @ [bp]) s1))"

definition rahead :: "fs_env \<Rightarrow> nat \<Rightarrow> u32 \<Rightarrow> u32 \<Rightarrow> u32 \<Rightarrow> fsstate \<Rightarrow> (nat \<times> fsstate) res" where
  "rahead env rip baseblock position bytes_ahead s =
     (let i = inodes s rip; block_spec = (i_mode i AND I_TYPE = I_BLOCK_SPECIAL); dev = (if block_spec then zdev i else i_dev i) in
      bindr (get_block_size dev s) (\<lambda>block_size.
      bindr (get_block env dev baseblock PREFETCH s) (\<lambda>(bp, s1).
      if b_dev (bufs s1 bp) \<noteq> NO_DEV then Inr (bp, s1)
      else let bs = of_nat block_size; fragment = position mod bs in
           bindr (if block_spec then Inr 0 else bindr (isp rip s1) (\<lambda>sp. Inr (scale_of sp))) (\<lambda>scale.
           let n = blocks_wanted (inodes s1 rip) block_spec scale bs (position - fragment) (bytes_ahead + fragment) in
           bindr (ran (ahead_loop env dev baseblock n bp [] s1)) (\<lambda>(q, s2).
           bindr (rw_scattered env dev q READING s2) (get_block env dev baseblock NORMAL))))))"

definition read_ahead :: "fs_env \<Rightarrow> fsstate \<Rightarrow> fsstate res" where
  "read_ahead env s =
     bindr (deref (rdahed_inode s)) (\<lambda>rip.
     bindr (get_block_size (i_dev (inodes s rip)) s) (\<lambda>block_size.
     let s0 = s\<lparr>rdahed_inode := None\<rparr> in
     bindr (read_map env rip (rdahedpos s0) s0) (\<lambda>(b, s1).
     if b = NO_BLOCK then Inr s1
     else bindr (rahead env rip b (rdahedpos s1) (of_nat block_size) s1) (\<lambda>(bp, s2).
          put_block env (Some bp) PARTIAL_DATA_BLOCK s2))))"

section \<open>One chunk\<close>

text \<open>The buffer for a chunk; there is none if the disk is full.\<close>

definition chunk_buf ::
  "fs_env \<Rightarrow> nat \<Rightarrow> u32 \<Rightarrow> nat \<Rightarrow> nat \<Rightarrow> u32 \<Rightarrow> rw_flag \<Rightarrow> nat \<Rightarrow> fsstate \<Rightarrow> (nat option \<times> fsstate) res" where
  "chunk_buf env rip position off chunk left rw block_size s =
     (let i = inodes s rip; block_spec = (i_mode i AND I_TYPE = I_BLOCK_SPECIAL); some = (\<lambda>(bp, t). Inr (Some bp, t)) in
      bindr (if block_spec then Inr (position div of_nat block_size, s) else read_map env rip position s) (\<lambda>(b, s1).
      let dev = (if block_spec then zdev i else i_dev i) in
      if \<not> block_spec \<and> b = NO_BLOCK
      then case rw of
             READING \<Rightarrow> bindr (get_block env NO_DEV NO_BLOCK NORMAL s1) (\<lambda>(bp, s2). Inr (Some bp, zero_block bp s2))
           | WRITING \<Rightarrow> new_block env rip position s1
      else case rw of
             READING \<Rightarrow> bindr (rahead env rip b position left s1) some
           | WRITING \<Rightarrow>
               bindr (get_block env dev b (if chunk = block_size \<or> \<not> block_spec \<and> off = 0 \<and> position \<ge> i_size (inodes s1 rip)
                                           then NO_READ else NORMAL) s1) some))"

definition rw_chunk ::
  "fs_env \<Rightarrow> nat \<Rightarrow> u32 \<Rightarrow> nat \<Rightarrow> nat \<Rightarrow> u32 \<Rightarrow> rw_flag \<Rightarrow> u32 \<Rightarrow> nat \<Rightarrow> int \<Rightarrow> nat \<Rightarrow> fsstate \<Rightarrow> (int \<times> fsstate) res" where
  "rw_chunk env rip position off chunk left rw buff seg usr block_size s =
     bindr (chunk_buf env rip position off chunk left rw block_size s) (\<lambda>(bpo, s1).
     case bpo of
       None \<Rightarrow> Inr (err_code s1, s1)
     | Some bp \<Rightarrow>
         let i = inodes s1 rip;
             s2 = (if rw = WRITING \<and> chunk \<noteq> block_size \<and> i_mode i AND I_TYPE \<noteq> I_BLOCK_SPECIAL \<and> position \<ge> i_size i \<and> off = 0
                   then zero_block bp s1 else s1);
             (r, s3) =
               (case rw of
                  READING \<Rightarrow> let (a, t) = fs_ask env (RqCopyOut usr seg buff (read_bytes (b_data (bufs s2 bp)) (of_nat off) chunk)) s2
                             in (a_res a, t)
                | WRITING \<Rightarrow> let (a, t) = fs_ask env (RqCopyIn usr seg buff chunk) s2
                             in (a_res a, upd_buf bp (\<lambda>b. b\<lparr>b_data := write_bytes (of_nat off) (take chunk (a_bytes a)) (b_data b), b_dirt := True\<rparr>) t))
         in bindr (put_block env (Some bp) (if off + chunk = block_size then FULL_DATA_BLOCK else PARTIAL_DATA_BLOCK) s3) (\<lambda>s4.
            Inr (r, s4)))"

section \<open>The calls\<close>

abbreviation set_arg :: "nat \<Rightarrow> u32 \<Rightarrow> fsstate \<Rightarrow> fsstate" where
  "set_arg i v s \<equiv> s\<lparr>fs_in := mset_w i v (fs_in s)\<rparr>"

record rw_regs =
  rw_pos :: u32
  rw_cum :: int
  rw_partial :: int
  rw_res :: int

text \<open>The loop over the chunks. A pipe write that only fits in part stops after \<open>rw_partial\<close> bytes.\<close>

partial_function (option) rw_chunks ::
  "fs_env \<Rightarrow> nat \<Rightarrow> rw_flag \<Rightarrow> nat \<Rightarrow> int \<Rightarrow> nat \<Rightarrow> u32 \<Rightarrow> bool \<Rightarrow> rw_regs \<Rightarrow> fsstate \<Rightarrow> (rw_regs \<times> fsstate) res option" where
  "rw_chunks env rip rw seg usr block_size f_size partial k s =
     (let nbytes = fs_arg s 1; position = rw_pos k; off = unat position mod block_size;
          chunk0 = nat (min (if partial then rw_partial k else nbytes) (int (block_size - off)))
      in if nbytes = 0 \<or> rw = READING \<and> position \<ge> f_size then Some (Inr (k, s))
         else let chunk = (if rw = READING \<and> chunk0 > unat (f_size - position) then unat (f_size - position) else chunk0) in
         (case rw_chunk env rip position off chunk (word_of_int nbytes) rw (fs_word s 3) seg usr block_size s of
            Inl e \<Rightarrow> Some (Inl e)
          | Inr (r, s1) \<Rightarrow>
              if r \<noteq> OK \<or> rdwt_err s1 < 0 then Some (Inr (k\<lparr>rw_res := r\<rparr>, s1))
              else let s2 = set_arg 1 (word_of_int (nbytes - int chunk)) (set_arg 3 (fs_word s1 3 + of_nat chunk) s1);
                       k2 = \<lparr>rw_pos = position + of_nat chunk, rw_cum = rw_cum k + int chunk,
                             rw_partial = (if partial then rw_partial k - int chunk else rw_partial k), rw_res = r\<rparr>
                   in if partial \<and> rw_partial k2 \<le> 0 then Some (Inr (k2, s2))
                      else rw_chunks env rip rw seg usr block_size f_size partial k2 s2))"

text \<open>What happens once the transfer is over.\<close>

definition rw_finish :: "nat \<Rightarrow> nat \<Rightarrow> rw_flag \<Rightarrow> nat \<Rightarrow> u32 \<Rightarrow> u16 \<Rightarrow> rw_regs \<Rightarrow> fsstate \<Rightarrow> fsstate" where
  "rw_finish f rip rw block_size f_size mode_word k s =
     (let regular = (mode_word = I_REGULAR \<or> mode_word = I_NAMED_PIPE); position = rw_pos k;
          (pos1, s1) =
            (case rw of
               WRITING \<Rightarrow> (position, if (regular \<or> mode_word = I_DIRECTORY) \<and> position > f_size
                                     then upd_ino rip (\<lambda>i. i\<lparr>i_size := position\<rparr>) s else s)
             | READING \<Rightarrow>
                 if i_pipe (inodes s rip) \<and> position \<ge> i_size (inodes s rip)
                 then let t = upd_ino rip (\<lambda>i. i\<lparr>i_size := 0\<rparr>) s
                      in (0, case find_filp rip W_BIT t of None \<Rightarrow> t | Some w \<Rightarrow> upd_filp w (\<lambda>x. x\<lparr>filp_pos := 0\<rparr>) t)
                 else (position, s));
          s2 = upd_filp f (\<lambda>x. x\<lparr>filp_pos := pos1\<rparr>) s1;
          s3 = (if rw = READING \<and> \<not> i_seek (inodes s2 rip) \<and> unat pos1 mod block_size = 0 \<and> (regular \<or> mode_word = I_DIRECTORY)
                then s2\<lparr>rdahed_inode := Some rip, rdahedpos := pos1\<rparr> else s2)
      in upd_ino rip (\<lambda>i. i\<lparr>i_seek := False\<rparr>) s3)"

definition rw_reply :: "nat \<Rightarrow> rw_flag \<Rightarrow> u32 \<Rightarrow> bool \<Rightarrow> rw_regs \<Rightarrow> fsstate \<Rightarrow> (int \<times> fsstate) res" where
  "rw_reply rip rw oflags partial k s =
     (let r = (if rdwt_err s = END_OF_FILE then OK else if rdwt_err s \<noteq> OK then rdwt_err s else rw_res k) in
      if r = OK
      then let s1 = upd_ino rip (\<lambda>i. i\<lparr>i_update := i_update i OR (if rw = READING then ATIME else CTIME OR MTIME), i_dirt := True\<rparr>) s in
           if partial \<and> oflags AND O_NONBLOCK = 0
           then Inr (SUSPEND, suspend XPIPE (upd_fp (fs_fp s1) (\<lambda>p. p\<lparr>fp_cum_io_partial := rw_cum k\<rparr>) s1))
           else Inr (rw_cum k, upd_fp (fs_fp s1) (\<lambda>p. p\<lparr>fp_cum_io_partial := 0\<rparr>) s1)
      else if bufs_in_use s < 0 then Inl (Panic ''end - bufs_in_use negative'')
      else Inr (r, s))"

text \<open>Files, pipes and block devices: checks before the loop. \<open>Inl\<close> is the result of the call.\<close>

definition rw_blocks ::
  "fs_env \<Rightarrow> nat \<Rightarrow> rw_flag \<Rightarrow> nat \<Rightarrow> int \<Rightarrow> nat \<Rightarrow> u32 \<Rightarrow> u32 \<Rightarrow> rw_regs \<Rightarrow> fsstate \<Rightarrow> ((int + rw_regs \<times> bool) \<times> fsstate) res" where
  "rw_blocks env rip rw seg usr block_size f_size oflags k s =
     (let block_spec = (i_mode (inodes s rip) AND I_TYPE = I_BLOCK_SPECIAL); growing = (rw = WRITING \<and> \<not> block_spec) in
      bindr (if growing then bindr (isp rip s) (\<lambda>sp. Inr (rw_pos k > s_max_size sp - fs_word s 1)) else Inr False) (\<lambda>too_big.
      if too_big then Inr (Inl EFBIG, s)
      else let pos = (if growing \<and> oflags AND O_APPEND \<noteq> 0 then f_size else rw_pos k) in
      bindr (if growing \<and> pos > f_size then clear_zone env rip f_size False s else Inr s) (\<lambda>s1.
      bindr (if i_pipe (inodes s1 rip) then pipe_check env rip rw oflags (fs_arg s1 1) pos False s1
             else Inr ((1, 0), s1)) (\<lambda>((r, cnt), s2).
      if r \<le> 0 then Inr (Inl r, s2)
      else let partial = (cnt > 0)
           in bindr (ran (rw_chunks env rip rw seg usr block_size f_size partial
                (k\<lparr>rw_pos := pos, rw_partial := cnt, rw_res := (if i_pipe (inodes s2 rip) then r else OK)\<rparr>) s2)) (\<lambda>(k1, s3).
              Inr (Inr (k1, partial), s3))))))"

definition rw_chars :: "fs_env \<Rightarrow> nat \<Rightarrow> rw_flag \<Rightarrow> int \<Rightarrow> u32 \<Rightarrow> rw_regs \<Rightarrow> fsstate \<Rightarrow> (rw_regs \<times> fsstate) res" where
  "rw_chars env rip rw usr oflags k s =
     bindr (dev_io env (if rw = READING then DEV_READ else DEV_WRITE) (zdev (inodes s rip)) usr (UserMem (fs_word s 3)) []
       (rw_pos k) (fs_arg s 1) oflags s) (\<lambda>((r, _), s1).
     Inr (if r \<ge> 0 then k\<lparr>rw_cum := r, rw_pos := rw_pos k + word_of_int r, rw_res := OK\<rparr> else k\<lparr>rw_res := r\<rparr>, s1))"

definition rw_transfer :: "fs_env \<Rightarrow> nat \<Rightarrow> nat \<Rightarrow> rw_flag \<Rightarrow> nat \<Rightarrow> int \<Rightarrow> fsstate \<Rightarrow> (int \<times> fsstate) res" where
  "rw_transfer env f rip rw seg usr s =
     (let fl = filps s f; i = inodes s rip; mode_word = i_mode i AND I_TYPE; oflags = filp_flags fl;
          char_spec = (mode_word = I_CHAR_SPECIAL); block_spec = (mode_word = I_BLOCK_SPECIAL);
          f_size = (if block_spec then 0xFFFFFFFF else i_size i);
          k = \<lparr>rw_pos = filp_pos fl, rw_cum = (if i_pipe i then fp_cum_io_partial (cur s) else 0), rw_partial = 0, rw_res = OK\<rparr>
      in bindr (if char_spec \<or> block_spec
                then if i_zone i 0 = 0 then Inl (Panic ''read_write tries to read from device NO_DEV'') else get_block_size (zdev i) s
                else bindr (isp rip s) (\<lambda>sp. Inr (unat (s_block_size sp)))) (\<lambda>block_size.
         let s0 = s\<lparr>rdwt_err := OK\<rparr> in
         bindr (if char_spec then bindr (rw_chars env rip rw usr oflags k s0) (\<lambda>(k1, s1). Inr (Inr (k1, False), s1))
                else rw_blocks env rip rw seg usr block_size f_size oflags k s0) (\<lambda>(x, s1).
         case x of
           Inl r \<Rightarrow> Inr (r, s1)
         | Inr (k1, partial) \<Rightarrow>
             rw_reply rip rw oflags partial k1 (rw_finish f rip rw block_size f_size mode_word k1 s1))))"

definition read_write :: "fs_env \<Rightarrow> rw_flag \<Rightarrow> fsstate \<Rightarrow> (int \<times> fsstate) res" where
  "read_write env rw s =
     (if bufs_in_use s < 0 then Inl (Panic ''start - bufs_in_use negative'')
      else let funny = (fs_who s = PM_PROC_NR \<and> fs_word s 0 AND 0xFFFFFF00 \<noteq> 0);
               usr = (if funny then fs_arg s 0 div 128 else fs_who s);
               seg = (if funny then nat (fs_arg s 0 div 32 mod 4) else 1);
               s0 = (if funny then set_arg 0 (fs_word s 0 AND 0x1F) s else s)
           in if fs_arg s0 1 < 0 then Inr (EINVAL, s0)
              else let (fo, s1) = get_filp (fs_arg s0 0) s0 in
              case fo of
                None \<Rightarrow> Inr (err_code s1, s1)
              | Some f \<Rightarrow>
                  if filp_mode (filps s1 f) AND (if rw = READING then R_BIT else W_BIT) = 0
                  then Inr (if filp_mode (filps s1 f) = 0 then EIO else EBADF, s1)
                  else if fs_arg s1 1 = 0 then Inr (0, s1)
                  else let (a, s2) = fs_ask env (RqUmap usr seg (fs_word s1 3) (fs_arg s1 1)) s1 in
                       if a_res a \<noteq> OK then Inr (a_res a, s2)
                       else bindr (deref (filp_ino (filps s2 f))) (\<lambda>rip. rw_transfer env f rip rw seg usr s2))"

definition do_read :: "fs_env \<Rightarrow> fsstate \<Rightarrow> (int \<times> fsstate) res" where
  "do_read env s = read_write env READING s"

definition do_write :: "fs_env \<Rightarrow> fsstate \<Rightarrow> (int \<times> fsstate) res" where
  "do_write env s = read_write env WRITING s"

end
