(* ===== verification/Fs_Calls.thy ===== *)
theory Fs_Calls
  imports Fs_Rw
begin

unbundle bit_operations_syntax

text \<open>
  System calls on names: \<open>stadir.c\<close>, \<open>time.c\<close>, \<open>protect.c\<close> and \<open>link.c\<close>. A call that fails reports
  \<open>err_code\<close>, which the functions on paths set.
\<close>

definition path_inode :: "fs_env \<Rightarrow> u32 \<Rightarrow> int \<Rightarrow> bool \<Rightarrow> fsstate \<Rightarrow> (nat option \<times> fsstate) res" where
  "path_inode env path len m3 s = (let (r, s1) = fetch_name env path len m3 s in if r \<noteq> OK then Inr (None, s1) else eat_path env s1)"

text \<open>The inode that a path in a message of type 3 or type 1 stands for.\<close>

abbreviation path3 :: "fs_env \<Rightarrow> fsstate \<Rightarrow> (nat option \<times> fsstate) res" where
  "path3 env s \<equiv> path_inode env (fs_word s 2) (fs_arg s 0) True s"

abbreviation path1 :: "fs_env \<Rightarrow> fsstate \<Rightarrow> (nat option \<times> fsstate) res" where
  "path1 env s \<equiv> path_inode env (fs_word s 3) (fs_arg s 0) False s"

text \<open>A path that must exist: the call goes on with its inode and gives it back at the end.\<close>

definition with_inode ::
  "fs_env \<Rightarrow> (nat option \<times> fsstate) res \<Rightarrow> (nat \<Rightarrow> fsstate \<Rightarrow> (int \<times> fsstate) res) \<Rightarrow> (int \<times> fsstate) res" where
  "with_inode env p f =
     bindr p (\<lambda>(ripo, s).
     case ripo of
       None \<Rightarrow> Inr (err_code s, s)
     | Some rip \<Rightarrow> bindr (f rip s) (\<lambda>(r, s1). bindr (put_inode env (Some rip) s1) (\<lambda>s2. Inr (r, s2))))"

section \<open>Directories and status\<close>

datatype which_dir = WorkDir | RootDir

definition set_dir :: "which_dir \<Rightarrow> nat option \<Rightarrow> fsstate \<Rightarrow> fsstate" where
  "set_dir w d s = upd_fp (fs_fp s) (\<lambda>p. case w of WorkDir \<Rightarrow> p\<lparr>fp_workdir := d\<rparr> | RootDir \<Rightarrow> p\<lparr>fp_rootdir := d\<rparr>) s"

definition get_dir :: "which_dir \<Rightarrow> fsstate \<Rightarrow> nat option" where
  "get_dir w s = (case w of WorkDir \<Rightarrow> fp_workdir (cur s) | RootDir \<Rightarrow> fp_rootdir (cur s))"

definition change_into :: "fs_env \<Rightarrow> which_dir \<Rightarrow> nat \<Rightarrow> fsstate \<Rightarrow> (int \<times> fsstate) res" where
  "change_into env iip rip s =
     bindr (if i_mode (inodes s rip) AND I_TYPE \<noteq> I_DIRECTORY then Inr (ENOTDIR, s) else forbidden env rip X_BIT s) (\<lambda>(r, s1).
     if r \<noteq> OK then bindr (put_inode env (Some rip) s1) (\<lambda>s2. Inr (r, s2))
     else bindr (put_inode env (get_dir iip s1) s1) (\<lambda>s2. Inr (OK, set_dir iip (Some rip) s2)))"

definition change :: "fs_env \<Rightarrow> which_dir \<Rightarrow> fsstate \<Rightarrow> (int \<times> fsstate) res" where
  "change env iip s =
     bindr (path3 env s) (\<lambda>(ripo, s1). case ripo of None \<Rightarrow> Inr (err_code s1, s1) | Some rip \<Rightarrow> change_into env iip rip s1)"

definition do_fchdir :: "fs_env \<Rightarrow> fsstate \<Rightarrow> (int \<times> fsstate) res" where
  "do_fchdir env s =
     (let (fo, s1) = get_filp (fs_arg s 0) s in
      case fo of
        None \<Rightarrow> Inr (err_code s1, s1)
      | Some f \<Rightarrow> bindr (deref (filp_ino (filps s1 f))) (\<lambda>rip. change_into env WorkDir rip s1))"

text \<open>The process manager takes over the directories and identity of another process.\<close>

definition dup_dir :: "nat option \<Rightarrow> fsstate \<Rightarrow> fsstate res" where
  "dup_dir d s = bindr (deref d) (\<lambda>rip. Inr (dup_inode rip s))"

definition do_chdir :: "fs_env \<Rightarrow> fsstate \<Rightarrow> (int \<times> fsstate) res" where
  "do_chdir env s =
     (if fs_who s = PM_PROC_NR
      then bindr (fproc_at (fs_arg s 0)) (\<lambda>n.
           bindr (put_inode env (fp_rootdir (cur s)) s) (\<lambda>s1.
           let root = fp_rootdir (fprocs s1 n) in
           bindr (dup_dir root (set_dir RootDir root s1)) (\<lambda>s2.
           bindr (put_inode env (fp_workdir (cur s2)) s2) (\<lambda>s3.
           let work = fp_workdir (fprocs s3 n) in
           bindr (dup_dir work (set_dir WorkDir work s3)) (\<lambda>s4.
           let q = fprocs s4 n in
           Inr (OK, upd_fp (fs_fp s4) (\<lambda>p. p\<lparr>fp_effuid := fp_effuid q, fp_realuid := fp_effuid q, fp_effgid := fp_effgid q,
                 fp_realgid := fp_effgid q, fp_umask := fp_umask q\<rparr>) s4))))))
      else change env WorkDir s)"

definition do_chroot :: "fs_env \<Rightarrow> fsstate \<Rightarrow> (int \<times> fsstate) res" where
  "do_chroot env s = (if \<not> super_user s then Inr (EPERM, s) else change env RootDir s)"

text \<open>The structure \<open>stat\<close>; bytes between its members are taken as 0.\<close>

definition stat_bytes :: "inode \<Rightarrow> filp option \<Rightarrow> u8 list" where
  "stat_bytes i fo =
     (let mo = i_mode i AND I_TYPE; special = (mo = I_CHAR_SPECIAL \<or> mo = I_BLOCK_SPECIAL);
          mode = (if i_pipe i then i_mode i AND NOT I_REGULAR else i_mode i);
          sz = (case fo of Some f \<Rightarrow> if i_pipe i \<and> filp_mode f AND R_BIT \<noteq> 0 then i_size i - filp_pos f else i_size i | None \<Rightarrow> i_size i)
      in read_bytes
           (put32 32 (word_of_int (i_ctime i)) (put32 28 (word_of_int (i_mtime i)) (put32 24 (word_of_int (i_atime i))
             (put32 20 sz (put16 16 (if special then ucast (i_zone i 0) else 0) (put16 14 (word_of_int (i_gid i))
               (put16 12 (word_of_int (i_uid i)) (put16 10 (word_of_int (i_nlinks i)) (put16 8 mode
                 (put32 4 (i_num i) (put16 0 (word_of_int (i_dev i)) (\<lambda>_. 0)))))))))))) 0 36)"

definition stat_inode :: "fs_env \<Rightarrow> nat \<Rightarrow> nat option \<Rightarrow> u32 \<Rightarrow> fsstate \<Rightarrow> (int \<times> fsstate) res" where
  "stat_inode env rip fo user_addr s =
     bindr (if i_update (inodes s rip) \<noteq> 0 then update_times env rip s else Inr s) (\<lambda>s1.
     let (a, s2) = fs_ask env (RqCopyOut (fs_who s1) 1 user_addr (stat_bytes (inodes s1 rip) (map_option (filps s1) fo))) s1
     in Inr (a_res a, s2))"

definition do_stat :: "fs_env \<Rightarrow> fsstate \<Rightarrow> (int \<times> fsstate) res" where
  "do_stat env s = with_inode env (path1 env s) (\<lambda>rip s1. stat_inode env rip None (fs_word s1 4) s1)"

definition do_fstat :: "fs_env \<Rightarrow> fsstate \<Rightarrow> (int \<times> fsstate) res" where
  "do_fstat env s =
     (let (fo, s1) = get_filp (fs_arg s 0) s in
      case fo of
        None \<Rightarrow> Inr (err_code s1, s1)
      | Some f \<Rightarrow> bindr (deref (filp_ino (filps s1 f))) (\<lambda>rip. stat_inode env rip (Some f) (fs_word s1 3) s1))"

definition do_fstatfs :: "fs_env \<Rightarrow> fsstate \<Rightarrow> (int \<times> fsstate) res" where
  "do_fstatfs env s =
     (let (fo, s1) = get_filp (fs_arg s 0) s in
      case fo of
        None \<Rightarrow> Inr (err_code s1, s1)
      | Some f \<Rightarrow>
          bindr (deref (filp_ino (filps s1 f))) (\<lambda>rip.
          bindr (isp rip s1) (\<lambda>sp.
          let (a, s2) = fs_ask env (RqCopyOut (fs_who s1) 1 (fs_word s1 3) (bytes32 (ucast (s_block_size sp)))) s1
          in Inr (a_res a, s2))))"

section \<open>Times\<close>

definition do_utime :: "fs_env \<Rightarrow> fsstate \<Rightarrow> (int \<times> fsstate) res" where
  "do_utime env s =
     (let now = (fs_arg s 0 = 0); len = (if now then fs_arg s 1 else fs_arg s 0) in
      with_inode env (path_inode env (fs_word s 5) len False s) (\<lambda>rip s1.
        bindr (if i_uid (inodes s1 rip) \<noteq> fp_effuid (cur s1) \<and> \<not> super_user s1
               then if now then forbidden env rip W_BIT s1 else Inr (EPERM, s1)
               else Inr (OK, s1)) (\<lambda>(r0, s2).
        bindr (read_only rip s2) (\<lambda>ro.
        let r = (if ro \<noteq> OK then EROFS else r0) in
        if r \<noteq> OK then Inr (r, s2)
        else bindr (if now then bindr (clock_time env s2) (\<lambda>(t, s3). Inr (t, t, s3))
                    else Inr (sint (fs_word s2 3), sint (fs_word s2 4), s2)) (\<lambda>(at, mt, s3).
             Inr (OK, upd_ino rip (\<lambda>i. i\<lparr>i_atime := at, i_mtime := mt, i_update := CTIME, i_dirt := True\<rparr>) s3))))))"

definition do_stime :: "fsstate \<Rightarrow> (int \<times> fsstate) res" where
  "do_stime s = Inr (OK, s\<lparr>fs_boottime := fs_arg s 0\<rparr>)"

section \<open>Protection\<close>

definition do_chmod :: "fs_env \<Rightarrow> fsstate \<Rightarrow> (int \<times> fsstate) res" where
  "do_chmod env s =
     with_inode env (path3 env s) (\<lambda>rip s1.
       bindr (if i_uid (inodes s1 rip) \<noteq> fp_effuid (cur s1) \<and> \<not> super_user s1 then Inr EPERM else read_only rip s1) (\<lambda>r.
       if r \<noteq> OK then Inr (r, s1)
       else Inr (OK, upd_ino rip (\<lambda>i.
              let m = i_mode i AND NOT ALL_MODES OR (ucast (fs_word s1 1) AND ALL_MODES)
              in i\<lparr>i_mode := (if \<not> super_user s1 \<and> i_gid i \<noteq> fp_effgid (cur s1) then m AND NOT I_SET_GID_BIT else m),
                   i_update := i_update i OR CTIME, i_dirt := True\<rparr>) s1)))"

definition do_chown :: "fs_env \<Rightarrow> fsstate \<Rightarrow> (int \<times> fsstate) res" where
  "do_chown env s =
     with_inode env (path1 env s) (\<lambda>rip s1.
       bindr (read_only rip s1) (\<lambda>ro.
       let i = inodes s1 rip;
           r = (if ro \<noteq> OK \<or> super_user s1 then ro
                else if i_uid i \<noteq> fp_effuid (cur s1) \<or> i_uid i \<noteq> fs_arg s1 1 \<or> fp_effgid (cur s1) \<noteq> fs_arg s1 2 then EPERM else OK);
           s2 = (if ro = OK \<and> super_user s1 then upd_ino rip (\<lambda>i. i\<lparr>i_uid := sshort (fs_arg s1 1)\<rparr>) s1 else s1)
       in if r \<noteq> OK then Inr (r, s2)
          else Inr (OK, upd_ino rip (\<lambda>i. i\<lparr>i_gid := schar (fs_arg s2 2), i_mode := i_mode i AND NOT (I_SET_UID_BIT OR I_SET_GID_BIT),
                 i_update := i_update i OR CTIME, i_dirt := True\<rparr>) s2)))"

definition do_umask :: "fsstate \<Rightarrow> (int \<times> fsstate) res" where
  "do_umask s =
     Inr (uint (NOT (fp_umask (cur s))), upd_fp (fs_fp s) (\<lambda>p. p\<lparr>fp_umask := NOT (ucast (fs_word s 0) AND RWX_MODES)\<rparr>) s)"

definition do_access :: "fs_env \<Rightarrow> fsstate \<Rightarrow> (int \<times> fsstate) res" where
  "do_access env s =
     (if fs_word s 1 AND NOT 7 \<noteq> 0 \<and> fs_word s 1 \<noteq> 0 then Inr (EINVAL, s)
      else with_inode env (path3 env s) (\<lambda>rip s1. forbidden env rip (ucast (fs_word s1 1)) s1))"

section \<open>Links\<close>

definition link_max :: "super_block \<Rightarrow> int" where
  "link_max sp = (if s_version sp = 1 then 127 else 32767)"

definition link_more :: "int \<Rightarrow> nat \<Rightarrow> fsstate \<Rightarrow> fsstate" where
  "link_more n rip = upd_ino rip (\<lambda>i. i\<lparr>i_nlinks := sshort (i_nlinks i + n), i_update := i_update i OR CTIME, i_dirt := True\<rparr>)"

text \<open>The second name of a link: its directory and last component, which must not exist.\<close>

definition link_name :: "fs_env \<Rightarrow> nat \<Rightarrow> fsstate \<Rightarrow> (int \<times> fsstate) res" where
  "link_name env rip s =
     bindr (last_dir env s) (\<lambda>((ipo, str), s1).
     case ipo of
       None \<Rightarrow> bindr (put_inode env (Some rip) s1) (\<lambda>s2. Inr (err_code s1, s2))
     | Some ip \<Rightarrow>
         bindr (advance env (Some ip) (False, str) s1) (\<lambda>(new_ip, s2).
         bindr (case new_ip of
                  None \<Rightarrow> Inr (if err_code s2 = ENOENT then OK else err_code s2, s2)
                | Some n \<Rightarrow> bindr (put_inode env (Some n) s2) (\<lambda>s3. Inr (EEXIST, s3))) (\<lambda>(r, s3).
         let r1 = (if r = OK \<and> i_dev (inodes s3 rip) \<noteq> i_dev (inodes s3 ip) then EXDEV else r) in
         bindr (if r1 = OK then search_dir env ip (False, str) (i_num (inodes s3 rip)) ENTER s3 else Inr ((r1, 0), s3)) (\<lambda>((r2, _), s4).
         let s5 = (if r2 = OK then link_more 1 rip s4 else s4) in
         bindr (put_inode env (Some rip) s5) (\<lambda>s6. bindr (put_inode env (Some ip) s6) (\<lambda>s7. Inr (r2, s7)))))))"

definition do_link :: "fs_env \<Rightarrow> fsstate \<Rightarrow> (int \<times> fsstate) res" where
  "do_link env s =
     bindr (path1 env s) (\<lambda>(ripo, s1).
     case ripo of
       None \<Rightarrow> Inr (err_code s1, s1)
     | Some rip \<Rightarrow>
         bindr (isp rip s1) (\<lambda>sp.
         let i = inodes s1 rip;
             r = (if i_nlinks i \<ge> link_max sp then EMLINK
                  else if i_mode i AND I_TYPE = I_DIRECTORY \<and> \<not> super_user s1 then EPERM else OK);
             give_up = (\<lambda>e t. bindr (put_inode env (Some rip) t) (\<lambda>t1. Inr (e t1, t1)))
         in if r \<noteq> OK then give_up (\<lambda>_. r) s1
            else let (e, s2) = fetch_name env (fs_word s1 4) (fs_arg s1 1) False s1 in
            if e \<noteq> OK then give_up err_code s2
            else link_name env rip s2))"

definition unlink_file :: "fs_env \<Rightarrow> nat \<Rightarrow> nat option \<Rightarrow> fname \<Rightarrow> fsstate \<Rightarrow> (int \<times> fsstate) res" where
  "unlink_file env dirp ripo file_name s =
     bindr (case ripo of
              Some rip \<Rightarrow> Inr (Some rip, dup_inode rip s)
            | None \<Rightarrow>
                bindr (search_dir env dirp file_name 0 LOOK_UP s) (\<lambda>((e, numb), s1).
                let s2 = s1\<lparr>err_code := e\<rparr> in
                if e \<noteq> OK then Inr (None, s2) else get_inode env (i_dev (inodes s2 dirp)) numb s2)) (\<lambda>(ripo1, s3).
     case ripo1 of
       None \<Rightarrow> Inr (err_code s3, s3)
     | Some rip \<Rightarrow>
         bindr (search_dir env dirp file_name 0 DELETE s3) (\<lambda>((r, _), s4).
         let s5 = (if r = OK then link_more (- 1) rip s4 else s4) in
         bindr (put_inode env (Some rip) s5) (\<lambda>s6. Inr (r, s6))))"

definition dir_busy :: "nat \<Rightarrow> fsstate \<Rightarrow> bool" where
  "dir_busy rip s \<longleftrightarrow> list_ex (\<lambda>n. fp_workdir (fprocs s n) = Some rip \<or> fp_rootdir (fprocs s n) = Some rip) [8..63]"

definition remove_dir :: "fs_env \<Rightarrow> nat \<Rightarrow> nat \<Rightarrow> u8 list \<Rightarrow> fsstate \<Rightarrow> (int \<times> fsstate) res" where
  "remove_dir env rldirp rip dir_name s =
     bindr (search_dir env rip (False, []) 0 IS_EMPTY s) (\<lambda>((r, _), s1).
     if r \<noteq> OK then Inr (r, s1)
     else if dir_name = [46] \<or> dir_name = [46, 46] then Inr (EINVAL, s1)
     else if i_num (inodes s1 rip) = ROOT_INODE then Inr (EBUSY, s1)
     else if dir_busy rip s1 then Inr (EBUSY, s1)
     else bindr (unlink_file env rldirp (Some rip) (False, dir_name) s1) (\<lambda>(r1, s2).
          if r1 \<noteq> OK then Inr (r1, s2)
          else bindr (unlink_file env rip None dot1 s2) (\<lambda>(_, s3).
               bindr (unlink_file env rip None dot2 s3) (\<lambda>(_, s4). Inr (OK, s4)))))"

definition do_unlink :: "fs_env \<Rightarrow> fsstate \<Rightarrow> (int \<times> fsstate) res" where
  "do_unlink env s =
     (let (e, s0) = fetch_name env (fs_word s 2) (fs_arg s 0) True s in
      if e \<noteq> OK then Inr (err_code s0, s0)
      else bindr (last_dir env s0) (\<lambda>((ldo, str), s1).
           case ldo of
             None \<Rightarrow> Inr (err_code s1, s1)
           | Some rldirp \<Rightarrow>
               bindr (advance env (Some rldirp) (False, str) s1) (\<lambda>(ripo, s2).
               case ripo of
                 None \<Rightarrow> bindr (put_inode env (Some rldirp) s2) (\<lambda>s3. Inr (err_code s2, s3))
               | Some rip \<Rightarrow>
                   if i_num (inodes s2 rip) = ROOT_INODE
                   then bindr (put_inode env (Some rldirp) s2) (\<lambda>s3. bindr (put_inode env (Some rip) s3) (\<lambda>s4. Inr (EBUSY, s4)))
                   else bindr (if fs_call_nr s2 = 10
                               then if i_mode (inodes s2 rip) AND I_TYPE = I_DIRECTORY \<and> \<not> super_user s2 then Inr (EPERM, s2)
                                    else unlink_file env rldirp (Some rip) (False, str) s2
                               else remove_dir env rldirp rip str s2) (\<lambda>(r, s3).
                        bindr (put_inode env (Some rip) s3) (\<lambda>s4.
                        bindr (put_inode env (Some rldirp) s4) (\<lambda>s5. Inr (r, s5)))))))"

section \<open>Renaming\<close>

abbreviation (input) SAME :: int where "SAME \<equiv> 1000"

text \<open>
  The walk up from the new directory: \<open>True\<close> if it meets the file to be renamed or loses its way.
  The inode it ends with is given back; it may not end in a file system whose parents form a loop.
\<close>

partial_function (option) super_dirs :: "fs_env \<Rightarrow> nat \<Rightarrow> nat \<Rightarrow> fsstate \<Rightarrow> (bool \<times> fsstate) res option" where
  "super_dirs env old_ip dirp s =
     (if dirp = old_ip then Some (bindr (put_inode env (Some dirp) s) (\<lambda>s1. Inr (True, s1)))
      else (case bindr (advance env (Some dirp) dot2 s) (\<lambda>(n, s1). bindr (put_inode env (Some dirp) s1) (\<lambda>s2. Inr (n, s2))) of
              Inl e \<Rightarrow> Some (Inl e)
            | Inr (None, s2) \<Rightarrow> Some (Inr (True, s2))
            | Inr (Some n, s2) \<Rightarrow>
                if n = dirp then Some (bindr (put_inode env (Some dirp) s2) (\<lambda>s3. Inr (False, s3))) else super_dirs env old_ip n s2))"

definition is_dots :: "u8 list \<Rightarrow> bool" where
  "is_dots n \<longleftrightarrow> n = [46] \<or> n = [46, 46]"

text \<open>Tests that depend on whether the new name exists.\<close>

definition rename_target :: "nat \<Rightarrow> nat \<Rightarrow> nat \<Rightarrow> nat option \<Rightarrow> bool \<Rightarrow> int \<Rightarrow> fsstate \<Rightarrow> int res" where
  "rename_target old_dirp old_ip new_dirp new_ipo odir r s =
     (let dev = (\<lambda>n. i_dev (inodes s n)) in
      case new_ipo of
        None \<Rightarrow>
          bindr (if odir then bindr (isp new_dirp s) (\<lambda>sp. Inr (i_nlinks (inodes s new_dirp) \<ge> link_max sp)) else Inr False) (\<lambda>full.
          let r1 = (if dev old_ip \<noteq> dev old_dirp then EXDEV else r)
          in Inr (if full \<and> old_dirp \<noteq> new_dirp \<and> r1 = OK then EMLINK else r1))
      | Some new_ip \<Rightarrow>
          let ndir = (i_mode (inodes s new_ip) AND I_TYPE = I_DIRECTORY);
              r1 = (if old_ip = new_ip then SAME else r);
              r2 = (if dev old_ip \<noteq> dev new_ip then EXDEV else r1)
          in Inr (if odir \<and> \<not> ndir then ENOTDIR else if \<not> odir \<and> ndir then EISDIR else r2))"

definition rename_check ::
  "fs_env \<Rightarrow> nat \<Rightarrow> nat \<Rightarrow> nat \<Rightarrow> nat option \<Rightarrow> u8 list \<Rightarrow> u8 list \<Rightarrow> bool \<Rightarrow> fsstate \<Rightarrow> (int \<times> fsstate) res" where
  "rename_check env old_dirp old_ip new_dirp new_ipo old_name new_name odir s =
     bindr (if odir \<and> old_dirp \<noteq> new_dirp then ran (super_dirs env old_ip new_dirp (dup_inode new_dirp s)) else Inr (False, s)) (\<lambda>(bad, s1).
     let r0 = (if bad \<or> is_dots old_name \<or> is_dots new_name then EINVAL else OK);
         r1 = (if i_dev (inodes s1 old_dirp) \<noteq> i_dev (inodes s1 new_dirp) then EXDEV else r0)
     in bindr (forbidden env old_dirp (W_BIT OR X_BIT) s1) (\<lambda>(f1, s2).
        bindr (if f1 \<noteq> OK then Inr (f1, s2) else forbidden env new_dirp (W_BIT OR X_BIT) s2) (\<lambda>(f2, s3).
        bindr (rename_target old_dirp old_ip new_dirp new_ipo odir (if f2 \<noteq> OK then f2 else r1) s3) (\<lambda>r. Inr (r, s3)))))"

text \<open>The new name is removed if it exists, the entry is moved, and \<open>..\<close> of a directory is set.\<close>

definition rename_move ::
  "fs_env \<Rightarrow> nat \<Rightarrow> nat \<Rightarrow> nat \<Rightarrow> nat option \<Rightarrow> u8 list \<Rightarrow> u8 list \<Rightarrow> bool \<Rightarrow> fsstate \<Rightarrow> (int \<times> fsstate) res" where
  "rename_move env old_dirp old_ip new_dirp new_ipo old_name new_name odir s =
     bindr (case new_ipo of
              None \<Rightarrow> Inr (OK, s)
            | Some new_ip \<Rightarrow> if odir then remove_dir env new_dirp new_ip new_name s
                             else unlink_file env new_dirp (Some new_ip) (False, new_name) s) (\<lambda>(r, s1).
     if r \<noteq> OK then Inr (r, s1)
     else let numb = i_num (inodes s1 old_ip);
              del = (\<lambda>t. search_dir env old_dirp (False, old_name) 0 DELETE t);
              ent = (\<lambda>t. search_dir env new_dirp (False, new_name) numb ENTER t) in
     bindr (if old_dirp = new_dirp
            then bindr (del s1) (\<lambda>((r1, _), s2). if r1 \<noteq> OK then Inr (r1, s2) else bindr (ent s2) (\<lambda>(_, s3). Inr (r1, s3)))
            else bindr (ent s1) (\<lambda>((r1, _), s2). if r1 \<noteq> OK then Inr (r1, s2) else bindr (del s2) (\<lambda>(_, s3). Inr (r1, s3)))) (\<lambda>(r1, s3).
     if r1 = OK \<and> odir \<and> old_dirp \<noteq> new_dirp
     then bindr (unlink_file env old_ip None dot2 s3) (\<lambda>(_, s4).
          bindr (search_dir env old_ip dot2 (i_num (inodes s3 new_dirp)) ENTER s4) (\<lambda>((r2, _), s5).
          Inr (r1, if r2 = OK then upd_ino new_dirp (\<lambda>i. i\<lparr>i_nlinks := sshort (i_nlinks i + 1), i_dirt := True\<rparr>) s5 else s5)))
     else Inr (r1, s3)))"

fun put_inodes :: "fs_env \<Rightarrow> nat option list \<Rightarrow> fsstate \<Rightarrow> fsstate res" where
  "put_inodes env [] s = Inr s"
| "put_inodes env (d # ds) s = bindr (put_inode env d s) (put_inodes env ds)"

text \<open>
  The new name is looked up even if an error is known already; the name that \<open>last_dir\<close> leaves unset
  when it fails at once is taken as empty.
\<close>

definition do_rename :: "fs_env \<Rightarrow> fsstate \<Rightarrow> (int \<times> fsstate) res" where
  "do_rename env s =
     (let (e1, s0) = fetch_name env (fs_word s 3) (fs_arg s 0) False s in
      if e1 \<noteq> OK then Inr (err_code s0, s0)
      else bindr (last_dir env s0) (\<lambda>((odo, old_name), s1).
           case odo of
             None \<Rightarrow> Inr (err_code s1, s1)
           | Some old_dirp \<Rightarrow>
               bindr (advance env (Some old_dirp) (False, old_name) s1) (\<lambda>(oio, s2).
               let r1 = (if oio = None then err_code s2 else OK);
                   (e2, s3) = fetch_name env (fs_word s2 4) (fs_arg s2 1) False s2;
                   r2 = (if e2 \<noteq> OK then err_code s3 else r1)
               in bindr (last_dir env s3) (\<lambda>((ndo, new_name), s4).
                  let r3 = (if ndo = None then err_code s4 else r2) in
                  bindr (advance env ndo (False, new_name) s4) (\<lambda>(nio, s5).
                  bindr (if r3 \<noteq> OK then Inr (r3, s5)
                         else bindr (deref oio) (\<lambda>old_ip.
                              bindr (deref ndo) (\<lambda>new_dirp.
                              let odir = (i_mode (inodes s5 old_ip) AND I_TYPE = I_DIRECTORY) in
                              bindr (rename_check env old_dirp old_ip new_dirp nio old_name new_name odir s5) (\<lambda>(r4, s6).
                              if r4 \<noteq> OK then Inr (r4, s6)
                              else rename_move env old_dirp old_ip new_dirp nio old_name new_name odir s6)))) (\<lambda>(r, s7).
                  bindr (put_inodes env [odo, oio, ndo, nio] s7) (\<lambda>s8.
                  Inr (if r = SAME then OK else r, s8))))))))"

end
