(* ===== verification/Fs_Http.thy ===== *)
theory Fs_Http
  imports Fs_Calls
begin

unbundle bit_operations_syntax

text \<open>
  URLs (\<open>http.h\<close> and the http functions of \<open>open.c\<close>). Strings are lists of characters without the
  final null character. A string that outgrows its array is \<open>BadIndex\<close>.
\<close>

section \<open>Characters\<close>

definition LOWER :: "u8 \<Rightarrow> u8" where
  "LOWER c = c OR 0x20"

definition IS_ALPHA :: "u8 \<Rightarrow> bool" where
  "IS_ALPHA c \<longleftrightarrow> 97 \<le> LOWER c \<and> LOWER c \<le> 122"

definition IS_NUM :: "u8 \<Rightarrow> bool" where
  "IS_NUM c \<longleftrightarrow> 48 \<le> c \<and> c \<le> 57"

definition IS_ALPHANUM :: "u8 \<Rightarrow> bool" where
  "IS_ALPHANUM c \<longleftrightarrow> IS_ALPHA c \<or> IS_NUM c"

definition ascii :: "string \<Rightarrow> u8 list" where
  "ascii cs = map (\<lambda>c. of_nat (of_char c)) cs"

definition VALID_URL_CHARS :: "u8 list" where
  "VALID_URL_CHARS = ascii ''ABCDEFGHIJKLMNOPQRSTUVWXYZabcdefghijklmnopqrstuvwxyz0123456789-._~:/?#[]@!$&'()*+,;=%''"

definition IS_URL_CHAR :: "u8 \<Rightarrow> bool" where
  "IS_URL_CHAR c \<longleftrightarrow> c = 0 \<or> c \<in> set VALID_URL_CHARS"

section \<open>The state machine\<close>

datatype http_state =
    state_dead | state_url_start | state_url_path | state_url_schema | state_url_schema_slash | state_url_schema_slash_slash
  | state_url_host_start | state_url_host | state_url_host_hyphen | state_url_host_dot
  | state_url_port | state_url_port_port | state_url_port_port_port | state_url_port_port_port_port
  | state_url_port_port_port_port_port | state_url_port_port_port_port_port_port | state_url_terminate

definition host_char :: "u8 \<Rightarrow> http_state" where
  "host_char ch =
     (if IS_ALPHANUM ch then state_url_host else if ch = 45 then state_url_host_hyphen else if ch = 58 then state_url_port
      else if ch = 46 then state_url_host_dot else if ch = 47 then state_url_path else state_dead)"

definition port_char :: "http_state \<Rightarrow> u8 \<Rightarrow> http_state" where
  "port_char nxt ch = (if IS_NUM ch then nxt else if ch = 47 then state_url_path else state_dead)"

definition parse_url_char :: "http_state \<Rightarrow> u8 \<Rightarrow> http_state" where
  "parse_url_char s ch =
     (if ch = 0 then state_url_terminate
      else if ch = 32 \<or> ch = 13 \<or> ch = 10 \<or> ch = 9 \<or> ch = 12 then state_dead
      else case s of
        state_url_terminate \<Rightarrow> state_dead
      | state_url_start \<Rightarrow> if ch = 47 \<or> ch = 42 then state_url_path else if IS_ALPHA ch then state_url_schema else state_dead
      | state_url_schema \<Rightarrow> if IS_ALPHA ch then s else if ch = 58 then state_url_schema_slash else state_dead
      | state_url_schema_slash \<Rightarrow> if ch = 47 then state_url_schema_slash_slash else state_dead
      | state_url_schema_slash_slash \<Rightarrow> if ch = 47 then state_url_host_start else state_dead
      | state_url_host_start \<Rightarrow> if IS_ALPHANUM ch then state_url_host else state_dead
      | state_url_host_hyphen \<Rightarrow> if ch = 47 \<or> ch = 58 then state_dead else host_char ch
      | state_url_host \<Rightarrow> host_char ch
      | state_url_host_dot \<Rightarrow> if IS_ALPHANUM ch then state_url_host else state_dead
      | state_url_port \<Rightarrow> port_char state_url_port_port ch
      | state_url_port_port \<Rightarrow> port_char state_url_port_port_port ch
      | state_url_port_port_port \<Rightarrow> port_char state_url_port_port_port_port ch
      | state_url_port_port_port_port \<Rightarrow> port_char state_url_port_port_port_port_port ch
      | state_url_port_port_port_port_port \<Rightarrow> port_char state_url_port_port_port_port_port_port ch
      | state_url_port_port_port_port_port_port \<Rightarrow> if ch = 47 then state_url_path else state_dead
      | state_url_path \<Rightarrow> if IS_URL_CHAR ch then state_url_path else state_dead
      | state_dead \<Rightarrow> state_dead)"

section \<open>The parts of a URL\<close>

record http_parsed_url =
  url_host :: "u8 list"
  url_port :: u16
  url_file :: "u8 list"

text \<open>\<open>sprintf(buf, "%s%c", buf, ch)\<close> for an array of a given size.\<close>

definition append_char :: "nat \<Rightarrow> u8 list \<Rightarrow> u8 \<Rightarrow> u8 list res" where
  "append_char sz buf ch = (if length buf + 2 \<le> sz then Inr (buf @ [ch]) else Inl (BadIndex (int (length buf) + 1)))"

definition is_port_state :: "http_state \<Rightarrow> bool" where
  "is_port_state s \<longleftrightarrow> s \<in> {state_url_port, state_url_port_port, state_url_port_port_port, state_url_port_port_port_port,
     state_url_port_port_port_port_port, state_url_port_port_port_port_port_port}"

text \<open>One round of the loop: \<open>None\<close> if the URL is not valid, else the state, host, port digits and file.\<close>

definition url_step ::
  "u8 \<Rightarrow> http_state \<times> u8 list \<times> u8 list \<times> u8 list \<Rightarrow> (http_state \<times> u8 list \<times> u8 list \<times> u8 list) option res" where
  "url_step ch =
     (\<lambda>(s0, host, port, file).
      let s = parse_url_char s0 ch in
      if s = state_dead then Inr None
      else if s = state_url_host_dot \<or> s = state_url_host_hyphen \<or> s = state_url_host
      then if IS_ALPHANUM ch \<or> ch = 46 \<or> ch = 45
           then bindr (append_char 100 host ch) (\<lambda>h. Inr (Some (s, h, port, file))) else Inr (Some (s, host, port, file))
      else if is_port_state s
      then if IS_NUM ch then bindr (append_char 5 port ch) (\<lambda>p. Inr (Some (s, host, p, file))) else Inr (Some (s, host, port, file))
      else if s = state_url_path \<and> IS_URL_CHAR ch
      then bindr (append_char 255 file ch) (\<lambda>f. Inr (Some (s, host, port, f)))
      else Inr (Some (s, host, port, file)))"

fun url_loop ::
  "u8 list \<Rightarrow> http_state \<times> u8 list \<times> u8 list \<times> u8 list \<Rightarrow> (http_state \<times> u8 list \<times> u8 list \<times> u8 list) option res" where
  "url_loop [] k = Inr (Some k)"
| "url_loop (ch # url) k =
     bindr (url_step ch k) (\<lambda>x. case x of None \<Rightarrow> Inr None | Some k1 \<Rightarrow> url_loop url k1)"

text \<open>
  The array \<open>port\<close> is not initialised: \<open>junk\<close> is what the stack holds there. \<open>strcat\<close> of a null pointer
  adds nothing, because the word at address 0 is 0 (\<open>crtso.s\<close>).
\<close>

definition http_parse_url :: "u8 list \<Rightarrow> u8 list \<Rightarrow> http_parsed_url option res" where
  "http_parse_url junk url =
     bindr (url_loop url (state_url_start, [], takeWhile (\<lambda>c. c \<noteq> 0) junk, [])) (\<lambda>x.
     case x of
       None \<Rightarrow> Inr None
     | Some (s, host, port, file) \<Rightarrow>
         if host = [] then Inr None
         else let p = (if port = [] then 80 else word_of_int (strtol port 10)) :: u16 in
              if p < 1 then Inr None
              else Inr (Some \<lparr>url_host = host, url_port = p, url_file = (if file = [] then [47] else file)\<rparr>))"

section \<open>Addresses\<close>

text \<open>The pieces that \<open>strtok\<close> finds between dots.\<close>

fun dot_split :: "u8 list \<Rightarrow> u8 list \<Rightarrow> u8 list list" where
  "dot_split tok [] = [tok]"
| "dot_split tok (c # cs) = (if c = 46 then tok # dot_split [] cs else dot_split (tok @ [c]) cs)"

definition dot_tokens :: "u8 list \<Rightarrow> u8 list list" where
  "dot_tokens cs = filter (\<lambda>t. t \<noteq> []) (dot_split [] cs)"

text \<open>The numbers between the dots; \<open>None\<close> if there are more than four or one is out of range.\<close>

fun ip_parts :: "u8 list list \<Rightarrow> nat \<Rightarrow> u32 list option" where
  "ip_parts [] pos = Some []"
| "ip_parts (t # ts) pos =
     (let part = strtol t 10 in
      if pos > 3 \<or> part < 0 \<or> part > 255 then None else map_option (\<lambda>ps. word_of_int part # ps) (ip_parts ts (pos + 1)))"

definition parseIPV4string :: "u8 list \<Rightarrow> u32" where
  "parseIPV4string ipAddress =
     (let a = (if map LOWER ipAddress = ascii ''localhost'' then ascii ''127.0.0.1'' else ipAddress) in
      case ip_parts (dot_tokens a) 0 of
        Some [a0, a1, a2, a3] \<Rightarrow> a3 OR push_bit 8 a2 OR push_bit 16 a1 OR push_bit 24 a0
      | _ \<Rightarrow> 0)"

end
