(* ===== verification/Fs_Open.thy ===== *)
theory Fs_Open
  imports Fs_Http
begin

unbundle bit_operations_syntax

text \<open>
  Opening, creating and closing files (\<open>open.c\<close>), the calls on descriptors (\<open>do_dup\<close>, \<open>do_fcntl\<close>,
  \<open>do_sync\<close> of \<open>misc.c\<close>, \<open>do_pipe\<close> of \<open>pipe.c\<close>), and opening devices (\<open>device.c\<close>).
\<close>

section \<open>Devices\<close>

definition clone_mess :: "int \<Rightarrow> int \<Rightarrow> int \<Rightarrow> u32 \<Rightarrow> message" where
  "clone_mess op dev proc flags =
     \<lparr>m_source = 0, m_type = op, m_w = (\<lambda>_. 0)(0 := of_nat (minor dev), 1 := word_of_int proc, 2 := flags)\<rparr>"

definition clone_close :: "fs_env \<Rightarrow> int \<Rightarrow> int \<Rightarrow> fsstate \<Rightarrow> fsstate res" where
  "clone_close env dev proc s =
     bindr (dmap_at dev) (\<lambda>j.
     bindr (call_io env (dmap_io (dmaps s j)) (dmap_driver (dmaps s j)) (clone_mess DEV_CLOSE dev proc 0) (UserMem 0) [] s) (\<lambda>(_, s1).
     Inr s1))"

text \<open>The open file gets a new device that the driver chose.\<close>

definition clone_file :: "fs_env \<Rightarrow> int \<Rightarrow> int \<Rightarrow> fsstate \<Rightarrow> (int \<times> fsstate) res" where
  "clone_file env dev proc s =
     bindr (alloc_inode env (root_dev s) (ALL_MODES OR I_CHAR_SPECIAL) s) (\<lambda>(ipo, s1).
     case ipo of
       None \<Rightarrow> bindr (clone_close env dev proc s1) (\<lambda>s2. Inr (err_code s2, s2))
     | Some ip \<Rightarrow>
         let s2 = upd_ino ip (\<lambda>i. i\<lparr>i_zone := (i_zone i)(0 := word_of_int dev)\<rparr>) s1; fd = fs_arg s2 0 in
         if fd < 0 \<or> fd \<ge> int OPEN_MAX then Inl (BadIndex fd)
         else bindr (deref (fp_filp (cur s2) (nat fd))) (\<lambda>f.
              bindr (put_inode env (filp_ino (filps s2 f)) s2) (\<lambda>s3.
              Inr (OK, upd_filp f (\<lambda>x. x\<lparr>filp_ino := Some ip\<rparr>) s3))))"

definition clone_opcl :: "fs_env \<Rightarrow> int \<Rightarrow> int \<Rightarrow> int \<Rightarrow> u32 \<Rightarrow> fsstate \<Rightarrow> (int \<times> fsstate) res" where
  "clone_opcl env op dev proc flags s =
     bindr (dmap_at dev) (\<lambda>j.
     bindr (call_io env (dmap_io (dmaps s j)) (dmap_driver (dmaps s j)) (clone_mess op dev proc flags) (UserMem 0) [] s) (\<lambda>((m, _), s1).
     let st = REP_STATUS m in
     if op = DEV_OPEN \<and> st \<ge> 0
     then if st \<noteq> int (minor dev)
          then clone_file env (sint ((word_of_int dev AND 0xFF00) OR word_of_int st :: u16)) proc s1
          else Inr (OK, s1)
     else Inr (st, s1)))"

definition call_opcl :: "fs_env \<Rightarrow> opcl_fun \<Rightarrow> int \<Rightarrow> int \<Rightarrow> int \<Rightarrow> u32 \<Rightarrow> fsstate \<Rightarrow> (int \<times> fsstate) res" where
  "call_opcl env f op dev proc flags s =
     (case f of
        NoOpcl \<Rightarrow> Inl NullDeref
      | NoDev \<Rightarrow> no_dev s
      | GenOpcl \<Rightarrow> gen_opcl env op dev proc flags s
      | TtyOpcl \<Rightarrow> tty_opcl env op dev proc flags s
      | CttyOpcl \<Rightarrow> ctty_opcl s
      | CloneOpcl \<Rightarrow> clone_opcl env op dev proc flags s)"

definition dev_open :: "fs_env \<Rightarrow> int \<Rightarrow> int \<Rightarrow> u32 \<Rightarrow> fsstate \<Rightarrow> (int \<times> fsstate) res" where
  "dev_open env dev proc flags s =
     (let dp = dmaps s (if major dev \<ge> NR_DEVICES then 0 else major dev) in
      bindr (call_opcl env (dmap_opcl dp) DEV_OPEN dev proc flags s) (\<lambda>(r, s1).
      if r = SUSPEND then Inl (Panic ''suspend on open from'') else Inr (r, s1)))"

definition dev_close :: "fs_env \<Rightarrow> int \<Rightarrow> fsstate \<Rightarrow> fsstate res" where
  "dev_close env dev s =
     bindr (dmap_at dev) (\<lambda>j.
     bindr (call_opcl env (dmap_opcl (dmaps s j)) DEV_CLOSE dev 0 0 s) (\<lambda>(_, s1). Inr s1))"

definition do_ioctl :: "fs_env \<Rightarrow> fsstate \<Rightarrow> (int \<times> fsstate) res" where
  "do_ioctl env s =
     (let (fo, s1) = get_filp (fs_arg s 0) s in
      case fo of
        None \<Rightarrow> Inr (err_code s1, s1)
      | Some f \<Rightarrow>
          bindr (deref (filp_ino (filps s1 f))) (\<lambda>rip.
          let mo = i_mode (inodes s1 rip) AND I_TYPE in
          if mo \<noteq> I_CHAR_SPECIAL \<and> mo \<noteq> I_BLOCK_SPECIAL then Inr (ENOTTY, s1)
          else bindr (dev_io env DEV_IOCTL (zdev (inodes s1 rip)) (fs_who s1) (UserMem (fs_word s1 5)) [] 0 (fs_arg s1 2)
                 (filp_flags (filps s1 f)) s1) (\<lambda>((r, _), s2). Inr (r, s2))))"

section \<open>Flushing\<close>

fun sync_inodes :: "fs_env \<Rightarrow> nat list \<Rightarrow> fsstate \<Rightarrow> fsstate res" where
  "sync_inodes env [] s = Inr s"
| "sync_inodes env (n # ns) s =
     bindr (if i_count (inodes s n) > 0 \<and> i_dirt (inodes s n) then rw_inode env n WRITING s else Inr s) (sync_inodes env ns)"

fun sync_bufs :: "fs_env \<Rightarrow> nat list \<Rightarrow> fsstate \<Rightarrow> fsstate res" where
  "sync_bufs env [] s = Inr s"
| "sync_bufs env (b # bs) s =
     bindr (if b_dev (bufs s b) \<noteq> NO_DEV \<and> b_dirt (bufs s b) then flushall env (b_dev (bufs s b)) s else Inr s) (sync_bufs env bs)"

definition do_sync :: "fs_env \<Rightarrow> fsstate \<Rightarrow> (int \<times> fsstate) res" where
  "do_sync env s =
     bindr (sync_inodes env [0..<NR_INODES] s) (\<lambda>s1. bindr (sync_bufs env [0..<NR_BUFS] s1) (\<lambda>s2. Inr (OK, s2)))"

definition do_fsync :: "fs_env \<Rightarrow> fsstate \<Rightarrow> (int \<times> fsstate) res" where
  "do_fsync env s = do_sync env s"

definition purge :: "fs_env \<Rightarrow> int \<Rightarrow> fsstate \<Rightarrow> fsstate res" where
  "purge env dev s = bindr (do_sync env s) (\<lambda>(_, s1). Inr (invalidate dev s1))"

section \<open>Making a file\<close>

definition set_err :: "int \<Rightarrow> fsstate \<Rightarrow> fsstate" where
  "set_err e s = s\<lparr>err_code := e\<rparr>"

definition add_links :: "int \<Rightarrow> nat \<Rightarrow> fsstate \<Rightarrow> fsstate" where
  "add_links n rip = upd_ino rip (\<lambda>i. i\<lparr>i_nlinks := sshort (i_nlinks i + n)\<rparr>)"

definition mark_dirty :: "nat \<Rightarrow> fsstate \<Rightarrow> fsstate" where
  "mark_dirty rip = upd_ino rip (\<lambda>i. i\<lparr>i_dirt := True\<rparr>)"

text \<open>The part of \<open>new_node\<close> that makes the inode and its entry.\<close>

definition make_node :: "fs_env \<Rightarrow> nat \<Rightarrow> u8 list \<Rightarrow> u16 \<Rightarrow> u32 \<Rightarrow> fsstate \<Rightarrow> (nat option \<times> fsstate) res" where
  "make_node env dirp str bits z0 s =
     bindr (alloc_inode env (i_dev (inodes s dirp)) bits s) (\<lambda>(ripo, s1).
     case ripo of
       None \<Rightarrow> bindr (put_inode env (Some dirp) s1) (\<lambda>s2. Inr (None, s2))
     | Some rip \<Rightarrow>
         let s2 = upd_ino rip (\<lambda>i. i\<lparr>i_zone := (i_zone i)(0 := z0)\<rparr>) (add_links 1 rip s1) in
         bindr (rw_inode env rip WRITING s2) (\<lambda>s3.
         bindr (search_dir env dirp (False, str) (i_num (inodes s3 rip)) ENTER s3) (\<lambda>((r, _), s4).
         bindr (put_inode env (Some dirp) s4) (\<lambda>s5.
         if r \<noteq> OK
         then bindr (put_inode env (Some rip) (mark_dirty rip (add_links (- 1) rip s5))) (\<lambda>s6. Inr (None, set_err r s6))
         else Inr (Some rip, set_err OK s5)))))"

definition new_node :: "fs_env \<Rightarrow> u16 \<Rightarrow> u32 \<Rightarrow> fsstate \<Rightarrow> (nat option \<times> fsstate) res" where
  "new_node env bits z0 s =
     bindr (last_dir env s) (\<lambda>((ldo, str), s1).
     case ldo of
       None \<Rightarrow> Inr (None, s1)
     | Some dirp \<Rightarrow>
         bindr (advance env (Some dirp) (False, str) s1) (\<lambda>(ripo, s2).
         if ripo = None \<and> err_code s2 = ENOENT then make_node env dirp str bits z0 s2
         else let r = (if ripo \<noteq> None then EEXIST else err_code s2)
              in bindr (put_inode env (Some dirp) s2) (\<lambda>s3. Inr (ripo, set_err r s3))))"

abbreviation (input) OPEN_CALL :: int where "OPEN_CALL \<equiv> 5"
abbreviation (input) CREAT_CALL :: int where "CREAT_CALL \<equiv> 8"

definition pipe_open :: "fs_env \<Rightarrow> nat \<Rightarrow> u16 \<Rightarrow> u32 \<Rightarrow> fsstate \<Rightarrow> (int \<times> fsstate) res" where
  "pipe_open env rip bits oflags s =
     (let s1 = upd_ino rip (\<lambda>i. i\<lparr>i_pipe := True\<rparr>) s in
      if find_filp rip (if bits AND W_BIT \<noteq> 0 then R_BIT else W_BIT) s1 = None
      then if oflags AND O_NONBLOCK \<noteq> 0 then Inr (if bits AND W_BIT \<noteq> 0 then ENXIO else OK, s1)
           else Inr (SUSPEND, suspend XPOPEN s1)
      else if susp_count s1 > 0
      then bindr (release env rip OPEN_CALL (susp_count s1) s1) (\<lambda>s2.
           bindr (release env rip CREAT_CALL (susp_count s2) s2) (\<lambda>s3. Inr (OK, s3)))
      else Inr (OK, s1))"

section \<open>Opening\<close>

definition mode_map :: "u32 \<Rightarrow> u16" where
  "mode_map oflags = (let m = oflags AND 3 in if m = 0 then R_BIT else if m = 1 then W_BIT else if m = 2 then R_BIT OR W_BIT else 0)"

definition set_fd :: "nat \<Rightarrow> nat option \<Rightarrow> fsstate \<Rightarrow> fsstate" where
  "set_fd fd fo s = upd_fp (fs_fp s) (\<lambda>p. p\<lparr>fp_filp := (fp_filp p)(fd := fo)\<rparr>) s"

text \<open>A reader or writer of a FIFO shares the position of another one.\<close>

definition share_fifo :: "nat \<Rightarrow> nat \<Rightarrow> nat \<Rightarrow> u16 \<Rightarrow> u32 \<Rightarrow> fsstate \<Rightarrow> fsstate" where
  "share_fifo fd f rip bits oflags s =
     (let b = (if bits AND R_BIT \<noteq> 0 then R_BIT else W_BIT); s1 = upd_filp f (\<lambda>x. x\<lparr>filp_count := 0\<rparr>) s in
      case find_filp rip b s1 of
        Some g \<Rightarrow> upd_ino rip (\<lambda>i. i\<lparr>i_count := i_count i - 1\<rparr>)
                    (upd_filp g (\<lambda>x. x\<lparr>filp_count := filp_count x + 1, filp_ino := Some rip, filp_flags := oflags\<rparr>) (set_fd fd (Some g) s1))
      | None \<Rightarrow> upd_filp f (\<lambda>x. x\<lparr>filp_count := 1, filp_pos := i_zone (inodes s1 rip) (if b = R_BIT then 7 else 8)\<rparr>) s1)"

definition open_existing :: "fs_env \<Rightarrow> nat \<Rightarrow> nat \<Rightarrow> nat \<Rightarrow> u16 \<Rightarrow> u32 \<Rightarrow> fsstate \<Rightarrow> (int \<times> fsstate) res" where
  "open_existing env fd f rip bits oflags s =
     bindr (forbidden env rip bits s) (\<lambda>(r, s1).
     let t = i_mode (inodes s1 rip) AND I_TYPE in
     if r \<noteq> OK then Inr (r, s1)
     else if t = I_REGULAR
     then if oflags AND O_TRUNC = 0 then Inr (OK, s1)
          else bindr (forbidden env rip W_BIT s1) (\<lambda>(r1, s2).
               if r1 \<noteq> OK then Inr (r1, s2)
               else bindr (truncate_file env rip s2) (\<lambda>s3.
                    bindr (rw_inode env rip WRITING (wipe_inode rip s3)) (\<lambda>s4. Inr (OK, s4))))
     else if t = I_DIRECTORY then Inr (if bits AND W_BIT \<noteq> 0 then EISDIR else OK, s1)
     else if t = I_CHAR_SPECIAL \<or> t = I_BLOCK_SPECIAL
     then dev_open env (zdev (inodes s1 rip)) (fs_who s1) (ucast bits OR (oflags AND NOT 3)) s1
     else if t = I_NAMED_PIPE
     then let ofl = oflags OR O_APPEND in
          bindr (pipe_open env rip bits ofl (upd_filp f (\<lambda>x. x\<lparr>filp_flags := ofl\<rparr>) s1)) (\<lambda>(r1, s2).
          Inr (r1, if r1 \<noteq> ENXIO then share_fifo fd f rip bits ofl s2 else s2))
     else Inr (OK, s1))"

definition open_file :: "fs_env \<Rightarrow> nat \<Rightarrow> nat \<Rightarrow> nat \<Rightarrow> u16 \<Rightarrow> u32 \<Rightarrow> bool \<Rightarrow> int \<Rightarrow> fsstate \<Rightarrow> (int \<times> fsstate) res" where
  "open_file env fd f rip bits oflags exists r0 s =
     (let s1 = upd_filp f (\<lambda>x. x\<lparr>filp_count := 1, filp_ino := Some rip, filp_flags := oflags\<rparr>) (set_fd fd (Some f) s) in
      bindr (if exists then open_existing env fd f rip bits oflags s1 else Inr (r0, s1)) (\<lambda>(r, s2).
      if r = OK then Inr (int fd, s2)
      else if r = SUSPEND then Inr (r, s2)
      else bindr (put_inode env (Some rip) (upd_filp f (\<lambda>x. x\<lparr>filp_count := 0\<rparr>) (set_fd fd None s2))) (\<lambda>s3. Inr (r, s3))))"

definition common_open :: "fs_env \<Rightarrow> u32 \<Rightarrow> u16 \<Rightarrow> fsstate \<Rightarrow> (int \<times> fsstate) res" where
  "common_open env oflags omode s =
     (let bits = mode_map oflags in
      case get_fd 0 bits s of
        (Inl e, s1) \<Rightarrow> Inr (e, s1)
      | (Inr (fd, f), s0) \<Rightarrow>
          let s1 = set_arg 0 (of_nat fd) s0 in
          if oflags AND O_CREAT \<noteq> 0
          then bindr (new_node env (I_REGULAR OR (omode AND ALL_MODES AND fp_umask (cur s1))) NO_ZONE s1) (\<lambda>(ripo, s2).
               let r = err_code s2 in
               if r \<noteq> OK \<and> r \<noteq> EEXIST then Inr (r, s2)
               else bindr (deref ripo) (\<lambda>rip. open_file env fd f rip bits oflags (r \<noteq> OK \<and> oflags AND O_EXCL = 0) r s2))
          else bindr (eat_path env s1) (\<lambda>(ripo, s2).
               case ripo of
                 None \<Rightarrow> Inr (err_code s2, s2)
               | Some rip \<Rightarrow> open_file env fd f rip bits oflags True OK s2))"

definition do_creat :: "fs_env \<Rightarrow> fsstate \<Rightarrow> (int \<times> fsstate) res" where
  "do_creat env s =
     (let (e, s1) = fetch_name env (fs_word s 2) (fs_arg s 0) True s in
      if e \<noteq> OK then Inr (err_code s1, s1) else common_open env (1 OR O_CREAT OR O_TRUNC) (ucast (fs_word s1 1)) s1)"

section \<open>Opening a URL\<close>

text \<open>
  \<open>_open(TCP_DEVICE, O_RDWR)\<close>: the server calls itself with a message of its own, first with a name
  that lacks its null character, then with the whole one. \<open>connect\<close> of the library sends a request to
  the file system with \<open>sendrec\<close>; a process that sends to itself is never received and blocks (\<open>Ipc\<close>).
\<close>

definition tcp_mess :: "message \<Rightarrow> message" where
  "tcp_mess m = mset_w 0 9 (mset_w 1 2 (mset_w 3 0x7665642F (mset_w 4 0x7063742F (mset_w 5 0 m))))"

definition http_connect_url ::
  "(fsstate \<Rightarrow> (int \<times> fsstate) res) \<Rightarrow> fs_env \<Rightarrow> http_parsed_url \<Rightarrow> fsstate \<Rightarrow> (int \<times> fsstate) res" where
  "http_connect_url opn env url s =
     (let s1 = s\<lparr>fs_in := tcp_mess (fs_in s)\<rparr>; (_, s2) = fetch_name env 0 8 True s1 in
      bindr (opn s2) (\<lambda>(sockfd, s3).
      if sockfd < 0 then Inr (- 1, s3)
      else if parseIPV4string (url_host url) = 0 then Inr (- 1, s3)
      else Inl Hang))"

definition http_get_file :: "int \<Rightarrow> u8 list \<Rightarrow> int" where
  "http_get_file sockfd file = - 1"

definition is_http :: "u8 list \<Rightarrow> bool" where
  "is_http name \<longleftrightarrow> length name > 7 \<and> map LOWER (take 7 name) = ascii ''http://''"

definition open_url ::
  "(fsstate \<Rightarrow> (int \<times> fsstate) res) \<Rightarrow> fs_env \<Rightarrow> u8 list \<Rightarrow> u8 list \<Rightarrow> fsstate \<Rightarrow> (int \<times> fsstate) res" where
  "open_url opn env junk name s =
     bindr (http_parse_url junk name) (\<lambda>u.
     case u of
       None \<Rightarrow> Inr (- 1, s)
     | Some url \<Rightarrow>
         bindr (http_connect_url opn env url s) (\<lambda>(sockfd, s1).
         if sockfd < 0 then Inr (- 1, s1)
         else let fd = http_get_file sockfd (url_file url) in Inr (if fd < 0 then - 1 else fd, s1)))"

definition do_open_with :: "(fsstate \<Rightarrow> (int \<times> fsstate) res) \<Rightarrow> fs_env \<Rightarrow> u8 list \<Rightarrow> fsstate \<Rightarrow> (int \<times> fsstate) res" where
  "do_open_with opn env junk s =
     (let creat = (fs_word s 1 AND O_CREAT \<noteq> 0); create_mode = (if creat then ucast (fs_word s 2) else 0);
          (r, s1) = (if creat then fetch_name env (fs_word s 3) (fs_arg s 0) False s else fetch_name env (fs_word s 2) (fs_arg s 0) True s);
          name = takeWhile (\<lambda>c. c \<noteq> 0) (user_path s1)
      in if name = user_path s1 then Inl (BadIndex PATH_MAX)
         else if is_http name then open_url opn env junk name s1
         else if r \<noteq> OK then Inr (err_code s1, s1)
         else common_open env (fs_word s1 1) create_mode s1)"

text \<open>The name that the server opens on its own behalf is not a URL, so that it calls itself once.\<close>

definition do_open :: "fs_env \<Rightarrow> u8 list \<Rightarrow> fsstate \<Rightarrow> (int \<times> fsstate) res" where
  "do_open env junk = do_open_with (do_open_with (\<lambda>_. Inl Hang) env junk) env junk"

section \<open>Nodes and directories\<close>

definition do_mknod :: "fs_env \<Rightarrow> fsstate \<Rightarrow> (int \<times> fsstate) res" where
  "do_mknod env s =
     (let mode_bits = ucast (fs_word s 1) :: u16 in
      if \<not> super_user s \<and> mode_bits AND I_TYPE \<noteq> I_NAMED_PIPE then Inr (EPERM, s)
      else let (e, s1) = fetch_name env (fs_word s 3) (fs_arg s 0) False s in
      if e \<noteq> OK then Inr (err_code s1, s1)
      else bindr (new_node env ((mode_bits AND I_TYPE) OR (mode_bits AND ALL_MODES AND fp_umask (cur s1))) (fs_word s1 2) s1) (\<lambda>(ipo, s2).
           bindr (put_inode env ipo s2) (\<lambda>s3. Inr (err_code s3, s3))))"

text \<open>The entries \<open>.\<close> and \<open>..\<close> of a new directory.\<close>

definition fill_dir :: "fs_env \<Rightarrow> nat \<Rightarrow> nat \<Rightarrow> u8 list \<Rightarrow> u16 \<Rightarrow> fsstate \<Rightarrow> fsstate res" where
  "fill_dir env rip ldirp str bits s =
     (let s0 = upd_ino rip (\<lambda>i. i\<lparr>i_mode := bits\<rparr>) s; dotdot = i_num (inodes s ldirp); dot = i_num (inodes s rip) in
      bindr (search_dir env rip dot1 dot ENTER s0) (\<lambda>((r1, _), s1).
      bindr (search_dir env rip dot2 dotdot ENTER s1) (\<lambda>((r2, _), s2).
      if r1 = OK \<and> r2 = OK then Inr (mark_dirty rip (mark_dirty ldirp (add_links 1 ldirp (add_links 1 rip s2))))
      else bindr (search_dir env ldirp (False, str) 0 DELETE s2) (\<lambda>(_, s3). Inr (mark_dirty rip (add_links (- 1) rip s3))))))"

definition do_mkdir :: "fs_env \<Rightarrow> fsstate \<Rightarrow> (int \<times> fsstate) res" where
  "do_mkdir env s =
     (let (e, s0) = fetch_name env (fs_word s 3) (fs_arg s 0) False s in
      if e \<noteq> OK then Inr (err_code s0, s0)
      else bindr (last_dir env s0) (\<lambda>((ldo, str), s1).
           case ldo of
             None \<Rightarrow> Inr (err_code s1, s1)
           | Some ldirp \<Rightarrow>
               bindr (isp ldirp s1) (\<lambda>sp.
               if i_nlinks (inodes s1 ldirp) \<ge> link_max sp then bindr (put_inode env (Some ldirp) s1) (\<lambda>s2. Inr (EMLINK, s2))
               else let bits = I_DIRECTORY OR (ucast (fs_word s1 1) AND RWX_MODES AND fp_umask (cur s1)) in
                    bindr (new_node env bits 0 s1) (\<lambda>(ripo, s2).
                    bindr (case ripo of
                             None \<Rightarrow> bindr (put_inode env (Some ldirp) s2) Inr
                           | Some rip \<Rightarrow>
                               if err_code s2 = EEXIST then put_inodes env [Some rip, Some ldirp] s2
                               else bindr (fill_dir env rip ldirp str bits s2) (put_inodes env [Some ldirp, Some rip])) (\<lambda>s3.
                    Inr (err_code s3, s3))))))"

section \<open>Closing\<close>

definition close_dev :: "fs_env \<Rightarrow> nat \<Rightarrow> fsstate \<Rightarrow> fsstate res" where
  "close_dev env rip s =
     (let i = inodes s rip; mo = i_mode i AND I_TYPE in
      if mo = I_CHAR_SPECIAL \<or> mo = I_BLOCK_SPECIAL
      then bindr (if mo = I_BLOCK_SPECIAL \<and> \<not> mounted rip s then purge env (zdev i) s else Inr s) (dev_close env (zdev i))
      else Inr s)"

definition unlock_file :: "nat \<Rightarrow> fsstate \<Rightarrow> fsstate res" where
  "unlock_file rip s =
     (let mine = (\<lambda>n. lock_type (file_locks s n) \<noteq> 0 \<and> lock_inode (file_locks s n) = Some rip \<and> lock_pid (file_locks s n) = fp_pid (cur s));
          ns = filter mine [0..<NR_LOCKS];
          s1 = (fold (\<lambda>n. upd_lock n (\<lambda>l. l\<lparr>lock_type := 0\<rparr>)) ns s)\<lparr>nr_locks := nr_locks s - int (length ns)\<rparr>
      in if nr_locks s = 0 then Inr s else if ns \<noteq> [] then lock_revive s1 else Inr s1)"

definition do_close :: "fs_env \<Rightarrow> fsstate \<Rightarrow> (int \<times> fsstate) res" where
  "do_close env s =
     (let fd = fs_arg s 0; (fo, s0) = get_filp fd s in
      case fo of
        None \<Rightarrow> Inr (err_code s0, s0)
      | Some f \<Rightarrow>
          bindr (deref (filp_ino (filps s0 f))) (\<lambda>rip.
          bindr (if filp_count (filps s0 f) - 1 = 0 \<and> filp_mode (filps s0 f) \<noteq> 0 then close_dev env rip s0 else Inr s0) (\<lambda>s1.
          bindr (if i_pipe (inodes s1 rip)
                 then release env rip (if filp_mode (filps s1 f) AND R_BIT \<noteq> 0 then WRITE_CALL else READ_CALL) NR_PROCS s1
                 else Inr s1) (\<lambda>s2.
          let s3 = upd_filp f (\<lambda>x. x\<lparr>filp_count := filp_count x - 1\<rparr>) s2; fl = filps s3 f in
          bindr (if filp_count fl = 0
                 then put_inode env (Some rip)
                        (if i_pipe (inodes s3 rip) \<and> i_count (inodes s3 rip) > 1
                         then upd_ino rip (\<lambda>i. i\<lparr>i_zone := (i_zone i)(if filp_mode fl = R_BIT then 7 else 8 := filp_pos fl)\<rparr>) s3 else s3)
                 else Inr s3) (\<lambda>s4.
          bindr (unlock_file rip (upd_fp (fs_fp s4) (\<lambda>p. p\<lparr>fp_cloexec := unset_bit (nat fd) (fp_cloexec p), fp_filp := (fp_filp p)(nat fd := None)\<rparr>) s4)) (\<lambda>s5.
          Inr (OK, s5)))))))"

section \<open>Positions and descriptors\<close>

definition do_lseek :: "fsstate \<Rightarrow> (int \<times> fsstate) res" where
  "do_lseek s =
     (let (fo, s1) = get_filp (fs_arg s 0) s in
      case fo of
        None \<Rightarrow> Inr (err_code s1, s1)
      | Some f \<Rightarrow>
          bindr (deref (filp_ino (filps s1 f))) (\<lambda>rip.
          if i_pipe (inodes s1 rip) then Inr (ESPIPE, s1)
          else let whence = fs_arg s1 1; offset = fs_word s1 3;
                   start = (if whence = 0 then Some 0 else if whence = 1 then Some (filp_pos (filps s1 f))
                            else if whence = 2 then Some (i_size (inodes s1 rip)) else None)
               in case start of
                    None \<Rightarrow> Inr (EINVAL, s1)
                  | Some pos0 \<Rightarrow>
                      let pos = pos0 + offset in
                      if sint offset > 0 \<and> sint pos < sint pos0 \<or> sint offset < 0 \<and> sint pos > sint pos0 then Inr (EINVAL, s1)
                      else let s2 = (if pos \<noteq> filp_pos (filps s1 f) then upd_ino rip (\<lambda>i. i\<lparr>i_seek := True\<rparr>) s1 else s1);
                               s3 = upd_filp f (\<lambda>x. x\<lparr>filp_pos := pos\<rparr>) s2
                           in Inr (OK, s3\<lparr>fs_out := mset_w 3 pos (fs_out s3)\<rparr>)))"

definition dup_filp :: "nat \<Rightarrow> nat \<Rightarrow> fsstate \<Rightarrow> fsstate" where
  "dup_filp f fd s = set_fd fd (Some f) (upd_filp f (\<lambda>x. x\<lparr>filp_count := filp_count x + 1\<rparr>) s)"

definition do_dup :: "fs_env \<Rightarrow> fsstate \<Rightarrow> (int \<times> fsstate) res" where
  "do_dup env s =
     (let rfd = sint (fs_word s 0 AND NOT 0x40); (fo, s1) = get_filp rfd s in
      case fo of
        None \<Rightarrow> Inr (err_code s1, s1)
      | Some f \<Rightarrow>
          if fs_arg s1 0 = rfd
          then (case get_fd 0 0 s1 of
                  (Inl e, s2) \<Rightarrow> Inr (e, s2)
                | (Inr (k, _), s2) \<Rightarrow> Inr (int k, dup_filp f k (set_arg 1 (of_nat k) s2)))
          else let fd2 = fs_arg s1 1 in
               if fd2 < 0 \<or> fd2 \<ge> int OPEN_MAX then Inr (EBADF, s1)
               else if rfd = fd2 then Inr (fd2, s1)
               else bindr (do_close env (set_arg 0 (fs_word s1 1) s1)) (\<lambda>(_, s2). Inr (fd2, dup_filp f (nat fd2) s2)))"

definition do_fcntl :: "fs_env \<Rightarrow> fsstate \<Rightarrow> (int \<times> fsstate) res" where
  "do_fcntl env s =
     (let fd = fs_arg s 0; req = fs_arg s 1; addr = fs_arg s 2; (fo, s1) = get_filp fd s in
      case fo of
        None \<Rightarrow> Inr (err_code s1, s1)
      | Some f \<Rightarrow>
          if req = 0
          then if addr < 0 \<or> addr \<ge> int OPEN_MAX then Inr (EINVAL, s1)
               else (case get_fd (nat addr) 0 s1 of
                       (Inl e, s2) \<Rightarrow> Inr (e, s2)
                     | (Inr (k, _), s2) \<Rightarrow> Inr (int k, dup_filp f k s2))
          else if req = 1 then Inr (if bit (fp_cloexec (cur s1)) (nat fd) then 1 else 0, s1)
          else if req = 2
          then Inr (OK, upd_fp (fs_fp s1) (\<lambda>p. p\<lparr>fp_cloexec :=
                 (if fs_word s1 2 AND 1 \<noteq> 0 then set_bit (nat fd) (fp_cloexec p) else unset_bit (nat fd) (fp_cloexec p))\<rparr>) s1)
          else if req = 3 then Inr (sint (filp_flags (filps s1 f) AND (O_NONBLOCK OR O_APPEND OR 3)), s1)
          else if req = 4
          then let fl = O_NONBLOCK OR O_APPEND
               in Inr (OK, upd_filp f (\<lambda>x. x\<lparr>filp_flags := (filp_flags x AND NOT fl) OR (fs_word s1 2 AND fl)\<rparr>) s1)
          else if req = 5 \<or> req = 6 \<or> req = 7 then lock_op env f req s1
          else Inr (EINVAL, s1))"

definition do_pipe :: "fs_env \<Rightarrow> fsstate \<Rightarrow> (int \<times> fsstate) res" where
  "do_pipe env s =
     (case get_fd 0 R_BIT s of
        (Inl e, s1) \<Rightarrow> Inr (e, s1)
      | (Inr (d0, f0), s0) \<Rightarrow>
          let take = (\<lambda>d f t. upd_filp f (\<lambda>x. x\<lparr>filp_count := 1\<rparr>) (set_fd d (Some f) t));
              drop = (\<lambda>d f t. upd_filp f (\<lambda>x. x\<lparr>filp_count := 0\<rparr>) (set_fd d None t)) in
          (case get_fd 0 W_BIT (take d0 f0 s0) of
             (Inl e, s1) \<Rightarrow> Inr (e, drop d0 f0 s1)
           | (Inr (d1, f1), s1) \<Rightarrow>
               let s2 = take d1 f1 s1 in
               bindr (alloc_inode env (root_dev s2) I_REGULAR s2) (\<lambda>(ripo, s3).
               case ripo of
                 None \<Rightarrow> Inr (err_code s3, drop d1 f1 (drop d0 f0 s3))
               | Some rip \<Rightarrow>
                   bindr (read_only rip s3) (\<lambda>ro.
                   if ro \<noteq> OK then Inl (Panic ''pipe device is read only'')
                   else let s4 = dup_inode rip (upd_ino rip (\<lambda>i. i\<lparr>i_pipe := True, i_mode := (i_mode i AND NOT I_REGULAR) OR I_NAMED_PIPE\<rparr>) s3);
                            s5 = upd_filp f1 (\<lambda>x. x\<lparr>filp_ino := Some rip, filp_flags := 1\<rparr>)
                                   (upd_filp f0 (\<lambda>x. x\<lparr>filp_ino := Some rip, filp_flags := 0\<rparr>) s4)
                        in bindr (rw_inode env rip WRITING s5) (\<lambda>s6.
                           let s7 = s6\<lparr>fs_out := mset_w 0 (of_nat d0) (mset_w 1 (of_nat d1) (fs_out s6))\<rparr>
                           in Inr (OK, upd_ino rip (\<lambda>i. i\<lparr>i_update := ATIME OR CTIME OR MTIME\<rparr>) s7))))))"

end
