(* ===== verification/Fs_Main.thy ===== *)
theory Fs_Main
  imports Fs_Open
begin

unbundle bit_operations_syntax

text \<open>
  Mounting (\<open>mount.c\<close>), the calls that the process manager makes (\<open>misc.c\<close>, \<open>do_unpause\<close> of
  \<open>pipe.c\<close>), the table of calls (\<open>table.c\<close>) and one round of the main loop, and the start of the
  server (\<open>main.c\<close>, \<open>cdprobe.c\<close>).
\<close>

section \<open>Mounting\<close>

definition name_to_dev :: "fs_env \<Rightarrow> fsstate \<Rightarrow> (int \<times> fsstate) res" where
  "name_to_dev env s =
     bindr (eat_path env s) (\<lambda>(ripo, s1).
     case ripo of
       None \<Rightarrow> Inr (NO_DEV, s1)
     | Some rip \<Rightarrow>
         if i_mode (inodes s1 rip) AND I_TYPE \<noteq> I_BLOCK_SPECIAL
         then bindr (put_inode env (Some rip) (set_err ENOTBLK s1)) (\<lambda>s2. Inr (NO_DEV, s2))
         else let dev = zdev (inodes s1 rip) in bindr (put_inode env (Some rip) s1) (\<lambda>s2. Inr (dev, s2)))"

definition free_super :: "int \<Rightarrow> fsstate \<Rightarrow> (int + nat)" where
  "free_super dev s =
     (if find_super dev s \<noteq> None then Inl EBUSY
      else case find (\<lambda>n. s_dev (supers s n) = NO_DEV) (rev [0..<NR_SUPERS]) of None \<Rightarrow> Inl ENFILE | Some n \<Rightarrow> Inr n)"

text \<open>The error exits after the device was opened.\<close>

definition mount_undo :: "fs_env \<Rightarrow> int \<Rightarrow> nat \<Rightarrow> (fsstate \<Rightarrow> int) \<Rightarrow> fsstate \<Rightarrow> (int \<times> fsstate) res" where
  "mount_undo env dev sp e s =
     bindr (dev_close env dev s) (\<lambda>s1. let s2 = upd_sup sp (\<lambda>x. x\<lparr>s_dev := NO_DEV\<rparr>) s1 in Inr (e s2, s2))"

definition mount_on :: "fs_env \<Rightarrow> int \<Rightarrow> nat \<Rightarrow> nat \<Rightarrow> fsstate \<Rightarrow> (int \<times> fsstate) res" where
  "mount_on env dev sp rip s =
     (let i = inodes s rip; bits = i_mode i AND I_TYPE;
          r0 = (if bits = I_BLOCK_SPECIAL \<or> bits = I_CHAR_SPECIAL then ENOTDIR else if i_count i > 1 then EBUSY else OK)
      in bindr (if r0 = OK then get_inode env dev ROOT_INODE s else Inr (None, s)) (\<lambda>(rooto, s1).
         let r = (case rooto of
                    None \<Rightarrow> if r0 = OK then err_code s1 else r0
                  | Some root_ip \<Rightarrow>
                      if i_mode (inodes s1 root_ip) = 0 then EINVAL
                      else if r0 = OK \<and> bits \<noteq> I_DIRECTORY \<and> i_mode (inodes s1 root_ip) AND I_TYPE = I_DIRECTORY then EISDIR else r0)
         in if r \<noteq> OK
            then bindr (put_inodes env [Some rip, rooto] s1) (\<lambda>s2. bindr (purge env dev s2) (mount_undo env dev sp (\<lambda>_. r)))
            else Inr (OK, upd_sup sp (\<lambda>x. x\<lparr>s_imount := Some rip, s_isup := rooto, s_rd_only := (fs_word s1 2 \<noteq> 0)\<rparr>)
                   (upd_ino rip (\<lambda>i. i\<lparr>i_mount := True\<rparr>) s1))))"

definition do_mount :: "fs_env \<Rightarrow> fsstate \<Rightarrow> (int \<times> fsstate) res" where
  "do_mount env s =
     (if \<not> super_user s then Inr (EPERM, s)
      else let (e, s0) = fetch_name env (fs_word s 3) (fs_arg s 0) False s in
      if e \<noteq> OK then Inr (err_code s0, s0)
      else bindr (name_to_dev env s0) (\<lambda>(dev, s1).
           if dev = NO_DEV then Inr (err_code s1, s1)
           else case free_super dev s1 of
             Inl e1 \<Rightarrow> Inr (e1, s1)
           | Inr sp \<Rightarrow>
               bindr (dev_open env dev (fs_who s1) (if fs_word s1 2 \<noteq> 0 then 4 else 6) s1) (\<lambda>(r, s2).
               if r \<noteq> OK then Inr (EINVAL, s2)
               else bindr (purge env dev s2) (\<lambda>s3.
                    bindr (read_super env sp (upd_sup sp (\<lambda>x. x\<lparr>s_dev := dev\<rparr>) s3)) (\<lambda>(r1, s4).
                    if r1 \<noteq> OK then mount_undo env dev sp (\<lambda>_. r1) s4
                    else let (e2, s5) = fetch_name env (fs_word s4 4) (fs_arg s4 1) False s4 in
                    if e2 \<noteq> OK then mount_undo env dev sp err_code s5
                    else bindr (eat_path env s5) (\<lambda>(ripo, s6).
                         case ripo of
                           None \<Rightarrow> mount_undo env dev sp err_code s6
                         | Some rip \<Rightarrow> mount_on env dev sp rip s6))))))"

definition unmount :: "fs_env \<Rightarrow> int \<Rightarrow> fsstate \<Rightarrow> (int \<times> fsstate) res" where
  "unmount env dev s =
     (if sum_list (map (\<lambda>n. if i_count (inodes s n) > 0 \<and> i_dev (inodes s n) = dev then i_count (inodes s n) else 0) [0..<NR_INODES]) > 1
      then Inr (EBUSY, s)
      else let spo = find_super dev s in
      bindr (purge env dev s) (\<lambda>s1.
      case spo of
        None \<Rightarrow> Inr (EINVAL, s1)
      | Some sp \<Rightarrow>
          bindr (dev_close env dev s1) (\<lambda>s2.
          bindr (deref (s_imount (supers s2 sp))) (\<lambda>m.
          bindr (put_inodes env [Some m, s_isup (supers s2 sp)] (upd_ino m (\<lambda>i. i\<lparr>i_mount := False\<rparr>) s2)) (\<lambda>s3.
          Inr (OK, upd_sup sp (\<lambda>x. x\<lparr>s_imount := None, s_dev := NO_DEV\<rparr>) s3))))))"

definition do_umount :: "fs_env \<Rightarrow> fsstate \<Rightarrow> (int \<times> fsstate) res" where
  "do_umount env s =
     (if \<not> super_user s then Inr (EPERM, s)
      else let (e, s0) = fetch_name env (fs_word s 2) (fs_arg s 0) True s in
      if e \<noteq> OK then Inr (err_code s0, s0)
      else bindr (name_to_dev env s0) (\<lambda>(dev, s1). if dev = NO_DEV then Inr (err_code s1, s1) else unmount env dev s1))"

section \<open>Processes\<close>

definition unpause_dev :: "fs_env \<Rightarrow> int \<Rightarrow> int \<Rightarrow> fsstate \<Rightarrow> fsstate res" where
  "unpause_dev env proc_nr task s =
     (let rfp = fprocs s proc_nr; fild = fp_fd rfp div 256 mod 256 in
      if fild \<ge> int OPEN_MAX then Inl (Panic ''unpause err 2'')
      else bindr (deref (fp_filp rfp (nat fild))) (\<lambda>f.
           bindr (deref (filp_ino (filps s f))) (\<lambda>rip.
           let dev = zdev (inodes s rip) in
           bindr (dmap_at dev) (\<lambda>j.
           bindr (call_io env (dmap_io (dmaps s j)) task
                    (clone_mess CANCEL dev proc_nr (if fp_fd rfp mod 256 = READ_CALL then 4 else 2)) (UserMem 0) []
                    (s\<lparr>fs_fp := proc_nr\<rparr>)) (\<lambda>(_, s1). Inr s1)))))"

definition do_unpause :: "fs_env \<Rightarrow> fsstate \<Rightarrow> (int \<times> fsstate) res" where
  "do_unpause env s =
     (let proc_nr = fs_arg s 0 in
      if fs_who s > PM_PROC_NR then Inr (EPERM, s)
      else if proc_nr < 0 \<or> proc_nr \<ge> NR_PROCS then Inl (Panic ''unpause err 1'')
      else if \<not> fp_suspended (fprocs s proc_nr) then Inr (OK, s)
      else let task = - fp_task (fprocs s proc_nr) in
           bindr (if task = XPIPE \<or> task = XLOCK \<or> task = XPOPEN then Inr s
                  else if task = XSELECT then select_forget env proc_nr s
                  else unpause_dev env proc_nr task s) (\<lambda>s1.
           Inr (OK, reply proc_nr EINTR (upd_fp proc_nr (\<lambda>p. p\<lparr>fp_suspended := False\<rparr>) s1))))"

definition do_fork_fs :: "fsstate \<Rightarrow> (int \<times> fsstate) res" where
  "do_fork_fs s =
     (if fs_who s \<noteq> PM_PROC_NR then Inr (EGENERIC, s)
      else bindr (fproc_at (fs_arg s 0)) (\<lambda>par.
           bindr (fproc_at (fs_arg s 1)) (\<lambda>chl.
           let s1 = upd_fp chl (\<lambda>_. fprocs s par) s;
               fs = List.map_filter (fp_filp (fprocs s1 chl)) [0..<OPEN_MAX];
               s2 = fold (\<lambda>f. upd_filp f (\<lambda>x. x\<lparr>filp_count := filp_count x + 1\<rparr>)) fs s1;
               s3 = upd_fp chl (\<lambda>p. p\<lparr>fp_pid := fs_arg s2 2, fp_sesldr := False\<rparr>) s2
           in bindr (dup_dir (fp_rootdir (fprocs s3 chl)) s3) (\<lambda>s4.
              bindr (dup_dir (fp_workdir (fprocs s4 chl)) s4) (\<lambda>s5. Inr (OK, s5))))))"

fun close_fds :: "fs_env \<Rightarrow> nat list \<Rightarrow> fsstate \<Rightarrow> fsstate res" where
  "close_fds env [] s = Inr s"
| "close_fds env (i # is) s = bindr (do_close env (set_arg 0 (of_nat i) s)) (\<lambda>(_, s1). close_fds env is s1)"

definition do_exec_fs :: "fs_env \<Rightarrow> fsstate \<Rightarrow> (int \<times> fsstate) res" where
  "do_exec_fs env s =
     (if fs_who s \<noteq> PM_PROC_NR then Inr (EGENERIC, s)
      else bindr (fproc_at (fs_arg s 0)) (\<lambda>n.
           let s1 = s\<lparr>fs_fp := n\<rparr>; bitmap = fp_cloexec (cur s1) in
           bindr (close_fds env (filter (bit bitmap) [0..<OPEN_MAX]) s1) (\<lambda>s2. Inr (OK, s2))))"

text \<open>The controlling terminal is taken from every process.\<close>

fun revoke_fds :: "fs_env \<Rightarrow> int \<Rightarrow> nat option list \<Rightarrow> fsstate \<Rightarrow> fsstate res" where
  "revoke_fds env dev [] s = Inr s"
| "revoke_fds env dev (None # fs) s = revoke_fds env dev fs s"
| "revoke_fds env dev (Some f # fs) s =
     (if filp_mode (filps s f) = 0 then revoke_fds env dev fs s
      else bindr (deref (filp_ino (filps s f))) (\<lambda>rip.
           if i_mode (inodes s rip) AND I_TYPE \<noteq> I_CHAR_SPECIAL \<or> zdev (inodes s rip) \<noteq> dev then revoke_fds env dev fs s
           else bindr (dev_close env dev s) (\<lambda>s1. revoke_fds env dev fs (upd_filp f (\<lambda>x. x\<lparr>filp_mode := 0\<rparr>) s1))))"

fun revoke_tty :: "fs_env \<Rightarrow> int \<Rightarrow> int list \<Rightarrow> fsstate \<Rightarrow> fsstate res" where
  "revoke_tty env dev [] s = Inr s"
| "revoke_tty env dev (n # ns) s =
     (let s1 = (if fp_tty (fprocs s n) = dev then upd_fp n (\<lambda>p. p\<lparr>fp_tty := 0\<rparr>) s else s)
      in bindr (revoke_fds env dev (map (fp_filp (fprocs s1 n)) [0..<OPEN_MAX]) s1) (revoke_tty env dev ns))"

definition do_exit_fs :: "fs_env \<Rightarrow> fsstate \<Rightarrow> (int \<times> fsstate) res" where
  "do_exit_fs env s =
     (if fs_who s \<noteq> PM_PROC_NR then Inr (EGENERIC, s)
      else bindr (fproc_at (fs_arg s 0)) (\<lambda>n.
           let s0 = s\<lparr>fs_fp := n\<rparr>; task = - fp_task (cur s0) in
           bindr (if fp_suspended (cur s0)
                  then bindr (do_unpause env (if task = XPIPE \<or> task = XPOPEN then s0\<lparr>susp_count := susp_count s0 - 1\<rparr> else s0)) (\<lambda>(_, s1).
                       Inr (upd_fp n (\<lambda>p. p\<lparr>fp_suspended := False\<rparr>) s1))
                  else Inr s0) (\<lambda>s1.
           bindr (close_fds env [0..<OPEN_MAX] s1) (\<lambda>s2.
           bindr (put_inodes env [fp_rootdir (fprocs s2 n), fp_workdir (fprocs s2 n)] s2) (\<lambda>s3.
           let s4 = upd_fp n (\<lambda>p. p\<lparr>fp_rootdir := None, fp_workdir := None\<rparr>) s3; leader = fp_sesldr (fprocs s4 n);
               s5 = upd_fp n (\<lambda>p. p\<lparr>fp_sesldr := False\<rparr>) s4; dev = fp_tty (fprocs s5 n)
           in bindr (if leader \<and> dev \<noteq> 0 then revoke_tty env dev slots s5 else Inr s5) (\<lambda>s6.
              Inr (OK, upd_fp n (\<lambda>p. p\<lparr>fp_pid := 0\<rparr>) s6)))))))"

definition do_set :: "fsstate \<Rightarrow> (int \<times> fsstate) res" where
  "do_set s =
     (if fs_who s \<noteq> PM_PROC_NR then Inr (EGENERIC, s)
      else bindr (fproc_at (fs_arg s 0)) (\<lambda>n.
           Inr (OK, upd_fp n (\<lambda>p.
             if fs_call_nr s = 23 then p\<lparr>fp_realuid := sshort (fs_arg s 1), fp_effuid := sshort (fs_arg s 2)\<rparr>
             else if fs_call_nr s = 46 then p\<lparr>fp_effgid := schar (fs_arg s 2), fp_realgid := schar (fs_arg s 1)\<rparr> else p) s)))"

definition do_revive :: "fsstate \<Rightarrow> (int \<times> fsstate) res" where
  "do_revive s = bindr (revive (fs_arg s 0) (fs_arg s 1) s) (\<lambda>s1. Inr (SUSPEND, s1))"

definition do_svrctl_fs :: "fs_env \<Rightarrow> fsstate \<Rightarrow> (int \<times> fsstate) res" where
  "do_svrctl_fs env s =
     (if fs_word s 0 \<noteq> 0x40084602 then Inr (EINVAL, s)
      else if fp_effuid (cur s) \<noteq> 0 then Inr (EPERM, s)
      else let (a, s1) = fs_ask env (RqCopyIn (fs_who s) 1 (fs_word s 5) 8) s in
           if a_res a \<noteq> OK then Inr (a_res a, s1)
           else let d = write_bytes 0 (a_bytes a) (\<lambda>_. 0)
                in map_driver (int (major (sint (get16 d 0)))) (fs_who s1) (sint (get32 d 4)) s1)"

definition do_getsysinfo_fs :: "fs_env \<Rightarrow> fsstate \<Rightarrow> (int \<times> fsstate) res" where
  "do_getsysinfo_fs env s =
     (let what = fs_arg s 0 in
      if what \<in> {1, 2, 3} then let (a, s1) = fs_ask env (RqCopyTab (fs_who s) what (fs_word s 3)) s in Inr (a_res a, s1)
      else Inr (EINVAL, s))"

fun exit_all :: "fs_env \<Rightarrow> nat list \<Rightarrow> fsstate \<Rightarrow> fsstate res" where
  "exit_all env [] s = Inr s"
| "exit_all env (i # is) s = bindr (do_exit_fs env (set_arg 0 (of_nat i) s)) (\<lambda>(_, s1). exit_all env is s1)"

fun unmount_all :: "fs_env \<Rightarrow> nat list \<Rightarrow> fsstate \<Rightarrow> fsstate res" where
  "unmount_all env [] s = Inr s"
| "unmount_all env (n # ns) s =
     bindr (if s_dev (supers s n) \<noteq> NO_DEV then bindr (unmount env (s_dev (supers s n)) s) (\<lambda>(_, s1). Inr s1) else Inr s)
       (unmount_all env ns)"

text \<open>The inode that the root is put on in the end is not in the table; it has the index behind it.\<close>

definition do_reboot_fs :: "fs_env \<Rightarrow> fsstate \<Rightarrow> (int \<times> fsstate) res" where
  "do_reboot_fs env s =
     (if fs_who s \<noteq> PM_PROC_NR then Inr (EGENERIC, s)
      else bindr (exit_all env [0..<64] s) (\<lambda>s1.
           bindr (put_inode env (s_imount (supers s1 0)) s1) (\<lambda>s2.
           let s3 = upd_ino NR_INODES (\<lambda>i. i\<lparr>i_count := 2\<rparr>) (upd_sup 0 (\<lambda>x. x\<lparr>s_imount := Some NR_INODES\<rparr>) s2) in
           bindr (unmount_all env (concat (replicate NR_SUPERS [0..<NR_SUPERS])) s3) (\<lambda>s4. Inr (OK, s4)))))"

section \<open>The table of calls\<close>

definition no_sys :: "fsstate \<Rightarrow> (int \<times> fsstate) res" where
  "no_sys s = Inr (EINVAL, s)"

definition call_vec_fs :: "fs_env \<Rightarrow> u8 list \<Rightarrow> int \<Rightarrow> fsstate \<Rightarrow> (int \<times> fsstate) res" where
  "call_vec_fs env junk n =
     (if n = 1 then do_exit_fs env else if n = 2 then do_fork_fs else if n = 3 then do_read env else if n = 4 then do_write env
      else if n = 5 then do_open env junk else if n = 6 then do_close env else if n = 8 then do_creat env else if n = 9 then do_link env
      else if n = 10 \<or> n = 40 then do_unlink env else if n = 12 then do_chdir env else if n = 14 then do_mknod env
      else if n = 15 then do_chmod env else if n = 16 then do_chown env else if n = 18 then do_stat env else if n = 19 then do_lseek
      else if n = 21 then do_mount env else if n = 22 then do_umount env else if n = 23 \<or> n = 46 then do_set else if n = 25 then do_stime
      else if n = 28 then do_fstat env else if n = 30 then do_utime env else if n = 33 then do_access env else if n = 36 then do_sync env
      else if n = 38 then do_rename env else if n = 39 then do_mkdir env else if n = 41 then do_dup env else if n = 42 then do_pipe env
      else if n = 54 then do_ioctl env else if n = 55 then do_fcntl env else if n = 59 then do_exec_fs env else if n = 60 then do_umask
      else if n = 61 then do_chroot env else if n = 62 then do_setsid else if n = 65 then do_unpause env else if n = 67 then do_revive
      else if n = 76 then do_reboot_fs env else if n = 77 then do_svrctl_fs env else if n = 79 then do_getsysinfo_fs env
      else if n = 81 then do_devctl else if n = 82 then do_fstatfs env else if n = 85 then do_select env
      else if n = 86 then do_fchdir env else if n = 87 then do_fsync env else no_sys)"

section \<open>The main loop\<close>

definition get_work :: "fs_env \<Rightarrow> fsstate \<Rightarrow> fsstate res" where
  "get_work env s =
     (if reviving s \<noteq> 0
      then (case find (\<lambda>n. fp_revived (fprocs s n)) slots of
              None \<Rightarrow> Inl (Panic ''get_work couldn't revive anyone'')
            | Some n \<Rightarrow>
                let p = fprocs s n;
                    s1 = set_arg 0 (word_of_int (fp_fd p div 256 mod 256)) (set_arg 3 (fp_buffer p) (set_arg 1 (word_of_int (fp_nbytes p)) s))
                in Inr ((upd_fp n (\<lambda>p. p\<lparr>fp_suspended := False, fp_revived := False\<rparr>) s1)
                     \<lparr>fs_who := n, fs_call_nr := fp_fd p mod 256, reviving := reviving s - 1\<rparr>))
      else let (a, s1) = fs_ask env (RqReceive ANY) s in
           if a_res a \<noteq> OK then Inl (Panic ''fs receive error'')
           else Inr (s1\<lparr>fs_in := a_msg a, fs_who := m_source (a_msg a), fs_call_nr := m_type (a_msg a)\<rparr>))"

abbreviation (input) SYN_ALARM :: int where "SYN_ALARM \<equiv> 0x1001"
abbreviation (input) SYS_SIG :: int where "SYS_SIG \<equiv> 0x1002"

partial_function (option) dev_status :: "fs_env \<Rightarrow> int \<Rightarrow> nat \<Rightarrow> fsstate \<Rightarrow> fsstate res option" where
  "dev_status env src d s =
     (let (a, s1) = fs_ask env (RqSendrec src (no_mess\<lparr>m_type := DEV_STATUS\<rparr>) (UserMem 0) []) s; st = a_msg a in
      if a_res a \<noteq> OK then Some (Inl (Panic ''couldn't sendrec for DEV_STATUS''))
      else if m_type st = DEV_REVIVE \<or> m_type st = DEV_IO_READY
      then (case (if m_type st = DEV_REVIVE then revive (REP_PROC_NR st) (REP_STATUS st) s1
                  else select_notified env d (int_field st 0) (m_w st 1) s1) of
              Inl e \<Rightarrow> Some (Inl e)
            | Inr s2 \<Rightarrow> dev_status env src d s2)
      else Some (Inr s1))"

definition dev_notified :: "fs_env \<Rightarrow> int \<Rightarrow> fsstate \<Rightarrow> fsstate res" where
  "dev_notified env src s =
     (case find (\<lambda>d. dmap_driver (dmaps s d) = src) [0..<NR_DEVICES] of
        None \<Rightarrow> Inr s
      | Some d \<Rightarrow> ran (dev_status env src d s))"

definition serve_call :: "fs_env \<Rightarrow> u8 list \<Rightarrow> fsstate \<Rightarrow> fsstate res" where
  "serve_call env junk s =
     bindr (if fs_call_nr s < 0 \<or> fs_call_nr s \<ge> 91 \<or> fp_pid (cur s) = 0 then Inr (ENOSYS, s)
            else call_vec_fs env junk (fs_call_nr s) s) (\<lambda>(error, s1).
     let s2 = (if error \<noteq> SUSPEND then reply (fs_who s1) error s1 else s1)
     in if rdahed_inode s2 \<noteq> None then read_ahead env s2 else Inr s2)"

text \<open>
  One round; \<open>False\<close> if the server ends. A message from the kernel has a negative source, for which
  \<open>fproc[who]\<close> lies before the table: only \<open>super_user\<close> is computed from what is read there.
\<close>

definition fs_main_step :: "fs_env \<Rightarrow> u8 list \<Rightarrow> fsstate \<Rightarrow> (bool \<times> fsstate) res" where
  "fs_main_step env junk s =
     bindr (get_work env s) (\<lambda>s0.
     let s1 = s0\<lparr>fs_fp := fs_who s0, super_user := (fp_effuid (fprocs s0 (fs_who s0)) = 0)\<rparr>; nr = fs_call_nr s1 in
     if nr = SYS_SIG
     then if bit (fs_word s1 3) 20 then bindr (do_sync env s1) (\<lambda>(_, s2). Inr (False, fs_tell (RqExit 0) s2)) else Inr (True, s1)
     else bindr (if nr = SYN_ALARM then fs_expire_timers env (sint (fs_word s1 4)) s1
                 else if (word_of_int nr :: u32) AND 0x1000 \<noteq> 0 then dev_notified env (m_source (fs_in s1)) s1
                 else serve_call env junk s1) (\<lambda>s2. Inr (True, s2)))"

section \<open>Starting up\<close>

definition igetenv :: "fs_env \<Rightarrow> string \<Rightarrow> fsstate \<Rightarrow> int \<times> fsstate" where
  "igetenv env key s = (let (a, s1) = fs_ask env (RqParam key) s in (if a_res a \<noteq> OK then 0 else atoi (a_bytes a), s1))"

definition load_super :: "fs_env \<Rightarrow> int \<Rightarrow> fsstate \<Rightarrow> fsstate res" where
  "load_super env super_dev s =
     (let s0 = s\<lparr>supers := (\<lambda>n. if n < NR_SUPERS then (supers s n)\<lparr>s_dev := if n = 0 then super_dev else NO_DEV\<rparr> else supers s n)\<rparr> in
      bindr (read_super env 0 s0) (\<lambda>(r, s1).
      if r \<noteq> OK then Inl (Panic ''Invalid root file system'')
      else bindr (get_inode env super_dev ROOT_INODE s1) (\<lambda>(ripo, s2).
           bindr (deref ripo) (\<lambda>rip.
           if i_mode (inodes s2 rip) AND I_TYPE \<noteq> I_DIRECTORY \<or> i_nlinks (inodes s2 rip) < 3 then Inl (Panic ''Invalid root file system'')
           else Inr (upd_sup 0 (\<lambda>x. x\<lparr>s_imount := Some rip, s_isup := Some rip, s_rd_only := False\<rparr>) (dup_inode rip s2))))))"

text \<open>The first partition of a CD with the system; the super block read in passing is not in the table.\<close>

abbreviation (input) AT_DEV :: int where "AT_DEV \<equiv> 768"

definition cd_label :: "u8 list \<Rightarrow> bool" where
  "cd_label pvd \<longleftrightarrow> take 7 pvd = [1, 67, 68, 48, 48, 49, 1] \<and> take 5 (drop 40 pvd) = [77, 73, 78, 73, 88]"

fun cd_supers :: "fs_env \<Rightarrow> int list \<Rightarrow> fsstate \<Rightarrow> (bool \<times> fsstate) res" where
  "cd_supers env [] s = Inr (True, s)"
| "cd_supers env (dev # devs) s =
     bindr (dev_open env dev FS_PROC_NR 4 s) (\<lambda>(r, s1).
     if r \<noteq> OK then Inr (False, s1)
     else bindr (read_super env NR_SUPERS (upd_sup NR_SUPERS (\<lambda>x. x\<lparr>s_dev := dev\<rparr>) s1)) (\<lambda>(r1, s2).
          bindr (dev_close env dev s2) (\<lambda>s3. if r1 \<noteq> OK then Inr (False, s3) else cd_supers env devs s3)))"

fun cd_loop :: "fs_env \<Rightarrow> int list \<Rightarrow> fsstate \<Rightarrow> (int \<times> fsstate) res" where
  "cd_loop env [] s = Inr (NO_DEV, s)"
| "cd_loop env (m # ms) s =
     (let dev = AT_DEV + m in
      bindr (dev_open env dev FS_PROC_NR 0x10000 s) (\<lambda>(r, s1).
      if r \<noteq> OK then cd_loop env ms s1
      else bindr (dev_io env DEV_READ dev FS_PROC_NR BufMem [] 32768 2048 0 s1) (\<lambda>((n, (_, pvd)), s2).
           bindr (dev_close env dev s2) (\<lambda>s3.
           if n \<noteq> 2048 \<or> \<not> cd_label pvd then cd_loop env ms s3
           else bindr (cd_supers env [dev + 2, dev + 3] s3) (\<lambda>(ok, s4). if ok then Inr (dev + 2, s4) else cd_loop env ms s4)))))"

definition cdprobe :: "fs_env \<Rightarrow> fsstate \<Rightarrow> (int \<times> fsstate) res" where
  "cdprobe env s = cd_loop env [0, 5, 10, 15] s"

text \<open>The size of the RAM disk in KB: that of the image or of the boot parameter, as far as the bit map goes.\<close>

definition ram_size :: "super_block \<Rightarrow> u32 \<Rightarrow> u32" where
  "ram_size sp kb =
     (let bs = ucast (s_block_size sp) :: u32; scale = scale_of sp; lcount = push_bit scale (s_zones sp);
          kb1 = (if kb * 1024 < lcount * bs then lcount * bs div 1024 else kb);
          fsmax = push_bit scale (word_of_int (s_zmap_blocks sp) * 8 * bs + (ucast (s_firstdatazone sp) - 1))
      in if kb1 * 1024 > fsmax * bs then fsmax * bs div 1024 else kb1)"

text \<open>The device with the image for a RAM disk that is the root, and the size.\<close>

definition ram_image :: "fs_env \<Rightarrow> int \<Rightarrow> u32 \<Rightarrow> fsstate \<Rightarrow> ((int \<times> u32) \<times> fsstate) res" where
  "ram_image env image_dev kb s =
     (let (probe, s1) = igetenv env ''cdproberoot'' s in
      bindr (if probe \<noteq> 0 then cdprobe env s1 else Inr (NO_DEV, s1)) (\<lambda>(probedev, s2).
      let img = (if probedev \<noteq> NO_DEV then probedev else image_dev);
          s3 = (if probedev \<noteq> NO_DEV then fs_tell (RqSvrctl 7 probedev) s2 else s2)
      in bindr (dev_open env img FS_PROC_NR 4 s3) (\<lambda>(r, s4).
         if r \<noteq> OK then Inl (Panic ''Cannot open RAM image device'')
         else bindr (read_super env 0 (upd_sup 0 (\<lambda>x. x\<lparr>s_dev := img\<rparr>) s4)) (\<lambda>(r1, s5).
              if r1 \<noteq> OK then Inl (Panic ''Bad RAM disk image FS'') else Inr ((img, ram_size (supers s5 0) kb), s5)))))"

fun ram_parts :: "fs_env \<Rightarrow> u32 \<Rightarrow> nat \<Rightarrow> nat \<Rightarrow> nat list \<Rightarrow> fsstate \<Rightarrow> fsstate res" where
  "ram_parts env b0 bp bsize [] s = Inr s"
| "ram_parts env b0 bp bsize (rb # rbs) s =
     bindr (get_block env (root_dev s) (b0 + of_nat rb) NO_READ s) (\<lambda>(bp1, s1).
     let s2 = upd_buf bp1 (\<lambda>x. x\<lparr>b_data := write_bytes 0 (read_bytes (b_data (bufs s1 bp)) (of_nat (rb * bsize)) bsize) (b_data x), b_dirt := True\<rparr>) s1
     in bindr (put_block env (Some bp1) FULL_DATA_BLOCK s2) (ram_parts env b0 bp bsize rbs))"

fun ram_blocks :: "fs_env \<Rightarrow> nat \<Rightarrow> nat \<Rightarrow> u32 list \<Rightarrow> fsstate \<Rightarrow> fsstate res" where
  "ram_blocks env isize rsize [] s = Inr s"
| "ram_blocks env isize rsize (b # bs) s =
     bindr (rahead env 0 b (of_nat isize * b) (of_nat isize) s) (\<lambda>(bp, s1).
     bindr (ram_parts env (b * of_nat (isize div rsize)) bp rsize [0..<isize div rsize] s1) (\<lambda>s2.
     bindr (put_block env (Some bp) FULL_DATA_BLOCK s2) (ram_blocks env isize rsize bs)))"

text \<open>The super block of the RAM disk gets the number of zones that fit.\<close>

definition ram_resize :: "fs_env \<Rightarrow> u32 \<Rightarrow> fsstate \<Rightarrow> fsstate res" where
  "ram_resize env kb s =
     bindr (dev_io env DEV_READ (root_dev s) FS_PROC_NR BufMem [] 1024 (int MIN_BLOCK_SIZE) 0 s) (\<lambda>((_, (_, bs)), s1).
     let d = write_bytes 0 (take MIN_BLOCK_SIZE bs) (\<lambda>_. 0); sp = supers s1 0;
         bsize = (if get16i d 24 = SUPER_V3 then ucast (get16 d 28) else of_nat STATIC_BLOCK_SIZE) :: u32;
         zones = drop_bit (scale_of sp) (kb * 1024 div bsize);
         d1 = put32 20 (conv4 (s_native sp) zones) (put16 4 (conv2 (s_native sp) (ucast zones)) d)
     in bindr (dev_io env DEV_WRITE (root_dev s1) FS_PROC_NR BufMem [read_bytes d1 0 MIN_BLOCK_SIZE] 1024 (int MIN_BLOCK_SIZE) 0 s1) (\<lambda>(_, s2).
        Inr s2))"

definition ram_copy :: "fs_env \<Rightarrow> int \<Rightarrow> u32 \<Rightarrow> fsstate \<Rightarrow> fsstate res" where
  "ram_copy env image_dev kb s =
     (let s1 = upd_ino 0 (\<lambda>i. i\<lparr>i_mode := I_BLOCK_SPECIAL, i_size := 0x7FFFFFFF, i_dev := image_dev,
                 i_zone := (i_zone i)(0 := word_of_int image_dev)\<rparr>) s
      in bindr (get_block_size DEV_RAM s1) (\<lambda>rsize.
         bindr (get_block_size image_dev s1) (\<lambda>isize.
         if isize mod rsize \<noteq> 0 then Inl (Panic ''ram disk block size must be a multiple of the image disk block size'')
         else let sp = supers s1 0; lcount = push_bit (scale_of sp) (s_zones sp) in
              bindr (ram_blocks env isize rsize (map of_nat [0..<unat lcount]) s1) (\<lambda>s2.
              bindr (purge env image_dev s2) (\<lambda>s3.
              bindr (dev_close env image_dev s3) (ram_resize env kb))))))"

definition ram_mess :: "u32 \<Rightarrow> message \<Rightarrow> message" where
  "ram_mess kb m = (mset_w 0 0 (mset_w 1 1 (mset_w 2 0x40046D03 (mset_w 3 (kb * 1024) m))))\<lparr>m_type := DEV_IOCTL\<rparr>"

definition load_ram :: "fs_env \<Rightarrow> fsstate \<Rightarrow> fsstate res" where
  "load_ram env s =
     (let (root0, s1) = igetenv env ''rootdev'' s; root = sshort root0; (image_dev, s2) = igetenv env ''ramimagedev'' (s1\<lparr>root_dev := root\<rparr>);
          (kb, s3) = igetenv env ''ramsize'' s2
      in bindr (dev_open env root FS_PROC_NR 6 s3) (\<lambda>(r, s4).
         if r \<noteq> OK then Inl (Panic ''Cannot open root device'')
         else bindr (if root = DEV_RAM then ram_image env image_dev (word_of_int kb) s4 else Inr ((image_dev, word_of_int kb), s4)) (\<lambda>((img, kb1), s5).
              let (a, s6) = fs_ask env (RqSendrec 3 (ram_mess kb1 (fs_out s5)) (UserMem 0) []) s5; s7 = s6\<lparr>fs_out := a_msg a\<rparr> in
              if a_res a \<noteq> OK then Inl (Panic ''sendrec from MEM failed'')
              else if REP_STATUS (a_msg a) \<noteq> OK \<and> root = DEV_RAM then Inl (Panic ''can't set RAM disk size'')
              else if root \<noteq> DEV_RAM then Inr s7
              else ram_copy env img kb1 s7)))"

text \<open>The messages of the process manager, one for each process of the boot image.\<close>

partial_function (option) init_procs :: "fs_env \<Rightarrow> fsstate \<Rightarrow> (message \<times> fsstate) res option" where
  "init_procs env s =
     (let (a, s1) = fs_ask env (RqReceive PM_PROC_NR) s; n = int_field (a_msg a) 0 in
      if a_res a \<noteq> OK then Some (Inl (Panic ''FS couldn't receive from PM''))
      else if n = NONE then Some (Inr (a_msg a, s1))
      else if n < 0 \<or> n \<ge> NR_PROCS then Some (Inl (BadIndex n))
      else init_procs env (upd_fp n (\<lambda>p. p\<lparr>fp_pid := int_field (a_msg a) 2, fp_realuid := 0, fp_effuid := 0, fp_realgid := 0,
             fp_effgid := 0, fp_umask := NOT 0\<rparr>) s1))"

fun init_dirs :: "fs_env \<Rightarrow> int list \<Rightarrow> fsstate \<Rightarrow> fsstate res" where
  "init_dirs env [] s = Inr s"
| "init_dirs env (n # ns) s =
     bindr (if fp_pid (fprocs s n) = 0 then Inr s
            else bindr (get_inode env (root_dev s) ROOT_INODE s) (\<lambda>(ripo, s1).
                 bindr (dup_dir ripo s1) (\<lambda>s2. Inr (upd_fp n (\<lambda>p. p\<lparr>fp_rootdir := ripo, fp_workdir := ripo\<rparr>) s2))))
       (init_dirs env ns)"

text \<open>The null pointer \<open>fp\<close> is the process number \<open>NONE\<close>.\<close>

definition fs_init :: "fs_env \<Rightarrow> fsstate \<Rightarrow> fsstate res" where
  "fs_init env s =
     bindr (ran (init_procs env s)) (\<lambda>(m, s1).
     let s2 = (fs_tell (RqReply PM_PROC_NR (m\<lparr>m_type := OK\<rparr>)) s1)\<lparr>fs_fp := NONE, fs_who := FS_PROC_NR\<rparr> in
     bindr (build_dmap env (buf_pool s2)) (\<lambda>s3.
     bindr (load_ram env s3) (\<lambda>s4.
     bindr (load_super env (root_dev s4) s4) (\<lambda>s5.
     init_dirs env slots (init_select s5)))))"

end
