(* ===== verification/Fs_Sample.thy ===== *)
theory Fs_Sample
  imports Fs_State
begin

text \<open>
  The static data of the file system server before its first instruction: C clears it. The examples
  of the theories on the file system start from this state.
\<close>

definition zero_buf :: buf where
  "zero_buf = \<lparr>b_data = \<lambda>_. 0, b_next = None, b_prev = None, b_hash = None, b_blocknr = 0, b_dev = 0, b_dirt = False, b_count = 0\<rparr>"

definition zero_inode :: inode where
  "zero_inode = \<lparr>i_mode = 0, i_nlinks = 0, i_uid = 0, i_gid = 0, i_size = 0, i_atime = 0, i_mtime = 0, i_ctime = 0, i_zone = \<lambda>_. 0,
     i_dev = 0, i_num = 0, i_count = 0, i_ndzones = 0, i_nindirs = 0, i_sp = None, i_dirt = False, i_pipe = False, i_mount = False,
     i_seek = False, i_update = 0\<rparr>"

definition zero_super :: super_block where
  "zero_super = \<lparr>s_ninodes = 0, s_nzones = 0, s_imap_blocks = 0, s_zmap_blocks = 0, s_firstdatazone = 0, s_log_zone_size = 0,
     s_max_size = 0, s_zones = 0, s_magic = 0, s_block_size = 0, s_isup = None, s_imount = None, s_inodes_per_block = 0, s_dev = 0,
     s_rd_only = False, s_native = False, s_version = 0, s_ndzones = 0, s_nindirs = 0, s_isearch = 0, s_zsearch = 0\<rparr>"

definition zero_filp :: filp where
  "zero_filp = \<lparr>filp_mode = 0, filp_flags = 0, filp_count = 0, filp_ino = None, filp_pos = 0, filp_selectors = 0, filp_select_ops = 0,
     filp_pipe_select_ops = 0\<rparr>"

definition zero_fproc :: fproc where
  "zero_fproc = \<lparr>fp_umask = 0, fp_workdir = None, fp_rootdir = None, fp_filp = \<lambda>_. None, fp_realuid = 0, fp_effuid = 0, fp_realgid = 0,
     fp_effgid = 0, fp_tty = 0, fp_fd = 0, fp_buffer = 0, fp_nbytes = 0, fp_cum_io_partial = 0, fp_suspended = False, fp_revived = False,
     fp_task = 0, fp_sesldr = False, fp_pid = 0, fp_cloexec = 0\<rparr>"

definition zero_lock :: file_lock where
  "zero_lock = \<lparr>lock_type = 0, lock_pid = 0, lock_inode = None, lock_first = 0, lock_last = 0\<rparr>"

definition zero_select :: selectentry where
  "zero_select = \<lparr>requestor = None, req_procnr = 0, readfds = 0, writefds = 0, errorfds = 0, ready_readfds = 0, ready_writefds = 0,
     ready_errorfds = 0, vir_readfds = 0, vir_writefds = 0, vir_errorfds = 0, sel_filps = \<lambda>_. None, sel_type = \<lambda>_. 0, sel_nfds = 0,
     nreadyfds = 0, sel_expiry = 0\<rparr>"

definition zero_message :: message where
  "zero_message = \<lparr>m_source = 0, m_type = 0, m_w = \<lambda>_. 0\<rparr>"

definition fs_bss :: fsstate where
  "fs_bss = \<lparr>bufs = \<lambda>_. zero_buf, buf_hash = \<lambda>_. None, front = None, rear = None, bufs_in_use = 0, inodes = \<lambda>_. zero_inode,
     supers = \<lambda>_. zero_super, filps = \<lambda>_. zero_filp, fprocs = \<lambda>_. zero_fproc, file_locks = \<lambda>_. zero_lock,
     dmaps = \<lambda>_. \<lparr>dmap_opcl = NoDev, dmap_io = NoIo, dmap_driver = 0, dmap_flags = 0\<rparr>, selecttab = \<lambda>_. zero_select,
     fs_timers = \<lparr>theap = \<lambda>_. \<lparr>tmr_next = None, tmr_exp_time = 0, tmr_func = NoFsWatchdog, tmr_arg = 0\<rparr>, thead = None\<rparr>,
     fs_fp = 0, super_user = False, susp_count = 0, nr_locks = 0, reviving = 0, rdahedpos = 0, rdahed_inode = None, root_dev = 0,
     fs_boottime = 0, fs_in = zero_message, fs_out = zero_message, fs_who = 0, fs_call_nr = 0, user_path = [], err_code = 0,
     rdwt_err = 0, fs_log = []\<rparr>"

text \<open>Drivers, processes and the system task that answer \<open>OK\<close> and transfer nothing.\<close>

definition quiet_env :: fs_env where
  "quiet_env = (\<lambda>_ _. \<lparr>a_res = 0, a_msg = zero_message, a_words = [], a_bytes = []\<rparr>)"

end
