(* ===== verification/Fs_Lru.thy ===== *)
theory Fs_Lru
  imports Fs_Cache Pm_Alloc Fs_Sample
begin

unbundle bit_operations_syntax

text \<open>
  The buffer cache as a least recently used queue over a set of buffers.
\<close>

section \<open>Drivers leave the tables alone\<close>

definition io_view :: "fsstate \<Rightarrow> _" where
  "io_view s = (bufs s, buf_hash s, front s, rear s, bufs_in_use s, supers s, inodes s, filps s, dmaps s, fs_fp s)"

lemma io_viewD:
  assumes "io_view s' = io_view s"
  shows "bufs s' = bufs s" "buf_hash s' = buf_hash s" "front s' = front s" "rear s' = rear s"
    "bufs_in_use s' = bufs_in_use s" "supers s' = supers s" "inodes s' = inodes s" "filps s' = filps s"
  using assms by (simp_all add: io_view_def)

lemma io_view_upd [simp]:
  "io_view (fs_tell r s) = io_view s" "io_view (upd_fp n f s) = io_view s" "io_view (reply w e s) = io_view s"
  "io_view (suspend t s) = io_view s" "io_view (s\<lparr>reviving := k\<rparr>) = io_view s" "io_view (s\<lparr>rdwt_err := e\<rparr>) = io_view s"
  by (simp_all add: io_view_def fs_tell_def upd_fp_def reply_def suspend_def Let_def)

lemma revive_view: "revive p r s = Inr s' \<Longrightarrow> io_view s' = io_view s"
  by (auto simp: revive_def Let_def split: if_splits)

definition views :: "('a \<times> fsstate) res \<Rightarrow> fsstate \<Rightarrow> bool" where
  "views y s \<longleftrightarrow> (\<forall>x s'. y = Inr (x, s') \<longrightarrow> io_view s' = io_view s)"

lemma views_simps [simp]: "views (Inl e) s" "views (Inr (x, s')) s \<longleftrightarrow> io_view s' = io_view s"
  by (auto simp: views_def)

lemma views_bindr: "views y s \<Longrightarrow> (\<And>x s'. y = Inr (x, s') \<Longrightarrow> io_view s' = io_view s \<Longrightarrow> views (f (x, s')) s) \<Longrightarrow> views (bindr y f) s"
  by (cases y) (auto simp: views_def)

lemma views_same: "views y s' \<Longrightarrow> io_view s' = io_view s \<Longrightarrow> views y s"
  by (simp add: views_def)

lemma gen_send_view: "gen_send env t m adr dat s = Some y \<Longrightarrow> views y s"
proof (rule gen_send.raw_induct [where P = "\<lambda>env t m adr dat s y. views y s"], goal_cases)
  case (1 f env t m adr dat s y)
  from 1(3) show ?case
    by (auto simp: fs_ask_tell Let_def split: if_splits sum.splits dest!: 1(2) dest: revive_view elim!: views_same)
qed

lemma gen_wait_view: "gen_wait env t p r m bs s = Some y \<Longrightarrow> views y s"
proof (rule gen_wait.raw_induct [where P = "\<lambda>env t p r m bs s y. views y s"], goal_cases)
  case (1 f env t p r m bs s y)
  from 1(3) show ?case
    by (auto simp: fs_ask_tell Let_def split: if_splits sum.splits dest!: 1(2) dest: revive_view elim!: views_same)
qed

lemma ran_views: "(\<And>y. x = Some y \<Longrightarrow> views y s) \<Longrightarrow> views (ran x) s"
  by (cases x) auto

lemma ran_gen_views [simp]: "views (ran (gen_send env t m adr dat s)) s" "views (ran (gen_wait env t p r m bs s)) s"
  by (blast intro: ran_views gen_send_view gen_wait_view)+

lemma gen_io_view: "views (gen_io env t m adr dat s) s"
  unfolding gen_io_def Let_def
  by (auto intro!: views_bindr split: option.splits) (blast intro: views_same ran_gen_views)

lemma call_io_view: "views (call_io env io t m adr dat s) s"
  by (auto simp: call_io_def ctty_io_def Let_def dmap_at_def gen_io_view split: io_fun.splits)

lemma dev_io_view: "views (dev_io env op dev p adr dat pos n fl s) s"
  unfolding dev_io_def dmap_at_def Let_def
  by (auto intro!: views_bindr call_io_view intro: views_same [OF call_io_view])

section \<open>The chain of free buffers\<close>

definition bnx :: "fsstate \<Rightarrow> nat \<Rightarrow> nat option" where "bnx s b = b_next (bufs s b)"
definition bpv :: "fsstate \<Rightarrow> nat \<Rightarrow> nat option" where "bpv s b = b_prev (bufs s b)"
definition bhx :: "fsstate \<Rightarrow> nat \<Rightarrow> nat option" where "bhx s b = b_hash (bufs s b)"

lemma links_upd [simp]:
  "bnx (upd_buf p f s) = (bnx s)(p := b_next (f (bufs s p)))"
  "bpv (upd_buf p f s) = (bpv s)(p := b_prev (f (bufs s p)))"
  "bhx (upd_buf p f s) = (bhx s)(p := b_hash (f (bufs s p)))"
  "bnx (s\<lparr>front := q\<rparr>) = bnx s" "bnx (s\<lparr>rear := q\<rparr>) = bnx s" "bnx (s\<lparr>bufs_in_use := n\<rparr>) = bnx s" "bnx (s\<lparr>buf_hash := h\<rparr>) = bnx s"
  "bpv (s\<lparr>front := q\<rparr>) = bpv s" "bpv (s\<lparr>rear := q\<rparr>) = bpv s" "bpv (s\<lparr>bufs_in_use := n\<rparr>) = bpv s" "bpv (s\<lparr>buf_hash := h\<rparr>) = bpv s"
  "bhx (s\<lparr>front := q\<rparr>) = bhx s" "bhx (s\<lparr>rear := q\<rparr>) = bhx s" "bhx (s\<lparr>bufs_in_use := n\<rparr>) = bhx s" "bhx (s\<lparr>buf_hash := h\<rparr>) = bhx s"
  by (auto simp: bnx_def bpv_def bhx_def)

lemma links_fold: "b_next (bufs s b) = bnx s b" "b_prev (bufs s b) = bpv s b" "b_hash (bufs s b) = bhx s b"
  by (simp_all add: bnx_def bpv_def bhx_def)

lemma links_same [simp]: "(bnx s)(p := bnx s p) = bnx s" "(bpv s)(p := bpv s p) = bpv s" "(bhx s)(p := bhx s p) = bhx s"
  by simp_all

definition lru_rep :: "nat list \<Rightarrow> fsstate \<Rightarrow> bool" where
  "lru_rep xs s \<longleftrightarrow> chain (bnx s) (front s) xs \<and> chain (bpv s) (rear s) (rev xs)"

lemma lru_rep_distinct: "lru_rep xs s \<Longrightarrow> distinct xs"
  by (auto simp: lru_rep_def dest: chain_distinct)

lemma lru_rep_ends: "lru_rep xs s \<Longrightarrow> front s = head_opt xs \<and> rear s = head_opt (rev xs)"
  using chain_head unfolding lru_rep_def by metis

lemma lru_rep_links:
  assumes "lru_rep (ys @ x # zs) s"
  shows "bnx s x = head_opt zs" "bpv s x = head_opt (rev ys)"
  using assms by (auto simp: lru_rep_def dest!: chain_head)

lemma rm_lru_rep:
  assumes "lru_rep (ys @ x # zs) s"
  shows "lru_rep (ys @ zs) (rm_lru x s)"
proof -
  note d = lru_rep_distinct [OF assms] and lk = lru_rep_links [OF assms]
  have c: "chain (bnx s) (front s) (ys @ x # zs)" "chain (bpv s) (rear s) (rev zs @ x # rev ys)"
    using assms by (simp_all add: lru_rep_def)
  show ?thesis
  proof (cases "ys = []")
    case True
    then show ?thesis using d lk c by (cases zs) (auto simp: rm_lru_def Let_def lru_rep_def links_fold)
  next
    case False
    then obtain vs t where ys: "ys = vs @ [t]" by (metis rev_exhaust)
    then show ?thesis using d lk c by (cases zs) (auto simp: rm_lru_def Let_def lru_rep_def links_fold)
  qed
qed

lemma lru_front_rep:
  assumes "lru_rep xs s" and "x \<notin> set xs"
  shows "lru_rep (x # xs) (lru_front x s)"
  using assms lru_rep_ends [OF assms(1)] lru_rep_distinct [OF assms(1)]
  by (cases xs) (auto simp: lru_front_def Let_def lru_rep_def links_fold)

lemma lru_rear_rep:
  assumes "lru_rep xs s" and "x \<notin> set xs"
  shows "lru_rep (xs @ [x]) (lru_rear x s)"
  using assms lru_rep_ends [OF assms(1)] lru_rep_distinct [OF assms(1)]
  by (cases xs rule: rev_cases) (auto simp: lru_rear_def Let_def lru_rep_def links_fold)

section \<open>The hash chains\<close>

definition hash_rep :: "nat set \<Rightarrow> (nat \<Rightarrow> nat list) \<Rightarrow> fsstate \<Rightarrow> bool" where
  "hash_rep B hs s \<longleftrightarrow> (\<forall>h < NR_BUF_HASH. chain (bhx s) (buf_hash s h) (hs h) \<and>
     set (hs h) = {b \<in> B. hash_of (b_blocknr (bufs s b)) = h})"

lemma hash_of_less [simp]: "hash_of b < 2048"
proof -
  have "b AND 0x7FF \<le> (0x7FF :: u32)" by (rule word_and_le1)
  then have "unat (b AND 0x7FF) \<le> unat (0x7FF :: u32)" by (simp only: word_le_nat_alt)
  then show ?thesis by (simp add: hash_of_def)
qed

lemma hash_find_chain:
  "chain (bhx s) p xs \<Longrightarrow> hash_find dev block p s = Some (find (\<lambda>b. b_blocknr (bufs s b) = block \<and> b_dev (bufs s b) = dev) xs)"
  by (induction xs arbitrary: p) (auto simp: hash_find.simps links_fold)

text \<open>What the hash chains do not touch.\<close>

definition core :: "buf \<Rightarrow> _" where
  "core b = (b_data b, b_blocknr b, b_dev b, b_dirt b, b_count b)"

definition cores :: "fsstate \<Rightarrow> nat \<Rightarrow> _" where
  "cores s b = core (bufs s b)"

lemma coresD:
  assumes "cores s' b = cores s b"
  shows "b_data (bufs s' b) = b_data (bufs s b)" "b_blocknr (bufs s' b) = b_blocknr (bufs s b)" "b_dev (bufs s' b) = b_dev (bufs s b)"
    "b_dirt (bufs s' b) = b_dirt (bufs s b)" "b_count (bufs s' b) = b_count (bufs s b)"
  using assms by (simp_all add: cores_def core_def)

lemma cores_upd [simp]:
  "cores (upd_buf p f s) = (cores s)(p := core (f (bufs s p)))" "cores (s\<lparr>buf_hash := h\<rparr>) = cores s"
  "cores (s\<lparr>front := q\<rparr>) = cores s" "cores (s\<lparr>rear := q\<rparr>) = cores s" "cores (s\<lparr>bufs_in_use := n\<rparr>) = cores s"
  by (auto simp: cores_def)

lemma core_links [simp]:
  "core (b\<lparr>b_hash := q\<rparr>) = core b" "core (b\<lparr>b_next := q\<rparr>) = core b" "core (b\<lparr>b_prev := q\<rparr>) = core b"
  by (simp_all add: core_def)

lemma cores_same [simp]: "(cores s)(p := core (bufs s p)) = cores s"
  by (auto simp: cores_def)

definition heads :: "fsstate \<Rightarrow> _" where
  "heads s = (front s, rear s, bufs_in_use s, supers s, inodes s, filps s)"

lemma hash_unlink_from_chain:
  "chain (bhx s) (Some t) (t # us @ x # vs) \<Longrightarrow>
     hash_unlink_from (Some t) x s = Some (Inr (upd_buf (last (t # us)) (\<lambda>b. b\<lparr>b_hash := bhx s x\<rparr>) s))"
proof (induction us arbitrary: t)
  case Nil
  then show ?case by (simp add: hash_unlink_from.simps [of "Some t"] links_fold)
next
  case (Cons u us)
  have "x \<noteq> u" using chain_distinct [OF Cons.prems] by auto
  then show ?case using Cons by (simp add: hash_unlink_from.simps [of "Some t"] links_fold)
qed

lemma hash_unlink_rep:
  assumes "hash_rep B hs s" and "x \<in> B"
  shows "\<exists>s' hs'. hash_unlink x s = Inr s' \<and> hash_rep (B - {x}) hs' s' \<and> cores s' = cores s \<and> bnx s' = bnx s \<and> bpv s' = bpv s \<and> heads s' = heads s"
proof -
  let ?h = "hash_of (b_blocknr (bufs s x))"
  have c: "chain (bhx s) (buf_hash s h) (hs h)" "set (hs h) = {b \<in> B. hash_of (b_blocknr (bufs s b)) = h}" if "h < 2048" for h
    using assms(1) that by (simp_all add: hash_rep_def)
  obtain us vs where l: "hs ?h = us @ x # vs" using c(2) [of ?h] assms(2) by (auto dest!: equalityD2 subsetD split_list)
  have d: "distinct (us @ x # vs)" using chain_distinct [OF c(1) [of ?h]] l by simp
  have ch: "chain (bhx s) (buf_hash s ?h) (us @ x # vs)" and sh: "set (us @ x # vs) = {b \<in> B. hash_of (b_blocknr (bufs s b)) = ?h}"
    using c [of ?h] l by simp_all
  show ?thesis
  proof (cases us)
    case Nil
    let ?s = "s\<lparr>buf_hash := (buf_hash s)(?h := b_hash (bufs s x))\<rparr>"
    have "hash_unlink x s = Inr ?s" using c(1) [of ?h] l Nil by (simp add: hash_unlink_def Let_def)
    moreover have "hash_rep (B - {x}) (hs(?h := vs)) ?s"
      unfolding hash_rep_def
    proof (intro allI impI)
      fix h assume "h < (2048 :: nat)"
      then show "chain (bhx ?s) (buf_hash ?s h) ((hs(?h := vs)) h) \<and>
          set ((hs(?h := vs)) h) = {b \<in> B - {x}. hash_of (b_blocknr (bufs ?s b)) = h}"
        using ch sh d c [of h] Nil by (cases "h = ?h") (auto simp: links_fold)
    qed
    ultimately show ?thesis by (intro exI [of _ ?s]) (auto simp: heads_def)
  next
    case (Cons t ws)
    let ?p = "last us" let ?s = "upd_buf ?p (\<lambda>b. b\<lparr>b_hash := bhx s x\<rparr>) s"
    have "hash_unlink x s = Inr ?s"
      using c(1) [of ?h] l Cons d hash_unlink_from_chain [of s t ws x vs] by (simp add: hash_unlink_def Let_def)
    moreover have "hash_rep (B - {x}) (hs(?h := us @ vs)) ?s"
    proof -
      have "?p \<in> set (hs ?h)" using l Cons by simp
      then have ph: "hash_of (b_blocknr (bufs s ?p)) = ?h" using c(2) [of ?h] by auto
      have "chain ((bhx s)(?p := bhx s x)) (buf_hash s ?h) (us @ vs)"
        using c(1) [of ?h] l Cons chain_unlink [of "bhx s" "buf_hash s ?h" "butlast us" "?p" x vs] by (metis append.assoc append_Cons append_Nil append_butlast_last_id hash_of_less list.distinct(1))
      moreover have "?p \<notin> set (hs h)" if "h < 2048" "h \<noteq> ?h" for h using c(2) [OF that(1)] ph that by auto
      moreover have "b_blocknr (bufs ?s b) = b_blocknr (bufs s b)" for b by (simp add: upd_buf_def)
      ultimately show ?thesis
        unfolding hash_rep_def
      proof (intro allI impI, goal_cases)
        case (1 h)
        then show ?case using ch sh d c [of h] by (cases "h = ?h") (auto simp: lseg_frame)
      qed
    qed
    ultimately show ?thesis by (intro exI [of _ ?s]) (auto simp: heads_def cores_def links_fold)
  qed
qed

lemma hash_link_rep:
  assumes "hash_rep B hs s" and "x \<notin> B"
  shows "\<exists>hs'. hash_rep (insert x B) hs' (hash_link x s)"
proof -
  let ?h = "hash_of (b_blocknr (bufs s x))"
  have "hash_rep (insert x B) (hs(?h := x # hs ?h)) (hash_link x s)"
    using assms unfolding hash_rep_def hash_link_def Let_def by (auto simp: links_fold)
  then show ?thesis by blast
qed

lemma hash_link_frame: "cores (hash_link x s) = cores s" "bnx (hash_link x s) = bnx s" "bpv (hash_link x s) = bpv s" "heads (hash_link x s) = heads s"
  by (auto simp: hash_link_def Let_def heads_def bnx_def bpv_def cores_def core_def)


section \<open>Transfers keep the cache\<close>

text \<open>
  A transfer may drop a buffer's device, when the driver reports an error, and clears dirty
  marks; with \<open>D\<close> empty it changes no data.
\<close>

definition settled :: "nat set \<Rightarrow> fsstate \<Rightarrow> fsstate \<Rightarrow> bool" where
  "settled D s s' \<longleftrightarrow> bnx s' = bnx s \<and> bpv s' = bpv s \<and> bhx s' = bhx s \<and> buf_hash s' = buf_hash s \<and> heads s' = heads s \<and>
     (\<forall>b. b_blocknr (bufs s' b) = b_blocknr (bufs s b) \<and> b_count (bufs s' b) = b_count (bufs s b) \<and>
          (b_dev (bufs s' b) = b_dev (bufs s b) \<or> b_dev (bufs s' b) = NO_DEV) \<and>
          (b \<notin> D \<longrightarrow> b_data (bufs s' b) = b_data (bufs s b)))"

lemma settled_refl [simp]: "settled D s s"
  by (simp add: settled_def)

lemma settled_trans: "settled D s s' \<Longrightarrow> settled D s' s'' \<Longrightarrow> settled D s s''"
  unfolding settled_def by metis

lemma settled_view: "io_view s' = io_view s \<Longrightarrow> settled D s s'"
  by (simp add: io_view_def settled_def bnx_def bpv_def bhx_def heads_def fun_eq_iff)

lemma settled_upd:
  assumes "settled D s s1"
  shows "settled D s (upd_buf p (\<lambda>b. b\<lparr>b_dev := NO_DEV\<rparr>) s1)" "settled D s (upd_buf p (\<lambda>b. b\<lparr>b_dirt := d\<rparr>) s1)"
    "p \<in> D \<Longrightarrow> settled D s (upd_buf p (\<lambda>b. b\<lparr>b_data := f b\<rparr>) s1)" "settled D s (s1\<lparr>rdwt_err := e\<rparr>)"
  using assms by (auto simp: settled_def heads_def links_fold fun_eq_iff) (simp_all add: bnx_def bpv_def bhx_def)

definition settles :: "nat set \<Rightarrow> fsstate \<Rightarrow> fsstate res \<Rightarrow> bool" where
  "settles D s y \<longleftrightarrow> (\<forall>s'. y = Inr s' \<longrightarrow> settled D s s')"

lemma settles_simps [simp]: "settles D s (Inl e)" "settles D s (Inr s') \<longleftrightarrow> settled D s s'"
  by (auto simp: settles_def)

lemma settles_bind: "(\<And>x. y = Inr x \<Longrightarrow> settles D s (f x)) \<Longrightarrow> settles D s (bindr y f)"
  by (cases y) auto

lemma rw_block_settles:
  assumes "rw = WRITING \<or> bp \<in> D"
  shows "settles D s (rw_block env bp rw s)"
  unfolding rw_block_def Let_def
proof (intro settles_bind, goal_cases)
  case (1 n x)
  obtain r ws bs s1 where x: "x = ((r, ws, bs), s1)" by (metis prod.collapse)
  have v: "settled D s s1" using dev_io_view 1(2) unfolding x views_def by (metis settled_view)
  show ?case unfolding x using assms
    by (auto intro!: settled_upd v)
qed

lemma harvest_settled: "settled {} s (snd (harvest WRITING dev r i q s))"
proof (induction q arbitrary: i s)
  case (Cons a q)
  obtain bp sz where a: "a = (bp, sz)" by (cases a)
  show ?case using Cons [of "upd_buf bp (\<lambda>b. b\<lparr>b_dirt := False\<rparr>) s" "i + 1"]
    by (auto simp: a intro: settled_upd settled_trans [OF settled_upd(2) [OF settled_refl]])
qed simp

lemma rw_run_settled: "rw_run env dev n WRITING q s = Inr (i, s') \<Longrightarrow> settled {} s s'"
proof -
  assume r: "rw_run env dev n WRITING q s = Inr (i, s')"
  show "settled {} s s'"
  proof (cases "dev_io env DEV_SCATTER dev FS_PROC_NR BufMem (map (\<lambda>b. block_bytes n (bufs s b)) (take (run_length (\<lambda>b. b_blocknr (bufs s b)) q) q))
      (b_blocknr (bufs s (q ! 0)) * of_nat n) (int (run_length (\<lambda>b. b_blocknr (bufs s b)) q)) 0 s")
    case (Inr y)
    obtain e ws bs s1 where y: "y = ((e, ws, bs), s1)" by (metis prod.collapse)
    have "settled {} s s1" using dev_io_view Inr unfolding y views_def by (metis settled_view)
    then show ?thesis using r Inr harvest_settled settled_trans unfolding rw_run_def Let_def y
      by (simp add: prod_eq_iff) (metis snd_conv)
  qed (use r in \<open>simp add: rw_run_def Let_def\<close>)
qed

lemma rw_loop_settles: "settles {} s (rw_loop_scat env dev n WRITING q s)"
proof (induction "length q" arbitrary: q s rule: less_induct)
  case less
  show ?case
  proof (cases "rw_run env dev n WRITING q s")
    case (Inr y)
    obtain i s1 where y: "y = (i, s1)" by (cases y)
    have v: "settled {} s s1" using Inr y by (auto intro: rw_run_settled)
    have "settles {} s1 (rw_loop_scat env dev n WRITING (drop i q) s1)" if "q \<noteq> []" "0 < i" using that by (intro less) simp
    then show ?thesis using Inr v settled_trans [OF v]
      by (subst rw_loop_scat.simps) (auto simp: y Let_def settles_def)
  qed (subst rw_loop_scat.simps, simp)
qed

lemma flushall_settles: "settles {} s (flushall env dev s)"
  unfolding flushall_def rw_scattered_def by (intro settles_bind rw_loop_settles)

section \<open>The cache\<close>

definition one_each :: "fsstate \<Rightarrow> bool" where
  "one_each s \<longleftrightarrow> (\<forall>b < NR_BUFS. \<forall>c < NR_BUFS. b_dev (bufs s b) \<noteq> NO_DEV \<longrightarrow>
     b_dev (bufs s c) = b_dev (bufs s b) \<longrightarrow> b_blocknr (bufs s c) = b_blocknr (bufs s b) \<longrightarrow> c = b)"

definition cache_rep :: "nat list \<Rightarrow> fsstate \<Rightarrow> bool" where
  "cache_rep xs s \<longleftrightarrow> lru_rep xs s \<and> set xs = {b. b < NR_BUFS \<and> b_count (bufs s b) = 0} \<and>
     (\<exists>hs. hash_rep {..<NR_BUFS} hs s) \<and> one_each s \<and> (\<forall>b < NR_BUFS. b_count (bufs s b) \<in> {0..127}) \<and>
     bufs_in_use s = int NR_BUFS - int (length xs)"

definition cached :: "int \<Rightarrow> u32 \<Rightarrow> fsstate \<Rightarrow> nat option" where
  "cached dev block s = find (\<lambda>b. b_dev (bufs s b) = dev \<and> b_blocknr (bufs s b) = block) [0..<NR_BUFS]"

lemma cached_SomeD: "cached dev block s = Some b \<Longrightarrow> b < NR_BUFS \<and> b_dev (bufs s b) = dev \<and> b_blocknr (bufs s b) = block"
  by (auto simp: cached_def find_Some_iff)

lemma cached_None: "cached dev block s = None \<longleftrightarrow> (\<forall>b < NR_BUFS. \<not> (b_dev (bufs s b) = dev \<and> b_blocknr (bufs s b) = block))"
  by (auto simp: cached_def find_None_iff)

lemma cached_unique:
  assumes "one_each s" "b < NR_BUFS" "b_dev (bufs s b) = dev" "b_blocknr (bufs s b) = block" "dev \<noteq> NO_DEV"
  shows "cached dev block s = Some b"
proof (cases "cached dev block s")
  case None
  then show ?thesis using assms by (auto simp: cached_None)
next
  case (Some c)
  then show ?thesis using assms cached_SomeD [OF Some] unfolding one_each_def by metis
qed

lemma hash_find_cached:
  assumes "hash_rep {..<NR_BUFS} hs s" "one_each s" "dev \<noteq> NO_DEV"
  shows "hash_find dev block (buf_hash s (hash_of block)) s = Some (cached dev block s)"
proof -
  let ?P = "\<lambda>b. b_blocknr (bufs s b) = block \<and> b_dev (bufs s b) = dev"
  have c: "chain (bhx s) (buf_hash s (hash_of block)) (hs (hash_of block))"
    "set (hs (hash_of block)) = {b \<in> {..<NR_BUFS}. hash_of (b_blocknr (bufs s b)) = hash_of block}"
    using assms(1) by (simp_all add: hash_rep_def)
  have "find ?P (hs (hash_of block)) = cached dev block s"
  proof (cases "find ?P (hs (hash_of block))")
    case None
    then show ?thesis using c(2) cached_None [of dev block s] by (auto simp: find_None_iff)
  next
    case (Some b)
    then have "b \<in> set (hs (hash_of block))" "?P b" by (auto simp: find_Some_iff)
    then show ?thesis using Some c(2) cached_unique [OF assms(2), of b dev block] assms(3) by auto
  qed
  then show ?thesis using hash_find_chain [OF c(1)] by simp
qed

lemma lru_rep_cong: "bnx s' = bnx s \<Longrightarrow> bpv s' = bpv s \<Longrightarrow> front s' = front s \<Longrightarrow> rear s' = rear s \<Longrightarrow> lru_rep xs s' = lru_rep xs s"
  by (simp add: lru_rep_def)

lemma hash_rep_cong:
  "bhx s' = bhx s \<Longrightarrow> buf_hash s' = buf_hash s \<Longrightarrow> (\<And>b. b \<in> B \<Longrightarrow> b_blocknr (bufs s' b) = b_blocknr (bufs s b)) \<Longrightarrow> hash_rep B hs s' = hash_rep B hs s"
  unfolding hash_rep_def by (metis (no_types, lifting) Collect_cong)

lemma settled_rep:
  assumes "settled D s s'"
  shows "lru_rep xs s' = lru_rep xs s" "hash_rep B hs s' = hash_rep B hs s" "one_each s \<Longrightarrow> one_each s'"
    "b_count (bufs s' b) = b_count (bufs s b)" "b_blocknr (bufs s' b) = b_blocknr (bufs s b)" "bufs_in_use s' = bufs_in_use s"
    "b_dev (bufs s' b) = b_dev (bufs s b) \<or> b_dev (bufs s' b) = NO_DEV"
    "b \<notin> D \<Longrightarrow> b_data (bufs s' b) = b_data (bufs s b)"
proof -
  note a = assms [unfolded settled_def heads_def]
  show "lru_rep xs s' = lru_rep xs s" using a by (simp add: lru_rep_def)
  show "hash_rep B hs s' = hash_rep B hs s" using a by (simp add: hash_rep_def)
  show "one_each s \<Longrightarrow> one_each s'" using a unfolding one_each_def by metis
qed (use assms in \<open>simp_all add: settled_def heads_def\<close>)

lemma settled_cache: "settled D s s' \<Longrightarrow> cache_rep xs s \<Longrightarrow> cache_rep xs s'"
  unfolding cache_rep_def using settled_rep by (metis (no_types, lifting) Collect_cong)

lemma rm_lru_frame [simp]: "cores (rm_lru bp s) = cores s" "bhx (rm_lru bp s) = bhx s" "buf_hash (rm_lru bp s) = buf_hash s"
  "bufs_in_use (rm_lru bp s) = bufs_in_use s + 1" "fs_log (rm_lru bp s) = fs_log s"
  by (auto simp: rm_lru_def Let_def cores_def links_fold split: option.splits)

lemma lru_frame [simp]: "cores (lru_front bp s) = cores s" "bhx (lru_front bp s) = bhx s" "buf_hash (lru_front bp s) = buf_hash s"
  "bufs_in_use (lru_front bp s) = bufs_in_use s" "fs_log (lru_front bp s) = fs_log s"
  "cores (lru_rear bp s) = cores s" "bhx (lru_rear bp s) = bhx s" "buf_hash (lru_rear bp s) = buf_hash s"
  "bufs_in_use (lru_rear bp s) = bufs_in_use s" "fs_log (lru_rear bp s) = fs_log s"
  by (auto simp: lru_front_def lru_rear_def Let_def cores_def links_fold core_def split: option.splits)


lemma cores_fields:
  assumes "cores s' = cores s"
  shows "b_data (bufs s' b) = b_data (bufs s b)" "b_blocknr (bufs s' b) = b_blocknr (bufs s b)" "b_dev (bufs s' b) = b_dev (bufs s b)"
    "b_dirt (bufs s' b) = b_dirt (bufs s b)" "b_count (bufs s' b) = b_count (bufs s b)"
  using coresD [of s' b s] assms by simp_all

lemma rm_lru_fields [simp]:
  "b_data (bufs (rm_lru p s) b) = b_data (bufs s b)" "b_blocknr (bufs (rm_lru p s) b) = b_blocknr (bufs s b)"
  "b_dev (bufs (rm_lru p s) b) = b_dev (bufs s b)" "b_dirt (bufs (rm_lru p s) b) = b_dirt (bufs s b)"
  "b_count (bufs (rm_lru p s) b) = b_count (bufs s b)"
  by (rule cores_fields, simp)+

lemma hash_rep_rm_lru [simp]: "hash_rep B hs (rm_lru p s) = hash_rep B hs s"
  by (rule hash_rep_cong) simp_all

lemma one_each_cong: "(\<And>b. b < NR_BUFS \<Longrightarrow> b_dev (bufs s' b) = b_dev (bufs s b) \<and> b_blocknr (bufs s' b) = b_blocknr (bufs s b)) \<Longrightarrow> one_each s' = one_each s"
  unfolding one_each_def by metis

lemma use_buf_fields [simp]:
  "bnx (use_buf p s) = bnx s" "bpv (use_buf p s) = bpv s" "bhx (use_buf p s) = bhx s" "buf_hash (use_buf p s) = buf_hash s"
  "front (use_buf p s) = front s" "rear (use_buf p s) = rear s" "bufs_in_use (use_buf p s) = bufs_in_use s"
  "b_dev (bufs (use_buf p s) b) = b_dev (bufs s b)" "b_blocknr (bufs (use_buf p s) b) = b_blocknr (bufs s b)"
  "b_data (bufs (use_buf p s) b) = b_data (bufs s b)" "b_dirt (bufs (use_buf p s) b) = b_dirt (bufs s b)"
  "b_count (bufs (use_buf p s) b) = (if b = p then schar (b_count (bufs s p) + 1) else b_count (bufs s b))"
  "fs_log (use_buf p s) = fs_log s"
  by (simp_all add: use_buf_def links_fold)

lemma lru_rep_remove1: "lru_rep xs s \<Longrightarrow> x \<in> set xs \<Longrightarrow> lru_rep (remove1 x xs) (rm_lru x s)"
proof -
  assume a: "lru_rep xs s" "x \<in> set xs"
  then obtain ys zs where xs: "xs = ys @ x # zs" by (meson split_list)
  have "x \<notin> set ys" using lru_rep_distinct [OF a(1)] xs by simp
  then have "remove1 x xs = ys @ zs" by (simp add: xs remove1_append)
  then show ?thesis using rm_lru_rep a(1) unfolding xs by metis
qed

lemma use_hit:
  assumes "cache_rep xs s" and "bp < NR_BUFS" and "b_count (bufs s bp) < 127"
  shows "cache_rep (remove1 bp xs) (use_buf bp (if b_count (bufs s bp) = 0 then rm_lru bp s else s))" (is "cache_rep _ ?s")
proof -
  note a = assms(1) [unfolded cache_rep_def]
  have p: "0 \<le> b_count (bufs s bp)" and m: "bp \<in> set xs \<longleftrightarrow> b_count (bufs s bp) = 0" using a assms(2) by auto
  then have c: "schar (b_count (bufs s bp) + 1) = b_count (bufs s bp) + 1" using assms(3) by (intro schar_id) auto
  have d: "distinct xs" using a lru_rep_distinct by auto
  obtain hs where h: "hash_rep {..<NR_BUFS} hs s" using a by auto
  have "lru_rep (remove1 bp xs) ?s"
    using a m lru_rep_remove1 [of xs s bp] by (cases "bp \<in> set xs") (simp_all add: lru_rep_def remove1_idem)
  moreover have "hash_rep {..<NR_BUFS} hs ?s" using h by (subst hash_rep_cong [of _ s]) auto
  moreover have "one_each ?s" using a by (subst one_each_cong [of _ s]) auto
  moreover have "bufs_in_use ?s = int NR_BUFS - int (length (remove1 bp xs))"
  proof (cases "bp \<in> set xs")
    case True
    then have "length xs = Suc (length (remove1 bp xs))"
      using length_pos_if_in_set [OF True] by (simp add: length_remove1)
    then show ?thesis using a m True by simp
  next
    case False
    then have "b_count (bufs s bp) \<noteq> 0" using m by blast
    then show ?thesis using a False by (simp add: remove1_idem)
  qed
  moreover have "set (remove1 bp xs) = {b. b < NR_BUFS \<and> b_count (bufs ?s b) = 0}"
    using a d c p by auto
  ultimately show ?thesis using a p c assms(3) unfolding cache_rep_def by auto
qed

lemma take_victim:
  assumes "cache_rep (x # ys) s"
  shows "\<exists>s1 hs. front s = Some x \<and> x < NR_BUFS \<and> hash_unlink x (rm_lru x s) = Inr s1 \<and> lru_rep ys s1 \<and> hash_rep ({..<NR_BUFS} - {x}) hs s1 \<and>
    cores s1 = cores s \<and> bufs_in_use s1 = bufs_in_use s + 1"
proof -
  have l: "lru_rep (x # ys) s" and x: "x < NR_BUFS" and "\<exists>hs. hash_rep {..<NR_BUFS} hs (rm_lru x s)"
    using assms unfolding cache_rep_def by auto
  then obtain s1 hs' where 1: "hash_unlink x (rm_lru x s) = Inr s1" "hash_rep ({..<NR_BUFS} - {x}) hs' s1" "cores s1 = cores (rm_lru x s)"
      "bnx s1 = bnx (rm_lru x s)" "bpv s1 = bpv (rm_lru x s)" "heads s1 = heads (rm_lru x s)"
    using hash_unlink_rep by (metis lessThan_iff)
  have "lru_rep ys (rm_lru x s)" using l rm_lru_rep [of "[]" x ys s] by simp
  then have "lru_rep ys s1" using 1(4-6) by (simp add: heads_def lru_rep_def)
  moreover have "front s = Some x" using lru_rep_ends [OF l] by simp
  moreover have "bufs_in_use s1 = bufs_in_use s + 1" using 1(6) by (simp add: heads_def)
  ultimately show ?thesis using 1 x by auto
qed

lemma fill_victim:
  assumes "cache_rep (x # ys) s" and "cached dev block s = None \<or> dev = NO_DEV"
    and "lru_rep ys s1" and "hash_rep ({..<NR_BUFS} - {x}) hs s1" and "cores s1 = cores s" and "bufs_in_use s1 = bufs_in_use s + 1"
    and "settled {} s1 s2" and s3: "s3 = hash_link x (use_buf x (upd_buf x (\<lambda>b. b\<lparr>b_dev := dev, b_blocknr := block\<rparr>) s2))"
  shows "cache_rep ys s3" "b_dev (bufs s3 x) = dev" "b_blocknr (bufs s3 x) = block" "b_count (bufs s3 x) = 1"
    "b \<noteq> x \<Longrightarrow> b_data (bufs s3 b) = b_data (bufs s b) \<and> b_blocknr (bufs s3 b) = b_blocknr (bufs s b) \<and>
      b_count (bufs s3 b) = b_count (bufs s b) \<and> b_dev (bufs s3 b) \<in> {b_dev (bufs s b), NO_DEV}"
proof -
  have a: "set (x # ys) = {b. b < NR_BUFS \<and> b_count (bufs s b) = 0}" "one_each s" "\<forall>b < NR_BUFS. b_count (bufs s b) \<in> {0..127}"
      "bufs_in_use s = int NR_BUFS - int (length (x # ys))" and l: "lru_rep (x # ys) s"
    using assms(1) unfolding cache_rep_def by auto
  let ?t = "use_buf x (upd_buf x (\<lambda>b. b\<lparr>b_dev := dev, b_blocknr := block\<rparr>) s2)"
  note st = settled_rep [OF assms(7)]
  have f3: "cores s3 = cores ?t" "bnx s3 = bnx ?t" "bpv s3 = bpv ?t" "heads s3 = heads ?t" unfolding s3 by (rule hash_link_frame)+
  note f = cores_fields [OF f3(1)] and f1 = cores_fields [OF assms(5)]
  have x: "x < NR_BUFS" "b_count (bufs s x) = 0" "x \<notin> set ys" using a(1) lru_rep_distinct [OF l] by auto
  show o: "b \<noteq> x \<Longrightarrow> b_data (bufs s3 b) = b_data (bufs s b) \<and> b_blocknr (bufs s3 b) = b_blocknr (bufs s b) \<and>
      b_count (bufs s3 b) = b_count (bufs s b) \<and> b_dev (bufs s3 b) \<in> {b_dev (bufs s b), NO_DEV}" for b
    using st(4,5,7,8) [of b] f [of b] f1 [of b] by auto
  show w: "b_dev (bufs s3 x) = dev" "b_blocknr (bufs s3 x) = block" "b_count (bufs s3 x) = 1"
    using f [of x] f1 [of x] st(4) [of x] x by (simp_all add: schar_id)
  have "hash_rep ({..<NR_BUFS} - {x}) hs ?t" using assms(4) st(2) by (subst hash_rep_cong [of _ s2]) (auto simp: links_fold)
  then have "\<exists>hs. hash_rep {..<NR_BUFS} hs s3" using hash_link_rep [of "{..<NR_BUFS} - {x}" hs ?t x] x unfolding s3 by (simp add: insert_absorb)
  moreover have "lru_rep ys s3" using assms(3) st(1) f3 by (auto simp: lru_rep_def heads_def links_fold)
  moreover have "bufs_in_use s3 = int NR_BUFS - int (length ys)" using f3(4) st(6) assms(6) a(4) by (simp add: heads_def)
  moreover have "set ys = {b. b < NR_BUFS \<and> b_count (bufs s3 b) = 0}"
  proof -
    have "b_count (bufs s3 b) = (if b = x then 1 else b_count (bufs s b))" for b using o w by auto
    then show ?thesis using a(1) x by auto
  qed
  moreover have "b_count (bufs s3 b) \<in> {0..127}" if "b < NR_BUFS" for b using that o [of b] w(3) a(3) by (cases "b = x") auto
  moreover have "one_each s3"
    unfolding one_each_def
  proof (intro allI impI, goal_cases)
    case (1 b c)
    have e: "e = x" if "e < NR_BUFS" "b_dev (bufs s3 e) = dev" "b_blocknr (bufs s3 e) = block" "dev \<noteq> NO_DEV" for e
      using that o [of e] assms(2) unfolding cached_None by (cases "e = x") auto
    show ?case
    proof (cases "b = x \<or> c = x")
      case True
      then have "b_dev (bufs s3 x) \<noteq> NO_DEV" "b_dev (bufs s3 b) = b_dev (bufs s3 x)" "b_blocknr (bufs s3 b) = b_blocknr (bufs s3 x)"
          "b_dev (bufs s3 c) = b_dev (bufs s3 x)" "b_blocknr (bufs s3 c) = b_blocknr (bufs s3 x)" using 1 by auto
      then have "b = x" "c = x" using 1 e [of b] e [of c] unfolding w by blast+
      then show ?thesis by simp
    next
      case False
      then have "b_dev (bufs s b) \<noteq> NO_DEV" "b_dev (bufs s c) = b_dev (bufs s b)" "b_blocknr (bufs s c) = b_blocknr (bufs s b)"
        using 1 o [of b] o [of c] by auto
      then show ?thesis using 1 a(2) unfolding one_each_def by blast
    qed
  qed
  ultimately show "cache_rep ys s3" unfolding cache_rep_def by blast
qed


lemma get_block_found:
  assumes "cache_rep xs s" and "dev \<noteq> NO_DEV" and "cached dev block s = Some b"
  shows "get_block env dev block mode s = Inr (b, use_buf b (if b_count (bufs s b) = 0 then rm_lru b s else s))"
proof -
  obtain hs where "hash_rep {..<NR_BUFS} hs s" "one_each s" using assms(1) unfolding cache_rep_def by blast
  from hash_find_cached [OF this assms(2), of block] show ?thesis using assms(2,3) by (simp add: get_block_def)
qed

lemma get_block_new:
  assumes "cache_rep xs s" and "cached dev block s = None \<or> dev = NO_DEV"
  shows "get_block env dev block mode s = get_free_buf env dev block mode s"
proof (cases "dev = NO_DEV")
  case False
  obtain hs where "hash_rep {..<NR_BUFS} hs s" "one_each s" using assms(1) unfolding cache_rep_def by blast
  from hash_find_cached [OF this False, of block] show ?thesis using assms(2) False by (simp add: get_block_def)
qed (simp add: get_block_def)

text \<open>What the new buffer and the others are after a miss.\<close>

definition refilled :: "int \<Rightarrow> u32 \<Rightarrow> search \<Rightarrow> nat \<Rightarrow> fsstate \<Rightarrow> fsstate \<Rightarrow> bool" where
  "refilled dev block mode x s s' \<longleftrightarrow>
     b_blocknr (bufs s' x) = block \<and> b_count (bufs s' x) = 1 \<and>
     (case mode of NORMAL \<Rightarrow> b_dev (bufs s' x) \<in> {dev, NO_DEV} | NO_READ \<Rightarrow> b_dev (bufs s' x) = dev | PREFETCH \<Rightarrow> b_dev (bufs s' x) = NO_DEV) \<and>
     (\<forall>b. b \<noteq> x \<longrightarrow> b_data (bufs s' b) = b_data (bufs s b) \<and> b_blocknr (bufs s' b) = b_blocknr (bufs s b) \<and>
        b_count (bufs s' b) = b_count (bufs s b) \<and> b_dev (bufs s' b) \<in> {b_dev (bufs s b), NO_DEV})"

lemma get_free_buf_outcome:
  assumes "cache_rep (x # ys) s" and "cached dev block s = None \<or> dev = NO_DEV"
  shows "get_free_buf env dev block mode s = Inr (bp, s') \<Longrightarrow> bp = x \<and> cache_rep ys s' \<and> refilled dev block mode x s s'"
    and "(b_dev (bufs s x) = NO_DEV \<or> \<not> b_dirt (bufs s x)) \<Longrightarrow> mode \<noteq> NORMAL \<Longrightarrow> \<exists>s'. get_free_buf env dev block mode s = Inr (x, s')"
proof -
  obtain s1 hs where 1: "front s = Some x" "x < NR_BUFS" "hash_unlink x (rm_lru x s) = Inr s1" "lru_rep ys s1"
      "hash_rep ({..<NR_BUFS} - {x}) hs s1" "cores s1 = cores s" "bufs_in_use s1 = bufs_in_use s + 1"
    using take_victim [OF assms(1)] by blast
  note fill = fill_victim [OF assms 1(4-7)]
  let ?fl = "if b_dev (bufs s1 x) \<noteq> NO_DEV \<and> b_dirt (bufs s1 x) then flushall env (b_dev (bufs s1 x)) s1 else Inr s1"
  show "\<exists>s'. get_free_buf env dev block mode s = Inr (x, s')" if "b_dev (bufs s x) = NO_DEV \<or> \<not> b_dirt (bufs s x)" "mode \<noteq> NORMAL"
    using that 1 cores_fields [OF 1(6)] by (cases mode) (auto simp: get_free_buf_def Let_def)
  assume r: "get_free_buf env dev block mode s = Inr (bp, s')"
  then obtain s2 where 2: "?fl = Inr s2" using 1 by (auto simp: get_free_buf_def bindr_Inr_iff)
  have st: "settled {} s1 s2" using 2 flushall_settles [of s1 env "b_dev (bufs s1 x)"] by (auto split: if_splits)
  define s3 where "s3 = hash_link x (use_buf x (upd_buf x (\<lambda>b. b\<lparr>b_dev := dev, b_blocknr := block\<rparr>) s2))"
  note f = fill [OF st s3_def]
  have s': "bp = x \<and> settled {x} s3 s' \<and> (mode = PREFETCH \<longrightarrow> b_dev (bufs s' x) = NO_DEV) \<and> (mode = NO_READ \<longrightarrow> b_dev (bufs s' x) = dev)"
  proof (cases mode)
    case NORMAL
    then show ?thesis using r 1 2 f(2) rw_block_settles [of READING x "{x}" s3 env] unfolding s3_def
      by (auto simp: get_free_buf_def Let_def bindr_Inr_iff split: if_splits)
  qed (use r 1 2 f(2) in \<open>auto simp: get_free_buf_def Let_def s3_def bindr_Inr_iff split: if_splits intro!: settled_upd\<close>)
  then have "cache_rep ys s'" using settled_cache f(1) by blast
  moreover have "refilled dev block mode x s s'"
    unfolding refilled_def
  proof (intro conjI allI impI)
    show "b_blocknr (bufs s' x) = block" "b_count (bufs s' x) = 1" using s' settled_rep(4,5) [of "{x}" s3 s' x] f(3,4) by auto
    show "case mode of NORMAL \<Rightarrow> b_dev (bufs s' x) \<in> {dev, NO_DEV} | NO_READ \<Rightarrow> b_dev (bufs s' x) = dev | PREFETCH \<Rightarrow> b_dev (bufs s' x) = NO_DEV"
      using s' settled_rep(7) [of "{x}" s3 s' x] f(2) by (auto split: search.splits)
  next
    fix b assume "b \<noteq> x"
    then show "b_data (bufs s' b) = b_data (bufs s b)" "b_blocknr (bufs s' b) = b_blocknr (bufs s b)"
        "b_count (bufs s' b) = b_count (bufs s b)" "b_dev (bufs s' b) \<in> {b_dev (bufs s b), NO_DEV}"
      using s' f(5) [of b] settled_rep(4,5,7,8) [of "{x}" s3 s' b] by auto
  qed
  ultimately show "bp = x \<and> cache_rep ys s' \<and> refilled dev block mode x s s'" using s' by blast
qed


section \<open>Giving a block back\<close>

lemma put_lru_frame:
  "hash_rep B hs (put_lru bp ty s) = hash_rep B hs s" "fs_log (put_lru bp ty s) = fs_log s"
  "b_data (bufs (put_lru bp ty s) b) = b_data (bufs s b)" "b_blocknr (bufs (put_lru bp ty s) b) = b_blocknr (bufs s b)"
  "b_dev (bufs (put_lru bp ty s) b) = b_dev (bufs s b)" "b_dirt (bufs (put_lru bp ty s) b) = b_dirt (bufs s b)"
  "b_count (bufs (put_lru bp ty s) b) = (if b = bp then schar (b_count (bufs s bp) - 1) else b_count (bufs s b))"
proof -
  have f: "cores (put_lru bp ty s) = (cores s)(bp := core ((bufs s bp)\<lparr>b_count := schar (b_count (bufs s bp) - 1)\<rparr>))"
      "bhx (put_lru bp ty s) = bhx s" "buf_hash (put_lru bp ty s) = buf_hash s" "fs_log (put_lru bp ty s) = fs_log s"
    by (auto simp: put_lru_def Let_def links_fold)
  then show "fs_log (put_lru bp ty s) = fs_log s" by simp
  have "cores (put_lru bp ty s) b = cores (upd_buf bp (\<lambda>b. b\<lparr>b_count := schar (b_count b - 1)\<rparr>) s) b" for b using f(1) by simp
  note c = coresD [OF this]
  show "hash_rep B hs (put_lru bp ty s) = hash_rep B hs s" using f(2,3) c(2) by (intro hash_rep_cong) auto
  show "b_data (bufs (put_lru bp ty s) b) = b_data (bufs s b)" "b_blocknr (bufs (put_lru bp ty s) b) = b_blocknr (bufs s b)"
    "b_dev (bufs (put_lru bp ty s) b) = b_dev (bufs s b)" "b_dirt (bufs (put_lru bp ty s) b) = b_dirt (bufs s b)"
    "b_count (bufs (put_lru bp ty s) b) = (if b = bp then schar (b_count (bufs s bp) - 1) else b_count (bufs s b))"
    using c [of b] by auto
qed

text \<open>Where the buffer goes on the chain of free buffers.\<close>

definition given_back :: "nat \<Rightarrow> u32 \<Rightarrow> fsstate \<Rightarrow> nat list \<Rightarrow> nat list" where
  "given_back bp ty s xs =
     (if b_count (bufs s bp) \<noteq> 1 then xs
      else if b_dev (bufs s bp) = DEV_RAM \<or> ty AND ONE_SHOT \<noteq> 0 then bp # xs else xs @ [bp])"

lemma put_lru_rep:
  assumes "cache_rep xs s" and "bp < NR_BUFS" and "0 < b_count (bufs s bp)"
  shows "cache_rep (given_back bp ty s xs) (put_lru bp ty s)"
proof -
  have l: "lru_rep xs s" and x: "set xs = {b. b < NR_BUFS \<and> b_count (bufs s b) = 0}" and h: "\<exists>hs. hash_rep {..<NR_BUFS} hs s" and o: "one_each s"
      and n: "\<forall>b < NR_BUFS. b_count (bufs s b) \<in> {0..127}" and u: "bufs_in_use s = int NR_BUFS - int (length xs)"
    using assms(1) unfolding cache_rep_def by auto
  have c: "schar (b_count (bufs s bp) - 1) = b_count (bufs s bp) - 1" using n assms(2,3) by (intro schar_id) auto
  have nx: "bp \<notin> set xs" using x assms(3) by auto
  let ?s = "upd_buf bp (\<lambda>b. b\<lparr>b_count := schar (b_count b - 1)\<rparr>) s"
  have ls: "lru_rep xs ?s" "lru_rep xs (?s\<lparr>bufs_in_use := m\<rparr>)" for m using l by (simp_all add: lru_rep_def links_fold)
  have "lru_rep (given_back bp ty s xs) (put_lru bp ty s)"
    unfolding put_lru_def given_back_def Let_def
    by (simp add: c lru_front_rep [OF ls(2) nx] lru_rear_rep [OF ls(2) nx] ls(1))
  moreover have "bufs_in_use (put_lru bp ty s) = int NR_BUFS - int (length (given_back bp ty s xs))"
    using u c by (simp add: put_lru_def given_back_def Let_def)
  moreover have "set (given_back bp ty s xs) = {b. b < NR_BUFS \<and> b_count (bufs (put_lru bp ty s) b) = 0}"
  proof -
    have "b < NR_BUFS \<and> b_count (bufs (put_lru bp ty s) b) = 0 \<longleftrightarrow> b \<in> set xs \<or> (b = bp \<and> b_count (bufs s bp) = 1)" for b
      using assms(2,3) unfolding x put_lru_frame(7) c by auto
    then show ?thesis by (auto simp: given_back_def)
  qed
  moreover have "b_count (bufs (put_lru bp ty s) b) \<in> {0..127}" if "b < NR_BUFS" for b
    using n that c assms(2,3) by (cases "b = bp") (auto simp: put_lru_frame)
  moreover have "one_each (put_lru bp ty s)" using o by (subst one_each_cong [of _ s]) (simp_all add: put_lru_frame)
  ultimately show ?thesis using h unfolding cache_rep_def by (auto simp: put_lru_frame)
qed

lemma put_block_outcome:
  assumes "cache_rep xs s" and "bp < NR_BUFS" and "0 < b_count (bufs s bp)"
  shows "put_block env (Some bp) ty s = Inr s' \<Longrightarrow> cache_rep (given_back bp ty s xs) s'"
    and "ty AND WRITE_IMMED = 0 \<Longrightarrow> put_block env (Some bp) ty s = Inr (put_lru bp ty s)"
  using put_lru_rep [OF assms, of ty] rw_block_settles [of WRITING bp "{}" "put_lru bp ty s" env]
  by (auto simp: put_block_def Let_def settles_def dest: settled_cache split: if_splits)

section \<open>The empty pool\<close>

lemma buf_pool_rep:
  assumes "\<And>h. h < NR_BUF_HASH \<Longrightarrow> buf_hash s h = None" and "\<And>b. b < NR_BUFS \<Longrightarrow> b_count (bufs s b) = 0"
  shows "cache_rep [0..<NR_BUFS] (buf_pool s)"
proof -
  let ?s = "buf_pool s"
  have l: "bnx ?s x = (if Suc x < NR_BUFS then Some (Suc x) else None)" "bhx ?s x = (if Suc x < NR_BUFS then Some (Suc x) else None)"
      "bpv ?s x = (if x = 0 then None else Some (x - 1))" "bufs_in_use ?s = 0" "front ?s = Some 0" "rear ?s = Some 1279"
      "buf_hash ?s = (buf_hash s)(0 := Some 0)" "b_dev (bufs ?s x) = NO_DEV" "b_blocknr (bufs ?s x) = NO_BLOCK" "b_count (bufs ?s x) = 0" if "x < NR_BUFS" for x
    using that assms(2) by (auto simp: bnx_def bhx_def bpv_def buf_pool_def Let_def)
  have bk: "chain (bpv ?s) (if n = 0 then None else Some (n - 1)) (rev [0..<n])" if "n \<le> NR_BUFS" for n
    using that by (induction n) (auto simp: l(3))
  have f: "chain (bnx ?s) (Some 0) [0..<NR_BUFS]" "chain (bhx ?s) (Some 0) [0..<NR_BUFS]" by (rule chain_upt; simp add: l)+
  have "lru_rep [0..<NR_BUFS] ?s" using f(1) bk [of NR_BUFS] by (simp add: lru_rep_def l(5,6) [of 0])
  moreover have "hash_rep {..<NR_BUFS} (\<lambda>h. if h = 0 then [0..<NR_BUFS] else []) ?s"
    using f(2) assms(1) unfolding hash_rep_def by (auto simp: l hash_of_def l(7) [of 0])
  ultimately show ?thesis unfolding cache_rep_def one_each_def using l(4) [of 0] by (auto simp: l)
qed


lemma buf_pool_bss: "cache_rep [0..<NR_BUFS] (buf_pool fs_bss)"
  by (rule buf_pool_rep) (simp_all add: fs_bss_def zero_buf_def)

lemma get_hit:
  assumes "cache_rep xs s" and "dev \<noteq> NO_DEV" and "b < NR_BUFS" and "b_dev (bufs s b) = dev" and "b_blocknr (bufs s b) = block"
    and "b_count (bufs s b) < 127"
  shows "\<exists>s'. get_block env dev block mode s = Inr (b, s') \<and> cache_rep (remove1 b xs) s' \<and> fs_log s' = fs_log s \<and>
    cores s' = (cores s)(b := core ((bufs s b)\<lparr>b_count := b_count (bufs s b) + 1\<rparr>))"
proof -
  have u: "one_each s" and n: "0 \<le> b_count (bufs s b)" using assms(1,3) unfolding cache_rep_def by auto
  let ?s1 = "if b_count (bufs s b) = 0 then rm_lru b s else s"
  have c: "cores ?s1 = cores s" "fs_log ?s1 = fs_log s" by simp_all
  have "core ((bufs ?s1 b)\<lparr>b_count := schar (b_count (bufs ?s1 b) + 1)\<rparr>) = core ((bufs s b)\<lparr>b_count := b_count (bufs s b) + 1\<rparr>)"
    using cores_fields [OF c(1), of b] n assms(6) by (simp add: core_def schar_id)
  then have "cores (use_buf b ?s1) = (cores s)(b := core ((bufs s b)\<lparr>b_count := b_count (bufs s b) + 1\<rparr>))"
    unfolding use_buf_def cores_upd c(1) by simp
  then show ?thesis
    using get_block_found [OF assms(1,2) cached_unique [OF u assms(3-5,2)]] use_hit [OF assms(1,3,6)] c(2) by auto
qed

section \<open>What users of the cache rely on\<close>

text \<open>
  The interface: blocks that are in the cache are got and put back without trouble, and in between
  the user may write them. \<open>data\<close> is what a buffer holds, \<open>rest\<close> what the cache must leave alone.
\<close>

locale block_cache =
  fixes rep :: "'s \<Rightarrow> bool" and buffer :: "'b \<Rightarrow> bool" and real :: "'d \<Rightarrow> bool" and lim :: int
    and block :: "'s \<Rightarrow> 'b \<Rightarrow> 'd \<times> 'n" and data :: "'s \<Rightarrow> 'b \<Rightarrow> 'm" and users :: "'s \<Rightarrow> 'b \<Rightarrow> int" and rest :: "'s \<Rightarrow> 'r"
    and get :: "'d \<Rightarrow> 'n \<Rightarrow> 's \<Rightarrow> ('b \<times> 's) res" and modify :: "'b \<Rightarrow> ('m \<Rightarrow> 'm) \<Rightarrow> 's \<Rightarrow> 's" and put :: "'b \<Rightarrow> 's \<Rightarrow> 's res"
  assumes get_law: "rep s \<Longrightarrow> buffer b \<Longrightarrow> block s b = (d, n) \<Longrightarrow> real d \<Longrightarrow> users s b < lim \<Longrightarrow>
      \<exists>s1. get d n s = Inr (b, s1) \<and> rep s1 \<and> block s1 = block s \<and> data s1 = data s \<and> users s1 = (users s)(b := users s b + 1) \<and> rest s1 = rest s"
    and put_law: "rep s \<Longrightarrow> buffer b \<Longrightarrow> 0 < users s b \<Longrightarrow>
      \<exists>s1. put b s = Inr s1 \<and> rep s1 \<and> block s1 = block s \<and> data s1 = data s \<and> users s1 = (users s)(b := users s b - 1) \<and> rest s1 = rest s"
    and modify_law: "rep (modify b f s) = rep s" "block (modify b f s) = block s" "data (modify b f s) = (data s)(b := f (data s b))"
      "users (modify b f s) = users s" "rest (modify b f s) = rest s"
    and users_law: "rep s \<Longrightarrow> buffer b \<Longrightarrow> 0 \<le> users s b"
begin

lemma session:
  assumes "rep s" and "buffer b" and "block s b = (d, n)" and "real d" and "users s b < lim"
  shows "\<exists>s1. get d n s = Inr (b, s1) \<and> data s1 = data s \<and>
    (\<forall>f. \<exists>s2. put b (modify b f s1) = Inr s2 \<and> rep s2 \<and> block s2 = block s \<and> data s2 = (data s)(b := f (data s b)) \<and> users s2 = users s \<and> rest s2 = rest s)"
proof -
  obtain s1 where s1: "get d n s = Inr (b, s1)" "rep s1" "block s1 = block s" "data s1 = data s" "users s1 = (users s)(b := users s b + 1)" "rest s1 = rest s"
    using get_law [OF assms] by blast
  have "0 < users s1 b" using s1(5) users_law [OF assms(1,2)] by simp
  then have "\<exists>s2. put b (modify b f s1) = Inr s2 \<and> rep s2 \<and> block s2 = block s \<and> data s2 = (data s)(b := f (data s b)) \<and> users s2 = users s \<and> rest s2 = rest s" for f
    using put_law [of "modify b f s1" b] s1 assms(2) by (auto simp: modify_law)
  then show ?thesis using s1 by blast
qed

lemma again:
  assumes "rep s" and "buffer b" and "block s b = (d, n)" and "real d" and "0 < users s b" and "users s b \<le> lim"
  shows "\<exists>s1 s2. put b s = Inr s1 \<and> get d n s1 = Inr (b, s2) \<and> rep s2 \<and> block s2 = block s \<and> data s2 = data s \<and> users s2 = users s \<and> rest s2 = rest s"
proof -
  obtain s1 where s1: "put b s = Inr s1" "rep s1" "block s1 = block s" "data s1 = data s" "users s1 = (users s)(b := users s b - 1)" "rest s1 = rest s"
    using put_law [OF assms(1,2,5)] by blast
  then show ?thesis using get_law [of s1 b d n] assms by auto
qed

end

definition contents :: "fsstate \<Rightarrow> nat \<Rightarrow> mem \<times> bool" where
  "contents s b = (b_data (bufs s b), b_dirt (bufs s b))"

definition block_of :: "fsstate \<Rightarrow> nat \<Rightarrow> int \<times> u32" where
  "block_of s b = (b_dev (bufs s b), b_blocknr (bufs s b))"

definition users_of :: "fsstate \<Rightarrow> nat \<Rightarrow> int" where
  "users_of s b = b_count (bufs s b)"

definition write_buf :: "nat \<Rightarrow> (mem \<times> bool \<Rightarrow> mem \<times> bool) \<Rightarrow> fsstate \<Rightarrow> fsstate" where
  "write_buf b f = upd_buf b (\<lambda>x. x\<lparr>b_data := fst (f (b_data x, b_dirt x)), b_dirt := snd (f (b_data x, b_dirt x))\<rparr>)"

lemma cache_rep_data: "cache_rep xs (write_buf b f s) = cache_rep xs s"
proof -
  let ?s = "write_buf b f s"
  have "lru_rep xs ?s = lru_rep xs s" by (simp add: lru_rep_def write_buf_def links_fold)
  moreover have "hash_rep B hs ?s = hash_rep B hs s" for B hs by (rule hash_rep_cong) (auto simp: write_buf_def links_fold)
  moreover have "one_each ?s = one_each s" by (rule one_each_cong) (simp add: write_buf_def)
  moreover have "b_count (bufs ?s c) = b_count (bufs s c)" "bufs_in_use ?s = bufs_in_use s" for c by (simp_all add: write_buf_def)
  ultimately show ?thesis unfolding cache_rep_def by simp
qed

lemma lru_supers [simp]: "supers (rm_lru p s) = supers s" "supers (use_buf p s) = supers s" "supers (put_lru p ty s) = supers s"
  by (auto simp: rm_lru_def use_buf_def put_lru_def lru_front_def lru_rear_def Let_def split: option.splits)

lemma get_hit_supers:
  assumes "cache_rep xs s" and "dev \<noteq> NO_DEV" and "b < NR_BUFS" and "b_dev (bufs s b) = dev" and "b_blocknr (bufs s b) = n"
    and "get_block env dev n mode s = Inr (b, s1)"
  shows "supers s1 = supers s"
  using assms(6) get_block_found [OF assms(1,2)] cached_unique [OF _ assms(3-5,2)] assms(1) unfolding cache_rep_def by (auto split: if_splits)

lemma cores_views: "cores s1 = (cores s)(b := core ((bufs s b)\<lparr>b_count := k\<rparr>)) \<Longrightarrow>
    block_of s1 = block_of s \<and> contents s1 = contents s \<and> users_of s1 = (users_of s)(b := k)"
  by (auto simp: fun_eq_iff block_of_def contents_def users_of_def cores_def core_def split: if_splits)

interpretation bc: block_cache "\<lambda>s. \<exists>xs. cache_rep xs s" "\<lambda>b. b < NR_BUFS" "\<lambda>d. d \<noteq> NO_DEV" 127 block_of contents users_of
    "\<lambda>s. (supers s, fs_log s)" "\<lambda>d n. get_block env d n mode" write_buf "\<lambda>b. put_block env (Some b) (ty AND NOT WRITE_IMMED)" for env mode ty
proof unfold_locales
  fix s b d n
  assume c: "\<exists>xs. cache_rep xs s" and b: "b < NR_BUFS" "block_of s b = (d, n)" "d \<noteq> NO_DEV" "users_of s b < 127"
  obtain xs where xs: "cache_rep xs s" using c by blast
  have e: "b_dev (bufs s b) = d" "b_blocknr (bufs s b) = n" "b_count (bufs s b) < 127" using b by (simp_all add: block_of_def users_of_def)
  obtain s1 where s1: "get_block env d n mode s = Inr (b, s1)" "cache_rep (remove1 b xs) s1" "fs_log s1 = fs_log s"
      "cores s1 = (cores s)(b := core ((bufs s b)\<lparr>b_count := b_count (bufs s b) + 1\<rparr>))"
    using get_hit [OF xs b(3,1) e] by blast
  have "block_of s1 = block_of s \<and> contents s1 = contents s \<and> users_of s1 = (users_of s)(b := users_of s b + 1)"
    using cores_views [OF s1(4)] by (simp add: users_of_def)
  then show "\<exists>s1. get_block env d n mode s = Inr (b, s1) \<and> (\<exists>xs. cache_rep xs s1) \<and> block_of s1 = block_of s \<and> contents s1 = contents s \<and>
      users_of s1 = (users_of s)(b := users_of s b + 1) \<and> (supers s1, fs_log s1) = (supers s, fs_log s)"
    using s1 get_hit_supers [OF xs b(3,1) e(1,2) s1(1)] by blast
next
  fix s b
  assume c: "\<exists>xs. cache_rep xs s" and b: "b < NR_BUFS" "0 < users_of s b"
  obtain xs where xs: "cache_rep xs s" using c by blast
  have p: "0 < b_count (bufs s b)" using b(2) by (simp add: users_of_def)
  have n: "b_count (bufs s b) \<le> 127" using xs b(1) unfolding cache_rep_def by auto
  let ?t = "ty AND NOT WRITE_IMMED"
  have w: "?t AND WRITE_IMMED = 0" by (simp add: and.assoc)
  have "block_of (put_lru b ?t s) = block_of s" "contents (put_lru b ?t s) = contents s" "users_of (put_lru b ?t s) = (users_of s)(b := users_of s b - 1)"
    using p n by (auto simp: fun_eq_iff block_of_def contents_def users_of_def put_lru_frame schar_id)
  then show "\<exists>s1. put_block env (Some b) ?t s = Inr s1 \<and> (\<exists>xs. cache_rep xs s1) \<and> block_of s1 = block_of s \<and> contents s1 = contents s \<and>
      users_of s1 = (users_of s)(b := users_of s b - 1) \<and> (supers s1, fs_log s1) = (supers s, fs_log s)"
    using put_block_outcome(2) [OF xs b(1) p w] put_lru_rep [OF xs b(1) p] by (auto simp: put_lru_frame)
next
  fix b f s
  show "(\<exists>xs. cache_rep xs (write_buf b f s)) = (\<exists>xs. cache_rep xs s)" by (simp add: cache_rep_data)
  show "block_of (write_buf b f s) = block_of s" "contents (write_buf b f s) = (contents s)(b := f (contents s b))" "users_of (write_buf b f s) = users_of s"
      "(supers (write_buf b f s), fs_log (write_buf b f s)) = (supers s, fs_log s)"
    by (auto simp: fun_eq_iff write_buf_def block_of_def contents_def users_of_def)
next
  fix s b
  show "\<exists>xs. cache_rep xs s \<Longrightarrow> b < NR_BUFS \<Longrightarrow> 0 \<le> users_of s b" unfolding cache_rep_def users_of_def by auto
qed

section \<open>Properties\<close>

text \<open>Histories of the cache: blocks are got, and blocks in use are put back.\<close>

inductive cache_run :: "fs_env \<Rightarrow> fsstate \<Rightarrow> fsstate \<Rightarrow> bool" for env s0 where
  start: "cache_run env s0 (buf_pool s0)"
| get: "cache_run env s0 s \<Longrightarrow> (\<And>b. b < NR_BUFS \<Longrightarrow> b_count (bufs s b) < 127) \<Longrightarrow>
        get_block env dev block mode s = Inr (bp, s') \<Longrightarrow> cache_run env s0 s'"
| put: "cache_run env s0 s \<Longrightarrow> bp < NR_BUFS \<Longrightarrow> 0 < b_count (bufs s bp) \<Longrightarrow>
        put_block env (Some bp) ty s = Inr s' \<Longrightarrow> cache_run env s0 s'"

lemma get_block_rep:
  assumes "cache_rep xs s" and "\<And>b. b < NR_BUFS \<Longrightarrow> b_count (bufs s b) < 127" and "get_block env dev block mode s = Inr (bp, s')"
  shows "\<exists>ys. cache_rep ys s'"
proof (cases "cached dev block s = None \<or> dev = NO_DEV")
  case True
  then have r: "get_free_buf env dev block mode s = Inr (bp, s')" using get_block_new assms by metis
  show ?thesis
  proof (cases xs)
    case Nil
    then have "front s = None" using assms(1) lru_rep_ends unfolding cache_rep_def by fastforce
    then show ?thesis using r by (simp add: get_free_buf_def)
  next
    case (Cons x ys)
    then show ?thesis using get_free_buf_outcome(1) [OF _ True r] assms(1) by blast
  qed
next
  case False
  then obtain b where b: "cached dev block s = Some b" "dev \<noteq> NO_DEV" by auto
  then show ?thesis using get_block_found [OF assms(1) b(2,1)] use_hit [OF assms(1)] cached_SomeD [OF b(1)] assms(2,3) by (metis Pair_inject sum.inject(2))
qed

text \<open>
  C30: the invariant of the buffer cache. Whatever blocks are got and put back after the pool was
  made, and whatever the drivers answer, the free buffers, and only they, are on the doubly linked
  LRU chain, once each; every buffer is on the hash chain of its block number; no block of a device
  is in two buffers; and the count of the buffers in use is right.
\<close>

theorem cache_invariant:
  assumes "cache_run env s0 s" and "\<And>h. h < NR_BUF_HASH \<Longrightarrow> buf_hash s0 h = None" and "\<And>b. b < NR_BUFS \<Longrightarrow> b_count (bufs s0 b) = 0"
  shows "\<exists>xs. cache_rep xs s"
  using assms(1)
proof induction
  case start
  then show ?case using buf_pool_rep [OF assms(2,3)] by blast
next
  case get
  then show ?case using get_block_rep by blast
next
  case put
  then show ?case using put_block_outcome(1) by blast
qed

lemma pool_bss_first: "cache_rep (0 # [Suc 0..<NR_BUFS]) (buf_pool fs_bss)"
  using buf_pool_bss upt_conv_Cons [OF zero_less_numeral] by metis

lemma get_new_bss: "\<exists>s'. get_block quiet_env 3 7 NO_READ (buf_pool fs_bss) = Inr (0, s')"
proof -
  have c: "cache_rep (0 # [Suc 0..<NR_BUFS]) (buf_pool fs_bss)" by (rule pool_bss_first)
  have "cached 3 7 (buf_pool fs_bss) = None" by (simp add: cached_None buf_pool_def Let_def)
  then have m: "cached 3 7 (buf_pool fs_bss) = None \<or> (3 :: int) = NO_DEV" by blast
  have "b_dev (bufs (buf_pool fs_bss) 0) = NO_DEV" by (simp add: buf_pool_def Let_def)
  then show ?thesis using get_free_buf_outcome(2) [OF c m] get_block_new [OF c m] by (metis search.distinct(1))
qed

theorem cache_invariant_witness:
  "\<exists>s xs. cache_run quiet_env fs_bss s \<and> s \<noteq> buf_pool fs_bss \<and> cache_rep xs s"
proof -
  obtain s where s: "get_block quiet_env 3 7 NO_READ (buf_pool fs_bss) = Inr (0, s)" using get_new_bss by blast
  then have r: "cache_run quiet_env fs_bss s" by (intro get [OF start]) (auto simp: buf_pool_def Let_def fs_bss_def zero_buf_def)
  then have "\<exists>xs. cache_rep xs s" by (rule cache_invariant) (simp_all add: fs_bss_def zero_buf_def)
  moreover have "s \<noteq> buf_pool fs_bss"
  proof -
    have m: "cached 3 7 (buf_pool fs_bss) = None \<or> (3 :: int) = NO_DEV" by (simp add: cached_None buf_pool_def Let_def)
    have "get_free_buf quiet_env 3 7 NO_READ (buf_pool fs_bss) = Inr (0, s)" using get_block_new [OF buf_pool_bss m] s by metis
    then have "b_count (bufs s 0) = 1" using get_free_buf_outcome(1) [OF pool_bss_first m] unfolding refilled_def by blast
    then show ?thesis by (auto simp: buf_pool_def Let_def fs_bss_def zero_buf_def)
  qed
  ultimately show ?thesis using r by blast
qed

definition sample_cache :: fsstate where
  "sample_cache = upd_buf 4 (\<lambda>b. b\<lparr>b_dev := 3\<rparr>) (buf_pool fs_bss)"

lemma sample_cache_rep: "cache_rep [0..<NR_BUFS] sample_cache"
proof -
  let ?s = "buf_pool fs_bss"
  have l: "lru_rep [0..<NR_BUFS] ?s" and st: "set [0..<NR_BUFS] = {b. b < NR_BUFS \<and> b_count (bufs ?s b) = 0}"
      and u: "bufs_in_use ?s = int NR_BUFS - int (length [0..<NR_BUFS])" and h: "\<exists>hs. hash_rep {..<NR_BUFS} hs ?s"
    using buf_pool_bss unfolding cache_rep_def by blast+
  have f: "b_count (bufs sample_cache b) = b_count (bufs ?s b)" "b_blocknr (bufs sample_cache b) = b_blocknr (bufs ?s b)"
      "b_dev (bufs sample_cache b) = (if b = 4 then 3 else b_dev (bufs ?s b))" for b
    by (simp_all add: sample_cache_def)
  have z: "b_dev (bufs ?s b) = 0" "b_count (bufs ?s b) = 0" if "b < NR_BUFS" for b
    using that by (simp_all add: buf_pool_def Let_def fs_bss_def zero_buf_def)
  have "lru_rep [0..<NR_BUFS] sample_cache" using l unfolding lru_rep_def sample_cache_def links_upd by (simp add: links_fold del: upt_rec_numeral)
  moreover have "hash_rep {..<NR_BUFS} hs sample_cache = hash_rep {..<NR_BUFS} hs ?s" for hs
    using f(2) by (intro hash_rep_cong) (auto simp: sample_cache_def links_fold)
  moreover have "one_each sample_cache" unfolding one_each_def f using z by auto
  moreover have "bufs_in_use sample_cache = bufs_in_use ?s" by (simp add: sample_cache_def)
  ultimately show ?thesis using st u h z unfolding cache_rep_def f by auto
qed

lemma sample_cache_buf: "b_dev (bufs sample_cache 4) = 3" "b_blocknr (bufs sample_cache 4) = 0" "b_count (bufs sample_cache 4) = 0"
  by (simp_all add: sample_cache_def buf_pool_def Let_def fs_bss_def zero_buf_def)

text \<open>
  C32: a block that is in the cache. \<open>get_block\<close> returns the one buffer that holds the block, takes it off
  the LRU chain if it was free, counts one more user and asks no driver anything; all the data
  and the other buffers are as they were.
\<close>

theorem get_block_hit:
  assumes "cache_rep xs s" and "dev \<noteq> NO_DEV" and "b < NR_BUFS" and "b_dev (bufs s b) = dev" and "b_blocknr (bufs s b) = block"
    and "b_count (bufs s b) < 127"
  shows "\<exists>s'. get_block env dev block mode s = Inr (b, s') \<and> cache_rep (remove1 b xs) s' \<and> fs_log s' = fs_log s \<and>
    cores s' = (cores s)(b := core ((bufs s b)\<lparr>b_count := b_count (bufs s b) + 1\<rparr>))"
  using get_hit [OF assms] .

theorem get_block_hit_witness:
  "\<exists>s'. get_block quiet_env 3 0 NORMAL sample_cache = Inr (4, s') \<and> cache_rep (remove1 4 [0..<NR_BUFS]) s' \<and> b_count (bufs s' 4) = 1"
proof -
  obtain s' where s: "get_block quiet_env 3 0 NORMAL sample_cache = Inr (4, s')" "cache_rep (remove1 4 [0..<NR_BUFS]) s'"
      "cores s' = (cores sample_cache)(4 := core ((bufs sample_cache 4)\<lparr>b_count := b_count (bufs sample_cache 4) + 1\<rparr>))"
    using get_block_hit [OF sample_cache_rep, of 3 4 0 quiet_env NORMAL] sample_cache_buf by auto
  have "cores s' 4 = core ((bufs sample_cache 4)\<lparr>b_count := 1\<rparr>)" using s(3) sample_cache_buf by simp
  then have "b_count (bufs s' 4) = 1" by (simp add: cores_def core_def)
  then show ?thesis using s by blast
qed

text \<open>
  C33: putting a block back and getting it again. As long as the block does not have to be written at
  once, \<open>put_block\<close> returns and keeps the block in the cache: the next \<open>get_block\<close> for it, in whatever
  mode, finds it in the same buffer, without asking a driver, and leaves the cache as it was before.
\<close>

theorem put_then_get:
  assumes "cache_rep xs s" and "bp < NR_BUFS" and "0 < b_count (bufs s bp)" and "b_dev (bufs s bp) \<noteq> NO_DEV"
    and "ty AND WRITE_IMMED = 0"
  shows "\<exists>s1 s2. put_block env (Some bp) ty s = Inr s1 \<and> cache_rep (given_back bp ty s xs) s1 \<and>
    get_block env (b_dev (bufs s bp)) (b_blocknr (bufs s bp)) mode s1 = Inr (bp, s2) \<and>
    cache_rep xs s2 \<and> cores s2 = cores s \<and> fs_log s2 = fs_log s"
proof -
  let ?s1 = "put_lru bp ty s"
  have p: "put_block env (Some bp) ty s = Inr ?s1" "cache_rep (given_back bp ty s xs) ?s1"
    using put_block_outcome(2) [OF assms(1-3,5)] put_lru_rep [OF assms(1-3)] by auto
  have n: "b_count (bufs s bp) \<le> 127" and nx: "bp \<notin> set xs" using assms(1-3) unfolding cache_rep_def by auto
  have c: "b_count (bufs ?s1 bp) = b_count (bufs s bp) - 1" using n assms(3) by (simp add: put_lru_frame schar_id)
  obtain s2 where s2: "get_block env (b_dev (bufs ?s1 bp)) (b_blocknr (bufs ?s1 bp)) mode ?s1 = Inr (bp, s2)"
      "cache_rep (remove1 bp (given_back bp ty s xs)) s2" "fs_log s2 = fs_log ?s1"
      "cores s2 = (cores ?s1)(bp := core ((bufs ?s1 bp)\<lparr>b_count := b_count (bufs ?s1 bp) + 1\<rparr>))"
    using get_hit [OF p(2) _ assms(2) refl refl, of env mode] assms(4) c n by (auto simp: put_lru_frame)
  have "remove1 bp (given_back bp ty s xs) = xs" using nx by (auto simp: given_back_def remove1_append remove1_idem)
  moreover have "cores s2 b = cores s b" for b
    unfolding s2(4) using c by (cases "b = bp") (auto simp: cores_def core_def put_lru_frame)
  ultimately show ?thesis using p s2 by (auto simp: put_lru_frame)
qed

theorem put_then_get_witness:
  "\<exists>s s1 s2. b_count (bufs s 4) = 1 \<and> put_block quiet_env (Some 4) 0 s = Inr s1 \<and> get_block quiet_env 3 0 NORMAL s1 = Inr (4, s2) \<and> cores s2 = cores s"
proof -
  obtain s where s: "cache_rep (remove1 4 [0..<NR_BUFS]) s"
      "cores s = (cores sample_cache)(4 := core ((bufs sample_cache 4)\<lparr>b_count := b_count (bufs sample_cache 4) + 1\<rparr>))"
    using get_hit [OF sample_cache_rep, of 3 4 0 quiet_env NORMAL] sample_cache_buf by auto
  have "cores s 4 = core ((bufs sample_cache 4)\<lparr>b_count := 1\<rparr>)" using s(2) sample_cache_buf by simp
  then have "b_count (bufs s 4) = 1" "b_dev (bufs s 4) = 3" "b_blocknr (bufs s 4) = 0" using sample_cache_buf by (simp_all add: cores_def core_def)
  then show ?thesis using put_then_get [OF s(1), of 4 0 quiet_env NORMAL] by auto
qed

end
