(* ===== verification/Fs_Locks.thy ===== *)
theory Fs_Locks
  imports Fs_Lock Fs_Sample
begin

unbundle bit_operations_syntax

text \<open>
  The lock table as a relation: which process holds which kind of lock on which byte of which file.
\<close>

section \<open>The table\<close>

definition held :: "nat \<Rightarrow> fsstate \<Rightarrow> bool" where
  "held n s \<longleftrightarrow> lock_type (file_locks s n) \<noteq> 0"

definition lock_wf :: "fsstate \<Rightarrow> bool" where
  "lock_wf s \<longleftrightarrow> (\<forall>n < NR_LOCKS. held n s \<longrightarrow> lock_first (file_locks s n) \<le> lock_last (file_locks s n)) \<and>
     nr_locks s = int (card {n. n < NR_LOCKS \<and> held n s})"

definition covers :: "file_lock \<Rightarrow> nat \<Rightarrow> int \<Rightarrow> int \<Rightarrow> u32 \<Rightarrow> bool" where
  "covers l ino pid ty p \<longleftrightarrow> lock_type l = ty \<and> ty \<noteq> 0 \<and> lock_inode l = Some ino \<and> lock_pid l = pid \<and> lock_first l \<le> p \<and> p \<le> lock_last l"

definition holds :: "fsstate \<Rightarrow> nat \<Rightarrow> int \<Rightarrow> int \<Rightarrow> u32 \<Rightarrow> bool" where
  "holds s ino pid ty p \<longleftrightarrow> (\<exists>n < NR_LOCKS. covers (file_locks s n) ino pid ty p)"

definition meets :: "nat \<Rightarrow> u32 \<Rightarrow> u32 \<Rightarrow> nat \<Rightarrow> fsstate \<Rightarrow> bool" where
  "meets ino a b n s \<longleftrightarrow> held n s \<and> lock_inode (file_locks s n) = Some ino \<and> lock_first (file_locks s n) \<le> b \<and> a \<le> lock_last (file_locks s n)"

definition inside :: "nat \<Rightarrow> u32 \<Rightarrow> u32 \<Rightarrow> nat \<Rightarrow> fsstate \<Rightarrow> bool" where
  "inside ino a b n s \<longleftrightarrow> held n s \<and> lock_inode (file_locks s n) = Some ino \<and> lock_first (file_locks s n) < a \<and> b < lock_last (file_locks s n)"

lemma lock_hit_meets: "held n s \<Longrightarrow> lock_hit F_UNLCK (Some ino) a b pid (file_locks s n) \<longleftrightarrow> meets ino a b n s"
  by (auto simp: lock_hit_def meets_def held_def)

lemma card_held_le: "card {n. n < NR_LOCKS \<and> held n s} \<le> NR_LOCKS"
  using card_mono [of "{..<NR_LOCKS}" "{n. n < NR_LOCKS \<and> held n s}"] by auto

lemma free_entry:
  assumes "lock_wf s" and "nr_locks s \<noteq> int NR_LOCKS"
  shows "\<exists>i < NR_LOCKS. find (\<lambda>i. lock_type (file_locks s i) = 0) [0..<NR_LOCKS] = Some i \<and> \<not> held i s"
proof -
  have "\<exists>i < NR_LOCKS. \<not> held i s"
  proof (rule ccontr)
    assume "\<not> ?thesis"
    then have "{n. n < NR_LOCKS \<and> held n s} = {..<NR_LOCKS}" by auto
    then show False using assms by (simp add: lock_wf_def)
  qed
  then have "find (\<lambda>i. lock_type (file_locks s i) = 0) [0..<NR_LOCKS] \<noteq> None" by (auto simp: find_None_iff held_def)
  then obtain i where i: "find (\<lambda>i. lock_type (file_locks s i) = 0) [0..<NR_LOCKS] = Some i" by blast
  then have "i < NR_LOCKS \<and> \<not> held i s" by (auto simp: find_Some_iff held_def)
  then show ?thesis using i by blast
qed

lemma card_held_drop:
  assumes "\<And>k. k \<noteq> n \<Longrightarrow> held k s' = held k s" and "held n s" and "\<not> held n s'" and "n < NR_LOCKS"
  shows "int (card {k. k < NR_LOCKS \<and> held k s'}) = int (card {k. k < NR_LOCKS \<and> held k s}) - 1"
proof -
  have "{k. k < NR_LOCKS \<and> held k s'} = {k. k < NR_LOCKS \<and> held k s} - {n}" 
  proof (rule set_eqI)
    show "k \<in> {k. k < NR_LOCKS \<and> held k s'} \<longleftrightarrow> k \<in> {k. k < NR_LOCKS \<and> held k s} - {n}" for k
      using assms(1) [of k] assms(2,3) by (cases "k = n") auto
  qed
  moreover have "n \<in> {k. k < NR_LOCKS \<and> held k s}" using assms by simp
  moreover have "0 < card {k. k < NR_LOCKS \<and> held k s}" using assms by (auto simp: card_gt_0_iff)
  ultimately show ?thesis by (simp add: of_nat_diff)
qed

section \<open>Unlocking\<close>

text \<open>Only bytes of the region on the file are lost.\<close>

definition frees :: "nat \<Rightarrow> u32 \<Rightarrow> u32 \<Rightarrow> fsstate \<Rightarrow> fsstate \<Rightarrow> bool" where
  "frees ino a b s s' \<longleftrightarrow> (\<forall>i pid ty p. (holds s' i pid ty p \<longrightarrow> holds s i pid ty p) \<and>
     (\<not> (i = ino \<and> a \<le> p \<and> p \<le> b) \<longrightarrow> holds s i pid ty p \<longrightarrow> holds s' i pid ty p))"

lemma frees_refl [simp]: "frees ino a b s s"
  by (simp add: frees_def)

lemma frees_trans: "frees ino a b s s' \<Longrightarrow> frees ino a b s' s'' \<Longrightarrow> frees ino a b s s''"
  unfolding frees_def by blast

lemma frees_one:
  assumes "\<And>k. k \<noteq> n \<Longrightarrow> file_locks s' k = file_locks s k"
    and "\<And>i pid ty p. covers (file_locks s' n) i pid ty p \<Longrightarrow> covers (file_locks s n) i pid ty p"
    and "\<And>i pid ty p. covers (file_locks s n) i pid ty p \<Longrightarrow> \<not> (i = ino \<and> a \<le> p \<and> p \<le> b) \<Longrightarrow> covers (file_locks s' n) i pid ty p"
  shows "frees ino a b s s'"
  unfolding frees_def holds_def using assms by metis

lemma frees_two:
  assumes "\<And>k. k \<noteq> n \<Longrightarrow> k \<noteq> m \<Longrightarrow> file_locks s' k = file_locks s k" and "\<not> held m s" and "n < NR_LOCKS" and "m < NR_LOCKS"
    and "\<And>i pid ty p. covers (file_locks s' n) i pid ty p \<or> covers (file_locks s' m) i pid ty p \<Longrightarrow> covers (file_locks s n) i pid ty p"
    and "\<And>i pid ty p. covers (file_locks s n) i pid ty p \<Longrightarrow> \<not> (i = ino \<and> a \<le> p \<and> p \<le> b) \<Longrightarrow>
      covers (file_locks s' n) i pid ty p \<or> covers (file_locks s' m) i pid ty p"
  shows "frees ino a b s s'"
proof -
  have "\<not> covers (file_locks s m) i pid ty p" for i pid ty p using assms(2) by (auto simp: covers_def held_def)
  then show ?thesis unfolding frees_def holds_def using assms by metis
qed

lemma upd_lock_fields [simp]:
  "file_locks (upd_lock n f s) = (file_locks s)(n := f (file_locks s n))" "nr_locks (upd_lock n f s) = nr_locks s"
  by (simp_all add: upd_lock_def)

lemma above: "b < (m :: u32) \<Longrightarrow> b + 1 \<le> p \<longleftrightarrow> b < p"
  by uint_arith

lemma below: "m < (a :: u32) \<Longrightarrow> p \<le> a - 1 \<longleftrightarrow> p < a"
  by uint_arith

lemma lock_wf_same:
  assumes "lock_wf s" and "\<And>k. held k s' = held k s" and "nr_locks s' = nr_locks s" and "\<And>k. k \<noteq> n \<Longrightarrow> file_locks s' k = file_locks s k"
    and "lock_first (file_locks s' n) \<le> lock_last (file_locks s' n)"
  shows "lock_wf s'"
proof -
  have "lock_first (file_locks s' k) \<le> lock_last (file_locks s' k)" if "k < NR_LOCKS" "held k s" for k
    using that assms(1,4,5) unfolding lock_wf_def by (cases "k = n") auto
  then show ?thesis using assms(1) unfolding lock_wf_def assms(2,3) by blast
qed

text \<open>What is left to do after an entry was treated.\<close>

definition undone :: "nat \<Rightarrow> u32 \<Rightarrow> u32 \<Rightarrow> nat \<Rightarrow> fsstate \<Rightarrow> fsstate \<Rightarrow> bool" where
  "undone ino a b n s s' \<longleftrightarrow> lock_wf s' \<and> frees ino a b s s' \<and> (\<forall>k < NR_LOCKS. meets ino a b k s' \<longrightarrow> meets ino a b k s \<and> k \<noteq> n) \<and>
     (\<forall>k < NR_LOCKS. inside ino a b k s' \<longrightarrow> inside ino a b k s)"

lemma unlock_all:
  assumes "lock_wf s" and "n < NR_LOCKS" and "meets ino a b n s" and "a \<le> lock_first (file_locks s n)" and "lock_last (file_locks s n) \<le> b"
  shows "undone ino a b n s ((upd_lock n (\<lambda>l. l\<lparr>lock_type := 0\<rparr>) s)\<lparr>nr_locks := nr_locks s - 1\<rparr>)" (is "undone _ _ _ _ _ ?s")
proof -
  have "lock_wf ?s" using assms(1-3) card_held_drop [of n ?s s] by (auto simp: lock_wf_def held_def meets_def)
  moreover have "frees ino a b s ?s"
    using assms(3-5) by (intro frees_one [of n]) (auto simp: covers_def meets_def dest: order_trans)
  ultimately show ?thesis by (auto simp: undone_def meets_def inside_def held_def)
qed

lemma unlock_low:
  assumes "lock_wf s" and "meets ino a b n s" and "a \<le> lock_first (file_locks s n)" and "b < lock_last (file_locks s n)"
  shows "undone ino a b n s (upd_lock n (\<lambda>l. l\<lparr>lock_first := b + 1\<rparr>) s)" (is "undone _ _ _ _ _ ?s")
proof -
  note w = above [OF assms(4)]
  have "lock_wf ?s" 
  proof (rule lock_wf_same [OF assms(1), of _ n])
    have "b + 1 \<le> lock_last (file_locks s n)" using assms(4) w by blast
    then show "lock_first (file_locks ?s n) \<le> lock_last (file_locks ?s n)" by simp
  qed (simp_all add: held_def)
  moreover have "frees ino a b s ?s"
  proof (intro frees_one [of n])
    fix i pid ty p
    show "covers (file_locks ?s n) i pid ty p \<Longrightarrow> covers (file_locks s n) i pid ty p"
      using assms(2) unfolding covers_def meets_def by (simp add: w) (metis less_imp_le order_trans)
    show "covers (file_locks s n) i pid ty p \<Longrightarrow> \<not> (i = ino \<and> a \<le> p \<and> p \<le> b) \<Longrightarrow> covers (file_locks ?s n) i pid ty p"
      using assms(2,3) unfolding covers_def meets_def by (simp add: w) (metis not_le order_trans)
  qed simp
  moreover have "\<not> b + 1 \<le> b" "b + 1 < a \<Longrightarrow> False" using w assms(2,3) unfolding meets_def by (blast, metis less_imp_le not_le order_less_le_trans order_le_less_trans)
  ultimately show ?thesis using assms(2) by (auto simp: undone_def meets_def inside_def held_def)
qed

lemma unlock_high:
  assumes "lock_wf s" and "meets ino a b n s" and "lock_first (file_locks s n) < a" and "lock_last (file_locks s n) \<le> b"
  shows "undone ino a b n s (upd_lock n (\<lambda>l. l\<lparr>lock_last := a - 1\<rparr>) s)" (is "undone _ _ _ _ _ ?s")
proof -
  note w = below [OF assms(3)]
  have "lock_wf ?s" 
  proof (rule lock_wf_same [OF assms(1), of _ n])
    have "lock_first (file_locks s n) \<le> a - 1" using assms(3) w by blast
    then show "lock_first (file_locks ?s n) \<le> lock_last (file_locks ?s n)" by simp
  qed (simp_all add: held_def)
  moreover have "frees ino a b s ?s"
  proof (intro frees_one [of n])
    fix i pid ty p
    show "covers (file_locks ?s n) i pid ty p \<Longrightarrow> covers (file_locks s n) i pid ty p"
      using assms(2) unfolding covers_def meets_def by (simp add: w) (metis less_imp_le order_trans)
    show "covers (file_locks s n) i pid ty p \<Longrightarrow> \<not> (i = ino \<and> a \<le> p \<and> p \<le> b) \<Longrightarrow> covers (file_locks ?s n) i pid ty p"
      using assms(2,4) unfolding covers_def meets_def by (simp add: w) (metis not_le order_trans)
  qed simp
  moreover have "\<not> a \<le> a - 1" using w by simp
  ultimately show ?thesis using assms(2) by (auto simp: undone_def meets_def inside_def held_def)
qed

lemma unlock_split:
  assumes "lock_wf s" and "n < NR_LOCKS" and "i < NR_LOCKS" and "\<not> held i s" and "inside ino a b n s" and "a \<le> b"
  shows "undone ino a b n s ((upd_lock n (\<lambda>l. l\<lparr>lock_last := a - 1\<rparr>) (upd_lock i (\<lambda>_. (file_locks s n)\<lparr>lock_first := b + 1\<rparr>) s))
    \<lparr>nr_locks := nr_locks s + 1\<rparr>)" (is "undone _ _ _ _ _ ?s")
proof -
  let ?l = "file_locks s n"
  have h: "held n s" "lock_inode ?l = Some ino" "lock_first ?l < a" "b < lock_last ?l" using assms(5) by (simp_all add: inside_def)
  have ni: "i \<noteq> n" using h(1) assms(4) by auto
  note w = above [OF h(4)] below [OF h(3)]
  have f: "file_locks ?s = (file_locks s)(i := ?l\<lparr>lock_first := b + 1\<rparr>, n := ?l\<lparr>lock_last := a - 1\<rparr>)" using ni by auto
  have le: "lock_first ?l \<le> a - 1" "b + 1 \<le> lock_last ?l" using w h(3,4) by blast+
  have hd: "held k ?s = (held k s \<or> k = i)" for k using h(1) ni unfolding held_def f by auto
  then have c: "int (card {k. k < NR_LOCKS \<and> held k s}) = int (card {k. k < NR_LOCKS \<and> held k ?s}) - 1"
    using assms(3,4) by (intro card_held_drop [of i]) auto
  have "lock_first (file_locks ?s k) \<le> lock_last (file_locks ?s k)" if "k < NR_LOCKS" "held k ?s" for k
    using assms(1) that le ni unfolding hd lock_wf_def f by (cases "k = n"; cases "k = i") auto
  moreover have "nr_locks ?s = nr_locks s + 1" by simp
  ultimately have "lock_wf ?s" using assms(1) c unfolding lock_wf_def by (intro conjI allI impI; (blast | linarith))
  moreover have "frees ino a b s ?s"
  proof (rule frees_two [of n i])
    fix i' pid ty p
    show "covers (file_locks ?s n) i' pid ty p \<or> covers (file_locks ?s i) i' pid ty p \<Longrightarrow> covers ?l i' pid ty p"
    proof (elim disjE)
      assume "covers (file_locks ?s n) i' pid ty p"
      then have "p < a" "covers (?l\<lparr>lock_last := a - 1\<rparr>) i' pid ty p" using w(2) unfolding f covers_def by auto
      moreover from this(1) have "p \<le> lock_last ?l" using h(4) assms(6) by order
      ultimately show ?thesis by (simp add: covers_def)
    next
      assume "covers (file_locks ?s i) i' pid ty p"
      then have "b < p" "covers (?l\<lparr>lock_first := b + 1\<rparr>) i' pid ty p" using w(1) ni unfolding f covers_def by auto
      moreover from this(1) have "lock_first ?l \<le> p" using h(3) assms(6) by order
      ultimately show ?thesis by (simp add: covers_def)
    qed
    show "covers ?l i' pid ty p \<Longrightarrow> \<not> (i' = ino \<and> a \<le> p \<and> p \<le> b) \<Longrightarrow> covers (file_locks ?s n) i' pid ty p \<or> covers (file_locks ?s i) i' pid ty p"
      using h(2) ni w unfolding f covers_def by (cases "p < a"; cases "b < p") (auto simp: not_less)
  qed (use assms ni in \<open>auto simp: f\<close>)
  moreover have "\<not> a \<le> a - 1" "\<not> b + 1 \<le> b" "\<not> b + 1 < a" using w(1) [of a] w(2) w(1) [of b] assms(6) by auto
  ultimately show ?thesis unfolding undone_def meets_def inside_def held_def f using h assms(4,6) ni by (simp add: held_def)
qed

lemma unlock_one_ok:
  assumes "lock_wf s" and "n < NR_LOCKS" and "meets ino a b n s" and "a \<le> b"
  shows "(unlock_one n a b s = Inr (Inl ENOLCK) \<and> inside ino a b n s \<and> nr_locks s = int NR_LOCKS) \<or> (\<exists>s'. unlock_one n a b s = Inr (Inr s') \<and> undone ino a b n s s')"
proof (cases "a \<le> lock_first (file_locks s n) \<or> lock_last (file_locks s n) \<le> b")
  case True
  then show ?thesis using unlock_all [OF assms(1-3)] unlock_low [OF assms(1,3)] unlock_high [OF assms(1,3)]
    by (auto simp: unlock_one_def Let_def not_le)
next
  case False
  then have "inside ino a b n s" using assms(3) by (auto simp: inside_def meets_def)
  then show ?thesis using free_entry [OF assms(1)] unlock_split [OF assms(1,2) _ _ _ assms(4)] False
    by (auto simp: unlock_one_def Let_def)
qed

lemma scan_unlock:
  assumes "lock_wf s" and "a \<le> b" and "set ns \<subseteq> {..<NR_LOCKS}" and "\<And>k. k < NR_LOCKS \<Longrightarrow> meets ino a b k s \<Longrightarrow> k \<in> set ns" and "req \<noteq> F_GETLK"
  shows "\<exists>x s'. lock_scan req F_UNLCK (Some ino) a b ns emp u s = Inr (x, s') \<and> lock_wf s' \<and> frees ino a b s s' \<and>
    ((x = Inl ENOLCK \<and> nr_locks s' = int NR_LOCKS \<and> (\<exists>k < NR_LOCKS. inside ino a b k s \<and> inside ino a b k s')) \<or>
     ((\<exists>e v. x = Inr (None, e, v)) \<and> (\<forall>k < NR_LOCKS. \<not> meets ino a b k s')))"
  using assms
proof (induction ns arbitrary: emp u s)
  case (Cons n ns)
  have n: "n < NR_LOCKS" using Cons.prems(3) by simp
  show ?case
  proof (cases "meets ino a b n s")
    case False
    have h: "held n s \<Longrightarrow> \<not> lock_hit F_UNLCK (Some ino) a b (fp_pid (cur s)) (file_locks s n)" using False lock_hit_meets by blast
    have r: "k \<in> set ns" if "k < NR_LOCKS" "meets ino a b k s" for k using Cons.prems(4) [OF that] that(2) False by auto
    show ?thesis
    proof (cases "held n s")
      case True
      then show ?thesis using Cons.IH [OF Cons.prems(1,2) _ r Cons.prems(5)] Cons.prems(3) h by (simp add: held_def Let_def)
    next
      case False
      then show ?thesis using Cons.IH [OF Cons.prems(1,2) _ r Cons.prems(5)] Cons.prems(3) by (simp add: held_def Let_def)
    qed
  next
    case True
    have h: "held n s" using True by (simp add: meets_def)
    then have st: "lock_scan req F_UNLCK (Some ino) a b (n # ns) emp u s = bindr (unlock_one n a b s) (\<lambda>r.
        case r of Inl e \<Rightarrow> Inr (Inl e, s) | Inr s1 \<Rightarrow> lock_scan req F_UNLCK (Some ino) a b ns emp True s1)"
      using Cons.prems(5) True lock_hit_meets [OF h, of ino a b] by (simp add: held_def Let_def)
    from unlock_one_ok [OF Cons.prems(1) n True Cons.prems(2)] show ?thesis
    proof (elim disjE conjE exE)
      assume "unlock_one n a b s = Inr (Inl ENOLCK)" "inside ino a b n s" "nr_locks s = int NR_LOCKS"
      then show ?thesis using Cons.prems(1) n unfolding st by auto
    next
      fix s1 assume 1: "unlock_one n a b s = Inr (Inr s1)" "undone ino a b n s s1"
      note d = 1(2) [unfolded undone_def]
      have "k \<in> set ns" if "k < NR_LOCKS" "meets ino a b k s1" for k using d that Cons.prems(4) by fastforce
      then obtain x s' where x: "lock_scan req F_UNLCK (Some ino) a b ns emp True s1 = Inr (x, s')" "lock_wf s'" "frees ino a b s1 s'"
          "(x = Inl ENOLCK \<and> nr_locks s' = int NR_LOCKS \<and> (\<exists>k < NR_LOCKS. inside ino a b k s1 \<and> inside ino a b k s')) \<or> ((\<exists>e v. x = Inr (None, e, v)) \<and> (\<forall>k < NR_LOCKS. \<not> meets ino a b k s'))"
        using Cons.IH [of s1 emp True] d Cons.prems(2,3,5) unfolding set_simps insert_subset by blast
      then show ?thesis using 1(1) d frees_trans unfolding st by (intro exI [of _ x] exI [of _ s']) auto
    qed
  qed
qed auto

section \<open>Locking\<close>

definition clash :: "int \<Rightarrow> nat \<Rightarrow> u32 \<Rightarrow> u32 \<Rightarrow> nat \<Rightarrow> fsstate \<Rightarrow> bool" where
  "clash lt ino a b n s \<longleftrightarrow> held n s \<and> lock_hit lt (Some ino) a b (fp_pid (cur s)) (file_locks s n)"

lemma scan_lock:
  assumes "lt = F_RDLCK \<or> lt = F_WRLCK"
  shows "case find (\<lambda>n. clash lt ino a b n s) ns of
       Some n \<Rightarrow> (if req = F_GETLK then (\<exists>e. lock_scan req lt (Some ino) a b ns emp u s = Inr (Inr (Some n, e, u), s))
                 else lock_scan req lt (Some ino) a b ns emp u s = (if req = F_SETLK then Inr (Inl EAGAIN, s) else Inr (Inl SUSPEND, suspend XLOCK s)))
     | None \<Rightarrow> lock_scan req lt (Some ino) a b ns emp u s = Inr (Inr (None, if emp = None then find (\<lambda>n. \<not> held n s) ns else emp, u), s)"
proof (induction ns arbitrary: emp)
  case (Cons n ns)
  show ?case
  proof (cases "held n s \<and> clash lt ino a b n s")
    case True
    then show ?thesis using assms by (auto simp: Let_def held_def clash_def)
  next
    case False
    then have f: "find (\<lambda>n. clash lt ino a b n s) (n # ns) = find (\<lambda>n. clash lt ino a b n s) ns" by (auto simp: clash_def)
    let ?e = "if held n s then emp else if emp = None then Some n else emp"
    have st: "lock_scan req lt (Some ino) a b (n # ns) emp u s = lock_scan req lt (Some ino) a b ns ?e u s"
      using False by (auto simp: Let_def held_def clash_def)
    have e: "(if ?e = None then find (\<lambda>n. \<not> held n s) ns else ?e) = (if emp = None then find (\<lambda>n. \<not> held n s) (n # ns) else emp)" by auto
    show ?thesis using Cons [of ?e] unfolding f st e .
  qed
qed simp

section \<open>Requests\<close>

lemma revive_all_locks: "\<exists>s'. revive_all ns s = Inr s' \<and> file_locks s' = file_locks s \<and> nr_locks s' = nr_locks s \<and> fs_fp s' = fs_fp s \<and> fp_pid (cur s') = fp_pid (cur s)"
  if "set ns \<subseteq> {0..<64}"
  using that
proof (induction ns arbitrary: s)
  case (Cons n ns)
  let ?r = "if fp_suspended (fprocs s n) \<and> - fp_task (fprocs s n) = XLOCK then revive n 0 s else Inr s"
  have "\<exists>s1. ?r = Inr s1 \<and> file_locks s1 = file_locks s \<and> nr_locks s1 = nr_locks s \<and> fs_fp s1 = fs_fp s \<and> fp_pid (cur s1) = fp_pid (cur s)"
    using Cons.prems by (auto simp: revive_def Let_def upd_fp_def)
  then obtain s1 where "?r = Inr s1" "file_locks s1 = file_locks s" "nr_locks s1 = nr_locks s" "fs_fp s1 = fs_fp s" "fp_pid (cur s1) = fp_pid (cur s)"
    by blast
  then show ?case using Cons.IH [of s1] Cons.prems by auto
qed simp

lemma lock_revive_ok: "\<exists>s'. lock_revive s = Inr s' \<and> file_locks s' = file_locks s \<and> nr_locks s' = nr_locks s \<and> fs_fp s' = fs_fp s \<and> fp_pid (cur s') = fp_pid (cur s)"
  unfolding lock_revive_def by (rule revive_all_locks) auto

lemma locks_cong:
  assumes "file_locks s' = file_locks s"
  shows "held n s' = held n s" "holds s' i pid ty p = holds s i pid ty p" "nr_locks s' = nr_locks s \<Longrightarrow> lock_wf s' = lock_wf s"
    "meets i a b n s' = meets i a b n s"
  using assms by (simp_all add: held_def holds_def lock_wf_def meets_def)

definition exclusive :: "fsstate \<Rightarrow> bool" where
  "exclusive s \<longleftrightarrow> (\<forall>ino pid pid' ty p. holds s ino pid F_WRLCK p \<longrightarrow> holds s ino pid' ty p \<longrightarrow> pid' = pid)"

lemma exclusive_frees: "exclusive s \<Longrightarrow> frees ino a b s s' \<Longrightarrow> exclusive s'"
  unfolding exclusive_def frees_def by blast

lemma unlock_table:
  assumes "lock_wf s" and "a \<le> b" and "req \<noteq> F_GETLK"
  shows "\<exists>x s'. lock_table req F_UNLCK (Some ino) a b s = Inr (Inl x, s') \<and> lock_wf s' \<and> frees ino a b s s' \<and>
    (x = OK \<and> (\<forall>k < NR_LOCKS. \<not> meets ino a b k s') \<or>
     x = ENOLCK \<and> nr_locks s' = int NR_LOCKS \<and> (\<exists>k < NR_LOCKS. inside ino a b k s \<and> inside ino a b k s'))"
proof -
  obtain x s1 where 1: "lock_scan req F_UNLCK (Some ino) a b [0..<NR_LOCKS] None False s = Inr (x, s1)" "lock_wf s1" "frees ino a b s s1"
      "(x = Inl ENOLCK \<and> nr_locks s1 = int NR_LOCKS \<and> (\<exists>k < NR_LOCKS. inside ino a b k s \<and> inside ino a b k s1)) \<or>
       ((\<exists>e v. x = Inr (None, e, v)) \<and> (\<forall>k < NR_LOCKS. \<not> meets ino a b k s1))"
    using scan_unlock [OF assms(1,2) _ _ assms(3), of "[0..<NR_LOCKS]" ino None False] unfolding set_upt atLeast0LessThan by blast
  from 1(4) show ?thesis
  proof (elim disjE conjE exE)
    fix e v assume x: "x = Inr (None, e, v)" and m: "\<forall>k < NR_LOCKS. \<not> meets ino a b k s1"
    obtain s2 where 2: "(if v then lock_revive s1 else Inr s1) = Inr s2" "file_locks s2 = file_locks s1" "nr_locks s2 = nr_locks s1"
      using lock_revive_ok [of s1] by (cases v) auto
    have "lock_wf s2" "frees ino a b s s2" "\<forall>k < NR_LOCKS. \<not> meets ino a b k s2"
      using 1(2,3) m locks_cong [OF 2(2)] 2(3) by (auto simp: frees_def)
    moreover have "lock_table req F_UNLCK (Some ino) a b s = Inr (Inl OK, s2)"
      using 1(1) x 2(1) assms(3) by (simp add: lock_table_def)
    ultimately show ?thesis by blast
  qed (use 1 in \<open>auto simp: lock_table_def\<close>)
qed


lemma lock_enter_ok:
  assumes "lock_wf s" and "n < NR_LOCKS" and "\<not> held n s" and "a \<le> b" and "lt \<noteq> 0"
  shows "lock_wf (lock_enter n lt (Some ino) a b s)" (is "lock_wf ?s")
    and "holds (lock_enter n lt (Some ino) a b s) i pid ty p \<longleftrightarrow>
      holds s i pid ty p \<or> i = ino \<and> pid = fp_pid (cur s) \<and> ty = lt \<and> a \<le> p \<and> p \<le> b"
proof -
  let ?l = "\<lparr>lock_type = lt, lock_pid = fp_pid (cur s), lock_inode = Some ino, lock_first = a, lock_last = b\<rparr>"
  have f: "file_locks ?s = (file_locks s)(n := ?l)" "nr_locks ?s = nr_locks s + 1" by (simp_all add: lock_enter_def)
  have hd: "held k ?s = (held k s \<or> k = n)" for k using assms(5) unfolding held_def f by auto
  then have c: "int (card {k. k < NR_LOCKS \<and> held k s}) = int (card {k. k < NR_LOCKS \<and> held k ?s}) - 1"
    using assms(2,3) by (intro card_held_drop [of n]) auto
  have "lock_first (file_locks ?s k) \<le> lock_last (file_locks ?s k)" if "k < NR_LOCKS" "held k ?s" for k
    using assms(1,4) that unfolding hd lock_wf_def f by (cases "k = n") auto
  then show "lock_wf ?s" using assms(1) c f(2) unfolding lock_wf_def by (intro conjI allI impI; (blast | linarith))
  have "\<not> covers (file_locks s n) i pid ty p" using assms(3) by (auto simp: covers_def held_def)
  moreover have "covers ?l i pid ty p \<longleftrightarrow> i = ino \<and> pid = fp_pid (cur s) \<and> ty = lt \<and> a \<le> p \<and> p \<le> b" using assms(5) by (auto simp: covers_def)
  ultimately show "holds ?s i pid ty p \<longleftrightarrow> holds s i pid ty p \<or> i = ino \<and> pid = fp_pid (cur s) \<and> ty = lt \<and> a \<le> p \<and> p \<le> b"
    unfolding holds_def f using assms(2) by (metis fun_upd_apply)
qed

text \<open>Another process has a lock that a new one cannot be next to.\<close>

definition blocked :: "int \<Rightarrow> nat \<Rightarrow> u32 \<Rightarrow> u32 \<Rightarrow> fsstate \<Rightarrow> bool" where
  "blocked lt ino a b s \<longleftrightarrow> (\<exists>pid ty p. holds s ino pid ty p \<and> a \<le> p \<and> p \<le> b \<and> pid \<noteq> fp_pid (cur s) \<and> (lt = F_WRLCK \<or> ty \<noteq> F_RDLCK))"

lemma clash_blocked:
  assumes "lock_wf s" and "a \<le> b" and "lt = F_RDLCK \<or> lt = F_WRLCK"
  shows "(\<exists>n < NR_LOCKS. clash lt ino a b n s) \<longleftrightarrow> blocked lt ino a b s"
proof
  assume "\<exists>n < NR_LOCKS. clash lt ino a b n s"
  then obtain n where n: "n < NR_LOCKS" "clash lt ino a b n s" by blast
  let ?l = "file_locks s n" let ?p = "max a (lock_first ?l)"
  have l: "lock_first ?l \<le> lock_last ?l" using assms(1) n unfolding lock_wf_def clash_def by blast
  have c: "lock_type ?l \<noteq> 0" "lock_inode ?l = Some ino" "lock_first ?l \<le> b" "a \<le> lock_last ?l" "\<not> (lt = F_RDLCK \<and> lock_type ?l = F_RDLCK)"
      "lock_pid ?l \<noteq> fp_pid (cur s)"
    using n(2) assms(3) unfolding clash_def lock_hit_def by (auto simp: not_less)
  then have "covers ?l ino (lock_pid ?l) (lock_type ?l) ?p" using l by (auto simp: covers_def)
  then have "holds s ino (lock_pid ?l) (lock_type ?l) ?p" using n(1) unfolding holds_def by blast
  moreover have "a \<le> ?p" "?p \<le> b" using c(3) assms(2) by auto
  moreover have "lt = F_WRLCK \<or> lock_type ?l \<noteq> F_RDLCK" using c(5) assms(3) by auto
  ultimately show "blocked lt ino a b s" using c(6) unfolding blocked_def by blast
next
  assume "blocked lt ino a b s"
  then obtain n pid ty p where n: "n < NR_LOCKS" "covers (file_locks s n) ino pid ty p" "a \<le> p" "p \<le> b" "pid \<noteq> fp_pid (cur s)" "lt = F_WRLCK \<or> ty \<noteq> F_RDLCK"
    unfolding blocked_def holds_def by blast
  then have "clash lt ino a b n s" using assms(3) unfolding clash_def lock_hit_def covers_def held_def by (auto simp: not_less; order)
  then show "\<exists>n < NR_LOCKS. clash lt ino a b n s" using n(1) by blast
qed

lemma exclusive_enter:
  assumes "exclusive s" and "\<not> blocked lt ino a b s" and "lt = F_RDLCK \<or> lt = F_WRLCK"
    and "\<And>i pid ty p. holds s' i pid ty p \<longleftrightarrow> holds s i pid ty p \<or> i = ino \<and> pid = fp_pid (cur s) \<and> ty = lt \<and> a \<le> p \<and> p \<le> b"
  shows "exclusive s'"
  unfolding exclusive_def
proof (intro allI impI)
  fix i pid pid' ty p
  assume h: "holds s' i pid F_WRLCK p" "holds s' i pid' ty p"
  let ?new = "\<lambda>pid ty. i = ino \<and> pid = fp_pid (cur s) \<and> ty = lt \<and> a \<le> p \<and> p \<le> b"
  have o: "holds s i pid F_WRLCK p \<or> ?new pid F_WRLCK" "holds s i pid' ty p \<or> ?new pid' ty" using h assms(4) by blast+
  have nb: "pid = fp_pid (cur s)" if "holds s ino pid ty p" "a \<le> p" "p \<le> b" "lt = F_WRLCK \<or> ty \<noteq> F_RDLCK" for pid ty
    using assms(2) that unfolding blocked_def by blast
  show "pid' = pid"
  proof (cases "holds s i pid F_WRLCK p")
    case True
    show ?thesis
    proof (cases "holds s i pid' ty p")
      case False
      then show ?thesis using o(2) True nb [of pid F_WRLCK] by auto
    qed (use True assms(1) in \<open>unfold exclusive_def, blast\<close>)
  next
    case False
    then show ?thesis using o nb [of pid' ty] by auto
  qed
qed

lemma find_free_full:
  assumes "lock_wf s"
  shows "find (\<lambda>n. \<not> held n s) [0..<NR_LOCKS] = None \<longleftrightarrow> nr_locks s = int NR_LOCKS"
proof
  assume "find (\<lambda>n. \<not> held n s) [0..<NR_LOCKS] = None"
  then have "{n. n < NR_LOCKS \<and> held n s} = {..<NR_LOCKS}" unfolding find_None_iff by auto
  then show "nr_locks s = int NR_LOCKS" using assms by (simp add: lock_wf_def)
next
  assume "nr_locks s = int NR_LOCKS"
  then have "card {n. n < NR_LOCKS \<and> held n s} = card {..<NR_LOCKS}" using assms unfolding lock_wf_def by simp
  then have "{n. n < NR_LOCKS \<and> held n s} = {..<NR_LOCKS}" by (intro card_subset_eq) auto
  then show "find (\<lambda>n. \<not> held n s) [0..<NR_LOCKS] = None" unfolding find_None_iff by auto
qed

lemma lock_table_set:
  assumes "lock_wf s" and "a \<le> b" and "lt = F_RDLCK \<or> lt = F_WRLCK" and "req \<noteq> F_GETLK"
  shows "if blocked lt ino a b s
    then lock_table req lt (Some ino) a b s = Inr (if req = F_SETLK then (Inl EAGAIN, s) else (Inl SUSPEND, suspend XLOCK s))
    else if nr_locks s = int NR_LOCKS then lock_table req lt (Some ino) a b s = Inr (Inl ENOLCK, s)
    else \<exists>n < NR_LOCKS. \<not> held n s \<and> lock_table req lt (Some ino) a b s = Inr (Inl OK, lock_enter n lt (Some ino) a b s)"
proof -
  note sc = scan_lock [OF assms(3), where ino = ino and a = a and b = b and s = s and ns = "[0..<NR_LOCKS]" and req = req and emp = None and u = False]
  have lt: "lt \<noteq> F_UNLCK" using assms(3) by auto
  show ?thesis
  proof (cases "blocked lt ino a b s")
    case True
    then obtain n where "find (\<lambda>n. clash lt ino a b n s) [0..<NR_LOCKS] = Some n"
      using clash_blocked [OF assms(1-3), of ino] by (cases "find (\<lambda>n. clash lt ino a b n s) [0..<NR_LOCKS]") (auto simp: find_None_iff)
    then show ?thesis using sc True assms(4) by (simp add: lock_table_def del: lock_scan.simps upt_rec_numeral)
  next
    case False
    then have "find (\<lambda>n. clash lt ino a b n s) [0..<NR_LOCKS] = None"
      using clash_blocked [OF assms(1-3), of ino] unfolding find_None_iff by auto
    then have t: "lock_scan req lt (Some ino) a b [0..<NR_LOCKS] None False s = Inr (Inr (None, find (\<lambda>n. \<not> held n s) [0..<NR_LOCKS], False), s)"
      using sc by (simp del: lock_scan.simps upt_rec_numeral)
    show ?thesis
    proof (cases "find (\<lambda>n. \<not> held n s) [0..<NR_LOCKS]")
      case None
      then show ?thesis using t False find_free_full [OF assms(1)] assms(4) lt by (simp add: lock_table_def del: lock_scan.simps upt_rec_numeral)
    next
      case (Some n)
      then have "n < NR_LOCKS" "\<not> held n s" unfolding find_Some_iff by auto
      then show ?thesis using t Some False find_free_full [OF assms(1)] assms(4) lt by (auto simp: lock_table_def simp del: lock_scan.simps upt_rec_numeral)
    qed
  qed
qed

lemma lock_table_get:
  assumes "lt = F_RDLCK \<or> lt = F_WRLCK"
  shows "\<exists>c. lock_table F_GETLK lt (Some ino) a b s = Inr (Inr c, s)"
  using scan_lock [OF assms, where ino = ino and a = a and b = b and s = s and ns = "[0..<NR_LOCKS]" and req = F_GETLK and emp = None and u = False]
  by (auto simp: lock_table_def simp del: lock_scan.simps upt_rec_numeral split: option.splits)

lemma suspend_locks [simp]: "file_locks (suspend t s) = file_locks s" "nr_locks (suspend t s) = nr_locks s"
  by (simp_all add: suspend_def Let_def upd_fp_def)

section \<open>Properties\<close>

text \<open>
  C37: the lock table. Every request of \<open>lock_op\<close> for a region that is not empty returns and keeps the
  table in order (the entries in use hold regions that are not empty, and \<open>nr_locks\<close> is their number), and
  keeps it exclusive: while a process has a write lock on a byte of a file, no other process has a lock on it.
\<close>

theorem lock_exclusive:
  assumes "lock_wf s" and "exclusive s" and "a \<le> b" and "lt \<in> {F_RDLCK, F_WRLCK} \<or> lt = F_UNLCK \<and> req \<noteq> F_GETLK"
  shows "\<exists>x s'. lock_table req lt (Some ino) a b s = Inr (x, s') \<and> lock_wf s' \<and> exclusive s'"
proof -
  consider (un) "lt = F_UNLCK" "req \<noteq> F_GETLK" | (get) "lt = F_RDLCK \<or> lt = F_WRLCK" "req = F_GETLK" | (set) "lt = F_RDLCK \<or> lt = F_WRLCK" "req \<noteq> F_GETLK"
    using assms(4) by blast
  then show ?thesis
  proof cases
    case un
    then show ?thesis using unlock_table [OF assms(1,3) un(2), of ino] exclusive_frees [OF assms(2)] by blast
  next
    case get
    then show ?thesis using lock_table_get [OF get(1), of ino a b s] assms(1,2) by blast
  next
    case set
    have l: "lt \<noteq> 0" using set(1) by auto
    note st = lock_table_set [OF assms(1,3) set, of ino]
    show ?thesis
    proof (cases "blocked lt ino a b s \<or> nr_locks s = int NR_LOCKS")
      case True
      have "lock_wf (suspend XLOCK s)" "exclusive (suspend XLOCK s)"
        using assms(1,2) locks_cong [of "suspend XLOCK s" s] by (simp_all add: exclusive_def)
      then show ?thesis using st True assms(1,2) by (cases "blocked lt ino a b s"; cases "req = F_SETLK") auto
    next
      case False
      then obtain n where n: "n < NR_LOCKS" "\<not> held n s" "lock_table req lt (Some ino) a b s = Inr (Inl OK, lock_enter n lt (Some ino) a b s)"
        using st by auto
      note e = lock_enter_ok [OF assms(1) n(1,2) assms(3) l, of ino]
      have "exclusive (lock_enter n lt (Some ino) a b s)"
        using exclusive_enter [OF assms(2) _ set(1) e(2)] False by blast
      then show ?thesis using n(3) e(1) by blast
    qed
  qed
qed

definition sample_locks :: fsstate where
  "sample_locks = fs_bss\<lparr>file_locks := (\<lambda>_. zero_lock)(0 := \<lparr>lock_type = F_WRLCK, lock_pid = 17, lock_inode = Some 2, lock_first = 10, lock_last = 99\<rparr>),
     nr_locks := 1\<rparr>"

lemma sample_locks_held: "held n sample_locks \<longleftrightarrow> n = 0"
  by (simp add: held_def sample_locks_def zero_lock_def)

lemma sample_locks_ok: "lock_wf sample_locks" "exclusive sample_locks"
proof -
  have "{n. n < NR_LOCKS \<and> n = 0} = {0}" by auto
  then show "lock_wf sample_locks" unfolding lock_wf_def sample_locks_held by (simp add: sample_locks_def)
  have "holds sample_locks i pid ty p \<Longrightarrow> pid = 17" for i pid ty p
    unfolding holds_def covers_def by (auto simp: sample_locks_def zero_lock_def split: if_splits)
  then show "exclusive sample_locks" unfolding exclusive_def by blast
qed

theorem lock_exclusive_witness:
  "\<exists>x s'. lock_table F_SETLK F_RDLCK (Some 2) 50 60 sample_locks = Inr (x, s') \<and> lock_wf s' \<and> exclusive s'"
  by (rule lock_exclusive) (simp_all add: sample_locks_ok)

text \<open>
  C38: what a request for a lock does. A process gets a read or write lock on a region exactly when no
  other process has a lock on a byte of the region that conflicts with it and the table is not full; it then
  has a lock of that kind on the bytes of the region, and nothing else changes in who has which lock. Otherwise
  \<open>F_SETLK\<close> gives \<open>EAGAIN\<close> (\<open>ENOLCK\<close> if only the table is full) and the table stays as it is.
\<close>

theorem lock_granted:
  assumes "lock_wf s" and "a \<le> b" and "lt = F_RDLCK \<or> lt = F_WRLCK"
  shows "\<exists>r s'. lock_table F_SETLK lt (Some ino) a b s = Inr (Inl r, s') \<and>
    r = (if blocked lt ino a b s then EAGAIN else if nr_locks s = int NR_LOCKS then ENOLCK else OK) \<and>
    (if r = OK then \<forall>i pid ty p. holds s' i pid ty p \<longleftrightarrow> holds s i pid ty p \<or> i = ino \<and> pid = fp_pid (cur s) \<and> ty = lt \<and> a \<le> p \<and> p \<le> b
     else s' = s)"
proof -
  have l: "lt \<noteq> 0" using assms(3) by auto
  have "if blocked lt ino a b s then lock_table F_SETLK lt (Some ino) a b s = Inr (Inl EAGAIN, s)
    else if nr_locks s = int NR_LOCKS then lock_table F_SETLK lt (Some ino) a b s = Inr (Inl ENOLCK, s)
    else \<exists>n < NR_LOCKS. \<not> held n s \<and> lock_table F_SETLK lt (Some ino) a b s = Inr (Inl OK, lock_enter n lt (Some ino) a b s)"
    using lock_table_set [OF assms, of F_SETLK ino] by simp
  then show ?thesis using lock_enter_ok(2) [OF assms(1) _ _ assms(2) l, of _ ino] by (auto split: if_splits)
qed

theorem lock_granted_witness:
  "\<exists>s'. lock_table F_SETLK F_WRLCK (Some 2) 50 60 sample_locks = Inr (Inl EAGAIN, s') \<and> s' = sample_locks"
proof -
  have "holds sample_locks 2 17 F_WRLCK 55" unfolding holds_def covers_def by (intro exI [of _ 0]) (simp add: sample_locks_def)
  moreover have "fp_pid (cur sample_locks) = 0" by (simp add: sample_locks_def fs_bss_def zero_fproc_def)
  ultimately have "blocked F_WRLCK 2 50 60 sample_locks" unfolding blocked_def
    by (intro exI [of _ 17] exI [of _ F_WRLCK] exI [of _ 55]) simp
  then show ?thesis using lock_granted [OF sample_locks_ok(1), of 50 60 F_WRLCK 2] by auto
qed



end
