(* ===== verification/Fs_Sort.thy ===== *)
theory Fs_Sort
  imports Fs_Cache "HOL-Library.Multiset"
begin

unbundle bit_operations_syntax

text \<open>
  The Shell sort with which \<open>rw_scattered\<close> puts the buffers in the order of their block numbers.
\<close>

declare sift.simps [simp del] shell_passes.simps [simp del] first_gap.simps [simp del]

lemma sift_length [simp]: "length (sift nr gap k q) = length q"
  by (induction nr gap k q rule: sift.induct) (subst sift.simps, simp)

lemma sift_mset: "k < length q \<Longrightarrow> mset (sift nr gap k q) = mset q"
proof (induction nr gap k q rule: sift.induct)
  case (1 nr gap k q)
  show ?case
  proof (cases "0 < gap \<and> gap \<le> k \<and> nr (q ! (k - gap)) > nr (q ! k)")
    case True
    then show ?thesis using 1 by (subst sift.simps) (simp add: mset_swap)
  qed (subst sift.simps, auto)
qed

text \<open>
  The last pass has gap 1. Before a step at \<open>k\<close> the first \<open>m + 1\<close> elements are in order, but for
  element \<open>k\<close>, which may be too small for its place.
\<close>

definition nearly :: "(nat \<Rightarrow> u32) \<Rightarrow> nat \<Rightarrow> nat \<Rightarrow> nat list \<Rightarrow> bool" where
  "nearly nr m k q \<longleftrightarrow> (\<forall>i j. i < j \<longrightarrow> j \<le> m \<longrightarrow> j \<noteq> k \<longrightarrow> nr (q ! i) \<le> nr (q ! j))"

lemma nearly_swap:
  assumes "nearly nr m (Suc k) q" and "Suc k \<le> m" and "m < length q" and "nr (q ! Suc k) < nr (q ! k)"
  shows "nearly nr m k (q[k := q ! Suc k, Suc k := q ! k])"
  unfolding nearly_def
proof (intro allI impI)
  fix i j assume ij: "i < j" "j \<le> m" "j \<noteq> k"
  have s: "nr (q ! i) \<le> nr (q ! j)" if "i < j" "j \<le> m" "j \<noteq> Suc k" for i j using assms(1) that unfolding nearly_def by blast
  let ?q = "q[k := q ! Suc k, Suc k := q ! k]"
  have n: "?q ! x = (if x = k then q ! Suc k else if x = Suc k then q ! k else q ! x)" if "x \<le> m" for x
    using that assms(2,3) by (auto simp: nth_list_update)
  show "nr (?q ! i) \<le> nr (?q ! j)"
  proof (cases "j = Suc k")
    case True
    then have "nr (q ! i) \<le> nr (q ! k)" if "i \<noteq> k" using s [of i k] ij assms(2) that by auto
    then show ?thesis using True ij assms(2,4) n [of i] n [of j] by (cases "i = k") auto
  next
    case False
    then show ?thesis using ij n [of i] n [of j] s [of i j] s [of k j] s [of "Suc k" j] by (auto split: if_splits)
  qed
qed

lemma sift_sorts:
  "nearly nr m k q \<Longrightarrow> k \<le> m \<Longrightarrow> m < length q \<Longrightarrow> (\<forall>i j. i < j \<longrightarrow> j \<le> m \<longrightarrow> nr (sift nr (Suc 0) k q ! i) \<le> nr (sift nr (Suc 0) k q ! j))"
proof (induction k arbitrary: q)
  case 0
  then show ?case by (subst sift.simps, subst sift.simps) (auto simp: nearly_def)
next
  case (Suc k)
  show ?case
  proof (cases "nr (q ! k) > nr (q ! Suc k)")
    case True
    then have "sift nr (Suc 0) (Suc k) q = sift nr (Suc 0) k (q[k := q ! Suc k, Suc k := q ! k])" by (subst sift.simps) simp
    then show ?thesis using Suc.IH [OF nearly_swap [OF Suc.prems True]] Suc.prems by simp
  next
    case False
    then have e: "sift nr (Suc 0) (Suc k) q = q" by (subst sift.simps) simp
    have "nr (q ! i) \<le> nr (q ! Suc k)" if "i < Suc k" for i
    proof (cases "i = k")
      case False
      then have "nr (q ! i) \<le> nr (q ! k)" using Suc.prems that unfolding nearly_def by auto
      then show ?thesis using \<open>\<not> nr (q ! Suc k) < nr (q ! k)\<close> by order
    qed (use False in \<open>simp add: not_less\<close>)
    then show ?thesis using Suc.prems(1) unfolding e nearly_def by metis
  qed
qed

lemma pass_length [simp]: "length (shell_pass nr gap q) = length q"
proof -
  have "length (fold (sift nr gap) ks q) = length q" for ks by (induction ks arbitrary: q) simp_all
  then show ?thesis by (simp add: shell_pass_def)
qed

lemma pass_mset: "mset (shell_pass nr gap q) = mset q"
proof -
  have "\<forall>k \<in> set ks. k < length q \<Longrightarrow> mset (fold (sift nr gap) ks q) = mset q" for ks
    by (induction ks arbitrary: q) (simp_all add: sift_mset)
  then show ?thesis by (simp add: shell_pass_def)
qed

lemma pass_sorts:
  assumes "m \<le> length q" and "0 < m"
  shows "\<forall>i j. i < j \<longrightarrow> j < m \<longrightarrow> nr (fold (sift nr (Suc 0)) [Suc 0..<m] q ! i) \<le> nr (fold (sift nr (Suc 0)) [Suc 0..<m] q ! j)"
  using assms
proof (induction m)
  case (Suc m)
  show ?case
  proof (cases "m = 0")
    case False
    let ?f = "fold (sift nr (Suc 0)) [Suc 0..<m] q"
    have l: "length ?f = length q"
    proof -
      have "length (fold (sift nr (Suc 0)) ks q) = length q" for ks by (induction ks arbitrary: q) simp_all
      then show ?thesis by simp
    qed
    have "nearly nr m m ?f" using Suc False unfolding nearly_def by auto
    then show ?thesis using sift_sorts [of nr m m ?f] Suc.prems False l by (simp add: upt_Suc_append less_Suc_eq_le)
  qed simp
qed simp

lemma pass_1_sorted: "sorted (map nr (shell_pass nr (Suc 0) q))"
proof (cases q)
  case (Cons a as)
  then show ?thesis using pass_sorts [of "length q" q nr] pass_length [of nr "Suc 0" q]
    unfolding sorted_iff_nth_mono_less shell_pass_def by (auto simp: less_Suc_eq_le simp del: fold_simps upt_Suc)
qed (simp add: shell_pass_def)

text \<open>The gaps are 1, 4, 13 and so on.\<close>

inductive is_gap :: "nat \<Rightarrow> bool" where
  one: "is_gap (Suc 0)"
| more: "is_gap g \<Longrightarrow> is_gap (3 * g + 1)"

lemma gap_pos: "is_gap g \<Longrightarrow> 0 < g"
  by (induction rule: is_gap.induct) simp_all

lemma first_gap_is: "is_gap g \<Longrightarrow> \<exists>h. is_gap h \<and> first_gap n g = 3 * h + 1"
proof (induction n g rule: first_gap.induct)
  case (1 n g)
  then show ?case using more [of g] by (subst first_gap.simps) auto
qed

lemma passes_sort: "is_gap g \<Longrightarrow> sorted (map nr (shell_passes nr (3 * g + 1) q)) \<and> mset (shell_passes nr (3 * g + 1) q) = mset q"
proof (induction arbitrary: q rule: is_gap.induct)
  case one
  have "shell_passes nr 4 q = shell_pass nr (Suc 0) q" by (simp add: shell_passes.simps [of nr 4] shell_passes.simps [of nr "Suc 0"])
  then show ?case by (simp add: pass_1_sorted pass_mset)
next
  case (more g)
  have "(3 * (3 * g + 1) + 1) div 3 = 3 * g + 1" by simp
  then have "shell_passes nr (3 * (3 * g + 1) + 1) q = shell_passes nr (3 * g + 1) (shell_pass nr (3 * g + 1) q)"
    by (subst shell_passes.simps) simp
  then show ?case using more pass_mset by metis
qed

text \<open>
  C40: the sort of the buffers. For every queue, \<open>rw_scattered\<close>'s Shell sort, with its gaps 1, 4, 13 and so
  on, gives the same buffers (each as often), and their block numbers are those that sorting the
  block numbers gives.
\<close>

theorem shell_sort_sorts:
  "mset (shell_sort nr q) = mset q \<and> map nr (shell_sort nr q) = sort (map nr q)"
proof -
  obtain h where h: "is_gap h" "first_gap (length q) 1 = 3 * h + 1" using first_gap_is [OF one] by auto
  have s: "sorted (map nr (shell_sort nr q))" and m: "mset (shell_sort nr q) = mset q"
    using passes_sort [OF h(1), of nr q] h(2) unfolding shell_sort_def by simp_all
  have "mset (map nr (shell_sort nr q)) = mset (map nr q)" using m by simp
  then show ?thesis using s m by (metis properties_for_sort)
qed

end
