(* ===== verification/Fs_Disk.thy ===== *)
theory Fs_Disk
  imports Fs_Inode Fs_Sample
begin

unbundle bit_operations_syntax

text \<open>
  Inodes on the disk: what is written into a block is read back.
\<close>

section \<open>Fields of a block\<close>

lemma put32_outside: "4 \<le> unat (x - a) \<Longrightarrow> put32 a v m x = m x"
  using write_bytes_lookup [of "bytes32 v" a m x] by (simp add: put32_def)

lemma put16_outside: "2 \<le> unat (x - a) \<Longrightarrow> put16 a v m x = m x"
proof -
  assume a: "2 \<le> unat (x - a)"
  then have "x \<noteq> a" "x \<noteq> a + 1" by auto
  then show ?thesis by (simp add: put16_def)
qed

lemma unat_next:
  assumes "n \<le> unat (b - a :: u32)" and "k < unat (a - b)" and "k \<le> 3"
  shows "n \<le> unat (b + of_nat k - a)"
proof -
  have "unat (a - b) + unat (b - a) \<le> 2 ^ 32" using unat_sub_if_size [of a b] unat_sub_if_size [of b a] unsigned_less [where w = a and ?'a = nat] unsigned_less [where w = b and ?'a = nat]
    by (auto simp: word_size split: if_splits)
  then have l: "unat (b - a) + k < 2 ^ 32" using assms(2) by simp
  moreover have "unat (of_nat k :: u32) = k" using assms(3) by (simp add: unat_of_nat)
  ultimately have "unat (b - a + of_nat k) = unat (b - a) + k" by (simp add: unat_word_ariths)
  moreover have "b + of_nat k - a = b - a + of_nat k" by simp
  ultimately show ?thesis using assms(1) by (metis le_add1 order_trans)
qed

lemma get_outside:
  assumes "n \<le> unat (b - a)" and "\<And>x. n \<le> unat (x - a) \<Longrightarrow> m' x = m x"
  shows "4 \<le> unat (a - b) \<Longrightarrow> get32 m' b = get32 m b" and "2 \<le> unat (a - b) \<Longrightarrow> get16 m' b = get16 m b"
proof -
  have "m' (b + of_nat k) = m (b + of_nat k)" if "k < unat (a - b)" "k \<le> 3" for k
    using assms(2) unat_next [OF assms(1) that] by blast
  from this [of 0] this [of 1] this [of 2] this [of 3]
  show "4 \<le> unat (a - b) \<Longrightarrow> get32 m' b = get32 m b" "2 \<le> unat (a - b) \<Longrightarrow> get16 m' b = get16 m b"
    by (simp_all add: get32_def get16_def)
qed

lemma get_put_apart:
  "4 \<le> unat (b - a) \<Longrightarrow> 4 \<le> unat (a - b) \<Longrightarrow> get32 (put32 a v m) b = get32 m b"
  "4 \<le> unat (b - a) \<Longrightarrow> 2 \<le> unat (a - b) \<Longrightarrow> get16 (put32 a v m) b = get16 m b"
  "2 \<le> unat (b - a) \<Longrightarrow> 4 \<le> unat (a - b) \<Longrightarrow> get32 (put16 a w m) b = get32 m b"
  "2 \<le> unat (b - a) \<Longrightarrow> 2 \<le> unat (a - b) \<Longrightarrow> get16 (put16 a w m) b = get16 m b"
  using get_outside [of 4 b a "put32 a v m" m] get_outside [of 2 b a "put16 a w m" m] put32_outside put16_outside by auto

lemma get16_put16 [simp]: "get16 (put16 a v m) a = v"
proof -
  have "ucast (ucast v :: u8) OR push_bit 8 (ucast (ucast (drop_bit 8 v) :: u8)) = v"
  proof (rule bit_word_eqI)
    fix n assume "n < LENGTH(16)"
    then consider "n < 8" | "8 \<le> n" "n < 16" by fastforce
    then show "bit (ucast (ucast v :: u8) OR push_bit 8 (ucast (ucast (drop_bit 8 v) :: u8)) :: u16) n = bit v n"
      by cases (auto simp: bit_simps)
  qed
  then show ?thesis by (simp add: get16_def put16_def)
qed

lemma halves:
  fixes a b :: u16 and x :: u32
  shows "ucast (push_bit 16 (ucast a) OR ucast b :: u32) = b" "ucast (drop_bit 16 (push_bit 16 (ucast a) OR ucast b :: u32)) = a"
    "push_bit 16 (ucast (ucast (drop_bit 16 x) :: u16)) OR ucast (ucast x :: u16) = x"
proof -
  show "ucast (push_bit 16 (ucast a) OR ucast b :: u32) = b" by (rule bit_word_eqI) (auto simp: bit_simps)
  show "ucast (drop_bit 16 (push_bit 16 (ucast a) OR ucast b :: u32)) = a"
    by (rule bit_word_eqI) (auto simp: bit_simps dest: bit_imp_le_length)
  show "push_bit 16 (ucast (ucast (drop_bit 16 x) :: u16)) OR ucast (ucast x :: u16) = x"
  proof (rule bit_word_eqI)
    fix n assume "n < LENGTH(32)"
    then show "bit (push_bit 16 (ucast (ucast (drop_bit 16 x) :: u16)) OR ucast (ucast x :: u16) :: u32) n = bit x n"
      by (cases "n < 16") (auto simp: bit_simps)
  qed
qed

lemma conv4_conv4 [simp]: "conv4 norm (conv4 norm x) = x"
  by (simp add: conv4_def Let_def halves del: drop_bit_or)

section \<open>The layout of version 2\<close>

definition disk_ok :: "inode \<Rightarrow> bool" where
  "disk_ok i \<longleftrightarrow> i_nlinks i \<in> {-0x8000..<0x8000} \<and> i_uid i \<in> {-0x8000..<0x8000} \<and> i_gid i \<in> {-128..<128} \<and>
     i_atime i \<in> {-0x80000000..<0x80000000} \<and> i_mtime i \<in> {-0x80000000..<0x80000000} \<and> i_ctime i \<in> {-0x80000000..<0x80000000}"

lemma sint16: "x \<in> {-0x8000..<0x8000} \<Longrightarrow> sint (word_of_int x :: u16) = x"
  by (simp add: sint_sbintrunc' signed_take_bit_int_eq_self)

lemma sint32: "x \<in> {-0x80000000..<0x80000000} \<Longrightarrow> sint (word_of_int x :: u32) = x"
  by (simp add: sint_sbintrunc' signed_take_bit_int_eq_self)

lemma gid16: "x \<in> {-128..<128} \<Longrightarrow> schar (uint (word_of_int x :: u16)) = x"
proof -
  assume "x \<in> {-128..<128}"
  moreover have "(x mod 65536 + 128) mod 256 = (x + 128) mod 256"
    using mod_mod_cancel [of 256 65536 x] mod_add_left_eq [of "x mod 65536" 256 128] mod_add_left_eq [of x 256 128] by simp
  ultimately show ?thesis by (simp add: schar_def uint_word_of_int)
qed

lemma ten: "[0..<10] = [0, 1, 2, 3, 4, 5, 6, 7, 8, 9 :: nat]"
  by (simp add: upt_rec)

lemma zone_cases: "k < 10 \<Longrightarrow> k = 0 \<or> k = 1 \<or> k = 2 \<or> k = 3 \<or> k = 4 \<or> k = 5 \<or> k = 6 \<or> k = 7 \<or> k = 8 \<or> k = (9 :: nat)"
  by arith

lemma new_write_fields:
  shows "get16 (new_write norm off i d) off = conv2 norm (i_mode i)"
    "get16 (new_write norm off i d) (off + 2) = conv2 norm (word_of_int (i_nlinks i))"
    "get16 (new_write norm off i d) (off + 4) = conv2 norm (word_of_int (i_uid i))"
    "get16 (new_write norm off i d) (off + 6) = conv2 norm (word_of_int (i_gid i))"
    "get32 (new_write norm off i d) (off + 8) = conv4 norm (i_size i)"
    "get32 (new_write norm off i d) (off + 12) = conv4 norm (word_of_int (i_atime i))"
    "get32 (new_write norm off i d) (off + 16) = conv4 norm (word_of_int (i_mtime i))"
    "get32 (new_write norm off i d) (off + 20) = conv4 norm (word_of_int (i_ctime i))"
  unfolding new_write_def put_v2_zones_def by (simp_all add: get_put_apart ten)

lemma new_write_zone: "k < 10 \<Longrightarrow> get32 (new_write norm off i d) (off + 24 + 4 * of_nat k) = conv4 norm (i_zone i k)"
  unfolding new_write_def put_v2_zones_def ten
  by (drule zone_cases, elim disjE) (simp_all add: get_put_apart)

lemma new_write_outside:
  assumes "x \<notin> span off 64"
  shows "new_write norm off i d x = d x"
proof -
  have l: "64 \<le> unat (x - off)" using assms by (simp add: span_def)
  have "4 \<le> unat (x - (off + of_nat c))" if "c \<le> 60" for c
  proof -
    have "unat (of_nat c :: u32) = c" using that by (simp add: unat_of_nat)
    then have "unat (x - off - of_nat c) = unat (x - off) - c" using l that by (simp add: unat_sub word_le_nat_alt)
    then show ?thesis using l that by (simp add: diff_diff_eq)
  qed
  from this [of 0] this [of 2] this [of 4] this [of 6] this [of 8] this [of 12] this [of 16] this [of 20]
    this [of 24] this [of 28] this [of 32] this [of 36] this [of 40] this [of 44] this [of 48] this [of 52] this [of 56] this [of 60]
  show ?thesis unfolding new_write_def put_v2_zones_def ten by (simp add: put32_outside put16_outside add.assoc)
qed

section \<open>Properties\<close>

text \<open>
  C35: an inode on the disk. Whatever the byte order of the file system is, an inode whose fields fit their
  C types and that \<open>new_icopy\<close> writes into a block is read back from there with the same mode,
  links, owner, size, times and ten zones, and no byte outside the 64 of the inode changes.
\<close>

theorem new_icopy_roundtrip:
  assumes "disk_ok (inodes s rip)" and "s1 = new_icopy rip bp off WRITING norm block_size s"
  shows "inodes (new_icopy r bp off READING norm block_size s1) r =
      (inodes s r)\<lparr>i_mode := i_mode (inodes s rip), i_nlinks := i_nlinks (inodes s rip), i_uid := i_uid (inodes s rip), i_gid := i_gid (inodes s rip),
        i_size := i_size (inodes s rip), i_atime := i_atime (inodes s rip), i_mtime := i_mtime (inodes s rip), i_ctime := i_ctime (inodes s rip),
        i_ndzones := 7, i_nindirs := unat block_size div 4,
        i_zone := (\<lambda>k. if k < V2_NR_TZONES then i_zone (inodes s rip) k else i_zone (inodes s r) k)\<rparr> \<and>
    (\<forall>x. x \<notin> span off 64 \<longrightarrow> b_data (bufs s1 bp) x = b_data (bufs s bp) x)"
proof
  let ?i = "inodes s rip"
  have ok: "sint (word_of_int (i_nlinks ?i) :: u16) = i_nlinks ?i" "sint (word_of_int (i_uid ?i) :: u16) = i_uid ?i"
      "schar (uint (word_of_int (i_gid ?i) :: u16)) = i_gid ?i" "sint (word_of_int (i_atime ?i) :: u32) = i_atime ?i"
      "sint (word_of_int (i_mtime ?i) :: u32) = i_mtime ?i" "sint (word_of_int (i_ctime ?i) :: u32) = i_ctime ?i"
    using assms(1) unfolding disk_ok_def by (auto intro!: sint16 sint32 gid16)
  have "new_read norm block_size (new_write norm off ?i (b_data (bufs s bp))) off (inodes s r) =
      (inodes s r)\<lparr>i_mode := i_mode ?i, i_nlinks := i_nlinks ?i, i_uid := i_uid ?i, i_gid := i_gid ?i,
        i_size := i_size ?i, i_atime := i_atime ?i, i_mtime := i_mtime ?i, i_ctime := i_ctime ?i,
        i_ndzones := 7, i_nindirs := unat block_size div 4,
        i_zone := (\<lambda>k. if k < V2_NR_TZONES then i_zone ?i k else i_zone (inodes s r) k)\<rparr>"
    unfolding new_read_def new_write_fields by (simp add: ok new_write_zone cong: if_cong)
  then show "inodes (new_icopy r bp off READING norm block_size s1) r =
      (inodes s r)\<lparr>i_mode := i_mode ?i, i_nlinks := i_nlinks ?i, i_uid := i_uid ?i, i_gid := i_gid ?i,
        i_size := i_size ?i, i_atime := i_atime ?i, i_mtime := i_mtime ?i, i_ctime := i_ctime ?i,
        i_ndzones := 7, i_nindirs := unat block_size div 4,
        i_zone := (\<lambda>k. if k < V2_NR_TZONES then i_zone ?i k else i_zone (inodes s r) k)\<rparr>"
    unfolding assms(2) new_icopy_def by (simp add: upd_ino_def)
  show "\<forall>x. x \<notin> span off 64 \<longrightarrow> b_data (bufs s1 bp) x = b_data (bufs s bp) x"
    unfolding assms(2) new_icopy_def by (simp add: new_write_outside)
qed

definition sample_inode :: inode where
  "sample_inode = zero_inode\<lparr>i_mode := 0x81A4, i_nlinks := 2, i_uid := - 1, i_gid := - 3, i_size := 70000, i_mtime := 1131580800,
     i_zone := (\<lambda>k. 0x12345678 + of_nat k)\<rparr>"

theorem new_icopy_roundtrip_witness:
  "inodes (new_icopy 5 9 128 READING False 1024 (new_icopy 4 9 128 WRITING False 1024 (fs_bss\<lparr>inodes := (\<lambda>_. zero_inode)(4 := sample_inode)\<rparr>))) 5 =
     zero_inode\<lparr>i_mode := 0x81A4, i_nlinks := 2, i_uid := - 1, i_gid := - 3, i_size := 70000, i_mtime := 1131580800, i_ndzones := 7, i_nindirs := 256,
       i_zone := (\<lambda>k. if k < 10 then 0x12345678 + of_nat k else 0)\<rparr>"
proof -
  let ?s = "fs_bss\<lparr>inodes := (\<lambda>_. zero_inode)(4 := sample_inode)\<rparr>"
  have "disk_ok (inodes ?s 4)" by (simp add: disk_ok_def sample_inode_def zero_inode_def)
  note r = new_icopy_roundtrip [OF this refl, of 5 9 128 False 1024]
  show ?thesis using r by (simp add: sample_inode_def zero_inode_def cong: if_cong)
qed

end
