(* ===== verification/Fs_Bitmap.thy ===== *)
theory Fs_Bitmap
  imports Fs_Super Fs_Lru Fs_Disk
begin

unbundle bit_operations_syntax

text \<open>
  The bit maps of inodes and zones, over the buffer cache: the first free bit is allocated, and
  freeing it undoes that.
\<close>

section \<open>Working on a block in the cache\<close>

definition in_cache :: "nat \<Rightarrow> int \<Rightarrow> u32 \<Rightarrow> fsstate \<Rightarrow> bool" where
  "in_cache b dev block s \<longleftrightarrow> b < NR_BUFS \<and> b_dev (bufs s b) = dev \<and> b_blocknr (bufs s b) = block \<and> b_count (bufs s b) < 127"

lemma in_cache_views: "in_cache b dev block s \<longleftrightarrow> b < NR_BUFS \<and> block_of s b = (dev, block) \<and> users_of s b < 127"
  by (auto simp: in_cache_def block_of_def users_of_def)

lemma cores_of_views: "cores s c = (fst (contents s c), snd (block_of s c), fst (block_of s c), snd (contents s c), users_of s c)"
  by (simp add: cores_def core_def contents_def block_of_def users_of_def)

lemma block_session:
  assumes "cache_rep xs s" and "dev \<noteq> NO_DEV" and "in_cache b dev block s"
  shows "\<exists>s1. get_block env dev block mode s = Inr (b, s1) \<and> b_data (bufs s1 b) = b_data (bufs s b) \<and>
    (\<forall>f. \<exists>s2 ys. put_block env (Some b) MAP_BLOCK (upd_buf b (\<lambda>x. x\<lparr>b_data := f (b_data x), b_dirt := True\<rparr>) s1) = Inr s2 \<and> cache_rep ys s2 \<and>
       in_cache b dev block s2 \<and> supers s2 = supers s \<and> fs_log s2 = fs_log s \<and> b_dirt (bufs s2 b) \<and>
       b_data (bufs s2 b) = f (b_data (bufs s b)) \<and> (\<forall>c. c \<noteq> b \<longrightarrow> cores s2 c = cores s c))"
proof -
  have t: "MAP_BLOCK AND NOT WRITE_IMMED = MAP_BLOCK" by simp
  have r: "\<exists>xs. cache_rep xs s" using assms(1) by blast
  have b: "b < NR_BUFS" "block_of s b = (dev, block)" "users_of s b < 127" using assms(3) unfolding in_cache_views by blast+
  obtain s1 where s1: "get_block env dev block mode s = Inr (b, s1)" "contents s1 = contents s" and
    w: "\<And>f. \<exists>s2. put_block env (Some b) MAP_BLOCK (write_buf b f s1) = Inr s2 \<and> (\<exists>ys. cache_rep ys s2) \<and> block_of s2 = block_of s \<and>
      contents s2 = (contents s)(b := f (contents s b)) \<and> users_of s2 = users_of s \<and> (supers s2, fs_log s2) = (supers s, fs_log s)"
    using bc.session [OF r b(1,2) assms(2) b(3), of env mode MAP_BLOCK] unfolding t by blast
  have "\<exists>s2 ys. put_block env (Some b) MAP_BLOCK (upd_buf b (\<lambda>x. x\<lparr>b_data := f (b_data x), b_dirt := True\<rparr>) s1) = Inr s2 \<and> cache_rep ys s2 \<and>
       in_cache b dev block s2 \<and> supers s2 = supers s \<and> fs_log s2 = fs_log s \<and> b_dirt (bufs s2 b) \<and>
       b_data (bufs s2 b) = f (b_data (bufs s b)) \<and> (\<forall>c. c \<noteq> b \<longrightarrow> cores s2 c = cores s c)" for f
  proof -
    have e: "write_buf b (\<lambda>(d, _). (f d, True)) s1 = upd_buf b (\<lambda>x. x\<lparr>b_data := f (b_data x), b_dirt := True\<rparr>) s1" by (simp add: write_buf_def)
    obtain s2 ys where s2: "put_block env (Some b) MAP_BLOCK (write_buf b (\<lambda>(d, _). (f d, True)) s1) = Inr s2" "cache_rep ys s2" "block_of s2 = block_of s"
        "contents s2 = (contents s)(b := (f (b_data (bufs s b)), True))" "users_of s2 = users_of s" "supers s2 = supers s" "fs_log s2 = fs_log s"
      using w [of "\<lambda>(d, _). (f d, True)"] by (auto simp: contents_def)
    have "contents s2 b = (f (b_data (bufs s b)), True)" using s2(4) by simp
    then have "b_data (bufs s2 b) = f (b_data (bufs s b))" "b_dirt (bufs s2 b)" by (simp_all add: contents_def)
    then show ?thesis using s2 b unfolding e by (intro exI [of _ s2] exI [of _ ys]) (auto simp: in_cache_views cores_of_views)
  qed
  moreover have "b_data (bufs s1 b) = b_data (bufs s b)" using s1(2) by (metis contents_def prod.inject)
  ultimately show ?thesis using s1(1) by blast
qed

section \<open>Bits of a block\<close>

definition mapbit :: "bool \<Rightarrow> mem \<Rightarrow> nat \<Rightarrow> bool" where
  "mapbit native d n \<longleftrightarrow> bit (conv2 native (get16 d (2 * of_nat (n div 16)))) (n mod 16)"

lemma conv2_full: "conv2 native x = 0xFFFF \<longleftrightarrow> x = 0xFFFF"
proof -
  have "conv2 native 0xFFFF = 0xFFFF" by (cases native) (simp_all add: conv2_def)
  then show ?thesis using conv2_conv2 by metis
qed

lemma low_zero_spec:
  assumes "k \<noteq> (0xFFFF :: u16)"
  shows "find (\<lambda>i. \<not> bit k i) [0..<16] = Some (low_zero k)"
proof (cases "find (\<lambda>i. \<not> bit k i) [0..<16]")
  case None
  then have "\<forall>i < 16. bit k i" unfolding find_None_iff by auto
  then have "k = mask 16" by (intro bit_word_eqI) (auto simp: bit_mask_iff)
  then show ?thesis using assms by (simp add: mask_eq_exp_minus_1)
qed (simp add: low_zero_def)

lemma find_shift: "find P (map (\<lambda>i. m + i) xs) = map_option (\<lambda>i. m + i) (find (\<lambda>i. P (m + i)) xs)" for m :: nat
  by (induction xs) auto

lemma find_block:
  "find (\<lambda>j. \<not> mapbit native d j) [16 * m..<16 * m + 16] =
     (if get16 d (2 * of_nat m) = 0xFFFF then None else Some (16 * m + low_zero (conv2 native (get16 d (2 * of_nat m)))))"
proof -
  let ?k = "conv2 native (get16 d (2 * of_nat m))"
  have e: "[16 * m..<16 * m + 16] = map (\<lambda>i. 16 * m + i) [0..<16]" by (rule nth_equalityI) simp_all
  have "mapbit native d (16 * m + i) \<longleftrightarrow> bit ?k i" if "i < 16" for i using that by (simp add: mapbit_def)
  then have "find (\<lambda>i. \<not> mapbit native d (16 * m + i)) [0..<16] = find (\<lambda>i. \<not> bit ?k i) [0..<16]" by (intro find_cong) auto
  moreover have "find (\<lambda>j. \<not> mapbit native d j) (map (\<lambda>i. 16 * m + i) [0..<16]) = map_option (\<lambda>i. 16 * m + i) (find (\<lambda>i. \<not> mapbit native d (16 * m + i)) [0..<16])"
    by (rule find_shift)
  ultimately have r: "find (\<lambda>j. \<not> mapbit native d j) [16 * m..<16 * m + 16] = map_option (\<lambda>i. 16 * m + i) (find (\<lambda>i. \<not> bit ?k i) [0..<16])"
    unfolding e by metis
  show ?thesis
  proof (cases "get16 d (2 * of_nat m) = 0xFFFF")
    case True
    then have "?k = mask 16" using conv2_full [of native] by (simp add: mask_eq_exp_minus_1)
    then have "find (\<lambda>i. \<not> bit ?k i) [0..<16] = None" unfolding find_None_iff by (auto simp: bit_mask_iff)
    then show ?thesis unfolding r using True by simp
  next
    case False
    then have "?k \<noteq> 0xFFFF" using conv2_full by blast
    then show ?thesis unfolding r low_zero_spec [OF \<open>?k \<noteq> 0xFFFF\<close>] using False by simp
  qed
qed

lemma scan_words_spec:
  assumes "m \<le> n"
  shows "scan_words native d base limit (map of_nat [m..<n]) =
    (case find (\<lambda>j. \<not> mapbit native d j) [16 * m..<16 * n] of
       None \<Rightarrow> None
     | Some j \<Rightarrow> if limit \<le> base + of_nat j then None
         else Some (of_nat (j div 16), conv2 native (conv2 native (get16 d (2 * of_nat (j div 16))) OR push_bit (j mod 16) 1), base + of_nat j))"
  using assms
proof (induction "n - m" arbitrary: m)
  case (Suc k)
  have mn: "[m..<n] = m # [Suc m..<n]" using Suc by (simp add: upt_conv_Cons)
  have "[16 * m..<16 * n] = [16 * m..<16 * m + 16] @ [16 * m + 16..<16 * n]" 
    using Suc upt_add_eq_append [of "16 * m" "16 * m + 16" "16 * n - (16 * m + 16)"] by auto
  then have sp: "[16 * m..<16 * n] = [16 * m..<16 * m + 16] @ [16 * Suc m..<16 * n]" by (simp add: add.commute)
  have f: "find P (xs @ ys) = (case find P xs of None \<Rightarrow> find P ys | Some x \<Rightarrow> Some x)" for P and xs ys :: "nat list"
    by (induction xs) auto
  show ?case
  proof (cases "get16 d (2 * of_nat m) = 0xFFFF")
    case True
    then show ?thesis using Suc.hyps(1) [of "Suc m"] Suc.hyps(2) unfolding mn sp f find_block by simp
  next
    case False
    have "low_zero (conv2 native (get16 d (2 * of_nat m))) < 16"
      using low_zero_spec [of "conv2 native (get16 d (2 * of_nat m))"] False conv2_full [of native "get16 d (2 * of_nat m)"] by (auto simp: find_Some_iff)
    then show ?thesis using False unfolding mn sp f find_block by (simp add: Let_def algebra_simps)
  qed
qed simp

lemma get16_put16_word:
  assumes "v < 2 ^ 16" and "w < 2 ^ 16" and "v \<noteq> w"
  shows "get16 (put16 (2 * of_nat v) x d) (2 * of_nat w) = get16 d (2 * of_nat w)"
proof -
  have u: "unat (2 * of_nat a - 2 * of_nat b :: u32) = 2 * (a - b)" if "b \<le> a" "a < 2 ^ 16" for a b :: nat
  proof -
    have "2 * of_nat a - 2 * of_nat b = (of_nat (2 * (a - b)) :: u32)" using that by (simp add: of_nat_diff algebra_simps)
    then show ?thesis using that by (simp add: unat_of_nat del: of_nat_mult)
  qed
  have v: "unat (2 * of_nat a - 2 * of_nat b :: u32) = 2 ^ 32 - 2 * (b - a)" if "a < b" "b < 2 ^ 16" for a b :: nat
    using unat_sub_if_size [of "0 :: u32" "2 * of_nat b - 2 * of_nat a"] u [of a b] that by (simp add: word_size)
  show ?thesis using u [of v w] u [of w v] v [of v w] v [of w v] assms by (intro get_put_apart(4)) (cases "v < w"; simp)+
qed

lemma mapbit_put:
  assumes "i < 2 ^ 20" and "j < 2 ^ 20"
  shows "mapbit native (put16 (2 * of_nat (j div 16)) (conv2 native v) d) i = (if i div 16 = j div 16 then bit v (i mod 16) else mapbit native d i)"
  using assms get16_put16_word [of "j div 16" "i div 16"] by (auto simp: mapbit_def)

lemma mapbit_set:
  assumes "i < 2 ^ 20" and "j < 2 ^ 20"
  shows "mapbit native (put16 (2 * of_nat (j div 16)) (conv2 native (conv2 native (get16 d (2 * of_nat (j div 16))) OR push_bit (j mod 16) 1)) d) i \<longleftrightarrow>
    i = j \<or> mapbit native d i"
proof -
  have "i div 16 = j div 16 \<Longrightarrow> i mod 16 = j mod 16 \<longleftrightarrow> i = j" by (metis div_mult_mod_eq)
  then show ?thesis unfolding mapbit_put [OF assms] by (auto simp: mapbit_def bit_simps)
qed

lemma mapbit_clear:
  assumes "i < 2 ^ 20" and "j < 2 ^ 20"
  shows "mapbit native (put16 (2 * of_nat (j div 16)) (conv2 native (conv2 native (get16 d (2 * of_nat (j div 16))) AND NOT (push_bit (j mod 16) 1))) d) i \<longleftrightarrow>
    i \<noteq> j \<and> mapbit native d i"
proof -
  have "i div 16 = j div 16 \<Longrightarrow> i mod 16 = j mod 16 \<longleftrightarrow> i = j" by (metis div_mult_mod_eq)
  then show ?thesis unfolding mapbit_put [OF assms] by (auto simp: mapbit_def bit_simps)
qed

section \<open>Allocation\<close>

lemma bits_small: "bits_per_block p = of_nat (16 * (unat (s_block_size p) div 2))" "unat (bits_per_block p) = 16 * (unat (s_block_size p) div 2)"
  "16 * (unat (s_block_size p) div 2) < 2 ^ 20"
proof -
  have l: "unat (s_block_size p) < 2 ^ 16" using unsigned_less [where w = "s_block_size p" and ?'a = nat] by simp
  then show s: "16 * (unat (s_block_size p) div 2) < 2 ^ 20" by simp
  have "unat (ucast (s_block_size p) div 2 :: u32) = unat (s_block_size p) div 2" 
    using l by (simp add: unat_div unsigned_ucast_eq take_bit_nat_eq_self)
  then have "ucast (s_block_size p) div 2 = (of_nat (unat (s_block_size p) div 2) :: u32)" using l by (simp add: word_unat_eq_iff unat_of_nat)
  then show e: "bits_per_block p = of_nat (16 * (unat (s_block_size p) div 2))" by (simp add: bits_per_block_def algebra_simps)
  show "unat (bits_per_block p) = 16 * (unat (s_block_size p) div 2)" unfolding e using s by (simp add: unat_of_nat del: of_nat_mult)
qed

text \<open>The bit of a map, its block and its place in the block.\<close>

lemma bit_place:
  fixes bpb q :: u32
  assumes "unat q * unat bpb + j < 2 ^ 32" and "j < unat bpb" and "16 dvd unat bpb"
  shows "(q * bpb + of_nat j) div bpb = q" "(q * bpb + of_nat j) mod bpb = of_nat j" "unat ((q * bpb + of_nat j) mod 16) = j mod 16"
    "unat (q * bpb + of_nat j) = unat q * unat bpb + j"
proof -
  have j: "unat (of_nat j :: u32) = j" using assms(1) by (simp add: unat_of_nat)
  have m: "unat (q * bpb) = unat q * unat bpb" using assms(1) by (simp add: unat_word_ariths)
  show u: "unat (q * bpb + of_nat j) = unat q * unat bpb + j" using assms(1) m j by (simp add: unat_word_ariths(1))
  have "unat ((q * bpb + of_nat j) div bpb) = unat q" unfolding unat_div u using assms(2) by simp
  then show "(q * bpb + of_nat j) div bpb = q" by (simp add: word_unat_eq_iff)
  have "unat ((q * bpb + of_nat j) mod bpb) = unat (of_nat j :: u32)" unfolding unat_mod u j using assms(2) by simp
  then show "(q * bpb + of_nat j) mod bpb = of_nat j" by (simp add: word_unat_eq_iff)
  have "(unat q * unat bpb + j) mod 16 = j mod 16" using assms(3) by (metis dvd_imp_mod_0 dvd_mult mod_add_left_eq plus_nat.add_0)
  then show "unat ((q * bpb + of_nat j) mod 16) = j mod 16" unfolding unat_mod u by simp
qed

lemma find_upt:
  assumes "a \<le> j" and "j < n" and "P j" and "\<And>i. a \<le> i \<Longrightarrow> i < j \<Longrightarrow> \<not> P i"
  shows "find P [a..<n] = Some (j :: nat)"
proof -
  have e: "[a..<n] = [a..<j] @ j # [Suc j..<n]" using assms(1,2) upt_add_eq_append [of a j "n - j"] by (simp add: upt_conv_Cons)
  have "find P [a..<j] = None" using assms(4) by (auto simp: find_None_iff)
  moreover have "find P (xs @ ys) = (case find P xs of None \<Rightarrow> find P ys | Some x \<Rightarrow> Some x)" for xs ys by (induction xs) auto
  ultimately show ?thesis unfolding e using assms(3) by simp
qed

text \<open>The block of a bit, and the first free bit of that block at or after the word of the origin.\<close>

definition first_free :: "super_block \<Rightarrow> mem \<Rightarrow> u32 \<Rightarrow> nat \<Rightarrow> bool" where
  "first_free p d origin j \<longleftrightarrow> (let n = unat (bits_per_block p); a = 16 * (unat origin mod n div 16) in
     a \<le> j \<and> j < n \<and> \<not> mapbit (s_native p) d j \<and> (\<forall>i. a \<le> i \<longrightarrow> i < j \<longrightarrow> mapbit (s_native p) d i))"

lemma alloc_bit_scan:
  assumes "cache_rep xs s" and "p = supers s sp" and "\<not> s_rd_only p" and "s_dev p \<noteq> NO_DEV"
    and "q = origin div bits_per_block p" and "in_cache b (s_dev p) (map_start m p + q) s" and "origin < map_bits m p"
    and "first_free p (b_data (bufs s b)) origin j" and "unat q * unat (bits_per_block p) + j < unat (map_bits m p)"
  shows "\<exists>s' ys. alloc_bit env sp m origin s = Inr (q * bits_per_block p + of_nat j, s') \<and> cache_rep ys s' \<and> in_cache b (s_dev p) (map_start m p + q) s' \<and>
    supers s' = supers s \<and> fs_log s' = fs_log s \<and> b_dirt (bufs s' b) \<and> (\<forall>c. c \<noteq> b \<longrightarrow> cores s' c = cores s c) \<and>
    (\<forall>i < unat (bits_per_block p). mapbit (s_native p) (b_data (bufs s' b)) i \<longleftrightarrow> i = j \<or> mapbit (s_native p) (b_data (bufs s b)) i)"
proof -
  let ?n = "unat (s_block_size p) div 2" let ?d = "b_data (bufs s b)" let ?B = "bits_per_block p"
  define v where "v = conv2 (s_native p) (conv2 (s_native p) (get16 ?d (2 * of_nat (j div 16))) OR push_bit (j mod 16) 1)"
  note bs = bits_small [of p]
  define w where "w = (origin mod ?B) div 16"
  have w: "unat w = unat origin mod (16 * ?n) div 16" unfolding w_def unat_div unat_mod bs(2) by simp
  have j: "j < 16 * ?n" "16 * unat w \<le> j" using assms(8) unfolding first_free_def Let_def bs(2) w by auto
  have f: "find (\<lambda>j. \<not> mapbit (s_native p) ?d j) [16 * unat w..<16 * ?n] = Some j"
    using assms(8) j unfolding first_free_def Let_def bs(2) w by (intro find_upt) auto
  have u: "unat (q * ?B + of_nat j) = unat q * unat ?B + j"
    using assms(9) unsigned_less [where w = "map_bits m p" and ?'a = nat] j by (intro bit_place(4)) (auto simp: bs(2))
  then have lim: "\<not> map_bits m p \<le> q * ?B + of_nat j" using assms(9) by (simp add: word_le_nat_alt)
  have sc: "scan_words (s_native p) ?d (q * ?B) (map_bits m p) (block_words w p) = Some (of_nat (j div 16), v, q * ?B + of_nat j)"
    using scan_words_spec [of "unat w" ?n "s_native p" ?d "q * ?B" "map_bits m p"] f lim j by (simp add: block_words_def v_def)
  from block_session [OF assms(1,4,6), of env NORMAL] obtain s1 where
    s1: "get_block env (s_dev p) (map_start m p + q) NORMAL s = Inr (b, s1)" "b_data (bufs s1 b) = ?d" and
    pb: "\<And>f. \<exists>s2 ys. put_block env (Some b) MAP_BLOCK (upd_buf b (\<lambda>x. x\<lparr>b_data := f (b_data x), b_dirt := True\<rparr>) s1) = Inr s2 \<and> cache_rep ys s2 \<and>
       in_cache b (s_dev p) (map_start m p + q) s2 \<and> supers s2 = supers s \<and> fs_log s2 = fs_log s \<and> b_dirt (bufs s2 b) \<and>
       b_data (bufs s2 b) = f ?d \<and> (\<forall>c. c \<noteq> b \<longrightarrow> cores s2 c = cores s c)"
    by blast
  obtain s2 ys where s2: "put_block env (Some b) MAP_BLOCK (upd_buf b (\<lambda>x. x\<lparr>b_data := put16 (2 * of_nat (j div 16)) v (b_data x), b_dirt := True\<rparr>) s1) = Inr s2"
      "cache_rep ys s2" "in_cache b (s_dev p) (map_start m p + q) s2" "supers s2 = supers s" "fs_log s2 = fs_log s" "b_dirt (bufs s2 b)"
      "b_data (bufs s2 b) = put16 (2 * of_nat (j div 16)) v ?d" "\<forall>c. c \<noteq> b \<longrightarrow> cores s2 c = cores s c"
    using pb [of "put16 (2 * of_nat (j div 16)) v"] by blast
  have "alloc_bit env sp m origin s = Inr (q * ?B + of_nat j, s2)"
    using s1 s2(1) sc assms(3) assms(7) [folded not_le] by (simp add: alloc_bit_def Let_def assms(2) [symmetric] assms(5) [symmetric] w_def)
  moreover have "\<forall>i < unat ?B. mapbit (s_native p) (b_data (bufs s2 b)) i \<longleftrightarrow> i = j \<or> mapbit (s_native p) ?d i"
    unfolding s2(7) v_def bs(2) using mapbit_set bs(3) j by simp
  ultimately show ?thesis using s2 by blast
qed

lemma free_bit_clears:
  assumes "cache_rep xs s" and "p = supers s sp" and "\<not> s_rd_only p" and "s_dev p \<noteq> NO_DEV" and "in_cache b (s_dev p) (map_start m p + q) s"
    and "j < unat (bits_per_block p)" and "unat q * unat (bits_per_block p) + j < 2 ^ 32" and "mapbit (s_native p) (b_data (bufs s b)) j"
  shows "\<exists>s' ys. free_bit env sp m (q * bits_per_block p + of_nat j) s = Inr s' \<and> cache_rep ys s' \<and> fs_log s' = fs_log s \<and>
    (\<forall>c. c \<noteq> b \<longrightarrow> cores s' c = cores s c) \<and>
    (\<forall>i < unat (bits_per_block p). mapbit (s_native p) (b_data (bufs s' b)) i \<longleftrightarrow> i \<noteq> j \<and> mapbit (s_native p) (b_data (bufs s b)) i)"
proof -
  let ?d = "b_data (bufs s b)" let ?B = "bits_per_block p"
  note bs = bits_small [of p]
  have "16 dvd unat ?B" unfolding bs(2) by simp
  note pl = bit_place [OF assms(7,6) this]
  have j: "unat (of_nat j :: u32) = j" using assms(7) by (simp add: unat_of_nat)
  have dv: "of_nat j div 16 = (of_nat (j div 16) :: u32)"
  proof -
    have "unat (of_nat (j div 16) :: u32) = j div 16" using assms(7) by (simp add: unat_of_nat)
    then show ?thesis by (simp add: word_unat_eq_iff unat_div j)
  qed
  define k where "k = conv2 (s_native p) (get16 ?d (2 * of_nat (j div 16)))"
  have nz: "k AND push_bit (j mod 16) 1 \<noteq> 0" using assms(8) unfolding k_def mapbit_def by (simp add: and_exp_eq_0_iff_not_bit push_bit_eq_mult)
  from block_session [OF assms(1,4,5), of env NORMAL] obtain s1 where
    s1: "get_block env (s_dev p) (map_start m p + q) NORMAL s = Inr (b, s1)" "b_data (bufs s1 b) = ?d" and
    pb: "\<And>f. \<exists>s2 ys. put_block env (Some b) MAP_BLOCK (upd_buf b (\<lambda>x. x\<lparr>b_data := f (b_data x), b_dirt := True\<rparr>) s1) = Inr s2 \<and> cache_rep ys s2 \<and>
       in_cache b (s_dev p) (map_start m p + q) s2 \<and> supers s2 = supers s \<and> fs_log s2 = fs_log s \<and> b_dirt (bufs s2 b) \<and>
       b_data (bufs s2 b) = f ?d \<and> (\<forall>c. c \<noteq> b \<longrightarrow> cores s2 c = cores s c)"
    by blast
  let ?v = "conv2 (s_native p) (k AND NOT (push_bit (j mod 16) 1))"
  obtain s2 ys where s2: "put_block env (Some b) MAP_BLOCK (upd_buf b (\<lambda>x. x\<lparr>b_data := put16 (2 * of_nat (j div 16)) ?v (b_data x), b_dirt := True\<rparr>) s1) = Inr s2"
      "cache_rep ys s2" "fs_log s2 = fs_log s" "b_data (bufs s2 b) = put16 (2 * of_nat (j div 16)) ?v ?d" "\<forall>c. c \<noteq> b \<longrightarrow> cores s2 c = cores s c"
    using pb [of "put16 (2 * of_nat (j div 16)) ?v"] by blast
  have "free_bit env sp m (q * ?B + of_nat j) s = Inr s2"
    using s1 s2(1) assms(3) nz unfolding free_bit_def Let_def assms(2) [symmetric] pl dv by (simp add: k_def)
  moreover have "\<forall>i < unat ?B. mapbit (s_native p) (b_data (bufs s2 b)) i \<longleftrightarrow> i \<noteq> j \<and> mapbit (s_native p) ?d i"
    unfolding s2(4) k_def bs(2) using mapbit_clear bs(3) assms(6) [unfolded bs(2)] by simp
  ultimately show ?thesis using s2 by blast
qed

section \<open>Properties\<close>

text \<open>
  C34: allocating and freeing a bit of a map. If the block of the map for the origin is in the cache and has a
  free bit at or after the origin's word, inside the map and other than bit 0 of the map (which stands for
  \<open>NO_BIT\<close>), then \<open>alloc_bit\<close> returns the number of the first such bit, which is not \<open>NO_BIT\<close>, sets it and no
  other bit, marks the block dirty, asks no driver anything and keeps the cache in order; and \<open>free_bit\<close> for the
  number that it returned makes the map what it was.
\<close>

theorem alloc_then_free_bit:
  assumes "cache_rep xs s" and "p = supers s sp" and "\<not> s_rd_only p" and "s_dev p \<noteq> NO_DEV"
    and "q = origin div bits_per_block p" and "in_cache b (s_dev p) (map_start m p + q) s" and "origin < map_bits m p"
    and "first_free p (b_data (bufs s b)) origin j" and "unat q * unat (bits_per_block p) + j < unat (map_bits m p)"
    and "0 < unat q * unat (bits_per_block p) + j"
  shows "\<exists>s1 s2 ys zs. alloc_bit env sp m origin s = Inr (q * bits_per_block p + of_nat j, s1) \<and>
    q * bits_per_block p + of_nat j \<noteq> NO_BIT \<and> cache_rep ys s1 \<and> fs_log s1 = fs_log s \<and> b_dirt (bufs s1 b) \<and>
    (\<forall>i < unat (bits_per_block p). mapbit (s_native p) (b_data (bufs s1 b)) i \<longleftrightarrow> i = j \<or> mapbit (s_native p) (b_data (bufs s b)) i) \<and>
    free_bit env sp m (q * bits_per_block p + of_nat j) s1 = Inr s2 \<and> cache_rep zs s2 \<and> fs_log s2 = fs_log s \<and>
    (\<forall>i < unat (bits_per_block p). mapbit (s_native p) (b_data (bufs s2 b)) i \<longleftrightarrow> mapbit (s_native p) (b_data (bufs s b)) i) \<and>
    (\<forall>c. c \<noteq> b \<longrightarrow> cores s2 c = cores s c)"
proof -
  obtain s1 ys where 1: "alloc_bit env sp m origin s = Inr (q * bits_per_block p + of_nat j, s1)" "cache_rep ys s1"
      "in_cache b (s_dev p) (map_start m p + q) s1" "supers s1 = supers s" "fs_log s1 = fs_log s" "b_dirt (bufs s1 b)" "\<forall>c. c \<noteq> b \<longrightarrow> cores s1 c = cores s c"
      "\<forall>i < unat (bits_per_block p). mapbit (s_native p) (b_data (bufs s1 b)) i \<longleftrightarrow> i = j \<or> mapbit (s_native p) (b_data (bufs s b)) i"
    using alloc_bit_scan [OF assms(1-9), of env] by blast
  have j: "j < unat (bits_per_block p)" "\<not> mapbit (s_native p) (b_data (bufs s b)) j" using assms(8) unfolding first_free_def Let_def by auto
  have l: "unat q * unat (bits_per_block p) + j < 2 ^ 32" using assms(9) unsigned_less [where w = "map_bits m p" and ?'a = nat] by simp
  have "unat (q * bits_per_block p + of_nat j) = unat q * unat (bits_per_block p) + j"
    using l by (simp add: unat_word_ariths unat_of_nat)
  then have nz: "q * bits_per_block p + of_nat j \<noteq> NO_BIT" using assms(10) by auto
  have "p = supers s1 sp" "mapbit (s_native p) (b_data (bufs s1 b)) j" using 1(4,8) assms(2) j by simp_all
  from free_bit_clears [OF 1(2) this(1) assms(3,4) 1(3) j(1) l this(2), of env] obtain s2 zs where
    2: "free_bit env sp m (q * bits_per_block p + of_nat j) s1 = Inr s2" "cache_rep zs s2" "fs_log s2 = fs_log s1" "\<forall>c. c \<noteq> b \<longrightarrow> cores s2 c = cores s1 c"
      "\<forall>i < unat (bits_per_block p). mapbit (s_native p) (b_data (bufs s2 b)) i \<longleftrightarrow> i \<noteq> j \<and> mapbit (s_native p) (b_data (bufs s1 b)) i"
    by blast
  have "\<forall>i < unat (bits_per_block p). mapbit (s_native p) (b_data (bufs s2 b)) i \<longleftrightarrow> mapbit (s_native p) (b_data (bufs s b)) i"
    using 1(8) 2(5) j(2) by auto
  then show ?thesis using 1 2 nz by (intro exI [of _ s1] exI [of _ s2] exI [of _ ys] exI [of _ zs]) simp
qed

text \<open>Buffer 0 holds block 2 of device 3, the map of inodes; the first five inodes are in use.\<close>

definition sample_super :: super_block where
  "sample_super = zero_super\<lparr>s_ninodes := 100, s_imap_blocks := 1, s_block_size := 1024, s_dev := 3, s_native := True\<rparr>"

definition sample_map :: fsstate where
  "sample_map = (let s = get_free_buf quiet_env 3 2 NO_READ (buf_pool fs_bss) in
     case s of Inr (b, s1) \<Rightarrow> (upd_buf b (\<lambda>x. x\<lparr>b_data := (\<lambda>_. 0)(0 := 0x1F), b_dirt := True\<rparr>) s1)\<lparr>supers := (\<lambda>_. sample_super)\<rparr> | Inl _ \<Rightarrow> fs_bss)"

lemma cache_rep_supers: "cache_rep xs (s\<lparr>supers := f\<rparr>) = cache_rep xs s"
proof -
  have "bnx (s\<lparr>supers := f\<rparr>) = bnx s" "bpv (s\<lparr>supers := f\<rparr>) = bpv s" "bhx (s\<lparr>supers := f\<rparr>) = bhx s"
    by (simp_all add: fun_eq_iff bnx_def bpv_def bhx_def)
  then show ?thesis by (simp add: cache_rep_def lru_rep_def hash_rep_def one_each_def)
qed

lemma sample_map_ok:
  "\<exists>xs. cache_rep xs sample_map" "in_cache 0 3 2 sample_map" "supers sample_map 0 = sample_super" "b_data (bufs sample_map 0) = (\<lambda>_. 0)(0 := 0x1F)"
proof -
  have m: "cached 3 2 (buf_pool fs_bss) = None \<or> (3 :: int) = NO_DEV" by (simp add: cached_None buf_pool_def Let_def)
  have "b_dev (bufs (buf_pool fs_bss) 0) = NO_DEV" by (simp add: buf_pool_def Let_def)
  then obtain s1 where s1: "get_free_buf quiet_env 3 2 NO_READ (buf_pool fs_bss) = Inr (0, s1)"
    using get_free_buf_outcome(2) [OF pool_bss_first m, of NO_READ quiet_env] by auto
  then have o: "cache_rep [Suc 0..<NR_BUFS] s1" "refilled 3 2 NO_READ 0 (buf_pool fs_bss) s1"
    using get_free_buf_outcome(1) [OF pool_bss_first m] by blast+
  let ?f = "upd_buf 0 (\<lambda>x. x\<lparr>b_data := (\<lambda>_. 0)(0 := 0x1F), b_dirt := True\<rparr>) s1"
  have s: "sample_map = ?f\<lparr>supers := (\<lambda>_. sample_super)\<rparr>" unfolding sample_map_def s1 by simp
  have "?f = write_buf 0 (\<lambda>_. ((\<lambda>_. 0)(0 := 0x1F), True)) s1" by (simp add: write_buf_def)
  then have "cache_rep [Suc 0..<NR_BUFS] ?f" using o(1) cache_rep_data by metis
  then show "\<exists>xs. cache_rep xs sample_map" unfolding s cache_rep_supers by blast
  show "in_cache 0 3 2 sample_map" "supers sample_map 0 = sample_super" "b_data (bufs sample_map 0) = (\<lambda>_. 0)(0 := 0x1F)"
    using o(2) unfolding s by (simp_all add: in_cache_def refilled_def)
qed

lemma sample_super_bits: "unat (bits_per_block sample_super) = 8192" "map_bits IMAP sample_super = 101" "map_start IMAP sample_super = 2"
  unfolding bits_small(2) by (simp_all add: sample_super_def map_bits_def map_start_def zero_super_def)

theorem alloc_then_free_bit_witness:
  "\<exists>s1 s2. alloc_bit quiet_env 0 IMAP 0 sample_map = Inr (5, s1) \<and> free_bit quiet_env 0 IMAP 5 s1 = Inr s2 \<and>
     mapbit True (b_data (bufs s1 0)) 5 \<and> \<not> mapbit True (b_data (bufs s2 0)) 5"
proof -
  obtain xs where c: "cache_rep xs sample_map" using sample_map_ok(1) by blast
  have mb: "mapbit True (b_data (bufs sample_map 0)) i \<longleftrightarrow> i < 5" if "i < 16" for i
  proof -
    have k: "get16 ((\<lambda>_. 0)(0 := 0x1F)) 0 = (mask 5 :: u16)" by (simp add: get16_def mask_eq_exp_minus_1)
    have "mapbit True (b_data (bufs sample_map 0)) i = bit (mask 5 :: u16) i" unfolding sample_map_ok(4) mapbit_def using that k by (simp add: conv2_def)
    then show ?thesis using that by (simp add: bit_mask_iff)
  qed
  have sup: "s_dev sample_super = 3" "s_native sample_super" "\<not> s_rd_only sample_super" by (simp_all add: sample_super_def zero_super_def)
  have q: "(0 :: u32) = 0 div bits_per_block sample_super" by simp
  have ff: "first_free sample_super (b_data (bufs sample_map 0)) 0 5"
    unfolding first_free_def Let_def sample_super_bits using mb sup by simp
  have ic: "in_cache 0 (s_dev sample_super) (map_start IMAP sample_super + 0) sample_map" using sample_map_ok(2) sup sample_super_bits by simp
  have "(0 :: u32) < map_bits IMAP sample_super" "unat (0 :: u32) * unat (bits_per_block sample_super) + 5 < unat (map_bits IMAP sample_super)"
    "0 < unat (0 :: u32) * unat (bits_per_block sample_super) + 5" "s_dev sample_super \<noteq> NO_DEV" using sample_super_bits sup by simp_all
  from alloc_then_free_bit [OF c sample_map_ok(3) [symmetric] sup(3) this(4) q ic this(1) ff this(2,3), of quiet_env]
  obtain s1 s2 where r: "alloc_bit quiet_env 0 IMAP 0 sample_map = Inr (5, s1)" "free_bit quiet_env 0 IMAP 5 s1 = Inr s2"
      "\<forall>i < unat (bits_per_block sample_super). mapbit (s_native sample_super) (b_data (bufs s1 0)) i \<longleftrightarrow> i = 5 \<or> mapbit (s_native sample_super) (b_data (bufs sample_map 0)) i"
      "\<forall>i < unat (bits_per_block sample_super). mapbit (s_native sample_super) (b_data (bufs s2 0)) i \<longleftrightarrow> mapbit (s_native sample_super) (b_data (bufs sample_map 0)) i"
    by auto
  then have "mapbit True (b_data (bufs s1 0)) 5" "\<not> mapbit True (b_data (bufs s2 0)) 5" using sup mb [of 5] sample_super_bits by auto
  then show ?thesis using r by blast
qed

end
