(* ===== verification/Fs_Miss.thy ===== *)
theory Fs_Miss
  imports Fs_Lru Fs_Sort
begin

unbundle bit_operations_syntax

text \<open>
  A block that is not in the cache, with drivers that answer: what is asked of them, what is read, and
  that the dirty blocks of a device are written before a buffer of the device is used again.
\<close>

declare rw_loop_scat.simps [simp del]

section \<open>Drivers that answer\<close>

lemma fs_tell_log [simp]: "fs_log (fs_tell r s) = fs_log s @ [r]" "dmaps (fs_tell r s) = dmaps s" "supers (fs_tell r s) = supers s"
  "bufs (fs_tell r s) = bufs s" "rdwt_err (fs_tell r s) = rdwt_err s"
  by (simp_all add: fs_tell_def)

lemma gen_io_answer:
  assumes "a = env (fs_log s) (RqSendrec t m adr dat)" and "a_res a = OK" and "int_field m 1 = p" and "isokprocnr p"
    and "REP_PROC_NR (a_msg a) = p"
  shows "gen_io env t m adr dat s = Inr ((a_msg a, (a_words a, a_bytes a)), fs_tell (RqSendrec t m adr dat) s)"
proof -
  have "gen_send env t m adr dat s = Some (Inr (Some (OK, a_msg a, (a_words a, a_bytes a)), fs_tell (RqSendrec t m adr dat) s))"
    using assms(1,2) by (subst gen_send.simps) (simp add: fs_ask_tell)
  moreover have "gen_wait env t p OK (a_msg a) (a_words a, a_bytes a) s1 = Some (Inr ((a_msg a, (a_words a, a_bytes a)), s1))" for s1
    using assms(5) by (subst gen_wait.simps) simp
  ultimately show ?thesis using assms(3,4) by (simp add: gen_io_def)
qed

text \<open>The request for a transfer between a device and the buffers, and an answer to it.\<close>

definition disk_req :: "int \<Rightarrow> int \<Rightarrow> u32 \<Rightarrow> int \<Rightarrow> u8 list list \<Rightarrow> fsstate \<Rightarrow> fs_req" where
  "disk_req op dev pos n dat s =
     RqSendrec (dmap_driver (dmaps s (major dev))) (dev_mess op dev FS_PROC_NR BufMem pos n 0) BufMem dat"

definition answered :: "fs_ans \<Rightarrow> bool" where
  "answered a \<longleftrightarrow> a_res a = OK \<and> REP_PROC_NR (a_msg a) = FS_PROC_NR \<and> REP_STATUS (a_msg a) \<noteq> SUSPEND"

definition has_driver :: "int \<Rightarrow> fsstate \<Rightarrow> bool" where
  "has_driver dev s \<longleftrightarrow> major dev < NR_DEVICES \<and> dmap_io (dmaps s (major dev)) = GenIo"

lemma dev_io_answer:
  assumes "has_driver dev s" and "a = env (fs_log s) (disk_req op dev pos n dat s)" and "answered a"
  shows "dev_io env op dev FS_PROC_NR BufMem dat pos n 0 s =
    Inr ((REP_STATUS (a_msg a), (a_words a, a_bytes a)), fs_tell (disk_req op dev pos n dat s) s)"
proof -
  let ?m = "dev_mess op dev FS_PROC_NR BufMem pos n 0"
  have p: "int_field ?m 1 = FS_PROC_NR" by (simp add: int_field_def dev_mess_def)
  have "gen_io env (dmap_driver (dmaps s (major dev))) ?m BufMem dat s =
      Inr ((a_msg a, (a_words a, a_bytes a)), fs_tell (disk_req op dev pos n dat s) s)"
    using assms(2,3) p unfolding disk_req_def answered_def by (intro gen_io_answer) (simp_all add: isokprocnr_def)
  then show ?thesis using assms(1,3)
    by (simp add: dev_io_def dmap_at_def has_driver_def call_io_def answered_def)
qed

section \<open>What getting a buffer leaves alone\<close>

definition rest :: "fsstate \<Rightarrow> _" where
  "rest s = (fs_log s, dmaps s, supers s, rdwt_err s)"

lemma rest_upd [simp]: "rest (upd_buf b f s) = rest s" "rest (rm_lru b s) = rest s" "rest (use_buf b s) = rest s" "rest (hash_link b s) = rest s"
  "rest (s\<lparr>buf_hash := h\<rparr>) = rest s"
  by (simp_all add: rest_def upd_buf_def rm_lru_def use_buf_def hash_link_def Let_def split: option.splits)

lemma hash_unlink_rest: "hash_unlink b s = Inr s' \<Longrightarrow> rest s' = rest s"
proof -
  have "\<forall>s'. y = Inr s' \<longrightarrow> rest s' = rest s" if "hash_unlink_from p b s = Some y" for p y
    by (rule hash_unlink_from.raw_induct [where P = "\<lambda>p b s y. \<forall>s'. y = Inr s' \<longrightarrow> rest s' = rest s", OF _ that])
      (auto split: option.splits if_splits)
  then show "hash_unlink b s = Inr s' \<Longrightarrow> rest s' = rest s"
    by (cases "hash_unlink_from (buf_hash s (hash_of (b_blocknr (bufs s b)))) b s")
      (auto simp: hash_unlink_def Let_def split: if_splits)
qed

lemma block_size_cong: "supers s' = supers s \<Longrightarrow> get_block_size dev s' = get_block_size dev s"
  unfolding get_block_size_def find_super_def by (erule ssubst) (rule refl)

lemma restD:
  assumes "rest s' = rest s"
  shows "fs_log s' = fs_log s" "dmaps s' = dmaps s" "supers s' = supers s" "rdwt_err s' = rdwt_err s"
    "has_driver dev s' = has_driver dev s" "disk_req op dev pos n dat s' = disk_req op dev pos n dat s"
    "get_block_size dev s' = get_block_size dev s"
proof -
  show e: "fs_log s' = fs_log s" "dmaps s' = dmaps s" "supers s' = supers s" "rdwt_err s' = rdwt_err s"
    using assms by (simp_all add: rest_def)
  show "has_driver dev s' = has_driver dev s" "disk_req op dev pos n dat s' = disk_req op dev pos n dat s"
    using e(2) by (simp_all add: has_driver_def disk_req_def)
  show "get_block_size dev s' = get_block_size dev s" by (rule block_size_cong) (rule e(3))
qed

section \<open>Writing the dirty blocks of a device\<close>

text \<open>A driver that writes all that it is given, and reports this in the I/O vector.\<close>

definition driver_writes :: "fs_env \<Rightarrow> int \<Rightarrow> bool" where
  "driver_writes env drv \<longleftrightarrow> (\<forall>lg m dat. m_type m = DEV_SCATTER \<longrightarrow> (let a = env lg (RqSendrec drv m BufMem dat) in
     answered a \<and> REP_STATUS (a_msg a) = OK \<and> length dat \<le> length (a_words a) \<and> (\<forall>i < length dat. a_words a ! i = 0)))"

text \<open>Among the requests there is one that writes these bytes at the place of the block.\<close>

definition written :: "int \<Rightarrow> int \<Rightarrow> nat \<Rightarrow> u32 \<Rightarrow> u8 list \<Rightarrow> fs_req list \<Rightarrow> bool" where
  "written drv dev n block bs reqs \<longleftrightarrow> (\<exists>m dat i. RqSendrec drv m BufMem dat \<in> set reqs \<and> m_type m = DEV_SCATTER \<and>
     m_w m 0 = of_nat (minor dev) \<and> i < length dat \<and> dat ! i = bs \<and> m_w m 3 + of_nat i * of_nat n = block * of_nat n)"

definition cleaned :: "nat set \<Rightarrow> fsstate \<Rightarrow> fsstate" where
  "cleaned B s = s\<lparr>bufs := (\<lambda>b. if b \<in> B then (bufs s b)\<lparr>b_dirt := False\<rparr> else bufs s b)\<rparr>"

lemma cleaned_simps [simp]:
  "fs_log (cleaned B s) = fs_log s" "dmaps (cleaned B s) = dmaps s" "supers (cleaned B s) = supers s" "rdwt_err (cleaned B s) = rdwt_err s"
  "b_data (bufs (cleaned B s) b) = b_data (bufs s b)" "b_blocknr (bufs (cleaned B s) b) = b_blocknr (bufs s b)"
  "b_dev (bufs (cleaned B s) b) = b_dev (bufs s b)" "b_count (bufs (cleaned B s) b) = b_count (bufs s b)"
  "b_dirt (bufs (cleaned B s) b) = (b \<notin> B \<and> b_dirt (bufs s b))"
  by (simp_all add: cleaned_def)

lemma cleaned_insert: "cleaned B (upd_buf b (\<lambda>x. x\<lparr>b_dirt := False\<rparr>) s) = cleaned (insert b B) s"
  by (auto simp: cleaned_def upd_buf_def fun_eq_iff)

lemma cleaned_cleaned: "cleaned A (cleaned B s) = cleaned (A \<union> B) s"
  by (auto simp: cleaned_def fun_eq_iff)

lemma cleaned_log: "(cleaned B s)\<lparr>fs_log := l\<rparr> = cleaned B (s\<lparr>fs_log := l\<rparr>)"
  by (cases s) (auto simp: cleaned_def fun_eq_iff)

lemma cleaned_empty [simp]: "cleaned {} s = s"
  by (simp add: cleaned_def)

lemma harvest_all:
  "\<forall>x \<in> set q. snd x = 0 \<Longrightarrow> harvest WRITING dev r i q s = (i + length q, cleaned (fst ` set q) s)"
proof (induction q arbitrary: i s)
  case (Cons x q)
  then show ?case by (cases x) (simp add: cleaned_insert)
qed simp

lemma run_length_pos: "q \<noteq> [] \<Longrightarrow> 0 < run_length nr q"
proof -
  assume "q \<noteq> []"
  then have "[0..<min NR_IOREQS (length q)] = 0 # [Suc 0..<min NR_IOREQS (length q)]" by (intro upt_conv_Cons) simp
  then show ?thesis by (simp add: run_length_def)
qed

lemma run_length_le: "run_length nr q \<le> length q"
  unfolding run_length_def by (rule order_trans [OF length_takeWhile_le]) simp

lemma takeWhile_upt_nth: "i < length (takeWhile P [0..<m]) \<Longrightarrow> P i"
  by (metis add_0 length_takeWhile_le length_upt less_le_trans minus_nat.diff_0 nth_mem nth_upt set_takeWhileD takeWhile_nth)

lemma run_length_nr: "i < run_length nr q \<Longrightarrow> nr (q ! i) = nr (q ! 0) + of_nat i"
  unfolding run_length_def by (rule takeWhile_upt_nth)

lemma rw_run_writes:
  fixes q :: "nat list" and s :: fsstate and n :: nat and dev :: int
  defines "nr \<equiv> \<lambda>b. b_blocknr (bufs s b)"
  defines "j \<equiv> run_length nr q"
  defines "req \<equiv> disk_req DEV_SCATTER dev (nr (q ! 0) * of_nat n) (int j) (map (\<lambda>b. block_bytes n (bufs s b)) (take j q)) s"
  assumes "has_driver dev s" and "driver_writes env (dmap_driver (dmaps s (major dev)))"
  shows "rw_run env dev n WRITING q s = Inr (j, cleaned (set (take j q)) (fs_tell req s))"
proof -
  let ?a = "env (fs_log s) req"
  have jl: "j \<le> length q" unfolding j_def by (rule run_length_le)
  have mt: "m_type (dev_mess DEV_SCATTER dev FS_PROC_NR BufMem (nr (q ! 0) * of_nat n) (int j) 0) = DEV_SCATTER" by (simp add: dev_mess_def)
  have a: "answered ?a" "REP_STATUS (a_msg ?a) = OK" "j \<le> length (a_words ?a)" "\<forall>i < j. a_words ?a ! i = 0"
    using assms(5) [unfolded driver_writes_def Let_def, rule_format, OF mt,
        of "fs_log s" "map (\<lambda>b. block_bytes n (bufs s b)) (take j q)"] jl
    unfolding req_def disk_req_def by simp_all
  have d: "dev_io env DEV_SCATTER dev FS_PROC_NR BufMem (map (\<lambda>b. block_bytes n (bufs s b)) (take j q)) (nr (q ! 0) * of_nat n) (int j) 0 s =
      Inr ((OK, (a_words ?a, a_bytes ?a)), fs_tell req s)"
    using dev_io_answer [OF assms(4) refl] a(1,2) unfolding req_def by simp
  have "\<forall>x \<in> set (zip (take j q) (iov_sizes n j (a_words ?a))). snd x = 0"
    using a(3,4) by (auto simp: iov_sizes_def set_zip)
  from harvest_all [OF this, of dev OK 0 "fs_tell req s"]
  have h: "harvest WRITING dev OK 0 (zip (take j q) (iov_sizes n j (a_words ?a))) (fs_tell req s) = (j, cleaned (set (take j q)) (fs_tell req s))"
  proof -
    have l: "length (take j q) = length (iov_sizes n j (a_words ?a))" using jl by (simp add: iov_sizes_def)
    then have "fst ` set (zip (take j q) (iov_sizes n j (a_words ?a))) = set (take j q)" by (metis map_fst_zip list.set_map)
    then show ?thesis using \<open>harvest WRITING dev OK 0 _ _ = _\<close> l jl by simp
  qed
  show ?thesis using d h unfolding rw_run_def Let_def nr_def [symmetric] j_def [symmetric] by simp
qed

lemma written_Cons: "written drv dev n block bs reqs \<Longrightarrow> written drv dev n block bs (req # reqs)"
  unfolding written_def by auto

lemma rw_loop_writes:
  assumes "has_driver dev s" and "driver_writes env (dmap_driver (dmaps s (major dev)))"
  shows "\<exists>reqs. rw_loop_scat env dev n WRITING q s = Inr (cleaned (set q) (s\<lparr>fs_log := fs_log s @ reqs\<rparr>)) \<and>
    (\<forall>b \<in> set q. written (dmap_driver (dmaps s (major dev))) dev n (b_blocknr (bufs s b)) (block_bytes n (bufs s b)) reqs)"
  using assms
proof (induction "length q" arbitrary: q s rule: less_induct)
  case less
  show ?case
  proof (cases "q = []")
    case True
    then show ?thesis by (intro exI [of _ "[]"]) (subst rw_loop_scat.simps, simp)
  next
    case False
    let ?nr = "\<lambda>b. b_blocknr (bufs s b)" and ?drv = "dmap_driver (dmaps s (major dev))"
    define j where "j = run_length ?nr q"
    define dat where "dat = map (\<lambda>b. block_bytes n (bufs s b)) (take j q)"
    define req where "req = disk_req DEV_SCATTER dev (?nr (q ! 0) * of_nat n) (int j) dat s"
    let ?s1 = "cleaned (set (take j q)) (fs_tell req s)"
    have j: "0 < j" "j \<le> length q" unfolding j_def using run_length_pos [OF False] run_length_le by auto
    have run: "rw_run env dev n WRITING q s = Inr (j, ?s1)"
      using rw_run_writes [OF less.prems] unfolding j_def dat_def req_def .
    have hd: "has_driver dev ?s1" "driver_writes env (dmap_driver (dmaps ?s1 (major dev)))" using less.prems by (simp_all add: has_driver_def)
    have lt: "length (drop j q) < length q" using j False by simp
    obtain reqs where
      r: "rw_loop_scat env dev n WRITING (drop j q) ?s1 = Inr (cleaned (set (drop j q)) (?s1\<lparr>fs_log := fs_log ?s1 @ reqs\<rparr>))"
      "\<forall>b \<in> set (drop j q). written ?drv dev n (?nr b) (block_bytes n (bufs s b)) reqs"
      using less.hyps [OF lt hd] by (auto simp: block_bytes_def)
    have u: "set (drop j q) \<union> set (take j q) = set q" by (metis append_take_drop_id set_append sup_commute)
    have "cleaned (set (drop j q)) (?s1\<lparr>fs_log := fs_log ?s1 @ reqs\<rparr>) = cleaned (set q) (s\<lparr>fs_log := fs_log s @ req # reqs\<rparr>)"
      unfolding cleaned_log cleaned_cleaned u by (simp add: fs_tell_def)
    then have "rw_loop_scat env dev n WRITING q s = Inr (cleaned (set q) (s\<lparr>fs_log := fs_log s @ req # reqs\<rparr>))"
      using False run r(1) j(1) by (subst rw_loop_scat.simps) (simp add: Let_def)
    moreover have "written ?drv dev n (?nr b) (block_bytes n (bufs s b)) (req # reqs)" if "b \<in> set q" for b
    proof (cases "b \<in> set (drop j q)")
      case True
      then show ?thesis using r(2) written_Cons by blast
    next
      case out: False
      then have "b \<in> set (take j q)" using that u by blast
      then obtain i where i: "i < j" "q ! i = b" using j(2) by (auto simp: in_set_conv_nth)
      let ?m = "dev_mess DEV_SCATTER dev FS_PROC_NR BufMem (?nr (q ! 0) * of_nat n) (int j) 0"
      have "?nr b = ?nr (q ! 0) + of_nat i" using run_length_nr [of i ?nr q] i unfolding j_def by simp
      then have "m_w ?m 3 + of_nat i * of_nat n = ?nr b * of_nat n" by (simp add: dev_mess_def algebra_simps)
      moreover have "dat ! i = block_bytes n (bufs s b)" "i < length dat" using i j(2) by (simp_all add: dat_def)
      moreover have "m_type ?m = DEV_SCATTER" "m_w ?m 0 = of_nat (minor dev)" by (simp_all add: dev_mess_def)
      moreover have "RqSendrec ?drv ?m BufMem dat \<in> set (req # reqs)" by (simp add: req_def disk_req_def)
      ultimately show ?thesis unfolding written_def by blast
    qed
    ultimately show ?thesis by blast
  qed
qed

lemma shell_sort_set: "set (shell_sort nr q) = set q"
proof -
  obtain h where h: "is_gap h" "first_gap (length q) 1 = 3 * h + 1" using first_gap_is [OF one] by auto
  then have "mset (shell_sort nr q) = mset q" using passes_sort [OF h(1), of nr q] unfolding shell_sort_def by simp
  then show ?thesis by (metis set_mset_mset)
qed

lemma flushall_writes:
  assumes "has_driver dev s" and "driver_writes env (dmap_driver (dmaps s (major dev)))" and "get_block_size dev s = Inr n"
  defines "B \<equiv> {b. b < NR_BUFS \<and> b_dirt (bufs s b) \<and> b_dev (bufs s b) = dev}"
  shows "\<exists>reqs. flushall env dev s = Inr (cleaned B (s\<lparr>fs_log := fs_log s @ reqs\<rparr>)) \<and>
    (\<forall>b \<in> B. written (dmap_driver (dmaps s (major dev))) dev n (b_blocknr (bufs s b)) (block_bytes n (bufs s b)) reqs)"
proof -
  let ?q = "filter (\<lambda>b. b_dirt (bufs s b) \<and> b_dev (bufs s b) = dev) [0..<NR_BUFS]"
  have "set (shell_sort nr ?q) = B" for nr unfolding shell_sort_set B_def by auto
  then show ?thesis
    using rw_loop_writes [OF assms(1,2), of n "shell_sort (\<lambda>b. b_blocknr (bufs s b)) ?q"] assms(3)
    unfolding flushall_def rw_scattered_def by (simp del: upt_rec_numeral)
qed

section \<open>Using a buffer again\<close>

definition reused :: "int \<Rightarrow> u32 \<Rightarrow> nat \<Rightarrow> fsstate \<Rightarrow> fsstate" where
  "reused dev block x s = hash_link x (use_buf x (upd_buf x (\<lambda>b. b\<lparr>b_dev := dev, b_blocknr := block\<rparr>) s))"

definition read_in :: "fs_env \<Rightarrow> int \<Rightarrow> search \<Rightarrow> nat \<Rightarrow> fsstate \<Rightarrow> (nat \<times> fsstate) res" where
  "read_in env dev mode x s =
     (if dev = NO_DEV then Inr (x, s)
      else (case mode of
              PREFETCH \<Rightarrow> Inr (x, upd_buf x (\<lambda>b. b\<lparr>b_dev := NO_DEV\<rparr>) s)
            | NORMAL \<Rightarrow> bindr (rw_block env x READING s) (\<lambda>s4. Inr (x, s4))
            | NO_READ \<Rightarrow> Inr (x, s)))"

lemma reused_frame:
  "rest (reused dev block x s) = rest s" "b \<noteq> x \<Longrightarrow> cores (reused dev block x s) b = cores s b"
  "b_data (bufs (reused dev block x s) x) = b_data (bufs s x)" "b_dirt (bufs (reused dev block x s) x) = b_dirt (bufs s x)"
  "b_dev (bufs (reused dev block x s) x) = dev" "b_blocknr (bufs (reused dev block x s) x) = block"
proof -
  let ?t = "use_buf x (upd_buf x (\<lambda>b. b\<lparr>b_dev := dev, b_blocknr := block\<rparr>) s)"
  have c: "cores (reused dev block x s) = cores ?t" unfolding reused_def by (rule hash_link_frame)
  show "rest (reused dev block x s) = rest s" by (simp add: reused_def)
  show "cores (reused dev block x s) b = cores s b" if "b \<noteq> x" using that unfolding c by (simp add: use_buf_def)
  show "b_data (bufs (reused dev block x s) x) = b_data (bufs s x)" "b_dirt (bufs (reused dev block x s) x) = b_dirt (bufs s x)"
    "b_dev (bufs (reused dev block x s) x) = dev" "b_blocknr (bufs (reused dev block x s) x) = block"
    using coresD [OF fun_cong [OF c, of x]] by (simp_all add: use_buf_def)
qed

text \<open>The victim is flushed, if it is dirty, and filled.\<close>

lemma get_block_phases:
  assumes "cache_rep (x # ys) s" and "cached dev block s = None \<or> dev = NO_DEV"
  shows "\<exists>s1. cores s1 = cores s \<and> rest s1 = rest s \<and> get_block env dev block mode s =
    bindr (if b_dev (bufs s x) \<noteq> NO_DEV \<and> b_dirt (bufs s x) then flushall env (b_dev (bufs s x)) s1 else Inr s1)
      (\<lambda>s2. read_in env dev mode x (reused dev block x s2))"
proof -
  obtain s1 where 1: "front s = Some x" "hash_unlink x (rm_lru x s) = Inr s1" "cores s1 = cores s"
    using take_victim [OF assms(1)] by blast
  have "rest s1 = rest s" using hash_unlink_rest [OF 1(2)] by simp
  moreover have "get_block env dev block mode s =
    bindr (if b_dev (bufs s x) \<noteq> NO_DEV \<and> b_dirt (bufs s x) then flushall env (b_dev (bufs s x)) s1 else Inr s1)
      (\<lambda>s2. read_in env dev mode x (reused dev block x s2))"
    using 1(1,2) coresD [OF fun_cong [OF 1(3), of x]] unfolding get_block_new [OF assms]
    by (simp add: get_free_buf_def read_in_def reused_def Let_def cong: if_cong)
  ultimately show ?thesis using 1(3) by blast
qed

lemma read_in_quiet:
  assumes "mode \<noteq> NORMAL \<or> dev = NO_DEV"
  shows "\<exists>s'. read_in env dev mode x (reused dev block x s) = Inr (x, s') \<and> rest s' = rest s \<and>
    b_data (bufs s' x) = b_data (bufs s x) \<and> (\<forall>b. b \<noteq> x \<longrightarrow> cores s' b = cores s b)"
  using assms reused_frame [where dev = dev and block = block and x = x and s = s] by (cases mode) (auto simp: read_in_def)

text \<open>What the buffer has after the block was read: the bytes, or no block when the transfer was short.\<close>

definition has_read :: "int \<Rightarrow> nat \<Rightarrow> fs_ans \<Rightarrow> nat \<Rightarrow> fsstate \<Rightarrow> fsstate \<Rightarrow> bool" where
  "has_read dev n a x s s' \<longleftrightarrow>
     b_data (bufs s' x) = write_bytes 0 (take n (a_bytes a)) (b_data (bufs s x)) \<and> \<not> b_dirt (bufs s' x) \<and>
     (if REP_STATUS (a_msg a) = int n then b_dev (bufs s' x) = dev \<and> rdwt_err s' = rdwt_err s
      else b_dev (bufs s' x) = NO_DEV \<and> rdwt_err s' = (if REP_STATUS (a_msg a) \<ge> 0 then END_OF_FILE else REP_STATUS (a_msg a)))"

lemma rw_block_read:
  assumes "has_driver dev s" and "b_dev (bufs s x) = dev" and "get_block_size dev s = Inr n"
    and "req = disk_req DEV_READ dev (b_blocknr (bufs s x) * of_nat n) (int n) [] s"
    and "a = env (fs_log s) req" and "answered a"
  shows "\<exists>s'. rw_block env x READING s = Inr s' \<and> fs_log s' = fs_log s @ [req] \<and> has_read dev n a x s s' \<and> (\<forall>b. b \<noteq> x \<longrightarrow> cores s' b = cores s b)"
proof -
  have d: "dev_io env DEV_READ dev FS_PROC_NR BufMem [] (b_blocknr (bufs s x) * of_nat n) (int n) 0 s =
      Inr ((REP_STATUS (a_msg a), (a_words a, a_bytes a)), fs_tell req s)"
    unfolding assms(4) by (rule dev_io_answer [OF assms(1) _ assms(6)]) (simp add: assms(4,5))
  have log: "fs_log (upd_buf b f u) = fs_log u" "rdwt_err (upd_buf b f u) = rdwt_err u" for b f u by (simp_all add: upd_buf_def)
  show ?thesis using d assms(2,3) by (simp add: rw_block_def Let_def log cores_def has_read_def)
qed

lemma has_read_from: "b_data (bufs t x) = b_data (bufs s x) \<Longrightarrow> rdwt_err t = rdwt_err s \<Longrightarrow> has_read dev n a x t s' = has_read dev n a x s s'"
  by (simp add: has_read_def)

lemma read_in_reads:
  assumes "has_driver dev s" and "get_block_size dev s = Inr n" and "req = disk_req DEV_READ dev (block * of_nat n) (int n) [] s"
    and "a = env (fs_log s) req" and "answered a"
  shows "\<exists>s'. read_in env dev NORMAL x (reused dev block x s) = Inr (x, s') \<and> fs_log s' = fs_log s @ [req] \<and> has_read dev n a x s s' \<and>
    (\<forall>b. b \<noteq> x \<longrightarrow> cores s' b = cores s b)"
proof -
  let ?t = "reused dev block x s"
  note f = reused_frame [where dev = dev and block = block and x = x and s = s]
  note r = restD [OF f(1)]
  have "dev \<noteq> NO_DEV" using assms(2) by (auto simp: get_block_size_def)
  moreover obtain s' where "rw_block env x READING ?t = Inr s'" "fs_log s' = fs_log ?t @ [req]" "has_read dev n a x ?t s'"
      "\<forall>b. b \<noteq> x \<longrightarrow> cores s' b = cores ?t b"
    using rw_block_read [of dev ?t x n req a env] assms f r by auto
  ultimately show ?thesis using f(2,3) r(1,4) has_read_from [OF f(3) r(4)] by (auto simp: read_in_def)
qed

text \<open>The dirty blocks that are written before buffer \<open>x\<close> is used again: those of its device, if it is dirty.\<close>

definition to_write :: "nat \<Rightarrow> fsstate \<Rightarrow> nat set" where
  "to_write x s = (if b_dev (bufs s x) \<noteq> NO_DEV \<and> b_dirt (bufs s x)
     then {b. b < NR_BUFS \<and> b_dirt (bufs s b) \<and> b_dev (bufs s b) = b_dev (bufs s x)} else {})"

definition can_write :: "fs_env \<Rightarrow> int \<Rightarrow> fsstate \<Rightarrow> bool" where
  "can_write env d s \<longleftrightarrow> has_driver d s \<and> driver_writes env (dmap_driver (dmaps s (major d)))"

lemma cores_cleaned: "cores s' = cores s \<Longrightarrow> cores (cleaned B s') = cores (cleaned B s)"
  by (auto simp: cores_def core_def cleaned_def fun_eq_iff)

lemma victim_flushed:
  assumes "d = b_dev (bufs s x)" and "cores s1 = cores s" and "rest s1 = rest s" and "d = NO_DEV \<or> \<not> b_dirt (bufs s x) \<or> can_write env d s"
  shows "\<exists>s2 reqs. (if d \<noteq> NO_DEV \<and> b_dirt (bufs s x) then flushall env d s1 else Inr s1) = Inr s2 \<and>
    cores s2 = cores (cleaned (to_write x s) s) \<and> rest s2 = rest (s\<lparr>fs_log := fs_log s @ reqs\<rparr>) \<and>
    (d = NO_DEV \<or> \<not> b_dirt (bufs s x) \<longrightarrow> reqs = []) \<and>
    (\<forall>n. get_block_size d s = Inr n \<longrightarrow>
      (\<forall>b \<in> to_write x s. written (dmap_driver (dmaps s (major d))) d n (b_blocknr (bufs s b)) (block_bytes n (bufs s b)) reqs))"
proof (cases "d \<noteq> NO_DEV \<and> b_dirt (bufs s x)")
  case False
  then have "to_write x s = {}" using assms(1) by (auto simp: to_write_def)
  then show ?thesis using False assms(2,3) by (intro exI [of _ s1] exI [of _ "[]"]) auto
next
  case True
  note r = restD [OF assms(3)] and c = coresD [OF fun_cong [OF assms(2)]]
  let ?B = "{b. b < NR_BUFS \<and> b_dirt (bufs s1 b) \<and> b_dev (bufs s1 b) = d}"
  have B: "?B = to_write x s" using True assms(1) by (simp add: to_write_def c)
  obtain n where n: "get_block_size d s = Inr n" using True by (simp add: get_block_size_def)
  obtain reqs where f: "flushall env d s1 = Inr (cleaned ?B (s1\<lparr>fs_log := fs_log s1 @ reqs\<rparr>))"
    "\<forall>b \<in> ?B. written (dmap_driver (dmaps s1 (major d))) d n (b_blocknr (bufs s1 b)) (block_bytes n (bufs s1 b)) reqs"
    using flushall_writes [of d s1 env n] assms(4) True n by (auto simp: can_write_def r)
  have "cores (cleaned (to_write x s) (s1\<lparr>fs_log := fs_log s1 @ reqs\<rparr>)) = cores (cleaned (to_write x s) s)"
    by (rule cores_cleaned) (use assms(2) in \<open>simp add: cores_def fun_eq_iff\<close>)
  moreover have "rest (cleaned (to_write x s) (s1\<lparr>fs_log := fs_log s1 @ reqs\<rparr>)) = rest (s\<lparr>fs_log := fs_log s @ reqs\<rparr>)"
    using r by (simp add: rest_def)
  ultimately show ?thesis using f [unfolded B] True n unfolding r
    by (intro exI [of _ "cleaned (to_write x s) (s1\<lparr>fs_log := fs_log s @ reqs\<rparr>)"] exI [of _ reqs]) (simp add: block_bytes_def c)
qed

lemma get_block_returns:
  assumes "cache_rep (x # ys) s" and "cached dev block s = None \<or> dev = NO_DEV" and "d = b_dev (bufs s x)"
    and "d = NO_DEV \<or> \<not> b_dirt (bufs s x) \<or> can_write env d s"
  shows "\<exists>reqs. (d = NO_DEV \<or> \<not> b_dirt (bufs s x) \<longrightarrow> reqs = []) \<and>
    (\<forall>n. get_block_size d s = Inr n \<longrightarrow> (\<forall>b \<in> to_write x s.
      written (dmap_driver (dmaps s (major d))) d n (b_blocknr (bufs s b)) (block_bytes n (bufs s b)) reqs)) \<and>
    (mode \<noteq> NORMAL \<or> dev = NO_DEV \<longrightarrow> (\<exists>s'. get_block env dev block mode s = Inr (x, s') \<and> fs_log s' = fs_log s @ reqs \<and>
      b_data (bufs s' x) = b_data (bufs s x) \<and> (\<forall>b. b \<noteq> x \<longrightarrow> cores s' b = cores (cleaned (to_write x s) s) b))) \<and>
    (\<forall>n a. mode = NORMAL \<and> has_driver dev s \<and> get_block_size dev s = Inr n \<and>
        a = env (fs_log s @ reqs) (disk_req DEV_READ dev (block * of_nat n) (int n) [] s) \<and> answered a \<longrightarrow>
      (\<exists>s'. get_block env dev block mode s = Inr (x, s') \<and>
        fs_log s' = fs_log s @ reqs @ [disk_req DEV_READ dev (block * of_nat n) (int n) [] s] \<and> has_read dev n a x s s' \<and>
        (\<forall>b. b \<noteq> x \<longrightarrow> cores s' b = cores (cleaned (to_write x s) s) b)))"
proof -
  obtain s1 where 1: "cores s1 = cores s" "rest s1 = rest s" "get_block env dev block mode s =
    bindr (if d \<noteq> NO_DEV \<and> b_dirt (bufs s x) then flushall env d s1 else Inr s1) (\<lambda>s2. read_in env dev mode x (reused dev block x s2))"
    using get_block_phases [OF assms(1,2)] assms(3) by blast
  obtain s2 reqs where 2: "(if d \<noteq> NO_DEV \<and> b_dirt (bufs s x) then flushall env d s1 else Inr s1) = Inr s2"
    "cores s2 = cores (cleaned (to_write x s) s)" "rest s2 = rest (s\<lparr>fs_log := fs_log s @ reqs\<rparr>)"
    "d = NO_DEV \<or> \<not> b_dirt (bufs s x) \<longrightarrow> reqs = []" "\<forall>n. get_block_size d s = Inr n \<longrightarrow> (\<forall>b \<in> to_write x s.
      written (dmap_driver (dmaps s (major d))) d n (b_blocknr (bufs s b)) (block_bytes n (bufs s b)) reqs)"
    using victim_flushed [OF assms(3) 1(1,2) assms(4)] by blast
  have g: "get_block env dev block mode s = read_in env dev mode x (reused dev block x s2)" unfolding 1(3) 2(1) by simp
  have r: "fs_log s2 = fs_log s @ reqs" "rdwt_err s2 = rdwt_err s" "has_driver dev s2 = has_driver dev s"
      "get_block_size dev s2 = get_block_size dev s" "disk_req DEV_READ dev p k [] s2 = disk_req DEV_READ dev p k [] s" for p k
    using restD [OF 2(3)] block_size_cong [of "s\<lparr>fs_log := fs_log s @ reqs\<rparr>" s] by (simp_all add: has_driver_def disk_req_def)
  have x: "b_data (bufs s2 x) = b_data (bufs s x)" using coresD [OF fun_cong [OF 2(2), of x]] by simp
  show ?thesis
  proof (intro exI [of _ reqs] conjI 2(4,5) impI allI)
    assume "mode \<noteq> NORMAL \<or> dev = NO_DEV"
    from read_in_quiet [OF this, of env x block s2] show "\<exists>s'. get_block env dev block mode s = Inr (x, s') \<and> fs_log s' = fs_log s @ reqs \<and>
      b_data (bufs s' x) = b_data (bufs s x) \<and> (\<forall>b. b \<noteq> x \<longrightarrow> cores s' b = cores (cleaned (to_write x s) s) b)"
      unfolding g 2(2) x [symmetric] r(1) [symmetric] using restD(1) by blast
  next
    fix n a
    let ?req = "disk_req DEV_READ dev (block * of_nat n) (int n) [] s"
    assume "mode = NORMAL \<and> has_driver dev s \<and> get_block_size dev s = Inr n \<and> a = env (fs_log s @ reqs) ?req \<and> answered a"
    then show "\<exists>s'. get_block env dev block mode s = Inr (x, s') \<and> fs_log s' = fs_log s @ reqs @ [?req] \<and> has_read dev n a x s s' \<and>
        (\<forall>b. b \<noteq> x \<longrightarrow> cores s' b = cores (cleaned (to_write x s) s) b)"
      using read_in_reads [of dev s2 n ?req block a env x] unfolding g 2(2) r has_read_from [OF x r(2)] by auto
  qed
qed

text \<open>
  C31: a block that is not in the cache. With no free buffer \<open>get_block\<close> panics. Otherwise it takes the
  buffer at the front of the LRU chain and no other, and the rest of the chain is as it was: if it returns,
  that buffer has the block's number, one user, and the block's device (none when the read failed, or
  before a read ahead); no other buffer changes its data, number or users. It does return when the buffer
  is clean, or the driver of its device writes what it is given: then all dirty blocks of that
  device are in write requests, at their place, and are marked clean, before anything else happens, and
  apart from that every other buffer is as it was (when the buffer was clean, nothing is written). With
  \<open>NO_READ\<close> or \<open>PREFETCH\<close> nothing is read. With \<open>NORMAL\<close>, and a driver for the block's device that replies to
  the request, the last request reads the block, and the buffer gets the bytes of the answer; if the driver did not transfer the whole block the buffer holds no
  block and the error is in \<open>rdwt_err\<close>.
\<close>

theorem get_block_miss:
  assumes "cache_rep xs s" and "dev = NO_DEV \<or> (\<forall>b < NR_BUFS. \<not> (b_dev (bufs s b) = dev \<and> b_blocknr (bufs s b) = block))"
  shows "case xs of
      [] \<Rightarrow> get_block env dev block mode s = Inl (Panic ''all buffers in use'')
    | x # ys \<Rightarrow>
        (\<forall>bp s'. get_block env dev block mode s = Inr (bp, s') \<longrightarrow> bp = x \<and> cache_rep ys s' \<and> refilled dev block mode x s s') \<and>
        (let d = b_dev (bufs s x); clean = (d = NO_DEV \<or> \<not> b_dirt (bufs s x)) in
         clean \<or> can_write env d s \<longrightarrow>
         (\<exists>reqs. (clean \<longrightarrow> reqs = []) \<and>
           (\<forall>n. get_block_size d s = Inr n \<longrightarrow> (\<forall>b \<in> to_write x s.
              written (dmap_driver (dmaps s (major d))) d n (b_blocknr (bufs s b)) (block_bytes n (bufs s b)) reqs)) \<and>
           (mode \<noteq> NORMAL \<or> dev = NO_DEV \<longrightarrow> (\<exists>s'. get_block env dev block mode s = Inr (x, s') \<and> fs_log s' = fs_log s @ reqs \<and>
              b_data (bufs s' x) = b_data (bufs s x) \<and> (\<forall>b. b \<noteq> x \<longrightarrow> cores s' b = cores (cleaned (to_write x s) s) b))) \<and>
           (\<forall>n a. let req = disk_req DEV_READ dev (block * of_nat n) (int n) [] s in
              mode = NORMAL \<and> has_driver dev s \<and> get_block_size dev s = Inr n \<and> a = env (fs_log s @ reqs) req \<and> answered a \<longrightarrow>
              (\<exists>s'. get_block env dev block mode s = Inr (x, s') \<and> fs_log s' = fs_log s @ reqs @ [req] \<and> has_read dev n a x s s' \<and>
                 (\<forall>b. b \<noteq> x \<longrightarrow> cores s' b = cores (cleaned (to_write x s) s) b)))))"
proof (cases xs)
  case Nil
  have m: "cached dev block s = None \<or> dev = NO_DEV" using assms(2) cached_None by metis
  have "front s = None" using Nil assms(1) lru_rep_ends [of "[]" s] unfolding cache_rep_def by simp
  then show ?thesis unfolding get_block_new [OF assms(1) m] Nil by (simp add: get_free_buf_def)
next
  case (Cons x ys)
  have m: "cached dev block s = None \<or> dev = NO_DEV" using assms(2) cached_None by metis
  show ?thesis unfolding Cons list.case Let_def
    using get_free_buf_outcome(1) [OF assms(1) [unfolded Cons] m] get_block_new [OF assms(1) m]
      get_block_returns [OF assms(1) [unfolded Cons] m refl] by (intro conjI) auto
qed

text \<open>A disk, and a cache whose first free buffer has a dirty block of it.\<close>

definition disk_env :: fs_env where
  "disk_env lg r = (case r of
     RqSendrec drv m adr dat \<Rightarrow> \<lparr>a_res = OK,
       a_msg = zero_message\<lparr>m_w := (\<lambda>_. 0)(0 := 1, 1 := if m_type m = DEV_SCATTER then 0 else 1024)\<rparr>,
       a_words = replicate (length dat) 0, a_bytes = replicate 1024 7\<rparr>
   | _ \<Rightarrow> quiet_env lg r)"

definition sample_dirty :: fsstate where
  "sample_dirty = (upd_buf 0 (\<lambda>b. b\<lparr>b_dev := 3, b_dirt := True\<rparr>) (buf_pool fs_bss))
     \<lparr>dmaps := \<lambda>_. \<lparr>dmap_opcl = GenOpcl, dmap_io = GenIo, dmap_driver = 5, dmap_flags = 0\<rparr>\<rparr>"

lemma sample_dirty_simps:
  "b_dev (bufs sample_dirty b) = (if b = 0 then 3 else if b < NR_BUFS then NO_DEV else 0)" "b_blocknr (bufs sample_dirty b) = 0"
  "b_dirt (bufs sample_dirty b) = (b = 0)" "b_count (bufs sample_dirty b) = 0" "fs_log sample_dirty = []"
  "dmap_driver (dmaps sample_dirty k) = 5" "get_block_size 3 sample_dirty = Inr 1024" "has_driver 3 sample_dirty"
  by (auto simp: sample_dirty_def buf_pool_def Let_def fs_bss_def zero_buf_def upd_buf_def get_block_size_def find_super_def zero_super_def
      has_driver_def major_def find_None_iff split: option.splits)

lemma sample_dirty_rep: "cache_rep (0 # [Suc 0..<NR_BUFS]) sample_dirty"
proof -
  let ?s = "buf_pool fs_bss"
  have l: "lru_rep (0 # [Suc 0..<NR_BUFS]) ?s" and st: "set (0 # [Suc 0..<NR_BUFS]) = {b. b < NR_BUFS \<and> b_count (bufs ?s b) = 0}"
      and u: "bufs_in_use ?s = int NR_BUFS - int (length (0 # [Suc 0..<NR_BUFS]))" and h: "\<exists>hs. hash_rep {..<NR_BUFS} hs ?s"
    using pool_bss_first unfolding cache_rep_def by blast+
  have b: "bnx sample_dirty = bnx ?s" "bpv sample_dirty = bpv ?s" "bhx sample_dirty = bhx ?s" "front sample_dirty = front ?s"
      "rear sample_dirty = rear ?s" "buf_hash sample_dirty = buf_hash ?s" "bufs_in_use sample_dirty = bufs_in_use ?s"
    by (auto simp: sample_dirty_def upd_buf_def bnx_def bpv_def bhx_def fun_eq_iff)
  have z: "b_count (bufs ?s b) = 0" "b_blocknr (bufs ?s b) = 0" for b by (simp_all add: buf_pool_def Let_def fs_bss_def zero_buf_def)
  have "lru_rep (0 # [Suc 0..<NR_BUFS]) sample_dirty" using l unfolding lru_rep_def b .
  moreover have "hash_rep {..<NR_BUFS} hs sample_dirty = hash_rep {..<NR_BUFS} hs ?s" for hs
    unfolding hash_rep_def b sample_dirty_simps z ..
  moreover have "one_each sample_dirty" unfolding one_each_def by (auto simp: sample_dirty_simps)
  ultimately show ?thesis using st u h unfolding cache_rep_def b sample_dirty_simps z by auto
qed

lemma disk_env_writes: "can_write disk_env 3 sample_dirty"
  by (simp add: can_write_def sample_dirty_simps driver_writes_def disk_env_def answered_def int_field_def Let_def)

theorem get_block_miss_witness:
  "\<exists>s' reqs. get_block disk_env 3 9 NORMAL sample_dirty = Inr (0, s') \<and> cache_rep [Suc 0..<NR_BUFS] s' \<and>
     fs_log s' = reqs @ [disk_req DEV_READ 3 (9 * 1024) 1024 [] sample_dirty] \<and>
     written 5 3 1024 0 (block_bytes 1024 (bufs sample_dirty 0)) reqs \<and> b_data (bufs s' 0) 100 = 7 \<and> b_dev (bufs s' 0) = 3"
proof -
  have m: "(3 :: int) = NO_DEV \<or> (\<forall>b < NR_BUFS. \<not> (b_dev (bufs sample_dirty b) = 3 \<and> b_blocknr (bufs sample_dirty b) = 9))"
    by (simp add: sample_dirty_simps)
  let ?req = "disk_req DEV_READ 3 (9 * of_nat 1024) (int 1024) [] sample_dirty"
  have w: "0 \<in> to_write 0 sample_dirty" by (simp add: to_write_def sample_dirty_simps)
  have a: "answered (disk_env l ?req)" "a_bytes (disk_env l ?req) = replicate 1024 7" "REP_STATUS (a_msg (disk_env l ?req)) = 1024" for l
    by (simp_all add: disk_env_def disk_req_def answered_def int_field_def dev_mess_def)
  note g = get_block_miss [OF sample_dirty_rep m, of disk_env NORMAL, unfolded list.case Let_def]
  obtain s' reqs where s': "get_block disk_env 3 9 NORMAL sample_dirty = Inr (0, s')" "fs_log s' = reqs @ [?req]"
      "has_read 3 1024 (disk_env reqs ?req) 0 sample_dirty s'" "written 5 3 1024 0 (block_bytes 1024 (bufs sample_dirty 0)) reqs"
    using g w a disk_env_writes by (auto simp: sample_dirty_simps)
  have "cache_rep [Suc 0..<NR_BUFS] s'" using g s'(1) by blast
  moreover have "b_data (bufs s' 0) = write_bytes 0 (replicate 1024 7) (b_data (bufs sample_dirty 0))" "b_dev (bufs s' 0) = 3"
    using s'(3) a unfolding has_read_def by simp_all
  moreover have "write_bytes 0 (replicate 1024 7) m 100 = (7 :: u8)" for m by (simp add: write_bytes_lookup)
  ultimately show ?thesis using s' by auto
qed

end
