(* ===== verification/Fs_Files.thy ===== *)
theory Fs_Files
  imports Fs_Main Fs_Sample
begin

unbundle bit_operations_syntax

text \<open>
  Descriptors and open files: the count of an open file is the number of descriptors that refer to
  it. First, that everything below the calls on descriptors leaves descriptors and counts alone.
\<close>

named_theorems leave \<open>functions that leave descriptors and counts alone\<close>

section \<open>Descriptors and counts\<close>

type_synonym fdview = "(int \<Rightarrow> nat \<Rightarrow> nat option) \<times> (nat \<Rightarrow> int) \<times> int"

definition fview :: "fsstate \<Rightarrow> fdview" where
  "fview s = ((\<lambda>p. fp_filp (fprocs s p)), (\<lambda>f. filp_count (filps s f)), fs_fp s)"

definition leaves :: "fdview \<Rightarrow> ('a \<times> fsstate) res \<Rightarrow> bool" where
  "leaves v y \<longleftrightarrow> (\<forall>x s'. y = Inr (x, s') \<longrightarrow> fview s' = v)"

definition leaves0 :: "fdview \<Rightarrow> fsstate res \<Rightarrow> bool" where
  "leaves0 v y \<longleftrightarrow> (\<forall>s'. y = Inr s' \<longrightarrow> fview s' = v)"

lemma leaves_simps [simp]:
  "leaves v (Inl e)" "leaves v (Inr (x, s')) \<longleftrightarrow> fview s' = v" "leaves0 v (Inl e)" "leaves0 v (Inr s') \<longleftrightarrow> fview s' = v"
  by (auto simp: leaves_def leaves0_def)

lemma leaves_bind:
  "leaves v y \<Longrightarrow> (\<And>x s'. fview s' = v \<Longrightarrow> leaves v (g (x, s'))) \<Longrightarrow> leaves v (bindr y g)"
  "leaves v y \<Longrightarrow> (\<And>x s'. fview s' = v \<Longrightarrow> leaves0 v (h (x, s'))) \<Longrightarrow> leaves0 v (bindr y h)"
  "leaves0 v z \<Longrightarrow> (\<And>s'. fview s' = v \<Longrightarrow> leaves v (k s')) \<Longrightarrow> leaves v (bindr z k)"
  "leaves0 v z \<Longrightarrow> (\<And>s'. fview s' = v \<Longrightarrow> leaves0 v (m s')) \<Longrightarrow> leaves0 v (bindr z m)"
  by (cases y; cases z; auto simp: leaves_def leaves0_def)+

text \<open>Parts of a function that read the state only.\<close>

lemma leaves_pure:
  "(\<And>x. leaves v (g x)) \<Longrightarrow> leaves v (bindr (y :: 'b res) g)" "(\<And>x. leaves0 v (h x)) \<Longrightarrow> leaves0 v (bindr (y :: 'b res) h)"
  by (cases y; auto)+

lemmas leave_binds = leaves_bind leaves_pure [where y = "deref x" for x] leaves_pure [where y = "isp r s" for r s]
  leaves_pure [where y = "get_super d s" for d s] leaves_pure [where y = "get_block_size d s" for d s] leaves_pure [where y = "dmap_at d" for d]
  leaves_pure [where y = "rd_indir b i s" for b i s] leaves_pure [where y = "fproc_at n" for n]

lemma leaves_if: "(b \<Longrightarrow> leaves v y) \<Longrightarrow> (\<not> b \<Longrightarrow> leaves v z) \<Longrightarrow> leaves v (if b then y else z)"
  "(b \<Longrightarrow> leaves0 v p) \<Longrightarrow> (\<not> b \<Longrightarrow> leaves0 v q) \<Longrightarrow> leaves0 v (if b then p else q)"
  by auto

lemma fview_upd [simp]:
  "fview (upd_buf n fb s) = fview s" "fview (upd_ino n fi s) = fview s" "fview (upd_sup n fu s) = fview s" "fview (upd_lock n fl s) = fview s"
  "fview (upd_sel n fe s) = fview s" "fview (fs_tell r s) = fview s" "fview (s\<lparr>rdwt_err := e\<rparr>) = fview s" "fview (s\<lparr>err_code := e\<rparr>) = fview s"
  "fview (s\<lparr>reviving := k\<rparr>) = fview s" "fview (s\<lparr>susp_count := k\<rparr>) = fview s" "fview (s\<lparr>fs_timers := q\<rparr>) = fview s" "fview (s\<lparr>nr_locks := k\<rparr>) = fview s"
  "fview (s\<lparr>front := o1\<rparr>) = fview s" "fview (s\<lparr>rear := o1\<rparr>) = fview s" "fview (s\<lparr>bufs_in_use := k\<rparr>) = fview s" "fview (s\<lparr>buf_hash := h\<rparr>) = fview s"
  "fview (s\<lparr>fs_in := m\<rparr>) = fview s" "fview (s\<lparr>bufs := bb\<rparr>) = fview s" "fview (s\<lparr>fs_out := m\<rparr>) = fview s"
  by (simp_all add: fview_def upd_buf_def upd_ino_def upd_sup_def upd_lock_def upd_sel_def fs_tell_def)

lemma fview_fp: "(\<And>p. fp_filp (f p) = fp_filp p) \<Longrightarrow> fview (upd_fp n f s) = fview s"
  by (auto simp: fview_def upd_fp_def fun_eq_iff)

lemma fview_filp: "(\<And>x. filp_count (f x) = filp_count x) \<Longrightarrow> fview (upd_filp n f s) = fview s"
  by (auto simp: fview_def upd_filp_def fun_eq_iff)

lemma fview_small [simp]: "fview (reply n r s) = fview s" "fview (suspend t s) = fview s"
  by (simp_all add: reply_def suspend_def Let_def fview_fp)

section \<open>Drivers\<close>

lemma leaves0_revive [leave]: "fview s = v \<Longrightarrow> leaves0 v (revive p r s)"
  by (auto simp: revive_def Let_def fview_fp)

lemma leaves_send: "gen_send env t m adr dat s = Some y \<Longrightarrow> leaves (fview s) y"
proof (rule gen_send.raw_induct [where P = "\<lambda>env t m adr dat s y. leaves (fview s) y"], goal_cases)
  case (1 f env t m adr dat s y)
  have r: "revive p e s' = Inr s3 \<Longrightarrow> fview s3 = fview s'" for p e s' s3 using leaves0_revive [OF refl, of s' p e] by (simp add: leaves0_def)
  from 1(3) show ?case
    by (auto simp: fs_ask_tell Let_def split: if_splits sum.splits dest!: 1(2) dest: r)
qed

lemma leaves_wait: "gen_wait env t p r m bs s = Some y \<Longrightarrow> leaves (fview s) y"
proof (rule gen_wait.raw_induct [where P = "\<lambda>env t p r m bs s y. leaves (fview s) y"], goal_cases)
  case (1 f env t p r m bs s y)
  have r: "revive p e s' = Inr s3 \<Longrightarrow> fview s3 = fview s'" for p e s' s3 using leaves0_revive [OF refl, of s' p e] by (simp add: leaves0_def)
  from 1(3) show ?case
    by (auto simp: fs_ask_tell Let_def split: if_splits sum.splits dest!: 1(2) dest: r)
qed

lemma leaves_ran:
  "(\<And>y. x = Some y \<Longrightarrow> leaves v y) \<Longrightarrow> leaves v (ran x)" "(\<And>y. z = Some y \<Longrightarrow> leaves0 v y) \<Longrightarrow> leaves0 v (ran z)"
  by (auto simp: ran_def split: option.splits)

lemma leaves_gen [leave]: "fview s = v \<Longrightarrow> leaves v (ran (gen_send env t m adr dat s))" "fview s = v \<Longrightarrow> leaves v (ran (gen_wait env t p r m bs s))"
  by (auto intro!: leaves_ran dest: leaves_send leaves_wait)

lemma leaves_gen_io [leave]: "fview s = v \<Longrightarrow> leaves v (gen_io env t m adr dat s)"
  unfolding gen_io_def Let_def by (auto intro!: leaves_if leave_binds leave split: option.splits)

lemma leaves_call_io [leave]: "fview s = v \<Longrightarrow> leaves v (call_io env io t m adr dat s)"
  unfolding call_io_def ctty_io_def Let_def by (auto intro!: leaves_if leave_binds leave split: io_fun.splits)

lemma leaves_dev_io [leave]: "fview s = v \<Longrightarrow> leaves v (dev_io env op dev p adr dat pos n fl s)"
  unfolding dev_io_def Let_def by (auto intro!: leaves_if leave_binds leave split: prod.splits)

section \<open>The buffer cache\<close>

lemma leaves0_rw_block [leave]: "fview s = v \<Longrightarrow> leaves0 v (rw_block env bp rw s)"
  unfolding rw_block_def Let_def by (auto intro!: leaves_if leave_binds leave split: prod.splits)

lemma fview_lru [simp]: "fview (rm_lru p s) = fview s" "fview (use_buf p s) = fview s" "fview (put_lru p ty s) = fview s" "fview (hash_link p s) = fview s"
  by (auto simp: rm_lru_def use_buf_def put_lru_def lru_front_def lru_rear_def hash_link_def Let_def split: option.splits)

lemma fview_harvest [simp]: "fview (snd (harvest rw dev r i q s)) = fview s"
  by (induction rw dev r i q s rule: harvest.induct) auto

lemma fview_fold: "(\<And>x s. fview (f x s) = fview s) \<Longrightarrow> fview (fold f xs s) = fview s"
  by (induction xs arbitrary: s) auto

declare rw_loop_scat.simps [simp del]

lemma leaves_harvest: "fview s = v \<Longrightarrow> leaves v (Inr (harvest rw dev r i q s))"
  using fview_harvest [of rw dev r i q s] by (cases "harvest rw dev r i q s") simp

lemma fview_store [simp]: "fview (store_blocks n q bs s) = fview s"
  unfolding store_blocks_def by (rule fview_fold) (auto split: prod.splits)

lemma leaves_rw_run [leave]: "fview s = v \<Longrightarrow> leaves v (rw_run env dev n rw q s)"
  unfolding rw_run_def Let_def by (auto intro!: leave_binds leave leaves_harvest split: prod.splits)

lemma leaves0_rw_loop [leave]: "fview s = v \<Longrightarrow> leaves0 v (rw_loop_scat env dev n rw q s)"
proof (induction "length q" arbitrary: q s rule: less_induct)
  case less
  show ?case
  proof (cases "rw_run env dev n rw q s")
    case (Inr y)
    obtain i s1 where y: "y = (i, s1)" by (cases y)
    have v: "fview s1 = v" using leaves_rw_run [OF less(2), of env dev n rw q] Inr y by simp
    have "leaves0 v (rw_loop_scat env dev n rw (drop i q) s1)" if "q \<noteq> []" "0 < i" using that v by (intro less) simp
    then show ?thesis using Inr v less(2) by (subst rw_loop_scat.simps) (auto simp: y Let_def fview_fold)
  qed (subst rw_loop_scat.simps, use less in simp)
qed

lemma leaves0_flushall [leave]: "fview s = v \<Longrightarrow> leaves0 v (flushall env dev s)"
  unfolding flushall_def rw_scattered_def by (auto intro!: leave_binds leave)

lemma leaves0_unlink_from: "hash_unlink_from p bp s = Some y \<Longrightarrow> leaves0 (fview s) y"
proof (rule hash_unlink_from.raw_induct [where P = "\<lambda>p bp s y. leaves0 (fview s) y"], goal_cases)
  case (1 f p bp s y)
  from 1(3) show ?case by (auto split: option.splits if_splits dest: 1(2))
qed

lemma leaves0_hash_unlink [leave]: "fview s = v \<Longrightarrow> leaves0 v (hash_unlink bp s)"
  unfolding hash_unlink_def Let_def by (auto intro!: leaves_ran dest: leaves0_unlink_from)

lemma leaves_free_buf [leave]: "fview s = v \<Longrightarrow> leaves v (get_free_buf env dev n mode s)"
  unfolding get_free_buf_def Let_def by (auto intro!: leaves_if leave_binds leave split: option.splits search.splits)

lemma leaves_get_block [leave]: "fview s = v \<Longrightarrow> leaves v (get_block env dev n mode s)"
  unfolding get_block_def by (auto intro!: leave split: option.splits)

lemma leaves0_put_block [leave]: "fview s = v \<Longrightarrow> leaves0 v (put_block env b ty s)"
  unfolding put_block_def Let_def by (auto intro!: leave split: option.splits)

section \<open>Zones and inodes\<close>

lemma leaves0_free_bit [leave]: "fview s = v \<Longrightarrow> leaves0 v (free_bit env sp m b s)"
  unfolding free_bit_def Let_def by (auto intro!: leaves_if leave_binds leave)

lemma leaves0_free_zone [leave]: "fview s = v \<Longrightarrow> leaves0 v (free_zone env dev z s)"
  unfolding free_zone_def Let_def by (auto intro!: leaves_if leave_binds leave)

lemma leaves_read_indir [leave]: "fview s = v \<Longrightarrow> leaves v (read_indir env dev b i s)"
  unfolding read_indir_def by (auto intro!: leave_binds leave)

text \<open>Where the state is the third part of the result.\<close>

definition leaves3 :: "fdview \<Rightarrow> ('a \<times> 'b \<times> fsstate) res \<Rightarrow> bool" where
  "leaves3 v y \<longleftrightarrow> (\<forall>x e s'. y = Inr (x, e, s') \<longrightarrow> fview s' = v)"

lemma leaves3_rules:
  "leaves3 v (Inr (x, e, s')) \<longleftrightarrow> fview s' = v" "leaves3 v (if b then y else z) \<longleftrightarrow> (if b then leaves3 v y else leaves3 v z)"
  "leaves v r \<Longrightarrow> leaves3 v (bindr r (\<lambda>(z, s1). Inr (z, ex, s1)))"
  by (auto simp: leaves3_def leaves_def) (cases r; auto)

lemma leaves3_bind: "leaves3 v y \<Longrightarrow> (\<And>x e s'. fview s' = v \<Longrightarrow> leaves v (g (x, e, s'))) \<Longrightarrow> leaves v (bindr y g)"
  by (cases y) (auto simp: leaves3_def)

lemma leaves_read_map [leave]: "fview s = v \<Longrightarrow> leaves v (read_map env rip pos s)"
  unfolding read_map_def Let_def
  by (intro leaves_pure [where y = "isp rip s"] leaves_if leaves3_bind) (auto simp: leaves3_rules(1,2) intro!: leaves3_rules(3) leave_binds leave)

lemma leaves0_free_data: "free_data env rip dev scale zs pos s = Some y \<Longrightarrow> leaves0 (fview s) y"
proof (rule free_data.raw_induct [where P = "\<lambda>env rip dev scale zs pos s y. leaves0 (fview s) y"], goal_cases)
  case (1 f env rip dev scale zs pos s y)
  have "leaves0 (fview s) (bindr (read_map env rip pos s) (\<lambda>(b, s1). if b \<noteq> NO_BLOCK then free_zone env dev (drop_bit scale b) s1 else Inr s1))"
    by (auto intro!: leaves_if leave_binds leave)
  note l = this
  show ?case
  proof (cases "pos < i_size (inodes s rip)")
    case True
    show ?thesis
    proof (cases "bindr (read_map env rip pos s) (\<lambda>(b, s1). if b \<noteq> NO_BLOCK then free_zone env dev (drop_bit scale b) s1 else Inr s1)")
      case (Inr s2)
      then show ?thesis using 1(3) l True 1(2) [of env rip dev scale zs "pos + zs" s2 y] by simp
    next
      case (Inl e)
      then have "y = Inl e" using 1(3) True by simp
      then show ?thesis by simp
    qed
  qed (use 1(3) in auto)
qed

lemma leaves0_ran_data [leave]: "fview s = v \<Longrightarrow> leaves0 v (ran (free_data env rip dev sc zs pos s))"
  by (auto intro!: leaves_ran dest: leaves0_free_data)

lemma leaves0_free_indirs [leave]: "fview s = v \<Longrightarrow> leaves0 v (free_indirs env dev bp xs s)"
  by (induction xs arbitrary: s) (auto intro!: leave_binds leave)

lemma leaves0_truncate [leave]: "fview s = v \<Longrightarrow> leaves0 v (truncate_file env rip s)"
  unfolding truncate_file_def Let_def wipe_inode_def by (auto intro!: leaves_if leave_binds leave)

lemma leaves_clock [leave]: "fview s = v \<Longrightarrow> leaves v (clock_time env s)"
  by (simp add: clock_time_def fs_ask_tell)

lemma leaves0_times [leave]: "fview s = v \<Longrightarrow> leaves0 v (update_times env rip s)"
  unfolding update_times_def by (auto intro!: leaves_if leave_binds leave)

lemma leaves0_rw_inode [leave]: "fview s = v \<Longrightarrow> leaves0 v (rw_inode env rip rw s)"
  unfolding rw_inode_def Let_def old_icopy_def new_icopy_def set_dirty_def
  by (auto intro!: leaves_if leave_binds leave split: rw_flag.splits)

lemma leaves0_free_inode [leave]: "fview s = v \<Longrightarrow> leaves0 v (free_inode env dev n s)"
  unfolding free_inode_def by (auto intro!: leaves_if leave_binds leave)

lemma leaves0_put_inode [leave]: "fview s = v \<Longrightarrow> leaves0 v (put_inode env r s)"
  unfolding put_inode_def Let_def by (auto intro!: leaves_if leave_binds leave split: option.splits)

section \<open>Closing a file\<close>

lemma leaves0_sync_inodes [leave]: "fview s = v \<Longrightarrow> leaves0 v (sync_inodes env ns s)"
  by (induction ns arbitrary: s) (auto intro!: leave_binds leave)

lemma leaves0_sync_bufs [leave]: "fview s = v \<Longrightarrow> leaves0 v (sync_bufs env ns s)"
  by (induction ns arbitrary: s) (auto intro!: leave_binds leave)

lemma leaves_do_sync [leave]: "fview s = v \<Longrightarrow> leaves v (do_sync env s)"
  unfolding do_sync_def by (auto intro!: leave_binds leave)

lemma leaves0_purge [leave]: "fview s = v \<Longrightarrow> leaves0 v (purge env dev s)"
  unfolding purge_def by (auto intro!: leave_binds leave simp: invalidate_def)

lemma leaves_opcl [leave]: "fview s = v \<Longrightarrow> leaves v (call_opcl env f DEV_CLOSE dev p fl s)"
  unfolding call_opcl_def no_dev_def gen_opcl_def tty_opcl_def ctty_opcl_def clone_opcl_def Let_def
  by (auto intro!: leaves_if leave_binds leave simp: fview_fp split: opcl_fun.splits prod.splits)

lemma leaves0_dev_close [leave]: "fview s = v \<Longrightarrow> leaves0 v (dev_close env dev s)"
  unfolding dev_close_def by (auto intro!: leave_binds leave)

lemma leaves0_close_dev [leave]: "fview s = v \<Longrightarrow> leaves0 v (close_dev env rip s)"
  unfolding close_dev_def Let_def by (auto intro!: leaves_if leave_binds leave)

lemma leaves0_timer [leave]: "fview s = v \<Longrightarrow> leaves0 v (fs_cancel_timer env n s)"
  unfolding fs_cancel_timer_def fs_setalarm_def by (auto simp: fs_ask_tell Let_def split: option.splits)

lemma fview_cancel_fd: "fview (cancel_fd n fd s) = fview s"
  by (auto simp: cancel_fd_def select_reevaluate_def Let_def fview_filp split: option.splits)

lemma leaves0_cancel_all [leave]: "fview s = v \<Longrightarrow> leaves0 v (select_cancel_all env n s)"
  unfolding select_cancel_all_def Let_def by (auto intro!: leaves_if leave_binds leave simp: fview_fold fview_cancel_fd)

lemma fview_copy [simp]: "fview (copy_fdsets n s) = fview s"
  by (simp add: copy_fdsets_def copy_fdset_def Let_def)

lemma fview_callback_fds: "fview (snd (callback_fds f ops n s)) = fview s"
proof -
  let ?g = "\<lambda>fd (wake, s1). if sel_filps (selecttab s1 n) fd = Some f \<and> tab2ops fd (selecttab s1 n) AND ops \<noteq> 0
              then (True, upd_sel n (ops2tab ops fd) s1) else (wake, s1)"
  have "fview (snd (fold ?g fds (w, s'))) = fview s'" for fds w s'
    by (induction fds arbitrary: w s') auto
  then show ?thesis by (simp add: callback_fds_def)
qed

lemma leaves0_callback_loop [leave]: "fview s = v \<Longrightarrow> leaves0 v (callback_loop env f ops ns s)"
proof (induction ns arbitrary: s)
  case (Cons n ns)
  obtain w s1 where c: "callback_fds f ops n s = (w, s1)" by (cases "callback_fds f ops n s")
  then have "fview s1 = v" using fview_callback_fds [of f ops n s] Cons.prems by simp
  then show ?case using Cons c by (auto intro!: leave_binds leave simp: select_wakeup_def)
qed simp

lemma leaves0_release_select [leave]: "fview s = v \<Longrightarrow> leaves0 v (release_select env ip op fs s)"
  by (induction fs arbitrary: s) (auto intro!: leave_binds leave simp: select_callback_def fview_filp)

lemma leaves0_release_procs [leave]: "fview s = v \<Longrightarrow> leaves0 v (release_procs ip c k ns s)"
  by (induction ns arbitrary: s k) (auto intro!: leave_binds leave simp: Let_def split: option.splits)

lemma leaves0_release [leave]: "fview s = v \<Longrightarrow> leaves0 v (release env ip c k s)"
  unfolding release_def by (auto intro!: leaves_if leave_binds leave)

lemma leaves0_revive_all [leave]: "fview s = v \<Longrightarrow> leaves0 v (revive_all ns s)"
  by (induction ns arbitrary: s) (auto intro!: leave_binds leave)

lemma leaves0_unlock_file [leave]: "fview s = v \<Longrightarrow> leaves0 v (unlock_file rip s)"
proof -
  assume s: "fview s = v"
  have "fview ((fold (\<lambda>n. upd_lock n (\<lambda>l. l\<lparr>lock_type := 0\<rparr>)) ns s)\<lparr>nr_locks := k\<rparr>) = v" for ns k
    using fview_fold [of "\<lambda>n. upd_lock n (\<lambda>l. l\<lparr>lock_type := 0\<rparr>)" ns s] s by simp
  then show ?thesis unfolding unlock_file_def lock_revive_def Let_def using s
    by (intro leaves_if leave) (simp_all only: leaves_simps)
qed

section \<open>The count of an open file\<close>

definition refs :: "fdview \<Rightarrow> nat \<Rightarrow> (int \<times> nat) set" where
  "refs v f = {(p, fd). 0 \<le> p \<and> p < NR_PROCS \<and> fd < OPEN_MAX \<and> fst v p fd = Some f}"

definition counted :: "fdview \<Rightarrow> bool" where
  "counted v \<longleftrightarrow> (\<forall>p fd f. 0 \<le> p \<longrightarrow> p < NR_PROCS \<longrightarrow> fd < OPEN_MAX \<longrightarrow> fst v p fd = Some f \<longrightarrow> f < NR_FILPS) \<and>
     (\<forall>f < NR_FILPS. fst (snd v) f = int (card (refs v f)))"

lemma finite_refs: "finite (refs v f)"
proof (rule finite_subset)
  show "refs v f \<subseteq> {0..<NR_PROCS} \<times> {0..<OPEN_MAX}" by (auto simp: refs_def)
qed simp

text \<open>One descriptor is set or cleared.\<close>

definition fd_set :: "int \<Rightarrow> nat \<Rightarrow> nat option \<Rightarrow> (int \<Rightarrow> nat \<Rightarrow> nat option) \<Rightarrow> int \<Rightarrow> nat \<Rightarrow> nat option" where
  "fd_set p fd fo t = t(p := (t p)(fd := fo))"

lemma refs_set:
  assumes "0 \<le> p" "p < NR_PROCS" "fd < OPEN_MAX"
  shows "refs (fd_set p fd fo t, c, q) f = (if fo = Some f then insert (p, fd) (refs (t, c, q) f) else refs (t, c, q) f - {(p, fd)})"
  using assms by (auto simp: refs_def fd_set_def split: if_splits)

lemma counted_open:
  assumes "counted (t, c, q)" and "0 \<le> p" "p < NR_PROCS" "fd < OPEN_MAX" and "t p fd = None" and "f < NR_FILPS"
  shows "counted (fd_set p fd (Some f) t, c(f := c f + 1), q')"
proof -
  have n: "(p, fd) \<notin> refs (t, c, q) g" for g using assms(5) by (simp add: refs_def)
  have r: "refs (v, c', q1) g = refs (v, c'', q2) g" for v c' q1 c'' q2 g by (simp add: refs_def)
  have "card (refs (fd_set p fd (Some f) t, c(f := c f + 1), q') g) = card (refs (t, c, q) g) + (if g = f then 1 else 0)" for g
    using n refs_set [OF assms(2-4), of "Some f" t c q g] r [of "fd_set p fd (Some f) t" "c(f := c f + 1)" q' g c q] finite_refs by (auto simp: card_insert_disjoint)
  then show ?thesis using assms(1,6) unfolding counted_def by (auto simp: fd_set_def)
qed

lemma counted_close:
  assumes "counted (t, c, q)" and "0 \<le> p" "p < NR_PROCS" "fd < OPEN_MAX" and "t p fd = Some f"
  shows "counted (fd_set p fd None t, c(f := c f - 1), q')"
proof -
  have n: "(p, fd) \<in> refs (t, c, q) g \<longleftrightarrow> g = f" for g using assms(2-5) by (auto simp: refs_def)
  have r: "refs (v, c', q1) g = refs (v, c'', q2) g" for v c' q1 c'' q2 g by (simp add: refs_def)
  have k: "int (card (refs (fd_set p fd None t, c(f := c f - 1), q') g)) = int (card (refs (t, c, q) g)) - (if g = f then 1 else 0)" for g
  proof -
    have e: "refs (fd_set p fd None t, c(f := c f - 1), q') g = refs (t, c, q) g - {(p, fd)}"
      using refs_set [OF assms(2-4), of None t c q g] r [of "fd_set p fd None t" "c(f := c f - 1)" q' g c q] by simp
    show ?thesis
    proof (cases "g = f")
      case True
      then have m: "(p, fd) \<in> refs (t, c, q) g" using n by simp
      then have "card (refs (t, c, q) g) = Suc (card (refs (t, c, q) g - {(p, fd)}))" using finite_refs by (metis card_Suc_Diff1)
      then show ?thesis unfolding e using True by simp
    next
      case False
      then have "refs (t, c, q) g - {(p, fd)} = refs (t, c, q) g" using n by simp
      then show ?thesis unfolding e using False by simp
    qed
  qed
  have "fd_set p fd None t p' d = Some g \<Longrightarrow> t p' d = Some g" for p' d g by (auto simp: fd_set_def split: if_splits)
  moreover have "(c(f := c f - 1)) g = int (card (refs (fd_set p fd None t, c(f := c f - 1), q') g))" if "g < NR_FILPS" for g
    using assms(1) that k [of g] unfolding counted_def by auto
  ultimately show ?thesis using assms(1) unfolding counted_def fst_conv snd_conv by blast
qed

lemma fview_parts: "fst (fview s) p = fp_filp (fprocs s p)" "fst (snd (fview s)) f = filp_count (filps s f)" "snd (snd (fview s)) = fs_fp s"
  by (simp_all add: fview_def)

section \<open>Closing, duplicating and inheriting descriptors\<close>

lemma leaves_then:
  "leaves0 u z \<Longrightarrow> (\<And>s'. fview s' = u \<Longrightarrow> leaves v (k s')) \<Longrightarrow> leaves v (bindr z k)"
  by (cases z) auto

text \<open>The descriptor table and counts after descriptor \<open>fd\<close> of the current process, which refers to \<open>f\<close>, was closed or opened.\<close>

definition fd_closed :: "nat \<Rightarrow> nat \<Rightarrow> fsstate \<Rightarrow> fdview" where
  "fd_closed fd f s = (fd_set (fs_fp s) fd None (fst (fview s)), (fst (snd (fview s)))(f := filp_count (filps s f) - 1), fs_fp s)"

definition fd_opened :: "nat \<Rightarrow> nat \<Rightarrow> fsstate \<Rightarrow> fdview" where
  "fd_opened fd f s = (fd_set (fs_fp s) fd (Some f) (fst (fview s)), (fst (snd (fview s)))(f := filp_count (filps s f) + 1), fs_fp s)"

lemma fview_eqD: "fview s' = fview s \<Longrightarrow> fp_filp (fprocs s' p) = fp_filp (fprocs s p) \<and> filp_count (filps s' f) = filp_count (filps s f) \<and> fs_fp s' = fs_fp s"
  by (auto simp: fview_def fun_eq_iff)

lemma closed_cong: "fview s' = fview s \<Longrightarrow> fd_closed fd f s' = fd_closed fd f s" "fview s' = fview s \<Longrightarrow> fd_opened fd f s' = fd_opened fd f s"
  unfolding fd_closed_def fd_opened_def using fview_eqD [of s' s undefined f] by simp_all

lemma fview_clear:
  "fview (upd_fp (fs_fp s) (\<lambda>p. p\<lparr>fp_cloexec := c p, fp_filp := (fp_filp p)(fd := None)\<rparr>) s) =
    (fd_set (fs_fp s) fd None (fst (fview s)), fst (snd (fview s)), fs_fp s)"
  by (auto simp: fview_def upd_fp_def fd_set_def fun_eq_iff)

lemma fview_count: "fview (upd_filp f (\<lambda>x. x\<lparr>filp_count := filp_count x + k\<rparr>) s) =
    (fst (fview s), (fst (snd (fview s)))(f := filp_count (filps s f) + k), fs_fp s)"
  by (auto simp: fview_def upd_filp_def fun_eq_iff)

lemma fview_dec: "fview (upd_filp f (\<lambda>x. x\<lparr>filp_count := filp_count x - 1\<rparr>) s) =
    (fst (fview s), (fst (snd (fview s)))(f := filp_count (filps s f) - 1), fs_fp s)"
  by (auto simp: fview_def upd_filp_def fun_eq_iff)

lemma do_close_leaves:
  assumes "get_filp (fs_arg s 0) s = (Some f, s0)"
  shows "leaves (fd_closed (nat (fs_arg s 0)) f s) (do_close env s)"
proof -
  have s0: "fview s0 = fview s" using assms by (auto simp: get_filp_def)
  let ?u = "(fst (fview s), (fst (snd (fview s)))(f := filp_count (filps s f) - 1), fs_fp s)"
  have dec: "fview (upd_filp f (\<lambda>x. x\<lparr>filp_count := filp_count x - 1\<rparr>) s2) = ?u" if "fview s2 = fview s" for s2
    unfolding fview_dec using that fview_eqD [OF that, of undefined f] by simp
  have clr: "fview (upd_fp (fs_fp s4) (\<lambda>p. p\<lparr>fp_cloexec := c p, fp_filp := (fp_filp p)(fd := None)\<rparr>) s4) = fd_closed fd f s"
    if "fview s4 = ?u" for s4 c fd unfolding fview_clear fd_closed_def that using that by (simp add: fview_def)
  show ?thesis unfolding do_close_def Let_def assms prod.case option.case
    apply (rule leave_binds)
    apply (rule leaves_then [of "fview s"])
     apply (auto intro!: leaves_if leave simp: s0)[1]
    apply (rule leaves_then [of "fview s"])
     apply (auto intro!: leaves_if leave)[1]
    apply (rule leaves_then [of ?u])
     apply (auto intro!: leaves_if leave simp: dec)[1]
    apply (rule leaves_then [of "fd_closed (nat (fs_arg s 0)) f s"])
     apply (rule leave)
     apply (rule clr)
     apply assumption
    apply simp
    done
qed

lemma do_close_view:
  assumes "do_close env s = Inr (r, s')"
  shows "case fst (get_filp (fs_arg s 0) s) of None \<Rightarrow> r = EBADF \<and> fview s' = fview s
    | Some f \<Rightarrow> r = OK \<and> fview s' = fd_closed (nat (fs_arg s 0)) f s"
proof (cases "get_filp (fs_arg s 0) s")
  case (Pair fo s0)
  show ?thesis
  proof (cases fo)
    case None
    have "s0 = s\<lparr>err_code := EBADF\<rparr>" using Pair by (simp add: get_filp_def)
    then show ?thesis using assms None Pair by (auto simp: do_close_def)
  next
    case (Some f)
    have "r = OK" using assms Some Pair by (auto simp: do_close_def Let_def bindr_Inr_iff)
    then show ?thesis using do_close_leaves [of s f s0 env] assms Some Pair by simp
  qed
qed

text \<open>The file of a descriptor of the current process.\<close>

abbreviation file_of :: "int \<Rightarrow> fsstate \<Rightarrow> nat option" where
  "file_of fd s \<equiv> fst (get_filp fd s)"

lemma file_ofD: "file_of fd s = Some f \<Longrightarrow> 0 \<le> fd \<and> nat fd < OPEN_MAX \<and> fp_filp (cur s) (nat fd) = Some f"
  by (auto simp: get_filp_def split: if_splits)

definition fp_ok :: "fsstate \<Rightarrow> bool" where
  "fp_ok s \<longleftrightarrow> counted (fview s) \<and> 0 \<le> fs_fp s \<and> fs_fp s < NR_PROCS"

lemma fp_ok_filp: "fp_ok s \<Longrightarrow> fd < OPEN_MAX \<Longrightarrow> fp_filp (cur s) fd = Some f \<Longrightarrow> f < NR_FILPS"
  unfolding fp_ok_def counted_def fview_parts by blast

lemma counted_closed: "fp_ok s \<Longrightarrow> fd < OPEN_MAX \<Longrightarrow> fp_filp (cur s) fd = Some f \<Longrightarrow> counted (fd_closed fd f s)"
  unfolding fd_closed_def fp_ok_def fview_def fst_conv snd_conv by (intro counted_close) auto

lemma counted_opened: "fp_ok s \<Longrightarrow> fd < OPEN_MAX \<Longrightarrow> fp_filp (cur s) fd = None \<Longrightarrow> f < NR_FILPS \<Longrightarrow> counted (fd_opened fd f s)"
  unfolding fd_opened_def fp_ok_def fview_def fst_conv snd_conv by (intro counted_open) auto

lemma fview_closed: "fview s' = fd_closed fd f s \<Longrightarrow> fs_fp s' = fs_fp s \<and>
    fp_filp (fprocs s' p) d = (if p = fs_fp s \<and> d = fd then None else fp_filp (fprocs s p) d)"
  by (auto simp: fview_def fd_closed_def fd_set_def fun_eq_iff)

lemma fview_opened: "fview s' = fd_opened fd f s \<Longrightarrow> fs_fp s' = fs_fp s \<and>
    fp_filp (fprocs s' p) d = (if p = fs_fp s \<and> d = fd then Some f else fp_filp (fprocs s p) d)"
  by (auto simp: fview_def fd_opened_def fd_set_def fun_eq_iff)

lemma do_close_counts:
  assumes "fp_ok s" and "do_close env s = Inr (r, s')"
  shows "fp_ok s'" and "r = (if file_of (fs_arg s 0) s = None then EBADF else OK)"
    and "fp_filp (fprocs s' p) d = (if p = fs_fp s \<and> int d = fs_arg s 0 \<and> d < OPEN_MAX then None else fp_filp (fprocs s p) d)"
    and "fs_fp s' = fs_fp s"
proof -
  note v = do_close_view [OF assms(2)]
  have "fp_ok s' \<and> r = (if file_of (fs_arg s 0) s = None then EBADF else OK) \<and> fs_fp s' = fs_fp s \<and>
    fp_filp (fprocs s' p) d = (if p = fs_fp s \<and> int d = fs_arg s 0 \<and> d < OPEN_MAX then None else fp_filp (fprocs s p) d)"
  proof (cases "file_of (fs_arg s 0) s")
    case None
    then have e: "fview s' = fview s" and r: "r = EBADF" using v by simp_all
    have "fp_filp (cur s) d = None" if "int d = fs_arg s 0" "d < OPEN_MAX"
      using None that(2) unfolding that(1) [symmetric] by (simp add: get_filp_def)
    then show ?thesis using r None assms(1) e fview_eqD [OF e, of p] unfolding fp_ok_def by auto
  next
    case (Some f)
    then have e: "fview s' = fd_closed (nat (fs_arg s 0)) f s" and r: "r = OK" using v by simp_all
    note f = file_ofD [OF Some]
    then show ?thesis using r Some assms(1) e counted_closed [OF assms(1), of "nat (fs_arg s 0)" f] fview_closed [OF e, of p d] unfolding fp_ok_def by auto
  qed
  then show "fp_ok s'" "r = (if file_of (fs_arg s 0) s = None then EBADF else OK)" "fs_fp s' = fs_fp s"
    "fp_filp (fprocs s' p) d = (if p = fs_fp s \<and> int d = fs_arg s 0 \<and> d < OPEN_MAX then None else fp_filp (fprocs s p) d)" by blast+
qed

lemma dup_filp_view: "fview (dup_filp f fd s) = fd_opened fd f s"
  by (auto simp: dup_filp_def set_fd_def fview_def fd_opened_def fd_set_def upd_fp_def upd_filp_def fun_eq_iff)

lemma dup_filp_counts:
  assumes "fp_ok s" "fd < OPEN_MAX" "fp_filp (cur s) fd = None" "f < NR_FILPS"
  shows "fp_ok (dup_filp f fd s)" "fp_filp (fprocs (dup_filp f fd s) p) d = (if p = fs_fp s \<and> d = fd then Some f else fp_filp (fprocs s p) d)"
  using counted_opened [OF assms] fview_opened [OF dup_filp_view, of f fd s p d] assms(1) dup_filp_view [of f fd s] unfolding fp_ok_def by auto

lemma get_fd_view:
  assumes "get_fd start bits s = (Inr (k, g), s')"
  shows "fview s' = fview s" "k < OPEN_MAX" "fp_filp (cur s) k = None"
  using assms by (auto simp: get_fd_def fview_filp find_Some_iff split: option.splits)


text \<open>A descriptor for the same file: the lowest free one, or a given one, which is closed first.\<close>

definition same_file :: "int \<Rightarrow> nat option \<Rightarrow> fsstate \<Rightarrow> fsstate \<Rightarrow> bool" where
  "same_file k fo s s' \<longleftrightarrow> (\<forall>p d. fp_filp (fprocs s' p) d = (if p = fs_fp s \<and> int d = k then fo else fp_filp (fprocs s p) d))"

lemma dup_lowest:
  assumes "fp_ok s" and "fview s1 = fview s" and "f < NR_FILPS"
    and "(case get_fd 0 0 s1 of (Inl e, s2) \<Rightarrow> Inr (e, s2) | (Inr (k, _), s2) \<Rightarrow> Inr (int k, dup_filp f k (set_arg 1 (of_nat k) s2))) = (Inr (r, s') :: (int \<times> fsstate) res)"
  shows "fp_ok s' \<and> (0 \<le> r \<longrightarrow> r < int OPEN_MAX \<and> same_file r (Some f) s s')"
proof (cases "get_fd 0 0 s1")
  case g: (Pair y s2)
  show ?thesis
  proof (cases y)
    case (Inl e)
    have "e < 0" "s2 = s1" using g Inl by (auto simp: get_fd_def split: option.splits)
    then show ?thesis using assms g Inl fview_eqD [OF assms(2)] by (auto simp: fp_ok_def)
  next
    case (Inr kg)
    obtain k h where kg: "kg = (k, h)" by (cases kg)
    note v = get_fd_view [OF g [unfolded Inr kg]]
    let ?t = "set_arg 1 (of_nat k) s2"
    have e: "fview ?t = fview s" using v(1) assms(2) by simp
    have t: "fp_ok ?t" "fp_filp (cur ?t) k = None" using assms(1) e fview_eqD [OF e] fview_eqD [OF assms(2)] v(3) unfolding fp_ok_def by auto
    have "s' = dup_filp f k ?t" "r = int k" using assms(4) g Inr kg by auto
    then show ?thesis using dup_filp_counts [OF t(1) v(2) t(2) assms(3)] fview_eqD [OF e] v(2) by (auto simp: same_file_def)
  qed
qed

lemma dup_given:
  assumes "fp_ok s" and "fview s1 = fview s" and "f < NR_FILPS" and "0 \<le> fs_arg s1 1" "fs_arg s1 1 < int OPEN_MAX"
    and "do_close env (set_arg 0 (fs_word s1 1) s1) = Inr (e, s2)"
  shows "fp_ok (dup_filp f (nat (fs_arg s1 1)) s2) \<and> same_file (fs_arg s1 1) (Some f) s (dup_filp f (nat (fs_arg s1 1)) s2)"
proof -
  let ?t = "set_arg 0 (fs_word s1 1) s1" and ?k = "nat (fs_arg s1 1)"
  have t: "fp_ok ?t" "fs_arg ?t 0 = fs_arg s1 1" using assms(1,2) fview_eqD [OF assms(2)] by (simp_all add: fp_ok_def int_field_def)
  note c = do_close_counts [OF t(1) assms(6), unfolded t(2)]
  have k: "?k < OPEN_MAX" "int ?k = fs_arg s1 1" using assms(4,5) by auto
  have n: "fp_filp (cur s2) ?k = None" using c(3) [of "fs_fp s2" ?k] c(4) k by simp
  show ?thesis using dup_filp_counts [OF c(1) k(1) n assms(3)] c(3,4) k fview_eqD [OF assms(2)] by (auto simp: same_file_def)
qed

lemma do_dup_counts:
  assumes "fp_ok s" and "do_dup env s = Inr (r, s')"
  defines "rfd \<equiv> sint (fs_word s 0 AND NOT 0x40)"
  shows "fp_ok s' \<and> (0 \<le> r \<longrightarrow> file_of rfd s \<noteq> None \<and> r < int OPEN_MAX \<and> same_file r (file_of rfd s) s s')"
proof (cases "get_filp rfd s")
  case (Pair fo s1)
  have s1: "s1 = s\<lparr>err_code := EBADF\<rparr>" "fview s1 = fview s" "fp_ok s1" using Pair assms(1) by (auto simp: get_filp_def fp_ok_def)
  show ?thesis
  proof (cases fo)
    case None
    then have "s' = s1" "r = EBADF" using assms(2) Pair s1(1) by (auto simp: do_dup_def rfd_def Let_def)
    then show ?thesis using s1 by simp
  next
    case (Some f)
    then have ff: "file_of rfd s = Some f" using Pair by simp
    note fd = file_ofD [OF ff]
    have f: "f < NR_FILPS" using fp_ok_filp [OF assms(1)] fd by blast
    note d = assms(2) [unfolded do_dup_def rfd_def [symmetric] Let_def Pair Some prod.case option.case]
    show ?thesis
    proof (cases "fs_arg s1 0 = rfd \<or> fs_arg s1 1 < 0 \<or> fs_arg s1 1 \<ge> int OPEN_MAX \<or> rfd = fs_arg s1 1")
      case True
      have "same_file rfd (Some f) s s1" using fd s1(1) by (auto simp: same_file_def)
      then show ?thesis using dup_lowest [OF assms(1) s1(2) f] d True s1(3) ff fd by (auto split: if_splits)
    next
      case False
      then obtain e s2 where "do_close env (set_arg 0 (fs_word s1 1) s1) = Inr (e, s2)" "s' = dup_filp f (nat (fs_arg s1 1)) s2" "r = fs_arg s1 1"
        using d by (auto simp: bindr_Inr_iff)
      then show ?thesis using dup_given [OF assms(1) s1(2) f] False ff by auto
    qed
  qed
qed

section \<open>Fork, exec and exit\<close>

lemma count_map_filter: "distinct xs \<Longrightarrow> count_list (List.map_filter g xs) f = card {x \<in> set xs. g x = Some f}"
proof (induction xs)
  case (Cons x xs)
  then have "{y \<in> set (x # xs). g y = Some f} = (if g x = Some f then insert x {y \<in> set xs. g y = Some f} else {y \<in> set xs. g y = Some f})" by auto
  then show ?case using Cons by (auto simp: map_filter_simps card_insert_disjoint split: option.splits)
qed (simp add: map_filter_simps)

lemma fview_counts:
  "fview (fold (\<lambda>f. upd_filp f (\<lambda>x. x\<lparr>filp_count := filp_count x + 1\<rparr>)) fs s) =
    (fst (fview s), (\<lambda>f. filp_count (filps s f) + int (count_list fs f)), fs_fp s)"
proof (induction fs arbitrary: s)
  case (Cons g fs)
  show ?case unfolding fold_Cons comp_apply Cons.IH by (auto simp: fview_def upd_filp_def fun_eq_iff)
qed (simp add: fview_def)

lemma counted_inherit:
  assumes "counted (t, c, q)" and "0 \<le> n" "n < NR_PROCS" and "0 \<le> p" "p < NR_PROCS" and "\<And>fd. fd < OPEN_MAX \<Longrightarrow> t n fd = None"
  shows "counted (t(n := t p), (\<lambda>f. c f + int (card {fd \<in> {..<OPEN_MAX}. t p fd = Some f})), q')"
proof -
  let ?c = "\<lambda>f. c f + int (card {fd \<in> {..<OPEN_MAX}. t p fd = Some f})"
  have "card (refs (t(n := t p), ?c, q') f) = card (refs (t, c, q) f) + card {fd \<in> {..<OPEN_MAX}. t p fd = Some f}" for f
  proof -
    have e: "refs (t(n := t p), ?c, q') f = refs (t, c, q) f \<union> Pair n ` {fd \<in> {..<OPEN_MAX}. t p fd = Some f}"
      using assms(2,3,6) by (auto simp: refs_def split: if_splits)
    have "refs (t, c, q) f \<inter> Pair n ` {fd \<in> {..<OPEN_MAX}. t p fd = Some f} = {}" using assms(6) by (auto simp: refs_def)
    then show ?thesis unfolding e using finite_refs by (simp add: card_Un_disjoint card_image inj_on_def)
  qed
  then show ?thesis using assms(1,4,5) unfolding counted_def fst_conv snd_conv by (auto simp: split: if_splits)
qed

lemma do_fork_counts:
  assumes "fp_ok s" and "do_fork_fs s = Inr (r, s')" and "fs_who s = PM_PROC_NR" and "\<And>fd. fd < OPEN_MAX \<Longrightarrow> fp_filp (fprocs s (fs_arg s 1)) fd = None"
  shows "fp_ok s'" and "fp_filp (fprocs s' n) = (if n = fs_arg s 1 then fp_filp (fprocs s (fs_arg s 0)) else fp_filp (fprocs s n))"
proof -
  let ?par = "fs_arg s 0" and ?chl = "fs_arg s 1"
  let ?v = "((fst (fview s))(?chl := fp_filp (fprocs s ?par)),
    (\<lambda>f. filp_count (filps s f) + int (card {fd \<in> {..<OPEN_MAX}. fp_filp (fprocs s ?par) fd = Some f})), fs_fp s)"
  have b: "0 \<le> ?par" "?par < NR_PROCS" "0 \<le> ?chl" "?chl < NR_PROCS"
    using assms(2,3) by (auto simp: do_fork_fs_def fproc_at_def bindr_Inr_iff split: if_splits)
  have c: "count_list (List.map_filter (fp_filp (fprocs s ?par)) [0..<OPEN_MAX]) f = card {fd \<in> {..<OPEN_MAX}. fp_filp (fprocs s ?par) fd = Some f}" for f
    by (simp add: count_map_filter atLeast0LessThan)
  have dd: "leaves0 v (dup_dir d s1)" if "fview s1 = v" for d s1 v using that by (cases d) (auto simp: dup_dir_def deref_def dup_inode_def)
  let ?s1 = "upd_fp ?chl (\<lambda>_. fprocs s ?par) s"
  let ?s2 = "fold (\<lambda>f. upd_filp f (\<lambda>x. x\<lparr>filp_count := filp_count x + 1\<rparr>)) (List.map_filter (fp_filp (fprocs s ?par)) [0..<OPEN_MAX]) ?s1"
  have "fview ?s2 = ?v" unfolding fview_counts c by (auto simp: fview_def upd_fp_def fun_eq_iff)
  moreover have "fp_filp (fprocs ?s1 ?chl) = fp_filp (fprocs s ?par)" by (simp add: upd_fp_def)
  ultimately have "leaves ?v (do_fork_fs s)" using b assms(3) unfolding do_fork_fs_def fproc_at_def Let_def
    by (auto intro!: leaves_bind(3) dd simp: fview_fp simp del: upt_rec_numeral)
  then have v: "fview s' = ?v" using assms(2) by simp
  show "fp_filp (fprocs s' n) = (if n = ?chl then fp_filp (fprocs s ?par) else fp_filp (fprocs s n))"
    using v by (auto simp: fview_def fun_eq_iff)
  have "counted (fst (fview s), fst (snd (fview s)), fs_fp s)" using assms(1) by (simp add: fp_ok_def fview_def)
  from counted_inherit [OF this b(3,4,1,2), of "fs_fp s"] show "fp_ok s'" using assms(1,4) v by (simp add: fp_ok_def fview_def)
qed


definition none_left :: "int \<Rightarrow> nat set \<Rightarrow> fsstate \<Rightarrow> fsstate \<Rightarrow> bool" where
  "none_left n D s s' \<longleftrightarrow> (\<forall>p d. fp_filp (fprocs s' p) d = (if p = n \<and> d \<in> D then None else fp_filp (fprocs s p) d))"

lemma small_sint: "i < OPEN_MAX \<Longrightarrow> sint (of_nat i :: u32) = int i"
  by (simp add: sint_uint uint_nat take_bit_nat_eq_self unsigned_of_nat signed_take_bit_int_eq_self)

lemma close_fds_counts:
  assumes "fp_ok s" and "close_fds env ns s = Inr s'" and "set ns \<subseteq> {..<OPEN_MAX}"
  shows "fp_ok s' \<and> fs_fp s' = fs_fp s \<and> none_left (fs_fp s) (set ns) s s'"
  using assms
proof (induction ns arbitrary: s)
  case (Cons i ns)
  let ?t = "set_arg 0 (of_nat i) s"
  have i: "i < OPEN_MAX" using Cons.prems(3) by simp
  have t: "fp_ok ?t" "fs_fp ?t = fs_fp s" using Cons.prems(1) by (simp_all add: fp_ok_def)
  have a: "fs_arg ?t 0 = int i" using i small_sint by (simp add: int_field_def)
  obtain e s1 where s1: "do_close env ?t = Inr (e, s1)" "close_fds env ns s1 = Inr s'" using Cons.prems(2) by (auto simp: bindr_Inr_iff)
  note c = do_close_counts [OF t(1) s1(1), unfolded a]
  have "fp_ok s' \<and> fs_fp s' = fs_fp s1 \<and> none_left (fs_fp s1) (set ns) s1 s'" using Cons.IH [OF c(1) s1(2)] Cons.prems(3) by simp
  then show ?case using c(3,4) t(2) i unfolding none_left_def by auto
qed (simp add: none_left_def)

lemma fp_ok_as: "fp_ok s \<Longrightarrow> 0 \<le> n \<Longrightarrow> n < NR_PROCS \<Longrightarrow> fp_ok (s\<lparr>fs_fp := n\<rparr>)"
  by (simp add: fp_ok_def counted_def fview_def refs_def)

lemma do_exec_counts:
  assumes "fp_ok s" and "do_exec_fs env s = Inr (r, s')" and "fs_who s = PM_PROC_NR"
  shows "fp_ok s' \<and> none_left (fs_arg s 0) {d. d < OPEN_MAX \<and> bit (fp_cloexec (fprocs s (fs_arg s 0))) d} s s'"
proof -
  let ?n = "fs_arg s 0" and ?ds = "filter (bit (fp_cloexec (fprocs s (fs_arg s 0)))) [0..<OPEN_MAX]"
  have b: "0 \<le> ?n" "?n < NR_PROCS" and c: "close_fds env ?ds (s\<lparr>fs_fp := ?n\<rparr>) = Inr s'"
    using assms(2,3) by (auto simp: do_exec_fs_def fproc_at_def bindr_Inr_iff Let_def simp del: upt_rec_numeral split: if_splits)
  have sub: "set ?ds \<subseteq> {..<OPEN_MAX}" and "set ?ds = {d. d < OPEN_MAX \<and> bit (fp_cloexec (fprocs s ?n)) d}" by auto
  then show ?thesis using close_fds_counts [OF fp_ok_as [OF assms(1) b] c sub] by (simp add: none_left_def del: upt_rec_numeral)
qed

section \<open>Exit\<close>

lemma leaves0_forget [leave]: "fview s = v \<Longrightarrow> leaves0 v (select_forget env n s)"
  unfolding select_forget_def by (auto intro!: leave_binds leave split: option.splits)

lemma leaves_unpause:
  assumes "fs_fp s = fs_arg s 0"
  shows "leaves (fview s) (do_unpause env s)"
proof -
  have "s\<lparr>fs_fp := fs_arg s 0\<rparr> = s" unfolding assms [symmetric] by simp
  then have "leaves0 (fview s) (unpause_dev env (fs_arg s 0) task s)" for task
    unfolding unpause_dev_def Let_def by (auto intro!: leaves_if leave_binds leave)
  then show ?thesis unfolding do_unpause_def Let_def
    by (auto intro!: leaves_if leave_binds leave simp: fview_fp)
qed

lemma leaves0_put_inodes [leave]: "fview s = v \<Longrightarrow> leaves0 v (put_inodes env rs s)"
  by (induction rs arbitrary: s) (auto intro!: leave_binds leave)

lemma leaves0_revoke_fds [leave]: "fview s = v \<Longrightarrow> leaves0 v (revoke_fds env dev fs s)"
  by (induction env dev fs s rule: revoke_fds.induct) (auto intro!: leaves_if leave_binds leave simp: fview_filp)

lemma leaves0_revoke_tty [leave]: "fview s = v \<Longrightarrow> leaves0 v (revoke_tty env dev ns s)"
  by (induction ns arbitrary: s) (auto intro!: leaves_if leave_binds leave simp: fview_fp Let_def simp del: upt_rec_numeral)


lemma none_left_cong: "fview s2 = fview s1 \<Longrightarrow> none_left n D s1 s' = none_left n D s2 s'" "fview s2 = fview s1 \<Longrightarrow> none_left n D s s1 = none_left n D s s2"
  unfolding none_left_def using fview_eqD [of s2 s1] by simp_all

lemma do_exit_counts:
  assumes "fp_ok s" and "do_exit_fs env s = Inr (r, s')" and "fs_who s = PM_PROC_NR"
  shows "fp_ok s' \<and> none_left (fs_arg s 0) {..<OPEN_MAX} s s'"
proof -
  let ?n = "fs_arg s 0" and ?s0 = "s\<lparr>fs_fp := fs_arg s 0\<rparr>"
  have b: "0 \<le> ?n" "?n < NR_PROCS" using assms(2,3) by (auto simp: do_exit_fs_def fproc_at_def bindr_Inr_iff split: if_splits)
  let ?stop = "\<lambda>s0. if fp_suspended (cur s0) then bindr (do_unpause env (if - fp_task (cur s0) = XPIPE \<or> - fp_task (cur s0) = XPOPEN
        then s0\<lparr>susp_count := susp_count s0 - 1\<rparr> else s0)) (\<lambda>(_, s1). Inr (upd_fp ?n (\<lambda>p. p\<lparr>fp_suspended := False\<rparr>) s1)) else Inr s0"
  define last where "last = (\<lambda>s2. bindr (put_inodes env [fp_rootdir (fprocs s2 ?n), fp_workdir (fprocs s2 ?n)] s2) (\<lambda>s3.
       let s4 = upd_fp ?n (\<lambda>p. p\<lparr>fp_rootdir := None, fp_workdir := None\<rparr>) s3; leader = fp_sesldr (fprocs s4 ?n);
           s5 = upd_fp ?n (\<lambda>p. p\<lparr>fp_sesldr := False\<rparr>) s4; dev = fp_tty (fprocs s5 ?n)
       in bindr (if leader \<and> dev \<noteq> 0 then revoke_tty env dev slots s5 else Inr s5) (\<lambda>s6.
          Inr (OK, upd_fp ?n (\<lambda>p. p\<lparr>fp_pid := 0\<rparr>) s6))))"
  have e: "do_exit_fs env s = bindr (?stop ?s0) (\<lambda>s1. bindr (close_fds env [0..<OPEN_MAX] s1) last)"
    using b assms(3) unfolding do_exit_fs_def fproc_at_def last_def by (simp add: Let_def del: upt_rec_numeral)
  obtain s1 s2 where 1: "?stop ?s0 = Inr s1" and 2: "close_fds env [0..<OPEN_MAX] s1 = Inr s2" and 3: "last s2 = Inr (r, s')"
    using assms(2) unfolding e bindr_Inr_iff by blast
  have "leaves0 (fview ?s0) (?stop ?s0)"
    using leaves_unpause [of ?s0 env] leaves_unpause [of "?s0\<lparr>susp_count := susp_count ?s0 - 1\<rparr>" env]
    by (auto intro!: leaves_if leave_binds simp: fview_fp)
  then have v1: "fview s1 = fview ?s0" using 1 by simp
  then have ok1: "fp_ok s1" "fs_fp s1 = ?n" using fp_ok_as [OF assms(1) b] fview_eqD [OF v1] by (auto simp: fp_ok_def)
  have c: "fp_ok s2" "fs_fp s2 = ?n" "none_left ?n {..<OPEN_MAX} s1 s2"
    using close_fds_counts [OF ok1(1) 2] ok1(2) by (auto simp: atLeast0LessThan)
  have "leaves (fview s2) (last s2)" unfolding last_def Let_def by (auto intro!: leaves_if leave_binds leave simp: fview_fp)
  then have v2: "fview s' = fview s2" using 3 by simp
  then have "none_left ?n {..<OPEN_MAX} ?s0 s'" using c(3) none_left_cong [OF v1] none_left_cong [OF v2] by blast
  then show ?thesis using c(1,2) v2 fview_eqD [OF v2] b by (simp add: fp_ok_def none_left_def)
qed


section \<open>Calls that return\<close>

lemma do_close_returns:
  assumes "file_of (fs_arg s 0) s = Some f" and "filp_count (filps s f) > 1" and "filp_ino (filps s f) = Some rip"
    and "\<not> i_pipe (inodes s rip)" and "nr_locks s = 0"
  shows "\<exists>s'. do_close env s = Inr (OK, s')"
proof -
  have "get_filp (fs_arg s 0) s = (Some f, s\<lparr>err_code := EBADF\<rparr>)" using assms(1) by (simp add: get_filp_def split: if_splits)
  then show ?thesis using assms(2-5) by (simp add: do_close_def Let_def deref_def unlock_file_def upd_fp_def upd_filp_def)
qed

lemma do_dup_returns:
  assumes "fs_arg s 0 = sint (fs_word s 0 AND NOT 0x40)"
  shows "\<exists>r s'. do_dup env s = Inr (r, s')"
  using assms by (auto simp: do_dup_def Let_def get_filp_def split: option.splits sum.splits prod.splits)

lemma do_fork_returns:
  assumes "fs_who s = PM_PROC_NR" and "0 \<le> fs_arg s 0" "fs_arg s 0 < NR_PROCS" "0 \<le> fs_arg s 1" "fs_arg s 1 < NR_PROCS"
    and "fp_rootdir (fprocs s (fs_arg s 0)) \<noteq> None" and "fp_workdir (fprocs s (fs_arg s 0)) \<noteq> None"
  shows "\<exists>s'. do_fork_fs s = Inr (OK, s')"
proof -
  have d: "fprocs (fold (\<lambda>f. upd_filp f g) fs u) = fprocs u" for fs u and g :: "filp \<Rightarrow> filp"
    by (induction fs arbitrary: u) (simp_all add: upd_filp_def)
  show ?thesis using assms
    by (auto simp: do_fork_fs_def fproc_at_def Let_def dup_dir_def deref_def d upd_fp_def dup_inode_def upd_ino_def simp del: upt_rec_numeral)
qed

text \<open>
  C36: the counts of the open files. When every entry of \<open>filp\<close> counts the descriptors that refer to it,
  this is so after \<open>do_close\<close>, \<open>do_dup\<close>, and the calls of the process manager for a fork, an exec and an
  exit, if they return, whatever the drivers answer. Closing clears that descriptor and no other, or
  is refused with \<open>EBADF\<close>; a duplicate refers to the same file as the original; a child, whose slot had no
  descriptors, gets those of its parent; exec clears those marked close-on-exec, exit all of
  the process. Closing a file, not a pipe, that is shared returns when there are no locks; \<open>dup\<close> always returns;
  a fork returns when the parent has its two directories.
\<close>

theorem filp_counts:
  assumes "fp_ok s"
  shows "(\<forall>r s'. do_close env s = Inr (r, s') \<longrightarrow> fp_ok s' \<and> r = (if file_of (fs_arg s 0) s = None then EBADF else OK) \<and>
        none_left (fs_fp s) {d. d < OPEN_MAX \<and> int d = fs_arg s 0} s s') \<and>
    (\<forall>f rip. file_of (fs_arg s 0) s = Some f \<and> filp_count (filps s f) > 1 \<and> filp_ino (filps s f) = Some rip \<and> \<not> i_pipe (inodes s rip) \<and>
        nr_locks s = 0 \<longrightarrow> (\<exists>s'. do_close env s = Inr (OK, s'))) \<and>
    (let rfd = sint (fs_word s 0 AND NOT 0x40) in
      (\<forall>r s'. do_dup env s = Inr (r, s') \<longrightarrow> fp_ok s' \<and>
        (0 \<le> r \<longrightarrow> file_of rfd s \<noteq> None \<and> r < int OPEN_MAX \<and> same_file r (file_of rfd s) s s')) \<and>
      (fs_arg s 0 = rfd \<longrightarrow> (\<exists>r s'. do_dup env s = Inr (r, s')))) \<and>
    (fs_who s = PM_PROC_NR \<longrightarrow>
      ((\<forall>fd < OPEN_MAX. fp_filp (fprocs s (fs_arg s 1)) fd = None) \<longrightarrow>
        (\<forall>r s'. do_fork_fs s = Inr (r, s') \<longrightarrow> fp_ok s' \<and>
          (\<forall>n. fp_filp (fprocs s' n) = fp_filp (fprocs s (if n = fs_arg s 1 then fs_arg s 0 else n))))) \<and>
      (fs_arg s 0 \<in> {0..<NR_PROCS} \<and> fs_arg s 1 \<in> {0..<NR_PROCS} \<and> fp_rootdir (fprocs s (fs_arg s 0)) \<noteq> None \<and>
        fp_workdir (fprocs s (fs_arg s 0)) \<noteq> None \<longrightarrow> (\<exists>s'. do_fork_fs s = Inr (OK, s'))) \<and>
      (\<forall>r s'. do_exec_fs env s = Inr (r, s') \<longrightarrow> fp_ok s' \<and>
        none_left (fs_arg s 0) {d. d < OPEN_MAX \<and> bit (fp_cloexec (fprocs s (fs_arg s 0))) d} s s') \<and>
      (\<forall>r s'. do_exit_fs env s = Inr (r, s') \<longrightarrow> fp_ok s' \<and> none_left (fs_arg s 0) {..<OPEN_MAX} s s'))"
proof (unfold Let_def, intro conjI allI impI)
  fix r s' assume c: "do_close env s = Inr (r, s')"
  show "fp_ok s'" "r = (if file_of (fs_arg s 0) s = None then EBADF else OK)" using do_close_counts(1,2) [OF assms c] by auto
  show "none_left (fs_fp s) {d. d < OPEN_MAX \<and> int d = fs_arg s 0} s s'"
    unfolding none_left_def using do_close_counts(3) [OF assms c] by auto
next
  fix f rip
  assume "file_of (fs_arg s 0) s = Some f \<and> filp_count (filps s f) > 1 \<and> filp_ino (filps s f) = Some rip \<and> \<not> i_pipe (inodes s rip) \<and> nr_locks s = 0"
  then show "\<exists>s'. do_close env s = Inr (OK, s')" using do_close_returns by blast
next
  fix r s' assume "do_dup env s = Inr (r, s')"
  note d = do_dup_counts [OF assms this]
  then show "fp_ok s'" by blast
  show "same_file r (file_of (sint (fs_word s 0 AND NOT 0x40)) s) s s'" "file_of (sint (fs_word s 0 AND NOT 0x40)) s \<noteq> None" "r < int OPEN_MAX"
    if "0 \<le> r" using d that by blast+
next
  assume "fs_arg s 0 = sint (fs_word s 0 AND NOT 0x40)"
  then show "\<exists>r s'. do_dup env s = Inr (r, s')" by (rule do_dup_returns)
next
  fix r s' n
  assume p: "fs_who s = PM_PROC_NR" "\<forall>fd < OPEN_MAX. fp_filp (fprocs s (fs_arg s 1)) fd = None" "do_fork_fs s = Inr (r, s')"
  have q: "fp_filp (fprocs s (fs_arg s 1)) fd = None" if "fd < OPEN_MAX" for fd using p(2) that by blast
  show "fp_ok s'" by (rule do_fork_counts(1) [OF assms p(3,1) q])
  show "fp_filp (fprocs s' n) = fp_filp (fprocs s (if n = fs_arg s 1 then fs_arg s 0 else n))"
    using do_fork_counts(2) [OF assms p(3,1) q, of n] by (cases "n = fs_arg s 1") simp_all
next
  assume "fs_who s = PM_PROC_NR" "fs_arg s 0 \<in> {0..<NR_PROCS} \<and> fs_arg s 1 \<in> {0..<NR_PROCS} \<and> fp_rootdir (fprocs s (fs_arg s 0)) \<noteq> None \<and>
        fp_workdir (fprocs s (fs_arg s 0)) \<noteq> None"
  then show "\<exists>s'. do_fork_fs s = Inr (OK, s')" by (intro do_fork_returns) simp_all
next
  fix r s' assume p: "fs_who s = PM_PROC_NR"
  show "fp_ok s'" "none_left (fs_arg s 0) {d. d < OPEN_MAX \<and> bit (fp_cloexec (fprocs s (fs_arg s 0))) d} s s'" if "do_exec_fs env s = Inr (r, s')"
    using do_exec_counts [OF assms that p] by blast+
  show "fp_ok s'" "none_left (fs_arg s 0) {..<OPEN_MAX} s s'" if "do_exit_fs env s = Inr (r, s')"
    using do_exit_counts [OF assms that p] by blast+
qed

text \<open>A process with one open file.\<close>

definition sample_file :: fsstate where
  "sample_file = upd_filp 3 (\<lambda>f. f\<lparr>filp_count := 1, filp_ino := Some 0\<rparr>)
     (upd_fp 8 (\<lambda>p. p\<lparr>fp_filp := (fp_filp p)(0 := Some 3)\<rparr>) (fs_bss\<lparr>fs_fp := 8\<rparr>))"

lemma sample_file_simps:
  "fp_filp (fprocs sample_file p) d = (if p = 8 \<and> d = 0 then Some 3 else None)" "filp_count (filps sample_file f) = (if f = 3 then 1 else 0)"
  "fs_fp sample_file = 8" "fs_word sample_file 0 = 0" "fs_arg sample_file 0 = 0"
  by (simp_all add: sample_file_def upd_filp_def upd_fp_def fs_bss_def zero_fproc_def zero_filp_def zero_message_def int_field_def)

lemma sample_file_ok: "fp_ok sample_file"
proof -
  have "refs (fview sample_file) f = (if f = 3 then {(8, 0)} else {})" for f unfolding refs_def fview_parts sample_file_simps by auto
  then show ?thesis unfolding fp_ok_def counted_def fview_parts sample_file_simps by auto
qed

lemma sample_dup: "\<exists>s'. do_dup quiet_env sample_file = Inr (1, s')"
proof -
  let ?s = "sample_file\<lparr>err_code := EBADF\<rparr>"
  have "[0..<OPEN_MAX] = 0 # 1 # [2..<OPEN_MAX]" "[0..<NR_FILPS] = 0 # [1..<NR_FILPS]" by (simp_all add: upt_conv_Cons)
  then have "\<exists>s'. get_fd 0 0 ?s = (Inr (1, 0), s')" by (simp add: get_fd_def sample_file_simps del: upt_rec_numeral)
  moreover have "get_filp 0 sample_file = (Some 3, ?s)" by (simp add: get_filp_def sample_file_simps)
  ultimately show ?thesis by (auto simp: do_dup_def sample_file_simps)
qed

theorem filp_counts_witness:
  "\<exists>s'. do_dup quiet_env sample_file = Inr (1, s') \<and> fp_ok s' \<and> fp_filp (fprocs s' 8) 0 = Some 3 \<and> fp_filp (fprocs s' 8) 1 = Some 3"
proof -
  obtain s' where d: "do_dup quiet_env sample_file = Inr (1, s')" using sample_dup by blast
  have f: "file_of (sint (fs_word sample_file 0 AND NOT 0x40)) sample_file = Some 3" by (simp add: get_filp_def sample_file_simps)
  from filp_counts [OF sample_file_ok, of quiet_env, unfolded Let_def f] d have "fp_ok s' \<and> same_file 1 (Some 3) sample_file s'" by fastforce
  then show ?thesis using d by (auto simp: same_file_def sample_file_simps)
qed

end
