(* ===== verification/Spec2Isabelle.thy ===== *)
theory Spec2Isabelle
  imports Sys_Task Pm_Main Pm_End Fs_Main Fs_Lru Fs_Locks Fs_Sort Fs_Disk Fs_Bitmap Fs_Miss Fs_Files
begin

text \<open>
  \<^bold>\<open>A verification development for the MINIX 3 operating system.\<close>

  MINIX is a microkernel (\<open>src/src/kernel\<close>) below user-mode servers and drivers. The kernel
  schedules processes, passes messages between them, and runs two tasks in kernel mode: the clock
  task and the system task, which carries out the kernel calls that servers and drivers request by
  message. Above it, the process manager (\<open>src/src/servers/pm\<close>) has the calls on processes, memory and
  signals, and the file system server (\<open>src/src/servers/fs\<close>) those on files. The development models the
  kernel for the 32-bit Intel build (\<open>CHIP = INTEL\<close>, \<open>_WORD_SIZE = 4\<close>, all \<open>USE_\<close> options of
  \<open>config.h\<close> on), the library code it rests on, and the two servers.

  \<^bold>\<open>State and effects.\<close> The variables of the kernel are one record \<open>kstate\<close> (theory
  \<open>Kernel_State\<close>); a function that changes them takes the record and returns the new one. Pointers
  into a table are indices (\<open>int\<close> process numbers, \<open>nat\<close> privilege ids, hook and timer names);
  \<open>None\<close> is the null pointer. Physical memory is a function from 32-bit addresses to bytes. A
  function that can go wrong returns \<open>fault + 'a\<close>: \<open>Inl\<close> is an access out of bounds, a null
  dereference, a loop that does not end (\<open>Hang\<close>) or \<open>panic\<close>; \<open>Inr\<close> is a normal return, where the
  error codes of the source are ordinary results. Machine words are \<open>32 word\<close> and \<open>8 word\<close> where
  the code computes modulo the width; signed C variables are \<open>int\<close>, wrapped by \<open>schar\<close> and similar
  conversions where the code can overflow them.

  \<^bold>\<open>Loops.\<close> A loop over a linked list in the source is \<open>walk\<close> of \<open>Minix_Prelude\<close>, which follows
  the links as long as they go and has the value \<open>None\<close> when they never end; so no fuel is chosen,
  and each theorem that a loop ends is proved from the invariant that the list is finite. Loops with
  a counter are structural recursion. Where one round of an infinite server loop is modelled, its
  name ends in \<open>_step\<close>.

  \<^bold>\<open>Theories, in the order of their imports.\<close>

  \<^item> \<open>Minix_Prelude\<close>: C conversions, flag bits, the result monad \<open>bindr\<close>, and the locale
    \<open>linked_list\<close> of singly linked lists with a head cell (insert, unlink, append, walk). It is
    interpreted on the ready queues (\<open>rq\<close>), caller queues (\<open>cq\<close>), hook chains (\<open>hk\<close>) and timer
    queues (\<open>tlist\<close>).
  \<^item> \<open>Strtol\<close>: \<open>lib/ansi/strtol.c\<close>, \<open>atoi.c\<close>; the value of a numeral is exact or cut off.
  \<^item> \<open>Timers\<close>: \<open>lib/timers\<close>; the locale \<open>timer_queue\<close> is the contract that the clock relies on.
  \<^item> \<open>Phys_Mem\<close>: \<open>cp_mess\<close>, \<open>phys_copy\<close>, \<open>phys_memset\<close> of \<open>klib386.s\<close>, with the order of their
    copies; equivalence with a block copy.
  \<^item> \<open>Kernel_State\<close>: \<open>proc.h\<close>, \<open>priv.h\<close>, \<open>type.h\<close>, \<open>glo.h\<close>, and signal sets; the locale
    \<open>bit_set\<close>, interpreted on the maps of system processes and on signal sets.
  \<^item> \<open>Sched\<close>: \<open>sched\<close>, \<open>enqueue\<close>, \<open>dequeue\<close>, \<open>pick_proc\<close> of \<open>proc.c\<close>. The pointer code refines
    operations on sixteen lists; the locale \<open>ready_queues\<close> is what message passing needs of it.
  \<^item> \<open>Ipc\<close>, \<open>Syscall\<close>: \<open>mini_send\<close>, \<open>mini_receive\<close>, \<open>mini_notify\<close>, \<open>sys_call\<close> of \<open>proc.c\<close>; the
    invariant \<open>kwf\<close> of the kernel: the ready queues hold exactly the processes with no flags, and
    the caller queues exactly the processes that send.
  \<^item> \<open>Kmess\<close>: \<open>kprintf\<close> and \<open>kputc\<close> of \<open>utility.c\<close> and the ring of kernel messages.
  \<^item> \<open>Irq\<close>, \<open>Protect\<close>: \<open>i8259.c\<close>, \<open>protect.c\<close>.
  \<^item> \<open>Clock\<close>: \<open>clock.c\<close>.
  \<^item> \<open>Sys_Copy\<close>, \<open>Sys_Proc\<close>, \<open>Sys_Dev\<close>, \<open>System\<close>: the kernel calls of \<open>system.c\<close> and
    \<open>system/do_*.c\<close>, by group (memory, processes and signals, devices and information) and the
    dispatch of \<open>sys_task\<close>.
  \<^item> \<open>Boot\<close>: \<open>start.c\<close>, \<open>table.c\<close>, \<open>main.c\<close>; \<open>main\<close> establishes the invariant.
  \<^item> \<open>Proc_Life\<close>, \<open>Kernel_Signals\<close>, \<open>Sys_Task\<close>: theorems about the kernel calls: fork, exit and
    nice keep the invariant; the life of a signal; which requests the system task serves whatever
    their arguments.

  \<^bold>\<open>The process manager\<close> (\<open>servers/pm\<close>), state \<open>pmstate\<close>:

  \<^item> \<open>Pm_State\<close>: \<open>mproc.h\<close>, \<open>glo.h\<close>, \<open>param.h\<close>; requests, answers and the log.
  \<^item> \<open>Pm_Alloc\<close>: the hole list of \<open>alloc.c\<close>, an implementation of a set of free clicks.
  \<^item> \<open>Pm_Proc\<close>: replies, \<open>break.c\<close>, \<open>timers.c\<close>, \<open>utility.c\<close>.
  \<^item> \<open>Pm_Swap\<close>: \<open>alloc_mem\<close> with swapping; the memory invariant \<open>pm_mem\<close>: the blocks of the processes,
    the blocks handed out and the holes are disjoint.
  \<^item> \<open>Pm_Signal\<close>, \<open>Pm_Fork\<close>, \<open>Pm_Exec\<close>, \<open>Pm_Calls\<close>, \<open>Pm_Main\<close>: \<open>signal.c\<close>, \<open>forkexit.c\<close>, \<open>trace.c\<close>,
    \<open>exec.c\<close>, \<open>getset.c\<close>, \<open>time.c\<close>, \<open>misc.c\<close>, \<open>table.c\<close>, \<open>main.c\<close>. \<open>pm_exit\<close> and the sending of signals call each
    other; the model bounds the depth of this recursion by \<open>PM_DEPTH = 65\<close>, which is enough because
    every level has ended one more of the 64 processes; \<open>Pm_End\<close> proves that the bound is never met.
  \<^item> \<open>Pm_Inv\<close>, \<open>Pm_End\<close>: the invariant \<open>pm_ok\<close> and its preservation by signals, the end of a process, and fork.

  \<^bold>\<open>The file system server\<close> (\<open>servers/fs\<close>), state \<open>fsstate\<close>:

  \<^item> \<open>Fs_State\<close>, \<open>Fs_Dev\<close>: the tables, requests and the log; calls of drivers, \<open>suspend\<close> and \<open>revive\<close>.
    A call to a driver repeats until it is answered: \<open>partial_function\<close>, with \<open>Hang\<close> if it never is.
  \<^item> \<open>Fs_Cache\<close>: \<open>cache.c\<close>. \<open>Fs_Super\<close>, \<open>Fs_Inode\<close>, \<open>Fs_Map\<close>: \<open>super.c\<close>, \<open>inode.c\<close>, the map of zones.
  \<^item> \<open>Fs_Path\<close>: \<open>path.c\<close>, \<open>protect.c\<close>. For \<open>..\<close> in the root of a mounted
    file system \<open>advance\<close> calls itself; its fuel \<open>NR_SUPERS + 1\<close> is one more than the file systems that can be left in
    this way. The walk over the components of a path has the length of the path as fuel, which every
    component shortens. No theorem rests on these two bounds.
  \<^item> \<open>Fs_Lock\<close>, \<open>Fs_Select\<close>, \<open>Fs_Rw\<close>, \<open>Fs_Open\<close>, \<open>Fs_Http\<close>, \<open>Fs_Calls\<close>, \<open>Fs_Main\<close>: descriptors and locks, timers, pipes and
    \<open>select\<close>, reading and writing, opening and closing, URLs, calls on names, mounting, the calls of the
    process manager, and the main loop. The uninitialised buffer for the port of a URL is the argument \<open>junk\<close>
    of the functions that read it; \<open>connect\<close>, a call of the server to itself, is \<open>Hang\<close>.
  \<^item> \<open>Fs_Sample\<close>, \<open>Fs_Lru\<close>, \<open>Fs_Miss\<close>, \<open>Fs_Sort\<close>, \<open>Fs_Disk\<close>, \<open>Fs_Bitmap\<close>, \<open>Fs_Locks\<close>, \<open>Fs_Files\<close>: the theorems. The
    cache is a queue of free buffers over a set of blocks (\<open>cache_rep\<close>), for all histories of \<open>get_block\<close> and
    \<open>put_block\<close>, and is interpreted as an instance of a locale of block stores;
    the order in which buffers are written is sorted; inodes survive the way to
    the disk and back; allocated bits can be freed; locks are a relation between processes and bytes; the
    counts of open files are right.

  \<^bold>\<open>What the theorems show.\<close> (1) Scheduling and message passing: every operation ends, keeps \<open>kwf\<close>
  and implements lists of processes and queues of senders; a deadlock is reported exactly when there
  is one; messages arrive unchanged, in order. (2) The clock: timers expire in order and exactly
  when due, quanta end. (3) Memory: copies are exact and confined to the destination; segments
  cover what they should. (4) The system task and the process calls keep \<open>kwf\<close>; signals are
  delivered once. (5) The start of the kernel establishes \<open>kwf\<close>. (6) The memory of processes is disjoint, and is
  given back when they end. (7) The buffer cache, the disk inodes and bit maps, the locks and the counts of the
  file system are as described above. Some theorems show flaws of
  the code on concrete inputs (the names ending in \<open>_hangs\<close>, \<open>_overlooks_notification\<close>,
  \<open>_send_any\<close>, \<open>_wrong_hook\<close>, \<open>_wraps\<close>, \<open>_denied\<close>).

  \<^bold>\<open>Parameters.\<close> What the hardware answers (ports, the time-stamp counter, the BIOS) and the byte
  images of kernel structures that \<open>do_getinfo\<close> copies out are fields of a record passed to the
  functions that use them; watchdog functions and interrupt handlers are arguments. A server reaches
  the rest of the system only by requests: it keeps the list of those it made (\<open>pm_log\<close>, \<open>fs_log\<close>), and
  an argument \<open>env\<close> (\<open>pm_env\<close>, \<open>fs_env\<close>) gives the answer to a request as a function of the earlier ones.
  The theorems hold for every \<open>env\<close>, or name what they need of it: \<open>trace_bounded\<close> (the kernel
  refuses to read beyond the register area of a process, which ends the loop of a core dump), and
  \<open>answered\<close> and \<open>driver_writes\<close> (a disk driver that replies, and writes what it is given).

  \<^bold>\<open>Not modelled.\<close> The assembly entry and exit of the kernel and the real-mode variants; \<open>debug.c\<close>;
  the final \<open>shutdown\<close>, which leaves the kernel; the second level cache of the file system (\<open>cache2.c\<close>), which is
  not compiled in; device drivers, the network, information and reincarnation servers, the boot monitor, and the user-level library, which is either hardware
  input and output or glue around system calls.
\<close>

end
